(* ===== verification/Sandbox_Prelude.thy ===== *)
theory Sandbox_Prelude
  imports Main "HOL-Library.Word" "HOL-Library.List_Lexorder" "HOL-Library.Char_ord"
begin

text \<open>
  Shared ground of the development: the machine integers of the Rust sources, ordered maps
  (\<open>BTreeMap\<close>) as key-sorted association lists, the text validators every crate repeats
  (opaque identifiers, lowercase hexadecimal fingerprints), decimal printing, and the two
  interfaces many components share: contract names of an enum (\<open>as_str\<close> / \<open>parse\<close>) and closed
  state-transition tables.
\<close>

named_theorems btm_simps \<open>lookup equations of ordered maps\<close>
named_theorems sat_arith \<open>bounds of saturating and checked machine arithmetic\<close>

section \<open>Machine integers\<close>

text \<open>
  Unsigned integers are words of their width. The signed 64-bit integers of the code (fencing
  tokens, versions, capacity revisions) are \<open>int\<close> with the range written out where the code
  checks or saturates. \<open>usize\<close> counts are \<open>nat\<close>.
\<close>

type_synonym u64 = "64 word"
type_synonym u32 = "32 word"
type_synonym i64 = int

definition i64_max :: i64 where
  "i64_max = 9223372036854775807"

definition i64_checked_succ :: "i64 \<Rightarrow> i64 option" where
  "i64_checked_succ x = (if x < i64_max then Some (x + 1) else None)"

definition i64_saturating_succ :: "i64 \<Rightarrow> i64" where
  "i64_saturating_succ x = (if x < i64_max then x + 1 else i64_max)"

definition u64_checked_succ :: "u64 \<Rightarrow> u64 option" where
  "u64_checked_succ x = (if x < - 1 then Some (x + 1) else None)"

definition u64_saturating_add :: "u64 \<Rightarrow> u64 \<Rightarrow> u64" where
  "u64_saturating_add x y = (if unat x + unat y < 2 ^ 64 then x + y else - 1)"

definition u64_saturating_sub :: "u64 \<Rightarrow> u64 \<Rightarrow> u64" where
  "u64_saturating_sub x y = (if y \<le> x then x - y else 0)"

definition u32_saturating_succ :: "u32 \<Rightarrow> u32" where
  "u32_saturating_succ x = (if x < - 1 then x + 1 else - 1)"

definition u32_saturating_sub :: "u32 \<Rightarrow> u32 \<Rightarrow> u32" where
  "u32_saturating_sub x y = (if y \<le> x then x - y else 0)"

lemma unat_u64_max [simp]: "unat (- 1 :: u64) = 18446744073709551615"
  by (simp add: unsigned_minus_1_eq_mask mask_eq_exp_minus_1)

lemma unat_u32_max [simp]: "unat (- 1 :: u32) = 4294967295"
  by (simp add: unsigned_minus_1_eq_mask mask_eq_exp_minus_1)

lemma unat_u64_less: "unat (x :: u64) < 18446744073709551616"
  using unsigned_less [of x] by simp

lemma unat_u32_less: "unat (x :: u32) < 4294967296"
  using unsigned_less [of x] by simp

lemma i64_checked_succ_Some [sat_arith]:
  "i64_checked_succ x = Some y \<Longrightarrow> y = x + 1 \<and> y \<le> i64_max"
  by (auto simp: i64_checked_succ_def split: if_splits)

lemma i64_saturating_succ_range [sat_arith]:
  "x \<le> i64_max \<Longrightarrow> x \<le> i64_saturating_succ x \<and> i64_saturating_succ x \<le> i64_max"
  by (auto simp: i64_saturating_succ_def)

lemma u64_checked_succ_Some [sat_arith]:
  assumes "u64_checked_succ x = Some y"
  shows "unat y = Suc (unat x)"
proof -
  from assms have *: "x < - 1" "y = x + 1"
    by (auto simp: u64_checked_succ_def split: if_splits)
  then have "x + 1 \<noteq> 0"
    by (metis add.right_inverse add_right_cancel less_irrefl add.commute)
  with * show ?thesis
    by (simp add: unatSuc add.commute)
qed

lemma u64_saturating_add_unat [sat_arith]:
  "unat (u64_saturating_add x y) = min (unat x + unat y) (2 ^ 64 - 1)"
  by (auto simp: u64_saturating_add_def unat_word_ariths)

lemma u64_saturating_add_ge: "x \<le> u64_saturating_add x y"
  using unat_u64_less [of x] by (simp add: word_le_nat_alt u64_saturating_add_unat)

lemma u64_saturating_add_gr:
  assumes "0 < y" "x < - 1"
  shows "x < u64_saturating_add x y"
proof -
  have "unat x < 2 ^ 64 - 1"
    using assms(2) by (simp add: word_less_nat_alt)
  moreover have "0 < unat y"
    using assms(1) by (simp add: word_less_nat_alt)
  ultimately show ?thesis
    by (simp add: word_less_nat_alt u64_saturating_add_unat)
qed

lemma u64_saturating_sub_unat [sat_arith]:
  "unat (u64_saturating_sub x y) = unat x - unat y"
  by (auto simp: u64_saturating_sub_def unat_sub word_le_nat_alt)

lemma u32_saturating_succ_unat [sat_arith]:
  "unat (u32_saturating_succ x) = min (Suc (unat x)) (2 ^ 32 - 1)"
proof (cases "x < - 1")
  case True
  then have "x + 1 \<noteq> 0"
    by (metis add.right_inverse add_right_cancel less_irrefl add.commute)
  then have "unat (x + 1) = Suc (unat x)"
    by (simp add: unatSuc add.commute)
  moreover have "Suc (unat x) \<le> 2 ^ 32 - 1"
    using True by (simp add: word_less_nat_alt)
  ultimately show ?thesis
    using True by (simp add: u32_saturating_succ_def)
next
  case False
  then have "x = - 1"
    using word_order.not_eq_extremum by auto
  then show ?thesis
    by (simp add: u32_saturating_succ_def)
qed

lemma u32_saturating_sub_unat [sat_arith]:
  "unat (u32_saturating_sub x y) = unat x - unat y"
  by (auto simp: u32_saturating_sub_def unat_sub word_le_nat_alt)


section \<open>Ordered maps\<close>

text \<open>
  A \<open>BTreeMap\<close> is the list of its entries in ascending key order, which is also the order in
  which the code iterates over it. Lookup after insert and remove needs no invariant; iteration
  and length do (\<open>btm_ok\<close>).
\<close>

type_synonym ('k, 'v) btree = "('k \<times> 'v) list"

definition btm_get :: "('k, 'v) btree \<Rightarrow> 'k \<Rightarrow> 'v option" where
  "btm_get m k = map_of m k"

fun btm_insert :: "'k :: linorder \<Rightarrow> 'v \<Rightarrow> ('k, 'v) btree \<Rightarrow> ('k, 'v) btree" where
  "btm_insert k v [] = [(k, v)]"
| "btm_insert k v ((a, b) # m) =
     (if k < a then (k, v) # (a, b) # m
      else if k = a then (k, v) # m
      else (a, b) # btm_insert k v m)"

definition btm_remove :: "'k \<Rightarrow> ('k, 'v) btree \<Rightarrow> ('k, 'v) btree" where
  "btm_remove k m = filter (\<lambda>e. fst e \<noteq> k) m"

definition btm_ok :: "('k :: linorder, 'v) btree \<Rightarrow> bool" where
  "btm_ok m = sorted_wrt (<) (map fst m)"

definition btm_contains :: "('k, 'v) btree \<Rightarrow> 'k \<Rightarrow> bool" where
  "btm_contains m k = (btm_get m k \<noteq> None)"

text \<open>The interface: what a client of an ordered map relies on.\<close>

locale ordered_map =
  fixes empty :: "'m"
    and get :: "'m \<Rightarrow> 'k :: linorder \<Rightarrow> 'v option"
    and insert :: "'k \<Rightarrow> 'v \<Rightarrow> 'm \<Rightarrow> 'm"
    and remove :: "'k \<Rightarrow> 'm \<Rightarrow> 'm"
    and entries :: "'m \<Rightarrow> ('k \<times> 'v) list"
    and ok :: "'m \<Rightarrow> bool"
  assumes get_empty: "get empty k = None"
    and get_insert: "get (insert k v m) k' = (if k' = k then Some v else get m k')"
    and get_remove: "get (remove k m) k' = (if k' = k then None else get m k')"
    and ok_empty: "ok empty"
    and ok_insert: "ok m \<Longrightarrow> ok (insert k v m)"
    and ok_remove: "ok m \<Longrightarrow> ok (remove k m)"
    and entries_get: "ok m \<Longrightarrow> (k, v) \<in> set (entries m) \<longleftrightarrow> get m k = Some v"
    and entries_sorted: "ok m \<Longrightarrow> sorted_wrt (<) (map fst (entries m))"
begin

lemma entries_distinct: "ok m \<Longrightarrow> distinct (map fst (entries m))"
  using entries_sorted strict_sorted_iff by blast

lemma keys_eq: "ok m \<Longrightarrow> set (map fst (entries m)) = {k. get m k \<noteq> None}"
  by (auto simp: entries_get image_iff) (metis entries_get fst_conv)

lemma length_entries: "ok m \<Longrightarrow> length (entries m) = card {k. get m k \<noteq> None}"
  using distinct_card [OF entries_distinct] keys_eq by fastforce

lemma finite_keys: "ok m \<Longrightarrow> finite {k. get m k \<noteq> None}"
  using keys_eq by (metis List.finite_set)

lemma length_insert_new:
  assumes "ok m" "get m k = None"
  shows "length (entries (insert k v m)) = Suc (length (entries m))"
proof -
  have "{k'. get (insert k v m) k' \<noteq> None} = Set.insert k {k'. get m k' \<noteq> None}"
    by (auto simp: get_insert)
  then have "card {k'. get (insert k v m) k' \<noteq> None} = Suc (card {k'. get m k' \<noteq> None})"
    using assms finite_keys [OF assms(1)] by (metis (mono_tags, lifting) card_insert_disjoint mem_Collect_eq)
  then show ?thesis
    using assms(1) by (simp only: length_entries ok_insert)
qed

lemma length_insert_old:
  assumes "ok m" "get m k \<noteq> None"
  shows "length (entries (insert k v m)) = length (entries m)"
proof -
  have "{k'. get (insert k v m) k' \<noteq> None} = {k'. get m k' \<noteq> None}"
    using assms(2) by (auto simp: get_insert)
  with assms show ?thesis
    by (simp add: length_entries ok_insert)
qed

lemma values_iff: "ok m \<Longrightarrow> v \<in> snd ` set (entries m) \<longleftrightarrow> (\<exists>k. get m k = Some v)"
  by (force simp: entries_get [symmetric])

lemma entries_unique:
  assumes "ok m" "ok m'" "\<And>k. get m k = get m' k"
  shows "entries m = entries m'"
proof -
  have set: "set (entries m) = set (entries m')"
    using assms by (auto simp: entries_get)
  have keys: "sorted (map fst (entries m))" "distinct (map fst (entries m))"
    "sorted (map fst (entries m'))" "distinct (map fst (entries m'))"
    using assms entries_sorted strict_sorted_iff by blast+
  have "inj_on fst (set (entries m) \<union> set (entries m'))"
    using keys(2) set by (simp add: distinct_map)
  from map_sorted_distinct_set_unique [OF this keys set] show ?thesis .
qed

end

lemma btm_insert_keys:
  "set (map fst (btm_insert k v m)) = insert k (set (map fst m))"
  by (induction k v m rule: btm_insert.induct) auto

lemma btm_insert_ok: "btm_ok m \<Longrightarrow> btm_ok (btm_insert k v m)"
proof (induction k v m rule: btm_insert.induct)
  case (2 k v a b m)
  then show ?case
    using btm_insert_keys [of k v m] by (auto simp: btm_ok_def)
qed (simp add: btm_ok_def)

lemma btm_get_insert:
  "btm_get (btm_insert k v m) k' = (if k' = k then Some v else btm_get m k')"
  by (induction k v m rule: btm_insert.induct) (auto simp: btm_get_def)

lemma btm_get_remove:
  "btm_get (btm_remove k m) k' = (if k' = k then None else btm_get m k')"
  by (induction m) (auto simp: btm_get_def btm_remove_def)

lemma btm_remove_ok: "btm_ok m \<Longrightarrow> btm_ok (btm_remove k m)"
  by (induction m) (auto simp: btm_ok_def btm_remove_def)

lemma btm_entries: "btm_ok m \<Longrightarrow> (k, v) \<in> set m \<longleftrightarrow> btm_get m k = Some v"
  by (simp add: btm_ok_def btm_get_def strict_sorted_iff)

interpretation btm: ordered_map "[]" btm_get btm_insert btm_remove "\<lambda>m. m" btm_ok
  by unfold_locales
    (auto simp: btm_get_insert btm_get_remove btm_insert_ok btm_remove_ok btm_entries,
     simp_all add: btm_get_def btm_ok_def)

lemma btm_contains_insert [btm_simps, simp]:
  "btm_contains (btm_insert k v m) k' \<longleftrightarrow> k' = k \<or> btm_contains m k'"
  by (simp add: btm_contains_def btm.get_insert)

lemma btm_contains_remove [btm_simps, simp]:
  "btm_contains (btm_remove k m) k' \<longleftrightarrow> k' \<noteq> k \<and> btm_contains m k'"
  by (simp add: btm_contains_def btm_get_remove)

lemma btm_contains_empty [btm_simps, simp]: "\<not> btm_contains [] k"
  by (simp add: btm_contains_def btm_get_def)

lemma btm_containsI: "btm_get m k = Some v \<Longrightarrow> btm_contains m k"
  by (simp add: btm_contains_def)

lemma btm_containsE:
  assumes "btm_contains m k"
  obtains v where "btm_get m k = Some v"
  using assms by (auto simp: btm_contains_def)

lemma btm_not_contains: "\<not> btm_contains m k \<longleftrightarrow> btm_get m k = None"
  by (simp add: btm_contains_def)

declare btm.get_empty [btm_simps, simp] btm.get_insert [btm_simps, simp]
  btm.get_remove [btm_simps, simp] btm.ok_empty [simp] btm.ok_insert [simp, intro]
  btm.ok_remove [simp, intro]


section \<open>Text validators\<close>

text \<open>
  A Rust \<open>String\<close> is its sequence of UTF-8 bytes, so \<open>length\<close> is \<open>str::len\<close>. A character
  outside ASCII is a sequence of bytes above 127, none of which is an ASCII graphic byte: the
  per-character check of the code and the per-byte check below agree.
\<close>

definition is_ascii_graphic :: "char \<Rightarrow> bool" where
  "is_ascii_graphic c \<longleftrightarrow> 33 \<le> (of_char c :: nat) \<and> (of_char c :: nat) \<le> 126"

definition is_whitespace :: "char \<Rightarrow> bool" where
  "is_whitespace c \<longleftrightarrow> (of_char c :: nat) \<in> set [9, 10, 11, 12, 13, 32]"

definition is_hex_lower :: "char \<Rightarrow> bool" where
  "is_hex_lower c \<longleftrightarrow>
     (48 \<le> (of_char c :: nat) \<and> (of_char c :: nat) \<le> 57) \<or>
     (97 \<le> (of_char c :: nat) \<and> (of_char c :: nat) \<le> 102)"

fun str_starts_with :: "string \<Rightarrow> string \<Rightarrow> bool" where
  "str_starts_with [] s = True"
| "str_starts_with (p # ps) [] = False"
| "str_starts_with (p # ps) (c # s) = (p = c \<and> str_starts_with ps s)"

fun str_contains :: "string \<Rightarrow> string \<Rightarrow> bool" where
  "str_contains p [] = str_starts_with p []"
| "str_contains p (c # s) = (str_starts_with p (c # s) \<or> str_contains p s)"

definition opaque_text :: "nat \<Rightarrow> string \<Rightarrow> bool" where
  "opaque_text limit v \<longleftrightarrow>
     v \<noteq> [] \<and> length v \<le> limit
     \<and> list_all (\<lambda>c. is_ascii_graphic c \<and> \<not> is_whitespace c) v
     \<and> \<not> str_starts_with ''/'' v
     \<and> \<not> str_contains ''://'' v"

definition hex_fingerprint :: "string \<Rightarrow> bool" where
  "hex_fingerprint v \<longleftrightarrow> length v = 64 \<and> list_all is_hex_lower v"

lemma str_starts_with_set: "str_starts_with p s \<Longrightarrow> set p \<subseteq> set s"
  by (induction p s rule: str_starts_with.induct) auto

lemma str_contains_set: "str_contains p s \<Longrightarrow> set p \<subseteq> set s"
proof (induction s)
  case Nil
  then show ?case by (cases p) auto
next
  case (Cons c s)
  then show ?case
    using str_starts_with_set [of p "c # s"] by auto
qed

lemma opaque_textI:
  assumes "v \<noteq> []" "length v \<le> limit" "\<And>c. c \<in> set v \<Longrightarrow> is_ascii_graphic c"
    "CHR ''/'' \<notin> set v"
  shows "opaque_text limit v"
proof -
  have "\<not> str_starts_with ''/'' v" "\<not> str_contains ''://'' v"
    using assms(4) str_starts_with_set [of "''/''" v] str_contains_set [of "''://''" v] by auto
  moreover have "list_all (\<lambda>c. is_ascii_graphic c \<and> \<not> is_whitespace c) v"
    using assms(3) by (fastforce simp: list_all_iff is_whitespace_def is_ascii_graphic_def)
  ultimately show ?thesis
    using assms(1,2) by (simp add: opaque_text_def)
qed

lemma opaque_text_no_separator: "opaque_text limit v \<Longrightarrow> CHR '' '' \<notin> set v"
  by (auto simp: opaque_text_def list_all_iff is_ascii_graphic_def)

section \<open>Decimal printing\<close>

text \<open>\<open>format!("{n}")\<close> of an unsigned number.\<close>

fun decimal :: "nat \<Rightarrow> string" where
  "decimal n =
     (if n < 10 then [char_of (48 + n)] else decimal (n div 10) @ [char_of (48 + n mod 10)])"

declare decimal.simps [simp del]

fun undecimal :: "string \<Rightarrow> nat" where
  "undecimal s = foldl (\<lambda>acc c. acc * 10 + (of_char c - 48)) 0 s"

lemma undecimal_decimal: "undecimal (decimal n) = n"
proof (induction n rule: decimal.induct)
  case (1 n)
  have digit: "(of_char (char_of (48 + d)) :: nat) = 48 + d" if "d < 10" for d :: nat
    using that by (simp add: of_char_of)
  show ?case
  proof (cases "n < 10")
    case True
    then show ?thesis by (simp add: decimal.simps [of n] digit)
  next
    case False
    then have "undecimal (decimal n) = undecimal (decimal (n div 10)) * 10 + n mod 10"
      by (simp add: decimal.simps [of n] digit)
    with 1 False show ?thesis by simp
  qed
qed

lemma decimal_inject: "decimal m = decimal n \<longleftrightarrow> m = n"
  by (metis undecimal_decimal)

lemma decimal_digits: "c \<in> set (decimal n) \<Longrightarrow> 48 \<le> (of_char c :: nat) \<and> (of_char c :: nat) \<le> 57"
proof (induction n rule: decimal.induct)
  case (1 n)
  have digit: "(of_char (char_of (48 + d)) :: nat) = 48 + d" if "d < 10" for d :: nat
    using that by (simp add: of_char_of)
  from 1 show ?case
    by (cases "n < 10") (auto simp: decimal.simps [of n] digit)
qed

lemma decimal_length: "n < 10 ^ Suc k \<Longrightarrow> length (decimal n) \<le> Suc k"
proof (induction k arbitrary: n)
  case 0
  then show ?case by (simp add: decimal.simps)
next
  case (Suc k)
  have "n div 10 < 10 ^ Suc k"
    using Suc.prems by (simp add: less_mult_imp_div_less mult.commute)
  with Suc.IH show ?case by (subst decimal.simps) simp
qed

lemma decimal_nonempty: "decimal n \<noteq> []"
  by (subst decimal.simps) simp

section \<open>Contract names of an enum\<close>

text \<open>
  Every wire enum has \<open>as_str\<close> and a closed \<open>parse\<close>. Two laws make them a codec; the rest
  follows once for all enums.
\<close>

locale wire_names =
  fixes name :: "'a \<Rightarrow> string"
    and parse :: "string \<Rightarrow> 'a option"
  assumes parse_name: "parse (name x) = Some x"
    and name_parse: "parse s = Some x \<Longrightarrow> name x = s"
begin

lemma parse_iff: "parse s = Some x \<longleftrightarrow> s = name x"
  using parse_name name_parse by blast

lemma name_inject: "name x = name y \<longleftrightarrow> x = y"
  by (metis parse_name option.inject)

lemma parse_rejects: "parse s = None \<longleftrightarrow> s \<notin> range name"
  using parse_iff by (metis not_None_eq rangeE rangeI)

end

section \<open>Closed transition tables\<close>

text \<open>
  A lifecycle enum has a closed table of legal transitions and terminal states without
  successors. In a table that only moves forward (\<open>rank\<close>), no run repeats a state.
\<close>

locale closed_table =
  fixes can :: "'s \<Rightarrow> 's \<Rightarrow> bool"
    and terminal :: "'s \<Rightarrow> bool"
  assumes terminal_closed: "terminal s \<Longrightarrow> \<not> can s t"
begin

lemma terminal_stays: "can\<^sup>*\<^sup>* s t \<Longrightarrow> terminal s \<Longrightarrow> t = s"
  by (induction rule: converse_rtranclp_induct) (auto dest: terminal_closed)

lemma terminal_absorbs:
  "can\<^sup>*\<^sup>* s t \<Longrightarrow> terminal t \<Longrightarrow> can\<^sup>*\<^sup>* t u \<Longrightarrow> u = t"
  using terminal_stays by blast

end

locale forward_table = closed_table +
  fixes rank :: "'a \<Rightarrow> nat"
  assumes rank_mono: "can s t \<Longrightarrow> rank s < rank t"
begin

lemma rank_run: "can\<^sup>+\<^sup>+ s t \<Longrightarrow> rank s < rank t"
  by (induction rule: tranclp_induct) (auto dest: rank_mono)

lemma acyclic: "\<not> can\<^sup>+\<^sup>+ s s"
  using rank_run by blast

lemma run_length:
  "(can ^^ n) s t \<Longrightarrow> n \<le> rank t - rank s \<and> rank s \<le> rank t"
proof (induction n arbitrary: t)
  case (Suc n)
  then obtain u where "(can ^^ n) s u" "can u t" by auto
  with Suc.IH rank_mono show ?case by fastforce
qed simp

end


section \<open>Machines with an invariant, machines that only grow\<close>

text \<open>
  A registry is an initial state and a step relation. An invariant that every step keeps holds in
  every reachable state; a preorder every step respects holds between any state and its future.
\<close>

locale invariant_machine =
  fixes init :: "'s"
    and step :: "'s \<Rightarrow> 's \<Rightarrow> bool"
    and inv :: "'s \<Rightarrow> bool"
  assumes inv_init: "inv init"
    and inv_step: "step s t \<Longrightarrow> inv s \<Longrightarrow> inv t"
begin

lemma steps_inv: "step\<^sup>*\<^sup>* s t \<Longrightarrow> inv s \<Longrightarrow> inv t"
  by (induction rule: rtranclp_induct) (auto intro: inv_step)

lemma reachable_inv: "step\<^sup>*\<^sup>* init s \<Longrightarrow> inv s"
  using steps_inv inv_init by blast

end

locale growing_machine = invariant_machine +
  fixes grows :: "'a \<Rightarrow> 'a \<Rightarrow> bool"
  assumes grows_refl: "grows s s"
    and grows_trans: "grows s t \<Longrightarrow> grows t u \<Longrightarrow> grows s u"
    and grows_step: "step s t \<Longrightarrow> inv s \<Longrightarrow> grows s t"
begin

lemma steps_grow: "step\<^sup>*\<^sup>* s t \<Longrightarrow> inv s \<Longrightarrow> grows s t"
proof (induction rule: rtranclp_induct)
  case base
  show ?case by (rule grows_refl)
next
  case (step t u)
  then have "inv t" using steps_inv by blast
  with step show ?case using grows_trans grows_step by blast
qed

end

section \<open>Loops that return the first error\<close>

primrec first_error :: "('a \<Rightarrow> 'e option) \<Rightarrow> 'a list \<Rightarrow> 'e option" where
  "first_error f [] = None"
| "first_error f (x # xs) = (case f x of Some e \<Rightarrow> Some e | None \<Rightarrow> first_error f xs)"

lemma first_error_None: "first_error f xs = None \<longleftrightarrow> (\<forall>x\<in>set xs. f x = None)"
  by (induction xs) (auto split: option.split)

lemma first_error_Some: "first_error f xs = Some e \<Longrightarrow> \<exists>x\<in>set xs. f x = Some e"
  by (induction xs) (auto split: option.splits)

section \<open>Splitting a text\<close>

text \<open>\<open>str::split\<close> at the characters of a predicate: the segments between them, never none.\<close>

fun split_on :: "(char \<Rightarrow> bool) \<Rightarrow> string \<Rightarrow> string list" where
  "split_on sep [] = [[]]"
| "split_on sep (c # s) =
     (if sep c then [] # split_on sep s
      else (case split_on sep s of [] \<Rightarrow> [[c]] | w # ws \<Rightarrow> (c # w) # ws))"

lemma split_on_Cons: "\<exists>w ws. split_on sep s = w # ws"
  by (induction s) (auto split: list.split)

lemma split_on_no_sep: "\<forall>w\<in>set (split_on sep s). \<forall>c\<in>set w. \<not> sep c"
  by (induction s) (auto split: list.splits)

section \<open>Sums over an ordered map\<close>

lemma btm_insert_sum:
  fixes f :: "'k :: linorder \<times> 'v \<Rightarrow> nat"
  shows "btm_get m k = None \<Longrightarrow> sum_list (map f (btm_insert k v m)) = f (k, v) + sum_list (map f m)"
  by (induction k v m rule: btm_insert.induct) (auto simp: btm_get_def split: if_splits)

lemma btm_insert_sum_old:
  fixes f :: "'k :: linorder \<times> 'v \<Rightarrow> nat"
  shows "btm_get m k = Some w \<Longrightarrow> btm_ok m \<Longrightarrow>
    sum_list (map f (btm_insert k v m)) + f (k, w) = f (k, v) + sum_list (map f m)"
  by (induction k v m rule: btm_insert.induct)
    (auto simp: btm_get_def btm_ok_def split: if_splits dest!: map_of_SomeD)

lemma btm_remove_sum:
  fixes f :: "'k :: linorder \<times> 'v \<Rightarrow> nat"
  assumes "btm_ok m" "btm_get m k = Some v"
  shows "f (k, v) + sum_list (map f (btm_remove k m)) = sum_list (map f m)"
  using assms
proof (induction m)
  case (Cons e m)
  obtain a b where e: "e = (a, b)" by force
  have ok: "btm_ok m" and fresh: "\<And>w. (a, w) \<notin> set m"
    using Cons.prems(1) e by (force simp: btm_ok_def)+
  show ?case
  proof (cases "a = k")
    case True
    then have "btm_remove k m = m" using fresh by (force simp: btm_remove_def filter_id_conv)
    then show ?thesis using True Cons.prems(2) e by (simp add: btm_remove_def btm_get_def)
  next
    case False
    then show ?thesis using Cons.IH [OF ok] Cons.prems(2) e by (simp add: btm_remove_def btm_get_def)
  qed
qed (simp add: btm_get_def)

end
