(* ===== verification/Pool_Types.thy ===== *)
theory Pool_Types
  imports Sandbox_Prelude
begin

text \<open>
  Data of the runtime pool (crate \<open>sdkwork-intelligence-sandbox-pool-control\<close>): bounds, typed
  failures, fencing tokens, identifiers, the slot and claim state machines with their contract
  names, and the slot and claim records with their constructors and validators
  (\<open>bounds.rs\<close>, \<open>error.rs\<close>, \<open>fencing.rs\<close>, \<open>identity.rs\<close>, \<open>state.rs\<close>, \<open>slot.rs\<close>, \<open>claim.rs\<close>,
  request types of \<open>port.rs\<close>).
\<close>

section \<open>Bounds\<close>

definition sandbox_pool_claim_ttl_seconds_max :: u64 where
  "sandbox_pool_claim_ttl_seconds_max = 60"
definition sandbox_pool_reconciliation_batch_size_max :: nat where
  "sandbox_pool_reconciliation_batch_size_max = 100"
definition sandbox_pool_candidate_slot_count_max :: nat where
  "sandbox_pool_candidate_slot_count_max = 128"
definition sandbox_pool_claim_attempt_count_max :: u32 where
  "sandbox_pool_claim_attempt_count_max = 8"
definition sandbox_pool_retry_after_seconds_max :: u64 where
  "sandbox_pool_retry_after_seconds_max = 300"
definition sandbox_pool_cleanup_deadline_seconds_max :: u64 where
  "sandbox_pool_cleanup_deadline_seconds_max = 120"
definition sandbox_pool_refill_operations_per_node_max :: nat where
  "sandbox_pool_refill_operations_per_node_max = 16"
definition sandbox_pool_per_profile_target_max :: u32 where
  "sandbox_pool_per_profile_target_max = 1000"
definition sandbox_pool_exhausted_retry_after_seconds :: u64 where
  "sandbox_pool_exhausted_retry_after_seconds = 30"

lemmas pool_bounds =
  sandbox_pool_claim_ttl_seconds_max_def sandbox_pool_reconciliation_batch_size_max_def
  sandbox_pool_candidate_slot_count_max_def sandbox_pool_claim_attempt_count_max_def
  sandbox_pool_retry_after_seconds_max_def sandbox_pool_cleanup_deadline_seconds_max_def
  sandbox_pool_refill_operations_per_node_max_def sandbox_pool_per_profile_target_max_def
  sandbox_pool_exhausted_retry_after_seconds_def

section \<open>Failures\<close>

datatype sandbox_pool_retry_after = RetryAfter u64

definition retry_after_new :: "u64 \<Rightarrow> sandbox_pool_retry_after option" where
  "retry_after_new seconds =
     (if seconds \<le> sandbox_pool_retry_after_seconds_max then Some (RetryAfter seconds) else None)"

datatype sandbox_pool_dependency =
  AdmissionReservation | VerifiedNodeInventory | CapacityReservation
| PreparationEvidence | WarmKvmEvidence

datatype sandbox_pool_claim_conflict_kind =
  FingerprintMismatch | ClaimAlreadyActive | RuntimeBindingAlreadyClaimed
| CapacityRevisionMismatch | ClaimAttemptBudgetExhausted

datatype sandbox_pool_quarantine_reason =
  CleanupUncertain | ClaimExpired | TransitionalStuck | OperatorDecision

datatype sandbox_runtime_pool_error =
  SandboxPoolNotReady (expected_state: string) (actual_state: "string option")
| SandboxPoolExhausted sandbox_pool_retry_after
| SandboxPoolClaimConflict sandbox_pool_claim_conflict_kind
| SandboxPoolStaleFencing
| SandboxPoolDependencyUnavailable sandbox_pool_dependency
| SandboxPoolCleanupFailed
| SandboxPoolSlotQuarantined
| SandboxPoolInternal

type_synonym 'a pool_result = "sandbox_runtime_pool_error + 'a"

fun pool_error_code :: "sandbox_runtime_pool_error \<Rightarrow> string" where
  "pool_error_code (SandboxPoolNotReady _ _) = ''sandbox_pool_not_ready''"
| "pool_error_code (SandboxPoolExhausted _) = ''sandbox_pool_exhausted''"
| "pool_error_code (SandboxPoolClaimConflict _) = ''sandbox_pool_claim_conflict''"
| "pool_error_code SandboxPoolStaleFencing = ''sandbox_pool_stale_fencing''"
| "pool_error_code (SandboxPoolDependencyUnavailable _) = ''sandbox_pool_dependency_unavailable''"
| "pool_error_code SandboxPoolCleanupFailed = ''sandbox_pool_cleanup_failed''"
| "pool_error_code SandboxPoolSlotQuarantined = ''sandbox_pool_slot_quarantined''"
| "pool_error_code SandboxPoolInternal = ''sandbox_pool_internal_failure''"

fun pool_error_retryable :: "sandbox_runtime_pool_error \<Rightarrow> bool" where
  "pool_error_retryable (SandboxPoolExhausted _) = True"
| "pool_error_retryable (SandboxPoolDependencyUnavailable _) = True"
| "pool_error_retryable _ = False"

fun pool_error_retry_after :: "sandbox_runtime_pool_error \<Rightarrow> sandbox_pool_retry_after option" where
  "pool_error_retry_after (SandboxPoolExhausted r) = Some r"
| "pool_error_retry_after _ = None"

section \<open>Identifiers and fingerprints\<close>

text \<open>
  The seven identifier types of \<open>identity.rs\<close> wrap a validated \<open>String\<close>; the model uses the
  string itself. \<open>pool_id_new\<close> is the constructor the macro generates for each of them.
\<close>

definition max_sandbox_pool_id_length :: nat where
  "max_sandbox_pool_id_length = 128"

definition pool_validate_opaque :: "string \<Rightarrow> unit pool_result" where
  "pool_validate_opaque v =
     (if opaque_text max_sandbox_pool_id_length v then Inr () else Inl SandboxPoolInternal)"

definition pool_id_new :: "string \<Rightarrow> string pool_result" where
  "pool_id_new v = (case pool_validate_opaque v of Inl e \<Rightarrow> Inl e | Inr _ \<Rightarrow> Inr v)"

definition pool_validate_fingerprint :: "string \<Rightarrow> unit pool_result" where
  "pool_validate_fingerprint v = (if hex_fingerprint v then Inr () else Inl SandboxPoolInternal)"

section \<open>Fencing tokens\<close>

text \<open>A token is an \<open>i64\<close> that is never negative; the ceiling fails closed.\<close>

type_synonym fencing_token = i64

definition fencing_initial :: fencing_token where
  "fencing_initial = 0"

definition fencing_next :: "fencing_token \<Rightarrow> fencing_token option" where
  "fencing_next t = i64_checked_succ t"

definition fencing_is_stale :: "fencing_token \<Rightarrow> fencing_token \<Rightarrow> bool" where
  "fencing_is_stale t highest \<longleftrightarrow> t < highest"

definition fencing_try_from :: "i64 \<Rightarrow> unit + fencing_token" where
  "fencing_try_from v = (if v < fencing_initial then Inl () else Inr v)"

text \<open>\<open>str::parse::<i64>\<close>: an optional sign, at least one digit, in range.\<close>

fun parse_digits :: "nat \<Rightarrow> string \<Rightarrow> nat option" where
  "parse_digits acc [] = Some acc"
| "parse_digits acc (c # s) =
     (if 48 \<le> (of_char c :: nat) \<and> (of_char c :: nat) \<le> 57
      then parse_digits (acc * 10 + (of_char c - 48)) s else None)"

definition parse_unsigned :: "string \<Rightarrow> nat option" where
  "parse_unsigned s = (if s = [] then None else parse_digits 0 s)"

definition i64_parse :: "string \<Rightarrow> i64 option" where
  "i64_parse s =
     (case (case s of
              [] \<Rightarrow> None
            | c # r \<Rightarrow>
                if c = CHR ''-'' then map_option (\<lambda>n. - int n) (parse_unsigned r)
                else if c = CHR ''+'' then map_option int (parse_unsigned r)
                else map_option int (parse_unsigned s)) of
        None \<Rightarrow> None
      | Some v \<Rightarrow> if - i64_max - 1 \<le> v \<and> v \<le> i64_max then Some v else None)"

definition fencing_from_str :: "string \<Rightarrow> unit + fencing_token" where
  "fencing_from_str s =
     (case i64_parse s of None \<Rightarrow> Inl () | Some v \<Rightarrow> fencing_try_from v)"

lemma fencing_next_Some:
  "fencing_next t = Some t' \<Longrightarrow> t' = t + 1 \<and> t' \<le> i64_max"
  by (simp add: fencing_next_def i64_checked_succ_Some)


section \<open>Slot and claim state machines\<close>

datatype sandbox_pool_slot_state =
  SlotPreparing | SlotReady | SlotClaiming | SlotClaimed | SlotSanitizing | SlotQuarantined | SlotRetired

fun slot_state_as_str :: "sandbox_pool_slot_state \<Rightarrow> string" where
  "slot_state_as_str SlotPreparing = ''preparing''"
| "slot_state_as_str SlotReady = ''ready''"
| "slot_state_as_str SlotClaiming = ''claiming''"
| "slot_state_as_str SlotClaimed = ''claimed''"
| "slot_state_as_str SlotSanitizing = ''sanitizing''"
| "slot_state_as_str SlotQuarantined = ''quarantined''"
| "slot_state_as_str SlotRetired = ''retired''"

definition slot_state_parse :: "string \<Rightarrow> sandbox_pool_slot_state option" where
  "slot_state_parse value =
     (if value = ''preparing'' then Some SlotPreparing
      else if value = ''ready'' then Some SlotReady
      else if value = ''claiming'' then Some SlotClaiming
      else if value = ''claimed'' then Some SlotClaimed
      else if value = ''sanitizing'' then Some SlotSanitizing
      else if value = ''quarantined'' then Some SlotQuarantined
      else if value = ''retired'' then Some SlotRetired
      else None)"

interpretation slot_state_names: wire_names slot_state_as_str slot_state_parse
proof
  show "slot_state_parse (slot_state_as_str x) = Some x" for x
    by (cases x) (simp_all add: slot_state_parse_def)
  show "slot_state_parse s = Some x \<Longrightarrow> slot_state_as_str x = s" for s x
    by (auto simp: slot_state_parse_def split: if_splits)
qed

datatype sandbox_pool_claim_state =
  ClaimClaiming | ClaimBound | ClaimReleasing | ClaimReleased | ClaimQuarantined

fun claim_state_as_str :: "sandbox_pool_claim_state \<Rightarrow> string" where
  "claim_state_as_str ClaimClaiming = ''claiming''"
| "claim_state_as_str ClaimBound = ''bound''"
| "claim_state_as_str ClaimReleasing = ''releasing''"
| "claim_state_as_str ClaimReleased = ''released''"
| "claim_state_as_str ClaimQuarantined = ''quarantined''"

definition claim_state_parse :: "string \<Rightarrow> sandbox_pool_claim_state option" where
  "claim_state_parse value =
     (if value = ''claiming'' then Some ClaimClaiming
      else if value = ''bound'' then Some ClaimBound
      else if value = ''releasing'' then Some ClaimReleasing
      else if value = ''released'' then Some ClaimReleased
      else if value = ''quarantined'' then Some ClaimQuarantined
      else None)"

interpretation claim_state_names: wire_names claim_state_as_str claim_state_parse
proof
  show "claim_state_parse (claim_state_as_str x) = Some x" for x
    by (cases x) (simp_all add: claim_state_parse_def)
  show "claim_state_parse s = Some x \<Longrightarrow> claim_state_as_str x = s" for s x
    by (auto simp: claim_state_parse_def split: if_splits)
qed

text \<open>The closed transition tables.\<close>

definition slot_can_transition_to :: "sandbox_pool_slot_state \<Rightarrow> sandbox_pool_slot_state \<Rightarrow> bool" where
  "slot_can_transition_to from next \<longleftrightarrow> (from, next) \<in> set
     [(SlotPreparing, SlotReady), (SlotPreparing, SlotQuarantined), (SlotPreparing, SlotRetired),
      (SlotReady, SlotClaiming), (SlotReady, SlotQuarantined), (SlotReady, SlotRetired),
      (SlotClaiming, SlotClaimed), (SlotClaiming, SlotReady), (SlotClaiming, SlotQuarantined),
      (SlotClaiming, SlotRetired),
      (SlotClaimed, SlotSanitizing), (SlotClaimed, SlotQuarantined), (SlotClaimed, SlotRetired),
      (SlotSanitizing, SlotReady), (SlotSanitizing, SlotQuarantined), (SlotSanitizing, SlotRetired),
      (SlotQuarantined, SlotRetired)]"

definition claim_can_transition_to :: "sandbox_pool_claim_state \<Rightarrow> sandbox_pool_claim_state \<Rightarrow> bool" where
  "claim_can_transition_to from next \<longleftrightarrow> (from, next) \<in> set
     [(ClaimClaiming, ClaimBound), (ClaimClaiming, ClaimReleased), (ClaimClaiming, ClaimQuarantined),
      (ClaimBound, ClaimReleasing), (ClaimBound, ClaimQuarantined),
      (ClaimReleasing, ClaimReleased), (ClaimReleasing, ClaimQuarantined)]"

fun claim_rank :: "sandbox_pool_claim_state \<Rightarrow> nat" where
  "claim_rank ClaimClaiming = 0"
| "claim_rank ClaimBound = 1"
| "claim_rank ClaimReleasing = 2"
| "claim_rank ClaimReleased = 3"
| "claim_rank ClaimQuarantined = 3"

interpretation slot_table: closed_table slot_can_transition_to "\<lambda>s. s = SlotRetired"
  by unfold_locales (auto simp: slot_can_transition_to_def)

interpretation claim_table: forward_table claim_can_transition_to
  "\<lambda>s. s \<in> {ClaimReleased, ClaimQuarantined}" claim_rank
  by unfold_locales (auto simp: claim_can_transition_to_def)

section \<open>Slots\<close>

datatype sandbox_pool_class =
  PreparedSlot | WarmMicroVmSlot | ColdAllocation

fun pool_class_as_str :: "sandbox_pool_class \<Rightarrow> string" where
  "pool_class_as_str PreparedSlot = ''sandbox_prepared_slot''"
| "pool_class_as_str WarmMicroVmSlot = ''sandbox_warm_microvm_slot''"
| "pool_class_as_str ColdAllocation = ''sandbox_cold_allocation''"

definition pool_class_parse :: "string \<Rightarrow> sandbox_pool_class option" where
  "pool_class_parse value =
     (if value = ''sandbox_prepared_slot'' then Some PreparedSlot
      else if value = ''sandbox_warm_microvm_slot'' then Some WarmMicroVmSlot
      else if value = ''sandbox_cold_allocation'' then Some ColdAllocation
      else None)"

interpretation pool_class_names: wire_names pool_class_as_str pool_class_parse
proof
  show "pool_class_parse (pool_class_as_str x) = Some x" for x
    by (cases x) (simp_all add: pool_class_parse_def)
  show "pool_class_parse s = Some x \<Longrightarrow> pool_class_as_str x = s" for s x
    by (auto simp: pool_class_parse_def split: if_splits)
qed

datatype sandbox_isolation_assurance =
  AssuranceMicroVm | AssuranceContainer | AssuranceProcess

fun isolation_assurance_as_str :: "sandbox_isolation_assurance \<Rightarrow> string" where
  "isolation_assurance_as_str AssuranceMicroVm = ''micro_vm''"
| "isolation_assurance_as_str AssuranceContainer = ''container''"
| "isolation_assurance_as_str AssuranceProcess = ''process''"

definition isolation_assurance_parse :: "string \<Rightarrow> sandbox_isolation_assurance option" where
  "isolation_assurance_parse value =
     (if value = ''micro_vm'' then Some AssuranceMicroVm
      else if value = ''container'' then Some AssuranceContainer
      else if value = ''process'' then Some AssuranceProcess
      else None)"

interpretation isolation_assurance_names: wire_names isolation_assurance_as_str isolation_assurance_parse
proof
  show "isolation_assurance_parse (isolation_assurance_as_str x) = Some x" for x
    by (cases x) (simp_all add: isolation_assurance_parse_def)
  show "isolation_assurance_parse s = Some x \<Longrightarrow> isolation_assurance_as_str x = s" for s x
    by (auto simp: isolation_assurance_parse_def split: if_splits)
qed

record sandbox_pool_slot =
  slot_id :: string
  slot_class :: sandbox_pool_class
  slot_profile_id :: string
  slot_node_reference :: string
  slot_provider_id :: string
  slot_provider_kind :: string
  slot_assurance :: sandbox_isolation_assurance
  slot_artifact_revision :: string
  slot_capacity_revision :: i64
  slot_state :: sandbox_pool_slot_state
  slot_fencing_token :: fencing_token
  slot_version :: i64
  slot_evidence_fingerprint :: "string option"
  slot_created_at :: u64
  slot_updated_at :: u64

definition sandbox_pool_slot_new ::
  "string \<Rightarrow> sandbox_pool_class \<Rightarrow> string \<Rightarrow> string \<Rightarrow> string \<Rightarrow> string \<Rightarrow> sandbox_isolation_assurance
   \<Rightarrow> string \<Rightarrow> i64 \<Rightarrow> u64 \<Rightarrow> sandbox_pool_slot pool_result" where
  "sandbox_pool_slot_new sid cls profile node provider kind assurance artifact revision now =
     (if revision < 0 then Inl SandboxPoolInternal
      else Inr \<lparr>slot_id = sid, slot_class = cls, slot_profile_id = profile,
                slot_node_reference = node, slot_provider_id = provider,
                slot_provider_kind = kind, slot_assurance = assurance,
                slot_artifact_revision = artifact, slot_capacity_revision = revision,
                slot_state = SlotPreparing, slot_fencing_token = fencing_initial,
                slot_version = 0, slot_evidence_fingerprint = None,
                slot_created_at = now, slot_updated_at = now\<rparr>)"

section \<open>Claims\<close>

record sandbox_pool_claim =
  claim_tenant_id :: string
  claim_id :: string
  claim_slot_id :: string
  claim_admission_grant_id :: string
  claim_capacity_reservation_id :: string
  claim_capacity_revision :: i64
  claim_session_id :: string
  claim_binding_id :: string
  claim_operation_id :: string
  claim_request_fingerprint :: string
  claim_fencing_token :: fencing_token
  claim_state :: sandbox_pool_claim_state
  claim_version :: i64
  claim_claimed_at :: u64
  claim_expires_at :: u64

definition claim_is_expired_at :: "sandbox_pool_claim \<Rightarrow> u64 \<Rightarrow> bool" where
  "claim_is_expired_at c now \<longleftrightarrow> claim_expires_at c \<le> now"

record sandbox_pool_claim_request =
  creq_tenant_id :: string
  creq_slot_id :: string
  creq_session_id :: string
  creq_binding_id :: string
  creq_operation_id :: string
  creq_fingerprint :: string
  creq_admission_grant_id :: "string option"
  creq_capacity_reservation_id :: "string option"
  creq_capacity_revision :: i64
  creq_expected_token :: fencing_token
  creq_ttl_seconds :: u64
  creq_profile_id :: string

definition claim_request_validated ::
  "sandbox_pool_claim_request \<Rightarrow> sandbox_pool_claim_request pool_result" where
  "claim_request_validated r =
     (case pool_validate_fingerprint (creq_fingerprint r) of
        Inl e \<Rightarrow> Inl e
      | Inr _ \<Rightarrow>
          if creq_ttl_seconds r = 0 \<or> sandbox_pool_claim_ttl_seconds_max < creq_ttl_seconds r
          then Inl SandboxPoolInternal else Inr r)"

lemma claim_request_validated_iff:
  "claim_request_validated r = Inr r' \<longleftrightarrow>
     r' = r \<and> hex_fingerprint (creq_fingerprint r) \<and> 0 < creq_ttl_seconds r
     \<and> creq_ttl_seconds r \<le> sandbox_pool_claim_ttl_seconds_max"
  by (auto simp: claim_request_validated_def pool_validate_fingerprint_def word_neq_0_conv)

section \<open>Port requests and reports\<close>

record sandbox_pool_preparation_request =
  prep_slot_id :: string
  prep_class :: sandbox_pool_class
  prep_profile_id :: string
  prep_node_reference :: string
  prep_provider_id :: string
  prep_provider_kind :: string
  prep_assurance :: sandbox_isolation_assurance
  prep_artifact_revision :: string
  prep_capacity_revision :: i64
  prep_warm_evidence :: "string option"

record sandbox_pool_ready_request =
  ready_slot_id :: string
  ready_expected_token :: fencing_token
  ready_evidence_fingerprint :: string

record sandbox_pool_release_request =
  rel_claim_id :: string
  rel_expected_token :: fencing_token

record sandbox_pool_release_outcome =
  rel_claim :: sandbox_pool_claim
  rel_slot :: sandbox_pool_slot

record sandbox_pool_quarantine_request =
  quar_slot_id :: string
  quar_expected_token :: fencing_token
  quar_reason :: sandbox_pool_quarantine_reason

record sandbox_pool_retire_request =
  ret_slot_id :: string
  ret_expected_token :: fencing_token

record sandbox_pool_slot_reconciliation_report =
  rep_examined :: nat
  rep_quarantined :: "(string \<times> sandbox_pool_quarantine_reason) list"

record sandbox_pool_capacity_target =
  tgt_profile_id :: string
  tgt_node_reference :: string
  tgt_ready_target :: u32

record sandbox_pool_refill_action =
  act_profile_id :: string
  act_node_reference :: string
  act_refill_count :: nat

record sandbox_pool_target_reconciliation_report =
  trep_refill_actions :: "sandbox_pool_refill_action list"
  trep_examined_profiles :: nat

end
