(* ===== verification/Pool_Registry.thy ===== *)
theory Pool_Registry
  imports Pool_Types
begin

text \<open>
  The bounded pool registry (\<open>registry.rs\<close>): its state and the eight operations of the port.
  Every operation runs inside one critical section of the registry's mutex, so it is a function
  from the registry state to the new state and the result; an error result comes with the state
  the code leaves behind. The reading of the injected clock is the argument \<open>now\<close>. A poisoned
  mutex (a panic inside a critical section) is not modelled.
\<close>

section \<open>State\<close>

record pool_registry =
  reg_slots :: "(string, sandbox_pool_slot) btree"
  reg_claims :: "(string, sandbox_pool_claim) btree"
  reg_claims_by_operation :: "(string, string) btree"
  reg_active_by_slot :: "(string, string) btree"
  reg_active_by_binding :: "(string, string) btree"
  reg_failed_attempts :: "(string, u32) btree"
  reg_claim_sequence :: u64
  reg_highest_token :: fencing_token

definition pool_registry_default :: pool_registry where
  "pool_registry_default =
     \<lparr>reg_slots = [], reg_claims = [], reg_claims_by_operation = [], reg_active_by_slot = [],
      reg_active_by_binding = [], reg_failed_attempts = [], reg_claim_sequence = 0,
      reg_highest_token = fencing_initial\<rparr>"

definition is_active_claim_state :: "sandbox_pool_claim_state \<Rightarrow> bool" where
  "is_active_claim_state st \<longleftrightarrow> st \<in> set [ClaimClaiming, ClaimBound, ClaimReleasing]"

definition note_failed_claim :: "string \<Rightarrow> pool_registry \<Rightarrow> pool_registry" where
  "note_failed_claim op s =
     (let attempts = (case btm_get (reg_failed_attempts s) op of None \<Rightarrow> 0 | Some a \<Rightarrow> a)
      in s\<lparr>reg_failed_attempts :=
             btm_insert op (u32_saturating_succ attempts) (reg_failed_attempts s)\<rparr>)"

section \<open>Queries\<close>

definition sandbox_slot :: "string \<Rightarrow> pool_registry \<Rightarrow> sandbox_pool_slot option" where
  "sandbox_slot sid s = btm_get (reg_slots s) sid"

definition sandbox_claim :: "string \<Rightarrow> pool_registry \<Rightarrow> sandbox_pool_claim option" where
  "sandbox_claim cid s = btm_get (reg_claims s) cid"

definition sandbox_claim_for_operation :: "string \<Rightarrow> pool_registry \<Rightarrow> sandbox_pool_claim option" where
  "sandbox_claim_for_operation op s =
     (case btm_get (reg_claims_by_operation s) op of
        None \<Rightarrow> None | Some cid \<Rightarrow> btm_get (reg_claims s) cid)"

definition slots_in_state :: "string \<Rightarrow> sandbox_pool_slot_state \<Rightarrow> pool_registry \<Rightarrow> sandbox_pool_slot list" where
  "slots_in_state profile st s =
     filter (\<lambda>slot. slot_profile_id slot = profile \<and> slot_state slot = st) (map snd (reg_slots s))"

definition sandbox_ready_slot_count :: "string \<Rightarrow> pool_registry \<Rightarrow> nat" where
  "sandbox_ready_slot_count profile s = length (slots_in_state profile SlotReady s)"

definition sandbox_quarantined_slot_count :: "string \<Rightarrow> pool_registry \<Rightarrow> nat" where
  "sandbox_quarantined_slot_count profile s = length (slots_in_state profile SlotQuarantined s)"

section \<open>Claim finalisation and quarantine\<close>

definition finalize_claim_state ::
  "string \<Rightarrow> sandbox_pool_claim_state \<Rightarrow> pool_registry \<Rightarrow> pool_registry \<times> sandbox_pool_claim pool_result" where
  "finalize_claim_state cid next s =
     (case btm_get (reg_claims s) cid of
        None \<Rightarrow> (s, Inl SandboxPoolInternal)
      | Some c \<Rightarrow>
          if \<not> claim_can_transition_to (claim_state c) next then (s, Inl SandboxPoolInternal)
          else
            let c' = c\<lparr>claim_state := next, claim_version := i64_saturating_succ (claim_version c)\<rparr>;
                s' = s\<lparr>reg_claims := btm_insert cid c' (reg_claims s)\<rparr>
            in (if is_active_claim_state next then s'
                else s'\<lparr>reg_active_by_slot := btm_remove (claim_slot_id c') (reg_active_by_slot s'),
                        reg_active_by_binding :=
                          btm_remove (claim_binding_id c') (reg_active_by_binding s')\<rparr>,
                Inr c'))"

text \<open>Writing a new lifecycle state into a slot: state, version and update time move together.\<close>

definition slot_moved :: "sandbox_pool_slot_state \<Rightarrow> u64 \<Rightarrow> sandbox_pool_slot \<Rightarrow> sandbox_pool_slot" where
  "slot_moved st now slot =
     slot\<lparr>slot_state := st, slot_version := i64_saturating_succ (slot_version slot),
          slot_updated_at := now\<rparr>"

definition put_slot :: "string \<Rightarrow> sandbox_pool_slot \<Rightarrow> pool_registry \<Rightarrow> pool_registry" where
  "put_slot sid slot s = s\<lparr>reg_slots := btm_insert sid slot (reg_slots s)\<rparr>"

text \<open>The claim half shared by quarantine and retire: an active claim of the slot is quarantined.\<close>

definition quarantine_active_claim :: "string \<Rightarrow> pool_registry \<Rightarrow> pool_registry \<times> unit pool_result" where
  "quarantine_active_claim sid s =
     (case btm_get (reg_active_by_slot s) sid of
        None \<Rightarrow> (s, Inr ())
      | Some cid \<Rightarrow>
          (case finalize_claim_state cid ClaimQuarantined s of
             (s', Inl e) \<Rightarrow> (s', Inl e)
           | (s', Inr _) \<Rightarrow> (s', Inr ())))"

definition quarantine_locked ::
  "string \<Rightarrow> u64 \<Rightarrow> pool_registry \<Rightarrow> pool_registry \<times> sandbox_pool_slot pool_result" where
  "quarantine_locked sid now s0 =
     (case quarantine_active_claim sid s0 of
        (s, Inl e) \<Rightarrow> (s, Inl e)
      | (s, Inr _) \<Rightarrow>
          (case btm_get (reg_slots s) sid of
             None \<Rightarrow> (s, Inl SandboxPoolInternal)
           | Some slot \<Rightarrow>
               if slot_state slot = SlotRetired then
                 (s, Inl (SandboxPoolNotReady ''any serviceable state''
                            (Some (slot_state_as_str SlotRetired))))
               else if slot_state slot = SlotQuarantined then (s, Inr slot)
               else if \<not> slot_can_transition_to (slot_state slot) SlotQuarantined then
                 (s, Inl SandboxPoolInternal)
               else
                 let slot' = slot_moved SlotQuarantined now slot
                 in (put_slot sid slot' s, Inr slot')))"

section \<open>Prepare\<close>

definition sandbox_prepare_pool_slot ::
  "u64 \<Rightarrow> sandbox_pool_preparation_request \<Rightarrow> pool_registry \<Rightarrow> pool_registry \<times> sandbox_pool_slot pool_result" where
  "sandbox_prepare_pool_slot now r s =
     (if prep_class r = WarmMicroVmSlot
         \<and> \<not> (case prep_warm_evidence r of None \<Rightarrow> False | Some e \<Rightarrow> e \<noteq> [])
      then (s, Inl (SandboxPoolDependencyUnavailable WarmKvmEvidence))
      else if prep_class r \<noteq> WarmMicroVmSlot \<and> prep_warm_evidence r \<noteq> None
      then (s, Inl SandboxPoolInternal)
      else if btm_contains (reg_slots s) (prep_slot_id r) then (s, Inl SandboxPoolInternal)
      else if sandbox_pool_candidate_slot_count_max \<le> length (reg_slots s) then
        (s, case retry_after_new sandbox_pool_exhausted_retry_after_seconds of
              None \<Rightarrow> Inl SandboxPoolInternal
            | Some ra \<Rightarrow> Inl (SandboxPoolExhausted ra))
      else
        (case sandbox_pool_slot_new (prep_slot_id r) (prep_class r) (prep_profile_id r)
                (prep_node_reference r) (prep_provider_id r) (prep_provider_kind r)
                (prep_assurance r) (prep_artifact_revision r) (prep_capacity_revision r) now of
           Inl e \<Rightarrow> (s, Inl e)
         | Inr slot \<Rightarrow> (put_slot (slot_id slot) slot s, Inr slot)))"


section \<open>Claim\<close>

definition claim_name :: "u64 \<Rightarrow> string" where
  "claim_name sq = ''sandbox_pool_claim_'' @ decimal (unat sq)"

definition claim_bound ::
  "u64 \<Rightarrow> sandbox_pool_claim_request \<Rightarrow> string \<Rightarrow> string \<Rightarrow> string \<Rightarrow> fencing_token \<Rightarrow> sandbox_pool_claim" where
  "claim_bound now r grant cap cid tok =
     \<lparr>claim_tenant_id = creq_tenant_id r, claim_id = cid, claim_slot_id = creq_slot_id r,
      claim_admission_grant_id = grant, claim_capacity_reservation_id = cap,
      claim_capacity_revision = creq_capacity_revision r, claim_session_id = creq_session_id r,
      claim_binding_id = creq_binding_id r, claim_operation_id = creq_operation_id r,
      claim_request_fingerprint = creq_fingerprint r, claim_fencing_token = tok,
      claim_state = ClaimBound, claim_version = 0, claim_claimed_at = now,
      claim_expires_at = u64_saturating_add now (creq_ttl_seconds r)\<rparr>"

text \<open>The commit: a fresh token, a fresh claim identity, the slot claimed, the indexes updated.\<close>

definition claim_commit ::
  "u64 \<Rightarrow> sandbox_pool_claim_request \<Rightarrow> string \<Rightarrow> string \<Rightarrow> pool_registry
   \<Rightarrow> pool_registry \<times> sandbox_pool_claim pool_result" where
  "claim_commit now r grant cap s =
     (case fencing_next (reg_highest_token s) of
        None \<Rightarrow> (s, Inl SandboxPoolInternal)
      | Some tok \<Rightarrow>
     (case u64_checked_succ (reg_claim_sequence s) of
        None \<Rightarrow> (s, Inl SandboxPoolInternal)
      | Some sq \<Rightarrow>
          let s1 = s\<lparr>reg_claim_sequence := sq\<rparr> in
     (case pool_id_new (claim_name sq) of
        Inl _ \<Rightarrow> (s1, Inl SandboxPoolInternal)
      | Inr cid \<Rightarrow>
          let claim = claim_bound now r grant cap cid tok in
     (case btm_get (reg_slots s1) (creq_slot_id r) of
        None \<Rightarrow> (s1, Inl SandboxPoolInternal)
      | Some slot \<Rightarrow>
          if \<not> slot_can_transition_to (slot_state slot) SlotClaiming
             \<or> \<not> slot_can_transition_to SlotClaiming SlotClaimed
          then (s1, Inl SandboxPoolInternal)
          else
            let slot' = (slot_moved SlotClaimed now slot)\<lparr>slot_fencing_token := tok\<rparr>;
                s2 = put_slot (creq_slot_id r) slot' s1
            in (s2\<lparr>reg_highest_token := tok,
                   reg_claims := btm_insert cid claim (reg_claims s2),
                   reg_claims_by_operation :=
                     btm_insert (claim_operation_id claim) cid (reg_claims_by_operation s2),
                   reg_active_by_slot :=
                     btm_insert (claim_slot_id claim) cid (reg_active_by_slot s2),
                   reg_active_by_binding :=
                     btm_insert (claim_binding_id claim) cid (reg_active_by_binding s2)\<rparr>,
                Inr claim)))))"

text \<open>The guards of a claim against the slot it names, in the order of the code.\<close>

definition claim_slot_refusal ::
  "sandbox_pool_claim_request \<Rightarrow> sandbox_pool_slot \<Rightarrow> pool_registry \<Rightarrow> sandbox_runtime_pool_error option" where
  "claim_slot_refusal r slot s =
     (if slot_profile_id slot \<noteq> creq_profile_id r then
        Some (SandboxPoolNotReady (slot_state_as_str SlotReady) (Some (slot_state_as_str (slot_state slot))))
      else if slot_state slot = SlotQuarantined then Some SandboxPoolSlotQuarantined
      else if slot_state slot \<noteq> SlotReady then
        Some (SandboxPoolNotReady (slot_state_as_str SlotReady) (Some (slot_state_as_str (slot_state slot))))
      else if slot_capacity_revision slot \<noteq> creq_capacity_revision r then
        Some (SandboxPoolClaimConflict CapacityRevisionMismatch)
      else if creq_expected_token r \<noteq> slot_fencing_token slot then Some SandboxPoolStaleFencing
      else if btm_contains (reg_active_by_slot s) (creq_slot_id r) then
        Some (SandboxPoolClaimConflict ClaimAlreadyActive)
      else None)"

definition claim_budget_exhausted :: "string \<Rightarrow> pool_registry \<Rightarrow> bool" where
  "claim_budget_exhausted op s =
     (case btm_get (reg_failed_attempts s) op of
        None \<Rightarrow> False | Some attempts \<Rightarrow> sandbox_pool_claim_attempt_count_max \<le> attempts)"

definition sandbox_claim_pool_slot ::
  "u64 \<Rightarrow> sandbox_pool_claim_request \<Rightarrow> pool_registry \<Rightarrow> pool_registry \<times> sandbox_pool_claim pool_result" where
  "sandbox_claim_pool_slot now request s =
     (case claim_request_validated request of
        Inl e \<Rightarrow> (s, Inl e)
      | Inr r \<Rightarrow>
          let op = creq_operation_id r; failed = note_failed_claim op s in
          if claim_budget_exhausted op s then
            (s, Inl (SandboxPoolClaimConflict ClaimAttemptBudgetExhausted))
          else
     (case btm_get (reg_claims_by_operation s) op of
        Some cid \<Rightarrow>
          (case btm_get (reg_claims s) cid of
             None \<Rightarrow> (s, Inl SandboxPoolInternal)
           | Some recorded \<Rightarrow>
               if claim_request_fingerprint recorded = creq_fingerprint r then (s, Inr recorded)
               else (failed, Inl (SandboxPoolClaimConflict FingerprintMismatch)))
      | None \<Rightarrow>
          if btm_contains (reg_active_by_binding s) (creq_binding_id r) then
            (failed, Inl (SandboxPoolClaimConflict RuntimeBindingAlreadyClaimed))
          else
     (case creq_admission_grant_id r of
        None \<Rightarrow> (failed, Inl (SandboxPoolDependencyUnavailable AdmissionReservation))
      | Some grant \<Rightarrow>
     (case creq_capacity_reservation_id r of
        None \<Rightarrow> (failed, Inl (SandboxPoolDependencyUnavailable CapacityReservation))
      | Some cap \<Rightarrow>
     (case btm_get (reg_slots s) (creq_slot_id r) of
        None \<Rightarrow> (failed, Inl (SandboxPoolNotReady (slot_state_as_str SlotReady) None))
      | Some slot \<Rightarrow>
     (case claim_slot_refusal r slot s of
        Some e \<Rightarrow> (failed, Inl e)
      | None \<Rightarrow> claim_commit now r grant cap s))))))"

section \<open>Ready, release, quarantine, retire\<close>

definition sandbox_mark_pool_slot_ready ::
  "u64 \<Rightarrow> sandbox_pool_ready_request \<Rightarrow> pool_registry \<Rightarrow> pool_registry \<times> sandbox_pool_slot pool_result" where
  "sandbox_mark_pool_slot_ready now r s =
     (case pool_validate_fingerprint (ready_evidence_fingerprint r) of
        Inl e \<Rightarrow> (s, Inl e)
      | Inr _ \<Rightarrow>
     (case btm_get (reg_slots s) (ready_slot_id r) of
        None \<Rightarrow> (s, Inl (SandboxPoolNotReady ''preparing or sanitizing'' None))
      | Some slot \<Rightarrow>
          if ready_expected_token r \<noteq> slot_fencing_token slot then (s, Inl SandboxPoolStaleFencing)
          else if slot_state slot = SlotQuarantined then (s, Inl SandboxPoolSlotQuarantined)
          else if slot_state slot \<notin> set [SlotPreparing, SlotSanitizing] then
            (s, Inl (SandboxPoolNotReady ''preparing or sanitizing''
                       (Some (slot_state_as_str (slot_state slot)))))
          else if slot_evidence_fingerprint slot = Some (ready_evidence_fingerprint r) then
            (s, Inl SandboxPoolInternal)
          else
     (case (if slot_state slot = SlotSanitizing then
              (case btm_get (reg_active_by_slot s) (ready_slot_id r) of
                 None \<Rightarrow> (s, Inl SandboxPoolInternal)
               | Some cid \<Rightarrow>
                   (case finalize_claim_state cid ClaimReleased s of
                      (s', Inl e) \<Rightarrow> (s', Inl e)
                    | (s', Inr _) \<Rightarrow> (s', Inr ())))
            else (s, Inr ())) of
        (s1, Inl e) \<Rightarrow> (s1, Inl e)
      | (s1, Inr _) \<Rightarrow>
     (case btm_get (reg_slots s1) (ready_slot_id r) of
        None \<Rightarrow> (s1, Inl SandboxPoolInternal)
      | Some slot1 \<Rightarrow>
          if \<not> slot_can_transition_to (slot_state slot1) SlotReady then (s1, Inl SandboxPoolInternal)
          else
            let slot' = (slot_moved SlotReady now slot1)
                          \<lparr>slot_evidence_fingerprint := Some (ready_evidence_fingerprint r)\<rparr>
            in (put_slot (ready_slot_id r) slot' s1, Inr slot')))))"

text \<open>The outcome a release reports: both sides of the bridge as recorded.\<close>

definition release_outcome ::
  "string \<Rightarrow> string \<Rightarrow> pool_registry \<Rightarrow> sandbox_pool_release_outcome pool_result" where
  "release_outcome cid sid s =
     (case btm_get (reg_claims s) cid of
        None \<Rightarrow> Inl SandboxPoolInternal
      | Some claim \<Rightarrow>
          (case btm_get (reg_slots s) sid of
             None \<Rightarrow> Inl SandboxPoolInternal
           | Some slot \<Rightarrow> Inr \<lparr>rel_claim = claim, rel_slot = slot\<rparr>))"

definition sandbox_release_pool_claim ::
  "u64 \<Rightarrow> sandbox_pool_release_request \<Rightarrow> pool_registry
   \<Rightarrow> pool_registry \<times> sandbox_pool_release_outcome pool_result" where
  "sandbox_release_pool_claim now r s =
     (case btm_get (reg_claims s) (rel_claim_id r) of
        None \<Rightarrow> (s, Inl (SandboxPoolNotReady (claim_state_as_str ClaimBound) None))
      | Some claim \<Rightarrow>
          if rel_expected_token r \<noteq> claim_fencing_token claim then (s, Inl SandboxPoolStaleFencing)
          else
            let sid = claim_slot_id claim in
     (case claim_state claim of
        ClaimBound \<Rightarrow>
          (case finalize_claim_state (claim_id claim) ClaimReleasing s of
             (s1, Inl e) \<Rightarrow> (s1, Inl e)
           | (s1, Inr _) \<Rightarrow>
          (case btm_get (reg_slots s1) sid of
             None \<Rightarrow> (s1, Inl SandboxPoolInternal)
           | Some slot \<Rightarrow>
               if \<not> slot_can_transition_to (slot_state slot) SlotSanitizing
               then (s1, Inl SandboxPoolInternal)
               else
                 let s2 = put_slot sid (slot_moved SlotSanitizing now slot) s1
                 in (s2, release_outcome (rel_claim_id r) sid s2)))
      | ClaimReleasing \<Rightarrow> (s, release_outcome (rel_claim_id r) sid s)
      | ClaimReleased \<Rightarrow> (s, release_outcome (rel_claim_id r) sid s)
      | ClaimQuarantined \<Rightarrow> (s, Inl SandboxPoolSlotQuarantined)
      | ClaimClaiming \<Rightarrow> (s, Inl SandboxPoolInternal)))"

definition sandbox_quarantine_pool_slot ::
  "u64 \<Rightarrow> sandbox_pool_quarantine_request \<Rightarrow> pool_registry \<Rightarrow> pool_registry \<times> sandbox_pool_slot pool_result" where
  "sandbox_quarantine_pool_slot now r s =
     (case btm_get (reg_slots s) (quar_slot_id r) of
        None \<Rightarrow> (s, Inl (SandboxPoolNotReady ''any serviceable state'' None))
      | Some slot \<Rightarrow>
          if quar_expected_token r \<noteq> slot_fencing_token slot then (s, Inl SandboxPoolStaleFencing)
          else quarantine_locked (quar_slot_id r) now s)"

definition sandbox_retire_pool_slot ::
  "u64 \<Rightarrow> sandbox_pool_retire_request \<Rightarrow> pool_registry \<Rightarrow> pool_registry \<times> sandbox_pool_slot pool_result" where
  "sandbox_retire_pool_slot now r s0 =
     (case btm_get (reg_slots s0) (ret_slot_id r) of
        None \<Rightarrow> (s0, Inl (SandboxPoolNotReady ''any state'' None))
      | Some slot0 \<Rightarrow>
          if ret_expected_token r \<noteq> slot_fencing_token slot0 then (s0, Inl SandboxPoolStaleFencing)
          else if slot_state slot0 = SlotRetired then (s0, Inr slot0)
          else
     (case quarantine_active_claim (ret_slot_id r) s0 of
        (s, Inl e) \<Rightarrow> (s, Inl e)
      | (s, Inr _) \<Rightarrow>
     (case btm_get (reg_slots s) (ret_slot_id r) of
        None \<Rightarrow> (s, Inl SandboxPoolInternal)
      | Some slot \<Rightarrow>
          if \<not> slot_can_transition_to (slot_state slot) SlotRetired then (s, Inl SandboxPoolInternal)
          else
            let slot' = slot_moved SlotRetired now slot
            in (put_slot (ret_slot_id r) slot' s, Inr slot'))))"

section \<open>Slot reconciliation\<close>

text \<open>Expired active claims are grouped by tenant, in claim order inside each group.\<close>

fun expired_by_tenant ::
  "u64 \<Rightarrow> sandbox_pool_claim list \<Rightarrow> (string, string list) btree \<Rightarrow> (string, string list) btree" where
  "expired_by_tenant now [] groups = groups"
| "expired_by_tenant now (c # cs) groups =
     (if is_active_claim_state (claim_state c) \<and> claim_is_expired_at c now
      then expired_by_tenant now cs
             (btm_insert (claim_tenant_id c)
                ((case btm_get groups (claim_tenant_id c) of None \<Rightarrow> [] | Some g \<Rightarrow> g)
                 @ [claim_slot_id c]) groups)
      else expired_by_tenant now cs groups)"

text \<open>
  The round-robin loop: round \<open>i\<close> takes the \<open>i\<close>-th entry of every group that has one, and the
  loop stops after the first round that takes nothing.
\<close>

function round_robin :: "nat \<Rightarrow> 'a list list \<Rightarrow> 'a list" where
  "round_robin i groups =
     (let taken = map (\<lambda>g. g ! i) (filter (\<lambda>g. i < length g) groups)
      in if taken = [] then [] else taken @ round_robin (Suc i) groups)"
  by pat_completeness auto

lemma length_le_sum_list: "g \<in> set groups \<Longrightarrow> length g \<le> sum_list (map length groups)"
  by (induction groups) auto

termination round_robin
proof (relation "measure (\<lambda>(i, groups). sum_list (map length groups) - i)")
  fix i :: nat and groups :: "'a list list" and taken
  assume "taken = map (\<lambda>g. g ! i) (filter (\<lambda>g. i < length g) groups)" "taken \<noteq> []"
  then obtain g where "g \<in> set groups" "i < length g"
    by (auto simp: filter_empty_conv)
  with length_le_sum_list [of g groups]
  show "((Suc i, groups), (i, groups)) \<in> measure (\<lambda>(i, groups). sum_list (map length groups) - i)"
    by simp
qed simp

declare round_robin.simps [simp del]

definition slot_is_stuck :: "u64 \<Rightarrow> sandbox_pool_slot \<Rightarrow> bool" where
  "slot_is_stuck now slot \<longleftrightarrow>
     slot_state slot \<in> set [SlotClaiming, SlotSanitizing]
     \<and> sandbox_pool_cleanup_deadline_seconds_max \<le> u64_saturating_sub now (slot_updated_at slot)"

definition reconcile_candidates ::
  "u64 \<Rightarrow> pool_registry \<Rightarrow> (string \<times> sandbox_pool_quarantine_reason) list" where
  "reconcile_candidates now s =
     map (\<lambda>sid. (sid, ClaimExpired))
       (round_robin 0 (map snd (expired_by_tenant now (map snd (reg_claims s)) [])))
     @ map (\<lambda>slot. (slot_id slot, TransitionalStuck))
         (filter (slot_is_stuck now) (map snd (reg_slots s)))"

text \<open>The bounded pass over the candidates: visited slots count as examined but are not retried.\<close>

fun reconcile_visit ::
  "nat \<Rightarrow> u64 \<Rightarrow> (string \<times> sandbox_pool_quarantine_reason) list \<Rightarrow> string list
   \<Rightarrow> sandbox_pool_slot_reconciliation_report \<Rightarrow> pool_registry
   \<Rightarrow> pool_registry \<times> sandbox_pool_slot_reconciliation_report" where
  "reconcile_visit batch now [] visited report s = (s, report)"
| "reconcile_visit batch now ((sid, reason) # cands) visited report s =
     (if batch \<le> rep_examined report then (s, report)
      else
        let report1 = report\<lparr>rep_examined := Suc (rep_examined report)\<rparr> in
        if sid \<in> set visited then reconcile_visit batch now cands visited report1 s
        else
          (case quarantine_locked sid now s of
             (s', Inl _) \<Rightarrow> reconcile_visit batch now cands (sid # visited) report1 s'
           | (s', Inr _) \<Rightarrow>
               reconcile_visit batch now cands (sid # visited)
                 (report1\<lparr>rep_quarantined := rep_quarantined report1 @ [(sid, reason)]\<rparr>) s'))"

definition sandbox_reconcile_pool_slots ::
  "u64 \<Rightarrow> nat \<Rightarrow> pool_registry
   \<Rightarrow> pool_registry \<times> sandbox_pool_slot_reconciliation_report pool_result" where
  "sandbox_reconcile_pool_slots now batch s =
     (if batch = 0 \<or> sandbox_pool_reconciliation_batch_size_max < batch
      then (s, Inl SandboxPoolInternal)
      else
        (case reconcile_visit batch now (reconcile_candidates now s) []
                \<lparr>rep_examined = 0, rep_quarantined = []\<rparr> s of
           (s', report) \<Rightarrow> (s', Inr report)))"

section \<open>Target reconciliation\<close>

definition target_ready_count :: "sandbox_pool_capacity_target \<Rightarrow> pool_registry \<Rightarrow> nat" where
  "target_ready_count t s =
     length (filter (\<lambda>slot. slot_profile_id slot = tgt_profile_id t \<and> slot_state slot = SlotReady)
       (map snd (reg_slots s)))"

definition u32_try_from_or_max :: "nat \<Rightarrow> u32" where
  "u32_try_from_or_max n = (if n < 2 ^ 32 then of_nat n else - 1)"

fun plan_refills ::
  "pool_registry \<Rightarrow> sandbox_pool_capacity_target list \<Rightarrow> (string, nat) btree
   \<Rightarrow> sandbox_pool_refill_action list" where
  "plan_refills s [] budgets = []"
| "plan_refills s (t # ts) budgets =
     (let deficit = u32_saturating_sub (tgt_ready_target t)
                      (u32_try_from_or_max (target_ready_count t s)) in
      if deficit = 0 then plan_refills s ts budgets
      else
        let used = (case btm_get budgets (tgt_node_reference t) of None \<Rightarrow> 0 | Some n \<Rightarrow> n);
            room = sandbox_pool_refill_operations_per_node_max - used in
        if room = 0 then plan_refills s ts (btm_insert (tgt_node_reference t) used budgets)
        else
          let count = min (unat deficit) room in
          \<lparr>act_profile_id = tgt_profile_id t, act_node_reference = tgt_node_reference t,
           act_refill_count = count\<rparr>
          # plan_refills s ts (btm_insert (tgt_node_reference t) (used + count) budgets))"

definition sandbox_reconcile_pool_targets ::
  "sandbox_pool_capacity_target list \<Rightarrow> pool_registry
   \<Rightarrow> sandbox_pool_target_reconciliation_report pool_result" where
  "sandbox_reconcile_pool_targets targets s =
     (if sandbox_pool_reconciliation_batch_size_max < length targets then Inl SandboxPoolInternal
      else if \<exists>t \<in> set targets. sandbox_pool_per_profile_target_max < tgt_ready_target t
      then Inl SandboxPoolInternal
      else Inr \<lparr>trep_refill_actions = plan_refills s targets [],
                trep_examined_profiles = length targets\<rparr>)"

section \<open>The port as a transition system\<close>

datatype pool_op =
  PrepareSlot sandbox_pool_preparation_request
| ClaimSlot sandbox_pool_claim_request
| MarkSlotReady sandbox_pool_ready_request
| ReleaseClaim sandbox_pool_release_request
| QuarantineSlot sandbox_pool_quarantine_request
| RetireSlot sandbox_pool_retire_request
| ReconcileSlots nat
| ReconcileTargets "sandbox_pool_capacity_target list"

fun pool_exec :: "u64 \<Rightarrow> pool_op \<Rightarrow> pool_registry \<Rightarrow> pool_registry" where
  "pool_exec now (PrepareSlot r) s = fst (sandbox_prepare_pool_slot now r s)"
| "pool_exec now (ClaimSlot r) s = fst (sandbox_claim_pool_slot now r s)"
| "pool_exec now (MarkSlotReady r) s = fst (sandbox_mark_pool_slot_ready now r s)"
| "pool_exec now (ReleaseClaim r) s = fst (sandbox_release_pool_claim now r s)"
| "pool_exec now (QuarantineSlot r) s = fst (sandbox_quarantine_pool_slot now r s)"
| "pool_exec now (RetireSlot r) s = fst (sandbox_retire_pool_slot now r s)"
| "pool_exec now (ReconcileSlots batch) s = fst (sandbox_reconcile_pool_slots now batch s)"
| "pool_exec now (ReconcileTargets ts) s = s"

inductive pool_step :: "pool_registry \<Rightarrow> pool_registry \<Rightarrow> bool" where
  pool_step: "pool_step s (pool_exec now op s)"

inductive_cases pool_stepE: "pool_step s t"

definition pool_reachable :: "pool_registry \<Rightarrow> bool" where
  "pool_reachable s \<longleftrightarrow> pool_step\<^sup>*\<^sup>* pool_registry_default s"

fun pool_run :: "(u64 \<times> pool_op) list \<Rightarrow> pool_registry \<Rightarrow> pool_registry" where
  "pool_run [] s = s"
| "pool_run ((now, op) # ops) s = pool_run ops (pool_exec now op s)"

lemma pool_run_reachable_from: "pool_step\<^sup>*\<^sup>* s0 s \<Longrightarrow> pool_step\<^sup>*\<^sup>* s0 (pool_run ops s)"
proof (induction ops arbitrary: s)
  case (Cons e ops)
  then show ?case
    by (cases e) (auto intro: rtranclp.rtrancl_into_rtrancl pool_step)
qed simp

lemma pool_run_reachable: "pool_reachable (pool_run ops pool_registry_default)"
  by (simp add: pool_reachable_def pool_run_reachable_from)

end
