(* ===== verification/Pool_Invariant.thy ===== *)
theory Pool_Invariant
  imports Pool_Registry
begin

text \<open>
  The representation invariant of the pool registry: the indexes agree with the claim table, a
  claimed or sanitizing slot has exactly one active claim under the slot's own fencing token, and
  every bound of the contract holds. Every operation preserves it, on every branch, so it holds in
  every reachable registry.
\<close>

section \<open>The invariant\<close>

definition active_claim :: "(string, sandbox_pool_claim) btree \<Rightarrow> string \<Rightarrow> sandbox_pool_claim \<Rightarrow> bool" where
  "active_claim claims cid c \<longleftrightarrow> btm_get claims cid = Some c \<and> is_active_claim_state (claim_state c)"

definition bridge_agrees :: "sandbox_pool_slot \<Rightarrow> sandbox_pool_claim \<Rightarrow> bool" where
  "bridge_agrees slot c \<longleftrightarrow>
     (slot_state slot, claim_state c) \<in> {(SlotClaimed, ClaimBound), (SlotSanitizing, ClaimReleasing)}
     \<and> slot_fencing_token slot = claim_fencing_token c"

definition slot_inv :: "fencing_token \<Rightarrow> bool \<Rightarrow> string \<Rightarrow> sandbox_pool_slot \<Rightarrow> bool" where
  "slot_inv highest claimed k slot \<longleftrightarrow>
     slot_id slot = k
     \<and> 0 \<le> slot_fencing_token slot \<and> slot_fencing_token slot \<le> highest
     \<and> 0 \<le> slot_capacity_revision slot
     \<and> slot_state slot \<noteq> SlotClaiming
     \<and> (claimed \<longleftrightarrow> slot_state slot \<in> {SlotClaimed, SlotSanitizing})
     \<and> (slot_state slot \<in> {SlotReady, SlotClaimed, SlotSanitizing} \<longrightarrow>
          slot_evidence_fingerprint slot \<noteq> None)"

definition claim_inv ::
  "fencing_token \<Rightarrow> u64 \<Rightarrow> sandbox_pool_slot option \<Rightarrow> string \<Rightarrow> sandbox_pool_claim \<Rightarrow> bool" where
  "claim_inv highest sq slot k c \<longleftrightarrow>
     claim_id c = k
     \<and> (\<exists>n \<le> sq. k = claim_name n)
     \<and> 0 < claim_fencing_token c \<and> claim_fencing_token c \<le> highest
     \<and> claim_state c \<noteq> ClaimClaiming
     \<and> claim_claimed_at c \<le> claim_expires_at c
     \<and> (case slot of None \<Rightarrow> False
        | Some sl \<Rightarrow> is_active_claim_state (claim_state c) \<longrightarrow> bridge_agrees sl c)"

definition inv_slots :: "pool_registry \<Rightarrow> bool" where
  "inv_slots s \<longleftrightarrow> btm_ok (reg_slots s) \<and>
     (\<forall>k slot. btm_get (reg_slots s) k = Some slot \<longrightarrow>
        slot_inv (reg_highest_token s) (btm_contains (reg_active_by_slot s) k) k slot)"

definition inv_claims :: "pool_registry \<Rightarrow> bool" where
  "inv_claims s \<longleftrightarrow> btm_ok (reg_claims s) \<and>
     (\<forall>k c. btm_get (reg_claims s) k = Some c \<longrightarrow>
        claim_inv (reg_highest_token s) (reg_claim_sequence s)
          (btm_get (reg_slots s) (claim_slot_id c)) k c)"

definition inv_tokens :: "(string, sandbox_pool_claim) btree \<Rightarrow> bool" where
  "inv_tokens claims \<longleftrightarrow>
     (\<forall>k k' c c'. btm_get claims k = Some c \<longrightarrow> btm_get claims k' = Some c' \<longrightarrow>
        claim_fencing_token c = claim_fencing_token c' \<longrightarrow> k = k')"

text \<open>An index maps exactly the keys of the active claims to those claims.\<close>

definition index_agrees ::
  "(sandbox_pool_claim \<Rightarrow> string) \<Rightarrow> (string, string) btree \<Rightarrow> (string, sandbox_pool_claim) btree \<Rightarrow> bool" where
  "index_agrees key index claims \<longleftrightarrow>
     (\<forall>k cid. btm_get index k = Some cid \<longrightarrow> (\<exists>c. active_claim claims cid c \<and> key c = k)) \<and>
     (\<forall>cid c. active_claim claims cid c \<longrightarrow> btm_get index (key c) = Some cid)"

definition inv_operations :: "(string, string) btree \<Rightarrow> (string, sandbox_pool_claim) btree \<Rightarrow> bool" where
  "inv_operations index claims \<longleftrightarrow>
     (\<forall>op cid. btm_get index op = Some cid \<longrightarrow>
        (\<exists>c. btm_get claims cid = Some c \<and> claim_operation_id c = op)) \<and>
     (\<forall>cid c. btm_get claims cid = Some c \<longrightarrow> btm_get index (claim_operation_id c) = Some cid)"

definition inv_bounds :: "pool_registry \<Rightarrow> bool" where
  "inv_bounds s \<longleftrightarrow>
     length (reg_slots s) \<le> sandbox_pool_candidate_slot_count_max
     \<and> 0 \<le> reg_highest_token s \<and> reg_highest_token s \<le> i64_max
     \<and> (\<forall>op a. btm_get (reg_failed_attempts s) op = Some a \<longrightarrow>
           a \<le> sandbox_pool_claim_attempt_count_max)"

definition pool_inv :: "pool_registry \<Rightarrow> bool" where
  "pool_inv s \<longleftrightarrow> inv_slots s \<and> inv_claims s \<and> inv_tokens (reg_claims s)
     \<and> index_agrees claim_slot_id (reg_active_by_slot s) (reg_claims s)
     \<and> index_agrees claim_binding_id (reg_active_by_binding s) (reg_claims s)
     \<and> inv_operations (reg_claims_by_operation s) (reg_claims s) \<and> inv_bounds s"

lemma pool_inv_default: "pool_inv pool_registry_default"
  by (simp add: pool_inv_def inv_slots_def inv_claims_def inv_tokens_def index_agrees_def
      inv_operations_def inv_bounds_def active_claim_def pool_registry_default_def
      fencing_initial_def i64_max_def)

lemma pool_invD:
  assumes "pool_inv s"
  shows "btm_ok (reg_slots s)" "btm_ok (reg_claims s)"
    "btm_get (reg_slots s) sid = Some slot \<Longrightarrow>
       slot_inv (reg_highest_token s) (btm_contains (reg_active_by_slot s) sid) sid slot"
    "btm_get (reg_claims s) cid = Some c \<Longrightarrow>
       claim_inv (reg_highest_token s) (reg_claim_sequence s)
         (btm_get (reg_slots s) (claim_slot_id c)) cid c"
    "inv_tokens (reg_claims s)"
    "index_agrees claim_slot_id (reg_active_by_slot s) (reg_claims s)"
    "index_agrees claim_binding_id (reg_active_by_binding s) (reg_claims s)"
    "inv_operations (reg_claims_by_operation s) (reg_claims s)"
    "inv_bounds s"
  using assms unfolding pool_inv_def inv_slots_def inv_claims_def by blast+

lemma pool_invI:
  assumes "btm_ok (reg_slots s)" "btm_ok (reg_claims s)"
    "\<And>sid slot. btm_get (reg_slots s) sid = Some slot \<Longrightarrow>
       slot_inv (reg_highest_token s) (btm_contains (reg_active_by_slot s) sid) sid slot"
    "\<And>cid c. btm_get (reg_claims s) cid = Some c \<Longrightarrow>
       claim_inv (reg_highest_token s) (reg_claim_sequence s)
         (btm_get (reg_slots s) (claim_slot_id c)) cid c"
    "inv_tokens (reg_claims s)"
    "index_agrees claim_slot_id (reg_active_by_slot s) (reg_claims s)"
    "index_agrees claim_binding_id (reg_active_by_binding s) (reg_claims s)"
    "inv_operations (reg_claims_by_operation s) (reg_claims s)"
    "inv_bounds s"
  shows "pool_inv s"
  using assms unfolding pool_inv_def inv_slots_def inv_claims_def by blast

text \<open>What the invariant says about one slot's active claim.\<close>

lemma pool_inv_active_slot:
  assumes inv: "pool_inv s" and idx: "btm_get (reg_active_by_slot s) sid = Some cid"
  obtains c slot where "active_claim (reg_claims s) cid c" "btm_get (reg_claims s) cid = Some c"
    "claim_id c = cid" "claim_slot_id c = sid" "claim_state c \<in> {ClaimBound, ClaimReleasing}"
    "btm_get (reg_slots s) sid = Some slot" "bridge_agrees slot c"
proof -
  from pool_invD(6) [OF inv] idx obtain c where c: "active_claim (reg_claims s) cid c" "claim_slot_id c = sid"
    by (auto simp: index_agrees_def)
  then have get: "btm_get (reg_claims s) cid = Some c" and act: "is_active_claim_state (claim_state c)"
    by (auto simp: active_claim_def)
  from pool_invD(4) [OF inv get] c(2) act obtain slot where "claim_id c = cid"
    "claim_state c \<noteq> ClaimClaiming" "btm_get (reg_slots s) sid = Some slot" "bridge_agrees slot c"
    by (auto simp: claim_inv_def split: option.splits)
  with that c get act show ?thesis
    by (auto simp: is_active_claim_state_def)
qed

text \<open>Two active claims that share a slot, or a runtime binding, are the same claim.\<close>

lemma pool_inv_active_unique:
  assumes "pool_inv s" "active_claim (reg_claims s) cid c" "active_claim (reg_claims s) cid' c'"
    "claim_slot_id c = claim_slot_id c' \<or> claim_binding_id c = claim_binding_id c'"
  shows "cid = cid'"
  using assms(2-4) pool_invD(6,7) [OF assms(1)] unfolding index_agrees_def by (metis option.inject)

section \<open>Preservation by the primitive updates\<close>

lemma pool_inv_note_failed:
  assumes "pool_inv s" "\<not> claim_budget_exhausted op s"
  shows "pool_inv (note_failed_claim op s)"
proof (rule pool_invI)
  have "u32_saturating_succ a \<le> sandbox_pool_claim_attempt_count_max"
    if "a < sandbox_pool_claim_attempt_count_max" for a
    using that by (simp add: word_le_nat_alt word_less_nat_alt u32_saturating_succ_unat pool_bounds)
  moreover have "(0 :: u32) < sandbox_pool_claim_attempt_count_max"
    by (simp add: pool_bounds)
  ultimately show "inv_bounds (note_failed_claim op s)"
    using pool_invD(9) [OF assms(1)] assms(2)
    by (auto simp: inv_bounds_def note_failed_claim_def claim_budget_exhausted_def
        Let_def not_le split: option.splits)
qed (use pool_invD [OF assms(1)] in \<open>simp_all add: note_failed_claim_def Let_def\<close>)

text \<open>A new slot, in \<open>preparing\<close>, under a fresh identity and within the capacity bound.\<close>

lemma pool_inv_fresh_inactive:
  assumes "pool_inv s" "btm_get (reg_slots s) sid = None"
  shows "\<not> btm_contains (reg_active_by_slot s) sid"
  using assms pool_inv_active_slot [OF assms(1)] by (fastforce elim: btm_containsE)

lemma pool_inv_new_slot:
  assumes inv: "pool_inv s" and fresh: "btm_get (reg_slots s) sid = None"
    and room: "length (reg_slots s) < sandbox_pool_candidate_slot_count_max"
    and slot: "slot_id slot = sid" "slot_state slot = SlotPreparing" "slot_fencing_token slot = 0"
      "0 \<le> slot_capacity_revision slot"
  shows "pool_inv (put_slot sid slot s)"
proof (rule pool_invI)
  fix k slot' assume "btm_get (reg_slots (put_slot sid slot s)) k = Some slot'"
  then show "slot_inv (reg_highest_token (put_slot sid slot s))
      (btm_contains (reg_active_by_slot (put_slot sid slot s)) k) k slot'"
    using pool_invD(3) [OF inv, of k slot'] pool_invD(9) [OF inv] slot
      pool_inv_fresh_inactive [OF inv fresh]
    by (auto simp: put_slot_def slot_inv_def inv_bounds_def split: if_splits)
next
  fix cid c assume "btm_get (reg_claims (put_slot sid slot s)) cid = Some c"
  then show "claim_inv (reg_highest_token (put_slot sid slot s)) (reg_claim_sequence (put_slot sid slot s))
      (btm_get (reg_slots (put_slot sid slot s)) (claim_slot_id c)) cid c"
    using pool_invD(4) [OF inv, of cid c] fresh by (auto simp: put_slot_def claim_inv_def)
next
  show "inv_bounds (put_slot sid slot s)"
    using pool_invD(1,9) [OF inv] fresh room btm.length_insert_new [of "reg_slots s" sid slot]
    by (simp add: inv_bounds_def put_slot_def)
qed (use pool_invD [OF inv] in \<open>simp_all add: put_slot_def\<close>)

lemma pool_inv_bounds_put:
  assumes "pool_inv s" "btm_get (reg_slots s) sid = Some slot"
  shows "length (btm_insert sid slot' (reg_slots s)) \<le> sandbox_pool_candidate_slot_count_max"
  using assms(2) pool_invD(1,9) [OF assms(1)] btm.length_insert_old [of "reg_slots s" sid slot']
  by (simp add: inv_bounds_def)

text \<open>A move of a slot that has no active claim.\<close>

lemma pool_inv_idle_move:
  assumes inv: "pool_inv s" and slot: "btm_get (reg_slots s) sid = Some slot"
    and idle: "btm_get (reg_active_by_slot s) sid = None"
    and new: "slot_id slot' = sid" "slot_fencing_token slot' = slot_fencing_token slot"
      "slot_capacity_revision slot' = slot_capacity_revision slot"
      "slot_state slot' \<in> {SlotReady, SlotQuarantined, SlotRetired}"
      "slot_state slot' = SlotReady \<Longrightarrow> slot_evidence_fingerprint slot' \<noteq> None"
  shows "pool_inv (put_slot sid slot' s)"
proof (rule pool_invI)
  fix k sl assume "btm_get (reg_slots (put_slot sid slot' s)) k = Some sl"
  then show "slot_inv (reg_highest_token (put_slot sid slot' s))
      (btm_contains (reg_active_by_slot (put_slot sid slot' s)) k) k sl"
    using pool_invD(3) [OF inv, of k sl] pool_invD(3) [OF inv slot] new idle
    by (auto simp: put_slot_def slot_inv_def btm_contains_def split: if_splits)
next
  fix cid c assume c: "btm_get (reg_claims (put_slot sid slot' s)) cid = Some c"
  then have "claim_slot_id c = sid \<Longrightarrow> \<not> is_active_claim_state (claim_state c)"
    using pool_invD(6) [OF inv] idle
    by (auto simp: index_agrees_def active_claim_def put_slot_def)
  with c show "claim_inv (reg_highest_token (put_slot sid slot' s))
      (reg_claim_sequence (put_slot sid slot' s))
      (btm_get (reg_slots (put_slot sid slot' s)) (claim_slot_id c)) cid c"
    using pool_invD(4) [OF inv, of cid c] slot by (auto simp: put_slot_def claim_inv_def)
next
  show "inv_bounds (put_slot sid slot' s)"
    using pool_invD(9) [OF inv] pool_inv_bounds_put [OF inv slot]
    by (simp add: inv_bounds_def put_slot_def)
qed (use pool_invD [OF inv] in \<open>simp_all add: put_slot_def\<close>)


text \<open>Index lemmas: an active claim ends, keeps its key, or is added.\<close>

lemma index_agrees_end:
  assumes idx: "index_agrees key index claims" and act: "active_claim claims cid c"
    and ended: "\<not> is_active_claim_state (claim_state c')"
  shows "index_agrees key (btm_remove (key c) index) (btm_insert cid c' claims)"
proof -
  have own: "btm_get index (key c) = Some cid"
    using idx act by (auto simp: index_agrees_def)
  have act_iff: "active_claim (btm_insert cid c' claims) k d \<longleftrightarrow> k \<noteq> cid \<and> active_claim claims k d" for k d
    using ended by (auto simp: active_claim_def)
  have "\<exists>d. active_claim (btm_insert cid c' claims) k d \<and> key d = i"
    if "btm_get (btm_remove (key c) index) i = Some k" for i k
  proof -
    from that have i: "i \<noteq> key c" "btm_get index i = Some k" by (auto split: if_splits)
    then obtain d where d: "active_claim claims k d" "key d = i"
      using idx by (auto simp: index_agrees_def)
    with i act have "k \<noteq> cid" by (auto simp: active_claim_def)
    with d show ?thesis by (auto simp: act_iff)
  qed
  moreover have "btm_get (btm_remove (key c) index) (key d) = Some k"
    if "active_claim (btm_insert cid c' claims) k d" for k d
  proof -
    from that have "k \<noteq> cid" "btm_get index (key d) = Some k"
      using idx by (auto simp: act_iff index_agrees_def)
    with own show ?thesis by auto
  qed
  ultimately show ?thesis by (simp add: index_agrees_def)
qed

lemma active_claim_insert:
  "active_claim (btm_insert cid c claims) k d \<longleftrightarrow>
     (if k = cid then d = c \<and> is_active_claim_state (claim_state c) else active_claim claims k d)"
  by (auto simp: active_claim_def)

lemma index_agrees_keep:
  assumes idx: "index_agrees key index claims" and act: "active_claim claims cid c"
    and still: "is_active_claim_state (claim_state c')" "key c' = key c"
  shows "index_agrees key index (btm_insert cid c' claims)"
proof -
  have "\<exists>d. active_claim (btm_insert cid c' claims) k d \<and> key d = i" if "btm_get index i = Some k" for i k
  proof -
    from idx that obtain d where d: "active_claim claims k d" "key d = i"
      by (auto simp: index_agrees_def)
    with act still show ?thesis
      by (cases "k = cid") (auto simp: active_claim_insert active_claim_def)
  qed
  moreover have "btm_get index (key d) = Some k" if "active_claim (btm_insert cid c' claims) k d" for k d
    using that idx act still by (cases "k = cid") (auto simp: active_claim_insert index_agrees_def)
  ultimately show ?thesis by (simp add: index_agrees_def)
qed

lemma index_agrees_new:
  assumes idx: "index_agrees key index claims" and fresh: "btm_get claims cid = None"
    and key: "btm_get index (key c) = None" and act: "is_active_claim_state (claim_state c)"
  shows "index_agrees key (btm_insert (key c) cid index) (btm_insert cid c claims)"
proof -
  have "\<exists>d. active_claim (btm_insert cid c claims) k d \<and> key d = i"
    if i: "btm_get (btm_insert (key c) cid index) i = Some k" for i k
  proof (cases "i = key c")
    case True
    with i act show ?thesis by (auto simp: active_claim_insert)
  next
    case False
    with i idx obtain d where d: "active_claim claims k d" "key d = i"
      by (auto simp: index_agrees_def)
    with fresh have "k \<noteq> cid" by (auto simp: active_claim_def)
    with d show ?thesis by (auto simp: active_claim_insert)
  qed
  moreover have "btm_get (btm_insert (key c) cid index) (key d) = Some k"
    if "active_claim (btm_insert cid c claims) k d" for k d
  proof (cases "k = cid")
    case True
    with that show ?thesis by (simp add: active_claim_insert)
  next
    case False
    with that idx have "btm_get index (key d) = Some k"
      by (auto simp: active_claim_insert index_agrees_def)
    with key show ?thesis by auto
  qed
  ultimately show ?thesis by (simp add: index_agrees_def)
qed

lemma inv_tokens_update:
  assumes "inv_tokens claims" "btm_get claims cid = Some c" "claim_fencing_token c' = claim_fencing_token c"
  shows "inv_tokens (btm_insert cid c' claims)"
  using assms by (fastforce simp: inv_tokens_def split: if_splits)

lemma inv_tokens_new:
  assumes "inv_tokens claims"
    "\<And>k d. btm_get claims k = Some d \<Longrightarrow> claim_fencing_token d < claim_fencing_token c"
  shows "inv_tokens (btm_insert cid c claims)"
  using assms by (fastforce simp: inv_tokens_def split: if_splits)

lemma inv_operations_update:
  assumes "inv_operations index claims" "btm_get claims cid = Some c"
    "claim_operation_id c' = claim_operation_id c"
  shows "inv_operations index (btm_insert cid c' claims)"
  using assms by (fastforce simp: inv_operations_def split: if_splits)

lemma inv_operations_new:
  assumes "inv_operations index claims" "btm_get claims cid = None"
    "btm_get index (claim_operation_id c) = None"
  shows "inv_operations (btm_insert (claim_operation_id c) cid index) (btm_insert cid c claims)"
proof -
  have "\<exists>d. btm_get (btm_insert cid c claims) k = Some d \<and> claim_operation_id d = op"
    if "btm_get (btm_insert (claim_operation_id c) cid index) op = Some k" for op k
  proof (cases "op = claim_operation_id c")
    case False
    with that assms(1) obtain d where "btm_get claims k = Some d" "claim_operation_id d = op"
      by (auto simp: inv_operations_def)
    with assms(2) show ?thesis by auto
  qed (use that in simp)
  moreover have "btm_get (btm_insert (claim_operation_id c) cid index) (claim_operation_id d) = Some k"
    if "btm_get (btm_insert cid c claims) k = Some d" for k d
    using that assms by (fastforce simp: inv_operations_def split: if_splits)
  ultimately show ?thesis by (simp add: inv_operations_def)
qed

text \<open>A claim that changes its state together with the slot it holds.\<close>

definition claim_moved :: "sandbox_pool_claim_state \<Rightarrow> sandbox_pool_claim \<Rightarrow> sandbox_pool_claim" where
  "claim_moved st c = c\<lparr>claim_state := st, claim_version := i64_saturating_succ (claim_version c)\<rparr>"

lemma claim_moved_fields [simp]:
  "claim_state (claim_moved st c) = st" "claim_slot_id (claim_moved st c) = claim_slot_id c"
  "claim_binding_id (claim_moved st c) = claim_binding_id c"
  "claim_operation_id (claim_moved st c) = claim_operation_id c"
  "claim_fencing_token (claim_moved st c) = claim_fencing_token c"
  "claim_id (claim_moved st c) = claim_id c"
  "claim_claimed_at (claim_moved st c) = claim_claimed_at c"
  "claim_expires_at (claim_moved st c) = claim_expires_at c"
  "claim_request_fingerprint (claim_moved st c) = claim_request_fingerprint c"
  "claim_tenant_id (claim_moved st c) = claim_tenant_id c"
  by (simp_all add: claim_moved_def)

lemma slot_moved_fields [simp]:
  "slot_state (slot_moved st now slot) = st" "slot_id (slot_moved st now slot) = slot_id slot"
  "slot_fencing_token (slot_moved st now slot) = slot_fencing_token slot"
  "slot_capacity_revision (slot_moved st now slot) = slot_capacity_revision slot"
  "slot_evidence_fingerprint (slot_moved st now slot) = slot_evidence_fingerprint slot"
  "slot_profile_id (slot_moved st now slot) = slot_profile_id slot"
  "slot_updated_at (slot_moved st now slot) = now"
  by (simp_all add: slot_moved_def)

definition end_claim :: "string \<Rightarrow> sandbox_pool_claim \<Rightarrow> sandbox_pool_claim_state \<Rightarrow> pool_registry \<Rightarrow> pool_registry" where
  "end_claim cid c st s =
     s\<lparr>reg_claims := btm_insert cid (claim_moved st c) (reg_claims s),
       reg_active_by_slot := btm_remove (claim_slot_id c) (reg_active_by_slot s),
       reg_active_by_binding := btm_remove (claim_binding_id c) (reg_active_by_binding s)\<rparr>"

lemma pool_inv_end_move:
  assumes inv: "pool_inv s" and slot: "btm_get (reg_slots s) sid = Some slot"
    and act: "active_claim (reg_claims s) cid c" and sid: "claim_slot_id c = sid"
    and st: "st \<in> {ClaimReleased, ClaimQuarantined}"
    and new: "slot_id slot' = sid" "slot_fencing_token slot' = slot_fencing_token slot"
      "slot_capacity_revision slot' = slot_capacity_revision slot"
      "slot_state slot' \<in> {SlotReady, SlotQuarantined, SlotRetired}"
      "slot_state slot' = SlotReady \<Longrightarrow> slot_evidence_fingerprint slot' \<noteq> None"
  shows "pool_inv (put_slot sid slot' (end_claim cid c st s))" (is "pool_inv ?t")
proof (rule pool_invI)
  have get: "btm_get (reg_claims s) cid = Some c"
    using act by (simp add: active_claim_def)
  have ended: "\<not> is_active_claim_state (claim_state (claim_moved st c))"
    using st by (auto simp: is_active_claim_state_def)
  fix k sl assume "btm_get (reg_slots ?t) k = Some sl"
  then show "slot_inv (reg_highest_token ?t) (btm_contains (reg_active_by_slot ?t) k) k sl"
    using pool_invD(3) [OF inv, of k sl] pool_invD(3) [OF inv slot] new sid
    by (auto simp: put_slot_def end_claim_def slot_inv_def split: if_splits)
next
  fix k d assume d: "btm_get (reg_claims ?t) k = Some d"
  show "claim_inv (reg_highest_token ?t) (reg_claim_sequence ?t)
      (btm_get (reg_slots ?t) (claim_slot_id d)) k d"
  proof (cases "k = cid")
    case True
    with d have "d = claim_moved st c" by (simp add: put_slot_def end_claim_def)
    with True st sid act slot pool_invD(4) [OF inv, of cid c] show ?thesis
      by (auto simp: put_slot_def end_claim_def claim_inv_def active_claim_def is_active_claim_state_def)
  next
    case False
    with d have get: "btm_get (reg_claims s) k = Some d" by (simp add: put_slot_def end_claim_def)
    have "claim_slot_id d = sid \<Longrightarrow> \<not> is_active_claim_state (claim_state d)"
      using pool_inv_active_unique [OF inv act] get sid False by (metis active_claim_def)
    with pool_invD(4) [OF inv get] slot show ?thesis
      by (auto simp: put_slot_def end_claim_def claim_inv_def)
  qed
next
  have ended: "\<not> is_active_claim_state (claim_state (claim_moved st c))"
    using st by (auto simp: is_active_claim_state_def)
  show "index_agrees claim_slot_id (reg_active_by_slot ?t) (reg_claims ?t)"
    "index_agrees claim_binding_id (reg_active_by_binding ?t) (reg_claims ?t)"
    using index_agrees_end [OF pool_invD(6) [OF inv] act ended]
      index_agrees_end [OF pool_invD(7) [OF inv] act ended]
    by (simp_all add: put_slot_def end_claim_def)
  show "inv_bounds ?t"
    using pool_invD(9) [OF inv] pool_inv_bounds_put [OF inv slot]
    by (simp add: inv_bounds_def put_slot_def end_claim_def)
  show "inv_tokens (reg_claims ?t)" "inv_operations (reg_claims_by_operation ?t) (reg_claims ?t)"
    using act inv_tokens_update [OF pool_invD(5) [OF inv], of cid c "claim_moved st c"]
      inv_operations_update [OF pool_invD(8) [OF inv], of cid c "claim_moved st c"]
    by (simp_all add: put_slot_def end_claim_def active_claim_def)
qed (use pool_invD [OF inv] in \<open>simp_all add: put_slot_def end_claim_def\<close>)

lemma pool_inv_release_move:
  assumes inv: "pool_inv s" and slot: "btm_get (reg_slots s) sid = Some slot"
    and get: "btm_get (reg_claims s) cid = Some c" and sid: "claim_slot_id c = sid"
    and bound: "claim_state c = ClaimBound"
  shows "pool_inv (put_slot sid (slot_moved SlotSanitizing now slot)
           (s\<lparr>reg_claims := btm_insert cid (claim_moved ClaimReleasing c) (reg_claims s)\<rparr>))"
    (is "pool_inv ?t")
proof -
  have act: "active_claim (reg_claims s) cid c"
    using get bound by (simp add: active_claim_def is_active_claim_state_def)
  have bridge: "bridge_agrees slot c"
    using pool_invD(4) [OF inv get] slot sid bound
    by (simp add: claim_inv_def is_active_claim_state_def)
  have still: "is_active_claim_state (claim_state (claim_moved ClaimReleasing c))"
    by (simp add: is_active_claim_state_def)
  show ?thesis
  proof (rule pool_invI)
    fix k sl assume "btm_get (reg_slots ?t) k = Some sl"
    then show "slot_inv (reg_highest_token ?t) (btm_contains (reg_active_by_slot ?t) k) k sl"
      using pool_invD(3) [OF inv, of k sl] pool_invD(3) [OF inv slot] bridge bound
      by (auto simp: put_slot_def slot_inv_def bridge_agrees_def split: if_splits)
  next
    fix k d assume d: "btm_get (reg_claims ?t) k = Some d"
    show "claim_inv (reg_highest_token ?t) (reg_claim_sequence ?t)
        (btm_get (reg_slots ?t) (claim_slot_id d)) k d"
    proof (cases "k = cid")
      case True
      with d have "d = claim_moved ClaimReleasing c" by (simp add: put_slot_def)
      with True sid slot bridge bound pool_invD(4) [OF inv get] show ?thesis
        by (auto simp: put_slot_def claim_inv_def bridge_agrees_def)
    next
      case False
      with d have get': "btm_get (reg_claims s) k = Some d" by (simp add: put_slot_def)
      have "claim_slot_id d = sid \<Longrightarrow> \<not> is_active_claim_state (claim_state d)"
        using pool_inv_active_unique [OF inv act] get' sid False by (metis active_claim_def)
      with pool_invD(4) [OF inv get'] slot show ?thesis
        by (auto simp: put_slot_def claim_inv_def)
    qed
  next
    show "index_agrees claim_slot_id (reg_active_by_slot ?t) (reg_claims ?t)"
      "index_agrees claim_binding_id (reg_active_by_binding ?t) (reg_claims ?t)"
      using index_agrees_keep [OF pool_invD(6) [OF inv] act still]
        index_agrees_keep [OF pool_invD(7) [OF inv] act still]
      by (simp_all add: put_slot_def)
    show "inv_bounds ?t"
      using pool_invD(9) [OF inv] pool_inv_bounds_put [OF inv slot]
      by (simp add: inv_bounds_def put_slot_def)
    show "inv_tokens (reg_claims ?t)" "inv_operations (reg_claims_by_operation ?t) (reg_claims ?t)"
      using get inv_tokens_update [OF pool_invD(5) [OF inv], of cid c "claim_moved ClaimReleasing c"]
        inv_operations_update [OF pool_invD(8) [OF inv], of cid c "claim_moved ClaimReleasing c"]
      by (simp_all add: put_slot_def)
  qed (use pool_invD [OF inv] in \<open>simp_all add: put_slot_def\<close>)
qed


section \<open>The claim commit\<close>

lemma claim_name_inject: "claim_name a = claim_name b \<longleftrightarrow> a = b"
  by (simp add: claim_name_def decimal_inject word_unat_eq_iff)

lemma claim_name_accepted: "pool_id_new (claim_name n) = Inr (claim_name n)"
proof -
  have "length (decimal (unat n)) \<le> Suc 19"
    by (rule decimal_length) (use unat_u64_less [of n] in simp)
  moreover have "is_ascii_graphic c" if "c \<in> set (decimal (unat n))" for c
    using decimal_digits [OF that] by (simp add: is_ascii_graphic_def)
  moreover have "CHR ''/'' \<notin> set (decimal (unat n))"
    using decimal_digits [of "CHR ''/''" "unat n"] by auto
  ultimately have "opaque_text max_sandbox_pool_id_length (claim_name n)"
    by (intro opaque_textI) (auto simp: claim_name_def max_sandbox_pool_id_length_def is_ascii_graphic_def)
  then show ?thesis
    by (simp add: pool_id_new_def pool_validate_opaque_def)
qed

definition committed ::
  "u64 \<Rightarrow> sandbox_pool_claim_request \<Rightarrow> string \<Rightarrow> string \<Rightarrow> fencing_token \<Rightarrow> u64
   \<Rightarrow> sandbox_pool_slot \<Rightarrow> pool_registry \<Rightarrow> pool_registry" where
  "committed now r grant cap tok sq slot s =
     (let cid = claim_name sq; claim = claim_bound now r grant cap cid tok in
      s\<lparr>reg_claim_sequence := sq,
        reg_slots := btm_insert (creq_slot_id r)
          ((slot_moved SlotClaimed now slot)\<lparr>slot_fencing_token := tok\<rparr>) (reg_slots s),
        reg_highest_token := tok,
        reg_claims := btm_insert cid claim (reg_claims s),
        reg_claims_by_operation := btm_insert (creq_operation_id r) cid (reg_claims_by_operation s),
        reg_active_by_slot := btm_insert (creq_slot_id r) cid (reg_active_by_slot s),
        reg_active_by_binding := btm_insert (creq_binding_id r) cid (reg_active_by_binding s)\<rparr>)"

lemma claim_commit_eq:
  assumes "btm_get (reg_slots s) (creq_slot_id r) = Some slot" "slot_state slot = SlotReady"
  shows "claim_commit now r grant cap s =
    (case fencing_next (reg_highest_token s) of
       None \<Rightarrow> (s, Inl SandboxPoolInternal)
     | Some tok \<Rightarrow>
         (case u64_checked_succ (reg_claim_sequence s) of
            None \<Rightarrow> (s, Inl SandboxPoolInternal)
          | Some sq \<Rightarrow>
              (committed now r grant cap tok sq slot s,
               Inr (claim_bound now r grant cap (claim_name sq) tok))))"
  using assms
  by (simp add: claim_commit_def Let_def claim_name_accepted slot_can_transition_to_def
      committed_def put_slot_def claim_bound_def split: option.split)

lemma claim_slot_refusal_None:
  "claim_slot_refusal r slot s = None \<longleftrightarrow>
     slot_profile_id slot = creq_profile_id r \<and> slot_state slot = SlotReady
     \<and> slot_capacity_revision slot = creq_capacity_revision r
     \<and> creq_expected_token r = slot_fencing_token slot
     \<and> \<not> btm_contains (reg_active_by_slot s) (creq_slot_id r)"
  by (auto simp: claim_slot_refusal_def)

lemma claim_inv_mono:
  "claim_inv highest sq slot k c \<Longrightarrow> highest \<le> highest' \<Longrightarrow> sq \<le> sq' \<Longrightarrow>
     claim_inv highest' sq' slot k c"
  unfolding claim_inv_def by (meson order_trans)

lemma claim_inv_inactive:
  "claim_inv highest sq slot k c \<Longrightarrow> \<not> is_active_claim_state (claim_state c) \<Longrightarrow>
     claim_inv highest sq (Some slot') k c"
  by (simp add: claim_inv_def)

lemma pool_inv_committed:
  assumes inv: "pool_inv s" and slot: "btm_get (reg_slots s) (creq_slot_id r) = Some slot"
    and ready: "slot_state slot = SlotReady"
    and op: "btm_get (reg_claims_by_operation s) (creq_operation_id r) = None"
    and binding: "\<not> btm_contains (reg_active_by_binding s) (creq_binding_id r)"
    and tok: "fencing_next (reg_highest_token s) = Some tok"
    and sq: "u64_checked_succ (reg_claim_sequence s) = Some sq"
  shows "pool_inv (committed now r grant cap tok sq slot s)" (is "pool_inv ?t")
proof -
  let ?sid = "creq_slot_id r" and ?cid = "claim_name sq"
  let ?c = "claim_bound now r grant cap ?cid tok"
  let ?slot' = "(slot_moved SlotClaimed now slot)\<lparr>slot_fencing_token := tok\<rparr>"
  have hi: "tok = reg_highest_token s + 1" "tok \<le> i64_max" "0 < tok"
    using fencing_next_Some [OF tok] pool_invD(9) [OF inv] by (auto simp: inv_bounds_def)
  have seq: "reg_claim_sequence s < sq"
    using u64_checked_succ_Some [OF sq] by (simp add: word_less_nat_alt)
  have free: "btm_get (reg_active_by_slot s) ?sid = None"
    using pool_invD(3) [OF inv slot] ready by (simp add: slot_inv_def btm_not_contains)
  have fresh: "btm_get (reg_claims s) ?cid = None"
  proof (rule ccontr)
    assume "btm_get (reg_claims s) ?cid \<noteq> None"
    then obtain d where "btm_get (reg_claims s) ?cid = Some d" by auto
    from pool_invD(4) [OF inv this] obtain n where "n \<le> reg_claim_sequence s" "?cid = claim_name n"
      by (auto simp: claim_inv_def)
    with seq show False by (simp add: claim_name_inject)
  qed
  have act: "is_active_claim_state (claim_state ?c)"
    by (simp add: claim_bound_def is_active_claim_state_def)
  show ?thesis
  proof (rule pool_invI)
    fix k sl assume "btm_get (reg_slots ?t) k = Some sl"
    then show "slot_inv (reg_highest_token ?t) (btm_contains (reg_active_by_slot ?t) k) k sl"
      using pool_invD(3) [OF inv, of k sl] pool_invD(3) [OF inv slot] hi ready
      by (auto simp: committed_def Let_def slot_inv_def split: if_splits)
  next
    fix k d assume d: "btm_get (reg_claims ?t) k = Some d"
    show "claim_inv (reg_highest_token ?t) (reg_claim_sequence ?t)
        (btm_get (reg_slots ?t) (claim_slot_id d)) k d"
    proof (cases "k = ?cid")
      case True
      with d have "d = ?c" by (simp add: committed_def Let_def)
      with True hi show ?thesis
        by (auto simp: committed_def Let_def claim_inv_def claim_bound_def bridge_agrees_def
            u64_saturating_add_ge)
    next
      case False
      with d have get: "btm_get (reg_claims s) k = Some d" by (simp add: committed_def Let_def)
      have "claim_slot_id d = ?sid \<Longrightarrow> \<not> is_active_claim_state (claim_state d)"
        using pool_invD(6) [OF inv] get free unfolding index_agrees_def active_claim_def
        by (metis option.distinct(1))
      then have "claim_inv (reg_highest_token s) (reg_claim_sequence s)
          (if claim_slot_id d = ?sid then Some ?slot' else btm_get (reg_slots s) (claim_slot_id d)) k d"
        using claim_inv_inactive [OF pool_invD(4) [OF inv get]] pool_invD(4) [OF inv get] by simp
      from claim_inv_mono [OF this, of tok sq] hi(1) less_imp_le [OF seq]
      have "claim_inv tok sq
          (if claim_slot_id d = ?sid then Some ?slot' else btm_get (reg_slots s) (claim_slot_id d)) k d"
        by linarith
      then show ?thesis
        by (simp add: committed_def Let_def)
    qed
  next
    show "index_agrees claim_slot_id (reg_active_by_slot ?t) (reg_claims ?t)"
      "index_agrees claim_binding_id (reg_active_by_binding ?t) (reg_claims ?t)"
      using index_agrees_new [OF pool_invD(6) [OF inv] fresh _ act] free
        index_agrees_new [OF pool_invD(7) [OF inv] fresh _ act] binding
      by (simp_all add: committed_def Let_def claim_bound_def btm_not_contains)
    show "inv_bounds ?t"
      using pool_invD(9) [OF inv] pool_inv_bounds_put [OF inv slot] hi
      by (simp add: inv_bounds_def committed_def Let_def)
    show "inv_tokens (reg_claims ?t)"
      using inv_tokens_new [OF pool_invD(5) [OF inv], of ?c ?cid] pool_invD(4) [OF inv] hi
      by (fastforce simp: committed_def Let_def claim_inv_def claim_bound_def)
    show "inv_operations (reg_claims_by_operation ?t) (reg_claims ?t)"
      using inv_operations_new [OF pool_invD(8) [OF inv] fresh, of ?c] op
      by (simp add: committed_def Let_def claim_bound_def)
  qed (use pool_invD [OF inv] in \<open>simp_all add: committed_def Let_def\<close>)
qed

section \<open>Finalisation under the invariant\<close>

lemma finalize_ended:
  assumes "btm_get (reg_claims s) cid = Some c" "claim_state c \<in> {ClaimBound, ClaimReleasing}"
  shows "finalize_claim_state cid ClaimQuarantined s =
           (end_claim cid c ClaimQuarantined s, Inr (claim_moved ClaimQuarantined c))"
  using assms
  by (auto simp: finalize_claim_state_def claim_can_transition_to_def Let_def end_claim_def
      claim_moved_def is_active_claim_state_def)

lemma finalize_released:
  assumes "btm_get (reg_claims s) cid = Some c" "claim_state c = ClaimReleasing"
  shows "finalize_claim_state cid ClaimReleased s =
           (end_claim cid c ClaimReleased s, Inr (claim_moved ClaimReleased c))"
  using assms
  by (auto simp: finalize_claim_state_def claim_can_transition_to_def Let_def end_claim_def
      claim_moved_def is_active_claim_state_def)

lemma finalize_releasing:
  assumes "btm_get (reg_claims s) cid = Some c" "claim_state c = ClaimBound"
  shows "finalize_claim_state cid ClaimReleasing s =
           (s\<lparr>reg_claims := btm_insert cid (claim_moved ClaimReleasing c) (reg_claims s)\<rparr>,
            Inr (claim_moved ClaimReleasing c))"
  using assms
  by (auto simp: finalize_claim_state_def claim_can_transition_to_def Let_def
      claim_moved_def is_active_claim_state_def)

lemma end_claim_slots [simp]: "reg_slots (end_claim cid c st s) = reg_slots s"
  by (simp add: end_claim_def)

lemma end_claim_highest [simp]: "reg_highest_token (end_claim cid c st s) = reg_highest_token s"
  by (simp add: end_claim_def)

text \<open>
  Under the invariant the claim half of quarantine and retire never fails: either the slot has no
  active claim and nothing changes, or its one active claim ends quarantined.
\<close>

lemma quarantine_active_claim_cases:
  assumes inv: "pool_inv s"
  obtains (idle) "btm_get (reg_active_by_slot s) sid = None"
      "quarantine_active_claim sid s = (s, Inr ())"
  | (held) cid c slot where "active_claim (reg_claims s) cid c" "claim_slot_id c = sid"
      "btm_get (reg_active_by_slot s) sid = Some cid"
      "btm_get (reg_slots s) sid = Some slot" "bridge_agrees slot c"
      "quarantine_active_claim sid s = (end_claim cid c ClaimQuarantined s, Inr ())"
proof (cases "btm_get (reg_active_by_slot s) sid")
  case None
  then show ?thesis using idle by (simp add: quarantine_active_claim_def)
next
  case (Some cid)
  from pool_inv_active_slot [OF inv Some] obtain c slot where
    "active_claim (reg_claims s) cid c" "btm_get (reg_claims s) cid = Some c"
    "claim_slot_id c = sid" "claim_state c \<in> {ClaimBound, ClaimReleasing}"
    "btm_get (reg_slots s) sid = Some slot" "bridge_agrees slot c" by metis
  with Some show ?thesis
    by (intro held [of cid c slot]) (auto simp: quarantine_active_claim_def finalize_ended)
qed


section \<open>Every operation preserves the invariant\<close>

lemma prepare_preserves: "pool_inv s \<Longrightarrow> pool_inv (fst (sandbox_prepare_pool_slot now r s))"
  by (auto simp: sandbox_prepare_pool_slot_def sandbox_pool_slot_new_def btm_not_contains
      fencing_initial_def intro!: pool_inv_new_slot split: if_splits)

lemma claim_preserves:
  assumes inv: "pool_inv s"
  shows "pool_inv (fst (sandbox_claim_pool_slot now r s))"
proof (cases "claim_budget_exhausted (creq_operation_id r) s")
  case False
  note failed = pool_inv_note_failed [OF inv False]
  have commit: "pool_inv (fst (claim_commit now r grant cap s))"
    if "btm_get (reg_slots s) (creq_slot_id r) = Some slot" "claim_slot_refusal r slot s = None"
      "btm_get (reg_claims_by_operation s) (creq_operation_id r) = None"
      "\<not> btm_contains (reg_active_by_binding s) (creq_binding_id r)" for slot grant cap
  proof -
    from that(2) have ready: "slot_state slot = SlotReady" by (simp add: claim_slot_refusal_None)
    show ?thesis
      using inv pool_inv_committed [OF inv that(1) ready that(3,4)]
      by (auto simp: claim_commit_eq [OF that(1) ready] split: option.split)
  qed
  show ?thesis
  proof (cases "claim_request_validated r")
    case (Inr r')
    then have "r' = r" by (simp add: claim_request_validated_iff)
    with Inr inv failed commit False show ?thesis
      by (auto simp: sandbox_claim_pool_slot_def Let_def split: option.split)
  qed (simp add: sandbox_claim_pool_slot_def inv)
next
  case True
  show ?thesis
  proof (cases "claim_request_validated r")
    case (Inr r')
    then have "r' = r" by (simp add: claim_request_validated_iff)
    with Inr inv True show ?thesis by (simp add: sandbox_claim_pool_slot_def Let_def)
  qed (simp add: sandbox_claim_pool_slot_def inv)
qed

lemma mark_ready_preserves:
  assumes inv: "pool_inv s"
  shows "pool_inv (fst (sandbox_mark_pool_slot_ready now r s))"
proof (cases "btm_get (reg_slots s) (ready_slot_id r)")
  case (Some slot)
  let ?sid = "ready_slot_id r"
  let ?ev = "Some (ready_evidence_fingerprint r)"
  have sinv: "slot_inv (reg_highest_token s) (btm_contains (reg_active_by_slot s) ?sid) ?sid slot"
    by (rule pool_invD(3) [OF inv Some])
  consider (prep) "slot_state slot = SlotPreparing" | (san) "slot_state slot = SlotSanitizing"
    | (other) "slot_state slot \<notin> {SlotPreparing, SlotSanitizing}" by auto
  then show ?thesis
  proof cases
    case prep
    then have "btm_get (reg_active_by_slot s) ?sid = None"
      using sinv by (simp add: slot_inv_def btm_not_contains)
    from pool_inv_idle_move [OF inv Some this,
        of "(slot_moved SlotReady now slot)\<lparr>slot_evidence_fingerprint := ?ev\<rparr>"]
    have "pool_inv (put_slot ?sid ((slot_moved SlotReady now slot)\<lparr>slot_evidence_fingerprint := ?ev\<rparr>) s)"
      using sinv by (simp add: slot_inv_def)
    then show ?thesis
      using inv prep Some
      by (auto simp: sandbox_mark_pool_slot_ready_def Let_def split: sum.split)
  next
    case san
    then have "btm_contains (reg_active_by_slot s) ?sid" using sinv by (simp add: slot_inv_def)
    then obtain cid where cid: "btm_get (reg_active_by_slot s) ?sid = Some cid" by (rule btm_containsE)
    from pool_inv_active_slot [OF inv cid] obtain c slot0 where
      c': "active_claim (reg_claims s) cid c" "btm_get (reg_claims s) cid = Some c"
      "claim_slot_id c = ?sid" "btm_get (reg_slots s) ?sid = Some slot0" "bridge_agrees slot0 c" by metis
    then have "claim_state c = ClaimReleasing"
      using Some san by (auto simp: bridge_agrees_def)
    note c = c'(1-3) this
    from pool_inv_end_move [OF inv Some c(1,3), of ClaimReleased
        "(slot_moved SlotReady now slot)\<lparr>slot_evidence_fingerprint := ?ev\<rparr>"]
    have "pool_inv (put_slot ?sid ((slot_moved SlotReady now slot)\<lparr>slot_evidence_fingerprint := ?ev\<rparr>)
        (end_claim cid c ClaimReleased s))"
      using sinv by (simp add: slot_inv_def)
    then show ?thesis
      using inv san Some cid finalize_released [OF c(2,4)]
      by (auto simp: sandbox_mark_pool_slot_ready_def Let_def slot_can_transition_to_def split: sum.split)
  next
    case other
    then show ?thesis
      using inv Some by (auto simp: sandbox_mark_pool_slot_ready_def split: sum.split)
  qed
qed (use inv in \<open>auto simp: sandbox_mark_pool_slot_ready_def split: sum.split\<close>)

lemma release_preserves:
  assumes inv: "pool_inv s"
  shows "pool_inv (fst (sandbox_release_pool_claim now r s))"
proof (cases "\<exists>c. btm_get (reg_claims s) (rel_claim_id r) = Some c \<and> claim_state c = ClaimBound")
  case True
  then obtain c where c: "btm_get (reg_claims s) (rel_claim_id r) = Some c" "claim_state c = ClaimBound"
    by blast
  from pool_invD(4) [OF inv c(1)] c(2) obtain slot where
    id: "claim_id c = rel_claim_id r" and slot: "btm_get (reg_slots s) (claim_slot_id c) = Some slot"
    and bridge: "bridge_agrees slot c"
    by (auto simp: claim_inv_def is_active_claim_state_def split: option.splits)
  from bridge c(2) have "slot_can_transition_to (slot_state slot) SlotSanitizing"
    by (auto simp: bridge_agrees_def slot_can_transition_to_def)
  then show ?thesis
    using inv c id slot pool_inv_release_move [OF inv slot c(1) refl c(2), of now]
      finalize_releasing [OF c]
    by (auto simp: sandbox_release_pool_claim_def Let_def)
next
  case False
  then show ?thesis
    using inv by (auto simp: sandbox_release_pool_claim_def Let_def
        split: option.split sandbox_pool_claim_state.split)
qed

lemma quarantine_locked_preserves:
  assumes inv: "pool_inv s"
  shows "pool_inv (fst (quarantine_locked sid now s))"
  using inv
proof (cases rule: quarantine_active_claim_cases [where sid = sid])
  case idle
  then show ?thesis
    using inv pool_inv_idle_move [OF inv _ idle(1), of _ "slot_moved SlotQuarantined now _"]
      pool_invD(3) [OF inv]
    by (auto simp: quarantine_locked_def Let_def slot_inv_def split: option.split)
next
  case (held cid c slot)
  then have "slot_id slot = sid" "slot_state slot \<in> {SlotClaimed, SlotSanitizing}"
    using pool_invD(3) [OF inv held(4)] by (auto simp: slot_inv_def bridge_agrees_def)
  then show ?thesis
    using held pool_inv_end_move [OF inv held(4,1,2), of ClaimQuarantined "slot_moved SlotQuarantined now slot"]
    by (auto simp: quarantine_locked_def Let_def slot_can_transition_to_def)
qed

lemma quarantine_preserves: "pool_inv s \<Longrightarrow> pool_inv (fst (sandbox_quarantine_pool_slot now r s))"
  by (simp add: sandbox_quarantine_pool_slot_def quarantine_locked_preserves split: option.split)

lemma retire_preserves:
  assumes inv: "pool_inv s"
  shows "pool_inv (fst (sandbox_retire_pool_slot now r s))"
  using inv
proof (cases rule: quarantine_active_claim_cases [where sid = "ret_slot_id r"])
  case idle
  then show ?thesis
    using inv pool_inv_idle_move [OF inv _ idle(1), of _ "slot_moved SlotRetired now _"]
      pool_invD(3) [OF inv]
    by (auto simp: sandbox_retire_pool_slot_def Let_def slot_inv_def split: option.split)
next
  case (held cid c slot)
  then have "slot_id slot = ret_slot_id r" "slot_state slot \<in> {SlotClaimed, SlotSanitizing}"
    using pool_invD(3) [OF inv held(4)] by (auto simp: slot_inv_def bridge_agrees_def)
  then show ?thesis
    using inv held pool_inv_end_move [OF inv held(4,1,2), of ClaimQuarantined "slot_moved SlotRetired now slot"]
    by (auto simp: sandbox_retire_pool_slot_def Let_def slot_can_transition_to_def)
qed

lemma reconcile_visit_preserves:
  "pool_inv s \<Longrightarrow> pool_inv (fst (reconcile_visit batch now cands visited report s))"
proof (induction batch now cands visited report s rule: reconcile_visit.induct)
  case (2 batch now sid reason cands visited report s)
  obtain s' res where q: "quarantine_locked sid now s = (s', res)" by force
  with quarantine_locked_preserves [OF "2.prems", of sid now] have "pool_inv s'" by simp
  with 2 q show ?case
    by (cases res) (simp_all add: Let_def)
qed simp

lemma reconcile_preserves: "pool_inv s \<Longrightarrow> pool_inv (fst (sandbox_reconcile_pool_slots now batch s))"
  using reconcile_visit_preserves [of s batch now "reconcile_candidates now s" "[]"
      "\<lparr>rep_examined = 0, rep_quarantined = []\<rparr>"]
  by (auto simp: sandbox_reconcile_pool_slots_def split: prod.split)

lemmas pool_preserves = prepare_preserves claim_preserves mark_ready_preserves release_preserves
  quarantine_preserves retire_preserves reconcile_preserves

lemma pool_exec_preserves: "pool_inv s \<Longrightarrow> pool_inv (pool_exec now op s)"
  by (cases op) (simp_all add: pool_preserves)

interpretation pool_machine: invariant_machine pool_registry_default pool_step pool_inv
  by unfold_locales (auto simp: pool_inv_default elim!: pool_stepE intro: pool_exec_preserves)

lemma pool_reachable_inv: "pool_reachable s \<Longrightarrow> pool_inv s"
  unfolding pool_reachable_def by (rule pool_machine.reachable_inv)

end
