(* ===== verification/Pool_Evolution.thy ===== *)
theory Pool_Evolution
  imports Pool_Invariant
begin

text \<open>
  What a pool registry never loses: a slot keeps its identity and moves only along the closed
  table, tokens only grow, and a recorded claim keeps its identity, its operation and its
  fingerprint. The step relation is a growing machine for these facts, so they hold between any
  state and any later one.
\<close>

section \<open>Slots and claims advance\<close>

definition slot_advances :: "sandbox_pool_slot \<Rightarrow> sandbox_pool_slot \<Rightarrow> bool" where
  "slot_advances a b \<longleftrightarrow>
     slot_id b = slot_id a \<and> slot_class b = slot_class a \<and> slot_profile_id b = slot_profile_id a
     \<and> slot_node_reference b = slot_node_reference a \<and> slot_provider_id b = slot_provider_id a
     \<and> slot_provider_kind b = slot_provider_kind a \<and> slot_assurance b = slot_assurance a
     \<and> slot_artifact_revision b = slot_artifact_revision a
     \<and> slot_capacity_revision b = slot_capacity_revision a \<and> slot_created_at b = slot_created_at a
     \<and> slot_can_transition_to\<^sup>*\<^sup>* (slot_state a) (slot_state b)
     \<and> slot_fencing_token a \<le> slot_fencing_token b"

definition claim_advances :: "sandbox_pool_claim \<Rightarrow> sandbox_pool_claim \<Rightarrow> bool" where
  "claim_advances a b \<longleftrightarrow>
     claim_tenant_id b = claim_tenant_id a \<and> claim_id b = claim_id a
     \<and> claim_slot_id b = claim_slot_id a
     \<and> claim_admission_grant_id b = claim_admission_grant_id a
     \<and> claim_capacity_reservation_id b = claim_capacity_reservation_id a
     \<and> claim_capacity_revision b = claim_capacity_revision a
     \<and> claim_session_id b = claim_session_id a \<and> claim_binding_id b = claim_binding_id a
     \<and> claim_operation_id b = claim_operation_id a
     \<and> claim_request_fingerprint b = claim_request_fingerprint a
     \<and> claim_fencing_token b = claim_fencing_token a
     \<and> claim_claimed_at b = claim_claimed_at a \<and> claim_expires_at b = claim_expires_at a
     \<and> claim_can_transition_to\<^sup>*\<^sup>* (claim_state a) (claim_state b)"

definition pool_grows :: "pool_registry \<Rightarrow> pool_registry \<Rightarrow> bool" where
  "pool_grows s t \<longleftrightarrow>
     reg_highest_token s \<le> reg_highest_token t
     \<and> (\<forall>sid slot. btm_get (reg_slots s) sid = Some slot \<longrightarrow>
          (\<exists>slot'. btm_get (reg_slots t) sid = Some slot' \<and> slot_advances slot slot'))
     \<and> (\<forall>cid c. btm_get (reg_claims s) cid = Some c \<longrightarrow>
          (\<exists>c'. btm_get (reg_claims t) cid = Some c' \<and> claim_advances c c'))
     \<and> (\<forall>op cid. btm_get (reg_claims_by_operation s) op = Some cid \<longrightarrow>
          btm_get (reg_claims_by_operation t) op = Some cid)"

lemma slot_advances_refl [simp]: "slot_advances a a"
  by (simp add: slot_advances_def)

lemma slot_advances_trans:
  assumes ab: "slot_advances a b" and bc: "slot_advances b c"
  shows "slot_advances a c"
proof -
  have "slot_can_transition_to\<^sup>*\<^sup>* (slot_state a) (slot_state b)"
    "slot_can_transition_to\<^sup>*\<^sup>* (slot_state b) (slot_state c)"
    using ab bc by (simp_all add: slot_advances_def)
  then have "slot_can_transition_to\<^sup>*\<^sup>* (slot_state a) (slot_state c)"
    by (rule rtranclp_trans)
  with ab bc show ?thesis by (simp add: slot_advances_def)
qed

lemma claim_advances_refl [simp]: "claim_advances a a"
  by (simp add: claim_advances_def)

lemma claim_advances_trans:
  assumes ab: "claim_advances a b" and bc: "claim_advances b c"
  shows "claim_advances a c"
proof -
  have "claim_can_transition_to\<^sup>*\<^sup>* (claim_state a) (claim_state b)"
    "claim_can_transition_to\<^sup>*\<^sup>* (claim_state b) (claim_state c)"
    using ab bc by (simp_all add: claim_advances_def)
  then have "claim_can_transition_to\<^sup>*\<^sup>* (claim_state a) (claim_state c)"
    by (rule rtranclp_trans)
  with ab bc show ?thesis by (simp add: claim_advances_def)
qed

lemma slot_advances_moved:
  assumes "slot_can_transition_to (slot_state a) st"
  shows "slot_advances a (slot_moved st now a)"
    "slot_advances a ((slot_moved st now a)\<lparr>slot_evidence_fingerprint := ev\<rparr>)"
  using assms by (auto simp: slot_advances_def slot_moved_def)

lemma claim_advances_moved:
  "claim_can_transition_to (claim_state c) st \<Longrightarrow> claim_advances c (claim_moved st c)"
  by (auto simp: claim_advances_def claim_moved_def)

lemma pool_grows_refl [simp]: "pool_grows s s"
  by (auto simp: pool_grows_def)

lemma pool_grows_trans: "pool_grows s t \<Longrightarrow> pool_grows t u \<Longrightarrow> pool_grows s u"
  unfolding pool_grows_def
  by (elim conjE, intro conjI) (simp, (meson slot_advances_trans claim_advances_trans)+)

section \<open>The primitive updates grow\<close>

lemma pool_grows_put:
  assumes "btm_get (reg_slots s) sid = Some slot" "slot_advances slot slot'"
  shows "pool_grows s (put_slot sid slot' s)"
  using assms by (auto simp: pool_grows_def put_slot_def)

lemma pool_grows_new:
  "btm_get (reg_slots s) sid = None \<Longrightarrow> pool_grows s (put_slot sid slot s)"
  by (auto simp: pool_grows_def put_slot_def)

lemma pool_grows_note: "pool_grows s (note_failed_claim op s)"
  by (simp add: pool_grows_def note_failed_claim_def Let_def)

lemma pool_grows_finalize: "pool_grows s (fst (finalize_claim_state cid st s))"
proof (cases "btm_get (reg_claims s) cid")
  case (Some c)
  then show ?thesis
    using claim_advances_moved [of c st]
    by (auto simp: finalize_claim_state_def Let_def pool_grows_def claim_moved_def [symmetric])
qed (simp add: finalize_claim_state_def)

lemma finalize_slots: "reg_slots (fst (finalize_claim_state cid st s)) = reg_slots s"
  by (auto simp: finalize_claim_state_def Let_def split: option.split)

lemma pool_grows_active: "pool_grows s (fst (quarantine_active_claim sid s))"
  using pool_grows_finalize [of s _ ClaimQuarantined]
  by (auto simp: quarantine_active_claim_def split: option.split prod.split sum.split)
     (metis fst_conv)+

lemma active_slots: "reg_slots (fst (quarantine_active_claim sid s)) = reg_slots s"
  using finalize_slots [of _ ClaimQuarantined s]
  by (auto simp: quarantine_active_claim_def split: option.split prod.split sum.split)
     (metis fst_conv)+


lemma pool_grows_finalize': "finalize_claim_state cid st s = (s', res) \<Longrightarrow> pool_grows s s'"
  using pool_grows_finalize [of s cid st] by simp

lemma pool_grows_active': "quarantine_active_claim sid s = (s', res) \<Longrightarrow> pool_grows s s'"
  using pool_grows_active [of s sid] by simp

lemma pool_grows_then_put:
  "pool_grows s s1 \<Longrightarrow> btm_get (reg_slots s1) sid = Some slot \<Longrightarrow> slot_advances slot slot' \<Longrightarrow>
     pool_grows s (put_slot sid slot' s1)"
  using pool_grows_trans pool_grows_put by blast

section \<open>Every operation grows\<close>

lemma prepare_grows: "pool_grows s (fst (sandbox_prepare_pool_slot now r s))"
  by (auto simp: sandbox_prepare_pool_slot_def sandbox_pool_slot_new_def btm_not_contains
      intro: pool_grows_new)

lemma committed_grows:
  assumes inv: "pool_inv s" and slot: "btm_get (reg_slots s) (creq_slot_id r) = Some slot"
    and ready: "slot_state slot = SlotReady"
    and op: "btm_get (reg_claims_by_operation s) (creq_operation_id r) = None"
    and tok: "fencing_next (reg_highest_token s) = Some tok"
    and sq: "u64_checked_succ (reg_claim_sequence s) = Some sq"
  shows "pool_grows s (committed now r grant cap tok sq slot s)"
proof -
  have hi: "slot_fencing_token slot \<le> tok" "reg_highest_token s \<le> tok"
    using fencing_next_Some [OF tok] pool_invD(3) [OF inv slot] by (auto simp: slot_inv_def)
  have fresh: "btm_get (reg_claims s) (claim_name sq) = None"
  proof (rule ccontr)
    assume "btm_get (reg_claims s) (claim_name sq) \<noteq> None"
    then obtain d where "btm_get (reg_claims s) (claim_name sq) = Some d" by auto
    from pool_invD(4) [OF inv this] have "sq \<le> reg_claim_sequence s"
      by (auto simp: claim_inv_def claim_name_inject)
    then show False
      using u64_checked_succ_Some [OF sq] by (simp add: word_le_nat_alt)
  qed
  have "slot_can_transition_to SlotReady SlotClaiming" "slot_can_transition_to SlotClaiming SlotClaimed"
    by (simp_all add: slot_can_transition_to_def)
  then have "slot_can_transition_to\<^sup>*\<^sup>* SlotReady SlotClaimed"
    by (meson rtranclp.rtrancl_into_rtrancl rtranclp.rtrancl_refl)
  then have "slot_advances slot ((slot_moved SlotClaimed now slot)\<lparr>slot_fencing_token := tok\<rparr>)"
    using hi ready by (simp add: slot_advances_def slot_moved_def)
  then show ?thesis
    using slot fresh op hi by (auto simp: pool_grows_def committed_def Let_def)
qed

lemma claim_grows:
  assumes inv: "pool_inv s"
  shows "pool_grows s (fst (sandbox_claim_pool_slot now r s))"
proof (cases "claim_request_validated r")
  case (Inr r')
  then have r: "claim_request_validated r = Inr r" by (simp add: claim_request_validated_iff)
  have commit: "pool_grows s (fst (claim_commit now r grant cap s))"
    if "btm_get (reg_slots s) (creq_slot_id r) = Some slot" "claim_slot_refusal r slot s = None"
      "btm_get (reg_claims_by_operation s) (creq_operation_id r) = None" for slot grant cap
  proof -
    from that(2) have ready: "slot_state slot = SlotReady" by (simp add: claim_slot_refusal_None)
    show ?thesis
      using committed_grows [OF inv that(1) ready that(3)]
      by (auto simp: claim_commit_eq [OF that(1) ready] split: option.split)
  qed
  then show ?thesis
    by (auto simp: sandbox_claim_pool_slot_def r Let_def pool_grows_note split: option.split)
qed (simp add: sandbox_claim_pool_slot_def)

lemma mark_ready_grows: "pool_grows s (fst (sandbox_mark_pool_slot_ready now r s))"
  by (auto simp: sandbox_mark_pool_slot_ready_def Let_def
      intro!: slot_advances_moved
      intro: pool_grows_then_put pool_grows_finalize' pool_grows_put
      split: sum.split option.split prod.split)

lemma release_grows: "pool_grows s (fst (sandbox_release_pool_claim now r s))"
  by (auto simp: sandbox_release_pool_claim_def Let_def
      intro!: slot_advances_moved
      intro: pool_grows_then_put pool_grows_finalize'
      split: sum.split option.split prod.split sandbox_pool_claim_state.split)

lemma quarantine_locked_grows: "pool_grows s (fst (quarantine_locked sid now s))"
  by (auto simp: quarantine_locked_def Let_def
      intro!: slot_advances_moved
      intro: pool_grows_then_put pool_grows_active'
      split: sum.split option.split prod.split)

lemma quarantine_grows: "pool_grows s (fst (sandbox_quarantine_pool_slot now r s))"
  by (simp add: sandbox_quarantine_pool_slot_def quarantine_locked_grows split: option.split)

lemma retire_grows: "pool_grows s (fst (sandbox_retire_pool_slot now r s))"
  by (auto simp: sandbox_retire_pool_slot_def Let_def
      intro!: slot_advances_moved
      intro: pool_grows_then_put pool_grows_active'
      split: sum.split option.split prod.split)

lemma reconcile_visit_grows: "pool_grows s (fst (reconcile_visit batch now cands visited report s))"
proof (induction batch now cands visited report s rule: reconcile_visit.induct)
  case (2 batch now sid reason cands visited report s)
  obtain s' res where q: "quarantine_locked sid now s = (s', res)" by force
  with quarantine_locked_grows [of s sid now] have "pool_grows s s'" by simp
  with 2 q show ?case
    by (cases res) (auto simp: Let_def intro: pool_grows_trans)
qed simp

lemma reconcile_grows: "pool_grows s (fst (sandbox_reconcile_pool_slots now batch s))"
  using reconcile_visit_grows [of s batch now "reconcile_candidates now s" "[]"
      "\<lparr>rep_examined = 0, rep_quarantined = []\<rparr>"]
  by (auto simp: sandbox_reconcile_pool_slots_def split: prod.split)

lemma pool_exec_grows: "pool_inv s \<Longrightarrow> pool_grows s (pool_exec now op s)"
  by (cases op) (simp_all add: prepare_grows claim_grows mark_ready_grows release_grows
      quarantine_grows retire_grows reconcile_grows)

interpretation pool_growth: growing_machine pool_registry_default pool_step pool_inv pool_grows
  by unfold_locales (auto elim!: pool_stepE intro: pool_grows_trans pool_exec_grows)

text \<open>What a later registry still holds.\<close>

lemma pool_later:
  assumes "pool_inv s" "pool_step\<^sup>*\<^sup>* s t"
  shows "btm_get (reg_slots s) sid = Some slot \<Longrightarrow>
           \<exists>slot'. btm_get (reg_slots t) sid = Some slot' \<and> slot_advances slot slot'"
    and "btm_get (reg_claims s) cid = Some c \<Longrightarrow>
           \<exists>c'. btm_get (reg_claims t) cid = Some c' \<and> claim_advances c c'"
    and "btm_get (reg_claims_by_operation s) op = Some cid \<Longrightarrow>
           btm_get (reg_claims_by_operation t) op = Some cid"
    and "reg_highest_token s \<le> reg_highest_token t" and "pool_inv t"
  using pool_growth.steps_grow [OF assms(2,1)] pool_machine.steps_inv [OF assms(2,1)]
  unfolding pool_grows_def by blast+

end
