(* ===== verification/Pool_Reconcile.thy ===== *)
theory Pool_Reconcile
  imports Pool_Evolution "HOL-Library.Multiset"
begin

text \<open>
  Lemmas about the two reconciliation passes: the round-robin order loses and invents nothing and
  starts with one candidate per tenant, the bounded pass quarantines what it examines and touches
  nothing else, and the refill plan keeps its per-node budget.
\<close>

section \<open>Round robin\<close>

lemma round_robin_step:
  "mset (concat (map (drop i) groups)) =
     mset (map (\<lambda>g. g ! i) (filter (\<lambda>g. i < length g) groups)) + mset (concat (map (drop (Suc i)) groups))"
proof (induction groups)
  case (Cons g groups)
  show ?case
  proof (cases "i < length g")
    case True
    then have "drop i g = g ! i # drop (Suc i) g" by (simp add: Cons_nth_drop_Suc)
    with Cons True show ?thesis by simp
  qed (use Cons in simp)
qed simp

lemma mset_round_robin: "mset (round_robin i groups) = mset (concat (map (drop i) groups))"
proof (induction i groups rule: round_robin.induct)
  case (1 i groups)
  let ?taken = "map (\<lambda>g. g ! i) (filter (\<lambda>g. i < length g) groups)"
  show ?case
  proof (cases "?taken = []")
    case True
    then have "\<forall>g \<in> set groups. drop i g = []"
      by (auto simp: filter_empty_conv not_less)
    then have "concat (map (drop i) groups) = []" by simp
    with True show ?thesis by (simp add: round_robin.simps [of i] Let_def)
  next
    case False
    with 1 [OF refl] show ?thesis
      by (simp add: round_robin.simps [of i] Let_def round_robin_step [of i groups])
  qed
qed

lemma set_round_robin: "set (round_robin 0 groups) = \<Union> (set ` set groups)"
proof -
  have "set_mset (mset (round_robin 0 groups)) = set_mset (mset (concat (map (drop 0) groups)))"
    by (simp only: mset_round_robin)
  then show ?thesis by simp
qed

text \<open>When no group is empty, the pass starts with the head of every group.\<close>

lemma round_robin_heads:
  assumes "\<forall>g \<in> set groups. g \<noteq> []"
  shows "take (length groups) (round_robin 0 groups) = map hd groups"
proof (cases groups)
  case (Cons g gs)
  have "filter (\<lambda>g. 0 < length g) groups = groups"
    using assms by simp
  moreover have "map (\<lambda>g. g ! 0) groups = map hd groups"
    using assms by (simp add: hd_conv_nth)
  ultimately have "round_robin 0 groups = map hd groups @ round_robin (Suc 0) groups"
    using Cons by (simp add: round_robin.simps [of 0] Let_def)
  then show ?thesis by simp
qed (simp add: round_robin.simps)

section \<open>Expired claims by tenant\<close>

definition expired_claim :: "u64 \<Rightarrow> sandbox_pool_claim \<Rightarrow> bool" where
  "expired_claim now c \<longleftrightarrow> is_active_claim_state (claim_state c) \<and> claim_is_expired_at c now"

definition tenant_expired :: "u64 \<Rightarrow> sandbox_pool_claim list \<Rightarrow> string \<Rightarrow> string list" where
  "tenant_expired now cs t =
     map claim_slot_id (filter (\<lambda>c. expired_claim now c \<and> claim_tenant_id c = t) cs)"

lemma expired_by_tenant_ok: "btm_ok groups \<Longrightarrow> btm_ok (expired_by_tenant now cs groups)"
  by (induction now cs groups rule: expired_by_tenant.induct) (auto simp: btm_insert_ok)

lemma expired_by_tenant_get:
  "btm_get (expired_by_tenant now cs groups) t =
     (case btm_get groups t of
        None \<Rightarrow> if tenant_expired now cs t = [] then None else Some (tenant_expired now cs t)
      | Some g \<Rightarrow> Some (g @ tenant_expired now cs t))"
  by (induction now cs groups rule: expired_by_tenant.induct)
    (auto simp: tenant_expired_def expired_claim_def btm_get_insert split: option.splits)

definition expired_groups :: "u64 \<Rightarrow> pool_registry \<Rightarrow> string list list" where
  "expired_groups now s = map snd (expired_by_tenant now (map snd (reg_claims s)) [])"

lemma expired_groups_iff:
  "g \<in> set (expired_groups now s) \<longleftrightarrow>
     (\<exists>t. g = tenant_expired now (map snd (reg_claims s)) t \<and> g \<noteq> [])"
proof -
  have ok: "btm_ok (expired_by_tenant now (map snd (reg_claims s)) [])"
    by (simp add: expired_by_tenant_ok)
  have "g \<in> set (expired_groups now s) \<longleftrightarrow>
      (\<exists>t. btm_get (expired_by_tenant now (map snd (reg_claims s)) []) t = Some g)"
    using btm.values_iff [OF ok, of g] by (simp add: expired_groups_def)
  then show ?thesis
    by (auto simp: expired_by_tenant_get split: if_splits)
qed

lemma expired_groups_set:
  assumes "pool_inv s"
  shows "\<Union> (set ` set (expired_groups now s)) =
    {claim_slot_id c | cid c. btm_get (reg_claims s) cid = Some c \<and> expired_claim now c}"
    (is "?L = ?R")
proof -
  have vals: "c \<in> set (map snd (reg_claims s)) \<longleftrightarrow> (\<exists>cid. btm_get (reg_claims s) cid = Some c)" for c
    using btm.values_iff [OF pool_invD(2) [OF assms], of c] by simp
  have "sid \<in> ?L \<longleftrightarrow> (\<exists>t. sid \<in> set (tenant_expired now (map snd (reg_claims s)) t))" for sid
    by (fastforce simp: expired_groups_iff)
  also have "\<dots> sid \<longleftrightarrow> sid \<in> ?R" for sid
    using vals by (auto simp: tenant_expired_def)
  finally show ?thesis by blast
qed

section \<open>Candidates\<close>

lemma reconcile_candidates_eq:
  "map fst (reconcile_candidates now s) =
     round_robin 0 (expired_groups now s)
     @ map slot_id (filter (slot_is_stuck now) (map snd (reg_slots s)))"
  by (simp add: reconcile_candidates_def expired_groups_def comp_def)

text \<open>The first candidates are the first expired claim of every tenant.\<close>

lemma candidates_heads:
  "take (length (expired_groups now s)) (map fst (reconcile_candidates now s)) =
     map hd (expired_groups now s)"
proof -
  have "\<forall>g \<in> set (expired_groups now s). g \<noteq> []"
    by (auto simp: expired_groups_iff)
  then have heads: "take (length (expired_groups now s)) (round_robin 0 (expired_groups now s)) =
      map hd (expired_groups now s)"
    by (rule round_robin_heads)
  have "length (expired_groups now s) \<le> length (round_robin 0 (expired_groups now s))"
    using arg_cong [OF heads, of length] by simp
  with heads show ?thesis
    unfolding reconcile_candidates_eq by simp
qed

definition serviceable :: "pool_registry \<Rightarrow> string \<Rightarrow> bool" where
  "serviceable s sid \<longleftrightarrow>
     (\<exists>slot. btm_get (reg_slots s) sid = Some slot \<and> slot_state slot \<noteq> SlotRetired)"

lemma candidates_set:
  assumes inv: "pool_inv s"
  shows "set (map fst (reconcile_candidates now s)) =
    {claim_slot_id c | cid c. btm_get (reg_claims s) cid = Some c \<and> expired_claim now c}
    \<union> {sid. \<exists>slot. btm_get (reg_slots s) sid = Some slot \<and> slot_is_stuck now slot}"
proof -
  have vals: "slot \<in> set (map snd (reg_slots s)) \<longleftrightarrow> (\<exists>sid. btm_get (reg_slots s) sid = Some slot)" for slot
    using btm.values_iff [OF pool_invD(1) [OF inv], of slot] by simp
  have ids: "btm_get (reg_slots s) sid = Some slot \<Longrightarrow> slot_id slot = sid" for sid slot
    using pool_invD(3) [OF inv] by (auto simp: slot_inv_def)
  have "set (map slot_id (filter (slot_is_stuck now) (map snd (reg_slots s)))) =
      {sid. \<exists>slot. btm_get (reg_slots s) sid = Some slot \<and> slot_is_stuck now slot}"
    using vals ids by (auto simp: image_iff)
  then show ?thesis
    by (simp add: reconcile_candidates_eq set_round_robin expired_groups_set [OF inv])
qed

lemma candidates_serviceable:
  assumes inv: "pool_inv s" and cand: "sid \<in> set (map fst (reconcile_candidates now s))"
  shows "serviceable s sid"
  using cand unfolding candidates_set [OF inv]
proof
  assume "sid \<in> {claim_slot_id c | cid c. btm_get (reg_claims s) cid = Some c \<and> expired_claim now c}"
  then obtain cid c where c: "btm_get (reg_claims s) cid = Some c" "expired_claim now c"
    "sid = claim_slot_id c" by auto
  with pool_invD(4) [OF inv c(1)] show ?thesis
    by (auto simp: claim_inv_def expired_claim_def bridge_agrees_def serviceable_def split: option.splits)
qed (auto simp: slot_is_stuck_def serviceable_def)


section \<open>One quarantine\<close>

definition is_quarantined :: "pool_registry \<Rightarrow> string \<Rightarrow> bool" where
  "is_quarantined s sid \<longleftrightarrow>
     (\<exists>slot. btm_get (reg_slots s) sid = Some slot \<and> slot_state slot = SlotQuarantined)"

lemma quarantined_serviceable: "is_quarantined s sid \<Longrightarrow> serviceable s sid"
  by (auto simp: is_quarantined_def serviceable_def)

lemma slot_to_quarantined: "st \<notin> {SlotRetired, SlotQuarantined} \<Longrightarrow> slot_can_transition_to st SlotQuarantined"
  by (cases st) (simp_all add: slot_can_transition_to_def)

text \<open>
  Quarantining a serviceable slot of a valid registry always succeeds, leaves that slot
  quarantined and no active claim on it, and touches no other slot.
\<close>

lemma quarantine_locked_effect:
  assumes inv: "pool_inv s" and serv: "serviceable s sid"
  obtains s' slot where "quarantine_locked sid now s = (s', Inr slot)"
    "btm_get (reg_slots s') sid = Some slot" "slot_state slot = SlotQuarantined"
    "\<And>k. k \<noteq> sid \<Longrightarrow> btm_get (reg_slots s') k = btm_get (reg_slots s) k"
proof -
  obtain s1 where q: "quarantine_active_claim sid s = (s1, Inr ())" and same: "reg_slots s1 = reg_slots s"
    using inv by (cases rule: quarantine_active_claim_cases [where sid = sid]) auto
  from serv obtain slot where slot: "btm_get (reg_slots s) sid = Some slot" "slot_state slot \<noteq> SlotRetired"
    by (auto simp: serviceable_def)
  show ?thesis
  proof (cases "slot_state slot = SlotQuarantined")
    case True
    with q same slot have "quarantine_locked sid now s = (s1, Inr slot)"
      by (simp add: quarantine_locked_def)
    then show ?thesis by (rule that) (use True same slot in simp_all)
  next
    case False
    with slot have "slot_can_transition_to (slot_state slot) SlotQuarantined"
      by (simp add: slot_to_quarantined)
    with False q same slot have
      "quarantine_locked sid now s =
         (put_slot sid (slot_moved SlotQuarantined now slot) s1, Inr (slot_moved SlotQuarantined now slot))"
      by (simp add: quarantine_locked_def Let_def)
    then show ?thesis by (rule that) (use same in \<open>simp_all add: put_slot_def\<close>)
  qed
qed

section \<open>The bounded pass\<close>

lemma reconcile_visit_spec:
  assumes "pool_inv s" "\<forall>c \<in> set cands. serviceable s (fst c)" "\<forall>v \<in> set visited. is_quarantined s v"
    "rep_examined report \<le> batch"
    "reconcile_visit batch now cands visited report s = (s', report')"
  shows "rep_examined report' = min batch (rep_examined report + length cands)"
    "\<forall>c \<in> set (take (batch - rep_examined report) cands). is_quarantined s' (fst c)"
    "\<forall>v \<in> set visited. is_quarantined s' v"
    "\<forall>k. k \<notin> fst ` set (take (batch - rep_examined report) cands) \<longrightarrow>
       btm_get (reg_slots s') k = btm_get (reg_slots s) k"
    "set (map fst (rep_quarantined report')) =
       set (map fst (rep_quarantined report))
       \<union> (fst ` set (take (batch - rep_examined report) cands) - set visited)"
proof -
  have "rep_examined report' = min batch (rep_examined report + length cands)
    \<and> (\<forall>c \<in> set (take (batch - rep_examined report) cands). is_quarantined s' (fst c))
    \<and> (\<forall>v \<in> set visited. is_quarantined s' v)
    \<and> (\<forall>k. k \<notin> fst ` set (take (batch - rep_examined report) cands) \<longrightarrow>
         btm_get (reg_slots s') k = btm_get (reg_slots s) k)
    \<and> set (map fst (rep_quarantined report')) =
       set (map fst (rep_quarantined report))
       \<union> (fst ` set (take (batch - rep_examined report) cands) - set visited)"
    using assms
  proof (induction batch now cands visited report s rule: reconcile_visit.induct)
    case (2 batch now sid reason cands visited report s)
    show ?case
    proof (cases "batch \<le> rep_examined report")
      case False
      then obtain d where d: "batch - rep_examined report = Suc d" "batch - Suc (rep_examined report) = d"
        by (metis Suc_diff_Suc not_le)
      let ?report1 = "report\<lparr>rep_examined := Suc (rep_examined report)\<rparr>"
      show ?thesis
      proof (cases "sid \<in> set visited")
        case True
        with False "2.prems" have run: "reconcile_visit batch now cands visited ?report1 s = (s', report')"
          by (simp add: Let_def)
        from "2.IH"(1) [OF False refl True] "2.prems" run False d True
        show ?thesis by auto
      next
        case new: False
        obtain s1 slot where q: "quarantine_locked sid now s = (s1, Inr slot)"
          and at: "btm_get (reg_slots s1) sid = Some slot" "slot_state slot = SlotQuarantined"
          and frame: "\<And>k. k \<noteq> sid \<Longrightarrow> btm_get (reg_slots s1) k = btm_get (reg_slots s) k"
          using quarantine_locked_effect [OF "2.prems"(1), of sid now] "2.prems"(2) by auto
        let ?report2 = "?report1\<lparr>rep_quarantined := rep_quarantined ?report1 @ [(sid, reason)]\<rparr>"
        from False new q "2.prems" have run:
          "reconcile_visit batch now cands (sid # visited) ?report2 s1 = (s', report')"
          by (simp add: Let_def)
        have here: "is_quarantined s1 sid" using at by (auto simp: is_quarantined_def)
        have serv: "serviceable s1 k" if "serviceable s k" for k
          using that frame [of k] quarantined_serviceable [OF here]
          by (cases "k = sid") (auto simp: serviceable_def)
        have quar: "is_quarantined s1 k" if "is_quarantined s k" for k
          using that frame [of k] here by (cases "k = sid") (auto simp: is_quarantined_def)
        have inv1: "pool_inv s1"
          using quarantine_locked_preserves [OF "2.prems"(1), of sid now] q by simp
        from "2.IH"(3) [OF False refl new q [symmetric] refl inv1] "2.prems" run False d new serv quar here frame
        show ?thesis by auto
      qed
    qed (use 2 in auto)
  qed auto
  then show "rep_examined report' = min batch (rep_examined report + length cands)"
    "\<forall>c \<in> set (take (batch - rep_examined report) cands). is_quarantined s' (fst c)"
    "\<forall>v \<in> set visited. is_quarantined s' v"
    "\<forall>k. k \<notin> fst ` set (take (batch - rep_examined report) cands) \<longrightarrow>
       btm_get (reg_slots s') k = btm_get (reg_slots s) k"
    "set (map fst (rep_quarantined report')) =
       set (map fst (rep_quarantined report))
       \<union> (fst ` set (take (batch - rep_examined report) cands) - set visited)"
    by blast+
qed


end
