(* ===== verification/Pool_Evidence.thy ===== *)
theory Pool_Evidence
  imports Pool_Reconcile
begin

text \<open>
  Readiness is evidence: apart from the ready report, no operation of the pool registry turns a
  slot into a ready slot. One frame lemma per operation.
\<close>

section \<open>Operations that never ready a slot\<close>

text \<open>Every ready slot afterwards was the same ready slot before.\<close>

definition readies_nothing :: "pool_registry \<Rightarrow> pool_registry \<Rightarrow> bool" where
  "readies_nothing s t \<longleftrightarrow>
     (\<forall>k b. btm_get (reg_slots t) k = Some b \<longrightarrow> slot_state b = SlotReady \<longrightarrow>
        btm_get (reg_slots s) k = Some b)"

lemma readies_nothing_same: "reg_slots t = reg_slots s \<Longrightarrow> readies_nothing s t"
  by (simp add: readies_nothing_def)

lemma readies_nothing_trans: "readies_nothing s t \<Longrightarrow> readies_nothing t u \<Longrightarrow> readies_nothing s u"
  by (simp add: readies_nothing_def)

lemma readies_nothing_put:
  "slot_state slot \<noteq> SlotReady \<Longrightarrow> reg_slots t = reg_slots s \<Longrightarrow> readies_nothing s (put_slot sid slot t)"
  by (simp add: readies_nothing_def put_slot_def)

lemma finalize_slots': "finalize_claim_state cid st s = (s', res) \<Longrightarrow> reg_slots s' = reg_slots s"
  using finalize_slots [of cid st s] by simp

lemma active_slots': "quarantine_active_claim sid s = (s', res) \<Longrightarrow> reg_slots s' = reg_slots s"
  using active_slots [of sid s] by simp

lemma readies_nothing_refl [simp]: "readies_nothing s s"
  by (simp add: readies_nothing_def)

lemma prepare_readies_nothing: "readies_nothing s (fst (sandbox_prepare_pool_slot now r s))"
  by (auto simp: sandbox_prepare_pool_slot_def sandbox_pool_slot_new_def
      intro!: readies_nothing_put readies_nothing_refl intro: readies_nothing_same)

lemma claim_readies_nothing: "readies_nothing s (fst (sandbox_claim_pool_slot now r s))"
proof -
  have commit: "readies_nothing s (fst (claim_commit now r' grant cap s))" for r' grant cap
    by (auto simp: claim_commit_def Let_def readies_nothing_def put_slot_def slot_moved_def
        split: option.splits sum.splits if_splits)
  have failed: "readies_nothing s (note_failed_claim op s)" for op
    by (rule readies_nothing_same) (simp add: note_failed_claim_def Let_def)
  show ?thesis
    by (auto simp: sandbox_claim_pool_slot_def Let_def commit failed
        intro: readies_nothing_same split: sum.split option.split)
qed

lemma release_readies_nothing: "readies_nothing s (fst (sandbox_release_pool_claim now r s))"
  by (auto simp: sandbox_release_pool_claim_def Let_def intro!: readies_nothing_put readies_nothing_refl intro: readies_nothing_same
      dest: finalize_slots'
      split: sum.split option.split prod.split sandbox_pool_claim_state.split)

lemma quarantine_locked_readies_nothing: "readies_nothing s (fst (quarantine_locked sid now s))"
  by (auto simp: quarantine_locked_def Let_def intro!: readies_nothing_put readies_nothing_refl intro: readies_nothing_same
      dest: active_slots' split: sum.split option.split prod.split)

lemma quarantine_readies_nothing: "readies_nothing s (fst (sandbox_quarantine_pool_slot now r s))"
  by (simp add: sandbox_quarantine_pool_slot_def quarantine_locked_readies_nothing
      readies_nothing_same split: option.split)

lemma retire_readies_nothing: "readies_nothing s (fst (sandbox_retire_pool_slot now r s))"
  by (auto simp: sandbox_retire_pool_slot_def Let_def intro!: readies_nothing_put readies_nothing_refl intro: readies_nothing_same
      dest: active_slots' split: sum.split option.split prod.split)

lemma reconcile_visit_readies_nothing:
  "readies_nothing s (fst (reconcile_visit batch now cands visited report s))"
proof (induction batch now cands visited report s rule: reconcile_visit.induct)
  case (2 batch now sid reason cands visited report s)
  obtain s' res where q: "quarantine_locked sid now s = (s', res)" by force
  with quarantine_locked_readies_nothing [of s sid now] have "readies_nothing s s'" by simp
  with 2 q show ?case
    by (cases res) (auto simp: Let_def readies_nothing_same intro: readies_nothing_trans)
qed (simp add: readies_nothing_same)

lemma reconcile_readies_nothing: "readies_nothing s (fst (sandbox_reconcile_pool_slots now batch s))"
  using reconcile_visit_readies_nothing [of s batch now "reconcile_candidates now s" "[]"
      "\<lparr>rep_examined = 0, rep_quarantined = []\<rparr>"]
  by (auto simp: sandbox_reconcile_pool_slots_def readies_nothing_same split: prod.split)

lemma exec_readies_nothing:
  "\<nexists>r. op = MarkSlotReady r \<Longrightarrow> readies_nothing s (pool_exec now op s)"
  by (cases op) (auto simp: prepare_readies_nothing claim_readies_nothing release_readies_nothing
      quarantine_readies_nothing retire_readies_nothing reconcile_readies_nothing readies_nothing_same)

end
