(* ===== verification/Pool_Refill.thy ===== *)
theory Pool_Refill
  imports Pool_Registry
begin

text \<open>
  The refill plan of target reconciliation: what one target contributes, the per-node budget, and
  where each planned action comes from.
\<close>

definition budget_used :: "(string, nat) btree \<Rightarrow> string \<Rightarrow> nat" where
  "budget_used budgets node = (case btm_get budgets node of None \<Rightarrow> 0 | Some n \<Rightarrow> n)"

definition target_deficit :: "pool_registry \<Rightarrow> sandbox_pool_capacity_target \<Rightarrow> nat" where
  "target_deficit s t = unat (tgt_ready_target t) - target_ready_count t s"

text \<open>The 32-bit saturating arithmetic of the code is the subtraction of the counts.\<close>

lemma deficit_unat:
  "unat (u32_saturating_sub (tgt_ready_target t) (u32_try_from_or_max (target_ready_count t s)))
     = target_deficit s t"
proof -
  have "unat (u32_try_from_or_max n) = min n (2 ^ 32 - 1)" for n
    by (simp add: u32_try_from_or_max_def min_def take_bit_nat_eq_self unat_of_nat)
  then show ?thesis
    using unat_u32_less [of "tgt_ready_target t"]
    by (simp add: u32_saturating_sub_unat target_deficit_def)
qed

lemma deficit_zero:
  "u32_saturating_sub (tgt_ready_target t) (u32_try_from_or_max (target_ready_count t s)) = 0
     \<longleftrightarrow> target_deficit s t = 0"
  using deficit_unat [of t s] by (metis unat_eq_0)

lemma plan_refills_Cons:
  "plan_refills s (t # ts) budgets =
     (let room = 16 - budget_used budgets (tgt_node_reference t);
          count = min (target_deficit s t) room in
      if target_deficit s t = 0 then plan_refills s ts budgets
      else if room = 0 then
        plan_refills s ts (btm_insert (tgt_node_reference t) (budget_used budgets (tgt_node_reference t)) budgets)
      else
        \<lparr>act_profile_id = tgt_profile_id t, act_node_reference = tgt_node_reference t,
         act_refill_count = count\<rparr>
        # plan_refills s ts
            (btm_insert (tgt_node_reference t) (budget_used budgets (tgt_node_reference t) + count) budgets))"
  by (simp add: Let_def deficit_unat deficit_zero budget_used_def
      sandbox_pool_refill_operations_per_node_max_def)

lemma budget_used_insert [simp]:
  "budget_used (btm_insert node n budgets) k = (if k = node then n else budget_used budgets k)"
  by (simp add: budget_used_def)

lemma budget_used_empty [simp]: "budget_used [] k = 0"
  by (simp add: budget_used_def)

definition planned_for :: "string \<Rightarrow> sandbox_pool_refill_action list \<Rightarrow> nat" where
  "planned_for node actions =
     sum_list (map act_refill_count (filter (\<lambda>a. act_node_reference a = node) actions))"

lemma planned_for_simps [simp]:
  "planned_for node [] = 0"
  "planned_for node (a # as) =
     (if act_node_reference a = node then act_refill_count a else 0) + planned_for node as"
  by (simp_all add: planned_for_def)

lemma plan_refills_budget:
  "planned_for node (plan_refills s ts budgets) + budget_used budgets node
     \<le> max 16 (budget_used budgets node)"
proof (induction ts arbitrary: budgets)
  case (Cons t ts)
  let ?room = "16 - budget_used budgets (tgt_node_reference t)"
  let ?keep = "btm_insert (tgt_node_reference t) (budget_used budgets (tgt_node_reference t)) budgets"
  let ?spent = "btm_insert (tgt_node_reference t)
    (budget_used budgets (tgt_node_reference t) + min (target_deficit s t) ?room) budgets"
  show ?case
    using Cons.IH [of budgets] Cons.IH [of ?keep] Cons.IH [of ?spent]
    by (auto simp del: plan_refills.simps simp: plan_refills_Cons Let_def split: if_splits)
qed simp

lemma plan_refills_member:
  "a \<in> set (plan_refills s ts budgets) \<Longrightarrow>
     \<exists>t \<in> set ts. act_profile_id a = tgt_profile_id t \<and> act_node_reference a = tgt_node_reference t
       \<and> 0 < act_refill_count a \<and> act_refill_count a \<le> target_deficit s t"
proof (induction ts arbitrary: budgets)
  case (Cons t ts)
  then show ?case
    by (auto simp del: plan_refills.simps simp: plan_refills_Cons Let_def split: if_splits)
qed simp

end
