(* ===== verification/Pool_Scenario.thy ===== *)
theory Pool_Scenario
  imports Pool_Evidence Pool_Refill
begin

text \<open>
  Concrete requests against the pool registry and the states they lead to: one slot is prepared,
  made ready, claimed by one runtime binding and released. The properties are instantiated here.
\<close>

definition demo_fingerprint :: "char \<Rightarrow> string" where
  "demo_fingerprint c = replicate 64 c"

definition demo_prepare :: sandbox_pool_preparation_request where
  "demo_prepare =
     \<lparr>prep_slot_id = ''slot-a'', prep_class = PreparedSlot, prep_profile_id = ''profile'',
      prep_node_reference = ''node'', prep_provider_id = ''local'', prep_provider_kind = ''process'',
      prep_assurance = AssuranceProcess, prep_artifact_revision = ''r1'',
      prep_capacity_revision = 1, prep_warm_evidence = None\<rparr>"

definition demo_ready :: sandbox_pool_ready_request where
  "demo_ready =
     \<lparr>ready_slot_id = ''slot-a'', ready_expected_token = 0,
      ready_evidence_fingerprint = demo_fingerprint (CHR ''a'')\<rparr>"

definition demo_claim :: sandbox_pool_claim_request where
  "demo_claim =
     \<lparr>creq_tenant_id = ''tenant'', creq_slot_id = ''slot-a'', creq_session_id = ''session'',
      creq_binding_id = ''binding'', creq_operation_id = ''operation'',
      creq_fingerprint = demo_fingerprint (CHR ''b''), creq_admission_grant_id = Some ''grant'',
      creq_capacity_reservation_id = Some ''capacity'', creq_capacity_revision = 1,
      creq_expected_token = 0, creq_ttl_seconds = 60, creq_profile_id = ''profile''\<rparr>"

definition demo_release :: sandbox_pool_release_request where
  "demo_release = \<lparr>rel_claim_id = ''sandbox_pool_claim_1'', rel_expected_token = 1\<rparr>"

definition demo_slot :: "sandbox_pool_slot_state \<Rightarrow> fencing_token \<Rightarrow> i64 \<Rightarrow> string option \<Rightarrow> u64 \<Rightarrow> sandbox_pool_slot" where
  "demo_slot st tok version ev now =
     \<lparr>slot_id = ''slot-a'', slot_class = PreparedSlot, slot_profile_id = ''profile'',
      slot_node_reference = ''node'', slot_provider_id = ''local'', slot_provider_kind = ''process'',
      slot_assurance = AssuranceProcess, slot_artifact_revision = ''r1'', slot_capacity_revision = 1,
      slot_state = st, slot_fencing_token = tok, slot_version = version,
      slot_evidence_fingerprint = ev, slot_created_at = 100, slot_updated_at = now\<rparr>"

definition demo_bound :: "sandbox_pool_claim_state \<Rightarrow> i64 \<Rightarrow> sandbox_pool_claim" where
  "demo_bound st version =
     (claim_bound 102 demo_claim ''grant'' ''capacity'' ''sandbox_pool_claim_1'' 1)
       \<lparr>claim_state := st, claim_version := version\<rparr>"

lemmas demo_requests = demo_prepare_def demo_ready_def demo_claim_def demo_release_def

section \<open>The states of the scenario\<close>

definition demo_prepared :: pool_registry where
  "demo_prepared = pool_exec 100 (PrepareSlot demo_prepare) pool_registry_default"

definition demo_readied :: pool_registry where
  "demo_readied = pool_exec 101 (MarkSlotReady demo_ready) demo_prepared"

definition demo_claimed :: pool_registry where
  "demo_claimed = pool_exec 102 (ClaimSlot demo_claim) demo_readied"

definition demo_released :: pool_registry where
  "demo_released = pool_exec 103 (ReleaseClaim demo_release) demo_claimed"

lemma demo_hex: "is_hex_lower c \<Longrightarrow> hex_fingerprint (demo_fingerprint c)"
  by (simp add: hex_fingerprint_def demo_fingerprint_def list_all_iff)

lemma demo_fingerprint_valid:
  "hex_fingerprint (demo_fingerprint (CHR ''a''))" "hex_fingerprint (demo_fingerprint (CHR ''b''))"
  "hex_fingerprint (demo_fingerprint (CHR ''c''))"
  by (rule demo_hex, simp add: is_hex_lower_def)+

lemma demo_fingerprint_neq:
  "demo_fingerprint c = demo_fingerprint d \<longleftrightarrow> c = d"
  by (simp add: demo_fingerprint_def)

lemma demo_prepared_eq:
  "demo_prepared =
     pool_registry_default\<lparr>reg_slots := [(''slot-a'', demo_slot SlotPreparing 0 0 None 100)]\<rparr>"
  by (simp add: demo_prepared_def sandbox_prepare_pool_slot_def demo_prepare_def pool_bounds
      pool_registry_default_def sandbox_pool_slot_new_def put_slot_def demo_slot_def fencing_initial_def)

lemma demo_readied_eq:
  "demo_readied =
     pool_registry_default\<lparr>reg_slots :=
       [(''slot-a'', demo_slot SlotReady 0 1 (Some (demo_fingerprint (CHR ''a''))) 101)]\<rparr>"
  by (simp add: demo_readied_def demo_prepared_eq sandbox_mark_pool_slot_ready_def demo_ready_def
      pool_registry_default_def pool_validate_fingerprint_def demo_fingerprint_valid btm_get_def
      demo_slot_def slot_can_transition_to_def put_slot_def slot_moved_def i64_saturating_succ_def
      i64_max_def Let_def)

lemma demo_claim_name: "claim_name 1 = ''sandbox_pool_claim_1''"
  by (simp add: claim_name_def decimal.simps char_of_def bit_0)

lemma demo_u64_room: "(0 :: u64) < - 1"
  by (simp add: word_less_nat_alt)

lemma demo_claim_validated: "claim_request_validated demo_claim = Inr demo_claim"
  by (simp add: claim_request_validated_iff demo_claim_def demo_fingerprint_valid pool_bounds)

lemma demo_claim_result:
  "sandbox_claim_pool_slot 102 demo_claim demo_readied =
     (demo_claimed, Inr (demo_bound ClaimBound 0))"
  "demo_claimed =
     \<lparr>reg_slots = [(''slot-a'', demo_slot SlotClaimed 1 2 (Some (demo_fingerprint (CHR ''a''))) 102)],
      reg_claims = [(''sandbox_pool_claim_1'', demo_bound ClaimBound 0)],
      reg_claims_by_operation = [(''operation'', ''sandbox_pool_claim_1'')],
      reg_active_by_slot = [(''slot-a'', ''sandbox_pool_claim_1'')],
      reg_active_by_binding = [(''binding'', ''sandbox_pool_claim_1'')],
      reg_failed_attempts = [], reg_claim_sequence = 1, reg_highest_token = 1\<rparr>"
proof -
  have *: "sandbox_claim_pool_slot 102 demo_claim demo_readied =
    (\<lparr>reg_slots = [(''slot-a'', demo_slot SlotClaimed 1 2 (Some (demo_fingerprint (CHR ''a''))) 102)],
      reg_claims = [(''sandbox_pool_claim_1'', demo_bound ClaimBound 0)],
      reg_claims_by_operation = [(''operation'', ''sandbox_pool_claim_1'')],
      reg_active_by_slot = [(''slot-a'', ''sandbox_pool_claim_1'')],
      reg_active_by_binding = [(''binding'', ''sandbox_pool_claim_1'')],
      reg_failed_attempts = [], reg_claim_sequence = 1, reg_highest_token = 1\<rparr>,
     Inr (demo_bound ClaimBound 0))"
    unfolding sandbox_claim_pool_slot_def demo_claim_validated
    by (simp add: demo_readied_eq claim_budget_exhausted_def pool_registry_default_def
        demo_claim_def claim_slot_refusal_def demo_slot_def btm_get_def btm_contains_def
        claim_commit_def fencing_next_def fencing_initial_def i64_checked_succ_def i64_max_def
        u64_checked_succ_def demo_u64_room demo_claim_name claim_name_accepted [of 1, unfolded demo_claim_name]
        slot_can_transition_to_def put_slot_def slot_moved_def i64_saturating_succ_def
        demo_bound_def claim_bound_def Let_def)
  from * show "demo_claimed =
     \<lparr>reg_slots = [(''slot-a'', demo_slot SlotClaimed 1 2 (Some (demo_fingerprint (CHR ''a''))) 102)],
      reg_claims = [(''sandbox_pool_claim_1'', demo_bound ClaimBound 0)],
      reg_claims_by_operation = [(''operation'', ''sandbox_pool_claim_1'')],
      reg_active_by_slot = [(''slot-a'', ''sandbox_pool_claim_1'')],
      reg_active_by_binding = [(''binding'', ''sandbox_pool_claim_1'')],
      reg_failed_attempts = [], reg_claim_sequence = 1, reg_highest_token = 1\<rparr>"
    by (simp add: demo_claimed_def)
  with * show "sandbox_claim_pool_slot 102 demo_claim demo_readied =
     (demo_claimed, Inr (demo_bound ClaimBound 0))" by simp
qed

lemma demo_reachable:
  "pool_reachable demo_prepared" "pool_reachable demo_readied" "pool_reachable demo_claimed"
  "pool_reachable demo_released"
proof -
  show "pool_reachable demo_prepared"
    using pool_run_reachable [of "[(100, PrepareSlot demo_prepare)]"] by (simp add: demo_prepared_def)
  show "pool_reachable demo_readied"
    using pool_run_reachable [of "[(100, PrepareSlot demo_prepare), (101, MarkSlotReady demo_ready)]"]
    by (simp add: demo_prepared_def demo_readied_def)
  show "pool_reachable demo_claimed"
    using pool_run_reachable [of "[(100, PrepareSlot demo_prepare), (101, MarkSlotReady demo_ready),
        (102, ClaimSlot demo_claim)]"]
    by (simp add: demo_prepared_def demo_readied_def demo_claimed_def)
  show "pool_reachable demo_released"
    using pool_run_reachable [of "[(100, PrepareSlot demo_prepare), (101, MarkSlotReady demo_ready),
        (102, ClaimSlot demo_claim), (103, ReleaseClaim demo_release)]"]
    by (simp add: demo_prepared_def demo_readied_def demo_claimed_def demo_released_def)
qed

lemma demo_run: "pool_step\<^sup>*\<^sup>* demo_readied demo_claimed" "pool_step\<^sup>*\<^sup>* demo_claimed demo_released"
  unfolding demo_claimed_def demo_released_def by (rule r_into_rtranclp, rule pool_step)+

lemma demo_release_result:
  "sandbox_release_pool_claim 103 demo_release demo_claimed =
     (demo_released,
      Inr \<lparr>rel_claim = demo_bound ClaimReleasing 1,
           rel_slot = demo_slot SlotSanitizing 1 3 (Some (demo_fingerprint (CHR ''a''))) 103\<rparr>)"
  "btm_get (reg_slots demo_released) ''slot-a'' =
     Some (demo_slot SlotSanitizing 1 3 (Some (demo_fingerprint (CHR ''a''))) 103)"
  "btm_get (reg_claims demo_released) ''sandbox_pool_claim_1'' = Some (demo_bound ClaimReleasing 1)"
  unfolding demo_released_def
  by (simp_all add: sandbox_release_pool_claim_def demo_release_def demo_claim_result(2) btm_get_def
      demo_bound_def claim_bound_def demo_claim_def finalize_claim_state_def
      claim_can_transition_to_def is_active_claim_state_def i64_saturating_succ_def i64_max_def
      demo_slot_def slot_can_transition_to_def put_slot_def slot_moved_def release_outcome_def Let_def)

end
