(* ===== verification/Pool_Properties.thy ===== *)
theory Pool_Properties
  imports Pool_Scenario
begin

text \<open>
  The properties of the pool registry: exclusivity of claims, the life of a slot, fencing tokens,
  exact success conditions and error effects of the operations, and the two reconciliation passes.
\<close>

section \<open>Exclusivity\<close>

text \<open>
  C5: In every reachable registry, a pool slot is claimed or sanitizing exactly when one and only
  one active claim names it; that claim is bound when the slot is claimed and releasing when it is
  sanitizing, and carries the slot's own fencing token.
\<close>
theorem claimed_slot_has_one_active_claim:
  assumes "pool_reachable s" "sandbox_slot sid s = Some slot"
  shows "(slot_state slot \<in> {SlotClaimed, SlotSanitizing} \<longleftrightarrow>
            (\<exists>!cid. \<exists>c. sandbox_claim cid s = Some c \<and> claim_slot_id c = sid
                     \<and> is_active_claim_state (claim_state c)))
    \<and> (\<forall>cid c. sandbox_claim cid s = Some c \<and> claim_slot_id c = sid
         \<and> is_active_claim_state (claim_state c) \<longrightarrow>
         claim_fencing_token c = slot_fencing_token slot
         \<and> (slot_state slot, claim_state c)
             \<in> {(SlotClaimed, ClaimBound), (SlotSanitizing, ClaimReleasing)})"
proof -
  note inv = pool_reachable_inv [OF assms(1)]
  have slot: "btm_get (reg_slots s) sid = Some slot" using assms(2) by (simp add: sandbox_slot_def)
  have act: "active_claim (reg_claims s) cid c \<longleftrightarrow>
      sandbox_claim cid s = Some c \<and> is_active_claim_state (claim_state c)" for cid c
    by (simp add: active_claim_def sandbox_claim_def)
  have bridge: "bridge_agrees slot c" if "active_claim (reg_claims s) cid c" "claim_slot_id c = sid" for cid c
    using that pool_invD(4) [OF inv, of cid c] slot by (auto simp: active_claim_def claim_inv_def)
  have ex: "(\<exists>cid c. active_claim (reg_claims s) cid c \<and> claim_slot_id c = sid) \<longleftrightarrow>
      slot_state slot \<in> {SlotClaimed, SlotSanitizing}"
  proof
    assume "slot_state slot \<in> {SlotClaimed, SlotSanitizing}"
    then obtain cid where "btm_get (reg_active_by_slot s) sid = Some cid"
      using pool_invD(3) [OF inv slot] by (auto simp: slot_inv_def elim: btm_containsE)
    with inv show "\<exists>cid c. active_claim (reg_claims s) cid c \<and> claim_slot_id c = sid"
      by (blast elim: pool_inv_active_slot)
  qed (auto dest: bridge simp: bridge_agrees_def)
  have uniq: "cid = cid'" if "active_claim (reg_claims s) cid c" "claim_slot_id c = sid"
      "active_claim (reg_claims s) cid' c'" "claim_slot_id c' = sid" for cid c cid' c'
    using pool_inv_active_unique [OF inv that(1,3)] that(2,4) by simp
  from ex uniq have "slot_state slot \<in> {SlotClaimed, SlotSanitizing} \<longleftrightarrow>
      (\<exists>!cid. \<exists>c. active_claim (reg_claims s) cid c \<and> claim_slot_id c = sid)" by blast
  moreover have "claim_fencing_token c = slot_fencing_token slot
      \<and> (slot_state slot, claim_state c) \<in> {(SlotClaimed, ClaimBound), (SlotSanitizing, ClaimReleasing)}"
    if "active_claim (reg_claims s) cid c" "claim_slot_id c = sid" for cid c
    using bridge [OF that] by (simp add: bridge_agrees_def)
  ultimately show ?thesis by (simp add: act conj_ac) blast
qed

theorem claimed_slot_has_one_active_claim_witness:
  "\<exists>!cid. \<exists>c. sandbox_claim cid demo_claimed = Some c \<and> claim_slot_id c = ''slot-a''
                     \<and> is_active_claim_state (claim_state c)"
proof -
  have "sandbox_slot ''slot-a'' demo_claimed =
      Some (demo_slot SlotClaimed 1 2 (Some (demo_fingerprint (CHR ''a''))) 102)"
    by (simp add: sandbox_slot_def demo_claim_result(2) btm_get_def)
  from claimed_slot_has_one_active_claim [OF demo_reachable(3) this] show ?thesis
    by (simp add: demo_slot_def)
qed

text \<open>
  No two active claims of a reachable registry share a pool slot, and no two share a runtime
  binding.
\<close>
theorem active_claims_are_exclusive:
  assumes "pool_reachable s"
    and "sandbox_claim a s = Some c" "is_active_claim_state (claim_state c)"
    and "sandbox_claim b s = Some d" "is_active_claim_state (claim_state d)"
    and "claim_slot_id c = claim_slot_id d \<or> claim_binding_id c = claim_binding_id d"
  shows "a = b"
  using assms pool_inv_active_unique [OF pool_reachable_inv [OF assms(1)], of a c b d]
  by (simp add: active_claim_def sandbox_claim_def)

theorem active_claims_are_exclusive_witness:
  "\<exists>!b. \<exists>d. sandbox_claim b demo_claimed = Some d \<and> is_active_claim_state (claim_state d)
     \<and> claim_binding_id d = ''binding''"
proof -
  have c: "sandbox_claim ''sandbox_pool_claim_1'' demo_claimed = Some (demo_bound ClaimBound 0)"
    "is_active_claim_state (claim_state (demo_bound ClaimBound 0))"
    "claim_binding_id (demo_bound ClaimBound 0) = ''binding''"
    by (simp_all add: sandbox_claim_def demo_claim_result(2) btm_get_def demo_bound_def
        is_active_claim_state_def claim_bound_def demo_claim_def)
  show ?thesis
  proof (rule ex1I [of _ "''sandbox_pool_claim_1''"])
    show "\<exists>d. sandbox_claim ''sandbox_pool_claim_1'' demo_claimed = Some d
        \<and> is_active_claim_state (claim_state d) \<and> claim_binding_id d = ''binding''"
      using c by blast
    show "b = ''sandbox_pool_claim_1''"
      if "\<exists>d. sandbox_claim b demo_claimed = Some d \<and> is_active_claim_state (claim_state d)
        \<and> claim_binding_id d = ''binding''" for b
      using that c(3) active_claims_are_exclusive [OF demo_reachable(3) _ _ c(1,2)] by auto
  qed
qed

section \<open>The life of a slot\<close>

text \<open>
  From any reachable registry to any later one, a slot stays registered under the same
  identity, placement and capacity revision, its state moves only along the closed transition
  table, a retired slot stays retired, and its fencing token never decreases.
\<close>
theorem slot_history_is_closed:
  assumes "pool_reachable s" "pool_step\<^sup>*\<^sup>* s t" "sandbox_slot sid s = Some a"
  shows "\<exists>b. sandbox_slot sid t = Some b \<and> slot_id b = slot_id a
    \<and> slot_profile_id b = slot_profile_id a \<and> slot_node_reference b = slot_node_reference a
    \<and> slot_artifact_revision b = slot_artifact_revision a
    \<and> slot_capacity_revision b = slot_capacity_revision a
    \<and> slot_can_transition_to\<^sup>*\<^sup>* (slot_state a) (slot_state b)
    \<and> (slot_state a = SlotRetired \<longrightarrow> slot_state b = SlotRetired)
    \<and> slot_fencing_token a \<le> slot_fencing_token b"
proof -
  obtain b where "sandbox_slot sid t = Some b" "slot_advances a b"
    using pool_later(1) [OF pool_reachable_inv [OF assms(1)] assms(2), of sid a] assms(3)
    by (auto simp: sandbox_slot_def)
  then show ?thesis
    using slot_table.terminal_stays [of "slot_state a" "slot_state b"]
    by (auto simp: slot_advances_def)
qed

theorem slot_history_is_closed_witness:
  "\<exists>b. sandbox_slot ''slot-a'' demo_released = Some b \<and> slot_id b = ''slot-a''
     \<and> slot_can_transition_to\<^sup>*\<^sup>* SlotClaimed (slot_state b)"
proof -
  have "sandbox_slot ''slot-a'' demo_claimed =
      Some (demo_slot SlotClaimed 1 2 (Some (demo_fingerprint (CHR ''a''))) 102)"
    by (simp add: sandbox_slot_def demo_claim_result(2) btm_get_def)
  from slot_history_is_closed [OF demo_reachable(3) demo_run(2) this] show ?thesis
    by (auto simp: demo_slot_def)
qed

section \<open>Claims and fencing\<close>

lemma claim_operation_None:
  assumes "pool_inv s"
  shows "sandbox_claim_for_operation op s = None \<longleftrightarrow> btm_get (reg_claims_by_operation s) op = None"
  using pool_invD(8) [OF assms]
  by (fastforce simp: sandbox_claim_for_operation_def inv_operations_def split: option.splits)

lemma fresh_claim_cases:
  assumes inv: "pool_inv s" and res: "sandbox_claim_pool_slot now r s = (s', Inr c)"
    and fresh: "sandbox_claim_for_operation (creq_operation_id r) s = None"
  obtains grant cap slot tok sq where
    "claim_request_validated r = Inr r" "\<not> claim_budget_exhausted (creq_operation_id r) s"
    "\<not> btm_contains (reg_active_by_binding s) (creq_binding_id r)"
    "creq_admission_grant_id r = Some grant" "creq_capacity_reservation_id r = Some cap"
    "btm_get (reg_slots s) (creq_slot_id r) = Some slot" "claim_slot_refusal r slot s = None"
    "slot_state slot = SlotReady"
    "fencing_next (reg_highest_token s) = Some tok" "u64_checked_succ (reg_claim_sequence s) = Some sq"
    "s' = committed now r grant cap tok sq slot s" "c = claim_bound now r grant cap (claim_name sq) tok"
proof -
  from res have r: "claim_request_validated r = Inr r"
    by (cases "claim_request_validated r")
      (auto simp: sandbox_claim_pool_slot_def claim_request_validated_iff)
  from fresh have op: "btm_get (reg_claims_by_operation s) (creq_operation_id r) = None"
    by (simp add: claim_operation_None [OF inv])
  from res r op obtain grant cap slot where g:
    "\<not> claim_budget_exhausted (creq_operation_id r) s"
    "\<not> btm_contains (reg_active_by_binding s) (creq_binding_id r)"
    "creq_admission_grant_id r = Some grant" "creq_capacity_reservation_id r = Some cap"
    "btm_get (reg_slots s) (creq_slot_id r) = Some slot" "claim_slot_refusal r slot s = None"
    and commit: "claim_commit now r grant cap s = (s', Inr c)"
    by (auto simp: sandbox_claim_pool_slot_def Let_def split: if_splits option.splits)
  from g(6) have ready: "slot_state slot = SlotReady" by (simp add: claim_slot_refusal_None)
  from commit obtain tok sq where "fencing_next (reg_highest_token s) = Some tok"
    "u64_checked_succ (reg_claim_sequence s) = Some sq"
    "s' = committed now r grant cap tok sq slot s" "c = claim_bound now r grant cap (claim_name sq) tok"
    by (auto simp: claim_commit_eq [OF g(5) ready] split: option.splits)
  with that r g ready show ?thesis by blast
qed

text \<open>
  A claim that is not a replay receives a fencing token strictly above the token of every slot
  and of every claim recorded so far; the claim is recorded in state bound and the slot it names is
  left claimed under that token.
\<close>
theorem claim_token_is_fresh:
  assumes "pool_reachable s" "sandbox_claim_pool_slot now r s = (s', Inr c)"
    and "sandbox_claim_for_operation (creq_operation_id r) s = None"
  shows "(\<forall>cid d. sandbox_claim cid s = Some d \<longrightarrow> claim_fencing_token d < claim_fencing_token c)
    \<and> (\<forall>sid slot. sandbox_slot sid s = Some slot \<longrightarrow> slot_fencing_token slot < claim_fencing_token c)
    \<and> sandbox_claim (claim_id c) s' = Some c \<and> claim_state c = ClaimBound
    \<and> (\<exists>slot. sandbox_slot (creq_slot_id r) s' = Some slot \<and> slot_state slot = SlotClaimed
          \<and> slot_fencing_token slot = claim_fencing_token c)"
proof -
  note inv = pool_reachable_inv [OF assms(1)]
  obtain grant cap slot tok sq where f: "fencing_next (reg_highest_token s) = Some tok"
    "s' = committed now r grant cap tok sq slot s" "c = claim_bound now r grant cap (claim_name sq) tok"
    using fresh_claim_cases [OF inv assms(2,3)] by metis
  have tok: "reg_highest_token s < tok" using fencing_next_Some [OF f(1)] by simp
  have c: "claim_fencing_token c = tok" by (simp add: f(3) claim_bound_def)
  have "claim_fencing_token d < tok" if "sandbox_claim cid s = Some d" for cid d
    using pool_invD(4) [OF inv, of cid d] that tok by (simp add: sandbox_claim_def claim_inv_def)
  moreover have "slot_fencing_token sl < tok" if "sandbox_slot sid s = Some sl" for sid sl
    using pool_invD(3) [OF inv, of sid sl] that tok by (simp add: sandbox_slot_def slot_inv_def)
  moreover have "sandbox_claim (claim_id c) s' = Some c \<and> claim_state c = ClaimBound"
    by (simp add: f sandbox_claim_def committed_def Let_def claim_bound_def)
  moreover have "\<exists>sl. sandbox_slot (creq_slot_id r) s' = Some sl \<and> slot_state sl = SlotClaimed
      \<and> slot_fencing_token sl = tok"
    by (simp add: f sandbox_slot_def committed_def Let_def slot_moved_def)
  ultimately show ?thesis unfolding c by blast
qed

theorem claim_token_is_fresh_witness:
  "sandbox_claim (claim_id (demo_bound ClaimBound 0)) demo_claimed = Some (demo_bound ClaimBound 0)
   \<and> (\<exists>slot. sandbox_slot ''slot-a'' demo_claimed = Some slot \<and> slot_fencing_token slot = 1)"
proof -
  have "sandbox_claim_for_operation (creq_operation_id demo_claim) demo_readied = None"
    by (simp add: sandbox_claim_for_operation_def demo_readied_eq pool_registry_default_def)
  from claim_token_is_fresh [OF demo_reachable(2) demo_claim_result(1) this] show ?thesis
    by (auto simp: demo_claim_def demo_bound_def claim_bound_def)
qed

text \<open>
  C38: A claim whose operation has no recorded claim succeeds exactly when the request is valid, the
  operation still has attempts, the runtime binding has no active claim, both references are
  present, the named slot is ready with the requested profile, capacity revision and fencing
  token, and neither the token nor the claim sequence has reached its ceiling.
\<close>
theorem claim_succeeds_exactly_when:
  assumes "pool_reachable s" "sandbox_claim_for_operation (creq_operation_id r) s = None"
  shows "(\<exists>s' c. sandbox_claim_pool_slot now r s = (s', Inr c)) \<longleftrightarrow>
     hex_fingerprint (creq_fingerprint r)
     \<and> 0 < creq_ttl_seconds r \<and> creq_ttl_seconds r \<le> sandbox_pool_claim_ttl_seconds_max
     \<and> \<not> claim_budget_exhausted (creq_operation_id r) s
     \<and> (\<nexists>cid c. sandbox_claim cid s = Some c \<and> is_active_claim_state (claim_state c)
            \<and> claim_binding_id c = creq_binding_id r)
     \<and> creq_admission_grant_id r \<noteq> None \<and> creq_capacity_reservation_id r \<noteq> None
     \<and> (\<exists>slot. sandbox_slot (creq_slot_id r) s = Some slot \<and> slot_state slot = SlotReady
          \<and> slot_profile_id slot = creq_profile_id r
          \<and> slot_capacity_revision slot = creq_capacity_revision r
          \<and> slot_fencing_token slot = creq_expected_token r)
     \<and> reg_highest_token s < i64_max \<and> reg_claim_sequence s < - 1"
    (is "?L \<longleftrightarrow> ?R")
proof -
  note inv = pool_reachable_inv [OF assms(1)]
  have binding: "(\<exists>cid c. sandbox_claim cid s = Some c \<and> is_active_claim_state (claim_state c)
      \<and> claim_binding_id c = b) \<longleftrightarrow> btm_contains (reg_active_by_binding s) b" for b
    using pool_invD(7) [OF inv]
    by (fastforce simp: index_agrees_def active_claim_def sandbox_claim_def
        elim: btm_containsE intro: btm_containsI)
  have idle: "\<not> btm_contains (reg_active_by_slot s) sid"
    if "btm_get (reg_slots s) sid = Some slot" "slot_state slot = SlotReady" for sid slot
    using pool_invD(3) [OF inv that(1)] that(2) by (simp add: slot_inv_def)
  have next_tok: "fencing_next t \<noteq> None \<longleftrightarrow> t < i64_max" for t
    by (simp add: fencing_next_def i64_checked_succ_def)
  have next_sq: "u64_checked_succ q \<noteq> None \<longleftrightarrow> q < - 1" for q
    by (simp add: u64_checked_succ_def)
  have op: "btm_get (reg_claims_by_operation s) (creq_operation_id r) = None"
    using assms(2) by (simp add: claim_operation_None [OF inv])
  show ?thesis
  proof
    assume ?L
    then obtain s' c where "sandbox_claim_pool_slot now r s = (s', Inr c)" by blast
    then obtain grant cap slot tok sq where g:
      "claim_request_validated r = Inr r" "\<not> claim_budget_exhausted (creq_operation_id r) s"
      "\<not> btm_contains (reg_active_by_binding s) (creq_binding_id r)"
      "creq_admission_grant_id r = Some grant" "creq_capacity_reservation_id r = Some cap"
      "btm_get (reg_slots s) (creq_slot_id r) = Some slot" "claim_slot_refusal r slot s = None"
      "fencing_next (reg_highest_token s) = Some tok" "u64_checked_succ (reg_claim_sequence s) = Some sq"
      by (rule fresh_claim_cases [OF inv _ assms(2)]) metis
    then have "reg_highest_token s < i64_max" "reg_claim_sequence s < - 1"
      using next_tok next_sq by (metis option.distinct(1))+
    with g show ?R
      unfolding binding by (auto simp: claim_request_validated_iff claim_slot_refusal_None sandbox_slot_def)
  next
    assume R: ?R
    then obtain slot grant cap where slot: "btm_get (reg_slots s) (creq_slot_id r) = Some slot"
      "slot_state slot = SlotReady" and none: "claim_slot_refusal r slot s = None"
      and refs: "creq_admission_grant_id r = Some grant" "creq_capacity_reservation_id r = Some cap"
      using idle by (auto simp: claim_slot_refusal_None sandbox_slot_def)
    from R next_tok next_sq obtain tok sq where "fencing_next (reg_highest_token s) = Some tok"
      "u64_checked_succ (reg_claim_sequence s) = Some sq" by blast
    with R slot none refs op show ?L
      unfolding binding
      by (simp add: sandbox_claim_pool_slot_def claim_request_validated_iff [THEN iffD2] Let_def
          claim_commit_eq [OF slot])
  qed
qed

theorem claim_succeeds_exactly_when_witness:
  "\<exists>s' c. sandbox_claim_pool_slot 102 demo_claim demo_readied = (s', Inr c)"
proof -
  have none: "sandbox_claim_for_operation (creq_operation_id demo_claim) demo_readied = None"
    by (simp add: sandbox_claim_for_operation_def demo_readied_eq pool_registry_default_def)
  show ?thesis
    unfolding claim_succeeds_exactly_when [OF demo_reachable(2) none]
    by (simp add: demo_claim_def demo_fingerprint_valid pool_bounds claim_budget_exhausted_def
        demo_readied_eq pool_registry_default_def sandbox_claim_def sandbox_slot_def btm_get_def
        demo_slot_def i64_max_def fencing_initial_def demo_u64_room)
qed

lemma sandbox_claim_operation:
  assumes "pool_inv s" "sandbox_claim cid s = Some c"
  shows "btm_get (reg_claims_by_operation s) (claim_operation_id c) = Some cid"
  using pool_invD(8) [OF assms(1)] assms(2) by (simp add: sandbox_claim_def inv_operations_def)

text \<open>
  A claim replays safely forever: once an operation's claim is recorded, a valid request with
  the same operation and the same fingerprint, at any later time and in any later registry in
  which the operation still has attempts, changes nothing and returns the recorded claim: same
  identity, slot, binding and fencing token, in the state it has reached by then.
\<close>
theorem claim_replay_returns_recorded_claim:
  assumes "pool_reachable s" "sandbox_claim cid s = Some c" "pool_step\<^sup>*\<^sup>* s t"
    and "claim_request_validated r = Inr r" "creq_operation_id r = claim_operation_id c"
    and "creq_fingerprint r = claim_request_fingerprint c"
    and "\<not> claim_budget_exhausted (creq_operation_id r) t"
  shows "\<exists>d. sandbox_claim_pool_slot now r t = (t, Inr d) \<and> sandbox_claim cid t = Some d
    \<and> claim_id d = claim_id c \<and> claim_slot_id d = claim_slot_id c
    \<and> claim_binding_id d = claim_binding_id c \<and> claim_fencing_token d = claim_fencing_token c
    \<and> claim_can_transition_to\<^sup>*\<^sup>* (claim_state c) (claim_state d)"
proof -
  note inv = pool_reachable_inv [OF assms(1)]
  note later = pool_later [OF inv assms(3)]
  from later(2) [of cid c] assms(2) obtain d where d: "btm_get (reg_claims t) cid = Some d"
    "claim_advances c d" by (auto simp: sandbox_claim_def)
  from later(3) [OF sandbox_claim_operation [OF inv assms(2)]]
  have "btm_get (reg_claims_by_operation t) (creq_operation_id r) = Some cid"
    by (simp add: assms(5))
  with assms(4-7) d have "sandbox_claim_pool_slot now r t = (t, Inr d)"
    by (simp add: sandbox_claim_pool_slot_def Let_def claim_advances_def)
  with d show ?thesis by (auto simp: claim_advances_def sandbox_claim_def)
qed

theorem claim_replay_returns_recorded_claim_witness:
  "\<exists>d. sandbox_claim_pool_slot 500 demo_claim demo_released = (demo_released, Inr d)
     \<and> claim_fencing_token d = 1"
proof -
  have c: "sandbox_claim ''sandbox_pool_claim_1'' demo_claimed = Some (demo_bound ClaimBound 0)"
    by (simp add: sandbox_claim_def demo_claim_result(2) btm_get_def)
  have fields: "creq_operation_id demo_claim = claim_operation_id (demo_bound ClaimBound 0)"
    "creq_fingerprint demo_claim = claim_request_fingerprint (demo_bound ClaimBound 0)"
    "claim_fencing_token (demo_bound ClaimBound 0) = 1"
    by (simp_all add: demo_bound_def claim_bound_def)
  have "reg_failed_attempts demo_released = []"
    by (simp add: demo_released_def sandbox_release_pool_claim_def demo_release_def
        demo_claim_result(2) btm_get_def demo_bound_def claim_bound_def demo_claim_def
        finalize_claim_state_def claim_can_transition_to_def is_active_claim_state_def
        demo_slot_def slot_can_transition_to_def put_slot_def slot_moved_def Let_def)
  then have "\<not> claim_budget_exhausted (creq_operation_id demo_claim) demo_released"
    by (simp add: claim_budget_exhausted_def btm_get_def)
  from claim_replay_returns_recorded_claim
    [OF demo_reachable(3) c demo_run(2) demo_claim_validated fields(1,2) this, of 500]
  show ?thesis by (auto simp: fields(3))
qed

text \<open>
  A refused claim changes nothing but the attempt counter of its operation, which never passes
  eight; at eight every further valid claim of that operation is refused without reading the slot.
\<close>
theorem refused_claim_only_counts:
  assumes "pool_reachable s"
  shows "(sandbox_claim_pool_slot now r s = (s', Inl e) \<longrightarrow>
           s' = s \<or> s' = note_failed_claim (creq_operation_id r) s)
    \<and> (\<forall>a. btm_get (reg_failed_attempts (fst (sandbox_claim_pool_slot now r s))) op = Some a \<longrightarrow> a \<le> 8)
    \<and> (claim_request_validated r = Inr r \<and> btm_get (reg_failed_attempts s) (creq_operation_id r) = Some 8 \<longrightarrow>
         sandbox_claim_pool_slot now r s = (s, Inl (SandboxPoolClaimConflict ClaimAttemptBudgetExhausted)))"
proof -
  note inv = pool_reachable_inv [OF assms]
  have commit: "s1 = s" if "claim_commit now r' grant cap s = (s1, Inl e)"
    "btm_get (reg_slots s) (creq_slot_id r') = Some slot" "claim_slot_refusal r' slot s = None"
    for s1 r' grant cap slot
    using that claim_slot_refusal_None [of r' slot s] claim_commit_eq [OF that(2)]
    by (auto split: option.splits)
  have "sandbox_claim_pool_slot now r s = (s', Inl e) \<longrightarrow>
      s' = s \<or> s' = note_failed_claim (creq_operation_id r) s"
    by (auto simp: sandbox_claim_pool_slot_def Let_def claim_request_validated_iff
        dest: commit split: sum.splits if_splits option.splits)
  moreover have "\<forall>a. btm_get (reg_failed_attempts (fst (sandbox_claim_pool_slot now r s))) op = Some a \<longrightarrow> a \<le> 8"
    using pool_invD(9) [OF claim_preserves [OF inv, of now r]]
    by (simp add: inv_bounds_def sandbox_pool_claim_attempt_count_max_def)
  moreover have "claim_request_validated r = Inr r \<and> btm_get (reg_failed_attempts s) (creq_operation_id r) = Some 8 \<longrightarrow>
      sandbox_claim_pool_slot now r s = (s, Inl (SandboxPoolClaimConflict ClaimAttemptBudgetExhausted))"
    by (simp add: sandbox_claim_pool_slot_def Let_def claim_budget_exhausted_def
        sandbox_pool_claim_attempt_count_max_def)
  ultimately show ?thesis by blast
qed

theorem refused_claim_only_counts_witness:
  "fst (sandbox_claim_pool_slot 102 demo_claim demo_prepared)
     \<in> {demo_prepared, note_failed_claim ''operation'' demo_prepared}"
proof -
  have "sandbox_claim_pool_slot 102 demo_claim demo_prepared =
      (note_failed_claim ''operation'' demo_prepared,
       Inl (SandboxPoolNotReady ''ready'' (Some ''preparing'')))"
    unfolding sandbox_claim_pool_slot_def demo_claim_validated
    by (simp add: claim_budget_exhausted_def demo_prepared_eq pool_registry_default_def claim_slot_refusal_def btm_get_def Let_def
        demo_slot_def demo_claim_def btm_contains_def)
  with refused_claim_only_counts [OF demo_reachable(1), of 102 demo_claim] show ?thesis
    by (simp add: demo_claim_def)
qed

section \<open>Fenced operations\<close>

text \<open>A claim under a stale token: what it changes and what it can answer.\<close>

lemma stale_claim:
  assumes "pool_inv s" "sandbox_slot (creq_slot_id r) s = Some slot" "creq_expected_token r \<noteq> slot_fencing_token slot"
  shows "fst (sandbox_claim_pool_slot now r s) \<in> {s, note_failed_claim (creq_operation_id r) s}
    \<and> (\<forall>c. snd (sandbox_claim_pool_slot now r s) = Inr c \<longrightarrow>
         fst (sandbox_claim_pool_slot now r s) = s
         \<and> sandbox_claim_for_operation (creq_operation_id r) s = Some c
         \<and> claim_request_fingerprint c = creq_fingerprint r)"
proof (cases "claim_request_validated r")
  case (Inl e)
  then show ?thesis by (simp add: sandbox_claim_pool_slot_def)
next
  case (Inr r')
  then have r: "claim_request_validated r = Inr r" by (simp add: claim_request_validated_iff)
  have "claim_slot_refusal r slot s \<noteq> None" using assms(3) by (simp add: claim_slot_refusal_None)
  then show ?thesis
    using assms(2)
    by (auto simp: sandbox_claim_pool_slot_def r Let_def sandbox_slot_def sandbox_claim_for_operation_def
        split: option.split)
qed

lemma stale_claim_error:
  assumes inv: "pool_inv s" and slot: "sandbox_slot (creq_slot_id r) s = Some slot"
    and stale: "creq_expected_token r \<noteq> slot_fencing_token slot"
  shows "\<forall>s' c. sandbox_claim_for_operation (creq_operation_id r) s = None
      \<and> sandbox_claim_pool_slot now (r\<lparr> creq_expected_token := slot_fencing_token slot \<rparr>) s = (s', Inr c) \<longrightarrow>
    sandbox_claim_pool_slot now r s = (note_failed_claim (creq_operation_id r) s, Inl SandboxPoolStaleFencing)"
proof (intro allI impI, elim conjE)
  fix s' c
  let ?r = "r\<lparr> creq_expected_token := slot_fencing_token slot \<rparr>"
  assume fresh: "sandbox_claim_for_operation (creq_operation_id r) s = None"
    and ok: "sandbox_claim_pool_slot now ?r s = (s', Inr c)"
  have none: "sandbox_claim_for_operation (creq_operation_id ?r) s = None" using fresh by simp
  obtain grant cap slot' where g: "claim_request_validated ?r = Inr ?r"
    "\<not> claim_budget_exhausted (creq_operation_id r) s" "\<not> btm_contains (reg_active_by_binding s) (creq_binding_id r)"
    "creq_admission_grant_id r = Some grant" "creq_capacity_reservation_id r = Some cap"
    "btm_get (reg_slots s) (creq_slot_id r) = Some slot'" "claim_slot_refusal ?r slot' s = None"
    by (rule fresh_claim_cases [OF inv ok none]) auto
  then have same: "slot' = slot" using slot by (simp add: sandbox_slot_def)
  have valid: "claim_request_validated r = Inr r" using g(1) by (simp add: claim_request_validated_iff)
  have "claim_slot_refusal r slot s = Some SandboxPoolStaleFencing"
    using g(7) stale unfolding same by (simp add: claim_slot_refusal_None) (simp add: claim_slot_refusal_def)
  then show "sandbox_claim_pool_slot now r s = (note_failed_claim (creq_operation_id r) s, Inl SandboxPoolStaleFencing)"
    using g fresh same by (simp add: sandbox_claim_pool_slot_def valid Let_def claim_operation_None [OF inv])
qed

text \<open>
  C39: Stale fencing is refused before any mutation: a ready request with a well-formed fingerprint, a
  release, a quarantine or a retire request, on a slot or claim that exists, whose token differs from the
  recorded one gets the stale-fencing error and leaves the registry unchanged. A claim whose token differs
  from its slot's changes nothing but, when refused, the count of its operation's failed attempts: it takes
  no slot and raises no token; if it is answered with a claim, it is the replay of the one its operation
  holds already under the same fingerprint, which is read without a look at the token; and if the right
  token was all that a new claim lacked, the error is the stale-fencing one.
\<close>
theorem stale_token_never_mutates:
  assumes "pool_reachable s"
  shows "(\<forall>r slot. sandbox_slot (ready_slot_id r) s = Some slot
            \<and> hex_fingerprint (ready_evidence_fingerprint r)
            \<and> ready_expected_token r \<noteq> slot_fencing_token slot \<longrightarrow>
          sandbox_mark_pool_slot_ready now r s = (s, Inl SandboxPoolStaleFencing))
    \<and> (\<forall>r c. sandbox_claim (rel_claim_id r) s = Some c
            \<and> rel_expected_token r \<noteq> claim_fencing_token c \<longrightarrow>
          sandbox_release_pool_claim now r s = (s, Inl SandboxPoolStaleFencing))
    \<and> (\<forall>r slot. sandbox_slot (quar_slot_id r) s = Some slot
            \<and> quar_expected_token r \<noteq> slot_fencing_token slot \<longrightarrow>
          sandbox_quarantine_pool_slot now r s = (s, Inl SandboxPoolStaleFencing))
    \<and> (\<forall>r slot. sandbox_slot (ret_slot_id r) s = Some slot
            \<and> ret_expected_token r \<noteq> slot_fencing_token slot \<longrightarrow>
          sandbox_retire_pool_slot now r s = (s, Inl SandboxPoolStaleFencing))
    \<and> (\<forall>r slot. sandbox_slot (creq_slot_id r) s = Some slot
            \<and> creq_expected_token r \<noteq> slot_fencing_token slot \<longrightarrow>
          fst (sandbox_claim_pool_slot now r s) \<in> {s, note_failed_claim (creq_operation_id r) s}
          \<and> (\<forall>c. snd (sandbox_claim_pool_slot now r s) = Inr c \<longrightarrow>
               fst (sandbox_claim_pool_slot now r s) = s
               \<and> sandbox_claim_for_operation (creq_operation_id r) s = Some c
               \<and> claim_request_fingerprint c = creq_fingerprint r)
          \<and> (\<forall>s' c. sandbox_claim_for_operation (creq_operation_id r) s = None
               \<and> sandbox_claim_pool_slot now (r\<lparr> creq_expected_token := slot_fencing_token slot \<rparr>) s = (s', Inr c) \<longrightarrow>
               sandbox_claim_pool_slot now r s
                 = (note_failed_claim (creq_operation_id r) s, Inl SandboxPoolStaleFencing)))"
proof -
  note inv = pool_reachable_inv [OF assms]
  have ready: "sandbox_mark_pool_slot_ready now r s = (s, Inl SandboxPoolStaleFencing)"
    if "sandbox_slot (ready_slot_id r) s = Some slot" "hex_fingerprint (ready_evidence_fingerprint r)"
      "ready_expected_token r \<noteq> slot_fencing_token slot" for r slot
    using that by (simp add: sandbox_mark_pool_slot_ready_def sandbox_slot_def pool_validate_fingerprint_def)
  have rel: "sandbox_release_pool_claim now r s = (s, Inl SandboxPoolStaleFencing)"
    if "sandbox_claim (rel_claim_id r) s = Some c" "rel_expected_token r \<noteq> claim_fencing_token c" for r c
    using that by (simp add: sandbox_release_pool_claim_def sandbox_claim_def)
  have quar: "sandbox_quarantine_pool_slot now r s = (s, Inl SandboxPoolStaleFencing)"
    if "sandbox_slot (quar_slot_id r) s = Some slot" "quar_expected_token r \<noteq> slot_fencing_token slot" for r slot
    using that by (simp add: sandbox_quarantine_pool_slot_def sandbox_slot_def)
  have ret: "sandbox_retire_pool_slot now r s = (s, Inl SandboxPoolStaleFencing)"
    if "sandbox_slot (ret_slot_id r) s = Some slot" "ret_expected_token r \<noteq> slot_fencing_token slot" for r slot
    using that by (simp add: sandbox_retire_pool_slot_def sandbox_slot_def)
  have claim: "fst (sandbox_claim_pool_slot now r s) \<in> {s, note_failed_claim (creq_operation_id r) s}
      \<and> (\<forall>c. snd (sandbox_claim_pool_slot now r s) = Inr c \<longrightarrow>
           fst (sandbox_claim_pool_slot now r s) = s
           \<and> sandbox_claim_for_operation (creq_operation_id r) s = Some c
           \<and> claim_request_fingerprint c = creq_fingerprint r)
      \<and> (\<forall>s' c. sandbox_claim_for_operation (creq_operation_id r) s = None
           \<and> sandbox_claim_pool_slot now (r\<lparr> creq_expected_token := slot_fencing_token slot \<rparr>) s = (s', Inr c) \<longrightarrow>
           sandbox_claim_pool_slot now r s
             = (note_failed_claim (creq_operation_id r) s, Inl SandboxPoolStaleFencing))"
    if "sandbox_slot (creq_slot_id r) s = Some slot" "creq_expected_token r \<noteq> slot_fencing_token slot" for r slot
    using stale_claim [OF inv that] stale_claim_error [OF inv that] by blast
  show ?thesis using ready rel quar ret claim by blast
qed

theorem stale_token_never_mutates_witness:
  "sandbox_release_pool_claim 103 (demo_release\<lparr>rel_expected_token := 0\<rparr>) demo_claimed =
     (demo_claimed, Inl SandboxPoolStaleFencing)"
proof -
  have "sandbox_claim (rel_claim_id (demo_release\<lparr>rel_expected_token := 0\<rparr>)) demo_claimed =
      Some (demo_bound ClaimBound 0)"
    by (simp add: sandbox_claim_def demo_claim_result(2) btm_get_def demo_release_def)
  moreover have "rel_expected_token (demo_release\<lparr>rel_expected_token := 0\<rparr>) \<noteq>
      claim_fencing_token (demo_bound ClaimBound 0)"
    by (simp add: demo_bound_def claim_bound_def)
  ultimately show ?thesis
    using stale_token_never_mutates [OF demo_reachable(3), of 103] by blast
qed

text \<open>
  C19: A slot becomes ready only through a ready report on that slot: no clock, no expiry and no
  other operation ever readies it. The report carries the slot's token and a lowercase hexadecimal
  fingerprint of 64 characters that differs from the evidence recorded before, and the slot was
  preparing or sanitizing.
\<close>
theorem ready_only_by_fresh_evidence:
  assumes "pool_reachable s" "sandbox_slot sid s = Some a" "slot_state a \<noteq> SlotReady"
    and "sandbox_slot sid (pool_exec now op s) = Some b" "slot_state b = SlotReady"
  shows "\<exists>r. op = MarkSlotReady r \<and> ready_slot_id r = sid
    \<and> ready_expected_token r = slot_fencing_token a
    \<and> hex_fingerprint (ready_evidence_fingerprint r)
    \<and> slot_evidence_fingerprint a \<noteq> Some (ready_evidence_fingerprint r)
    \<and> slot_evidence_fingerprint b = Some (ready_evidence_fingerprint r)
    \<and> slot_state a \<in> {SlotPreparing, SlotSanitizing}"
proof -
  note inv = pool_reachable_inv [OF assms(1)]
  from assms(2-5) have g: "btm_get (reg_slots s) sid = Some a" "slot_state a \<noteq> SlotReady"
    "btm_get (reg_slots (pool_exec now op s)) sid = Some b" "slot_state b = SlotReady"
    by (simp_all add: sandbox_slot_def)
  have "\<not> readies_nothing s (pool_exec now op s)"
    unfolding readies_nothing_def using g by (metis option.inject)
  then obtain r where op: "op = MarkSlotReady r"
    using exec_readies_nothing by blast
  from g op show ?thesis
    by (auto simp: sandbox_mark_pool_slot_ready_def pool_validate_fingerprint_def put_slot_def Let_def
        split: if_splits option.splits sum.splits prod.splits dest: finalize_slots')
qed

theorem ready_only_by_fresh_evidence_witness:
  "\<exists>r. MarkSlotReady demo_ready = MarkSlotReady r \<and> ready_slot_id r = ''slot-a''
     \<and> hex_fingerprint (ready_evidence_fingerprint r)"
proof -
  have before: "sandbox_slot ''slot-a'' demo_prepared = Some (demo_slot SlotPreparing 0 0 None 100)"
    "slot_state (demo_slot SlotPreparing 0 0 None 100) \<noteq> SlotReady"
    by (simp_all add: sandbox_slot_def demo_prepared_eq btm_get_def demo_slot_def)
  have after: "sandbox_slot ''slot-a'' (pool_exec 101 (MarkSlotReady demo_ready) demo_prepared) =
      Some (demo_slot SlotReady 0 1 (Some (demo_fingerprint (CHR ''a''))) 101)"
    "slot_state (demo_slot SlotReady 0 1 (Some (demo_fingerprint (CHR ''a''))) 101) = SlotReady"
    unfolding demo_readied_def [symmetric]
    by (simp_all add: sandbox_slot_def demo_readied_eq btm_get_def demo_slot_def)
  from ready_only_by_fresh_evidence [OF demo_reachable(1) before after] show ?thesis by blast
qed

section \<open>Release and quarantine\<close>

text \<open>
  A release succeeds exactly when the claim is recorded under the presented token and is not
  quarantined. It then reports claim and slot as recorded afterwards, the claim releasing or
  released, and repeating it, at any time, changes nothing and reports the same.
\<close>
theorem release_is_idempotent:
  assumes "pool_reachable s"
  shows "((\<exists>s' out. sandbox_release_pool_claim now r s = (s', Inr out)) \<longleftrightarrow>
           (\<exists>c. sandbox_claim (rel_claim_id r) s = Some c
              \<and> claim_fencing_token c = rel_expected_token r \<and> claim_state c \<noteq> ClaimQuarantined))
    \<and> (\<forall>s' out now'. sandbox_release_pool_claim now r s = (s', Inr out) \<longrightarrow>
         sandbox_claim (rel_claim_id r) s' = Some (rel_claim out)
         \<and> claim_state (rel_claim out) \<in> {ClaimReleasing, ClaimReleased}
         \<and> sandbox_slot (claim_slot_id (rel_claim out)) s' = Some (rel_slot out)
         \<and> sandbox_release_pool_claim now' r s' = (s', Inr out))"
proof (cases "\<exists>c. btm_get (reg_claims s) (rel_claim_id r) = Some c
    \<and> rel_expected_token r = claim_fencing_token c \<and> claim_state c \<noteq> ClaimQuarantined")
  case False
  then have "\<nexists>s' out. sandbox_release_pool_claim now r s = (s', Inr out)"
    by (auto simp: sandbox_release_pool_claim_def Let_def
        split: option.split sandbox_pool_claim_state.splits)
  with False show ?thesis by (auto simp: sandbox_claim_def)
next
  case True
  note inv = pool_reachable_inv [OF assms]
  from True obtain c where c: "btm_get (reg_claims s) (rel_claim_id r) = Some c"
    "rel_expected_token r = claim_fencing_token c" "claim_state c \<noteq> ClaimQuarantined" by blast
  from pool_invD(4) [OF inv c(1)] obtain slot where ci: "claim_id c = rel_claim_id r"
    "claim_state c \<noteq> ClaimClaiming" "btm_get (reg_slots s) (claim_slot_id c) = Some slot"
    "is_active_claim_state (claim_state c) \<Longrightarrow> bridge_agrees slot c"
    by (auto simp: claim_inv_def split: option.splits)
  show ?thesis
  proof (cases "claim_state c = ClaimBound")
    case bound: True
    then have "slot_state slot = SlotClaimed"
      using ci(4) by (simp add: is_active_claim_state_def bridge_agrees_def)
    then have can: "slot_can_transition_to (slot_state slot) SlotSanitizing"
      by (simp add: slot_can_transition_to_def)
    let ?t = "put_slot (claim_slot_id c) (slot_moved SlotSanitizing now slot)
      (s\<lparr>reg_claims := btm_insert (rel_claim_id r) (claim_moved ClaimReleasing c) (reg_claims s)\<rparr>)"
    have rel: "sandbox_release_pool_claim now r s =
      (?t, Inr \<lparr>rel_claim = claim_moved ClaimReleasing c, rel_slot = slot_moved SlotSanitizing now slot\<rparr>)"
      using c ci can bound
      by (simp add: sandbox_release_pool_claim_def finalize_releasing [OF c(1)] Let_def
          release_outcome_def put_slot_def)
    have again: "sandbox_release_pool_claim now' r ?t =
      (?t, Inr \<lparr>rel_claim = claim_moved ClaimReleasing c, rel_slot = slot_moved SlotSanitizing now slot\<rparr>)" for now'
      using c by (simp add: sandbox_release_pool_claim_def release_outcome_def put_slot_def Let_def)
    show ?thesis
      using c rel again by (auto simp: sandbox_claim_def sandbox_slot_def put_slot_def)
  next
    case False
    with c(3) ci(2) have ended: "claim_state c \<in> {ClaimReleasing, ClaimReleased}"
      by (cases "claim_state c") auto
    have rel: "sandbox_release_pool_claim now' r s = (s, Inr \<lparr>rel_claim = c, rel_slot = slot\<rparr>)" for now'
      using c ci ended by (auto simp: sandbox_release_pool_claim_def release_outcome_def Let_def)
    show ?thesis
      using c ci ended rel by (auto simp: sandbox_claim_def sandbox_slot_def)
  qed
qed

theorem release_is_idempotent_witness:
  "\<exists>out. sandbox_release_pool_claim 900 demo_release demo_released = (demo_released, Inr out)
     \<and> claim_state (rel_claim out) \<in> {ClaimReleasing, ClaimReleased}"
  using release_is_idempotent [OF demo_reachable(3), of 103 demo_release] demo_release_result(1)
  by blast

text \<open>
  Quarantining or retiring a registered slot under its current token never fails unless the
  slot is already retired and quarantine is asked for: afterwards the slot is quarantined (or
  retired), no active claim names it, and no other slot has changed.
\<close>
theorem quarantine_and_retire_take_effect:
  assumes "pool_reachable s" "sandbox_slot sid s = Some slot"
  shows "(slot_state slot \<noteq> SlotRetired \<longrightarrow>
      (\<exists>t b. sandbox_quarantine_pool_slot now
               \<lparr>quar_slot_id = sid, quar_expected_token = slot_fencing_token slot, quar_reason = why\<rparr> s
             = (t, Inr b)
         \<and> sandbox_slot sid t = Some b \<and> slot_state b = SlotQuarantined
         \<and> (\<nexists>cid c. sandbox_claim cid t = Some c \<and> is_active_claim_state (claim_state c)
               \<and> claim_slot_id c = sid)
         \<and> (\<forall>k. k \<noteq> sid \<longrightarrow> sandbox_slot k t = sandbox_slot k s)))
    \<and> (\<exists>t b. sandbox_retire_pool_slot now
               \<lparr>ret_slot_id = sid, ret_expected_token = slot_fencing_token slot\<rparr> s = (t, Inr b)
         \<and> sandbox_slot sid t = Some b \<and> slot_state b = SlotRetired
         \<and> (\<nexists>cid c. sandbox_claim cid t = Some c \<and> is_active_claim_state (claim_state c)
               \<and> claim_slot_id c = sid)
         \<and> (\<forall>k. k \<noteq> sid \<longrightarrow> sandbox_slot k t = sandbox_slot k s))"
proof -
  note inv = pool_reachable_inv [OF assms(1)]
  have slot: "btm_get (reg_slots s) sid = Some slot" using assms(2) by (simp add: sandbox_slot_def)
  have idle: "\<nexists>cid c. sandbox_claim cid t = Some c \<and> is_active_claim_state (claim_state c) \<and> claim_slot_id c = sid"
    if "pool_inv t" "sandbox_slot sid t = Some b" "slot_state b \<in> {SlotQuarantined, SlotRetired}" for t b
    using pool_invD(4) [OF that(1)] that(2,3)
    by (fastforce simp: sandbox_claim_def sandbox_slot_def claim_inv_def bridge_agrees_def)
  let ?q = "\<lparr>quar_slot_id = sid, quar_expected_token = slot_fencing_token slot, quar_reason = why\<rparr>"
  let ?r = "\<lparr>ret_slot_id = sid, ret_expected_token = slot_fencing_token slot\<rparr>"
  have quar: "\<exists>t b. sandbox_quarantine_pool_slot now ?q s = (t, Inr b) \<and> sandbox_slot sid t = Some b
      \<and> slot_state b = SlotQuarantined \<and> (\<forall>k. k \<noteq> sid \<longrightarrow> sandbox_slot k t = sandbox_slot k s)"
    if "slot_state slot \<noteq> SlotRetired"
  proof -
    have "serviceable s sid" using slot that by (simp add: serviceable_def)
    then show ?thesis
      by (rule quarantine_locked_effect [OF inv, where now = now])
        (use slot in \<open>auto simp: sandbox_quarantine_pool_slot_def sandbox_slot_def\<close>)
  qed
  have ret: "\<exists>t b. sandbox_retire_pool_slot now ?r s = (t, Inr b) \<and> sandbox_slot sid t = Some b
      \<and> slot_state b = SlotRetired \<and> (\<forall>k. k \<noteq> sid \<longrightarrow> sandbox_slot k t = sandbox_slot k s)"
  proof (cases "slot_state slot = SlotRetired")
    case True
    with slot show ?thesis by (simp add: sandbox_retire_pool_slot_def sandbox_slot_def)
  next
    case False
    obtain s1 where q: "quarantine_active_claim sid s = (s1, Inr ())" and same: "reg_slots s1 = reg_slots s"
      using inv by (cases rule: quarantine_active_claim_cases [where sid = sid]) auto
    have "slot_can_transition_to (slot_state slot) SlotRetired"
      using pool_invD(3) [OF inv slot] False
      by (cases "slot_state slot") (auto simp: slot_inv_def slot_can_transition_to_def)
    with q same slot False show ?thesis
      by (simp add: sandbox_retire_pool_slot_def Let_def put_slot_def sandbox_slot_def)
  qed
  have "pool_inv (fst (sandbox_quarantine_pool_slot now ?q s))"
    "pool_inv (fst (sandbox_retire_pool_slot now ?r s))"
    using inv by (simp_all add: quarantine_preserves retire_preserves)
  with quar ret idle show ?thesis by (metis fst_conv insertCI)
qed

theorem quarantine_and_retire_take_effect_witness:
  "\<exists>t b. sandbox_quarantine_pool_slot 500
           \<lparr>quar_slot_id = ''slot-a'', quar_expected_token = 1, quar_reason = OperatorDecision\<rparr> demo_claimed
         = (t, Inr b) \<and> slot_state b = SlotQuarantined"
proof -
  have "sandbox_slot ''slot-a'' demo_claimed =
      Some (demo_slot SlotClaimed 1 2 (Some (demo_fingerprint (CHR ''a''))) 102)"
    by (simp add: sandbox_slot_def demo_claim_result(2) btm_get_def)
  from quarantine_and_retire_take_effect [OF demo_reachable(3) this, of 500 OperatorDecision]
  show ?thesis by (auto simp: demo_slot_def)
qed

section \<open>Reconciliation\<close>

text \<open>
  A slot reconciliation with an accepted batch size examines exactly as many candidates as the
  batch allows, quarantines every slot it examines (the slots of expired active claims, then stuck
  transitional slots), reports those slots and no others, and leaves every other slot untouched.
  When the batch covers all candidates, no expired claim stays active and no slot stays stuck.
\<close>
theorem reconcile_is_bounded_and_complete:
  assumes "pool_reachable s" "0 < batch" "batch \<le> 100"
  shows "\<exists>t report. sandbox_reconcile_pool_slots now batch s = (t, Inr report)
    \<and> rep_examined report = min batch (length (reconcile_candidates now s))
    \<and> set (map fst (rep_quarantined report)) = fst ` set (take batch (reconcile_candidates now s))
    \<and> (\<forall>sid \<in> fst ` set (take batch (reconcile_candidates now s)).
         \<exists>slot. sandbox_slot sid t = Some slot \<and> slot_state slot = SlotQuarantined)
    \<and> (\<forall>sid. sid \<notin> fst ` set (take batch (reconcile_candidates now s)) \<longrightarrow>
         sandbox_slot sid t = sandbox_slot sid s)
    \<and> (length (reconcile_candidates now s) \<le> batch \<longrightarrow>
         (\<nexists>cid c. sandbox_claim cid s = Some c \<and> is_active_claim_state (claim_state c)
            \<and> claim_is_expired_at c now
            \<and> \<not> (\<exists>slot. sandbox_slot (claim_slot_id c) t = Some slot \<and> slot_state slot = SlotQuarantined))
         \<and> (\<nexists>sid slot. sandbox_slot sid t = Some slot \<and> slot_is_stuck now slot))"
proof -
  note inv = pool_reachable_inv [OF assms(1)]
  let ?cands = "reconcile_candidates now s" and ?r0 = "\<lparr>rep_examined = 0, rep_quarantined = []\<rparr>"
  obtain t report where run: "reconcile_visit batch now ?cands [] ?r0 s = (t, report)" by force
  have serv: "\<forall>c \<in> set ?cands. serviceable s (fst c)"
    using candidates_serviceable [OF inv] by auto
  note spec = reconcile_visit_spec [OF inv serv _ _ run, simplified]
  have res: "sandbox_reconcile_pool_slots now batch s = (t, Inr report)"
    using assms(2,3) run
    by (simp add: sandbox_reconcile_pool_slots_def sandbox_pool_reconciliation_batch_size_max_def)
  have all: "fst ` set (take batch ?cands) = set (map fst ?cands)" if "length ?cands \<le> batch"
    using that by simp
  have expired: "\<exists>slot. sandbox_slot (claim_slot_id c) t = Some slot \<and> slot_state slot = SlotQuarantined"
    if "length ?cands \<le> batch" "sandbox_claim cid s = Some c" "is_active_claim_state (claim_state c)"
      "claim_is_expired_at c now" for cid c
  proof -
    have "claim_slot_id c \<in> fst ` set (take batch ?cands)"
      using that unfolding all [OF that(1)] candidates_set [OF inv]
      by (auto simp: sandbox_claim_def expired_claim_def)
    with spec(2) show ?thesis by (auto simp: is_quarantined_def sandbox_slot_def)
  qed
  have stuck: False
    if "length ?cands \<le> batch" "sandbox_slot sid t = Some slot" "slot_is_stuck now slot" for sid slot
  proof (cases "sid \<in> fst ` set (take batch ?cands)")
    case True
    with spec(2) that(2,3) show ?thesis
      by (auto simp: is_quarantined_def sandbox_slot_def slot_is_stuck_def)
  next
    case False
    with spec(4) that(2,3) have "sid \<in> set (map fst ?cands)"
      unfolding candidates_set [OF inv] by (auto simp: sandbox_slot_def)
    with False all [OF that(1)] show ?thesis by simp
  qed
  have "\<forall>sid \<in> fst ` set (take batch ?cands).
      \<exists>slot. sandbox_slot sid t = Some slot \<and> slot_state slot = SlotQuarantined"
    using spec(2) by (auto simp: is_quarantined_def sandbox_slot_def)
  moreover have "\<forall>sid. sid \<notin> fst ` set (take batch ?cands) \<longrightarrow> sandbox_slot sid t = sandbox_slot sid s"
    using spec(4) by (simp add: sandbox_slot_def)
  ultimately show ?thesis
    using res spec(1,5) expired stuck by (intro exI [of _ t] exI [of _ report]) (simp, blast)
qed

theorem reconcile_is_bounded_and_complete_witness:
  "\<exists>t report. sandbox_reconcile_pool_slots 500 8 demo_claimed = (t, Inr report) \<and> rep_examined report \<le> 8"
  using reconcile_is_bounded_and_complete [OF demo_reachable(3), of 8 500] by auto

text \<open>
  Slot reconciliation is fair between tenants: when the batch has room for one claim of every
  tenant with an expired active claim, every such tenant has a slot quarantined, however many
  expired claims another tenant holds.
\<close>
theorem reconcile_is_tenant_fair:
  assumes "pool_reachable s" "0 < batch" "batch \<le> 100"
    and "card {claim_tenant_id c | cid c. sandbox_claim cid s = Some c
            \<and> is_active_claim_state (claim_state c) \<and> claim_is_expired_at c now} \<le> batch"
    and "sandbox_claim cid s = Some c" "is_active_claim_state (claim_state c)"
    and "claim_is_expired_at c now"
  shows "\<exists>d cid' slot. sandbox_claim cid' s = Some d \<and> claim_tenant_id d = claim_tenant_id c
    \<and> is_active_claim_state (claim_state d) \<and> claim_is_expired_at d now
    \<and> sandbox_slot (claim_slot_id d) (fst (sandbox_reconcile_pool_slots now batch s)) = Some slot
    \<and> slot_state slot = SlotQuarantined"
proof -
  note inv = pool_reachable_inv [OF assms(1)]
  let ?groups = "expired_groups now s" and ?cs = "map snd (reg_claims s)"
  let ?cands = "reconcile_candidates now s"
  have vals: "d \<in> set ?cs \<longleftrightarrow> (\<exists>k. btm_get (reg_claims s) k = Some d)" for d
    using btm.values_iff [OF pool_invD(2) [OF inv], of d] by simp
  have expired: "t \<in> {claim_tenant_id c | cid c. sandbox_claim cid s = Some c
      \<and> is_active_claim_state (claim_state c) \<and> claim_is_expired_at c now}
      \<longleftrightarrow> tenant_expired now ?cs t \<noteq> []" for t
    unfolding tenant_expired_def map_is_Nil_conv filter_empty_conv expired_claim_def
    by (force simp: sandbox_claim_def btm.entries_get [OF pool_invD(2) [OF inv], symmetric])
  then have tenants: "{claim_tenant_id c | cid c. sandbox_claim cid s = Some c
      \<and> is_active_claim_state (claim_state c) \<and> claim_is_expired_at c now} =
      {t. tenant_expired now ?cs t \<noteq> []}" by blast
  have "length ?groups = card {t. btm_get (expired_by_tenant now ?cs []) t \<noteq> None}"
    using btm.length_entries [OF expired_by_tenant_ok [of "[]" now ?cs]]
    by (simp add: expired_groups_def)
  also have "\<dots> = card {t. tenant_expired now ?cs t \<noteq> []}"
    by (simp add: expired_by_tenant_get)
  finally have few: "length ?groups \<le> batch"
    using assms(4) by (simp add: tenants)
  let ?g = "tenant_expired now ?cs (claim_tenant_id c)"
  have g: "?g \<noteq> []" using expired [of "claim_tenant_id c"] assms(5-7) by blast
  then have group: "?g \<in> set ?groups" by (auto simp: expired_groups_iff)
  have heads: "take (length ?groups) (map fst ?cands) = map hd ?groups"
    by (rule candidates_heads)
  have "hd ?g \<in> set (take batch (map fst ?cands))"
  proof -
    have "hd ?g \<in> set (take (length ?groups) (map fst ?cands))" using heads group by simp
    then show ?thesis by (rule set_mp [OF set_take_subset_set_take [OF few]])
  qed
  then have taken: "hd ?g \<in> fst ` set (take batch ?cands)" by (simp add: take_map)
  have "hd ?g \<in> set ?g" using g by simp
  moreover have "\<exists>d \<in> set ?cs. expired_claim now d \<and> claim_tenant_id d = claim_tenant_id c
      \<and> claim_slot_id d = k" if "k \<in> set ?g" for k
    using that by (auto simp: tenant_expired_def)
  ultimately obtain d where d: "d \<in> set ?cs" "expired_claim now d"
    "claim_tenant_id d = claim_tenant_id c" "claim_slot_id d = hd ?g" by blast
  obtain t report where run: "reconcile_visit batch now ?cands [] \<lparr>rep_examined = 0, rep_quarantined = []\<rparr> s = (t, report)"
    by force
  have serv: "\<forall>c \<in> set ?cands. serviceable s (fst c)"
    using candidates_serviceable [OF inv] by auto
  have "is_quarantined t (hd ?g)"
    using reconcile_visit_spec(2) [OF inv serv _ _ run] taken by auto
  moreover have "fst (sandbox_reconcile_pool_slots now batch s) = t"
    using assms(2,3) run
    by (simp add: sandbox_reconcile_pool_slots_def sandbox_pool_reconciliation_batch_size_max_def)
  ultimately show ?thesis
    using d vals by (auto simp: is_quarantined_def sandbox_slot_def sandbox_claim_def expired_claim_def)
qed

theorem reconcile_is_tenant_fair_witness:
  "\<exists>d cid' slot. sandbox_claim cid' demo_claimed = Some d \<and> claim_tenant_id d = ''tenant''
    \<and> sandbox_slot (claim_slot_id d) (fst (sandbox_reconcile_pool_slots 162 1 demo_claimed)) = Some slot
    \<and> slot_state slot = SlotQuarantined"
proof -
  have c: "sandbox_claim ''sandbox_pool_claim_1'' demo_claimed = Some (demo_bound ClaimBound 0)"
    "is_active_claim_state (claim_state (demo_bound ClaimBound 0))"
    "claim_is_expired_at (demo_bound ClaimBound 0) 162"
    "claim_tenant_id (demo_bound ClaimBound 0) = ''tenant''"
    by (simp_all add: sandbox_claim_def demo_claim_result(2) btm_get_def demo_bound_def
        is_active_claim_state_def claim_bound_def demo_claim_def claim_is_expired_at_def
        u64_saturating_add_def)
  let ?tenants = "{claim_tenant_id c | cid c. sandbox_claim cid demo_claimed = Some c
      \<and> is_active_claim_state (claim_state c) \<and> claim_is_expired_at c 162}"
  have "?tenants \<subseteq> {''tenant''}"
    using c(4) by (auto simp: sandbox_claim_def demo_claim_result(2) btm_get_def split: if_splits)
  from card_mono [OF _ this] have "card ?tenants \<le> 1" by simp
  from reconcile_is_tenant_fair [OF demo_reachable(3) _ _ this c(1-3)] c(4)
  show ?thesis
    by auto
qed

text \<open>
  A target reconciliation reads only: it refuses more than 100 targets or a target above 1000
  ready slots, and otherwise plans, per target, at most the missing ready slots of that profile and,
  over all targets of one node, at most 16 refills.
\<close>
theorem refill_plan_respects_budgets:
  shows "(length ts \<le> 100 \<and> (\<forall>t \<in> set ts. tgt_ready_target t \<le> 1000) \<longleftrightarrow>
            (\<exists>report. sandbox_reconcile_pool_targets ts s = Inr report))
    \<and> (\<forall>report. sandbox_reconcile_pool_targets ts s = Inr report \<longrightarrow>
         trep_examined_profiles report = length ts
         \<and> (\<forall>node. planned_for node (trep_refill_actions report) \<le> 16)
         \<and> (\<forall>a \<in> set (trep_refill_actions report). \<exists>t \<in> set ts.
               act_profile_id a = tgt_profile_id t \<and> act_node_reference a = tgt_node_reference t
               \<and> 0 < act_refill_count a
               \<and> act_refill_count a \<le> unat (tgt_ready_target t) - target_ready_count t s))"
proof -
  have "planned_for node (plan_refills s ts []) \<le> 16" for node
    using plan_refills_budget [of node s ts "[]"] by simp
  moreover have "\<exists>t \<in> set ts. act_profile_id a = tgt_profile_id t \<and> act_node_reference a = tgt_node_reference t
      \<and> 0 < act_refill_count a \<and> act_refill_count a \<le> unat (tgt_ready_target t) - target_ready_count t s"
    if "a \<in> set (plan_refills s ts [])" for a
    using plan_refills_member [OF that] by (simp add: target_deficit_def)
  moreover have "(length ts \<le> 100 \<and> (\<forall>t \<in> set ts. tgt_ready_target t \<le> 1000) \<longleftrightarrow>
            (\<exists>report. sandbox_reconcile_pool_targets ts s = Inr report))"
    by (auto simp: sandbox_reconcile_pool_targets_def sandbox_pool_reconciliation_batch_size_max_def
        sandbox_pool_per_profile_target_max_def not_less) (meson not_le)
  ultimately show ?thesis
    by (auto simp: sandbox_reconcile_pool_targets_def split: if_splits)
qed

theorem refill_plan_respects_budgets_witness:
  "\<exists>report. sandbox_reconcile_pool_targets
      [\<lparr>tgt_profile_id = ''profile'', tgt_node_reference = ''node'', tgt_ready_target = 3\<rparr>] demo_claimed
      = Inr report"
  using refill_plan_respects_budgets
    [of "[\<lparr>tgt_profile_id = ''profile'', tgt_node_reference = ''node'', tgt_ready_target = 3\<rparr>]" demo_claimed]
  by simp

section \<open>Capacity\<close>

text \<open>
  A registry never holds more than 128 slots. Preparing succeeds exactly when the identity is
  new, there is room, the capacity revision is not negative, and non-empty warm evidence is present
  precisely for the warm micro-VM class; a full registry answers with the retryable exhausted error
  and a retry delay of 30 seconds.
\<close>
theorem prepare_is_bounded:
  assumes "pool_reachable s"
  shows "length (reg_slots s) \<le> 128
    \<and> ((\<exists>t slot. sandbox_prepare_pool_slot now r s = (t, Inr slot)) \<longleftrightarrow>
         sandbox_slot (prep_slot_id r) s = None \<and> length (reg_slots s) < 128
         \<and> 0 \<le> prep_capacity_revision r
         \<and> (if prep_class r = WarmMicroVmSlot then prep_warm_evidence r \<notin> {None, Some []}
            else prep_warm_evidence r = None))
    \<and> (length (reg_slots s) = 128 \<and> sandbox_slot (prep_slot_id r) s = None
         \<and> prep_class r \<noteq> WarmMicroVmSlot \<and> prep_warm_evidence r = None \<longrightarrow>
         sandbox_prepare_pool_slot now r s = (s, Inl (SandboxPoolExhausted (RetryAfter 30))))"
proof -
  have "length (reg_slots s) \<le> 128"
    using pool_invD(9) [OF pool_reachable_inv [OF assms]] by (simp add: inv_bounds_def pool_bounds)
  then show ?thesis
    by (auto simp: sandbox_prepare_pool_slot_def sandbox_pool_slot_new_def sandbox_slot_def
        btm_contains_def pool_bounds retry_after_new_def split: option.splits)
qed

theorem prepare_is_bounded_witness:
  "length (reg_slots demo_claimed) \<le> 128
   \<and> (\<exists>t slot. sandbox_prepare_pool_slot 200 (demo_prepare\<lparr>prep_slot_id := ''slot-b''\<rparr>) demo_claimed
        = (t, Inr slot))"
  using prepare_is_bounded [OF demo_reachable(3), of 200 "demo_prepare\<lparr>prep_slot_id := ''slot-b''\<rparr>"]
  by (simp add: demo_prepare_def sandbox_slot_def demo_claim_result(2) btm_get_def)

end
