(* ===== verification/Txn_Types.thy ===== *)
theory Txn_Types
  imports Sandbox_Prelude
begin

text \<open>
  Data of the workspace-runtime transaction control plane (crate
  \<open>sdkwork-intelligence-sandbox-transaction-control\<close>): bounds, errors, the 21 orchestration stages
  and their completion ledger, the transaction state machine, the checkpoint candidate, and the
  compensation windows (\<open>bounds.rs\<close>, \<open>error.rs\<close>, \<open>stage.rs\<close>, \<open>state.rs\<close>, \<open>checkpoint.rs\<close>,
  \<open>compensation.rs\<close>).
\<close>

section \<open>Bounds and errors\<close>

definition sandbox_orchestration_stage_count_max :: nat where
  "sandbox_orchestration_stage_count_max = 32"
definition sandbox_retry_after_ms_max :: u64 where
  "sandbox_retry_after_ms_max = 300000"
definition sandbox_reconciliation_batch_size_max :: nat where
  "sandbox_reconciliation_batch_size_max = 100"
definition sandbox_reference_max_length :: nat where
  "sandbox_reference_max_length = 512"

datatype sandbox_workspace_runtime_error =
  RuntimeInvalidRequest | RuntimeAuthorizationDenied | RuntimeRevisionConflict
| RuntimeExecutionPlacementStale | RuntimeWriterConflict | RuntimeAdmissionRejected
| RuntimeCapacityUnavailable | RuntimeStaleFencing | RuntimeAttachmentFailed
| RuntimeCommandUnavailable | RuntimeCheckpointFailed | RuntimeCleanupIncomplete
| RuntimeQuarantined | RuntimeInternalFailure

type_synonym 'a runtime_result = "sandbox_workspace_runtime_error + 'a"

fun runtime_error_code :: "sandbox_workspace_runtime_error \<Rightarrow> string" where
  "runtime_error_code RuntimeInvalidRequest = ''sandbox_workspace_runtime_invalid_request''"
| "runtime_error_code RuntimeAuthorizationDenied = ''sandbox_workspace_runtime_authorization_denied''"
| "runtime_error_code RuntimeRevisionConflict = ''sandbox_workspace_runtime_revision_conflict''"
| "runtime_error_code RuntimeExecutionPlacementStale =
     ''sandbox_workspace_runtime_execution_placement_stale''"
| "runtime_error_code RuntimeWriterConflict = ''sandbox_workspace_runtime_writer_conflict''"
| "runtime_error_code RuntimeAdmissionRejected = ''sandbox_workspace_runtime_admission_rejected''"
| "runtime_error_code RuntimeCapacityUnavailable = ''sandbox_workspace_runtime_capacity_unavailable''"
| "runtime_error_code RuntimeStaleFencing = ''sandbox_workspace_runtime_stale_fencing''"
| "runtime_error_code RuntimeAttachmentFailed = ''sandbox_workspace_runtime_attachment_failed''"
| "runtime_error_code RuntimeCommandUnavailable = ''sandbox_workspace_runtime_command_unavailable''"
| "runtime_error_code RuntimeCheckpointFailed = ''sandbox_workspace_runtime_checkpoint_failed''"
| "runtime_error_code RuntimeCleanupIncomplete = ''sandbox_workspace_runtime_cleanup_incomplete''"
| "runtime_error_code RuntimeQuarantined = ''sandbox_workspace_runtime_quarantined''"
| "runtime_error_code RuntimeInternalFailure = ''sandbox_workspace_runtime_internal_failure''"

definition runtime_error_retryable :: "sandbox_workspace_runtime_error \<Rightarrow> bool" where
  "runtime_error_retryable e \<longleftrightarrow> e \<in> set
     [RuntimeExecutionPlacementStale, RuntimeWriterConflict, RuntimeAdmissionRejected,
      RuntimeCapacityUnavailable, RuntimeStaleFencing, RuntimeAttachmentFailed,
      RuntimeCommandUnavailable, RuntimeCheckpointFailed, RuntimeCleanupIncomplete,
      RuntimeInternalFailure]"

definition txn_validated_reference :: "string \<Rightarrow> unit runtime_result" where
  "txn_validated_reference v =
     (if opaque_text sandbox_reference_max_length v then Inr () else Inl RuntimeInvalidRequest)"

section \<open>Orchestration stages\<close>

datatype sandbox_orchestration_stage =
  WorkspaceAuthorizationVerified | KernelPlacementVerified | AdmissionConfirmed
| CapacityReservationConfirmed | RuntimeBindingFenced | PoolClaimedOrPathSelected
| FreshGrantsVerified | ProviderAllocateAndStart | ProjectionAttached
| EffectiveReadinessVerified | EnvironmentReady | CommandAdmissionOpened
| CommandAdmissionFrozenAndDrained | WriteAccessRevokedAndFlushed | CheckpointCandidateDurable
| CheckpointHandoffDurable | ProviderAndDescendantsStopped | ProjectionDetached
| RuntimeSanitized | ResidueScanPassed | CapacityAndAdmissionReleased

definition sandbox_orchestration_stages :: "sandbox_orchestration_stage list" where
  "sandbox_orchestration_stages =
     [WorkspaceAuthorizationVerified, KernelPlacementVerified, AdmissionConfirmed,
      CapacityReservationConfirmed, RuntimeBindingFenced, PoolClaimedOrPathSelected,
      FreshGrantsVerified, ProviderAllocateAndStart, ProjectionAttached,
      EffectiveReadinessVerified, EnvironmentReady, CommandAdmissionOpened,
      CommandAdmissionFrozenAndDrained, WriteAccessRevokedAndFlushed, CheckpointCandidateDurable,
      CheckpointHandoffDurable, ProviderAndDescendantsStopped, ProjectionDetached,
      RuntimeSanitized, ResidueScanPassed, CapacityAndAdmissionReleased]"

fun sandbox_position :: "sandbox_orchestration_stage \<Rightarrow> nat" where
  "sandbox_position WorkspaceAuthorizationVerified = 1"
| "sandbox_position KernelPlacementVerified = 2"
| "sandbox_position AdmissionConfirmed = 3"
| "sandbox_position CapacityReservationConfirmed = 4"
| "sandbox_position RuntimeBindingFenced = 5"
| "sandbox_position PoolClaimedOrPathSelected = 6"
| "sandbox_position FreshGrantsVerified = 7"
| "sandbox_position ProviderAllocateAndStart = 8"
| "sandbox_position ProjectionAttached = 9"
| "sandbox_position EffectiveReadinessVerified = 10"
| "sandbox_position EnvironmentReady = 11"
| "sandbox_position CommandAdmissionOpened = 12"
| "sandbox_position CommandAdmissionFrozenAndDrained = 13"
| "sandbox_position WriteAccessRevokedAndFlushed = 14"
| "sandbox_position CheckpointCandidateDurable = 15"
| "sandbox_position CheckpointHandoffDurable = 16"
| "sandbox_position ProviderAndDescendantsStopped = 17"
| "sandbox_position ProjectionDetached = 18"
| "sandbox_position RuntimeSanitized = 19"
| "sandbox_position ResidueScanPassed = 20"
| "sandbox_position CapacityAndAdmissionReleased = 21"

fun sandbox_name_const :: "sandbox_orchestration_stage \<Rightarrow> string" where
  "sandbox_name_const WorkspaceAuthorizationVerified =
     ''sandbox_workspace_authorization_and_revision_verified''"
| "sandbox_name_const KernelPlacementVerified =
     ''sandbox_kernel_execution_placement_reference_and_generation_verified''"
| "sandbox_name_const AdmissionConfirmed =
     ''sandbox_admission_reservation_confirmed_or_local_policy_admitted''"
| "sandbox_name_const CapacityReservationConfirmed =
     ''sandbox_verified_node_and_capacity_reservation_confirmed_or_local_capacity_marked_not_applicable''"
| "sandbox_name_const RuntimeBindingFenced = ''sandbox_runtime_binding_persisted_and_fenced''"
| "sandbox_name_const PoolClaimedOrPathSelected =
     ''sandbox_pool_claimed_or_cold_or_local_path_selected''"
| "sandbox_name_const FreshGrantsVerified =
     ''sandbox_fresh_identity_workspace_network_and_resource_grants_verified''"
| "sandbox_name_const ProviderAllocateAndStart = ''sandbox_provider_allocate_and_start''"
| "sandbox_name_const ProjectionAttached =
     ''sandbox_workspace_projection_attached_and_guest_or_host_acknowledged''"
| "sandbox_name_const EffectiveReadinessVerified =
     ''sandbox_effective_workspace_network_resource_and_command_policy_readiness_verified''"
| "sandbox_name_const EnvironmentReady = ''sandbox_environment_ready''"
| "sandbox_name_const CommandAdmissionOpened = ''sandbox_command_admission_opened''"
| "sandbox_name_const CommandAdmissionFrozenAndDrained =
     ''sandbox_command_admission_frozen_and_active_commands_drained''"
| "sandbox_name_const WriteAccessRevokedAndFlushed =
     ''sandbox_workspace_write_access_revoked_and_writes_flushed''"
| "sandbox_name_const CheckpointCandidateDurable =
     ''sandbox_workspace_checkpoint_candidate_made_durable_or_read_only_noop_recorded''"
| "sandbox_name_const CheckpointHandoffDurable =
     ''sandbox_checkpoint_handoff_made_durable_or_read_only_noop_recorded''"
| "sandbox_name_const ProviderAndDescendantsStopped = ''sandbox_provider_and_descendants_stopped''"
| "sandbox_name_const ProjectionDetached = ''sandbox_workspace_projection_detached''"
| "sandbox_name_const RuntimeSanitized =
     ''sandbox_network_resource_and_ephemeral_runtime_sanitized''"
| "sandbox_name_const ResidueScanPassed =
     ''sandbox_cross_tenant_residue_scan_passed_or_local_zero_residue_verified''"
| "sandbox_name_const CapacityAndAdmissionReleased =
     ''sandbox_pool_capacity_and_admission_released_or_local_noop_recorded''"

definition sandbox_name :: "sandbox_orchestration_stage \<Rightarrow> string" where
  "sandbox_name st = sandbox_name_const (sandbox_orchestration_stages ! (sandbox_position st - 1))"

text \<open>The position of a stage is its one-based index in the ordered list.\<close>

lemma length_stages [simp]: "length sandbox_orchestration_stages = 21"
  by (simp add: sandbox_orchestration_stages_def)

lemma position_range: "1 \<le> sandbox_position st \<and> sandbox_position st \<le> 21"
  by (cases st) simp_all

lemma stages_nth: "sandbox_orchestration_stages ! (sandbox_position st - 1) = st"
  by (cases st) (simp_all add: sandbox_orchestration_stages_def)

lemma sandbox_name_eq: "sandbox_name st = sandbox_name_const st"
  unfolding sandbox_name_def stages_nth ..

lemma position_inject: "sandbox_position a = sandbox_position b \<longleftrightarrow> a = b"
  using stages_nth by metis

lemma in_stages [simp]: "st \<in> set sandbox_orchestration_stages"
  using stages_nth [of st] position_range [of st] nth_mem [of "sandbox_position st - 1" sandbox_orchestration_stages]
  by auto

lemma positions: "map sandbox_position sandbox_orchestration_stages = [1..<22]"
  by (simp add: sandbox_orchestration_stages_def upt_rec)

lemma position_surj: "1 \<le> p \<Longrightarrow> p \<le> 21 \<Longrightarrow> \<exists>st. sandbox_position st = p"
proof -
  assume "1 \<le> p" "p \<le> 21"
  then have "p \<in> set (map sandbox_position sandbox_orchestration_stages)"
    unfolding positions by simp
  then show ?thesis by auto
qed

section \<open>Evidence and the completion ledger\<close>

datatype sandbox_stage_evidence =
  EvidenceCompleted (evidence_fingerprint: string)
| EvidenceNotApplicable (evidence_fingerprint: string)

definition evidence_validated :: "sandbox_stage_evidence \<Rightarrow> unit runtime_result" where
  "evidence_validated ev =
     (if hex_fingerprint (evidence_fingerprint ev) then Inr () else Inl RuntimeInvalidRequest)"

record sandbox_orchestration_ledger =
  led_completed :: "sandbox_stage_evidence option list"
  led_highest :: nat

definition ledger_new :: sandbox_orchestration_ledger where
  "ledger_new =
     \<lparr>led_completed = replicate sandbox_orchestration_stage_count_max None, led_highest = 0\<rparr>"

definition ledger_completed_ref ::
  "sandbox_orchestration_ledger \<Rightarrow> sandbox_orchestration_stage \<Rightarrow> sandbox_stage_evidence option" where
  "ledger_completed_ref l st = led_completed l ! (sandbox_position st - 1)"

definition ledger_is_completed :: "sandbox_orchestration_ledger \<Rightarrow> sandbox_orchestration_stage \<Rightarrow> bool" where
  "ledger_is_completed l st = (led_completed l ! (sandbox_position st - 1) \<noteq> None)"

definition ledger_record ::
  "sandbox_orchestration_stage \<Rightarrow> sandbox_stage_evidence \<Rightarrow> sandbox_orchestration_ledger
   \<Rightarrow> sandbox_orchestration_ledger runtime_result" where
  "ledger_record st ev l =
     (case evidence_validated ev of
        Inl e \<Rightarrow> Inl e
      | Inr _ \<Rightarrow>
          let position = sandbox_position st in
          if sandbox_orchestration_stage_count_max < position then Inl RuntimeInvalidRequest
          else if led_completed l ! (position - 1) \<noteq> None then Inl RuntimeInvalidRequest
          else if position \<noteq> led_highest l + 1 then Inl RuntimeInvalidRequest
          else Inr \<lparr>led_completed = (led_completed l)[position - 1 := Some ev],
                    led_highest = position\<rparr>)"

text \<open>
  A ledger is well formed when exactly the positions up to the highest one carry evidence, all of
  it with a valid fingerprint.
\<close>

definition ledger_ok :: "sandbox_orchestration_ledger \<Rightarrow> bool" where
  "ledger_ok l \<longleftrightarrow>
     length (led_completed l) = sandbox_orchestration_stage_count_max \<and> led_highest l \<le> 21
     \<and> (\<forall>i < sandbox_orchestration_stage_count_max.
          (case led_completed l ! i of
             None \<Rightarrow> led_highest l \<le> i
           | Some ev \<Rightarrow> i < led_highest l \<and> hex_fingerprint (evidence_fingerprint ev)))"

lemma ledger_new_ok: "ledger_ok ledger_new"
  by (simp add: ledger_ok_def ledger_new_def)

lemma ledger_okD:
  assumes "ledger_ok l" "i < 32"
  shows "led_completed l ! i \<noteq> None \<longleftrightarrow> i < led_highest l"
  using assms by (auto simp: ledger_ok_def sandbox_orchestration_stage_count_max_def split: option.splits)

lemma ledger_completed_iff:
  assumes "ledger_ok l"
  shows "ledger_completed_ref l st \<noteq> None \<longleftrightarrow> sandbox_position st \<le> led_highest l"
proof -
  have "sandbox_position st - 1 < 32" using position_range [of st] by linarith
  then show ?thesis
    using ledger_okD [OF assms] position_range [of st] unfolding ledger_completed_ref_def by auto
qed

text \<open>Recording succeeds exactly for the next stage of the order.\<close>

lemma ledger_record_iff:
  assumes "ledger_ok l"
  shows "ledger_record st ev l = Inr l' \<longleftrightarrow>
    hex_fingerprint (evidence_fingerprint ev) \<and> sandbox_position st = Suc (led_highest l)
    \<and> l' = \<lparr>led_completed = (led_completed l)[led_highest l := Some ev],
            led_highest = Suc (led_highest l)\<rparr>"
  using ledger_okD [OF assms, of "led_highest l"] position_range [of st] assms
  by (auto simp: ledger_record_def evidence_validated_def Let_def ledger_ok_def
      sandbox_orchestration_stage_count_max_def)

lemma ledger_record_ok:
  assumes "ledger_ok l" "ledger_record st ev l = Inr l'"
  shows "ledger_ok l'"
proof -
  have *: "hex_fingerprint (evidence_fingerprint ev)" "sandbox_position st = Suc (led_highest l)"
    "l' = \<lparr>led_completed = (led_completed l)[led_highest l := Some ev], led_highest = Suc (led_highest l)\<rparr>"
    using assms(2) ledger_record_iff [OF assms(1)] by auto
  have high: "led_highest l < 21" using *(2) position_range [of st] by simp
  have len: "length (led_completed l) = 32"
    using assms(1) by (simp add: ledger_ok_def sandbox_orchestration_stage_count_max_def)
  have "case led_completed l' ! i of None \<Rightarrow> led_highest l' \<le> i
      | Some ev \<Rightarrow> i < led_highest l' \<and> hex_fingerprint (evidence_fingerprint ev)" if "i < 32" for i
  proof (cases "i = led_highest l")
    case True
    with * len high show ?thesis by simp
  next
    case False
    have "case led_completed l ! i of None \<Rightarrow> led_highest l \<le> i
      | Some ev \<Rightarrow> i < led_highest l \<and> hex_fingerprint (evidence_fingerprint ev)"
      using assms(1) that by (simp add: ledger_ok_def sandbox_orchestration_stage_count_max_def)
    with False * show ?thesis by (auto split: option.splits)
  qed
  moreover have "length (led_completed l') = 32" "led_highest l' \<le> 21"
    using * len high by simp_all
  ultimately show ?thesis
    unfolding ledger_ok_def sandbox_orchestration_stage_count_max_def by blast
qed

section \<open>Transaction states\<close>

datatype sandbox_transaction_state =
  TxnRequested | TxnAdmitted | TxnCapacityReserved | TxnRuntimeBound | TxnWorkspaceAttaching
| TxnReady | TxnExecuting | TxnCheckpointing | TxnCompensating | TxnReleased | TxnQuarantined

fun txn_state_as_str :: "sandbox_transaction_state \<Rightarrow> string" where
  "txn_state_as_str TxnRequested = ''requested''"
| "txn_state_as_str TxnAdmitted = ''admitted''"
| "txn_state_as_str TxnCapacityReserved = ''capacity_reserved''"
| "txn_state_as_str TxnRuntimeBound = ''runtime_bound''"
| "txn_state_as_str TxnWorkspaceAttaching = ''workspace_attaching''"
| "txn_state_as_str TxnReady = ''ready''"
| "txn_state_as_str TxnExecuting = ''executing''"
| "txn_state_as_str TxnCheckpointing = ''checkpointing''"
| "txn_state_as_str TxnCompensating = ''compensating''"
| "txn_state_as_str TxnReleased = ''released''"
| "txn_state_as_str TxnQuarantined = ''quarantined''"

definition txn_state_parse :: "string \<Rightarrow> sandbox_transaction_state option" where
  "txn_state_parse v =
     (if v = ''requested'' then Some TxnRequested
      else if v = ''admitted'' then Some TxnAdmitted
      else if v = ''capacity_reserved'' then Some TxnCapacityReserved
      else if v = ''runtime_bound'' then Some TxnRuntimeBound
      else if v = ''workspace_attaching'' then Some TxnWorkspaceAttaching
      else if v = ''ready'' then Some TxnReady
      else if v = ''executing'' then Some TxnExecuting
      else if v = ''checkpointing'' then Some TxnCheckpointing
      else if v = ''compensating'' then Some TxnCompensating
      else if v = ''released'' then Some TxnReleased
      else if v = ''quarantined'' then Some TxnQuarantined
      else None)"

interpretation txn_state_names: wire_names txn_state_as_str txn_state_parse
proof
  show "txn_state_parse (txn_state_as_str x) = Some x" for x
    by (cases x) (simp_all add: txn_state_parse_def)
  show "txn_state_parse s = Some x \<Longrightarrow> txn_state_as_str x = s" for s x
    by (auto simp: txn_state_parse_def split: if_splits)
qed

definition txn_can_transition_to :: "sandbox_transaction_state \<Rightarrow> sandbox_transaction_state \<Rightarrow> bool" where
  "txn_can_transition_to from next \<longleftrightarrow> (from, next) \<in> set
     [(TxnRequested, TxnAdmitted), (TxnRequested, TxnCompensating), (TxnRequested, TxnQuarantined),
      (TxnAdmitted, TxnCapacityReserved), (TxnAdmitted, TxnCompensating), (TxnAdmitted, TxnQuarantined),
      (TxnCapacityReserved, TxnRuntimeBound), (TxnCapacityReserved, TxnCompensating),
      (TxnCapacityReserved, TxnQuarantined), (TxnRuntimeBound, TxnWorkspaceAttaching),
      (TxnRuntimeBound, TxnCompensating), (TxnRuntimeBound, TxnQuarantined),
      (TxnWorkspaceAttaching, TxnReady), (TxnWorkspaceAttaching, TxnCompensating),
      (TxnWorkspaceAttaching, TxnQuarantined), (TxnReady, TxnExecuting), (TxnReady, TxnCompensating),
      (TxnReady, TxnQuarantined), (TxnExecuting, TxnCheckpointing), (TxnExecuting, TxnCompensating),
      (TxnExecuting, TxnQuarantined), (TxnCheckpointing, TxnReleased),
      (TxnCheckpointing, TxnCompensating), (TxnCheckpointing, TxnQuarantined),
      (TxnCompensating, TxnReleased), (TxnCompensating, TxnQuarantined)]"

definition txn_terminal :: "sandbox_transaction_state \<Rightarrow> bool" where
  "txn_terminal st \<longleftrightarrow> st = TxnReleased \<or> st = TxnQuarantined"

fun txn_rank :: "sandbox_transaction_state \<Rightarrow> nat" where
  "txn_rank TxnRequested = 0"
| "txn_rank TxnAdmitted = 1"
| "txn_rank TxnCapacityReserved = 2"
| "txn_rank TxnRuntimeBound = 3"
| "txn_rank TxnWorkspaceAttaching = 4"
| "txn_rank TxnReady = 5"
| "txn_rank TxnExecuting = 6"
| "txn_rank TxnCheckpointing = 7"
| "txn_rank TxnCompensating = 8"
| "txn_rank TxnReleased = 9"
| "txn_rank TxnQuarantined = 9"

interpretation txn_table: forward_table txn_can_transition_to txn_terminal txn_rank
  by unfold_locales (auto simp: txn_can_transition_to_def txn_terminal_def)

section \<open>Checkpoint candidates\<close>

datatype sandbox_candidate_promotion = Promoted | AlreadyPromoted

record sandbox_checkpoint_candidate =
  cand_id :: string
  cand_workspace_id :: string
  cand_source_revision_ref :: string
  cand_candidate_revision_ref :: string
  cand_transaction_id :: string
  cand_session_id :: string
  cand_runtime_binding_id :: string
  cand_fencing_token :: i64
  cand_content_digest :: string
  cand_content_size_bytes :: u64
  cand_storage_authority_ref :: string
  cand_created_at :: u64
  cand_trace_id :: string
  cand_sealed :: bool
  cand_promoted_expected_source_revision_ref :: "string option"

definition candidate_new ::
  "string \<Rightarrow> string \<Rightarrow> string \<Rightarrow> string \<Rightarrow> string \<Rightarrow> string \<Rightarrow> string \<Rightarrow> i64 \<Rightarrow> string \<Rightarrow> u64
   \<Rightarrow> string \<Rightarrow> u64 \<Rightarrow> string \<Rightarrow> sandbox_checkpoint_candidate runtime_result" where
  "candidate_new cid workspace source candidate txn session binding token digest bytes storage created trace =
     (let references_valid = list_all (opaque_text sandbox_reference_max_length)
            [cid, workspace, source, candidate, txn, session, binding, storage, trace];
          digest_valid = hex_fingerprint digest
      in if \<not> references_valid \<or> \<not> digest_valid \<or> token < 0 then Inl RuntimeInvalidRequest
         else Inr \<lparr>cand_id = cid, cand_workspace_id = workspace, cand_source_revision_ref = source,
                   cand_candidate_revision_ref = candidate, cand_transaction_id = txn,
                   cand_session_id = session, cand_runtime_binding_id = binding,
                   cand_fencing_token = token, cand_content_digest = digest,
                   cand_content_size_bytes = bytes, cand_storage_authority_ref = storage,
                   cand_created_at = created, cand_trace_id = trace, cand_sealed = False,
                   cand_promoted_expected_source_revision_ref = None\<rparr>)"

definition candidate_seal :: "sandbox_checkpoint_candidate \<Rightarrow> sandbox_checkpoint_candidate" where
  "candidate_seal c = c\<lparr>cand_sealed := True\<rparr>"

definition candidate_promote ::
  "string \<Rightarrow> sandbox_checkpoint_candidate
   \<Rightarrow> sandbox_checkpoint_candidate \<times> sandbox_candidate_promotion runtime_result" where
  "candidate_promote expected c =
     (if \<not> cand_sealed c then (c, Inl RuntimeCheckpointFailed)
      else
        (case cand_promoted_expected_source_revision_ref c of
           Some promoted \<Rightarrow>
             (c, if promoted = expected then Inr AlreadyPromoted else Inl RuntimeRevisionConflict)
         | None \<Rightarrow>
             if cand_source_revision_ref c \<noteq> expected then (c, Inl RuntimeRevisionConflict)
             else (c\<lparr>cand_promoted_expected_source_revision_ref := Some expected\<rparr>, Inr Promoted)))"

section \<open>Compensation\<close>

datatype sandbox_compensation_window =
  BeforeCapacityReservation | AfterCapacityBeforeAttachment | AfterAttachmentBeforeCommand
| DuringOrAfterWriteExecution

datatype sandbox_compensation_action =
  ReleaseAdmissionReservation | RecordTerminalOperationOutcome | ReleaseOrSanitizePoolClaim
| ReleaseCapacityReservation | RevokeClaimGrants | StopProviderAndDescendants
| DetachWorkspaceProjection | SanitizeRuntimeNetworkAndResources | ScanResidueBeforeRelease
| FreezeNewCommands | DrainOrCancelActiveCommands | RevokeWriteAccessAndFlush
| MakeCheckpointCandidateDurable | MakeCheckpointHandoffDurable | QuarantineTransactionAndCapacity

fun sandbox_required_actions :: "sandbox_compensation_window \<Rightarrow> sandbox_compensation_action list" where
  "sandbox_required_actions BeforeCapacityReservation =
     [ReleaseAdmissionReservation, RecordTerminalOperationOutcome]"
| "sandbox_required_actions AfterCapacityBeforeAttachment =
     [ReleaseOrSanitizePoolClaim, ReleaseCapacityReservation, ReleaseAdmissionReservation,
      RecordTerminalOperationOutcome]"
| "sandbox_required_actions AfterAttachmentBeforeCommand =
     [RevokeClaimGrants, StopProviderAndDescendants, DetachWorkspaceProjection,
      SanitizeRuntimeNetworkAndResources, ScanResidueBeforeRelease]"
| "sandbox_required_actions DuringOrAfterWriteExecution =
     [FreezeNewCommands, DrainOrCancelActiveCommands, RevokeWriteAccessAndFlush,
      MakeCheckpointCandidateDurable, MakeCheckpointHandoffDurable, QuarantineTransactionAndCapacity]"

definition sandbox_window_for_completed_stage :: "nat \<Rightarrow> sandbox_compensation_window" where
  "sandbox_window_for_completed_stage completed =
     (let stage = (if completed = 0 then None
                   else if completed - 1 < length sandbox_orchestration_stages
                   then Some (sandbox_orchestration_stages ! (completed - 1)) else None)
      in case stage of
           None \<Rightarrow> BeforeCapacityReservation
         | Some st \<Rightarrow>
             if st \<in> set [ProjectionAttached, EffectiveReadinessVerified, EnvironmentReady,
                         CommandAdmissionOpened] then AfterAttachmentBeforeCommand
             else if st \<in> set [CommandAdmissionFrozenAndDrained, WriteAccessRevokedAndFlushed,
                              CheckpointCandidateDurable, CheckpointHandoffDurable,
                              ProviderAndDescendantsStopped, ProjectionDetached, RuntimeSanitized,
                              ResidueScanPassed] then DuringOrAfterWriteExecution
             else if st \<in> set [CapacityReservationConfirmed, RuntimeBindingFenced,
                              PoolClaimedOrPathSelected] then AfterCapacityBeforeAttachment
             else BeforeCapacityReservation)"

lemma window_of_position:
  "sandbox_window_for_completed_stage (sandbox_position st) =
     (if sandbox_position st \<in> {4..6} then AfterCapacityBeforeAttachment
      else if sandbox_position st \<in> {9..12} then AfterAttachmentBeforeCommand
      else if sandbox_position st \<in> {13..20} then DuringOrAfterWriteExecution
      else BeforeCapacityReservation)"
  by (cases st) (simp_all add: sandbox_window_for_completed_stage_def sandbox_orchestration_stages_def)

end
