(* ===== verification/Txn_Registry.thy ===== *)
theory Txn_Registry
  imports Txn_Types
begin

text \<open>
  The bounded workspace-transaction control registry (\<open>registry.rs\<close>): its state and its
  operations, each one critical section, as functions from the registry to the new registry and
  the result. The reading of the injected clock is the argument \<open>now\<close>.
\<close>

section \<open>Requests\<close>

datatype sandbox_workspace_mount_mode = ReadOnlyMount | ReadWriteMount

fun mount_checkpoint_policy :: "sandbox_workspace_mount_mode \<Rightarrow> string" where
  "mount_checkpoint_policy ReadOnlyMount = ''ReadOnlyNoCheckpoint''"
| "mount_checkpoint_policy ReadWriteMount = ''DurableCheckpointRequired''"

record sandbox_transaction_request =
  treq_transaction_id :: string
  treq_tenant_scope_hash :: string
  treq_workspace_id :: string
  treq_workspace_revision_ref :: string
  treq_authorization_grant_ref :: string
  treq_session_id :: string
  treq_placement_ref :: string
  treq_placement_generation :: u64
  treq_operation_id :: string
  treq_execution_profile_id :: string
  treq_required_capabilities :: "string list"
  treq_minimum_assurance :: string
  treq_workload_class_ref :: string
  treq_mount_mode :: sandbox_workspace_mount_mode
  treq_fingerprint :: string
  treq_fencing_token :: i64
  treq_deadline_at :: u64
  treq_trace_id :: string

definition txn_request_validated :: "sandbox_transaction_request \<Rightarrow> unit runtime_result" where
  "txn_request_validated r =
     (if \<not> list_all (\<lambda>v. txn_validated_reference v = Inr ())
            [treq_transaction_id r, treq_tenant_scope_hash r, treq_workspace_id r,
             treq_workspace_revision_ref r, treq_authorization_grant_ref r, treq_session_id r,
             treq_placement_ref r, treq_operation_id r, treq_execution_profile_id r,
             treq_workload_class_ref r, treq_trace_id r]
      then Inl RuntimeInvalidRequest
      else if \<not> hex_fingerprint (treq_fingerprint r) then Inl RuntimeInvalidRequest
      else if treq_fencing_token r < 0 then Inl RuntimeInvalidRequest
      else if \<not> list_all (\<lambda>v. txn_validated_reference v = Inr ()) (treq_required_capabilities r)
      then Inl RuntimeInvalidRequest
      else Inr ())"

datatype sandbox_terminal_outcome = OutcomeReleased | OutcomeQuarantined

section \<open>State\<close>

record sandbox_transaction_record =
  txr_state :: sandbox_transaction_state
  txr_version :: u64
  txr_fencing_token :: i64
  txr_request :: sandbox_transaction_request
  txr_ledger :: sandbox_orchestration_ledger
  txr_candidate :: "sandbox_checkpoint_candidate option"
  txr_handoff_durable :: bool

record txn_registry =
  txs_transactions :: "(string, sandbox_transaction_record) btree"
  txs_active_by_binding :: "(string, string) btree"
  txs_outcomes_by_operation :: "(string, sandbox_terminal_outcome) btree"
  txs_fingerprints_by_operation :: "(string, string) btree"
  txs_highest_token :: i64

definition txn_registry_default :: txn_registry where
  "txn_registry_default =
     \<lparr>txs_transactions = [], txs_active_by_binding = [], txs_outcomes_by_operation = [],
      txs_fingerprints_by_operation = [], txs_highest_token = 0\<rparr>"

record sandbox_transaction_handle =
  hnd_transaction_id :: string
  hnd_state :: sandbox_transaction_state
  hnd_fencing_token :: i64

definition txn_lookup :: "string \<Rightarrow> txn_registry \<Rightarrow> sandbox_transaction_record runtime_result" where
  "txn_lookup tid s =
     (case btm_get (txs_transactions s) tid of None \<Rightarrow> Inl RuntimeInvalidRequest | Some r \<Rightarrow> Inr r)"

definition txn_check_fencing :: "sandbox_transaction_record \<Rightarrow> i64 \<Rightarrow> unit runtime_result" where
  "txn_check_fencing r expected =
     (if expected \<noteq> txr_fencing_token r then Inl RuntimeStaleFencing else Inr ())"

definition put_record :: "string \<Rightarrow> sandbox_transaction_record \<Rightarrow> txn_registry \<Rightarrow> txn_registry" where
  "put_record tid r s = s\<lparr>txs_transactions := btm_insert tid r (txs_transactions s)\<rparr>"

definition next_version :: "sandbox_transaction_record \<Rightarrow> sandbox_transaction_record" where
  "next_version r = r\<lparr>txr_version := u64_saturating_add (txr_version r) 1\<rparr>"

section \<open>Begin\<close>

definition txn_fresh_record :: "sandbox_transaction_request \<Rightarrow> i64 \<Rightarrow> sandbox_transaction_record" where
  "txn_fresh_record r token =
     \<lparr>txr_state = TxnRequested, txr_version = 0, txr_fencing_token = token, txr_request = r,
      txr_ledger = ledger_new, txr_candidate = None, txr_handoff_durable = False\<rparr>"

definition sandbox_begin ::
  "u64 \<Rightarrow> sandbox_transaction_request \<Rightarrow> txn_registry \<Rightarrow> txn_registry \<times> sandbox_transaction_handle runtime_result" where
  "sandbox_begin now r s =
     (case txn_request_validated r of
        Inl e \<Rightarrow> (s, Inl e)
      | Inr _ \<Rightarrow>
     (case btm_get (txs_fingerprints_by_operation s) (treq_operation_id r) of
        Some recorded \<Rightarrow>
          if recorded = treq_fingerprint r then
            (s, case btm_get (txs_transactions s) (treq_transaction_id r) of
                  None \<Rightarrow> Inl RuntimeInvalidRequest
                | Some rec \<Rightarrow>
                    Inr \<lparr>hnd_transaction_id = treq_transaction_id (txr_request rec),
                         hnd_state = txr_state rec, hnd_fencing_token = txr_fencing_token rec\<rparr>)
          else (s, Inl RuntimeInvalidRequest)
      | None \<Rightarrow>
          if btm_contains (txs_transactions s) (treq_transaction_id r) then (s, Inl RuntimeInvalidRequest)
          else if btm_contains (txs_active_by_binding s) (treq_session_id r) then
            (s, Inl RuntimeWriterConflict)
          else if treq_fencing_token r < txs_highest_token s then (s, Inl RuntimeStaleFencing)
          else if sandbox_reconciliation_batch_size_max \<le> length (txs_transactions s) then
            (s, Inl RuntimeCapacityUnavailable)
          else if treq_deadline_at r \<le> now then (s, Inl RuntimeInvalidRequest)
          else
            (case i64_checked_succ (txs_highest_token s) of
               None \<Rightarrow> (s, Inl RuntimeInvalidRequest)
             | Some token \<Rightarrow>
                 (s\<lparr>txs_highest_token := token,
                    txs_fingerprints_by_operation :=
                      btm_insert (treq_operation_id r) (treq_fingerprint r)
                        (txs_fingerprints_by_operation s),
                    txs_active_by_binding :=
                      btm_insert (treq_session_id r) (treq_transaction_id r) (txs_active_by_binding s),
                    txs_transactions :=
                      btm_insert (treq_transaction_id r) (txn_fresh_record r token)
                        (txs_transactions s)\<rparr>,
                  Inr \<lparr>hnd_transaction_id = treq_transaction_id r, hnd_state = TxnRequested,
                       hnd_fencing_token = token\<rparr>))))"

section \<open>Stages\<close>

definition txn_state_for_stage ::
  "sandbox_transaction_record \<Rightarrow> sandbox_orchestration_stage \<Rightarrow> sandbox_transaction_state" where
  "txn_state_for_stage r st =
     (case st of
        AdmissionConfirmed \<Rightarrow> TxnAdmitted
      | CapacityReservationConfirmed \<Rightarrow> TxnCapacityReserved
      | RuntimeBindingFenced \<Rightarrow> TxnRuntimeBound
      | ProjectionAttached \<Rightarrow> TxnWorkspaceAttaching
      | EnvironmentReady \<Rightarrow> TxnReady
      | CommandAdmissionOpened \<Rightarrow> TxnExecuting
      | CommandAdmissionFrozenAndDrained \<Rightarrow> TxnCheckpointing
      | _ \<Rightarrow> txr_state r)"

text \<open>
  An error after the ledger write would leave the stage recorded: the model keeps that write, as
  the code does.
\<close>

definition sandbox_advance_stage ::
  "string \<Rightarrow> sandbox_orchestration_stage \<Rightarrow> sandbox_stage_evidence \<Rightarrow> i64 \<Rightarrow> txn_registry
   \<Rightarrow> txn_registry \<times> sandbox_transaction_state runtime_result" where
  "sandbox_advance_stage tid st ev expected s =
     (case txn_lookup tid s of
        Inl e \<Rightarrow> (s, Inl e)
      | Inr r \<Rightarrow>
     (case txn_check_fencing r expected of
        Inl e \<Rightarrow> (s, Inl e)
      | Inr _ \<Rightarrow>
          if txr_state r \<in> set [TxnReleased, TxnQuarantined, TxnCompensating] then
            (s, Inl RuntimeInvalidRequest)
          else
     (case ledger_record st ev (txr_ledger r) of
        Inl e \<Rightarrow> (s, Inl e)
      | Inr ledger \<Rightarrow>
          let r1 = r\<lparr>txr_ledger := ledger\<rparr>; next = txn_state_for_stage r1 st in
          if next \<noteq> txr_state r1 \<and> \<not> txn_can_transition_to (txr_state r1) next then
            (put_record tid r1 s, Inl RuntimeInvalidRequest)
          else (put_record tid (next_version (r1\<lparr>txr_state := next\<rparr>)) s, Inr next))))"

section \<open>Checkpoints\<close>

definition sandbox_attach_checkpoint_candidate ::
  "string \<Rightarrow> sandbox_checkpoint_candidate \<Rightarrow> i64 \<Rightarrow> txn_registry \<Rightarrow> txn_registry \<times> unit runtime_result" where
  "sandbox_attach_checkpoint_candidate tid candidate expected s =
     (case txn_lookup tid s of
        Inl e \<Rightarrow> (s, Inl e)
      | Inr r \<Rightarrow>
     (case txn_check_fencing r expected of
        Inl e \<Rightarrow> (s, Inl e)
      | Inr _ \<Rightarrow>
          if txr_candidate r \<noteq> None then (s, Inl RuntimeInvalidRequest)
          else if treq_mount_mode (txr_request r) \<noteq> ReadWriteMount then (s, Inl RuntimeInvalidRequest)
          else (put_record tid (r\<lparr>txr_candidate := Some candidate\<rparr>) s, Inr ())))"

definition sandbox_record_checkpoint_handoff ::
  "string \<Rightarrow> i64 \<Rightarrow> txn_registry \<Rightarrow> txn_registry \<times> unit runtime_result" where
  "sandbox_record_checkpoint_handoff tid expected s =
     (case txn_lookup tid s of
        Inl e \<Rightarrow> (s, Inl e)
      | Inr r \<Rightarrow>
     (case txn_check_fencing r expected of
        Inl e \<Rightarrow> (s, Inl e)
      | Inr _ \<Rightarrow>
          let refused = (treq_mount_mode (txr_request r) = ReadWriteMount \<and>
                (case txr_candidate r of None \<Rightarrow> True | Some c \<Rightarrow> \<not> cand_sealed c)) in
          if refused then (s, Inl RuntimeCheckpointFailed)
          else (put_record tid (next_version (r\<lparr>txr_handoff_durable := True\<rparr>)) s, Inr ())))"

definition sandbox_promote_checkpoint ::
  "string \<Rightarrow> string \<Rightarrow> txn_registry \<Rightarrow> txn_registry \<times> sandbox_candidate_promotion runtime_result" where
  "sandbox_promote_checkpoint tid expected s =
     (case txn_lookup tid s of
        Inl e \<Rightarrow> (s, Inl e)
      | Inr r \<Rightarrow>
     (case txr_candidate r of
        None \<Rightarrow> (s, Inl RuntimeCheckpointFailed)
      | Some c \<Rightarrow>
          (case candidate_promote expected c of
             (c', res) \<Rightarrow> (put_record tid (r\<lparr>txr_candidate := Some c'\<rparr>) s, res))))"

section \<open>Terminal outcomes\<close>

text \<open>The loop over the ordered stages: the first stage that refuses the release, if any.\<close>

fun release_refusal ::
  "sandbox_workspace_mount_mode \<Rightarrow> sandbox_orchestration_ledger \<Rightarrow> sandbox_orchestration_stage list
   \<Rightarrow> sandbox_workspace_runtime_error option" where
  "release_refusal mode l [] = None"
| "release_refusal mode l (st # sts) =
     (let checkpoint = st \<in> set [CheckpointCandidateDurable, CheckpointHandoffDurable];
          read_only_noop_allowed = (mode = ReadOnlyMount \<and> checkpoint)
      in case ledger_completed_ref l st of
           None \<Rightarrow> Some RuntimeCleanupIncomplete
         | Some evidence \<Rightarrow>
             if read_only_noop_allowed then release_refusal mode l sts
             else
               (case evidence of
                  EvidenceNotApplicable _ \<Rightarrow>
                    if checkpoint then Some RuntimeCheckpointFailed else release_refusal mode l sts
                | EvidenceCompleted _ \<Rightarrow> release_refusal mode l sts))"

text \<open>The terminal compare-and-swap shared by release and quarantine.\<close>

definition txn_finish ::
  "string \<Rightarrow> sandbox_transaction_record \<Rightarrow> sandbox_transaction_state \<Rightarrow> sandbox_terminal_outcome
   \<Rightarrow> txn_registry \<Rightarrow> txn_registry" where
  "txn_finish tid r st outcome s =
     (put_record tid (next_version (r\<lparr>txr_state := st\<rparr>)) s)
       \<lparr>txs_active_by_binding := btm_remove (treq_session_id (txr_request r)) (txs_active_by_binding s),
        txs_outcomes_by_operation := btm_insert tid outcome (txs_outcomes_by_operation s)\<rparr>"

definition sandbox_release ::
  "string \<Rightarrow> i64 \<Rightarrow> txn_registry \<Rightarrow> txn_registry \<times> sandbox_terminal_outcome runtime_result" where
  "sandbox_release tid expected s =
     (case btm_get (txs_outcomes_by_operation s) tid of
        Some recorded \<Rightarrow> (s, Inr recorded)
      | None \<Rightarrow>
     (case txn_lookup tid s of
        Inl e \<Rightarrow> (s, Inl e)
      | Inr r \<Rightarrow>
     (case txn_check_fencing r expected of
        Inl e \<Rightarrow> (s, Inl e)
      | Inr _ \<Rightarrow>
     (case release_refusal (treq_mount_mode (txr_request r)) (txr_ledger r) sandbox_orchestration_stages of
        Some e \<Rightarrow> (s, Inl e)
      | None \<Rightarrow>
          if treq_mount_mode (txr_request r) = ReadWriteMount \<and> \<not> txr_handoff_durable r then
            (s, Inl RuntimeCheckpointFailed)
          else if \<not> txn_can_transition_to (txr_state r) TxnReleased then (s, Inl RuntimeInvalidRequest)
          else (txn_finish tid r TxnReleased OutcomeReleased s, Inr OutcomeReleased)))))"

definition sandbox_enter_compensation ::
  "string \<Rightarrow> i64 \<Rightarrow> txn_registry
   \<Rightarrow> txn_registry \<times> (sandbox_compensation_window \<times> sandbox_compensation_action list) runtime_result" where
  "sandbox_enter_compensation tid expected s =
     (case txn_lookup tid s of
        Inl e \<Rightarrow> (s, Inl e)
      | Inr r \<Rightarrow>
     (case txn_check_fencing r expected of
        Inl e \<Rightarrow> (s, Inl e)
      | Inr _ \<Rightarrow>
          if txr_state r = TxnReleased then (s, Inl RuntimeInvalidRequest)
          else
            let window = sandbox_window_for_completed_stage (led_highest (txr_ledger r)) in
            if \<not> txn_can_transition_to (txr_state r) TxnCompensating then (s, Inl RuntimeInvalidRequest)
            else (put_record tid (next_version (r\<lparr>txr_state := TxnCompensating\<rparr>)) s,
                  Inr (window, sandbox_required_actions window))))"

definition sandbox_txn_quarantine ::
  "string \<Rightarrow> i64 \<Rightarrow> txn_registry \<Rightarrow> txn_registry \<times> sandbox_terminal_outcome runtime_result" where
  "sandbox_txn_quarantine tid expected s =
     (case btm_get (txs_outcomes_by_operation s) tid of
        Some recorded \<Rightarrow> (s, Inr recorded)
      | None \<Rightarrow>
     (case txn_lookup tid s of
        Inl e \<Rightarrow> (s, Inl e)
      | Inr r \<Rightarrow>
     (case txn_check_fencing r expected of
        Inl e \<Rightarrow> (s, Inl e)
      | Inr _ \<Rightarrow>
          if \<not> txn_can_transition_to (txr_state r) TxnQuarantined then (s, Inl RuntimeInvalidRequest)
          else (txn_finish tid r TxnQuarantined OutcomeQuarantined s, Inr OutcomeQuarantined))))"

section \<open>The registry as a transition system\<close>

datatype txn_op =
  TxnBegin sandbox_transaction_request
| TxnAdvance string sandbox_orchestration_stage sandbox_stage_evidence i64
| TxnAttachCandidate string sandbox_checkpoint_candidate i64
| TxnRecordHandoff string i64
| TxnPromote string string
| TxnRelease string i64
| TxnEnterCompensation string i64
| TxnQuarantine string i64

fun txn_exec :: "u64 \<Rightarrow> txn_op \<Rightarrow> txn_registry \<Rightarrow> txn_registry" where
  "txn_exec now (TxnBegin r) s = fst (sandbox_begin now r s)"
| "txn_exec now (TxnAdvance tid st ev tok) s = fst (sandbox_advance_stage tid st ev tok s)"
| "txn_exec now (TxnAttachCandidate tid c tok) s = fst (sandbox_attach_checkpoint_candidate tid c tok s)"
| "txn_exec now (TxnRecordHandoff tid tok) s = fst (sandbox_record_checkpoint_handoff tid tok s)"
| "txn_exec now (TxnPromote tid source) s = fst (sandbox_promote_checkpoint tid source s)"
| "txn_exec now (TxnRelease tid tok) s = fst (sandbox_release tid tok s)"
| "txn_exec now (TxnEnterCompensation tid tok) s = fst (sandbox_enter_compensation tid tok s)"
| "txn_exec now (TxnQuarantine tid tok) s = fst (sandbox_txn_quarantine tid tok s)"

inductive txn_step :: "txn_registry \<Rightarrow> txn_registry \<Rightarrow> bool" where
  txn_step: "txn_step s (txn_exec now op s)"

inductive_cases txn_stepE: "txn_step s t"

definition txn_reachable :: "txn_registry \<Rightarrow> bool" where
  "txn_reachable s \<longleftrightarrow> txn_step\<^sup>*\<^sup>* txn_registry_default s"

fun txn_run :: "(u64 \<times> txn_op) list \<Rightarrow> txn_registry \<Rightarrow> txn_registry" where
  "txn_run [] s = s"
| "txn_run ((now, op) # ops) s = txn_run ops (txn_exec now op s)"

lemma txn_run_reachable_from: "txn_step\<^sup>*\<^sup>* s0 s \<Longrightarrow> txn_step\<^sup>*\<^sup>* s0 (txn_run ops s)"
proof (induction ops arbitrary: s)
  case (Cons e ops)
  then show ?case
    by (cases e) (auto intro: rtranclp.rtrancl_into_rtrancl txn_step)
qed simp

lemma txn_run_reachable: "txn_reachable (txn_run ops txn_registry_default)"
  by (simp add: txn_reachable_def txn_run_reachable_from)

end
