(* ===== verification/Txn_Invariant.thy ===== *)
theory Txn_Invariant
  imports Txn_Registry
begin

text \<open>
  The representation invariant of the transaction registry. The state of a running transaction is
  a function of its ledger; a released one has the complete ledger and, when it may write, a sealed
  candidate and a durable handoff; the indexes by session, by operation and by outcome agree with
  the transaction table. Every operation preserves it on every branch.
\<close>

section \<open>The invariant\<close>

text \<open>The state a running transaction has when its highest completed position is \<open>p\<close>.\<close>

definition state_at :: "nat \<Rightarrow> sandbox_transaction_state" where
  "state_at p =
     (if p < 3 then TxnRequested else if p < 4 then TxnAdmitted else if p < 5 then TxnCapacityReserved
      else if p < 9 then TxnRuntimeBound else if p < 11 then TxnWorkspaceAttaching
      else if p < 12 then TxnReady else if p < 13 then TxnExecuting else TxnCheckpointing)"

definition txn_running :: "sandbox_transaction_state \<Rightarrow> bool" where
  "txn_running st \<longleftrightarrow> \<not> txn_terminal st \<and> st \<noteq> TxnCompensating"

definition sealed_handoff :: "sandbox_transaction_record \<Rightarrow> bool" where
  "sealed_handoff r \<longleftrightarrow>
     txr_handoff_durable r \<and> (case txr_candidate r of None \<Rightarrow> False | Some c \<Rightarrow> cand_sealed c)"

definition record_ok :: "i64 \<Rightarrow> string \<Rightarrow> sandbox_transaction_record \<Rightarrow> bool" where
  "record_ok highest tid r \<longleftrightarrow>
     treq_transaction_id (txr_request r) = tid
     \<and> 0 < txr_fencing_token r \<and> txr_fencing_token r \<le> highest
     \<and> ledger_ok (txr_ledger r)
     \<and> (txn_running (txr_state r) \<longrightarrow> txr_state r = state_at (led_highest (txr_ledger r)))
     \<and> (treq_mount_mode (txr_request r) = ReadWriteMount \<longrightarrow> txr_handoff_durable r \<longrightarrow> sealed_handoff r)
     \<and> (treq_mount_mode (txr_request r) = ReadOnlyMount \<longrightarrow> txr_candidate r = None)
     \<and> (txr_state r = TxnReleased \<longrightarrow>
          release_refusal (treq_mount_mode (txr_request r)) (txr_ledger r) sandbox_orchestration_stages = None
          \<and> (treq_mount_mode (txr_request r) = ReadWriteMount \<longrightarrow> txr_handoff_durable r))"

type_synonym txn_table = "(string, sandbox_transaction_record) btree"

definition records_ok :: "i64 \<Rightarrow> txn_table \<Rightarrow> bool" where
  "records_ok highest txns \<longleftrightarrow>
     btm_ok txns \<and> (\<forall>tid r. btm_get txns tid = Some r \<longrightarrow> record_ok highest tid r)"

text \<open>A field of the records that no two transactions share.\<close>

definition distinct_field :: "(sandbox_transaction_record \<Rightarrow> 'a) \<Rightarrow> txn_table \<Rightarrow> bool" where
  "distinct_field f txns \<longleftrightarrow>
     (\<forall>a b r q. btm_get txns a = Some r \<longrightarrow> btm_get txns b = Some q \<longrightarrow> f r = f q \<longrightarrow> a = b)"

definition txn_session :: "sandbox_transaction_record \<Rightarrow> string" where
  "txn_session r = treq_session_id (txr_request r)"

definition txn_operation :: "sandbox_transaction_record \<Rightarrow> string" where
  "txn_operation r = treq_operation_id (txr_request r)"

definition sessions_agree :: "(string, string) btree \<Rightarrow> txn_table \<Rightarrow> bool" where
  "sessions_agree active txns \<longleftrightarrow>
     (\<forall>sess tid. btm_get active sess = Some tid \<longleftrightarrow>
        (\<exists>r. btm_get txns tid = Some r \<and> txn_session r = sess \<and> \<not> txn_terminal (txr_state r)))"

definition outcome_state :: "sandbox_terminal_outcome \<Rightarrow> sandbox_transaction_state" where
  "outcome_state o' = (case o' of OutcomeReleased \<Rightarrow> TxnReleased | OutcomeQuarantined \<Rightarrow> TxnQuarantined)"

definition outcomes_agree :: "(string, sandbox_terminal_outcome) btree \<Rightarrow> txn_table \<Rightarrow> bool" where
  "outcomes_agree outcomes txns \<longleftrightarrow>
     (\<forall>tid o'. btm_get outcomes tid = Some o' \<longleftrightarrow>
        (\<exists>r. btm_get txns tid = Some r \<and> txr_state r = outcome_state o'))"

definition operations_agree :: "(string, string) btree \<Rightarrow> txn_table \<Rightarrow> bool" where
  "operations_agree fps txns \<longleftrightarrow>
     (\<forall>op fp. btm_get fps op = Some fp \<longleftrightarrow>
        (\<exists>tid r. btm_get txns tid = Some r \<and> txn_operation r = op
           \<and> treq_fingerprint (txr_request r) = fp))"

definition txn_bounds_ok :: "txn_registry \<Rightarrow> bool" where
  "txn_bounds_ok s \<longleftrightarrow>
     length (txs_transactions s) \<le> sandbox_reconciliation_batch_size_max
     \<and> 0 \<le> txs_highest_token s \<and> txs_highest_token s \<le> i64_max"

definition txn_inv :: "txn_registry \<Rightarrow> bool" where
  "txn_inv s \<longleftrightarrow>
     records_ok (txs_highest_token s) (txs_transactions s)
     \<and> distinct_field txr_fencing_token (txs_transactions s)
     \<and> distinct_field txn_operation (txs_transactions s)
     \<and> sessions_agree (txs_active_by_binding s) (txs_transactions s)
     \<and> outcomes_agree (txs_outcomes_by_operation s) (txs_transactions s)
     \<and> operations_agree (txs_fingerprints_by_operation s) (txs_transactions s)
     \<and> txn_bounds_ok s"

lemma txn_inv_default: "txn_inv txn_registry_default"
  by (simp add: txn_inv_def txn_registry_default_def records_ok_def distinct_field_def
      sessions_agree_def outcomes_agree_def operations_agree_def txn_bounds_ok_def i64_max_def)

lemma txn_invD:
  assumes "txn_inv s"
  shows "btm_ok (txs_transactions s)"
    "btm_get (txs_transactions s) tid = Some r \<Longrightarrow> record_ok (txs_highest_token s) tid r"
    "distinct_field txr_fencing_token (txs_transactions s)"
    "distinct_field txn_operation (txs_transactions s)"
    "sessions_agree (txs_active_by_binding s) (txs_transactions s)"
    "outcomes_agree (txs_outcomes_by_operation s) (txs_transactions s)"
    "operations_agree (txs_fingerprints_by_operation s) (txs_transactions s)"
    "txn_bounds_ok s"
  using assms unfolding txn_inv_def records_ok_def by blast+

section \<open>Updating one record\<close>

text \<open>An update of a record that keeps its request and token and does not end the transaction.\<close>

definition same_life :: "sandbox_transaction_record \<Rightarrow> sandbox_transaction_record \<Rightarrow> bool" where
  "same_life r r' \<longleftrightarrow>
     txr_request r' = txr_request r \<and> txr_fencing_token r' = txr_fencing_token r
     \<and> (txr_state r' = txr_state r \<or> \<not> txn_terminal (txr_state r) \<and> \<not> txn_terminal (txr_state r'))"

lemma outcome_state_terminal: "txn_terminal (outcome_state o')"
  by (cases o') (simp_all add: outcome_state_def txn_terminal_def)

lemma distinct_field_update:
  assumes "distinct_field f txns" "btm_get txns tid = Some r" "f r' = f r"
  shows "distinct_field f (btm_insert tid r' txns)"
  using assms by (fastforce simp: distinct_field_def split: if_splits)

lemma sessions_agree_update:
  assumes "sessions_agree active txns" "btm_get txns tid = Some r" "same_life r r'"
  shows "sessions_agree active (btm_insert tid r' txns)"
proof -
  have "(\<exists>q. btm_get (btm_insert tid r' txns) k = Some q \<and> txn_session q = sess \<and> \<not> txn_terminal (txr_state q))
      \<longleftrightarrow> (\<exists>q. btm_get txns k = Some q \<and> txn_session q = sess \<and> \<not> txn_terminal (txr_state q))" for k sess
    using assms(2,3) by (auto simp: same_life_def txn_session_def)
  with assms(1) show ?thesis unfolding sessions_agree_def by simp
qed

lemma outcomes_agree_update:
  assumes "outcomes_agree outcomes txns" "btm_get txns tid = Some r" "same_life r r'"
  shows "outcomes_agree outcomes (btm_insert tid r' txns)"
proof -
  have "(\<exists>q. btm_get (btm_insert tid r' txns) k = Some q \<and> txr_state q = outcome_state o')
      \<longleftrightarrow> (\<exists>q. btm_get txns k = Some q \<and> txr_state q = outcome_state o')" for k o'
    using assms(2,3) outcome_state_terminal [of o'] by (auto simp: same_life_def)
  with assms(1) show ?thesis unfolding outcomes_agree_def by simp
qed

lemma operations_agree_update:
  assumes "operations_agree fps txns" "btm_get txns tid = Some r" "txr_request r' = txr_request r"
  shows "operations_agree fps (btm_insert tid r' txns)"
proof -
  have "(\<exists>k q. btm_get (btm_insert tid r' txns) k = Some q \<and> txn_operation q = op
        \<and> treq_fingerprint (txr_request q) = fp)
      \<longleftrightarrow> (\<exists>k q. btm_get txns k = Some q \<and> txn_operation q = op \<and> treq_fingerprint (txr_request q) = fp)"
    (is "?A \<longleftrightarrow> ?B") for op fp
  proof
    assume ?A
    then obtain k q where "btm_get (btm_insert tid r' txns) k = Some q" "txn_operation q = op"
      "treq_fingerprint (txr_request q) = fp" by blast
    with assms(2,3) show ?B by (cases "k = tid") (auto simp: txn_operation_def)
  next
    assume ?B
    then obtain k q where "btm_get txns k = Some q" "txn_operation q = op"
      "treq_fingerprint (txr_request q) = fp" by blast
    with assms(2,3) show ?A by (cases "k = tid") (auto simp: txn_operation_def intro!: exI [of _ k])
  qed
  with assms(1) show ?thesis unfolding operations_agree_def by simp
qed

lemma txn_inv_update:
  assumes inv: "txn_inv s" and r: "btm_get (txs_transactions s) tid = Some r"
    and life: "same_life r r'" and ok: "record_ok (txs_highest_token s) tid r'"
  shows "txn_inv (put_record tid r' s)"
proof -
  have req: "txr_request r' = txr_request r" "txr_fencing_token r' = txr_fencing_token r"
    using life by (simp_all add: same_life_def)
  have len: "length (btm_insert tid r' (txs_transactions s)) = length (txs_transactions s)"
    using txn_invD(1) [OF inv] r by (simp add: btm.length_insert_old)
  have "records_ok (txs_highest_token s) (btm_insert tid r' (txs_transactions s))"
    using txn_invD(1,2) [OF inv] ok by (simp add: records_ok_def)
  then show ?thesis
    using txn_invD [OF inv] r life req len
    by (simp add: txn_inv_def put_record_def txn_bounds_ok_def distinct_field_update txn_operation_def
        sessions_agree_update outcomes_agree_update operations_agree_update)
qed

section \<open>Ending a transaction\<close>

lemma txn_inv_finish:
  assumes inv: "txn_inv s" and r: "btm_get (txs_transactions s) tid = Some r"
    and live: "\<not> txn_terminal (txr_state r)"
    and ok: "record_ok (txs_highest_token s) tid (next_version (r\<lparr>txr_state := outcome_state outcome\<rparr>))"
  shows "txn_inv (txn_finish tid r (outcome_state outcome) outcome s)"
proof -
  let ?r = "next_version (r\<lparr>txr_state := outcome_state outcome\<rparr>)"
  let ?txns = "btm_insert tid ?r (txs_transactions s)"
  have fields: "txr_request ?r = txr_request r" "txr_fencing_token ?r = txr_fencing_token r"
    "txr_state ?r = outcome_state outcome" "txn_session ?r = txn_session r" "txn_operation ?r = txn_operation r"
    by (simp_all add: next_version_def txn_session_def txn_operation_def)
  have own: "btm_get (txs_active_by_binding s) (txn_session r) = Some tid"
    using txn_invD(5) [OF inv] r live by (auto simp: sessions_agree_def)
  have sess: "sessions_agree (btm_remove (txn_session r) (txs_active_by_binding s)) ?txns"
    unfolding sessions_agree_def
  proof (intro allI)
    fix sess k
    have old: "btm_get (txs_active_by_binding s) sess = Some k \<longleftrightarrow>
      (\<exists>q. btm_get (txs_transactions s) k = Some q \<and> txn_session q = sess \<and> \<not> txn_terminal (txr_state q))"
      using txn_invD(5) [OF inv] unfolding sessions_agree_def by blast
    show "btm_get (btm_remove (txn_session r) (txs_active_by_binding s)) sess = Some k \<longleftrightarrow>
      (\<exists>q. btm_get ?txns k = Some q \<and> txn_session q = sess \<and> \<not> txn_terminal (txr_state q))"
    proof (cases "k = tid")
      case True
      then show ?thesis
        using own r old fields outcome_state_terminal [of outcome] by auto
    next
      case False
      then show ?thesis using own old by auto
    qed
  qed
  have out: "outcomes_agree (btm_insert tid outcome (txs_outcomes_by_operation s)) ?txns"
    unfolding outcomes_agree_def
  proof (intro allI)
    fix k o'
    have old: "btm_get (txs_outcomes_by_operation s) k = Some o' \<longleftrightarrow>
      (\<exists>q. btm_get (txs_transactions s) k = Some q \<and> txr_state q = outcome_state o')"
      using txn_invD(6) [OF inv] unfolding outcomes_agree_def by blast
    show "btm_get (btm_insert tid outcome (txs_outcomes_by_operation s)) k = Some o' \<longleftrightarrow>
      (\<exists>q. btm_get ?txns k = Some q \<and> txr_state q = outcome_state o')"
    proof (cases "k = tid")
      case True
      then show ?thesis
        using fields by (auto simp: outcome_state_def split: sandbox_terminal_outcome.splits)
    next
      case False
      then show ?thesis using old by simp
    qed
  qed
  have "records_ok (txs_highest_token s) ?txns"
    using txn_invD(1,2) [OF inv] ok by (simp add: records_ok_def)
  then show ?thesis
    using txn_invD [OF inv] r fields sess out
    by (simp add: txn_inv_def txn_finish_def put_record_def txn_bounds_ok_def distinct_field_update
        operations_agree_update btm.length_insert_old txn_session_def)
qed

section \<open>Every operation preserves the invariant\<close>

lemma record_ok_mono: "record_ok h tid r \<Longrightarrow> h \<le> h' \<Longrightarrow> record_ok h' tid r"
  unfolding record_ok_def by (meson order_trans)

lemma fresh_record_ok:
  assumes "token = highest + 1" "0 \<le> highest"
  shows "record_ok token (treq_transaction_id r) (txn_fresh_record r token)"
proof -
  have "led_highest ledger_new = 0" by (simp add: ledger_new_def)
  with assms show ?thesis
    by (simp add: record_ok_def txn_fresh_record_def ledger_new_ok state_at_def)
qed

text \<open>The registry after a successful begin.\<close>

definition txn_begun :: "sandbox_transaction_request \<Rightarrow> i64 \<Rightarrow> txn_registry \<Rightarrow> txn_registry" where
  "txn_begun r token s =
     s\<lparr>txs_highest_token := token,
       txs_fingerprints_by_operation :=
         btm_insert (treq_operation_id r) (treq_fingerprint r) (txs_fingerprints_by_operation s),
       txs_active_by_binding :=
         btm_insert (treq_session_id r) (treq_transaction_id r) (txs_active_by_binding s),
       txs_transactions :=
         btm_insert (treq_transaction_id r) (txn_fresh_record r token) (txs_transactions s)\<rparr>"

lemma txn_inv_begun:
  assumes inv: "txn_inv s"
    and op: "btm_get (txs_fingerprints_by_operation s) (treq_operation_id r) = None"
    and tid: "btm_get (txs_transactions s) (treq_transaction_id r) = None"
    and sess: "btm_get (txs_active_by_binding s) (treq_session_id r) = None"
    and room: "length (txs_transactions s) < sandbox_reconciliation_batch_size_max"
    and tok: "i64_checked_succ (txs_highest_token s) = Some token"
  shows "txn_inv (txn_begun r token s)"
proof -
  let ?tid = "treq_transaction_id r" and ?new = "txn_fresh_record r token"
  let ?txns = "txs_transactions s"
  note D = txn_invD [OF inv]
  have token: "token = txs_highest_token s + 1" "token \<le> i64_max" "0 \<le> txs_highest_token s"
    using i64_checked_succ_Some [OF tok] D(8) by (auto simp: txn_bounds_ok_def)
  have new: "txn_session ?new = treq_session_id r" "txn_operation ?new = treq_operation_id r"
    "txr_state ?new = TxnRequested" "txr_fencing_token ?new = token" "txr_request ?new = r"
    by (simp_all add: txn_fresh_record_def txn_session_def txn_operation_def)
  have rec: "records_ok token (btm_insert ?tid ?new ?txns)"
    unfolding records_ok_def
  proof (intro conjI allI impI)
    show "btm_ok (btm_insert ?tid ?new ?txns)" using D(1) by simp
    fix k q assume "btm_get (btm_insert ?tid ?new ?txns) k = Some q"
    then show "record_ok token k q"
      using D(2) [of k q] record_ok_mono [of "txs_highest_token s" k q token] token
        fresh_record_ok [OF token(1,3), of r]
      by (auto split: if_splits)
  qed
  have below: "txr_fencing_token q < token" if "btm_get ?txns k = Some q" for k q
    using D(2) [OF that] token by (simp add: record_ok_def)
  have dt: "distinct_field txr_fencing_token (btm_insert ?tid ?new ?txns)"
    using D(3) new(4) below by (fastforce simp: distinct_field_def split: if_splits)
  have opnew: "txn_operation q \<noteq> treq_operation_id r" if "btm_get ?txns k = Some q" for k q
  proof
    assume "txn_operation q = treq_operation_id r"
    then have "btm_get (txs_fingerprints_by_operation s) (treq_operation_id r) = Some (treq_fingerprint (txr_request q))"
      using D(7) that unfolding operations_agree_def by blast
    with op show False by simp
  qed
  have dop: "distinct_field txn_operation (btm_insert ?tid ?new ?txns)"
    using D(4) new(2) opnew by (fastforce simp: distinct_field_def split: if_splits)
  have sa: "sessions_agree (btm_insert (treq_session_id r) ?tid (txs_active_by_binding s))
      (btm_insert ?tid ?new ?txns)"
    unfolding sessions_agree_def
  proof (intro allI)
    fix x k
    have old: "btm_get (txs_active_by_binding s) x = Some k \<longleftrightarrow>
      (\<exists>q. btm_get ?txns k = Some q \<and> txn_session q = x \<and> \<not> txn_terminal (txr_state q))" for x
      using D(5) unfolding sessions_agree_def by blast
    show "btm_get (btm_insert (treq_session_id r) ?tid (txs_active_by_binding s)) x = Some k \<longleftrightarrow>
      (\<exists>q. btm_get (btm_insert ?tid ?new ?txns) k = Some q \<and> txn_session q = x \<and> \<not> txn_terminal (txr_state q))"
    proof (cases "k = ?tid")
      case True
      then show ?thesis using old new tid by (auto simp: txn_terminal_def)
    next
      case False
      then show ?thesis using old [of x] old [of "treq_session_id r"] sess by auto
    qed
  qed
  have oa: "outcomes_agree (txs_outcomes_by_operation s) (btm_insert ?tid ?new ?txns)"
    unfolding outcomes_agree_def
  proof (intro allI)
    fix k o'
    have old: "btm_get (txs_outcomes_by_operation s) k = Some o' \<longleftrightarrow>
      (\<exists>q. btm_get ?txns k = Some q \<and> txr_state q = outcome_state o')"
      using D(6) unfolding outcomes_agree_def by blast
    show "btm_get (txs_outcomes_by_operation s) k = Some o' \<longleftrightarrow>
      (\<exists>q. btm_get (btm_insert ?tid ?new ?txns) k = Some q \<and> txr_state q = outcome_state o')"
      using old new tid by (cases "k = ?tid") (auto simp: outcome_state_def split: sandbox_terminal_outcome.splits)
  qed
  have pa: "operations_agree (btm_insert (treq_operation_id r) (treq_fingerprint r) (txs_fingerprints_by_operation s))
      (btm_insert ?tid ?new ?txns)"
    unfolding operations_agree_def
  proof (intro allI)
    fix x fp
    have old: "btm_get (txs_fingerprints_by_operation s) x = Some fp \<longleftrightarrow>
      (\<exists>k q. btm_get ?txns k = Some q \<and> txn_operation q = x \<and> treq_fingerprint (txr_request q) = fp)"
      using D(7) unfolding operations_agree_def by blast
    have other: "(\<exists>k q. btm_get (btm_insert ?tid ?new ?txns) k = Some q \<and> txn_operation q = x
          \<and> treq_fingerprint (txr_request q) = fp) \<longleftrightarrow>
        x = treq_operation_id r \<and> fp = treq_fingerprint r \<or>
        (\<exists>k q. btm_get ?txns k = Some q \<and> txn_operation q = x \<and> treq_fingerprint (txr_request q) = fp)"
      using new tid by (auto split: if_splits) (metis option.distinct(1))
    show "btm_get (btm_insert (treq_operation_id r) (treq_fingerprint r) (txs_fingerprints_by_operation s)) x = Some fp
      \<longleftrightarrow> (\<exists>k q. btm_get (btm_insert ?tid ?new ?txns) k = Some q \<and> txn_operation q = x
            \<and> treq_fingerprint (txr_request q) = fp)"
      unfolding other using old opnew by auto
  qed
  show ?thesis
    using rec dt dop sa oa pa D(1,8) token room tid
    by (simp add: txn_inv_def txn_begun_def txn_bounds_ok_def btm.length_insert_new)
qed

lemma begin_preserves:
  assumes inv: "txn_inv s"
  shows "txn_inv (fst (sandbox_begin now r s))"
  using inv txn_inv_begun [OF inv, of r]
  by (auto simp: sandbox_begin_def txn_begun_def [symmetric] btm_not_contains not_le
      split: sum.split option.split)

text \<open>The state a stage leads to is the state of its position: the transition check never fails.\<close>

lemma state_for_next_stage:
  assumes "sandbox_position st = Suc (led_highest (txr_ledger r))"
    "txr_state r1 = state_at (led_highest (txr_ledger r))"
  shows "txn_state_for_stage r1 st = state_at (sandbox_position st)"
    and "state_at (sandbox_position st) = txr_state r1
         \<or> txn_can_transition_to (txr_state r1) (state_at (sandbox_position st))"
  using assms
  by (cases st; simp add: txn_state_for_stage_def state_at_def txn_can_transition_to_def eval_nat_numeral)+

lemma state_at_running: "txn_running (state_at p)"
  by (simp add: state_at_def txn_running_def txn_terminal_def)

text \<open>What a successful advance does to the record.\<close>

definition advanced :: "sandbox_orchestration_stage \<Rightarrow> sandbox_stage_evidence \<Rightarrow> sandbox_transaction_record
  \<Rightarrow> sandbox_transaction_record" where
  "advanced st ev r =
     next_version (r\<lparr>txr_ledger := \<lparr>led_completed = (led_completed (txr_ledger r))[led_highest (txr_ledger r) := Some ev],
                                    led_highest = Suc (led_highest (txr_ledger r))\<rparr>,
                     txr_state := state_at (sandbox_position st)\<rparr>)"

lemma advance_eq:
  assumes r: "btm_get (txs_transactions s) tid = Some r" and ok: "record_ok highest tid r"
  shows "sandbox_advance_stage tid st ev expected s =
    (if expected \<noteq> txr_fencing_token r then (s, Inl RuntimeStaleFencing)
     else if \<not> txn_running (txr_state r) then (s, Inl RuntimeInvalidRequest)
     else if hex_fingerprint (evidence_fingerprint ev) \<and> sandbox_position st = Suc (led_highest (txr_ledger r))
     then (put_record tid (advanced st ev r) s, Inr (state_at (sandbox_position st)))
     else (s, Inl RuntimeInvalidRequest))"
proof -
  have led: "ledger_ok (txr_ledger r)" using ok by (simp add: record_ok_def)
  have running: "txr_state r \<in> set [TxnReleased, TxnQuarantined, TxnCompensating] \<longleftrightarrow> \<not> txn_running (txr_state r)"
    by (auto simp: txn_running_def txn_terminal_def)
  have err: "ledger_record st ev (txr_ledger r) = Inl e \<Longrightarrow> e = RuntimeInvalidRequest" for e
    by (auto simp: ledger_record_def evidence_validated_def Let_def split: if_splits)
  show ?thesis
  proof (cases "hex_fingerprint (evidence_fingerprint ev) \<and> sandbox_position st = Suc (led_highest (txr_ledger r))")
    case True
    let ?l = "\<lparr>led_completed = (led_completed (txr_ledger r))[led_highest (txr_ledger r) := Some ev],
      led_highest = Suc (led_highest (txr_ledger r))\<rparr>"
    have rec: "ledger_record st ev (txr_ledger r) = Inr ?l"
      using True ledger_record_iff [OF led] by blast
    show ?thesis
    proof (cases "txn_running (txr_state r)")
      case run: True
      then have at: "txr_state (r\<lparr>txr_ledger := ?l\<rparr>) = state_at (led_highest (txr_ledger r))"
        using ok by (simp add: record_ok_def)
      show ?thesis
        using r True rec run running state_for_next_stage [OF conjunct2 [OF True] at]
        by (auto simp: sandbox_advance_stage_def txn_lookup_def txn_check_fencing_def Let_def advanced_def)
    next
      case False
      then show ?thesis
        using r running by (simp add: sandbox_advance_stage_def txn_lookup_def txn_check_fencing_def)
    qed
  next
    case False
    then obtain e where e: "ledger_record st ev (txr_ledger r) = Inl e"
      using ledger_record_iff [OF led, of st ev] by (cases "ledger_record st ev (txr_ledger r)") auto
    show ?thesis
      using r False e err [OF e] running
      by (auto simp: sandbox_advance_stage_def txn_lookup_def txn_check_fencing_def)
  qed
qed

lemma advanced_ok:
  assumes ok: "record_ok highest tid r" and run: "txn_running (txr_state r)"
    and ev: "hex_fingerprint (evidence_fingerprint ev)" "sandbox_position st = Suc (led_highest (txr_ledger r))"
  shows "record_ok highest tid (advanced st ev r)" "same_life r (advanced st ev r)"
proof -
  let ?l = "\<lparr>led_completed = (led_completed (txr_ledger r))[led_highest (txr_ledger r) := Some ev],
      led_highest = Suc (led_highest (txr_ledger r))\<rparr>"
  have "ledger_record st ev (txr_ledger r) = Inr ?l"
    using ev ledger_record_iff [of "txr_ledger r"] ok by (simp add: record_ok_def)
  then have "ledger_ok ?l" using ledger_record_ok ok unfolding record_ok_def by blast
  then show "record_ok highest tid (advanced st ev r)"
    using ok ev state_at_running [of "sandbox_position st"]
    by (auto simp: record_ok_def advanced_def next_version_def sealed_handoff_def txn_running_def txn_terminal_def)
  show "same_life r (advanced st ev r)"
    using run state_at_running [of "sandbox_position st"]
    by (simp add: same_life_def advanced_def next_version_def txn_running_def)
qed

lemma advance_preserves:
  assumes inv: "txn_inv s"
  shows "txn_inv (fst (sandbox_advance_stage tid st ev expected s))"
proof (cases "btm_get (txs_transactions s) tid")
  case None
  then show ?thesis using inv by (simp add: sandbox_advance_stage_def txn_lookup_def)
next
  case (Some r)
  note ok = txn_invD(2) [OF inv Some]
  show ?thesis
    using inv advanced_ok [OF ok] txn_inv_update [OF inv Some]
    by (simp add: advance_eq [OF Some ok])
qed

lemma attach_preserves:
  assumes inv: "txn_inv s"
  shows "txn_inv (fst (sandbox_attach_checkpoint_candidate tid c expected s))"
proof -
  have upd: "txn_inv (put_record tid (r\<lparr>txr_candidate := Some c\<rparr>) s)"
    if r: "btm_get (txs_transactions s) tid = Some r" and none: "txr_candidate r = None"
      and rw: "treq_mount_mode (txr_request r) = ReadWriteMount" for r
  proof (rule txn_inv_update [OF inv r])
    show "same_life r (r\<lparr>txr_candidate := Some c\<rparr>)" by (simp add: same_life_def)
    show "record_ok (txs_highest_token s) tid (r\<lparr>txr_candidate := Some c\<rparr>)"
      using txn_invD(2) [OF inv r] none rw by (auto simp: record_ok_def sealed_handoff_def)
  qed
  show ?thesis
    using inv upd
    by (auto simp: sandbox_attach_checkpoint_candidate_def txn_lookup_def txn_check_fencing_def
        split: option.split)
qed

lemma handoff_preserves:
  assumes inv: "txn_inv s"
  shows "txn_inv (fst (sandbox_record_checkpoint_handoff tid expected s))"
proof -
  have upd: "txn_inv (put_record tid (next_version (r\<lparr>txr_handoff_durable := True\<rparr>)) s)"
    if r: "btm_get (txs_transactions s) tid = Some r"
      and ok: "\<not> (treq_mount_mode (txr_request r) = ReadWriteMount \<and>
        (case txr_candidate r of None \<Rightarrow> True | Some c \<Rightarrow> \<not> cand_sealed c))" for r
  proof (rule txn_inv_update [OF inv r])
    show "same_life r (next_version (r\<lparr>txr_handoff_durable := True\<rparr>))"
      by (simp add: same_life_def next_version_def)
    show "record_ok (txs_highest_token s) tid (next_version (r\<lparr>txr_handoff_durable := True\<rparr>))"
      using txn_invD(2) [OF inv r] ok
      by (auto simp: record_ok_def sealed_handoff_def next_version_def split: option.splits)
  qed
  show ?thesis
    using inv upd
    by (auto simp: sandbox_record_checkpoint_handoff_def txn_lookup_def txn_check_fencing_def Let_def
        split: option.split)
qed

text \<open>A promotion touches only the recorded promotion of the candidate.\<close>

lemma candidate_promote_fields:
  assumes "candidate_promote expected c = (c', res)"
  shows "cand_sealed c' = cand_sealed c"
    "c' = c \<or> cand_sealed c \<and> cand_promoted_expected_source_revision_ref c = None
       \<and> c' = c\<lparr>cand_promoted_expected_source_revision_ref := Some expected\<rparr>"
  using assms by (auto simp: candidate_promote_def split: if_splits option.splits)

lemma promote_preserves:
  assumes inv: "txn_inv s"
  shows "txn_inv (fst (sandbox_promote_checkpoint tid expected s))"
proof -
  have upd: "txn_inv (put_record tid (r\<lparr>txr_candidate := Some c'\<rparr>) s)"
    if r: "btm_get (txs_transactions s) tid = Some r" and c: "txr_candidate r = Some c"
      and p: "candidate_promote expected c = (c', res)" for r c c' res
  proof (rule txn_inv_update [OF inv r])
    show "same_life r (r\<lparr>txr_candidate := Some c'\<rparr>)" by (simp add: same_life_def)
    show "record_ok (txs_highest_token s) tid (r\<lparr>txr_candidate := Some c'\<rparr>)"
      using txn_invD(2) [OF inv r] c candidate_promote_fields(1) [OF p]
      by (auto simp: record_ok_def sealed_handoff_def)
  qed
  show ?thesis
    using inv upd
    by (auto simp: sandbox_promote_checkpoint_def txn_lookup_def split: option.split prod.split)
qed

lemma can_leave: "txn_can_transition_to a b \<Longrightarrow> \<not> txn_terminal a"
  using txn_table.terminal_closed by blast

lemma release_preserves_txn:
  assumes inv: "txn_inv s"
  shows "txn_inv (fst (sandbox_release tid expected s))"
proof -
  have fin: "txn_inv (txn_finish tid r TxnReleased OutcomeReleased s)"
    if r: "btm_get (txs_transactions s) tid = Some r"
      and full: "release_refusal (treq_mount_mode (txr_request r)) (txr_ledger r) sandbox_orchestration_stages = None"
      and hand: "\<not> (treq_mount_mode (txr_request r) = ReadWriteMount \<and> \<not> txr_handoff_durable r)"
      and can: "txn_can_transition_to (txr_state r) TxnReleased" for r
    using txn_inv_finish [OF inv r can_leave [OF can], of OutcomeReleased]
      txn_invD(2) [OF inv r] full hand
    by (auto simp: record_ok_def outcome_state_def next_version_def txn_running_def txn_terminal_def
        sealed_handoff_def)
  show ?thesis
    using inv fin
    by (auto simp: sandbox_release_def txn_lookup_def txn_check_fencing_def split: option.split)
qed

lemma compensation_preserves:
  assumes inv: "txn_inv s"
  shows "txn_inv (fst (sandbox_enter_compensation tid expected s))"
proof -
  have upd: "txn_inv (put_record tid (next_version (r\<lparr>txr_state := TxnCompensating\<rparr>)) s)"
    if r: "btm_get (txs_transactions s) tid = Some r"
      and can: "txn_can_transition_to (txr_state r) TxnCompensating" for r
  proof (rule txn_inv_update [OF inv r])
    show "same_life r (next_version (r\<lparr>txr_state := TxnCompensating\<rparr>))"
      using can_leave [OF can] by (simp add: same_life_def next_version_def txn_terminal_def)
    show "record_ok (txs_highest_token s) tid (next_version (r\<lparr>txr_state := TxnCompensating\<rparr>))"
      using txn_invD(2) [OF inv r]
      by (auto simp: record_ok_def sealed_handoff_def next_version_def txn_running_def)
  qed
  show ?thesis
    using inv upd
    by (auto simp: sandbox_enter_compensation_def txn_lookup_def txn_check_fencing_def Let_def
        split: option.split)
qed

lemma quarantine_preserves_txn:
  assumes inv: "txn_inv s"
  shows "txn_inv (fst (sandbox_txn_quarantine tid expected s))"
proof -
  have fin: "txn_inv (txn_finish tid r TxnQuarantined OutcomeQuarantined s)"
    if r: "btm_get (txs_transactions s) tid = Some r"
      and can: "txn_can_transition_to (txr_state r) TxnQuarantined" for r
    using txn_inv_finish [OF inv r can_leave [OF can], of OutcomeQuarantined]
      txn_invD(2) [OF inv r]
    by (auto simp: record_ok_def outcome_state_def next_version_def txn_running_def txn_terminal_def
        sealed_handoff_def)
  show ?thesis
    using inv fin
    by (auto simp: sandbox_txn_quarantine_def txn_lookup_def txn_check_fencing_def split: option.split)
qed

lemma txn_exec_preserves: "txn_inv s \<Longrightarrow> txn_inv (txn_exec now op s)"
  by (cases op) (simp_all add: begin_preserves advance_preserves attach_preserves handoff_preserves
      promote_preserves release_preserves_txn compensation_preserves quarantine_preserves_txn)

interpretation txn_machine: invariant_machine txn_registry_default txn_step txn_inv
  by unfold_locales (auto simp: txn_inv_default elim!: txn_stepE intro: txn_exec_preserves)

lemma txn_reachable_inv: "txn_reachable s \<Longrightarrow> txn_inv s"
  unfolding txn_reachable_def by (rule txn_machine.reachable_inv)

section \<open>When a release is not refused\<close>

definition checkpoint_stage :: "sandbox_orchestration_stage \<Rightarrow> bool" where
  "checkpoint_stage st \<longleftrightarrow> st = CheckpointCandidateDurable \<or> st = CheckpointHandoffDurable"

definition stage_releasable ::
  "sandbox_workspace_mount_mode \<Rightarrow> sandbox_orchestration_ledger \<Rightarrow> sandbox_orchestration_stage \<Rightarrow> bool" where
  "stage_releasable mode l st \<longleftrightarrow>
     (case ledger_completed_ref l st of
        None \<Rightarrow> False
      | Some ev \<Rightarrow> checkpoint_stage st \<longrightarrow> mode = ReadWriteMount \<longrightarrow> (\<exists>f. ev = EvidenceCompleted f))"

lemma release_refusal_Cons:
  "release_refusal mode l (st # sts) = None \<longleftrightarrow> stage_releasable mode l st \<and> release_refusal mode l sts = None"
  by (cases mode)
    (auto simp: Let_def checkpoint_stage_def stage_releasable_def
      split: option.splits sandbox_stage_evidence.splits)

lemma release_refusal_None:
  "release_refusal mode l sts = None \<longleftrightarrow> (\<forall>st \<in> set sts. stage_releasable mode l st)"
  by (induction sts) (simp_all add: release_refusal_Cons del: release_refusal.simps(2))

lemma release_refusal_complete:
  assumes "release_refusal mode l sandbox_orchestration_stages = None" "ledger_ok l"
  shows "led_highest l = 21" and "ledger_completed_ref l st \<noteq> None"
proof -
  have all: "ledger_completed_ref l st \<noteq> None" for st
    using assms(1) in_stages [of st] unfolding release_refusal_None stage_releasable_def
    by (auto dest: bspec [of _ _ st] split: option.splits)
  from ledger_completed_iff [OF assms(2), of CapacityAndAdmissionReleased] all
  have "21 \<le> led_highest l" by simp
  with assms(2) show "led_highest l = 21" by (simp add: ledger_ok_def)
  show "ledger_completed_ref l st \<noteq> None" by (rule all)
qed

end
