(* ===== verification/Txn_Evolution.thy ===== *)
theory Txn_Evolution
  imports Txn_Invariant
begin

text \<open>
  What a transaction registry never loses: a transaction keeps its request and its fencing token,
  its recorded evidence is immutable, its state moves along the closed table, an attached candidate
  is never replaced and promoted at most once, and terminal outcomes and operation fingerprints
  stay as recorded.
\<close>

definition candidate_advances :: "sandbox_checkpoint_candidate \<Rightarrow> sandbox_checkpoint_candidate \<Rightarrow> bool" where
  "candidate_advances c d \<longleftrightarrow>
     d = c \<or> cand_sealed c \<and> cand_promoted_expected_source_revision_ref c = None
       \<and> d = c\<lparr>cand_promoted_expected_source_revision_ref := Some (cand_source_revision_ref c)\<rparr>"

definition ledger_extends :: "sandbox_orchestration_ledger \<Rightarrow> sandbox_orchestration_ledger \<Rightarrow> bool" where
  "ledger_extends l m \<longleftrightarrow>
     led_highest l \<le> led_highest m \<and> (\<forall>i < led_highest l. led_completed m ! i = led_completed l ! i)"

definition record_advances :: "sandbox_transaction_record \<Rightarrow> sandbox_transaction_record \<Rightarrow> bool" where
  "record_advances r q \<longleftrightarrow>
     txr_request q = txr_request r \<and> txr_fencing_token q = txr_fencing_token r
     \<and> txn_can_transition_to\<^sup>*\<^sup>* (txr_state r) (txr_state q)
     \<and> ledger_extends (txr_ledger r) (txr_ledger q)
     \<and> (txr_handoff_durable r \<longrightarrow> txr_handoff_durable q)
     \<and> (\<forall>c. txr_candidate r = Some c \<longrightarrow> (\<exists>d. txr_candidate q = Some d \<and> candidate_advances c d))"

definition txn_grows :: "txn_registry \<Rightarrow> txn_registry \<Rightarrow> bool" where
  "txn_grows s t \<longleftrightarrow>
     txs_highest_token s \<le> txs_highest_token t
     \<and> (\<forall>tid r. btm_get (txs_transactions s) tid = Some r \<longrightarrow>
          (\<exists>q. btm_get (txs_transactions t) tid = Some q \<and> record_advances r q))
     \<and> (\<forall>op fp. btm_get (txs_fingerprints_by_operation s) op = Some fp \<longrightarrow>
          btm_get (txs_fingerprints_by_operation t) op = Some fp)
     \<and> (\<forall>tid o'. btm_get (txs_outcomes_by_operation s) tid = Some o' \<longrightarrow>
          btm_get (txs_outcomes_by_operation t) tid = Some o')"

lemma candidate_advances_trans:
  "candidate_advances a b \<Longrightarrow> candidate_advances b c \<Longrightarrow> candidate_advances a c"
  by (auto simp: candidate_advances_def)

lemma ledger_extends_refl [simp]: "ledger_extends l l"
  by (simp add: ledger_extends_def)

lemma ledger_extends_trans: "ledger_extends l m \<Longrightarrow> ledger_extends m n \<Longrightarrow> ledger_extends l n"
  by (auto simp: ledger_extends_def)

lemma record_advances_refl [simp]: "record_advances r r"
  by (auto simp: record_advances_def candidate_advances_def)

lemma record_advances_trans:
  assumes ab: "record_advances a b" and bc: "record_advances b c"
  shows "record_advances a c"
proof -
  have "txn_can_transition_to\<^sup>*\<^sup>* (txr_state a) (txr_state b)"
    "txn_can_transition_to\<^sup>*\<^sup>* (txr_state b) (txr_state c)"
    using ab bc by (simp_all add: record_advances_def)
  then have run: "txn_can_transition_to\<^sup>*\<^sup>* (txr_state a) (txr_state c)"
    by (rule rtranclp_trans)
  have cand: "\<exists>e. txr_candidate c = Some e \<and> candidate_advances d e" if d: "txr_candidate a = Some d" for d
  proof -
    from ab d obtain e where "txr_candidate b = Some e" "candidate_advances d e"
      unfolding record_advances_def by blast
    moreover from bc calculation(1) obtain f where "txr_candidate c = Some f" "candidate_advances e f"
      unfolding record_advances_def by blast
    ultimately show ?thesis using candidate_advances_trans by blast
  qed
  have led: "ledger_extends (txr_ledger a) (txr_ledger c)"
    using ab bc ledger_extends_trans unfolding record_advances_def by blast
  show ?thesis
    using ab bc run cand led by (simp add: record_advances_def)
qed

lemma txn_grows_refl [simp]: "txn_grows s s"
  by (auto simp: txn_grows_def)

lemma txn_grows_trans: "txn_grows s t \<Longrightarrow> txn_grows t u \<Longrightarrow> txn_grows s u"
  unfolding txn_grows_def
  by (elim conjE, intro conjI) (simp, (meson record_advances_trans)+)

lemma txn_grows_put:
  assumes "btm_get (txs_transactions s) tid = Some r" "record_advances r q"
  shows "txn_grows s (put_record tid q s)"
  using assms by (auto simp: txn_grows_def put_record_def)

lemma record_advances_moved:
  assumes "txn_can_transition_to (txr_state r) st"
  shows "record_advances r (next_version (r\<lparr>txr_state := st\<rparr>))"
  using assms by (auto simp: record_advances_def next_version_def candidate_advances_def)

section \<open>Every operation grows\<close>

lemma begin_grows: "txn_inv s \<Longrightarrow> txn_grows s (fst (sandbox_begin now r s))"
  using i64_checked_succ_Some [of "txs_highest_token s"]
  by (auto simp: sandbox_begin_def txn_grows_def btm_not_contains split: sum.split option.split)

lemma advance_grows:
  assumes inv: "txn_inv s"
  shows "txn_grows s (fst (sandbox_advance_stage tid st ev expected s))"
proof (cases "btm_get (txs_transactions s) tid")
  case None
  then show ?thesis by (simp add: sandbox_advance_stage_def txn_lookup_def)
next
  case (Some r)
  note ok = txn_invD(2) [OF inv Some]
  have "record_advances r (advanced st ev r)"
    if run: "txn_running (txr_state r)" and pos: "sandbox_position st = Suc (led_highest (txr_ledger r))"
  proof -
    have at: "txr_state r = state_at (led_highest (txr_ledger r))"
      using ok run by (simp add: record_ok_def)
    have "txn_can_transition_to\<^sup>*\<^sup>* (txr_state r) (state_at (sandbox_position st))"
      using state_for_next_stage(2) [OF pos at] by auto
    moreover have "ledger_extends (txr_ledger r) (txr_ledger (advanced st ev r))"
      by (simp add: ledger_extends_def advanced_def next_version_def)
    ultimately show ?thesis
      by (auto simp: record_advances_def advanced_def next_version_def candidate_advances_def)
  qed
  then show ?thesis
    by (simp add: advance_eq [OF Some ok] txn_grows_put [OF Some])
qed

lemma attach_grows: "txn_grows s (fst (sandbox_attach_checkpoint_candidate tid c expected s))"
  by (auto simp: sandbox_attach_checkpoint_candidate_def txn_lookup_def txn_check_fencing_def
      record_advances_def intro!: txn_grows_put split: option.split)

lemma handoff_grows: "txn_grows s (fst (sandbox_record_checkpoint_handoff tid expected s))"
  by (auto simp: sandbox_record_checkpoint_handoff_def txn_lookup_def txn_check_fencing_def Let_def
      record_advances_def next_version_def candidate_advances_def intro!: txn_grows_put split: option.split)

lemma candidate_promote_advances:
  "candidate_promote expected c = (d, res) \<Longrightarrow> candidate_advances c d"
  by (auto simp: candidate_promote_def candidate_advances_def split: if_splits option.splits)

lemma promote_grows: "txn_grows s (fst (sandbox_promote_checkpoint tid expected s))"
  by (auto simp: sandbox_promote_checkpoint_def txn_lookup_def record_advances_def
      dest: candidate_promote_advances intro!: txn_grows_put split: option.split prod.split)

lemma finish_grows:
  assumes inv: "txn_inv s" and r: "btm_get (txs_transactions s) tid = Some r"
    and none: "btm_get (txs_outcomes_by_operation s) tid = None"
    and can: "txn_can_transition_to (txr_state r) st"
  shows "txn_grows s (txn_finish tid r st o' s)"
  using r none record_advances_moved [OF can]
  by (auto simp: txn_grows_def txn_finish_def put_record_def)

lemma release_grows_txn: "txn_inv s \<Longrightarrow> txn_grows s (fst (sandbox_release tid expected s))"
  by (auto simp: sandbox_release_def txn_lookup_def txn_check_fencing_def
      intro!: finish_grows split: option.split)

lemma compensation_grows: "txn_grows s (fst (sandbox_enter_compensation tid expected s))"
  by (auto simp: sandbox_enter_compensation_def txn_lookup_def txn_check_fencing_def Let_def
      intro!: txn_grows_put record_advances_moved split: option.split)

lemma quarantine_grows_txn: "txn_inv s \<Longrightarrow> txn_grows s (fst (sandbox_txn_quarantine tid expected s))"
  by (auto simp: sandbox_txn_quarantine_def txn_lookup_def txn_check_fencing_def
      intro!: finish_grows split: option.split)

lemma txn_exec_grows: "txn_inv s \<Longrightarrow> txn_grows s (txn_exec now op s)"
  by (cases op) (simp_all add: begin_grows advance_grows attach_grows handoff_grows promote_grows
      release_grows_txn compensation_grows quarantine_grows_txn)

interpretation txn_growth: growing_machine txn_registry_default txn_step txn_inv txn_grows
  by unfold_locales (auto elim!: txn_stepE intro: txn_grows_trans txn_exec_grows)

lemma txn_later:
  assumes "txn_inv s" "txn_step\<^sup>*\<^sup>* s t"
  shows "btm_get (txs_transactions s) tid = Some r \<Longrightarrow>
           \<exists>q. btm_get (txs_transactions t) tid = Some q \<and> record_advances r q"
    and "btm_get (txs_fingerprints_by_operation s) op = Some fp \<Longrightarrow>
           btm_get (txs_fingerprints_by_operation t) op = Some fp"
    and "btm_get (txs_outcomes_by_operation s) tid = Some o' \<Longrightarrow>
           btm_get (txs_outcomes_by_operation t) tid = Some o'"
    and "txs_highest_token s \<le> txs_highest_token t" and "txn_inv t"
  using txn_growth.steps_grow [OF assms(2,1)] txn_machine.steps_inv [OF assms(2,1)]
  unfolding txn_grows_def by blast+

end
