(* ===== verification/Txn_Progress.thy ===== *)
theory Txn_Progress
  imports Txn_Evolution
begin

text \<open>
  Progress of one transaction: driven through the ordered stages with valid evidence, it completes
  every stage, stays running, and is then releasable.
\<close>

lemma txn_run_append: "txn_run (xs @ ys) s = txn_run ys (txn_run xs s)"
  by (induction xs arbitrary: s) auto

lemma txn_run_inv: "txn_inv s \<Longrightarrow> txn_inv (txn_run ops s)"
proof (induction ops arbitrary: s)
  case (Cons e ops)
  then show ?case by (cases e) (simp add: txn_exec_preserves)
qed simp

definition drive ::
  "u64 \<Rightarrow> string \<Rightarrow> (sandbox_orchestration_stage \<Rightarrow> sandbox_stage_evidence) \<Rightarrow> i64 \<Rightarrow> sandbox_orchestration_stage list
   \<Rightarrow> (u64 \<times> txn_op) list" where
  "drive now tid ev token sts = map (\<lambda>st. (now, TxnAdvance tid st (ev st) token)) sts"

text \<open>The transaction after its first \<open>n\<close> stages: complete so far, otherwise as begun.\<close>

definition driven ::
  "(sandbox_orchestration_stage \<Rightarrow> sandbox_stage_evidence) \<Rightarrow> nat \<Rightarrow> sandbox_transaction_record
   \<Rightarrow> sandbox_transaction_record \<Rightarrow> bool" where
  "driven ev n r q \<longleftrightarrow>
     txr_request q = txr_request r \<and> txr_fencing_token q = txr_fencing_token r
     \<and> txr_candidate q = txr_candidate r \<and> txr_handoff_durable q = txr_handoff_durable r
     \<and> txr_state q = state_at n \<and> led_highest (txr_ledger q) = n
     \<and> (\<forall>st. sandbox_position st \<le> n \<longrightarrow> ledger_completed_ref (txr_ledger q) st = Some (ev st))"

lemma stage_at: "n < 21 \<Longrightarrow> sandbox_position (sandbox_orchestration_stages ! n) = Suc n"
proof -
  assume n: "n < 21"
  have "map sandbox_position sandbox_orchestration_stages ! n = [1..<22] ! n"
    by (simp only: positions)
  moreover have "[1..<22] ! n = Suc n" using n by (simp del: upt.simps)
  ultimately show ?thesis using n by simp
qed

lemma drive_stages:
  assumes "txn_inv s" "btm_get (txs_transactions s) tid = Some r"
    and "txr_state r = TxnRequested" "led_highest (txr_ledger r) = 0"
    and "\<And>st. hex_fingerprint (evidence_fingerprint (ev st))"
    and "n \<le> 21"
  shows "\<exists>q. btm_get (txs_transactions
            (txn_run (drive now tid ev (txr_fencing_token r) (take n sandbox_orchestration_stages)) s)) tid = Some q
          \<and> driven ev n r q"
  using assms(6)
proof (induction n)
  case 0
  have none: "\<not> sandbox_position st \<le> 0" for st using position_range [of st] by linarith
  have "driven ev 0 r r" using assms(3,4) by (simp add: driven_def state_at_def none del: le_zero_eq)
  with assms(2) show ?case by (simp add: drive_def)
next
  case (Suc n)
  let ?tok = "txr_fencing_token r" and ?st = "sandbox_orchestration_stages ! n"
  let ?s = "txn_run (drive now tid ev ?tok (take n sandbox_orchestration_stages)) s"
  obtain q where q: "btm_get (txs_transactions ?s) tid = Some q" "driven ev n r q"
    using Suc by auto
  have inv: "txn_inv ?s" by (rule txn_run_inv [OF assms(1)])
  note ok = txn_invD(2) [OF inv q(1)]
  have pos: "sandbox_position ?st = Suc (led_highest (txr_ledger q))"
    using Suc.prems q(2) stage_at [of n] by (simp add: driven_def)
  have step: "sandbox_advance_stage tid ?st (ev ?st) ?tok ?s =
      (put_record tid (advanced ?st (ev ?st) q) ?s, Inr (state_at (sandbox_position ?st)))"
    using q(2) assms(5) pos state_at_running [of n]
    by (simp add: advance_eq [OF q(1) ok] driven_def)
  have split: "take (Suc n) sandbox_orchestration_stages = take n sandbox_orchestration_stages @ [?st]"
    using Suc.prems by (simp add: take_Suc_conv_app_nth)
  have len: "length (led_completed (txr_ledger q)) = 32"
    using ok by (simp add: record_ok_def ledger_ok_def sandbox_orchestration_stage_count_max_def)
  have "ledger_completed_ref (txr_ledger (advanced ?st (ev ?st) q)) st = Some (ev st)"
    if "sandbox_position st \<le> Suc n" for st
  proof (cases "sandbox_position st = Suc n")
    case True
    then have "sandbox_position st = sandbox_position ?st" using pos q(2) by (simp add: driven_def)
    then have "st = ?st" by (simp only: position_inject)
    then show ?thesis
      using q(2) len Suc.prems True by (simp add: advanced_def next_version_def ledger_completed_ref_def driven_def)
  next
    case False
    then have "sandbox_position st \<le> n" "sandbox_position st - 1 \<noteq> n"
      using that position_range [of st] by linarith+
    then show ?thesis
      using q(2) by (simp add: advanced_def next_version_def ledger_completed_ref_def driven_def)
  qed
  then have "driven ev (Suc n) r (advanced ?st (ev ?st) q)"
    using q(2) pos by (simp add: driven_def advanced_def next_version_def)
  then show ?case
    unfolding split by (simp add: drive_def txn_run_append put_record_def step [unfolded drive_def])
qed

text \<open>A transaction that completed every stage is not refused release.\<close>

lemma driven_releasable:
  assumes "driven ev 21 r q"
    and "mode = ReadWriteMount \<Longrightarrow> \<exists>f. ev CheckpointCandidateDurable = EvidenceCompleted f"
    and "mode = ReadWriteMount \<Longrightarrow> \<exists>f. ev CheckpointHandoffDurable = EvidenceCompleted f"
  shows "release_refusal mode (txr_ledger q) sandbox_orchestration_stages = None"
proof -
  have "ledger_completed_ref (txr_ledger q) st = Some (ev st)" for st
    using assms(1) position_range [of st] by (simp add: driven_def)
  then show ?thesis
    using assms(2,3) unfolding release_refusal_None stage_releasable_def checkpoint_stage_def by auto
qed

lemma begin_ok:
  assumes "txn_request_validated r = Inr ()"
    "btm_get (txs_fingerprints_by_operation s) (treq_operation_id r) = None"
    "btm_get (txs_transactions s) (treq_transaction_id r) = None"
    "btm_get (txs_active_by_binding s) (treq_session_id r) = None"
    "txs_highest_token s \<le> treq_fencing_token r" "length (txs_transactions s) < 100"
    "now < treq_deadline_at r" "i64_checked_succ (txs_highest_token s) = Some token"
  shows "sandbox_begin now r s =
    (txn_begun r token s, Inr \<lparr>hnd_transaction_id = treq_transaction_id r, hnd_state = TxnRequested,
       hnd_fencing_token = token\<rparr>)"
  using assms
  by (simp add: sandbox_begin_def txn_begun_def btm_contains_def sandbox_reconciliation_batch_size_max_def
      not_le [symmetric])

lemma txn_begun_record:
  "btm_get (txs_transactions (txn_begun r token s)) (treq_transaction_id r) = Some (txn_fresh_record r token)"
  by (simp add: txn_begun_def)

end
