(* ===== verification/Txn_Scenario.thy ===== *)
theory Txn_Scenario
  imports Txn_Progress
begin

text \<open>
  Concrete requests against the transaction registry and the states they lead to: a read-write
  transaction is begun and driven through its stages. The properties are instantiated here.
\<close>

definition demo_hash :: "char \<Rightarrow> string" where
  "demo_hash c = replicate 64 c"

definition demo_request :: "sandbox_workspace_mount_mode \<Rightarrow> string \<Rightarrow> sandbox_transaction_request" where
  "demo_request mode tid =
     \<lparr>treq_transaction_id = tid, treq_tenant_scope_hash = ''scope'', treq_workspace_id = ''workspace'',
      treq_workspace_revision_ref = ''rev1'', treq_authorization_grant_ref = ''grant'',
      treq_session_id = ''session'' @ tid, treq_placement_ref = ''placement'',
      treq_placement_generation = 1, treq_operation_id = ''op'' @ tid,
      treq_execution_profile_id = ''profile'', treq_required_capabilities = [],
      treq_minimum_assurance = ''process'', treq_workload_class_ref = ''class'',
      treq_mount_mode = mode, treq_fingerprint = demo_hash (CHR ''a''),
      treq_fencing_token = 0, treq_deadline_at = 1000, treq_trace_id = ''trace''\<rparr>"

lemma demo_request_fields:
  "treq_transaction_id (demo_request mode tid) = tid" "treq_mount_mode (demo_request mode tid) = mode"
  "treq_operation_id (demo_request mode tid) = ''op'' @ tid"
  "treq_session_id (demo_request mode tid) = ''session'' @ tid"
  "treq_fingerprint (demo_request mode tid) = demo_hash (CHR ''a'')"
  "treq_fencing_token (demo_request mode tid) = 0" "treq_deadline_at (demo_request mode tid) = 1000"
  by (simp_all add: demo_request_def)

definition demo_candidate :: "bool \<Rightarrow> sandbox_checkpoint_candidate" where
  "demo_candidate sealed =
     \<lparr>cand_id = ''candidate'', cand_workspace_id = ''workspace'', cand_source_revision_ref = ''rev1'',
      cand_candidate_revision_ref = ''rev2'', cand_transaction_id = ''t1'',
      cand_session_id = ''sessiont1'', cand_runtime_binding_id = ''binding'', cand_fencing_token = 1,
      cand_content_digest = demo_hash (CHR ''d''), cand_content_size_bytes = 10,
      cand_storage_authority_ref = ''storage'', cand_created_at = 5, cand_trace_id = ''trace'',
      cand_sealed = sealed, cand_promoted_expected_source_revision_ref = None\<rparr>"

definition demo_evidence :: sandbox_stage_evidence where
  "demo_evidence = EvidenceCompleted (demo_hash (CHR ''e''))"

definition demo_begun :: "sandbox_workspace_mount_mode \<Rightarrow> txn_registry" where
  "demo_begun mode = txn_begun (demo_request mode ''t1'') 1 txn_registry_default"

definition demo_driven :: "sandbox_workspace_mount_mode \<Rightarrow> nat \<Rightarrow> txn_registry" where
  "demo_driven mode n =
     txn_run (drive 11 ''t1'' (\<lambda>st. demo_evidence) 1 (take n sandbox_orchestration_stages)) (demo_begun mode)"

lemma demo_hash_valid:
  "hex_fingerprint (demo_hash (CHR ''a''))" "hex_fingerprint (demo_hash (CHR ''d''))"
  "hex_fingerprint (demo_hash (CHR ''e''))"
  by (simp_all add: hex_fingerprint_def demo_hash_def list_all_iff is_hex_lower_def)

lemma demo_request_valid: "txn_request_validated (demo_request mode ''t1'') = Inr ()"
  by (simp add: txn_request_validated_def demo_request_def demo_hash_valid txn_validated_reference_def
      opaque_text_def sandbox_reference_max_length_def is_ascii_graphic_def is_whitespace_def)

lemma demo_begin_result:
  "sandbox_begin 10 (demo_request mode ''t1'') txn_registry_default =
     (demo_begun mode, Inr \<lparr>hnd_transaction_id = ''t1'', hnd_state = TxnRequested, hnd_fencing_token = 1\<rparr>)"
proof -
  have "treq_transaction_id (demo_request mode ''t1'') = ''t1''" by (simp add: demo_request_def)
  then show ?thesis
    using begin_ok [OF demo_request_valid [of mode], of txn_registry_default 10 1]
    by (simp add: demo_begun_def txn_registry_default_def demo_request_def i64_checked_succ_def i64_max_def)
qed

lemma demo_begun_reachable: "txn_reachable (demo_begun mode)"
  using txn_run_reachable [of "[(10, TxnBegin (demo_request mode ''t1''))]"]
  by (simp add: demo_begin_result)

lemma demo_begun_record:
  "btm_get (txs_transactions (demo_begun mode)) ''t1'' = Some (txn_fresh_record (demo_request mode ''t1'') 1)"
  by (simp add: demo_begun_def txn_begun_def txn_registry_default_def demo_request_def btm_get_def)

lemma demo_driven_run: "txn_step\<^sup>*\<^sup>* (demo_begun mode) (demo_driven mode n)"
  by (simp add: demo_driven_def txn_run_reachable_from)

lemma demo_driven_reachable: "txn_reachable (demo_driven mode n)"
  using demo_begun_reachable [of mode] demo_driven_run [of mode n]
  unfolding txn_reachable_def by (rule rtranclp_trans)

lemma demo_driven_record:
  assumes "n \<le> 21"
  obtains q where "btm_get (txs_transactions (demo_driven mode n)) ''t1'' = Some q"
    "driven (\<lambda>st. demo_evidence) n (txn_fresh_record (demo_request mode ''t1'') 1) q"
proof -
  have fresh: "txr_state (txn_fresh_record (demo_request mode ''t1'') 1) = TxnRequested"
    "led_highest (txr_ledger (txn_fresh_record (demo_request mode ''t1'') 1)) = 0"
    "txr_fencing_token (txn_fresh_record (demo_request mode ''t1'') 1) = 1"
    by (simp_all add: txn_fresh_record_def ledger_new_def)
  have "hex_fingerprint (evidence_fingerprint demo_evidence)"
    by (simp add: demo_evidence_def demo_hash_valid)
  from drive_stages [OF txn_reachable_inv [OF demo_begun_reachable] demo_begun_record fresh(1,2) this assms,
      where now = 11, unfolded fresh(3)] that
  show ?thesis unfolding demo_driven_def by blast
qed

end
