(* ===== verification/Txn_Properties.thy ===== *)
theory Txn_Properties
  imports Txn_Scenario
begin

text \<open>
  The properties of the transaction registry: what a release proves, how the ledger drives the
  state, exclusivity and finality, the checkpoint candidate, compensation, and two behaviours the
  code has that its documentation does not intend.
\<close>

definition sandbox_transaction :: "string \<Rightarrow> txn_registry \<Rightarrow> sandbox_transaction_record option" where
  "sandbox_transaction tid s = btm_get (txs_transactions s) tid"

section \<open>Release\<close>

text \<open>
  C6: A released transaction has durable evidence with a valid fingerprint for every one of the 21
  stages; a read-write one moreover completed both checkpoint stages for real, holds a sealed
  candidate, and its handoff is durable.
\<close>
theorem released_means_complete:
  assumes "txn_reachable s" "sandbox_transaction tid s = Some r" "txr_state r = TxnReleased"
  shows "\<forall>st. \<exists>ev. ledger_completed_ref (txr_ledger r) st = Some ev
      \<and> hex_fingerprint (evidence_fingerprint ev)
      \<and> (treq_mount_mode (txr_request r) = ReadWriteMount \<longrightarrow>
           (checkpoint_stage st \<longrightarrow> ev = EvidenceCompleted (evidence_fingerprint ev))
           \<and> txr_handoff_durable r \<and> (\<exists>c. txr_candidate r = Some c \<and> cand_sealed c))"
proof
  fix st
  have get: "btm_get (txs_transactions s) tid = Some r"
    using assms(2) by (simp add: sandbox_transaction_def)
  note ok = txn_invD(2) [OF txn_reachable_inv [OF assms(1)] get]
  have none: "release_refusal (treq_mount_mode (txr_request r)) (txr_ledger r) sandbox_orchestration_stages = None"
    and hand: "treq_mount_mode (txr_request r) = ReadWriteMount \<Longrightarrow> sealed_handoff r"
    and led: "ledger_ok (txr_ledger r)"
    using ok assms(3) by (auto simp: record_ok_def)
  obtain ev where ev: "ledger_completed_ref (txr_ledger r) st = Some ev"
    using release_refusal_complete(2) [OF none led] by blast
  have "sandbox_position st - 1 < 32" using position_range [of st] by linarith
  then have "hex_fingerprint (evidence_fingerprint ev)"
    using led ev by (auto simp: ledger_ok_def ledger_completed_ref_def
        sandbox_orchestration_stage_count_max_def split: option.splits)
  moreover have "ev = EvidenceCompleted (evidence_fingerprint ev)"
    if "checkpoint_stage st" "treq_mount_mode (txr_request r) = ReadWriteMount"
  proof -
    have "stage_releasable (treq_mount_mode (txr_request r)) (txr_ledger r) st"
      using none in_stages [of st] unfolding release_refusal_None by blast
    with that ev show ?thesis by (auto simp: stage_releasable_def)
  qed
  moreover have "txr_handoff_durable r \<and> (\<exists>c. txr_candidate r = Some c \<and> cand_sealed c)"
    if "treq_mount_mode (txr_request r) = ReadWriteMount"
    using hand [OF that] by (auto simp: sealed_handoff_def split: option.splits)
  ultimately show "\<exists>ev. ledger_completed_ref (txr_ledger r) st = Some ev
      \<and> hex_fingerprint (evidence_fingerprint ev)
      \<and> (treq_mount_mode (txr_request r) = ReadWriteMount \<longrightarrow>
           (checkpoint_stage st \<longrightarrow> ev = EvidenceCompleted (evidence_fingerprint ev))
           \<and> txr_handoff_durable r \<and> (\<exists>c. txr_candidate r = Some c \<and> cand_sealed c))"
    using ev by blast
qed

text \<open>A read-only transaction driven to the end and released.\<close>

lemma demo_released_exists:
  obtains (released) r where "txn_reachable (fst (sandbox_release ''t1'' 1 (demo_driven ReadOnlyMount 21)))"
    "sandbox_transaction ''t1'' (fst (sandbox_release ''t1'' 1 (demo_driven ReadOnlyMount 21))) = Some r"
    "txr_state r = TxnReleased"
    "snd (sandbox_release ''t1'' 1 (demo_driven ReadOnlyMount 21)) = Inr OutcomeReleased"
proof -
  let ?s = "demo_driven ReadOnlyMount 21"
  obtain q where q: "btm_get (txs_transactions ?s) ''t1'' = Some q"
    "driven (\<lambda>st. demo_evidence) 21 (txn_fresh_record (demo_request ReadOnlyMount ''t1'') 1) q"
    using demo_driven_record [of 21 ReadOnlyMount] by blast
  have f: "txr_fencing_token q = 1" "treq_mount_mode (txr_request q) = ReadOnlyMount"
    "txr_state q = TxnCheckpointing"
    using q(2) by (simp_all add: driven_def txn_fresh_record_def demo_request_def state_at_def)
  have "btm_get (txs_outcomes_by_operation ?s) ''t1'' = None"
  proof (cases "btm_get (txs_outcomes_by_operation ?s) ''t1''")
    case (Some o')
    then have "txr_state q = outcome_state o'"
      using txn_invD(6) [OF txn_reachable_inv [OF demo_driven_reachable]] q(1)
      unfolding outcomes_agree_def by fastforce
    with f(3) show ?thesis by (simp add: outcome_state_def split: sandbox_terminal_outcome.splits)
  qed simp
  moreover have "release_refusal ReadOnlyMount (txr_ledger q) sandbox_orchestration_stages = None"
    by (rule driven_releasable [OF q(2)]) simp_all
  ultimately have rel: "sandbox_release ''t1'' 1 ?s =
      (txn_finish ''t1'' q TxnReleased OutcomeReleased ?s, Inr OutcomeReleased)"
    using q(1) f by (simp add: sandbox_release_def txn_lookup_def txn_check_fencing_def txn_can_transition_to_def)
  have "txn_step ?s (fst (sandbox_release ''t1'' 1 ?s))"
    using txn_step [of ?s 0 "TxnRelease ''t1'' 1"] by simp
  then have "txn_reachable (fst (sandbox_release ''t1'' 1 ?s))"
    using demo_driven_reachable [of ReadOnlyMount 21] unfolding txn_reachable_def
    by (rule rtranclp.rtrancl_into_rtrancl [rotated])
  with that show ?thesis
    by (simp add: rel sandbox_transaction_def txn_finish_def put_record_def next_version_def)
qed

theorem released_means_complete_witness:
  "\<exists>r ev. sandbox_transaction ''t1'' (fst (sandbox_release ''t1'' 1 (demo_driven ReadOnlyMount 21))) = Some r
     \<and> ledger_completed_ref (txr_ledger r) CapacityAndAdmissionReleased = Some ev
     \<and> hex_fingerprint (evidence_fingerprint ev)"
proof -
  obtain r where "txn_reachable (fst (sandbox_release ''t1'' 1 (demo_driven ReadOnlyMount 21)))"
    "sandbox_transaction ''t1'' (fst (sandbox_release ''t1'' 1 (demo_driven ReadOnlyMount 21))) = Some r"
    "txr_state r = TxnReleased"
    using demo_released_exists by blast
  from released_means_complete [OF this] this(2) show ?thesis by blast
qed

section \<open>Stages\<close>

text \<open>
  The state of a running transaction is a function of its ledger, and an advance is all or
  nothing: it succeeds exactly when the token is current, the transaction is running, the evidence
  fingerprint is valid and the stage is exactly the next one, and then it records the evidence and
  moves to the state of that position; on any error the registry is unchanged.
\<close>
theorem stages_complete_in_order:
  assumes "txn_reachable s" "sandbox_transaction tid s = Some r"
  shows "(txn_running (txr_state r) \<longrightarrow> txr_state r = state_at (led_highest (txr_ledger r)))
    \<and> (\<forall>st. ledger_is_completed (txr_ledger r) st \<longleftrightarrow> sandbox_position st \<le> led_highest (txr_ledger r))
    \<and> (\<forall>st ev token t res. sandbox_advance_stage tid st ev token s = (t, res) \<longrightarrow>
         (if token = txr_fencing_token r \<and> txn_running (txr_state r)
             \<and> hex_fingerprint (evidence_fingerprint ev)
             \<and> sandbox_position st = Suc (led_highest (txr_ledger r))
          then res = Inr (state_at (sandbox_position st))
             \<and> (\<exists>q. sandbox_transaction tid t = Some q \<and> txr_state q = state_at (sandbox_position st)
                  \<and> ledger_completed_ref (txr_ledger q) st = Some ev)
          else t = s \<and> (\<exists>e. res = Inl e)))"
proof -
  have get: "btm_get (txs_transactions s) tid = Some r"
    using assms(2) by (simp add: sandbox_transaction_def)
  note ok = txn_invD(2) [OF txn_reachable_inv [OF assms(1)] get]
  have led: "ledger_ok (txr_ledger r)" using ok by (simp add: record_ok_def)
  have len: "length (led_completed (txr_ledger r)) = 32"
    using led by (simp add: ledger_ok_def sandbox_orchestration_stage_count_max_def)
  have "ledger_is_completed (txr_ledger r) st \<longleftrightarrow> sandbox_position st \<le> led_highest (txr_ledger r)" for st
    using ledger_completed_iff [OF led, of st] by (simp add: ledger_is_completed_def ledger_completed_ref_def)
  moreover have "ledger_completed_ref (txr_ledger (advanced st ev r)) st = Some ev"
    if "sandbox_position st = Suc (led_highest (txr_ledger r))" for st ev
    using that len position_range [of st]
    by (simp add: ledger_completed_ref_def advanced_def next_version_def)
  ultimately show ?thesis
    using ok
    by (auto simp: advance_eq [OF get ok] record_ok_def sandbox_transaction_def put_record_def
        advanced_def next_version_def)
qed

theorem stages_complete_in_order_witness:
  "\<exists>r. sandbox_transaction ''t1'' (demo_driven ReadWriteMount 12) = Some r
     \<and> txr_state r = TxnExecuting
     \<and> fst (sandbox_advance_stage ''t1'' RuntimeSanitized demo_evidence 1 (demo_driven ReadWriteMount 12))
         = demo_driven ReadWriteMount 12"
proof -
  obtain q where "btm_get (txs_transactions (demo_driven ReadWriteMount 12)) ''t1'' = Some q"
    "driven (\<lambda>st. demo_evidence) 12 (txn_fresh_record (demo_request ReadWriteMount ''t1'') 1) q"
    using demo_driven_record [of 12 ReadWriteMount] by auto
  then have q: "sandbox_transaction ''t1'' (demo_driven ReadWriteMount 12) = Some q"
    "led_highest (txr_ledger q) = 12" "txr_state q = state_at 12"
    by (simp_all add: sandbox_transaction_def driven_def)
  obtain t res where "sandbox_advance_stage ''t1'' RuntimeSanitized demo_evidence 1 (demo_driven ReadWriteMount 12) = (t, res)"
    by force
  with stages_complete_in_order [OF demo_driven_reachable q(1)] q show ?thesis
    by (auto simp: state_at_def)
qed

text \<open>
  Recorded evidence is immutable and a transaction keeps its request and token: whatever a
  registry records of a transaction, every later registry still records, with the state moved only
  along the closed table and a terminal state never left.
\<close>
theorem evidence_is_immutable:
  assumes "txn_reachable s" "txn_step\<^sup>*\<^sup>* s t" "sandbox_transaction tid s = Some r"
  shows "\<exists>q. sandbox_transaction tid t = Some q \<and> txr_request q = txr_request r
    \<and> txr_fencing_token q = txr_fencing_token r
    \<and> txn_can_transition_to\<^sup>*\<^sup>* (txr_state r) (txr_state q)
    \<and> (txn_terminal (txr_state r) \<longrightarrow> txr_state q = txr_state r)
    \<and> (\<forall>st ev. ledger_completed_ref (txr_ledger r) st = Some ev \<longrightarrow>
         ledger_completed_ref (txr_ledger q) st = Some ev)"
proof -
  note inv = txn_reachable_inv [OF assms(1)]
  have get: "btm_get (txs_transactions s) tid = Some r"
    using assms(3) by (simp add: sandbox_transaction_def)
  obtain q where q: "btm_get (txs_transactions t) tid = Some q" "record_advances r q"
    using txn_later(1) [OF inv assms(2) get] by blast
  have led: "ledger_ok (txr_ledger r)" using txn_invD(2) [OF inv get] by (simp add: record_ok_def)
  have "ledger_completed_ref (txr_ledger q) st = Some ev"
    if "ledger_completed_ref (txr_ledger r) st = Some ev" for st ev
  proof -
    have "sandbox_position st \<le> led_highest (txr_ledger r)"
      using ledger_completed_iff [OF led, of st] that by simp
    then have "sandbox_position st - 1 < led_highest (txr_ledger r)"
      using position_range [of st] by linarith
    with q(2) that show ?thesis
      by (simp add: record_advances_def ledger_extends_def ledger_completed_ref_def)
  qed
  with q show ?thesis
    using txn_table.terminal_stays [of "txr_state r" "txr_state q"]
    by (auto simp: record_advances_def sandbox_transaction_def)
qed

theorem evidence_is_immutable_witness:
  "\<exists>q. sandbox_transaction ''t1'' (demo_driven ReadWriteMount 5) = Some q \<and> txr_fencing_token q = 1"
  using evidence_is_immutable [OF demo_begun_reachable demo_driven_run, of "''t1''" ReadWriteMount
      "txn_fresh_record (demo_request ReadWriteMount ''t1'') 1" 5] demo_begun_record [of ReadWriteMount]
  by (auto simp: sandbox_transaction_def txn_fresh_record_def)

section \<open>Exclusivity, tokens and replay\<close>

text \<open>
  C7: At any time at most one live transaction (neither released nor quarantined) exists per
  session; fencing tokens and operations are never shared by two transactions.
\<close>
theorem live_transactions_are_exclusive:
  assumes "txn_reachable s" "sandbox_transaction a s = Some r" "sandbox_transaction b s = Some q"
    and "(treq_session_id (txr_request r) = treq_session_id (txr_request q)
            \<and> \<not> txn_terminal (txr_state r) \<and> \<not> txn_terminal (txr_state q))
         \<or> txr_fencing_token r = txr_fencing_token q
         \<or> treq_operation_id (txr_request r) = treq_operation_id (txr_request q)"
  shows "a = b"
proof -
  note inv = txn_reachable_inv [OF assms(1)]
  have get: "btm_get (txs_transactions s) a = Some r" "btm_get (txs_transactions s) b = Some q"
    using assms(2,3) by (simp_all add: sandbox_transaction_def)
  have live: "btm_get (txs_active_by_binding s) (treq_session_id (txr_request x)) = Some k"
    if "btm_get (txs_transactions s) k = Some x" "\<not> txn_terminal (txr_state x)" for k x
    using txn_invD(5) [OF inv] that unfolding sessions_agree_def txn_session_def by blast
  from assms(4) show ?thesis
  proof (elim disjE)
    assume "treq_session_id (txr_request r) = treq_session_id (txr_request q)
        \<and> \<not> txn_terminal (txr_state r) \<and> \<not> txn_terminal (txr_state q)"
    with live [OF get(1)] live [OF get(2)] show ?thesis by simp
  next
    assume "txr_fencing_token r = txr_fencing_token q"
    with txn_invD(3) [OF inv] get show ?thesis unfolding distinct_field_def by blast
  next
    assume "treq_operation_id (txr_request r) = treq_operation_id (txr_request q)"
    with txn_invD(4) [OF inv] get show ?thesis unfolding distinct_field_def txn_operation_def by blast
  qed
qed

theorem live_transactions_are_exclusive_witness:
  "\<exists>!b. \<exists>q. sandbox_transaction b (demo_driven ReadOnlyMount 4) = Some q \<and> txr_fencing_token q = 1"
proof -
  obtain q where "btm_get (txs_transactions (demo_driven ReadOnlyMount 4)) ''t1'' = Some q"
    "driven (\<lambda>st. demo_evidence) 4 (txn_fresh_record (demo_request ReadOnlyMount ''t1'') 1) q"
    using demo_driven_record [of 4 ReadOnlyMount] by auto
  then have q: "sandbox_transaction ''t1'' (demo_driven ReadOnlyMount 4) = Some q" "txr_fencing_token q = 1"
    by (simp_all add: sandbox_transaction_def driven_def txn_fresh_record_def)
  show ?thesis
  proof (rule ex1I [of _ "''t1''"])
    show "\<exists>q. sandbox_transaction ''t1'' (demo_driven ReadOnlyMount 4) = Some q \<and> txr_fencing_token q = 1"
      using q by blast
    show "b = ''t1''"
      if "\<exists>p. sandbox_transaction b (demo_driven ReadOnlyMount 4) = Some p \<and> txr_fencing_token p = 1" for b
      using that q(2) live_transactions_are_exclusive [OF demo_driven_reachable _ q(1)] by auto
  qed
qed

text \<open>
  A begin for a new operation succeeds exactly when the request is valid, its identity is new,
  its session has no live transaction, its token is not below the highest one issued, fewer than
  100 transactions were ever recorded, the deadline lies ahead and the token space is not used up.
  It then issues the next token, above every token recorded; otherwise nothing changes.
\<close>
theorem begin_succeeds_exactly_when:
  assumes "txn_reachable s" "btm_get (txs_fingerprints_by_operation s) (treq_operation_id r) = None"
  shows "if txn_request_validated r = Inr ()
        \<and> sandbox_transaction (treq_transaction_id r) s = None
        \<and> (\<nexists>tid q. sandbox_transaction tid s = Some q \<and> \<not> txn_terminal (txr_state q)
              \<and> treq_session_id (txr_request q) = treq_session_id r)
        \<and> txs_highest_token s \<le> treq_fencing_token r
        \<and> length (txs_transactions s) < 100 \<and> now < treq_deadline_at r
        \<and> txs_highest_token s < i64_max
     then (\<exists>t h. sandbox_begin now r s = (t, Inr h)
        \<and> sandbox_transaction (treq_transaction_id r) t = Some (txn_fresh_record r (hnd_fencing_token h))
        \<and> (\<forall>tid q. sandbox_transaction tid s = Some q \<longrightarrow> txr_fencing_token q < hnd_fencing_token h))
     else (\<exists>e. sandbox_begin now r s = (s, Inl e))"
    (is "if ?C then ?A else ?B")
proof -
  note inv = txn_reachable_inv [OF assms(1)]
  have live: "(\<exists>tid q. sandbox_transaction tid s = Some q \<and> \<not> txn_terminal (txr_state q)
      \<and> treq_session_id (txr_request q) = treq_session_id r) \<longleftrightarrow>
      btm_contains (txs_active_by_binding s) (treq_session_id r)"
    using txn_invD(5) [OF inv] unfolding sessions_agree_def txn_session_def sandbox_transaction_def btm_contains_def
    by fastforce
  have below: "txr_fencing_token q < txs_highest_token s + 1"
    if "btm_get (txs_transactions s) tid = Some q" for tid q
    using txn_invD(2) [OF inv that] by (simp add: record_ok_def)
  show ?thesis
  proof (cases ?C)
    case True
    then have "sandbox_begin now r s = (txn_begun r (txs_highest_token s + 1) s,
        Inr \<lparr>hnd_transaction_id = treq_transaction_id r, hnd_state = TxnRequested,
             hnd_fencing_token = txs_highest_token s + 1\<rparr>)"
      using begin_ok [of r s now] assms(2)
      unfolding live by (simp add: sandbox_transaction_def btm_not_contains i64_checked_succ_def)
    then have ?A
      using below txn_begun_record [of r "txs_highest_token s + 1" s]
      by (simp add: sandbox_transaction_def)
    then show ?thesis unfolding if_P [OF True] .
  next
    case False
    moreover have "txn_request_validated r = Inr () \<or> (\<exists>e. txn_request_validated r = Inl e)"
      by (cases "txn_request_validated r") auto
    ultimately have ?B
      using assms(2) unfolding live
      by (auto simp: sandbox_begin_def sandbox_transaction_def btm_contains_def i64_checked_succ_def
          sandbox_reconciliation_batch_size_max_def not_le)
    then show ?thesis unfolding if_not_P [OF False] .
  qed
qed

theorem begin_succeeds_exactly_when_witness:
  "\<exists>t h. sandbox_begin 10 (demo_request ReadOnlyMount ''t1'') txn_registry_default = (t, Inr h)
     \<and> sandbox_transaction ''t1'' t = Some (txn_fresh_record (demo_request ReadOnlyMount ''t1'') (hnd_fencing_token h))"
proof -
  have "txn_reachable txn_registry_default" by (simp add: txn_reachable_def)
  moreover have "btm_get (txs_fingerprints_by_operation txn_registry_default)
      (treq_operation_id (demo_request ReadOnlyMount ''t1'')) = None"
    by (simp add: txn_registry_default_def)
  ultimately show ?thesis
    using begin_succeeds_exactly_when [of txn_registry_default "demo_request ReadOnlyMount ''t1''" 10]
      demo_request_valid [of ReadOnlyMount]
    by (simp add: txn_registry_default_def sandbox_transaction_def i64_max_def demo_request_fields split: if_splits)
qed

section \<open>Terminal outcomes\<close>

text \<open>
  The first terminal outcome is final: an outcome is recorded exactly for a released or
  quarantined transaction, and from then on, in every later registry, both release and quarantine
  return it and change nothing, and the stage, compensation and begin operations cannot move the
  transaction.
\<close>
theorem terminal_outcome_is_final:
  assumes "txn_reachable s" "txn_step\<^sup>*\<^sup>* s t"
    and "btm_get (txs_outcomes_by_operation s) tid = Some outcome"
  shows "sandbox_release tid token t = (t, Inr outcome)
    \<and> sandbox_txn_quarantine tid token t = (t, Inr outcome)
    \<and> (\<exists>r. sandbox_transaction tid t = Some r \<and> txr_state r = outcome_state outcome)
    \<and> fst (sandbox_advance_stage tid st ev token t) = t
    \<and> fst (sandbox_enter_compensation tid token t) = t"
proof -
  note inv = txn_reachable_inv [OF assms(1)]
  have out: "btm_get (txs_outcomes_by_operation t) tid = Some outcome" and invt: "txn_inv t"
    using txn_later(3,5) [OF inv assms(2)] assms(3) by blast+
  then obtain r where r: "btm_get (txs_transactions t) tid = Some r" "txr_state r = outcome_state outcome"
    using txn_invD(6) [OF invt] unfolding outcomes_agree_def by blast
  have ended: "txn_terminal (txr_state r)" using r(2) outcome_state_terminal by simp
  then have "fst (sandbox_advance_stage tid st ev token t) = t"
    by (simp add: advance_eq [OF r(1) txn_invD(2) [OF invt r(1)]] txn_running_def)
  moreover have "fst (sandbox_enter_compensation tid token t) = t"
    using r(1) txn_table.terminal_closed [OF ended]
    by (simp add: sandbox_enter_compensation_def txn_lookup_def txn_check_fencing_def Let_def)
  ultimately show ?thesis
    using out r by (simp add: sandbox_release_def sandbox_txn_quarantine_def sandbox_transaction_def)
qed

lemma demo_quarantined:
  "sandbox_txn_quarantine ''t1'' 1 (demo_begun ReadWriteMount) =
     (txn_finish ''t1'' (txn_fresh_record (demo_request ReadWriteMount ''t1'') 1) TxnQuarantined
        OutcomeQuarantined (demo_begun ReadWriteMount), Inr OutcomeQuarantined)"
proof -
  have "btm_get (txs_outcomes_by_operation (demo_begun ReadWriteMount)) ''t1'' = None"
    by (simp add: demo_begun_def txn_begun_def txn_registry_default_def)
  then show ?thesis
    using demo_begun_record [of ReadWriteMount]
    by (simp add: sandbox_txn_quarantine_def txn_lookup_def txn_check_fencing_def
        txn_can_transition_to_def txn_fresh_record_def)
qed

theorem terminal_outcome_is_final_witness:
  "sandbox_release ''t1'' 99 (fst (sandbox_txn_quarantine ''t1'' 1 (demo_begun ReadWriteMount))) =
     (fst (sandbox_txn_quarantine ''t1'' 1 (demo_begun ReadWriteMount)), Inr OutcomeQuarantined)"
proof -
  let ?s = "fst (sandbox_txn_quarantine ''t1'' 1 (demo_begun ReadWriteMount))"
  have "txn_step (demo_begun ReadWriteMount) ?s"
    using txn_step [of "demo_begun ReadWriteMount" 0 "TxnQuarantine ''t1'' 1"] by simp
  then have "txn_reachable ?s"
    using demo_begun_reachable [of ReadWriteMount] unfolding txn_reachable_def
    by (rule rtranclp.rtrancl_into_rtrancl [rotated])
  moreover have "btm_get (txs_outcomes_by_operation ?s) ''t1'' = Some OutcomeQuarantined"
    by (simp add: demo_quarantined txn_finish_def)
  ultimately show ?thesis using terminal_outcome_is_final by blast
qed

section \<open>Checkpoint candidates\<close>

text \<open>
  Promotion is a compare-and-swap on the source revision and happens at most once: it succeeds
  exactly for a sealed candidate and its own source revision, answers already-promoted from then on
  for that revision in every later registry, and a conflicting revision leaves the candidate as it is.
\<close>
theorem promotion_is_compare_and_swap:
  assumes "txn_reachable s" "sandbox_transaction tid s = Some r" "txr_candidate r = Some c"
  shows "(\<forall>rev t res. sandbox_promote_checkpoint tid rev s = (t, res) \<longrightarrow>
       res = (if \<not> cand_sealed c then Inl RuntimeCheckpointFailed
              else case cand_promoted_expected_source_revision_ref c of
                     None \<Rightarrow> if rev = cand_source_revision_ref c then Inr Promoted
                             else Inl RuntimeRevisionConflict
                   | Some p \<Rightarrow> if rev = p then Inr AlreadyPromoted else Inl RuntimeRevisionConflict)
       \<and> (\<exists>q. sandbox_transaction tid t = Some q \<and> txr_candidate q =
            Some (if res = Inr Promoted
                  then c\<lparr>cand_promoted_expected_source_revision_ref := Some rev\<rparr> else c)))
    \<and> (\<forall>t p rev. txn_step\<^sup>*\<^sup>* s t \<and> cand_sealed c
          \<and> cand_promoted_expected_source_revision_ref c = Some p \<longrightarrow>
         snd (sandbox_promote_checkpoint tid rev t) =
           (if rev = p then Inr AlreadyPromoted else Inl RuntimeRevisionConflict))"
proof -
  note inv = txn_reachable_inv [OF assms(1)]
  have r: "btm_get (txs_transactions s) tid = Some r" using assms(2) by (simp add: sandbox_transaction_def)
  have later: "snd (sandbox_promote_checkpoint tid rev t) =
      (if rev = p then Inr AlreadyPromoted else Inl RuntimeRevisionConflict)"
    if run: "txn_step\<^sup>*\<^sup>* s t" and c: "cand_sealed c" "cand_promoted_expected_source_revision_ref c = Some p"
    for t p rev
  proof -
    obtain q where q: "btm_get (txs_transactions t) tid = Some q" "record_advances r q"
      using txn_later(1) [OF inv run r] by blast
    then have "txr_candidate q = Some c"
      using assms(3) c(2) unfolding record_advances_def candidate_advances_def by fastforce
    with q(1) c show ?thesis
      by (auto simp: sandbox_promote_checkpoint_def txn_lookup_def candidate_promote_def)
  qed
  have "\<forall>rev t res. sandbox_promote_checkpoint tid rev s = (t, res) \<longrightarrow>
       res = (if \<not> cand_sealed c then Inl RuntimeCheckpointFailed
              else case cand_promoted_expected_source_revision_ref c of
                     None \<Rightarrow> if rev = cand_source_revision_ref c then Inr Promoted
                             else Inl RuntimeRevisionConflict
                   | Some p \<Rightarrow> if rev = p then Inr AlreadyPromoted else Inl RuntimeRevisionConflict)
       \<and> (\<exists>q. sandbox_transaction tid t = Some q \<and> txr_candidate q =
            Some (if res = Inr Promoted
                  then c\<lparr>cand_promoted_expected_source_revision_ref := Some rev\<rparr> else c))"
    using r assms(3)
    by (auto simp: sandbox_promote_checkpoint_def txn_lookup_def candidate_promote_def
        sandbox_transaction_def put_record_def split: option.splits)
  with later show ?thesis by blast
qed

definition demo_attached :: "bool \<Rightarrow> txn_registry" where
  "demo_attached sealed =
     fst (sandbox_attach_checkpoint_candidate ''t1'' (demo_candidate sealed) 1 (demo_begun ReadWriteMount))"

lemma demo_attached_result:
  "sandbox_attach_checkpoint_candidate ''t1'' (demo_candidate sealed) 1 (demo_begun ReadWriteMount) =
     (demo_attached sealed, Inr ())"
  "sandbox_transaction ''t1'' (demo_attached sealed) =
     Some ((txn_fresh_record (demo_request ReadWriteMount ''t1'') 1)\<lparr>txr_candidate := Some (demo_candidate sealed)\<rparr>)"
  "txn_reachable (demo_attached sealed)"
proof -
  show res: "sandbox_attach_checkpoint_candidate ''t1'' (demo_candidate sealed) 1 (demo_begun ReadWriteMount) =
     (demo_attached sealed, Inr ())"
    and "sandbox_transaction ''t1'' (demo_attached sealed) =
     Some ((txn_fresh_record (demo_request ReadWriteMount ''t1'') 1)\<lparr>txr_candidate := Some (demo_candidate sealed)\<rparr>)"
    using demo_begun_record [of ReadWriteMount]
    by (simp_all add: demo_attached_def sandbox_attach_checkpoint_candidate_def txn_lookup_def
        txn_check_fencing_def txn_fresh_record_def demo_request_fields sandbox_transaction_def put_record_def)
  have "txn_step (demo_begun ReadWriteMount) (demo_attached sealed)"
    using txn_step [of "demo_begun ReadWriteMount" 0 "TxnAttachCandidate ''t1'' (demo_candidate sealed) 1"]
    by (simp add: res)
  then show "txn_reachable (demo_attached sealed)"
    using demo_begun_reachable [of ReadWriteMount] unfolding txn_reachable_def
    by (rule rtranclp.rtrancl_into_rtrancl [rotated])
qed

theorem promotion_is_compare_and_swap_witness:
  "snd (sandbox_promote_checkpoint ''t1'' ''rev1'' (demo_attached True)) = Inr Promoted
   \<and> snd (sandbox_promote_checkpoint ''t1'' ''rev0'' (demo_attached True)) = Inl RuntimeRevisionConflict"
proof -
  have c: "txr_candidate ((txn_fresh_record (demo_request ReadWriteMount ''t1'') 1)
      \<lparr>txr_candidate := Some (demo_candidate True)\<rparr>) = Some (demo_candidate True)" by simp
  have "cand_sealed (demo_candidate True)" "cand_source_revision_ref (demo_candidate True) = ''rev1''"
    "cand_promoted_expected_source_revision_ref (demo_candidate True) = None"
    by (simp_all add: demo_candidate_def)
  then show ?thesis
    using conjunct1 [OF promotion_is_compare_and_swap [OF demo_attached_result(3,2) c], rule_format,
        OF prod.collapse [symmetric]]
    by simp
qed

text \<open>
  Attaching does not seal the candidate, and nothing else does: a read-write transaction whose
  candidate was attached unsealed keeps exactly that candidate in every later registry, its handoff
  is never recorded, no other candidate can be attached, and it is never released.
\<close>
theorem unsealed_candidate_blocks_release:
  assumes "txn_reachable s" "sandbox_attach_checkpoint_candidate tid c token s = (s', Inr ())"
    and "\<not> cand_sealed c" "txn_step\<^sup>*\<^sup>* s' t"
  shows "\<exists>q. sandbox_transaction tid t = Some q \<and> txr_candidate q = Some c
    \<and> \<not> txr_handoff_durable q \<and> txr_state q \<noteq> TxnReleased
    \<and> (\<forall>tok. \<exists>e. sandbox_record_checkpoint_handoff tid tok t = (t, Inl e))
    \<and> (\<forall>d tok. \<exists>e. sandbox_attach_checkpoint_candidate tid d tok t = (t, Inl e))"
proof -
  note inv = txn_reachable_inv [OF assms(1)]
  from assms(2) obtain r where r: "btm_get (txs_transactions s) tid = Some r"
    "treq_mount_mode (txr_request r) = ReadWriteMount"
    "s' = put_record tid (r\<lparr>txr_candidate := Some c\<rparr>) s"
    by (auto simp: sandbox_attach_checkpoint_candidate_def txn_lookup_def txn_check_fencing_def
        split: option.splits if_splits)
  have inv': "txn_inv s'" using attach_preserves [OF inv, of tid c token] assms(2) by simp
  have "btm_get (txs_transactions s') tid = Some (r\<lparr>txr_candidate := Some c\<rparr>)"
    by (simp add: r(3) put_record_def)
  then obtain q where q: "btm_get (txs_transactions t) tid = Some q"
    "record_advances (r\<lparr>txr_candidate := Some c\<rparr>) q"
    using txn_later(1) [OF inv' assms(4)] by blast
  have cand: "txr_candidate q = Some c" and mode: "treq_mount_mode (txr_request q) = ReadWriteMount"
    using q(2) r(2) assms(3) by (auto simp: record_advances_def candidate_advances_def)
  have "record_ok (txs_highest_token t) tid q"
    by (rule txn_invD(2) [OF txn_later(5) [OF inv' assms(4)] q(1)])
  then have hand: "\<not> txr_handoff_durable q" "txr_state q \<noteq> TxnReleased"
    using cand mode assms(3) by (auto simp: record_ok_def sealed_handoff_def)
  have "\<exists>e. sandbox_record_checkpoint_handoff tid tok t = (t, Inl e)" for tok
    using q(1) cand mode assms(3)
    by (simp add: sandbox_record_checkpoint_handoff_def txn_lookup_def txn_check_fencing_def Let_def)
  moreover have "\<exists>e. sandbox_attach_checkpoint_candidate tid d tok t = (t, Inl e)" for d tok
    using q(1) cand
    by (simp add: sandbox_attach_checkpoint_candidate_def txn_lookup_def txn_check_fencing_def)
  ultimately show ?thesis using q(1) cand hand by (auto simp: sandbox_transaction_def)
qed

theorem unsealed_candidate_blocks_release_witness:
  "\<exists>q. sandbox_transaction ''t1'' (demo_attached False) = Some q \<and> \<not> txr_handoff_durable q
     \<and> txr_state q \<noteq> TxnReleased"
  using unsealed_candidate_blocks_release
    [OF demo_begun_reachable demo_attached_result(1) _ rtranclp.rtrancl_refl, of False]
  by (auto simp: demo_candidate_def)

section \<open>Compensation\<close>

text \<open>
  Entering compensation under the current token succeeds exactly from the eight running
  states and returns the window of the highest completed position with its ordered actions: 4 to 6
  after capacity, 9 to 12 after attachment, 13 to 20 during or after write execution. Every other
  position, 7 and 8 included, falls into the first window, whose actions release the admission only:
  there the reserved capacity and the claimed pool slot are not among the required actions.
\<close>
theorem compensation_window_by_position:
  assumes "txn_reachable s" "sandbox_transaction tid s = Some r"
  shows "if txn_running (txr_state r)
    then (\<exists>t window. sandbox_enter_compensation tid (txr_fencing_token r) s =
              (t, Inr (window, sandbox_required_actions window))
        \<and> (\<exists>q. sandbox_transaction tid t = Some q \<and> txr_state q = TxnCompensating)
        \<and> (window = AfterCapacityBeforeAttachment \<longleftrightarrow> led_highest (txr_ledger r) \<in> {4..6})
        \<and> (window = AfterAttachmentBeforeCommand \<longleftrightarrow> led_highest (txr_ledger r) \<in> {9..12})
        \<and> (window = DuringOrAfterWriteExecution \<longleftrightarrow> led_highest (txr_ledger r) \<in> {13..20})
        \<and> (led_highest (txr_ledger r) \<in> {7, 8} \<longrightarrow>
             ledger_is_completed (txr_ledger r) CapacityReservationConfirmed
             \<and> ledger_is_completed (txr_ledger r) PoolClaimedOrPathSelected
             \<and> ReleaseCapacityReservation \<notin> set (sandbox_required_actions window)
             \<and> ReleaseOrSanitizePoolClaim \<notin> set (sandbox_required_actions window)))
    else sandbox_enter_compensation tid (txr_fencing_token r) s = (s, Inl RuntimeInvalidRequest)"
    (is "if ?C then ?A else ?B")
proof -
  have get: "btm_get (txs_transactions s) tid = Some r"
    using assms(2) by (simp add: sandbox_transaction_def)
  note ok = txn_invD(2) [OF txn_reachable_inv [OF assms(1)] get]
  have led: "ledger_ok (txr_ledger r)" using ok by (simp add: record_ok_def)
  let ?h = "led_highest (txr_ledger r)"
  have can: "txn_can_transition_to (txr_state r) TxnCompensating \<longleftrightarrow> txn_running (txr_state r)"
    by (cases "txr_state r") (simp_all add: txn_can_transition_to_def txn_running_def txn_terminal_def)
  show ?thesis
  proof (cases ?C)
    case True
    let ?w = "sandbox_window_for_completed_stage ?h"
    have window: "?w = (if ?h \<in> {4..6} then AfterCapacityBeforeAttachment
        else if ?h \<in> {9..12} then AfterAttachmentBeforeCommand
        else if ?h \<in> {13..20} then DuringOrAfterWriteExecution else BeforeCapacityReservation)"
    proof (cases "?h = 0")
      case True
      then show ?thesis by (simp add: sandbox_window_for_completed_stage_def)
    next
      case False
      then obtain st where "sandbox_position st = ?h"
        using position_surj [of ?h] led by (auto simp: ledger_ok_def)
      then show ?thesis using window_of_position [of st] by simp
    qed
    have enter: "sandbox_enter_compensation tid (txr_fencing_token r) s =
        (put_record tid (next_version (r\<lparr>txr_state := TxnCompensating\<rparr>)) s, Inr (?w, sandbox_required_actions ?w))"
      using get True can
      by (auto simp: sandbox_enter_compensation_def txn_lookup_def txn_check_fencing_def Let_def
          txn_running_def txn_terminal_def)
    have completed: "ledger_is_completed (txr_ledger r) st \<longleftrightarrow> sandbox_position st \<le> ?h" for st
      using ledger_completed_iff [OF led, of st] by (simp add: ledger_is_completed_def ledger_completed_ref_def)
    have ?A
      unfolding enter
      by (intro exI conjI, rule refl)
        (auto simp: window completed sandbox_transaction_def put_record_def next_version_def)
    then show ?thesis unfolding if_P [OF True] .
  next
    case False
    then have ?B
      using get can by (simp add: sandbox_enter_compensation_def txn_lookup_def txn_check_fencing_def Let_def)
    then show ?thesis unfolding if_not_P [OF False] .
  qed
qed

theorem compensation_window_by_position_witness:
  "\<exists>t window. sandbox_enter_compensation ''t1'' 1 (demo_driven ReadWriteMount 8) =
       (t, Inr (window, sandbox_required_actions window))
     \<and> ReleaseCapacityReservation \<notin> set (sandbox_required_actions window)"
proof -
  obtain q where q: "btm_get (txs_transactions (demo_driven ReadWriteMount 8)) ''t1'' = Some q"
    "driven (\<lambda>st. demo_evidence) 8 (txn_fresh_record (demo_request ReadWriteMount ''t1'') 1) q"
    using demo_driven_record [of 8 ReadWriteMount] by auto
  then have f: "sandbox_transaction ''t1'' (demo_driven ReadWriteMount 8) = Some q"
    "txn_running (txr_state q)" "led_highest (txr_ledger q) \<in> {7, 8}" "txr_fencing_token q = 1"
    by (simp_all add: sandbox_transaction_def driven_def state_at_running txn_fresh_record_def)
  from compensation_window_by_position [OF demo_driven_reachable f(1), unfolded if_P [OF f(2)]] f(3,4)
  show ?thesis by metis
qed

section \<open>Progress and replay\<close>

definition checkpoint_ops ::
  "string \<Rightarrow> sandbox_checkpoint_candidate \<Rightarrow> i64 \<Rightarrow> sandbox_workspace_mount_mode \<Rightarrow> (u64 \<times> txn_op) list" where
  "checkpoint_ops tid c token mode =
     (if mode = ReadWriteMount
      then [(0, TxnAttachCandidate tid c token), (0, TxnRecordHandoff tid token)] else [])"

text \<open>
  The protocol can always be completed: after a fresh begin, reporting the 21 stages in order
  with valid evidence (real evidence for the two checkpoint stages), and for a read-write
  transaction attaching a sealed candidate and recording the handoff, the release succeeds.
\<close>
theorem ordered_run_is_released:
  assumes "txn_reachable s" "btm_get (txs_fingerprints_by_operation s) (treq_operation_id r) = None"
    and "sandbox_begin now r s = (s1, Inr h)"
    and "\<And>st. \<exists>f. ev st = EvidenceCompleted f \<and> hex_fingerprint f" and "cand_sealed c"
  shows "snd (sandbox_release (treq_transaction_id r) (hnd_fencing_token h)
      (txn_run (drive now' (treq_transaction_id r) ev (hnd_fencing_token h) sandbox_orchestration_stages
         @ checkpoint_ops (treq_transaction_id r) c (hnd_fencing_token h) (treq_mount_mode r)) s1))
    = Inr OutcomeReleased"
proof -
  let ?tid = "treq_transaction_id r" and ?tok = "hnd_fencing_token h" and ?mode = "treq_mount_mode r"
  note inv = txn_reachable_inv [OF assms(1)]
  have inv1: "txn_inv s1" using begin_preserves [OF inv, of now r] assms(3) by simp
  have s1: "btm_get (txs_transactions s1) ?tid = Some (txn_fresh_record r ?tok)"
    using assms(2,3) by (auto simp: sandbox_begin_def split: sum.splits if_splits option.splits)
  let ?rec = "txn_fresh_record r ?tok"
  have fresh: "txr_state ?rec = TxnRequested" "led_highest (txr_ledger ?rec) = 0"
    "txr_fencing_token ?rec = ?tok" "txr_request ?rec = r" "txr_candidate ?rec = None"
    by (simp_all add: txn_fresh_record_def ledger_new_def)
  have hex: "hex_fingerprint (evidence_fingerprint (ev st))" for st
    using assms(4) [of st] by auto
  let ?s2 = "txn_run (drive now' ?tid ev ?tok sandbox_orchestration_stages) s1"
  have all: "take 21 sandbox_orchestration_stages = sandbox_orchestration_stages" by simp
  obtain q where q: "btm_get (txs_transactions ?s2) ?tid = Some q" "driven ev 21 ?rec q"
    using drive_stages [where ev = ev and n = 21 and now = now', OF inv1 s1 fresh(1,2) hex, unfolded fresh(3) all]
    by auto
  have inv2: "txn_inv ?s2" by (rule txn_run_inv [OF inv1])
  let ?s3 = "txn_run (checkpoint_ops ?tid c ?tok ?mode) ?s2"
  have inv3: "txn_inv ?s3" by (rule txn_run_inv [OF inv2])
  obtain p where p: "btm_get (txs_transactions ?s3) ?tid = Some p" "txr_ledger p = txr_ledger q"
    "txr_state p = TxnCheckpointing" "txr_fencing_token p = ?tok" "treq_mount_mode (txr_request p) = ?mode"
    "?mode = ReadWriteMount \<Longrightarrow> txr_handoff_durable p"
    using q fresh assms(5)
    by (cases ?mode)
      (auto simp: checkpoint_ops_def driven_def state_at_def sandbox_attach_checkpoint_candidate_def
        sandbox_record_checkpoint_handoff_def txn_lookup_def txn_check_fencing_def Let_def
        put_record_def next_version_def)
  have "release_refusal ?mode (txr_ledger q) sandbox_orchestration_stages = None"
    using assms(4) by (intro driven_releasable [OF q(2)]) blast+
  moreover have "btm_get (txs_outcomes_by_operation ?s3) ?tid = None"
  proof (cases "btm_get (txs_outcomes_by_operation ?s3) ?tid")
    case (Some o')
    then have "txr_state p = outcome_state o'"
      using txn_invD(6) [OF inv3] p(1) unfolding outcomes_agree_def by fastforce
    with p(3) show ?thesis by (simp add: outcome_state_def split: sandbox_terminal_outcome.splits)
  qed simp
  ultimately show ?thesis
    using p by (auto simp: txn_run_append sandbox_release_def txn_lookup_def txn_check_fencing_def
        txn_can_transition_to_def)
qed

theorem ordered_run_is_released_witness:
  "snd (sandbox_release ''t1'' 1
      (txn_run (drive 11 ''t1'' (\<lambda>st. demo_evidence) 1 sandbox_orchestration_stages
         @ checkpoint_ops ''t1'' (demo_candidate True) 1 ReadWriteMount) (demo_begun ReadWriteMount)))
   = Inr OutcomeReleased"
proof -
  have reach: "txn_reachable txn_registry_default" by (simp add: txn_reachable_def)
  have op: "btm_get (txs_fingerprints_by_operation txn_registry_default)
      (treq_operation_id (demo_request ReadWriteMount ''t1'')) = None"
    by (simp add: txn_registry_default_def)
  have ev: "\<exists>f. demo_evidence = EvidenceCompleted f \<and> hex_fingerprint f"
    by (simp add: demo_evidence_def demo_hash_valid)
  have "cand_sealed (demo_candidate True)" by (simp add: demo_candidate_def)
  from ordered_run_is_released [OF reach op demo_begin_result ev this, of 11] show ?thesis
    by (simp add: demo_request_fields)
qed

text \<open>
  A replayed begin changes nothing in any later registry. It answers from the transaction the
  request names: for the identity the operation was begun with, the handle carries that
  transaction's token and its present state; but if the request names another recorded transaction,
  the answer is that other transaction's handle and token, whatever operation began it.
\<close>
theorem begin_replay_follows_the_request:
  assumes "txn_reachable s" "sandbox_transaction a s = Some r" "txn_step\<^sup>*\<^sup>* s t"
    and "txn_request_validated req = Inr ()"
    and "treq_operation_id req = treq_operation_id (txr_request r)"
    and "treq_fingerprint req = treq_fingerprint (txr_request r)"
    and "sandbox_transaction (treq_transaction_id req) t = Some q"
  shows "sandbox_begin now req t =
      (t, Inr \<lparr>hnd_transaction_id = treq_transaction_id req, hnd_state = txr_state q,
               hnd_fencing_token = txr_fencing_token q\<rparr>)
    \<and> (treq_transaction_id req = a \<longrightarrow> txr_fencing_token q = txr_fencing_token r)"
proof -
  note inv = txn_reachable_inv [OF assms(1)]
  have r: "btm_get (txs_transactions s) a = Some r"
    and q: "btm_get (txs_transactions t) (treq_transaction_id req) = Some q"
    using assms(2,7) by (simp_all add: sandbox_transaction_def)
  have "btm_get (txs_fingerprints_by_operation s) (treq_operation_id req) = Some (treq_fingerprint req)"
    using txn_invD(7) [OF inv] r assms(5,6) unfolding operations_agree_def txn_operation_def by auto
  then have "btm_get (txs_fingerprints_by_operation t) (treq_operation_id req) = Some (treq_fingerprint req)"
    by (rule txn_later(2) [OF inv assms(3)])
  moreover have "treq_transaction_id (txr_request q) = treq_transaction_id req"
    using txn_invD(2) [OF txn_later(5) [OF inv assms(3)] q] by (simp add: record_ok_def)
  moreover have "txr_fencing_token q = txr_fencing_token r" if "treq_transaction_id req = a"
    using txn_later(1) [OF inv assms(3) r] q that by (auto simp: record_advances_def)
  ultimately show ?thesis
    using assms(4) q by (simp add: sandbox_begin_def)
qed

theorem begin_replay_follows_the_request_witness:
  "\<exists>h. sandbox_begin 20 (demo_request ReadWriteMount ''t1'') (demo_driven ReadWriteMount 8) =
       (demo_driven ReadWriteMount 8, Inr h) \<and> hnd_state h = TxnRuntimeBound"
proof -
  have first: "sandbox_transaction ''t1'' (demo_begun ReadWriteMount) =
      Some (txn_fresh_record (demo_request ReadWriteMount ''t1'') 1)"
    by (simp add: sandbox_transaction_def demo_begun_record)
  obtain q where "btm_get (txs_transactions (demo_driven ReadWriteMount 8)) ''t1'' = Some q"
    "driven (\<lambda>st. demo_evidence) 8 (txn_fresh_record (demo_request ReadWriteMount ''t1'') 1) q"
    using demo_driven_record [of 8 ReadWriteMount] by auto
  then have q: "sandbox_transaction (treq_transaction_id (demo_request ReadWriteMount ''t1''))
      (demo_driven ReadWriteMount 8) = Some q" "txr_state q = TxnRuntimeBound"
    by (simp_all add: sandbox_transaction_def driven_def state_at_def demo_request_fields)
  have same: "treq_operation_id (demo_request ReadWriteMount ''t1'') =
      treq_operation_id (txr_request (txn_fresh_record (demo_request ReadWriteMount ''t1'') 1))"
    "treq_fingerprint (demo_request ReadWriteMount ''t1'') =
      treq_fingerprint (txr_request (txn_fresh_record (demo_request ReadWriteMount ''t1'') 1))"
    by (simp_all add: txn_fresh_record_def)
  from begin_replay_follows_the_request
    [OF demo_begun_reachable first demo_driven_run demo_request_valid same q(1), of 20] q(2)
  show ?thesis by simp
qed

end
