(* ===== verification/Spi_Types.thy ===== *)
theory Spi_Types
  imports Sandbox_Prelude
begin

text \<open>
  The provider interface vocabulary (crate \<open>sdkwork-sandbox-provider-spi\<close>): runtime capabilities
  and the isolation ladder (\<open>capability.rs\<close>), opaque identifiers, fencing tokens and private
  allocation references (\<open>identity.rs\<close>), provider errors (\<open>error.rs\<close>), and the descriptor,
  readiness and request data of a provider (\<open>provider.rs\<close>). A \<open>BTreeSet\<close> of capabilities is a
  set: the code only tests membership, inclusion and equality.
\<close>

section \<open>Capabilities and the isolation ladder\<close>

datatype runtime_capability =
  Terminal | Filesystem | Git | Build | Browser | PortForward | McpTransport | Environment

fun runtime_capability_as_str :: "runtime_capability \<Rightarrow> string" where
  "runtime_capability_as_str Terminal = ''terminal''"
| "runtime_capability_as_str Filesystem = ''filesystem''"
| "runtime_capability_as_str Git = ''git''"
| "runtime_capability_as_str Build = ''build''"
| "runtime_capability_as_str Browser = ''browser''"
| "runtime_capability_as_str PortForward = ''port_forward''"
| "runtime_capability_as_str McpTransport = ''mcp_transport''"
| "runtime_capability_as_str Environment = ''environment''"

definition runtime_capability_parse :: "string \<Rightarrow> runtime_capability option" where
  "runtime_capability_parse v =
     (if v = ''terminal'' then Some Terminal
      else if v = ''filesystem'' then Some Filesystem
      else if v = ''git'' then Some Git
      else if v = ''build'' then Some Build
      else if v = ''browser'' then Some Browser
      else if v = ''port_forward'' then Some PortForward
      else if v = ''mcp_transport'' then Some McpTransport
      else if v = ''environment'' then Some Environment
      else None)"

datatype isolation_assurance = HostUser | Container | UserSpaceKernel | MicroVm | DedicatedVm

fun provider_assurance_as_str :: "isolation_assurance \<Rightarrow> string" where
  "provider_assurance_as_str HostUser = ''host_user''"
| "provider_assurance_as_str Container = ''container''"
| "provider_assurance_as_str UserSpaceKernel = ''user_space_kernel''"
| "provider_assurance_as_str MicroVm = ''micro_vm''"
| "provider_assurance_as_str DedicatedVm = ''dedicated_vm''"

definition provider_assurance_parse :: "string \<Rightarrow> isolation_assurance option" where
  "provider_assurance_parse v =
     (if v = ''host_user'' then Some HostUser
      else if v = ''container'' then Some Container
      else if v = ''user_space_kernel'' then Some UserSpaceKernel
      else if v = ''micro_vm'' then Some MicroVm
      else if v = ''dedicated_vm'' then Some DedicatedVm
      else None)"

text \<open>The derived \<open>Ord\<close> of the enum: its declaration order is the security ladder.\<close>

fun assurance_rank :: "isolation_assurance \<Rightarrow> nat" where
  "assurance_rank HostUser = 0"
| "assurance_rank Container = 1"
| "assurance_rank UserSpaceKernel = 2"
| "assurance_rank MicroVm = 3"
| "assurance_rank DedicatedVm = 4"

lemma assurance_rank_inject [simp]: "assurance_rank a = assurance_rank b \<longleftrightarrow> a = b"
  by (cases a; cases b) simp_all

instantiation isolation_assurance :: linorder
begin

definition less_eq_isolation_assurance :: "isolation_assurance \<Rightarrow> isolation_assurance \<Rightarrow> bool" where
  "less_eq_isolation_assurance a b \<longleftrightarrow> assurance_rank a \<le> assurance_rank b"

definition less_isolation_assurance :: "isolation_assurance \<Rightarrow> isolation_assurance \<Rightarrow> bool" where
  "less_isolation_assurance a b \<longleftrightarrow> assurance_rank a < assurance_rank b"

instance
  by standard (auto simp: less_eq_isolation_assurance_def less_isolation_assurance_def
      simp flip: assurance_rank_inject)

end

interpretation capability_names: wire_names runtime_capability_as_str runtime_capability_parse
proof unfold_locales
  show "runtime_capability_parse (runtime_capability_as_str x) = Some x" for x
    by (cases x) (simp_all add: runtime_capability_parse_def)
  show "runtime_capability_parse s = Some x \<Longrightarrow> runtime_capability_as_str x = s" for s x
    by (auto simp: runtime_capability_parse_def split: if_splits)
qed

interpretation assurance_names: wire_names provider_assurance_as_str provider_assurance_parse
proof unfold_locales
  show "provider_assurance_parse (provider_assurance_as_str x) = Some x" for x
    by (cases x) (simp_all add: provider_assurance_parse_def)
  show "provider_assurance_parse s = Some x \<Longrightarrow> provider_assurance_as_str x = s" for s x
    by (auto simp: provider_assurance_parse_def split: if_splits)
qed

section \<open>Identifiers\<close>

definition max_opaque_id_length :: nat where
  "max_opaque_id_length = 128"

definition max_private_reference_length :: nat where
  "max_private_reference_length = 2048"

datatype sandbox_identifier_error =
  InvalidOpaqueId string nat | InvalidProviderAllocationReference | InvalidFencingToken

type_synonym tenant_id = string
type_synonym sandbox_workspace_id = string
type_synonym sandbox_session_id = string
type_synonym sandbox_provider_id = string
type_synonym sandbox_provider_kind = string
type_synonym sandbox_id = string
type_synonym sandbox_runtime_binding_id = string
type_synonym operation_id = string
type_synonym sandbox_lease_owner_id = string
type_synonym sandbox_fencing_token = u64
type_synonym sandbox_allocation_ref = string

definition is_opaque_id_byte :: "char \<Rightarrow> bool" where
  "is_opaque_id_byte c \<longleftrightarrow>
     (48 \<le> (of_char c :: nat) \<and> (of_char c :: nat) \<le> 57)
     \<or> (65 \<le> (of_char c :: nat) \<and> (of_char c :: nat) \<le> 90)
     \<or> (97 \<le> (of_char c :: nat) \<and> (of_char c :: nat) \<le> 122)
     \<or> c \<in> set ''-_.:''"

definition validate_opaque_id :: "string \<Rightarrow> string \<Rightarrow> sandbox_identifier_error + unit" where
  "validate_opaque_id v field =
     (if v \<noteq> [] \<and> length v \<le> max_opaque_id_length \<and> list_all is_opaque_id_byte v
      then Inr () else Inl (InvalidOpaqueId field max_opaque_id_length))"

definition opaque_id_parse :: "string \<Rightarrow> string \<Rightarrow> sandbox_identifier_error + string" where
  "opaque_id_parse field v =
     (case validate_opaque_id v field of Inl e \<Rightarrow> Inl e | Inr _ \<Rightarrow> Inr v)"

definition fencing_token_new :: "u64 \<Rightarrow> sandbox_identifier_error + sandbox_fencing_token" where
  "fencing_token_new v =
     (if v = 0 \<or> int (unat v) > i64_max then Inl InvalidFencingToken else Inr v)"

text \<open>
  \<open>char::is_control\<close> holds for U+0000 to U+001F, U+007F and U+0080 to U+009F; the latter are the
  two-byte UTF-8 sequences C2 80 to C2 9F.
\<close>

fun has_control_char :: "string \<Rightarrow> bool" where
  "has_control_char [] = False"
| "has_control_char [c] \<longleftrightarrow> (of_char c :: nat) < 32 \<or> (of_char c :: nat) = 127"
| "has_control_char (c # d # s) \<longleftrightarrow>
     (of_char c :: nat) < 32 \<or> (of_char c :: nat) = 127
     \<or> ((of_char c :: nat) = 194 \<and> 128 \<le> (of_char d :: nat) \<and> (of_char d :: nat) \<le> 159)
     \<or> has_control_char (d # s)"

definition allocation_ref_new :: "string \<Rightarrow> sandbox_identifier_error + sandbox_allocation_ref" where
  "allocation_ref_new v =
     (if v \<noteq> [] \<and> length v \<le> max_private_reference_length \<and> \<not> has_control_char v
      then Inr v else Inl InvalidProviderAllocationReference)"

lemma opaque_id_parse_ok:
  "opaque_id_parse field v = Inr w \<longleftrightarrow>
     w = v \<and> v \<noteq> [] \<and> length v \<le> 128 \<and> (\<forall>c\<in>set v. is_opaque_id_byte c)"
  by (auto simp: opaque_id_parse_def validate_opaque_id_def max_opaque_id_length_def list_all_iff)

lemma opaque_id_no_separator:
  assumes "opaque_id_parse field v = Inr w"
  shows "CHR ''/'' \<notin> set w" "CHR '' '' \<notin> set w"
  using assms by (auto simp: opaque_id_parse_ok is_opaque_id_byte_def)

lemma fencing_token_new_ok:
  "fencing_token_new v = Inr w \<longleftrightarrow> w = v \<and> 1 \<le> int (unat v) \<and> int (unat v) \<le> i64_max"
proof -
  have "1 \<le> int (unat v) \<longleftrightarrow> v \<noteq> 0"
    using unat_gt_0 [of v] by linarith
  then show ?thesis
    by (auto simp only: fencing_token_new_def not_less split: if_splits)
qed

section \<open>Provider errors and requests\<close>

datatype sandbox_provider_operation = ProviderHealth | ProviderAllocate | ProviderStart | ProviderStop
  | ProviderDestroy

datatype sandbox_provider_error_kind =
  Unsupported | Unavailable | Rejected | Conflict | Timeout | Internal

record sandbox_provider_error =
  error_provider_id :: sandbox_provider_id
  error_operation :: sandbox_provider_operation
  error_kind :: sandbox_provider_error_kind

record sandbox_provider_descriptor =
  descriptor_provider_id :: sandbox_provider_id
  descriptor_provider_kind :: sandbox_provider_kind
  descriptor_capabilities :: "runtime_capability set"
  descriptor_assurance :: isolation_assurance

definition satisfies_sandbox_requirements ::
  "sandbox_provider_descriptor \<Rightarrow> runtime_capability set \<Rightarrow> isolation_assurance \<Rightarrow> bool" where
  "satisfies_sandbox_requirements d required minimum \<longleftrightarrow>
     descriptor_assurance d \<ge> minimum \<and> required \<subseteq> descriptor_capabilities d"

datatype sandbox_provider_health_status = HealthReady | HealthDegraded | HealthUnavailable

record sandbox_provider_readiness =
  provider_ready :: bool
  policy_enforced :: bool
  workspace_attached :: bool

definition is_sandbox_running_ready :: "sandbox_provider_readiness \<Rightarrow> bool" where
  "is_sandbox_running_ready r \<longleftrightarrow> provider_ready r \<and> policy_enforced r \<and> workspace_attached r"

lemma satisfies_requirements_mono:
  assumes "satisfies_sandbox_requirements d R a" "R' \<subseteq> R" "a' \<le> a"
  shows "satisfies_sandbox_requirements d R' a'"
  using assms by (auto simp: satisfies_sandbox_requirements_def)

end
