(* ===== verification/Session_Model.thy ===== *)
theory Session_Model
  imports Spi_Types
begin

text \<open>
  The sandbox session aggregate (\<open>model.rs\<close> of crate \<open>sdkwork-intelligence-sandbox-service\<close>): its
  states, its operation ledger with the persistence frontier, the runtime binding, and the error
  values of the lifecycle service (\<open>error.rs\<close>, \<open>repository.rs\<close>). The methods that mutate a session
  in place return the updated session.
\<close>

section \<open>States, operations, failures\<close>

definition max_sandbox_session_version :: i64 where
  "max_sandbox_session_version = i64_max"

definition max_sandbox_session_operations :: nat where
  "max_sandbox_session_operations = 10000"

definition max_sandbox_session_persisted_operations :: nat where
  "max_sandbox_session_persisted_operations = max_sandbox_session_operations + 1"

datatype sandbox_session_state =
  Created | Starting | Running | Stopping | Stopped | Failed | Destroying | Destroyed

datatype sandbox_session_operation_kind = Create | Start | Stop | Destroy

datatype sandbox_session_failure = Provider | Readiness | Cleanup

datatype sandbox_operation_outcome =
  InProgress | Succeeded | OutcomeFailed sandbox_session_failure

record sandbox_session_operation =
  operation_id_of :: operation_id
  operation_kind :: sandbox_session_operation_kind
  operation_outcome :: sandbox_operation_outcome

definition sandbox_session_operation_restore ::
  "operation_id \<Rightarrow> sandbox_session_operation_kind \<Rightarrow> sandbox_operation_outcome
     \<Rightarrow> sandbox_session_operation" where
  "sandbox_session_operation_restore oid kind outcome =
     \<lparr> operation_id_of = oid, operation_kind = kind, operation_outcome = outcome \<rparr>"

record sandbox_runtime_binding =
  binding_sandbox_id :: sandbox_id
  binding_runtime_id :: sandbox_runtime_binding_id
  binding_provider_id :: sandbox_provider_id
  binding_allocation_ref :: "sandbox_allocation_ref option"

definition sandbox_runtime_binding_new_intent ::
  "sandbox_id \<Rightarrow> sandbox_runtime_binding_id \<Rightarrow> sandbox_provider_id \<Rightarrow> sandbox_runtime_binding" where
  "sandbox_runtime_binding_new_intent sid rid pid =
     \<lparr> binding_sandbox_id = sid, binding_runtime_id = rid, binding_provider_id = pid,
       binding_allocation_ref = None \<rparr>"

definition sandbox_runtime_binding_restore ::
  "sandbox_id \<Rightarrow> sandbox_runtime_binding_id \<Rightarrow> sandbox_provider_id \<Rightarrow> sandbox_allocation_ref option
     \<Rightarrow> sandbox_runtime_binding" where
  "sandbox_runtime_binding_restore sid rid pid aref =
     \<lparr> binding_sandbox_id = sid, binding_runtime_id = rid, binding_provider_id = pid,
       binding_allocation_ref = aref \<rparr>"

definition set_sandbox_allocation_reference ::
  "sandbox_allocation_ref \<Rightarrow> sandbox_runtime_binding \<Rightarrow> sandbox_runtime_binding" where
  "set_sandbox_allocation_reference aref b = b\<lparr> binding_allocation_ref := Some aref \<rparr>"

record sandbox_session =
  session_tenant_id :: tenant_id
  session_workspace_id :: sandbox_workspace_id
  session_id :: sandbox_session_id
  session_state :: sandbox_session_state
  session_required_capabilities :: "runtime_capability set"
  session_minimum_assurance :: isolation_assurance
  session_runtime_binding :: "sandbox_runtime_binding option"
  session_last_failure :: "sandbox_session_failure option"
  session_operations :: "sandbox_session_operation list"
  session_persisted_count :: nat
  session_persisted_last_outcome :: "sandbox_operation_outcome option"
  session_version :: u64

section \<open>Errors of the store and of the lifecycle service\<close>

datatype sandbox_session_repository_error =
  NotFound | VersionConflict | DuplicateSandboxSession | DuplicateOperation
| RuntimeBindingConflict | RepositoryUnavailable | InvalidStoredData | ProtectionFailed
| UnsupportedDatabaseEngine | LeaseConflict | InvalidPageRequest

datatype sandbox_lifecycle_error =
  DuplicateProvider sandbox_provider_id
| SandboxSessionNotFound tenant_id sandbox_session_id
| InvalidTransition sandbox_session_state sandbox_session_operation_kind
| IdempotencyConflict operation_id
| SandboxSessionIdConflict tenant_id sandbox_session_id
| OperationInProgress operation_id
| OperationPreviouslyFailed operation_id sandbox_session_failure
| NoEligibleProvider
| NoHealthyProvider
| ProviderReadinessRejected sandbox_provider_id
| InvariantViolation string
| LeaseUnavailable
| LeaseLost
| RepositoryError sandbox_session_repository_error
| ProviderError sandbox_provider_error

type_synonym 'a lifecycle_result = "sandbox_lifecycle_error + 'a"
type_synonym 'a repository_result = "sandbox_session_repository_error + 'a"

section \<open>Construction and the persistence frontier\<close>

definition last_outcome :: "sandbox_session_operation list \<Rightarrow> sandbox_operation_outcome option" where
  "last_outcome ops = (if ops = [] then None else Some (operation_outcome (last ops)))"

definition sandbox_session_create ::
  "tenant_id \<Rightarrow> sandbox_workspace_id \<Rightarrow> sandbox_session_id \<Rightarrow> operation_id
     \<Rightarrow> runtime_capability set \<Rightarrow> isolation_assurance \<Rightarrow> sandbox_session" where
  "sandbox_session_create t w s oid caps assurance =
     \<lparr> session_tenant_id = t, session_workspace_id = w, session_id = s,
       session_state = Created, session_required_capabilities = caps,
       session_minimum_assurance = assurance, session_runtime_binding = None,
       session_last_failure = None,
       session_operations =
         [\<lparr> operation_id_of = oid, operation_kind = Create, operation_outcome = Succeeded \<rparr>],
       session_persisted_count = 0, session_persisted_last_outcome = None,
       session_version = 0 \<rparr>"

definition sandbox_session_restore ::
  "tenant_id \<Rightarrow> sandbox_workspace_id \<Rightarrow> sandbox_session_id \<Rightarrow> sandbox_session_state
     \<Rightarrow> runtime_capability set \<Rightarrow> isolation_assurance \<Rightarrow> sandbox_runtime_binding option
     \<Rightarrow> sandbox_session_failure option \<Rightarrow> sandbox_session_operation list \<Rightarrow> u64
     \<Rightarrow> sandbox_session" where
  "sandbox_session_restore t w s st caps assurance b lf ops v =
     \<lparr> session_tenant_id = t, session_workspace_id = w, session_id = s, session_state = st,
       session_required_capabilities = caps, session_minimum_assurance = assurance,
       session_runtime_binding = b, session_last_failure = lf, session_operations = ops,
       session_persisted_count = length ops, session_persisted_last_outcome = last_outcome ops,
       session_version = v \<rparr>"

definition sandbox_operations_to_persist :: "sandbox_session \<Rightarrow> sandbox_session_operation list" where
  "sandbox_operations_to_persist s =
     (let ops = session_operations s;
          n = length ops;
          first = min (session_persisted_count s) n;
          first' =
            (if first = n \<and> n > 0 then
               (if session_persisted_last_outcome s = Some (operation_outcome (ops ! (n - 1)))
                then first else n - 1)
             else first)
      in drop first' ops)"

definition mark_sandbox_operations_persisted :: "sandbox_session \<Rightarrow> sandbox_session" where
  "mark_sandbox_operations_persisted s =
     s\<lparr> session_persisted_count := length (session_operations s),
        session_persisted_last_outcome := last_outcome (session_operations s) \<rparr>"

definition matches_create ::
  "sandbox_session \<Rightarrow> sandbox_workspace_id \<Rightarrow> sandbox_session_id \<Rightarrow> runtime_capability set
     \<Rightarrow> isolation_assurance \<Rightarrow> bool" where
  "matches_create s w sid caps assurance \<longleftrightarrow>
     session_workspace_id s = w \<and> session_id s = sid
     \<and> session_required_capabilities s = caps \<and> session_minimum_assurance s = assurance"

section \<open>The operation ledger\<close>

definition find_operation ::
  "operation_id \<Rightarrow> sandbox_session_operation list \<Rightarrow> sandbox_session_operation option" where
  "find_operation oid ops = find (\<lambda>x. operation_id_of x = oid) ops"

definition session_replay_operation ::
  "sandbox_session \<Rightarrow> operation_id \<Rightarrow> sandbox_session_operation_kind
     \<Rightarrow> sandbox_operation_outcome option lifecycle_result" where
  "session_replay_operation s oid kind =
     (case find_operation oid (session_operations s) of
        None \<Rightarrow> Inr None
      | Some op \<Rightarrow>
          if operation_kind op \<noteq> kind then Inl (IdempotencyConflict oid)
          else Inr (Some (operation_outcome op)))"

definition begin_sandbox_operation ::
  "operation_id \<Rightarrow> sandbox_session_operation_kind \<Rightarrow> sandbox_session
     \<Rightarrow> sandbox_session lifecycle_result" where
  "begin_sandbox_operation oid kind s =
     (let n = length (session_operations s);
          at_bound = (n \<ge> max_sandbox_session_operations);
          within_grace = (kind = Destroy \<and> n < max_sandbox_session_persisted_operations)
      in if at_bound \<and> \<not> within_grace then
           Inl (InvariantViolation ''sandbox operation ledger is at the retention bound'')
         else
           Inr (s\<lparr> session_operations := session_operations s @
                  [\<lparr> operation_id_of = oid, operation_kind = kind,
                     operation_outcome = InProgress \<rparr>] \<rparr>))"

text \<open>\<open>iter_mut().find(..)\<close> and the assignment to the outcome of the entry found.\<close>

fun set_outcome ::
  "operation_id \<Rightarrow> sandbox_operation_outcome \<Rightarrow> sandbox_session_operation list
     \<Rightarrow> sandbox_session_operation list" where
  "set_outcome oid out [] = []"
| "set_outcome oid out (x # xs) =
     (if operation_id_of x = oid then x\<lparr> operation_outcome := out \<rparr> # xs
      else x # set_outcome oid out xs)"

definition complete_sandbox_operation :: "operation_id \<Rightarrow> sandbox_session \<Rightarrow> sandbox_session" where
  "complete_sandbox_operation oid s =
     s\<lparr> session_operations := set_outcome oid Succeeded (session_operations s) \<rparr>"

definition fail_sandbox_operation ::
  "operation_id \<Rightarrow> sandbox_session_failure \<Rightarrow> sandbox_session \<Rightarrow> sandbox_session" where
  "fail_sandbox_operation oid f s =
     s\<lparr> session_operations := set_outcome oid (OutcomeFailed f) (session_operations s),
        session_last_failure := Some f \<rparr>"

section \<open>Transitions, binding, version\<close>

fun session_can_transition :: "sandbox_session_state \<Rightarrow> sandbox_session_state \<Rightarrow> bool" where
  "session_can_transition Created Starting = True"
| "session_can_transition Created Destroying = True"
| "session_can_transition Starting Running = True"
| "session_can_transition Starting Failed = True"
| "session_can_transition Running Stopping = True"
| "session_can_transition Stopping Stopped = True"
| "session_can_transition Stopping Failed = True"
| "session_can_transition Stopped Starting = True"
| "session_can_transition Stopped Destroying = True"
| "session_can_transition Failed Starting = True"
| "session_can_transition Failed Destroying = True"
| "session_can_transition Destroying Destroyed = True"
| "session_can_transition Destroying Failed = True"
| "session_can_transition _ _ = False"

definition transition_sandbox_session ::
  "sandbox_session_state \<Rightarrow> sandbox_session_operation_kind \<Rightarrow> sandbox_session
     \<Rightarrow> sandbox_session lifecycle_result" where
  "transition_sandbox_session target kind s =
     (if \<not> session_can_transition (session_state s) target then
        Inl (InvalidTransition (session_state s) kind)
      else
        Inr (let s' = s\<lparr> session_state := target \<rparr> in
             if target \<noteq> Failed then s'\<lparr> session_last_failure := None \<rparr> else s'))"

definition set_sandbox_runtime_binding ::
  "sandbox_runtime_binding \<Rightarrow> sandbox_session \<Rightarrow> sandbox_session" where
  "set_sandbox_runtime_binding b s = s\<lparr> session_runtime_binding := Some b \<rparr>"

definition clear_sandbox_runtime_binding :: "sandbox_session \<Rightarrow> sandbox_session" where
  "clear_sandbox_runtime_binding s = s\<lparr> session_runtime_binding := None \<rparr>"

definition next_sandbox_version :: "sandbox_session \<Rightarrow> (u64 \<times> sandbox_session) lifecycle_result" where
  "next_sandbox_version s =
     (case u64_checked_succ (session_version s) of
        None \<Rightarrow>
          Inl (InvariantViolation ''sandbox session version exceeds the persistence maximum'')
      | Some v \<Rightarrow>
          if int (unat v) \<le> max_sandbox_session_version
          then Inr (session_version s, s\<lparr> session_version := v \<rparr>)
          else Inl (InvariantViolation
                 ''sandbox session version exceeds the persistence maximum''))"

interpretation session_table: closed_table session_can_transition "\<lambda>s. s = Destroyed"
  by unfold_locales auto

end
