(* ===== verification/Session_Repository.thy ===== *)
theory Session_Repository
  imports Session_Model
begin

text \<open>
  The session repository port (\<open>repository.rs\<close> of crate \<open>sdkwork-intelligence-sandbox-service\<close>):
  leases, the protected form of an allocation reference, the persisted-state invariants every
  adapter checks on write, and the snapshot a SQL adapter captures and restores. The protector
  (the key service) is a parameter: a record of its operations.
\<close>

section \<open>Leases\<close>

record sandbox_session_lease =
  lease_tenant_id :: tenant_id
  lease_session_id :: sandbox_session_id
  lease_owner_id :: sandbox_lease_owner_id
  lease_fencing_token :: sandbox_fencing_token
  lease_expires_at_unix_millis :: i64

definition sandbox_session_lease_new ::
  "tenant_id \<Rightarrow> sandbox_session_id \<Rightarrow> sandbox_lease_owner_id \<Rightarrow> sandbox_fencing_token \<Rightarrow> i64
     \<Rightarrow> sandbox_session_lease repository_result" where
  "sandbox_session_lease_new t s owner tok expires =
     (if expires \<le> 0 then Inl InvalidStoredData
      else Inr \<lparr> lease_tenant_id = t, lease_session_id = s, lease_owner_id = owner,
                 lease_fencing_token = tok, lease_expires_at_unix_millis = expires \<rparr>)"

section \<open>Protected allocation references\<close>

definition is_safe_sandbox_allocation_key_id :: "string \<Rightarrow> bool" where
  "is_safe_sandbox_allocation_key_id k \<longleftrightarrow>
     k \<noteq> [] \<and> length k \<le> 128 \<and> list_all is_ascii_graphic k"

record protection_context =
  context_tenant_id :: tenant_id
  context_session_id :: sandbox_session_id
  context_runtime_binding_id :: sandbox_runtime_binding_id

definition protection_context_for_repository ::
  "tenant_id \<Rightarrow> sandbox_session_id \<Rightarrow> sandbox_runtime_binding_id \<Rightarrow> protection_context" where
  "protection_context_for_repository t s b =
     \<lparr> context_tenant_id = t, context_session_id = s, context_runtime_binding_id = b \<rparr>"

record protected_allocation_ref =
  protected_ciphertext :: string
  protected_key_id :: string
  protected_key_version :: u64
  protected_crypto_version :: "16 word"

definition protection_versions_in_range :: "u64 \<Rightarrow> 16 word \<Rightarrow> bool" where
  "protection_versions_in_range kv cv \<longleftrightarrow>
     1 \<le> int (unat kv) \<and> int (unat kv) \<le> i64_max \<and> 1 \<le> unat cv \<and> unat cv \<le> 32767"

definition protected_allocation_ref_new ::
  "string \<Rightarrow> string \<Rightarrow> u64 \<Rightarrow> 16 word \<Rightarrow> protected_allocation_ref repository_result" where
  "protected_allocation_ref_new c k kv cv =
     (if c = [] \<or> length c > 8192 \<or> \<not> is_safe_sandbox_allocation_key_id k
         \<or> \<not> protection_versions_in_range kv cv
      then Inl InvalidStoredData
      else Inr \<lparr> protected_ciphertext = c, protected_key_id = k, protected_key_version = kv,
                 protected_crypto_version = cv \<rparr>)"

record protection_version =
  version_key_id :: string
  version_key_version :: u64
  version_crypto_version :: "16 word"

definition protection_version_new ::
  "string \<Rightarrow> u64 \<Rightarrow> 16 word \<Rightarrow> protection_version repository_result" where
  "protection_version_new k kv cv =
     (if \<not> is_safe_sandbox_allocation_key_id k \<or> \<not> protection_versions_in_range kv cv
      then Inl ProtectionFailed
      else Inr \<lparr> version_key_id = k, version_key_version = kv, version_crypto_version = cv \<rparr>)"

definition matches_sandbox_protected_allocation_reference ::
  "protection_version \<Rightarrow> protected_allocation_ref \<Rightarrow> bool" where
  "matches_sandbox_protected_allocation_reference v p \<longleftrightarrow>
     version_key_id v = protected_key_id p \<and> version_key_version v = protected_key_version p
     \<and> version_crypto_version v = protected_crypto_version p"

text \<open>The trait object \<open>SandboxProviderAllocationProtector\<close>.\<close>

record allocation_protector =
  current_protection_version :: "protection_version repository_result"
  protect_reference ::
    "protection_context \<Rightarrow> sandbox_allocation_ref \<Rightarrow> protected_allocation_ref repository_result"
  restore_reference ::
    "protection_context \<Rightarrow> protected_allocation_ref \<Rightarrow> sandbox_allocation_ref repository_result"
  reencrypt_reference ::
    "protection_context \<Rightarrow> protected_allocation_ref \<Rightarrow> protected_allocation_ref repository_result"

section \<open>Persisted-state invariants\<close>

fun sandbox_failure_kind_is_valid ::
  "sandbox_session_operation_kind \<Rightarrow> sandbox_operation_outcome \<Rightarrow> bool" where
  "sandbox_failure_kind_is_valid Start InProgress = True"
| "sandbox_failure_kind_is_valid Start Succeeded = True"
| "sandbox_failure_kind_is_valid Start (OutcomeFailed _) = True"
| "sandbox_failure_kind_is_valid Stop InProgress = True"
| "sandbox_failure_kind_is_valid Stop Succeeded = True"
| "sandbox_failure_kind_is_valid Stop (OutcomeFailed f) = (f = Provider)"
| "sandbox_failure_kind_is_valid Destroy InProgress = True"
| "sandbox_failure_kind_is_valid Destroy Succeeded = True"
| "sandbox_failure_kind_is_valid Destroy (OutcomeFailed f) = (f = Cleanup)"
| "sandbox_failure_kind_is_valid Create _ = False"

definition startable :: "sandbox_session_state \<Rightarrow> bool" where
  "startable st \<longleftrightarrow> st = Created \<or> st = Stopped \<or> st = Failed"

fun replayed_state ::
  "sandbox_session_state \<Rightarrow> sandbox_session_operation_kind \<Rightarrow> sandbox_operation_outcome
     \<Rightarrow> sandbox_session_state option" where
  "replayed_state st Start InProgress = (if startable st then Some Starting else None)"
| "replayed_state st Start Succeeded = (if startable st then Some Running else None)"
| "replayed_state st Start (OutcomeFailed _) = (if startable st then Some Failed else None)"
| "replayed_state st Stop InProgress = (if st = Running then Some Stopping else None)"
| "replayed_state st Stop Succeeded = (if st = Running then Some Stopped else None)"
| "replayed_state st Stop (OutcomeFailed _) = (if st = Running then Some Failed else None)"
| "replayed_state st Destroy InProgress = (if startable st then Some Destroying else None)"
| "replayed_state st Destroy Succeeded = (if startable st then Some Destroyed else None)"
| "replayed_state st Destroy (OutcomeFailed _) = (if startable st then Some Failed else None)"
| "replayed_state st Create _ = None"

fun replayed_failure :: "sandbox_operation_outcome \<Rightarrow> sandbox_session_failure option" where
  "replayed_failure (OutcomeFailed f) = Some f"
| "replayed_failure InProgress = None"
| "replayed_failure Succeeded = None"

text \<open>The replay loop, from the operations seen so far, the state and the failure replayed.\<close>

fun replay_operations ::
  "operation_id set \<Rightarrow> sandbox_session_state \<Rightarrow> sandbox_session_failure option
     \<Rightarrow> sandbox_session_operation list
     \<Rightarrow> (sandbox_session_state \<times> sandbox_session_failure option) repository_result" where
  "replay_operations ids st lf [] = Inr (st, lf)"
| "replay_operations ids st lf (x # xs) =
     (if operation_id_of x \<in> ids then Inl InvalidStoredData
      else if \<not> sandbox_failure_kind_is_valid (operation_kind x) (operation_outcome x) then
        Inl InvalidStoredData
      else
        (case replayed_state st (operation_kind x) (operation_outcome x) of
           None \<Rightarrow> Inl InvalidStoredData
         | Some st' \<Rightarrow>
             replay_operations (insert (operation_id_of x) ids) st'
               (replayed_failure (operation_outcome x)) xs))"

fun sandbox_state_is_consistent :: "sandbox_session_state \<Rightarrow> bool \<Rightarrow> bool \<Rightarrow> bool" where
  "sandbox_state_is_consistent Created has_binding has_allocation = (\<not> has_binding)"
| "sandbox_state_is_consistent Starting has_binding has_allocation = has_binding"
| "sandbox_state_is_consistent Running has_binding has_allocation = has_allocation"
| "sandbox_state_is_consistent Stopping has_binding has_allocation = has_allocation"
| "sandbox_state_is_consistent Stopped has_binding has_allocation = has_allocation"
| "sandbox_state_is_consistent Failed has_binding has_allocation = True"
| "sandbox_state_is_consistent Destroying has_binding has_allocation = True"
| "sandbox_state_is_consistent Destroyed has_binding has_allocation = (\<not> has_binding)"

definition validate_sandbox_persisted_state ::
  "sandbox_session_state \<Rightarrow> sandbox_session_failure option \<Rightarrow> u64 \<Rightarrow> bool \<Rightarrow> bool
     \<Rightarrow> sandbox_session_operation list \<Rightarrow> unit repository_result" where
  "validate_sandbox_persisted_state st lf v has_binding has_allocation ops =
     (if int (unat v) > max_sandbox_session_version then Inl InvalidStoredData
      else
        (case ops of
           [] \<Rightarrow> Inl InvalidStoredData
         | x # xs \<Rightarrow>
             if operation_kind x \<noteq> Create \<or> operation_outcome x \<noteq> Succeeded then
               Inl InvalidStoredData
             else
               (case replay_operations {operation_id_of x} Created None xs of
                  Inl e \<Rightarrow> Inl e
                | Inr (st', lf') \<Rightarrow>
                    if st' \<noteq> st \<or> lf' \<noteq> lf then Inl InvalidStoredData
                    else if \<not> sandbox_state_is_consistent st has_binding has_allocation then
                      Inl InvalidStoredData
                    else Inr ())))"

definition has_allocation_reference :: "sandbox_runtime_binding option \<Rightarrow> bool" where
  "has_allocation_reference b \<longleftrightarrow>
     (case b of None \<Rightarrow> False | Some x \<Rightarrow> binding_allocation_ref x \<noteq> None)"

definition validate_sandbox_session_persisted_invariants ::
  "sandbox_session \<Rightarrow> unit repository_result" where
  "validate_sandbox_session_persisted_invariants s =
     validate_sandbox_persisted_state (session_state s) (session_last_failure s)
       (session_version s) (session_runtime_binding s \<noteq> None)
       (has_allocation_reference (session_runtime_binding s)) (session_operations s)"

section \<open>Snapshots\<close>

text \<open>
  The operation snapshot has the fields of the ledger entry, so the entry itself stands for it.
\<close>

type_synonym sandbox_operation_snapshot = sandbox_session_operation

record sandbox_binding_snapshot =
  snapshot_sandbox_id :: sandbox_id
  snapshot_runtime_binding_id :: sandbox_runtime_binding_id
  snapshot_provider_id :: sandbox_provider_id
  snapshot_protected_reference :: "protected_allocation_ref option"

record sandbox_session_snapshot =
  snapshot_tenant_id :: tenant_id
  snapshot_workspace_id :: sandbox_workspace_id
  snapshot_session_id :: sandbox_session_id
  snapshot_state :: sandbox_session_state
  snapshot_required_capabilities :: "runtime_capability set"
  snapshot_minimum_assurance :: isolation_assurance
  snapshot_runtime_binding :: "sandbox_binding_snapshot option"
  snapshot_last_failure :: "sandbox_session_failure option"
  snapshot_operations :: "sandbox_operation_snapshot list"
  snapshot_persisted_operations :: "sandbox_operation_snapshot list option"
  snapshot_version :: u64

definition snapshot_validate :: "sandbox_session_snapshot \<Rightarrow> unit repository_result" where
  "snapshot_validate p =
     validate_sandbox_persisted_state (snapshot_state p) (snapshot_last_failure p)
       (snapshot_version p) (snapshot_runtime_binding p \<noteq> None)
       (case snapshot_runtime_binding p of
          None \<Rightarrow> False | Some b \<Rightarrow> snapshot_protected_reference b \<noteq> None)
       (snapshot_operations p)"

definition snapshot_capture_binding ::
  "allocation_protector \<Rightarrow> sandbox_session \<Rightarrow> sandbox_runtime_binding
     \<Rightarrow> sandbox_binding_snapshot repository_result" where
  "snapshot_capture_binding p s b =
     (let ctx = protection_context_for_repository (session_tenant_id s) (session_id s)
            (binding_runtime_id b);
          snap = (\<lambda>r. \<lparr> snapshot_sandbox_id = binding_sandbox_id b,
            snapshot_runtime_binding_id = binding_runtime_id b,
            snapshot_provider_id = binding_provider_id b, snapshot_protected_reference = r \<rparr>)
      in (case binding_allocation_ref b of
            None \<Rightarrow> Inr (snap None)
          | Some a \<Rightarrow>
              (case protect_reference p ctx a of Inl e \<Rightarrow> Inl e | Inr q \<Rightarrow> Inr (snap (Some q)))))"

definition snapshot_capture ::
  "allocation_protector \<Rightarrow> sandbox_session \<Rightarrow> sandbox_session_snapshot repository_result" where
  "snapshot_capture p s =
     (let build = (\<lambda>b.
            (let snap = \<lparr> snapshot_tenant_id = session_tenant_id s,
               snapshot_workspace_id = session_workspace_id s, snapshot_session_id = session_id s,
               snapshot_state = session_state s,
               snapshot_required_capabilities = session_required_capabilities s,
               snapshot_minimum_assurance = session_minimum_assurance s,
               snapshot_runtime_binding = b, snapshot_last_failure = session_last_failure s,
               snapshot_operations = session_operations s,
               snapshot_persisted_operations = Some (sandbox_operations_to_persist s),
               snapshot_version = session_version s \<rparr>
             in (case snapshot_validate snap of Inl e \<Rightarrow> Inl e | Inr _ \<Rightarrow> Inr snap)))
      in (case session_runtime_binding s of
            None \<Rightarrow> build None
          | Some b \<Rightarrow>
              (case snapshot_capture_binding p s b of Inl e \<Rightarrow> Inl e | Inr q \<Rightarrow> build (Some q))))"

definition snapshot_restore_binding ::
  "allocation_protector \<Rightarrow> sandbox_session_snapshot \<Rightarrow> sandbox_binding_snapshot
     \<Rightarrow> sandbox_runtime_binding repository_result" where
  "snapshot_restore_binding p snap b =
     (let ctx = protection_context_for_repository (snapshot_tenant_id snap)
            (snapshot_session_id snap) (snapshot_runtime_binding_id b);
          bind = sandbox_runtime_binding_restore (snapshot_sandbox_id b)
            (snapshot_runtime_binding_id b) (snapshot_provider_id b)
      in (case snapshot_protected_reference b of
            None \<Rightarrow> Inr (bind None)
          | Some q \<Rightarrow>
              (case restore_reference p ctx q of Inl e \<Rightarrow> Inl e | Inr a \<Rightarrow> Inr (bind (Some a)))))"

definition snapshot_restore ::
  "allocation_protector \<Rightarrow> sandbox_session_snapshot \<Rightarrow> sandbox_session repository_result" where
  "snapshot_restore p snap =
     (case snapshot_validate snap of
        Inl e \<Rightarrow> Inl e
      | Inr _ \<Rightarrow>
          (let build = (\<lambda>b. sandbox_session_restore (snapshot_tenant_id snap)
                 (snapshot_workspace_id snap) (snapshot_session_id snap) (snapshot_state snap)
                 (snapshot_required_capabilities snap) (snapshot_minimum_assurance snap) b
                 (snapshot_last_failure snap) (snapshot_operations snap) (snapshot_version snap))
           in (case snapshot_runtime_binding snap of
                 None \<Rightarrow> Inr (build None)
               | Some b \<Rightarrow>
                   (case snapshot_restore_binding p snap b of
                      Inl e \<Rightarrow> Inl e | Inr r \<Rightarrow> Inr (build (Some r))))))"

definition snapshot_operations_to_persist ::
  "sandbox_session_snapshot \<Rightarrow> sandbox_operation_snapshot list" where
  "snapshot_operations_to_persist snap =
     (case snapshot_persisted_operations snap of None \<Rightarrow> snapshot_operations snap | Some w \<Rightarrow> w)"

text \<open>
  \<open>BoundedSandboxSessionRepository::bounded\<close>: \<open>None\<close> is a call still pending when the timeout
  elapses.
\<close>

definition bounded_repository_call :: "'a repository_result option \<Rightarrow> 'a repository_result" where
  "bounded_repository_call r = (case r of Some x \<Rightarrow> x | None \<Rightarrow> Inl RepositoryUnavailable)"

end
