(* ===== verification/Session_Ledger.thy ===== *)
theory Session_Ledger
  imports Session_Repository
begin

text \<open>
  What the persisted-state check means. A valid session is one whose ledger replays to its state
  and last failure; an in-progress entry can only be the last one; and every step the lifecycle
  service takes on a session in memory (begin, record an allocation, resolve) keeps it valid. The
  transition table of the aggregate and the replay table of the repository are two descriptions of
  one machine: \<open>replayed_state\<close> composes legal transitions.
\<close>

named_theorems session_defs \<open>definitions of the session aggregate's operations\<close>

declare begin_sandbox_operation_def [session_defs] complete_sandbox_operation_def [session_defs]
  fail_sandbox_operation_def [session_defs] transition_sandbox_session_def [session_defs]
  set_sandbox_runtime_binding_def [session_defs] clear_sandbox_runtime_binding_def [session_defs]
  next_sandbox_version_def [session_defs] mark_sandbox_operations_persisted_def [session_defs]

section \<open>Validity\<close>

definition session_valid :: "sandbox_session \<Rightarrow> bool" where
  "session_valid s \<longleftrightarrow> validate_sandbox_session_persisted_invariants s = Inr ()"

definition requires_reconciliation :: "sandbox_session_state \<Rightarrow> bool" where
  "requires_reconciliation st \<longleftrightarrow> st = Starting \<or> st = Stopping \<or> st = Destroying"

lemma session_valid_iff:
  "session_valid s \<longleftrightarrow>
     int (unat (session_version s)) \<le> max_sandbox_session_version \<and>
     (\<exists>c xs. session_operations s = c # xs \<and> operation_kind c = Create
        \<and> operation_outcome c = Succeeded
        \<and> replay_operations {operation_id_of c} Created None xs
            = Inr (session_state s, session_last_failure s)
        \<and> sandbox_state_is_consistent (session_state s) (session_runtime_binding s \<noteq> None)
            (has_allocation_reference (session_runtime_binding s)))"
  unfolding session_valid_def validate_sandbox_session_persisted_invariants_def
    validate_sandbox_persisted_state_def
  by (auto split: list.splits sum.splits if_splits)

lemma replay_operations_error:
  "replay_operations ids st lf xs = Inl e \<Longrightarrow> e = InvalidStoredData"
  by (induction ids st lf xs rule: replay_operations.induct) (auto split: if_splits option.splits)

lemma replay_operations_snoc:
  "replay_operations ids st lf (xs @ [x]) =
     (case replay_operations ids st lf xs of
        Inl e \<Rightarrow> Inl e
      | Inr (st', lf') \<Rightarrow>
          if operation_id_of x \<in> ids \<union> operation_id_of ` set xs then Inl InvalidStoredData
          else if \<not> sandbox_failure_kind_is_valid (operation_kind x) (operation_outcome x) then
            Inl InvalidStoredData
          else
            (case replayed_state st' (operation_kind x) (operation_outcome x) of
               None \<Rightarrow> Inl InvalidStoredData
             | Some st'' \<Rightarrow> Inr (st'', replayed_failure (operation_outcome x))))"
proof (induction ids st lf xs rule: replay_operations.induct)
  case (1 ids st lf)
  show ?case by (auto split: option.splits)
next
  case (2 ids st lf y ys)
  show ?case
  proof (cases "operation_id_of y \<in> ids
      \<or> \<not> sandbox_failure_kind_is_valid (operation_kind y) (operation_outcome y)")
    case True
    then show ?thesis by auto
  next
    case False
    then show ?thesis
      using 2 by (cases "replayed_state st (operation_kind y) (operation_outcome y)")
        (simp_all split: sum.split)
  qed
qed

lemma replay_ids:
  "replay_operations ids st lf xs = Inr r \<Longrightarrow>
     distinct (map operation_id_of xs) \<and> ids \<inter> operation_id_of ` set xs = {}"
  by (induction ids st lf xs rule: replay_operations.induct)
    (auto split: if_splits option.splits)

lemma replayed_state_transient:
  "requires_reconciliation st \<Longrightarrow> replayed_state st k out = None"
  by (cases k; cases out) (auto simp: requires_reconciliation_def startable_def)

lemma replayed_state_target_transient:
  "replayed_state st k out = Some st' \<Longrightarrow> requires_reconciliation st' \<longleftrightarrow> out = InProgress"
  by (cases k; cases out) (auto simp: requires_reconciliation_def split: if_splits)

lemma replay_from_transient:
  "replay_operations ids st lf xs = Inr r \<Longrightarrow> requires_reconciliation st \<Longrightarrow> xs = []"
  by (cases xs) (auto simp: replayed_state_transient split: if_splits)

text \<open>An entry in progress is the last one, and the session is transient exactly then.\<close>

lemma replay_in_progress_last:
  assumes "replay_operations ids st lf xs = Inr (st', lf')" "x \<in> set (butlast xs)"
  shows "operation_outcome x \<noteq> InProgress"
  using assms
proof (induction ids st lf xs rule: replay_operations.induct)
  case (2 ids st lf y ys)
  from 2(2) obtain mid where
    mid: "replayed_state st (operation_kind y) (operation_outcome y) = Some mid"
      "replay_operations (insert (operation_id_of y) ids) mid
         (replayed_failure (operation_outcome y)) ys = Inr (st', lf')"
    and ok: "operation_id_of y \<notin> ids"
      "sandbox_failure_kind_is_valid (operation_kind y) (operation_outcome y)"
    by (auto split: if_splits option.splits)
  from 2(3) have ne: "ys \<noteq> []" by auto
  show ?case
  proof (cases "x = y")
    case True
    have "\<not> requires_reconciliation mid"
      using replay_from_transient [OF mid(2)] ne by blast
    then show ?thesis
      using replayed_state_target_transient [OF mid(1)] True by simp
  next
    case False
    then have "x \<in> set (butlast ys)" using 2(3) ne by simp
    then show ?thesis using 2(1) ok mid by simp
  qed
qed simp

lemma replay_state_last:
  assumes "replay_operations ids st lf xs = Inr (st', lf')" "xs \<noteq> []"
  shows "requires_reconciliation st' \<longleftrightarrow> operation_outcome (last xs) = InProgress"
    and "lf' = replayed_failure (operation_outcome (last xs))"
proof -
  obtain ys y where xs: "xs = ys @ [y]" using assms(2) by (cases xs rule: rev_cases) auto
  from assms(1) [unfolded xs replay_operations_snoc] obtain mid where
    "replayed_state mid (operation_kind y) (operation_outcome y) = Some st'"
    "lf' = replayed_failure (operation_outcome y)"
    by (auto split: sum.splits if_splits option.splits)
  then show "requires_reconciliation st' \<longleftrightarrow> operation_outcome (last xs) = InProgress"
    and "lf' = replayed_failure (operation_outcome (last xs))"
    using replayed_state_target_transient xs by auto
qed

lemma valid_ledger:
  assumes "session_valid s"
  obtains c xs where "session_operations s = c # xs" "operation_kind c = Create"
    "operation_outcome c = Succeeded"
    "replay_operations {operation_id_of c} Created None xs
       = Inr (session_state s, session_last_failure s)"
    "distinct (map operation_id_of (c # xs))"
proof -
  from assms obtain c xs where *: "session_operations s = c # xs" "operation_kind c = Create"
    "operation_outcome c = Succeeded"
    "replay_operations {operation_id_of c} Created None xs
       = Inr (session_state s, session_last_failure s)"
    by (auto simp: session_valid_iff)
  with replay_ids [OF *(4)] show thesis using that by auto
qed

lemma valid_distinct: "session_valid s \<Longrightarrow> distinct (map operation_id_of (session_operations s))"
  by (metis valid_ledger)

lemma valid_nonempty: "session_valid s \<Longrightarrow> session_operations s \<noteq> []"
  by (auto simp: session_valid_iff)

lemma valid_version: "session_valid s \<Longrightarrow> int (unat (session_version s)) \<le> i64_max"
  by (simp add: session_valid_iff max_sandbox_session_version_def)

lemma valid_consistent:
  "session_valid s \<Longrightarrow>
     sandbox_state_is_consistent (session_state s) (session_runtime_binding s \<noteq> None)
       (has_allocation_reference (session_runtime_binding s))"
  by (auto simp: session_valid_iff)

lemma valid_transient_last:
  assumes "session_valid s"
  shows "requires_reconciliation (session_state s) \<longleftrightarrow>
           operation_outcome (last (session_operations s)) = InProgress"
proof -
  obtain c xs where *: "session_operations s = c # xs" "operation_outcome c = Succeeded"
    "replay_operations {operation_id_of c} Created None xs
       = Inr (session_state s, session_last_failure s)"
    using valid_ledger [OF assms] by metis
  show ?thesis
  proof (cases "xs = []")
    case True
    with * show ?thesis by (auto simp: requires_reconciliation_def)
  next
    case False
    with * replay_state_last(1) [OF *(3) False] show ?thesis by simp
  qed
qed

lemma valid_in_progress_last:
  assumes "session_valid s" "x \<in> set (butlast (session_operations s))"
  shows "operation_outcome x \<noteq> InProgress"
proof -
  obtain c xs where *: "session_operations s = c # xs" "operation_outcome c = Succeeded"
    "replay_operations {operation_id_of c} Created None xs
       = Inr (session_state s, session_last_failure s)"
    using valid_ledger [OF assms(1)] by metis
  from assms(2) * have "x = c \<or> x \<in> set (butlast xs)" by (auto split: if_splits)
  with * replay_in_progress_last [OF *(3)] show ?thesis by auto
qed

section \<open>The two tables agree\<close>

lemma begin_target_transition:
  "replayed_state st k InProgress = Some mid \<Longrightarrow> session_can_transition st mid"
  by (cases k) (auto simp: startable_def split: if_splits)

lemma resolve_target_transition:
  assumes "replayed_state st k InProgress = Some mid" "replayed_state st k out = Some fin"
    "out \<noteq> InProgress"
  shows "session_can_transition mid fin"
  using assms by (cases k; cases out) (auto simp: startable_def split: if_splits)

lemma transition_ok:
  "transition_sandbox_session target k s = Inr s' \<Longrightarrow>
     s' = s\<lparr> session_state := target,
       session_last_failure := (if target \<noteq> Failed then None else session_last_failure s) \<rparr>"
  by (auto simp: session_defs Let_def split: if_splits)

section \<open>Every in-memory step keeps a session valid\<close>

text \<open>The state an operation ends in, and the state it is in while it runs.\<close>

fun running_state :: "sandbox_session_operation_kind \<Rightarrow> sandbox_session_state" where
  "running_state Start = Starting"
| "running_state Stop = Stopping"
| "running_state Destroy = Destroying"
| "running_state Create = Created"

fun resolved_state ::
  "sandbox_session_operation_kind \<Rightarrow> sandbox_operation_outcome \<Rightarrow> sandbox_session_state" where
  "resolved_state k (OutcomeFailed f) = Failed"
| "resolved_state Start Succeeded = Running"
| "resolved_state Stop Succeeded = Stopped"
| "resolved_state Destroy Succeeded = Destroyed"
| "resolved_state Create Succeeded = Created"
| "resolved_state k InProgress = running_state k"

lemma replayed_running:
  "replayed_state st k InProgress = Some mid \<Longrightarrow> mid = running_state k \<and> k \<noteq> Create"
  by (cases k) (auto split: if_splits)

lemma replayed_resolved:
  "replayed_state st k InProgress = Some mid \<Longrightarrow> replayed_state st k out = Some (resolved_state k out)"
  by (cases k; cases out) (auto split: if_splits)

lemma find_operation_None:
  "find_operation oid ops = None \<longleftrightarrow> oid \<notin> operation_id_of ` set ops"
  by (auto simp: find_operation_def find_None_iff)

lemma find_operation_Some:
  "find_operation oid ops = Some x \<Longrightarrow> x \<in> set ops \<and> operation_id_of x = oid"
  by (auto simp: find_operation_def find_Some_iff)

lemma set_outcome_ids [simp]: "map operation_id_of (set_outcome oid out ops) = map operation_id_of ops"
  by (induction ops) auto

lemma set_outcome_length [simp]: "length (set_outcome oid out ops) = length ops"
  by (induction ops) auto

lemma set_outcome_nonempty [simp]: "set_outcome oid out ops = [] \<longleftrightarrow> ops = []"
  by (cases ops) auto

lemma set_outcome_snoc:
  "operation_id_of x \<notin> operation_id_of ` set xs \<Longrightarrow>
     set_outcome (operation_id_of x) out (xs @ [x]) = xs @ [x\<lparr> operation_outcome := out \<rparr>]"
  by (induction xs) auto

lemma create_valid: "session_valid (sandbox_session_create t w s oid caps a)"
  by (simp add: session_valid_iff sandbox_session_create_def max_sandbox_session_version_def
      i64_max_def)

lemma session_begin_ok:
  "begin_sandbox_operation oid k s = Inr s' \<Longrightarrow>
     s' = s\<lparr> session_operations := session_operations s @
       [\<lparr> operation_id_of = oid, operation_kind = k, operation_outcome = InProgress \<rparr>] \<rparr>"
  by (auto simp: session_defs Let_def split: if_splits)

lemma begin_valid:
  assumes valid: "session_valid s"
    and fresh: "find_operation oid (session_operations s) = None"
    and mid: "replayed_state (session_state s) k InProgress = Some mid"
    and ok: "sandbox_state_is_consistent mid (b \<noteq> None) (has_allocation_reference b)"
    and s': "s' = s\<lparr> session_runtime_binding := b, session_state := mid,
        session_last_failure := None, session_operations := session_operations s @
        [\<lparr> operation_id_of = oid, operation_kind = k, operation_outcome = InProgress \<rparr>] \<rparr>"
  shows "session_valid s'"
proof -
  obtain c xs where *: "session_operations s = c # xs" "operation_kind c = Create"
    "operation_outcome c = Succeeded"
    "replay_operations {operation_id_of c} Created None xs
       = Inr (session_state s, session_last_failure s)"
    using valid_ledger [OF valid] by metis
  have new: "oid \<notin> {operation_id_of c} \<union> operation_id_of ` set xs"
    using fresh * by (simp add: find_operation_None)
  have kind: "sandbox_failure_kind_is_valid k InProgress"
    using replayed_running [OF mid] by (cases k) auto
  have "replay_operations {operation_id_of c} Created None
      (xs @ [\<lparr> operation_id_of = oid, operation_kind = k, operation_outcome = InProgress \<rparr>])
      = Inr (mid, None)"
    unfolding replay_operations_snoc using * new kind mid by auto
  then show ?thesis
    using * ok valid s' by (auto simp: session_valid_iff)
qed

lemma resolve_valid:
  assumes valid: "session_valid s"
    and x: "session_operations s \<noteq> []" "last (session_operations s) = x"
      "operation_outcome x = InProgress"
    and kind: "sandbox_failure_kind_is_valid (operation_kind x) out"
    and ok: "sandbox_state_is_consistent (resolved_state (operation_kind x) out) (b \<noteq> None)
      (has_allocation_reference b)"
    and s': "s' = s\<lparr> session_runtime_binding := b,
        session_state := resolved_state (operation_kind x) out,
        session_last_failure := replayed_failure out,
        session_operations := set_outcome (operation_id_of x) out (session_operations s) \<rparr>"
  shows "session_valid s'"
proof -
  obtain c xs where *: "session_operations s = c # xs" "operation_kind c = Create"
    "operation_outcome c = Succeeded"
    "replay_operations {operation_id_of c} Created None xs
       = Inr (session_state s, session_last_failure s)"
    "distinct (map operation_id_of (c # xs))"
    using valid_ledger [OF valid] by metis
  with x have "xs \<noteq> []" by auto
  then obtain ys where xs: "xs = ys @ [x]"
    using x * by (metis append_butlast_last_id last_ConsR)
  from *(4) [unfolded xs replay_operations_snoc] obtain mid lf where pre:
    "replay_operations {operation_id_of c} Created None ys = Inr (mid, lf)"
    "operation_id_of x \<notin> {operation_id_of c} \<union> operation_id_of ` set ys"
    "replayed_state mid (operation_kind x) InProgress = Some (session_state s)"
    using x(3) by (auto split: sum.splits if_splits option.splits)
  have "replay_operations {operation_id_of c} Created None
      (ys @ [x\<lparr> operation_outcome := out \<rparr>])
      = Inr (resolved_state (operation_kind x) out, replayed_failure out)"
    unfolding replay_operations_snoc using pre kind replayed_resolved [OF pre(3)] by auto
  moreover have "set_outcome (operation_id_of x) out (session_operations s)
      = c # (ys @ [x\<lparr> operation_outcome := out \<rparr>])"
    using set_outcome_snoc [of x "c # ys" out] pre(2) * xs by auto
  ultimately show ?thesis
    using * ok valid s' by (auto simp: session_valid_iff)
qed

text \<open>The running state of a valid session tells the kind of the entry in progress.\<close>

lemma valid_in_progress:
  assumes "session_valid s" "session_state s = running_state k" "k \<noteq> Create"
  obtains x where "session_operations s \<noteq> []" "last (session_operations s) = x"
    "operation_outcome x = InProgress" "operation_kind x = k"
proof -
  obtain c xs where *: "session_operations s = c # xs" "operation_outcome c = Succeeded"
    "replay_operations {operation_id_of c} Created None xs
       = Inr (session_state s, session_last_failure s)"
    using valid_ledger [OF assms(1)] by metis
  have "xs \<noteq> []"
    using * assms(2,3) by (cases k) auto
  then obtain ys x where xs: "xs = ys @ [x]" by (metis rev_exhaust)
  from *(3) [unfolded xs replay_operations_snoc] obtain mid where
    "replayed_state mid (operation_kind x) (operation_outcome x) = Some (session_state s)"
    by (auto split: sum.splits if_splits option.splits)
  then have "operation_outcome x = InProgress \<and> operation_kind x = k"
    using assms(2,3) by (cases k; cases "operation_kind x"; cases "operation_outcome x")
      (auto split: if_splits)
  then show thesis using that xs * by simp
qed

text \<open>Recording an allocation in a transient session, and the version a save carries.\<close>

lemma rebind_valid:
  assumes "session_valid s"
    "sandbox_state_is_consistent (session_state s) (b \<noteq> None) (has_allocation_reference b)"
  shows "session_valid (s\<lparr> session_runtime_binding := b \<rparr>)"
  using assms by (auto simp: session_valid_iff)

lemma next_version_ok:
  "next_sandbox_version s = Inr (v, s') \<Longrightarrow>
     v = session_version s \<and> s' = s\<lparr> session_version := session_version s' \<rparr>
     \<and> unat (session_version s') = Suc (unat v) \<and> int (unat (session_version s')) \<le> i64_max"
  by (auto simp: session_defs max_sandbox_session_version_def dest!: u64_checked_succ_Some
      split: option.splits if_splits)

lemma next_version_valid:
  "next_sandbox_version s = Inr (v, s') \<Longrightarrow> session_valid s \<Longrightarrow> session_valid s'"
  by (auto simp: session_defs session_valid_iff split: option.splits if_splits)

lemma mark_valid [simp]: "session_valid (mark_sandbox_operations_persisted s) = session_valid s"
  by (simp add: session_defs session_valid_iff)

section \<open>The persistence window\<close>

text \<open>
  The store holds the ledger \<open>stored\<close> it was last given. A session that has since resolved its
  last entry, or appended entries behind a last entry the store already has, sends a window that
  rebuilds its ledger from the stored one.
\<close>

definition session_ledger_extends ::
  "sandbox_session_operation list \<Rightarrow> sandbox_session_operation list \<Rightarrow> bool" where
  "session_ledger_extends stored ops \<longleftrightarrow>
     (\<exists>tail. ops = stored @ tail)
     \<or> (\<exists>xs x out. stored = xs @ [x] \<and> ops = xs @ [x\<lparr> operation_outcome := out \<rparr>])"

definition apply_window ::
  "sandbox_session_operation list \<Rightarrow> nat \<Rightarrow> sandbox_session_operation list
     \<Rightarrow> sandbox_session_operation list" where
  "apply_window stored n window = take (n - length window) stored @ window"

lemma window_rebuilds:
  assumes count: "session_persisted_count s = length stored"
    and outcome: "session_persisted_last_outcome s = last_outcome stored"
    and ext: "session_ledger_extends stored (session_operations s)"
  shows "apply_window stored (length (session_operations s)) (sandbox_operations_to_persist s)
           = session_operations s"
  using ext unfolding session_ledger_extends_def
proof (elim disjE exE conjE)
  fix tail assume "session_operations s = stored @ tail"
  then show ?thesis
    using count outcome
    by (cases "tail = []"; cases stored rule: rev_cases)
      (auto simp: apply_window_def sandbox_operations_to_persist_def Let_def last_outcome_def
        nth_append)
next
  fix xs x out
  assume *: "stored = xs @ [x]" "session_operations s = xs @ [x\<lparr> operation_outcome := out \<rparr>]"
  then have len: "length (session_operations s) = Suc (length xs)" by simp
  show ?thesis
  proof (cases "operation_outcome x = out")
    case True
    then have "session_operations s = stored" using * by simp
    then show ?thesis
      using count outcome * True
      by (auto simp: apply_window_def sandbox_operations_to_persist_def Let_def last_outcome_def
          nth_append)
  next
    case False
    then have "sandbox_operations_to_persist s = [x\<lparr> operation_outcome := out \<rparr>]"
      using count outcome * by (auto simp: sandbox_operations_to_persist_def Let_def
          last_outcome_def nth_append)
    then show ?thesis using * by (simp add: apply_window_def)
  qed
qed

end
