(* ===== verification/Session_Store.thy ===== *)
theory Session_Store
  imports Session_Ledger
begin

text \<open>
  The in-memory adapter of the session repository (crate
  \<open>sdkwork-intelligence-sandbox-repository-memory\<close>): tenants to sessions, the tenant-wide index of
  operation identifiers, and one lease per session. Every operation takes the write (or read) lock
  once, so it is one step. \<open>Instant::now()\<close> (nanoseconds since an origin) and the wall clock
  (milliseconds) are arguments of the operations that read them; a \<open>Duration\<close> is a number of
  nanoseconds. An operation returns its result and the state it leaves, because some errors occur
  after the lease has been written.
\<close>

record sandbox_memory_lease =
  memory_lease_owner :: "sandbox_lease_owner_id option"
  memory_lease_token :: u64
  memory_lease_expires_at :: "nat option"
  memory_lease_expires_unix :: "i64 option"

record sandbox_repository_state =
  repository_sessions :: "(tenant_id, (sandbox_session_id, sandbox_session) btree) btree"
  repository_operations :: "(tenant_id \<times> operation_id) \<Rightarrow> sandbox_session_id option"
  repository_leases :: "(tenant_id \<times> sandbox_session_id) \<Rightarrow> sandbox_memory_lease option"

definition empty_repository :: sandbox_repository_state where
  "empty_repository = \<lparr> repository_sessions = [], repository_operations = (\<lambda>_. None),
     repository_leases = (\<lambda>_. None) \<rparr>"

definition sandbox_lease_duration_millis :: "nat \<Rightarrow> i64 repository_result" where
  "sandbox_lease_duration_millis d =
     (let millis = d div 1000000
      in if 1 \<le> millis \<and> millis \<le> 300000 then Inr (int millis) else Inl LeaseConflict)"

definition i64_checked_add_opt :: "i64 \<Rightarrow> i64 \<Rightarrow> i64 option" where
  "i64_checked_add_opt x y =
     (if - i64_max - 1 \<le> x + y \<and> x + y \<le> i64_max then Some (x + y) else None)"

text \<open>\<open>sandbox_session_lease\<close>: the lease handed out for a memory lease.\<close>

definition memory_session_lease ::
  "tenant_id \<Rightarrow> sandbox_session_id \<Rightarrow> sandbox_memory_lease
     \<Rightarrow> sandbox_session_lease repository_result" where
  "memory_session_lease t sid m =
     (case memory_lease_owner m of
        None \<Rightarrow> Inl InvalidStoredData
      | Some owner \<Rightarrow>
          (case fencing_token_new (memory_lease_token m) of
             Inl _ \<Rightarrow> Inl InvalidStoredData
           | Inr tok \<Rightarrow>
               (case memory_lease_expires_unix m of
                  None \<Rightarrow> Inl InvalidStoredData
                | Some expires \<Rightarrow> sandbox_session_lease_new t sid owner tok expires)))"

definition collect_sandbox_reconciliation_page ::
  "(sandbox_session_id \<times> sandbox_session) list \<Rightarrow> nat
     \<Rightarrow> (sandbox_session_id \<times> sandbox_session_state) list" where
  "collect_sandbox_reconciliation_page entries page_size =
     map (\<lambda>(sid, s). (sid, session_state s))
       (take page_size
         (filter (\<lambda>(sid, s). session_state s = Starting \<or> session_state s = Stopping
            \<or> session_state s = Destroying) entries))"

definition lookup_session ::
  "tenant_id \<Rightarrow> sandbox_session_id \<Rightarrow> sandbox_repository_state \<Rightarrow> sandbox_session option" where
  "lookup_session t sid r =
     (case btm_get (repository_sessions r) t of
        None \<Rightarrow> None | Some m \<Rightarrow> btm_get m sid)"

section \<open>Reading\<close>

definition memory_find_by_sandbox_operation ::
  "tenant_id \<Rightarrow> operation_id \<Rightarrow> sandbox_repository_state
     \<Rightarrow> sandbox_session option repository_result" where
  "memory_find_by_sandbox_operation t oid r =
     (case repository_operations r (t, oid) of
        None \<Rightarrow> Inr None | Some sid \<Rightarrow> Inr (lookup_session t sid r))"

definition memory_get_sandbox_session ::
  "tenant_id \<Rightarrow> sandbox_session_id \<Rightarrow> sandbox_repository_state
     \<Rightarrow> sandbox_session option repository_result" where
  "memory_get_sandbox_session t sid r = Inr (lookup_session t sid r)"

definition memory_list_requiring_reconciliation ::
  "tenant_id \<Rightarrow> sandbox_session_id option \<Rightarrow> nat \<Rightarrow> sandbox_repository_state
     \<Rightarrow> (sandbox_session_id \<times> sandbox_session_state) list repository_result" where
  "memory_list_requiring_reconciliation t after page_size r =
     (if \<not> (1 \<le> page_size \<and> page_size \<le> 200) then Inl InvalidPageRequest
      else
        (case btm_get (repository_sessions r) t of
           None \<Rightarrow> Inr []
         | Some m \<Rightarrow>
             (case after of
                Some a \<Rightarrow>
                  Inr (collect_sandbox_reconciliation_page (filter (\<lambda>e. a < fst e) m) page_size)
              | None \<Rightarrow> Inr (collect_sandbox_reconciliation_page m page_size))))"

section \<open>Writing\<close>

definition operation_index_insert ::
  "tenant_id \<Rightarrow> sandbox_session_id \<Rightarrow> sandbox_session_operation list
     \<Rightarrow> (tenant_id \<times> operation_id \<Rightarrow> sandbox_session_id option)
     \<Rightarrow> (tenant_id \<times> operation_id \<Rightarrow> sandbox_session_id option)" where
  "operation_index_insert t sid ops index =
     fold (\<lambda>x f. f((t, operation_id_of x) \<mapsto> sid)) ops index"

definition store_session ::
  "sandbox_session \<Rightarrow> sandbox_repository_state \<Rightarrow> sandbox_repository_state" where
  "store_session s r =
     r\<lparr> repository_operations := operation_index_insert (session_tenant_id s) (session_id s)
          (session_operations s) (repository_operations r),
        repository_sessions := btm_insert (session_tenant_id s)
          (btm_insert (session_id s) s
             (case btm_get (repository_sessions r) (session_tenant_id s) of
                None \<Rightarrow> [] | Some m \<Rightarrow> m))
          (repository_sessions r) \<rparr>"

definition memory_insert_sandbox_session ::
  "sandbox_session \<Rightarrow> sandbox_repository_state
     \<Rightarrow> unit repository_result \<times> sandbox_repository_state" where
  "memory_insert_sandbox_session s r =
     (case validate_sandbox_session_persisted_invariants s of
        Inl e \<Rightarrow> (Inl e, r)
      | Inr _ \<Rightarrow>
          if lookup_session (session_tenant_id s) (session_id s) r \<noteq> None then
            (Inl VersionConflict, r)
          else if list_ex (\<lambda>x. repository_operations r (session_tenant_id s, operation_id_of x)
                    \<noteq> None) (session_operations s) then
            (Inl DuplicateOperation, r)
          else
            (let r' = store_session s r
             in (Inr (), r'\<lparr> repository_leases := (repository_leases r')
                  ((session_tenant_id s, session_id s) \<mapsto>
                     \<lparr> memory_lease_owner = None, memory_lease_token = 0,
                       memory_lease_expires_at = None, memory_lease_expires_unix = None \<rparr>) \<rparr>)))"

definition memory_lease_held ::
  "sandbox_memory_lease \<Rightarrow> sandbox_session_lease \<Rightarrow> nat \<Rightarrow> bool" where
  "memory_lease_held m l now \<longleftrightarrow>
     memory_lease_owner m = Some (lease_owner_id l)
     \<and> memory_lease_token m = lease_fencing_token l
     \<and> (case memory_lease_expires_at m of None \<Rightarrow> False | Some e \<Rightarrow> \<not> e \<le> now)"

definition next_version_in_range :: "u64 \<Rightarrow> u64 option" where
  "next_version_in_range v =
     (case u64_checked_succ v of
        None \<Rightarrow> None | Some v' \<Rightarrow> if int (unat v') \<le> i64_max then Some v' else None)"

definition memory_save_sandbox_session ::
  "sandbox_session \<Rightarrow> u64 \<Rightarrow> sandbox_session_lease \<Rightarrow> nat \<Rightarrow> sandbox_repository_state
     \<Rightarrow> unit repository_result \<times> sandbox_repository_state" where
  "memory_save_sandbox_session s expected l now r =
     (let t = session_tenant_id s; sid = session_id s in
      case validate_sandbox_session_persisted_invariants s of
        Inl e \<Rightarrow> (Inl e, r)
      | Inr _ \<Rightarrow>
          (case lookup_session t sid r of
             None \<Rightarrow> (Inl NotFound, r)
           | Some current \<Rightarrow>
               (case repository_leases r (t, sid) of
                  None \<Rightarrow> (Inl LeaseConflict, r)
                | Some m \<Rightarrow>
                    if \<not> memory_lease_held m l now then (Inl LeaseConflict, r)
                    else
                      (case next_version_in_range expected of
                         None \<Rightarrow> (Inl VersionConflict, r)
                       | Some v' \<Rightarrow>
                           if session_version current \<noteq> expected \<or> session_version s \<noteq> v' then
                             (Inl VersionConflict, r)
                           else if list_ex (\<lambda>x.
                               (case repository_operations r (t, operation_id_of x) of
                                  None \<Rightarrow> False | Some owner \<Rightarrow> owner \<noteq> sid))
                               (session_operations s) then
                             (Inl DuplicateOperation, r)
                           else (Inr (), store_session s r)))))"

section \<open>Leases\<close>

definition put_lease ::
  "tenant_id \<Rightarrow> sandbox_session_id \<Rightarrow> sandbox_memory_lease \<Rightarrow> sandbox_repository_state
     \<Rightarrow> sandbox_repository_state" where
  "put_lease t sid m r = r\<lparr> repository_leases := (repository_leases r)((t, sid) \<mapsto> m) \<rparr>"

definition extend_memory_lease ::
  "tenant_id \<Rightarrow> sandbox_session_id \<Rightarrow> sandbox_memory_lease \<Rightarrow> nat \<Rightarrow> i64 \<Rightarrow> nat \<Rightarrow> i64
     \<Rightarrow> sandbox_repository_state
     \<Rightarrow> sandbox_session_lease option repository_result \<times> sandbox_repository_state" where
  "extend_memory_lease t sid m d millis now wall r =
     (let m1 = m\<lparr> memory_lease_expires_at := Some (now + d) \<rparr>
      in (case i64_checked_add_opt wall millis of
            None \<Rightarrow> (Inl LeaseConflict, put_lease t sid m1 r)
          | Some expires \<Rightarrow>
              (let m2 = m1\<lparr> memory_lease_expires_unix := Some expires \<rparr>
               in (map_sum id Some (memory_session_lease t sid m2), put_lease t sid m2 r))))"

definition memory_acquire_lease ::
  "tenant_id \<Rightarrow> sandbox_session_id \<Rightarrow> sandbox_lease_owner_id \<Rightarrow> nat \<Rightarrow> nat \<Rightarrow> i64
     \<Rightarrow> sandbox_repository_state
     \<Rightarrow> sandbox_session_lease option repository_result \<times> sandbox_repository_state" where
  "memory_acquire_lease t sid owner d now wall r =
     (case sandbox_lease_duration_millis d of
        Inl e \<Rightarrow> (Inl e, r)
      | Inr millis \<Rightarrow>
          if lookup_session t sid r = None then (Inl NotFound, r)
          else
            (case repository_leases r (t, sid) of
               None \<Rightarrow> (Inl InvalidStoredData, r)
             | Some m \<Rightarrow>
                 if (case memory_lease_expires_at m of None \<Rightarrow> False | Some e \<Rightarrow> e > now) then
                   (Inr None, r)
                 else
                   (case next_version_in_range (memory_lease_token m) of
                      None \<Rightarrow> (Inl LeaseConflict, r)
                    | Some tok \<Rightarrow>
                        extend_memory_lease t sid
                          (m\<lparr> memory_lease_token := tok, memory_lease_owner := Some owner \<rparr>)
                          d millis now wall r)))"

definition memory_renew_lease ::
  "sandbox_session_lease \<Rightarrow> nat \<Rightarrow> nat \<Rightarrow> i64 \<Rightarrow> sandbox_repository_state
     \<Rightarrow> sandbox_session_lease option repository_result \<times> sandbox_repository_state" where
  "memory_renew_lease l d now wall r =
     (let t = lease_tenant_id l; sid = lease_session_id l in
      case sandbox_lease_duration_millis d of
        Inl e \<Rightarrow> (Inl e, r)
      | Inr millis \<Rightarrow>
          (case repository_leases r (t, sid) of
             None \<Rightarrow> (Inl NotFound, r)
           | Some m \<Rightarrow>
               if \<not> memory_lease_held m l now then (Inr None, r)
               else extend_memory_lease t sid m d millis now wall r))"

definition memory_release_lease ::
  "sandbox_session_lease \<Rightarrow> sandbox_repository_state
     \<Rightarrow> bool repository_result \<times> sandbox_repository_state" where
  "memory_release_lease l r =
     (let t = lease_tenant_id l; sid = lease_session_id l in
      case repository_leases r (t, sid) of
        None \<Rightarrow> (Inl NotFound, r)
      | Some m \<Rightarrow>
          if memory_lease_owner m \<noteq> Some (lease_owner_id l)
             \<or> memory_lease_token m \<noteq> lease_fencing_token l then (Inr False, r)
          else
            (Inr True, put_lease t sid
               (m\<lparr> memory_lease_owner := None, memory_lease_expires_at := None,
                  memory_lease_expires_unix := None \<rparr>) r))"

section \<open>Steps\<close>

text \<open>Every write of the store, by any number of controllers and at any clock reading.\<close>

inductive repository_step ::
  "sandbox_repository_state \<Rightarrow> sandbox_repository_state \<Rightarrow> bool" where
  step_insert: "repository_step r (snd (memory_insert_sandbox_session s r))"
| step_save: "repository_step r (snd (memory_save_sandbox_session s v l now r))"
| step_acquire: "repository_step r (snd (memory_acquire_lease t sid owner d now wall r))"
| step_renew: "repository_step r (snd (memory_renew_lease l d now wall r))"
| step_release: "repository_step r (snd (memory_release_lease l r))"

inductive_cases repository_stepE: "repository_step r r'"

end
