(* ===== verification/Session_Store_Inv.thy ===== *)
theory Session_Store_Inv
  imports Session_Store
begin

text \<open>
  The invariant of the in-memory session store and how it grows: every stored session is valid and
  filed under its own identifiers, every ledger entry is indexed to its session, every session has
  a lease record, versions and fencing tokens only increase, and an operation identifier never
  changes hands.
\<close>

named_theorems store_simps \<open>effect of the store's writes on its three maps\<close>

section \<open>Effects of the primitive writes\<close>

lemma operation_index_insert_apply [store_simps]:
  "operation_index_insert t sid ops f k =
     (if fst k = t \<and> snd k \<in> operation_id_of ` set ops then Some sid else f k)"
  by (cases k, induction ops arbitrary: f) (auto simp: operation_index_insert_def)

lemma lookup_store_session [store_simps]:
  "lookup_session t sid (store_session s r) =
     (if t = session_tenant_id s \<and> sid = session_id s then Some s else lookup_session t sid r)"
  by (auto simp: lookup_session_def store_session_def split: option.splits)

lemma operations_store_session [store_simps]:
  "repository_operations (store_session s r) k =
     (if fst k = session_tenant_id s \<and> snd k \<in> operation_id_of ` set (session_operations s)
      then Some (session_id s) else repository_operations r k)"
  by (simp add: store_session_def store_simps)

lemma leases_store_session [store_simps]:
  "repository_leases (store_session s r) = repository_leases r"
  by (simp add: store_session_def)

lemma sessions_put_lease [store_simps]:
  "repository_sessions (put_lease t sid m r) = repository_sessions r"
  "repository_operations (put_lease t sid m r) = repository_operations r"
  "lookup_session t' sid' (put_lease t sid m r) = lookup_session t' sid' r"
  "repository_leases (put_lease t sid m r) = (repository_leases r)((t, sid) \<mapsto> m)"
  by (simp_all add: put_lease_def lookup_session_def)

lemma lookup_update_leases [store_simps]:
  "lookup_session t sid (r\<lparr> repository_leases := f \<rparr>) = lookup_session t sid r"
  by (simp add: lookup_session_def)

section \<open>Every write is one of three shapes\<close>

definition fresh_lease :: sandbox_memory_lease where
  "fresh_lease = \<lparr> memory_lease_owner = None, memory_lease_token = 0,
     memory_lease_expires_at = None, memory_lease_expires_unix = None \<rparr>"

definition insert_admissible :: "sandbox_session \<Rightarrow> sandbox_repository_state \<Rightarrow> bool" where
  "insert_admissible s r \<longleftrightarrow>
     session_valid s \<and> lookup_session (session_tenant_id s) (session_id s) r = None
     \<and> (\<forall>x\<in>set (session_operations s).
          repository_operations r (session_tenant_id s, operation_id_of x) = None)"

definition save_admissible ::
  "sandbox_session \<Rightarrow> u64 \<Rightarrow> sandbox_session_lease \<Rightarrow> nat \<Rightarrow> sandbox_repository_state \<Rightarrow> bool" where
  "save_admissible s expected l now r \<longleftrightarrow>
     session_valid s
     \<and> (\<exists>current m. lookup_session (session_tenant_id s) (session_id s) r = Some current
          \<and> repository_leases r (session_tenant_id s, session_id s) = Some m
          \<and> memory_lease_held m l now \<and> session_version current = expected)
     \<and> next_version_in_range expected = Some (session_version s)
     \<and> (\<forall>x\<in>set (session_operations s).
          repository_operations r (session_tenant_id s, operation_id_of x)
            \<in> {None, Some (session_id s)})"

lemma insert_result:
  "memory_insert_sandbox_session s r =
     (if insert_admissible s r then
        (Inr (), (store_session s r)\<lparr> repository_leases :=
           (repository_leases r)((session_tenant_id s, session_id s) \<mapsto> fresh_lease) \<rparr>)
      else (fst (memory_insert_sandbox_session s r), r))"
  by (auto simp: memory_insert_sandbox_session_def insert_admissible_def session_valid_def Let_def
      list_ex_iff fresh_lease_def store_session_def split: sum.splits)

lemma insert_ok_iff: "fst (memory_insert_sandbox_session s r) = Inr () \<longleftrightarrow> insert_admissible s r"
  by (auto simp: memory_insert_sandbox_session_def insert_admissible_def session_valid_def Let_def
      list_ex_iff split: sum.splits)

lemma save_result:
  "memory_save_sandbox_session s v l now r =
     (if save_admissible s v l now r then (Inr (), store_session s r)
      else (fst (memory_save_sandbox_session s v l now r), r))"
  unfolding memory_save_sandbox_session_def save_admissible_def session_valid_def Let_def
  by (auto simp: list_ex_iff split: sum.splits option.splits)

lemma save_ok_iff:
  "fst (memory_save_sandbox_session s v l now r) = Inr () \<longleftrightarrow> save_admissible s v l now r"
  unfolding memory_save_sandbox_session_def save_admissible_def session_valid_def Let_def
  by (auto simp: list_ex_iff split: sum.splits option.splits) (metis not_None_eq)

lemma next_version_in_range_Some:
  "next_version_in_range v = Some v' \<Longrightarrow> unat v' = Suc (unat v) \<and> int (unat v') \<le> i64_max \<and> v < v'"
  by (auto simp: next_version_in_range_def word_less_nat_alt dest!: u64_checked_succ_Some
      split: option.splits if_splits)

lemma next_version_in_range_complete:
  assumes "unat v' = Suc (unat v)" "int (unat v') \<le> i64_max"
  shows "next_version_in_range v = Some v'"
proof -
  have "unat v < 18446744073709551615"
    using assms unat_u64_less [of v'] by linarith
  then have "v < - 1" by (simp add: word_less_nat_alt)
  then obtain w where w: "u64_checked_succ v = Some w" by (simp add: u64_checked_succ_def)
  then have "unat w = unat v'" using u64_checked_succ_Some assms(1) by simp
  then have "w = v'" by (simp add: word_unat_eq_iff)
  then show ?thesis using w assms(2) by (simp add: next_version_in_range_def)
qed

text \<open>A lease operation leaves the sessions alone and rewrites at most one lease record.\<close>

definition lease_write ::
  "sandbox_memory_lease \<Rightarrow> sandbox_memory_lease \<Rightarrow> bool" where
  "lease_write m m' \<longleftrightarrow>
     (next_version_in_range (memory_lease_token m) = Some (memory_lease_token m')
        \<and> memory_lease_owner m' \<noteq> None \<and> memory_lease_expires_at m' \<noteq> None)
     \<or> (memory_lease_token m' = memory_lease_token m
        \<and> memory_lease_owner m' = memory_lease_owner m \<and> memory_lease_owner m \<noteq> None
        \<and> memory_lease_expires_at m' \<noteq> None)
     \<or> (memory_lease_token m' = memory_lease_token m
        \<and> memory_lease_owner m' = None \<and> memory_lease_expires_at m' = None)"

lemma extend_shape:
  "\<exists>u. snd (extend_memory_lease t sid m d millis now wall r) =
     put_lease t sid (m\<lparr> memory_lease_expires_at := Some (now + d),
       memory_lease_expires_unix := u \<rparr>) r"
proof (cases "i64_checked_add_opt wall millis")
  case None
  have "m\<lparr> memory_lease_expires_at := Some (now + d) \<rparr> =
    m\<lparr> memory_lease_expires_at := Some (now + d),
      memory_lease_expires_unix := memory_lease_expires_unix m \<rparr>" by simp
  with None show ?thesis
    unfolding extend_memory_lease_def Let_def by (metis option.simps(4) snd_conv)
next
  case (Some e)
  then show ?thesis
    unfolding extend_memory_lease_def Let_def by auto
qed

lemma lease_write_take:
  "next_version_in_range (memory_lease_token m) = Some tok \<Longrightarrow>
     lease_write m (m\<lparr> memory_lease_token := tok, memory_lease_owner := Some owner,
       memory_lease_expires_at := Some e, memory_lease_expires_unix := u \<rparr>)"
  by (simp add: lease_write_def)

lemma lease_write_extend:
  "memory_lease_owner m \<noteq> None \<Longrightarrow>
     lease_write m (m\<lparr> memory_lease_expires_at := Some e, memory_lease_expires_unix := u \<rparr>)"
  by (simp add: lease_write_def)

lemma lease_write_drop:
  "lease_write m (m\<lparr> memory_lease_owner := None, memory_lease_expires_at := None,
     memory_lease_expires_unix := None \<rparr>)"
  by (simp add: lease_write_def)

lemma acquire_shape:
  "snd (memory_acquire_lease t sid owner d now wall r) = r \<or>
   (\<exists>m m'. repository_leases r (t, sid) = Some m \<and> lease_write m m'
      \<and> snd (memory_acquire_lease t sid owner d now wall r) = put_lease t sid m' r)"
proof -
  have *: "\<exists>m'. lease_write m m' \<and>
      snd (extend_memory_lease t sid
        (m\<lparr> memory_lease_token := tok, memory_lease_owner := Some owner \<rparr>) d millis now wall r)
      = put_lease t sid m' r"
    if "next_version_in_range (memory_lease_token m) = Some tok" for m tok millis
  proof -
    obtain u where "snd (extend_memory_lease t sid
        (m\<lparr> memory_lease_token := tok, memory_lease_owner := Some owner \<rparr>) d millis now wall r)
      = put_lease t sid (m\<lparr> memory_lease_token := tok, memory_lease_owner := Some owner,
          memory_lease_expires_at := Some (now + d), memory_lease_expires_unix := u \<rparr>) r"
      using extend_shape by blast
    with lease_write_take [OF that] show ?thesis by blast
  qed
  show ?thesis
    unfolding memory_acquire_lease_def
    by (auto split: sum.splits option.splits if_splits dest: *)
qed

lemma renew_shape:
  "snd (memory_renew_lease l d now wall r) = r \<or>
   (\<exists>m m'. repository_leases r (lease_tenant_id l, lease_session_id l) = Some m \<and> lease_write m m'
      \<and> snd (memory_renew_lease l d now wall r)
          = put_lease (lease_tenant_id l) (lease_session_id l) m' r)"
proof -
  have *: "\<exists>m'. lease_write m m' \<and>
      snd (extend_memory_lease t sid m d millis now wall r) = put_lease t sid m' r"
    if "memory_lease_held m l now" for m t sid millis
  proof -
    from that have "memory_lease_owner m \<noteq> None" by (simp add: memory_lease_held_def)
    moreover obtain u where "snd (extend_memory_lease t sid m d millis now wall r)
      = put_lease t sid (m\<lparr> memory_lease_expires_at := Some (now + d),
          memory_lease_expires_unix := u \<rparr>) r"
      using extend_shape by blast
    ultimately show ?thesis using lease_write_extend by blast
  qed
  show ?thesis
    unfolding memory_renew_lease_def Let_def
    by (auto split: sum.splits option.splits if_splits dest: *)
qed

lemma release_shape:
  "snd (memory_release_lease l r) = r \<or>
   (\<exists>m m'. repository_leases r (lease_tenant_id l, lease_session_id l) = Some m \<and> lease_write m m'
      \<and> snd (memory_release_lease l r)
          = put_lease (lease_tenant_id l) (lease_session_id l) m' r)"
proof (cases "repository_leases r (lease_tenant_id l, lease_session_id l)")
  case None
  then show ?thesis by (simp add: memory_release_lease_def)
next
  case (Some m)
  with lease_write_drop [of m] show ?thesis
    by (simp add: memory_release_lease_def Let_def) blast
qed

lemma repository_step_shapes:
  assumes "repository_step r r'"
  obtains (same) "r' = r"
  | (insert) s where "insert_admissible s r" "r' = (store_session s r)\<lparr> repository_leases :=
      (repository_leases r)((session_tenant_id s, session_id s) \<mapsto> fresh_lease) \<rparr>"
  | (save) s v l now where "save_admissible s v l now r" "r' = store_session s r"
  | (lease) t sid m m' where "repository_leases r (t, sid) = Some m" "lease_write m m'"
      "r' = put_lease t sid m' r"
  using assms
proof (cases rule: repository_step.cases)
  case (step_insert s)
  then show thesis using insert_result [of s r] same insert by (metis snd_conv)
next
  case (step_save s v l now)
  then show thesis using save_result [of s v l now r] same save by (metis snd_conv)
next
  case (step_acquire t sid owner d now wall)
  then show thesis using acquire_shape same lease by metis
next
  case (step_renew l d now wall)
  then show thesis using renew_shape same lease by metis
next
  case (step_release l)
  then show thesis using release_shape same lease by metis
qed

section \<open>The invariant\<close>

definition session_filed :: "sandbox_repository_state \<Rightarrow> tenant_id \<Rightarrow> sandbox_session_id
    \<Rightarrow> sandbox_session \<Rightarrow> bool" where
  "session_filed r t sid s \<longleftrightarrow>
     session_tenant_id s = t \<and> session_id s = sid \<and> session_valid s
     \<and> (\<forall>x\<in>set (session_operations s). repository_operations r (t, operation_id_of x) = Some sid)"

definition memory_lease_ok :: "sandbox_memory_lease \<Rightarrow> bool" where
  "memory_lease_ok m \<longleftrightarrow>
     int (unat (memory_lease_token m)) \<le> i64_max
     \<and> (memory_lease_owner m = None \<longleftrightarrow> memory_lease_expires_at m = None)
     \<and> (memory_lease_owner m \<noteq> None \<longrightarrow> memory_lease_token m \<noteq> 0)"

definition repository_ok :: "sandbox_repository_state \<Rightarrow> bool" where
  "repository_ok r \<longleftrightarrow>
     btm_ok (repository_sessions r)
     \<and> (\<forall>t m. btm_get (repository_sessions r) t = Some m \<longrightarrow> btm_ok m)
     \<and> (\<forall>t sid s. lookup_session t sid r = Some s \<longrightarrow> session_filed r t sid s)
     \<and> (\<forall>t oid sid. repository_operations r (t, oid) = Some sid \<longrightarrow> lookup_session t sid r \<noteq> None)
     \<and> (\<forall>t sid. lookup_session t sid r \<noteq> None \<longleftrightarrow> repository_leases r (t, sid) \<noteq> None)
     \<and> (\<forall>k m. repository_leases r k = Some m \<longrightarrow> memory_lease_ok m)"

lemma repository_okD:
  assumes "repository_ok r"
  shows "btm_ok (repository_sessions r)"
    and "btm_get (repository_sessions r) t = Some m \<Longrightarrow> btm_ok m"
    and "lookup_session t sid r = Some s \<Longrightarrow> session_filed r t sid s"
    and "repository_operations r (t, oid) = Some sid \<Longrightarrow> lookup_session t sid r \<noteq> None"
    and "lookup_session t sid r \<noteq> None \<longleftrightarrow> repository_leases r (t, sid) \<noteq> None"
    and "repository_leases r k = Some lm \<Longrightarrow> memory_lease_ok lm"
  using assms unfolding repository_ok_def by blast+

lemma sessions_ok_store:
  assumes "repository_ok r"
  shows "btm_ok (repository_sessions (store_session s r))"
    and "btm_get (repository_sessions (store_session s r)) t = Some m \<Longrightarrow> btm_ok m"
  using repository_okD(1,2) [OF assms] btm.ok_insert [OF btm.ok_empty]
  by (auto simp: store_session_def split: option.splits if_splits simp del: btm_insert.simps)

lemma filed_store:
  assumes "session_filed r t sid s'"
    and "\<And>x. x \<in> set (session_operations s) \<Longrightarrow>
      repository_operations r (session_tenant_id s, operation_id_of x) \<in> {None, Some (session_id s)}"
  shows "session_filed (store_session s r) t sid s'"
  using assms unfolding session_filed_def by (fastforce simp: store_simps)

lemma filed_self: "session_valid s \<Longrightarrow>
  session_filed (store_session s r) (session_tenant_id s) (session_id s) s"
  by (simp add: session_filed_def store_simps)

lemma session_filed_leases [simp]:
  "session_filed (r\<lparr> repository_leases := f \<rparr>) t sid s = session_filed r t sid s"
  "session_filed (put_lease t' sid' m r) t sid s = session_filed r t sid s"
  by (simp_all add: session_filed_def put_lease_def)

lemma store_filed:
  assumes "repository_ok r" "session_valid s"
    and "\<And>x. x \<in> set (session_operations s) \<Longrightarrow>
      repository_operations r (session_tenant_id s, operation_id_of x) \<in> {None, Some (session_id s)}"
    and "lookup_session t sid (store_session s r) = Some s'"
  shows "session_filed (store_session s r) t sid s'"
proof (cases "t = session_tenant_id s \<and> sid = session_id s")
  case True
  then show ?thesis using assms(2,4) filed_self by (simp add: store_simps)
next
  case False
  then have "lookup_session t sid r = Some s'"
    using assms(4) by (auto simp: store_simps)
  from filed_store [OF repository_okD(3) [OF assms(1) this] assms(3)] show ?thesis .
qed

lemma store_index:
  assumes "repository_ok r" "repository_operations (store_session s r) (t, oid) = Some sid"
  shows "lookup_session t sid (store_session s r) \<noteq> None"
  using assms(2) repository_okD(4) [OF assms(1)] by (auto simp: store_simps split: if_splits)

lemma fresh_lease_ok: "memory_lease_ok fresh_lease"
  by (simp add: memory_lease_ok_def fresh_lease_def i64_max_def)

lemma lease_write_ok:
  assumes "lease_write m m'" "memory_lease_ok m"
  shows "memory_lease_ok m'"
  using assms(1) unfolding lease_write_def
proof (elim disjE conjE)
  assume *: "next_version_in_range (memory_lease_token m) = Some (memory_lease_token m')"
    "memory_lease_owner m' \<noteq> None" "memory_lease_expires_at m' \<noteq> None"
  have "memory_lease_token m' \<noteq> 0" "int (unat (memory_lease_token m')) \<le> i64_max"
    using next_version_in_range_Some [OF *(1)] by fastforce+
  with *(2,3) show ?thesis by (auto simp: memory_lease_ok_def)
qed (use assms(2) in \<open>auto simp: memory_lease_ok_def\<close>)

lemma repository_ok_insert:
  assumes "repository_ok r" "insert_admissible s r"
  shows "repository_ok ((store_session s r)\<lparr> repository_leases :=
    (repository_leases r)((session_tenant_id s, session_id s) \<mapsto> fresh_lease) \<rparr>)"
    (is "repository_ok ?r")
proof -
  have ops: "\<And>x. x \<in> set (session_operations s) \<Longrightarrow>
      repository_operations r (session_tenant_id s, operation_id_of x) \<in> {None, Some (session_id s)}"
    and valid: "session_valid s"
    using assms(2) by (auto simp: insert_admissible_def)
  show ?thesis
    unfolding repository_ok_def
  proof (intro conjI allI impI)
    fix t sid s' assume "lookup_session t sid ?r = Some s'"
    then show "session_filed ?r t sid s'"
      using store_filed [OF assms(1) valid ops] by (simp add: store_simps)
  next
    fix t oid sid assume "repository_operations ?r (t, oid) = Some sid"
    then show "lookup_session t sid ?r \<noteq> None"
      using store_index [OF assms(1)] by (simp add: store_simps)
  next
    fix t sid show "lookup_session t sid ?r \<noteq> None \<longleftrightarrow> repository_leases ?r (t, sid) \<noteq> None"
      using repository_okD(5) [OF assms(1), of t sid] by (auto simp: store_simps)
  next
    fix k m assume "repository_leases ?r k = Some m"
    then show "memory_lease_ok m"
      using repository_okD(6) [OF assms(1)] fresh_lease_ok by (auto split: if_splits)
  qed (use sessions_ok_store [OF assms(1)] in \<open>auto\<close>)
qed

lemma repository_ok_save:
  assumes "repository_ok r" "save_admissible s v l now r"
  shows "repository_ok (store_session s r)"
proof -
  have ops: "\<And>x. x \<in> set (session_operations s) \<Longrightarrow>
      repository_operations r (session_tenant_id s, operation_id_of x) \<in> {None, Some (session_id s)}"
    and valid: "session_valid s"
    and old: "lookup_session (session_tenant_id s) (session_id s) r \<noteq> None"
    using assms(2) by (auto simp: save_admissible_def)
  show ?thesis
    unfolding repository_ok_def
  proof (intro conjI allI impI)
    fix t sid s' assume "lookup_session t sid (store_session s r) = Some s'"
    then show "session_filed (store_session s r) t sid s'"
      using store_filed [OF assms(1) valid ops] by blast
  next
    fix t oid sid assume "repository_operations (store_session s r) (t, oid) = Some sid"
    then show "lookup_session t sid (store_session s r) \<noteq> None"
      using store_index [OF assms(1)] by blast
  next
    fix t sid show "lookup_session t sid (store_session s r) \<noteq> None \<longleftrightarrow>
        repository_leases (store_session s r) (t, sid) \<noteq> None"
      using repository_okD(5) [OF assms(1), of t sid] old by (auto simp: store_simps)
  next
    fix k m assume "repository_leases (store_session s r) k = Some m"
    then show "memory_lease_ok m"
      using repository_okD(6) [OF assms(1)] by (simp add: store_simps)
  qed (use sessions_ok_store [OF assms(1)] in \<open>auto\<close>)
qed

lemma repository_ok_lease:
  assumes "repository_ok r" "repository_leases r (t, sid) = Some m" "lease_write m m'"
  shows "repository_ok (put_lease t sid m' r)"
proof -
  have "lookup_session t sid r \<noteq> None" "memory_lease_ok m'"
    using assms repository_okD(5,6) [OF assms(1)] lease_write_ok by auto
  then show ?thesis
    using assms(1) unfolding repository_ok_def by (auto simp: store_simps)
qed

lemma repository_ok_empty: "repository_ok empty_repository"
  by (simp add: repository_ok_def empty_repository_def lookup_session_def btm_get_def)

lemma repository_ok_step: "repository_step r r' \<Longrightarrow> repository_ok r \<Longrightarrow> repository_ok r'"
  by (erule repository_step_shapes)
    (auto intro: repository_ok_insert repository_ok_save repository_ok_lease)

section \<open>Growth\<close>

definition session_later :: "sandbox_session \<Rightarrow> sandbox_session \<Rightarrow> bool" where
  "session_later s s' \<longleftrightarrow> s' = s \<or> session_version s < session_version s'"

definition lease_later :: "sandbox_memory_lease \<Rightarrow> sandbox_memory_lease \<Rightarrow> bool" where
  "lease_later m m' \<longleftrightarrow>
     memory_lease_token m < memory_lease_token m'
     \<or> (memory_lease_token m = memory_lease_token m'
        \<and> (memory_lease_owner m' = memory_lease_owner m \<or> memory_lease_owner m' = None))"

definition repository_later :: "sandbox_repository_state \<Rightarrow> sandbox_repository_state \<Rightarrow> bool" where
  "repository_later r r' \<longleftrightarrow>
     (\<forall>t sid s. lookup_session t sid r = Some s \<longrightarrow>
        (\<exists>s'. lookup_session t sid r' = Some s' \<and> session_later s s'))
     \<and> (\<forall>k sid. repository_operations r k = Some sid \<longrightarrow> repository_operations r' k = Some sid)
     \<and> (\<forall>k m. repository_leases r k = Some m \<longrightarrow>
        (\<exists>m'. repository_leases r' k = Some m' \<and> lease_later m m'))"

lemma session_later_refl [simp]: "session_later s s"
  by (simp add: session_later_def)

lemma lease_later_refl [simp]: "lease_later m m"
  by (simp add: lease_later_def)

lemma session_later_trans: "session_later a b \<Longrightarrow> session_later b c \<Longrightarrow> session_later a c"
  by (auto simp: session_later_def)

lemma lease_later_trans: "lease_later a b \<Longrightarrow> lease_later b c \<Longrightarrow> lease_later a c"
  by (auto simp: lease_later_def)

lemma lease_write_later: "lease_write m m' \<Longrightarrow> lease_later m m'"
  by (auto simp: lease_write_def lease_later_def dest: next_version_in_range_Some)

lemma repository_later_refl: "repository_later r r"
  by (simp add: repository_later_def)

lemma repository_laterD:
  assumes "repository_later r r'"
  shows "lookup_session t sid r = Some s \<Longrightarrow>
      \<exists>s'. lookup_session t sid r' = Some s' \<and> session_later s s'"
    and "repository_operations r k = Some sid \<Longrightarrow> repository_operations r' k = Some sid"
    and "repository_leases r k = Some m \<Longrightarrow>
      \<exists>m'. repository_leases r' k = Some m' \<and> lease_later m m'"
  using assms unfolding repository_later_def by blast+

lemma repository_later_trans:
  assumes ab: "repository_later a b" and bc: "repository_later b c"
  shows "repository_later a c"
  unfolding repository_later_def
proof (intro conjI allI impI)
  fix t sid s assume "lookup_session t sid a = Some s"
  then obtain s1 where "lookup_session t sid b = Some s1" "session_later s s1"
    using repository_laterD(1) [OF ab] by blast
  then show "\<exists>s'. lookup_session t sid c = Some s' \<and> session_later s s'"
    using repository_laterD(1) [OF bc] session_later_trans by blast
next
  fix k sid assume "repository_operations a k = Some sid"
  then show "repository_operations c k = Some sid"
    using repository_laterD(2) [OF ab] repository_laterD(2) [OF bc] by blast
next
  fix k m assume "repository_leases a k = Some m"
  then obtain m1 where "repository_leases b k = Some m1" "lease_later m m1"
    using repository_laterD(3) [OF ab] by blast
  then show "\<exists>m'. repository_leases c k = Some m' \<and> lease_later m m'"
    using repository_laterD(3) [OF bc] lease_later_trans by blast
qed

lemma later_insert:
  assumes "repository_ok r" "insert_admissible s r"
  shows "repository_later r ((store_session s r)\<lparr> repository_leases :=
    (repository_leases r)((session_tenant_id s, session_id s) \<mapsto> fresh_lease) \<rparr>)"
  using assms(2) repository_okD(5) [OF assms(1), of "session_tenant_id s" "session_id s"]
  by (auto simp: repository_later_def insert_admissible_def store_simps)

lemma later_save:
  assumes "save_admissible s v l now r"
  shows "repository_later r (store_session s r)"
proof -
  from assms obtain c where "lookup_session (session_tenant_id s) (session_id s) r = Some c"
    "session_version c < session_version s"
    by (auto simp: save_admissible_def dest: next_version_in_range_Some)
  then have "session_later c s" by (simp add: session_later_def)
  moreover have "repository_operations (store_session s r) k = Some sid"
    if "repository_operations r k = Some sid" for k sid
    using that assms by (cases k) (auto simp: store_simps save_admissible_def)
  ultimately show ?thesis
    using \<open>lookup_session _ _ r = Some c\<close> by (simp add: repository_later_def store_simps)
qed

lemma repository_later_step:
  assumes "repository_step r r'" "repository_ok r"
  shows "repository_later r r'"
  using assms(1)
proof (cases rule: repository_step_shapes)
  case same
  then show ?thesis by (simp add: repository_later_refl)
next
  case (insert s)
  then show ?thesis using later_insert [OF assms(2)] by blast
next
  case (save s v l now)
  then show ?thesis using later_save by blast
next
  case (lease t sid m m')
  then show ?thesis
    using lease_write_later by (auto simp: repository_later_def store_simps)
qed

interpretation session_store: growing_machine empty_repository repository_step repository_ok
  repository_later
  by unfold_locales
    (auto simp: repository_ok_empty repository_later_refl repository_ok_step repository_later_step
      intro: repository_later_trans)

section \<open>Leases handed out\<close>

lemma extend_result:
  assumes "fst (extend_memory_lease t sid m d millis now wall r) = Inr (Some l)"
  shows "lease_tenant_id l = t \<and> lease_session_id l = sid
    \<and> memory_lease_owner m = Some (lease_owner_id l) \<and> memory_lease_token m = lease_fencing_token l
    \<and> (\<exists>m'. repository_leases (snd (extend_memory_lease t sid m d millis now wall r)) (t, sid) = Some m'
         \<and> memory_lease_owner m' = memory_lease_owner m
         \<and> memory_lease_token m' = memory_lease_token m)"
proof -
  obtain e where "i64_checked_add_opt wall millis = Some e"
    using assms by (cases "i64_checked_add_opt wall millis") (auto simp: extend_memory_lease_def)
  with assms show ?thesis
    by (auto simp: extend_memory_lease_def Let_def memory_session_lease_def
        sandbox_session_lease_new_def fencing_token_new_def store_simps
        split: option.splits sum.splits if_splits)
qed

text \<open>An acquired lease carries a token above the one recorded before, and is recorded.\<close>

lemma acquire_result:
  assumes "memory_acquire_lease t sid owner d now wall r = (Inr (Some l), r')"
  obtains m m' where "repository_leases r (t, sid) = Some m"
    "memory_lease_token m < lease_fencing_token l" "lease_tenant_id l = t" "lease_session_id l = sid"
    "lease_owner_id l = owner"
    "repository_leases r' (t, sid) = Some m'" "memory_lease_token m' = lease_fencing_token l"
    "memory_lease_owner m' = Some owner"
proof -
  from assms obtain m tok millis where m: "repository_leases r (t, sid) = Some m"
    "next_version_in_range (memory_lease_token m) = Some tok"
    "extend_memory_lease t sid
       (m\<lparr> memory_lease_token := tok, memory_lease_owner := Some owner \<rparr>) d millis now wall r
     = (Inr (Some l), r')"
    by (auto simp: memory_acquire_lease_def split: sum.splits option.splits if_splits)
  have "fst (extend_memory_lease t sid
       (m\<lparr> memory_lease_token := tok, memory_lease_owner := Some owner \<rparr>) d millis now wall r)
     = Inr (Some l)" using m(3) by simp
  from extend_result [OF this] m(3) next_version_in_range_Some [OF m(2)] m(1) show thesis
    by (auto intro: that)
qed

text \<open>Once a token has been overtaken the lease that carries it is dead.\<close>

lemma lease_overtaken:
  assumes "repository_later r r'" "repository_leases r k = Some m"
    "tok < memory_lease_token m"
  shows "\<exists>m'. repository_leases r' k = Some m' \<and> tok < memory_lease_token m'"
  using repository_laterD(3) [OF assms(1,2)] assms(3)
  by (auto simp: lease_later_def)

end
