(* ===== verification/Session_Scenario.thy ===== *)
theory Session_Scenario
  imports Session_Store_Inv
begin

text \<open>
  Concrete states of the session store used by the witnesses: one session, inserted, leased, begun
  and superseded by a second controller.
\<close>

definition demo_session :: sandbox_session where
  "demo_session = sandbox_session_create ''t1'' ''w1'' ''s1'' ''op1'' {Terminal} Container"

definition demo_store :: sandbox_repository_state where
  "demo_store = snd (memory_insert_sandbox_session demo_session empty_repository)"

definition demo_lease :: "string \<Rightarrow> u64 \<Rightarrow> i64 \<Rightarrow> sandbox_session_lease" where
  "demo_lease owner tok expires = \<lparr> lease_tenant_id = ''t1'', lease_session_id = ''s1'',
     lease_owner_id = owner, lease_fencing_token = tok, lease_expires_at_unix_millis = expires \<rparr>"

definition demo_memory_lease :: "string \<Rightarrow> u64 \<Rightarrow> nat \<Rightarrow> i64 \<Rightarrow> sandbox_memory_lease" where
  "demo_memory_lease owner tok e u = \<lparr> memory_lease_owner = Some owner, memory_lease_token = tok,
     memory_lease_expires_at = Some e, memory_lease_expires_unix = Some u \<rparr>"

definition demo_leased :: sandbox_repository_state where
  "demo_leased = put_lease ''t1'' ''s1'' (demo_memory_lease ''a'' 1 1000000 2) demo_store"

definition demo_superseded :: sandbox_repository_state where
  "demo_superseded = put_lease ''t1'' ''s1'' (demo_memory_lease ''b'' 2 2000000 4) demo_leased"

definition demo_started :: sandbox_session where
  "demo_started = demo_session\<lparr> session_state := Starting, session_version := 1,
     session_runtime_binding := Some (sandbox_runtime_binding_new_intent ''box'' ''bind'' ''p1''),
     session_operations := session_operations demo_session @
       [\<lparr> operation_id_of = ''op2'', operation_kind = Start, operation_outcome = InProgress \<rparr>] \<rparr>"

lemma demo_session_fields [simp]:
  "session_tenant_id demo_session = ''t1''" "session_last_failure demo_session = None"
  "session_id demo_session = ''s1''"
  "session_state demo_session = Created" "session_version demo_session = 0"
  "session_operations demo_session =
     [\<lparr> operation_id_of = ''op1'', operation_kind = Create, operation_outcome = Succeeded \<rparr>]"
  by (simp_all add: demo_session_def sandbox_session_create_def)

lemma demo_session_valid [simp]: "session_valid demo_session"
  by (simp add: demo_session_def create_valid)

lemma demo_insert:
  "memory_insert_sandbox_session demo_session empty_repository = (Inr (), demo_store)"
proof -
  have "insert_admissible demo_session empty_repository"
    by (simp add: insert_admissible_def empty_repository_def lookup_session_def btm_get_def)
  then show ?thesis
    by (metis demo_store_def insert_ok_iff prod.collapse)
qed

lemma small_u64 [simp]: "(0::u64) < - 1" "(1::u64) < - 1" "(2::u64) < - 1"
  by (simp_all add: word_less_nat_alt)

lemma demo_store_lookup [simp]: "lookup_session ''t1'' ''s1'' demo_store = Some demo_session"
proof -
  have "insert_admissible demo_session empty_repository"
    by (simp add: insert_admissible_def empty_repository_def lookup_session_def btm_get_def)
  then show ?thesis
    by (simp add: demo_store_def insert_result store_simps)
qed

lemma demo_store_lease [simp]: "repository_leases demo_store (''t1'', ''s1'') = Some fresh_lease"
  and demo_store_operations [simp]: "repository_operations demo_store k =
    (if k = (''t1'', ''op1'') then Some ''s1'' else None)"
proof -
  have "insert_admissible demo_session empty_repository"
    by (simp add: insert_admissible_def empty_repository_def lookup_session_def btm_get_def)
  then show "repository_leases demo_store (''t1'', ''s1'') = Some fresh_lease"
    and "repository_operations demo_store k = (if k = (''t1'', ''op1'') then Some ''s1'' else None)"
    by (cases k, auto simp: demo_store_def insert_result store_simps empty_repository_def)+
qed

lemma demo_store_reachable: "repository_step\<^sup>*\<^sup>* empty_repository demo_store"
  using step_insert [of empty_repository demo_session] by (simp add: demo_store_def r_into_rtranclp)

lemma demo_acquire:
  "memory_acquire_lease ''t1'' ''s1'' ''a'' 1000000 0 1 demo_store
     = (Inr (Some (demo_lease ''a'' 1 2)), demo_leased)"
  by (simp add: memory_acquire_lease_def sandbox_lease_duration_millis_def fresh_lease_def
      next_version_in_range_def u64_checked_succ_def i64_max_def extend_memory_lease_def Let_def
      i64_checked_add_opt_def memory_session_lease_def fencing_token_new_def
      sandbox_session_lease_new_def demo_lease_def demo_leased_def demo_memory_lease_def)

lemma demo_reacquire:
  "memory_acquire_lease ''t1'' ''s1'' ''b'' 1000000 1000000 3 demo_leased
     = (Inr (Some (demo_lease ''b'' 2 4)), demo_superseded)"
  by (simp add: demo_leased_def demo_superseded_def store_simps demo_memory_lease_def
      memory_acquire_lease_def sandbox_lease_duration_millis_def
      next_version_in_range_def u64_checked_succ_def i64_max_def extend_memory_lease_def Let_def
      i64_checked_add_opt_def memory_session_lease_def fencing_token_new_def
      sandbox_session_lease_new_def demo_lease_def)

lemma demo_leased_reachable: "repository_step\<^sup>*\<^sup>* empty_repository demo_leased"
  using demo_store_reachable step_acquire [of demo_store "''t1''" "''s1''" "''a''" 1000000 0 1]
  by (simp add: demo_acquire rtranclp.rtrancl_into_rtrancl)

lemma demo_started_valid: "session_valid demo_started"
  by (simp add: session_valid_iff demo_started_def max_sandbox_session_version_def i64_max_def
      startable_def)

lemma demo_save:
  "memory_save_sandbox_session demo_started 0 (demo_lease ''a'' 1 2) 5 demo_leased
     = (Inr (), store_session demo_started demo_leased)"
proof -
  have "save_admissible demo_started 0 (demo_lease ''a'' 1 2) 5 demo_leased"
    by (simp add: save_admissible_def demo_started_valid)
      (simp add: demo_started_def demo_leased_def store_simps demo_memory_lease_def demo_lease_def
        memory_lease_held_def next_version_in_range_def u64_checked_succ_def i64_max_def)
  then show ?thesis by (subst save_result) simp
qed

text \<open>A protector that keeps the reference as its own ciphertext, and a session that holds one.\<close>

definition demo_protector :: allocation_protector where
  "demo_protector = \<lparr> current_protection_version = Inl ProtectionFailed,
     protect_reference = (\<lambda>ctx a. Inr \<lparr> protected_ciphertext = a, protected_key_id = ''k'',
       protected_key_version = 1, protected_crypto_version = 1 \<rparr>),
     restore_reference = (\<lambda>ctx q. Inr (protected_ciphertext q)),
     reencrypt_reference = (\<lambda>ctx q. Inr q) \<rparr>"

definition demo_allocated :: sandbox_session where
  "demo_allocated = set_sandbox_runtime_binding
     (set_sandbox_allocation_reference ''ref'' (sandbox_runtime_binding_new_intent ''box'' ''bind'' ''p1''))
     demo_started"

lemma demo_allocated_valid: "session_valid demo_allocated"
  using rebind_valid [OF demo_started_valid]
  by (simp add: demo_allocated_def set_sandbox_runtime_binding_def demo_started_def
      set_sandbox_allocation_reference_def)

lemma demo_capture: "\<exists>snap. snapshot_capture demo_protector demo_allocated = Inr snap"
  using demo_allocated_valid
  by (auto simp: snapshot_capture_def snapshot_capture_binding_def Let_def snapshot_validate_def
      session_valid_def validate_sandbox_session_persisted_invariants_def demo_protector_def
      demo_allocated_def set_sandbox_runtime_binding_def set_sandbox_allocation_reference_def
      sandbox_runtime_binding_new_intent_def has_allocation_reference_def)

end
