(* ===== verification/Session_Properties.thy ===== *)
theory Session_Properties
  imports Session_Scenario
begin

text \<open>
  Properties of the session aggregate, its persisted form and its in-memory store. Each follows from
  the invariant and the growth order of the store (\<open>Session_Store_Inv\<close>) or from the ledger lemmas
  (\<open>Session_Ledger\<close>).
\<close>

text \<open>C8: in every reachable store, by any interleaving of writes, each stored session passes the
  persisted-state check, is filed under its own identifiers, lists every operation once, can have
  only its last operation in progress (exactly when it is starting, stopping or destroying), and
  owns each of its operation identifiers in the tenant-wide index.\<close>

theorem stored_sessions_are_valid:
  assumes "repository_step\<^sup>*\<^sup>* empty_repository r" "lookup_session t sid r = Some s"
  shows "validate_sandbox_session_persisted_invariants s = Inr ()
    \<and> session_tenant_id s = t \<and> session_id s = sid
    \<and> distinct (map operation_id_of (session_operations s))
    \<and> (\<forall>x\<in>set (butlast (session_operations s)). operation_outcome x \<noteq> InProgress)
    \<and> (operation_outcome (last (session_operations s)) = InProgress \<longleftrightarrow>
         session_state s \<in> {Starting, Stopping, Destroying})
    \<and> (\<forall>x\<in>set (session_operations s).
         repository_operations r (t, operation_id_of x) = Some sid)"
proof -
  have filed: "session_filed r t sid s"
    using repository_okD(3) [OF session_store.reachable_inv [OF assms(1)] assms(2)] .
  then have valid: "session_valid s" by (simp add: session_filed_def)
  have "operation_outcome (last (session_operations s)) = InProgress \<longleftrightarrow>
       session_state s \<in> {Starting, Stopping, Destroying}"
    using valid_transient_last [OF valid] by (auto simp: requires_reconciliation_def)
  with filed valid valid_distinct [OF valid] valid_in_progress_last [OF valid] show ?thesis
    by (simp add: session_filed_def session_valid_def)
qed

theorem stored_sessions_are_valid_witness:
  "lookup_session ''t1'' ''s1'' demo_store = Some demo_session
   \<and> validate_sandbox_session_persisted_invariants demo_session = Inr ()"
  using stored_sessions_are_valid [OF demo_store_reachable demo_store_lookup] by simp





text \<open>The incremental window of a save rebuilds the full ledger. When the store holds the
  ledger recorded at the persistence frontier and the session has since appended entries, or
  resolved its last entry, the entries kept plus the window are the session's ledger.\<close>

theorem persistence_window_rebuilds_ledger:
  assumes "session_persisted_count s = length stored"
    and "session_persisted_last_outcome s = last_outcome stored"
    and "session_operations s = stored @ appended \<or>
      (\<exists>xs x out. stored = xs @ [x] \<and> session_operations s = xs @ [x\<lparr> operation_outcome := out \<rparr>])"
  shows "take (length (session_operations s) - length (sandbox_operations_to_persist s)) stored
      @ sandbox_operations_to_persist s = session_operations s
    \<and> (session_operations s = stored \<and> stored \<noteq> [] \<longrightarrow> sandbox_operations_to_persist s = [])"
proof -
  have ext: "session_ledger_extends stored (session_operations s)"
    using assms(3) by (auto simp: session_ledger_extends_def)
  have "sandbox_operations_to_persist s = []" if "session_operations s = stored" "stored \<noteq> []"
    using that assms(1,2)
    by (simp add: sandbox_operations_to_persist_def Let_def last_outcome_def last_conv_nth)
  with window_rebuilds [OF assms(1,2) ext] show ?thesis
    by (simp add: apply_window_def)
qed

theorem persistence_window_rebuilds_ledger_witness:
  "sandbox_operations_to_persist
     ((mark_sandbox_operations_persisted demo_started)\<lparr> session_operations :=
        set_outcome ''op2'' Succeeded (session_operations demo_started) \<rparr>)
   = [\<lparr> operation_id_of = ''op2'', operation_kind = Start, operation_outcome = Succeeded \<rparr>]"
  using persistence_window_rebuilds_ledger [of
      "(mark_sandbox_operations_persisted demo_started)\<lparr> session_operations :=
         set_outcome ''op2'' Succeeded (session_operations demo_started) \<rparr>"
      "session_operations demo_started" "[]"]
  by (simp add: demo_started_def mark_sandbox_operations_persisted_def last_outcome_def
      sandbox_operations_to_persist_def Let_def)

text \<open>the retention bound on the ledger: an ordinary operation begins exactly below 10000
  entries, a destroy also at the bound itself, nothing begins above it, and a refused begin is the
  retention error. So a session never holds more than 10001 entries and one within the bound can
  always be destroyed.\<close>

theorem retention_bound_spares_destroy:
  "begin_sandbox_operation oid kind s =
     (if length (session_operations s) < 10000
         \<or> (kind = Destroy \<and> length (session_operations s) = 10000)
      then Inr (s\<lparr> session_operations := session_operations s @
             [\<lparr> operation_id_of = oid, operation_kind = kind, operation_outcome = InProgress \<rparr>] \<rparr>)
      else Inl (InvariantViolation ''sandbox operation ledger is at the retention bound''))
   \<and> (\<forall>s'. begin_sandbox_operation oid kind s = Inr s' \<longrightarrow> length (session_operations s') \<le> 10001)"
proof -
  have "begin_sandbox_operation oid kind s =
     (if length (session_operations s) < 10000
         \<or> (kind = Destroy \<and> length (session_operations s) = 10000)
      then Inr (s\<lparr> session_operations := session_operations s @
             [\<lparr> operation_id_of = oid, operation_kind = kind, operation_outcome = InProgress \<rparr>] \<rparr>)
      else Inl (InvariantViolation ''sandbox operation ledger is at the retention bound''))"
    by (auto simp: begin_sandbox_operation_def Let_def max_sandbox_session_operations_def
        max_sandbox_session_persisted_operations_def)
  then show ?thesis by (auto split: if_splits)
qed

theorem retention_bound_spares_destroy_witness:
  "begin_sandbox_operation ''op2'' Start demo_session =
     Inr (demo_session\<lparr> session_operations := session_operations demo_session @
       [\<lparr> operation_id_of = ''op2'', operation_kind = Start, operation_outcome = InProgress \<rparr>] \<rparr>)"
  using retention_bound_spares_destroy [of "''op2''" Start demo_session] by simp

text \<open>C37: a reconciliation page is the first \<open>page_size\<close> transient sessions of the tenant after
  the cursor, in ascending identifier order, each with its current state; a page size outside
  1..200 is refused.\<close>

theorem reconciliation_page_is_exact:
  assumes "repository_step\<^sup>*\<^sup>* empty_repository r" "1 \<le> n" "n \<le> 200"
  shows "\<exists>due. memory_list_requiring_reconciliation t after n r = Inr (take n due)
    \<and> sorted_wrt (<) (map fst due)
    \<and> (\<forall>sid st. (sid, st) \<in> set due \<longleftrightarrow>
         (\<exists>s. lookup_session t sid r = Some s \<and> session_state s = st)
         \<and> st \<in> {Starting, Stopping, Destroying}
         \<and> (case after of None \<Rightarrow> True | Some a \<Rightarrow> a < sid))"
proof -
  have ok: "repository_ok r" using session_store.reachable_inv [OF assms(1)] .
  let ?keep = "\<lambda>e. case after of None \<Rightarrow> True | Some a \<Rightarrow> a < fst e"
  define all where "all = (case btm_get (repository_sessions r) t of None \<Rightarrow> [] | Some m \<Rightarrow> m)"
  have all: "btm_ok all" and get: "btm_get all sid = lookup_session t sid r" for sid
    using repository_okD(2) [OF ok] by (auto simp: all_def lookup_session_def btm_get_def
        split: option.splits)
  define due where "due = map (\<lambda>(sid, s). (sid, session_state s))
    (filter (\<lambda>(sid, s). session_state s = Starting \<or> session_state s = Stopping
       \<or> session_state s = Destroying) (filter ?keep all))"
  have page: "memory_list_requiring_reconciliation t after n r = Inr (take n due)"
    using assms(2,3) by (auto simp: memory_list_requiring_reconciliation_def due_def all_def
        collect_sandbox_reconciliation_page_def take_map split: option.splits)
  have "map fst due = map fst (filter (\<lambda>(sid, s). session_state s = Starting
      \<or> session_state s = Stopping \<or> session_state s = Destroying) (filter ?keep all))"
    by (auto simp: due_def)
  then have sorted: "sorted_wrt (<) (map fst due)"
    using all by (simp add: btm_ok_def sorted_wrt_map sorted_wrt_filter)
  have "(sid, st) \<in> set due \<longleftrightarrow>
      (\<exists>s. (sid, s) \<in> set all \<and> session_state s = st) \<and> st \<in> {Starting, Stopping, Destroying}
      \<and> (case after of None \<Rightarrow> True | Some a \<Rightarrow> a < sid)" for sid st
    by (force simp: due_def split: option.splits)
  then show ?thesis
    using page sorted btm.entries_get [OF all] get by (intro exI [of _ due]) simp
qed

theorem reconciliation_page_is_exact_witness:
  "\<exists>due. memory_list_requiring_reconciliation ''t1'' None 10 demo_leased = Inr (take 10 due)
     \<and> sorted_wrt (<) (map fst due)"
  using reconciliation_page_is_exact [OF demo_leased_reachable, of 10 "''t1''" None] by auto

text \<open>The snapshot of a SQL adapter round-trips. When the protector restores what it protected
  (under the same tenant, session and binding), restoring a captured snapshot gives the session
  back, marked as fully persisted, and the snapshot carries the session's persistence window.\<close>

theorem snapshot_round_trip:
  assumes "\<And>ctx a q. protect_reference p ctx a = Inr q \<Longrightarrow> restore_reference p ctx q = Inr a"
    and "snapshot_capture p s = Inr snap"
  shows "snapshot_restore p snap = Inr (mark_sandbox_operations_persisted s)
    \<and> snapshot_operations_to_persist snap = sandbox_operations_to_persist s
    \<and> validate_sandbox_session_persisted_invariants s = Inr ()"
proof (cases "session_runtime_binding s")
  case None
  with assms(2) show ?thesis
    by (auto simp: snapshot_capture_def Let_def snapshot_restore_def snapshot_validate_def
        snapshot_operations_to_persist_def sandbox_session_restore_def
        mark_sandbox_operations_persisted_def validate_sandbox_session_persisted_invariants_def
        has_allocation_reference_def split: sum.splits)
next
  case (Some b)
  show ?thesis
  proof (cases "binding_allocation_ref b")
    case None
    with Some assms(2) show ?thesis
      by (auto simp: snapshot_capture_def snapshot_capture_binding_def Let_def snapshot_restore_def
          snapshot_restore_binding_def sandbox_runtime_binding_restore_def snapshot_validate_def
          snapshot_operations_to_persist_def sandbox_session_restore_def
          mark_sandbox_operations_persisted_def validate_sandbox_session_persisted_invariants_def
          has_allocation_reference_def split: sum.splits)
  next
    case (Some a)
    with \<open>session_runtime_binding s = Some b\<close> assms show ?thesis
      by (auto simp: snapshot_capture_def snapshot_capture_binding_def Let_def snapshot_restore_def
          snapshot_restore_binding_def sandbox_runtime_binding_restore_def snapshot_validate_def
          snapshot_operations_to_persist_def sandbox_session_restore_def
          mark_sandbox_operations_persisted_def validate_sandbox_session_persisted_invariants_def
          has_allocation_reference_def split: sum.splits)
  qed
qed

theorem snapshot_round_trip_witness:
  "\<exists>snap. snapshot_capture demo_protector demo_allocated = Inr snap
     \<and> snapshot_restore demo_protector snap
         = Inr (mark_sandbox_operations_persisted demo_allocated)"
proof -
  obtain snap where snap: "snapshot_capture demo_protector demo_allocated = Inr snap"
    using demo_capture by blast
  have "protect_reference demo_protector ctx a = Inr q \<Longrightarrow>
      restore_reference demo_protector ctx q = Inr a" for ctx a q
    by (auto simp: demo_protector_def)
  from snapshot_round_trip [OF this snap] snap show ?thesis by blast
qed

end
