(* ===== verification/Session_Service.thy ===== *)
theory Session_Service
  imports Session_Ledger "HOL-Library.State_Monad"
begin

text \<open>
  The session lifecycle service (\<open>service.rs\<close>, \<open>command.rs\<close>, \<open>reconciliation.rs\<close> of crate
  \<open>sdkwork-intelligence-sandbox-service\<close>). The repository and the providers are trait objects:
  records of operations over an arbitrary world \<open>'w\<close>, so that anything may happen in the world
  between two calls. \<open>async\<close> code is a state transformer on the world; \<open>?\<close> is \<open>try_bind\<close>.
  A provider call that has not returned when the operation timeout elapses is \<open>None\<close>. Generated
  identifiers (random UUIDs) are operations of the environment. Log lines are not modelled.
\<close>

section \<open>Effects\<close>

abbreviation ret :: "'a \<Rightarrow> ('w, 'a) state" where
  "ret \<equiv> State_Monad.return"

definition try_bind ::
  "('w, 'e + 'a) state \<Rightarrow> ('a \<Rightarrow> ('w, 'e + 'b) state) \<Rightarrow> ('w, 'e + 'b) state" where
  "try_bind m k = do { r \<leftarrow> m; case r of Inl e \<Rightarrow> ret (Inl e) | Inr x \<Rightarrow> k x }"

definition repository_question :: "('w, 'a repository_result) state \<Rightarrow> ('w, 'a lifecycle_result) state" where
  "repository_question m = do { r \<leftarrow> m; ret (map_sum RepositoryError id r) }"

section \<open>Ports\<close>

record 'w session_repository_port =
  repo_find :: "tenant_id \<Rightarrow> operation_id \<Rightarrow> ('w, sandbox_session option repository_result) state"
  repo_get :: "tenant_id \<Rightarrow> sandbox_session_id \<Rightarrow> ('w, sandbox_session option repository_result) state"
  repo_insert :: "sandbox_session \<Rightarrow> ('w, unit repository_result) state"
  repo_save :: "sandbox_session \<Rightarrow> u64 \<Rightarrow> sandbox_session_lease \<Rightarrow> ('w, unit repository_result) state"
  repo_acquire :: "tenant_id \<Rightarrow> sandbox_session_id \<Rightarrow> sandbox_lease_owner_id \<Rightarrow> nat
    \<Rightarrow> ('w, sandbox_session_lease option repository_result) state"
  repo_renew :: "sandbox_session_lease \<Rightarrow> nat \<Rightarrow> ('w, sandbox_session_lease option repository_result) state"
  repo_release :: "sandbox_session_lease \<Rightarrow> ('w, bool repository_result) state"
  repo_list :: "tenant_id \<Rightarrow> sandbox_session_id option \<Rightarrow> nat
    \<Rightarrow> ('w, (sandbox_session_id \<times> sandbox_session_state) list repository_result) state"

record provider_allocation_request =
  allocate_tenant_id :: tenant_id
  allocate_workspace_id :: sandbox_workspace_id
  allocate_session_id :: sandbox_session_id
  allocate_sandbox_id :: sandbox_id
  allocate_binding_id :: sandbox_runtime_binding_id
  allocate_fencing_token :: sandbox_fencing_token
  allocate_capabilities :: "runtime_capability set"
  allocate_assurance :: isolation_assurance

record provider_start_request =
  start_tenant_id :: tenant_id
  start_workspace_id :: sandbox_workspace_id
  start_session_id :: sandbox_session_id
  start_sandbox_id :: sandbox_id
  start_binding_id :: sandbox_runtime_binding_id
  start_fencing_token :: sandbox_fencing_token
  start_allocation :: sandbox_allocation_ref

record provider_stop_request =
  stop_tenant_id :: tenant_id
  stop_session_id :: sandbox_session_id
  stop_sandbox_id :: sandbox_id
  stop_binding_id :: sandbox_runtime_binding_id
  stop_fencing_token :: sandbox_fencing_token
  stop_allocation :: sandbox_allocation_ref

record provider_destroy_request =
  destroy_tenant_id :: tenant_id
  destroy_session_id :: sandbox_session_id
  destroy_sandbox_id :: sandbox_id
  destroy_binding_id :: sandbox_runtime_binding_id
  destroy_fencing_token :: sandbox_fencing_token
  destroy_allocation :: "sandbox_allocation_ref option"

type_synonym ('w, 'a) provider_call = "('w, (sandbox_provider_error + 'a) option) state"

record 'w sandbox_provider =
  provider_descriptor :: sandbox_provider_descriptor
  provider_health :: "('w, sandbox_provider_health_status) provider_call"
  provider_allocate :: "provider_allocation_request \<Rightarrow> ('w, sandbox_allocation_ref) provider_call"
  provider_start :: "provider_start_request \<Rightarrow> ('w, sandbox_provider_readiness) provider_call"
  provider_stop :: "provider_stop_request \<Rightarrow> ('w, unit) provider_call"
  provider_destroy :: "provider_destroy_request \<Rightarrow> ('w, unit) provider_call"

abbreviation provider_id :: "'w sandbox_provider \<Rightarrow> sandbox_provider_id" where
  "provider_id p \<equiv> descriptor_provider_id (provider_descriptor p)"

record 'w lifecycle_service =
  service_repository :: "'w session_repository_port"
  service_providers :: "'w sandbox_provider list"
  service_lease_owner :: sandbox_lease_owner_id
  service_lease_duration :: nat
  service_provider_timeout :: nat
  service_generate_sandbox_id :: "('w, sandbox_id) state"
  service_generate_binding_id :: "('w, sandbox_runtime_binding_id) state"

record create_session_command =
  create_tenant_id :: tenant_id
  create_workspace_id :: sandbox_workspace_id
  create_session_id :: sandbox_session_id
  create_operation_id :: operation_id
  create_capabilities :: "runtime_capability set"
  create_assurance :: isolation_assurance

record lifecycle_command =
  command_tenant_id :: tenant_id
  command_session_id :: sandbox_session_id
  command_operation_id :: operation_id

section \<open>Construction\<close>

fun first_duplicate_provider :: "'w sandbox_provider list \<Rightarrow> sandbox_provider_id option" where
  "first_duplicate_provider (p # q # ps) =
     (if provider_id p = provider_id q then Some (provider_id p)
      else first_duplicate_provider (q # ps))"
| "first_duplicate_provider _ = None"

text \<open>
  Durations are nanoseconds. A timeout whose double overflows a \<open>Duration\<close> exceeds every lease
  duration, so the comparison below covers \<open>checked_mul\<close> too.
\<close>

definition new_with_sandbox_operation_policy ::
  "'w session_repository_port \<Rightarrow> 'w sandbox_provider list \<Rightarrow> sandbox_lease_owner_id \<Rightarrow> nat \<Rightarrow> nat
     \<Rightarrow> ('w, sandbox_id) state \<Rightarrow> ('w, sandbox_runtime_binding_id) state
     \<Rightarrow> 'w lifecycle_service lifecycle_result" where
  "new_with_sandbox_operation_policy repo providers owner lease timeout gen_sandbox gen_binding =
     (if \<not> (1000000 \<le> lease \<and> lease \<le> 300000000000) then
        Inl (InvariantViolation
          ''sandbox lease duration must be between one millisecond and five minutes'')
      else if timeout = 0 \<or> timeout * 2 > lease then
        Inl (InvariantViolation
          ''sandbox provider operation timeout must be nonzero and no greater than half the sandbox lease duration'')
      else
        (let sorted = sort_key provider_id providers in
         case first_duplicate_provider sorted of
           Some pid \<Rightarrow> Inl (DuplicateProvider pid)
         | None \<Rightarrow> Inr \<lparr> service_repository = repo, service_providers = sorted,
             service_lease_owner = owner, service_lease_duration = lease,
             service_provider_timeout = timeout, service_generate_sandbox_id = gen_sandbox,
             service_generate_binding_id = gen_binding \<rparr>))"

section \<open>Leases and provider calls\<close>

definition acquire_service_lease ::
  "'w lifecycle_service \<Rightarrow> tenant_id \<Rightarrow> sandbox_session_id
     \<Rightarrow> ('w, sandbox_session_lease lifecycle_result) state" where
  "acquire_service_lease svc t sid =
     try_bind (repository_question (repo_acquire (service_repository svc) t sid
         (service_lease_owner svc) (service_lease_duration svc)))
       (\<lambda>l. case l of None \<Rightarrow> ret (Inl LeaseUnavailable) | Some x \<Rightarrow> ret (Inr x))"

definition release_service_lease ::
  "'w lifecycle_service \<Rightarrow> sandbox_session_lease \<Rightarrow> 'a lifecycle_result
     \<Rightarrow> ('w, 'a lifecycle_result) state" where
  "release_service_lease svc l result =
     do { released \<leftarrow> repo_release (service_repository svc) l;
          ret (case result of
                 Inl e \<Rightarrow> Inl e
               | Inr v \<Rightarrow> (case released of
                    Inl _ \<Rightarrow> Inl LeaseLost
                  | Inr b \<Rightarrow> if b then Inr v else Inl LeaseLost)) }"

definition lease_matches :: "sandbox_session_lease \<Rightarrow> sandbox_session_lease \<Rightarrow> bool" where
  "lease_matches l' l \<longleftrightarrow>
     \<not> (lease_tenant_id l' \<noteq> lease_tenant_id l \<or> lease_session_id l' \<noteq> lease_session_id l
        \<or> lease_owner_id l' \<noteq> lease_owner_id l
        \<or> lease_fencing_token l' \<noteq> lease_fencing_token l)"

definition execute_sandbox_provider_call ::
  "'w lifecycle_service \<Rightarrow> 'w sandbox_provider \<Rightarrow> sandbox_provider_operation
     \<Rightarrow> sandbox_session_lease \<Rightarrow> ('w, 'a) provider_call
     \<Rightarrow> ('w, (sandbox_provider_error + 'a) lifecycle_result) state" where
  "execute_sandbox_provider_call svc p op l call =
     do { renewed \<leftarrow> repo_renew (service_repository svc) l (service_lease_duration svc);
          case renewed of
            Inl _ \<Rightarrow> ret (Inl LeaseLost)
          | Inr None \<Rightarrow> ret (Inl LeaseLost)
          | Inr (Some l') \<Rightarrow>
              if \<not> lease_matches l' l then ret (Inl LeaseLost)
              else do { result \<leftarrow> call;
                ret (case result of
                       Some r \<Rightarrow> Inr r
                     | None \<Rightarrow> Inr (Inl \<lparr> error_provider_id = provider_id p, error_operation = op,
                         error_kind = Timeout \<rparr>)) } }"

section \<open>Reading and persisting\<close>

definition service_get_session ::
  "'w lifecycle_service \<Rightarrow> tenant_id \<Rightarrow> sandbox_session_id
     \<Rightarrow> ('w, sandbox_session lifecycle_result) state" where
  "service_get_session svc t sid =
     try_bind (repository_question (repo_get (service_repository svc) t sid))
       (\<lambda>s. case s of None \<Rightarrow> ret (Inl (SandboxSessionNotFound t sid)) | Some x \<Rightarrow> ret (Inr x))"

definition persist_sandbox_session ::
  "'w lifecycle_service \<Rightarrow> sandbox_session \<Rightarrow> sandbox_session_lease
     \<Rightarrow> ('w, sandbox_session lifecycle_result) state" where
  "persist_sandbox_session svc s l =
     (case next_sandbox_version s of
        Inl e \<Rightarrow> ret (Inl e)
      | Inr (expected, s') \<Rightarrow>
          do { saved \<leftarrow> repo_save (service_repository svc) s' expected l;
               ret (case saved of
                      Inr _ \<Rightarrow> Inr (mark_sandbox_operations_persisted s')
                    | Inl e \<Rightarrow> if e = LeaseConflict then Inl LeaseLost
                              else Inl (RepositoryError e)) })"

definition fail_with_sandbox_provider_error ::
  "'w lifecycle_service \<Rightarrow> sandbox_session \<Rightarrow> operation_id \<Rightarrow> sandbox_session_operation_kind
     \<Rightarrow> sandbox_session_failure \<Rightarrow> sandbox_provider_error \<Rightarrow> sandbox_session_lease
     \<Rightarrow> ('w, sandbox_session lifecycle_result) state" where
  "fail_with_sandbox_provider_error svc s oid kind f perr l =
     (case transition_sandbox_session Failed kind s of
        Inl e \<Rightarrow> ret (Inl e)
      | Inr s' \<Rightarrow>
          try_bind (persist_sandbox_session svc (fail_sandbox_operation oid f s') l)
            (\<lambda>_. ret (Inl (ProviderError perr))))"

definition service_replay_operation ::
  "sandbox_session \<Rightarrow> operation_id \<Rightarrow> sandbox_session_operation_kind
     \<Rightarrow> sandbox_session lifecycle_result option lifecycle_result" where
  "service_replay_operation s oid kind =
     (case session_replay_operation s oid kind of
        Inl e \<Rightarrow> Inl e
      | Inr None \<Rightarrow> Inr None
      | Inr (Some outcome) \<Rightarrow>
          Inr (Some (case outcome of
             Succeeded \<Rightarrow> Inr s
           | InProgress \<Rightarrow> Inl (OperationInProgress oid)
           | OutcomeFailed f \<Rightarrow> Inl (OperationPreviouslyFailed oid f))))"

definition in_progress_sandbox_operation_id ::
  "sandbox_session \<Rightarrow> sandbox_session_operation_kind \<Rightarrow> operation_id lifecycle_result" where
  "in_progress_sandbox_operation_id s kind =
     (case find (\<lambda>x. operation_kind x = kind \<and> operation_outcome x = InProgress)
             (rev (session_operations s)) of
        Some x \<Rightarrow> Inr (operation_id_of x)
      | None \<Rightarrow> Inl (InvariantViolation
          ''transient sandbox session has no in-progress lifecycle operation''))"

section \<open>Providers\<close>

definition sandbox_provider_by_id ::
  "'w lifecycle_service \<Rightarrow> sandbox_provider_id \<Rightarrow> 'w sandbox_provider lifecycle_result" where
  "sandbox_provider_by_id svc pid =
     (case find (\<lambda>p. provider_id p = pid) (service_providers svc) of
        Some p \<Rightarrow> Inr p
      | None \<Rightarrow> Inl (InvariantViolation
          ''sandbox runtime binding references an unregistered sandbox provider''))"

text \<open>The selection loop, with the flag \<open>found_eligible_sandbox_provider\<close>.\<close>

primrec select_loop ::
  "'w lifecycle_service \<Rightarrow> sandbox_session \<Rightarrow> sandbox_session_lease \<Rightarrow> bool
     \<Rightarrow> 'w sandbox_provider list \<Rightarrow> ('w, 'w sandbox_provider lifecycle_result) state" where
  "select_loop svc s l found [] =
     ret (Inl (if found then NoHealthyProvider else NoEligibleProvider))"
| "select_loop svc s l found (p # ps) =
     (if \<not> satisfies_sandbox_requirements (provider_descriptor p)
            (session_required_capabilities s) (session_minimum_assurance s)
      then select_loop svc s l found ps
      else
        do { health \<leftarrow> execute_sandbox_provider_call svc p ProviderHealth l (provider_health p);
             case health of
               Inl e \<Rightarrow> ret (Inl e)
             | Inr (Inl _) \<Rightarrow> select_loop svc s l True ps
             | Inr (Inr h) \<Rightarrow>
                 if h = HealthReady then ret (Inr p) else select_loop svc s l True ps })"

definition select_sandbox_provider ::
  "'w lifecycle_service \<Rightarrow> sandbox_session \<Rightarrow> sandbox_session_lease
     \<Rightarrow> ('w, 'w sandbox_provider lifecycle_result) state" where
  "select_sandbox_provider svc s l = select_loop svc s l False (service_providers svc)"

definition sandbox_allocation_request_for ::
  "sandbox_session \<Rightarrow> sandbox_runtime_binding \<Rightarrow> sandbox_session_lease \<Rightarrow> provider_allocation_request" where
  "sandbox_allocation_request_for s b l =
     \<lparr> allocate_tenant_id = session_tenant_id s, allocate_workspace_id = session_workspace_id s,
       allocate_session_id = session_id s, allocate_sandbox_id = binding_sandbox_id b,
       allocate_binding_id = binding_runtime_id b,
       allocate_fencing_token = lease_fencing_token l,
       allocate_capabilities = session_required_capabilities s,
       allocate_assurance = session_minimum_assurance s \<rparr>"

definition sandbox_start_request ::
  "sandbox_session \<Rightarrow> sandbox_runtime_binding \<Rightarrow> sandbox_session_lease
     \<Rightarrow> provider_start_request lifecycle_result" where
  "sandbox_start_request s b l =
     (case binding_allocation_ref b of
        None \<Rightarrow> Inl (InvariantViolation
          ''sandbox runtime binding has no provider allocation reference'')
      | Some a \<Rightarrow> Inr \<lparr> start_tenant_id = session_tenant_id s,
          start_workspace_id = session_workspace_id s, start_session_id = session_id s,
          start_sandbox_id = binding_sandbox_id b, start_binding_id = binding_runtime_id b,
          start_fencing_token = lease_fencing_token l, start_allocation = a \<rparr>)"

definition sandbox_stop_request ::
  "sandbox_session \<Rightarrow> sandbox_runtime_binding \<Rightarrow> sandbox_session_lease
     \<Rightarrow> provider_stop_request lifecycle_result" where
  "sandbox_stop_request s b l =
     (case binding_allocation_ref b of
        None \<Rightarrow> Inl (InvariantViolation
          ''sandbox runtime binding has no provider allocation reference'')
      | Some a \<Rightarrow> Inr \<lparr> stop_tenant_id = session_tenant_id s, stop_session_id = session_id s,
          stop_sandbox_id = binding_sandbox_id b, stop_binding_id = binding_runtime_id b,
          stop_fencing_token = lease_fencing_token l, stop_allocation = a \<rparr>)"

definition sandbox_destroy_request_for_values ::
  "tenant_id \<Rightarrow> sandbox_session_id \<Rightarrow> sandbox_runtime_binding \<Rightarrow> sandbox_session_lease
     \<Rightarrow> provider_destroy_request" where
  "sandbox_destroy_request_for_values t sid b l =
     \<lparr> destroy_tenant_id = t, destroy_session_id = sid, destroy_sandbox_id = binding_sandbox_id b,
       destroy_binding_id = binding_runtime_id b, destroy_fencing_token = lease_fencing_token l,
       destroy_allocation = binding_allocation_ref b \<rparr>"

definition sandbox_destroy_request ::
  "sandbox_session \<Rightarrow> sandbox_runtime_binding \<Rightarrow> sandbox_session_lease \<Rightarrow> provider_destroy_request" where
  "sandbox_destroy_request s b l =
     sandbox_destroy_request_for_values (session_tenant_id s) (session_id s) b l"

end
