(* ===== verification/Session_Lifecycle.thy ===== *)
theory Session_Lifecycle
  imports Session_Service
begin

text \<open>
  The commands of the lifecycle service: create, start, stop, destroy, and the reconciliation of
  transient sessions (\<open>service.rs\<close>). The code of \<open>start\<close> and of the \<open>Starting\<close> arm of the
  reconciler repeat the same three stretches (allocate, record the allocation, start the provider
  and settle); each stretch is one definition used by both.
\<close>

section \<open>Create\<close>

definition create_existing ::
  "create_session_command \<Rightarrow> sandbox_session \<Rightarrow> sandbox_session lifecycle_result" where
  "create_existing c s =
     (if matches_create s (create_workspace_id c) (create_session_id c) (create_capabilities c)
           (create_assurance c)
      then Inr s else Inl (IdempotencyConflict (create_operation_id c)))"

definition create_reread ::
  "'w lifecycle_service \<Rightarrow> create_session_command \<Rightarrow> sandbox_lifecycle_error
     \<Rightarrow> ('w, sandbox_session lifecycle_result) state" where
  "create_reread svc c missing =
     try_bind (repository_question (repo_find (service_repository svc) (create_tenant_id c)
         (create_operation_id c)))
       (\<lambda>found. ret (case found of None \<Rightarrow> Inl missing | Some s \<Rightarrow> create_existing c s))"

definition create_sandbox_session ::
  "'w lifecycle_service \<Rightarrow> create_session_command \<Rightarrow> ('w, sandbox_session lifecycle_result) state" where
  "create_sandbox_session svc c =
     try_bind (repository_question (repo_find (service_repository svc) (create_tenant_id c)
         (create_operation_id c)))
       (\<lambda>found. case found of
          Some s \<Rightarrow> ret (create_existing c s)
        | None \<Rightarrow>
            (let s = sandbox_session_create (create_tenant_id c) (create_workspace_id c)
                   (create_session_id c) (create_operation_id c) (create_capabilities c)
                   (create_assurance c)
             in do { inserted \<leftarrow> repo_insert (service_repository svc) s;
                     case inserted of
                       Inr _ \<Rightarrow> ret (Inr (mark_sandbox_operations_persisted s))
                     | Inl e \<Rightarrow>
                         if e = DuplicateOperation then
                           create_reread svc c (InvariantViolation
                             ''duplicate sandbox create operation has no owning sandbox session'')
                         else if e = VersionConflict \<or> e = DuplicateSandboxSession then
                           create_reread svc c
                             (SandboxSessionIdConflict (create_tenant_id c) (session_id s))
                         else ret (Inl (RepositoryError e)) }))"

section \<open>The shared stretches of a start\<close>

text \<open>Destroy the new allocation; a failure to do so is the operation's outcome.\<close>

definition cleanup_started ::
  "'w lifecycle_service \<Rightarrow> 'w sandbox_provider \<Rightarrow> sandbox_runtime_binding \<Rightarrow> operation_id
     \<Rightarrow> sandbox_session_lease \<Rightarrow> sandbox_session
     \<Rightarrow> (sandbox_session \<Rightarrow> ('w, sandbox_session lifecycle_result) state)
     \<Rightarrow> ('w, sandbox_session lifecycle_result) state" where
  "cleanup_started svc p b oid l s k =
     try_bind (execute_sandbox_provider_call svc p ProviderDestroy l
         (provider_destroy p (sandbox_destroy_request s b l)))
       (\<lambda>r. case r of
          Inl perr \<Rightarrow> fail_with_sandbox_provider_error svc s oid Start Cleanup perr l
        | Inr _ \<Rightarrow> k (clear_sandbox_runtime_binding s))"

definition reject_readiness ::
  "'w lifecycle_service \<Rightarrow> 'w sandbox_provider \<Rightarrow> operation_id \<Rightarrow> sandbox_session_lease
     \<Rightarrow> sandbox_session \<Rightarrow> ('w, sandbox_session lifecycle_result) state" where
  "reject_readiness svc p oid l s =
     (case transition_sandbox_session Failed Start s of
        Inl e \<Rightarrow> ret (Inl e)
      | Inr s' \<Rightarrow>
          try_bind (persist_sandbox_session svc (fail_sandbox_operation oid Readiness s') l)
            (\<lambda>_. ret (Inl (ProviderReadinessRejected (provider_id p)))))"

definition settle_operation ::
  "'w lifecycle_service \<Rightarrow> sandbox_session_state \<Rightarrow> sandbox_session_operation_kind \<Rightarrow> operation_id
     \<Rightarrow> sandbox_session_lease \<Rightarrow> sandbox_session \<Rightarrow> ('w, sandbox_session lifecycle_result) state" where
  "settle_operation svc target kind oid l s =
     (case transition_sandbox_session target kind s of
        Inl e \<Rightarrow> ret (Inl e)
      | Inr s' \<Rightarrow> persist_sandbox_session svc (complete_sandbox_operation oid s') l)"

definition start_provider ::
  "'w lifecycle_service \<Rightarrow> 'w sandbox_provider \<Rightarrow> sandbox_runtime_binding \<Rightarrow> operation_id
     \<Rightarrow> sandbox_session_lease \<Rightarrow> sandbox_session \<Rightarrow> ('w, sandbox_session lifecycle_result) state" where
  "start_provider svc p b oid l s =
     (case sandbox_start_request s b l of
        Inl e \<Rightarrow> ret (Inl e)
      | Inr req \<Rightarrow>
          try_bind (execute_sandbox_provider_call svc p ProviderStart l (provider_start p req))
            (\<lambda>r. case r of
               Inl perr \<Rightarrow>
                 cleanup_started svc p b oid l s
                   (\<lambda>s'. fail_with_sandbox_provider_error svc s' oid Start Provider perr l)
             | Inr readiness \<Rightarrow>
                 if \<not> is_sandbox_running_ready readiness then
                   cleanup_started svc p b oid l s (reject_readiness svc p oid l)
                 else settle_operation svc Running Start oid l s))"

definition record_allocation ::
  "'w lifecycle_service \<Rightarrow> 'w sandbox_provider \<Rightarrow> sandbox_runtime_binding \<Rightarrow> tenant_id
     \<Rightarrow> sandbox_session_id \<Rightarrow> sandbox_session_lease \<Rightarrow> sandbox_session
     \<Rightarrow> ('w, sandbox_session lifecycle_result) state" where
  "record_allocation svc p b t sid l s =
     do { persisted \<leftarrow> persist_sandbox_session svc (set_sandbox_runtime_binding b s) l;
          case persisted of
            Inr s' \<Rightarrow> ret (Inr s')
          | Inl e \<Rightarrow>
              do { cleanup \<leftarrow> execute_sandbox_provider_call svc p ProviderDestroy l
                     (provider_destroy p (sandbox_destroy_request_for_values t sid b l));
                   ret (Inl e) } }"

definition allocate_and_start ::
  "'w lifecycle_service \<Rightarrow> 'w sandbox_provider \<Rightarrow> sandbox_runtime_binding \<Rightarrow> operation_id
     \<Rightarrow> tenant_id \<Rightarrow> sandbox_session_id \<Rightarrow> sandbox_session_lease \<Rightarrow> sandbox_session
     \<Rightarrow> ('w, sandbox_session lifecycle_result) state" where
  "allocate_and_start svc p b oid t sid l s =
     try_bind (execute_sandbox_provider_call svc p ProviderAllocate l
         (provider_allocate p (sandbox_allocation_request_for s b l)))
       (\<lambda>r. case r of
          Inl perr \<Rightarrow> fail_with_sandbox_provider_error svc s oid Start Provider perr l
        | Inr aref \<Rightarrow>
            (let b' = set_sandbox_allocation_reference aref b
             in try_bind (record_allocation svc p b' t sid l s)
                  (\<lambda>s'. start_provider svc p b' oid l s')))"

section \<open>Start\<close>

definition begin_and_transition ::
  "operation_id \<Rightarrow> sandbox_session_operation_kind \<Rightarrow> sandbox_session_state \<Rightarrow> sandbox_session
     \<Rightarrow> sandbox_session lifecycle_result" where
  "begin_and_transition oid kind target s =
     (case begin_sandbox_operation oid kind s of
        Inl e \<Rightarrow> Inl e
      | Inr s' \<Rightarrow> transition_sandbox_session target kind s')"

text \<open>Destroy the allocation the session still holds; a failure is a failed start (\<open>Cleanup\<close>).\<close>

definition start_previous ::
  "'w lifecycle_service \<Rightarrow> operation_id \<Rightarrow> sandbox_session_lease \<Rightarrow> sandbox_session
     \<Rightarrow> ('w, sandbox_session lifecycle_result) state
     \<Rightarrow> ('w, sandbox_session lifecycle_result) state" where
  "start_previous svc oid l s k =
     (case session_runtime_binding s of
        None \<Rightarrow> k
      | Some b \<Rightarrow>
          if binding_allocation_ref b = None then k
          else
            (case sandbox_provider_by_id svc (binding_provider_id b) of
               Inl e \<Rightarrow> ret (Inl e)
             | Inr q \<Rightarrow>
                 try_bind (execute_sandbox_provider_call svc q ProviderDestroy l
                     (provider_destroy q (sandbox_destroy_request s b l)))
                   (\<lambda>r. case r of
                      Inl perr \<Rightarrow>
                        (case begin_and_transition oid Start Starting s of
                           Inl e \<Rightarrow> ret (Inl e)
                         | Inr s' \<Rightarrow>
                             fail_with_sandbox_provider_error svc s' oid Start Cleanup perr l)
                    | Inr _ \<Rightarrow> k)))"

text \<open>An intent without an allocation is taken over; otherwise a new one is generated.\<close>

definition start_intent ::
  "'w lifecycle_service \<Rightarrow> 'w sandbox_provider \<Rightarrow> sandbox_session
     \<Rightarrow> ('w, sandbox_runtime_binding) state" where
  "start_intent svc p s =
     (case session_runtime_binding s of
        Some b \<Rightarrow>
          if binding_allocation_ref b = None then ret b
          else do { x \<leftarrow> service_generate_sandbox_id svc; y \<leftarrow> service_generate_binding_id svc;
                    ret (sandbox_runtime_binding_new_intent x y (provider_id p)) }
      | None \<Rightarrow> do { x \<leftarrow> service_generate_sandbox_id svc; y \<leftarrow> service_generate_binding_id svc;
                    ret (sandbox_runtime_binding_new_intent x y (provider_id p)) })"

definition start_choose_provider ::
  "'w lifecycle_service \<Rightarrow> sandbox_session \<Rightarrow> sandbox_session_lease
     \<Rightarrow> ('w, 'w sandbox_provider lifecycle_result) state" where
  "start_choose_provider svc s l =
     (case session_runtime_binding s of
        Some b \<Rightarrow>
          if binding_allocation_ref b = None
          then ret (sandbox_provider_by_id svc (binding_provider_id b))
          else select_sandbox_provider svc s l
      | None \<Rightarrow> select_sandbox_provider svc s l)"

text \<open>From the intent on: persist it before anything is allocated.\<close>

definition start_with_intent ::
  "'w lifecycle_service \<Rightarrow> 'w sandbox_provider \<Rightarrow> lifecycle_command \<Rightarrow> sandbox_session_lease
     \<Rightarrow> sandbox_session \<Rightarrow> ('w, sandbox_session lifecycle_result) state" where
  "start_with_intent svc p c l s =
     do { b \<leftarrow> start_intent svc p s;
          case begin_and_transition (command_operation_id c) Start Starting
                 (set_sandbox_runtime_binding b s) of
            Inl e \<Rightarrow> ret (Inl e)
          | Inr s' \<Rightarrow>
              try_bind (persist_sandbox_session svc s' l)
                (allocate_and_start svc p b (command_operation_id c) (command_tenant_id c)
                   (command_session_id c) l) }"

definition start_sandbox_session_with_lease ::
  "'w lifecycle_service \<Rightarrow> lifecycle_command \<Rightarrow> sandbox_session_lease
     \<Rightarrow> ('w, sandbox_session lifecycle_result) state" where
  "start_sandbox_session_with_lease svc c l =
     try_bind (service_get_session svc (command_tenant_id c) (command_session_id c))
       (\<lambda>s. case service_replay_operation s (command_operation_id c) Start of
          Inl e \<Rightarrow> ret (Inl e)
        | Inr (Some replayed) \<Rightarrow> ret replayed
        | Inr None \<Rightarrow>
            if \<not> startable (session_state s) then
              ret (Inl (InvalidTransition (session_state s) Start))
            else
              try_bind (start_choose_provider svc s l)
                (\<lambda>p. start_previous svc (command_operation_id c) l s
                   (start_with_intent svc p c l s)))"

text \<open>Every command: take the lease, run, give the lease back.\<close>

definition with_service_lease ::
  "'w lifecycle_service \<Rightarrow> lifecycle_command
     \<Rightarrow> (sandbox_session_lease \<Rightarrow> ('w, sandbox_session lifecycle_result) state)
     \<Rightarrow> ('w, sandbox_session lifecycle_result) state" where
  "with_service_lease svc c body =
     try_bind (acquire_service_lease svc (command_tenant_id c) (command_session_id c))
       (\<lambda>l. do { result \<leftarrow> body l; release_service_lease svc l result })"

definition start_sandbox_session ::
  "'w lifecycle_service \<Rightarrow> lifecycle_command \<Rightarrow> ('w, sandbox_session lifecycle_result) state" where
  "start_sandbox_session svc c =
     with_service_lease svc c (start_sandbox_session_with_lease svc c)"

section \<open>Stop\<close>

text \<open>The provider stop and its two outcomes, shared with the reconciler.\<close>

definition stop_provider ::
  "'w lifecycle_service \<Rightarrow> 'w sandbox_provider \<Rightarrow> sandbox_runtime_binding \<Rightarrow> operation_id
     \<Rightarrow> sandbox_session_lease \<Rightarrow> sandbox_session \<Rightarrow> ('w, sandbox_session lifecycle_result) state" where
  "stop_provider svc p b oid l s =
     (case sandbox_stop_request s b l of
        Inl e \<Rightarrow> ret (Inl e)
      | Inr req \<Rightarrow>
          try_bind (execute_sandbox_provider_call svc p ProviderStop l (provider_stop p req))
            (\<lambda>r. case r of
               Inl perr \<Rightarrow> fail_with_sandbox_provider_error svc s oid Stop Provider perr l
             | Inr _ \<Rightarrow> settle_operation svc Stopped Stop oid l s))"

definition stop_sandbox_session_with_lease ::
  "'w lifecycle_service \<Rightarrow> lifecycle_command \<Rightarrow> sandbox_session_lease
     \<Rightarrow> ('w, sandbox_session lifecycle_result) state" where
  "stop_sandbox_session_with_lease svc c l =
     try_bind (service_get_session svc (command_tenant_id c) (command_session_id c))
       (\<lambda>s. case service_replay_operation s (command_operation_id c) Stop of
          Inl e \<Rightarrow> ret (Inl e)
        | Inr (Some replayed) \<Rightarrow> ret replayed
        | Inr None \<Rightarrow>
            if session_state s \<noteq> Running then ret (Inl (InvalidTransition (session_state s) Stop))
            else
              (case session_runtime_binding s of
                 None \<Rightarrow> ret (Inl (InvariantViolation
                   ''running sandbox session has no sandbox runtime binding''))
               | Some b \<Rightarrow>
                   (case sandbox_provider_by_id svc (binding_provider_id b) of
                      Inl e \<Rightarrow> ret (Inl e)
                    | Inr p \<Rightarrow>
                        (case begin_and_transition (command_operation_id c) Stop Stopping s of
                           Inl e \<Rightarrow> ret (Inl e)
                         | Inr s' \<Rightarrow>
                             try_bind (persist_sandbox_session svc s' l)
                               (stop_provider svc p b (command_operation_id c) l)))))"

definition stop_sandbox_session ::
  "'w lifecycle_service \<Rightarrow> lifecycle_command \<Rightarrow> ('w, sandbox_session lifecycle_result) state" where
  "stop_sandbox_session svc c =
     with_service_lease svc c (stop_sandbox_session_with_lease svc c)"

section \<open>Destroy\<close>

definition destroy_provider ::
  "'w lifecycle_service \<Rightarrow> ('w sandbox_provider \<times> sandbox_runtime_binding) option \<Rightarrow> operation_id
     \<Rightarrow> sandbox_session_lease \<Rightarrow> sandbox_session \<Rightarrow> ('w, sandbox_session lifecycle_result) state" where
  "destroy_provider svc target oid l s =
     (case target of
        None \<Rightarrow> settle_operation svc Destroyed Destroy oid l s
      | Some (p, b) \<Rightarrow>
          try_bind (execute_sandbox_provider_call svc p ProviderDestroy l
              (provider_destroy p (sandbox_destroy_request s b l)))
            (\<lambda>r. case r of
               Inl perr \<Rightarrow> fail_with_sandbox_provider_error svc s oid Destroy Cleanup perr l
             | Inr _ \<Rightarrow>
                 settle_operation svc Destroyed Destroy oid l (clear_sandbox_runtime_binding s)))"

definition destroy_target ::
  "'w lifecycle_service \<Rightarrow> sandbox_session
     \<Rightarrow> ('w sandbox_provider \<times> sandbox_runtime_binding) option lifecycle_result" where
  "destroy_target svc s =
     (case session_runtime_binding s of
        None \<Rightarrow> Inr None
      | Some b \<Rightarrow>
          (case sandbox_provider_by_id svc (binding_provider_id b) of
             Inl e \<Rightarrow> Inl e | Inr p \<Rightarrow> Inr (Some (p, b))))"

definition destroy_sandbox_session_with_lease ::
  "'w lifecycle_service \<Rightarrow> lifecycle_command \<Rightarrow> sandbox_session_lease
     \<Rightarrow> ('w, sandbox_session lifecycle_result) state" where
  "destroy_sandbox_session_with_lease svc c l =
     try_bind (service_get_session svc (command_tenant_id c) (command_session_id c))
       (\<lambda>s. case service_replay_operation s (command_operation_id c) Destroy of
          Inl e \<Rightarrow> ret (Inl e)
        | Inr (Some replayed) \<Rightarrow> ret replayed
        | Inr None \<Rightarrow>
            if \<not> startable (session_state s) then
              ret (Inl (InvalidTransition (session_state s) Destroy))
            else
              (case destroy_target svc s of
                 Inl e \<Rightarrow> ret (Inl e)
               | Inr target \<Rightarrow>
                   (case begin_and_transition (command_operation_id c) Destroy Destroying s of
                      Inl e \<Rightarrow> ret (Inl e)
                    | Inr s' \<Rightarrow>
                        try_bind (persist_sandbox_session svc s' l)
                          (destroy_provider svc target (command_operation_id c) l))))"

definition destroy_sandbox_session ::
  "'w lifecycle_service \<Rightarrow> lifecycle_command \<Rightarrow> ('w, sandbox_session lifecycle_result) state" where
  "destroy_sandbox_session svc c =
     with_service_lease svc c (destroy_sandbox_session_with_lease svc c)"

section \<open>Reconciliation\<close>

datatype sandbox_session_reconciliation_outcome =
  Reconciled | ReconcileFailed | ReconcileLeaseUnavailable | Unreadable | Vanished

type_synonym sandbox_session_reconciliation_item =
  "sandbox_session_id \<times> sandbox_session_state \<times> sandbox_session_reconciliation_outcome"

record sandbox_session_reconciliation_page =
  page_items :: "sandbox_session_reconciliation_item list"
  page_next :: "sandbox_session_id option"

text \<open>The arm of each transient state.\<close>

definition reconcile_starting ::
  "'w lifecycle_service \<Rightarrow> sandbox_session \<Rightarrow> sandbox_session_lease
     \<Rightarrow> ('w, sandbox_session lifecycle_result) state" where
  "reconcile_starting svc s l =
     (case in_progress_sandbox_operation_id s Start of
        Inl e \<Rightarrow> ret (Inl e)
      | Inr oid \<Rightarrow>
          (case session_runtime_binding s of
             None \<Rightarrow> ret (Inl (InvariantViolation
               ''starting sandbox session has no sandbox runtime binding intent''))
           | Some b \<Rightarrow>
               (case sandbox_provider_by_id svc (binding_provider_id b) of
                  Inl e \<Rightarrow> ret (Inl e)
                | Inr p \<Rightarrow>
                    if binding_allocation_ref b = None then
                      allocate_and_start svc p b oid (session_tenant_id s) (session_id s) l s
                    else start_provider svc p b oid l s)))"

definition reconcile_stopping ::
  "'w lifecycle_service \<Rightarrow> sandbox_session \<Rightarrow> sandbox_session_lease
     \<Rightarrow> ('w, sandbox_session lifecycle_result) state" where
  "reconcile_stopping svc s l =
     (case in_progress_sandbox_operation_id s Stop of
        Inl e \<Rightarrow> ret (Inl e)
      | Inr oid \<Rightarrow>
          (case session_runtime_binding s of
             None \<Rightarrow> ret (Inl (InvariantViolation
               ''stopping sandbox session has no sandbox runtime binding''))
           | Some b \<Rightarrow>
               (case sandbox_provider_by_id svc (binding_provider_id b) of
                  Inl e \<Rightarrow> ret (Inl e)
                | Inr p \<Rightarrow> stop_provider svc p b oid l s)))"

definition reconcile_destroying ::
  "'w lifecycle_service \<Rightarrow> sandbox_session \<Rightarrow> sandbox_session_lease
     \<Rightarrow> ('w, sandbox_session lifecycle_result) state" where
  "reconcile_destroying svc s l =
     (case in_progress_sandbox_operation_id s Destroy of
        Inl e \<Rightarrow> ret (Inl e)
      | Inr oid \<Rightarrow>
          (case destroy_target svc s of
             Inl e \<Rightarrow> ret (Inl e)
           | Inr target \<Rightarrow> destroy_provider svc target oid l s))"

definition reconcile_sandbox_session_with_lease ::
  "'w lifecycle_service \<Rightarrow> sandbox_session \<Rightarrow> sandbox_session_lease
     \<Rightarrow> ('w, sandbox_session lifecycle_result) state" where
  "reconcile_sandbox_session_with_lease svc s l =
     (case session_state s of
        Starting \<Rightarrow> reconcile_starting svc s l
      | Stopping \<Rightarrow> reconcile_stopping svc s l
      | Destroying \<Rightarrow> reconcile_destroying svc s l
      | _ \<Rightarrow> ret (Inl (InvariantViolation
          ''reconciler received a non-transient sandbox session'')))"

text \<open>The errors that belong to one session only.\<close>

fun is_item_local_error :: "sandbox_lifecycle_error \<Rightarrow> bool" where
  "is_item_local_error (ProviderError _) = True"
| "is_item_local_error (ProviderReadinessRejected _) = True"
| "is_item_local_error (InvariantViolation _) = True"
| "is_item_local_error (RepositoryError e) = (e = InvalidStoredData)"
| "is_item_local_error _ = False"

definition is_session_not_found :: "sandbox_lifecycle_error \<Rightarrow> bool" where
  "is_session_not_found e = (case e of SandboxSessionNotFound _ _ \<Rightarrow> True | _ \<Rightarrow> False)"

definition report_from_store ::
  "'w lifecycle_service \<Rightarrow> tenant_id \<Rightarrow> sandbox_session_id \<Rightarrow> sandbox_session_state
     \<Rightarrow> sandbox_session_reconciliation_outcome
     \<Rightarrow> ('w, sandbox_session_reconciliation_item lifecycle_result) state" where
  "report_from_store svc t sid listed outcome =
     do { found \<leftarrow> service_get_session svc t sid;
          ret (case found of
                 Inr s \<Rightarrow> Inr (sid, session_state s, outcome)
               | Inl e \<Rightarrow> if is_session_not_found e then Inr (sid, listed, Vanished) else Inl e) }"

definition reconcile_leased_item ::
  "'w lifecycle_service \<Rightarrow> tenant_id \<Rightarrow> sandbox_session_id \<Rightarrow> sandbox_session_state
     \<Rightarrow> sandbox_session_lease
     \<Rightarrow> ('w, sandbox_session_reconciliation_item lifecycle_result) state" where
  "reconcile_leased_item svc t sid listed l =
     do { loaded \<leftarrow> service_get_session svc t sid;
          let settle = (\<lambda>result. do { released \<leftarrow> release_service_lease svc l result;
                case released of
                  Inr s \<Rightarrow> ret (Inr (sid, session_state s, Reconciled))
                | Inl e \<Rightarrow>
                    if is_item_local_error e then report_from_store svc t sid listed ReconcileFailed
                    else if e = LeaseLost then
                      report_from_store svc t sid listed ReconcileLeaseUnavailable
                    else ret (Inl e) });
              skip = (\<lambda>outcome. do { ignored \<leftarrow> repo_release (service_repository svc) l;
                ret (Inr (sid, listed, outcome)) })
          in (case loaded of
                Inr s \<Rightarrow>
                  if session_state s = Starting \<or> session_state s = Stopping
                     \<or> session_state s = Destroying
                  then do { result \<leftarrow> reconcile_sandbox_session_with_lease svc s l;
                            settle result }
                  else settle (Inr s)
              | Inl e \<Rightarrow>
                  if is_session_not_found e then skip Vanished
                  else if e = RepositoryError InvalidStoredData then skip Unreadable
                  else settle (Inl e)) }"

definition reconcile_item ::
  "'w lifecycle_service \<Rightarrow> tenant_id \<Rightarrow> sandbox_session_id \<times> sandbox_session_state
     \<Rightarrow> ('w, sandbox_session_reconciliation_item lifecycle_result) state" where
  "reconcile_item svc t c =
     do { acquired \<leftarrow> repo_acquire (service_repository svc) t (fst c) (service_lease_owner svc)
              (service_lease_duration svc);
          case acquired of
            Inr (Some l) \<Rightarrow> reconcile_leased_item svc t (fst c) (snd c) l
          | Inr None \<Rightarrow> ret (Inr (fst c, snd c, ReconcileLeaseUnavailable))
          | Inl e \<Rightarrow>
              if e = NotFound then ret (Inr (fst c, snd c, Vanished))
              else if e = RepositoryUnavailable then
                ret (Inr (fst c, snd c, ReconcileLeaseUnavailable))
              else ret (Inl (RepositoryError e)) }"

primrec reconcile_items ::
  "'w lifecycle_service \<Rightarrow> tenant_id \<Rightarrow> (sandbox_session_id \<times> sandbox_session_state) list
     \<Rightarrow> sandbox_session_reconciliation_item list
     \<Rightarrow> ('w, sandbox_session_reconciliation_item list lifecycle_result) state" where
  "reconcile_items svc t [] items = ret (Inr items)"
| "reconcile_items svc t (c # cs) items =
     try_bind (reconcile_item svc t c) (\<lambda>i. reconcile_items svc t cs (items @ [i]))"

definition reconcile_cursor ::
  "'w lifecycle_service \<Rightarrow> tenant_id \<Rightarrow> nat
     \<Rightarrow> (sandbox_session_id \<times> sandbox_session_state) list
     \<Rightarrow> ('w, sandbox_session_id option lifecycle_result) state" where
  "reconcile_cursor svc t page_size cands =
     (if length cands = page_size then
        (if cands = [] then ret (Inl (InvariantViolation
           ''full sandbox reconciliation page has no final sandbox session''))
         else
           try_bind (repository_question (repo_list (service_repository svc) t
               (Some (fst (last cands))) 1))
             (\<lambda>more. ret (Inr (if more \<noteq> [] then Some (fst (last cands)) else None))))
      else ret (Inr None))"

definition reconcile_sandbox_sessions ::
  "'w lifecycle_service \<Rightarrow> tenant_id \<Rightarrow> sandbox_session_id option \<Rightarrow> nat
     \<Rightarrow> ('w, sandbox_session_reconciliation_page lifecycle_result) state" where
  "reconcile_sandbox_sessions svc t after page_size =
     (if \<not> (1 \<le> page_size \<and> page_size \<le> 200) then
        ret (Inl (RepositoryError InvalidPageRequest))
      else
        try_bind (repository_question (repo_list (service_repository svc) t after page_size))
          (\<lambda>cands. try_bind (reconcile_cursor svc t page_size cands)
             (\<lambda>next_id. try_bind (reconcile_items svc t cands [])
                (\<lambda>items. ret (Inr \<lparr> page_items = items, page_next = next_id \<rparr>)))))"

end
