(* ===== verification/Service_Log.thy ===== *)
theory Service_Log
  imports Session_Lifecycle
begin

text \<open>
  How the lifecycle service uses its ports. The ports of any service can be observed: each save,
  renewal and provider call appends an event to a log beside the world. The predicates below are
  the protocol the log must follow: provider calls are fenced, saved sessions are valid, an
  allocation is preceded by its recorded intent, and a successful allocation is accounted for.
  \<open>emits\<close> is the triple of an observed computation: it keeps the world's invariant and appends
  events that satisfy the postcondition.
\<close>

section \<open>Observation\<close>

datatype provider_request =
  HealthCall
| AllocateCall provider_allocation_request "(sandbox_provider_error + sandbox_allocation_ref) option"
| StartCall provider_start_request
| StopCall provider_stop_request
| DestroyCall provider_destroy_request "(sandbox_provider_error + unit) option"

datatype lifecycle_event =
  SaveTried sandbox_session u64 sandbox_session_lease "unit repository_result"
| RenewTried sandbox_session_lease "sandbox_session_lease option repository_result"
| ProviderCalled sandbox_provider_id provider_request

definition observed ::
  "('w, 'a) state \<Rightarrow> ('a \<Rightarrow> lifecycle_event list) \<Rightarrow> ('w \<times> lifecycle_event list, 'a) state" where
  "observed m ev = State (\<lambda>(w, events). case run_state m w of (r, w') \<Rightarrow> (r, (w', events @ ev r)))"

definition observed_port ::
  "'w session_repository_port \<Rightarrow> ('w \<times> lifecycle_event list) session_repository_port" where
  "observed_port p = \<lparr>
     repo_find = (\<lambda>t oid. observed (repo_find p t oid) (\<lambda>_. [])),
     repo_get = (\<lambda>t sid. observed (repo_get p t sid) (\<lambda>_. [])),
     repo_insert = (\<lambda>s. observed (repo_insert p s) (\<lambda>_. [])),
     repo_save = (\<lambda>s v l. observed (repo_save p s v l) (\<lambda>r. [SaveTried s v l r])),
     repo_acquire = (\<lambda>t sid owner d. observed (repo_acquire p t sid owner d) (\<lambda>_. [])),
     repo_renew = (\<lambda>l d. observed (repo_renew p l d) (\<lambda>r. [RenewTried l r])),
     repo_release = (\<lambda>l. observed (repo_release p l) (\<lambda>_. [])),
     repo_list = (\<lambda>t after n. observed (repo_list p t after n) (\<lambda>_. [])) \<rparr>"

definition observed_provider ::
  "'w sandbox_provider \<Rightarrow> ('w \<times> lifecycle_event list) sandbox_provider" where
  "observed_provider p = \<lparr>
     provider_descriptor = provider_descriptor p,
     provider_health = observed (provider_health p) (\<lambda>_. [ProviderCalled (provider_id p) HealthCall]),
     provider_allocate = (\<lambda>q. observed (provider_allocate p q)
       (\<lambda>r. [ProviderCalled (provider_id p) (AllocateCall q r)])),
     provider_start = (\<lambda>q. observed (provider_start p q)
       (\<lambda>_. [ProviderCalled (provider_id p) (StartCall q)])),
     provider_stop = (\<lambda>q. observed (provider_stop p q)
       (\<lambda>_. [ProviderCalled (provider_id p) (StopCall q)])),
     provider_destroy = (\<lambda>q. observed (provider_destroy p q)
       (\<lambda>r. [ProviderCalled (provider_id p) (DestroyCall q r)])) \<rparr>"

definition observed_service ::
  "'w lifecycle_service \<Rightarrow> ('w \<times> lifecycle_event list) lifecycle_service" where
  "observed_service svc = \<lparr>
     service_repository = observed_port (service_repository svc),
     service_providers = map observed_provider (service_providers svc),
     service_lease_owner = service_lease_owner svc,
     service_lease_duration = service_lease_duration svc,
     service_provider_timeout = service_provider_timeout svc,
     service_generate_sandbox_id = observed (service_generate_sandbox_id svc) (\<lambda>_. []),
     service_generate_binding_id = observed (service_generate_binding_id svc) (\<lambda>_. []) \<rparr>"

section \<open>The protocol\<close>

fun call_fits :: "sandbox_session_lease \<Rightarrow> provider_request \<Rightarrow> bool" where
  "call_fits l HealthCall = True"
| "call_fits l (AllocateCall q r) \<longleftrightarrow> allocate_fencing_token q = lease_fencing_token l
     \<and> allocate_tenant_id q = lease_tenant_id l \<and> allocate_session_id q = lease_session_id l"
| "call_fits l (StartCall q) \<longleftrightarrow> start_fencing_token q = lease_fencing_token l
     \<and> start_tenant_id q = lease_tenant_id l \<and> start_session_id q = lease_session_id l"
| "call_fits l (StopCall q) \<longleftrightarrow> stop_fencing_token q = lease_fencing_token l
     \<and> stop_tenant_id q = lease_tenant_id l \<and> stop_session_id q = lease_session_id l"
| "call_fits l (DestroyCall q r) \<longleftrightarrow> destroy_fencing_token q = lease_fencing_token l
     \<and> destroy_tenant_id q = lease_tenant_id l \<and> destroy_session_id q = lease_session_id l"

text \<open>Every provider call directly follows a confirmed renewal of the lease it carries.\<close>

fun fenced_calls :: "sandbox_session_lease \<Rightarrow> lifecycle_event list \<Rightarrow> bool" where
  "fenced_calls l [] = True"
| "fenced_calls l (RenewTried k (Inr (Some k')) # ProviderCalled pid q # evs) \<longleftrightarrow>
     k = l \<and> lease_matches k' l \<and> call_fits l q \<and> fenced_calls l evs"
| "fenced_calls l (ProviderCalled pid q # evs) = False"
| "fenced_calls l (e # evs) = fenced_calls l evs"

fun save_fits :: "sandbox_session_lease \<Rightarrow> lifecycle_event \<Rightarrow> bool" where
  "save_fits l (SaveTried s v k r) \<longleftrightarrow>
     session_valid s \<and> k = l \<and> session_tenant_id s = lease_tenant_id l
     \<and> session_id s = lease_session_id l \<and> unat (session_version s) = Suc (unat v)"
| "save_fits l _ = True"

definition saves_valid :: "sandbox_session_lease \<Rightarrow> lifecycle_event list \<Rightarrow> bool" where
  "saves_valid l evs \<longleftrightarrow> list_all (save_fits l) evs"

text \<open>Binding intents recorded by a save that succeeded.\<close>

fun intent_of :: "lifecycle_event \<Rightarrow> sandbox_runtime_binding_id set" where
  "intent_of (SaveTried s v k (Inr u)) =
     (if session_state s = Starting
      then (case session_runtime_binding s of None \<Rightarrow> {} | Some b \<Rightarrow> {binding_runtime_id b})
      else {})"
| "intent_of _ = {}"

definition intents :: "lifecycle_event list \<Rightarrow> sandbox_runtime_binding_id set" where
  "intents evs = (\<Union>e\<in>set evs. intent_of e)"

fun write_ahead :: "sandbox_runtime_binding_id set \<Rightarrow> lifecycle_event list \<Rightarrow> bool" where
  "write_ahead R [] = True"
| "write_ahead R (e # evs) \<longleftrightarrow>
     (case e of ProviderCalled pid (AllocateCall q r) \<Rightarrow> allocate_binding_id q \<in> R | _ \<Rightarrow> True)
     \<and> write_ahead (R \<union> intents [e]) evs"

text \<open>
  What became of an allocation: it was saved with the session, or the provider confirmed its destroy, or
  the lease was lost, so that no further provider call was allowed.
\<close>

fun disposes :: "sandbox_allocation_ref \<Rightarrow> lifecycle_event \<Rightarrow> bool" where
  "disposes a (SaveTried s v k (Inr u)) \<longleftrightarrow>
     (case session_runtime_binding s of None \<Rightarrow> False | Some b \<Rightarrow> binding_allocation_ref b = Some a)"
| "disposes a (SaveTried s v k (Inl e)) = False"
| "disposes a (ProviderCalled pid (DestroyCall q (Some (Inr u)))) \<longleftrightarrow> destroy_allocation q = Some a"
| "disposes a (ProviderCalled pid _) = False"
| "disposes a (RenewTried k (Inr (Some k'))) = (\<not> lease_matches k' k)"
| "disposes a (RenewTried k _) = True"

definition disposed :: "sandbox_allocation_ref \<Rightarrow> lifecycle_event list \<Rightarrow> bool" where
  "disposed a evs \<longleftrightarrow> list_ex (disposes a) evs"

text \<open>
  A destroy that was asked for and refused, or whose answer did not come in time: the allocation it was
  meant for may be left behind.
\<close>

fun destroy_confirmed :: "lifecycle_event \<Rightarrow> bool" where
  "destroy_confirmed (ProviderCalled pid (DestroyCall q (Some (Inr u)))) = True"
| "destroy_confirmed (ProviderCalled pid (DestroyCall q r)) = False"
| "destroy_confirmed _ = True"

definition destroys_confirmed :: "lifecycle_event list \<Rightarrow> bool" where
  "destroys_confirmed evs \<longleftrightarrow> list_all destroy_confirmed evs"

fun orphans :: "sandbox_allocation_ref \<Rightarrow> lifecycle_event \<Rightarrow> bool" where
  "orphans a (ProviderCalled pid (DestroyCall q r)) \<longleftrightarrow>
     destroy_allocation q = Some a \<and> \<not> destroy_confirmed (ProviderCalled pid (DestroyCall q r))"
| "orphans a _ = False"

definition orphaned :: "sandbox_allocation_ref \<Rightarrow> lifecycle_event list \<Rightarrow> bool" where
  "orphaned a evs \<longleftrightarrow> list_ex (orphans a) evs"

text \<open>Every allocation is disposed of, or its destroy was asked for and not confirmed.\<close>

fun allocations_accounted :: "lifecycle_event list \<Rightarrow> bool" where
  "allocations_accounted [] = True"
| "allocations_accounted (e # evs) \<longleftrightarrow>
     (case e of ProviderCalled pid (AllocateCall q (Some (Inr a))) \<Rightarrow> disposed a evs \<or> orphaned a evs | _ \<Rightarrow> True)
     \<and> allocations_accounted evs"

text \<open>Every allocation is disposed of.\<close>

fun allocations_kept :: "lifecycle_event list \<Rightarrow> bool" where
  "allocations_kept [] = True"
| "allocations_kept (e # evs) \<longleftrightarrow>
     (case e of ProviderCalled pid (AllocateCall q (Some (Inr a))) \<Rightarrow> disposed a evs | _ \<Rightarrow> True)
     \<and> allocations_kept evs"

definition protocol ::
  "sandbox_session_lease \<Rightarrow> sandbox_runtime_binding_id set \<Rightarrow> lifecycle_event list \<Rightarrow> bool" where
  "protocol l R evs \<longleftrightarrow>
     fenced_calls l evs \<and> saves_valid l evs \<and> write_ahead R evs \<and> allocations_accounted evs"

lemma fenced_renew: "fenced_calls l ys \<Longrightarrow> fenced_calls l (RenewTried k r # ys)"
proof (cases ys)
  case (Cons e zs)
  assume "fenced_calls l ys"
  with Cons show ?thesis
    by (cases e; cases r rule: sum.exhaust) (auto split: option.splits elim: option.exhaust)
qed (cases r; auto elim: option.exhaust)

lemma fenced_append: "fenced_calls l xs \<Longrightarrow> fenced_calls l ys \<Longrightarrow> fenced_calls l (xs @ ys)"
proof (induction l xs rule: fenced_calls.induct, goal_cases)
  case (5 l k v evs)
  then show ?case by (cases evs) (auto intro: fenced_renew)
qed (auto intro: fenced_renew)

lemma saves_valid_append [simp]: "saves_valid l (xs @ ys) \<longleftrightarrow> saves_valid l xs \<and> saves_valid l ys"
  by (simp add: saves_valid_def)

lemma intents_append [simp]: "intents (xs @ ys) = intents xs \<union> intents ys"
  by (auto simp: intents_def)

lemma intents_Nil [simp]: "intents [] = {}"
  by (simp add: intents_def)

lemma intents_Cons: "intents (x # xs) = intents [x] \<union> intents xs"
  using intents_append [of "[x]" xs] by simp

lemma write_ahead_append:
  "write_ahead R (xs @ ys) \<longleftrightarrow> write_ahead R xs \<and> write_ahead (R \<union> intents xs) ys"
proof (induction xs arbitrary: R)
  case (Cons x xs)
  then show ?case
    by (simp add: intents_Cons [of x xs] sup_assoc conj_assoc)
qed simp

lemma write_ahead_mono: "write_ahead R xs \<Longrightarrow> R \<subseteq> R' \<Longrightarrow> write_ahead R' xs"
proof (induction xs arbitrary: R R')
  case (Cons x xs)
  have "R \<union> intents [x] \<subseteq> R' \<union> intents [x]" using Cons.prems(2) by blast
  with Cons show ?case
    by (auto split: lifecycle_event.splits provider_request.splits)
qed simp

lemma disposed_append: "disposed a xs \<Longrightarrow> disposed a (xs @ ys)"
  by (simp add: disposed_def)

lemma disposed_append': "disposed a ys \<Longrightarrow> disposed a (xs @ ys)"
  by (simp add: disposed_def)

lemma orphaned_append: "orphaned a xs \<Longrightarrow> orphaned a (xs @ ys)"
  by (simp add: orphaned_def)

lemma destroys_confirmed_Nil [simp]: "destroys_confirmed []"
  by (simp add: destroys_confirmed_def)

lemma destroys_confirmed_append [simp]:
  "destroys_confirmed (xs @ ys) \<longleftrightarrow> destroys_confirmed xs \<and> destroys_confirmed ys"
  by (simp add: destroys_confirmed_def)

lemma destroys_confirmed_Cons [simp]:
  "destroys_confirmed (x # xs) \<longleftrightarrow> destroy_confirmed x \<and> destroys_confirmed xs"
  by (simp add: destroys_confirmed_def)

lemma confirmed_not_orphaned: "destroys_confirmed evs \<Longrightarrow> \<not> orphaned a evs"
  by (induction evs) (auto simp: orphaned_def elim: orphans.elims)

text \<open>Where every destroy was confirmed, nothing is left behind.\<close>

lemma accounted_kept:
  "allocations_accounted evs \<Longrightarrow> destroys_confirmed evs \<Longrightarrow> allocations_kept evs"
  by (induction evs)
    (auto dest: confirmed_not_orphaned split: lifecycle_event.splits provider_request.splits option.splits
      sum.splits)

lemma accounted_append:
  "allocations_accounted xs \<Longrightarrow> allocations_accounted ys \<Longrightarrow> allocations_accounted (xs @ ys)"
  by (induction xs)
    (auto intro: disposed_append orphaned_append split: lifecycle_event.splits provider_request.splits option.splits
      sum.splits)

lemma protocol_Nil [simp]: "protocol l R []"
  by (simp add: protocol_def saves_valid_def)

lemma protocol_append:
  "protocol l R xs \<Longrightarrow> protocol l (R \<union> intents xs) ys \<Longrightarrow> protocol l R (xs @ ys)"
  by (simp add: protocol_def fenced_append write_ahead_append accounted_append)

lemma protocol_mono: "protocol l R xs \<Longrightarrow> R \<subseteq> R' \<Longrightarrow> protocol l R' xs"
  using write_ahead_mono by (auto simp: protocol_def)

section \<open>The triple\<close>

definition emits ::
  "('w \<Rightarrow> bool) \<Rightarrow> ('w \<times> lifecycle_event list, 'a) state \<Rightarrow> ('a \<Rightarrow> lifecycle_event list \<Rightarrow> bool) \<Rightarrow> bool" where
  "emits I m Q \<longleftrightarrow> (\<forall>w events. I w \<longrightarrow>
     (\<exists>r w' evs. run_state m (w, events) = (r, (w', events @ evs)) \<and> I w' \<and> Q r evs))"

named_theorems emits_intros \<open>triples of the service's building blocks\<close>

lemma emits_ret [emits_intros]: "Q a [] \<Longrightarrow> emits I (ret a) Q"
  by (simp add: emits_def)

lemma emits_bind:
  assumes "emits I m R" "\<And>a evs. R a evs \<Longrightarrow> emits I (k a) (\<lambda>r evs'. Q r (evs @ evs'))"
  shows "emits I (State_Monad.bind m k) Q"
  unfolding emits_def
proof (intro allI impI)
  fix w events assume "I w"
  then obtain a w' evs where 1: "run_state m (w, events) = (a, (w', events @ evs))" "I w'" "R a evs"
    using assms(1) unfolding emits_def by blast
  obtain r w'' evs' where "run_state (k a) (w', events @ evs) = (r, (w'', (events @ evs) @ evs'))"
    "I w''" "Q r (evs @ evs')"
    using assms(2) [OF 1(3)] 1(2) unfolding emits_def by blast
  with 1(1) show "\<exists>r w' evs. run_state (State_Monad.bind m k) (w, events) = (r, (w', events @ evs))
      \<and> I w' \<and> Q r evs"
    by auto
qed

lemma emits_weaken: "emits I m R \<Longrightarrow> (\<And>a evs. R a evs \<Longrightarrow> Q a evs) \<Longrightarrow> emits I m Q"
  unfolding emits_def by meson

lemma emits_try_bind:
  assumes "emits I m R"
    and "\<And>e evs. R (Inl e) evs \<Longrightarrow> Q (Inl e) evs"
    and "\<And>a evs. R (Inr a) evs \<Longrightarrow> emits I (k a) (\<lambda>r evs'. Q r (evs @ evs'))"
  shows "emits I (try_bind m k) Q"
  unfolding try_bind_def
proof (rule emits_bind [OF assms(1)])
  fix a evs assume "R a evs"
  then show "emits I (case a of Inl e \<Rightarrow> ret (Inl e) | Inr x \<Rightarrow> k x) (\<lambda>r evs'. Q r (evs @ evs'))"
    using assms(2,3) by (cases a) (auto intro: emits_ret)
qed

text \<open>An observed operation whose underlying operation keeps the invariant.\<close>

definition keeps :: "('w \<Rightarrow> bool) \<Rightarrow> ('w, 'a) state \<Rightarrow> ('a \<Rightarrow> bool) \<Rightarrow> bool" where
  "keeps I m P \<longleftrightarrow> (\<forall>w r w'. I w \<longrightarrow> run_state m w = (r, w') \<longrightarrow> I w' \<and> P r)"

lemma emits_observed:
  assumes "keeps I m P"
  shows "emits I (observed m ev) (\<lambda>r evs. evs = ev r \<and> P r)"
  unfolding emits_def observed_def
proof (intro allI impI)
  fix w events assume "I w"
  with assms show "\<exists>r w' evs. run_state (State (\<lambda>(w, events). case run_state m w of
      (r, w') \<Rightarrow> (r, (w', events @ ev r)))) (w, events) = (r, (w', events @ evs))
      \<and> I w' \<and> evs = ev r \<and> P r"
    by (cases "run_state m w") (auto simp: keeps_def)
qed

end
