(* ===== verification/Service_Protocol.thy ===== *)
theory Service_Protocol
  imports Service_Log
begin

text \<open>
  The lifecycle service follows its protocol. The locale states what the service relies on: a
  repository that hands out valid sessions and leases under the requested identifiers, and
  providers whose calls keep the world's invariant; providers may otherwise answer anything.
\<close>

locale session_repository_contract =
  fixes port :: "'w session_repository_port" and I :: "'w \<Rightarrow> bool"
  assumes repo_find: "keeps I (repo_find port t oid) (\<lambda>_. True)"
    and repo_get: "keeps I (repo_get port t sid) (\<lambda>r. \<forall>s. r = Inr (Some s) \<longrightarrow>
      session_valid s \<and> session_tenant_id s = t \<and> session_id s = sid)"
    and repo_insert: "keeps I (repo_insert port s) (\<lambda>_. True)"
    and repo_save: "keeps I (repo_save port s v l) (\<lambda>_. True)"
    and repo_acquire: "keeps I (repo_acquire port t sid owner d) (\<lambda>r. \<forall>l. r = Inr (Some l) \<longrightarrow>
      lease_tenant_id l = t \<and> lease_session_id l = sid)"
    and repo_renew: "keeps I (repo_renew port l d) (\<lambda>_. True)"
    and repo_release: "keeps I (repo_release port l) (\<lambda>_. True)"
    and repo_list: "keeps I (repo_list port t after n) (\<lambda>_. True)"

definition provider_keeps :: "('w \<Rightarrow> bool) \<Rightarrow> 'w sandbox_provider \<Rightarrow> bool" where
  "provider_keeps I p \<longleftrightarrow>
     keeps I (provider_health p) (\<lambda>_. True) \<and> (\<forall>q. keeps I (provider_allocate p q) (\<lambda>_. True))
     \<and> (\<forall>q. keeps I (provider_start p q) (\<lambda>_. True)) \<and> (\<forall>q. keeps I (provider_stop p q) (\<lambda>_. True))
     \<and> (\<forall>q. keeps I (provider_destroy p q) (\<lambda>_. True))"

definition session_under :: "sandbox_session_lease \<Rightarrow> sandbox_session \<Rightarrow> bool" where
  "session_under l s \<longleftrightarrow>
     session_valid s \<and> session_tenant_id s = lease_tenant_id l \<and> session_id s = lease_session_id l"

definition pending ::
  "sandbox_session_lease \<Rightarrow> sandbox_session_operation_kind \<Rightarrow> operation_id \<Rightarrow> sandbox_session \<Rightarrow> bool" where
  "pending l k oid s \<longleftrightarrow> session_under l s \<and> k \<noteq> Create \<and> session_state s = running_state k
     \<and> session_operations s \<noteq> [] \<and> last (session_operations s)
         = \<lparr> operation_id_of = oid, operation_kind = k, operation_outcome = InProgress \<rparr>"

definition acknowledged ::
  "sandbox_session_lease \<Rightarrow> sandbox_session_operation_kind \<Rightarrow> operation_id \<Rightarrow> sandbox_session
     \<Rightarrow> lifecycle_event list \<Rightarrow> bool" where
  "acknowledged l k oid s evs \<longleftrightarrow>
     (\<exists>pre saved v. evs = pre @ [SaveTried saved v l (Inr ())]
        \<and> s = mark_sandbox_operations_persisted saved)
     \<and> session_under l s \<and> session_state s = resolved_state k Succeeded
     \<and> last (session_operations s)
         = \<lparr> operation_id_of = oid, operation_kind = k, operation_outcome = Succeeded \<rparr>"

definition conducts ::
  "sandbox_session_lease \<Rightarrow> sandbox_runtime_binding_id set \<Rightarrow> sandbox_session_operation_kind
     \<Rightarrow> operation_id \<Rightarrow> sandbox_session lifecycle_result \<Rightarrow> lifecycle_event list \<Rightarrow> bool" where
  "conducts l R k oid r evs \<longleftrightarrow>
     protocol l R evs \<and> (\<forall>s. r = Inr s \<longrightarrow> acknowledged l k oid s evs \<and> destroys_confirmed evs)"

definition renewal_confirmed ::
  "sandbox_session_lease \<Rightarrow> sandbox_session_lease option repository_result \<Rightarrow> bool" where
  "renewal_confirmed l r \<longleftrightarrow> (\<exists>l'. r = Inr (Some l') \<and> lease_matches l' l)"

lemma disposes_renew: "disposes a (RenewTried l r) \<longleftrightarrow> \<not> renewal_confirmed l r"
  by (cases "(a, RenewTried l r)" rule: disposes.cases) (auto simp: renewal_confirmed_def)

lemma protocol_renew [simp]: "protocol l R [RenewTried l k]"
  by (cases "(l, [RenewTried l k])" rule: fenced_calls.cases)
    (auto simp: protocol_def saves_valid_def)

section \<open>Steps of a session in memory\<close>

lemma last_set_outcome:
  assumes "distinct (map operation_id_of ops)" "ops \<noteq> []"
  shows "last (set_outcome (operation_id_of (last ops)) out ops) = (last ops)\<lparr> operation_outcome := out \<rparr>"
proof -
  obtain xs x where ops: "ops = xs @ [x]" using assms(2) by (metis rev_exhaust)
  with assms(1) have "operation_id_of x \<notin> operation_id_of ` set xs" by auto
  then show ?thesis by (simp add: ops set_outcome_snoc)
qed

lemma pending_resolve:
  assumes "pending l k oid s" "out \<noteq> InProgress" "sandbox_failure_kind_is_valid k out"
    and "sandbox_state_is_consistent (resolved_state k out) (b \<noteq> None) (has_allocation_reference b)"
  defines "s' \<equiv> s\<lparr> session_runtime_binding := b, session_state := resolved_state k out,
      session_last_failure := replayed_failure out,
      session_operations := set_outcome oid out (session_operations s) \<rparr>"
  shows "session_under l s'"
    and "last (session_operations s')
      = \<lparr> operation_id_of = oid, operation_kind = k, operation_outcome = out \<rparr>"
proof -
  have valid: "session_valid s" and ops: "session_operations s \<noteq> []"
    and last: "last (session_operations s)
      = \<lparr> operation_id_of = oid, operation_kind = k, operation_outcome = InProgress \<rparr>"
    using assms(1) by (auto simp: pending_def session_under_def)
  have "session_valid s'"
    by (rule resolve_valid [OF valid ops last]) (use assms(3,4) in \<open>simp_all add: s'_def\<close>)
  then show "session_under l s'"
    using assms(1) by (simp add: pending_def session_under_def s'_def)
  show "last (session_operations s')
      = \<lparr> operation_id_of = oid, operation_kind = k, operation_outcome = out \<rparr>"
    using last_set_outcome [OF valid_distinct [OF valid] ops, of out] last by (simp add: s'_def)
qed

lemma pending_transition:
  assumes "pending l k oid s" "out \<noteq> InProgress"
  shows "transition_sandbox_session (resolved_state k out) kind (s\<lparr> session_runtime_binding := b \<rparr>)
    = Inr (s\<lparr> session_runtime_binding := b, session_state := resolved_state k out,
        session_last_failure := (if resolved_state k out \<noteq> Failed then None
          else session_last_failure s) \<rparr>)"
  using assms by (cases k; cases out) (auto simp: pending_def transition_sandbox_session_def Let_def)

lemma pending_rebind:
  assumes "pending l Start oid s" "b \<noteq> None"
  shows "pending l Start oid (s\<lparr> session_runtime_binding := b \<rparr>)"
  using assms rebind_valid [of s b] by (auto simp: pending_def session_under_def)

lemma begin_pending:
  assumes "session_under l s" "find_operation oid (session_operations s) = None"
    and "replayed_state (session_state s) k InProgress = Some mid"
    and "sandbox_state_is_consistent mid (b \<noteq> None) (has_allocation_reference b)"
    and "begin_and_transition oid k mid (s\<lparr> session_runtime_binding := b \<rparr>) = Inr s'"
  shows "pending l k oid s' \<and> session_runtime_binding s' = b"
proof -
  have mid: "mid = running_state k" "k \<noteq> Create"
    using replayed_running [OF assms(3)] by auto
  have s': "s' = s\<lparr> session_runtime_binding := b, session_state := mid,
        session_last_failure := None, session_operations := session_operations s @
        [\<lparr> operation_id_of = oid, operation_kind = k, operation_outcome = InProgress \<rparr>] \<rparr>"
    using assms(5) mid by (cases k)
      (auto simp: begin_and_transition_def dest!: session_begin_ok transition_ok split: sum.splits)
  have "session_valid s'"
    by (rule begin_valid [OF _ assms(2,3,4) s']) (use assms(1) in \<open>simp add: session_under_def\<close>)
  then show ?thesis
    using mid assms(1) by (simp add: pending_def session_under_def s')
qed

lemma replay_None_fresh:
  "service_replay_operation s oid k = Inr None \<Longrightarrow> find_operation oid (session_operations s) = None"
  by (auto simp: service_replay_operation_def session_replay_operation_def
      split: option.splits sum.splits if_splits)

lemma in_progress_pending:
  assumes "session_under l s" "session_state s = running_state k" "k \<noteq> Create"
    and "in_progress_sandbox_operation_id s k = Inr oid"
  shows "pending l k oid s"
proof -
  obtain x where x: "session_operations s \<noteq> []" "last (session_operations s) = x"
    "operation_outcome x = InProgress" "operation_kind x = k"
    using valid_in_progress assms(1,2,3) unfolding session_under_def by metis
  then obtain ys where "session_operations s = ys @ [x]"
    by (metis append_butlast_last_id)
  then have "operation_id_of x = oid"
    using assms(4) x by (simp add: in_progress_sandbox_operation_id_def)
  then show ?thesis
    using assms(1,2,3) x by (auto simp: pending_def)
qed

lemma conducts_prefix:
  assumes "protocol l R xs" "destroys_confirmed xs" "conducts l (R \<union> intents xs) k oid r ys"
  shows "conducts l R k oid r (xs @ ys)"
  using assms protocol_append unfolding conducts_def acknowledged_def by (metis append_assoc destroys_confirmed_append)

lemma conducts_Inl: "protocol l R evs \<Longrightarrow> conducts l R k oid (Inl e) evs"
  by (simp add: conducts_def)

section \<open>The service under its contract\<close>

definition known_provider :: "'w lifecycle_service \<Rightarrow> ('w \<times> lifecycle_event list) sandbox_provider \<Rightarrow> bool" where
  "known_provider svc q \<longleftrightarrow> q \<in> observed_provider ` set (service_providers svc)"

locale service_contract = session_repository_contract "service_repository svc" I
  for svc :: "'w lifecycle_service" and I :: "'w \<Rightarrow> bool" +
  assumes providers: "p \<in> set (service_providers svc) \<Longrightarrow> provider_keeps I p"
    and generate_sandbox: "keeps I (service_generate_sandbox_id svc) (\<lambda>_. True)"
    and generate_binding: "keeps I (service_generate_binding_id svc) (\<lambda>_. True)"
begin

lemma provider_calls:
  assumes "known_provider svc q"
  shows "emits I (provider_health q) (\<lambda>r evs. evs = [ProviderCalled (provider_id q) HealthCall])"
    and "emits I (provider_allocate q x) (\<lambda>r evs. evs = [ProviderCalled (provider_id q) (AllocateCall x r)])"
    and "emits I (provider_start q y) (\<lambda>r evs. evs = [ProviderCalled (provider_id q) (StartCall y)])"
    and "emits I (provider_stop q z) (\<lambda>r evs. evs = [ProviderCalled (provider_id q) (StopCall z)])"
    and "emits I (provider_destroy q d) (\<lambda>r evs. evs = [ProviderCalled (provider_id q) (DestroyCall d r)])"
proof -
  from assms obtain p where p: "q = observed_provider p" "provider_keeps I p"
    using providers by (auto simp: known_provider_def)
  note k = p(2) [unfolded provider_keeps_def]
  show "emits I (provider_health q) (\<lambda>r evs. evs = [ProviderCalled (provider_id q) HealthCall])"
    using k by (auto simp: p(1) observed_provider_def intro: emits_weaken [OF emits_observed])
  show "emits I (provider_allocate q x) (\<lambda>r evs. evs = [ProviderCalled (provider_id q) (AllocateCall x r)])"
    using k by (auto simp: p(1) observed_provider_def intro: emits_weaken [OF emits_observed])
  show "emits I (provider_start q y) (\<lambda>r evs. evs = [ProviderCalled (provider_id q) (StartCall y)])"
    using k by (auto simp: p(1) observed_provider_def intro: emits_weaken [OF emits_observed])
  show "emits I (provider_stop q z) (\<lambda>r evs. evs = [ProviderCalled (provider_id q) (StopCall z)])"
    using k by (auto simp: p(1) observed_provider_def intro: emits_weaken [OF emits_observed])
  show "emits I (provider_destroy q d) (\<lambda>r evs. evs = [ProviderCalled (provider_id q) (DestroyCall d r)])"
    using k by (auto simp: p(1) observed_provider_def intro: emits_weaken [OF emits_observed])
qed

lemma port_calls:
  shows "emits I (repo_get (service_repository (observed_service svc)) t sid) (\<lambda>r evs. evs = []
      \<and> (\<forall>s. r = Inr (Some s) \<longrightarrow> session_valid s \<and> session_tenant_id s = t \<and> session_id s = sid))"
    and "emits I (repo_save (service_repository (observed_service svc)) s v l)
      (\<lambda>r evs. evs = [SaveTried s v l r])"
    and "emits I (repo_renew (service_repository (observed_service svc)) l n)
      (\<lambda>r evs. evs = [RenewTried l r])"
    and "emits I (repo_release (service_repository (observed_service svc)) l) (\<lambda>r evs. evs = [])"
    and "emits I (repo_acquire (service_repository (observed_service svc)) t sid owner n)
      (\<lambda>r evs. evs = [] \<and> (\<forall>l. r = Inr (Some l) \<longrightarrow> lease_tenant_id l = t \<and> lease_session_id l = sid))"
    and "emits I (service_generate_sandbox_id (observed_service svc)) (\<lambda>r evs. evs = [])"
    and "emits I (service_generate_binding_id (observed_service svc)) (\<lambda>r evs. evs = [])"
  using emits_observed [OF repo_get [of t sid], of "\<lambda>_. []"]
    emits_observed [OF repo_save [of s v l], of "\<lambda>r. [SaveTried s v l r]"]
    emits_observed [OF repo_renew [of l n], of "\<lambda>r. [RenewTried l r]"]
    emits_observed [OF repo_release [of l], of "\<lambda>_. []"]
    emits_observed [OF repo_acquire [of t sid owner n], of "\<lambda>_. []"]
    emits_observed [OF generate_sandbox, of "\<lambda>_. []"]
    emits_observed [OF generate_binding, of "\<lambda>_. []"]
  by (simp_all add: observed_service_def observed_port_def)

lemma provider_by_id_known:
  "sandbox_provider_by_id (observed_service svc) pid = Inr q \<Longrightarrow> known_provider svc q"
  by (auto simp: sandbox_provider_by_id_def observed_service_def known_provider_def find_Some_iff
      split: option.splits)

lemma execute_emits:
  assumes "emits I call (\<lambda>r evs. evs = [ProviderCalled pid (req r)])"
  shows "emits I (execute_sandbox_provider_call (observed_service svc) q op l call)
    (\<lambda>r evs. (\<exists>k. r = Inl LeaseLost \<and> evs = [RenewTried l k] \<and> \<not> renewal_confirmed l k)
      \<or> (\<exists>k y x. r = Inr x \<and> evs = [RenewTried l k, ProviderCalled pid (req y)]
          \<and> renewal_confirmed l k \<and> (y = Some x \<or> (y = None \<and> isl x))))"
  unfolding execute_sandbox_provider_call_def
proof (rule emits_bind [OF port_calls(3)], goal_cases)
  case (1 renewed evs)
  show ?case
  proof (cases "renewal_confirmed l renewed")
    case True
    then obtain l' where l': "renewed = Inr (Some l')" "lease_matches l' l"
      by (auto simp: renewal_confirmed_def)
    have "emits I (State_Monad.bind call (\<lambda>result. ret (case result of Some r \<Rightarrow> Inr r
        | None \<Rightarrow> Inr (Inl \<lparr> error_provider_id = provider_id q, error_operation = op,
            error_kind = Timeout \<rparr>))))
      (\<lambda>r evs'. \<exists>y x. r = Inr x \<and> evs' = [ProviderCalled pid (req y)]
          \<and> (y = Some x \<or> (y = None \<and> isl x)))"
      by (rule emits_bind [OF assms]) (auto intro!: emits_ret split: option.splits)
    then show ?thesis
      using l' 1 True by (auto elim!: emits_weaken)
  next
    case False
    then show ?thesis
      using 1 by (auto intro!: emits_ret simp: renewal_confirmed_def split: sum.splits option.splits)
  qed
qed

end

end
