(* ===== verification/Service_Flows.thy ===== *)
theory Service_Flows
  imports Service_Protocol
begin

text \<open>
  One triple per stretch of the lifecycle service: persist, fail, settle, clean up, start the
  provider, record an allocation, and the three commands, each under the service's contract.
\<close>

fun is_allocate :: "provider_request \<Rightarrow> bool" where
  "is_allocate (AllocateCall q r) = True"
| "is_allocate _ = False"

lemma protocol_call:
  assumes "renewal_confirmed l k" "call_fits l q" "\<not> is_allocate q"
  shows "protocol l R [RenewTried l k, ProviderCalled pid q]"
  using assms by (cases q) (auto simp: protocol_def saves_valid_def renewal_confirmed_def)

lemma intents_call [simp]: "intents [RenewTried l k, ProviderCalled pid q] = {}"
  by (simp add: intents_def)

lemma intents_called [simp]: "intents [ProviderCalled pid q] = {}"
  by (simp add: intents_def)

lemma intents_renew [simp]: "intents [RenewTried l k] = {}"
  by (simp add: intents_def)

lemma protocol_save:
  "save_fits l (SaveTried s v l r) \<Longrightarrow> protocol l R [SaveTried s v l r]"
  by (simp add: protocol_def saves_valid_def)

lemma destroy_fits:
  "session_under l s \<Longrightarrow> call_fits l (DestroyCall (sandbox_destroy_request s b l) y)"
  by (simp add: session_under_def sandbox_destroy_request_def sandbox_destroy_request_for_values_def)

lemma session_under_binding [simp]:
  "sandbox_destroy_request (s\<lparr> session_runtime_binding := b' \<rparr>) b l = sandbox_destroy_request s b l"
  by (simp add: sandbox_destroy_request_def)

context service_contract
begin

lemma persist_emits:
  assumes "session_under l s"
  shows "emits I (persist_sandbox_session (observed_service svc) s l) (\<lambda>r evs.
    (\<exists>e. r = Inl e \<and> protocol l R evs \<and> intents evs = {})
    \<or> (\<exists>saved v. r = Inr (mark_sandbox_operations_persisted saved)
        \<and> evs = [SaveTried saved v l (Inr ())] \<and> protocol l R evs \<and> session_under l saved
        \<and> saved = s\<lparr> session_version := session_version saved \<rparr>))"
proof (cases "next_sandbox_version s")
  case (Inl e)
  then show ?thesis by (auto simp: persist_sandbox_session_def intro!: emits_ret)
next
  case (Inr vs)
  obtain v saved where vs: "vs = (v, saved)" by force
  note next_version = next_version_ok [OF Inr [unfolded vs]]
  have under: "session_under l saved"
    using assms next_version_valid [OF Inr [unfolded vs]] next_version
    unfolding session_under_def
    by (metis sandbox_session.select_convs(1,3) sandbox_session.surjective
        sandbox_session.update_convs(12))
  have fits: "save_fits l (SaveTried saved v l r)" for r
    using under next_version by (auto simp: session_under_def)
  show ?thesis
    unfolding persist_sandbox_session_def Inr vs
    using next_version under protocol_save [OF fits]
    by (auto intro!: emits_bind [OF port_calls(2)] emits_ret simp: intents_def split: sum.splits)
qed

lemma fail_emits:
  assumes "pending l k oid s" "sandbox_failure_kind_is_valid k (OutcomeFailed f)"
  shows "emits I (fail_with_sandbox_provider_error (observed_service svc)
      (s\<lparr> session_runtime_binding := b \<rparr>) oid k f perr l) (\<lambda>r evs. isl r \<and> protocol l R evs)"
proof -
  have trans: "transition_sandbox_session Failed k (s\<lparr> session_runtime_binding := b \<rparr>)
    = Inr (s\<lparr> session_runtime_binding := b, session_state := Failed \<rparr>)"
    using pending_transition [OF assms(1), of "OutcomeFailed f" k b] by simp
  have failed: "fail_sandbox_operation oid f (s\<lparr> session_runtime_binding := b, session_state := Failed \<rparr>)
    = s\<lparr> session_runtime_binding := b, session_state := resolved_state k (OutcomeFailed f),
        session_last_failure := replayed_failure (OutcomeFailed f),
        session_operations := set_outcome oid (OutcomeFailed f) (session_operations s) \<rparr>"
    by (simp add: fail_sandbox_operation_def)
  have under: "session_under l (fail_sandbox_operation oid f
      (s\<lparr> session_runtime_binding := b, session_state := Failed \<rparr>))"
    unfolding failed by (rule pending_resolve(1) [OF assms(1) _ assms(2)]) simp_all
  show ?thesis
    unfolding fail_with_sandbox_provider_error_def trans sum.case
    by (rule emits_try_bind [OF persist_emits [OF under]]) (auto intro!: emits_ret)
qed

lemma settle_emits:
  assumes "pending l k oid s"
    and "sandbox_state_is_consistent (resolved_state k Succeeded) (b \<noteq> None) (has_allocation_reference b)"
  shows "emits I (settle_operation (observed_service svc) (resolved_state k Succeeded) k oid l
      (s\<lparr> session_runtime_binding := b \<rparr>)) (conducts l R k oid)"
proof -
  have k: "k \<noteq> Create" "resolved_state k Succeeded \<noteq> Failed"
    using assms(1) by (cases k; simp add: pending_def)+
  have trans: "transition_sandbox_session (resolved_state k Succeeded) k
      (s\<lparr> session_runtime_binding := b \<rparr>)
    = Inr (s\<lparr> session_runtime_binding := b, session_state := resolved_state k Succeeded,
        session_last_failure := None \<rparr>)"
    using pending_transition [OF assms(1), of Succeeded k b] k by simp
  define s' where "s' = s\<lparr> session_runtime_binding := b,
      session_state := resolved_state k Succeeded,
      session_last_failure := replayed_failure Succeeded,
      session_operations := set_outcome oid Succeeded (session_operations s) \<rparr>"
  have complete: "complete_sandbox_operation oid (s\<lparr> session_runtime_binding := b,
      session_state := resolved_state k Succeeded, session_last_failure := None \<rparr>) = s'"
    by (simp add: complete_sandbox_operation_def s'_def)
  have kind: "sandbox_failure_kind_is_valid k Succeeded"
    using k by (cases k) auto
  have under: "session_under l s'" and last: "last (session_operations s')
      = \<lparr> operation_id_of = oid, operation_kind = k, operation_outcome = Succeeded \<rparr>"
    using pending_resolve [OF assms(1) _ kind assms(2)] by (simp_all add: s'_def)
  have state: "session_state s' = resolved_state k Succeeded" by (simp add: s'_def)
  show ?thesis
    unfolding settle_operation_def trans sum.case complete
  proof (rule emits_weaken [OF persist_emits [OF under, of R]], elim disjE exE conjE)
    fix r :: "sandbox_session lifecycle_result" and evs saved v
    assume r: "r = Inr (mark_sandbox_operations_persisted saved)"
      "evs = [SaveTried saved v l (Inr ())]" "protocol l R evs" "session_under l saved"
      and saved: "saved = s'\<lparr> session_version := session_version saved \<rparr>"
    have "session_state saved = session_state s'" "session_operations saved = session_operations s'"
      by (subst saved; simp)+
    moreover have "session_under l (mark_sandbox_operations_persisted saved)"
      using r(4) by (simp add: session_under_def) (simp add: mark_sandbox_operations_persisted_def)
    ultimately have "acknowledged l k oid (mark_sandbox_operations_persisted saved) evs"
      using r(2) last state
      by (auto simp: acknowledged_def) (simp_all add: mark_sandbox_operations_persisted_def)
    then show "conducts l R k oid r evs"
      using r by (simp add: conducts_def)
  qed (auto simp: conducts_def)
qed

lemma destroy_call_emits:
  assumes "known_provider svc q"
  shows "emits I (execute_sandbox_provider_call (observed_service svc) q op l (provider_destroy q d))
    (\<lambda>r evs. intents evs = {} \<and> ((\<forall>y. call_fits l (DestroyCall d y)) \<longrightarrow> protocol l R evs)
       \<and> (\<forall>a. destroy_allocation d = Some a \<longrightarrow> disposed a evs \<or> orphaned a evs)
       \<and> (\<forall>u. r = Inr (Inr u) \<longrightarrow> destroys_confirmed evs))"
proof (rule emits_weaken [OF execute_emits [OF provider_calls(5) [OF assms]]], goal_cases)
  case (1 r evs)
  then show ?case
  proof (elim disjE [where P = "\<exists>k. r = Inl LeaseLost \<and> evs = [RenewTried l k] \<and> \<not> renewal_confirmed l k"], goal_cases)
    case 1
    then show ?case by (auto simp: disposed_def disposes_renew)
  next
    case 2
    then obtain k y x where r: "r = Inr x" "evs = [RenewTried l k, ProviderCalled (provider_id q) (DestroyCall d y)]"
      "renewal_confirmed l k" "y = Some x \<or> (y = None \<and> isl x)" by blast
    have "disposed a evs \<or> orphaned a evs" if "destroy_allocation d = Some a" for a
      using that r(2) by (cases "(a, ProviderCalled (provider_id q) (DestroyCall d y))" rule: disposes.cases)
        (auto simp: disposed_def orphaned_def)
    moreover have "destroys_confirmed evs" if "x = Inr u" for u using r that by auto
    ultimately show ?case using r by (auto intro: protocol_call)
  qed
qed

lemma cleanup_emits:
  assumes known: "known_provider svc q" and pend: "pending l Start oid s"
    and k: "emits I (k (clear_sandbox_runtime_binding s)) (\<lambda>r evs. isl r \<and> protocol l R evs)"
  shows "emits I (cleanup_started (observed_service svc) q b oid l s k)
    (\<lambda>r evs. isl r \<and> protocol l R evs)"
proof -
  have fits: "call_fits l (DestroyCall (sandbox_destroy_request s b l) y)" for y
    using pend destroy_fits by (simp add: pending_def)
  have fail: "emits I (fail_with_sandbox_provider_error (observed_service svc) s oid Start Cleanup perr l)
      (\<lambda>r evs. isl r \<and> protocol l R evs)" for perr
    using fail_emits [OF pend, of Cleanup "session_runtime_binding s"] by simp
  show ?thesis
    unfolding cleanup_started_def
  proof (rule emits_try_bind [OF destroy_call_emits [OF known, where R = R]], goal_cases)
    case (1 e evs)
    then show ?case using fits by simp
  next
    case (2 a evs)
    then have "protocol l R evs" "intents evs = {}" using fits by simp_all
    then show ?case
      by (cases a) (auto intro!: emits_weaken [OF fail] emits_weaken [OF k] protocol_append)
  qed
qed

lemma reject_emits:
  assumes "pending l Start oid s"
  shows "emits I (reject_readiness (observed_service svc) q oid l (clear_sandbox_runtime_binding s))
    (\<lambda>r evs. isl r \<and> protocol l R evs)"
proof -
  have trans: "transition_sandbox_session Failed Start (clear_sandbox_runtime_binding s)
    = Inr (s\<lparr> session_runtime_binding := None, session_state := Failed \<rparr>)"
    using pending_transition [OF assms, of "OutcomeFailed Readiness" Start None]
    by (simp add: clear_sandbox_runtime_binding_def)
  have failed: "fail_sandbox_operation oid Readiness
      (s\<lparr> session_runtime_binding := None, session_state := Failed \<rparr>)
    = s\<lparr> session_runtime_binding := None,
        session_state := resolved_state Start (OutcomeFailed Readiness),
        session_last_failure := replayed_failure (OutcomeFailed Readiness),
        session_operations := set_outcome oid (OutcomeFailed Readiness) (session_operations s) \<rparr>"
    by (simp add: fail_sandbox_operation_def)
  have under: "session_under l (fail_sandbox_operation oid Readiness
      (s\<lparr> session_runtime_binding := None, session_state := Failed \<rparr>))"
    unfolding failed by (rule pending_resolve(1) [OF assms]) (simp_all)
  show ?thesis
    unfolding reject_readiness_def trans sum.case
    by (rule emits_try_bind [OF persist_emits [OF under]]) (auto intro!: emits_ret)
qed

lemma emits_conducts_Inl:
  "emits I m (\<lambda>r evs. isl r \<and> protocol l R evs) \<Longrightarrow> emits I m (conducts l R k oid)"
  by (erule emits_weaken) (auto simp: conducts_def)

lemma conducts_after:
  assumes "emits I m (conducts l R k oid)" "protocol l R xs" "intents xs = {}" "destroys_confirmed xs"
  shows "emits I m (\<lambda>r evs. conducts l R k oid r (xs @ evs))"
  using assms by (auto elim!: emits_weaken intro: conducts_prefix)

lemma conducts_after_Inl:
  assumes "emits I m (\<lambda>r evs. isl r \<and> protocol l R evs)" "protocol l R xs" "intents xs = {}"
  shows "emits I m (\<lambda>r evs. conducts l R k oid r (xs @ evs))"
  using assms by (auto elim!: emits_weaken simp: conducts_def intro: protocol_append)

lemma start_provider_emits:
  assumes known: "known_provider svc q" and pend: "pending l Start oid s"
    and b: "session_runtime_binding s = Some b"
  shows "emits I (start_provider (observed_service svc) q b oid l s) (conducts l R Start oid)"
proof (cases "sandbox_start_request s b l")
  case (Inl e)
  then show ?thesis by (auto simp: start_provider_def conducts_def intro!: emits_ret)
next
  case (Inr req)
  then have alloc: "binding_allocation_ref b \<noteq> None" and fits: "call_fits l (StartCall req)"
    using pend by (auto simp: sandbox_start_request_def pending_def session_under_def
        split: option.splits)
  have same: "s\<lparr> session_runtime_binding := session_runtime_binding s \<rparr> = s" by simp
  have settle: "emits I (settle_operation (observed_service svc) Running Start oid l s)
      (conducts l R Start oid)"
    using settle_emits [OF pend, of "session_runtime_binding s" R, unfolded same] alloc
    by (simp add: has_allocation_reference_def b)
  have fail: "emits I (fail_with_sandbox_provider_error (observed_service svc)
      (clear_sandbox_runtime_binding s) oid Start Provider perr l)
      (\<lambda>r evs. isl r \<and> protocol l R evs)" for perr
    using fail_emits [OF pend, of Provider None] by (simp add: clear_sandbox_runtime_binding_def)
  have cleanup_fail: "emits I (cleanup_started (observed_service svc) q b oid l s
      (\<lambda>s'. fail_with_sandbox_provider_error (observed_service svc) s' oid Start Provider perr l))
      (conducts l R Start oid)" for perr
    by (rule emits_conducts_Inl, rule cleanup_emits [OF known pend], rule fail)
  have cleanup_reject: "emits I (cleanup_started (observed_service svc) q b oid l s
      (reject_readiness (observed_service svc) q oid l)) (conducts l R Start oid)"
    by (rule emits_conducts_Inl, rule cleanup_emits [OF known pend], rule reject_emits [OF pend])
  show ?thesis
    unfolding start_provider_def Inr sum.case
  proof (rule emits_try_bind [OF execute_emits [OF provider_calls(3) [OF known]]], goal_cases)
    case (1 e evs)
    then show ?case by (auto simp: conducts_def)
  next
    case (2 a evs)
    then have "protocol l R evs" "intents evs = {}" "destroys_confirmed evs"
      using fits by (auto intro!: protocol_call)
    then show ?case
      by (cases a) (auto intro!: conducts_after cleanup_fail cleanup_reject settle)
  qed
qed

lemma record_emits:
  assumes known: "known_provider svc q" and pend: "pending l Start oid s"
    and alloc: "binding_allocation_ref b = Some a"
    and ids: "t = lease_tenant_id l" "sid = lease_session_id l"
  shows "emits I (record_allocation (observed_service svc) q b t sid l s) (\<lambda>r evs.
    protocol l R evs \<and> (disposed a evs \<or> orphaned a evs)
    \<and> (\<forall>s'. r = Inr s' \<longrightarrow> pending l Start oid s' \<and> session_runtime_binding s' = Some b \<and> destroys_confirmed evs))"
proof -
  have set: "set_sandbox_runtime_binding b s = s\<lparr> session_runtime_binding := Some b \<rparr>"
    by (simp add: set_sandbox_runtime_binding_def)
  have pend': "pending l Start oid (set_sandbox_runtime_binding b s)"
    using pending_rebind [OF pend] by (simp add: set)
  then have under: "session_under l (set_sandbox_runtime_binding b s)" by (simp add: pending_def)
  have fits: "call_fits l (DestroyCall (sandbox_destroy_request_for_values t sid b l) y)" for y
    by (simp add: sandbox_destroy_request_for_values_def ids)
  have dalloc: "destroy_allocation (sandbox_destroy_request_for_values t sid b l) = Some a"
    by (simp add: sandbox_destroy_request_for_values_def alloc)
  show ?thesis
    unfolding record_allocation_def
  proof (rule emits_bind [OF persist_emits [OF under, of R]], elim disjE exE conjE)
    fix r :: "sandbox_session lifecycle_result" and evs e
    assume r: "r = Inl e" "protocol l R evs" "intents evs = {}"
    show "emits I (case r of
        Inl e \<Rightarrow> do { cleanup \<leftarrow> execute_sandbox_provider_call (observed_service svc) q ProviderDestroy l
              (provider_destroy q (sandbox_destroy_request_for_values t sid b l)); ret (Inl e) }
      | Inr s' \<Rightarrow> ret (Inr s'))
      (\<lambda>r evs'. protocol l R (evs @ evs') \<and> (disposed a (evs @ evs') \<or> orphaned a (evs @ evs'))
        \<and> (\<forall>s'. r = Inr s' \<longrightarrow> pending l Start oid s' \<and> session_runtime_binding s' = Some b
             \<and> destroys_confirmed (evs @ evs')))"
      unfolding r(1) sum.case
      by (rule emits_bind [OF destroy_call_emits [OF known, where R = R]])
        (use r fits dalloc in \<open>auto intro!: emits_ret protocol_append simp: disposed_def orphaned_def\<close>)
  next
    fix r :: "sandbox_session lifecycle_result" and evs saved v
    assume r: "r = Inr (mark_sandbox_operations_persisted saved)"
      "evs = [SaveTried saved v l (Inr ())]" "protocol l R evs" "session_under l saved"
      and saved: "saved = set_sandbox_runtime_binding b s\<lparr> session_version := session_version saved \<rparr>"
    have binding: "session_runtime_binding saved = Some b"
      by (subst saved) (simp add: set)
    have "session_state saved = session_state s" "session_operations saved = session_operations s"
      by (subst saved; simp add: set)+
    then have "pending l Start oid (mark_sandbox_operations_persisted saved)"
      using r(4) pend by (simp add: pending_def session_under_def)
        (simp add: mark_sandbox_operations_persisted_def)
    then show "emits I (case r of
        Inl e \<Rightarrow> do { cleanup \<leftarrow> execute_sandbox_provider_call (observed_service svc) q ProviderDestroy l
              (provider_destroy q (sandbox_destroy_request_for_values t sid b l)); ret (Inl e) }
      | Inr s' \<Rightarrow> ret (Inr s'))
      (\<lambda>r evs'. protocol l R (evs @ evs') \<and> (disposed a (evs @ evs') \<or> orphaned a (evs @ evs'))
        \<and> (\<forall>s'. r = Inr s' \<longrightarrow> pending l Start oid s' \<and> session_runtime_binding s' = Some b
             \<and> destroys_confirmed (evs @ evs')))"
      using r binding alloc
      by (auto intro!: emits_ret simp: disposed_def mark_sandbox_operations_persisted_def)
  qed
qed

lemma allocate_emits:
  assumes known: "known_provider svc q" and pend: "pending l Start oid s"
    and R: "binding_runtime_id b \<in> R"
    and ids: "t = lease_tenant_id l" "sid = lease_session_id l"
  shows "emits I (allocate_and_start (observed_service svc) q b oid t sid l s) (conducts l R Start oid)"
proof -
  let ?req = "sandbox_allocation_request_for s b l"
  have fits: "call_fits l (AllocateCall ?req y)" for y
    using pend by (simp add: sandbox_allocation_request_for_def pending_def session_under_def)
  have bid: "allocate_binding_id ?req \<in> R"
    using R by (simp add: sandbox_allocation_request_for_def)
  have fail: "emits I (fail_with_sandbox_provider_error (observed_service svc) s oid Start Provider perr l)
      (\<lambda>r evs. isl r \<and> protocol l R evs)" for perr
    using fail_emits [OF pend, of Provider "session_runtime_binding s"] by simp
  have call: "protocol l R [RenewTried l k, ProviderCalled pid (AllocateCall ?req y)]"
    if "renewal_confirmed l k" "\<And>a. y \<noteq> Some (Inr a)" for k pid y
    using that fits bid by (auto simp: protocol_def saves_valid_def renewal_confirmed_def
        split: option.splits sum.splits)
  have alloc: "protocol l R ([RenewTried l k, ProviderCalled pid (AllocateCall ?req (Some (Inr a)))] @ evs)"
    if "renewal_confirmed l k" "protocol l R evs" "disposed a evs \<or> orphaned a evs" for k pid a evs
    using that fits bid by (auto simp: protocol_def saves_valid_def renewal_confirmed_def)
  show ?thesis
    unfolding allocate_and_start_def
  proof (rule emits_try_bind [OF execute_emits [OF provider_calls(2) [OF known]]], goal_cases)
    case (1 e evs)
    then show ?case by (auto simp: conducts_def)
  next
    case (2 x evs)
    then obtain k y where ev: "evs = [RenewTried l k, ProviderCalled (provider_id q) (AllocateCall ?req y)]"
      "renewal_confirmed l k" "y = Some x \<or> (y = None \<and> isl x)" by auto
    show ?case
    proof (cases x)
      case (Inl perr)
      then have "protocol l R evs" "intents evs = {}" "destroys_confirmed evs"
        using ev call by auto
      then show ?thesis
        using Inl by (auto intro!: conducts_after emits_conducts_Inl [OF fail])
    next
      case (Inr a)
      then have y: "y = Some (Inr a)" using ev by auto
      let ?b = "set_sandbox_allocation_reference a b"
      have b: "binding_allocation_ref ?b = Some a" by (simp add: set_sandbox_allocation_reference_def)
      show ?thesis
        unfolding Inr sum.case Let_def
      proof (rule emits_try_bind [OF record_emits [OF known pend b ids, of R]], goal_cases)
        case (1 e evs')
        then show ?case using alloc ev y by (auto simp: conducts_def)
      next
        case (2 s' evs')
        then have s': "pending l Start oid s'" "session_runtime_binding s' = Some ?b"
          and p: "protocol l R (evs @ evs')" "destroys_confirmed (evs @ evs')"
          using alloc ev y by auto
        have "emits I (start_provider (observed_service svc) q ?b oid l s')
            (conducts l (R \<union> intents (evs @ evs')) Start oid)"
          by (rule start_provider_emits [OF known s'])
        then show ?case
          by (rule emits_weaken) (use conducts_prefix [OF p] in auto)
      qed
    qed
  qed
qed

end

end
