(* ===== verification/Service_Commands.thy ===== *)
theory Service_Commands
  imports Service_Flows
begin

text \<open>
  The commands start, stop and destroy, and the reconciliation of one session, as whole
  computations: what they do to their ports and what a successful answer means.
\<close>

text \<open>A successful answer is either a fresh, persisted completion or the replay of a recorded one.\<close>

definition replayed_success ::
  "sandbox_session_operation_kind \<Rightarrow> operation_id \<Rightarrow> sandbox_session \<Rightarrow> bool" where
  "replayed_success k oid s \<longleftrightarrow> (\<exists>x. find_operation oid (session_operations s) = Some x
     \<and> operation_kind x = k \<and> operation_outcome x = Succeeded)"

definition concludes ::
  "sandbox_session_lease \<Rightarrow> sandbox_runtime_binding_id set \<Rightarrow> sandbox_session_operation_kind
     \<Rightarrow> operation_id \<Rightarrow> sandbox_session lifecycle_result \<Rightarrow> lifecycle_event list \<Rightarrow> bool" where
  "concludes l R k oid r evs \<longleftrightarrow> protocol l R evs
     \<and> (\<forall>s. r = Inr s \<longrightarrow> destroys_confirmed evs \<and> (acknowledged l k oid s evs
          \<or> (evs = [] \<and> session_under l s \<and> replayed_success k oid s)))"

lemma conducts_concludes: "conducts l R k oid r evs \<Longrightarrow> concludes l R k oid r evs"
  by (simp add: conducts_def concludes_def)

lemma service_replay_Some:
  "service_replay_operation s oid k = Inr (Some (Inr s')) \<Longrightarrow> s' = s \<and> replayed_success k oid s"
  by (auto simp: service_replay_operation_def session_replay_operation_def replayed_success_def
      split: option.splits sum.splits if_splits sandbox_operation_outcome.splits)

text \<open>The operation the reconciler resumes in a transient state.\<close>

definition reconciled_kind :: "sandbox_session_state \<Rightarrow> sandbox_session_operation_kind" where
  "reconciled_kind st = (if st = Starting then Start else if st = Stopping then Stop else Destroy)"

lemma conducts_error [simp]: "conducts l R k oid (Inl e) []"
  by (simp add: conducts_def)

lemma concludes_Inl [simp]: "concludes l R k oid (Inl e) [] \<longleftrightarrow> True"
  by (simp add: concludes_def)

context service_contract
begin

lemma get_emits:
  "emits I (service_get_session (observed_service svc) t sid) (\<lambda>r evs. evs = []
     \<and> (\<forall>s. r = Inr s \<longrightarrow> session_valid s \<and> session_tenant_id s = t \<and> session_id s = sid))"
  unfolding service_get_session_def repository_question_def
proof (rule emits_try_bind [where R = "\<lambda>r evs. evs = [] \<and> (\<forall>s. r = Inr (Some s) \<longrightarrow>
    session_valid s \<and> session_tenant_id s = t \<and> session_id s = sid)"], goal_cases)
  case 1
  show ?case
    by (rule emits_bind [OF port_calls(1)]) (auto intro!: emits_ret simp: map_sum_def split: sum.splits)
next
  case (3 a evs)
  then show ?case by (auto intro!: emits_ret split: option.splits)
qed simp

lemma persisted_begin_emits:
  assumes "pending l k oid s" "session_runtime_binding s = b"
  shows "emits I (persist_sandbox_session (observed_service svc) s l) (\<lambda>r evs. protocol l R evs
    \<and> (\<forall>s'. r = Inr s' \<longrightarrow> pending l k oid s' \<and> session_runtime_binding s' = b \<and> destroys_confirmed evs
         \<and> intents evs = (if k = Start then (case b of None \<Rightarrow> {} | Some x \<Rightarrow> {binding_runtime_id x})
              else {})))"
proof -
  have under: "session_under l s" using assms(1) by (simp add: pending_def)
  show ?thesis
  proof (rule emits_weaken [OF persist_emits [OF under, of R]], elim disjE exE conjE)
    fix r :: "sandbox_session lifecycle_result" and evs saved v
    assume r: "r = Inr (mark_sandbox_operations_persisted saved)"
      "evs = [SaveTried saved v l (Inr ())]" "protocol l R evs" "session_under l saved"
      and saved: "saved = s\<lparr> session_version := session_version saved \<rparr>"
    have f: "session_runtime_binding saved = b" "session_state saved = session_state s"
      "session_operations saved = session_operations s"
      by (subst saved; simp add: assms(2))+
    have "pending l k oid (mark_sandbox_operations_persisted saved)"
      using r(4) assms(1) f by (simp add: pending_def session_under_def)
        (simp add: mark_sandbox_operations_persisted_def)
    moreover have "session_state s = Starting \<longleftrightarrow> k = Start"
      using assms(1) by (cases k) (auto simp: pending_def)
    ultimately show "protocol l R evs
      \<and> (\<forall>s'. r = Inr s' \<longrightarrow> pending l k oid s' \<and> session_runtime_binding s' = b \<and> destroys_confirmed evs
         \<and> intents evs = (if k = Start then (case b of None \<Rightarrow> {} | Some x \<Rightarrow> {binding_runtime_id x})
              else {}))"
      using r f by (auto simp: intents_def mark_sandbox_operations_persisted_def split: option.splits)
  qed auto
qed

lemma stop_provider_emits:
  assumes known: "known_provider svc q" and pend: "pending l Stop oid s"
    and alloc: "has_allocation_reference (session_runtime_binding s)"
  shows "emits I (stop_provider (observed_service svc) q b oid l s) (conducts l R Stop oid)"
proof (cases "sandbox_stop_request s b l")
  case (Inl e)
  then show ?thesis by (auto simp: stop_provider_def conducts_def intro!: emits_ret)
next
  case (Inr req)
  then have fits: "call_fits l (StopCall req)"
    using pend by (auto simp: sandbox_stop_request_def pending_def session_under_def
        split: option.splits)
  have same: "s\<lparr> session_runtime_binding := session_runtime_binding s \<rparr> = s" by simp
  have settle: "emits I (settle_operation (observed_service svc) Stopped Stop oid l s)
      (conducts l R Stop oid)"
    using settle_emits [OF pend, of "session_runtime_binding s" R, unfolded same] alloc by simp
  have fail: "emits I (fail_with_sandbox_provider_error (observed_service svc) s oid Stop Provider perr l)
      (conducts l R Stop oid)" for perr
    using fail_emits [OF pend, of Provider "session_runtime_binding s", unfolded same]
    by (auto intro: emits_conducts_Inl)
  show ?thesis
    unfolding stop_provider_def Inr sum.case
  proof (rule emits_try_bind [OF execute_emits [OF provider_calls(4) [OF known]]], goal_cases)
    case (1 e evs)
    then show ?case by (auto simp: conducts_def)
  next
    case (2 a evs)
    then have "protocol l R evs" "intents evs = {}" "destroys_confirmed evs"
      using fits by (auto intro!: protocol_call)
    then show ?case
      by (cases a) (auto intro!: conducts_after fail settle)
  qed
qed

lemma destroy_provider_emits:
  assumes target: "\<And>q b. target = Some (q, b) \<Longrightarrow> known_provider svc q"
    and none: "target = None \<Longrightarrow> session_runtime_binding s = None"
    and pend: "pending l Destroy oid s"
  shows "emits I (destroy_provider (observed_service svc) target oid l s) (conducts l R Destroy oid)"
proof (cases target)
  case None
  have same: "s\<lparr> session_runtime_binding := session_runtime_binding s \<rparr> = s" by simp
  have "emits I (settle_operation (observed_service svc) Destroyed Destroy oid l s)
      (conducts l R Destroy oid)"
    using settle_emits [OF pend, of "session_runtime_binding s" R, unfolded same] none [OF None]
    by simp
  then show ?thesis by (simp add: destroy_provider_def None)
next
  case (Some x)
  obtain q b where x: "x = (q, b)" by force
  have known: "known_provider svc q" using target Some x by simp
  have fits: "call_fits l (DestroyCall (sandbox_destroy_request s b l) y)" for y
    using pend destroy_fits by (simp add: pending_def)
  have same: "s\<lparr> session_runtime_binding := session_runtime_binding s \<rparr> = s" by simp
  have settle: "emits I (settle_operation (observed_service svc) Destroyed Destroy oid l
      (clear_sandbox_runtime_binding s)) (conducts l R Destroy oid)"
    using settle_emits [OF pend, of None R] by (simp add: clear_sandbox_runtime_binding_def)
  have fail: "emits I (fail_with_sandbox_provider_error (observed_service svc) s oid Destroy Cleanup perr l)
      (\<lambda>r evs. isl r \<and> protocol l R evs)" for perr
    using fail_emits [OF pend, of Cleanup "session_runtime_binding s", unfolded same] by simp
  show ?thesis
    unfolding destroy_provider_def Some x option.case prod.case
  proof (rule emits_try_bind [OF destroy_call_emits [OF known, where R = R]], goal_cases)
    case (1 e evs)
    then show ?case using fits by (simp add: conducts_def)
  next
    case (2 a evs)
    then have "protocol l R evs" "intents evs = {}" using fits by simp_all
    then show ?case using 2 by (cases a) (auto intro!: conducts_after conducts_after_Inl [OF fail] settle)
  qed
qed

lemma destroy_target_known:
  assumes "destroy_target (observed_service svc) s = Inr target"
  shows "target = Some (q, b) \<Longrightarrow> known_provider svc q"
    and "target = None \<Longrightarrow> session_runtime_binding s = None"
  using assms provider_by_id_known
  by (auto simp: destroy_target_def split: option.splits sum.splits)

text \<open>A command that has begun: persist, then the body.\<close>

lemma begun_emits:
  assumes pend: "pending l k oid s" and b: "session_runtime_binding s = b"
    and body: "\<And>s'. pending l k oid s' \<Longrightarrow> session_runtime_binding s' = b \<Longrightarrow>
      emits I (body s') (conducts l (R \<union> (if k = Start
        then (case b of None \<Rightarrow> {} | Some x \<Rightarrow> {binding_runtime_id x}) else {})) k oid)"
  shows "emits I (try_bind (persist_sandbox_session (observed_service svc) s l) body)
    (conducts l R k oid)"
proof (rule emits_try_bind [OF persisted_begin_emits [OF pend b, of R]], goal_cases)
  case (1 e evs)
  then show ?case by (simp add: conducts_def)
next
  case (2 s' evs)
  then have p: "protocol l R evs" "destroys_confirmed evs" and s': "pending l k oid s'" "session_runtime_binding s' = b"
    and i: "intents evs = (if k = Start
        then (case b of None \<Rightarrow> {} | Some x \<Rightarrow> {binding_runtime_id x}) else {})"
    by auto
  show ?case
    by (rule emits_weaken [OF body [OF s']]) (use conducts_prefix [OF p] i in auto)
qed

text \<open>Choosing a provider only probes health, under the lease.\<close>

lemma select_loop_emits:
  assumes "\<And>q. q \<in> set qs \<Longrightarrow> known_provider svc q"
  shows "emits I (select_loop (observed_service svc) s l found qs) (\<lambda>r evs.
    protocol l R evs \<and> intents evs = {} \<and> destroys_confirmed evs
      \<and> (\<forall>q. r = Inr q \<longrightarrow> known_provider svc q))"
  using assms
proof (induction qs arbitrary: found)
  case Nil
  then show ?case by (auto intro!: emits_ret)
next
  case (Cons q qs)
  have rest: "emits I (select_loop (observed_service svc) s l f qs) (\<lambda>r evs'.
      protocol l R (evs @ evs') \<and> intents (evs @ evs') = {} \<and> destroys_confirmed (evs @ evs')
      \<and> (\<forall>q. r = Inr q \<longrightarrow> known_provider svc q))"
    if "protocol l R evs" "intents evs = {}" "destroys_confirmed evs" for f evs
    using Cons that by (auto intro!: emits_weaken [OF Cons.IH] protocol_append)
  show ?case
    unfolding select_loop.simps
  proof (split if_split, intro conjI impI, goal_cases)
    case 1
    then show ?case using rest [of "[]"] by simp
  next
    case 2
    show ?case
    proof (rule emits_bind [OF execute_emits [OF provider_calls(1) [OF Cons.prems]]], goal_cases)
      case 1
      show ?case by simp
    next
      case (2 health evs)
      then have "protocol l R evs" "intents evs = {}" "destroys_confirmed evs"
        by (auto intro!: protocol_call)
      then show ?case
        using Cons.prems rest
        by (cases health; cases "projr health") (auto intro!: emits_ret)
    qed
  qed
qed

lemma choose_emits:
  "emits I (start_choose_provider (observed_service svc) s l) (\<lambda>r evs.
    protocol l R evs \<and> intents evs = {} \<and> destroys_confirmed evs
      \<and> (\<forall>q. r = Inr q \<longrightarrow> known_provider svc q))"
proof -
  have "emits I (select_sandbox_provider (observed_service svc) s l) (\<lambda>r evs.
    protocol l R evs \<and> intents evs = {} \<and> destroys_confirmed evs
      \<and> (\<forall>q. r = Inr q \<longrightarrow> known_provider svc q))"
    unfolding select_sandbox_provider_def
    by (rule select_loop_emits) (auto simp: observed_service_def known_provider_def)
  then show ?thesis
    unfolding start_choose_provider_def
    by (auto split: option.splits intro!: emits_ret dest: provider_by_id_known)
qed

lemma start_intent_emits:
  "emits I (start_intent (observed_service svc) q s) (\<lambda>b evs. evs = [])"
proof -
  have "emits I (do { x \<leftarrow> service_generate_sandbox_id (observed_service svc);
      y \<leftarrow> service_generate_binding_id (observed_service svc); ret (f x y) }) (\<lambda>b evs. evs = [])" for f
    by (rule emits_bind [OF port_calls(6)], rule emits_bind [OF port_calls(7)])
      (auto intro!: emits_ret)
  then show ?thesis
    unfolding start_intent_def by (auto split: option.splits intro!: emits_ret)
qed

lemma start_with_intent_emits:
  assumes known: "known_provider svc q" and s: "session_under l s" "startable (session_state s)"
    and fresh: "find_operation (command_operation_id c) (session_operations s) = None"
    and ids: "command_tenant_id c = lease_tenant_id l" "command_session_id c = lease_session_id l"
  shows "emits I (start_with_intent (observed_service svc) q c l s)
    (conducts l R Start (command_operation_id c))"
  unfolding start_with_intent_def
proof (rule emits_bind [OF start_intent_emits], goal_cases)
  case (1 b evs)
  show ?case
  proof (cases "begin_and_transition (command_operation_id c) Start Starting
      (set_sandbox_runtime_binding b s)")
    case (Inl e)
    then show ?thesis using 1 by (auto simp: conducts_def intro!: emits_ret)
  next
    case (Inr s')
    have mid: "replayed_state (session_state s) Start InProgress = Some Starting"
      using s(2) by simp
    have s': "pending l Start (command_operation_id c) s' \<and> session_runtime_binding s' = Some b"
      by (rule begin_pending [OF s(1) fresh mid])
        (use Inr in \<open>simp_all add: set_sandbox_runtime_binding_def\<close>)
    show ?thesis
      unfolding Inr sum.case 1 append_Nil
      by (rule begun_emits [where b = "Some b"])
        (use s' in \<open>auto intro!: allocate_emits [OF known _ _ ids]\<close>)
  qed
qed

lemma start_previous_emits:
  assumes s: "session_under l s" "startable (session_state s)"
    and fresh: "find_operation oid (session_operations s) = None"
    and k: "emits I k (conducts l R Start oid)"
  shows "emits I (start_previous (observed_service svc) oid l s k) (conducts l R Start oid)"
proof (cases "session_runtime_binding s")
  case None
  then show ?thesis using k by (simp add: start_previous_def)
next
  case (Some b)
  show ?thesis
  proof (cases "binding_allocation_ref b = None
      \<or> isl (sandbox_provider_by_id (observed_service svc) (binding_provider_id b))")
    case True
    then show ?thesis
      using k Some by (auto simp: start_previous_def conducts_def intro!: emits_ret split: sum.splits)
  next
    case False
    then obtain q where q: "sandbox_provider_by_id (observed_service svc) (binding_provider_id b) = Inr q"
      and alloc: "binding_allocation_ref b \<noteq> None"
      by (cases "sandbox_provider_by_id (observed_service svc) (binding_provider_id b)") auto
    have known: "known_provider svc q" using provider_by_id_known [OF q] .
    have fits: "call_fits l (DestroyCall (sandbox_destroy_request s b l) y)" for y
      using destroy_fits [OF s(1)] .
    have same: "s\<lparr> session_runtime_binding := session_runtime_binding s \<rparr> = s" by simp
    have failed: "emits I (case begin_and_transition oid Start Starting s of
        Inl e \<Rightarrow> ret (Inl e)
      | Inr s' \<Rightarrow> fail_with_sandbox_provider_error (observed_service svc) s' oid Start Cleanup perr l)
        (\<lambda>r evs. isl r \<and> protocol l R evs)" for perr
    proof (cases "begin_and_transition oid Start Starting s")
      case (Inl e)
      then show ?thesis by (auto intro!: emits_ret)
    next
      case (Inr s')
      have mid: "replayed_state (session_state s) Start InProgress = Some Starting"
        using s(2) by simp
      have "pending l Start oid s'"
        using begin_pending [OF s(1) fresh mid, of "session_runtime_binding s", unfolded same] Inr Some
        by simp
      from fail_emits [OF this, of Cleanup "session_runtime_binding s'"] show ?thesis
        by (simp add: Inr)
    qed
    show ?thesis
      unfolding start_previous_def Some option.case if_not_P [OF alloc] q sum.case
    proof (rule emits_try_bind [OF destroy_call_emits [OF known, where R = R]], goal_cases)
      case (1 e evs)
      then show ?case using fits by (simp add: conducts_def)
    next
      case (2 a evs)
      then have "protocol l R evs" "intents evs = {}" using fits by simp_all
      then show ?case using 2 by (cases a) (auto intro!: conducts_after k conducts_after_Inl [OF failed])
    qed
  qed
qed

text \<open>The three commands under their lease.\<close>

lemma command_emits:
  assumes ids: "command_tenant_id c = lease_tenant_id l" "command_session_id c = lease_session_id l"
    and body: "\<And>s. session_under l s \<Longrightarrow>
      find_operation (command_operation_id c) (session_operations s) = None \<Longrightarrow>
      emits I (body s) (conducts l R k (command_operation_id c))"
  shows "emits I (try_bind (service_get_session (observed_service svc) (command_tenant_id c)
      (command_session_id c))
    (\<lambda>s. case service_replay_operation s (command_operation_id c) k of
       Inl e \<Rightarrow> ret (Inl e)
     | Inr None \<Rightarrow> body s
     | Inr (Some replayed) \<Rightarrow> ret replayed)) (concludes l R k (command_operation_id c))"
proof (rule emits_try_bind [OF get_emits], goal_cases)
  case (1 e evs)
  then show ?case by simp
next
  case (2 s evs)
  then have under: "session_under l s" and evs: "evs = []" using ids by (auto simp: session_under_def)
  show ?case
  proof (cases "service_replay_operation s (command_operation_id c) k")
    case (Inl e)
    then show ?thesis using evs by (auto intro!: emits_ret)
  next
    case (Inr x)
    show ?thesis
    proof (cases x)
      case None
      then show ?thesis
        using emits_weaken [OF body [OF under replay_None_fresh] conducts_concludes] Inr evs
        by simp
    next
      case (Some replayed)
      then show ?thesis
        using Inr evs under service_replay_Some [of s "command_operation_id c" k]
        by (cases replayed) (auto intro!: emits_ret simp: concludes_def)
    qed
  qed
qed

lemma start_emits:
  assumes ids: "command_tenant_id c = lease_tenant_id l" "command_session_id c = lease_session_id l"
  shows "emits I (start_sandbox_session_with_lease (observed_service svc) c l)
    (concludes l R Start (command_operation_id c))"
  unfolding start_sandbox_session_with_lease_def
proof (rule command_emits [OF ids], goal_cases)
  case (1 s)
  have body: "emits I (try_bind (start_choose_provider (observed_service svc) s l)
      (\<lambda>p. start_previous (observed_service svc) (command_operation_id c) l s
        (start_with_intent (observed_service svc) p c l s)))
      (conducts l R Start (command_operation_id c))" if "startable (session_state s)"
  proof (rule emits_try_bind [OF choose_emits [where R = R]], goal_cases)
    case (1 e evs)
    then show ?case by (simp add: conducts_def)
  next
    case (2 q evs)
    then show ?case
      using \<open>session_under l s\<close> \<open>find_operation _ _ = None\<close> that ids
      by (auto intro!: conducts_after start_previous_emits start_with_intent_emits)
  qed
  then show ?case by (auto simp: conducts_def intro!: emits_ret)
qed

lemma stop_emits:
  assumes ids: "command_tenant_id c = lease_tenant_id l" "command_session_id c = lease_session_id l"
  shows "emits I (stop_sandbox_session_with_lease (observed_service svc) c l)
    (concludes l R Stop (command_operation_id c))"
  unfolding stop_sandbox_session_with_lease_def
proof (rule command_emits [OF ids], goal_cases)
  case (1 s)
  show ?case
  proof (cases "session_state s = Running")
    case False
    then show ?thesis by (auto simp: conducts_def intro!: emits_ret)
  next
    case True
    then have alloc: "has_allocation_reference (session_runtime_binding s)"
      using valid_consistent [of s] 1(1) by (simp add: session_under_def)
    have mid: "replayed_state (session_state s) Stop InProgress = Some Stopping"
      using True by simp
    have same: "s\<lparr> session_runtime_binding := session_runtime_binding s \<rparr> = s" by simp
    have begun: "pending l Stop (command_operation_id c) s' \<and>
        session_runtime_binding s' = session_runtime_binding s"
      if "begin_and_transition (command_operation_id c) Stop Stopping s = Inr s'" for s'
      using begin_pending [OF 1 mid, of "session_runtime_binding s", unfolded same] that alloc by simp
    have body: "emits I (try_bind (persist_sandbox_session (observed_service svc) s' l)
          (stop_provider (observed_service svc) q b (command_operation_id c) l))
        (conducts l R Stop (command_operation_id c))"
      if "known_provider svc q" "begin_and_transition (command_operation_id c) Stop Stopping s = Inr s'"
      for q b s'
      using begun [OF that(2)] alloc that(1)
      by (auto intro!: begun_emits [where b = "session_runtime_binding s"] stop_provider_emits)
    show ?thesis
      using True body
      by (auto intro!: emits_ret split: option.splits sum.splits simp: conducts_def
          dest!: provider_by_id_known)
  qed
qed

lemma destroy_emits:
  assumes ids: "command_tenant_id c = lease_tenant_id l" "command_session_id c = lease_session_id l"
  shows "emits I (destroy_sandbox_session_with_lease (observed_service svc) c l)
    (concludes l R Destroy (command_operation_id c))"
  unfolding destroy_sandbox_session_with_lease_def
proof (rule command_emits [OF ids], goal_cases)
  case (1 s)
  show ?case
  proof (cases "startable (session_state s)")
    case False
    then show ?thesis by (auto simp: conducts_def intro!: emits_ret)
  next
    case True
    have mid: "replayed_state (session_state s) Destroy InProgress = Some Destroying"
      using True by simp
    have same: "s\<lparr> session_runtime_binding := session_runtime_binding s \<rparr> = s" by simp
    have body: "emits I (try_bind (persist_sandbox_session (observed_service svc) s' l)
          (destroy_provider (observed_service svc) target (command_operation_id c) l))
        (conducts l R Destroy (command_operation_id c))"
      if t: "destroy_target (observed_service svc) s = Inr target"
        and b: "begin_and_transition (command_operation_id c) Destroy Destroying s = Inr s'"
      for target s'
    proof -
      have "pending l Destroy (command_operation_id c) s' \<and>
          session_runtime_binding s' = session_runtime_binding s"
        using begin_pending [OF 1 mid, of "session_runtime_binding s", unfolded same] b by simp
      then show ?thesis
        using destroy_target_known [OF t]
        by (auto intro!: begun_emits [where b = "session_runtime_binding s"] destroy_provider_emits)
    qed
    show ?thesis
      using True body by (auto intro!: emits_ret split: sum.splits simp: conducts_def)
  qed
qed

text \<open>Reconciling one transient session.\<close>

lemma conducts_settled:
  "emits I m (conducts l R k oid) \<Longrightarrow> emits I m (\<lambda>r evs. protocol l R evs
     \<and> (\<forall>s'. r = Inr s' \<longrightarrow> (\<exists>oid. acknowledged l k oid s' evs)))"
  by (erule emits_weaken) (auto simp: conducts_def)

lemma reconcile_emits:
  assumes s: "session_under l s"
    and R: "\<And>b. session_runtime_binding s = Some b \<Longrightarrow> binding_runtime_id b \<in> R"
  shows "emits I (reconcile_sandbox_session_with_lease (observed_service svc) s l) (\<lambda>r evs.
    protocol l R evs \<and> (\<forall>s'. r = Inr s' \<longrightarrow>
      (\<exists>oid. acknowledged l (reconciled_kind (session_state s)) oid s' evs)))"
proof -
  have ids: "session_tenant_id s = lease_tenant_id l" "session_id s = lease_session_id l"
    using s by (simp_all add: session_under_def)
  have starting: "emits I (reconcile_starting (observed_service svc) s l) (\<lambda>r evs.
      protocol l R evs \<and> (\<forall>s'. r = Inr s' \<longrightarrow> (\<exists>oid. acknowledged l Start oid s' evs)))"
    if "session_state s = Starting"
  proof -
    have resume: "emits I (allocate_and_start (observed_service svc) q b oid (session_tenant_id s)
        (session_id s) l s) (conducts l R Start oid)"
      "emits I (start_provider (observed_service svc) q b oid l s) (conducts l R Start oid)"
      if "known_provider svc q" "in_progress_sandbox_operation_id s Start = Inr oid"
        "session_runtime_binding s = Some b" for q b oid
      using in_progress_pending [OF s, of Start oid] that \<open>session_state s = Starting\<close> R ids
      by (auto intro!: allocate_emits start_provider_emits)
    show ?thesis
      unfolding reconcile_starting_def
      by (auto intro!: emits_ret resume [THEN conducts_settled] split: option.splits sum.splits
          dest!: provider_by_id_known)
  qed
  have stopping: "emits I (reconcile_stopping (observed_service svc) s l) (\<lambda>r evs.
      protocol l R evs \<and> (\<forall>s'. r = Inr s' \<longrightarrow> (\<exists>oid. acknowledged l Stop oid s' evs)))"
    if "session_state s = Stopping"
  proof -
    have "has_allocation_reference (session_runtime_binding s)"
      using valid_consistent [of s] s that by (simp add: session_under_def)
    then have resume: "emits I (stop_provider (observed_service svc) q b oid l s) (conducts l R Stop oid)"
      if "known_provider svc q" "in_progress_sandbox_operation_id s Stop = Inr oid" for q b oid
      using in_progress_pending [OF s, of Stop oid] that \<open>session_state s = Stopping\<close>
      by (auto intro!: stop_provider_emits)
    show ?thesis
      unfolding reconcile_stopping_def
      by (auto intro!: emits_ret resume [THEN conducts_settled] split: option.splits sum.splits
          dest!: provider_by_id_known)
  qed
  have destroying: "emits I (reconcile_destroying (observed_service svc) s l) (\<lambda>r evs.
      protocol l R evs \<and> (\<forall>s'. r = Inr s' \<longrightarrow> (\<exists>oid. acknowledged l Destroy oid s' evs)))"
    if "session_state s = Destroying"
  proof -
    have resume: "emits I (destroy_provider (observed_service svc) target oid l s) (conducts l R Destroy oid)"
      if "destroy_target (observed_service svc) s = Inr target"
        "in_progress_sandbox_operation_id s Destroy = Inr oid" for target oid
      using in_progress_pending [OF s, of Destroy oid] that \<open>session_state s = Destroying\<close>
        destroy_target_known [OF that(1)]
      by (auto intro!: destroy_provider_emits)
    show ?thesis
      unfolding reconcile_destroying_def
      by (auto intro!: emits_ret resume [THEN conducts_settled] split: sum.splits)
  qed
  show ?thesis
    unfolding reconcile_sandbox_session_with_lease_def
    using starting stopping destroying
    by (cases "session_state s") (auto intro!: emits_ret simp: reconciled_kind_def)
qed

text \<open>A whole command: acquire, run, release.\<close>

lemma with_lease_emits:
  assumes "\<And>l. lease_tenant_id l = command_tenant_id c \<Longrightarrow> lease_session_id l = command_session_id c \<Longrightarrow>
      emits I (body l) (concludes l {} k (command_operation_id c))"
  shows "emits I (with_service_lease (observed_service svc) c body) (\<lambda>r evs.
    (isl r \<and> evs = []) \<or> (\<exists>l. lease_tenant_id l = command_tenant_id c
       \<and> lease_session_id l = command_session_id c \<and> concludes l {} k (command_operation_id c) r evs))"
  unfolding with_service_lease_def
proof (rule emits_try_bind [where R = "\<lambda>r evs. evs = [] \<and> (\<forall>l. r = Inr l \<longrightarrow>
    lease_tenant_id l = command_tenant_id c \<and> lease_session_id l = command_session_id c)"], goal_cases)
  case 1
  show ?case
    unfolding acquire_service_lease_def repository_question_def
    by (rule emits_try_bind [where R = "\<lambda>r evs. evs = [] \<and> (\<forall>l. r = Inr (Some l) \<longrightarrow>
          lease_tenant_id l = command_tenant_id c \<and> lease_session_id l = command_session_id c)"],
        rule emits_bind [OF port_calls(5)])
      (auto intro!: emits_ret split: option.splits sum.splits simp: map_sum_def)
next
  case (3 l evs)
  then have l: "evs = []" "lease_tenant_id l = command_tenant_id c"
    "lease_session_id l = command_session_id c" by auto
  show ?case
    unfolding l(1) append_Nil release_service_lease_def
    by (rule emits_bind [OF assms [OF l(2,3)]], rule emits_bind [OF port_calls(4)])
      (use l in \<open>auto intro!: emits_ret exI [of _ l] simp: concludes_def split: sum.splits\<close>)
qed simp

lemmas command_runs =
  with_lease_emits [OF start_emits, folded start_sandbox_session_def]
  with_lease_emits [OF stop_emits, folded stop_sandbox_session_def]
  with_lease_emits [OF destroy_emits, folded destroy_sandbox_session_def]

end

end
