(* ===== verification/Session_World.thy ===== *)
theory Session_World
  imports Session_Store_Inv Service_Commands
begin

text \<open>
  The lifecycle service on the in-memory store, with other controllers at work: before each store
  call the world consumes one entry of an agenda, the writes other controllers make to the same
  store and the time that passes. Providers act on a state of their own, in any way.
\<close>

datatype store_write =
  WriteInsert sandbox_session
| WriteSave sandbox_session u64 sandbox_session_lease nat
| WriteAcquire tenant_id sandbox_session_id sandbox_lease_owner_id nat nat i64
| WriteRenew sandbox_session_lease nat nat i64
| WriteRelease sandbox_session_lease

fun apply_write :: "store_write \<Rightarrow> sandbox_repository_state \<Rightarrow> sandbox_repository_state" where
  "apply_write (WriteInsert s) r = snd (memory_insert_sandbox_session s r)"
| "apply_write (WriteSave s v l now) r = snd (memory_save_sandbox_session s v l now r)"
| "apply_write (WriteAcquire t sid owner d now wall) r = snd (memory_acquire_lease t sid owner d now wall r)"
| "apply_write (WriteRenew l d now wall) r = snd (memory_renew_lease l d now wall r)"
| "apply_write (WriteRelease l) r = snd (memory_release_lease l r)"

record 'p memory_world =
  world_store :: sandbox_repository_state
  world_now :: nat
  world_wall :: i64
  world_agenda :: "(store_write list \<times> nat \<times> i64) list"
  world_providers :: 'p

definition interfere :: "'p memory_world \<Rightarrow> 'p memory_world" where
  "interfere w =
     (case world_agenda w of
        [] \<Rightarrow> w
      | (writes, ns, ms) # rest \<Rightarrow>
          w\<lparr> world_store := fold apply_write writes (world_store w), world_now := world_now w + ns,
             world_wall := world_wall w + ms, world_agenda := rest \<rparr>)"

definition store_call ::
  "(nat \<Rightarrow> i64 \<Rightarrow> sandbox_repository_state \<Rightarrow> 'a \<times> sandbox_repository_state)
     \<Rightarrow> ('p memory_world, 'a) state" where
  "store_call f = State (\<lambda>w. let w1 = interfere w;
       (r, st) = f (world_now w1) (world_wall w1) (world_store w1)
     in (r, w1\<lparr> world_store := st \<rparr>))"

definition memory_port :: "'p memory_world session_repository_port" where
  "memory_port = \<lparr>
     repo_find = (\<lambda>t oid. store_call (\<lambda>_ _ r. (memory_find_by_sandbox_operation t oid r, r))),
     repo_get = (\<lambda>t sid. store_call (\<lambda>_ _ r. (memory_get_sandbox_session t sid r, r))),
     repo_insert = (\<lambda>s. store_call (\<lambda>_ _. memory_insert_sandbox_session s)),
     repo_save = (\<lambda>s v l. store_call (\<lambda>now _. memory_save_sandbox_session s v l now)),
     repo_acquire = (\<lambda>t sid owner d. store_call (memory_acquire_lease t sid owner d)),
     repo_renew = (\<lambda>l d. store_call (memory_renew_lease l d)),
     repo_release = (\<lambda>l. store_call (\<lambda>_ _. memory_release_lease l)),
     repo_list = (\<lambda>t after n. store_call (\<lambda>_ _ r. (memory_list_requiring_reconciliation t after n r, r))) \<rparr>"

definition on_providers :: "('p, 'a) state \<Rightarrow> ('p memory_world, 'a) state" where
  "on_providers m = State (\<lambda>w. case run_state m (world_providers w) of
     (r, p) \<Rightarrow> (r, w\<lparr> world_providers := p \<rparr>))"

definition world_provider :: "'p sandbox_provider \<Rightarrow> 'p memory_world sandbox_provider" where
  "world_provider p = \<lparr> provider_descriptor = provider_descriptor p,
     provider_health = on_providers (provider_health p),
     provider_allocate = (\<lambda>q. on_providers (provider_allocate p q)),
     provider_start = (\<lambda>q. on_providers (provider_start p q)),
     provider_stop = (\<lambda>q. on_providers (provider_stop p q)),
     provider_destroy = (\<lambda>q. on_providers (provider_destroy p q)) \<rparr>"

definition memory_service ::
  "'p sandbox_provider list \<Rightarrow> sandbox_lease_owner_id \<Rightarrow> nat \<Rightarrow> nat \<Rightarrow> ('p, sandbox_id) state
     \<Rightarrow> ('p, sandbox_runtime_binding_id) state \<Rightarrow> 'p memory_world lifecycle_service" where
  "memory_service ps owner d timeout gs gb = \<lparr>
     service_repository = memory_port, service_providers = map world_provider ps,
     service_lease_owner = owner, service_lease_duration = d, service_provider_timeout = timeout,
     service_generate_sandbox_id = on_providers gs, service_generate_binding_id = on_providers gb \<rparr>"

definition world_ok :: "'p memory_world \<Rightarrow> bool" where
  "world_ok w \<longleftrightarrow> repository_ok (world_store w)"

lemma apply_write_step: "repository_step r (apply_write x r)"
  by (cases x) (auto intro: repository_step.intros)

lemma apply_writes_ok: "repository_ok r \<Longrightarrow> repository_ok (fold apply_write xs r)"
  by (induction xs arbitrary: r) (auto intro: repository_ok_step [OF apply_write_step])

lemma interfere_ok: "world_ok w \<Longrightarrow> world_ok (interfere w)"
  by (auto simp: interfere_def world_ok_def apply_writes_ok split: list.splits)

lemma store_call_keeps:
  assumes "\<And>now wall r. repository_ok r \<Longrightarrow> repository_ok (snd (f now wall r)) \<and> P (fst (f now wall r))"
  shows "keeps world_ok (store_call f) P"
  unfolding keeps_def
proof (intro allI impI)
  fix w :: "'p memory_world" and r w'
  assume "world_ok w" "run_state (store_call f) w = (r, w')"
  then show "world_ok w' \<and> P r"
    using assms [of "world_store (interfere w)" "world_now (interfere w)" "world_wall (interfere w)"]
      interfere_ok [of w]
    by (auto simp: store_call_def Let_def world_ok_def split: prod.splits)
qed

lemma on_providers_keeps: "keeps world_ok (on_providers m) (\<lambda>_. True)"
  by (auto simp: keeps_def on_providers_def world_ok_def split: prod.splits)

lemma step_ok:
  "repository_ok r \<Longrightarrow> repository_ok (snd (memory_insert_sandbox_session s r))"
  "repository_ok r \<Longrightarrow> repository_ok (snd (memory_save_sandbox_session s v l now r))"
  "repository_ok r \<Longrightarrow> repository_ok (snd (memory_acquire_lease t sid owner d now wall r))"
  "repository_ok r \<Longrightarrow> repository_ok (snd (memory_renew_lease l d now wall r))"
  "repository_ok r \<Longrightarrow> repository_ok (snd (memory_release_lease l r))"
  by (auto intro: repository_ok_step repository_step.intros)

interpretation memory_repository: session_repository_contract memory_port world_ok
proof (unfold_locales, goal_cases)
  case (2 t sid)
  have "\<forall>s. memory_get_sandbox_session t sid r = Inr (Some s) \<longrightarrow>
      session_valid s \<and> session_tenant_id s = t \<and> session_id s = sid" if "repository_ok r" for r
    using repository_okD(3) [OF that] by (auto simp: memory_get_sandbox_session_def session_filed_def)
  then show ?case by (auto simp: memory_port_def intro!: store_call_keeps)
next
  case (5 t sid owner d)
  have "\<forall>l. fst (memory_acquire_lease t sid owner d now wall r) = Inr (Some l) \<longrightarrow>
      lease_tenant_id l = t \<and> lease_session_id l = sid" for now wall r
    by (metis acquire_result prod.collapse)
  then show ?case using step_ok(3) by (auto simp: memory_port_def intro!: store_call_keeps)
qed (use step_ok in \<open>auto simp: memory_port_def intro!: store_call_keeps\<close>)

interpretation memory_service: service_contract "memory_service ps owner d timeout gs gb" world_ok
  for ps owner d timeout gs gb
proof (rule service_contract.intro)
  show "session_repository_contract
      (service_repository (memory_service ps owner d timeout gs gb)) world_ok"
    using memory_repository.session_repository_contract_axioms by (simp add: memory_service_def)
  show "service_contract_axioms (memory_service ps owner d timeout gs gb) world_ok"
    by (rule service_contract_axioms.intro)
      (auto simp: memory_service_def world_provider_def provider_keeps_def on_providers_keeps)
qed

end
