(* ===== verification/Service_Quiet.thy ===== *)
theory Service_Quiet
  imports Session_World
begin

text \<open>
  A world without interference: no other controller writes and no time passes while a command runs.
  There the lease taken at the start stays held, a save of a valid successor is accepted, and a start
  whose provider cooperates reaches \<open>Running\<close>.
\<close>

section \<open>Total-correctness triples\<close>

definition delivers :: "('w \<Rightarrow> bool) \<Rightarrow> ('w, 'a) state \<Rightarrow> ('a \<Rightarrow> 'w \<Rightarrow> bool) \<Rightarrow> bool" where
  "delivers P m Q \<longleftrightarrow> (\<forall>w. P w \<longrightarrow> (case run_state m w of (r, w') \<Rightarrow> Q r w'))"

lemma delivers_ret: "(\<And>w. P w \<Longrightarrow> Q a w) \<Longrightarrow> delivers P (ret a) Q"
  by (simp add: delivers_def)

lemma delivers_bind:
  "delivers P m R \<Longrightarrow> (\<And>a. delivers (R a) (k a) Q) \<Longrightarrow> delivers P (State_Monad.bind m k) Q"
  by (fastforce simp: delivers_def split: prod.splits)

lemma delivers_try:
  assumes "delivers P m (\<lambda>r w. \<exists>a. r = Inr a \<and> R a w)" "\<And>a. delivers (R a) (k a) Q"
  shows "delivers P (try_bind m k) Q"
  unfolding try_bind_def
proof (rule delivers_bind [OF assms(1)])
  fix r
  show "delivers (\<lambda>w. \<exists>a. r = Inr a \<and> R a w) (case r of Inl e \<Rightarrow> ret (Inl e) | Inr x \<Rightarrow> k x) Q"
    using assms(2) by (cases r) (auto simp: delivers_def)
qed

lemma delivers_fact: "(A \<Longrightarrow> delivers P m Q) \<Longrightarrow> delivers (\<lambda>w. A \<and> P w) m Q"
  by (auto simp: delivers_def)

lemma delivers_weaken: "delivers P m R \<Longrightarrow> (\<And>r w. R r w \<Longrightarrow> Q r w) \<Longrightarrow> delivers P m Q"
  by (fastforce simp: delivers_def split: prod.splits)

section \<open>A lease that stays held\<close>

text \<open>The stored form of a lease: taken for \<open>d\<close> at the clock readings \<open>now\<close> and \<open>wall\<close>.\<close>

definition stored_lease :: "sandbox_session_lease \<Rightarrow> nat \<Rightarrow> sandbox_memory_lease" where
  "stored_lease l e = \<lparr> memory_lease_owner = Some (lease_owner_id l),
     memory_lease_token = lease_fencing_token l, memory_lease_expires_at = Some e,
     memory_lease_expires_unix = Some (lease_expires_at_unix_millis l) \<rparr>"

definition lease_stands ::
  "sandbox_session_lease \<Rightarrow> nat \<Rightarrow> nat \<Rightarrow> i64 \<Rightarrow> sandbox_repository_state \<Rightarrow> bool" where
  "lease_stands l d now wall r \<longleftrightarrow>
     repository_leases r (lease_tenant_id l, lease_session_id l) = Some (stored_lease l (now + d))
     \<and> (case sandbox_lease_duration_millis d of Inl e \<Rightarrow> False
        | Inr millis \<Rightarrow> i64_checked_add_opt wall millis = Some (lease_expires_at_unix_millis l))
     \<and> memory_session_lease (lease_tenant_id l) (lease_session_id l) (stored_lease l (now + d)) = Inr l"

lemma acquire_stands:
  assumes "memory_acquire_lease t sid owner d now wall r = (Inr (Some l), r')"
  shows "lease_stands l d now wall r'" "lease_tenant_id l = t" "lease_session_id l = sid"
    "repository_sessions r' = repository_sessions r"
    "repository_operations r' = repository_operations r"
proof -
  from assms obtain m tok millis where m: "sandbox_lease_duration_millis d = Inr millis"
    "extend_memory_lease t sid
       (m\<lparr> memory_lease_token := tok, memory_lease_owner := Some owner \<rparr>) d millis now wall r
     = (Inr (Some l), r')"
    by (auto simp: memory_acquire_lease_def split: sum.splits option.splits if_splits)
  then show "lease_stands l d now wall r'" "lease_tenant_id l = t" "lease_session_id l = sid"
    "repository_sessions r' = repository_sessions r"
    "repository_operations r' = repository_operations r"
    by (auto simp: extend_memory_lease_def Let_def put_lease_def lease_stands_def stored_lease_def
        memory_session_lease_def sandbox_session_lease_new_def fencing_token_new_def
        split: option.splits sum.splits if_splits)
qed

lemma held_stands:
  "lease_stands l d now wall r \<Longrightarrow> memory_lease_held (stored_lease l (now + d)) l now"
  by (auto simp: lease_stands_def memory_lease_held_def stored_lease_def
      sandbox_lease_duration_millis_def Let_def split: if_splits)

lemma renew_stands:
  assumes "lease_stands l d now wall r"
  shows "memory_renew_lease l d now wall r = (Inr (Some l), r)"
proof -
  have same: "(stored_lease l (now + d))\<lparr> memory_lease_expires_at := Some (now + d),
      memory_lease_expires_unix := Some (lease_expires_at_unix_millis l) \<rparr> = stored_lease l (now + d)"
    by (simp add: stored_lease_def)
  show ?thesis
    using assms held_stands [OF assms]
    by (auto simp: memory_renew_lease_def extend_memory_lease_def Let_def put_lease_def same
        lease_stands_def fun_upd_idem split: sum.splits)
qed

lemma release_stands:
  "lease_stands l d now wall r \<Longrightarrow> fst (memory_release_lease l r) = Inr True
     \<and> repository_sessions (snd (memory_release_lease l r)) = repository_sessions r"
  by (auto simp: lease_stands_def memory_release_lease_def put_lease_def Let_def stored_lease_def)

section \<open>The service without interference\<close>

definition quiet ::
  "sandbox_session_lease \<Rightarrow> nat \<Rightarrow> operation_id \<Rightarrow> sandbox_session \<Rightarrow> 'p memory_world \<Rightarrow> bool" where
  "quiet l d oid s w \<longleftrightarrow> world_agenda w = []
     \<and> lease_stands l d (world_now w) (world_wall w) (world_store w)
     \<and> lookup_session (lease_tenant_id l) (lease_session_id l) (world_store w) = Some s
     \<and> (\<forall>x\<in>set (session_operations s).
          repository_operations (world_store w) (lease_tenant_id l, operation_id_of x)
            = Some (lease_session_id l))
     \<and> repository_operations (world_store w) (lease_tenant_id l, oid) \<in> {None, Some (lease_session_id l)}"

lemma quiet_call:
  "world_agenda w = [] \<Longrightarrow> run_state (store_call f) w =
     (case f (world_now w) (world_wall w) (world_store w) of (r, st) \<Rightarrow> (r, w\<lparr> world_store := st \<rparr>))"
  by (simp add: store_call_def interfere_def Let_def)

lemma quiet_get:
  "delivers (quiet l d oid s)
     (service_get_session (memory_service ps owner d timeout gs gb) (lease_tenant_id l)
       (lease_session_id l))
     (\<lambda>r w. r = Inr s \<and> quiet l d oid s w)"
  by (auto simp: delivers_def service_get_session_def try_bind_def repository_question_def
      memory_service_def memory_port_def quiet_call memory_get_sandbox_session_def quiet_def)

lemma quiet_execute:
  fixes m :: "('p, 'a) provider_call"
  assumes "\<And>x. \<exists>r y. run_state m x = (Some r, y) \<and> A r"
  shows "delivers (quiet l d oid s)
     (execute_sandbox_provider_call (memory_service ps owner d timeout gs gb) p op l (on_providers m))
     (\<lambda>r w. (\<exists>x. r = Inr x \<and> A x) \<and> quiet l d oid s w)"
  unfolding delivers_def
proof (intro allI impI)
  fix w :: "'p memory_world" assume w: "quiet l d oid s w"
  then have "run_state (repo_renew memory_port l d) w = (Inr (Some l), w)"
    by (simp add: memory_port_def quiet_call quiet_def renew_stands)
  moreover obtain r y where "run_state m (world_providers w) = (Some r, y)" "A r"
    using assms by blast
  ultimately show "case run_state (execute_sandbox_provider_call
      (memory_service ps owner d timeout gs gb) p op l (on_providers m)) w of
      (r, w') \<Rightarrow> (\<exists>x. r = Inr x \<and> A x) \<and> quiet l d oid s w'"
    using w by (simp add: execute_sandbox_provider_call_def memory_service_def lease_matches_def
        on_providers_def quiet_def)
qed

lemma quiet_generate:
  "delivers (quiet l d oid s) (on_providers m) (\<lambda>_. quiet l d oid s)"
  by (auto simp: delivers_def on_providers_def quiet_def split: prod.splits)

lemma version_succ:
  fixes v :: u64
  assumes "int (Suc (unat v)) \<le> i64_max"
  shows "v < - 1" "unat (v + 1) = Suc (unat v)"
proof -
  have "unat v < 18446744073709551615"
    using assms unfolding i64_max_def by linarith
  then show less: "v < - 1" by (simp add: word_less_nat_alt)
  then show "unat (v + 1) = Suc (unat v)"
    using u64_checked_succ_Some [of v] by (simp add: u64_checked_succ_def)
qed

text \<open>A save of the stored session's successor is accepted.\<close>

lemma quiet_persist:
  fixes ps :: "'p sandbox_provider list"
  assumes "session_under l s'" "session_version s' = session_version s"
    and "int (Suc (unat (session_version s))) \<le> i64_max"
    and "operation_id_of ` set (session_operations s')
      \<subseteq> insert oid (operation_id_of ` set (session_operations s))"
  shows "delivers (quiet l d oid s)
     (persist_sandbox_session (memory_service ps owner d timeout gs gb) s' l)
     (\<lambda>r w. r = Inr (mark_sandbox_operations_persisted
              (s'\<lparr> session_version := session_version s + 1 \<rparr>))
        \<and> quiet l d oid (s'\<lparr> session_version := session_version s + 1 \<rparr>) w)"
  unfolding delivers_def
proof (intro allI impI)
  let ?s = "s'\<lparr> session_version := session_version s + 1 \<rparr>"
  fix w :: "'p memory_world" assume w: "quiet l d oid s w"
  note unat = version_succ [OF assms(3)]
  have next_ok: "next_sandbox_version s' = Inr (session_version s, ?s)"
    "next_version_in_range (session_version s) = Some (session_version s + 1)"
    using assms(2,3) unat
    by (simp_all add: next_sandbox_version_def next_version_in_range_def u64_checked_succ_def
        max_sandbox_session_version_def)
  have ids: "session_tenant_id s' = lease_tenant_id l" "session_id s' = lease_session_id l"
    using assms(1) by (simp_all add: session_under_def)
  have index: "repository_operations (world_store w) (lease_tenant_id l, operation_id_of x)
      \<in> {None, Some (lease_session_id l)}" if "x \<in> set (session_operations s')" for x
    using w assms(4) that unfolding quiet_def by fastforce
  have "save_admissible ?s (session_version s) l (world_now w) (world_store w)"
    using w next_ok next_version_valid [OF next_ok(1)] assms(1) held_stands index ids
    unfolding save_admissible_def by (force simp: quiet_def lease_stands_def session_under_def)
  then have "run_state (repo_save memory_port ?s (session_version s) l) w
      = (Inr (), w\<lparr> world_store := store_session ?s (world_store w) \<rparr>)"
    using w by (subst memory_port_def) (simp add: quiet_call quiet_def save_result)
  moreover have "quiet l d oid ?s (w\<lparr> world_store := store_session ?s (world_store w) \<rparr>)"
    using w ids by (simp add: quiet_def lease_stands_def store_simps)
  ultimately show "case run_state (persist_sandbox_session
      (memory_service ps owner d timeout gs gb) s' l) w of
      (r, w') \<Rightarrow> r = Inr (mark_sandbox_operations_persisted ?s) \<and> quiet l d oid ?s w'"
    by (simp add: persist_sandbox_session_def next_ok memory_service_def)
qed

section \<open>A start with a cooperative provider\<close>

definition cooperative :: "'p sandbox_provider \<Rightarrow> bool" where
  "cooperative p \<longleftrightarrow>
     (\<forall>x. \<exists>y. run_state (provider_health p) x = (Some (Inr HealthReady), y))
     \<and> (\<forall>q x. \<exists>a y. run_state (provider_allocate p q) x = (Some (Inr a), y))
     \<and> (\<forall>q x. \<exists>rd y. run_state (provider_start p q) x = (Some (Inr rd), y)
          \<and> is_sandbox_running_ready rd)"

definition confirms_destroy :: "'p sandbox_provider \<Rightarrow> bool" where
  "confirms_destroy p \<longleftrightarrow> (\<forall>q x. \<exists>y. run_state (provider_destroy p q) x = (Some (Inr ()), y))"

text \<open>
  The provider a start runs on: the one a binding intent without an allocation names, or else the first
  registered provider that meets the session's requirements; and an allocation the session still holds can
  be destroyed by its provider first.
\<close>

definition registered_provider ::
  "'p sandbox_provider list \<Rightarrow> sandbox_provider_id \<Rightarrow> 'p sandbox_provider option" where
  "registered_provider ps pid = find (\<lambda>q. provider_id q = pid) ps"

definition first_eligible ::
  "'p sandbox_provider list \<Rightarrow> sandbox_session \<Rightarrow> 'p sandbox_provider option" where
  "first_eligible ps s = find (\<lambda>q. satisfies_sandbox_requirements (provider_descriptor q)
     (session_required_capabilities s) (session_minimum_assurance s)) ps"

definition start_runs_on ::
  "'p sandbox_provider list \<Rightarrow> sandbox_session \<Rightarrow> 'p sandbox_provider \<Rightarrow> bool" where
  "start_runs_on ps s p \<longleftrightarrow>
     (case session_runtime_binding s of
        None \<Rightarrow> first_eligible ps s = Some p
      | Some b \<Rightarrow>
          if binding_allocation_ref b = None then registered_provider ps (binding_provider_id b) = Some p
          else first_eligible ps s = Some p
            \<and> (\<exists>q. registered_provider ps (binding_provider_id b) = Some q \<and> confirms_destroy q))"

definition started ::
  "operation_id \<Rightarrow> sandbox_provider_id \<Rightarrow> sandbox_session \<Rightarrow> bool" where
  "started oid pid s \<longleftrightarrow> session_state s = Running
     \<and> (\<exists>b. session_runtime_binding s = Some b \<and> binding_allocation_ref b \<noteq> None
          \<and> binding_provider_id b = pid)
     \<and> last (session_operations s)
         = \<lparr> operation_id_of = oid, operation_kind = Start, operation_outcome = Succeeded \<rparr>"

abbreviation operation_ids :: "sandbox_session \<Rightarrow> operation_id set" where
  "operation_ids s \<equiv> operation_id_of ` set (session_operations s)"

lemma set_outcome_operation_ids [simp]:
  "operation_id_of ` set (set_outcome oid out ops) = operation_id_of ` set ops"
  by (metis list.set_map set_outcome_ids)

lemma pending_version:
  assumes "pending l k oid s" "int (unat v) \<le> i64_max"
  shows "pending l k oid (mark_sandbox_operations_persisted (s\<lparr> session_version := v \<rparr>))"
proof -
  have "session_valid (s\<lparr> session_version := v \<rparr>)"
    using assms by (auto simp: pending_def session_under_def session_valid_iff
        max_sandbox_session_version_def)
  then show ?thesis
    using assms by (simp add: pending_def session_under_def)
      (simp add: mark_sandbox_operations_persisted_def)
qed

lemma quiet_settle_start:
  fixes ps :: "'p sandbox_provider list"
  assumes "pending l Start oid s" "session_version s = session_version cur"
    and "int (Suc (unat (session_version cur))) \<le> i64_max"
    and "operation_ids s \<subseteq> insert oid (operation_ids cur)"
    and "session_runtime_binding s = Some b" "binding_allocation_ref b \<noteq> None"
  shows "delivers (quiet l d oid cur)
     (settle_operation (memory_service ps owner d timeout gs gb) Running Start oid l s)
     (\<lambda>r w. \<exists>s'. r = Inr (mark_sandbox_operations_persisted s') \<and> quiet l d oid s' w
        \<and> started oid (binding_provider_id b) s'
        \<and> unat (session_version s') = Suc (unat (session_version cur)))"
proof -
  have same: "s\<lparr> session_runtime_binding := session_runtime_binding s \<rparr> = s" by simp
  let ?s = "s\<lparr> session_state := Running, session_last_failure := None,
    session_operations := set_outcome oid Succeeded (session_operations s) \<rparr>"
  have settled: "settle_operation svc Running Start oid l s = persist_sandbox_session svc ?s l" for svc
    using pending_transition [OF assms(1), of Succeeded Start "session_runtime_binding s", unfolded same]
    by (simp add: settle_operation_def complete_sandbox_operation_def)
  have "session_under l ?s" "last (session_operations ?s)
      = \<lparr> operation_id_of = oid, operation_kind = Start, operation_outcome = Succeeded \<rparr>"
    using pending_resolve [OF assms(1), of Succeeded "session_runtime_binding s", unfolded same] assms(5,6)
    by (simp_all add: has_allocation_reference_def)
  then show ?thesis
    unfolding settled using assms version_succ [OF assms(3)]
    by (intro delivers_weaken [OF quiet_persist [where s' = ?s]])
      (auto simp: started_def intro!: exI [of _ "?s\<lparr> session_version := session_version cur + 1 \<rparr>"])
qed

lemma quiet_start_provider:
  fixes ps :: "'p sandbox_provider list"
  assumes "cooperative p" "pending l Start oid s" "session_version s = session_version cur"
    and "int (Suc (unat (session_version cur))) \<le> i64_max"
    and "operation_ids s \<subseteq> insert oid (operation_ids cur)"
    and "session_runtime_binding s = Some b" "binding_allocation_ref b \<noteq> None"
  shows "delivers (quiet l d oid cur)
     (start_provider (memory_service ps owner d timeout gs gb) (world_provider p) b oid l s)
     (\<lambda>r w. \<exists>s'. r = Inr (mark_sandbox_operations_persisted s') \<and> quiet l d oid s' w
        \<and> started oid (binding_provider_id b) s'
        \<and> unat (session_version s') = Suc (unat (session_version cur)))"
proof -
  obtain req where req: "sandbox_start_request s b l = Inr req"
    using assms(7) by (auto simp: sandbox_start_request_def)
  have answer: "\<exists>r y. run_state (provider_start p req) x = (Some r, y)
      \<and> (\<exists>rd. r = Inr rd \<and> is_sandbox_running_ready rd)" for x
    using assms(1) by (fastforce simp: cooperative_def)
  show ?thesis
    unfolding start_provider_def req sum.case
  proof (rule delivers_try [where R = "\<lambda>r w. (\<exists>rd. r = Inr rd \<and> is_sandbox_running_ready rd)
      \<and> quiet l d oid cur w"], goal_cases)
    case 1
    show ?case
      by (simp add: world_provider_def) (rule delivers_weaken [OF quiet_execute [OF answer]], auto)
  next
    case (2 a)
    show ?case
      by (rule delivers_fact) (auto intro: quiet_settle_start [OF assms(2-)])
  qed
qed

lemma quiet_allocate_and_start:
  fixes ps :: "'p sandbox_provider list"
  assumes "cooperative p" "pending l Start oid s" "session_version s = session_version cur"
    and "int (Suc (Suc (unat (session_version cur)))) \<le> i64_max"
    and "operation_ids s \<subseteq> insert oid (operation_ids cur)"
    and "session_runtime_binding s = Some b"
  shows "delivers (quiet l d oid cur)
     (allocate_and_start (memory_service ps owner d timeout gs gb) (world_provider p) b oid t sid l s)
     (\<lambda>r w. \<exists>s'. r = Inr (mark_sandbox_operations_persisted s') \<and> quiet l d oid s' w
        \<and> started oid (binding_provider_id b) s'
        \<and> unat (session_version s') = Suc (Suc (unat (session_version cur))))"
  unfolding allocate_and_start_def
proof (rule delivers_try [where R = "\<lambda>r w. (\<exists>a. r = Inr a) \<and> quiet l d oid cur w"], goal_cases)
  case 1
  have answer: "\<exists>r y. run_state (provider_allocate p q) x = (Some r, y) \<and> (\<exists>a. r = Inr a)" for q x
    using assms(1) by (fastforce simp: cooperative_def)
  then show ?case
    by (simp add: world_provider_def) (rule delivers_weaken [OF quiet_execute [OF answer]], auto)
next
  case (2 r)
  have "int (Suc (unat (session_version cur))) \<le> i64_max" using assms(4) by linarith
  note succ = this version_succ [OF this]
  have bound: "int (unat (session_version cur + 1)) \<le> i64_max"
    "int (Suc (unat (session_version cur + 1))) \<le> i64_max"
    unfolding succ(3) using assms(4) succ(1) by linarith+
  have recorded: "delivers (quiet l d oid cur)
      (record_allocation (memory_service ps owner d timeout gs gb) (world_provider p)
        (set_sandbox_allocation_reference a b) t sid l s)
      (\<lambda>r w. r = Inr (mark_sandbox_operations_persisted (s\<lparr> session_runtime_binding :=
            Some (set_sandbox_allocation_reference a b),
            session_version := session_version cur + 1 \<rparr>))
         \<and> quiet l d oid (s\<lparr> session_runtime_binding :=
            Some (set_sandbox_allocation_reference a b),
            session_version := session_version cur + 1 \<rparr>) w)" for a
    unfolding record_allocation_def
  proof (rule delivers_bind [OF quiet_persist [where s' = "set_sandbox_runtime_binding
      (set_sandbox_allocation_reference a b) s"]], goal_cases)
    case 1
    then show ?case
      using pending_rebind [OF assms(2), of "Some (set_sandbox_allocation_reference a b)"]
      by (simp add: set_sandbox_runtime_binding_def pending_def)
  qed (use assms in \<open>auto simp: set_sandbox_runtime_binding_def delivers_def\<close>)
  show ?case
  proof (cases r)
    case (Inl e)
    then show ?thesis by (simp add: delivers_def)
  next
    case r: (Inr a)
    let ?b = "set_sandbox_allocation_reference a b"
    let ?s = "s\<lparr> session_runtime_binding := Some ?b, session_version := session_version cur + 1 \<rparr>"
    have pend: "pending l Start oid (mark_sandbox_operations_persisted ?s)"
      using pending_version [OF pending_rebind [OF assms(2), of "Some ?b"] bound(1)] by simp
    have start: "delivers (quiet l d oid ?s)
        (start_provider (memory_service ps owner d timeout gs gb) (world_provider p) ?b oid l
          (mark_sandbox_operations_persisted ?s))
        (\<lambda>r w. \<exists>s'. r = Inr (mark_sandbox_operations_persisted s') \<and> quiet l d oid s' w
          \<and> started oid (binding_provider_id ?b) s'
          \<and> unat (session_version s') = Suc (unat (session_version ?s)))"
      by (rule quiet_start_provider [OF assms(1) pend])
        (use bound in \<open>auto simp: mark_sandbox_operations_persisted_def
          set_sandbox_allocation_reference_def simp del: of_nat_Suc\<close>)
    show ?thesis
      unfolding r sum.case Let_def
    proof (rule delivers_try [where R = "\<lambda>s' w. s' = mark_sandbox_operations_persisted ?s
          \<and> quiet l d oid ?s w"], goal_cases)
      case 1
      show ?case by (rule delivers_fact, rule delivers_weaken [OF recorded]) auto
    next
      case (2 s')
      show ?case
        by (rule delivers_fact, simp only:, rule delivers_weaken [OF start])
          (use succ(3) in \<open>auto simp: set_sandbox_allocation_reference_def\<close>)
    qed
  qed
qed

lemma quiet_select:
  fixes ps :: "'p sandbox_provider list"
  assumes "cooperative p" "first_eligible qs s = Some p"
  shows "delivers (quiet l d oid cur)
     (select_loop (memory_service ps owner d timeout gs gb) s l found (map world_provider qs))
     (\<lambda>r w. r = Inr (world_provider p) \<and> quiet l d oid cur w)"
  using assms(2)
proof (induction qs)
  case (Cons q qs)
  have answer: "\<exists>r y. run_state (provider_health p) x = (Some r, y) \<and> r = Inr HealthReady" for x
    using assms(1) by (fastforce simp: cooperative_def)
  have "delivers (quiet l d oid cur)
      (execute_sandbox_provider_call (memory_service ps owner d timeout gs gb) (world_provider p)
        ProviderHealth l (provider_health (world_provider p)))
      (\<lambda>r w. r = Inr (Inr HealthReady) \<and> quiet l d oid cur w)"
    by (subst (2) world_provider_def, simp, rule delivers_weaken [OF quiet_execute [OF answer]], auto)
  note health = this
  have same: "provider_descriptor (world_provider q) = provider_descriptor q" by (simp add: world_provider_def)
  show ?case
  proof (cases "satisfies_sandbox_requirements (provider_descriptor q) (session_required_capabilities s)
      (session_minimum_assurance s)")
    case True
    then have "q = p" using Cons.prems by (simp add: first_eligible_def)
    have eligible: "satisfies_sandbox_requirements (provider_descriptor (world_provider p))
        (session_required_capabilities s) (session_minimum_assurance s)"
      using True same \<open>q = p\<close> by simp
    show ?thesis
      unfolding \<open>q = p\<close>
      by (simp add: eligible, rule delivers_bind [OF health]) (auto simp: delivers_def)
  next
    case False
    then show ?thesis using Cons by (simp add: first_eligible_def same)
  qed
qed (simp add: first_eligible_def)

lemma find_world_provider:
  "find (\<lambda>q. provider_id q = pid) (map world_provider ps) = map_option world_provider (registered_provider ps pid)"
  by (induction ps) (simp_all add: registered_provider_def world_provider_def)

text \<open>An allocation the session still holds is destroyed first.\<close>

lemma quiet_previous:
  fixes ps :: "'p sandbox_provider list"
  assumes "\<And>b. session_runtime_binding s = Some b \<Longrightarrow> binding_allocation_ref b \<noteq> None \<Longrightarrow>
      \<exists>q. registered_provider ps (binding_provider_id b) = Some q \<and> confirms_destroy q"
    and k: "delivers (quiet l d oid s) k Q"
  shows "delivers (quiet l d oid s) (start_previous (memory_service ps owner d timeout gs gb) oid l s k) Q"
proof (cases "\<exists>b. session_runtime_binding s = Some b \<and> binding_allocation_ref b \<noteq> None")
  case False
  then show ?thesis using k by (auto simp: start_previous_def split: option.split)
next
  case True
  then obtain b q where b: "session_runtime_binding s = Some b" "binding_allocation_ref b \<noteq> None"
    and q: "registered_provider ps (binding_provider_id b) = Some q" "confirms_destroy q"
    using assms(1) by blast
  let ?svc = "memory_service ps owner d timeout gs gb"
  have by_id: "sandbox_provider_by_id ?svc (binding_provider_id b) = Inr (world_provider q)"
    using q(1) by (simp add: sandbox_provider_by_id_def memory_service_def find_world_provider)
  have answer: "\<exists>r y. run_state (provider_destroy q x) z = (Some r, y) \<and> r = Inr ()" for x z
    using q(2) by (simp add: confirms_destroy_def)
  have destroy: "delivers (quiet l d oid s)
      (execute_sandbox_provider_call ?svc (world_provider q) ProviderDestroy l
        (provider_destroy (world_provider q) x))
      (\<lambda>r w. \<exists>a. r = Inr a \<and> a = Inr () \<and> quiet l d oid s w)" for x
    by (subst (2) world_provider_def, simp, rule delivers_weaken [OF quiet_execute [OF answer]], auto)
  show ?thesis
    unfolding start_previous_def b(1) option.case if_not_P [OF b(2)] by_id sum.case
    by (rule delivers_try [OF destroy], rule delivers_fact) (use k in simp)
qed

lemma quiet_begun:
  fixes ps :: "'p sandbox_provider list"
  assumes "cooperative p" "pending l Start oid s'" "session_version s' = session_version s"
    and version: "int (unat (session_version s) + 3) \<le> i64_max"
    and "operation_ids s' \<subseteq> insert oid (operation_ids s)"
    and "session_runtime_binding s' = Some b"
  shows "delivers (quiet l d oid s)
     (try_bind (persist_sandbox_session (memory_service ps owner d timeout gs gb) s' l)
       (allocate_and_start (memory_service ps owner d timeout gs gb) (world_provider p) b oid t sid l))
     (\<lambda>r w. \<exists>s'. r = Inr (mark_sandbox_operations_persisted s') \<and> quiet l d oid s' w
        \<and> started oid (binding_provider_id b) s'
        \<and> unat (session_version s') = unat (session_version s) + 3)"
proof -
  let ?svc = "memory_service ps owner d timeout gs gb"
  let ?s = "s'\<lparr> session_version := session_version s + 1 \<rparr>"
  have "int (Suc (unat (session_version s))) \<le> i64_max" using version by linarith
  note succ = this version_succ [OF this]
  have bound: "int (unat (session_version s + 1)) \<le> i64_max"
    "int (Suc (Suc (unat (session_version s + 1)))) \<le> i64_max"
    unfolding succ(3) using version by linarith+
  have "session_under l s'" using assms(2) by (simp add: pending_def)
  note save = quiet_persist [OF this assms(3) succ(1) assms(5)]
  have "delivers (quiet l d oid ?s)
      (allocate_and_start ?svc (world_provider p) b oid t sid l (mark_sandbox_operations_persisted ?s))
      (\<lambda>r w. \<exists>s'. r = Inr (mark_sandbox_operations_persisted s') \<and> quiet l d oid s' w
        \<and> started oid (binding_provider_id b) s'
        \<and> unat (session_version s') = Suc (Suc (unat (session_version ?s))))"
    by (rule quiet_allocate_and_start [OF assms(1) pending_version [OF assms(2) bound(1)]])
      (use bound assms(6) in \<open>auto simp: mark_sandbox_operations_persisted_def simp del: of_nat_Suc\<close>)
  note rest = this
  show ?thesis
  proof (rule delivers_try [where R = "\<lambda>a w. a = mark_sandbox_operations_persisted ?s
        \<and> quiet l d oid ?s w"], goal_cases)
    case 1
    show ?case by (rule delivers_weaken [OF save]) auto
  next
    case (2 a)
    show ?case
      by (rule delivers_fact, simp only:, rule delivers_weaken [OF rest]) (use succ(3) in auto)
  qed
qed

lemma quiet_start:
  fixes ps :: "'p sandbox_provider list"
  assumes "cooperative p" and runs_on: "start_runs_on ps s p"
    and s: "session_under l s" "startable (session_state s)"
    and fresh: "find_operation (command_operation_id c) (session_operations s) = None"
    and room: "length (session_operations s) < max_sandbox_session_operations"
    and version: "int (unat (session_version s) + 3) \<le> i64_max"
    and ids: "command_tenant_id c = lease_tenant_id l" "command_session_id c = lease_session_id l"
  shows "delivers (quiet l d (command_operation_id c) s)
     (start_sandbox_session_with_lease (memory_service ps owner d timeout gs gb) c l)
     (\<lambda>r w. \<exists>s'. r = Inr (mark_sandbox_operations_persisted s')
        \<and> quiet l d (command_operation_id c) s' w
        \<and> started (command_operation_id c) (provider_id p) s'
        \<and> unat (session_version s') = unat (session_version s) + 3)"
proof -
  let ?oid = "command_operation_id c"
  let ?svc = "memory_service ps owner d timeout gs gb"
  let ?Q = "\<lambda>r w. \<exists>s'. r = Inr (mark_sandbox_operations_persisted s') \<and> quiet l d ?oid s' w
      \<and> started ?oid (provider_id p) s' \<and> unat (session_version s') = unat (session_version s) + 3"
  have replay: "service_replay_operation s ?oid Start = Inr None"
    using fresh by (simp add: service_replay_operation_def session_replay_operation_def)
  have begun: "\<exists>s'. begin_and_transition ?oid Start Starting (set_sandbox_runtime_binding b s) = Inr s'
      \<and> session_version s' = session_version s
      \<and> operation_ids s' \<subseteq> insert ?oid (operation_ids s)" for b
    using room s(2)
    by (auto simp: begin_and_transition_def begin_sandbox_operation_def transition_sandbox_session_def
        set_sandbox_runtime_binding_def startable_def)
  have mid: "replayed_state (session_state s) Start InProgress = Some Starting"
    using s(2) by simp
  have run: "delivers (quiet l d ?oid s)
      (case begin_and_transition ?oid Start Starting (set_sandbox_runtime_binding b s) of
         Inl e \<Rightarrow> ret (Inl e)
       | Inr s' \<Rightarrow> try_bind (persist_sandbox_session ?svc s' l)
           (allocate_and_start ?svc (world_provider p) b ?oid (command_tenant_id c)
             (command_session_id c) l)) ?Q"
    if b: "binding_allocation_ref b = None" "binding_provider_id b = provider_id p" for b
  proof -
    obtain s' where s': "begin_and_transition ?oid Start Starting (set_sandbox_runtime_binding b s) = Inr s'"
      "session_version s' = session_version s" "operation_ids s' \<subseteq> insert ?oid (operation_ids s)"
      using begun by blast
    have "pending l Start ?oid s' \<and> session_runtime_binding s' = Some b"
      using begin_pending [OF s(1) fresh mid, of "Some b"] s'(1)
      by (simp add: set_sandbox_runtime_binding_def)
    then have "delivers (quiet l d ?oid s)
        (try_bind (persist_sandbox_session ?svc s' l)
          (allocate_and_start ?svc (world_provider p) b ?oid (command_tenant_id c)
            (command_session_id c) l)) ?Q"
      using quiet_begun [OF assms(1) _ s'(2) version s'(3), of l b] b by simp
    then show ?thesis by (simp add: s'(1))
  qed
  have registered: "service_providers ?svc = map world_provider ps"
    by (simp add: memory_service_def)
  have fresh_intent: "delivers (quiet l d ?oid s)
      (do { x \<leftarrow> service_generate_sandbox_id ?svc; y \<leftarrow> service_generate_binding_id ?svc;
            ret (sandbox_runtime_binding_new_intent x y (provider_id (world_provider p))) })
      (\<lambda>b w. (binding_allocation_ref b = None \<and> binding_provider_id b = provider_id p) \<and> quiet l d ?oid s w)"
    by (simp add: memory_service_def, intro delivers_bind [OF quiet_generate])
      (simp add: delivers_def sandbox_runtime_binding_new_intent_def world_provider_def)
  have intended: "delivers (quiet l d ?oid s) (start_intent ?svc (world_provider p) s)
      (\<lambda>b w. (binding_allocation_ref b = None \<and> binding_provider_id b = provider_id p) \<and> quiet l d ?oid s w)"
  proof (cases "\<exists>b. session_runtime_binding s = Some b \<and> binding_allocation_ref b = None")
    case True
    then show ?thesis
      using runs_on by (auto simp: start_intent_def start_runs_on_def delivers_def registered_provider_def find_Some_iff)
  next
    case False
    then show ?thesis using fresh_intent by (auto simp: start_intent_def split: option.split)
  qed
  have intent: "delivers (quiet l d ?oid s) (start_with_intent ?svc (world_provider p) c l s) ?Q"
    unfolding start_with_intent_def
    by (rule delivers_bind [OF intended], rule delivers_fact, elim conjE, rule run)
  have selected: "delivers (quiet l d ?oid s) (select_sandbox_provider ?svc s l)
      (\<lambda>r w. \<exists>q. r = Inr q \<and> q = world_provider p \<and> quiet l d ?oid s w)" if "first_eligible ps s = Some p"
    unfolding select_sandbox_provider_def registered
    by (rule delivers_weaken [OF quiet_select [OF assms(1) that]]) auto
  have chosen: "delivers (quiet l d ?oid s) (start_choose_provider ?svc s l)
      (\<lambda>r w. \<exists>q. r = Inr q \<and> q = world_provider p \<and> quiet l d ?oid s w)"
    using runs_on selected unfolding start_choose_provider_def start_runs_on_def
    by (auto simp: delivers_def sandbox_provider_by_id_def registered find_world_provider split: option.splits if_splits)
  have previous: "delivers (quiet l d ?oid s) (start_previous ?svc ?oid l s (start_with_intent ?svc (world_provider p) c l s)) ?Q"
    by (rule quiet_previous [OF _ intent]) (use runs_on in \<open>auto simp: start_runs_on_def\<close>)
  have body: "delivers (quiet l d ?oid s) (try_bind (start_choose_provider ?svc s l)
      (\<lambda>q. start_previous ?svc ?oid l s (start_with_intent ?svc q c l s))) ?Q"
    by (rule delivers_try [OF chosen], rule delivers_fact) (use previous in simp)
  show ?thesis
    unfolding start_sandbox_session_with_lease_def ids
  proof (rule delivers_try [where R = "\<lambda>a w. a = s \<and> quiet l d ?oid s w"], goal_cases)
    case 1
    show ?case by (rule delivers_weaken [OF quiet_get]) auto
  next
    case (2 a)
    show ?case
      by (rule delivers_fact) (use body replay s(2) in simp)
  qed
qed

lemma quiet_release:
  fixes w :: "'p memory_world"
  assumes "quiet l d oid s w"
  shows "\<exists>w'. run_state (release_service_lease (memory_service ps owner d timeout gs gb) l (Inr a)) w
      = (Inr a, w')
    \<and> lookup_session (lease_tenant_id l) (lease_session_id l) (world_store w') = Some s"
  using assms release_stands [of l d "world_now w" "world_wall w" "world_store w"]
  by (auto simp: release_service_lease_def memory_service_def memory_port_def quiet_call quiet_def
      lookup_session_def split: prod.splits)

lemma quiet_command:
  fixes w :: "'p memory_world"
  assumes "world_ok w" "world_agenda w = []"
    and "lookup_session (command_tenant_id c) (command_session_id c) (world_store w) = Some s"
    and "repository_operations (world_store w) (command_tenant_id c, command_operation_id c) = None"
    and lease: "memory_acquire_lease (command_tenant_id c) (command_session_id c) owner d (world_now w)
      (world_wall w) (world_store w) = (Inr (Some l), r1)"
    and body: "delivers (quiet l d (command_operation_id c) s) (body l) (\<lambda>r w. \<exists>s'.
      r = Inr (mark_sandbox_operations_persisted s') \<and> quiet l d (command_operation_id c) s' w \<and> A s')"
  shows "\<exists>s' w'. run_state (with_service_lease (memory_service ps owner d timeout gs gb) c body) w
      = (Inr (mark_sandbox_operations_persisted s'), w')
    \<and> lookup_session (command_tenant_id c) (command_session_id c) (world_store w') = Some s' \<and> A s'"
proof -
  note l = acquire_stands [OF lease]
  let ?w = "w\<lparr> world_store := r1 \<rparr>"
  have acquired: "run_state (acquire_service_lease (memory_service ps owner d timeout gs gb)
      (command_tenant_id c) (command_session_id c)) w = (Inr l, ?w)"
    using assms(2) lease by (simp add: acquire_service_lease_def try_bind_def repository_question_def
        memory_service_def memory_port_def quiet_call)
  have "quiet l d (command_operation_id c) s ?w"
    using assms(1-4) l repository_okD(3) [of "world_store w"]
    by (fastforce simp: quiet_def world_ok_def lookup_session_def session_filed_def)
  then obtain s' w2 where s': "run_state (body l) ?w = (Inr (mark_sandbox_operations_persisted s'), w2)"
    "quiet l d (command_operation_id c) s' w2" "A s'"
    using body unfolding delivers_def by (fastforce split: prod.splits)
  then show ?thesis
    using quiet_release [OF s'(2), of ps owner timeout gs gb "mark_sandbox_operations_persisted s'"] l(2,3)
    by (auto simp: with_service_lease_def try_bind_def acquired)
qed

lemma quiet_start_command:
  fixes ps :: "'p sandbox_provider list"
  assumes "world_ok w" "world_agenda w = []"
    and "lookup_session (command_tenant_id c) (command_session_id c) (world_store w) = Some s"
    and "startable (session_state s)" "start_runs_on ps s p" "cooperative p"
    and "repository_operations (world_store w) (command_tenant_id c, command_operation_id c) = None"
    and "length (session_operations s) < max_sandbox_session_operations"
    and "int (unat (session_version s) + 3) \<le> i64_max"
    and lease: "memory_acquire_lease (command_tenant_id c) (command_session_id c) owner d (world_now w)
      (world_wall w) (world_store w) = (Inr (Some l), r1)"
  shows "\<exists>s' w'. run_state (start_sandbox_session (memory_service ps owner d timeout gs gb) c) w
      = (Inr (mark_sandbox_operations_persisted s'), w')
    \<and> lookup_session (command_tenant_id c) (command_session_id c) (world_store w') = Some s'
    \<and> started (command_operation_id c) (provider_id p) s'
    \<and> unat (session_version s') = unat (session_version s) + 3"
proof -
  note l = acquire_stands [OF lease]
  have filed: "session_filed (world_store w) (command_tenant_id c) (command_session_id c) s"
    using repository_okD(3) [OF assms(1) [unfolded world_ok_def] assms(3)] .
  then have "session_under l s" "find_operation (command_operation_id c) (session_operations s) = None"
    using l(2,3) assms(7) by (auto simp: session_filed_def session_under_def find_operation_None)
  then have "delivers (quiet l d (command_operation_id c) s)
      (start_sandbox_session_with_lease (memory_service ps owner d timeout gs gb) c l)
      (\<lambda>r w. \<exists>s'. r = Inr (mark_sandbox_operations_persisted s')
         \<and> quiet l d (command_operation_id c) s' w
         \<and> started (command_operation_id c) (provider_id p) s'
         \<and> unat (session_version s') = unat (session_version s) + 3)"
    using assms(4-6,8-9) l(2,3) by (intro quiet_start) simp_all
  then show ?thesis
    using quiet_command [OF assms(1-3,7) lease]
    unfolding start_sandbox_session_def by fastforce
qed

section \<open>Create\<close>

lemma quiet_find:
  assumes "world_agenda w = []"
  shows "run_state (repository_question (repo_find memory_port t oid)) w
    = (Inr (case repository_operations (world_store w) (t, oid) of None \<Rightarrow> None
         | Some sid \<Rightarrow> lookup_session t sid (world_store w)), w)"
  using assms by (simp add: repository_question_def memory_port_def quiet_call
      memory_find_by_sandbox_operation_def split: option.split)

text \<open>A create of an operation that is on record answers from the record.\<close>

lemma quiet_create_recorded:
  assumes "world_agenda w = []" "repository_operations (world_store w) (create_tenant_id c, create_operation_id c) = Some sid"
    and "lookup_session (create_tenant_id c) sid (world_store w) = Some s"
  shows "run_state (create_sandbox_session (memory_service ps owner d timeout gs gb) c) w
    = (create_existing c s, w)"
  using assms(2,3)
  by (simp add: create_sandbox_session_def memory_service_def try_bind_def quiet_find [OF assms(1)])

lemma quiet_create_fresh:
  assumes "world_agenda w = []" "repository_operations (world_store w) (create_tenant_id c, create_operation_id c) = None"
    and "run_state (create_sandbox_session (memory_service ps owner d timeout gs gb) c) w = (Inr s, w')"
  obtains s0 where "s = mark_sandbox_operations_persisted s0" "session_id s0 = create_session_id c"
    "session_tenant_id s0 = create_tenant_id c"
    "matches_create s0 (create_workspace_id c) (create_session_id c) (create_capabilities c)
       (create_assurance c)"
    "world_agenda w' = []"
    "repository_operations (world_store w') (create_tenant_id c, create_operation_id c)
       = Some (create_session_id c)"
    "lookup_session (create_tenant_id c) (create_session_id c) (world_store w') = Some s0"
proof -
  let ?s = "sandbox_session_create (create_tenant_id c) (create_workspace_id c) (create_session_id c)
    (create_operation_id c) (create_capabilities c) (create_assurance c)"
  have inserted: "run_state (repo_insert memory_port ?s) w =
      (case memory_insert_sandbox_session ?s (world_store w) of (r, st) \<Rightarrow> (r, w\<lparr> world_store := st \<rparr>))"
    using assms(1) by (simp add: memory_port_def quiet_call)
  have reread: "\<And>e y. run_state (create_reread (memory_service ps owner d timeout gs gb) c e) w \<noteq> (Inr s, y)"
    using assms(1,2)
    by (simp add: create_reread_def memory_service_def try_bind_def quiet_find)
  have admissible: "insert_admissible ?s (world_store w)"
  proof (rule ccontr)
    assume "\<not> insert_admissible ?s (world_store w)"
    then have "memory_insert_sandbox_session ?s (world_store w)
        = (fst (memory_insert_sandbox_session ?s (world_store w)), world_store w)"
      "fst (memory_insert_sandbox_session ?s (world_store w)) \<noteq> Inr ()"
      using insert_result [of ?s "world_store w"] insert_ok_iff [of ?s "world_store w"] by simp_all
    then obtain e where "memory_insert_sandbox_session ?s (world_store w) = (Inl e, world_store w)"
      by (cases "fst (memory_insert_sandbox_session ?s (world_store w))") auto
    then show False
      using assms(2,3) reread inserted
      by (auto simp: create_sandbox_session_def try_bind_def quiet_find [OF assms(1)]
          memory_service_def Let_def split: if_splits)
  qed
  then have "s = mark_sandbox_operations_persisted ?s"
    "w' = w\<lparr> world_store := snd (memory_insert_sandbox_session ?s (world_store w)) \<rparr>"
    using assms(2,3) inserted insert_result [of ?s "world_store w"]
    by (auto simp: create_sandbox_session_def try_bind_def quiet_find [OF assms(1)]
        memory_service_def Let_def)
  then show ?thesis
    using that [of ?s] assms(1) admissible insert_result [of ?s "world_store w"]
    by (simp add: sandbox_session_create_def matches_create_def store_simps)
qed

end
