(* ===== verification/Service_Mirror.thy ===== *)
theory Service_Mirror
  imports Service_Log
begin

text \<open>
  Observation is transparent: a command of the observed service answers as the command of the service
  itself and leaves the same world; it only appends events.
\<close>

definition mirrors ::
  "('a \<Rightarrow> 'b \<Rightarrow> bool) \<Rightarrow> ('w, 'a) state \<Rightarrow> ('w \<times> lifecycle_event list, 'b) state \<Rightarrow> bool" where
  "mirrors R m m' \<longleftrightarrow> (\<forall>w ev. case run_state m w of (r, w') \<Rightarrow>
     \<exists>r' evs. run_state m' (w, ev) = (r', (w', ev @ evs)) \<and> R r r')"

named_theorems mirror_rules \<open>transparency of the service's building blocks\<close>

lemma mirrors_ret [mirror_rules]: "R a b \<Longrightarrow> mirrors R (ret a) (ret b)"
  by (simp add: mirrors_def)

lemma mirrorsD:
  "mirrors R m m' \<Longrightarrow> run_state m w = (r, w') \<Longrightarrow>
     \<exists>r' evs. run_state m' (w, ev) = (r', (w', ev @ evs)) \<and> R r r'"
  unfolding mirrors_def by (drule spec [of _ w], drule spec [of _ ev], simp)

lemma mirrorsI:
  "(\<And>w ev r w'. run_state m w = (r, w') \<Longrightarrow>
     \<exists>r' evs. run_state m' (w, ev) = (r', (w', ev @ evs)) \<and> R r r') \<Longrightarrow> mirrors R m m'"
  by (simp add: mirrors_def split: prod.split)

lemma mirrors_bind:
  assumes "mirrors R m m'" "\<And>a b. R a b \<Longrightarrow> mirrors S (k a) (k' b)"
  shows "mirrors S (State_Monad.bind m k) (State_Monad.bind m' k')"
proof (rule mirrorsI)
  fix w ev r w2 assume run: "run_state (State_Monad.bind m k) w = (r, w2)"
  obtain a w1 where 1: "run_state m w = (a, w1)" by force
  obtain b e1 where 2: "run_state m' (w, ev) = (b, (w1, ev @ e1))" "R a b"
    using mirrorsD [OF assms(1) 1] by blast
  have "run_state (k a) w1 = (r, w2)" using run 1 by simp
  from mirrorsD [OF assms(2) [OF 2(2)] this]
  obtain r' e2 where "run_state (k' b) (w1, ev @ e1) = (r', (w2, (ev @ e1) @ e2))" "S r r'"
    by blast
  then show "\<exists>r' evs. run_state (State_Monad.bind m' k') (w, ev) = (r', (w2, ev @ evs)) \<and> S r r'"
    using 2(1) by simp
qed

lemma mirrors_eq_bind [mirror_rules]:
  assumes "mirrors (=) m m'" "\<And>a. mirrors S (k a) (k' a)"
  shows "mirrors S (State_Monad.bind m k) (State_Monad.bind m' k')"
  using mirrors_bind [OF assms(1)] assms(2) by blast

lemma mirrors_try:
  assumes "mirrors (rel_sum (=) R) m m'" "\<And>a b. R a b \<Longrightarrow> mirrors (rel_sum (=) S) (k a) (k' b)"
  shows "mirrors (rel_sum (=) S) (try_bind m k) (try_bind m' k')"
  unfolding try_bind_def
  by (rule mirrors_bind [OF assms(1)]) (auto elim!: rel_sum.cases intro!: mirrors_ret assms(2))

lemma mirrors_eq_try [mirror_rules]:
  assumes "mirrors (=) m m'" "\<And>a. mirrors (=) (k a) (k' a)"
  shows "mirrors (=) (try_bind m k) (try_bind m' k')"
  unfolding try_bind_def
  by (rule mirrors_eq_bind [OF assms(1)]) (auto intro!: mirrors_ret assms(2) split: sum.splits)

lemma mirrors_observed [mirror_rules]: "mirrors (=) m (observed m ev)"
  by (auto simp: mirrors_def observed_def split: prod.splits)

lemma observed_fields [simp]:
  "service_lease_owner (observed_service svc) = service_lease_owner svc"
  "service_lease_duration (observed_service svc) = service_lease_duration svc"
  "provider_descriptor (observed_provider p) = provider_descriptor p"
  by (simp_all add: observed_service_def observed_provider_def)

lemma mirrors_ports [mirror_rules]:
  "mirrors (=) (repo_find (service_repository svc) t oid) (repo_find (service_repository (observed_service svc)) t oid)"
  "mirrors (=) (repo_get (service_repository svc) t sid) (repo_get (service_repository (observed_service svc)) t sid)"
  "mirrors (=) (repo_save (service_repository svc) s v l) (repo_save (service_repository (observed_service svc)) s v l)"
  "mirrors (=) (repo_acquire (service_repository svc) t sid ow d) (repo_acquire (service_repository (observed_service svc)) t sid ow d)"
  "mirrors (=) (repo_renew (service_repository svc) l d) (repo_renew (service_repository (observed_service svc)) l d)"
  "mirrors (=) (repo_release (service_repository svc) l) (repo_release (service_repository (observed_service svc)) l)"
  "mirrors (=) (repo_list (service_repository svc) t a n) (repo_list (service_repository (observed_service svc)) t a n)"
  "mirrors (=) (service_generate_sandbox_id svc) (service_generate_sandbox_id (observed_service svc))"
  "mirrors (=) (service_generate_binding_id svc) (service_generate_binding_id (observed_service svc))"
  "mirrors (=) (provider_health p) (provider_health (observed_provider p))"
  "mirrors (=) (provider_allocate p q1) (provider_allocate (observed_provider p) q1)"
  "mirrors (=) (provider_start p q2) (provider_start (observed_provider p) q2)"
  "mirrors (=) (provider_stop p q3) (provider_stop (observed_provider p) q3)"
  "mirrors (=) (provider_destroy p q4) (provider_destroy (observed_provider p) q4)"
  by (simp_all add: observed_service_def observed_port_def observed_provider_def mirrors_observed)

lemma mirrors_sum [mirror_rules]:
  "(\<And>e. x = Inl e \<Longrightarrow> mirrors R (f e) (f' e)) \<Longrightarrow> (\<And>a. x = Inr a \<Longrightarrow> mirrors R (g a) (g' a)) \<Longrightarrow>
     mirrors R (case x of Inl e \<Rightarrow> f e | Inr a \<Rightarrow> g a) (case x of Inl e \<Rightarrow> f' e | Inr a \<Rightarrow> g' a)"
  by (cases x) simp_all

lemma mirrors_map_sum [mirror_rules]:
  "(\<And>e. x = Inl e \<Longrightarrow> mirrors R (f e) (f' e)) \<Longrightarrow> (\<And>a. x = Inr a \<Longrightarrow> mirrors R (g a) (g' (h a))) \<Longrightarrow>
     mirrors R (case x of Inl e \<Rightarrow> f e | Inr a \<Rightarrow> g a)
       (case map_sum id h x of Inl e \<Rightarrow> f' e | Inr a \<Rightarrow> g' a)"
  by (cases x) simp_all

lemma mirrors_option [mirror_rules]:
  "(x = None \<Longrightarrow> mirrors R f f') \<Longrightarrow> (\<And>a. x = Some a \<Longrightarrow> mirrors R (g a) (g' a)) \<Longrightarrow>
     mirrors R (case x of None \<Rightarrow> f | Some a \<Rightarrow> g a) (case x of None \<Rightarrow> f' | Some a \<Rightarrow> g' a)"
  by (cases x) simp_all

lemma mirrors_prod [mirror_rules]:
  "(\<And>a b. x = (a, b) \<Longrightarrow> mirrors R (f a b) (f' a b)) \<Longrightarrow>
     mirrors R (case x of (a, b) \<Rightarrow> f a b) (case x of (a, b) \<Rightarrow> f' a b)"
  by (cases x) simp

lemma mirrors_if [mirror_rules]:
  "(b \<Longrightarrow> mirrors R f f') \<Longrightarrow> (\<not> b \<Longrightarrow> mirrors R g g') \<Longrightarrow>
     mirrors R (if b then f else g) (if b then f' else g')"
  by simp

lemma mirrors_execute [mirror_rules]:
  "mirrors (=) call call' \<Longrightarrow> mirrors (=) (execute_sandbox_provider_call svc p op l call)
     (execute_sandbox_provider_call (observed_service svc) (observed_provider p) op l call')"
  unfolding execute_sandbox_provider_call_def observed_fields
  by (intro mirror_rules refl) auto

lemma mirrors_basics [mirror_rules]:
  "mirrors (=) (service_get_session svc t sid) (service_get_session (observed_service svc) t sid)"
  "mirrors (=) (acquire_service_lease svc t sid) (acquire_service_lease (observed_service svc) t sid)"
  "mirrors (=) (release_service_lease svc l r) (release_service_lease (observed_service svc) l r)"
  "mirrors (=) (persist_sandbox_session svc s l) (persist_sandbox_session (observed_service svc) s l)"
  unfolding service_get_session_def acquire_service_lease_def release_service_lease_def
    persist_sandbox_session_def repository_question_def observed_fields
  by (intro mirror_rules refl)+

lemma mirrors_flows [mirror_rules]:
  "mirrors (=) (fail_with_sandbox_provider_error svc s oid k f perr l)
     (fail_with_sandbox_provider_error (observed_service svc) s oid k f perr l)"
  "mirrors (=) (settle_operation svc st k oid l s) (settle_operation (observed_service svc) st k oid l s)"
  "mirrors (=) (reject_readiness svc p oid l s)
     (reject_readiness (observed_service svc) (observed_provider p) oid l s)"
  unfolding fail_with_sandbox_provider_error_def settle_operation_def reject_readiness_def observed_fields
  by (intro mirror_rules refl)+

lemma mirrors_cleanup [mirror_rules]:
  "(\<And>s. mirrors (=) (k s) (k' s)) \<Longrightarrow> mirrors (=) (cleanup_started svc p b oid l s k)
     (cleanup_started (observed_service svc) (observed_provider p) b oid l s k')"
  unfolding cleanup_started_def by (intro mirror_rules refl)

lemma mirrors_start_provider [mirror_rules]:
  "mirrors (=) (start_provider svc p b oid l s)
     (start_provider (observed_service svc) (observed_provider p) b oid l s)"
  "mirrors (=) (stop_provider svc p b oid l s)
     (stop_provider (observed_service svc) (observed_provider p) b oid l s)"
  "mirrors (=) (record_allocation svc p b t sid l s)
     (record_allocation (observed_service svc) (observed_provider p) b t sid l s)"
  unfolding start_provider_def stop_provider_def record_allocation_def
  by (intro mirror_rules refl)+

lemma mirrors_allocate [mirror_rules]:
  "mirrors (=) (allocate_and_start svc p b oid t sid l s)
     (allocate_and_start (observed_service svc) (observed_provider p) b oid t sid l s)"
  unfolding allocate_and_start_def Let_def by (intro mirror_rules refl)

lemma find_map_some: "find P (map f xs) = map_option f (find (\<lambda>x. P (f x)) xs)"
  by (induction xs) auto

lemma provider_by_id_observed:
  "sandbox_provider_by_id (observed_service svc) pid
     = map_sum id observed_provider (sandbox_provider_by_id svc pid)"
  by (simp add: sandbox_provider_by_id_def observed_service_def find_map_some split: option.split)

lemma destroy_target_observed:
  "destroy_target (observed_service svc) s
     = map_sum id (map_option (map_prod observed_provider id)) (destroy_target svc s)"
  by (simp add: destroy_target_def provider_by_id_observed split: option.split sum.split)

lemma mirrors_select:
  "mirrors (rel_sum (=) (\<lambda>p q. q = observed_provider p)) (select_loop svc s l found ps)
     (select_loop (observed_service svc) s l found (map observed_provider ps))"
proof (induction ps arbitrary: found)
  case (Cons p ps)
  then show ?case
    by (auto intro!: mirrors_if mirrors_eq_bind mirrors_execute mirrors_sum mirrors_ports mirrors_ret)
qed (auto intro: mirrors_ret)

lemma mirrors_choose:
  "mirrors (rel_sum (=) (\<lambda>p q. q = observed_provider p)) (start_choose_provider svc s l)
     (start_choose_provider (observed_service svc) s l)"
proof -
  have "mirrors (rel_sum (=) (\<lambda>p q. q = observed_provider p)) (select_sandbox_provider svc s l)
      (select_sandbox_provider (observed_service svc) s l)"
    using mirrors_select [of svc s l False "service_providers svc"]
    by (simp add: select_sandbox_provider_def) (simp add: observed_service_def)
  moreover have "rel_sum (=) (\<lambda>p q. q = observed_provider p) x (map_sum id observed_provider x)" for x
    by (cases x) simp_all
  ultimately show ?thesis
    unfolding start_choose_provider_def provider_by_id_observed
    by (intro mirrors_option mirrors_if mirrors_ret)
qed

lemma mirrors_previous:
  "mirrors (=) k k' \<Longrightarrow> mirrors (=) (start_previous svc oid l s k)
     (start_previous (observed_service svc) oid l s k')"
  unfolding start_previous_def provider_by_id_observed
  by (auto intro!: mirror_rules split: option.split sum.split)

lemma mirrors_with_intent:
  "mirrors (=) (start_with_intent svc p c l s)
     (start_with_intent (observed_service svc) (observed_provider p) c l s)"
  unfolding start_with_intent_def start_intent_def observed_fields by (intro mirror_rules refl)

lemma mirrors_destroy_provider [mirror_rules]:
  "mirrors (=) (destroy_provider svc target oid l s)
     (destroy_provider (observed_service svc) (map_option (map_prod observed_provider id) target) oid l s)"
  unfolding destroy_provider_def
  by (auto intro!: mirror_rules split: option.split prod.split)

lemma mirrors_commands:
  "mirrors (=) (start_sandbox_session_with_lease svc c l)
     (start_sandbox_session_with_lease (observed_service svc) c l)"
  "mirrors (=) (stop_sandbox_session_with_lease svc c l)
     (stop_sandbox_session_with_lease (observed_service svc) c l)"
  "mirrors (=) (destroy_sandbox_session_with_lease svc c l)
     (destroy_sandbox_session_with_lease (observed_service svc) c l)"
proof -
  have "mirrors (rel_sum (=) (=))
      (try_bind (start_choose_provider svc s l)
        (\<lambda>p. start_previous svc oid l s (start_with_intent svc p c l s)))
      (try_bind (start_choose_provider (observed_service svc) s l)
        (\<lambda>p. start_previous (observed_service svc) oid l s
          (start_with_intent (observed_service svc) p c l s)))" for s oid
    by (rule mirrors_try [OF mirrors_choose])
      (auto simp: sum.rel_eq intro: mirrors_previous mirrors_with_intent)
  then show "mirrors (=) (start_sandbox_session_with_lease svc c l)
     (start_sandbox_session_with_lease (observed_service svc) c l)"
    unfolding start_sandbox_session_with_lease_def sum.rel_eq by (intro mirror_rules refl)
  show "mirrors (=) (stop_sandbox_session_with_lease svc c l)
     (stop_sandbox_session_with_lease (observed_service svc) c l)"
    unfolding stop_sandbox_session_with_lease_def provider_by_id_observed
    by (auto intro!: mirror_rules split: option.split sum.split)
  show "mirrors (=) (destroy_sandbox_session_with_lease svc c l)
     (destroy_sandbox_session_with_lease (observed_service svc) c l)"
    unfolding destroy_sandbox_session_with_lease_def destroy_target_observed
    by (intro mirror_rules refl)
qed

text \<open>The whole command, under its lease.\<close>

lemma mirrors_with_lease:
  "(\<And>l. mirrors (=) (body l) (body' l)) \<Longrightarrow>
     mirrors (=) (with_service_lease svc c body) (with_service_lease (observed_service svc) c body')"
  unfolding with_service_lease_def by (intro mirror_rules)

lemma command_mirrors:
  "mirrors (=) (start_sandbox_session svc c) (start_sandbox_session (observed_service svc) c)"
  "mirrors (=) (stop_sandbox_session svc c) (stop_sandbox_session (observed_service svc) c)"
  "mirrors (=) (destroy_sandbox_session svc c) (destroy_sandbox_session (observed_service svc) c)"
  unfolding start_sandbox_session_def stop_sandbox_session_def destroy_sandbox_session_def
  by (intro mirrors_with_lease mirrors_commands)+

lemma observed_run:
  assumes "mirrors (=) m m'" "run_state m w = (r, w')"
  obtains evs where "run_state m' (w, []) = (r, (w', evs))"
  using mirrorsD [OF assms, of "[]"] by auto

end
