(* ===== verification/Service_Scenario.thy ===== *)
theory Service_Scenario
  imports Service_Quiet Service_Mirror Session_Scenario
begin

text \<open>A cooperative provider, a quiet world with one stored session and a start for it.\<close>

definition demo_provider :: "unit sandbox_provider" where
  "demo_provider = \<lparr> provider_descriptor = \<lparr> descriptor_provider_id = ''p1'',
       descriptor_provider_kind = ''local'', descriptor_capabilities = {Terminal},
       descriptor_assurance = MicroVm \<rparr>,
     provider_health = ret (Some (Inr HealthReady)),
     provider_allocate = (\<lambda>q. ret (Some (Inr ''ref''))),
     provider_start = (\<lambda>q. ret (Some (Inr \<lparr> provider_ready = True, policy_enforced = True,
       workspace_attached = True \<rparr>))),
     provider_stop = (\<lambda>q. ret (Some (Inr ()))),
     provider_destroy = (\<lambda>q. ret (Some (Inr ()))) \<rparr>"

definition demo_world :: "unit memory_world" where
  "demo_world = \<lparr> world_store = demo_store, world_now = 0, world_wall = 1, world_agenda = [],
     world_providers = () \<rparr>"

definition demo_service :: "unit memory_world lifecycle_service" where
  "demo_service = memory_service [demo_provider] ''a'' 1000000 500000 (ret ''box'') (ret ''bind'')"

definition demo_command :: "operation_id \<Rightarrow> lifecycle_command" where
  "demo_command oid = \<lparr> command_tenant_id = ''t1'', command_session_id = ''s1'',
     command_operation_id = oid \<rparr>"

lemma demo_cooperative: "cooperative demo_provider"
  by (simp add: cooperative_def demo_provider_def is_sandbox_running_ready_def)

lemma demo_eligible:
  "satisfies_sandbox_requirements (provider_descriptor demo_provider)
     (session_required_capabilities demo_session) (session_minimum_assurance demo_session)"
  by (simp add: satisfies_sandbox_requirements_def demo_provider_def demo_session_def
      sandbox_session_create_def less_eq_isolation_assurance_def)

lemma demo_world_fields [simp]:
  "world_store demo_world = demo_store" "world_now demo_world = 0" "world_wall demo_world = 1"
  "world_agenda demo_world = []"
  by (simp_all add: demo_world_def)

lemma demo_command_fields [simp]:
  "command_tenant_id (demo_command oid) = ''t1''" "command_session_id (demo_command oid) = ''s1''"
  "command_operation_id (demo_command oid) = oid"
  by (simp_all add: demo_command_def)

lemma demo_startable:
  "startable (session_state demo_session)" "session_runtime_binding demo_session = None"
  "length (session_operations demo_session) < max_sandbox_session_operations"
  "int (unat (session_version demo_session) + 3) \<le> i64_max"
  by (simp_all add: startable_def demo_session_def sandbox_session_create_def
      max_sandbox_session_operations_def i64_max_def)

lemma demo_runs_on: "start_runs_on [demo_provider] demo_session demo_provider"
  using demo_startable demo_eligible by (simp add: start_runs_on_def first_eligible_def)

text \<open>The start, observed: it reaches \<open>Running\<close> and writes to its ports.\<close>

lemma demo_start_run:
  "\<exists>s' w'. run_state (start_sandbox_session demo_service (demo_command ''op2'')) demo_world
      = (Inr (mark_sandbox_operations_persisted s'), w') \<and> started ''op2'' ''p1'' s'"
  using quiet_start_command [of demo_world "demo_command ''op2''" demo_session "[demo_provider]" demo_provider
      "''a''" 1000000 _ _ 500000 "ret ''box''" "ret ''bind''"]
    demo_store_reachable demo_acquire demo_startable demo_cooperative demo_runs_on
    session_store.reachable_inv [OF demo_store_reachable]
  by (auto simp: demo_service_def demo_provider_def world_ok_def)

lemma demo_start:
  obtains s w' evs where "run_state (start_sandbox_session (observed_service demo_service)
      (demo_command ''op2'')) (demo_world, []) = (Inr s, (w', evs))"
    "session_state s = Running"
proof -
  obtain s' w' where "run_state (start_sandbox_session demo_service (demo_command ''op2'')) demo_world
      = (Inr (mark_sandbox_operations_persisted s'), w')" "started ''op2'' ''p1'' s'"
    using demo_start_run by blast
  moreover from this(1) obtain evs where "run_state (start_sandbox_session (observed_service demo_service)
      (demo_command ''op2'')) (demo_world, []) = (Inr (mark_sandbox_operations_persisted s'), (w', evs))"
    by (rule observed_run [OF command_mirrors(1)])
  moreover have "session_state (mark_sandbox_operations_persisted s') = session_state s'"
    by (simp add: mark_sandbox_operations_persisted_def)
  ultimately show ?thesis using that by (simp add: started_def)
qed

text \<open>A session that its controller left \<open>Starting\<close>, its lease still running.\<close>

definition demo_interrupted :: "unit memory_world" where
  "demo_interrupted = demo_world\<lparr> world_store := store_session demo_started demo_leased \<rparr>"

lemma demo_started_fields [simp]:
  "session_tenant_id demo_started = ''t1''" "session_id demo_started = ''s1''"
  "session_state demo_started = Starting"
  by (simp_all add: demo_started_def)

lemma demo_store_sessions: "repository_sessions demo_store = [(''t1'', [(''s1'', demo_session)])]"
proof -
  have "insert_admissible demo_session empty_repository"
    by (simp add: insert_admissible_def empty_repository_def lookup_session_def btm_get_def)
  then show ?thesis
    by (simp add: demo_store_def insert_result store_session_def empty_repository_def btm_get_def)
qed

lemma demo_interrupted_sessions:
  "repository_sessions (world_store demo_interrupted) = [(''t1'', [(''s1'', demo_started)])]"
  by (simp add: demo_interrupted_def store_session_def demo_leased_def store_simps demo_store_sessions
      btm_get_def)

lemma demo_reconcile:
  "run_state (reconcile_sandbox_sessions demo_service ''t1'' None 2) demo_interrupted
     = (Inr \<lparr> page_items = [(''s1'', Starting, ReconcileLeaseUnavailable)], page_next = None \<rparr>,
        demo_interrupted)"
proof -
  have agenda: "world_agenda demo_interrupted = []" by (simp add: demo_interrupted_def)
  have listed: "memory_list_requiring_reconciliation ''t1'' None 2 (world_store demo_interrupted)
      = Inr [(''s1'', Starting)]"
    by (simp add: memory_list_requiring_reconciliation_def demo_interrupted_sessions btm_get_def
        collect_sandbox_reconciliation_page_def)
  have busy: "memory_acquire_lease ''t1'' ''s1'' ''a'' 1000000 (world_now demo_interrupted)
      (world_wall demo_interrupted) (world_store demo_interrupted)
      = (Inr None, world_store demo_interrupted)"
    by (simp add: memory_acquire_lease_def demo_interrupted_def sandbox_lease_duration_millis_def
        store_simps demo_leased_def demo_memory_lease_def)
  show ?thesis
    by (simp add: reconcile_sandbox_sessions_def demo_service_def memory_service_def memory_port_def
        try_bind_def repository_question_def quiet_call agenda listed reconcile_cursor_def
        reconcile_item_def busy)
qed

text \<open>The create that put the session there.\<close>

definition demo_create :: "runtime_capability set \<Rightarrow> create_session_command" where
  "demo_create caps = \<lparr> create_tenant_id = ''t1'', create_workspace_id = ''w1'',
     create_session_id = ''s1'', create_operation_id = ''op1'', create_capabilities = caps,
     create_assurance = Container \<rparr>"

lemma demo_create_fields [simp]:
  "create_tenant_id (demo_create caps) = ''t1''" "create_session_id (demo_create caps) = ''s1''"
  "create_workspace_id (demo_create caps) = ''w1''" "create_operation_id (demo_create caps) = ''op1''"
  "create_capabilities (demo_create caps) = caps" "create_assurance (demo_create caps) = Container"
  by (simp_all add: demo_create_def)

lemma demo_created:
  "run_state (create_sandbox_session demo_service (demo_create {Terminal}))
       (demo_world\<lparr> world_store := empty_repository \<rparr>)
     = (Inr (mark_sandbox_operations_persisted demo_session), demo_world)"
proof -
  have "world_agenda (demo_world\<lparr> world_store := empty_repository \<rparr>) = []" by simp
  note found = quiet_find [OF this]
  have none: "repository_operations empty_repository k = None" for k
    by (simp add: empty_repository_def)
  have insert: "run_state (repo_insert memory_port demo_session)
      (demo_world\<lparr> world_store := empty_repository \<rparr>) = (Inr (), demo_world)"
    using demo_insert by (simp add: memory_port_def quiet_call demo_world_def)
  show ?thesis
    using insert
    by (simp add: create_sandbox_session_def demo_service_def memory_service_def try_bind_def found
        none Let_def flip: demo_session_def)
qed

end
