(* ===== verification/Service_Properties.thy ===== *)
theory Service_Properties
  imports Service_Scenario
begin

text \<open>
  Properties of the lifecycle service on the in-memory store, for any providers and any writes of
  other controllers between its store calls.
\<close>

section \<open>Commands under interference\<close>

text \<open>The three commands that act on an existing session.\<close>

fun lifecycle_run ::
  "sandbox_session_operation_kind \<Rightarrow> 'w lifecycle_service \<Rightarrow> lifecycle_command
     \<Rightarrow> ('w, sandbox_session lifecycle_result) state" where
  "lifecycle_run Start = start_sandbox_session"
| "lifecycle_run Stop = stop_sandbox_session"
| "lifecycle_run _ = destroy_sandbox_session"

lemma lifecycle_run_emits:
  assumes "k \<noteq> Create"
  shows "emits world_ok (lifecycle_run k (observed_service (memory_service ps owner d timeout gs gb)) c)
    (\<lambda>r evs. (isl r \<and> evs = []) \<or> (\<exists>l. lease_tenant_id l = command_tenant_id c
       \<and> lease_session_id l = command_session_id c \<and> concludes l {} k (command_operation_id c) r evs))"
  using assms memory_service.command_runs [of c ps owner d timeout gs gb]
  by (cases k) simp_all

lemma reachable_world: "repository_step\<^sup>*\<^sup>* empty_repository (world_store w) \<Longrightarrow> world_ok w"
  unfolding world_ok_def by (rule session_store.reachable_inv)

lemma lifecycle_run_concludes:
  assumes "k \<noteq> Create" "repository_step\<^sup>*\<^sup>* empty_repository (world_store w)"
    and "run_state (lifecycle_run k (observed_service (memory_service ps owner d timeout gs gb)) c)
      (w, []) = (r, (w', evs))"
  obtains l where "lease_tenant_id l = command_tenant_id c" "lease_session_id l = command_session_id c"
    "protocol l {} evs" "\<And>s. r = Inr s \<Longrightarrow> destroys_confirmed evs"
    "\<And>s. r = Inr s \<Longrightarrow> acknowledged l k (command_operation_id c) s evs
        \<or> (evs = [] \<and> session_under l s \<and> replayed_success k (command_operation_id c) s)"
proof -
  obtain l0 :: sandbox_session_lease where l0: "lease_tenant_id l0 = command_tenant_id c"
    "lease_session_id l0 = command_session_id c"
    by (metis sandbox_session_lease.select_convs(1,2))
  show ?thesis
    using lifecycle_run_emits [OF assms(1), of ps owner d timeout gs gb c]
      reachable_world [OF assms(2)] assms(3) that that [OF l0]
    unfolding emits_def concludes_def
    by (metis append_Nil isl_def old.sum.distinct(2) prod.inject protocol_Nil)
qed

text \<open>
  C1: Whatever the providers answer and whatever other controllers write in between, every provider
  call of a start, stop or destroy directly follows a confirmed renewal of the command's lease and
  carries its fencing token, and every save carries that lease, a valid session of the command's
  tenant and identifier, and the successor of the version it read.
\<close>

theorem commands_are_fenced:
  assumes "k \<noteq> Create" "repository_step\<^sup>*\<^sup>* empty_repository (world_store w)"
    and "run_state (lifecycle_run k (observed_service (memory_service ps owner d timeout gs gb)) c)
      (w, []) = (r, (w', evs))"
  shows "\<exists>l. lease_tenant_id l = command_tenant_id c \<and> lease_session_id l = command_session_id c
    \<and> fenced_calls l evs \<and> saves_valid l evs"
  by (rule lifecycle_run_concludes [OF assms]) (auto simp: protocol_def)

text \<open>
  C2: Every allocation a start asks for was announced by a binding intent saved before the call. Every
  allocation a provider hands out is afterwards saved with the session, or the provider confirmed its
  destroy, or a renewal failed and it is left to the controller that takes the lease over, or its destroy
  was asked for and refused or timed out. In the last case it may be orphaned, with its intent on record,
  and the command does not succeed: a command that answers with a session has had every destroy it asked
  for confirmed, and has left no allocation behind.
\<close>

theorem allocations_are_written_ahead:
  assumes "k \<noteq> Create" "repository_step\<^sup>*\<^sup>* empty_repository (world_store w)"
    and "run_state (lifecycle_run k (observed_service (memory_service ps owner d timeout gs gb)) c)
      (w, []) = (r, (w', evs))"
  shows "write_ahead {} evs \<and> allocations_accounted evs
    \<and> (\<not> isl r \<longrightarrow> destroys_confirmed evs \<and> allocations_kept evs)"
  by (rule lifecycle_run_concludes [OF assms]) (cases r; auto simp: protocol_def accounted_kept)

text \<open>
  C3: A command that answers with a session has either just saved exactly that session, in the
  target state of the command and with its operation recorded as succeeded, under the lease it held;
  or it repeats the recorded success of the same operation, and then it has neither saved anything nor
  called a provider.
\<close>

theorem success_is_persisted:
  assumes "k \<noteq> Create" "repository_step\<^sup>*\<^sup>* empty_repository (world_store w)"
    and "run_state (lifecycle_run k (observed_service (memory_service ps owner d timeout gs gb)) c)
      (w, []) = (Inr s, (w', evs))"
  shows "session_tenant_id s = command_tenant_id c \<and> session_id s = command_session_id c
    \<and> ((\<exists>pre saved v l. evs = pre @ [SaveTried saved v l (Inr ())]
          \<and> s = mark_sandbox_operations_persisted saved
          \<and> session_state s = resolved_state k Succeeded
          \<and> last (session_operations s) = \<lparr> operation_id_of = command_operation_id c,
               operation_kind = k, operation_outcome = Succeeded \<rparr>)
       \<or> (evs = [] \<and> replayed_success k (command_operation_id c) s))"
  by (rule lifecycle_run_concludes [OF assms]) (auto simp: acknowledged_def session_under_def)

section \<open>Commands without interference\<close>

text \<open>
  C12: When nobody interferes, a start succeeds. Let the session be stored and startable, with room in its
  ledger and three versions left, let the operation identifier be new to the tenant and the lease be free.
  Let the provider the start runs on be cooperative: the one an unallocated binding intent names, or else
  the first registered one that meets the session's requirements; and when the session still holds an
  allocation, as a stopped one does, let its provider be registered and confirm the destroy. Then the start
  returns the session \<open>Running\<close> on an allocation of that provider with the operation recorded as succeeded,
  and the store holds exactly that session, three versions later.
\<close>

theorem uncontended_start_runs:
  fixes ps :: "'p sandbox_provider list"
  assumes "repository_step\<^sup>*\<^sup>* empty_repository (world_store w)" "world_agenda w = []"
    and "lookup_session (command_tenant_id c) (command_session_id c) (world_store w) = Some s"
    and "startable (session_state s)" "start_runs_on ps s p" "cooperative p"
    and "repository_operations (world_store w) (command_tenant_id c, command_operation_id c) = None"
    and "length (session_operations s) < max_sandbox_session_operations"
    and "int (unat (session_version s) + 3) \<le> i64_max"
    and "memory_acquire_lease (command_tenant_id c) (command_session_id c) owner d (world_now w)
      (world_wall w) (world_store w) = (Inr (Some l), r1)"
  shows "\<exists>s' w'. run_state (start_sandbox_session (memory_service ps owner d timeout gs gb) c) w
      = (Inr (mark_sandbox_operations_persisted s'), w')
    \<and> lookup_session (command_tenant_id c) (command_session_id c) (world_store w') = Some s'
    \<and> started (command_operation_id c) (provider_id p) s'
    \<and> unat (session_version s') = unat (session_version s) + 3"
  using quiet_start_command [OF reachable_world [OF assms(1)] assms(2-)] .

theorem uncontended_start_runs_witness:
  "\<exists>s' w'. run_state (start_sandbox_session demo_service (demo_command ''op2'')) demo_world
      = (Inr (mark_sandbox_operations_persisted s'), w')
    \<and> lookup_session ''t1'' ''s1'' (world_store w') = Some s' \<and> started ''op2'' ''p1'' s'
    \<and> unat (session_version s') = 3"
  using uncontended_start_runs [of demo_world "demo_command ''op2''" demo_session "[demo_provider]" demo_provider
      "''a''" 1000000 _ _ 500000 "ret ''box''" "ret ''bind''"]
    demo_store_reachable demo_acquire demo_startable demo_cooperative demo_runs_on
  by (simp add: demo_service_def demo_provider_def)

theorem commands_are_fenced_witness:
  "\<exists>s w' evs l. run_state (start_sandbox_session (observed_service demo_service)
        (demo_command ''op2'')) (demo_world, []) = (Inr s, (w', evs))
    \<and> session_state s = Running \<and> lease_tenant_id l = ''t1'' \<and> lease_session_id l = ''s1''
    \<and> fenced_calls l evs \<and> saves_valid l evs"
proof -
  obtain s w' evs where run: "run_state (start_sandbox_session (observed_service demo_service)
      (demo_command ''op2'')) (demo_world, []) = (Inr s, (w', evs))" "session_state s = Running"
    by (rule demo_start)
  from commands_are_fenced [of Start demo_world, OF _ _ run(1) [unfolded demo_service_def, folded lifecycle_run.simps]]
    demo_store_reachable
  show ?thesis using run by auto
qed

theorem allocations_are_written_ahead_witness:
  "\<exists>s w' evs. run_state (start_sandbox_session (observed_service demo_service)
        (demo_command ''op2'')) (demo_world, []) = (Inr s, (w', evs))
    \<and> session_state s = Running \<and> write_ahead {} evs \<and> allocations_kept evs"
proof -
  obtain s w' evs where run: "run_state (start_sandbox_session (observed_service demo_service)
      (demo_command ''op2'')) (demo_world, []) = (Inr s, (w', evs))" "session_state s = Running"
    by (rule demo_start)
  from allocations_are_written_ahead [of Start demo_world, OF _ _ run(1) [unfolded demo_service_def, folded lifecycle_run.simps]]
    demo_store_reachable
  show ?thesis using run by auto
qed

theorem success_is_persisted_witness:
  "\<exists>s w' evs. run_state (start_sandbox_session (observed_service demo_service)
        (demo_command ''op2'')) (demo_world, []) = (Inr s, (w', evs))
    \<and> session_state s = Running \<and> session_id s = ''s1''
    \<and> ((\<exists>pre saved v l. evs = pre @ [SaveTried saved v l (Inr ())]
          \<and> s = mark_sandbox_operations_persisted saved)
       \<or> (evs = [] \<and> replayed_success Start ''op2'' s))"
proof -
  obtain s w' evs where run: "run_state (start_sandbox_session (observed_service demo_service)
      (demo_command ''op2'')) (demo_world, []) = (Inr s, (w', evs))" "session_state s = Running"
    by (rule demo_start)
  from success_is_persisted [of Start demo_world, OF _ _ run(1) [unfolded demo_service_def, folded lifecycle_run.simps]]
    demo_store_reachable
  show ?thesis using run by auto
qed

lemma create_on_record:
  fixes w :: "'p memory_world"
  assumes "world_ok w" "world_agenda w = []"
    and "run_state (create_sandbox_session (memory_service ps owner d timeout gs gb) c) w = (Inr s, w')"
  shows "\<exists>stored. s \<in> {stored, mark_sandbox_operations_persisted stored}
    \<and> matches_create stored (create_workspace_id c) (create_session_id c) (create_capabilities c)
        (create_assurance c)
    \<and> world_agenda w' = []
    \<and> repository_operations (world_store w') (create_tenant_id c, create_operation_id c)
        = Some (create_session_id c)
    \<and> lookup_session (create_tenant_id c) (create_session_id c) (world_store w') = Some stored"
proof (cases "repository_operations (world_store w) (create_tenant_id c, create_operation_id c)")
  case None
  then show ?thesis by (rule quiet_create_fresh [OF assms(2) _ assms(3)]) auto
next
  case (Some sid)
  obtain stored where stored: "lookup_session (create_tenant_id c) sid (world_store w) = Some stored"
    using repository_okD(4) [OF assms(1) [unfolded world_ok_def] Some] by blast
  then have "session_id stored = sid"
    using repository_okD(3) [OF assms(1) [unfolded world_ok_def]] by (auto simp: session_filed_def)
  then show ?thesis
    using assms(2,3) Some stored quiet_create_recorded [OF assms(2) Some stored, of ps owner d timeout gs gb]
    by (auto simp: create_existing_def matches_create_def split: if_splits)
qed

text \<open>
  C40: Create is idempotent under its operation identifier. After a create has answered with a session,
  the store holds that session, and a second create of the same tenant under the same operation
  identifier changes nothing: with the same workspace, session identifier, capabilities and assurance
  it answers with the stored session, with any other it is refused as \<open>IdempotencyConflict\<close>.
\<close>

theorem create_is_idempotent:
  fixes w :: "'p memory_world"
  assumes "repository_step\<^sup>*\<^sup>* empty_repository (world_store w)" "world_agenda w = []"
    and "run_state (create_sandbox_session (memory_service ps owner d timeout gs gb) c) w = (Inr s, w')"
    and "create_tenant_id c' = create_tenant_id c" "create_operation_id c' = create_operation_id c"
  shows "\<exists>stored. s \<in> {stored, mark_sandbox_operations_persisted stored}
    \<and> lookup_session (create_tenant_id c) (create_session_id c) (world_store w') = Some stored
    \<and> run_state (create_sandbox_session (memory_service ps' owner' d' timeout' gs' gb') c') w'
      = (if create_workspace_id c' = create_workspace_id c \<and> create_session_id c' = create_session_id c
            \<and> create_capabilities c' = create_capabilities c \<and> create_assurance c' = create_assurance c
         then Inr stored else Inl (IdempotencyConflict (create_operation_id c)), w')"
proof -
  obtain stored where stored: "s \<in> {stored, mark_sandbox_operations_persisted stored}"
    "matches_create stored (create_workspace_id c) (create_session_id c) (create_capabilities c)
       (create_assurance c)"
    "world_agenda w' = []"
    "repository_operations (world_store w') (create_tenant_id c', create_operation_id c')
       = Some (create_session_id c)"
    "lookup_session (create_tenant_id c') (create_session_id c) (world_store w') = Some stored"
    using create_on_record [OF reachable_world [OF assms(1)] assms(2,3)] assms(4,5) by auto
  have "create_existing c' stored =
      (if create_workspace_id c' = create_workspace_id c \<and> create_session_id c' = create_session_id c
            \<and> create_capabilities c' = create_capabilities c \<and> create_assurance c' = create_assurance c
       then Inr stored else Inl (IdempotencyConflict (create_operation_id c)))"
    using stored(2) assms(5) by (auto simp: create_existing_def matches_create_def)
  then show ?thesis
    using stored quiet_create_recorded [OF stored(3,4,5), of ps' owner' d' timeout' gs' gb'] assms(4)
    by auto
qed

theorem create_is_idempotent_witness:
  "\<exists>stored. lookup_session ''t1'' ''s1'' demo_store = Some stored
    \<and> run_state (create_sandbox_session demo_service (demo_create {Terminal})) demo_world
      = (Inr stored, demo_world)
    \<and> run_state (create_sandbox_session demo_service (demo_create {Terminal, Git})) demo_world
      = (Inl (IdempotencyConflict ''op1''), demo_world)"
  using create_is_idempotent [OF _ _ demo_created [unfolded demo_service_def], of "demo_create {Terminal}"]
    create_is_idempotent [OF _ _ demo_created [unfolded demo_service_def], of "demo_create {Terminal, Git}"]
  by (auto simp: demo_service_def)

section \<open>The reconciler's page\<close>

lemma run_try_bind:
  "run_state (try_bind m k) w = (Inr y, w') \<longleftrightarrow>
     (\<exists>x w1. run_state m w = (Inr x, w1) \<and> run_state (k x) w1 = (Inr y, w'))"
  by (auto simp: try_bind_def split: prod.splits sum.splits)

lemma run_repository_question:
  "run_state (repository_question m) w = (Inr y, w') \<longleftrightarrow> run_state m w = (Inr y, w')"
  by (auto simp: repository_question_def map_sum_def split: prod.splits sum.splits)

lemma report_identifies:
  "run_state (report_from_store svc t sid listed outcome) w = (Inr i, w') \<Longrightarrow> fst i = sid"
  by (auto simp: report_from_store_def split: prod.splits sum.splits if_splits)

lemma leased_item_identifies:
  "run_state (reconcile_leased_item svc t sid listed l) w = (Inr i, w') \<Longrightarrow> fst i = sid"
  by (auto simp: reconcile_leased_item_def Let_def dest!: report_identifies
      split: prod.splits sum.splits if_splits)

lemma item_identifies:
  "run_state (reconcile_item svc t c) w = (Inr i, w') \<Longrightarrow> fst i = fst c"
  by (auto simp: reconcile_item_def dest!: leased_item_identifies
      split: prod.splits sum.splits option.splits if_splits)

lemma items_identify:
  "run_state (reconcile_items svc t cs items) w = (Inr items', w') \<Longrightarrow>
     map fst items' = map fst items @ map fst cs"
  by (induction cs arbitrary: items w) (auto simp: run_try_bind dest: item_identifies)

text \<open>
  A reconciler's page that is answered was asked for with a size between 1 and 200, reports
  exactly the sessions the store listed, once each and in their order, whatever became of each of
  them, and carries a cursor only for a full page: the last session reported. So no listed session is
  passed over by the next page.
\<close>

theorem reconciler_reports_the_listed_page:
  assumes "run_state (reconcile_sandbox_sessions svc t after n) w = (Inr page, w')"
  shows "1 \<le> n \<and> n \<le> 200 \<and> (\<exists>cands w1. run_state (repo_list (service_repository svc) t after n) w
        = (Inr cands, w1)
      \<and> map fst (page_items page) = map fst cands
      \<and> (page_next page = None
         \<or> (length cands = n \<and> page_next page = Some (fst (last (page_items page))))))"
proof -
  from assms obtain cands w1 next_id w2 items where c: "1 \<le> n" "n \<le> 200"
    "run_state (repo_list (service_repository svc) t after n) w = (Inr cands, w1)"
    "run_state (reconcile_cursor svc t n cands) w1 = (Inr next_id, w2)"
    "run_state (reconcile_items svc t cands []) w2 = (Inr items, w')"
    "page = \<lparr> page_items = items, page_next = next_id \<rparr>"
    by (auto simp: reconcile_sandbox_sessions_def run_try_bind run_repository_question split: if_splits)
  have items: "map fst items = map fst cands" using items_identify [OF c(5)] by simp
  have "next_id = None \<or> (length cands = n \<and> cands \<noteq> [] \<and> next_id = Some (fst (last cands)))"
    using c(4) by (auto simp: reconcile_cursor_def run_try_bind split: if_splits)
  moreover have "fst (last items) = fst (last cands)" if "cands \<noteq> []"
    using items that by (metis last_map list.map_disc_iff)
  ultimately show ?thesis using c items by auto
qed

theorem reconciler_reports_the_listed_page_witness:
  "map fst (page_items \<lparr> page_items = [(''s1'', Starting, ReconcileLeaseUnavailable)],
      page_next = (None :: sandbox_session_id option) \<rparr>) = [''s1'']
    \<and> (\<exists>cands w1. run_state (repo_list (service_repository demo_service) ''t1'' None 2)
         demo_interrupted = (Inr cands, w1) \<and> map fst cands = [''s1''])"
  using reconciler_reports_the_listed_page [OF demo_reconcile] by auto

end
