(* ===== verification/Instance_Model.thy ===== *)
theory Instance_Model
  imports Session_Model
begin

text \<open>
  The provisioning record of a console-visible sandbox instance (\<open>instance.rs\<close> of crate
  \<open>sdkwork-intelligence-sandbox-service\<close>): its state machine, resource profiles, validators, partial
  update and optimistic version. The calendar check of a timestamp belongs to another package
  (\<open>parse_datetime\<close>) and is a parameter \<open>calendar\<close>; the generated identifier of a new instance is an
  argument of \<open>instance_request\<close>. Text is UTF-8: \<open>chars().count()\<close> counts the bytes that do not continue a
  character.
\<close>

type_synonym sandbox_instance_id = string
type_synonym sandbox_instance_owner_id = string

section \<open>States and profiles\<close>

datatype sandbox_instance_state =
  InstRequested | InstActive | InstSuspended | InstTerminated | InstFailed

fun instance_state_as_str :: "sandbox_instance_state \<Rightarrow> string" where
  "instance_state_as_str InstRequested = ''requested''"
| "instance_state_as_str InstActive = ''active''"
| "instance_state_as_str InstSuspended = ''suspended''"
| "instance_state_as_str InstTerminated = ''terminated''"
| "instance_state_as_str InstFailed = ''failed''"

definition instance_state_parse :: "string \<Rightarrow> sandbox_instance_state option" where
  "instance_state_parse v =
     (if v = ''requested'' then Some InstRequested
      else if v = ''active'' then Some InstActive
      else if v = ''suspended'' then Some InstSuspended
      else if v = ''terminated'' then Some InstTerminated
      else if v = ''failed'' then Some InstFailed
      else None)"

interpretation instance_state_names: wire_names instance_state_as_str instance_state_parse
proof (unfold_locales, goal_cases)
  case (1 st) then show ?case by (cases st) (simp_all add: instance_state_parse_def)
next
  case (2 v st) then show ?case by (auto simp: instance_state_parse_def split: if_splits)
qed

definition instance_is_terminal :: "sandbox_instance_state \<Rightarrow> bool" where
  "instance_is_terminal st \<longleftrightarrow> st = InstTerminated \<or> st = InstFailed"

definition instance_is_deletable :: "sandbox_instance_state \<Rightarrow> bool" where
  "instance_is_deletable st \<longleftrightarrow> st \<noteq> InstActive"

definition instance_can_transition_to ::
  "sandbox_instance_state \<Rightarrow> sandbox_instance_state \<Rightarrow> bool" where
  "instance_can_transition_to st target \<longleftrightarrow> st \<noteq> target
     \<and> (st, target) \<in> set [(InstRequested, InstActive), (InstRequested, InstSuspended),
          (InstRequested, InstFailed), (InstActive, InstSuspended), (InstActive, InstTerminated),
          (InstActive, InstFailed), (InstSuspended, InstActive), (InstSuspended, InstTerminated),
          (InstSuspended, InstFailed)]"

interpretation instance_table: closed_table instance_can_transition_to instance_is_terminal
  by unfold_locales (auto simp: instance_can_transition_to_def instance_is_terminal_def)

datatype sandbox_instance_profile = Standard | MemoryOptimized | ComputeOptimized

fun instance_profile_as_str :: "sandbox_instance_profile \<Rightarrow> string" where
  "instance_profile_as_str Standard = ''standard''"
| "instance_profile_as_str MemoryOptimized = ''memory_optimized''"
| "instance_profile_as_str ComputeOptimized = ''compute_optimized''"

definition instance_profile_parse :: "string \<Rightarrow> sandbox_instance_profile option" where
  "instance_profile_parse v =
     (if v = ''standard'' then Some Standard
      else if v = ''memory_optimized'' then Some MemoryOptimized
      else if v = ''compute_optimized'' then Some ComputeOptimized
      else None)"

interpretation instance_profile_names: wire_names instance_profile_as_str instance_profile_parse
proof (unfold_locales, goal_cases)
  case (1 p) then show ?case by (cases p) (simp_all add: instance_profile_parse_def)
next
  case (2 v p) then show ?case by (auto simp: instance_profile_parse_def split: if_splits)
qed

definition max_instance_version :: i64 where "max_instance_version = i64_max"
definition max_instance_name_length :: nat where "max_instance_name_length = 128"
definition max_instance_base_image_length :: nat where "max_instance_base_image_length = 256"
definition max_instance_required_capabilities :: nat where
  "max_instance_required_capabilities = 32"
definition max_instance_page_number :: u32 where "max_instance_page_number = 10000"
definition min_instance_vcpu_count :: u32 where "min_instance_vcpu_count = 1"
definition max_instance_vcpu_count :: u32 where "max_instance_vcpu_count = 64"
definition min_instance_memory_mb :: u32 where "min_instance_memory_mb = 256"
definition max_instance_memory_mb :: u32 where "max_instance_memory_mb = 262144"
definition min_instance_disk_mb :: u32 where "min_instance_disk_mb = 1024"
definition max_instance_disk_mb :: u32 where "max_instance_disk_mb = 1048576"

record instance_resource_bounds =
  bound_vcpu_count :: u32
  bound_memory_mb :: u32
  bound_disk_mb :: u32

fun instance_profile_bounds :: "sandbox_instance_profile \<Rightarrow> instance_resource_bounds" where
  "instance_profile_bounds Standard =
     \<lparr> bound_vcpu_count = 8, bound_memory_mb = 16384, bound_disk_mb = 102400 \<rparr>"
| "instance_profile_bounds MemoryOptimized =
     \<lparr> bound_vcpu_count = 16, bound_memory_mb = max_instance_memory_mb, bound_disk_mb = 204800 \<rparr>"
| "instance_profile_bounds ComputeOptimized =
     \<lparr> bound_vcpu_count = max_instance_vcpu_count, bound_memory_mb = 65536,
       bound_disk_mb = max_instance_disk_mb \<rparr>"

section \<open>Errors\<close>

datatype sandbox_instance_repository_error =
  InstanceRowNotFound | InstanceRowVersionConflict | InstanceRowDuplicateName
| InstanceStoreUnavailable | InstanceRowInvalid | InstanceEngineUnsupported
| InstanceInvalidPageRequest

datatype sandbox_instance_error =
  InstanceNotFound tenant_id sandbox_instance_id
| InstanceDuplicateName string
| InstanceValidation string string
| InstanceInvalidTransition sandbox_instance_state sandbox_instance_state
| InstanceNotDeletable sandbox_instance_state
| InstanceVersionConflict sandbox_instance_id
| InstanceInvariantViolation string
| InstanceRepository sandbox_instance_repository_error

type_synonym 'a instance_result = "sandbox_instance_error + 'a"
type_synonym 'a instance_repository_result = "sandbox_instance_repository_error + 'a"

section \<open>Validation\<close>

text \<open>\<open>chars().count()\<close> of a UTF-8 string, and \<open>trim().is_empty()\<close>: nothing but Unicode white space.\<close>

definition utf8_length :: "string \<Rightarrow> nat" where
  "utf8_length s = length (filter (\<lambda>c. \<not> (128 \<le> (of_char c :: nat) \<and> (of_char c :: nat) < 192)) s)"

definition wide_whitespace :: "nat \<Rightarrow> nat \<Rightarrow> nat \<Rightarrow> bool" where
  "wide_whitespace a b c \<longleftrightarrow>
     (a = 225 \<and> b = 154 \<and> c = 128)
     \<or> (a = 226 \<and> b = 128 \<and> (128 \<le> c \<and> c \<le> 138 \<or> c = 168 \<or> c = 169 \<or> c = 175))
     \<or> (a = 226 \<and> b = 129 \<and> c = 159) \<or> (a = 227 \<and> b = 128 \<and> c = 128)"

fun trims_to_empty :: "string \<Rightarrow> bool" where
  "trims_to_empty [] = True"
| "trims_to_empty (a # s) =
     (if is_whitespace a then trims_to_empty s
      else
        (case s of
           [] \<Rightarrow> False
         | b # s1 \<Rightarrow>
             if (of_char a :: nat) = 194 \<and> ((of_char b :: nat) = 133 \<or> (of_char b :: nat) = 160)
             then trims_to_empty s1
             else
               (case s1 of
                  [] \<Rightarrow> False
                | c # s2 \<Rightarrow> wide_whitespace (of_char a) (of_char b) (of_char c) \<and> trims_to_empty s2)))"

definition validate_instance_name :: "string \<Rightarrow> unit instance_result" where
  "validate_instance_name v =
     (if trims_to_empty v \<or> utf8_length v > max_instance_name_length then
        Inl (InstanceValidation ''sandboxInstanceName''
          ''must be a non-empty name of at most 128 characters'')
      else Inr ())"

definition validate_base_image :: "string \<Rightarrow> unit instance_result" where
  "validate_base_image v =
     (if trims_to_empty v \<or> utf8_length v > max_instance_base_image_length then
        Inl (InstanceValidation ''sandboxInstanceBaseImage''
          ''must be a non-empty image reference of at most 256 characters'')
      else Inr ())"

definition validate_resource_shape ::
  "sandbox_instance_profile \<Rightarrow> u32 \<Rightarrow> u32 \<Rightarrow> u32 \<Rightarrow> unit instance_result" where
  "validate_resource_shape p vcpu memory disk =
     (let bounds = instance_profile_bounds p in
      if \<not> (min_instance_vcpu_count \<le> vcpu \<and> vcpu \<le> bound_vcpu_count bounds) then
        Inl (InstanceValidation ''sandboxInstanceVcpuCount'' ''is outside the selected profile envelope'')
      else if \<not> (min_instance_memory_mb \<le> memory \<and> memory \<le> bound_memory_mb bounds) then
        Inl (InstanceValidation ''sandboxInstanceMemoryMb'' ''is outside the selected profile envelope'')
      else if \<not> (min_instance_disk_mb \<le> disk \<and> disk \<le> bound_disk_mb bounds) then
        Inl (InstanceValidation ''sandboxInstanceDiskMb'' ''is outside the selected profile envelope'')
      else Inr ())"

definition validate_capabilities :: "runtime_capability set \<Rightarrow> unit instance_result" where
  "validate_capabilities caps =
     (if card caps > max_instance_required_capabilities then
        Inl (InstanceValidation ''sandboxInstanceRequiredCapabilities''
          ''declares more capabilities than the persistence bound allows'')
      else Inr ())"

definition is_ascii_digit :: "char \<Rightarrow> bool" where
  "is_ascii_digit c \<longleftrightarrow> 48 \<le> (of_char c :: nat) \<and> (of_char c :: nat) \<le> 57"

definition two_digit_field :: "string \<Rightarrow> nat \<Rightarrow> nat" where
  "two_digit_field s i = (of_char (s ! i) - 48) * 10 + (of_char (s ! Suc i) - 48)"

definition fraction_digits :: "string \<Rightarrow> nat option" where
  "fraction_digits s =
     (if length s = 20 then Some 0
      else if 22 \<le> length s \<and> length s \<le> 27 then
        (if s ! 19 \<noteq> CHR ''.'' then None else Some (length s - 21))
      else None)"

definition timestamp_shape :: "string \<Rightarrow> nat \<Rightarrow> bool" where
  "timestamp_shape s fraction \<longleftrightarrow>
     s ! 4 = CHR ''-'' \<and> s ! 7 = CHR ''-'' \<and> s ! 10 = CHR ''T'' \<and> s ! 13 = CHR '':''
     \<and> s ! 16 = CHR '':'' \<and> last s = CHR ''Z''
     \<and> list_all (\<lambda>i. is_ascii_digit (s ! i)) [0, 1, 2, 3, 5, 6, 8, 9, 11, 12, 14, 15, 17, 18]
     \<and> list_all (\<lambda>i. is_ascii_digit (s ! i)) [20..<20 + fraction]"

definition calendar_shape :: "string \<Rightarrow> bool" where
  "calendar_shape s \<longleftrightarrow>
     1 \<le> two_digit_field s 5 \<and> two_digit_field s 5 \<le> 12
     \<and> 1 \<le> two_digit_field s 8 \<and> two_digit_field s 8 \<le> 31
     \<and> two_digit_field s 11 \<le> 23 \<and> two_digit_field s 14 \<le> 59 \<and> two_digit_field s 17 \<le> 59"

definition validate_expires_at :: "(string \<Rightarrow> bool) \<Rightarrow> string \<Rightarrow> unit instance_result" where
  "validate_expires_at calendar s =
     (let invalid = Inl (InstanceValidation ''sandboxInstanceExpiresAt''
            ''must be an RFC 3339 UTC timestamp'')
      in (case fraction_digits s of
            None \<Rightarrow> invalid
          | Some fraction \<Rightarrow>
              if \<not> timestamp_shape s fraction then invalid
              else if \<not> calendar_shape s then invalid
              else if \<not> calendar s then invalid
              else Inr ()))"

section \<open>Commands and the record\<close>

datatype instance_expiry_update = ExpiryUnchanged | ExpiryClear | ExpirySet string

record create_instance_command =
  ci_tenant_id :: tenant_id
  ci_owner_id :: sandbox_instance_owner_id
  ci_name :: string
  ci_profile :: sandbox_instance_profile
  ci_base_image :: string
  ci_vcpu_count :: u32
  ci_memory_mb :: u32
  ci_disk_mb :: u32
  ci_capabilities :: "runtime_capability set"
  ci_assurance :: isolation_assurance
  ci_auto_start :: bool
  ci_expires_at :: "string option"
  ci_workspace_id :: "sandbox_workspace_id option"

record update_instance_command =
  ui_tenant_id :: tenant_id
  ui_instance_id :: sandbox_instance_id
  ui_name :: "string option"
  ui_profile :: "sandbox_instance_profile option"
  ui_vcpu_count :: "u32 option"
  ui_memory_mb :: "u32 option"
  ui_disk_mb :: "u32 option"
  ui_auto_start :: "bool option"
  ui_expires_at :: instance_expiry_update
  ui_workspace_id :: "sandbox_workspace_id option"
  ui_state :: "sandbox_instance_state option"

definition update_for_instance :: "tenant_id \<Rightarrow> sandbox_instance_id \<Rightarrow> update_instance_command" where
  "update_for_instance t i = \<lparr> ui_tenant_id = t, ui_instance_id = i, ui_name = None,
     ui_profile = None, ui_vcpu_count = None, ui_memory_mb = None, ui_disk_mb = None,
     ui_auto_start = None, ui_expires_at = ExpiryUnchanged, ui_workspace_id = None,
     ui_state = None \<rparr>"

record sandbox_instance =
  inst_tenant_id :: tenant_id
  inst_id :: sandbox_instance_id
  inst_owner_id :: sandbox_instance_owner_id
  inst_name :: string
  inst_state :: sandbox_instance_state
  inst_profile :: sandbox_instance_profile
  inst_base_image :: string
  inst_vcpu_count :: u32
  inst_memory_mb :: u32
  inst_disk_mb :: u32
  inst_capabilities :: "runtime_capability set"
  inst_assurance :: isolation_assurance
  inst_auto_start :: bool
  inst_expires_at :: "string option"
  inst_workspace_id :: "sandbox_workspace_id option"
  inst_last_failure :: "sandbox_session_failure option"
  inst_version :: u64
  inst_created_at :: "string option"
  inst_updated_at :: "string option"

section \<open>Operations\<close>

definition instance_request ::
  "(string \<Rightarrow> bool) \<Rightarrow> sandbox_instance_id \<Rightarrow> create_instance_command
     \<Rightarrow> sandbox_instance instance_result" where
  "instance_request calendar iid c =
     (case validate_instance_name (ci_name c) of Inl e \<Rightarrow> Inl e | Inr _ \<Rightarrow>
     (case validate_base_image (ci_base_image c) of Inl e \<Rightarrow> Inl e | Inr _ \<Rightarrow>
     (case validate_resource_shape (ci_profile c) (ci_vcpu_count c) (ci_memory_mb c) (ci_disk_mb c) of
        Inl e \<Rightarrow> Inl e
      | Inr _ \<Rightarrow>
     (case validate_capabilities (ci_capabilities c) of Inl e \<Rightarrow> Inl e | Inr _ \<Rightarrow>
     (case (case ci_expires_at c of None \<Rightarrow> Inr () | Some e \<Rightarrow> validate_expires_at calendar e) of
        Inl e \<Rightarrow> Inl e
      | Inr _ \<Rightarrow>
          Inr \<lparr> inst_tenant_id = ci_tenant_id c, inst_id = iid, inst_owner_id = ci_owner_id c,
            inst_name = ci_name c, inst_state = InstRequested, inst_profile = ci_profile c,
            inst_base_image = ci_base_image c, inst_vcpu_count = ci_vcpu_count c,
            inst_memory_mb = ci_memory_mb c, inst_disk_mb = ci_disk_mb c,
            inst_capabilities = ci_capabilities c, inst_assurance = ci_assurance c,
            inst_auto_start = ci_auto_start c, inst_expires_at = ci_expires_at c,
            inst_workspace_id = ci_workspace_id c, inst_last_failure = None, inst_version = 0,
            inst_created_at = None, inst_updated_at = None \<rparr>)))))"

text \<open>Rehydrating a persisted row validates nothing; it is the adapters' business to refuse invalid rows.\<close>

definition instance_restore ::
  "tenant_id \<Rightarrow> sandbox_instance_id \<Rightarrow> sandbox_instance_owner_id \<Rightarrow> string \<Rightarrow> sandbox_instance_state
     \<Rightarrow> sandbox_instance_profile \<Rightarrow> string \<Rightarrow> u32 \<Rightarrow> u32 \<Rightarrow> u32 \<Rightarrow> runtime_capability set
     \<Rightarrow> isolation_assurance \<Rightarrow> bool \<Rightarrow> string option \<Rightarrow> sandbox_workspace_id option
     \<Rightarrow> sandbox_session_failure option \<Rightarrow> u64 \<Rightarrow> string option \<Rightarrow> string option \<Rightarrow> sandbox_instance" where
  "instance_restore t iid owner name st p base vcpu memory disk caps assurance auto expires workspace
     failure version created updated =
     \<lparr> inst_tenant_id = t, inst_id = iid, inst_owner_id = owner, inst_name = name, inst_state = st,
       inst_profile = p, inst_base_image = base, inst_vcpu_count = vcpu, inst_memory_mb = memory,
       inst_disk_mb = disk, inst_capabilities = caps, inst_assurance = assurance,
       inst_auto_start = auto, inst_expires_at = expires, inst_workspace_id = workspace,
       inst_last_failure = failure, inst_version = version, inst_created_at = created,
       inst_updated_at = updated \<rparr>"

definition with_persistence_timestamps :: "string \<Rightarrow> string \<Rightarrow> sandbox_instance \<Rightarrow> sandbox_instance" where
  "with_persistence_timestamps created updated s =
     s\<lparr> inst_created_at := Some created, inst_updated_at := Some updated \<rparr>"

definition instance_transition ::
  "sandbox_instance_state \<Rightarrow> sandbox_instance \<Rightarrow> sandbox_instance instance_result" where
  "instance_transition target s =
     (if \<not> instance_can_transition_to (inst_state s) target then
        Inl (InstanceInvalidTransition (inst_state s) target)
      else
        (let s' = s\<lparr> inst_state := target \<rparr>
         in Inr (if target \<noteq> InstFailed then s'\<lparr> inst_last_failure := None \<rparr> else s')))"

text \<open>
  The stretches of \<open>apply_update\<close>, in the order of the code. The caller drops the instance when one of
  them fails, so the partial update of an error is not observable.
\<close>

definition update_state ::
  "update_instance_command \<Rightarrow> sandbox_instance \<Rightarrow> sandbox_instance instance_result" where
  "update_state c s = (case ui_state c of None \<Rightarrow> Inr s | Some st \<Rightarrow> instance_transition st s)"

definition update_name ::
  "update_instance_command \<Rightarrow> sandbox_instance \<Rightarrow> sandbox_instance instance_result" where
  "update_name c s =
     (case ui_name c of
        None \<Rightarrow> Inr s
      | Some n \<Rightarrow> (case validate_instance_name n of Inl e \<Rightarrow> Inl e | Inr _ \<Rightarrow> Inr (s\<lparr> inst_name := n \<rparr>)))"

definition update_shape ::
  "update_instance_command \<Rightarrow> sandbox_instance \<Rightarrow> sandbox_instance instance_result" where
  "update_shape c s =
     (let p = (case ui_profile c of None \<Rightarrow> inst_profile s | Some x \<Rightarrow> x);
          vcpu = (case ui_vcpu_count c of None \<Rightarrow> inst_vcpu_count s | Some x \<Rightarrow> x);
          memory = (case ui_memory_mb c of None \<Rightarrow> inst_memory_mb s | Some x \<Rightarrow> x);
          disk = (case ui_disk_mb c of None \<Rightarrow> inst_disk_mb s | Some x \<Rightarrow> x)
      in (case validate_resource_shape p vcpu memory disk of
            Inl e \<Rightarrow> Inl e
          | Inr _ \<Rightarrow> Inr (s\<lparr> inst_profile := p, inst_vcpu_count := vcpu, inst_memory_mb := memory,
              inst_disk_mb := disk \<rparr>)))"

definition update_expiry ::
  "(string \<Rightarrow> bool) \<Rightarrow> update_instance_command \<Rightarrow> sandbox_instance \<Rightarrow> sandbox_instance instance_result" where
  "update_expiry calendar c s =
     (case ui_expires_at c of
        ExpiryUnchanged \<Rightarrow> Inr s
      | ExpiryClear \<Rightarrow> Inr (s\<lparr> inst_expires_at := None \<rparr>)
      | ExpirySet e \<Rightarrow>
          (case validate_expires_at calendar e of
             Inl x \<Rightarrow> Inl x | Inr _ \<Rightarrow> Inr (s\<lparr> inst_expires_at := Some e \<rparr>)))"

definition instance_apply_update ::
  "(string \<Rightarrow> bool) \<Rightarrow> update_instance_command \<Rightarrow> sandbox_instance \<Rightarrow> sandbox_instance instance_result" where
  "instance_apply_update calendar c s0 =
     (case update_state c s0 of Inl e \<Rightarrow> Inl e | Inr s1 \<Rightarrow>
     (case update_name c s1 of Inl e \<Rightarrow> Inl e | Inr s2 \<Rightarrow>
     (case update_shape c s2 of Inl e \<Rightarrow> Inl e | Inr s3 \<Rightarrow>
        (let s4 = (case ui_auto_start c of None \<Rightarrow> s3 | Some b \<Rightarrow> s3\<lparr> inst_auto_start := b \<rparr>)
         in (case update_expiry calendar c s4 of Inl e \<Rightarrow> Inl e | Inr s5 \<Rightarrow>
               Inr (case ui_workspace_id c of
                      None \<Rightarrow> s5 | Some w \<Rightarrow> s5\<lparr> inst_workspace_id := Some w \<rparr>))))))"

definition instance_next_version :: "sandbox_instance \<Rightarrow> (u64 \<times> sandbox_instance) instance_result" where
  "instance_next_version s =
     (case u64_checked_succ (inst_version s) of
        None \<Rightarrow> Inl (InstanceInvariantViolation
          ''sandbox instance version exceeds the persistence maximum'')
      | Some v \<Rightarrow>
          if int (unat v) \<le> max_instance_version then Inr (inst_version s, s\<lparr> inst_version := v \<rparr>)
          else Inl (InstanceInvariantViolation
                 ''sandbox instance version exceeds the persistence maximum''))"

section \<open>Listing cursors and pages\<close>

record instance_list_cursor =
  cursor_created_at :: string
  cursor_instance_id :: sandbox_instance_id

definition instance_cursor_new ::
  "(string \<Rightarrow> bool) \<Rightarrow> string \<Rightarrow> sandbox_instance_id \<Rightarrow> instance_list_cursor instance_result" where
  "instance_cursor_new calendar created iid =
     (case validate_expires_at calendar created of
        Inl (InstanceValidation f d) \<Rightarrow> Inl (InstanceValidation ''cursor'' d)
      | Inl e \<Rightarrow> Inl e
      | Inr _ \<Rightarrow> Inr \<lparr> cursor_created_at = created, cursor_instance_id = iid \<rparr>)"

record instance_list_page =
  list_items :: "sandbox_instance list"
  list_next_cursor :: "instance_list_cursor option"

record instance_offset_page =
  offset_items :: "sandbox_instance list"
  offset_total_items :: u64

section \<open>Valid instances\<close>

text \<open>The declared bounds of every field, which each operation checks and keeps.\<close>

definition instance_valid :: "(string \<Rightarrow> bool) \<Rightarrow> sandbox_instance \<Rightarrow> bool" where
  "instance_valid calendar s \<longleftrightarrow>
     validate_instance_name (inst_name s) = Inr ()
     \<and> validate_base_image (inst_base_image s) = Inr ()
     \<and> validate_resource_shape (inst_profile s) (inst_vcpu_count s) (inst_memory_mb s)
          (inst_disk_mb s) = Inr ()
     \<and> (case inst_expires_at s of None \<Rightarrow> True | Some e \<Rightarrow> validate_expires_at calendar e = Inr ())
     \<and> int (unat (inst_version s)) \<le> max_instance_version"

lemma request_valid:
  "instance_request calendar iid c = Inr s \<Longrightarrow> instance_valid calendar s \<and> inst_state s = InstRequested
     \<and> inst_version s = 0 \<and> inst_tenant_id s = ci_tenant_id c \<and> inst_id s = iid
     \<and> inst_owner_id s = ci_owner_id c \<and> inst_name s = ci_name c"
  by (auto simp: instance_request_def instance_valid_def max_instance_version_def i64_max_def
      split: sum.splits option.splits)

lemma transition_valid:
  "instance_transition st s = Inr s' \<Longrightarrow> instance_valid calendar s \<Longrightarrow> instance_valid calendar s'"
  by (auto simp: instance_transition_def instance_valid_def Let_def split: if_splits)

lemma update_state_valid:
  "update_state c s = Inr s' \<Longrightarrow> instance_valid calendar s \<Longrightarrow> instance_valid calendar s'"
  by (auto simp: update_state_def intro: transition_valid split: option.splits)

lemma update_name_valid:
  "update_name c s = Inr s' \<Longrightarrow> instance_valid calendar s \<Longrightarrow> instance_valid calendar s'"
  by (auto simp: update_name_def instance_valid_def split: option.splits sum.splits)

lemma update_shape_valid:
  "update_shape c s = Inr s' \<Longrightarrow> instance_valid calendar s \<Longrightarrow> instance_valid calendar s'"
  by (auto simp: update_shape_def Let_def instance_valid_def split: sum.splits)

lemma update_expiry_valid:
  "update_expiry calendar c s = Inr s' \<Longrightarrow> instance_valid calendar s \<Longrightarrow> instance_valid calendar s'"
  by (auto simp: update_expiry_def instance_valid_def split: sum.splits instance_expiry_update.splits)

lemma field_update_valid:
  "instance_valid calendar (s\<lparr> inst_auto_start := b \<rparr>) = instance_valid calendar s"
  "instance_valid calendar (s\<lparr> inst_workspace_id := w \<rparr>) = instance_valid calendar s"
  by (simp_all add: instance_valid_def)

text \<open>What an update leaves alone.\<close>

definition instance_core ::
  "sandbox_instance \<Rightarrow> tenant_id \<times> sandbox_instance_id \<times> sandbox_instance_owner_id \<times> string
     \<times> runtime_capability set \<times> isolation_assurance \<times> u64 \<times> string option" where
  "instance_core s = (inst_tenant_id s, inst_id s, inst_owner_id s, inst_base_image s,
     inst_capabilities s, inst_assurance s, inst_version s, inst_created_at s)"

definition state_moved :: "update_instance_command \<Rightarrow> sandbox_instance \<Rightarrow> sandbox_instance \<Rightarrow> bool" where
  "state_moved c s s' \<longleftrightarrow> (case ui_state c of
     None \<Rightarrow> inst_state s' = inst_state s
   | Some st \<Rightarrow> inst_state s' = st \<and> instance_can_transition_to (inst_state s) st)"

lemma update_stretches_keep:
  "update_state c s = Inr s' \<Longrightarrow> instance_core s' = instance_core s \<and> state_moved c s s'"
  "update_name c s = Inr s' \<Longrightarrow> instance_core s' = instance_core s \<and> inst_state s' = inst_state s"
  "update_shape c s = Inr s' \<Longrightarrow> instance_core s' = instance_core s \<and> inst_state s' = inst_state s"
  "update_expiry calendar c s = Inr s' \<Longrightarrow> instance_core s' = instance_core s \<and> inst_state s' = inst_state s"
proof -
  show "update_state c s = Inr s' \<Longrightarrow> instance_core s' = instance_core s \<and> state_moved c s s'"
    by (auto simp: update_state_def instance_core_def state_moved_def instance_transition_def Let_def
        split: option.splits if_splits)
  show "update_name c s = Inr s' \<Longrightarrow> instance_core s' = instance_core s \<and> inst_state s' = inst_state s"
    by (auto simp: update_name_def instance_core_def split: option.splits sum.splits)
  show "update_shape c s = Inr s' \<Longrightarrow> instance_core s' = instance_core s \<and> inst_state s' = inst_state s"
    by (auto simp: update_shape_def Let_def instance_core_def split: sum.splits)
  show "update_expiry calendar c s = Inr s' \<Longrightarrow> instance_core s' = instance_core s \<and> inst_state s' = inst_state s"
    by (auto simp: update_expiry_def instance_core_def split: sum.splits instance_expiry_update.splits)
qed

lemma field_update_core [simp]:
  "instance_core (s\<lparr> inst_auto_start := b \<rparr>) = instance_core s"
  "instance_core (s\<lparr> inst_workspace_id := w \<rparr>) = instance_core s"
  by (simp_all add: instance_core_def)

lemma apply_update_ok:
  assumes "instance_apply_update calendar c s = Inr s'"
  shows "instance_core s' = instance_core s" "state_moved c s s'"
    "instance_valid calendar s \<Longrightarrow> instance_valid calendar s'"
proof -
  obtain s1 s2 s3 s5 where s: "update_state c s = Inr s1" "update_name c s1 = Inr s2"
    "update_shape c s2 = Inr s3"
    "update_expiry calendar c (case ui_auto_start c of None \<Rightarrow> s3 | Some b \<Rightarrow> s3\<lparr> inst_auto_start := b \<rparr>)
       = Inr s5"
    "s' = (case ui_workspace_id c of None \<Rightarrow> s5 | Some w \<Rightarrow> s5\<lparr> inst_workspace_id := Some w \<rparr>)"
    using assms by (auto simp: instance_apply_update_def Let_def split: sum.splits)
  show "instance_core s' = instance_core s" "state_moved c s s'"
    using update_stretches_keep(1) [OF s(1)] update_stretches_keep(2) [OF s(2)]
      update_stretches_keep(3) [OF s(3)] update_stretches_keep(4) [OF s(4)] s(5)
    by (auto simp: state_moved_def split: option.splits)
  show "instance_valid calendar s \<Longrightarrow> instance_valid calendar s'"
    using update_state_valid [OF s(1)] update_name_valid [OF s(2)] update_shape_valid [OF s(3)]
      update_expiry_valid [OF s(4)] s(5)
    by (auto simp: field_update_valid split: option.splits)
qed

lemma instance_next_version_ok:
  "instance_next_version s = Inr (v, s') \<Longrightarrow> v = inst_version s
     \<and> s' = s\<lparr> inst_version := inst_version s' \<rparr> \<and> unat (inst_version s') = Suc (unat v)
     \<and> int (unat (inst_version s')) \<le> max_instance_version"
  by (auto simp: instance_next_version_def dest!: u64_checked_succ_Some split: option.splits if_splits)

end
