(* ===== verification/Instance_Store.thy ===== *)
theory Instance_Store
  imports Instance_Model "HOL-Library.Product_Lexorder"
begin

text \<open>
  The in-memory adapter of the instance repository (\<open>instance_service.rs\<close>, the test adapter that
  stands for the PostgreSQL one): rows keyed by tenant and identifier. Each operation holds the mutex
  once, so it is one step. The storage clock, a constant of the adapter, is an argument \<open>clock\<close> of the
  operations that stamp a row.
\<close>

type_synonym instance_rows = "(tenant_id \<times> sandbox_instance_id, sandbox_instance) btree"

definition instance_key :: "sandbox_instance \<Rightarrow> tenant_id \<times> sandbox_instance_id" where
  "instance_key s = (inst_tenant_id s, inst_id s)"

definition rows_insert ::
  "string \<Rightarrow> sandbox_instance \<Rightarrow> instance_rows \<Rightarrow> sandbox_instance instance_repository_result \<times> instance_rows" where
  "rows_insert clock s rows =
     (if list_ex (\<lambda>row. inst_tenant_id row = inst_tenant_id s \<and> inst_owner_id row = inst_owner_id s
           \<and> inst_name row = inst_name s) (map snd rows)
      then (Inl InstanceRowDuplicateName, rows)
      else
        (let stored = with_persistence_timestamps clock clock s
         in (Inr stored, btm_insert (instance_key s) stored rows)))"

text \<open>\<open>sort_by\<close> is stable; the keys are compared right to left.\<close>

definition list_key :: "sandbox_instance \<Rightarrow> string \<times> sandbox_instance_id" where
  "list_key s = ((case inst_created_at s of None \<Rightarrow> '''' | Some t \<Rightarrow> t), inst_id s)"

definition rows_filtered ::
  "tenant_id \<Rightarrow> sandbox_instance_owner_id option \<Rightarrow> sandbox_instance_state option \<Rightarrow> instance_rows
     \<Rightarrow> sandbox_instance list" where
  "rows_filtered t owner st rows =
     rev (sort_key list_key (rev
       (filter (\<lambda>row. case st of None \<Rightarrow> True | Some x \<Rightarrow> inst_state row = x)
         (filter (\<lambda>row. case owner of None \<Rightarrow> True | Some x \<Rightarrow> inst_owner_id row = x)
           (filter (\<lambda>row. inst_tenant_id row = t) (map snd rows))))))"

text \<open>\<open>position\<close>, with the length when there is none.\<close>

primrec window_start :: "(string \<times> sandbox_instance_id) \<Rightarrow> sandbox_instance list \<Rightarrow> nat" where
  "window_start k [] = 0"
| "window_start k (s # ss) = (if list_key s < k then 0 else Suc (window_start k ss))"

definition rows_list ::
  "(string \<Rightarrow> bool) \<Rightarrow> tenant_id \<Rightarrow> sandbox_instance_owner_id option \<Rightarrow> sandbox_instance_state option
     \<Rightarrow> instance_list_cursor option \<Rightarrow> u32 \<Rightarrow> instance_rows
     \<Rightarrow> instance_list_page instance_repository_result" where
  "rows_list calendar t owner st cursor page_size rows =
     (if page_size = 0 then Inl InstanceInvalidPageRequest
      else
        (let filtered = rows_filtered t owner st rows;
             start = (case cursor of None \<Rightarrow> 0
               | Some c \<Rightarrow> window_start (cursor_created_at c, cursor_instance_id c) filtered);
             window = drop start filtered;
             items = take (unat page_size) window
         in if length window > unat page_size then
              (if items = [] then Inl InstanceRowInvalid
               else
                 (case instance_cursor_new calendar
                         (case inst_created_at (last items) of None \<Rightarrow> '''' | Some x \<Rightarrow> x)
                         (inst_id (last items)) of
                    Inl _ \<Rightarrow> Inl InstanceRowInvalid
                  | Inr next_cursor \<Rightarrow>
                      Inr \<lparr> list_items = items, list_next_cursor = Some next_cursor \<rparr>))
            else Inr \<lparr> list_items = items, list_next_cursor = None \<rparr>))"

definition rows_list_offset ::
  "tenant_id \<Rightarrow> sandbox_instance_owner_id option \<Rightarrow> sandbox_instance_state option \<Rightarrow> u64 \<Rightarrow> u32
     \<Rightarrow> instance_rows \<Rightarrow> instance_offset_page instance_repository_result" where
  "rows_list_offset t owner st offset page_size rows =
     (if page_size = 0 then Inl InstanceInvalidPageRequest
      else
        (let filtered = rows_filtered t owner st rows
         in Inr \<lparr> offset_items = take (unat page_size) (drop (unat offset) filtered),
              offset_total_items = of_nat (length filtered) \<rparr>))"

definition rows_get :: "tenant_id \<Rightarrow> sandbox_instance_id \<Rightarrow> instance_rows
     \<Rightarrow> sandbox_instance option instance_repository_result" where
  "rows_get t iid rows = Inr (btm_get rows (t, iid))"

definition version_matches :: "(tenant_id \<times> sandbox_instance_id) \<Rightarrow> u64 \<Rightarrow> instance_rows \<Rightarrow> bool" where
  "version_matches k expected rows \<longleftrightarrow>
     (case btm_get rows k of None \<Rightarrow> False | Some row \<Rightarrow> inst_version row = expected)"

definition rows_save ::
  "string \<Rightarrow> sandbox_instance \<Rightarrow> u64 \<Rightarrow> instance_rows \<Rightarrow> bool instance_repository_result \<times> instance_rows" where
  "rows_save clock s expected rows =
     (if version_matches (instance_key s) expected rows then
        (if list_ex (\<lambda>row. inst_tenant_id row = inst_tenant_id s \<and> inst_owner_id row = inst_owner_id s
              \<and> inst_name row = inst_name s \<and> inst_id row \<noteq> inst_id s) (map snd rows)
         then (Inl InstanceRowDuplicateName, rows)
         else
           (let created = (case btm_get rows (instance_key s) of
                  None \<Rightarrow> clock
                | Some row \<Rightarrow> (case inst_created_at row of None \<Rightarrow> clock | Some x \<Rightarrow> x))
            in (Inr True, btm_insert (instance_key s) (with_persistence_timestamps created clock s) rows)))
      else (Inr False, rows))"

definition rows_delete ::
  "tenant_id \<Rightarrow> sandbox_instance_id \<Rightarrow> u64 \<Rightarrow> instance_rows
     \<Rightarrow> bool instance_repository_result \<times> instance_rows" where
  "rows_delete t iid expected rows =
     (if version_matches (t, iid) expected rows then (Inr True, btm_remove (t, iid) rows)
      else (Inr False, rows))"

end
