(* ===== verification/Instance_Store_Inv.thy ===== *)
theory Instance_Store_Inv
  imports Instance_Store
begin

text \<open>
  The instance rows under any number of writers. Identifiers are generated at random and never repeat,
  so the machine remembers the keys that have been used; a writer saves a valid instance under the
  successor of the version it expects.
\<close>

record instance_store =
  store_rows :: instance_rows
  store_used :: "(tenant_id \<times> sandbox_instance_id) set"

definition empty_instance_store :: instance_store where
  "empty_instance_store = \<lparr> store_rows = [], store_used = {} \<rparr>"

datatype instance_write =
  InstanceInsert string sandbox_instance
| InstanceSave string sandbox_instance u64
| InstanceDelete tenant_id sandbox_instance_id u64

text \<open>What the service guarantees of its writes.\<close>

fun instance_write_fits :: "(string \<Rightarrow> bool) \<Rightarrow> instance_write \<Rightarrow> instance_store \<Rightarrow> bool" where
  "instance_write_fits calendar (InstanceInsert clock s) st \<longleftrightarrow>
     validate_expires_at calendar clock = Inr () \<and> instance_valid calendar s
     \<and> instance_key s \<notin> store_used st"
| "instance_write_fits calendar (InstanceSave clock s expected) st \<longleftrightarrow>
     validate_expires_at calendar clock = Inr () \<and> instance_valid calendar s
     \<and> unat (inst_version s) = Suc (unat expected)"
| "instance_write_fits calendar (InstanceDelete t iid expected) st = True"

fun instance_write_rows :: "instance_write \<Rightarrow> instance_rows \<Rightarrow> instance_rows" where
  "instance_write_rows (InstanceInsert clock s) rows = snd (rows_insert clock s rows)"
| "instance_write_rows (InstanceSave clock s expected) rows = snd (rows_save clock s expected rows)"
| "instance_write_rows (InstanceDelete t iid expected) rows = snd (rows_delete t iid expected rows)"

fun instance_write_used ::
  "instance_write \<Rightarrow> (tenant_id \<times> sandbox_instance_id) set \<Rightarrow> (tenant_id \<times> sandbox_instance_id) set" where
  "instance_write_used (InstanceInsert clock s) used = insert (instance_key s) used"
| "instance_write_used _ used = used"

definition instance_write_apply :: "instance_write \<Rightarrow> instance_store \<Rightarrow> instance_store" where
  "instance_write_apply x st = \<lparr> store_rows = instance_write_rows x (store_rows st),
     store_used = instance_write_used x (store_used st) \<rparr>"

definition instance_step :: "(string \<Rightarrow> bool) \<Rightarrow> instance_store \<Rightarrow> instance_store \<Rightarrow> bool" where
  "instance_step calendar st st' \<longleftrightarrow>
     (\<exists>x. instance_write_fits calendar x st \<and> st' = instance_write_apply x st)"

section \<open>The invariant\<close>

definition row_ok ::
  "(string \<Rightarrow> bool) \<Rightarrow> (tenant_id \<times> sandbox_instance_id) \<Rightarrow> sandbox_instance \<Rightarrow> bool" where
  "row_ok calendar k s \<longleftrightarrow> instance_key s = k \<and> instance_valid calendar s
     \<and> (\<exists>c. inst_created_at s = Some c \<and> validate_expires_at calendar c = Inr ())"

definition same_name :: "sandbox_instance \<Rightarrow> sandbox_instance \<Rightarrow> bool" where
  "same_name s s' \<longleftrightarrow> inst_tenant_id s = inst_tenant_id s' \<and> inst_owner_id s = inst_owner_id s'
     \<and> inst_name s = inst_name s'"

definition instances_ok :: "(string \<Rightarrow> bool) \<Rightarrow> instance_store \<Rightarrow> bool" where
  "instances_ok calendar st \<longleftrightarrow> btm_ok (store_rows st)
     \<and> (\<forall>k s. btm_get (store_rows st) k = Some s \<longrightarrow> row_ok calendar k s \<and> k \<in> store_used st)
     \<and> (\<forall>k k' s s'. btm_get (store_rows st) k = Some s \<longrightarrow> btm_get (store_rows st) k' = Some s'
          \<longrightarrow> same_name s s' \<longrightarrow> k = k')"

definition instances_later :: "instance_store \<Rightarrow> instance_store \<Rightarrow> bool" where
  "instances_later st st' \<longleftrightarrow> store_used st \<subseteq> store_used st'
     \<and> (\<forall>k\<in>store_used st. case btm_get (store_rows st') k of None \<Rightarrow> True
        | Some s' \<Rightarrow> (case btm_get (store_rows st) k of None \<Rightarrow> False
            | Some s \<Rightarrow> s' = s \<or> unat (inst_version s) < unat (inst_version s')))"

text \<open>Each write either leaves the rows alone, stores one row, or removes one.\<close>

lemma rows_any:
  "btm_ok rows \<Longrightarrow> list_ex P (map snd rows) \<longleftrightarrow> (\<exists>k s. btm_get rows k = Some s \<and> P s)"
  by (simp add: list_ex_iff Bex_def image_iff) (metis btm_entries prod.exhaust_sel snd_conv)

lemma insert_shape:
  assumes "btm_ok rows"
  shows "snd (rows_insert clock s rows) = rows
    \<or> (snd (rows_insert clock s rows)
         = btm_insert (instance_key s) (with_persistence_timestamps clock clock s) rows
       \<and> (\<forall>k row. btm_get rows k = Some row \<longrightarrow> \<not> same_name row s))"
  using rows_any [OF assms] by (auto simp: rows_insert_def Let_def same_name_def)

lemma save_shape:
  assumes "btm_ok rows"
  shows "snd (rows_save clock s expected rows) = rows
    \<or> (\<exists>row created. btm_get rows (instance_key s) = Some row \<and> inst_version row = expected
         \<and> (created = clock \<or> inst_created_at row = Some created)
         \<and> snd (rows_save clock s expected rows)
             = btm_insert (instance_key s) (with_persistence_timestamps created clock s) rows
         \<and> (\<forall>k r. btm_get rows k = Some r \<longrightarrow> same_name r s \<longrightarrow> inst_id r = inst_id s))"
proof (cases "snd (rows_save clock s expected rows) = rows")
  case False
  then have v: "version_matches (instance_key s) expected rows"
    and unique: "\<not> list_ex (\<lambda>row. inst_tenant_id row = inst_tenant_id s \<and> inst_owner_id row = inst_owner_id s
        \<and> inst_name row = inst_name s \<and> inst_id row \<noteq> inst_id s) (map snd rows)"
    by (auto simp: rows_save_def split: if_splits)
  from v obtain row where row: "btm_get rows (instance_key s) = Some row" "inst_version row = expected"
    by (auto simp: version_matches_def split: option.splits)
  define created where "created = (case inst_created_at row of None \<Rightarrow> clock | Some x \<Rightarrow> x)"
  have "snd (rows_save clock s expected rows)
      = btm_insert (instance_key s) (with_persistence_timestamps created clock s) rows"
    using v unique row(1) by (simp add: rows_save_def created_def)
  moreover have "created = clock \<or> inst_created_at row = Some created"
    by (simp add: created_def split: option.split)
  moreover have "\<forall>k r. btm_get rows k = Some r \<longrightarrow> same_name r s \<longrightarrow> inst_id r = inst_id s"
    using unique rows_any [OF assms] by (auto simp: same_name_def)
  ultimately show ?thesis using row by blast
qed simp

lemma delete_shape:
  "snd (rows_delete t iid expected rows) = rows
    \<or> snd (rows_delete t iid expected rows) = btm_remove (t, iid) rows"
  by (simp add: rows_delete_def)

lemma timestamps_simps [simp]:
  "instance_key (with_persistence_timestamps c u s) = instance_key s"
  "instance_valid calendar (with_persistence_timestamps c u s) = instance_valid calendar s"
  "same_name r (with_persistence_timestamps c u s) = same_name r s"
  "same_name (with_persistence_timestamps c u s) r = same_name s r"
  "inst_version (with_persistence_timestamps c u s) = inst_version s"
  "inst_created_at (with_persistence_timestamps c u s) = Some c"
  by (simp_all add: with_persistence_timestamps_def instance_key_def instance_valid_def same_name_def)

lemma same_name_sym: "same_name a b \<longleftrightarrow> same_name b a"
  by (auto simp: same_name_def)

lemma instances_okD:
  assumes "instances_ok calendar st"
  shows "btm_ok (store_rows st)"
    and "btm_get (store_rows st) k = Some s \<Longrightarrow> row_ok calendar k s"
    and "btm_get (store_rows st) k = Some s \<Longrightarrow> k \<in> store_used st"
    and "btm_get (store_rows st) k = Some s \<Longrightarrow> btm_get (store_rows st) k' = Some s' \<Longrightarrow>
      same_name s s' \<Longrightarrow> k = k'"
  using assms unfolding instances_ok_def by blast+

lemma instances_ok_put:
  assumes ok: "instances_ok calendar st" and row: "row_ok calendar (instance_key s) s"
    and fresh: "\<And>k r. btm_get (store_rows st) k = Some r \<Longrightarrow> same_name r s \<Longrightarrow> k = instance_key s"
    and used: "store_used st' = insert (instance_key s) (store_used st)"
    and rows: "store_rows st' = btm_insert (instance_key s) s (store_rows st)"
  shows "instances_ok calendar st'"
  unfolding instances_ok_def used rows
proof (intro conjI allI impI)
  show "btm_ok (btm_insert (instance_key s) s (store_rows st))"
    using instances_okD(1) [OF ok] by (rule btm_insert_ok)
  show "row_ok calendar k r" "k \<in> insert (instance_key s) (store_used st)"
    if "btm_get (btm_insert (instance_key s) s (store_rows st)) k = Some r" for k r
    using instances_okD(2,3) [OF ok] row that by (auto split: if_splits)
  show "k = k'" if "btm_get (btm_insert (instance_key s) s (store_rows st)) k = Some r"
    "btm_get (btm_insert (instance_key s) s (store_rows st)) k' = Some r'" "same_name r r'" for k k' r r'
  proof (cases "k = instance_key s")
    case True
    then show ?thesis using that fresh [of k' r'] by (cases "k' = instance_key s") (auto simp: same_name_sym)
  next
    case False
    show ?thesis
    proof (cases "k' = instance_key s")
      case True
      then show ?thesis using that fresh [of k r] False by simp
    next
      case False': False
      then show ?thesis using instances_okD(4) [OF ok _ _ that(3)] that(1,2) False by simp
    qed
  qed
qed

lemma instances_ok_step:
  assumes "instance_step calendar st st'" "instances_ok calendar st"
  shows "instances_ok calendar st'"
proof -
  obtain x where x: "instance_write_fits calendar x st" "st' = instance_write_apply x st"
    using assms(1) by (auto simp: instance_step_def)
  note sorted = instances_okD(1) [OF assms(2)]
  show ?thesis
  proof (cases x)
    case (InstanceInsert clock s)
    have grown: "instances_ok calendar (st\<lparr> store_used := insert (instance_key s) (store_used st) \<rparr>)"
      using assms(2) by (auto simp: instances_ok_def)
    show ?thesis
      using insert_shape [OF sorted, of clock s]
    proof (elim disjE conjE)
      assume "snd (rows_insert clock s (store_rows st)) = store_rows st"
      then show ?thesis
        using grown x InstanceInsert by (simp add: instance_write_apply_def instances_ok_def)
    next
      assume shape: "snd (rows_insert clock s (store_rows st))
          = btm_insert (instance_key s) (with_persistence_timestamps clock clock s) (store_rows st)"
        "\<forall>k row. btm_get (store_rows st) k = Some row \<longrightarrow> \<not> same_name row s"
      show ?thesis
        by (rule instances_ok_put [OF assms(2), where s = "with_persistence_timestamps clock clock s"])
          (use x shape InstanceInsert in \<open>auto simp: instance_write_apply_def row_ok_def\<close>)
    qed
  next
    case (InstanceSave clock s expected)
    consider (same) "snd (rows_save clock s expected (store_rows st)) = store_rows st"
      | (put) row created where "btm_get (store_rows st) (instance_key s) = Some row"
        "created = clock \<or> inst_created_at row = Some created"
        "snd (rows_save clock s expected (store_rows st))
          = btm_insert (instance_key s) (with_persistence_timestamps created clock s) (store_rows st)"
        "\<forall>k r. btm_get (store_rows st) k = Some r \<longrightarrow> same_name r s \<longrightarrow> inst_id r = inst_id s"
      using save_shape [OF sorted, of clock s expected] by blast
    then show ?thesis
    proof cases
      case same
      then show ?thesis
        using assms(2) x InstanceSave by (simp add: instance_write_apply_def instances_ok_def)
    next
      case shape: (put row created)
      have here: "row_ok calendar (instance_key s) row" "instance_key s \<in> store_used st"
        using instances_okD(2,3) [OF assms(2) shape(1)] .
      have "k = instance_key s" if "btm_get (store_rows st) k = Some r" "same_name r s" for k r
        using instances_okD(2) [OF assms(2) that(1)] shape(4) that
        by (auto simp: row_ok_def instance_key_def same_name_def)
      then show ?thesis
        using here x shape InstanceSave
        by (intro instances_ok_put [OF assms(2), where s = "with_persistence_timestamps created clock s"])
          (auto simp: instance_write_apply_def row_ok_def)
    qed
  next
    case (InstanceDelete t iid expected)
    then show ?thesis
      using delete_shape [of t iid expected "store_rows st"] assms(2) x
      by (auto simp: instances_ok_def instance_write_apply_def btm_remove_ok split: if_splits)
  qed
qed

section \<open>Growth\<close>

lemma instances_laterD:
  assumes "instances_later st st'" "k \<in> store_used st" "btm_get (store_rows st') k = Some s'"
  shows "\<exists>s. btm_get (store_rows st) k = Some s
    \<and> (s' = s \<or> unat (inst_version s) < unat (inst_version s'))"
proof -
  have "case btm_get (store_rows st) k of None \<Rightarrow> False
      | Some s \<Rightarrow> s' = s \<or> unat (inst_version s) < unat (inst_version s')"
    using bspec [OF conjunct2 [OF assms(1) [unfolded instances_later_def]] assms(2)] assms(3) by simp
  then show ?thesis by (cases "btm_get (store_rows st) k") simp_all
qed

lemma instances_laterI:
  assumes "store_used st \<subseteq> store_used st'"
    and "\<And>k s'. k \<in> store_used st \<Longrightarrow> btm_get (store_rows st') k = Some s' \<Longrightarrow>
      \<exists>s. btm_get (store_rows st) k = Some s \<and> (s' = s \<or> unat (inst_version s) < unat (inst_version s'))"
  shows "instances_later st st'"
  unfolding instances_later_def
proof (intro conjI ballI)
  fix k assume k: "k \<in> store_used st"
  show "case btm_get (store_rows st') k of None \<Rightarrow> True
    | Some s' \<Rightarrow> (case btm_get (store_rows st) k of None \<Rightarrow> False
        | Some s \<Rightarrow> s' = s \<or> unat (inst_version s) < unat (inst_version s'))"
  proof (cases "btm_get (store_rows st') k")
    case (Some s')
    then show ?thesis using assms(2) [OF k Some] by auto
  qed simp
qed (rule assms(1))

lemma instances_later_trans:
  assumes "instances_later st st'" "instances_later st' st''"
  shows "instances_later st st''"
proof (rule instances_laterI)
  show "store_used st \<subseteq> store_used st''" using assms by (auto simp: instances_later_def)
  fix k s'' assume k: "k \<in> store_used st" "btm_get (store_rows st'') k = Some s''"
  then have "k \<in> store_used st'" using assms(1) by (auto simp: instances_later_def)
  then obtain s' where "btm_get (store_rows st') k = Some s'"
    "s'' = s' \<or> unat (inst_version s') < unat (inst_version s'')"
    using instances_laterD [OF assms(2) _ k(2)] by blast
  moreover then obtain s where "btm_get (store_rows st) k = Some s"
    "s' = s \<or> unat (inst_version s) < unat (inst_version s')"
    using instances_laterD [OF assms(1) k(1)] by blast
  ultimately show "\<exists>s. btm_get (store_rows st) k = Some s
      \<and> (s'' = s \<or> unat (inst_version s) < unat (inst_version s''))"
    by auto
qed

lemma instances_later_step:
  assumes "instance_step calendar st st'" "instances_ok calendar st"
  shows "instances_later st st'"
proof -
  obtain x where x: "instance_write_fits calendar x st" "st' = instance_write_apply x st"
    using assms(1) by (auto simp: instance_step_def)
  note sorted = instances_okD(1) [OF assms(2)]
  show ?thesis
  proof (cases x)
    case (InstanceInsert clock s)
    then show ?thesis
      using x insert_shape [OF sorted, of clock s]
      by (intro instances_laterI) (auto simp: instance_write_apply_def split: if_splits)
  next
    case (InstanceSave clock s expected)
    then show ?thesis
      using x save_shape [OF sorted, of clock s expected]
      by (intro instances_laterI) (auto simp: instance_write_apply_def split: if_splits)
  next
    case (InstanceDelete t iid expected)
    then show ?thesis
      using x delete_shape [of t iid expected "store_rows st"]
      by (intro instances_laterI) (auto simp: instance_write_apply_def split: if_splits)
  qed
qed

interpretation instance_machine:
  growing_machine empty_instance_store "instance_step calendar" "instances_ok calendar" instances_later
  for calendar
proof unfold_locales
  show "instances_ok calendar empty_instance_store"
    by (simp add: instances_ok_def empty_instance_store_def btm_get_def btm_ok_def)
  show "instances_later st st" for st by (rule instances_laterI) auto
qed (auto intro: instances_ok_step instances_later_step instances_later_trans)

text \<open>A row that still carries the version it had earlier is the same row.\<close>

lemma same_version_same_row:
  assumes "instances_later st st'" "instances_ok calendar st"
    and "btm_get (store_rows st) k = Some s" "btm_get (store_rows st') k = Some s'"
    and "inst_version s' = inst_version s"
  shows "s' = s"
  using instances_laterD [OF assms(1) instances_okD(3) [OF assms(2,3)] assms(4)] assms(3,5) by auto

end
