(* ===== verification/Instance_Service.thy ===== *)
theory Instance_Service
  imports Instance_Store Session_Service
begin

text \<open>
  The instance service (\<open>instance_service.rs\<close>): validation, the optimistic-version handshake and the
  delete guard over any repository. A repository call that has not answered within the timeout is
  \<open>None\<close>. Identifiers of new instances are generated by the environment.
\<close>

record 'w instance_repository_port =
  irepo_insert :: "sandbox_instance \<Rightarrow> ('w, sandbox_instance instance_repository_result option) state"
  irepo_list :: "tenant_id \<Rightarrow> sandbox_instance_owner_id option \<Rightarrow> sandbox_instance_state option
    \<Rightarrow> instance_list_cursor option \<Rightarrow> u32 \<Rightarrow> ('w, instance_list_page instance_repository_result option) state"
  irepo_list_offset :: "tenant_id \<Rightarrow> sandbox_instance_owner_id option \<Rightarrow> sandbox_instance_state option
    \<Rightarrow> u64 \<Rightarrow> u32 \<Rightarrow> ('w, instance_offset_page instance_repository_result option) state"
  irepo_get :: "tenant_id \<Rightarrow> sandbox_instance_id
    \<Rightarrow> ('w, sandbox_instance option instance_repository_result option) state"
  irepo_save :: "sandbox_instance \<Rightarrow> u64 \<Rightarrow> ('w, bool instance_repository_result option) state"
  irepo_delete :: "tenant_id \<Rightarrow> sandbox_instance_id \<Rightarrow> u64
    \<Rightarrow> ('w, bool instance_repository_result option) state"

record 'w instance_service =
  isvc_repository :: "'w instance_repository_port"
  isvc_generate_id :: "('w, sandbox_instance_id) state"
  isvc_calendar :: "string \<Rightarrow> bool"

definition instance_bounded ::
  "('w, 'a instance_repository_result option) state \<Rightarrow> ('w, 'a instance_repository_result) state" where
  "instance_bounded m =
     do { r \<leftarrow> m; ret (case r of Some x \<Rightarrow> x | None \<Rightarrow> Inl InstanceStoreUnavailable) }"

definition max_instance_page_size :: u32 where "max_instance_page_size = 200"

definition normalize_page_size :: "u32 \<Rightarrow> u32 instance_result" where
  "normalize_page_size n =
     (if n = 0 \<or> n > max_instance_page_size
      then Inl (InstanceValidation ''page_size'' ''must be between 1 and 200'')
      else Inr n)"

definition instance_create ::
  "'w instance_service \<Rightarrow> create_instance_command \<Rightarrow> ('w, sandbox_instance instance_result) state" where
  "instance_create svc c =
     do { iid \<leftarrow> isvc_generate_id svc;
          case instance_request (isvc_calendar svc) iid c of
            Inl e \<Rightarrow> ret (Inl e)
          | Inr s \<Rightarrow>
              do { stored \<leftarrow> instance_bounded (irepo_insert (isvc_repository svc) s);
                   ret (case stored of
                          Inr x \<Rightarrow> Inr x
                        | Inl e \<Rightarrow>
                            if e = InstanceRowDuplicateName then Inl (InstanceDuplicateName (inst_name s))
                            else Inl (InstanceRepository e)) } }"

definition instance_list ::
  "'w instance_service \<Rightarrow> tenant_id \<Rightarrow> sandbox_instance_owner_id option \<Rightarrow> sandbox_instance_state option
     \<Rightarrow> instance_list_cursor option \<Rightarrow> u32 \<Rightarrow> ('w, instance_list_page instance_result) state" where
  "instance_list svc t owner st cursor page_size =
     (case normalize_page_size page_size of
        Inl e \<Rightarrow> ret (Inl e)
      | Inr n \<Rightarrow>
          do { r \<leftarrow> instance_bounded (irepo_list (isvc_repository svc) t owner st cursor n);
               ret (map_sum InstanceRepository id r) })"

definition instance_list_offset ::
  "'w instance_service \<Rightarrow> tenant_id \<Rightarrow> sandbox_instance_owner_id option \<Rightarrow> sandbox_instance_state option
     \<Rightarrow> u32 \<Rightarrow> u32 \<Rightarrow> ('w, instance_offset_page instance_result) state" where
  "instance_list_offset svc t owner st page page_size =
     (case normalize_page_size page_size of
        Inl e \<Rightarrow> ret (Inl e)
      | Inr n \<Rightarrow>
          if page = 0 \<or> page > max_instance_page_number then
            ret (Inl (InstanceValidation ''page'' ''must be between 1 and 10000''))
          else
            (let offset = (ucast (page - 1) * ucast n :: u64)
             in do { r \<leftarrow> instance_bounded (irepo_list_offset (isvc_repository svc) t owner st offset n);
                     ret (map_sum InstanceRepository id r) }))"

definition instance_retrieve ::
  "'w instance_service \<Rightarrow> tenant_id \<Rightarrow> sandbox_instance_id \<Rightarrow> ('w, sandbox_instance instance_result) state" where
  "instance_retrieve svc t iid =
     do { r \<leftarrow> instance_bounded (irepo_get (isvc_repository svc) t iid);
          ret (case r of
                 Inl e \<Rightarrow> Inl (InstanceRepository e)
               | Inr None \<Rightarrow> Inl (InstanceNotFound t iid)
               | Inr (Some s) \<Rightarrow> Inr s) }"

text \<open>A refused compare-and-swap: the row vanished, or it moved.\<close>

definition instance_refused ::
  "'w instance_service \<Rightarrow> tenant_id \<Rightarrow> sandbox_instance_id \<Rightarrow> ('w, 'a instance_result) state" where
  "instance_refused svc t iid =
     do { again \<leftarrow> instance_retrieve svc t iid;
          ret (case again of
                 Inl _ \<Rightarrow> Inl (InstanceNotFound t iid)
               | Inr _ \<Rightarrow> Inl (InstanceVersionConflict iid)) }"

definition instance_update ::
  "'w instance_service \<Rightarrow> update_instance_command \<Rightarrow> ('w, sandbox_instance instance_result) state" where
  "instance_update svc c =
     try_bind (instance_retrieve svc (ui_tenant_id c) (ui_instance_id c))
       (\<lambda>s. case instance_apply_update (isvc_calendar svc) c s of
          Inl e \<Rightarrow> ret (Inl e)
        | Inr s1 \<Rightarrow>
            (case instance_next_version s1 of
               Inl e \<Rightarrow> ret (Inl e)
             | Inr (expected, s2) \<Rightarrow>
                 do { stored \<leftarrow> instance_bounded (irepo_save (isvc_repository svc) s2 expected);
                      case stored of
                        Inl e \<Rightarrow> ret (Inl (InstanceRepository e))
                      | Inr ok \<Rightarrow>
                          if \<not> ok then instance_refused svc (ui_tenant_id c) (ui_instance_id c)
                          else instance_retrieve svc (ui_tenant_id c) (ui_instance_id c) }))"

definition instance_delete ::
  "'w instance_service \<Rightarrow> tenant_id \<Rightarrow> sandbox_instance_id \<Rightarrow> ('w, unit instance_result) state" where
  "instance_delete svc t iid =
     try_bind (instance_retrieve svc t iid)
       (\<lambda>s. if \<not> instance_is_deletable (inst_state s) then ret (Inl (InstanceNotDeletable (inst_state s)))
          else
            do { deleted \<leftarrow> instance_bounded (irepo_delete (isvc_repository svc) t iid (inst_version s));
                 case deleted of
                   Inl e \<Rightarrow> ret (Inl (InstanceRepository e))
                 | Inr ok \<Rightarrow>
                     if \<not> ok then instance_refused svc t iid else ret (Inr ()) })"

text \<open>
  The re-check after a refused compare-and-swap takes every failure for a vanished row, a store that
  does not answer included.
\<close>

lemma failed_recheck_reports_not_found:
  "run_state (instance_retrieve svc t iid) w = (Inl e, w') \<Longrightarrow>
     run_state (instance_refused svc t iid) w = (Inl (InstanceNotFound t iid), w')"
  by (simp add: instance_refused_def)

end
