(* ===== verification/Instance_World.thy ===== *)
theory Instance_World
  imports Instance_Store_Inv Instance_Service
begin

text \<open>
  The instance service on the in-memory rows, with other writers at work: before each repository call
  the world consumes an agenda entry with the writes of others, the storage clock and the fate of the
  call (answered, or timed out before or after it took effect). Other writers use the same service, so
  only writes that fit are applied. The world keeps a log of the rows this service replaced and removed.
\<close>

datatype call_fate = Answered | LostBefore | LostAfter

datatype row_event = RowReplaced sandbox_instance sandbox_instance | RowRemoved sandbox_instance

record instance_world =
  iw_store :: instance_store
  iw_clock :: string
  iw_fate :: call_fate
  iw_agenda :: "(instance_write list \<times> string \<times> call_fate) list"
  iw_committed :: "row_event list"
  iw_ids :: "sandbox_instance_id list"

definition apply_fitting :: "(string \<Rightarrow> bool) \<Rightarrow> instance_write \<Rightarrow> instance_store \<Rightarrow> instance_store" where
  "apply_fitting calendar x st = (if instance_write_fits calendar x st then instance_write_apply x st else st)"

definition instance_interfere :: "(string \<Rightarrow> bool) \<Rightarrow> instance_world \<Rightarrow> instance_world" where
  "instance_interfere calendar w =
     (case iw_agenda w of
        [] \<Rightarrow> w
      | (writes, clock, fate) # rest \<Rightarrow>
          w\<lparr> iw_store := fold (apply_fitting calendar) writes (iw_store w), iw_clock := clock,
             iw_fate := fate, iw_agenda := rest \<rparr>)"

text \<open>A call on the rows: \<open>mark\<close> records the keys it uses, \<open>ev\<close> what it logs when it takes effect.\<close>

definition rows_call ::
  "(string \<Rightarrow> bool) \<Rightarrow> ((tenant_id \<times> sandbox_instance_id) set \<Rightarrow> (tenant_id \<times> sandbox_instance_id) set)
     \<Rightarrow> (string \<Rightarrow> instance_rows \<Rightarrow> 'a \<times> instance_rows)
     \<Rightarrow> (instance_rows \<Rightarrow> instance_rows \<Rightarrow> row_event list) \<Rightarrow> (instance_world, 'a option) state" where
  "rows_call calendar mark f ev = State (\<lambda>w.
     let w1 = instance_interfere calendar w;
         rows = store_rows (iw_store w1);
         (r, rows') = f (iw_clock w1) rows;
         w2 = w1\<lparr> iw_store := \<lparr> store_rows = rows', store_used = mark (store_used (iw_store w1)) \<rparr>,
                iw_committed := iw_committed w1 @ ev rows rows' \<rparr>
     in (case iw_fate w1 of Answered \<Rightarrow> (Some r, w2) | LostBefore \<Rightarrow> (None, w1) | LostAfter \<Rightarrow> (None, w2)))"

definition changed_row ::
  "(tenant_id \<times> sandbox_instance_id) \<Rightarrow> instance_rows \<Rightarrow> instance_rows \<Rightarrow> row_event list" where
  "changed_row k rows rows' =
     (case (btm_get rows k, btm_get rows' k) of
        (Some old, Some new) \<Rightarrow> if rows' = rows then [] else [RowReplaced old new]
      | (Some old, None) \<Rightarrow> [RowRemoved old]
      | _ \<Rightarrow> [])"

definition rows_port :: "(string \<Rightarrow> bool) \<Rightarrow> instance_world instance_repository_port" where
  "rows_port calendar = \<lparr>
     irepo_insert = (\<lambda>s. rows_call calendar (insert (instance_key s)) (\<lambda>clock. rows_insert clock s) (\<lambda>_ _. [])),
     irepo_list = (\<lambda>t owner st cursor n. rows_call calendar id
       (\<lambda>_ rows. (rows_list calendar t owner st cursor n rows, rows)) (\<lambda>_ _. [])),
     irepo_list_offset = (\<lambda>t owner st offset n. rows_call calendar id
       (\<lambda>_ rows. (rows_list_offset t owner st offset n rows, rows)) (\<lambda>_ _. [])),
     irepo_get = (\<lambda>t iid. rows_call calendar id (\<lambda>_ rows. (rows_get t iid rows, rows)) (\<lambda>_ _. [])),
     irepo_save = (\<lambda>s expected. rows_call calendar id (\<lambda>clock. rows_save clock s expected)
       (changed_row (instance_key s))),
     irepo_delete = (\<lambda>t iid expected. rows_call calendar id (\<lambda>_. rows_delete t iid expected)
       (changed_row (t, iid))) \<rparr>"

definition rows_service :: "(string \<Rightarrow> bool) \<Rightarrow> instance_world instance_service" where
  "rows_service calendar = \<lparr> isvc_repository = rows_port calendar,
     isvc_generate_id = State (\<lambda>w. case iw_ids w of [] \<Rightarrow> ('''', w) | i # is \<Rightarrow> (i, w\<lparr> iw_ids := is \<rparr>)),
     isvc_calendar = calendar \<rparr>"

text \<open>The invariant, and how worlds grow.\<close>

definition instance_world_ok :: "(string \<Rightarrow> bool) \<Rightarrow> instance_world \<Rightarrow> bool" where
  "instance_world_ok calendar w \<longleftrightarrow> instances_ok calendar (iw_store w)
     \<and> validate_expires_at calendar (iw_clock w) = Inr ()
     \<and> list_all (\<lambda>e. validate_expires_at calendar (fst (snd e)) = Inr ()) (iw_agenda w)"

definition world_evolves :: "(string \<Rightarrow> bool) \<Rightarrow> instance_world \<Rightarrow> instance_world \<Rightarrow> bool" where
  "world_evolves calendar w w' \<longleftrightarrow>
     instance_world_ok calendar w' \<and> instances_later (iw_store w) (iw_store w')"

lemma fitting_steps: "(instance_step calendar)\<^sup>*\<^sup>* st (fold (apply_fitting calendar) xs st)"
proof (induction xs arbitrary: st)
  case (Cons x xs)
  have "(instance_step calendar)\<^sup>*\<^sup>* st (apply_fitting calendar x st)"
    by (auto simp: apply_fitting_def instance_step_def intro!: r_into_rtranclp)
  also have "(instance_step calendar)\<^sup>*\<^sup>* \<dots> (fold (apply_fitting calendar) xs (apply_fitting calendar x st))"
    by (rule Cons.IH)
  finally show ?case by simp
qed simp

lemma interfere_evolves:
  assumes "instance_world_ok calendar w"
  shows "world_evolves calendar w (instance_interfere calendar w)"
proof (cases "iw_agenda w")
  case Nil
  then show ?thesis
    using assms instance_machine.grows_refl by (simp add: world_evolves_def instance_interfere_def)
next
  case (Cons e rest)
  obtain writes clock fate where e: "e = (writes, clock, fate)" by (cases e)
  note steps = fitting_steps [of calendar "iw_store w" writes]
  have ok: "instances_ok calendar (iw_store w)" using assms by (simp add: instance_world_ok_def)
  show ?thesis
    using assms Cons e instance_machine.steps_inv [OF steps ok] instance_machine.steps_grow [OF steps ok]
    by (simp add: world_evolves_def instance_interfere_def instance_world_ok_def)
qed

lemma interfere_committed [simp]: "iw_committed (instance_interfere calendar w) = iw_committed w"
  by (simp add: instance_interfere_def split: list.split)

lemma evolves_trans:
  "world_evolves calendar w w' \<Longrightarrow> world_evolves calendar w' w'' \<Longrightarrow> world_evolves calendar w w''"
  using instance_machine.grows_trans by (auto simp: world_evolves_def)

text \<open>A call that leaves the rows alone.\<close>

lemma store_same [simp]: "\<lparr> store_rows = store_rows st, store_used = store_used st \<rparr> = st"
  by simp

lemma reading_call:
  assumes "instance_world_ok calendar w"
    and "run_state (rows_call calendar id (\<lambda>_ rows. (g rows, rows)) (\<lambda>_ _. [])) w = (r, w')"
  shows "world_evolves calendar w w'" "iw_committed w' = iw_committed w"
    "r = None \<or> r = Some (g (store_rows (iw_store w')))"
  using interfere_evolves [OF assms(1)] assms(2)
  by (auto simp: rows_call_def Let_def split: call_fate.splits)

lemma retrieve_run:
  assumes "instance_world_ok calendar w"
    and "run_state (instance_retrieve (rows_service calendar) t iid) w = (r, w')"
  shows "world_evolves calendar w w'" "iw_committed w' = iw_committed w"
    "r = Inr s \<Longrightarrow> btm_get (store_rows (iw_store w')) (t, iid) = Some s"
proof -
  obtain x where x: "run_state (rows_call calendar id (\<lambda>_ rows. (rows_get t iid rows, rows)) (\<lambda>_ _. [])) w
      = (x, w')" "r = Inr s \<Longrightarrow> x = Some (Inr (Some s))"
    using assms(2)
    by (auto simp: instance_retrieve_def instance_bounded_def rows_service_def rows_port_def
        split: prod.splits sum.splits option.splits)
  note c = reading_call [OF assms(1) x(1)]
  show "world_evolves calendar w w'" "iw_committed w' = iw_committed w" using c(1,2) .
  show "r = Inr s \<Longrightarrow> btm_get (store_rows (iw_store w')) (t, iid) = Some s"
    using x(2) c(3) by (auto simp: rows_get_def)
qed

text \<open>What a compare-and-swap commits.\<close>

lemma insert_changes: "btm_ok rows \<Longrightarrow> btm_get rows k = Some old \<Longrightarrow> new \<noteq> old \<Longrightarrow>
    changed_row k rows (btm_insert k new rows) = [RowReplaced old new]"
  by (auto simp: changed_row_def) (metis btm_get_insert option.inject)

lemma remove_changes: "btm_get rows k = Some old \<Longrightarrow> changed_row k rows (btm_remove k rows) = [RowRemoved old]"
  by (simp add: changed_row_def btm_get_remove)

lemma save_commits:
  assumes "instance_world_ok calendar w" "instance_valid calendar s"
    and "unat (inst_version s) = Suc (unat expected)"
    and "run_state (instance_bounded (irepo_save (rows_port calendar) s expected)) w = (r, w')"
  shows "world_evolves calendar w w'"
    "iw_committed w' = iw_committed w \<and> r \<noteq> Inr True
     \<or> (\<exists>w1 old created clock. world_evolves calendar w w1
       \<and> btm_get (store_rows (iw_store w1)) (instance_key s) = Some old \<and> inst_version old = expected
       \<and> iw_committed w' = iw_committed w @ [RowReplaced old (with_persistence_timestamps created clock s)]
       \<and> btm_get (store_rows (iw_store w')) (instance_key s) = Some (with_persistence_timestamps created clock s))"
proof -
  define w1 where "w1 = instance_interfere calendar w"
  define rows where "rows = store_rows (iw_store w1)"
  define w2 where "w2 = w1\<lparr> iw_store := \<lparr> store_rows = snd (rows_save (iw_clock w1) s expected rows),
        store_used = store_used (iw_store w1) \<rparr>,
      iw_committed := iw_committed w1 @ changed_row (instance_key s) rows (snd (rows_save (iw_clock w1) s expected rows)) \<rparr>"
  have w1: "world_evolves calendar w w1" "iw_committed w1 = iw_committed w"
    using interfere_evolves [OF assms(1)] by (simp_all add: w1_def)
  then have ok1: "instance_world_ok calendar w1" by (simp add: world_evolves_def)
  have fits: "instance_write_fits calendar (InstanceSave (iw_clock w1) s expected) (iw_store w1)"
    using ok1 assms(2,3) by (simp add: instance_world_ok_def)
  have "instance_step calendar (iw_store w1) (iw_store w2)"
    unfolding instance_step_def
    by (rule exI [of _ "InstanceSave (iw_clock w1) s expected"])
      (use fits in \<open>simp add: w2_def rows_def instance_write_apply_def\<close>)
  then have w2: "world_evolves calendar w1 w2"
    using ok1 instances_ok_step instances_later_step
    by (auto simp: world_evolves_def instance_world_ok_def w2_def)
  have run: "(w' = w1 \<or> w' = w2) \<and> (r = Inl InstanceStoreUnavailable
      \<or> (r = fst (rows_save (iw_clock w1) s expected rows) \<and> w' = w2))"
    using assms(4)
    by (auto simp: instance_bounded_def rows_port_def rows_call_def Let_def w1_def rows_def w2_def
        split: prod.splits call_fate.splits)
  show "world_evolves calendar w w'" using run w1 w2 evolves_trans by blast
  show "iw_committed w' = iw_committed w \<and> r \<noteq> Inr True
     \<or> (\<exists>w1 old created clock. world_evolves calendar w w1
       \<and> btm_get (store_rows (iw_store w1)) (instance_key s) = Some old \<and> inst_version old = expected
       \<and> iw_committed w' = iw_committed w @ [RowReplaced old (with_persistence_timestamps created clock s)]
       \<and> btm_get (store_rows (iw_store w')) (instance_key s) = Some (with_persistence_timestamps created clock s))"
  proof (cases "fst (rows_save (iw_clock w1) s expected rows) = Inr True \<and> w' = w2")
    case False
    then have "iw_committed w' = iw_committed w \<and> r \<noteq> Inr True"
      using run w1 by (auto simp: rows_save_def w2_def changed_row_def Let_def split: if_splits option.splits)
    then show ?thesis by blast
  next
    case True
    then have saved: "fst (rows_save (iw_clock w1) s expected rows) = Inr True" "w' = w2" by auto
    obtain old where old: "btm_get rows (instance_key s) = Some old" "inst_version old = expected"
      using saved(1) by (auto simp: rows_save_def version_matches_def split: if_splits option.splits)
    obtain created where put: "snd (rows_save (iw_clock w1) s expected rows)
        = btm_insert (instance_key s) (with_persistence_timestamps created (iw_clock w1) s) rows"
      using saved(1) by (auto simp: rows_save_def Let_def split: if_splits)
    have "with_persistence_timestamps created (iw_clock w1) s \<noteq> old"
      using old(2) assms(3) timestamps_simps(5) by (metis n_not_Suc_n)
    then have "iw_committed w2 = iw_committed w
        @ [RowReplaced old (with_persistence_timestamps created (iw_clock w1) s)]"
      using insert_changes [of rows, OF _ old(1)] put w1(2) ok1
      by (simp add: w2_def rows_def instance_world_ok_def instances_ok_def)
    moreover have "btm_get (store_rows (iw_store w2)) (instance_key s)
        = Some (with_persistence_timestamps created (iw_clock w1) s)"
      using ok1 put by (simp add: w2_def rows_def instance_world_ok_def instances_ok_def)
    ultimately show ?thesis
      using w1(1) old saved(2) unfolding rows_def by blast
  qed
qed

lemma delete_commits:
  assumes "instance_world_ok calendar w"
    and "run_state (instance_bounded (irepo_delete (rows_port calendar) t iid expected)) w = (r, w')"
  shows "world_evolves calendar w w'"
    "iw_committed w' = iw_committed w \<and> r \<noteq> Inr True
     \<or> (\<exists>w1 old. world_evolves calendar w w1
       \<and> btm_get (store_rows (iw_store w1)) (t, iid) = Some old \<and> inst_version old = expected
       \<and> iw_committed w' = iw_committed w @ [RowRemoved old]
       \<and> btm_get (store_rows (iw_store w')) (t, iid) = None)"
proof -
  define w1 where "w1 = instance_interfere calendar w"
  define rows where "rows = store_rows (iw_store w1)"
  define w2 where "w2 = w1\<lparr> iw_store := \<lparr> store_rows = snd (rows_delete t iid expected rows),
        store_used = store_used (iw_store w1) \<rparr>,
      iw_committed := iw_committed w1 @ changed_row (t, iid) rows (snd (rows_delete t iid expected rows)) \<rparr>"
  have w1: "world_evolves calendar w w1" "iw_committed w1 = iw_committed w"
    using interfere_evolves [OF assms(1)] by (simp_all add: w1_def)
  then have ok1: "instance_world_ok calendar w1" by (simp add: world_evolves_def)
  have "instance_step calendar (iw_store w1) (iw_store w2)"
    unfolding instance_step_def
    by (rule exI [of _ "InstanceDelete t iid expected"])
      (simp add: w2_def rows_def instance_write_apply_def)
  then have w2: "world_evolves calendar w1 w2"
    using ok1 instances_ok_step instances_later_step
    by (auto simp: world_evolves_def instance_world_ok_def w2_def)
  have run: "(w' = w1 \<or> w' = w2) \<and> (r = Inl InstanceStoreUnavailable
      \<or> (r = fst (rows_delete t iid expected rows) \<and> w' = w2))"
    using assms(2)
    by (auto simp: instance_bounded_def rows_port_def rows_call_def Let_def w1_def rows_def w2_def
        split: prod.splits call_fate.splits)
  show "world_evolves calendar w w'" using run w1 w2 evolves_trans by blast
  show "iw_committed w' = iw_committed w \<and> r \<noteq> Inr True
     \<or> (\<exists>w1 old. world_evolves calendar w w1
       \<and> btm_get (store_rows (iw_store w1)) (t, iid) = Some old \<and> inst_version old = expected
       \<and> iw_committed w' = iw_committed w @ [RowRemoved old]
       \<and> btm_get (store_rows (iw_store w')) (t, iid) = None)"
  proof (cases "fst (rows_delete t iid expected rows) = Inr True \<and> w' = w2")
    case False
    then have "iw_committed w' = iw_committed w \<and> r \<noteq> Inr True"
      using run w1 by (auto simp: rows_delete_def w2_def changed_row_def split: if_splits option.splits)
    then show ?thesis by blast
  next
    case True
    then obtain old where old: "btm_get rows (t, iid) = Some old" "inst_version old = expected"
      by (auto simp: rows_delete_def version_matches_def split: if_splits option.splits)
    have "snd (rows_delete t iid expected rows) = btm_remove (t, iid) rows"
      using True by (simp add: rows_delete_def split: if_splits)
    then show ?thesis
      using w1 old True remove_changes [OF old(1)] unfolding rows_def
      by (auto simp: w2_def rows_def btm_get_remove)
  qed
qed

text \<open>An update under interference.\<close>

lemma version_field:
  "instance_valid calendar s \<Longrightarrow> int (unat v) \<le> max_instance_version \<Longrightarrow>
     instance_valid calendar (s\<lparr> inst_version := v \<rparr>)"
  "instance_key (s\<lparr> inst_version := v \<rparr>) = instance_key s"
  by (simp_all add: instance_valid_def instance_key_def)

lemma word_succ_eq:
  assumes "unat (v :: u64) = Suc (unat u)" shows "v = u + 1"
proof -
  have "v = of_nat (unat v)" by simp
  also have "\<dots> = of_nat (Suc (unat u))" by (simp only: assms)
  finally show ?thesis by simp
qed

text \<open>The stages of an update, with the outcome of each.\<close>

lemma update_stages:
  assumes "run_state (instance_update (rows_service calendar) c) w = (r, w')"
  obtains (early) e where "r = Inl e"
      "w' = snd (run_state (instance_retrieve (rows_service calendar) (ui_tenant_id c) (ui_instance_id c)) w)"
  | (saved) s0 w1 u v s2 b w2 where
    "run_state (instance_retrieve (rows_service calendar) (ui_tenant_id c) (ui_instance_id c)) w = (Inr s0, w1)"
    "instance_apply_update calendar c s0 = Inr u" "instance_next_version u = Inr (v, s2)"
    "run_state (instance_bounded (irepo_save (rows_port calendar) s2 v)) w1 = (b, w2)"
    "(w' = w2 \<and> (\<exists>e. r = Inl e)) \<or> (\<exists>x. run_state (instance_retrieve (rows_service calendar)
       (ui_tenant_id c) (ui_instance_id c)) w2 = (x, w') \<and> (r = x \<and> b = Inr True \<or> (\<exists>e. r = Inl e)))"
proof -
  have calendar: "isvc_calendar (rows_service calendar) = calendar"
    "isvc_repository (rows_service calendar) = rows_port calendar"
    by (simp_all add: rows_service_def)
  obtain g w1 where get: "run_state (instance_retrieve (rows_service calendar) (ui_tenant_id c)
      (ui_instance_id c)) w = (g, w1)" by force
  show thesis
  proof (cases "\<exists>s0 u v s2. g = Inr s0 \<and> instance_apply_update calendar c s0 = Inr u
      \<and> instance_next_version u = Inr (v, s2)")
    case False
    then have "(\<exists>e. r = Inl e) \<and> w' = w1"
      using assms get by (auto simp: instance_update_def try_bind_def calendar split: sum.splits) metis
    then show thesis using early get by auto
  next
    case True
    then obtain s0 u v s2 where g: "g = Inr s0" "instance_apply_update calendar c s0 = Inr u"
      "instance_next_version u = Inr (v, s2)" by blast
    obtain b w2 where save: "run_state (instance_bounded (irepo_save (rows_port calendar) s2 v)) w1 = (b, w2)"
      by force
    show thesis
    proof (rule saved [OF get [unfolded g(1)] g(2,3) save])
      show "(w' = w2 \<and> (\<exists>e. r = Inl e)) \<or> (\<exists>x. run_state (instance_retrieve (rows_service calendar)
         (ui_tenant_id c) (ui_instance_id c)) w2 = (x, w') \<and> (r = x \<and> b = Inr True \<or> (\<exists>e. r = Inl e)))"
        using assms get g save
        by (auto simp: instance_update_def try_bind_def calendar instance_refused_def
            split: sum.splits prod.splits if_splits)
    qed
  qed
qed

lemma delete_stages:
  assumes "run_state (instance_delete (rows_service calendar) t iid) w = (r, w')"
  obtains (early) e where "r = Inl e"
      "w' = snd (run_state (instance_retrieve (rows_service calendar) t iid) w)"
  | (removed) s w1 b w2 where
    "run_state (instance_retrieve (rows_service calendar) t iid) w = (Inr s, w1)"
    "instance_is_deletable (inst_state s)"
    "run_state (instance_bounded (irepo_delete (rows_port calendar) t iid (inst_version s))) w1 = (b, w2)"
    "(w' = w2 \<and> (r = Inr () \<longleftrightarrow> b = Inr True))
     \<or> (w' = snd (run_state (instance_retrieve (rows_service calendar) t iid) w2)
        \<and> b = Inr False \<and> (\<exists>e. r = Inl e))"
proof -
  have port: "isvc_repository (rows_service calendar) = rows_port calendar"
    by (simp add: rows_service_def)
  obtain g w1 where get: "run_state (instance_retrieve (rows_service calendar) t iid) w = (g, w1)" by force
  show thesis
  proof (cases "\<exists>s. g = Inr s \<and> instance_is_deletable (inst_state s)")
    case False
    then have "(\<exists>e. r = Inl e) \<and> w' = w1"
      using assms get by (auto simp: instance_delete_def try_bind_def split: sum.splits)
    then show thesis using early get by auto
  next
    case True
    then obtain s where g: "g = Inr s" "instance_is_deletable (inst_state s)" by blast
    obtain b w2 where call: "run_state (instance_bounded
        (irepo_delete (rows_port calendar) t iid (inst_version s))) w1 = (b, w2)" by force
    show thesis
    proof (rule removed [OF get [unfolded g(1)] g(2) call])
      show "(w' = w2 \<and> (r = Inr () \<longleftrightarrow> b = Inr True))
        \<or> (w' = snd (run_state (instance_retrieve (rows_service calendar) t iid) w2)
           \<and> b = Inr False \<and> (\<exists>e. r = Inl e))"
        using assms get g call
        by (auto simp: instance_delete_def try_bind_def port instance_refused_def
            split: sum.splits prod.splits if_splits)
    qed
  qed
qed

definition committed_update ::
  "(string \<Rightarrow> bool) \<Rightarrow> update_instance_command \<Rightarrow> sandbox_instance \<Rightarrow> sandbox_instance \<Rightarrow> bool" where
  "committed_update calendar c old new \<longleftrightarrow> instance_key old = (ui_tenant_id c, ui_instance_id c)
     \<and> unat (inst_version new) = Suc (unat (inst_version old))
     \<and> (\<exists>u created clock. instance_apply_update calendar c old = Inr u
          \<and> new = with_persistence_timestamps created clock (u\<lparr> inst_version := inst_version old + 1 \<rparr>))"

lemma update_commits:
  assumes ok: "instance_world_ok calendar w"
    and run: "run_state (instance_update (rows_service calendar) c) w = (r, w')"
  shows "iw_committed w' = iw_committed w \<and> (\<exists>e. r = Inl e)
    \<or> (\<exists>old new. iw_committed w' = iw_committed w @ [RowReplaced old new]
        \<and> committed_update calendar c old new
        \<and> (\<forall>s. r = Inr s \<longrightarrow> s = new \<or> unat (inst_version new) < unat (inst_version s)))"
  using run
proof (cases rule: update_stages)
  case (early e)
  then show ?thesis
    using retrieve_run(2) [OF ok, of "ui_tenant_id c" "ui_instance_id c"] by (metis prod.collapse)
next
  case (saved s0 w1 u v s2 b w2)
  note get = saved(1) and u = saved(2) and v = saved(3) and save = saved(4)
  note r1 = retrieve_run [OF ok get]
  have ok1: "instance_world_ok calendar w1" using r1(1) by (simp add: world_evolves_def)
  have row0: "btm_get (store_rows (iw_store w1)) (ui_tenant_id c, ui_instance_id c) = Some s0"
    by (rule r1(3)) simp
  note next_ok = instance_next_version_ok [OF v]
  have row_ok0: "row_ok calendar (ui_tenant_id c, ui_instance_id c) s0"
    using instances_okD(2) [OF _ row0] ok1 by (simp add: instance_world_ok_def)
  have u_ok: "instance_core u = instance_core s0" "instance_valid calendar u"
    using apply_update_ok [OF u] row_ok0 by (auto simp: row_ok_def)
  have v0: "v = inst_version s0" "inst_version u = inst_version s0" using next_ok u_ok(1)
    by (auto simp: instance_core_def)
  have "inst_version s2 = inst_version s0 + 1" using next_ok v0 by (intro word_succ_eq) simp
  then have s2: "s2 = u\<lparr> inst_version := inst_version s0 + 1 \<rparr>"
    "unat (inst_version s0 + 1) = Suc (unat (inst_version s0))" using next_ok v0 by auto
  have valid2: "instance_valid calendar s2"
  proof -
    have "int (unat (inst_version s2)) \<le> max_instance_version" using next_ok by blast
    from version_field(1) [OF u_ok(2) this] show ?thesis by (simp add: s2(1))
  qed
  have "instance_key u = instance_key s0" using u_ok(1) by (simp add: instance_key_def instance_core_def)
  then have key0: "instance_key s0 = (ui_tenant_id c, ui_instance_id c)"
    and key2: "instance_key s2 = (ui_tenant_id c, ui_instance_id c)"
    using row_ok0 by (simp_all add: s2(1) version_field row_ok_def)
  have "unat (inst_version s2) = Suc (unat v)" using next_ok by simp
  note commit = save_commits [OF ok1 valid2 this save]
  have ok2: "instance_world_ok calendar w2" using commit(1) by (simp add: world_evolves_def)
  have kept: "iw_committed w' = iw_committed w2"
    using saved(5) retrieve_run(2) [OF ok2] by blast
  from commit(2) show ?thesis
  proof (elim disjE exE conjE)
    assume "iw_committed w2 = iw_committed w1" "b \<noteq> Inr True"
    then show ?thesis using saved(5) kept r1(2) by auto
  next
    fix wm old created clock
    assume old: "world_evolves calendar w1 wm"
      "btm_get (store_rows (iw_store wm)) (instance_key s2) = Some old" "inst_version old = v"
      "iw_committed w2 = iw_committed w1 @ [RowReplaced old (with_persistence_timestamps created clock s2)]"
      "btm_get (store_rows (iw_store w2)) (instance_key s2) = Some (with_persistence_timestamps created clock s2)"
    have same: "old = s0"
      by (rule same_version_same_row [of "iw_store w1" "iw_store wm" calendar, OF _ _ row0])
        (use old v0 key2 ok1 in \<open>simp_all add: world_evolves_def instance_world_ok_def\<close>)
    have "s = with_persistence_timestamps created clock s2 \<or> unat (inst_version s2) < unat (inst_version s)"
      if "r = Inr s" for s
    proof -
      have reread: "run_state (instance_retrieve (rows_service calendar) (ui_tenant_id c) (ui_instance_id c)) w2
          = (Inr s, w')" using saved(5) that by auto
      have "instances_later (iw_store w2) (iw_store w')" "instances_ok calendar (iw_store w2)"
        using retrieve_run(1) [OF ok2 reread] ok2 by (simp_all add: world_evolves_def instance_world_ok_def)
      then show ?thesis
        using instances_laterD [OF _ instances_okD(3) [OF _ old(5)]
            retrieve_run(3) [OF ok2 reread refl, folded key2]] old(5)
        by auto
    qed
    moreover have "committed_update calendar c s0 (with_persistence_timestamps created clock s2)"
      using key0 u s2 unfolding committed_update_def by auto
    ultimately show ?thesis
      using old(4) same r1(2) kept by (intro disjI2 exI [of _ s0]
          exI [of _ "with_persistence_timestamps created clock s2"]) simp
  qed
qed

text \<open>A delete under interference.\<close>

lemma delete_removes:
  assumes ok: "instance_world_ok calendar w"
    and run: "run_state (instance_delete (rows_service calendar) t iid) w = (r, w')"
  shows "iw_committed w' = iw_committed w \<and> (\<exists>e. r = Inl e)
    \<or> (\<exists>old. iw_committed w' = iw_committed w @ [RowRemoved old] \<and> instance_key old = (t, iid)
        \<and> instance_is_deletable (inst_state old)
        \<and> (r = Inr () \<longrightarrow> btm_get (store_rows (iw_store w')) (t, iid) = None))"
  using run
proof (cases rule: delete_stages)
  case (early e)
  then show ?thesis using retrieve_run(2) [OF ok, of t iid] by (metis prod.collapse)
next
  case (removed s w1 b w2)
  note r1 = retrieve_run [OF ok removed(1)]
  have ok1: "instance_world_ok calendar w1" using r1(1) by (simp add: world_evolves_def)
  have row0: "btm_get (store_rows (iw_store w1)) (t, iid) = Some s"
    by (rule r1(3)) simp
  have key: "instance_key s = (t, iid)"
    using instances_okD(2) [OF _ row0, of calendar] ok1 by (simp add: instance_world_ok_def row_ok_def)
  note commit = delete_commits [OF ok1 removed(3)]
  have ok2: "instance_world_ok calendar w2" using commit(1) by (simp add: world_evolves_def)
  have kept: "iw_committed w' = iw_committed w2"
    using removed(4) retrieve_run(2) [OF ok2, of t iid] by (metis prod.collapse)
  from commit(2) show ?thesis
  proof (elim disjE exE conjE)
    assume "iw_committed w2 = iw_committed w1" "b \<noteq> Inr True"
    then show ?thesis using removed(4) kept r1(2) by (cases r) auto
  next
    fix wm old
    assume old: "world_evolves calendar w1 wm" "btm_get (store_rows (iw_store wm)) (t, iid) = Some old"
      "inst_version old = inst_version s" "iw_committed w2 = iw_committed w1 @ [RowRemoved old]"
      "btm_get (store_rows (iw_store w2)) (t, iid) = None"
    have "old = s"
      by (rule same_version_same_row [of "iw_store w1" "iw_store wm" calendar, OF _ _ row0])
        (use old ok1 in \<open>simp_all add: world_evolves_def instance_world_ok_def\<close>)
    then show ?thesis using old(4,5) r1(2) kept key removed(2,4) by auto
  qed
qed

text \<open>A create under interference, with an identifier no one has used.\<close>

lemma insert_answers:
  assumes "btm_ok rows" "rows_insert clock s rows = (Inr x, rows')"
  shows "x = with_persistence_timestamps clock clock s" "rows' = btm_insert (instance_key s) x rows"
  using assms by (auto simp: rows_insert_def Let_def split: if_splits)

lemma create_stores:
  assumes ok: "instance_world_ok calendar w" and ids: "iw_ids w = i # is"
    and fresh: "(ci_tenant_id c, i) \<notin> store_used (iw_store (instance_interfere calendar (w\<lparr> iw_ids := is \<rparr>)))"
    and run: "run_state (instance_create (rows_service calendar) c) w = (r, w')"
  shows "world_evolves calendar w w'" "iw_committed w' = iw_committed w"
    "r = Inr x \<Longrightarrow> btm_get (store_rows (iw_store w')) (ci_tenant_id c, i) = Some x
       \<and> inst_state x = InstRequested \<and> inst_version x = 0 \<and> inst_name x = ci_name c
       \<and> inst_owner_id x = ci_owner_id c"
proof -
  define w0 where "w0 = w\<lparr> iw_ids := is \<rparr>"
  have w0: "instance_world_ok calendar w0" "iw_committed w0 = iw_committed w"
    "\<And>v. world_evolves calendar w0 v \<Longrightarrow> world_evolves calendar w v"
    using ok by (simp_all add: w0_def instance_world_ok_def world_evolves_def)
  have unfolded: "run_state (instance_create (rows_service calendar) c) w
      = (case instance_request calendar i c of
           Inl e \<Rightarrow> (Inl e, w0)
         | Inr s \<Rightarrow> (let (stored, v) = run_state (instance_bounded (irepo_insert (rows_port calendar) s)) w0
             in (case stored of Inr x \<Rightarrow> Inr x
                 | Inl e \<Rightarrow> if e = InstanceRowDuplicateName then Inl (InstanceDuplicateName (inst_name s))
                     else Inl (InstanceRepository e), v)))"
    by (simp add: instance_create_def rows_service_def ids w0_def split: sum.split prod.split)
  have "world_evolves calendar w w' \<and> iw_committed w' = iw_committed w
    \<and> (r = Inr x \<longrightarrow> btm_get (store_rows (iw_store w')) (ci_tenant_id c, i) = Some x
       \<and> inst_state x = InstRequested \<and> inst_version x = 0 \<and> inst_name x = ci_name c
       \<and> inst_owner_id x = ci_owner_id c)"
  proof (cases "instance_request calendar i c")
    case (Inl e)
    have "world_evolves calendar w0 w0"
      using w0(1) instance_machine.grows_refl by (simp add: world_evolves_def)
    then show ?thesis using unfolded run Inl w0 by auto
  next
    case (Inr s)
    note s = request_valid [OF Inr]
    have key: "instance_key s = (ci_tenant_id c, i)" using s by (simp add: instance_key_def)
    define w1 where "w1 = instance_interfere calendar w0"
    define rows where "rows = store_rows (iw_store w1)"
    obtain y rows' where ins: "rows_insert (iw_clock w1) s rows = (y, rows')" by force
    define w2 where "w2 = w1\<lparr> iw_store := \<lparr> store_rows = rows',
      store_used = insert (instance_key s) (store_used (iw_store w1)) \<rparr> \<rparr>"
    have w1: "world_evolves calendar w0 w1" using interfere_evolves [OF w0(1)] by (simp add: w1_def)
    then have ok1: "instance_world_ok calendar w1" by (simp add: world_evolves_def)
    have fits: "instance_write_fits calendar (InstanceInsert (iw_clock w1) s) (iw_store w1)"
      using ok1 s fresh key by (simp add: instance_world_ok_def w1_def w0_def)
    have "instance_step calendar (iw_store w1) (iw_store w2)"
      unfolding instance_step_def
      by (rule exI [of _ "InstanceInsert (iw_clock w1) s"])
        (use fits ins in \<open>simp add: w2_def rows_def instance_write_apply_def\<close>)
    then have w2: "world_evolves calendar w1 w2"
      using ok1 instances_ok_step instances_later_step
      by (auto simp: world_evolves_def instance_world_ok_def w2_def)
    have "run_state (instance_bounded (irepo_insert (rows_port calendar) s)) w0
        = (case iw_fate w1 of Answered \<Rightarrow> (y, w2) | LostBefore \<Rightarrow> (Inl InstanceStoreUnavailable, w1)
           | LostAfter \<Rightarrow> (Inl InstanceStoreUnavailable, w2))"
      using ins by (simp add: instance_bounded_def rows_port_def rows_call_def Let_def w1_def rows_def w2_def
          split: call_fate.split)
    then have "(w' = w1 \<or> w' = w2) \<and> (r = Inr x \<longrightarrow> y = Inr x \<and> w' = w2)"
      using run unfolded Inr by (auto simp: Let_def split: call_fate.splits sum.splits if_splits)
    moreover have "world_evolves calendar w w2" using w0(3) evolves_trans [OF w1 w2] .
    moreover have "world_evolves calendar w w1" using w0(3) [OF w1] .
    moreover have "iw_committed w1 = iw_committed w" "iw_committed w2 = iw_committed w"
      using w0(2) by (simp_all add: w1_def w2_def)
    moreover have "btm_get (store_rows (iw_store w2)) (ci_tenant_id c, i) = Some x
       \<and> inst_state x = InstRequested \<and> inst_version x = 0 \<and> inst_name x = ci_name c
       \<and> inst_owner_id x = ci_owner_id c" if "y = Inr x"
    proof -
      have "btm_ok rows" using ok1 by (simp add: rows_def instance_world_ok_def instances_ok_def)
      note x = insert_answers [OF this ins [unfolded that]]
      show ?thesis using s key x(2) by (simp add: w2_def x(1) with_persistence_timestamps_def)
    qed
    ultimately show ?thesis by blast
  qed
  then show "world_evolves calendar w w'" "iw_committed w' = iw_committed w"
    "r = Inr x \<Longrightarrow> btm_get (store_rows (iw_store w')) (ci_tenant_id c, i) = Some x
       \<and> inst_state x = InstRequested \<and> inst_version x = 0 \<and> inst_name x = ci_name c
       \<and> inst_owner_id x = ci_owner_id c"
    by blast+
qed

lemma update_evolves:
  assumes ok: "instance_world_ok calendar w"
    and run: "run_state (instance_update (rows_service calendar) c) w = (r, w')"
  shows "world_evolves calendar w w'"
  using run
proof (cases rule: update_stages)
  case (early e)
  then show ?thesis
    using retrieve_run(1) [OF ok, of "ui_tenant_id c" "ui_instance_id c"] by (metis prod.collapse)
next
  case (saved s0 w1 u v s2 b w2)
  note r1 = retrieve_run [OF ok saved(1)]
  have ok1: "instance_world_ok calendar w1" using r1(1) by (simp add: world_evolves_def)
  have row: "row_ok calendar (ui_tenant_id c, ui_instance_id c) s0"
    using instances_okD(2) [OF _ r1(3) [OF refl]] ok1 by (simp add: instance_world_ok_def)
  have u_valid: "instance_valid calendar u" using apply_update_ok(3) [OF saved(2)] row by (simp add: row_ok_def)
  note next_ok = instance_next_version_ok [OF saved(3)]
  have "instance_valid calendar (u\<lparr> inst_version := inst_version s2 \<rparr>)"
    using next_ok by (intro version_field(1) [OF u_valid]) blast
  moreover have "u\<lparr> inst_version := inst_version s2 \<rparr> = s2" using next_ok by metis
  ultimately have valid2: "instance_valid calendar s2" by (simp only:)
  have "unat (inst_version s2) = Suc (unat v)" using next_ok by simp
  note commit = save_commits(1) [OF ok1 valid2 this saved(4)]
  then have ok2: "instance_world_ok calendar w2" by (simp add: world_evolves_def)
  have "w' = w2 \<or> world_evolves calendar w2 w'" using saved(5) retrieve_run(1) [OF ok2] by blast
  then show ?thesis using evolves_trans [OF r1(1)] evolves_trans [OF commit] commit by blast
qed

lemma delete_evolves:
  assumes ok: "instance_world_ok calendar w"
    and run: "run_state (instance_delete (rows_service calendar) t iid) w = (r, w')"
  shows "world_evolves calendar w w'"
  using run
proof (cases rule: delete_stages)
  case (early e)
  then show ?thesis using retrieve_run(1) [OF ok, of t iid] by (metis prod.collapse)
next
  case (removed s w1 b w2)
  note r1 = retrieve_run(1) [OF ok removed(1)]
  then have ok1: "instance_world_ok calendar w1" by (simp add: world_evolves_def)
  note commit = delete_commits(1) [OF ok1 removed(3)]
  then have ok2: "instance_world_ok calendar w2" by (simp add: world_evolves_def)
  have "w' = w2 \<or> world_evolves calendar w2 w'"
    using removed(4) retrieve_run(1) [OF ok2, of t iid] by (metis prod.collapse)
  then show ?thesis using evolves_trans [OF r1] evolves_trans [OF commit] commit by blast
qed

end
