(* ===== verification/Instance_Listing.thy ===== *)
theory Instance_Listing
  imports Instance_Store_Inv
begin

text \<open>
  Listing the instances of a scope. The listing by cursor seeks behind the last row it returned, the
  listing by offset skips a number of rows; both read the same ordered scope. \<open>follow_cursors\<close> is the
  client that asks for page after page until no cursor comes back.
\<close>

primrec follow_cursors ::
  "nat \<Rightarrow> (instance_list_cursor option \<Rightarrow> instance_list_page instance_repository_result)
     \<Rightarrow> instance_list_cursor option \<Rightarrow> sandbox_instance list list option" where
  "follow_cursors 0 list_page cursor = None"
| "follow_cursors (Suc n) list_page cursor =
     (case list_page cursor of
        Inl _ \<Rightarrow> None
      | Inr p \<Rightarrow>
          (case list_next_cursor p of
             None \<Rightarrow> Some [list_items p]
           | Some c \<Rightarrow> map_option ((#) (list_items p)) (follow_cursors n list_page (Some c))))"

section \<open>The ordered scope\<close>

definition in_scope ::
  "tenant_id \<Rightarrow> sandbox_instance_owner_id option \<Rightarrow> sandbox_instance_state option \<Rightarrow> sandbox_instance \<Rightarrow> bool" where
  "in_scope t owner st s \<longleftrightarrow> inst_tenant_id s = t \<and> (case owner of None \<Rightarrow> True | Some x \<Rightarrow> inst_owner_id s = x)
     \<and> (case st of None \<Rightarrow> True | Some x \<Rightarrow> inst_state s = x)"

lemma filtered_set: "set (rows_filtered t owner st rows) = {s \<in> snd ` set rows. in_scope t owner st s}"
  by (auto simp: rows_filtered_def in_scope_def)

lemma filtered_length: "length (rows_filtered t owner st rows) \<le> length rows"
  by (simp add: rows_filtered_def)

lemma instances_entry:
  assumes "instances_ok calendar st" "(k, s) \<in> set (store_rows st)"
  shows "instance_key s = k" "\<exists>c. inst_created_at s = Some c \<and> validate_expires_at calendar c = Inr ()"
  using instances_okD(2) [OF assms(1), of k s] instances_okD(1) [OF assms(1)] assms(2)
  by (auto simp: btm_entries row_ok_def)

lemma descending_scope:
  assumes "instances_ok calendar store"
  shows "sorted_wrt (\<lambda>a b. list_key b < list_key a) (rows_filtered t owner st (store_rows store))"
proof -
  let ?rows = "store_rows store"
  define xs where "xs = filter (\<lambda>row. inst_tenant_id row = t) (map snd ?rows)"
  define ys where "ys = filter (\<lambda>row. case st of None \<Rightarrow> True | Some x \<Rightarrow> inst_state row = x)
    (filter (\<lambda>row. case owner of None \<Rightarrow> True | Some x \<Rightarrow> inst_owner_id row = x) xs)"
  have "map (instance_key \<circ> snd) ?rows = map fst ?rows"
    using instances_entry(1) [OF assms] by auto
  moreover have "distinct (map fst ?rows)"
    using instances_okD(1) [OF assms] by (simp add: btm_ok_def strict_sorted_iff)
  ultimately have "distinct (map instance_key (map snd ?rows))" by (simp only: map_map)
  then have "distinct (map instance_key ys)"
    unfolding ys_def xs_def filter_filter by (rule distinct_map_filter)
  moreover have "\<forall>s\<in>set ys. inst_tenant_id s = t" by (simp add: ys_def xs_def)
  ultimately have "distinct (map list_key ys)"
    by (auto simp: distinct_map inj_on_def instance_key_def list_key_def)
  then have "distinct (map list_key (sort_key list_key (rev ys)))"
    by (simp add: distinct_map)
  then have "sorted_wrt (<) (map list_key (sort_key list_key (rev ys)))"
    by (simp add: strict_sorted_iff)
  then show ?thesis
    unfolding rows_filtered_def xs_def [symmetric] ys_def [symmetric]
    by (simp add: sorted_wrt_rev sorted_wrt_map)
qed

section \<open>The seek\<close>

lemma window_start_bound: "window_start k F \<le> length F"
  by (induction F) auto

lemma window_start_after:
  assumes "sorted_wrt (\<lambda>a b. list_key b < list_key a) F" "i < length F"
  shows "window_start (list_key (F ! i)) F = Suc i"
  using assms
proof (induction F arbitrary: i)
  case (Cons s F)
  show ?case
  proof (cases i)
    case 0
    then show ?thesis using Cons.prems by (cases F) auto
  next
    case (Suc j)
    then have "list_key (F ! j) < list_key s" using Cons.prems by auto
    then show ?thesis using Cons Suc by (auto dest: order_less_not_sym)
  qed
qed simp

definition scope_seek ::
  "sandbox_instance list \<Rightarrow> instance_list_cursor option \<Rightarrow> nat \<Rightarrow> bool" where
  "scope_seek F cursor i \<longleftrightarrow> i \<le> length F
     \<and> (case cursor of None \<Rightarrow> i = 0
        | Some c \<Rightarrow> window_start (cursor_created_at c, cursor_instance_id c) F = i)"

lemma page_at:
  fixes t :: tenant_id and store :: instance_store
  assumes ok: "instances_ok calendar store" and size: "page_size \<noteq> 0"
    and F: "F = rows_filtered t owner st (store_rows store)" and seek: "scope_seek F cursor i"
  shows "\<exists>next. rows_list calendar t owner st cursor page_size (store_rows store)
      = Inr \<lparr> list_items = take (unat page_size) (drop i F), list_next_cursor = next \<rparr>
    \<and> (case next of None \<Rightarrow> length (drop i F) \<le> unat page_size
       | Some c \<Rightarrow> length (drop i F) > unat page_size \<and> scope_seek F (Some c) (i + unat page_size))"
proof -
  have start: "(case cursor of None \<Rightarrow> 0
      | Some c \<Rightarrow> window_start (cursor_created_at c, cursor_instance_id c) F) = i"
    using seek by (auto simp: scope_seek_def split: option.splits)
  show ?thesis
  proof (cases "length (drop i F) > unat page_size")
    case False
    then show ?thesis
      using size start by (simp add: rows_list_def Let_def F [symmetric])
  next
    case True
    have pos: "0 < unat page_size" using size by (simp add: unat_gt_0)
    define j where "j = i + unat page_size - 1"
    have j: "j < length F" "Suc j = i + unat page_size" using True pos by (auto simp: j_def)
    have items: "take (unat page_size) (drop i F) \<noteq> []" using True pos by auto
    have last: "last (take (unat page_size) (drop i F)) = F ! j"
      using True pos items by (simp add: last_conv_nth j_def)
    obtain k where "(k, F ! j) \<in> set (store_rows store)"
      using nth_mem [OF j(1)] unfolding F filtered_set by auto
    then obtain created where created: "inst_created_at (F ! j) = Some created"
      "validate_expires_at calendar created = Inr ()" using instances_entry(2) [OF ok] by blast
    have "window_start (created, inst_id (F ! j)) F = Suc j"
      using window_start_after [OF _ j(1)] descending_scope [OF ok] created(1)
      by (simp add: F list_key_def)
    then show ?thesis
      using True size start items last created j
      by (simp add: rows_list_def Let_def F [symmetric] instance_cursor_new_def scope_seek_def)
  qed
qed

section \<open>Following the cursors\<close>

lemma follow_from:
  assumes ok: "instances_ok calendar store" and size: "page_size \<noteq> 0"
    and F: "F = rows_filtered t owner st (store_rows store)" and seek: "scope_seek F cursor i"
    and fuel: "length F < i + n"
  shows "\<exists>pages. follow_cursors n (\<lambda>c. rows_list calendar t owner st c page_size (store_rows store)) cursor
      = Some pages \<and> concat pages = drop i F \<and> pages \<noteq> []
    \<and> (\<forall>m < length pages. pages ! m = take (unat page_size) (drop (i + m * unat page_size) F))"
  using seek fuel
proof (induction n arbitrary: cursor i)
  case 0
  then show ?case by (simp add: scope_seek_def)
next
  case (Suc n)
  obtain nxt where page: "rows_list calendar t owner st cursor page_size (store_rows store)
      = Inr \<lparr> list_items = take (unat page_size) (drop i F), list_next_cursor = nxt \<rparr>"
    "case nxt of None \<Rightarrow> length (drop i F) \<le> unat page_size
       | Some c \<Rightarrow> length (drop i F) > unat page_size \<and> scope_seek F (Some c) (i + unat page_size)"
    using page_at [OF ok size F Suc.prems(1)] by blast
  show ?case
  proof (cases nxt)
    case None
    then show ?thesis using page by simp
  next
    case (Some c)
    have "0 < unat page_size" using size by (simp add: unat_gt_0)
    then obtain pages where pages: "follow_cursors n
        (\<lambda>c. rows_list calendar t owner st c page_size (store_rows store)) (Some c) = Some pages"
      "concat pages = drop (i + unat page_size) F"
      "\<forall>m < length pages. pages ! m
         = take (unat page_size) (drop (i + unat page_size + m * unat page_size) F)"
      using Suc.IH [of "Some c" "i + unat page_size"] page(2) Some Suc.prems(2) by auto
    have "concat (take (unat page_size) (drop i F) # pages) = drop i F"
    proof -
      have "drop (i + unat page_size) F = drop (unat page_size) (drop i F)" by (simp add: add.commute)
      then show ?thesis using pages(2) by (simp only: concat.simps append_take_drop_id)
    qed
    moreover have "\<forall>m < length (take (unat page_size) (drop i F) # pages).
        (take (unat page_size) (drop i F) # pages) ! m
          = take (unat page_size) (drop (i + m * unat page_size) F)"
      using pages(3) by (auto simp: nth_Cons' algebra_simps less_Suc_eq_0_disj)
    ultimately show ?thesis using page(1) Some pages(1) by auto
  qed
qed

end
