(* ===== verification/Instance_Properties.thy ===== *)
theory Instance_Properties
  imports Instance_World Instance_Listing
begin

text \<open>
  Runs of the instance service: any sequence of its operations, each under interference. The properties
  of the instance component, with a small scenario that witnesses them.
\<close>

inductive instance_runs :: "(string \<Rightarrow> bool) \<Rightarrow> instance_world \<Rightarrow> instance_world \<Rightarrow> bool"
  for calendar w0 where
  start: "instance_runs calendar w0 w0"
| create: "instance_runs calendar w0 w \<Longrightarrow> iw_ids w = i # is \<Longrightarrow>
     (ci_tenant_id c, i) \<notin> store_used (iw_store (instance_interfere calendar (w\<lparr> iw_ids := is \<rparr>))) \<Longrightarrow>
     run_state (instance_create (rows_service calendar) c) w = (r, w') \<Longrightarrow> instance_runs calendar w0 w'"
| update: "instance_runs calendar w0 w \<Longrightarrow>
     run_state (instance_update (rows_service calendar) u) w = (r, w') \<Longrightarrow> instance_runs calendar w0 w'"
| delete: "instance_runs calendar w0 w \<Longrightarrow>
     run_state (instance_delete (rows_service calendar) t iid) w = (d, w') \<Longrightarrow> instance_runs calendar w0 w'"
| retrieve: "instance_runs calendar w0 w \<Longrightarrow>
     run_state (instance_retrieve (rows_service calendar) t iid) w = (r, w') \<Longrightarrow> instance_runs calendar w0 w'"

text \<open>A world before its first operation.\<close>

definition fresh_instance_world :: "(string \<Rightarrow> bool) \<Rightarrow> instance_world \<Rightarrow> bool" where
  "fresh_instance_world calendar w \<longleftrightarrow> iw_store w = empty_instance_store \<and> iw_committed w = []
     \<and> validate_expires_at calendar (iw_clock w) = Inr ()
     \<and> list_all (\<lambda>e. validate_expires_at calendar (fst (snd e)) = Inr ()) (iw_agenda w)"

fun row_event_ok :: "row_event \<Rightarrow> bool" where
  "row_event_ok (RowReplaced old new) \<longleftrightarrow> instance_key new = instance_key old
     \<and> inst_owner_id new = inst_owner_id old
     \<and> unat (inst_version new) = Suc (unat (inst_version old))
     \<and> (inst_state new = inst_state old \<or> instance_can_transition_to (inst_state old) (inst_state new))"
| "row_event_ok (RowRemoved old) \<longleftrightarrow> instance_is_deletable (inst_state old)"

lemma committed_update_ok: "committed_update calendar c old new \<Longrightarrow> row_event_ok (RowReplaced old new)"
  using apply_update_ok(1,2) [of calendar c old]
  by (force simp: committed_update_def with_persistence_timestamps_def state_moved_def instance_core_def
      instance_key_def split: option.splits)

lemma fresh_world_ok: "fresh_instance_world calendar w \<Longrightarrow> instance_world_ok calendar w"
  using instance_machine.inv_init [of calendar] by (simp add: fresh_instance_world_def instance_world_ok_def)

lemma runs_ok:
  assumes "instance_runs calendar w0 w" "fresh_instance_world calendar w0"
  shows "instance_world_ok calendar w \<and> list_all row_event_ok (iw_committed w)"
  using assms(1)
proof induction
  case start
  then show ?case using fresh_world_ok [OF assms(2)] assms(2) by (simp add: fresh_instance_world_def)
next
  case (create w i "is" c r w')
  then show ?case using create_stores(1,2) [of calendar w i "is" c r w'] by (simp add: world_evolves_def)
next
  case (update w u r w')
  then show ?case
    using update_evolves [of calendar w u r w'] update_commits [of calendar w u r w'] committed_update_ok
    by (auto simp: world_evolves_def)
next
  case (delete w t iid d w')
  then show ?case
    using delete_evolves [of calendar w t iid d w'] delete_removes [of calendar w t iid d w']
    by (auto simp: world_evolves_def)
next
  case (retrieve w t iid r w')
  then show ?case using retrieve_run(1,2) [of calendar w t iid r w'] by (simp add: world_evolves_def)
qed

section \<open>The properties\<close>

text \<open>
  C35: after any run of the service, interleaved with any other writers and with lost calls, every
  stored instance is filed under its own tenant and identifier, satisfies every declared bound, carries
  a well-formed creation time, and no other row of its owner has its name.
\<close>

theorem stored_instances_are_valid:
  assumes "fresh_instance_world calendar w0" "instance_runs calendar w0 w"
    and "btm_get (store_rows (iw_store w)) (t, iid) = Some s"
  shows "inst_tenant_id s = t \<and> inst_id s = iid \<and> instance_valid calendar s
    \<and> (\<exists>c. inst_created_at s = Some c \<and> validate_expires_at calendar c = Inr ())
    \<and> (\<forall>k s'. btm_get (store_rows (iw_store w)) k = Some s' \<longrightarrow> same_name s s' \<longrightarrow> k = (t, iid))"
proof -
  have ok: "instances_ok calendar (iw_store w)"
    using runs_ok [OF assms(2,1)] by (simp add: instance_world_ok_def)
  show ?thesis
    using instances_okD(2) [OF ok assms(3)] instances_okD(4) [OF ok assms(3)]
    by (auto simp: row_ok_def instance_key_def)
qed

text \<open>
  C34: an update never loses the work of another writer. Whatever happened in between, it either
  changed nothing and failed, or replaced the very row its changes were computed from by that row with
  the changes applied and the version incremented; and when it reports a row, that row is the one it
  stored or a later version of it.
\<close>

theorem update_loses_nothing:
  assumes "instance_world_ok calendar w"
    and "run_state (instance_update (rows_service calendar) c) w = (r, w')"
  shows "iw_committed w' = iw_committed w \<and> (\<exists>e. r = Inl e)
    \<or> (\<exists>old new. iw_committed w' = iw_committed w @ [RowReplaced old new]
        \<and> committed_update calendar c old new
        \<and> (\<forall>s. r = Inr s \<longrightarrow> s = new \<or> unat (inst_version new) < unat (inst_version s)))"
  using assms by (rule update_commits)

text \<open>
  C36: over any run, every row the service replaced keeps its key and owner, has the next version, and
  either stays in its state or moves along the transition table; and it never removed an active instance.
\<close>

theorem instance_history_is_lawful:
  assumes "fresh_instance_world calendar w0" "instance_runs calendar w0 w"
  shows "(RowReplaced old new \<in> set (iw_committed w) \<longrightarrow> instance_key new = instance_key old
        \<and> inst_owner_id new = inst_owner_id old
        \<and> unat (inst_version new) = Suc (unat (inst_version old))
        \<and> (inst_state new = inst_state old
           \<or> instance_can_transition_to (inst_state old) (inst_state new)))
    \<and> (RowRemoved gone \<in> set (iw_committed w) \<longrightarrow> inst_state gone \<noteq> InstActive)"
  using runs_ok [OF assms(2,1)] by (fastforce simp: list_all_iff instance_is_deletable_def)

text \<open>
  C37: following the cursors page after page ends after at most one more call than there are rows, and
  returns every instance of the scope exactly once, in strictly descending order of creation time and
  identifier; page \<open>m\<close> is the page the offset listing returns at offset \<open>m * page_size\<close>.
\<close>

theorem listing_pages_tile_the_scope:
  assumes ok: "instances_ok calendar store" and size: "page_size \<noteq> 0"
  shows "\<exists>pages. follow_cursors (Suc (length (store_rows store)))
        (\<lambda>c. rows_list calendar t owner st c page_size (store_rows store)) None = Some pages
    \<and> set (concat pages) = {s \<in> snd ` set (store_rows store). in_scope t owner st s}
    \<and> sorted_wrt (\<lambda>a b. list_key b < list_key a) (concat pages)
    \<and> (\<forall>m < length pages. \<forall>offset. unat offset = m * unat page_size \<longrightarrow>
         rows_list_offset t owner st offset page_size (store_rows store)
         = Inr \<lparr> offset_items = pages ! m, offset_total_items = of_nat (length (concat pages)) \<rparr>)"
proof -
  let ?F = "rows_filtered t owner st (store_rows store)"
  have seek: "scope_seek ?F None 0" by (simp add: scope_seek_def)
  have fuel: "length ?F < 0 + Suc (length (store_rows store))"
    using filtered_length [of t owner st "store_rows store"] by simp
  obtain pages where pages: "follow_cursors (Suc (length (store_rows store)))
      (\<lambda>c. rows_list calendar t owner st c page_size (store_rows store)) None = Some pages"
    "concat pages = ?F"
    "\<forall>m < length pages. pages ! m = take (unat page_size) (drop (m * unat page_size) ?F)"
    using follow_from [OF ok size refl seek fuel] by (auto simp del: follow_cursors.simps)
  have "\<forall>m < length pages. \<forall>offset. unat offset = m * unat page_size \<longrightarrow>
         rows_list_offset t owner st offset page_size (store_rows store)
         = Inr \<lparr> offset_items = pages ! m, offset_total_items = of_nat (length (concat pages)) \<rparr>"
    using pages(2,3) size by (simp add: rows_list_offset_def Let_def)
  then show ?thesis
    using pages(1) descending_scope [OF ok, of t owner st] filtered_set [of t owner st "store_rows store"]
    unfolding pages(2) [symmetric] by (intro exI [of _ pages]) blast
qed

section \<open>A scenario\<close>

text \<open>
  An instance is created and activated while another writer inserts a second one between the read and
  the save of the update; then the active instance cannot be deleted.
\<close>

definition demo_instance_command :: "string \<Rightarrow> create_instance_command" where
  "demo_instance_command n = \<lparr> ci_tenant_id = ''t'', ci_owner_id = ''o'', ci_name = n, ci_profile = Standard,
     ci_base_image = ''ubuntu'', ci_vcpu_count = 2, ci_memory_mb = 1024, ci_disk_mb = 2048,
     ci_capabilities = {}, ci_assurance = Container, ci_auto_start = False, ci_expires_at = None,
     ci_workspace_id = None \<rparr>"

definition demo_other :: sandbox_instance where
  "demo_other = projr (instance_request (\<lambda>_. True) ''x'' (demo_instance_command ''two''))"

definition demo_activate :: update_instance_command where
  "demo_activate = (update_for_instance ''t'' ''i1'')\<lparr> ui_state := Some InstActive \<rparr>"

definition demo_instance_world :: instance_world where
  "demo_instance_world = \<lparr> iw_store = empty_instance_store, iw_clock = ''2026-01-01T00:00:00Z'',
     iw_fate = Answered,
     iw_agenda = [([], ''2026-01-01T00:00:01Z'', Answered), ([], ''2026-01-01T00:00:02Z'', Answered),
       ([InstanceInsert ''2026-01-01T00:00:03Z'' demo_other], ''2026-01-01T00:00:04Z'', Answered)],
     iw_committed = [], iw_ids = [''i1'', ''i2''] \<rparr>"

definition demo_row :: "string \<Rightarrow> string \<Rightarrow> sandbox_instance_state \<Rightarrow> u64 \<Rightarrow> string \<Rightarrow> string \<Rightarrow> sandbox_instance" where
  "demo_row i n st v created updated = \<lparr> inst_tenant_id = ''t'', inst_id = i, inst_owner_id = ''o'',
     inst_name = n, inst_state = st, inst_profile = Standard, inst_base_image = ''ubuntu'',
     inst_vcpu_count = 2, inst_memory_mb = 1024, inst_disk_mb = 2048, inst_capabilities = {},
     inst_assurance = Container, inst_auto_start = False, inst_expires_at = None, inst_workspace_id = None,
     inst_last_failure = None, inst_version = v, inst_created_at = Some created,
     inst_updated_at = Some updated \<rparr>"

definition demo_requested :: sandbox_instance where
  "demo_requested = demo_row ''i1'' ''one'' InstRequested 0 ''2026-01-01T00:00:01Z'' ''2026-01-01T00:00:01Z''"

definition demo_active :: sandbox_instance where
  "demo_active = demo_row ''i1'' ''one'' InstActive 1 ''2026-01-01T00:00:01Z'' ''2026-01-01T00:00:04Z''"

definition any_date :: "string \<Rightarrow> bool" where "any_date d = True"

definition demo_world_1 :: instance_world where
  "demo_world_1 = demo_instance_world\<lparr> iw_store := \<lparr> store_rows = [((''t'', ''i1''), demo_requested)],
       store_used = {(''t'', ''i1'')} \<rparr>,
     iw_clock := ''2026-01-01T00:00:01Z'', iw_agenda := tl (iw_agenda demo_instance_world),
     iw_ids := [''i2''] \<rparr>"

definition demo_world_2 :: instance_world where
  "demo_world_2 = demo_world_1\<lparr> iw_store := \<lparr> store_rows = [((''t'', ''i1''), demo_active),
         ((''t'', ''x''), demo_row ''x'' ''two'' InstRequested 0 ''2026-01-01T00:00:03Z'' ''2026-01-01T00:00:03Z'')],
       store_used = {(''t'', ''x''), (''t'', ''i1'')} \<rparr>,
     iw_clock := ''2026-01-01T00:00:04Z'', iw_agenda := [],
     iw_committed := [RowReplaced demo_requested demo_active] \<rparr>"

lemma demo_world_fresh: "fresh_instance_world any_date demo_instance_world"
  unfolding fresh_instance_world_def demo_instance_world_def any_date_def by code_simp

lemma demo_create_run:
  "run_state (instance_create (rows_service any_date) (demo_instance_command ''one'')) demo_instance_world
     = (Inr demo_requested, demo_world_1)"
  by code_simp

lemma demo_update_run:
  "run_state (instance_update (rows_service any_date) demo_activate) demo_world_1
     = (Inr demo_active, demo_world_2)"
  by code_simp

lemma demo_delete_run:
  "run_state (instance_delete (rows_service any_date) ''t'' ''i1'') demo_world_2
     = (Inl (InstanceNotDeletable InstActive), demo_world_2)"
  by code_simp

lemma demo_identifier:
  "iw_ids demo_instance_world = ''i1'' # [''i2'']"
  "(ci_tenant_id (demo_instance_command ''one''), ''i1'')
     \<notin> store_used (iw_store (instance_interfere any_date (demo_instance_world\<lparr> iw_ids := [''i2''] \<rparr>)))"
  by code_simp+

lemma demo_run_1: "instance_runs any_date demo_instance_world demo_world_1"
  by (rule create [OF start demo_identifier demo_create_run])

lemma demo_run_2: "instance_runs any_date demo_instance_world demo_world_2"
  by (rule update [OF demo_run_1 demo_update_run])

lemma demo_run_3: "instance_runs any_date demo_instance_world demo_world_2"
  by (rule delete [OF demo_run_2 demo_delete_run])

lemma demo_instances_ok: "instances_ok any_date (iw_store demo_world_2)"
  using runs_ok [OF demo_run_3 demo_world_fresh] by (simp add: instance_world_ok_def)

lemma stored_instances_are_valid_witness:
  "btm_get (store_rows (iw_store demo_world_2)) (''t'', ''i1'') = Some demo_active
     \<and> instance_valid any_date demo_active"
proof -
  have row: "btm_get (store_rows (iw_store demo_world_2)) (''t'', ''i1'') = Some demo_active"
    by (simp add: demo_world_2_def btm_get_def)
  from row stored_instances_are_valid [OF demo_world_fresh demo_run_3 row] show ?thesis by blast
qed

lemma update_loses_nothing_witness:
  "committed_update any_date demo_activate demo_requested demo_active"
proof -
  have "instance_world_ok any_date demo_world_1" using runs_ok [OF demo_run_1 demo_world_fresh] by simp
  from update_loses_nothing [OF this demo_update_run] show ?thesis
    by (simp add: demo_world_1_def demo_world_2_def demo_instance_world_def)
qed

lemma instance_history_is_lawful_witness:
  "iw_committed demo_world_2 = [RowReplaced demo_requested demo_active]
     \<and> instance_can_transition_to (inst_state demo_requested) (inst_state demo_active)"
  using instance_history_is_lawful [OF demo_world_fresh demo_run_3, of demo_requested demo_active]
  by (simp add: demo_world_2_def) (simp add: demo_requested_def demo_active_def demo_row_def)

lemma listing_pages_tile_the_scope_witness:
  "\<exists>pages. follow_cursors 3
        (\<lambda>c. rows_list any_date ''t'' None None c 1 (store_rows (iw_store demo_world_2))) None = Some pages
    \<and> set (concat pages) = {s \<in> snd ` set (store_rows (iw_store demo_world_2)). in_scope ''t'' None None s}"
proof -
  have three: "Suc (length (store_rows (iw_store demo_world_2))) = 3"
    by (simp add: demo_world_2_def)
  have "(1 :: u32) \<noteq> 0" by simp
  from listing_pages_tile_the_scope [OF demo_instances_ok this, of "''t''" None None] show ?thesis
    unfolding three by blast
qed

end
