(* ===== verification/Fire_Fencing.thy ===== *)
theory Fire_Fencing
  imports Session_Service
begin

text \<open>
  The fencing state of the Firecracker provider (\<open>fencing.rs\<close> of crate
  \<open>sdkwork-sandbox-provider-firecracker\<close>): the store port, its in-memory form and its durable form on
  a file system, and the authority check every mutating operation starts with. On the file system each
  system call may fail; a failed write leaves any prefix of the record in the temporary file. Record
  files of other processes may be unreadable as text (\<open>BinaryFile\<close>).
\<close>

section \<open>The port\<close>

datatype fencing_store_error =
  RecordCorrupt | StaleRecord | StoreUnavailable | TrackingBoundExhausted

datatype fencing_decision = Advanced | Replayed

record 'f fencing_store =
  store_max_token :: "string \<Rightarrow> ('f, fencing_store_error + u64) state"
  store_record_token :: "string \<Rightarrow> u64 \<Rightarrow> ('f, fencing_store_error + fencing_decision) state"

datatype fencing_authority_error = StaleFencing | AuthorityUnavailable fencing_store_error

definition check_fencing_authority ::
  "'f fencing_store \<Rightarrow> string \<Rightarrow> u64 \<Rightarrow> ('f, fencing_authority_error + fencing_decision) state" where
  "check_fencing_authority fs b token =
     (if token = 0 then ret (Inl StaleFencing)
      else
        do { r \<leftarrow> store_record_token fs b token;
             ret (case r of
                    Inr d \<Rightarrow> Inr d
                  | Inl e \<Rightarrow> if e = StaleRecord then Inl StaleFencing else Inl (AuthorityUnavailable e)) })"

section \<open>The in-memory store\<close>

type_synonym memory_fencing = "(string, u64) btree"

definition max_tracked_bindings :: nat where "max_tracked_bindings = 65536"

definition memory_max_token :: "string \<Rightarrow> (memory_fencing, fencing_store_error + u64) state" where
  "memory_max_token b = State (\<lambda>m. (Inr (case btm_get m b of None \<Rightarrow> 0 | Some t \<Rightarrow> t), m))"

definition memory_record ::
  "string \<Rightarrow> u64 \<Rightarrow> memory_fencing \<Rightarrow> (fencing_store_error + fencing_decision) \<times> memory_fencing" where
  "memory_record b token m =
     (let advance =
        (if length m \<ge> max_tracked_bindings \<and> \<not> btm_contains m b then (Inl TrackingBoundExhausted, m)
         else (Inr Advanced, btm_insert b token m))
      in (case btm_get m b of
            Some recorded \<Rightarrow>
              if token < recorded then (Inl StaleRecord, m)
              else if token = recorded then (Inr Replayed, m) else advance
          | None \<Rightarrow> advance))"

definition memory_fencing_store :: "memory_fencing fencing_store" where
  "memory_fencing_store = \<lparr> store_max_token = memory_max_token,
     store_record_token = (\<lambda>b token. State (memory_record b token)) \<rparr>"

section \<open>The durable store\<close>

datatype disk_file = TextFile string | BinaryFile

text \<open>\<open>disk_faults\<close> decides the coming system calls: none, or a failure after so many written bytes.\<close>

record fencing_disk =
  disk_files :: "string \<Rightarrow> disk_file option"
  disk_faults :: "nat option list"

definition next_fault :: "(fencing_disk, nat option) state" where
  "next_fault = State (\<lambda>d. case disk_faults d of [] \<Rightarrow> (None, d) | f # fs \<Rightarrow> (f, d\<lparr> disk_faults := fs \<rparr>))"

definition put_file :: "string \<Rightarrow> disk_file option \<Rightarrow> (fencing_disk, unit) state" where
  "put_file name f = State (\<lambda>d. ((), d\<lparr> disk_files := (disk_files d)(name := f) \<rparr>))"

definition hex_digit :: "nat \<Rightarrow> char" where
  "hex_digit n = ''0123456789abcdef'' ! n"

definition hex_byte :: "char \<Rightarrow> string" where
  "hex_byte c = [hex_digit (of_char c div 16), hex_digit (of_char c mod 16)]"

definition record_path :: "string \<Rightarrow> string" where
  "record_path b = ''binding-'' @ concat (map hex_byte b) @ ''.token''"

definition temporary_path :: "string \<Rightarrow> string" where
  "temporary_path path = path @ ''.tmp''"

definition is_ascii_trimmed :: "char \<Rightarrow> bool" where
  "is_ascii_trimmed c \<longleftrightarrow> (of_char c :: nat) \<in> {9, 10, 12, 13, 32}"

definition trim_ascii :: "string \<Rightarrow> string" where
  "trim_ascii s = rev (dropWhile is_ascii_trimmed (rev (dropWhile is_ascii_trimmed s)))"

definition is_decimal_digit :: "char \<Rightarrow> bool" where
  "is_decimal_digit c \<longleftrightarrow> 48 \<le> (of_char c :: nat) \<and> (of_char c :: nat) \<le> 57"

definition parse_record :: "string \<Rightarrow> fencing_store_error + u64" where
  "parse_record contents =
     (let s = trim_ascii contents in
      if s = [] \<or> length s > 20 \<or> \<not> list_all is_decimal_digit s then Inl RecordCorrupt
      else if undecimal s \<ge> 2 ^ 64 then Inl RecordCorrupt
      else if (of_nat (undecimal s) :: u64) = 0 then Inl RecordCorrupt
      else Inr (of_nat (undecimal s)))"

definition read_record :: "string \<Rightarrow> (fencing_disk, fencing_store_error + u64) state" where
  "read_record path =
     do { fault \<leftarrow> next_fault;
          State (\<lambda>d. (case fault of
              Some _ \<Rightarrow> Inl StoreUnavailable
            | None \<Rightarrow> (case disk_files d path of
                None \<Rightarrow> Inr 0
              | Some BinaryFile \<Rightarrow> Inl StoreUnavailable
              | Some (TextFile s) \<Rightarrow> parse_record s), d)) }"

definition write_record :: "string \<Rightarrow> u64 \<Rightarrow> (fencing_disk, fencing_store_error + unit) state" where
  "write_record path token =
     do { create \<leftarrow> next_fault;
          if create \<noteq> None then ret (Inl StoreUnavailable)
          else
            do { _ \<leftarrow> put_file (temporary_path path) (Some (TextFile []));
                 write \<leftarrow> next_fault;
                 case write of
                   Some n \<Rightarrow>
                     do { _ \<leftarrow> put_file (temporary_path path) (Some (TextFile (take n (decimal (unat token)))));
                          ret (Inl StoreUnavailable) }
                 | None \<Rightarrow>
                     do { _ \<leftarrow> put_file (temporary_path path) (Some (TextFile (decimal (unat token))));
                          move \<leftarrow> next_fault;
                          if move \<noteq> None then ret (Inl StoreUnavailable)
                          else
                            do { _ \<leftarrow> put_file path (Some (TextFile (decimal (unat token))));
                                 _ \<leftarrow> put_file (temporary_path path) None;
                                 ret (Inr ()) } } } }"

definition file_record_token ::
  "string \<Rightarrow> u64 \<Rightarrow> (fencing_disk, fencing_store_error + fencing_decision) state" where
  "file_record_token b token =
     try_bind (read_record (record_path b))
       (\<lambda>recorded.
          if token < recorded then ret (Inl StaleRecord)
          else if token = recorded then ret (Inr Replayed)
          else try_bind (write_record (record_path b) token) (\<lambda>_. ret (Inr Advanced)))"

definition file_fencing_store :: "fencing_disk fencing_store" where
  "file_fencing_store = \<lparr> store_max_token = (\<lambda>b. read_record (record_path b)),
     store_record_token = file_record_token \<rparr>"

end
