(* ===== verification/Fire_Preflight.thy ===== *)
theory Fire_Preflight
  imports Spi_Types
begin

text \<open>
  The artifact manifest and the node preflight of the Firecracker provider (\<open>artifact.rs\<close> and
  \<open>preflight.rs\<close> of crate \<open>sdkwork-sandbox-provider-firecracker\<close>): the exact compatibility tuple a
  manifest has to carry, and the fail-closed verdict over one snapshot of host facts.
\<close>

section \<open>The artifact manifest\<close>

definition supported_architectures :: "string list" where
  "supported_architectures = [''linux-kvm-x86_64'', ''linux-kvm-aarch64'']"

definition required_artifact_roles :: "string list" where
  "required_artifact_roles = [''sandbox_firecracker'', ''sandbox_jailer'', ''sandbox_guest_kernel'',
     ''sandbox_rootfs'', ''sandbox_guest_agent'']"

datatype artifact_error =
  RequiredArtifactRoleMissing string
| ArtifactDigestInvalid string
| FirecrackerJailerReleaseMismatch
| HostArchitectureUnsupported string
| CompatibilityTupleDigestMismatch string
| ReleaseReferenceInvalid

record artifact_descriptor =
  artifact_role :: string
  artifact_version :: string
  artifact_sha256 :: string
  artifact_release_ref :: string
  artifact_signature_ref :: string
  artifact_sbom_ref :: string
  artifact_provenance_ref :: string

record compatibility_tuple =
  tuple_host_architecture :: string
  tuple_minimum_host_kernel_version :: string
  tuple_kvm_api_requirement :: string
  tuple_firecracker_sha256 :: string
  tuple_jailer_sha256 :: string
  tuple_guest_kernel_sha256 :: string
  tuple_rootfs_sha256 :: string
  tuple_guest_agent_sha256 :: string
  tuple_guest_boot_contract_version :: string
  tuple_rootfs_schema_version :: string
  tuple_guest_agent_protocol_version :: string

record artifact_manifest =
  manifest_id :: string
  manifest_version :: string
  manifest_digest :: string
  manifest_release_version :: string
  manifest_host_architecture :: string
  manifest_compatibility_tuple :: compatibility_tuple
  manifest_artifacts :: "artifact_descriptor list"
  manifest_evidence_bundle_ref :: string
  manifest_signature_policy_ref :: string
  manifest_revocation_policy_ref :: string
  manifest_published_at :: string

definition is_sandbox_sha256_digest :: "string \<Rightarrow> bool" where
  "is_sandbox_sha256_digest v \<longleftrightarrow> length v = 64
     \<and> list_all (\<lambda>c. (48 \<le> (of_char c :: nat) \<and> (of_char c :: nat) \<le> 57)
          \<or> (97 \<le> (of_char c :: nat) \<and> (of_char c :: nat) \<le> 102)) v"

definition artifact_digest_is_valid :: "artifact_descriptor \<Rightarrow> bool" where
  "artifact_digest_is_valid d = is_sandbox_sha256_digest (artifact_sha256 d)"

definition sandbox_artifact :: "artifact_manifest \<Rightarrow> string \<Rightarrow> artifact_descriptor option" where
  "sandbox_artifact m role = find (\<lambda>d. artifact_role d = role) (manifest_artifacts m)"

definition tuple_digest_roles :: "compatibility_tuple \<Rightarrow> (string \<times> string) list" where
  "tuple_digest_roles t =
     [(''sandbox_firecracker'', tuple_firecracker_sha256 t), (''sandbox_jailer'', tuple_jailer_sha256 t),
      (''sandbox_guest_kernel'', tuple_guest_kernel_sha256 t), (''sandbox_rootfs'', tuple_rootfs_sha256 t),
      (''sandbox_guest_agent'', tuple_guest_agent_sha256 t)]"

definition tuple_digest_error :: "artifact_manifest \<Rightarrow> string \<times> string \<Rightarrow> artifact_error option" where
  "tuple_digest_error m rd =
     (case sandbox_artifact m (fst rd) of
        None \<Rightarrow> Some (RequiredArtifactRoleMissing (fst rd))
      | Some d \<Rightarrow>
          if artifact_sha256 d \<noteq> snd rd then Some (CompatibilityTupleDigestMismatch (fst rd)) else None)"

definition artifact_set_error :: "artifact_manifest \<Rightarrow> artifact_error option" where
  "artifact_set_error m =
     (case first_error
             (\<lambda>role. if role \<notin> set (map artifact_role (manifest_artifacts m))
                then Some (RequiredArtifactRoleMissing role) else None) required_artifact_roles of
        Some e \<Rightarrow> Some e
      | None \<Rightarrow>
     (case first_error
             (\<lambda>d. if \<not> artifact_digest_is_valid d then Some (ArtifactDigestInvalid (artifact_role d)) else None)
             (manifest_artifacts m) of
        Some e \<Rightarrow> Some e
      | None \<Rightarrow>
          first_error (\<lambda>r. if r = [] then Some ReleaseReferenceInvalid else None)
            [manifest_evidence_bundle_ref m, manifest_signature_policy_ref m,
             manifest_revocation_policy_ref m]))"

definition validate_manifest :: "artifact_manifest \<Rightarrow> artifact_error + unit" where
  "validate_manifest m =
     (let t = manifest_compatibility_tuple m in
      if \<not> is_sandbox_sha256_digest (manifest_digest m) then
        Inl (ArtifactDigestInvalid ''sandbox_artifact_manifest'')
      else if list_all (\<lambda>a. a \<noteq> manifest_host_architecture m) supported_architectures then
        Inl (HostArchitectureUnsupported (manifest_host_architecture m))
      else if manifest_host_architecture m \<noteq> tuple_host_architecture t then
        Inl (HostArchitectureUnsupported (tuple_host_architecture t))
      else
        (case artifact_set_error m of
           Some e \<Rightarrow> Inl e
         | None \<Rightarrow>
             if tuple_firecracker_sha256 t \<noteq> tuple_jailer_sha256 t then
               Inl FirecrackerJailerReleaseMismatch
             else
               (case first_error (tuple_digest_error m) (tuple_digest_roles t) of
                  Some e \<Rightarrow> Inl e | None \<Rightarrow> Inr ())))"

section \<open>The host facts and the verdict\<close>

datatype host_platform = LinuxKvmX86_64 | LinuxKvmAarch64 | PlatformUnsupported

fun host_platform_as_str :: "host_platform \<Rightarrow> string" where
  "host_platform_as_str LinuxKvmX86_64 = ''linux-kvm-x86_64''"
| "host_platform_as_str LinuxKvmAarch64 = ''linux-kvm-aarch64''"
| "host_platform_as_str PlatformUnsupported = ''unsupported''"

record host_facts =
  facts_host_platform :: host_platform
  facts_kvm_device_available :: bool
  facts_cgroup_v2_writable :: bool
  facts_jailer_artifact_verified :: bool
  facts_runtime_data_root_secured :: bool
  facts_host_isolation_broker_available :: bool
  facts_workspace_attachment_available :: bool
  facts_network_policy_available :: bool
  facts_resource_policy_available :: bool
  facts_guest_channel_available :: bool
  facts_artifact_manifest :: "artifact_manifest option"

datatype preflight_reason =
  HostPlatformUnsupported | KvmDeviceUnavailable | CgroupV2Unavailable | JailerArtifactUnverified
| RuntimeDataRootInsecure | HostIsolationBrokerUnavailable | WorkspaceAttachmentUnavailable
| NetworkPolicyUnavailable | ResourcePolicyUnavailable | GuestChannelUnavailable
| ArtifactManifestInvalid

datatype preflight_status = PreflightReady | PreflightDegraded | PreflightUnavailable

definition preflight_status_allows_start :: "preflight_status \<Rightarrow> bool" where
  "preflight_status_allows_start st \<longleftrightarrow> st = PreflightReady"

record preflight_report =
  report_status :: preflight_status
  report_reasons :: "preflight_reason list"

definition report_allows_start :: "preflight_report \<Rightarrow> bool" where
  "report_allows_start r = preflight_status_allows_start (report_status r)"

text \<open>The reasons whose condition fails, in the order of the checks.\<close>

definition failed_conditions :: "(bool \<times> preflight_reason) list \<Rightarrow> preflight_reason list" where
  "failed_conditions cs = map snd (filter (\<lambda>c. \<not> fst c) cs)"

definition core_conditions :: "host_facts \<Rightarrow> (bool \<times> preflight_reason) list" where
  "core_conditions f =
     [(facts_host_platform f \<noteq> PlatformUnsupported, HostPlatformUnsupported),
      (facts_kvm_device_available f, KvmDeviceUnavailable),
      (facts_cgroup_v2_writable f, CgroupV2Unavailable),
      (facts_jailer_artifact_verified f, JailerArtifactUnverified),
      (facts_runtime_data_root_secured f, RuntimeDataRootInsecure),
      (facts_host_isolation_broker_available f, HostIsolationBrokerUnavailable),
      (case facts_artifact_manifest f of None \<Rightarrow> False | Some m \<Rightarrow> validate_manifest m = Inr (),
       ArtifactManifestInvalid)]"

definition degraded_conditions :: "host_facts \<Rightarrow> (bool \<times> preflight_reason) list" where
  "degraded_conditions f =
     [(facts_workspace_attachment_available f, WorkspaceAttachmentUnavailable),
      (facts_network_policy_available f, NetworkPolicyUnavailable),
      (facts_resource_policy_available f, ResourcePolicyUnavailable),
      (facts_guest_channel_available f, GuestChannelUnavailable)]"

definition run_firecracker_preflight :: "host_facts \<Rightarrow> preflight_report" where
  "run_firecracker_preflight f =
     (let core = failed_conditions (core_conditions f) in
      if core \<noteq> [] then \<lparr> report_status = PreflightUnavailable, report_reasons = core \<rparr>
      else
        (let degraded = failed_conditions (degraded_conditions f)
         in \<lparr> report_status = (if degraded = [] then PreflightReady else PreflightDegraded),
              report_reasons = degraded \<rparr>))"

section \<open>What a valid manifest and a ready node are\<close>

lemma failed_conditions_Nil [simp]: "failed_conditions cs = [] \<longleftrightarrow> list_all fst cs"
  by (auto simp: failed_conditions_def filter_empty_conv list_all_iff)

lemma failed_conditions_set: "r \<in> set (failed_conditions cs) \<longleftrightarrow> (False, r) \<in> set cs"
  by (force simp: failed_conditions_def)

definition artifact_matches :: "artifact_manifest \<Rightarrow> string \<Rightarrow> string \<Rightarrow> bool" where
  "artifact_matches m role digest \<longleftrightarrow>
     (\<exists>d. sandbox_artifact m role = Some d \<and> artifact_sha256 d = digest)"

lemma tuple_digest_error_None: "tuple_digest_error m rd = None \<longleftrightarrow> artifact_matches m (fst rd) (snd rd)"
  by (auto simp: tuple_digest_error_def artifact_matches_def split: option.split)

lemma sandbox_artifact_mem: "sandbox_artifact m role = Some d \<Longrightarrow> d \<in> set (manifest_artifacts m) \<and> artifact_role d = role"
  by (auto simp: sandbox_artifact_def find_Some_iff in_set_conv_nth)

lemma artifact_set_ok:
  "artifact_set_error m = None \<longleftrightarrow>
     set required_artifact_roles \<subseteq> artifact_role ` set (manifest_artifacts m)
     \<and> list_all artifact_digest_is_valid (manifest_artifacts m)
     \<and> manifest_evidence_bundle_ref m \<noteq> [] \<and> manifest_signature_policy_ref m \<noteq> []
     \<and> manifest_revocation_policy_ref m \<noteq> []"
proof -
  have roles: "first_error (\<lambda>role. if role \<notin> set (map artifact_role (manifest_artifacts m))
      then Some (RequiredArtifactRoleMissing role) else None) required_artifact_roles = None
    \<longleftrightarrow> set required_artifact_roles \<subseteq> artifact_role ` set (manifest_artifacts m)"
    by (auto simp: first_error_None)
  have digests: "first_error (\<lambda>d. if \<not> artifact_digest_is_valid d
      then Some (ArtifactDigestInvalid (artifact_role d)) else None) (manifest_artifacts m) = None
    \<longleftrightarrow> list_all artifact_digest_is_valid (manifest_artifacts m)"
    by (auto simp: first_error_None list_all_iff)
  show ?thesis
    unfolding artifact_set_error_def roles [symmetric] digests [symmetric]
    by (auto split: option.split)
qed

lemma manifest_ok:
  "validate_manifest m = Inr () \<longleftrightarrow>
     is_sandbox_sha256_digest (manifest_digest m)
     \<and> manifest_host_architecture m \<in> set supported_architectures
     \<and> tuple_host_architecture (manifest_compatibility_tuple m) = manifest_host_architecture m
     \<and> artifact_set_error m = None
     \<and> tuple_firecracker_sha256 (manifest_compatibility_tuple m)
         = tuple_jailer_sha256 (manifest_compatibility_tuple m)
     \<and> (\<forall>rd\<in>set (tuple_digest_roles (manifest_compatibility_tuple m)). artifact_matches m (fst rd) (snd rd))"
proof -
  have tuple: "(\<forall>rd\<in>set (tuple_digest_roles (manifest_compatibility_tuple m)). artifact_matches m (fst rd) (snd rd))
    \<longleftrightarrow> first_error (tuple_digest_error m) (tuple_digest_roles (manifest_compatibility_tuple m)) = None"
    by (simp add: first_error_None tuple_digest_error_None)
  show ?thesis
    unfolding tuple by (auto simp: validate_manifest_def Let_def list_all_iff split: option.split)
qed

lemma preflight_allows_start_iff:
  "report_allows_start (run_firecracker_preflight f) \<longleftrightarrow>
     list_all fst (core_conditions f) \<and> list_all fst (degraded_conditions f)"
  by (auto simp: run_firecracker_preflight_def report_allows_start_def
      preflight_status_allows_start_def Let_def)

end
