(* ===== verification/Fire_Provider.thy ===== *)
theory Fire_Provider
  imports Fire_Fencing Fire_Preflight
begin

text \<open>
  The Firecracker provider (\<open>broker.rs\<close> and \<open>lifecycle.rs\<close> of crate
  \<open>sdkwork-sandbox-provider-firecracker\<close>). A call of the provider port is a machine: each of its steps is
  one lock section or one awaited call, so that calls on different threads interleave between them. The
  broker is a parameter over a host state; a broker call gets its budget, and \<open>None\<close> is a call that
  has not answered within it. The node keeps a log of the accepted fencing tokens and of the broker
  calls. Log lines are not modelled, and poisoned locks are recovered as in the code.
\<close>

section \<open>The broker seam\<close>

datatype broker_operation = PrepareBinding | BootVmm | ShutdownGuest | TerminateVmm | CleanupBinding

datatype broker_error_kind = BrokerUnavailable | BrokerQuarantined | BrokerRejected

record broker_error =
  broker_error_operation :: broker_operation
  broker_error_kind_of :: broker_error_kind

record prepare_binding_request =
  prepare_tenant_id :: string
  prepare_binding_id :: string
  prepare_allocation :: sandbox_allocation_ref
  prepare_workspace_id :: string

record binding_prepared =
  prepared_reference :: sandbox_allocation_ref
  prepared_network_enforced :: bool
  prepared_resource_enforced :: bool
  prepared_workspace_attached :: bool

record boot_vmm_request =
  boot_reference :: sandbox_allocation_ref
  boot_tenant_id :: string
  boot_binding_id :: string

record vmm_boot_outcome =
  outcome_vmm_reference :: sandbox_allocation_ref
  outcome_guest_authenticated :: bool

text \<open>Shutdown, termination and cleanup carry the same two references.\<close>

record vmm_request =
  vmm_binding_reference :: sandbox_allocation_ref
  vmm_vmm_reference :: "sandbox_allocation_ref option"

type_synonym ('h, 'a) broker_call = "('h, (broker_error + 'a) option) state"

record 'h isolation_broker =
  broker_prepare :: "u64 \<Rightarrow> prepare_binding_request \<Rightarrow> ('h, binding_prepared) broker_call"
  broker_boot :: "u64 \<Rightarrow> boot_vmm_request \<Rightarrow> ('h, vmm_boot_outcome) broker_call"
  broker_shutdown :: "u64 \<Rightarrow> vmm_request \<Rightarrow> ('h, unit) broker_call"
  broker_terminate :: "u64 \<Rightarrow> vmm_request \<Rightarrow> ('h, unit) broker_call"
  broker_cleanup :: "u64 \<Rightarrow> vmm_request \<Rightarrow> ('h, unit) broker_call"

section \<open>The provider and its node\<close>

definition max_active_allocations :: nat where "max_active_allocations = 1024"

record lifecycle_budgets =
  budget_prepare_ms :: u64
  budget_boot_ms :: u64
  budget_shutdown_ms :: u64
  budget_terminate_ms :: u64
  budget_cleanup_ms :: u64

definition default_budgets :: lifecycle_budgets where
  "default_budgets = \<lparr> budget_prepare_ms = 30000, budget_boot_ms = 60000, budget_shutdown_ms = 30000,
     budget_terminate_ms = 10000, budget_cleanup_ms = 60000 \<rparr>"

record capability_evidence =
  evidence_filesystem :: bool
  evidence_terminal :: bool

definition claimed_capabilities :: "capability_evidence \<Rightarrow> runtime_capability set" where
  "claimed_capabilities e = (if evidence_filesystem e then {Filesystem} else {})
     \<union> (if evidence_terminal e then {Terminal} else {})"

datatype allocation_phase = PhaseAllocated | PhaseRunning | PhaseStopped | PhaseQuarantined

record registry_entry =
  entry_allocation :: sandbox_allocation_ref
  entry_binding_reference :: "sandbox_allocation_ref option"
  entry_vmm_reference :: "sandbox_allocation_ref option"
  entry_phase :: allocation_phase

datatype fire_event =
  FenceAccepted string u64
| BrokerPrepared string u64 prepare_binding_request
| BrokerBooted string u64 boot_vmm_request
| BrokerShutDown string u64 vmm_request
| BrokerTerminated string u64 vmm_request
| BrokerCleaned string u64 vmm_request

record ('f, 'h) fire_provider =
  fire_fencing :: "'f fencing_store"
  fire_broker :: "'h isolation_broker"
  fire_facts :: "('h, host_facts) state"
  fire_evidence :: capability_evidence
  fire_budgets :: lifecycle_budgets

record ('f, 'h) fire_node =
  node_fence :: 'f
  node_registry :: "(string, registry_entry) btree"
  node_inflight :: "string set"
  node_host :: 'h
  node_uuids :: "string list"
  node_log :: "fire_event list"

definition fire_descriptor :: "('f, 'h) fire_provider \<Rightarrow> sandbox_provider_descriptor" where
  "fire_descriptor p = \<lparr> descriptor_provider_id = ''firecracker'', descriptor_provider_kind = ''firecracker'',
     descriptor_capabilities = claimed_capabilities (fire_evidence p), descriptor_assurance = MicroVm \<rparr>"

definition fire_error :: "sandbox_provider_operation \<Rightarrow> sandbox_provider_error_kind \<Rightarrow> sandbox_provider_error" where
  "fire_error op k = \<lparr> error_provider_id = ''firecracker'', error_operation = op, error_kind = k \<rparr>"

fun map_fencing_error :: "sandbox_provider_operation \<Rightarrow> fencing_authority_error \<Rightarrow> sandbox_provider_error" where
  "map_fencing_error op StaleFencing = fire_error op Rejected"
| "map_fencing_error op (AuthorityUnavailable e) = fire_error op Unavailable"

definition map_broker_error :: "broker_error \<Rightarrow> sandbox_provider_error_kind" where
  "map_broker_error e =
     (case broker_error_kind_of e of
        BrokerRejected \<Rightarrow> Rejected | BrokerUnavailable \<Rightarrow> Unavailable | BrokerQuarantined \<Rightarrow> Unavailable)"

text \<open>Effects on the parts of the node.\<close>

definition on_fence :: "('f, 'a) state \<Rightarrow> (('f, 'h) fire_node, 'a) state" where
  "on_fence m = State (\<lambda>n. case run_state m (node_fence n) of (r, f) \<Rightarrow> (r, n\<lparr> node_fence := f \<rparr>))"

definition on_host :: "('h, 'a) state \<Rightarrow> (('f, 'h) fire_node, 'a) state" where
  "on_host m = State (\<lambda>n. case run_state m (node_host n) of (r, h) \<Rightarrow> (r, n\<lparr> node_host := h \<rparr>))"

definition log_event :: "fire_event \<Rightarrow> (('f, 'h) fire_node, unit) state" where
  "log_event e = State (\<lambda>n. ((), n\<lparr> node_log := node_log n @ [e] \<rparr>))"

definition get_node :: "(('f, 'h) fire_node, ('f, 'h) fire_node) state" where
  "get_node = State (\<lambda>n. (n, n))"

definition put_registry :: "(string, registry_entry) btree \<Rightarrow> (('f, 'h) fire_node, unit) state" where
  "put_registry m = State (\<lambda>n. ((), n\<lparr> node_registry := m \<rparr>))"

definition put_inflight :: "string set \<Rightarrow> (('f, 'h) fire_node, unit) state" where
  "put_inflight s = State (\<lambda>n. ((), n\<lparr> node_inflight := s \<rparr>))"

definition next_uuid :: "(('f, 'h) fire_node, string) state" where
  "next_uuid = State (\<lambda>n. case node_uuids n of [] \<Rightarrow> ('''', n) | u # us \<Rightarrow> (u, n\<lparr> node_uuids := us \<rparr>))"

text \<open>The fence check that opens every mutating call, with the error of the operation.\<close>

definition fence_call ::
  "('f, 'h) fire_provider \<Rightarrow> sandbox_provider_operation \<Rightarrow> string \<Rightarrow> u64
     \<Rightarrow> (('f, 'h) fire_node, sandbox_provider_error + unit) state" where
  "fence_call p op b token =
     do { r \<leftarrow> on_fence (check_fencing_authority (fire_fencing p) b token);
          case r of
            Inl e \<Rightarrow> ret (Inl (map_fencing_error op e))
          | Inr _ \<Rightarrow> do { _ \<leftarrow> log_event (FenceAccepted b token); ret (Inr ()) } }"

definition run_broker ::
  "sandbox_provider_operation \<Rightarrow> fire_event \<Rightarrow> ('h, 'a) broker_call
     \<Rightarrow> (('f, 'h) fire_node, sandbox_provider_error + 'a) state" where
  "run_broker op ev call =
     do { _ \<leftarrow> log_event ev;
          r \<leftarrow> on_host call;
          ret (case r of
                 Some (Inr v) \<Rightarrow> Inr v
               | Some (Inl e) \<Rightarrow> Inl (fire_error op (map_broker_error e))
               | None \<Rightarrow> Inl (fire_error op Timeout)) }"

definition enter_inflight ::
  "sandbox_provider_operation \<Rightarrow> string \<Rightarrow> (('f, 'h) fire_node, sandbox_provider_error + unit) state" where
  "enter_inflight op b =
     do { n \<leftarrow> get_node;
          if b \<in> node_inflight n then ret (Inl (fire_error op Conflict))
          else do { _ \<leftarrow> put_inflight (insert b (node_inflight n)); ret (Inr ()) } }"

definition leave_inflight :: "string \<Rightarrow> (('f, 'h) fire_node, unit) state" where
  "leave_inflight b = do { n \<leftarrow> get_node; put_inflight (node_inflight n - {b}) }"

definition change_entry ::
  "string \<Rightarrow> (registry_entry \<Rightarrow> registry_entry) \<Rightarrow> (('f, 'h) fire_node, unit) state" where
  "change_entry b f =
     do { n \<leftarrow> get_node;
          case btm_get (node_registry n) b of
            None \<Rightarrow> ret ()
          | Some e \<Rightarrow> put_registry (btm_insert b (f e) (node_registry n)) }"

end
