(* ===== verification/Fire_Calls.thy ===== *)
theory Fire_Calls
  imports Fire_Provider
begin

text \<open>
  The four mutating calls of the Firecracker provider as machines. A state of a call names what the call
  does next and carries its local variables; \<open>fire_step\<close> does it. The in-flight mark is held from the
  step after \<open>Enter\<close> until \<open>Leaving\<close>, which every path runs through (the guard's \<open>Drop\<close>).
\<close>

datatype fire_reply =
  AllocateReply "sandbox_provider_error + sandbox_allocation_ref"
| StartReply "sandbox_provider_error + sandbox_provider_readiness"
| StopReply "sandbox_provider_error + unit"
| DestroyReply "sandbox_provider_error + unit"

datatype fire_call =
  AllocateFence provider_allocation_request
| AllocateRegister provider_allocation_request
| StartFence provider_start_request
| StartLookup provider_start_request
| StartEnter provider_start_request sandbox_allocation_ref
| StartPrepare provider_start_request sandbox_allocation_ref
| StartBoot provider_start_request binding_prepared
| StartCommit provider_start_request binding_prepared vmm_boot_outcome
| StopFence provider_stop_request
| StopLookup provider_stop_request
| StopEnter provider_stop_request sandbox_allocation_ref "sandbox_allocation_ref option"
| StopShutdown provider_stop_request sandbox_allocation_ref "sandbox_allocation_ref option"
| StopTerminate provider_stop_request sandbox_allocation_ref "sandbox_allocation_ref option"
| StopCommit provider_stop_request
| DestroyFence provider_destroy_request
| DestroyLookup provider_destroy_request
| DestroyEnter provider_destroy_request sandbox_allocation_ref
| DestroyCleanup provider_destroy_request sandbox_allocation_ref
| DestroyQuarantine provider_destroy_request sandbox_provider_error
| DestroyCommit provider_destroy_request
| Leaving string fire_reply
| Returned fire_reply

definition start_readiness :: "binding_prepared \<Rightarrow> vmm_boot_outcome \<Rightarrow> sandbox_provider_readiness" where
  "start_readiness pr boot = \<lparr> provider_ready = outcome_guest_authenticated boot,
     policy_enforced = prepared_network_enforced pr \<and> prepared_resource_enforced pr,
     workspace_attached = prepared_workspace_attached pr \<rparr>"

definition allocate_register ::
  "provider_allocation_request \<Rightarrow> (('f, 'h) fire_node, fire_call) state" where
  "allocate_register q =
     do { n \<leftarrow> get_node;
          if btm_contains (node_registry n) (allocate_binding_id q) then
            ret (Returned (AllocateReply (Inl (fire_error ProviderAllocate Conflict))))
          else if length (node_registry n) \<ge> max_active_allocations then
            ret (Returned (AllocateReply (Inl (fire_error ProviderAllocate Unavailable))))
          else
            do { uuid \<leftarrow> next_uuid;
                 case allocation_ref_new (''fcalloc:'' @ uuid) of
                   Inl _ \<Rightarrow> ret (Returned (AllocateReply (Inl (fire_error ProviderAllocate Internal))))
                 | Inr aref \<Rightarrow>
                     do { _ \<leftarrow> put_registry (btm_insert (allocate_binding_id q)
                            \<lparr> entry_allocation = aref, entry_binding_reference = None,
                              entry_vmm_reference = None, entry_phase = PhaseAllocated \<rparr> (node_registry n));
                          ret (Returned (AllocateReply (Inr aref))) } } }"

definition start_lookup :: "provider_start_request \<Rightarrow> (('f, 'h) fire_node, fire_call) state" where
  "start_lookup q =
     do { n \<leftarrow> get_node;
          ret (case btm_get (node_registry n) (start_binding_id q) of
                 None \<Rightarrow> Returned (StartReply (Inl (fire_error ProviderStart Conflict)))
               | Some e \<Rightarrow>
                   if entry_phase e = PhaseAllocated \<or> entry_phase e = PhaseStopped
                   then StartEnter q (entry_allocation e)
                   else Returned (StartReply (Inl (fire_error ProviderStart Conflict)))) }"

definition start_commit ::
  "provider_start_request \<Rightarrow> binding_prepared \<Rightarrow> vmm_boot_outcome \<Rightarrow> (('f, 'h) fire_node, fire_call) state" where
  "start_commit q pr boot =
     do { _ \<leftarrow> change_entry (start_binding_id q) (\<lambda>e.
            (let e' = e\<lparr> entry_binding_reference := Some (prepared_reference pr),
                        entry_vmm_reference := Some (outcome_vmm_reference boot) \<rparr>
             in if is_sandbox_running_ready (start_readiness pr boot)
                then e'\<lparr> entry_phase := PhaseRunning \<rparr> else e'));
          ret (Leaving (start_binding_id q) (StartReply (Inr (start_readiness pr boot)))) }"

definition stop_lookup :: "provider_stop_request \<Rightarrow> (('f, 'h) fire_node, fire_call) state" where
  "stop_lookup q =
     do { n \<leftarrow> get_node;
          ret (case btm_get (node_registry n) (stop_binding_id q) of
                 None \<Rightarrow> Returned (StopReply (Inl (fire_error ProviderStop Conflict)))
               | Some e \<Rightarrow>
                   if entry_phase e = PhaseRunning \<or> entry_phase e = PhaseAllocated
                   then StopEnter q (entry_allocation e) (entry_vmm_reference e)
                   else if entry_phase e = PhaseStopped then Returned (StopReply (Inr ()))
                   else Returned (StopReply (Inl (fire_error ProviderStop Conflict)))) }"

definition destroy_lookup :: "provider_destroy_request \<Rightarrow> (('f, 'h) fire_node, fire_call) state" where
  "destroy_lookup q =
     do { n \<leftarrow> get_node;
          ret (case btm_get (node_registry n) (destroy_binding_id q) of
                 None \<Rightarrow> Returned (DestroyReply (Inr ()))
               | Some e \<Rightarrow>
                   if destroy_allocation q \<noteq> None \<and> destroy_allocation q \<noteq> Some (entry_allocation e)
                   then Returned (DestroyReply (Inl (fire_error ProviderDestroy Rejected)))
                   else DestroyEnter q (entry_allocation e)) }"

text \<open>The continuation of a fallible stage: the error returns through \<open>Returned\<close> or \<open>Leaving\<close>.\<close>

definition then_call ::
  "(('f, 'h) fire_node, sandbox_provider_error + 'a) state \<Rightarrow> (sandbox_provider_error \<Rightarrow> fire_call)
     \<Rightarrow> ('a \<Rightarrow> fire_call) \<Rightarrow> (('f, 'h) fire_node, fire_call) state" where
  "then_call m err ok = do { r \<leftarrow> m; ret (case r of Inl e \<Rightarrow> err e | Inr x \<Rightarrow> ok x) }"

text \<open>The operation a call belongs to.\<close>

fun call_kind :: "fire_call \<Rightarrow> sandbox_provider_operation" where
  "call_kind (AllocateFence q) = ProviderAllocate"
| "call_kind (AllocateRegister q) = ProviderAllocate"
| "call_kind (StopFence q) = ProviderStop"
| "call_kind (StopLookup q) = ProviderStop"
| "call_kind (StopEnter q aref vmm) = ProviderStop"
| "call_kind (StopShutdown q aref vmm) = ProviderStop"
| "call_kind (StopTerminate q aref vmm) = ProviderStop"
| "call_kind (StopCommit q) = ProviderStop"
| "call_kind (DestroyFence q) = ProviderDestroy"
| "call_kind (DestroyLookup q) = ProviderDestroy"
| "call_kind (DestroyEnter q aref) = ProviderDestroy"
| "call_kind (DestroyCleanup q aref) = ProviderDestroy"
| "call_kind (DestroyQuarantine q err) = ProviderDestroy"
| "call_kind (DestroyCommit q) = ProviderDestroy"
| "call_kind (Leaving b r) = (case r of AllocateReply _ \<Rightarrow> ProviderAllocate | StartReply _ \<Rightarrow> ProviderStart
     | StopReply _ \<Rightarrow> ProviderStop | DestroyReply _ \<Rightarrow> ProviderDestroy)"
| "call_kind (Returned r) = (case r of AllocateReply _ \<Rightarrow> ProviderAllocate | StartReply _ \<Rightarrow> ProviderStart
     | StopReply _ \<Rightarrow> ProviderStop | DestroyReply _ \<Rightarrow> ProviderDestroy)"
| "call_kind c = ProviderStart"

text \<open>
  The steps of each operation, in the order of its body; a call of another operation is left as it is.
\<close>

fun allocate_step ::
  "('f, 'h) fire_provider \<Rightarrow> fire_call \<Rightarrow> (('f, 'h) fire_node, fire_call) state" where
  "allocate_step p (AllocateFence q) =
     then_call (fence_call p ProviderAllocate (allocate_binding_id q) (allocate_fencing_token q))
       (\<lambda>e. Returned (AllocateReply (Inl e))) (\<lambda>_. AllocateRegister q)"
| "allocate_step p (AllocateRegister q) = allocate_register q"
| "allocate_step p c = ret c"

fun start_step ::
  "('f, 'h) fire_provider \<Rightarrow> fire_call \<Rightarrow> (('f, 'h) fire_node, fire_call) state" where
  "start_step p (StartFence q) =
     then_call (fence_call p ProviderStart (start_binding_id q) (start_fencing_token q))
       (\<lambda>e. Returned (StartReply (Inl e))) (\<lambda>_. StartLookup q)"
| "start_step p (StartLookup q) = start_lookup q"
| "start_step p (StartEnter q aref) =
     then_call (enter_inflight ProviderStart (start_binding_id q))
       (\<lambda>e. Returned (StartReply (Inl e))) (\<lambda>_. StartPrepare q aref)"
| "start_step p (StartPrepare q aref) =
     (let req = \<lparr> prepare_tenant_id = start_tenant_id q, prepare_binding_id = start_binding_id q,
            prepare_allocation = aref, prepare_workspace_id = start_workspace_id q \<rparr>
      in then_call
           (run_broker ProviderStart (BrokerPrepared (start_binding_id q) (start_fencing_token q) req)
              (broker_prepare (fire_broker p) (budget_prepare_ms (fire_budgets p)) req))
           (\<lambda>e. Leaving (start_binding_id q) (StartReply (Inl e))) (StartBoot q))"
| "start_step p (StartBoot q pr) =
     (let req = \<lparr> boot_reference = prepared_reference pr, boot_tenant_id = start_tenant_id q,
            boot_binding_id = start_binding_id q \<rparr>
      in then_call
           (run_broker ProviderStart (BrokerBooted (start_binding_id q) (start_fencing_token q) req)
              (broker_boot (fire_broker p) (budget_boot_ms (fire_budgets p)) req))
           (\<lambda>e. Leaving (start_binding_id q) (StartReply (Inl e))) (StartCommit q pr))"
| "start_step p (StartCommit q pr boot) = start_commit q pr boot"
| "start_step p c = ret c"

fun stop_step ::
  "('f, 'h) fire_provider \<Rightarrow> fire_call \<Rightarrow> (('f, 'h) fire_node, fire_call) state" where
  "stop_step p (StopFence q) =
     then_call (fence_call p ProviderStop (stop_binding_id q) (stop_fencing_token q))
       (\<lambda>e. Returned (StopReply (Inl e))) (\<lambda>_. StopLookup q)"
| "stop_step p (StopLookup q) = stop_lookup q"
| "stop_step p (StopEnter q aref vmm) =
     then_call (enter_inflight ProviderStop (stop_binding_id q))
       (\<lambda>e. Returned (StopReply (Inl e))) (\<lambda>_. StopShutdown q aref vmm)"
| "stop_step p (StopShutdown q aref vmm) =
     (let req = \<lparr> vmm_binding_reference = aref, vmm_vmm_reference = vmm \<rparr>
      in then_call
           (run_broker ProviderStop (BrokerShutDown (stop_binding_id q) (stop_fencing_token q) req)
              (broker_shutdown (fire_broker p) (budget_shutdown_ms (fire_budgets p)) req))
           (\<lambda>_. StopTerminate q aref vmm) (\<lambda>_. StopTerminate q aref vmm))"
| "stop_step p (StopTerminate q aref vmm) =
     (let req = \<lparr> vmm_binding_reference = aref, vmm_vmm_reference = vmm \<rparr>
      in then_call
           (run_broker ProviderStop (BrokerTerminated (stop_binding_id q) (stop_fencing_token q) req)
              (broker_terminate (fire_broker p) (budget_terminate_ms (fire_budgets p)) req))
           (\<lambda>e. Leaving (stop_binding_id q) (StopReply (Inl e))) (\<lambda>_. StopCommit q))"
| "stop_step p (StopCommit q) =
     do { _ \<leftarrow> change_entry (stop_binding_id q) (\<lambda>e. e\<lparr> entry_phase := PhaseStopped \<rparr>);
          ret (Leaving (stop_binding_id q) (StopReply (Inr ()))) }"
| "stop_step p c = ret c"

fun destroy_step ::
  "('f, 'h) fire_provider \<Rightarrow> fire_call \<Rightarrow> (('f, 'h) fire_node, fire_call) state" where
  "destroy_step p (DestroyFence q) =
     then_call (fence_call p ProviderDestroy (destroy_binding_id q) (destroy_fencing_token q))
       (\<lambda>e. Returned (DestroyReply (Inl e))) (\<lambda>_. DestroyLookup q)"
| "destroy_step p (DestroyLookup q) = destroy_lookup q"
| "destroy_step p (DestroyEnter q aref) =
     then_call (enter_inflight ProviderDestroy (destroy_binding_id q))
       (\<lambda>e. Returned (DestroyReply (Inl e))) (\<lambda>_. DestroyCleanup q aref)"
| "destroy_step p (DestroyCleanup q aref) =
     (let req = \<lparr> vmm_binding_reference = aref, vmm_vmm_reference = None \<rparr>
      in then_call
           (run_broker ProviderDestroy (BrokerCleaned (destroy_binding_id q) (destroy_fencing_token q) req)
              (broker_cleanup (fire_broker p) (budget_cleanup_ms (fire_budgets p)) req))
           (DestroyQuarantine q) (\<lambda>_. DestroyCommit q))"
| "destroy_step p (DestroyQuarantine q err) =
     do { _ \<leftarrow> change_entry (destroy_binding_id q) (\<lambda>e. e\<lparr> entry_phase := PhaseQuarantined \<rparr>);
          ret (Leaving (destroy_binding_id q) (DestroyReply (Inl err))) }"
| "destroy_step p (DestroyCommit q) =
     do { n \<leftarrow> get_node;
          _ \<leftarrow> put_registry (btm_remove (destroy_binding_id q) (node_registry n));
          ret (Leaving (destroy_binding_id q) (DestroyReply (Inr ()))) }"
| "destroy_step p c = ret c"

text \<open>One step of any call: the operation's own, or the drop of the in-flight mark at its end.\<close>

definition fire_step ::
  "('f, 'h) fire_provider \<Rightarrow> fire_call \<Rightarrow> (('f, 'h) fire_node, fire_call) state" where
  "fire_step p c =
     (case c of
        Leaving b r \<Rightarrow> do { _ \<leftarrow> leave_inflight b; ret (Returned r) }
      | Returned r \<Rightarrow> ret (Returned r)
      | _ \<Rightarrow>
         (case call_kind c of
            ProviderAllocate \<Rightarrow> allocate_step p c
          | ProviderStart \<Rightarrow> start_step p c
          | ProviderStop \<Rightarrow> stop_step p c
          | ProviderDestroy \<Rightarrow> destroy_step p c
          | _ \<Rightarrow> ret c))"

lemma fire_step_simps [simp]:
  "fire_step p (AllocateFence qa) = allocate_step p (AllocateFence qa)"
  "fire_step p (AllocateRegister qa) = allocate_step p (AllocateRegister qa)"
  "fire_step p (StartFence qs) = start_step p (StartFence qs)"
  "fire_step p (StartLookup qs) = start_step p (StartLookup qs)"
  "fire_step p (StartEnter qs aref) = start_step p (StartEnter qs aref)"
  "fire_step p (StartPrepare qs aref) = start_step p (StartPrepare qs aref)"
  "fire_step p (StartBoot qs pr) = start_step p (StartBoot qs pr)"
  "fire_step p (StartCommit qs pr boot) = start_step p (StartCommit qs pr boot)"
  "fire_step p (StopFence qt) = stop_step p (StopFence qt)"
  "fire_step p (StopLookup qt) = stop_step p (StopLookup qt)"
  "fire_step p (StopEnter qt aref vmm) = stop_step p (StopEnter qt aref vmm)"
  "fire_step p (StopShutdown qt aref vmm) = stop_step p (StopShutdown qt aref vmm)"
  "fire_step p (StopTerminate qt aref vmm) = stop_step p (StopTerminate qt aref vmm)"
  "fire_step p (StopCommit qt) = stop_step p (StopCommit qt)"
  "fire_step p (DestroyFence qd) = destroy_step p (DestroyFence qd)"
  "fire_step p (DestroyLookup qd) = destroy_step p (DestroyLookup qd)"
  "fire_step p (DestroyEnter qd aref) = destroy_step p (DestroyEnter qd aref)"
  "fire_step p (DestroyCleanup qd aref) = destroy_step p (DestroyCleanup qd aref)"
  "fire_step p (DestroyQuarantine qd err) = destroy_step p (DestroyQuarantine qd err)"
  "fire_step p (DestroyCommit qd) = destroy_step p (DestroyCommit qd)"
  "fire_step p (Leaving b r) = do { _ \<leftarrow> leave_inflight b; ret (Returned r) }"
  "fire_step p (Returned r) = ret (Returned r)"
  by (simp_all add: fire_step_def)

section \<open>Running a call to its end\<close>

fun call_rank :: "fire_call \<Rightarrow> nat" where
  "call_rank (AllocateFence q) = 2"
| "call_rank (AllocateRegister q) = 1"
| "call_rank (StartFence q) = 7"
| "call_rank (StartLookup q) = 6"
| "call_rank (StartEnter q aref) = 5"
| "call_rank (StartPrepare q aref) = 4"
| "call_rank (StartBoot q pr) = 3"
| "call_rank (StartCommit q pr boot) = 2"
| "call_rank (StopFence q) = 7"
| "call_rank (StopLookup q) = 6"
| "call_rank (StopEnter q aref vmm) = 5"
| "call_rank (StopShutdown q aref vmm) = 4"
| "call_rank (StopTerminate q aref vmm) = 3"
| "call_rank (StopCommit q) = 2"
| "call_rank (DestroyFence q) = 6"
| "call_rank (DestroyLookup q) = 5"
| "call_rank (DestroyEnter q aref) = 4"
| "call_rank (DestroyCleanup q aref) = 3"
| "call_rank (DestroyQuarantine q err) = 2"
| "call_rank (DestroyCommit q) = 2"
| "call_rank (Leaving b r) = 1"
| "call_rank (Returned r) = 0"

lemma then_call_run:
  "run_state (then_call m err ok) n
     = (case run_state m n of (r, n') \<Rightarrow> (case r of Inl e \<Rightarrow> err e | Inr x \<Rightarrow> ok x, n'))"
  by (simp add: then_call_def split: prod.split)

lemma fire_step_rank:
  "call_rank c \<noteq> 0 \<Longrightarrow> call_rank (fst (run_state (fire_step p c) n)) < call_rank c"
  by (cases c) (auto simp: then_call_run Let_def allocate_register_def start_lookup_def start_commit_def
      stop_lookup_def destroy_lookup_def get_node_def next_uuid_def put_registry_def
      split: prod.splits sum.splits option.splits list.splits)

fun call_reply :: "fire_call \<Rightarrow> fire_reply option" where
  "call_reply (Returned r) = Some r"
| "call_reply _ = None"

lemma call_reply_rank: "call_reply c = None \<longleftrightarrow> call_rank c \<noteq> 0"
  by (cases c) simp_all

function run_call ::
  "('f, 'h) fire_provider \<Rightarrow> fire_call \<Rightarrow> ('f, 'h) fire_node \<Rightarrow> fire_reply \<times> ('f, 'h) fire_node" where
  "run_call p c n =
     (case call_reply c of
        Some r \<Rightarrow> (r, n)
      | None \<Rightarrow> (let (c', n') = run_state (fire_step p c) n in run_call p c' n'))"
  by pat_completeness auto
termination
proof (relation "measure (\<lambda>(p, c, n). call_rank c)", goal_cases)
  case (2 p c n x c' n')
  then show ?case using fire_step_rank [of c p n] call_reply_rank [of c] by (metis case_prod_conv fst_conv in_measure)
qed simp

declare run_call.simps [simp del]

lemma run_call_returned: "run_call p (Returned r) n = (r, n)"
  by (subst run_call.simps) simp

lemma run_call_step:
  "call_rank c \<noteq> 0 \<Longrightarrow> run_call p c n = (case run_state (fire_step p c) n of (c', n') \<Rightarrow> run_call p c' n')"
  by (subst run_call.simps) (use call_reply_rank [of c] in \<open>simp add: Let_def\<close>)

section \<open>The provider port\<close>

definition firecracker_health ::
  "('f, 'h) fire_provider \<Rightarrow> (('f, 'h) fire_node, sandbox_provider_health_status) provider_call" where
  "firecracker_health p =
     do { facts \<leftarrow> on_host (fire_facts p);
          ret (Some (Inr (case report_status (run_firecracker_preflight facts) of
                 PreflightReady \<Rightarrow> HealthReady
               | PreflightDegraded \<Rightarrow> HealthDegraded
               | PreflightUnavailable \<Rightarrow> HealthUnavailable))) }"

definition firecracker_provider :: "('f, 'h) fire_provider \<Rightarrow> ('f, 'h) fire_node sandbox_provider" where
  "firecracker_provider p = \<lparr> provider_descriptor = fire_descriptor p,
     provider_health = firecracker_health p,
     provider_allocate = (\<lambda>q. State (\<lambda>n. case run_call p (AllocateFence q) n of
       (r, n') \<Rightarrow> (case r of AllocateReply x \<Rightarrow> Some x | _ \<Rightarrow> None, n'))),
     provider_start = (\<lambda>q. State (\<lambda>n. case run_call p (StartFence q) n of
       (r, n') \<Rightarrow> (case r of StartReply x \<Rightarrow> Some x | _ \<Rightarrow> None, n'))),
     provider_stop = (\<lambda>q. State (\<lambda>n. case run_call p (StopFence q) n of
       (r, n') \<Rightarrow> (case r of StopReply x \<Rightarrow> Some x | _ \<Rightarrow> None, n'))),
     provider_destroy = (\<lambda>q. State (\<lambda>n. case run_call p (DestroyFence q) n of
       (r, n') \<Rightarrow> (case r of DestroyReply x \<Rightarrow> Some x | _ \<Rightarrow> None, n'))) \<rparr>"

text \<open>A call only ever answers with a reply of its own kind.\<close>


lemma fire_step_kind: "call_kind (fst (run_state (fire_step p c) n)) = call_kind c"
  by (cases c) (auto simp: then_call_run Let_def allocate_register_def start_lookup_def start_commit_def
      stop_lookup_def destroy_lookup_def get_node_def next_uuid_def put_registry_def
      split: prod.splits sum.splits option.splits list.splits)

lemma run_call_kind: "run_call p c n = (r, n') \<Longrightarrow> call_kind (Returned r) = call_kind c"
proof (induction p c n rule: run_call.induct)
  case (1 p c n)
  show ?case
  proof (cases "call_rank c = 0")
    case True
    then show ?thesis using "1.prems" by (cases c) (auto simp: run_call_returned)
  next
    case False
    obtain c' n1 where step: "run_state (fire_step p c) n = (c', n1)" by force
    then have "run_call p c' n1 = (r, n')" using "1.prems" False by (simp add: run_call_step)
    then show ?thesis
      using "1.IH" [OF _ _ ] False step fire_step_kind [of p c n] call_reply_rank [of c] by auto
  qed
qed

end
