(* ===== verification/Fire_Fencing_Spec.thy ===== *)
theory Fire_Fencing_Spec
  imports Fire_Fencing
begin

text \<open>
  What a fencing store promises: one maximum per binding, moved only by an accepted newer token. The
  abstract fence is a function from bindings to their maximum; both stores refine it, and a call that
  fails for any other reason than staleness leaves every maximum where it was.
\<close>

section \<open>The abstract fence\<close>

definition fence_record ::
  "string \<Rightarrow> u64 \<Rightarrow> (string \<Rightarrow> u64) \<Rightarrow> (fencing_store_error + fencing_decision) \<times> (string \<Rightarrow> u64)" where
  "fence_record b token m =
     (if token < m b then (Inl StaleRecord, m)
      else if token = m b then (Inr Replayed, m)
      else (Inr Advanced, m(b := token)))"

definition fence_step ::
  "string \<Rightarrow> u64 \<Rightarrow> fencing_store_error + fencing_decision \<Rightarrow> (string \<Rightarrow> u64) \<Rightarrow> (string \<Rightarrow> u64) \<Rightarrow> bool" where
  "fence_step b token r m m' \<longleftrightarrow>
     (r, m') = fence_record b token m \<or> (m' = m \<and> (\<exists>e. r = Inl e \<and> e \<noteq> StaleRecord))"

locale fencing_port =
  fixes fs :: "'f fencing_store"
    and ok :: "'f \<Rightarrow> bool"
    and maxima :: "'f \<Rightarrow> string \<Rightarrow> u64"
  assumes record_ok: "ok f \<Longrightarrow> run_state (store_record_token fs b t) f = (r, f') \<Longrightarrow> ok f'"
    and record_refines: "ok f \<Longrightarrow> t \<noteq> 0 \<Longrightarrow> run_state (store_record_token fs b t) f = (r, f') \<Longrightarrow>
      fence_step b t r (maxima f) (maxima f')"
    and read_refines: "ok f \<Longrightarrow> run_state (store_max_token fs b) f = (v, f') \<Longrightarrow>
      ok f' \<and> maxima f' = maxima f \<and> (\<forall>t. v = Inr t \<longrightarrow> t = maxima f b)"
begin

lemma authority_refines:
  assumes "ok f" "run_state (check_fencing_authority fs b t) f = (r, f')"
  shows "ok f'"
    "r = Inr d \<Longrightarrow> t \<noteq> 0 \<and> maxima f b \<le> t \<and> maxima f' = (maxima f)(b := t)
       \<and> (d = Replayed \<longleftrightarrow> t = maxima f b)"
    "r = Inl e \<Longrightarrow> maxima f' = maxima f \<and> (e = StaleFencing \<longrightarrow> t = 0 \<or> t < maxima f b)"
proof -
  show "ok f'"
    using assms record_ok
    by (auto simp: check_fencing_authority_def split: if_splits prod.splits sum.splits)
  consider (zero) "t = 0" "r = Inl StaleFencing" "f' = f"
    | (rec) x where "t \<noteq> 0" "run_state (store_record_token fs b t) f = (x, f')"
      "r = (case x of Inr d \<Rightarrow> Inr d
         | Inl e \<Rightarrow> if e = StaleRecord then Inl StaleFencing else Inl (AuthorityUnavailable e))"
    using assms(2) by (auto simp: check_fencing_authority_def split: if_splits prod.splits)
  note cs = this
  show "t \<noteq> 0 \<and> maxima f b \<le> t \<and> maxima f' = (maxima f)(b := t) \<and> (d = Replayed \<longleftrightarrow> t = maxima f b)"
    if "r = Inr d"
    using cs
  proof cases
    case (rec x)
    then show ?thesis
      using record_refines [OF assms(1) rec(1,2)] that
      by (auto simp: fence_step_def fence_record_def fun_eq_iff split: sum.splits if_splits)
  qed (use that in simp)
  show "maxima f' = maxima f \<and> (e = StaleFencing \<longrightarrow> t = 0 \<or> t < maxima f b)" if "r = Inl e"
    using cs
  proof cases
    case (rec x)
    then show ?thesis
      using record_refines [OF assms(1) rec(1,2)] that
      by (auto simp: fence_step_def fence_record_def split: sum.splits if_splits)
  qed (use that in simp)
qed

end

section \<open>The in-memory store\<close>

definition memory_maxima :: "memory_fencing \<Rightarrow> string \<Rightarrow> u64" where
  "memory_maxima m b = (case btm_get m b of None \<Rightarrow> 0 | Some t \<Rightarrow> t)"

interpretation memory_fencing: fencing_port memory_fencing_store btm_ok memory_maxima
proof (unfold_locales, goal_cases)
  case (1 f b t r f')
  then show ?case
    by (auto simp: memory_fencing_store_def memory_record_def Let_def split: option.splits if_splits)
next
  case (2 f t b r f')
  have run: "memory_record b t f = (r, f')" using 2(3) by (simp add: memory_fencing_store_def)
  show ?case
  proof (cases "btm_get f b")
    case None
    then show ?thesis
      using run 2(1,2)
      by (auto simp: memory_record_def Let_def fence_step_def fence_record_def memory_maxima_def
          fun_eq_iff split: if_splits)
  next
    case (Some recorded)
    then have here: "memory_maxima f b = recorded" "btm_contains f b"
      by (simp_all add: memory_maxima_def btm_contains_def)
    consider "t < recorded" | "t = recorded" | "recorded < t" by (rule linorder_cases)
    then show ?thesis
    proof cases
      case 3
      then have "r = Inr Advanced" "f' = btm_insert b t f"
        using run Some here(2) by (auto simp: memory_record_def split: if_splits)
      then show ?thesis
        using 3 here by (auto simp: fence_step_def fence_record_def memory_maxima_def fun_eq_iff)
    qed (use run Some here(1) in \<open>simp_all add: memory_record_def fence_step_def fence_record_def\<close>)
  qed
next
  case (3 f b v f')
  then show ?case by (auto simp: memory_fencing_store_def memory_max_token_def memory_maxima_def)
qed

section \<open>The durable store\<close>

lemma hex_digit_inject: "i < 16 \<Longrightarrow> j < 16 \<Longrightarrow> hex_digit i = hex_digit j \<Longrightarrow> i = j"
proof -
  have "distinct ''0123456789abcdef''" "length ''0123456789abcdef'' = 16" by simp_all
  then show "i < 16 \<Longrightarrow> j < 16 \<Longrightarrow> hex_digit i = hex_digit j \<Longrightarrow> i = j"
    unfolding hex_digit_def using nth_eq_iff_index_eq by metis
qed

lemma hex_byte_inject: "hex_byte c = hex_byte d \<longleftrightarrow> c = d"
proof
  assume same: "hex_byte c = hex_byte d"
  have small: "(of_char x :: nat) div 16 < 16" "(of_char x :: nat) mod 16 < 16" for x :: char
    by (simp_all add: div_less_iff_less_mult)
  have "(of_char c :: nat) div 16 = of_char d div 16"
    using same by (intro hex_digit_inject small) (simp add: hex_byte_def)
  moreover have "(of_char c :: nat) mod 16 = of_char d mod 16"
    using same by (intro hex_digit_inject small) (simp add: hex_byte_def)
  ultimately have "(of_char c :: nat) = of_char d" by (metis div_mult_mod_eq)
  then show "c = d" by simp
qed simp

lemma hex_byte_length [simp]: "length (hex_byte c) = 2"
  by (simp add: hex_byte_def)

lemma hex_inject: "concat (map hex_byte a) = concat (map hex_byte b) \<longleftrightarrow> a = b"
proof (induction a arbitrary: b)
  case Nil
  have "hex_byte c \<noteq> []" for c by (simp add: hex_byte_def)
  then show ?case by (cases b) simp_all
next
  case (Cons c a)
  show ?case
  proof (cases b)
    case Nil
    then show ?thesis by (simp add: hex_byte_def)
  next
    case (Cons d b')
    then show ?thesis by (simp add: append_eq_append_conv hex_byte_inject Cons.IH)
  qed
qed

lemma record_path_inject [simp]: "record_path a = record_path b \<longleftrightarrow> a = b"
  by (simp add: record_path_def hex_inject)

lemma temporary_not_record [simp]: "temporary_path (record_path a) \<noteq> record_path b"
proof
  assume "temporary_path (record_path a) = record_path b"
  then have "last (temporary_path (record_path a)) = last (record_path b)" by simp
  then show False by (simp add: temporary_path_def record_path_def)
qed

lemma record_not_temporary [simp]: "record_path b \<noteq> temporary_path (record_path a)"
  using temporary_not_record by metis

text \<open>A written record reads back as the token.\<close>

lemma decimal_untrimmed: "trim_ascii (decimal n) = decimal n"
proof -
  have digits: "\<forall>c\<in>set (decimal n). \<not> is_ascii_trimmed c"
    using decimal_digits by (fastforce simp: is_ascii_trimmed_def)
  have kept: "dropWhile is_ascii_trimmed xs = xs" if "\<forall>c\<in>set xs. \<not> is_ascii_trimmed c" for xs
    using that by (cases xs) simp_all
  show ?thesis using digits by (simp add: trim_ascii_def kept)
qed

lemma parse_decimal: "t \<noteq> 0 \<Longrightarrow> parse_record (decimal (unat t)) = Inr t"
proof -
  assume "t \<noteq> 0"
  have small: "unat t < 18446744073709551616" using unat_u64_less [of t] by simp
  have "length (decimal (unat t)) \<le> Suc 19" by (rule decimal_length) (use small in simp)
  moreover have "list_all is_decimal_digit (decimal (unat t))"
    using decimal_digits by (auto simp: list_all_iff is_decimal_digit_def)
  ultimately show ?thesis
    using small decimal_nonempty [of "unat t"] \<open>t \<noteq> 0\<close>
    by (simp add: parse_record_def decimal_untrimmed undecimal_decimal del: undecimal.simps)
qed

definition disk_maxima :: "fencing_disk \<Rightarrow> string \<Rightarrow> u64" where
  "disk_maxima d b = (case disk_files d (record_path b) of
     Some (TextFile s) \<Rightarrow> (case parse_record s of Inr t \<Rightarrow> t | Inl _ \<Rightarrow> 0) | _ \<Rightarrow> 0)"

lemma next_fault_maxima: "run_state next_fault d = (f, d') \<Longrightarrow> disk_maxima d' = disk_maxima d"
  by (auto simp: next_fault_def disk_maxima_def split: list.splits)

lemma next_fault_files: "run_state next_fault d = (f, d') \<Longrightarrow> disk_files d' = disk_files d"
  by (auto simp: next_fault_def split: list.splits)

lemma read_record_run:
  assumes "run_state (read_record (record_path b)) d = (v, d')"
  shows "disk_files d' = disk_files d"
    "v = Inr t \<Longrightarrow> t = disk_maxima d b"
    "v = Inl e \<Longrightarrow> e \<noteq> StaleRecord"
proof -
  obtain f d1 where f: "run_state next_fault d = (f, d1)" by force
  have v: "d' = d1" "v = (case f of Some _ \<Rightarrow> Inl StoreUnavailable
      | None \<Rightarrow> (case disk_files d1 (record_path b) of None \<Rightarrow> Inr 0 | Some BinaryFile \<Rightarrow> Inl StoreUnavailable
          | Some (TextFile s) \<Rightarrow> parse_record s))"
    using assms f by (auto simp: read_record_def)
  show "disk_files d' = disk_files d" using v(1) next_fault_files [OF f] by simp
  show "v = Inr t \<Longrightarrow> t = disk_maxima d b"
    using v next_fault_files [OF f]
    by (auto simp: disk_maxima_def split: option.splits disk_file.splits sum.splits)
  show "v = Inl e \<Longrightarrow> e \<noteq> StaleRecord"
    using v by (auto simp: parse_record_def Let_def split: option.splits disk_file.splits if_splits)
qed

lemma maxima_cong: "disk_files d' = disk_files d \<Longrightarrow> disk_maxima d' = disk_maxima d"
  by (simp add: disk_maxima_def fun_eq_iff)

lemma put_temporary:
  "run_state (put_file (temporary_path (record_path b)) f) d = (u, d') \<Longrightarrow> disk_maxima d' = disk_maxima d"
  by (auto simp: put_file_def disk_maxima_def fun_eq_iff)

lemma write_record_run:
  assumes "t \<noteq> 0" "run_state (write_record (record_path b) t) d = (v, d')"
  shows "v = Inr () \<and> disk_maxima d' = (disk_maxima d)(b := t)
    \<or> v = Inl StoreUnavailable \<and> disk_maxima d' = disk_maxima d"
proof -
  define tmp where "tmp = temporary_path (record_path b)"
  have tmp: "disk_maxima (x\<lparr> disk_files := (disk_files x)(tmp := f) \<rparr>) = disk_maxima x" for x f
    by (simp add: tmp_def disk_maxima_def fun_eq_iff)
  have here: "disk_maxima (x\<lparr> disk_files := (disk_files x)(record_path b := Some (TextFile (decimal (unat t)))) \<rparr>)
      = (disk_maxima x)(b := t)" for x
    using parse_decimal [OF assms(1)] by (auto simp: disk_maxima_def fun_eq_iff)
  have moved: "disk_maxima (x\<lparr> disk_files := (disk_files x)(record_path b := Some (TextFile (decimal (unat t))),
      tmp := None) \<rparr>) = (disk_maxima x)(b := t)" for x
    using tmp [of "x\<lparr> disk_files := (disk_files x)(record_path b := Some (TextFile (decimal (unat t)))) \<rparr>" None]
      here [of x] by simp
  obtain f1 d1 where f1: "run_state next_fault d = (f1, d1)" by force
  define d2 where "d2 = d1\<lparr> disk_files := (disk_files d1)(tmp := Some (TextFile [])) \<rparr>"
  obtain f2 d3 where f2: "run_state next_fault d2 = (f2, d3)" by force
  define d4 where "d4 = d3\<lparr> disk_files := (disk_files d3)(tmp := Some (TextFile (decimal (unat t)))) \<rparr>"
  obtain f3 d5 where f3: "run_state next_fault d4 = (f3, d5)" by force
  have same: "disk_maxima d1 = disk_maxima d" "disk_maxima d3 = disk_maxima d" "disk_maxima d5 = disk_maxima d"
    using next_fault_maxima [OF f1] next_fault_maxima [OF f2] next_fault_maxima [OF f3] tmp
    by (simp_all add: d2_def d4_def)
  show ?thesis
    using assms(2) f1 f2 f3 same tmp moved
    by (auto simp: write_record_def put_file_def tmp_def [symmetric] d2_def [symmetric] d4_def [symmetric]
        split: option.splits if_splits)
qed

interpretation file_fencing: fencing_port file_fencing_store "\<lambda>_. True" disk_maxima
proof (unfold_locales, goal_cases)
  case (2 d t b r d')
  obtain v d1 where v: "run_state (read_record (record_path b)) d = (v, d1)" by force
  have rest: "(r, d') = (case v of Inl e \<Rightarrow> (Inl e, d1) | Inr recorded \<Rightarrow>
      run_state (if t < recorded then ret (Inl StaleRecord) else if t = recorded then ret (Inr Replayed)
        else try_bind (write_record (record_path b) t) (\<lambda>_. ret (Inr Advanced))) d1)"
    using 2(3) v by (auto simp: file_fencing_store_def file_record_token_def try_bind_def split: sum.splits)
  note read = read_record_run [OF v] maxima_cong [OF read_record_run(1) [OF v]]
  show ?case
  proof (cases v)
    case (Inl e)
    then show ?thesis using rest read by (auto simp: fence_step_def)
  next
    case (Inr recorded)
    then have m: "recorded = disk_maxima d b" using read(2) by simp
    consider "t < recorded" | "t = recorded" | "recorded < t" by (rule linorder_cases)
    then show ?thesis
    proof cases
      case 3
      obtain x d2 where x: "run_state (write_record (record_path b) t) d1 = (x, d2)" by force
      show ?thesis
        using write_record_run [OF 2(2) x] rest Inr 3 x read(4) m
        by (auto simp: try_bind_def fence_step_def fence_record_def)
    qed (use rest Inr m read(4) in \<open>auto simp: fence_step_def fence_record_def\<close>)
  qed
next
  case (3 d b v d')
  then show ?case
    using read_record_run(1,2) [of b d v d'] maxima_cong [of d' d]
    by (auto simp: file_fencing_store_def)
qed simp

end
