(* ===== verification/Fire_Threads.thy ===== *)
theory Fire_Threads
  imports Fire_Calls Fire_Fencing_Spec
begin

text \<open>
  Any number of calls of one node, interleaved step by step. A caller may drop a call while it awaits the
  broker, before or after the broker acted; dropping a call releases its in-flight mark. The node process
  may restart: the registry, the marks and the calls are gone, the fencing records and the host remain.
\<close>

type_synonym ('f, 'h) fire_threads = "('f, 'h) fire_node \<times> (nat \<Rightarrow> fire_call option)"

text \<open>The mark a call holds, and the fence it has passed.\<close>

fun held_mark :: "fire_call \<Rightarrow> string option" where
  "held_mark (StartPrepare q aref) = Some (start_binding_id q)"
| "held_mark (StartBoot q pr) = Some (start_binding_id q)"
| "held_mark (StartCommit q pr boot) = Some (start_binding_id q)"
| "held_mark (StopShutdown q aref vmm) = Some (stop_binding_id q)"
| "held_mark (StopTerminate q aref vmm) = Some (stop_binding_id q)"
| "held_mark (StopCommit q) = Some (stop_binding_id q)"
| "held_mark (DestroyCleanup q aref) = Some (destroy_binding_id q)"
| "held_mark (DestroyQuarantine q err) = Some (destroy_binding_id q)"
| "held_mark (DestroyCommit q) = Some (destroy_binding_id q)"
| "held_mark (Leaving b r) = Some b"
| "held_mark c = None"

fun passed_fence :: "fire_call \<Rightarrow> (string \<times> u64) option" where
  "passed_fence (AllocateRegister q) = Some (allocate_binding_id q, allocate_fencing_token q)"
| "passed_fence (StartLookup q) = Some (start_binding_id q, start_fencing_token q)"
| "passed_fence (StartEnter q aref) = Some (start_binding_id q, start_fencing_token q)"
| "passed_fence (StartPrepare q aref) = Some (start_binding_id q, start_fencing_token q)"
| "passed_fence (StartBoot q pr) = Some (start_binding_id q, start_fencing_token q)"
| "passed_fence (StartCommit q pr boot) = Some (start_binding_id q, start_fencing_token q)"
| "passed_fence (StopLookup q) = Some (stop_binding_id q, stop_fencing_token q)"
| "passed_fence (StopEnter q aref vmm) = Some (stop_binding_id q, stop_fencing_token q)"
| "passed_fence (StopShutdown q aref vmm) = Some (stop_binding_id q, stop_fencing_token q)"
| "passed_fence (StopTerminate q aref vmm) = Some (stop_binding_id q, stop_fencing_token q)"
| "passed_fence (StopCommit q) = Some (stop_binding_id q, stop_fencing_token q)"
| "passed_fence (DestroyLookup q) = Some (destroy_binding_id q, destroy_fencing_token q)"
| "passed_fence (DestroyEnter q aref) = Some (destroy_binding_id q, destroy_fencing_token q)"
| "passed_fence (DestroyCleanup q aref) = Some (destroy_binding_id q, destroy_fencing_token q)"
| "passed_fence (DestroyQuarantine q err) = Some (destroy_binding_id q, destroy_fencing_token q)"
| "passed_fence (DestroyCommit q) = Some (destroy_binding_id q, destroy_fencing_token q)"
| "passed_fence c = None"

fun is_entry :: "fire_call \<Rightarrow> bool" where
  "is_entry (AllocateFence q) = True"
| "is_entry (StartFence q) = True"
| "is_entry (StopFence q) = True"
| "is_entry (DestroyFence q) = True"
| "is_entry c = False"

fun awaits_broker :: "fire_call \<Rightarrow> bool" where
  "awaits_broker (StartPrepare q aref) = True"
| "awaits_broker (StartBoot q pr) = True"
| "awaits_broker (StopShutdown q aref vmm) = True"
| "awaits_broker (StopTerminate q aref vmm) = True"
| "awaits_broker (DestroyCleanup q aref) = True"
| "awaits_broker c = False"

definition drop_mark :: "fire_call \<Rightarrow> ('f, 'h) fire_node \<Rightarrow> ('f, 'h) fire_node" where
  "drop_mark c n = (case held_mark c of
     None \<Rightarrow> n | Some b \<Rightarrow> n\<lparr> node_inflight := node_inflight n - {b} \<rparr>)"

inductive threads_step ::
  "('f, 'h) fire_provider \<Rightarrow> ('f, 'h) fire_threads \<Rightarrow> ('f, 'h) fire_threads \<Rightarrow> bool" for p where
  invoke: "cs t = None \<Longrightarrow> is_entry c \<Longrightarrow> threads_step p (n, cs) (n, cs(t := Some c))"
| advance: "cs t = Some c \<Longrightarrow> run_state (fire_step p c) n = (c', n') \<Longrightarrow>
     threads_step p (n, cs) (n', cs(t := Some c'))"
| abandon: "cs t = Some c \<Longrightarrow> awaits_broker c \<Longrightarrow>
     threads_step p (n, cs) (drop_mark c n, cs(t := None))"
| abandon_late: "cs t = Some c \<Longrightarrow> awaits_broker c \<Longrightarrow> run_state (fire_step p c) n = (c', n') \<Longrightarrow>
     threads_step p (n, cs) (drop_mark c n', cs(t := None))"
| restart: "threads_step p (n, cs) (n\<lparr> node_registry := [], node_inflight := {} \<rparr>, (\<lambda>_. None))"

section \<open>What one step of a call does\<close>

text \<open>The step is explained by what it does to the mark, the fence and the log.\<close>

lemma run_fence_call:
  "run_state (fence_call p op b token) n
     = (case run_state (check_fencing_authority (fire_fencing p) b token) (node_fence n) of
          (Inl e, f) \<Rightarrow> (Inl (map_fencing_error op e), n\<lparr> node_fence := f \<rparr>)
        | (Inr d, f) \<Rightarrow> (Inr (), n\<lparr> node_fence := f, node_log := node_log n @ [FenceAccepted b token] \<rparr>))"
  by (simp add: fence_call_def on_fence_def log_event_def split: prod.split sum.split)

lemma run_run_broker:
  "run_state (run_broker op ev call) n
     = (case run_state call (node_host n) of (r, h) \<Rightarrow>
          (case r of Some (Inr v) \<Rightarrow> Inr v
             | Some (Inl e) \<Rightarrow> Inl (fire_error op (map_broker_error e))
             | None \<Rightarrow> Inl (fire_error op Timeout),
           n\<lparr> node_host := h, node_log := node_log n @ [ev] \<rparr>))"
  by (simp add: run_broker_def on_host_def log_event_def split: prod.split)

lemma run_enter_inflight:
  "run_state (enter_inflight op b) n
     = (if b \<in> node_inflight n then (Inl (fire_error op Conflict), n)
        else (Inr (), n\<lparr> node_inflight := insert b (node_inflight n) \<rparr>))"
  by (simp add: enter_inflight_def get_node_def put_inflight_def)

lemma run_change_entry:
  "run_state (change_entry b f) n = ((), case btm_get (node_registry n) b of
     None \<Rightarrow> n | Some e \<Rightarrow> n\<lparr> node_registry := btm_insert b (f e) (node_registry n) \<rparr>)"
  by (simp add: change_entry_def get_node_def put_registry_def split: option.split)

lemma run_leave_inflight:
  "run_state (leave_inflight b) n = ((), n\<lparr> node_inflight := node_inflight n - {b} \<rparr>)"
  by (simp add: leave_inflight_def get_node_def put_inflight_def)

lemmas call_runs = then_call_run run_fence_call run_run_broker run_enter_inflight run_change_entry
  run_leave_inflight

lemmas lookup_defs = allocate_register_def start_lookup_def start_commit_def stop_lookup_def
  destroy_lookup_def get_node_def next_uuid_def put_registry_def

definition event_fence :: "fire_event \<Rightarrow> (string \<times> u64) option" where
  "event_fence e = (case e of FenceAccepted b t \<Rightarrow> None
     | BrokerPrepared b t r \<Rightarrow> Some (b, t) | BrokerBooted b t r \<Rightarrow> Some (b, t)
     | BrokerShutDown b t r \<Rightarrow> Some (b, t) | BrokerTerminated b t r \<Rightarrow> Some (b, t)
     | BrokerCleaned b t r \<Rightarrow> Some (b, t))"

lemma step_mark:
  assumes "run_state (fire_step p c) n = (c', n')"
  shows "held_mark c' = held_mark c \<and> node_inflight n' = node_inflight n
    \<or> held_mark c = None \<and> (\<exists>b. held_mark c' = Some b \<and> b \<notin> node_inflight n
        \<and> node_inflight n' = insert b (node_inflight n))
    \<or> held_mark c' = None \<and> (\<exists>b. held_mark c = Some b \<and> node_inflight n' = node_inflight n - {b})"
  using assms
  by (cases c) (auto simp: call_runs lookup_defs Let_def split: prod.splits sum.splits option.splits
      if_splits list.splits)

lemma step_log:
  assumes "run_state (fire_step p c) n = (c', n')"
  obtains (quiet) "node_log n' = node_log n" "passed_fence c' \<in> {passed_fence c, None}"
      "node_fence n' = node_fence n \<or> (\<exists>b k e. run_state (check_fencing_authority (fire_fencing p) b k)
         (node_fence n) = (Inl e, node_fence n'))"
  | (fence) b k d where "run_state (check_fencing_authority (fire_fencing p) b k) (node_fence n)
       = (Inr d, node_fence n')" "node_log n' = node_log n @ [FenceAccepted b k]"
      "passed_fence c' = Some (b, k)"
  | (effect) e b k where "node_fence n' = node_fence n" "node_log n' = node_log n @ [e]"
      "event_fence e = Some (b, k)" "passed_fence c = Some (b, k)" "passed_fence c' \<in> {Some (b, k), None}"
      "held_mark c = Some b"
  using assms
  by (cases c; auto simp: call_runs lookup_defs Let_def event_fence_def split: prod.splits sum.splits
      option.splits if_splits list.splits; blast)

section \<open>The marks\<close>

definition mark_at :: "(nat \<Rightarrow> fire_call option) \<Rightarrow> nat \<Rightarrow> string option" where
  "mark_at cs t = Option.bind (cs t) held_mark"

text \<open>The marked bindings are those of the calls that hold a mark, and no two calls hold the same.\<close>

definition marks_ok :: "('f, 'h) fire_threads \<Rightarrow> bool" where
  "marks_ok x \<longleftrightarrow> (case x of (n, cs) \<Rightarrow>
     (\<forall>t t' b. mark_at cs t = Some b \<longrightarrow> mark_at cs t' = Some b \<longrightarrow> t = t')
     \<and> node_inflight n = {b. \<exists>t. mark_at cs t = Some b})"

lemma marks_ok_at:
  "marks_ok (n, cs) \<longleftrightarrow>
     (\<forall>t t' b. mark_at cs t = Some b \<longrightarrow> mark_at cs t' = Some b \<longrightarrow> t = t')
     \<and> node_inflight n = {b. \<exists>t. mark_at cs t = Some b}"
  by (simp add: marks_ok_def)

lemma mark_at_update: "mark_at (cs(t := x)) = (mark_at cs)(t := Option.bind x held_mark)"
  by (auto simp: mark_at_def)

lemma marks_same:
  assumes "marks_ok (n, cs)" "Option.bind x held_mark = mark_at cs t" "node_inflight n' = node_inflight n"
  shows "marks_ok (n', cs(t := x))"
proof -
  have "mark_at (cs(t := x)) = mark_at cs" using assms(2) by (simp add: mark_at_update)
  then show ?thesis using assms(1,3) by (simp add: marks_ok_at)
qed

lemma marks_enter:
  assumes "marks_ok (n, cs)" "mark_at cs t = None" "Option.bind x held_mark = Some b"
    and "b \<notin> node_inflight n" "node_inflight n' = insert b (node_inflight n)"
  shows "marks_ok (n', cs(t := x))"
proof -
  have at: "mark_at (cs(t := x)) = (mark_at cs)(t := Some b)" using assms(3) by (simp add: mark_at_update)
  have free: "mark_at cs s \<noteq> Some b" for s using assms(1,4) by (auto simp: marks_ok_at)
  have unique: "s = s'" if "mark_at cs s = Some a" "mark_at cs s' = Some a" for s s' a
    using assms(1) that by (auto simp: marks_ok_at)
  show ?thesis
    unfolding marks_ok_at at
  proof
    show "\<forall>s s' a. ((mark_at cs)(t := Some b)) s = Some a \<longrightarrow> ((mark_at cs)(t := Some b)) s' = Some a \<longrightarrow> s = s'"
      using free unique by (auto split: if_splits)
    have "{a. \<exists>s. ((mark_at cs)(t := Some b)) s = Some a} = insert b {a. \<exists>s. mark_at cs s = Some a}"
      using assms(2) by (auto split: if_splits) (metis option.distinct(1))
    then show "node_inflight n' = {a. \<exists>s. ((mark_at cs)(t := Some b)) s = Some a}"
      using assms(1,5) by (simp add: marks_ok_at)
  qed
qed

lemma marks_leave:
  assumes "marks_ok (n, cs)" "mark_at cs t = Some b" "Option.bind x held_mark = None"
    and "node_inflight n' = node_inflight n - {b}"
  shows "marks_ok (n', cs(t := x))"
proof -
  have at: "mark_at (cs(t := x)) = (mark_at cs)(t := None)" using assms(3) by (simp add: mark_at_update)
  have unique: "s = s'" if "mark_at cs s = Some a" "mark_at cs s' = Some a" for s s' a
    using assms(1) that by (auto simp: marks_ok_at)
  show ?thesis
    unfolding marks_ok_at at
  proof
    show "\<forall>s s' a. ((mark_at cs)(t := None)) s = Some a \<longrightarrow> ((mark_at cs)(t := None)) s' = Some a \<longrightarrow> s = s'"
      using unique by (auto split: if_splits)
    have "{a. \<exists>s. ((mark_at cs)(t := None)) s = Some a} = {a. \<exists>s. mark_at cs s = Some a} - {b}"
      using assms(2) unique by (auto split: if_splits) (metis option.inject)
    then show "node_inflight n' = {a. \<exists>s. ((mark_at cs)(t := None)) s = Some a}"
      using assms(1,4) by (simp add: marks_ok_at)
  qed
qed

lemma awaits_holds: "awaits_broker c \<Longrightarrow> \<exists>b. held_mark c = Some b"
  by (cases c) simp_all

lemma awaits_step_mark:
  "awaits_broker c \<Longrightarrow> run_state (fire_step p c) n = (c', n') \<Longrightarrow> node_inflight n' = node_inflight n"
  by (cases c) (auto simp: call_runs Let_def split: prod.splits)

lemma marks_step:
  assumes "threads_step p x y" "marks_ok x"
  shows "marks_ok y"
  using assms
proof cases
  case (invoke cs t c n)
  then have "held_mark c = None" by (cases c) simp_all
  then show ?thesis
    using invoke assms(2) by (auto intro!: marks_same simp: mark_at_def)
next
  case (advance cs t c n c' n')
  have at: "mark_at cs t = held_mark c" using advance by (simp add: mark_at_def)
  from step_mark [OF advance(4)] show ?thesis
  proof (elim disjE conjE exE)
    assume "held_mark c' = held_mark c" "node_inflight n' = node_inflight n"
    then show ?thesis using advance assms(2) at by (auto intro!: marks_same)
  next
    fix b assume "held_mark c = None" "held_mark c' = Some b" "b \<notin> node_inflight n"
      "node_inflight n' = insert b (node_inflight n)"
    then show ?thesis
      using advance assms(2) at marks_enter [of n cs t "Some c'" b n'] by simp
  next
    fix b assume "held_mark c' = None" "held_mark c = Some b" "node_inflight n' = node_inflight n - {b}"
    then show ?thesis
      using advance assms(2) at marks_leave [of n cs t b "Some c'" n'] by simp
  qed
next
  case (abandon cs t c n)
  obtain b where b: "held_mark c = Some b" using awaits_holds [OF abandon(4)] by blast
  then show ?thesis
    using abandon assms(2) marks_leave [of n cs t b None "drop_mark c n"]
    by (simp add: drop_mark_def mark_at_def)
next
  case (abandon_late cs t c n c' n')
  obtain b where b: "held_mark c = Some b" using awaits_holds [OF abandon_late(4)] by blast
  then show ?thesis
    using abandon_late assms(2) awaits_step_mark [OF abandon_late(4,5)]
      marks_leave [of n cs t b None "drop_mark c n'"]
    by (simp add: drop_mark_def mark_at_def)
next
  case (restart n cs)
  then show ?thesis by (simp add: marks_ok_at mark_at_def)
qed

end
