(* ===== verification/Fire_Safety.thy ===== *)
theory Fire_Safety
  imports Fire_Threads
begin

text \<open>
  What the fence guarantees for interleaved calls: the tokens accepted for a binding never decrease, and
  every broker call is made under a token accepted before. The facts hold for every fencing store with
  the contract \<open>fencing_port\<close>, hence for both stores of the code.
\<close>

primrec accepted :: "string \<Rightarrow> fire_event list \<Rightarrow> u64 list" where
  "accepted b [] = []"
| "accepted b (e # es) =
     (case e of FenceAccepted b' k \<Rightarrow> if b' = b then k # accepted b es else accepted b es
      | _ \<Rightarrow> accepted b es)"

lemma accepted_append [simp]: "accepted b (es @ fs) = accepted b es @ accepted b fs"
  by (induction es) (auto split: fire_event.split)

lemma accepted_effect: "event_fence e = Some (b, k) \<Longrightarrow> accepted b' (es @ [e]) = accepted b' es"
  by (cases e) (auto simp: event_fence_def)

definition log_fenced :: "fire_event list \<Rightarrow> bool" where
  "log_fenced es \<longleftrightarrow> (\<forall>pre e post b k. es = pre @ e # post \<longrightarrow> event_fence e = Some (b, k) \<longrightarrow>
     k \<in> set (accepted b pre))"

lemma log_fenced_Nil [simp]: "log_fenced []"
  by (simp add: log_fenced_def)

lemma log_fenced_snoc:
  "log_fenced (es @ [e]) \<longleftrightarrow> log_fenced es
     \<and> (\<forall>b k. event_fence e = Some (b, k) \<longrightarrow> k \<in> set (accepted b es))"
proof -
  have split: "es @ [e] = pre @ x # post \<longleftrightarrow>
      (post = [] \<and> pre = es \<and> x = e) \<or> (\<exists>post'. post = post' @ [e] \<and> es = pre @ x # post')" for pre x post
    by (cases post rule: rev_cases) auto
  show ?thesis unfolding log_fenced_def split by blast
qed

definition fence_log_ok :: "(string \<Rightarrow> u64) \<Rightarrow> fire_event list \<Rightarrow> bool" where
  "fence_log_ok m es \<longleftrightarrow> log_fenced es
     \<and> (\<forall>b. sorted (accepted b es) \<and> (\<forall>k\<in>set (accepted b es). k \<noteq> 0 \<and> k \<le> m b))"

lemma fence_log_accept:
  assumes "fence_log_ok m es" "k \<noteq> 0" "m b \<le> k"
  shows "fence_log_ok (m(b := k)) (es @ [FenceAccepted b k])"
  unfolding fence_log_ok_def
proof (intro conjI allI)
  show "log_fenced (es @ [FenceAccepted b k])"
    using assms(1) by (simp add: log_fenced_snoc fence_log_ok_def event_fence_def)
  fix a
  have old: "sorted (accepted a es)" "\<forall>x\<in>set (accepted a es). x \<noteq> 0 \<and> x \<le> m a"
    using assms(1) by (simp_all add: fence_log_ok_def)
  have "\<forall>x\<in>set (accepted b es). x \<le> k"
    using assms(1,3) unfolding fence_log_ok_def by (meson order_trans)
  then show "sorted (accepted a (es @ [FenceAccepted b k]))"
    using old(1) by (auto simp: sorted_append)
  show "\<forall>x\<in>set (accepted a (es @ [FenceAccepted b k])). x \<noteq> 0 \<and> x \<le> (m(b := k)) a"
    using old(2) assms(2,3) by (auto dest: order_trans)
qed

lemma fence_log_effect:
  assumes "fence_log_ok m es" "event_fence e = Some (b, k)" "k \<in> set (accepted b es)"
  shows "fence_log_ok m (es @ [e])"
  using assms accepted_effect [OF assms(2)]
  by (simp add: fence_log_ok_def log_fenced_snoc del: accepted_append)

definition calls_fenced :: "fire_event list \<Rightarrow> (nat \<Rightarrow> fire_call option) \<Rightarrow> bool" where
  "calls_fenced es cs \<longleftrightarrow> (\<forall>t c b k. cs t = Some c \<longrightarrow> passed_fence c = Some (b, k) \<longrightarrow>
     k \<in> set (accepted b es))"

lemma calls_fenced_update:
  assumes "calls_fenced es cs" "\<And>b. set (accepted b es) \<subseteq> set (accepted b es')"
    and "\<And>c b k. x = Some c \<Longrightarrow> passed_fence c = Some (b, k) \<Longrightarrow> k \<in> set (accepted b es')"
  shows "calls_fenced es' (cs(t := x))"
  unfolding calls_fenced_def
proof (intro allI impI)
  fix s c b k assume c: "(cs(t := x)) s = Some c" "passed_fence c = Some (b, k)"
  show "k \<in> set (accepted b es')"
  proof (cases "s = t")
    case True
    then show ?thesis using assms(3) c by simp
  next
    case False
    then have "k \<in> set (accepted b es)" using assms(1) c unfolding calls_fenced_def by auto
    then show ?thesis using assms(2) by blast
  qed
qed

context fencing_port
begin

definition fence_ok :: "('f, 'h) fire_threads \<Rightarrow> bool" where
  "fence_ok x \<longleftrightarrow> (case x of (n, cs) \<Rightarrow>
     ok (node_fence n) \<and> fence_log_ok (maxima (node_fence n)) (node_log n) \<and> calls_fenced (node_log n) cs)"

lemma fence_ok_advance:
  assumes "fire_fencing p = fs" "run_state (fire_step p c) n = (c', n')"
    and "ok (node_fence n)" "fence_log_ok (maxima (node_fence n)) (node_log n)"
    and "calls_fenced (node_log n) cs" "cs t = Some c"
  shows "ok (node_fence n') \<and> fence_log_ok (maxima (node_fence n')) (node_log n')
    \<and> calls_fenced (node_log n') (cs(t := Some c')) \<and> calls_fenced (node_log n') (cs(t := None))"
proof -
  have mine: "k \<in> set (accepted b (node_log n))" if "passed_fence c = Some (b, k)" for b k
    using assms(5,6) that unfolding calls_fenced_def by blast
  show ?thesis
    using assms(2)
  proof (cases rule: step_log)
    case quiet
    have "ok (node_fence n') \<and> maxima (node_fence n') = maxima (node_fence n)"
      using quiet(3)
    proof (elim disjE exE)
      fix b k e
      assume "run_state (check_fencing_authority (fire_fencing p) b k) (node_fence n) = (Inl e, node_fence n')"
      then show ?thesis using authority_refines(1,3) [OF assms(3)] assms(1) by blast
    qed (use assms(3) in simp)
    then show ?thesis
      using quiet(1,2) assms(4,5) mine
      by (auto intro!: calls_fenced_update [OF assms(5)])
  next
    case (fence b k d)
    note a = authority_refines(1,2) [OF assms(3) fence(1) [unfolded assms(1)]]
    have "fence_log_ok (maxima (node_fence n')) (node_log n')"
      using a(2) [OF refl] fence(2) fence_log_accept [OF assms(4)] by auto
    then show ?thesis
      using a(1) fence(2,3) by (auto intro!: calls_fenced_update [OF assms(5)])
  next
    case (effect e b k)
    then show ?thesis
      using assms(3,4) mine [OF effect(4)] fence_log_effect [OF assms(4) effect(3)]
      by (auto intro!: calls_fenced_update [OF assms(5)])
  qed
qed

lemma fence_ok_step:
  assumes "threads_step p x y" "fence_ok x" "fire_fencing p = fs"
  shows "fence_ok y"
  using assms(1)
proof cases
  case (invoke cs t c n)
  then have "passed_fence c = None" by (cases c) simp_all
  then show ?thesis
    using assms(2) invoke by (auto simp: fence_ok_def intro!: calls_fenced_update)
next
  case (advance cs t c n c' n')
  then show ?thesis
    using assms(2) fence_ok_advance [OF assms(3) advance(4), of cs t] by (auto simp: fence_ok_def)
next
  case (abandon cs t c n)
  then show ?thesis
    using assms(2) by (auto simp: fence_ok_def drop_mark_def intro!: calls_fenced_update split: option.split)
next
  case (abandon_late cs t c n c' n')
  then show ?thesis
    using assms(2) fence_ok_advance [OF assms(3) abandon_late(5), of cs t]
    by (auto simp: fence_ok_def drop_mark_def split: option.split)
next
  case (restart n cs)
  then show ?thesis using assms(2) by (simp add: fence_ok_def calls_fenced_def)
qed

end

text \<open>A node before its first call, and the machines of threads.\<close>

definition fresh_threads :: "('f, 'h) fire_threads \<Rightarrow> bool" where
  "fresh_threads x \<longleftrightarrow> (case x of (n, cs) \<Rightarrow>
     node_registry n = [] \<and> node_inflight n = {} \<and> node_log n = [] \<and> cs = (\<lambda>_. None))"

lemma fresh_marks: "fresh_threads x \<Longrightarrow> marks_ok x"
  by (auto simp: fresh_threads_def marks_ok_def mark_at_def split: prod.splits)

lemma reachable_marks: "(threads_step p)\<^sup>*\<^sup>* x y \<Longrightarrow> marks_ok x \<Longrightarrow> marks_ok y"
  by (induction rule: rtranclp_induct) (auto intro: marks_step)

context fencing_port
begin

lemma fresh_fence: "fresh_threads x \<Longrightarrow> ok (node_fence (fst x)) \<Longrightarrow> fence_ok x"
  by (auto simp: fresh_threads_def fence_ok_def fence_log_ok_def calls_fenced_def split: prod.splits)

lemma reachable_fence:
  "(threads_step p)\<^sup>*\<^sup>* x y \<Longrightarrow> fence_ok x \<Longrightarrow> fire_fencing p = fs \<Longrightarrow> fence_ok y"
  by (induction rule: rtranclp_induct) (auto intro: fence_ok_step)

end

section \<open>The registry stays bounded\<close>

definition registry_ok :: "('f, 'h) fire_node \<Rightarrow> bool" where
  "registry_ok n \<longleftrightarrow> btm_ok (node_registry n) \<and> length (node_registry n) \<le> max_active_allocations
     \<and> (\<forall>b e. btm_get (node_registry n) b = Some e \<longrightarrow>
          entry_phase e = PhaseRunning \<longrightarrow> entry_binding_reference e \<noteq> None \<and> entry_vmm_reference e \<noteq> None)"

lemma step_registry:
  assumes "run_state (fire_step p c) n = (c', n')"
  obtains (same) "node_registry n' = node_registry n"
  | (new) b e where "\<not> btm_contains (node_registry n) b" "length (node_registry n) < max_active_allocations"
      "node_registry n' = btm_insert b e (node_registry n)" "entry_phase e = PhaseAllocated"
  | (changed) b e e' where "btm_get (node_registry n) b = Some e"
      "node_registry n' = btm_insert b e' (node_registry n)"
      "entry_phase e' = PhaseRunning \<Longrightarrow> entry_binding_reference e' \<noteq> None \<and> entry_vmm_reference e' \<noteq> None"
  | (removed) b where "node_registry n' = btm_remove b (node_registry n)"
proof -
  have put: thesis if "run_state (change_entry b f) n = ((), n')"
    "\<And>e. entry_phase (f e) = PhaseRunning \<Longrightarrow>
       entry_binding_reference (f e) \<noteq> None \<and> entry_vmm_reference (f e) \<noteq> None" for b f
  proof (cases "btm_get (node_registry n) b")
    case None
    then show ?thesis using that(1) same by (simp add: run_change_entry)
  next
    case (Some e)
    then have "node_registry n' = btm_insert b (f e) (node_registry n)"
      using that(1) by (auto simp: run_change_entry)
    then show ?thesis using changed [OF Some] that(2) by blast
  qed
  show thesis
  proof (cases c)
    case (AllocateRegister q)
    show ?thesis
    proof (cases "node_registry n' = node_registry n")
      case False
      then have "\<not> btm_contains (node_registry n) (allocate_binding_id q)"
        "length (node_registry n) < max_active_allocations"
        "\<exists>e. node_registry n' = btm_insert (allocate_binding_id q) e (node_registry n) \<and> entry_phase e = PhaseAllocated"
        using assms AllocateRegister
        by (auto simp: allocate_register_def get_node_def next_uuid_def put_registry_def not_le
            split: if_splits sum.splits list.splits)
      then show ?thesis using new by blast
    qed (rule same)
  next
    case (StartCommit q pr boot)
    obtain f :: "registry_entry \<Rightarrow> registry_entry" where f: "f = (\<lambda>e. let e' = e\<lparr> entry_binding_reference := Some (prepared_reference pr),
                        entry_vmm_reference := Some (outcome_vmm_reference boot) \<rparr>
             in if is_sandbox_running_ready (start_readiness pr boot)
                then e'\<lparr> entry_phase := PhaseRunning \<rparr> else e')" by simp
    have "run_state (change_entry (start_binding_id q) f) n = ((), n')"
      using assms StartCommit by (auto simp: start_commit_def f split: prod.splits)
    then show ?thesis by (rule put) (simp add: f Let_def)
  next
    case (StopCommit q)
    then have "run_state (change_entry (stop_binding_id q) (\<lambda>e. e\<lparr> entry_phase := PhaseStopped \<rparr>)) n = ((), n')"
      using assms by (auto split: prod.splits)
    then show ?thesis by (rule put) simp
  next
    case (DestroyQuarantine q err)
    then have "run_state (change_entry (destroy_binding_id q) (\<lambda>e. e\<lparr> entry_phase := PhaseQuarantined \<rparr>)) n = ((), n')"
      using assms by (auto split: prod.splits)
    then show ?thesis by (rule put) simp
  next
    case (DestroyCommit q)
    then show ?thesis using assms removed by (auto simp: get_node_def put_registry_def)
  qed (use assms in \<open>auto simp: call_runs start_lookup_def stop_lookup_def destroy_lookup_def get_node_def
      Let_def intro!: same split: prod.splits sum.splits option.splits if_splits\<close>)
qed

lemma registry_ok_put:
  assumes "registry_ok n" "node_registry n' = btm_insert b e (node_registry n)"
    and "btm_contains (node_registry n) b \<or> length (node_registry n) < max_active_allocations"
    and "entry_phase e = PhaseRunning \<Longrightarrow> entry_binding_reference e \<noteq> None \<and> entry_vmm_reference e \<noteq> None"
  shows "registry_ok n'"
proof -
  have ok: "btm_ok (node_registry n)" "length (node_registry n) \<le> max_active_allocations"
    using assms(1) by (simp_all add: registry_ok_def)
  have "length (node_registry n') \<le> max_active_allocations"
  proof (cases "btm_contains (node_registry n) b")
    case True
    then show ?thesis using btm.length_insert_old [OF ok(1)] ok(2) assms(2) by (simp add: btm_contains_def)
  next
    case False
    then show ?thesis
      using btm.length_insert_new [OF ok(1)] assms(2,3) by (simp add: btm_contains_def Suc_le_eq)
  qed
  then show ?thesis
    using assms(1,2,4) ok(1) by (auto simp: registry_ok_def)
qed

lemma registry_ok_step:
  assumes "run_state (fire_step p c) n = (c', n')" "registry_ok n"
  shows "registry_ok n'"
  using assms(1)
proof (cases rule: step_registry)
  case same
  then show ?thesis using assms(2) by (simp add: registry_ok_def)
next
  case (new b e)
  then show ?thesis using registry_ok_put [OF assms(2) new(3)] by simp
next
  case (changed b e e')
  then show ?thesis using registry_ok_put [OF assms(2) changed(2)] by (simp add: btm_containsI)
next
  case (removed b)
  have "length (btm_remove b (node_registry n)) \<le> length (node_registry n)"
    by (simp add: btm_remove_def)
  then show ?thesis
    using assms(2) removed by (auto simp: registry_ok_def btm_remove_ok)
qed

lemma reachable_registry:
  assumes "(threads_step p)\<^sup>*\<^sup>* x y" "registry_ok (fst x)"
  shows "registry_ok (fst y)"
  using assms
proof (induction rule: rtranclp_induct)
  case (step y z)
  have ok: "registry_ok (fst y)" using step by simp
  have dropped: "registry_ok (drop_mark c n) = registry_ok n" for c and n :: "('a, 'b) fire_node"
    by (simp add: drop_mark_def registry_ok_def split: option.split)
  from step(2) show ?case
    by cases (use ok in \<open>auto simp: dropped intro: registry_ok_step\<close>,
      simp add: registry_ok_def btm_ok_def btm_get_def)
qed

end
