(* ===== verification/Fire_Behaviour.thy ===== *)
theory Fire_Behaviour
  imports Fire_Safety
begin

text \<open>
  What one call of the provider does when no other call of its binding is under way: the outcome of each
  call on every branch, read off the run of its machine.
\<close>

definition prepare_request :: "provider_start_request \<Rightarrow> sandbox_allocation_ref \<Rightarrow> prepare_binding_request" where
  "prepare_request q aref = \<lparr> prepare_tenant_id = start_tenant_id q, prepare_binding_id = start_binding_id q,
     prepare_allocation = aref, prepare_workspace_id = start_workspace_id q \<rparr>"

definition boot_request :: "provider_start_request \<Rightarrow> binding_prepared \<Rightarrow> boot_vmm_request" where
  "boot_request q pr = \<lparr> boot_reference = prepared_reference pr, boot_tenant_id = start_tenant_id q,
     boot_binding_id = start_binding_id q \<rparr>"

definition booted_entry :: "binding_prepared \<Rightarrow> vmm_boot_outcome \<Rightarrow> registry_entry \<Rightarrow> registry_entry" where
  "booted_entry pr boot e =
     (let e' = e\<lparr> entry_binding_reference := Some (prepared_reference pr),
                entry_vmm_reference := Some (outcome_vmm_reference boot) \<rparr>
      in if is_sandbox_running_ready (start_readiness pr boot)
         then e'\<lparr> entry_phase := PhaseRunning \<rparr> else e')"

lemma call_fenced:
  "run_call p (StartFence q) n = (case run_state (fence_call p ProviderStart (start_binding_id q)
      (start_fencing_token q)) n of (Inl e, n1) \<Rightarrow> (StartReply (Inl e), n1) | (Inr _, n1) \<Rightarrow> run_call p (StartLookup q) n1)"
  "run_call p (StopFence q') n = (case run_state (fence_call p ProviderStop (stop_binding_id q')
      (stop_fencing_token q')) n of (Inl e, n1) \<Rightarrow> (StopReply (Inl e), n1) | (Inr _, n1) \<Rightarrow> run_call p (StopLookup q') n1)"
  "run_call p (DestroyFence q'') n = (case run_state (fence_call p ProviderDestroy (destroy_binding_id q'')
      (destroy_fencing_token q'')) n of (Inl e, n1) \<Rightarrow> (DestroyReply (Inl e), n1) | (Inr _, n1) \<Rightarrow> run_call p (DestroyLookup q'') n1)"
  "run_call p (AllocateFence r) n = (case run_state (fence_call p ProviderAllocate (allocate_binding_id r)
      (allocate_fencing_token r)) n of (Inl e, n1) \<Rightarrow> (AllocateReply (Inl e), n1) | (Inr _, n1) \<Rightarrow> run_call p (AllocateRegister r) n1)"
  by (simp_all add: run_call_step run_call_returned then_call_run split: prod.split sum.split)

lemma fence_call_keeps:
  assumes "run_state (fence_call p op b k) n = (x, n1)"
  shows "node_registry n1 = node_registry n" "node_inflight n1 = node_inflight n" "node_host n1 = node_host n"
    "node_uuids n1 = node_uuids n"
    "x = Inr u \<Longrightarrow> node_log n1 = node_log n @ [FenceAccepted b k]"
    "x = Inl e \<Longrightarrow> node_log n1 = node_log n"
  using assms by (auto simp: run_fence_call split: prod.splits sum.splits)

lemma start_looked_up:
  assumes "run_call p (StartLookup q) n = (StartReply (Inr rd), n')" "start_binding_id q \<notin> node_inflight n"
  obtains e pr h1 boot h2 where "btm_get (node_registry n) (start_binding_id q) = Some e"
    "entry_phase e = PhaseAllocated \<or> entry_phase e = PhaseStopped"
    "run_state (broker_prepare (fire_broker p) (budget_prepare_ms (fire_budgets p))
       (prepare_request q (entry_allocation e))) (node_host n) = (Some (Inr pr), h1)"
    "run_state (broker_boot (fire_broker p) (budget_boot_ms (fire_budgets p)) (boot_request q pr)) h1
       = (Some (Inr boot), h2)"
    "rd = start_readiness pr boot"
    "n' = n\<lparr> node_host := h2, node_registry := btm_insert (start_binding_id q) (booted_entry pr boot e)
         (node_registry n), node_log := node_log n
       @ [BrokerPrepared (start_binding_id q) (start_fencing_token q) (prepare_request q (entry_allocation e)),
          BrokerBooted (start_binding_id q) (start_fencing_token q) (boot_request q pr)] \<rparr>"
  using assms
  by (auto simp: run_call_step run_call_returned call_runs start_lookup_def start_commit_def get_node_def Let_def
      prepare_request_def boot_request_def booted_entry_def
      split: prod.splits sum.splits option.splits if_splits)

text \<open>A start from its fence: one prepare, one boot, and the entry they leave.\<close>

lemma start_earned:
  assumes "run_call p (StartFence q) n = (StartReply (Inr rd), n')" "start_binding_id q \<notin> node_inflight n"
  obtains e pr h1 boot h2 where "btm_get (node_registry n) (start_binding_id q) = Some e"
    "entry_phase e \<in> {PhaseAllocated, PhaseStopped}"
    "run_state (broker_prepare (fire_broker p) (budget_prepare_ms (fire_budgets p))
        (prepare_request q (entry_allocation e))) (node_host n) = (Some (Inr pr), h1)"
    "run_state (broker_boot (fire_broker p) (budget_boot_ms (fire_budgets p)) (boot_request q pr)) h1
        = (Some (Inr boot), h2)"
    "rd = start_readiness pr boot"
    "node_log n' = node_log n
        @ [FenceAccepted (start_binding_id q) (start_fencing_token q),
           BrokerPrepared (start_binding_id q) (start_fencing_token q) (prepare_request q (entry_allocation e)),
           BrokerBooted (start_binding_id q) (start_fencing_token q) (boot_request q pr)]"
    "node_registry n' = btm_insert (start_binding_id q)
        (e\<lparr> entry_binding_reference := Some (prepared_reference pr),
            entry_vmm_reference := Some (outcome_vmm_reference boot),
            entry_phase := (if is_sandbox_running_ready rd then PhaseRunning else entry_phase e) \<rparr>)
        (node_registry n)"
    "node_inflight n' = node_inflight n"
proof -
  obtain x n1 where x: "run_state (fence_call p ProviderStart (start_binding_id q) (start_fencing_token q)) n = (x, n1)"
    by force
  then have ok: "x = Inr ()" and run: "run_call p (StartLookup q) n1 = (StartReply (Inr rd), n')"
    using assms(1) by (auto simp: call_fenced split: sum.splits)
  note keeps = fence_call_keeps [OF x]
  from start_looked_up [OF run] keeps(2) assms(2)
  obtain e pr h1 boot h2 where s: "btm_get (node_registry n1) (start_binding_id q) = Some e"
    "entry_phase e = PhaseAllocated \<or> entry_phase e = PhaseStopped"
    "run_state (broker_prepare (fire_broker p) (budget_prepare_ms (fire_budgets p))
       (prepare_request q (entry_allocation e))) (node_host n1) = (Some (Inr pr), h1)"
    "run_state (broker_boot (fire_broker p) (budget_boot_ms (fire_budgets p)) (boot_request q pr)) h1
       = (Some (Inr boot), h2)"
    "rd = start_readiness pr boot"
    "n' = n1\<lparr> node_host := h2, node_registry := btm_insert (start_binding_id q) (booted_entry pr boot e)
         (node_registry n1), node_log := node_log n1
       @ [BrokerPrepared (start_binding_id q) (start_fencing_token q) (prepare_request q (entry_allocation e)),
          BrokerBooted (start_binding_id q) (start_fencing_token q) (boot_request q pr)] \<rparr>"
    by metis
  show ?thesis
    by (rule that [of e pr h1 boot h2])
      (use s keeps(1-3) keeps(5) [OF ok] in \<open>auto simp: booted_entry_def Let_def\<close>)
qed

lemma broker_reply_cases:
  obtains "x = None" | e where "x = Some (Inl e)" | v where "x = Some (Inr v)"
  by (metis not_Some_eq obj_sumE)

lemma stop_looked_up:
  assumes "run_call p (StopLookup q) n = (StopReply (Inr ()), n')" "stop_binding_id q \<notin> node_inflight n"
  obtains (idle) e where "btm_get (node_registry n) (stop_binding_id q) = Some e" "entry_phase e = PhaseStopped"
      "n' = n"
  | (stopped) e r1 h1 h2 where "btm_get (node_registry n) (stop_binding_id q) = Some e"
      "entry_phase e = PhaseRunning \<or> entry_phase e = PhaseAllocated"
      "run_state (broker_shutdown (fire_broker p) (budget_shutdown_ms (fire_budgets p))
         \<lparr> vmm_binding_reference = entry_allocation e, vmm_vmm_reference = entry_vmm_reference e \<rparr>)
         (node_host n) = (r1, h1)"
      "run_state (broker_terminate (fire_broker p) (budget_terminate_ms (fire_budgets p))
         \<lparr> vmm_binding_reference = entry_allocation e, vmm_vmm_reference = entry_vmm_reference e \<rparr>) h1
         = (Some (Inr ()), h2)"
      "n' = n\<lparr> node_host := h2, node_registry := btm_insert (stop_binding_id q)
           (e\<lparr> entry_phase := PhaseStopped \<rparr>) (node_registry n), node_log := node_log n
         @ [BrokerShutDown (stop_binding_id q) (stop_fencing_token q)
              \<lparr> vmm_binding_reference = entry_allocation e, vmm_vmm_reference = entry_vmm_reference e \<rparr>,
            BrokerTerminated (stop_binding_id q) (stop_fencing_token q)
              \<lparr> vmm_binding_reference = entry_allocation e, vmm_vmm_reference = entry_vmm_reference e \<rparr>] \<rparr>"
proof -
  note look = run_call_step [of "StopLookup q"] stop_lookup_def get_node_def run_call_returned
  obtain e where e: "btm_get (node_registry n) (stop_binding_id q) = Some e" "entry_phase e \<noteq> PhaseQuarantined"
    using assms(1) by (cases "btm_get (node_registry n) (stop_binding_id q)")
      (auto simp: look split: if_splits)
  show thesis
  proof (cases "entry_phase e = PhaseStopped")
    case True
    then show thesis using assms(1) idle [OF e(1)] e by (auto simp: look)
  next
    case False
    then have phase: "entry_phase e = PhaseRunning \<or> entry_phase e = PhaseAllocated"
      using e(2) by (cases "entry_phase e") auto
    define b where "b = stop_binding_id q"
    define req where "req = \<lparr> vmm_binding_reference = entry_allocation e, vmm_vmm_reference = entry_vmm_reference e \<rparr>"
    obtain r1 h1 where r1: "run_state (broker_shutdown (fire_broker p) (budget_shutdown_ms (fire_budgets p)) req)
        (node_host n) = (r1, h1)" by force
    obtain r2 h2 where r2: "run_state (broker_terminate (fire_broker p) (budget_terminate_ms (fire_budgets p)) req) h1
        = (r2, h2)" by force
    have free: "insert b (node_inflight n) - {b} = node_inflight n" using assms(2) by (simp add: b_def)
    have enter: "run_call p (StopLookup q) n = run_call p (StopEnter q (entry_allocation e) (entry_vmm_reference e)) n"
      using phase e(1) by (auto simp: look)
    note runs = run_call_step run_call_returned call_runs get_node_def Let_def
    define n1 where "n1 = n\<lparr> node_inflight := insert b (node_inflight n), node_host := h1,
       node_log := node_log n @ [BrokerShutDown b (stop_fencing_token q) req] \<rparr>"
    have down: "run_call p (StopLookup q) n
        = run_call p (StopTerminate q (entry_allocation e) (entry_vmm_reference e)) n1"
      unfolding enter using assms(2) r1
      by (simp add: run_call_step [of "StopEnter _ _ _"] run_call_step [of "StopShutdown _ _ _"]
          call_runs Let_def b_def n1_def req_def split: option.split sum.split)
    have "r2 = Some (Inr ())"
      using assms(1) r2 unfolding down
      by (cases r2 rule: broker_reply_cases) (simp_all add: runs n1_def req_def)
    moreover have "n' = n\<lparr> node_host := h2, node_registry := btm_insert b (e\<lparr> entry_phase := PhaseStopped \<rparr>)
        (node_registry n), node_log := node_log n @ [BrokerShutDown b (stop_fencing_token q) req,
          BrokerTerminated b (stop_fencing_token q) req] \<rparr>"
      using assms(1) [symmetric] r2 calculation free e(1) unfolding down
      by (simp add: runs n1_def req_def b_def)
    ultimately show thesis using stopped [OF e(1) phase] r1 r2 by (simp add: req_def b_def)
  qed
qed

text \<open>Every outcome of a destroy past its fence.\<close>

lemma destroy_looked_up:
  assumes "run_call p (DestroyLookup q) n = (r, n')" "destroy_binding_id q \<notin> node_inflight n"
  obtains (unknown) "btm_get (node_registry n) (destroy_binding_id q) = None" "r = DestroyReply (Inr ())" "n' = n"
  | (stale) e aref where "btm_get (node_registry n) (destroy_binding_id q) = Some e"
      "destroy_allocation q = Some aref" "aref \<noteq> entry_allocation e"
      "r = DestroyReply (Inl (fire_error ProviderDestroy Rejected))" "n' = n"
  | (cleaned) e x h where "btm_get (node_registry n) (destroy_binding_id q) = Some e"
      "destroy_allocation q \<in> {None, Some (entry_allocation e)}"
      "run_state (broker_cleanup (fire_broker p) (budget_cleanup_ms (fire_budgets p))
         \<lparr> vmm_binding_reference = entry_allocation e, vmm_vmm_reference = None \<rparr>) (node_host n) = (x, h)"
      "node_log n' = node_log n @ [BrokerCleaned (destroy_binding_id q) (destroy_fencing_token q)
         \<lparr> vmm_binding_reference = entry_allocation e, vmm_vmm_reference = None \<rparr>]"
      "node_host n' = h" "node_inflight n' = node_inflight n" "node_fence n' = node_fence n"
      "(x = Some (Inr ()) \<and> r = DestroyReply (Inr ())
          \<and> node_registry n' = btm_remove (destroy_binding_id q) (node_registry n))
       \<or> (x \<noteq> Some (Inr ()) \<and> (\<exists>k. r = DestroyReply (Inl (fire_error ProviderDestroy k)))
          \<and> node_registry n' = btm_insert (destroy_binding_id q) (e\<lparr> entry_phase := PhaseQuarantined \<rparr>)
              (node_registry n))"
proof (cases "btm_get (node_registry n) (destroy_binding_id q)")
  case None
  then have "r = DestroyReply (Inr ()) \<and> n' = n"
    using assms(1) [symmetric]
    by (simp add: run_call_step [of "DestroyLookup q"] run_call_returned destroy_lookup_def get_node_def)
  then show thesis using unknown None by blast
next
  case (Some e)
  show thesis
  proof (cases "destroy_allocation q \<in> {None, Some (entry_allocation e)}")
    case False
    then obtain aref where aref: "destroy_allocation q = Some aref" "aref \<noteq> entry_allocation e"
      by (cases "destroy_allocation q") auto
    then have "r = DestroyReply (Inl (fire_error ProviderDestroy Rejected)) \<and> n' = n"
      using assms(1) [symmetric] Some
      by (simp add: run_call_step [of "DestroyLookup q"] run_call_returned destroy_lookup_def get_node_def)
    then show thesis using stale [OF Some aref] by blast
  next
    case True
    obtain x h where x: "run_state (broker_cleanup (fire_broker p) (budget_cleanup_ms (fire_budgets p))
         \<lparr> vmm_binding_reference = entry_allocation e, vmm_vmm_reference = None \<rparr>) (node_host n) = (x, h)"
      by force
    have look: "run_call p (DestroyLookup q) n = run_call p (DestroyEnter q (entry_allocation e)) n"
      using Some True by (auto simp: run_call_step [of "DestroyLookup q"] destroy_lookup_def get_node_def)
    define b where "b = destroy_binding_id q"
    define n1 where "n1 = n\<lparr> node_host := h, node_log := node_log n @ [BrokerCleaned b (destroy_fencing_token q)
         \<lparr> vmm_binding_reference = entry_allocation e, vmm_vmm_reference = None \<rparr>] \<rparr>"
    have free: "insert b (node_inflight n) - {b} = node_inflight n" using assms(2) by (simp add: b_def)
    note runs = run_call_step run_call_returned call_runs get_node_def put_registry_def Let_def
    have "r = DestroyReply (Inr ()) \<and> n' = n1\<lparr> node_registry := btm_remove b (node_registry n) \<rparr>"
      if "x = Some (Inr ())"
      using assms look x free that by (simp add: runs b_def [symmetric] n1_def)
    moreover have "(\<exists>k. r = DestroyReply (Inl (fire_error ProviderDestroy k)))
        \<and> n' = n1\<lparr> node_registry := btm_insert b (e\<lparr> entry_phase := PhaseQuarantined \<rparr>) (node_registry n) \<rparr>"
      if "x = Some (Inl err)" for err
      using assms look x free Some that by (auto simp: runs b_def [symmetric] n1_def)
    moreover have "(\<exists>k. r = DestroyReply (Inl (fire_error ProviderDestroy k)))
        \<and> n' = n1\<lparr> node_registry := btm_insert b (e\<lparr> entry_phase := PhaseQuarantined \<rparr>) (node_registry n) \<rparr>"
      if "x = None"
      using assms look x free Some that by (auto simp: runs b_def [symmetric] n1_def)
    moreover have "x = Some (Inr ()) \<or> (\<exists>err. x = Some (Inl err)) \<or> x = None"
      by (cases x rule: broker_reply_cases) simp_all
    ultimately show thesis
      using cleaned [OF Some True x] by (elim disjE exE) (simp_all add: n1_def b_def)
  qed
qed

lemma allocate_looked_up:
  assumes "run_call p (AllocateRegister q) n = (AllocateReply (Inr aref), n')"
  shows "\<not> btm_contains (node_registry n) (allocate_binding_id q)"
    "length (node_registry n) < max_active_allocations"
    "\<exists>uuid. aref = ''fcalloc:'' @ uuid \<and> node_registry n' = btm_insert (allocate_binding_id q)
       \<lparr> entry_allocation = aref, entry_binding_reference = None, entry_vmm_reference = None,
         entry_phase = PhaseAllocated \<rparr> (node_registry n)"
    "node_log n' = node_log n" "node_host n' = node_host n" "node_inflight n' = node_inflight n"
  using assms
  by (auto simp: run_call_step run_call_returned allocate_register_def get_node_def next_uuid_def
      put_registry_def allocation_ref_new_def not_le split: if_splits sum.splits list.splits)

section \<open>A refused fence\<close>

context fencing_port
begin

text \<open>A zero or superseded token reaches nothing: no lookup, no broker call.\<close>

lemma stale_refused:
  assumes "fire_fencing p = fs" "ok (node_fence n)" "k = 0 \<or> k < maxima (node_fence n) b"
    and "run_state (fence_call p op b k) n = (x, n1)"
  shows "\<exists>e. x = Inl e \<and> error_kind e \<in> {Rejected, Unavailable}"
    "node_log n1 = node_log n" "maxima (node_fence n1) = maxima (node_fence n)"
proof -
  obtain y f where y: "run_state (check_fencing_authority fs b k) (node_fence n) = (y, f)" by force
  have no: "y \<noteq> Inr d" for d using authority_refines(2) [OF assms(2) y] assms(3) by force
  then obtain e where e: "y = Inl e" by (cases y) auto
  have x: "x = Inl (map_fencing_error op e)" "n1 = n\<lparr> node_fence := f \<rparr>"
    using assms(1,4) y e by (auto simp: run_fence_call)
  show "\<exists>e. x = Inl e \<and> error_kind e \<in> {Rejected, Unavailable}"
    using x by (cases e) (auto simp: fire_error_def)
  show "node_log n1 = node_log n" using x by simp
  show "maxima (node_fence n1) = maxima (node_fence n)"
    using authority_refines(3) [OF assms(2) y e] x by simp
qed

end

end
