(* ===== verification/Fire_Scenario.thy ===== *)
theory Fire_Scenario
  imports Fire_Behaviour
begin

text \<open>
  A node with a cooperative broker over the durable fencing store, a start, and schedules of two calls
  on one binding. The host counts its operations; its answers name the count.
\<close>

definition demo_broker :: "bool \<Rightarrow> nat isolation_broker" where
  "demo_broker authenticated = \<lparr>
     broker_prepare = (\<lambda>ms r. State (\<lambda>h. (Some (Inr \<lparr> prepared_reference = ''prepared'' @ decimal h,
        prepared_network_enforced = True, prepared_resource_enforced = True,
        prepared_workspace_attached = True \<rparr>), Suc h))),
     broker_boot = (\<lambda>ms r. State (\<lambda>h. (Some (Inr \<lparr> outcome_vmm_reference = ''vmm'' @ decimal h,
        outcome_guest_authenticated = authenticated \<rparr>), Suc h))),
     broker_shutdown = (\<lambda>ms r. State (\<lambda>h. (Some (Inr ()), Suc h))),
     broker_terminate = (\<lambda>ms r. State (\<lambda>h. (Some (Inr ()), Suc h))),
     broker_cleanup = (\<lambda>ms r. State (\<lambda>h. (Some (Inr ()), Suc h))) \<rparr>"

definition demo_digest :: string where "demo_digest = replicate 64 CHR ''a''"

definition demo_tuple :: compatibility_tuple where
  "demo_tuple = \<lparr> tuple_host_architecture = ''linux-kvm-x86_64'', tuple_minimum_host_kernel_version = ''6.1'',
     tuple_kvm_api_requirement = ''kvm-v5'', tuple_firecracker_sha256 = demo_digest,
     tuple_jailer_sha256 = demo_digest, tuple_guest_kernel_sha256 = demo_digest,
     tuple_rootfs_sha256 = demo_digest, tuple_guest_agent_sha256 = demo_digest,
     tuple_guest_boot_contract_version = ''1'', tuple_rootfs_schema_version = ''1'',
     tuple_guest_agent_protocol_version = ''1'' \<rparr>"

definition demo_descriptor :: "string \<Rightarrow> artifact_descriptor" where
  "demo_descriptor role = \<lparr> artifact_role = role, artifact_version = ''1'', artifact_sha256 = demo_digest,
     artifact_release_ref = ''r'', artifact_signature_ref = ''s'', artifact_sbom_ref = ''b'',
     artifact_provenance_ref = ''p'' \<rparr>"

definition demo_manifest :: artifact_manifest where
  "demo_manifest = \<lparr> manifest_id = ''m'', manifest_version = ''1'', manifest_digest = demo_digest,
     manifest_release_version = ''2026.09'', manifest_host_architecture = ''linux-kvm-x86_64'',
     manifest_compatibility_tuple = demo_tuple,
     manifest_artifacts = map demo_descriptor required_artifact_roles,
     manifest_evidence_bundle_ref = ''e'', manifest_signature_policy_ref = ''s'',
     manifest_revocation_policy_ref = ''r'', manifest_published_at = ''2026-09-24T00:00:00Z'' \<rparr>"

definition demo_facts :: host_facts where
  "demo_facts = \<lparr> facts_host_platform = LinuxKvmX86_64, facts_kvm_device_available = True,
     facts_cgroup_v2_writable = True, facts_jailer_artifact_verified = True,
     facts_runtime_data_root_secured = True, facts_host_isolation_broker_available = True,
     facts_workspace_attachment_available = True, facts_network_policy_available = True,
     facts_resource_policy_available = True, facts_guest_channel_available = True,
     facts_artifact_manifest = Some demo_manifest \<rparr>"

definition demo_fire :: "'f fencing_store \<Rightarrow> bool \<Rightarrow> ('f, nat) fire_provider" where
  "demo_fire fs authenticated = \<lparr> fire_fencing = fs, fire_broker = demo_broker authenticated,
     fire_facts = ret demo_facts, fire_evidence = \<lparr> evidence_filesystem = True, evidence_terminal = True \<rparr>,
     fire_budgets = default_budgets \<rparr>"

definition demo_disk :: fencing_disk where
  "demo_disk = \<lparr> disk_files = (\<lambda>_. None), disk_faults = [] \<rparr>"

definition demo_node :: "'f \<Rightarrow> ('f, nat) fire_node" where
  "demo_node f = \<lparr> node_fence = f, node_registry = [],
     node_inflight = {}, node_host = 0, node_uuids = [''u1'', ''u2'', ''u3''], node_log = [] \<rparr>"

definition demo_allocation :: "u64 \<Rightarrow> provider_allocation_request" where
  "demo_allocation k = \<lparr> allocate_tenant_id = ''t'', allocate_workspace_id = ''w'', allocate_session_id = ''s'',
     allocate_sandbox_id = ''x'', allocate_binding_id = ''b'', allocate_fencing_token = k,
     allocate_capabilities = {}, allocate_assurance = MicroVm \<rparr>"

definition demo_start_request :: "u64 \<Rightarrow> provider_start_request" where
  "demo_start_request k = \<lparr> start_tenant_id = ''t'', start_workspace_id = ''w'', start_session_id = ''s'',
     start_sandbox_id = ''x'', start_binding_id = ''b'', start_fencing_token = k,
     start_allocation = ''fcalloc:u1'' \<rparr>"

definition demo_stop_request :: "u64 \<Rightarrow> provider_stop_request" where
  "demo_stop_request k = \<lparr> stop_tenant_id = ''t'', stop_session_id = ''s'', stop_sandbox_id = ''x'',
     stop_binding_id = ''b'', stop_fencing_token = k, stop_allocation = ''fcalloc:u1'' \<rparr>"

definition demo_destroy_request :: "u64 \<Rightarrow> provider_destroy_request" where
  "demo_destroy_request k = \<lparr> destroy_tenant_id = ''t'', destroy_session_id = ''s'', destroy_sandbox_id = ''x'',
     destroy_binding_id = ''b'', destroy_fencing_token = k, destroy_allocation = None \<rparr>"

text \<open>Schedules: invoke a call on a thread, or advance a thread.\<close>

datatype thread_action = Invoke nat fire_call | Advance nat

fun act :: "('f, 'h) fire_provider \<Rightarrow> thread_action \<Rightarrow> ('f, 'h) fire_threads \<Rightarrow> ('f, 'h) fire_threads" where
  "act p (Invoke t c) (n, cs) = (if cs t = None \<and> is_entry c then (n, cs(t := Some c)) else (n, cs))"
| "act p (Advance t) (n, cs) =
     (case cs t of
        None \<Rightarrow> (n, cs)
      | Some c \<Rightarrow> (case run_state (fire_step p c) n of (c', n') \<Rightarrow> (n', cs(t := Some c'))))"

lemma act_steps: "(threads_step p)\<^sup>*\<^sup>* x (act p a x)"
proof (cases x)
  case (Pair n cs)
  show ?thesis
  proof (cases a)
    case (Invoke t c)
    then show ?thesis using Pair by (auto intro: threads_step.invoke)
  next
    case (Advance t)
    then show ?thesis
      using Pair by (auto intro!: threads_step.advance r_into_rtranclp split: option.split prod.split)
  qed
qed

lemma schedule_steps: "(threads_step p)\<^sup>*\<^sup>* x (fold (act p) as x)"
proof (induction as arbitrary: x)
  case (Cons a as)
  then show ?case using act_steps [of p x a] by (metis fold_simps(2) rtranclp_trans)
qed simp

definition demo_threads :: "'f \<Rightarrow> ('f, nat) fire_threads" where
  "demo_threads f = (demo_node f, \<lambda>_. None)"

definition allocate_schedule :: "thread_action list" where
  "allocate_schedule = [Invoke 0 (AllocateFence (demo_allocation 1)), Advance 0, Advance 0]"

text \<open>Two starts look the binding up before either has entered; the second enters after the first has left.\<close>

definition racing_starts :: "thread_action list" where
  "racing_starts = allocate_schedule
     @ [Invoke 1 (StartFence (demo_start_request 1)), Invoke 2 (StartFence (demo_start_request 1)),
        Advance 1, Advance 2, Advance 1, Advance 2]
     @ [Advance 1, Advance 1, Advance 1, Advance 1, Advance 1]
     @ [Advance 2, Advance 2, Advance 2, Advance 2, Advance 2]"

text \<open>A destroy under a newer token overtakes a start that has already looked the binding up.\<close>

definition overtaken_start :: "thread_action list" where
  "overtaken_start = allocate_schedule
     @ [Invoke 1 (StartFence (demo_start_request 1)), Advance 1, Advance 1,
        Invoke 2 (DestroyFence (demo_destroy_request 2))]
     @ [Advance 2, Advance 2, Advance 2, Advance 2, Advance 2, Advance 2]
     @ [Advance 1, Advance 1, Advance 1, Advance 1, Advance 1]"

fun boots :: "fire_event list \<Rightarrow> string list" where
  "boots [] = []"
| "boots (BrokerBooted b k r # es) = b # boots es"
| "boots (_ # es) = boots es"

lemma boots_append: "boots (es @ fs) = boots es @ boots fs"
  by (induction es rule: boots.induct) simp_all

fun ends_vmm :: "fire_event \<Rightarrow> bool" where
  "ends_vmm (BrokerTerminated b k r) = True"
| "ends_vmm (BrokerCleaned b k r) = True"
| "ends_vmm _ = False"

text \<open>Runs of the schedules are evaluated by rewriting, over the in-memory fencing store.\<close>

lemmas demo_runs = call_runs lookup_defs Let_def demo_threads_def demo_node_def demo_fire_def
  demo_allocation_def demo_start_request_def demo_destroy_request_def demo_broker_def
  memory_fencing_store_def check_fencing_authority_def memory_record_def btm_get_def btm_contains_def
  btm_remove_def max_tracked_bindings_def max_active_allocations_def allocation_ref_new_def
  start_readiness_def is_sandbox_running_ready_def max_private_reference_length_def

lemma racing_run:
  "boots (node_log (fst (fold (act (demo_fire memory_fencing_store True)) racing_starts (demo_threads [])))) = [''b'', ''b'']"
  "list_all (\<lambda>e. \<not> ends_vmm e)
     (node_log (fst (fold (act (demo_fire memory_fencing_store True)) racing_starts (demo_threads []))))"
  by (simp_all add: racing_starts_def allocate_schedule_def demo_runs)

lemma overtaken_run:
  "map event_fence (node_log (fst (fold (act (demo_fire memory_fencing_store True)) overtaken_start (demo_threads []))))
     = [None, None, None, Some (''b'', 2), Some (''b'', 1), Some (''b'', 1)]"
  "boots (node_log (fst (fold (act (demo_fire memory_fencing_store True)) overtaken_start (demo_threads []))))
     = [''b'']"
  "\<not> ends_vmm (last (node_log (fst (fold (act (demo_fire memory_fencing_store True)) overtaken_start
     (demo_threads [])))))"
  "node_registry (fst (fold (act (demo_fire memory_fencing_store True)) overtaken_start (demo_threads []))) = []"
  by (simp_all add: overtaken_start_def allocate_schedule_def demo_runs event_fence_def)

end
