(* ===== verification/Fire_Properties.thy ===== *)
theory Fire_Properties
  imports Fire_Scenario
begin

text \<open>
  The properties of the Firecracker provider: the fence and its stores, the interleaved calls, the outcome
  of each call, the preflight, and the two schedules the in-flight mark does not exclude.
\<close>

section \<open>The durable fence\<close>

text \<open>
  C15: The durable fencing store refines the abstract fence (one maximum token per binding) whatever system
  calls fail: a recorded token is refused as stale, replayed or advances the maximum exactly as the abstract
  fence decides, any other failure moves no maximum, and what a later read returns is the maximum.
\<close>

theorem durable_store_refines_the_fence:
  assumes "t \<noteq> 0" "run_state (file_record_token b t) d = (r, d')"
  shows "fence_step b t r (disk_maxima d) (disk_maxima d')
    \<and> (\<forall>a v d''. run_state (read_record (record_path a)) d' = (Inr v, d'') \<longrightarrow>
         v = disk_maxima d' a \<and> disk_maxima d'' = disk_maxima d')"
proof
  show "fence_step b t r (disk_maxima d) (disk_maxima d')"
    by (rule file_fencing.record_refines) (use assms in \<open>simp_all add: file_fencing_store_def\<close>)
  show "\<forall>a v d''. run_state (read_record (record_path a)) d' = (Inr v, d'') \<longrightarrow>
      v = disk_maxima d' a \<and> disk_maxima d'' = disk_maxima d'"
    using file_fencing.read_refines by (simp add: file_fencing_store_def)
qed

definition demo_written :: fencing_disk where
  "demo_written = snd (run_state (file_record_token ''b'' 3) demo_disk)"

lemma demo_token:
  "run_state (file_record_token ''b'' 3) demo_disk = (Inr Advanced, demo_written)" "disk_faults demo_written = []"
  by (simp_all add: demo_written_def file_record_token_def read_record_def write_record_def next_fault_def
      put_file_def demo_disk_def try_bind_def)

lemma durable_store_refines_the_fence_witness:
  "fence_step ''b'' 3 (Inr Advanced) (disk_maxima demo_disk) (disk_maxima demo_written)"
  by (rule durable_store_refines_the_fence [OF _ demo_token(1), THEN conjunct1]) simp

text \<open>
  An accepted token survives on disk: a read of the binding's record that meets no failure returns
  exactly the token, and the records of other bindings are untouched.
\<close>

theorem accepted_token_is_read_back:
  assumes "run_state (file_record_token b t) d = (Inr x, d')" "t \<noteq> 0" "disk_faults d' = []"
  shows "run_state (read_record (record_path b)) d' = (Inr t, d')"
    and "a \<noteq> b \<Longrightarrow> disk_maxima d' a = disk_maxima d a"
proof -
  have step: "fence_step b t (Inr x) (disk_maxima d) (disk_maxima d')"
    by (rule file_fencing.record_refines) (use assms in \<open>simp_all add: file_fencing_store_def\<close>)
  then have max: "disk_maxima d' = (disk_maxima d)(b := t)"
    by (auto simp: fence_step_def fence_record_def fun_eq_iff split: if_splits)
  then show "a \<noteq> b \<Longrightarrow> disk_maxima d' a = disk_maxima d a" by simp
  have "disk_maxima d' b = t" using max by simp
  then obtain s where "disk_files d' (record_path b) = Some (TextFile s)" "parse_record s = Inr t"
    using assms(2) by (auto simp: disk_maxima_def split: option.splits disk_file.splits sum.splits)
  then show "run_state (read_record (record_path b)) d' = (Inr t, d')"
    using assms(3) by (simp add: read_record_def next_fault_def)
qed

lemma accepted_token_is_read_back_witness:
  "run_state (read_record (record_path ''b'')) demo_written = (Inr 3, demo_written)"
  by (rule accepted_token_is_read_back(1) [OF demo_token(1) _ demo_token(2)]) simp

section \<open>Interleaved calls\<close>

text \<open>
  C13: However calls of a node interleave, are dropped by their callers or are cut off by restarts, over the
  durable fencing store every broker call is made under a token the fence accepted for its binding before,
  the tokens accepted for a binding never decrease and are never zero, and none exceeds the maximum on disk.
\<close>

theorem broker_calls_are_fenced:
  assumes "(threads_step p)\<^sup>*\<^sup>* x (n, cs)" "fresh_threads x" "fire_fencing p = file_fencing_store"
  shows "log_fenced (node_log n) \<and> sorted (accepted b (node_log n))
    \<and> (\<forall>k\<in>set (accepted b (node_log n)). k \<noteq> 0 \<and> k \<le> disk_maxima (node_fence n) b)"
proof -
  have "file_fencing.fence_ok (n, cs)"
    using file_fencing.reachable_fence [OF assms(1) file_fencing.fresh_fence assms(3)] assms(2) by simp
  then show ?thesis by (simp add: file_fencing.fence_ok_def fence_log_ok_def)
qed

lemma fresh_demo: "fresh_threads (demo_threads f)"
  by (simp add: fresh_threads_def demo_threads_def demo_node_def)

definition fire_demo_run :: "'f fencing_store \<Rightarrow> 'f \<Rightarrow> thread_action list \<Rightarrow> ('f, nat) fire_threads" where
  "fire_demo_run fs f as = fold (act (demo_fire fs True)) as (demo_threads f)"

lemma fire_demo_run_steps: "(threads_step (demo_fire fs True))\<^sup>*\<^sup>* (demo_threads f) (fire_demo_run fs f as)"
  unfolding fire_demo_run_def by (rule schedule_steps)

lemma broker_calls_are_fenced_witness:
  "log_fenced (node_log (fst (fire_demo_run file_fencing_store demo_disk racing_starts)))"
proof (rule broker_calls_are_fenced [THEN conjunct1])
  show "(threads_step (demo_fire file_fencing_store True))\<^sup>*\<^sup>* (demo_threads demo_disk)
      (fst (fire_demo_run file_fencing_store demo_disk racing_starts),
       snd (fire_demo_run file_fencing_store demo_disk racing_starts))"
    using fire_demo_run_steps by simp
qed (simp_all add: fresh_demo demo_fire_def)

text \<open>
  C14: No two calls of a node hold the in-flight mark of the same binding, a call that awaits the broker holds
  its binding's mark, and a binding is marked only while some call holds its mark: a dropped or failed call
  leaves no binding locked.
\<close>

theorem broker_sequences_are_exclusive:
  assumes "(threads_step p)\<^sup>*\<^sup>* x (n, cs)" "fresh_threads x"
  shows "(\<forall>t t' c c' b. cs t = Some c \<longrightarrow> cs t' = Some c' \<longrightarrow> held_mark c = Some b \<longrightarrow>
      held_mark c' = Some b \<longrightarrow> t = t')
    \<and> (\<forall>t c. cs t = Some c \<longrightarrow> awaits_broker c \<longrightarrow> (\<exists>b\<in>node_inflight n. held_mark c = Some b))
    \<and> (\<forall>b\<in>node_inflight n. \<exists>t c. cs t = Some c \<and> held_mark c = Some b)"
proof -
  have ok: "marks_ok (n, cs)" using reachable_marks [OF assms(1) fresh_marks [OF assms(2)]] .
  have at: "mark_at cs s = Some a \<longleftrightarrow> (\<exists>c. cs s = Some c \<and> held_mark c = Some a)" for s a
    by (auto simp: mark_at_def bind_eq_Some_conv)
  have one: "t = t'" if "cs t = Some c" "cs t' = Some c'" "held_mark c = Some b" "held_mark c' = Some b"
    for t t' c c' b
    using ok at that unfolding marks_ok_at by blast
  have marked: "b \<in> node_inflight n \<longleftrightarrow> (\<exists>t c. cs t = Some c \<and> held_mark c = Some b)" for b
    using ok at unfolding marks_ok_at by blast
  show ?thesis using one marked awaits_holds by blast
qed

definition started_once :: "thread_action list" where
  "started_once = allocate_schedule
     @ [Invoke 1 (StartFence (demo_start_request 1)), Advance 1, Advance 1, Advance 1]"

lemma broker_sequences_are_exclusive_witness:
  "\<exists>t c. snd (fire_demo_run memory_fencing_store [] started_once) t = Some c \<and> held_mark c = Some ''b''"
proof (rule broker_sequences_are_exclusive [THEN conjunct2, THEN conjunct2, THEN bspec])
  show "(threads_step (demo_fire memory_fencing_store True))\<^sup>*\<^sup>* (demo_threads [])
      (fst (fire_demo_run memory_fencing_store [] started_once), snd (fire_demo_run memory_fencing_store [] started_once))"
    using fire_demo_run_steps by simp
  show "''b'' \<in> node_inflight (fst (fire_demo_run memory_fencing_store [] started_once))"
    by (simp add: fire_demo_run_def started_once_def allocate_schedule_def demo_runs)
qed (rule fresh_demo)

text \<open>
  Whatever the schedule, a node never tracks more than 1024 allocations, its registry has one entry per
  binding, and an entry is only Running with the references of its prepared binding and its VMM.
\<close>

theorem registry_is_bounded:
  assumes "(threads_step p)\<^sup>*\<^sup>* x (n, cs)" "fresh_threads x"
  shows "length (node_registry n) \<le> 1024" "distinct (map fst (node_registry n))"
    "btm_get (node_registry n) b = Some e \<Longrightarrow> entry_phase e = PhaseRunning \<Longrightarrow>
       entry_binding_reference e \<noteq> None \<and> entry_vmm_reference e \<noteq> None"
proof -
  have "registry_ok (fst x)"
    using assms(2) by (auto simp: fresh_threads_def registry_ok_def btm_ok_def btm_get_def)
  then have ok: "registry_ok n" using reachable_registry [OF assms(1)] by simp
  then show "length (node_registry n) \<le> 1024" "distinct (map fst (node_registry n))"
    by (simp_all add: registry_ok_def max_active_allocations_def btm_ok_def strict_sorted_iff)
  show "btm_get (node_registry n) b = Some e \<Longrightarrow> entry_phase e = PhaseRunning \<Longrightarrow>
       entry_binding_reference e \<noteq> None \<and> entry_vmm_reference e \<noteq> None"
    using ok by (simp add: registry_ok_def)
qed

lemma registry_is_bounded_witness:
  "length (node_registry (fst (fire_demo_run file_fencing_store demo_disk racing_starts))) \<le> 1024"
proof (rule registry_is_bounded(1))
  show "(threads_step (demo_fire file_fencing_store True))\<^sup>*\<^sup>* (demo_threads demo_disk)
      (fst (fire_demo_run file_fencing_store demo_disk racing_starts),
       snd (fire_demo_run file_fencing_store demo_disk racing_starts))"
    using fire_demo_run_steps by simp
qed (rule fresh_demo)

section \<open>The outcome of a call\<close>

text \<open>
  Every mutating call returns: from its entry it reaches a reply of its own operation within seven steps,
  whatever the fencing store, the broker and the node do.
\<close>

theorem calls_return:
  assumes "is_entry c"
  shows "\<exists>k\<le>7. \<exists>r n'. ((\<lambda>(c, n). run_state (fire_step p c) n) ^^ k) (c, n) = (Returned r, n')
    \<and> call_kind (Returned r) = call_kind c"
proof -
  have reach: "\<exists>k\<le>call_rank c. \<exists>r n'. ((\<lambda>(c, n). run_state (fire_step p c) n) ^^ k) (c, n) = (Returned r, n')
      \<and> call_kind (Returned r) = call_kind c" for c and n
  proof (induction "call_rank c" arbitrary: c n rule: less_induct)
    case less
    show ?case
    proof (cases "call_rank c = 0")
      case True
      then obtain r where "c = Returned r" by (cases c) auto
      then show ?thesis by (intro exI [of _ 0]) simp
    next
      case False
      obtain c1 n1 where step: "run_state (fire_step p c) n = (c1, n1)" by force
      then have rank: "call_rank c1 < call_rank c" and kind: "call_kind c1 = call_kind c"
        using fire_step_rank [OF False, of p n] fire_step_kind [of p c n] by simp_all
      obtain k r n' where "k \<le> call_rank c1"
        "((\<lambda>(c, n). run_state (fire_step p c) n) ^^ k) (c1, n1) = (Returned r, n')"
        "call_kind (Returned r) = call_kind c1"
        using less(1) [OF rank] by blast
      then show ?thesis
        using rank step kind by (intro exI [of _ "Suc k"]) (simp add: funpow_Suc_right del: funpow.simps)
    qed
  qed
  have "call_rank c \<le> 7" using assms by (cases c) simp_all
  then show ?thesis using reach [of c n] by (meson order_trans)
qed

lemma calls_return_witness:
  "\<exists>k\<le>7. \<exists>r n'. ((\<lambda>(c, n). run_state (fire_step (demo_fire file_fencing_store True) c) n) ^^ k)
     (StartFence (demo_start_request 1), demo_node demo_disk) = (Returned r, n')
     \<and> call_kind (Returned r) = ProviderStart"
  using calls_return [of "StartFence (demo_start_request 1)"] by simp

text \<open>The fence of a call at its entry, and the error of a reply.\<close>

fun entry_fence :: "fire_call \<Rightarrow> (string \<times> u64) option" where
  "entry_fence (AllocateFence q) = Some (allocate_binding_id q, allocate_fencing_token q)"
| "entry_fence (StartFence q) = Some (start_binding_id q, start_fencing_token q)"
| "entry_fence (StopFence q) = Some (stop_binding_id q, stop_fencing_token q)"
| "entry_fence (DestroyFence q) = Some (destroy_binding_id q, destroy_fencing_token q)"
| "entry_fence c = None"

fun reply_error :: "fire_reply \<Rightarrow> sandbox_provider_error option" where
  "reply_error (AllocateReply x) = (case x of Inl e \<Rightarrow> Some e | Inr _ \<Rightarrow> None)"
| "reply_error (StartReply x) = (case x of Inl e \<Rightarrow> Some e | Inr _ \<Rightarrow> None)"
| "reply_error (StopReply x) = (case x of Inl e \<Rightarrow> Some e | Inr _ \<Rightarrow> None)"
| "reply_error (DestroyReply x) = (case x of Inl e \<Rightarrow> Some e | Inr _ \<Rightarrow> None)"

lemma refused_entry:
  assumes "entry_fence c = Some (b, k)" "run_call p c n = (r, n')"
    and "run_state (fence_call p (call_kind c) b k) n = (Inl e, n1)"
  shows "reply_error r = Some e" "n' = n1"
  using assms by (cases c; simp add: call_fenced; force)+

text \<open>
  C17: A call with a zero token or one below the binding's maximum is refused as rejected, or as unavailable
  when the store cannot prove authority; it changes no maximum, reaches no broker operation, and leaves the
  registry, the in-flight marks and the host as they were.
\<close>

theorem stale_call_has_no_effect:
  assumes "fire_fencing p = file_fencing_store" "entry_fence c = Some (b, k)"
    and "k = 0 \<or> k < disk_maxima (node_fence n) b" "run_call p c n = (r, n')"
  shows "(\<exists>e. reply_error r = Some e \<and> error_kind e \<in> {Rejected, Unavailable})
    \<and> disk_maxima (node_fence n') = disk_maxima (node_fence n) \<and> node_log n' = node_log n
    \<and> node_registry n' = node_registry n \<and> node_inflight n' = node_inflight n \<and> node_host n' = node_host n"
proof -
  obtain x n1 where x: "run_state (fence_call p (call_kind c) b k) n = (x, n1)" by force
  note stale = file_fencing.stale_refused [OF assms(1) _ assms(3) x]
  obtain e where e: "x = Inl e" "error_kind e \<in> {Rejected, Unavailable}" using stale(1) by auto
  show ?thesis
    using refused_entry [OF assms(2,4) x [unfolded e(1)]] e stale(2,3) fence_call_keeps(1-3) [OF x] by simp
qed

lemma stale_call_has_no_effect_witness:
  "node_log (snd (run_call (demo_fire file_fencing_store True) (StartFence (demo_start_request 0)) (demo_node demo_disk))) = []"
proof -
  let ?r = "run_call (demo_fire file_fencing_store True) (StartFence (demo_start_request 0)) (demo_node demo_disk)"
  have "node_log (snd ?r) = node_log (demo_node demo_disk)"
    by (rule stale_call_has_no_effect [where r = "fst ?r" and k = 0, THEN conjunct2, THEN conjunct2, THEN conjunct1])
      (simp_all add: demo_fire_def demo_start_request_def)
  then show ?thesis by (simp add: demo_node_def)
qed

text \<open>
  C16: A start that answers with readiness passed its fence, found the binding allocated or stopped, and made
  exactly one prepare and one boot call under its token, in that order and for its binding; the readiness is
  what the broker claimed field by field; the entry keeps both references, and becomes Running exactly when
  the readiness is complete, otherwise its phase stays as it was.
\<close>

theorem start_readiness_is_earned:
  assumes "run_call p (StartFence q) n = (StartReply (Inr rd), n')" "start_binding_id q \<notin> node_inflight n"
  shows "\<exists>e pr h1 boot h2. btm_get (node_registry n) (start_binding_id q) = Some e
    \<and> entry_phase e \<in> {PhaseAllocated, PhaseStopped}
    \<and> run_state (broker_prepare (fire_broker p) (budget_prepare_ms (fire_budgets p))
        (prepare_request q (entry_allocation e))) (node_host n) = (Some (Inr pr), h1)
    \<and> run_state (broker_boot (fire_broker p) (budget_boot_ms (fire_budgets p)) (boot_request q pr)) h1
        = (Some (Inr boot), h2)
    \<and> provider_ready rd = outcome_guest_authenticated boot
    \<and> policy_enforced rd = (prepared_network_enforced pr \<and> prepared_resource_enforced pr)
    \<and> workspace_attached rd = prepared_workspace_attached pr
    \<and> node_log n' = node_log n
        @ [FenceAccepted (start_binding_id q) (start_fencing_token q),
           BrokerPrepared (start_binding_id q) (start_fencing_token q) (prepare_request q (entry_allocation e)),
           BrokerBooted (start_binding_id q) (start_fencing_token q) (boot_request q pr)]
    \<and> node_registry n' = btm_insert (start_binding_id q)
        (e\<lparr> entry_binding_reference := Some (prepared_reference pr),
            entry_vmm_reference := Some (outcome_vmm_reference boot),
            entry_phase := (if is_sandbox_running_ready rd then PhaseRunning else entry_phase e) \<rparr>)
        (node_registry n)
    \<and> node_inflight n' = node_inflight n"
  using start_earned [OF assms]
proof cases
  case (1 e pr h1 boot h2)
  then show ?thesis
    by (intro exI [of _ e] exI [of _ pr] exI [of _ h1] exI [of _ boot] exI [of _ h2])
      (simp add: start_readiness_def)
qed

definition fire_demo_allocated :: "(memory_fencing, nat) fire_node" where
  "fire_demo_allocated = snd (run_call (demo_fire memory_fencing_store True) (AllocateFence (demo_allocation 1)) (demo_node []))"

lemmas demo_calls = run_call_step run_call_returned demo_runs fire_demo_allocated_def demo_stop_request_def

lemma fire_demo_started:
  "run_call (demo_fire memory_fencing_store a) (StartFence (demo_start_request 1)) fire_demo_allocated
     = (StartReply (Inr \<lparr> provider_ready = a, policy_enforced = True, workspace_attached = True \<rparr>),
        snd (run_call (demo_fire memory_fencing_store a) (StartFence (demo_start_request 1)) fire_demo_allocated))"
  by (simp add: demo_calls)

lemma start_readiness_is_earned_witness:
  "\<exists>e. btm_get (node_registry fire_demo_allocated) ''b'' = Some e \<and> entry_phase e \<in> {PhaseAllocated, PhaseStopped}"
proof -
  have "start_binding_id (demo_start_request 1) = ''b''" "''b'' \<notin> node_inflight fire_demo_allocated"
    by (simp_all add: demo_calls)
  then show ?thesis using start_readiness_is_earned [OF fire_demo_started [of True]] by metis
qed

text \<open>
  C18: A destroy past its fence either finds no entry and succeeds, or declares another allocation and is
  rejected, in both cases without a broker call; or it makes one cleanup call: the entry is removed exactly
  when the cleanup succeeded, and is quarantined with an error otherwise.
\<close>

theorem destroy_cleans_or_quarantines:
  assumes "run_call p (DestroyFence q) n = (r, n')" "destroy_binding_id q \<notin> node_inflight n"
    and "run_state (fence_call p ProviderDestroy (destroy_binding_id q) (destroy_fencing_token q)) n = (Inr (), n1)"
  shows "case btm_get (node_registry n) (destroy_binding_id q) of
      None \<Rightarrow> r = DestroyReply (Inr ()) \<and> n' = n1
    | Some e \<Rightarrow>
        if destroy_allocation q \<notin> {None, Some (entry_allocation e)} then
          r = DestroyReply (Inl (fire_error ProviderDestroy Rejected)) \<and> n' = n1
        else
          node_log n' = node_log n1 @ [BrokerCleaned (destroy_binding_id q) (destroy_fencing_token q)
             \<lparr> vmm_binding_reference = entry_allocation e, vmm_vmm_reference = None \<rparr>]
          \<and> node_inflight n' = node_inflight n
          \<and> (if fst (run_state (broker_cleanup (fire_broker p) (budget_cleanup_ms (fire_budgets p))
                 \<lparr> vmm_binding_reference = entry_allocation e, vmm_vmm_reference = None \<rparr>) (node_host n))
                 = Some (Inr ())
             then r = DestroyReply (Inr ())
               \<and> node_registry n' = btm_remove (destroy_binding_id q) (node_registry n)
             else (\<exists>k. r = DestroyReply (Inl (fire_error ProviderDestroy k)))
               \<and> node_registry n' = btm_insert (destroy_binding_id q)
                   (e\<lparr> entry_phase := PhaseQuarantined \<rparr>) (node_registry n))"
proof -
  have run: "run_call p (DestroyLookup q) n1 = (r, n')" using assms(1,3) by (simp add: call_fenced)
  note keeps = fence_call_keeps(1-3) [OF assms(3)]
  have free: "destroy_binding_id q \<notin> node_inflight n1" using assms(2) keeps by simp
  show ?thesis
  proof (cases rule: destroy_looked_up [OF run free])
    case 1
    then show ?thesis using keeps by simp
  next
    case (2 e aref)
    then show ?thesis using keeps by simp
  next
    case (3 e x h)
    then show ?thesis using keeps by auto
  qed
qed

lemma destroy_cleans_or_quarantines_witness:
  "node_registry (snd (run_call (demo_fire memory_fencing_store True) (DestroyFence (demo_destroy_request 2)) (demo_node []))) = []"
proof -
  let ?p = "demo_fire memory_fencing_store True" and ?q = "demo_destroy_request 2"
  obtain r n' where run: "run_call ?p (DestroyFence ?q) (demo_node []) = (r, n')" by force
  obtain x n1 where fence: "run_state (fence_call ?p ProviderDestroy (destroy_binding_id ?q)
      (destroy_fencing_token ?q)) (demo_node []) = (x, n1)" by force
  then have "x = Inr ()" "node_registry n1 = []" by (auto simp: demo_runs)
  then show ?thesis
    using destroy_cleans_or_quarantines [OF run _ fence [unfolded \<open>x = Inr ()\<close>]] run
    by (simp add: demo_node_def btm_get_def)
qed

text \<open>
  The provider reports itself ready only on a supported platform with every host condition met and a
  valid manifest: for each of the five digests the compatibility tuple pins there is an artifact of its role
  with exactly that digest, every artifact's digest is well formed, and the host architecture of manifest
  and tuple is one and supported.
\<close>

theorem ready_node_runs_pinned_artifacts:
  assumes "run_state (firecracker_health p) n = (Some (Inr HealthReady), n')"
  shows "\<exists>f m. fst (run_state (fire_facts p) (node_host n)) = f \<and> facts_artifact_manifest f = Some m
    \<and> validate_manifest m = Inr ()
    \<and> (\<forall>(role, digest)\<in>set (tuple_digest_roles (manifest_compatibility_tuple m)).
         \<exists>d\<in>set (manifest_artifacts m). artifact_role d = role \<and> artifact_sha256 d = digest)
    \<and> list_all artifact_digest_is_valid (manifest_artifacts m)
    \<and> manifest_host_architecture m \<in> set supported_architectures
    \<and> tuple_host_architecture (manifest_compatibility_tuple m) = manifest_host_architecture m
    \<and> facts_host_platform f \<noteq> PlatformUnsupported \<and> facts_kvm_device_available f
    \<and> facts_jailer_artifact_verified f \<and> facts_host_isolation_broker_available f
    \<and> facts_network_policy_available f \<and> facts_guest_channel_available f"
proof -
  define f where "f = fst (run_state (fire_facts p) (node_host n))"
  have "report_status (run_firecracker_preflight f) = PreflightReady"
    using assms by (auto simp: firecracker_health_def on_host_def f_def split: prod.splits preflight_status.splits)
  then have ready: "list_all fst (core_conditions f)" "list_all fst (degraded_conditions f)"
    using preflight_allows_start_iff [of f]
    by (simp_all add: report_allows_start_def preflight_status_allows_start_def)
  then obtain m where m: "facts_artifact_manifest f = Some m" "validate_manifest m = Inr ()"
    by (auto simp: core_conditions_def split: option.splits)
  note valid = m(2) [unfolded manifest_ok]
  have pinned: "\<forall>(role, digest)\<in>set (tuple_digest_roles (manifest_compatibility_tuple m)).
      \<exists>d\<in>set (manifest_artifacts m). artifact_role d = role \<and> artifact_sha256 d = digest"
    using valid sandbox_artifact_mem unfolding artifact_matches_def by fastforce
  show ?thesis
    using m valid pinned ready
    by (intro exI [of _ f] exI [of _ m])
      (simp add: f_def artifact_set_ok core_conditions_def degraded_conditions_def)
qed

lemma ready_node_runs_pinned_artifacts_witness:
  "\<exists>m. facts_artifact_manifest demo_facts = Some m \<and> validate_manifest m = Inr ()"
proof -
  have "validate_manifest demo_manifest = Inr ()" by code_simp
  then have "run_state (firecracker_health (demo_fire file_fencing_store True)) (demo_node demo_disk)
      = (Some (Inr HealthReady), demo_node demo_disk)"
    by (simp add: firecracker_health_def on_host_def demo_fire_def demo_node_def run_firecracker_preflight_def
        failed_conditions_def core_conditions_def degraded_conditions_def demo_facts_def)
  from ready_node_runs_pinned_artifacts [OF this] show ?thesis by (auto simp: demo_fire_def)
qed

section \<open>What the in-flight mark does not exclude\<close>

lemma demo_schedule:
  "(threads_step (demo_fire memory_fencing_store True))\<^sup>*\<^sup>* (demo_threads [])
     (fst (fold (act (demo_fire memory_fencing_store True)) as (demo_threads [])),
      snd (fold (act (demo_fire memory_fencing_store True)) as (demo_threads [])))"
  using schedule_steps by simp

text \<open>
  The binding is looked up before its mark is entered, so two schedules of two calls go wrong: two starts
  that both look the binding up before either enters boot it twice with no VMM terminated in between; and a
  start overtaken by a destroy under a newer token still prepares and boots under its old token after the
  cleanup, leaving a booted VMM whose binding is in no registry.
\<close>

theorem lookup_races_the_mark:
  "(\<exists>n cs. (threads_step (demo_fire memory_fencing_store True))\<^sup>*\<^sup>* (demo_threads []) (n, cs)
     \<and> boots (node_log n) = [''b'', ''b''] \<and> list_all (\<lambda>e. \<not> ends_vmm e) (node_log n))
   \<and> (\<exists>n cs. (threads_step (demo_fire memory_fencing_store True))\<^sup>*\<^sup>* (demo_threads []) (n, cs)
     \<and> map event_fence (node_log n) = [None, None, None, Some (''b'', 2), Some (''b'', 1), Some (''b'', 1)]
     \<and> boots (node_log n) = [''b''] \<and> \<not> ends_vmm (last (node_log n)) \<and> node_registry n = [])"
proof (rule conjI)
  show "\<exists>n cs. (threads_step (demo_fire memory_fencing_store True))\<^sup>*\<^sup>* (demo_threads []) (n, cs)
     \<and> boots (node_log n) = [''b'', ''b''] \<and> list_all (\<lambda>e. \<not> ends_vmm e) (node_log n)"
    by (intro exI conjI, rule demo_schedule [of racing_starts]) (rule racing_run)+
  show "\<exists>n cs. (threads_step (demo_fire memory_fencing_store True))\<^sup>*\<^sup>* (demo_threads []) (n, cs)
     \<and> map event_fence (node_log n) = [None, None, None, Some (''b'', 2), Some (''b'', 1), Some (''b'', 1)]
     \<and> boots (node_log n) = [''b''] \<and> \<not> ends_vmm (last (node_log n)) \<and> node_registry n = []"
    by (intro exI conjI, rule demo_schedule [of overtaken_start]) (rule overtaken_run)+
qed

text \<open>
  A start whose readiness is incomplete leaves the binding startable although its VMM runs: a second start
  boots a second VMM for the binding and overwrites the only reference to the first.
\<close>

theorem unready_start_boots_again:
  assumes "run_call p (StartFence q) n = (StartReply (Inr rd), n1)" "\<not> is_sandbox_running_ready rd"
    and "start_binding_id q \<notin> node_inflight n"
  shows "\<exists>e. btm_get (node_registry n1) (start_binding_id q) = Some e
      \<and> entry_phase e \<in> {PhaseAllocated, PhaseStopped} \<and> entry_vmm_reference e \<noteq> None"
    and "run_call p (StartFence q') n1 = (StartReply (Inr rd'), n2) \<Longrightarrow>
      start_binding_id q' = start_binding_id q \<Longrightarrow>
      boots (node_log n2) = boots (node_log n) @ [start_binding_id q, start_binding_id q]
      \<and> filter ends_vmm (node_log n2) = filter ends_vmm (node_log n)"
proof -
  from start_earned [OF assms(1,3)] show "\<exists>e. btm_get (node_registry n1) (start_binding_id q) = Some e
      \<and> entry_phase e \<in> {PhaseAllocated, PhaseStopped} \<and> entry_vmm_reference e \<noteq> None"
    by cases (use assms(2) in simp)
  assume again: "run_call p (StartFence q') n1 = (StartReply (Inr rd'), n2)" "start_binding_id q' = start_binding_id q"
  show "boots (node_log n2) = boots (node_log n) @ [start_binding_id q, start_binding_id q]
      \<and> filter ends_vmm (node_log n2) = filter ends_vmm (node_log n)"
    using start_earned [OF assms(1,3)]
  proof cases
    case first: (1 e pr h1 boot h2)
    have "start_binding_id q' \<notin> node_inflight n1" using again(2) first(8) assms(3) by simp
    from start_earned [OF again(1) this] show ?thesis
      by cases (use first(6) again(2) in \<open>simp add: boots_append\<close>)
  qed
qed

lemma unready_start_boots_again_witness:
  "\<exists>e. btm_get (node_registry (snd (run_call (demo_fire memory_fencing_store False)
       (StartFence (demo_start_request 1)) fire_demo_allocated))) ''b'' = Some e
     \<and> entry_phase e \<in> {PhaseAllocated, PhaseStopped} \<and> entry_vmm_reference e \<noteq> None"
proof -
  have "start_binding_id (demo_start_request 1) = ''b''" "''b'' \<notin> node_inflight fire_demo_allocated"
    by (simp_all add: demo_calls)
  then show ?thesis
    using unready_start_boots_again(1) [OF fire_demo_started [of False]] by (simp add: is_sandbox_running_ready_def)
qed

end
