(* ===== verification/Command_Types.thy ===== *)
theory Command_Types
  imports Session_Service
begin

text \<open>
  The command contract every provider shares (\<open>command.rs\<close> of crate \<open>sdkwork-sandbox-provider-spi\<close>):
  the bounds of a request, the request and its cancellation, the canonical encoding whose SHA-256 is the
  request's fingerprint, outcomes and errors. The hash is a parameter; a text is its UTF-8 bytes.
\<close>

section \<open>The bounds of a request\<close>

record command_limits =
  limit_timeout_ms :: u64
  limit_stdout_bytes :: u64
  limit_stderr_bytes :: u64
  limit_cleanup_ms :: u64
  limit_process_count :: u32

datatype command_limits_error = FieldOverBound

definition contract_max_timeout_ms :: u64 where "contract_max_timeout_ms = 86400000"
definition contract_max_output_bytes :: u64 where "contract_max_output_bytes = 67108864"
definition contract_max_cleanup_ms :: u64 where "contract_max_cleanup_ms = 60000"
definition contract_max_process_count :: u32 where "contract_max_process_count = 128"

definition validate_limits :: "command_limits \<Rightarrow> command_limits_error + unit" where
  "validate_limits l =
     (if limit_timeout_ms l = 0 \<or> limit_timeout_ms l > contract_max_timeout_ms then Inl FieldOverBound
      else if limit_cleanup_ms l = 0 \<or> limit_cleanup_ms l > contract_max_cleanup_ms then Inl FieldOverBound
      else if limit_stdout_bytes l > contract_max_output_bytes
        \<or> limit_stderr_bytes l > contract_max_output_bytes then Inl FieldOverBound
      else if limit_process_count l = 0 \<or> limit_process_count l > contract_max_process_count
        then Inl FieldOverBound
      else Inr ())"

section \<open>Requests\<close>

record command_request =
  command_tenant_id_text :: string
  command_provider_id_text :: string
  command_workspace_id_text :: string
  command_session_id_text :: string
  command_sandbox_id_text :: string
  command_binding_id_text :: string
  command_fencing_token :: u64
  command_operation_id_text :: string
  command_executable :: string
  command_arguments :: "string list"
  command_working_directory :: string
  command_environment :: "(string, string) btree"
  command_limits_of :: command_limits

record command_cancellation =
  cancel_tenant_id_text :: string
  cancel_provider_id_text :: string
  cancel_workspace_id_text :: string
  cancel_session_id_text :: string
  cancel_sandbox_id_text :: string
  cancel_binding_id_text :: string
  cancel_fencing_token :: u64
  cancel_target_operation_id :: string
  cancel_operation_id :: string

section \<open>The canonical encoding\<close>

text \<open>A number in \<open>k\<close> bytes, most significant first; a length-prefixed text.\<close>

fun big_endian :: "nat \<Rightarrow> nat \<Rightarrow> string" where
  "big_endian 0 n = []"
| "big_endian (Suc k) n = big_endian k (n div 256) @ [char_of (n mod 256)]"

definition be_bytes :: "u64 \<Rightarrow> string" where "be_bytes n = big_endian 8 (unat n)"

definition length_u64 :: "'a list \<Rightarrow> u64" where "length_u64 xs = of_nat (length xs)"

definition length_prefixed :: "string \<Rightarrow> string" where
  "length_prefixed s = be_bytes (length_u64 s) @ s"

definition command_domain :: string where "command_domain = ''sdkwork-sandbox-command-v1''"

definition encode_environment :: "(string, string) btree \<Rightarrow> string" where
  "encode_environment env = be_bytes (length_u64 env)
     @ concat (map (\<lambda>(name, v). length_prefixed name @ length_prefixed v) env)"

definition encode_limits :: "command_limits \<Rightarrow> string" where
  "encode_limits l = concat (map be_bytes
     [limit_timeout_ms l, limit_stdout_bytes l, limit_stderr_bytes l, limit_cleanup_ms l,
      ucast (limit_process_count l)])"

definition execution_encoding :: "command_request \<Rightarrow> string" where
  "execution_encoding q =
     length_prefixed command_domain
     @ concat (map length_prefixed
         [command_tenant_id_text q, command_provider_id_text q, command_workspace_id_text q,
          command_session_id_text q, command_sandbox_id_text q, command_binding_id_text q])
     @ be_bytes (command_fencing_token q)
     @ length_prefixed (command_operation_id_text q)
     @ length_prefixed (command_executable q)
     @ be_bytes (length_u64 (command_arguments q))
     @ concat (map length_prefixed (command_arguments q))
     @ length_prefixed (command_working_directory q)
     @ encode_environment (command_environment q)
     @ encode_limits (command_limits_of q)"

definition cancellation_encoding :: "command_cancellation \<Rightarrow> string" where
  "cancellation_encoding q =
     length_prefixed command_domain
     @ concat (map length_prefixed
         [cancel_tenant_id_text q, cancel_provider_id_text q, cancel_workspace_id_text q,
          cancel_session_id_text q, cancel_sandbox_id_text q, cancel_binding_id_text q])
     @ be_bytes (cancel_fencing_token q)
     @ concat (map length_prefixed [cancel_target_operation_id q, cancel_operation_id q])"

type_synonym digest = "string \<Rightarrow> string"

definition command_execution_fingerprint :: "digest \<Rightarrow> command_request \<Rightarrow> string" where
  "command_execution_fingerprint sha q = sha (execution_encoding q)"

definition command_cancellation_fingerprint :: "digest \<Rightarrow> command_cancellation \<Rightarrow> string" where
  "command_cancellation_fingerprint sha q = sha (cancellation_encoding q)"

definition verify_request_fingerprint :: "digest \<Rightarrow> command_request \<Rightarrow> string \<Rightarrow> bool" where
  "verify_request_fingerprint sha q claimed \<longleftrightarrow> command_execution_fingerprint sha q = claimed"

section \<open>Outcomes and errors\<close>

record command_outcome =
  outcome_exit_code :: "int option"
  outcome_stdout :: string
  outcome_stderr :: string
  outcome_stdout_truncated :: bool
  outcome_stderr_truncated :: bool

datatype command_error =
  InvalidRequest | UnsupportedCapability | PolicyDenied | CommandStaleFencing | IdempotencyConflict
| OperationInProgress | CommandNotFound | ProviderUnavailable | ResultUnavailable | InternalFailure

text \<open>The port of an executor over a state \<open>'w\<close>: the arguments of a cancellation are its key and token.\<close>

record 'w command_executor =
  executor_execute :: "command_request \<Rightarrow> ('w, command_error + command_outcome) state"
  executor_cancel :: "string \<Rightarrow> string \<Rightarrow> string \<Rightarrow> u64 \<Rightarrow> ('w, command_error + unit) state"

section \<open>The encoding is injective\<close>

lemma big_endian_length [simp]: "length (big_endian k n) = k"
  by (induction k n rule: big_endian.induct) simp_all

lemma big_endian_inject:
  "m < 256 ^ k \<Longrightarrow> n < 256 ^ k \<Longrightarrow> big_endian k m = big_endian k n \<Longrightarrow> m = n"
proof (induction k arbitrary: m n)
  case (Suc k)
  have "m div 256 < 256 ^ k" "n div 256 < 256 ^ k"
    using Suc.prems by (simp_all add: less_mult_imp_div_less mult.commute)
  moreover have "big_endian k (m div 256) = big_endian k (n div 256)"
    and low: "(char_of (m mod 256) :: char) = char_of (n mod 256)"
    using Suc.prems(3) by simp_all
  ultimately have "m div 256 = n div 256" using Suc.IH by blast
  moreover have "m mod 256 = n mod 256"
    using arg_cong [OF low, of "of_char :: char \<Rightarrow> nat"] by (simp add: of_char_of)
  ultimately show ?case by (metis div_mult_mod_eq)
qed simp

lemma be_bytes_length [simp]: "length (be_bytes n) = 8"
  by (simp add: be_bytes_def)

lemma be_bytes_inject [simp]: "be_bytes m = be_bytes n \<longleftrightarrow> m = n"
  using big_endian_inject [of "unat m" 8 "unat n"] unat_u64_less [of m] unat_u64_less [of n]
  by (auto simp: be_bytes_def intro: word_unat_eq_iff [THEN iffD2])

text \<open>Texts and lists shorter than \<open>2^64\<close>, as every value in memory is.\<close>

definition fits_u64 :: "'a list \<Rightarrow> bool" where "fits_u64 xs \<longleftrightarrow> length xs < 2 ^ 64"

lemma length_u64_inject: "fits_u64 xs \<Longrightarrow> fits_u64 ys \<Longrightarrow> length_u64 xs = length_u64 ys \<longleftrightarrow> length xs = length ys"
  by (auto simp: fits_u64_def length_u64_def word_of_nat_eq_iff take_bit_nat_eq_self)

lemma be_bytes_append: "be_bytes m @ r = be_bytes n @ s \<longleftrightarrow> m = n \<and> r = s"
  by (simp add: append_eq_append_conv)

lemma length_prefixed_append:
  assumes "fits_u64 a" "fits_u64 b"
  shows "length_prefixed a @ r = length_prefixed b @ s \<longleftrightarrow> a = b \<and> r = s"
proof
  assume eq: "length_prefixed a @ r = length_prefixed b @ s"
  then have "length_u64 a = length_u64 b" "a @ r = b @ s"
    by (simp_all add: length_prefixed_def be_bytes_append)
  then show "a = b \<and> r = s"
    using length_u64_inject [OF assms] by simp
qed simp

lemma prefixed_list_append:
  assumes "\<forall>x\<in>set xs. fits_u64 x" "\<forall>y\<in>set ys. fits_u64 y" "length xs = length ys"
  shows "concat (map length_prefixed xs) @ r = concat (map length_prefixed ys) @ s \<longleftrightarrow> xs = ys \<and> r = s"
  using assms
proof (induction xs arbitrary: ys)
  case (Cons x xs)
  then obtain y ys' where ys: "ys = y # ys'" by (cases ys) auto
  then show ?case using Cons by (simp add: length_prefixed_append)
qed simp

lemma encode_environment_append:
  assumes "\<forall>x\<in>set xs. fits_u64 (fst x) \<and> fits_u64 (snd x)" "\<forall>y\<in>set ys. fits_u64 (fst y) \<and> fits_u64 (snd y)"
    and "fits_u64 xs" "fits_u64 ys"
  shows "encode_environment xs @ r = encode_environment ys @ s \<longleftrightarrow> xs = ys \<and> r = s"
proof -
  have pairs: "concat (map (\<lambda>(n, v). length_prefixed n @ length_prefixed v) xs) @ r
    = concat (map (\<lambda>(n, v). length_prefixed n @ length_prefixed v) ys) @ s \<longleftrightarrow> xs = ys \<and> r = s"
    if "length xs = length ys"
    using assms(1,2) that
  proof (induction xs arbitrary: ys)
    case (Cons x xs)
    then obtain y ys' where ys: "ys = y # ys'" by (cases ys) auto
    then show ?case using Cons by (cases x; cases y) (simp add: length_prefixed_append)
  qed simp
  then show ?thesis
    using length_u64_inject [OF assms(3,4)] by (auto simp: encode_environment_def be_bytes_append)
qed

lemma encode_limits_inject: "encode_limits l = encode_limits l' \<longleftrightarrow> l = l'"
proof -
  have "(ucast (c :: u32) :: u64) = ucast d \<longleftrightarrow> c = d" for c d
    using unat_u32_less [of c] unat_u32_less [of d]
    by (simp add: word_unat_eq_iff [where 'a = 32] unsigned_ucast_eq word_eq_iff_unsigned [where 'a = nat]
        take_bit_nat_eq_self)
  then show ?thesis by (auto simp: encode_limits_def be_bytes_append)
qed

definition request_fits :: "command_request \<Rightarrow> bool" where
  "request_fits q \<longleftrightarrow>
     list_all fits_u64
       ([command_tenant_id_text q, command_provider_id_text q, command_workspace_id_text q,
         command_session_id_text q, command_sandbox_id_text q, command_binding_id_text q,
         command_operation_id_text q, command_executable q, command_working_directory q]
        @ command_arguments q @ map fst (command_environment q) @ map snd (command_environment q))
     \<and> fits_u64 (command_arguments q) \<and> fits_u64 (command_environment q)"

definition cancellation_fits :: "command_cancellation \<Rightarrow> bool" where
  "cancellation_fits q \<longleftrightarrow>
     list_all fits_u64
       [cancel_tenant_id_text q, cancel_provider_id_text q, cancel_workspace_id_text q,
        cancel_session_id_text q, cancel_sandbox_id_text q, cancel_binding_id_text q,
        cancel_target_operation_id q, cancel_operation_id q]"

lemma execution_encoding_inject:
  assumes "request_fits q" "request_fits q'"
  shows "execution_encoding q = execution_encoding q' \<longleftrightarrow> q = q'"
proof
  assume eq: "execution_encoding q = execution_encoding q'"
  have fits: "fits_u64 (command_tenant_id_text x)" "fits_u64 (command_provider_id_text x)"
    "fits_u64 (command_workspace_id_text x)" "fits_u64 (command_session_id_text x)"
    "fits_u64 (command_sandbox_id_text x)" "fits_u64 (command_binding_id_text x)"
    "fits_u64 (command_operation_id_text x)" "fits_u64 (command_executable x)"
    "fits_u64 (command_working_directory x)" "\<forall>a\<in>set (command_arguments x). fits_u64 a"
    "\<forall>e\<in>set (command_environment x). fits_u64 (fst e) \<and> fits_u64 (snd e)"
    "fits_u64 (command_arguments x)" "fits_u64 (command_environment x)"
    if "x = q \<or> x = q'" for x
    using assms that by (auto simp: request_fits_def list_all_iff)
  note fits = fits [of q, simplified] fits [of q', simplified]
  note peel = length_prefixed_append be_bytes_append length_u64_inject encode_environment_append
    encode_limits_inject
  have len: "length (command_arguments q) = length (command_arguments q')"
    using eq fits by (simp add: execution_encoding_def peel)
  show "q = q'"
    using eq fits prefixed_list_append [OF _ _ len] by (simp add: execution_encoding_def peel)
qed simp

lemma cancellation_encoding_inject:
  "cancellation_fits q \<Longrightarrow> cancellation_fits q' \<Longrightarrow>
    cancellation_encoding q = cancellation_encoding q' \<longleftrightarrow> q = q'"
  by (auto simp: cancellation_encoding_def cancellation_fits_def length_prefixed_append be_bytes_append
      length_prefixed_append [where r = "[]" and s = "[]", simplified])

text \<open>An execution is never encoded as a cancellation: it continues where a cancellation ends.\<close>

lemma execution_not_cancellation:
  assumes "request_fits q" "cancellation_fits c"
  shows "execution_encoding q \<noteq> cancellation_encoding c"
proof
  assume eq: "execution_encoding q = cancellation_encoding c"
  have fits: "fits_u64 (command_tenant_id_text q)" "fits_u64 (command_provider_id_text q)"
    "fits_u64 (command_workspace_id_text q)" "fits_u64 (command_session_id_text q)"
    "fits_u64 (command_sandbox_id_text q)" "fits_u64 (command_binding_id_text q)"
    "fits_u64 (command_operation_id_text q)" "fits_u64 (command_executable q)"
    using assms(1) by (simp_all add: request_fits_def)
  have "be_bytes (length_u64 (command_arguments q)) @ concat (map length_prefixed (command_arguments q))
      @ length_prefixed (command_working_directory q) @ encode_environment (command_environment q)
      @ encode_limits (command_limits_of q) = []"
    using eq fits assms(2) length_prefixed_append [of "command_executable q" "cancel_operation_id c" _ "[]"]
    by (simp add: execution_encoding_def cancellation_encoding_def cancellation_fits_def
        length_prefixed_append be_bytes_append)
  then show False using be_bytes_length [of "length_u64 (command_arguments q)"] by simp
qed

end
