(* ===== verification/Command_Boundary.thy ===== *)
theory Command_Boundary
  imports Command_Types
begin

text \<open>
  The boundary a command passes before it may run (\<open>host_boundary/mod.rs\<close> and
  \<open>command_admission.rs\<close> of crate \<open>sdkwork-sandbox-provider-local\<close>; the Firecracker crate's
  \<open>guest_boundary.rs\<close> and \<open>command_admission.rs\<close> are the same code under its own names). A text is its
  UTF-8 bytes: a control character is a byte below 32, the byte 127, or the two bytes of one of
  U+0080 to U+009F.
\<close>

section \<open>The rules\<close>

datatype boundary_error =
  ExecutableInvalid | ExecutableDenied | ArgumentCountExceeded | ArgumentInvalid
| WorkingDirectoryInvalid | EnvironmentCountExceeded | EnvironmentNameInvalid
| EnvironmentProtected | EnvironmentSensitive | EnvironmentDenied | EnvironmentValueInvalid

record boundary_limits =
  max_executable_bytes :: nat
  max_arguments :: nat
  max_argument_bytes :: nat
  max_working_directory_bytes :: nat
  max_environment_entries :: nat
  max_environment_name_bytes :: nat
  max_environment_value_bytes :: nat

definition default_boundary_limits :: boundary_limits where
  "default_boundary_limits = \<lparr> max_executable_bytes = 128, max_arguments = 128, max_argument_bytes = 4096,
     max_working_directory_bytes = 512, max_environment_entries = 64, max_environment_name_bytes = 64,
     max_environment_value_bytes = 1024 \<rparr>"

record host_boundary =
  allowed_executables :: "string set"
  allowed_environment :: "string set"
  boundary_limits_of :: boundary_limits

definition host_boundary_new :: "string set \<Rightarrow> string set \<Rightarrow> host_boundary" where
  "host_boundary_new exes env = \<lparr> allowed_executables = exes, allowed_environment = env,
     boundary_limits_of = default_boundary_limits \<rparr>"

definition with_boundary_limits :: "boundary_limits \<Rightarrow> host_boundary \<Rightarrow> host_boundary" where
  "with_boundary_limits l b = b\<lparr> boundary_limits_of := l \<rparr>"

definition is_upper :: "char \<Rightarrow> bool" where
  "is_upper c \<longleftrightarrow> 65 \<le> (of_char c :: nat) \<and> (of_char c :: nat) \<le> 90"

definition is_lower :: "char \<Rightarrow> bool" where
  "is_lower c \<longleftrightarrow> 97 \<le> (of_char c :: nat) \<and> (of_char c :: nat) \<le> 122"

definition is_digit :: "char \<Rightarrow> bool" where
  "is_digit c \<longleftrightarrow> 48 \<le> (of_char c :: nat) \<and> (of_char c :: nat) \<le> 57"

definition is_alphanumeric :: "char \<Rightarrow> bool" where
  "is_alphanumeric c \<longleftrightarrow> is_upper c \<or> is_lower c \<or> is_digit c"

definition contains_forbidden_byte :: "string \<Rightarrow> bool" where
  "contains_forbidden_byte s \<longleftrightarrow> list_ex (\<lambda>c. (of_char c :: nat) \<in> set [0, 13, 10]) s"

definition is_valid_executable :: "string \<Rightarrow> nat \<Rightarrow> bool" where
  "is_valid_executable s limit =
     (case s of
        [] \<Rightarrow> False
      | c # cs \<Rightarrow> length s \<le> limit \<and> is_alphanumeric c
          \<and> list_all (\<lambda>d. is_alphanumeric d \<or> d \<in> set ''._+-'') cs)"

fun has_control :: "string \<Rightarrow> bool" where
  "has_control [] = False"
| "has_control (c # s) =
     ((of_char c :: nat) < 32 \<or> (of_char c :: nat) = 127
      \<or> (case s of [] \<Rightarrow> False
         | d # _ \<Rightarrow> (of_char c :: nat) = 194 \<and> 128 \<le> (of_char d :: nat) \<and> (of_char d :: nat) \<le> 159)
      \<or> has_control s)"

definition to_ascii_uppercase :: "string \<Rightarrow> string" where
  "to_ascii_uppercase s = map (\<lambda>c. if is_lower c then char_of ((of_char c :: nat) - 32) else c) s"

definition is_reserved_device_name :: "string \<Rightarrow> bool" where
  "is_reserved_device_name base =
     (let u = to_ascii_uppercase base in
      u \<in> set [''CON'', ''PRN'', ''AUX'', ''NUL'']
      \<or> (length u = 4 \<and> (str_starts_with ''COM'' u \<or> str_starts_with ''LPT'' u)
         \<and> u ! 3 \<in> set ''123456789''))"

definition is_valid_path_segment :: "string \<Rightarrow> bool" where
  "is_valid_path_segment w =
     (if w = [] \<or> w \<in> set [''.'', ''..''] \<or> last w \<in> set ''. '' \<or> CHR '':'' \<in> set w \<or> has_control w then False
      else \<not> is_reserved_device_name (takeWhile (\<lambda>c. c \<noteq> CHR ''.'') w))"

definition is_path_separator :: "char \<Rightarrow> bool" where
  "is_path_separator c \<longleftrightarrow> c \<in> set [CHR ''/'', CHR 0x5C]"

definition is_valid_logical_path :: "string \<Rightarrow> nat \<Rightarrow> bool" where
  "is_valid_logical_path s limit =
     (if s = [] \<or> length s > limit \<or> CHR 0x00 \<in> set s \<or> is_path_separator (hd s) then False
      else if s = ''.'' then True
      else if length s \<ge> 2 \<and> (is_upper (s ! 0) \<or> is_lower (s ! 0)) \<and> s ! 1 = CHR '':'' then False
      else list_all is_valid_path_segment (split_on is_path_separator s))"

definition is_valid_environment_name :: "string \<Rightarrow> nat \<Rightarrow> bool" where
  "is_valid_environment_name s limit =
     (case s of
        [] \<Rightarrow> False
      | c # cs \<Rightarrow> length s \<le> limit \<and> (is_upper c \<or> c = CHR ''_'')
          \<and> list_all (\<lambda>d. is_upper d \<or> is_digit d \<or> d = CHR ''_'') cs)"

definition protected_environment_names :: "string list" where
  "protected_environment_names =
     [''PATH'', ''PATHEXT'', ''COMSPEC'', ''SYSTEMROOT'', ''WINDIR'', ''HOME'', ''USERPROFILE'', ''TMP'',
      ''TEMP'', ''LD_PRELOAD'', ''LD_LIBRARY_PATH'', ''DYLD_INSERT_LIBRARIES'', ''DYLD_LIBRARY_PATH'',
      ''DYLD_FRAMEWORK_PATH'']"

definition is_protected_environment_name :: "string \<Rightarrow> bool" where
  "is_protected_environment_name s \<longleftrightarrow> s \<in> set protected_environment_names"

definition sensitive_segments :: "string list" where
  "sensitive_segments =
     [''TOKEN'', ''SECRET'', ''PASSWORD'', ''CREDENTIAL'', ''PRIVATE'', ''SSH'', ''DOCKER'', ''AWS'', ''AZURE'',
      ''GOOGLE'', ''PROXY'', ''KEY'']"

definition is_sensitive_environment_name :: "string \<Rightarrow> bool" where
  "is_sensitive_environment_name s \<longleftrightarrow>
     list_ex (\<lambda>w. w \<in> set sensitive_segments) (split_on (\<lambda>c. c = CHR ''_'') s)"

definition environment_entry_error :: "host_boundary \<Rightarrow> string \<times> string \<Rightarrow> boundary_error option" where
  "environment_entry_error b e =
     (let l = boundary_limits_of b in
      case e of (name, v) \<Rightarrow>
        if \<not> is_valid_environment_name name (max_environment_name_bytes l) then Some EnvironmentNameInvalid
        else if is_protected_environment_name name then Some EnvironmentProtected
        else if is_sensitive_environment_name name then Some EnvironmentSensitive
        else if name \<notin> allowed_environment b then Some EnvironmentDenied
        else if contains_forbidden_byte v \<or> length v > max_environment_value_bytes l
          then Some EnvironmentValueInvalid
        else None)"

definition validate_sandbox_command ::
  "host_boundary \<Rightarrow> string \<Rightarrow> string list \<Rightarrow> string \<Rightarrow> (string, string) btree \<Rightarrow> boundary_error + unit" where
  "validate_sandbox_command b exe args dir env =
     (let l = boundary_limits_of b in
      if \<not> is_valid_executable exe (max_executable_bytes l) then Inl ExecutableInvalid
      else if exe \<notin> allowed_executables b then Inl ExecutableDenied
      else if length args > max_arguments l then Inl ArgumentCountExceeded
      else if list_ex (\<lambda>a. contains_forbidden_byte a \<or> length a > max_argument_bytes l) args
        then Inl ArgumentInvalid
      else if \<not> is_valid_logical_path dir (max_working_directory_bytes l) then Inl WorkingDirectoryInvalid
      else if length env > max_environment_entries l then Inl EnvironmentCountExceeded
      else (case first_error (environment_entry_error b) env of Some e \<Rightarrow> Inl e | None \<Rightarrow> Inr ()))"

section \<open>Admission\<close>

datatype admission_error =
  LimitsOverBound command_limits_error | BoundaryDenied boundary_error | FingerprintMismatch

definition admit_sandbox_command ::
  "digest \<Rightarrow> host_boundary \<Rightarrow> command_request \<Rightarrow> string option \<Rightarrow> admission_error + unit" where
  "admit_sandbox_command sha b q declared =
     (case validate_limits (command_limits_of q) of
        Inl e \<Rightarrow> Inl (LimitsOverBound e)
      | Inr _ \<Rightarrow>
          (case validate_sandbox_command b (command_executable q) (command_arguments q)
                  (command_working_directory q) (command_environment q) of
             Inl e \<Rightarrow> Inl (BoundaryDenied e)
           | Inr _ \<Rightarrow>
               (case declared of
                  Some claimed \<Rightarrow>
                    if \<not> verify_request_fingerprint sha q claimed then Inl FingerprintMismatch else Inr ()
                | None \<Rightarrow> Inr ())))"

record admitted_command =
  admitted_executable :: string
  admitted_arguments :: "string list"
  admitted_working_directory :: string
  admitted_environment :: "(string, string) btree"
  admitted_limits :: command_limits

definition executor_admit ::
  "digest \<Rightarrow> host_boundary \<Rightarrow> command_request \<Rightarrow> command_error + admitted_command" where
  "executor_admit sha b q =
     (if command_fencing_token q = 0 then Inl InvalidRequest
      else
        (case admit_sandbox_command sha b q (Some (command_execution_fingerprint sha q)) of
           Inr _ \<Rightarrow> Inr \<lparr> admitted_executable = command_executable q, admitted_arguments = command_arguments q,
             admitted_working_directory = command_working_directory q,
             admitted_environment = command_environment q, admitted_limits = command_limits_of q \<rparr>
         | Inl e \<Rightarrow> Inl
             (if e \<in> set [BoundaryDenied EnvironmentSensitive, BoundaryDenied EnvironmentProtected,
                         BoundaryDenied EnvironmentDenied, BoundaryDenied ExecutableDenied]
              then PolicyDenied else InvalidRequest)))"

text \<open>
  The Firecracker crate repeats the boundary and the admission for commands that run in the guest.
\<close>

type_synonym guest_boundary = host_boundary
type_synonym guest_boundary_error = boundary_error

definition guest_forbidden_byte :: "string \<Rightarrow> bool" where "guest_forbidden_byte = contains_forbidden_byte"
definition guest_valid_executable :: "string \<Rightarrow> nat \<Rightarrow> bool" where "guest_valid_executable = is_valid_executable"
definition guest_valid_path_segment :: "string \<Rightarrow> bool" where "guest_valid_path_segment = is_valid_path_segment"
definition guest_valid_logical_path :: "string \<Rightarrow> nat \<Rightarrow> bool" where "guest_valid_logical_path = is_valid_logical_path"
definition guest_valid_environment_name :: "string \<Rightarrow> nat \<Rightarrow> bool" where
  "guest_valid_environment_name = is_valid_environment_name"
definition guest_protected_environment_name :: "string \<Rightarrow> bool" where
  "guest_protected_environment_name = is_protected_environment_name"
definition guest_sensitive_environment_name :: "string \<Rightarrow> bool" where
  "guest_sensitive_environment_name = is_sensitive_environment_name"

lemmas guest_rules = guest_forbidden_byte_def guest_valid_executable_def guest_valid_path_segment_def
  guest_valid_logical_path_def guest_valid_environment_name_def guest_protected_environment_name_def
  guest_sensitive_environment_name_def

definition validate_guest_command ::
  "guest_boundary \<Rightarrow> string \<Rightarrow> string list \<Rightarrow> string \<Rightarrow> (string, string) btree
     \<Rightarrow> guest_boundary_error + unit" where
  "validate_guest_command b exe args dir env =
     (let l = boundary_limits_of b in
      if \<not> guest_valid_executable exe (max_executable_bytes l) then Inl ExecutableInvalid
      else if exe \<notin> allowed_executables b then Inl ExecutableDenied
      else if length args > max_arguments l then Inl ArgumentCountExceeded
      else if list_ex (\<lambda>a. guest_forbidden_byte a \<or> length a > max_argument_bytes l) args
        then Inl ArgumentInvalid
      else if \<not> guest_valid_logical_path dir (max_working_directory_bytes l) then Inl WorkingDirectoryInvalid
      else if length env > max_environment_entries l then Inl EnvironmentCountExceeded
      else (case first_error (\<lambda>(name, v).
                if \<not> guest_valid_environment_name name (max_environment_name_bytes l) then Some EnvironmentNameInvalid
                else if guest_protected_environment_name name then Some EnvironmentProtected
                else if guest_sensitive_environment_name name then Some EnvironmentSensitive
                else if name \<notin> allowed_environment b then Some EnvironmentDenied
                else if guest_forbidden_byte v \<or> length v > max_environment_value_bytes l
                  then Some EnvironmentValueInvalid
                else None) env of Some e \<Rightarrow> Inl e | None \<Rightarrow> Inr ()))"

definition admit_guest_command ::
  "digest \<Rightarrow> guest_boundary \<Rightarrow> command_request \<Rightarrow> string option \<Rightarrow> admission_error + unit" where
  "admit_guest_command sha b q declared =
     (case validate_limits (command_limits_of q) of
        Inl e \<Rightarrow> Inl (LimitsOverBound e)
      | Inr _ \<Rightarrow>
          (case validate_guest_command b (command_executable q) (command_arguments q)
                  (command_working_directory q) (command_environment q) of
             Inl e \<Rightarrow> Inl (BoundaryDenied e)
           | Inr _ \<Rightarrow>
               (case declared of
                  Some claimed \<Rightarrow>
                    if \<not> verify_request_fingerprint sha q claimed then Inl FingerprintMismatch else Inr ()
                | None \<Rightarrow> Inr ())))"

definition guest_executor_admit ::
  "digest \<Rightarrow> guest_boundary \<Rightarrow> command_request \<Rightarrow> command_error + admitted_command" where
  "guest_executor_admit = executor_admit"

text \<open>The guest's rules are the host's.\<close>

lemma guest_boundary_is_host_boundary: "validate_guest_command = validate_sandbox_command"
  unfolding fun_eq_iff validate_guest_command_def validate_sandbox_command_def guest_rules Let_def
    environment_entry_error_def [abs_def] by simp

lemma guest_admission_is_host_admission: "admit_guest_command = admit_sandbox_command"
  unfolding fun_eq_iff admit_guest_command_def admit_sandbox_command_def guest_boundary_is_host_boundary by simp

section \<open>What an admitted command is\<close>

text \<open>Following a path from a directory: \<open>..\<close> leaves it for its parent, \<open>.\<close> and an empty segment stay.\<close>

fun walk :: "string list \<Rightarrow> string list \<Rightarrow> string list option" where
  "walk here [] = Some here"
| "walk here (w # ws) =
     (if w = ''..'' then (case here of [] \<Rightarrow> None | _ \<Rightarrow> walk (butlast here) ws)
      else if w = ''.'' \<or> w = [] then walk here ws
      else walk (here @ [w]) ws)"

lemma walk_names:
  "\<forall>w\<in>set ws. w \<noteq> ''..'' \<and> w \<noteq> ''.'' \<and> w \<noteq> [] \<Longrightarrow> walk here ws = Some (here @ ws)"
  by (induction ws arbitrary: here) simp_all

lemma segment_name: "is_valid_path_segment w \<Longrightarrow> w \<noteq> ''..'' \<and> w \<noteq> ''.'' \<and> w \<noteq> []"
  by (auto simp: is_valid_path_segment_def split: if_splits)

text \<open>An accepted path stays below where it starts, whichever of the two separators the host uses.\<close>

lemma logical_path_stays:
  assumes "is_valid_logical_path s limit"
  shows "\<exists>below. walk here (split_on is_path_separator s) = Some (here @ below)
    \<and> (\<forall>w\<in>set below. is_valid_path_segment w)"
proof (cases "s = ''.''")
  case True
  then show ?thesis by (simp add: is_path_separator_def)
next
  case False
  then have "list_all is_valid_path_segment (split_on is_path_separator s)"
    using assms by (auto simp: is_valid_logical_path_def split: if_splits)
  then show ?thesis using walk_names segment_name by (auto simp: list_all_iff)
qed

lemma executable_no_separator:
  assumes "is_valid_executable s limit"
  shows "\<forall>c\<in>set s. \<not> is_path_separator c"
proof -
  have "\<not> is_path_separator c" if "is_alphanumeric c \<or> c \<in> set ''._+-''" for c
    using that by (auto simp: is_path_separator_def is_alphanumeric_def is_upper_def is_lower_def is_digit_def)
  then show ?thesis using assms by (auto simp: is_valid_executable_def list_all_iff split: list.splits)
qed

lemma command_accepted:
  "validate_sandbox_command b exe args dir env = Inr () \<longleftrightarrow>
     is_valid_executable exe (max_executable_bytes (boundary_limits_of b)) \<and> exe \<in> allowed_executables b
     \<and> length args \<le> max_arguments (boundary_limits_of b)
     \<and> list_all (\<lambda>a. \<not> contains_forbidden_byte a \<and> length a \<le> max_argument_bytes (boundary_limits_of b)) args
     \<and> is_valid_logical_path dir (max_working_directory_bytes (boundary_limits_of b))
     \<and> length env \<le> max_environment_entries (boundary_limits_of b)
     \<and> list_all (\<lambda>e. environment_entry_error b e = None) env"
proof -
  have loop: "(case first_error f env of Some e \<Rightarrow> Inl e | None \<Rightarrow> Inr ()) = Inr () \<longleftrightarrow> list_all (\<lambda>e. f e = None) env"
    for f :: "string \<times> string \<Rightarrow> boundary_error option"
    by (cases "first_error f env") (auto simp: list_all_iff simp flip: first_error_None)
  have args: "\<not> list_ex (\<lambda>a. contains_forbidden_byte a \<or> length a > n) args
      \<longleftrightarrow> list_all (\<lambda>a. \<not> contains_forbidden_byte a \<and> length a \<le> n) args" for n
    by (auto simp: list_all_iff list_ex_iff not_less)
  show ?thesis
    unfolding args [symmetric] loop [symmetric] by (simp add: validate_sandbox_command_def Let_def not_less)
qed

lemma environment_entry_accepted:
  "environment_entry_error b (name, v) = None \<longleftrightarrow>
     is_valid_environment_name name (max_environment_name_bytes (boundary_limits_of b))
     \<and> \<not> is_protected_environment_name name \<and> \<not> is_sensitive_environment_name name
     \<and> name \<in> allowed_environment b \<and> \<not> contains_forbidden_byte v
     \<and> length v \<le> max_environment_value_bytes (boundary_limits_of b)"
  by (auto simp: environment_entry_error_def Let_def)

lemma admission_accepted:
  "admit_sandbox_command sha b q declared = Inr () \<longleftrightarrow>
     validate_limits (command_limits_of q) = Inr ()
     \<and> validate_sandbox_command b (command_executable q) (command_arguments q)
         (command_working_directory q) (command_environment q) = Inr ()
     \<and> (\<forall>claimed. declared = Some claimed \<longrightarrow> command_execution_fingerprint sha q = claimed)"
  by (auto simp: admit_sandbox_command_def verify_request_fingerprint_def split: sum.split option.split)

text \<open>The executor passes its own recomputation, so a mismatch cannot be refused there.\<close>

lemma admission_never_mismatches:
  "admit_sandbox_command sha b q (Some (command_execution_fingerprint sha q)) \<noteq> Inl FingerprintMismatch"
  by (auto simp: admit_sandbox_command_def verify_request_fingerprint_def split: sum.split)

lemma executor_admit_ok:
  "executor_admit sha b q = Inr c \<longleftrightarrow>
     command_fencing_token q \<noteq> 0 \<and> validate_limits (command_limits_of q) = Inr ()
     \<and> validate_sandbox_command b (command_executable q) (command_arguments q)
         (command_working_directory q) (command_environment q) = Inr ()
     \<and> c = \<lparr> admitted_executable = command_executable q, admitted_arguments = command_arguments q,
             admitted_working_directory = command_working_directory q,
             admitted_environment = command_environment q, admitted_limits = command_limits_of q \<rparr>"
  using admission_accepted [of sha b q "Some (command_execution_fingerprint sha q)"]
  by (auto simp: executor_admit_def split: sum.split)

lemma limits_accepted:
  "validate_limits l = Inr () \<longleftrightarrow>
     limit_timeout_ms l \<noteq> 0 \<and> limit_timeout_ms l \<le> contract_max_timeout_ms
     \<and> limit_cleanup_ms l \<noteq> 0 \<and> limit_cleanup_ms l \<le> contract_max_cleanup_ms
     \<and> limit_stdout_bytes l \<le> contract_max_output_bytes \<and> limit_stderr_bytes l \<le> contract_max_output_bytes
     \<and> limit_process_count l \<noteq> 0 \<and> limit_process_count l \<le> contract_max_process_count"
  by (auto simp: validate_limits_def)

end
