(* ===== verification/Command_Registry.thy ===== *)
theory Command_Registry
  imports Command_Boundary "HOL-Library.Product_Lexorder"
begin

text \<open>
  The bounded registry of live executions (\<open>SandboxLiveCommandRegistry\<close> in \<open>command_executor.rs\<close> of the
  local provider; the Firecracker crate carries the same code). One lock holds the map, the budgets of the
  tenants and the node's total, so each operation is one step. A cancellation handle is a number; the signal
  it stands for is the caller's.
\<close>

section \<open>The registry\<close>

type_synonym live_key = "string \<times> string \<times> string"

record live_command =
  live_fencing_token :: u64
  live_fingerprint :: string
  live_output_bytes :: u64
  live_cancellation :: nat

record tenant_budget =
  tenant_commands :: nat
  tenant_output_bytes :: u64

record live_state =
  live_commands :: "(live_key, live_command) btree"
  tenant_live :: "(string, tenant_budget) btree"
  reserved_output_bytes :: u64

definition max_live_commands :: nat where "max_live_commands = 1024"
definition max_live_commands_per_tenant :: nat where "max_live_commands_per_tenant = 128"
definition max_live_output_bytes :: u64 where "max_live_output_bytes = 2 ^ 30"
definition max_live_output_bytes_per_tenant :: u64 where "max_live_output_bytes_per_tenant = 2 ^ 28"

definition empty_live_state :: live_state where
  "empty_live_state = \<lparr> live_commands = [], tenant_live = [], reserved_output_bytes = 0 \<rparr>"

definition registry_insert ::
  "live_key \<Rightarrow> live_command \<Rightarrow> live_state \<Rightarrow> (command_error + unit) \<times> live_state" where
  "registry_insert key entry s =
     (case btm_get (live_commands s) key of
        Some existing \<Rightarrow>
          (Inl (if live_fingerprint existing \<noteq> live_fingerprint entry then IdempotencyConflict
                else OperationInProgress), s)
      | None \<Rightarrow>
          (let budget = btm_get (tenant_live s) (fst key);
               held = (case budget of Some b \<Rightarrow> tenant_output_bytes b | None \<Rightarrow> 0) in
           if length (live_commands s) \<ge> max_live_commands
             \<or> (case budget of Some b \<Rightarrow> tenant_commands b \<ge> max_live_commands_per_tenant | None \<Rightarrow> False)
           then (Inl PolicyDenied, s)
           else if u64_saturating_add (reserved_output_bytes s) (live_output_bytes entry) > max_live_output_bytes
             \<or> u64_saturating_add held (live_output_bytes entry) > max_live_output_bytes_per_tenant
           then (Inl PolicyDenied, s)
           else
             (let b = (case budget of Some b \<Rightarrow> b | None \<Rightarrow> \<lparr> tenant_commands = 0, tenant_output_bytes = 0 \<rparr>)
              in (Inr (),
                  s\<lparr> tenant_live := btm_insert (fst key)
                       \<lparr> tenant_commands = tenant_commands b + 1,
                         tenant_output_bytes = u64_saturating_add (tenant_output_bytes b) (live_output_bytes entry) \<rparr>
                       (tenant_live s),
                     reserved_output_bytes := u64_saturating_add (reserved_output_bytes s) (live_output_bytes entry),
                     live_commands := btm_insert key entry (live_commands s) \<rparr>))))"

definition release_budget :: "string \<Rightarrow> live_command \<Rightarrow> live_state \<Rightarrow> live_state" where
  "release_budget tenant removed s =
     (case btm_get (tenant_live s) tenant of
        None \<Rightarrow> s
      | Some b \<Rightarrow>
          (let b' = \<lparr> tenant_commands = tenant_commands b - 1,
                      tenant_output_bytes = u64_saturating_sub (tenant_output_bytes b) (live_output_bytes removed) \<rparr>
           in if tenant_commands b' = 0 then s\<lparr> tenant_live := btm_remove tenant (tenant_live s) \<rparr>
              else s\<lparr> tenant_live := btm_insert tenant b' (tenant_live s) \<rparr>))"

definition registry_remove :: "live_key \<Rightarrow> live_state \<Rightarrow> live_state" where
  "registry_remove key s =
     (case btm_get (live_commands s) key of
        None \<Rightarrow> s
      | Some removed \<Rightarrow>
          (let s' = release_budget (fst key) removed (s\<lparr> live_commands := btm_remove key (live_commands s) \<rparr>)
           in s'\<lparr> reserved_output_bytes :=
                   u64_saturating_sub (reserved_output_bytes s') (live_output_bytes removed) \<rparr>))"

text \<open>The handle to signal, when there is one.\<close>

definition registry_lookup_cancel :: "live_key \<Rightarrow> u64 \<Rightarrow> live_state \<Rightarrow> command_error + nat option" where
  "registry_lookup_cancel key token s =
     (case btm_get (live_commands s) key of
        None \<Rightarrow> Inr None
      | Some entry \<Rightarrow>
          if live_fencing_token entry = token then Inr (Some (live_cancellation entry))
          else Inl CommandStaleFencing)"

text \<open>The Firecracker crate's copy.\<close>

definition guest_registry_insert ::
  "live_key \<Rightarrow> live_command \<Rightarrow> live_state \<Rightarrow> (command_error + unit) \<times> live_state" where
  "guest_registry_insert = registry_insert"

definition guest_registry_remove :: "live_key \<Rightarrow> live_state \<Rightarrow> live_state" where
  "guest_registry_remove = registry_remove"

definition guest_registry_lookup_cancel :: "live_key \<Rightarrow> u64 \<Rightarrow> live_state \<Rightarrow> command_error + nat option" where
  "guest_registry_lookup_cancel = registry_lookup_cancel"

section \<open>Its accounting\<close>

definition tenant_count :: "string \<Rightarrow> (live_key, live_command) btree \<Rightarrow> nat" where
  "tenant_count t m = sum_list (map (\<lambda>e. if fst (fst e) = t then 1 else 0) m)"

definition tenant_bytes :: "string \<Rightarrow> (live_key, live_command) btree \<Rightarrow> nat" where
  "tenant_bytes t m = sum_list (map (\<lambda>e. if fst (fst e) = t then unat (live_output_bytes (snd e)) else 0) m)"

definition all_bytes :: "(live_key, live_command) btree \<Rightarrow> nat" where
  "all_bytes m = sum_list (map (\<lambda>e. unat (live_output_bytes (snd e))) m)"

definition budget_accounts :: "string \<Rightarrow> live_state \<Rightarrow> bool" where
  "budget_accounts t s \<longleftrightarrow>
     (case btm_get (tenant_live s) t of
        None \<Rightarrow> tenant_count t (live_commands s) = 0
      | Some b \<Rightarrow> tenant_count t (live_commands s) \<noteq> 0 \<and> tenant_commands b = tenant_count t (live_commands s)
          \<and> unat (tenant_output_bytes b) = tenant_bytes t (live_commands s))"

definition live_ok :: "live_state \<Rightarrow> bool" where
  "live_ok s \<longleftrightarrow> btm_ok (live_commands s) \<and> btm_ok (tenant_live s)
     \<and> unat (reserved_output_bytes s) = all_bytes (live_commands s)
     \<and> (\<forall>t. budget_accounts t s)
     \<and> length (live_commands s) \<le> 1024 \<and> all_bytes (live_commands s) \<le> 2 ^ 30
     \<and> (\<forall>t. tenant_count t (live_commands s) \<le> 128 \<and> tenant_bytes t (live_commands s) \<le> 2 ^ 28)"

lemma live_ok_empty [simp]: "live_ok empty_live_state"
  by (simp add: live_ok_def empty_live_state_def budget_accounts_def tenant_count_def tenant_bytes_def
      all_bytes_def)

lemma count_0_bytes_0: "tenant_count t m = 0 \<Longrightarrow> tenant_bytes t m = 0"
  by (auto simp: tenant_count_def tenant_bytes_def split: if_splits)

lemma insert_sums:
  assumes "btm_get m k = None"
  shows "tenant_count t (btm_insert k e m) = (if fst k = t then 1 else 0) + tenant_count t m"
    "tenant_bytes t (btm_insert k e m) = (if fst k = t then unat (live_output_bytes e) else 0) + tenant_bytes t m"
    "all_bytes (btm_insert k e m) = unat (live_output_bytes e) + all_bytes m"
  using btm_insert_sum [OF assms] by (simp_all add: tenant_count_def tenant_bytes_def all_bytes_def)

lemma remove_sums:
  assumes "btm_ok m" "btm_get m k = Some e"
  shows "(if fst k = t then 1 else 0) + tenant_count t (btm_remove k m) = tenant_count t m"
    "(if fst k = t then unat (live_output_bytes e) else 0) + tenant_bytes t (btm_remove k m) = tenant_bytes t m"
  using btm_remove_sum [OF assms, of "\<lambda>e. if fst (fst e) = t then 1 else 0"]
    btm_remove_sum [OF assms, of "\<lambda>e. if fst (fst e) = t then unat (live_output_bytes (snd e)) else 0"]
  unfolding tenant_count_def tenant_bytes_def fst_conv snd_conv by argo+

lemma remove_total:
  assumes "btm_ok m" "btm_get m k = Some e"
  shows "unat (live_output_bytes e) + all_bytes (btm_remove k m) = all_bytes m"
  using btm_remove_sum [OF assms, of "\<lambda>e. unat (live_output_bytes (snd e))"] by (simp add: all_bytes_def)

text \<open>What a tenant's budget says, whether or not it has one.\<close>

definition held_commands :: "string \<Rightarrow> live_state \<Rightarrow> nat" where
  "held_commands t s = (case btm_get (tenant_live s) t of Some b \<Rightarrow> tenant_commands b | None \<Rightarrow> 0)"

definition held_bytes :: "string \<Rightarrow> live_state \<Rightarrow> u64" where
  "held_bytes t s = (case btm_get (tenant_live s) t of Some b \<Rightarrow> tenant_output_bytes b | None \<Rightarrow> 0)"

lemma budget_accounts_iff:
  "budget_accounts t s \<longleftrightarrow> (btm_contains (tenant_live s) t \<longleftrightarrow> tenant_count t (live_commands s) \<noteq> 0)
     \<and> held_commands t s = tenant_count t (live_commands s)
     \<and> unat (held_bytes t s) = tenant_bytes t (live_commands s)"
  by (auto simp: budget_accounts_def held_commands_def held_bytes_def btm_contains_def count_0_bytes_0
      split: option.splits)

lemma budget_accounts_cong:
  "btm_get (tenant_live s') t = btm_get (tenant_live s) t
    \<Longrightarrow> tenant_count t (live_commands s') = tenant_count t (live_commands s)
    \<Longrightarrow> tenant_bytes t (live_commands s') = tenant_bytes t (live_commands s)
    \<Longrightarrow> budget_accounts t s' = budget_accounts t s"
  by (cases "btm_get (tenant_live s) t") (simp_all add: budget_accounts_def)

lemma saturating_add_le:
  fixes a b c :: u64
  assumes "unat c < 2 ^ 64 - 1"
  shows "u64_saturating_add a b \<le> c \<longleftrightarrow> unat a + unat b \<le> unat c"
  using assms by (auto simp: word_le_nat_alt u64_saturating_add_unat)

lemma registry_insert_ok:
  assumes "live_ok s"
  shows "fst (registry_insert k e s) = Inr () \<longleftrightarrow>
     btm_get (live_commands s) k = None \<and> length (live_commands s) < 1024
     \<and> tenant_count (fst k) (live_commands s) < 128
     \<and> all_bytes (live_commands s) + unat (live_output_bytes e) \<le> 2 ^ 30
     \<and> tenant_bytes (fst k) (live_commands s) + unat (live_output_bytes e) \<le> 2 ^ 28"
proof (cases "btm_get (live_commands s) k")
  case None
  have held: "held_commands (fst k) s = tenant_count (fst k) (live_commands s)"
    "unat (held_bytes (fst k) s) = tenant_bytes (fst k) (live_commands s)"
    and total: "unat (reserved_output_bytes s) = all_bytes (live_commands s)"
    using assms by (auto simp: live_ok_def budget_accounts_iff)
  have full: "(case btm_get (tenant_live s) (fst k) of Some b \<Rightarrow> max_live_commands_per_tenant \<le> tenant_commands b
      | None \<Rightarrow> False) \<longleftrightarrow> 128 \<le> held_commands (fst k) s"
    by (simp add: held_commands_def max_live_commands_per_tenant_def split: option.split)
  have node: "u64_saturating_add (reserved_output_bytes s) (live_output_bytes e) > max_live_output_bytes
      \<longleftrightarrow> \<not> all_bytes (live_commands s) + unat (live_output_bytes e) \<le> 2 ^ 30"
    using saturating_add_le [of max_live_output_bytes] total
    by (simp add: max_live_output_bytes_def not_le [symmetric])
  have share: "u64_saturating_add (held_bytes (fst k) s) (live_output_bytes e) > max_live_output_bytes_per_tenant
      \<longleftrightarrow> \<not> tenant_bytes (fst k) (live_commands s) + unat (live_output_bytes e) \<le> 2 ^ 28"
    using saturating_add_le [of max_live_output_bytes_per_tenant] held(2)
    by (simp add: max_live_output_bytes_per_tenant_def not_le [symmetric])
  show ?thesis
    unfolding registry_insert_def Let_def held_bytes_def [symmetric] full node share
    using None held(1) by (simp add: max_live_commands_def not_le)
qed (simp add: registry_insert_def)

lemma registry_insert_state:
  assumes "registry_insert k e s = (r, s')"
  shows "r \<noteq> Inr () \<Longrightarrow> s' = s"
    "r = Inr () \<Longrightarrow> live_commands s' = btm_insert k e (live_commands s)
       \<and> tenant_live s' = btm_insert (fst k) \<lparr> tenant_commands = held_commands (fst k) s + 1,
           tenant_output_bytes = u64_saturating_add (held_bytes (fst k) s) (live_output_bytes e) \<rparr> (tenant_live s)
       \<and> reserved_output_bytes s' = u64_saturating_add (reserved_output_bytes s) (live_output_bytes e)"
  using assms
  by (auto simp: registry_insert_def Let_def held_commands_def held_bytes_def split: option.splits if_splits)

lemma registry_insert_refusal:
  "registry_insert k e s = (Inl x, s') \<Longrightarrow>
     (case btm_get (live_commands s) k of
        Some old \<Rightarrow> x = (if live_fingerprint old = live_fingerprint e then OperationInProgress else IdempotencyConflict)
      | None \<Rightarrow> x = PolicyDenied)"
  by (auto simp: registry_insert_def Let_def split: option.splits if_splits)

lemma live_ok_insert:
  assumes "live_ok s" "registry_insert k e s = (r, s')"
  shows "live_ok s'"
proof (cases "r = Inr ()")
  case True
  note new = registry_insert_state(2) [OF assms(2) True]
  have free: "btm_get (live_commands s) k = None" "length (live_commands s) < 1024"
    "tenant_count (fst k) (live_commands s) < 128"
    "all_bytes (live_commands s) + unat (live_output_bytes e) \<le> 2 ^ 30"
    "tenant_bytes (fst k) (live_commands s) + unat (live_output_bytes e) \<le> 2 ^ 28"
    using registry_insert_ok [OF assms(1), of k e] assms(2) True by auto
  have old: "btm_ok (live_commands s)" "btm_ok (tenant_live s)"
    "unat (reserved_output_bytes s) = all_bytes (live_commands s)" "\<And>t. budget_accounts t s"
    "\<And>t. tenant_count t (live_commands s) \<le> 128 \<and> tenant_bytes t (live_commands s) \<le> 2 ^ 28"
    using assms(1) by (auto simp: live_ok_def)
  have sums: "tenant_count t (live_commands s') = (if fst k = t then 1 else 0) + tenant_count t (live_commands s)"
    "tenant_bytes t (live_commands s') = (if fst k = t then unat (live_output_bytes e) else 0) + tenant_bytes t (live_commands s)" for t
    using insert_sums [OF free(1)] new by simp_all
  have total: "all_bytes (live_commands s') = unat (live_output_bytes e) + all_bytes (live_commands s)"
    using insert_sums [OF free(1)] new by simp
  have "budget_accounts t s'" for t
  proof (cases "fst k = t")
    case True
    then have "held_commands t s' = held_commands t s + 1"
      "held_bytes t s' = u64_saturating_add (held_bytes t s) (live_output_bytes e)" "btm_contains (tenant_live s') t"
      using new by (simp_all add: held_commands_def held_bytes_def)
    moreover have "held_commands t s = tenant_count t (live_commands s)" "unat (held_bytes t s) = tenant_bytes t (live_commands s)"
      using old(4) by (simp_all add: budget_accounts_iff)
    ultimately show ?thesis
      using sums [of t] True free(5) by (simp add: budget_accounts_iff u64_saturating_add_unat)
  next
    case False
    then have "btm_get (tenant_live s') t = btm_get (tenant_live s) t" using new by simp
    then show ?thesis
      using budget_accounts_cong [of s' t s] old(4) [of t] sums [of t] False by simp
  qed
  then show ?thesis
    using old new sums total free btm.length_insert_new [OF old(1) free(1)]
    by (auto simp: live_ok_def u64_saturating_add_unat)
next
  case False
  then show ?thesis using registry_insert_state(1) [OF assms(2)] assms(1) by simp
qed

lemma btm_remove_length: "length (btm_remove k m) \<le> length m"
  by (simp add: btm_remove_def)

lemma registry_remove_none: "btm_get (live_commands s) k = None \<Longrightarrow> registry_remove k s = s"
  by (simp add: registry_remove_def)

text \<open>Removing an entry takes back exactly what its insertion had added; no subtraction saturates.\<close>

lemma registry_remove_state:
  assumes "live_ok s" "btm_get (live_commands s) k = Some e"
  shows "live_commands (registry_remove k s) = btm_remove k (live_commands s)"
    "unat (reserved_output_bytes (registry_remove k s)) = all_bytes (btm_remove k (live_commands s))"
    "tenant_live (registry_remove k s) =
       (if tenant_count (fst k) (btm_remove k (live_commands s)) = 0 then btm_remove (fst k) (tenant_live s)
        else btm_insert (fst k)
          \<lparr> tenant_commands = tenant_count (fst k) (btm_remove k (live_commands s)),
            tenant_output_bytes = u64_saturating_sub (held_bytes (fst k) s) (live_output_bytes e) \<rparr> (tenant_live s))"
proof -
  note sums = remove_sums [OF _ assms(2), of "fst k"]
  have ok: "btm_ok (live_commands s)" "unat (reserved_output_bytes s) = all_bytes (live_commands s)"
    and acct: "budget_accounts (fst k) s"
    using assms(1) by (auto simp: live_ok_def)
  have count: "tenant_count (fst k) (live_commands s) \<noteq> 0" using sums(1) ok by simp
  then obtain b where b: "btm_get (tenant_live s) (fst k) = Some b"
    "tenant_commands b = tenant_count (fst k) (live_commands s)"
    "unat (tenant_output_bytes b) = tenant_bytes (fst k) (live_commands s)"
    using acct by (auto simp: budget_accounts_def split: option.splits)
  have left: "tenant_commands b - 1 = tenant_count (fst k) (btm_remove k (live_commands s))"
    using sums(1) ok b(2) by simp
  show "live_commands (registry_remove k s) = btm_remove k (live_commands s)"
    "unat (reserved_output_bytes (registry_remove k s)) = all_bytes (btm_remove k (live_commands s))"
    using assms(2) b(1) remove_total [OF ok(1) assms(2)] ok
    by (simp_all add: registry_remove_def release_budget_def Let_def u64_saturating_sub_unat)
  show "tenant_live (registry_remove k s) =
       (if tenant_count (fst k) (btm_remove k (live_commands s)) = 0 then btm_remove (fst k) (tenant_live s)
        else btm_insert (fst k)
          \<lparr> tenant_commands = tenant_count (fst k) (btm_remove k (live_commands s)),
            tenant_output_bytes = u64_saturating_sub (held_bytes (fst k) s) (live_output_bytes e) \<rparr> (tenant_live s))"
    using assms(2) b(1) left
    by (simp add: registry_remove_def release_budget_def Let_def held_bytes_def)
qed

lemma live_ok_remove:
  assumes "live_ok s"
  shows "live_ok (registry_remove k s)"
proof (cases "btm_get (live_commands s) k")
  case None
  then show ?thesis using assms by (simp add: registry_remove_none)
next
  case (Some e)
  have old: "btm_ok (live_commands s)" "btm_ok (tenant_live s)" "\<And>t. budget_accounts t s"
    "\<And>t. tenant_count t (live_commands s) \<le> 128 \<and> tenant_bytes t (live_commands s) \<le> 2 ^ 28"
    "length (live_commands s) \<le> 1024" "all_bytes (live_commands s) \<le> 2 ^ 30"
    using assms by (auto simp: live_ok_def)
  let ?s = "registry_remove k s" and ?m = "btm_remove k (live_commands s)"
  note new = registry_remove_state [OF assms Some] and sums = remove_sums [OF old(1) Some]
  have budget: "budget_accounts t ?s" for t
  proof (cases "fst k = t")
    case True
    have held: "unat (held_bytes t s) = tenant_bytes t (live_commands s)"
      using old(3) by (simp add: budget_accounts_iff)
    show ?thesis
    proof (cases "tenant_count t ?m = 0")
      case True
      with \<open>fst k = t\<close> show ?thesis using new by (simp add: budget_accounts_def btm_get_remove)
    next
      case False
      with \<open>fst k = t\<close> show ?thesis
        using new sums(2) [of t] held by (simp add: budget_accounts_def u64_saturating_sub_unat)
    qed
  next
    case False
    then have "btm_get (tenant_live ?s) t = btm_get (tenant_live s) t" using new by (simp add: btm_get_remove)
    then show ?thesis
      using budget_accounts_cong [of ?s t s] old(3) [of t] sums [of t] new(1) False by simp
  qed
  have "tenant_count t ?m \<le> tenant_count t (live_commands s)" "tenant_bytes t ?m \<le> tenant_bytes t (live_commands s)"
    "all_bytes ?m \<le> all_bytes (live_commands s)" for t
    using sums [of t] remove_total [OF old(1) Some] by linarith+
  then have less: "tenant_count t ?m \<le> 128" "tenant_bytes t ?m \<le> 2 ^ 28" "all_bytes ?m \<le> 2 ^ 30" for t
    using old(4,6) by (meson le_trans)+
  have "btm_ok (tenant_live ?s)" using new(3) old(2) by (simp add: btm_remove_ok btm_insert_ok)
  then show ?thesis
    using budget less new(1,2) old btm_remove_length [of k "live_commands s"]
    by (simp add: live_ok_def btm_remove_ok)
qed

section \<open>The budgets are a function of the live commands\<close>

lemma live_ok_determined:
  assumes "live_ok s" "live_ok s'" "live_commands s = live_commands s'"
  shows "s = s'"
proof -
  have ok: "btm_ok (tenant_live s)" "btm_ok (tenant_live s')"
    and acct: "\<And>t. budget_accounts t s" "\<And>t. budget_accounts t s'"
    using assms(1,2) by (auto simp: live_ok_def)
  have same: "btm_get (tenant_live s) t = btm_get (tenant_live s') t" for t
    using acct(1) [of t] acct(2) [of t] assms(3)
    by (cases "btm_get (tenant_live s) t"; cases "btm_get (tenant_live s') t")
      (auto simp: budget_accounts_def intro!: tenant_budget.equality word_unat_eq_iff [THEN iffD2])
  have "tenant_live s = tenant_live s'" by (rule btm.entries_unique [OF ok same])
  moreover have "reserved_output_bytes s = reserved_output_bytes s'"
    using assms by (auto simp: live_ok_def intro: word_unat_eq_iff [THEN iffD2])
  ultimately show ?thesis using assms(3) by (intro live_state.equality) simp_all
qed

lemma no_commands_no_budget:
  "live_ok s \<Longrightarrow> live_commands s = [] \<Longrightarrow> s = empty_live_state"
  using live_ok_determined [of s empty_live_state] live_ok_empty by (simp add: empty_live_state_def)

lemma remove_after_insert:
  assumes "live_ok s" "registry_insert k e s = (Inr (), s')"
  shows "registry_remove k s' = s"
proof -
  have free: "btm_get (live_commands s) k = None"
    using registry_insert_ok [OF assms(1), of k e] assms(2) by simp
  have new: "live_commands s' = btm_insert k e (live_commands s)"
    using registry_insert_state(2) [OF assms(2)] by simp
  have ok: "live_ok s'" using live_ok_insert [OF assms] .
  have get: "btm_get (live_commands s') k = Some e" using new by simp
  have "live_commands (registry_remove k s') = btm_remove k (btm_insert k e (live_commands s))"
    using registry_remove_state(1) [OF ok get] new by simp
  also have "\<dots> = live_commands s"
    by (rule btm.entries_unique)
      (use assms(1) free in \<open>auto simp: live_ok_def btm_get_remove btm_remove_ok btm_insert_ok\<close>)
  finally show ?thesis using live_ok_determined [OF live_ok_remove [OF ok] assms(1)] by simp
qed

end
