(* ===== verification/Command_Runner.thy ===== *)
theory Command_Runner
  imports Command_Boundary "HOL-Library.Sublist"
begin

text \<open>
  The process runner of the local provider (\<open>process_runner.rs\<close>, the build for Unix). The operating system
  is a parameter: the file system it answers from, the child it runs and the clock that ends a wait. A path
  is a text, a canonical path the list of its components. A child's stream is the list of the chunks its
  reads return; the reader that bounds it is the code's.
\<close>

section \<open>The operating system\<close>

datatype wait_end = ChildExited "int option" | CancelledWait | TimedOutWait

text \<open>A reader task ends with the chunks its stream gave, or panics.\<close>

datatype reader_end = ReadChunks "string list" | ReaderPanicked

text \<open>
  \<open>host_await\<close> gets the time limit and whether the command's cancellation was signalled; \<open>host_join\<close> waits
  for both readers, \<open>None\<close> when its time is up.
\<close>

record 'h process_host =
  host_is_file :: "string \<Rightarrow> 'h \<Rightarrow> bool"
  host_canonicalize :: "string \<Rightarrow> 'h \<Rightarrow> string list option"
  host_blocking :: "('h, bool) state"
  host_spawn :: "string list \<Rightarrow> string list \<Rightarrow> string list \<Rightarrow> (string, string) btree \<Rightarrow> ('h, (bool \<times> bool) option) state"
  host_await :: "u64 \<Rightarrow> bool \<Rightarrow> ('h, wait_end) state"
  host_kill :: "('h, unit) state"
  host_reap :: "u64 \<Rightarrow> ('h, bool) state"
  host_join :: "u64 \<Rightarrow> ('h, (reader_end \<times> reader_end) option) state"

datatype run_event =
  Spawned "string list" "string list" "string list" "(string, string) btree"
| Killed
| Reaped bool
| Drained bool

record 'h run_state_of =
  run_host :: 'h
  run_log :: "run_event list"

definition on_system :: "('h, 'a) state \<Rightarrow> ('h run_state_of, 'a) state" where
  "on_system m = State (\<lambda>s. case run_state m (run_host s) of (r, h) \<Rightarrow> (r, s\<lparr> run_host := h \<rparr>))"

definition log_run :: "run_event \<Rightarrow> ('h run_state_of, unit) state" where
  "log_run e = State (\<lambda>s. ((), s\<lparr> run_log := run_log s @ [e] \<rparr>))"

definition ask_system :: "('h \<Rightarrow> 'a) \<Rightarrow> ('h run_state_of, 'a) state" where
  "ask_system f = State (\<lambda>s. (f (run_host s), s))"

section \<open>Reading a stream within a bound\<close>

text \<open>\<open>sandbox_read_bounded\<close>: an empty read is the end of the stream.\<close>

fun read_bounded :: "u64 \<Rightarrow> string \<Rightarrow> bool \<Rightarrow> string list \<Rightarrow> string \<times> bool" where
  "read_bounded cap buffer truncated [] = (buffer, truncated)"
| "read_bounded cap buffer truncated (chunk # chunks) =
     (if chunk = [] then (buffer, truncated)
      else
        (let room = unat (u64_saturating_sub cap (length_u64 buffer));
             taken = min (length chunk) room
         in read_bounded cap (buffer @ take taken chunk) (truncated \<or> taken < length chunk) chunks))"

section \<open>Resolving the executable and the working directory\<close>

record runner_config =
  runner_roots :: "string list"
  runner_workspace :: string

definition validate_runner :: "runner_config \<Rightarrow> command_error + unit" where
  "validate_runner cfg =
     (if runner_roots cfg = [] \<or> runner_workspace cfg = [] then Inl InvalidRequest else Inr ())"

text \<open>\<open>Path::join\<close> on Unix.\<close>

definition path_join :: "string \<Rightarrow> string \<Rightarrow> string" where
  "path_join a b =
     (if b \<noteq> [] \<and> hd b = CHR ''/'' then b
      else if a = [] \<or> last a = CHR ''/'' then a @ b
      else a @ ''/'' @ b)"

definition plain_names :: "string \<Rightarrow> string list" where
  "plain_names exe = [exe]"

fun resolve_candidates ::
  "'h process_host \<Rightarrow> 'h \<Rightarrow> (string \<times> string) list \<Rightarrow> command_error + string list" where
  "resolve_candidates p h [] = Inl InvalidRequest"
| "resolve_candidates p h ((root, candidate) # rest) =
     (if host_is_file p (path_join root candidate) h
      then (case host_canonicalize p (path_join root candidate) h of
              None \<Rightarrow> Inl UnsupportedCapability
            | Some canonical \<Rightarrow>
                (case host_canonicalize p root h of
                   None \<Rightarrow> Inl UnsupportedCapability
                 | Some canonical_root \<Rightarrow>
                     if prefix canonical_root canonical then Inr canonical else Inl PolicyDenied))
      else resolve_candidates p h rest)"

definition resolve_executable ::
  "'h process_host \<Rightarrow> runner_config \<Rightarrow> string \<Rightarrow> 'h \<Rightarrow> command_error + string list" where
  "resolve_executable p cfg exe h =
     (if exe = [] \<or> list_ex is_path_separator exe then Inl InvalidRequest
      else resolve_candidates p h (List.product (runner_roots cfg) (plain_names exe)))"

definition resolve_working_directory ::
  "'h process_host \<Rightarrow> runner_config \<Rightarrow> string \<Rightarrow> 'h \<Rightarrow> command_error + string list" where
  "resolve_working_directory p cfg dir h =
     (case host_canonicalize p (path_join (runner_workspace cfg) dir) h of
        None \<Rightarrow> Inl InvalidRequest
      | Some canonical \<Rightarrow>
          (case host_canonicalize p (runner_workspace cfg) h of
             None \<Rightarrow> Inl UnsupportedCapability
           | Some canonical_root \<Rightarrow>
               if prefix canonical_root canonical then Inr canonical else Inl PolicyDenied))"

section \<open>A run\<close>

text \<open>A resolution runs on the blocking pool; a task that does not come back is an internal failure.\<close>

definition on_blocking_pool :: "'h process_host \<Rightarrow> ('h \<Rightarrow> command_error + 'a) \<Rightarrow> ('h run_state_of, command_error + 'a) state" where
  "on_blocking_pool p f =
     do { r \<leftarrow> ask_system f;
          back \<leftarrow> on_system (host_blocking p);
          ret (if back then r else Inl InternalFailure) }"

definition environment_admitted :: "(string, string) btree \<Rightarrow> (string, string) btree" where
  "environment_admitted env = env"

definition spawn_child ::
  "'h process_host \<Rightarrow> string list \<Rightarrow> string list \<Rightarrow> admitted_command \<Rightarrow> ('h run_state_of, command_error + unit) state" where
  "spawn_child p exe dir c =
     do { r \<leftarrow> on_system (host_spawn p exe (admitted_arguments c) dir (environment_admitted (admitted_environment c)));
          case r of
            None \<Rightarrow> ret (Inl ProviderUnavailable)
          | Some (out, err) \<Rightarrow>
              do { _ \<leftarrow> log_run (Spawned exe (admitted_arguments c) dir (environment_admitted (admitted_environment c)));
                   ret (if \<not> out \<or> \<not> err then Inl InternalFailure else Inr ()) } }"

text \<open>Up to the live child.\<close>

definition run_begin ::
  "'h process_host \<Rightarrow> runner_config \<Rightarrow> admitted_command \<Rightarrow> ('h run_state_of, command_error + unit) state" where
  "run_begin p cfg c =
     try_bind (ret (validate_runner cfg))
       (\<lambda>_. try_bind (on_blocking_pool p (resolve_executable p cfg (admitted_executable c)))
         (\<lambda>exe. try_bind (on_blocking_pool p (resolve_working_directory p cfg (admitted_working_directory c)))
           (\<lambda>dir. spawn_child p exe dir c)))"

definition reap_within :: "'h process_host \<Rightarrow> u64 \<Rightarrow> ('h run_state_of, bool) state" where
  "reap_within p budget =
     do { reaped \<leftarrow> on_system (host_reap p budget);
          _ \<leftarrow> log_run (Reaped reaped);
          ret reaped }"

definition kill_and_reap :: "'h process_host \<Rightarrow> u64 \<Rightarrow> ('h run_state_of, int option \<times> bool) state" where
  "kill_and_reap p budget =
     do { _ \<leftarrow> on_system (host_kill p);
          _ \<leftarrow> log_run Killed;
          reaped \<leftarrow> reap_within p budget;
          ret (None, reaped) }"

text \<open>The outcome, from the exit code, the readers and whether the cleanup was confirmed.\<close>

definition settle_outcome ::
  "command_limits \<Rightarrow> int option \<Rightarrow> bool \<Rightarrow> (reader_end \<times> reader_end) option \<Rightarrow> command_error + command_outcome" where
  "settle_outcome l exit_code confirmed streams =
     (case streams of
        Some (ReadChunks out, ReadChunks err) \<Rightarrow>
          (if \<not> confirmed \<and> exit_code = None then Inl ProviderUnavailable
           else (case read_bounded (limit_stdout_bytes l) [] False out of (o_bytes, o_cut) \<Rightarrow>
                 (case read_bounded (limit_stderr_bytes l) [] False err of (e_bytes, e_cut) \<Rightarrow>
                    Inr \<lparr> outcome_exit_code = exit_code, outcome_stdout = o_bytes, outcome_stderr = e_bytes,
                          outcome_stdout_truncated = o_cut, outcome_stderr_truncated = e_cut \<rparr>)))
      | Some _ \<Rightarrow> Inl InternalFailure
      | None \<Rightarrow>
          (if exit_code = None then Inl ProviderUnavailable
           else Inr \<lparr> outcome_exit_code = exit_code, outcome_stdout = [], outcome_stderr = [],
                      outcome_stdout_truncated = False, outcome_stderr_truncated = False \<rparr>))"

text \<open>From the live child to the outcome.\<close>

definition run_finish ::
  "'h process_host \<Rightarrow> admitted_command \<Rightarrow> bool \<Rightarrow> ('h run_state_of, command_error + command_outcome) state" where
  "run_finish p c signalled =
     (let l = admitted_limits c in
      do { t \<leftarrow> on_system (host_await p (limit_timeout_ms l) signalled);
           (exit_code, confirmed) \<leftarrow> (case t of
               ChildExited code \<Rightarrow> ret (code, True)
             | CancelledWait \<Rightarrow> kill_and_reap p (limit_cleanup_ms l)
             | TimedOutWait \<Rightarrow> kill_and_reap p (limit_cleanup_ms l));
           streams \<leftarrow> on_system (host_join p (limit_cleanup_ms l));
           _ \<leftarrow> log_run (Drained (streams \<noteq> None));
           ret (settle_outcome l exit_code confirmed streams) })"

definition run_admitted ::
  "'h process_host \<Rightarrow> runner_config \<Rightarrow> admitted_command \<Rightarrow> bool
     \<Rightarrow> ('h run_state_of, command_error + command_outcome) state" where
  "run_admitted p cfg c signalled = try_bind (run_begin p cfg c) (\<lambda>_. run_finish p c signalled)"

section \<open>The bounded read is a prefix of the stream\<close>

definition stream_bytes :: "string list \<Rightarrow> string" where
  "stream_bytes chunks = concat (takeWhile (\<lambda>c. c \<noteq> []) chunks)"

lemma read_bounded_prefix:
  assumes "length buffer \<le> unat cap"
  shows "read_bounded cap buffer truncated chunks
     = (take (unat cap) (buffer @ stream_bytes chunks),
        truncated \<or> unat cap < length buffer + length (stream_bytes chunks))"
  using assms
proof (induction cap buffer truncated chunks rule: read_bounded.induct)
  case (2 cap buffer truncated chunk chunks)
  show ?case
  proof (cases "chunk = []")
    case True
    then show ?thesis using 2(2) by (simp add: stream_bytes_def)
  next
    case False
    define room where "room = unat (u64_saturating_sub cap (length_u64 buffer))"
    define taken where "taken = min (length chunk) room"
    have small: "length buffer < 2 ^ 64" using 2(2) unat_u64_less [of cap] by simp
    then have room: "room = unat cap - length buffer"
      by (simp add: room_def u64_saturating_sub_unat length_u64_def unsigned_of_nat take_bit_nat_eq_self)
    have next_ok: "length (buffer @ take taken chunk) \<le> unat cap"
      using 2(2) room by (auto simp: taken_def)
    have "read_bounded cap buffer truncated (chunk # chunks)
        = read_bounded cap (buffer @ take taken chunk) (truncated \<or> taken < length chunk) chunks"
      using False by (simp add: room_def taken_def Let_def)
    also have "\<dots> = (take (unat cap) ((buffer @ take taken chunk) @ stream_bytes chunks),
        (truncated \<or> taken < length chunk)
          \<or> unat cap < length (buffer @ take taken chunk) + length (stream_bytes chunks))"
      using 2(1) [OF False room_def taken_def next_ok] .
    also have "\<dots> = (take (unat cap) (buffer @ stream_bytes (chunk # chunks)),
        truncated \<or> unat cap < length buffer + length (stream_bytes (chunk # chunks)))"
      using False 2(2) by (auto simp: stream_bytes_def taken_def room min_def)
    finally show ?thesis .
  qed
qed (simp add: stream_bytes_def)

lemma read_bounded_stream:
  "read_bounded cap [] False chunks
     = (take (unat cap) (stream_bytes chunks), unat cap < length (stream_bytes chunks))"
  by (simp add: read_bounded_prefix)

section \<open>What a run may touch\<close>

lemma resolve_candidates_ok:
  "resolve_candidates p h cs = Inr exe \<Longrightarrow>
    \<exists>root candidate base. (root, candidate) \<in> set cs \<and> host_is_file p (path_join root candidate) h
      \<and> host_canonicalize p (path_join root candidate) h = Some exe
      \<and> host_canonicalize p root h = Some base \<and> prefix base exe"
proof (induction p h cs rule: resolve_candidates.induct)
  case (2 p h root candidate rest)
  show ?case
  proof (cases "host_is_file p (path_join root candidate) h")
    case True
    then show ?thesis using 2(2) by (auto split: option.splits if_splits)
  next
    case False
    then show ?thesis using 2 by auto
  qed
qed simp

definition inside_root :: "'h process_host \<Rightarrow> 'h \<Rightarrow> string \<Rightarrow> string \<Rightarrow> string list \<Rightarrow> bool" where
  "inside_root p h root name path \<longleftrightarrow>
     (\<exists>base. host_canonicalize p root h = Some base \<and> prefix base path)
     \<and> host_canonicalize p (path_join root name) h = Some path"

lemma resolve_executable_ok:
  assumes "resolve_executable p cfg exe h = Inr path"
  shows "(\<forall>c\<in>set exe. \<not> is_path_separator c)
    \<and> (\<exists>root\<in>set (runner_roots cfg). inside_root p h root exe path \<and> host_is_file p (path_join root exe) h)"
  using assms resolve_candidates_ok [of p h "List.product (runner_roots cfg) (plain_names exe)" path]
  by (auto simp: resolve_executable_def plain_names_def inside_root_def list_ex_iff split: if_splits)

lemma resolve_working_directory_ok:
  "resolve_working_directory p cfg dir h = Inr path \<longleftrightarrow>
     inside_root p h (runner_workspace cfg) dir path"
  by (auto simp: resolve_working_directory_def inside_root_def split: option.splits)

lemma run_on_system: "run_state (on_system m) s = (case run_state m (run_host s) of (r, h) \<Rightarrow> (r, s\<lparr> run_host := h \<rparr>))"
  by (simp add: on_system_def)

lemma run_log_run: "run_state (log_run e) s = ((), s\<lparr> run_log := run_log s @ [e] \<rparr>)"
  by (simp add: log_run_def)

lemma run_ask_system: "run_state (ask_system f) s = (f (run_host s), s)"
  by (simp add: ask_system_def)

lemmas system_runs = run_on_system run_log_run run_ask_system

lemma run_on_blocking_pool:
  assumes "run_state (on_blocking_pool p f) s = (r, s')"
  shows "run_log s' = run_log s \<and> (r = f (run_host s) \<or> r = Inl InternalFailure)"
  using assms by (auto simp: on_blocking_pool_def system_runs split: prod.splits)

lemma run_spawn_child:
  assumes "run_state (spawn_child p exe dir c) s = (r, s')"
  shows "(run_log s' = run_log s \<and> r = Inl ProviderUnavailable)
    \<or> (run_log s' = run_log s @ [Spawned exe (admitted_arguments c) dir (admitted_environment c)]
        \<and> r \<in> {Inr (), Inl InternalFailure})"
  using assms
  by (auto simp: spawn_child_def system_runs environment_admitted_def
      split: prod.splits option.splits if_splits)

lemma run_try:
  "run_state (try_bind m k) s
     = (case run_state m s of (Inl e, s') \<Rightarrow> (Inl e, s') | (Inr x, s') \<Rightarrow> run_state (k x) s')"
  by (simp add: try_bind_def split: prod.split sum.split)

lemma run_begin_effect:
  assumes "run_state (run_begin p cfg c) s = (r, s')"
  shows "(run_log s' = run_log s \<and> r \<noteq> Inr ())
    \<or> (\<exists>exe dir h h'. validate_runner cfg = Inr ()
        \<and> resolve_executable p cfg (admitted_executable c) h = Inr exe
        \<and> resolve_working_directory p cfg (admitted_working_directory c) h' = Inr dir
        \<and> run_log s' = run_log s @ [Spawned exe (admitted_arguments c) dir (admitted_environment c)]
        \<and> r \<in> {Inr (), Inl InternalFailure})"
proof (cases "validate_runner cfg")
  case (Inr u)
  obtain r1 s1 where one: "run_state (on_blocking_pool p (resolve_executable p cfg (admitted_executable c))) s = (r1, s1)"
    by fastforce
  note effect1 = run_on_blocking_pool [OF one]
  show ?thesis
  proof (cases r1)
    case (Inl e)
    then show ?thesis using assms one Inr effect1 by (auto simp: run_begin_def run_try)
  next
    case (Inr exe)
    obtain r2 s2 where two: "run_state (on_blocking_pool p (resolve_working_directory p cfg (admitted_working_directory c))) s1 = (r2, s2)"
      by fastforce
    note effect2 = run_on_blocking_pool [OF two]
    show ?thesis
    proof (cases r2)
      case (Inl e)
      then show ?thesis
        using assms one two Inr \<open>validate_runner cfg = Inr u\<close> effect1 effect2 by (auto simp: run_begin_def run_try)
    next
      case (Inr dir)
      then have "run_state (spawn_child p exe dir c) s2 = (r, s')"
        using assms one two \<open>r1 = Inr exe\<close> \<open>validate_runner cfg = Inr u\<close> by (simp add: run_begin_def run_try)
      from run_spawn_child [OF this]
      have child: "(run_log s' = run_log s \<and> r \<noteq> Inr ())
        \<or> (run_log s' = run_log s @ [Spawned exe (admitted_arguments c) dir (admitted_environment c)]
            \<and> r \<in> {Inr (), Inl InternalFailure})"
        using effect1 effect2 by auto
      have "resolve_executable p cfg (admitted_executable c) (run_host s) = Inr exe"
        "resolve_working_directory p cfg (admitted_working_directory c) (run_host s1) = Inr dir"
        using effect1 effect2 \<open>r1 = Inr exe\<close> Inr by auto
      then show ?thesis using child \<open>validate_runner cfg = Inr u\<close> by auto
    qed
  qed
qed (use assms in \<open>auto simp: run_begin_def run_try\<close>)

lemma run_finish_effect:
  assumes "run_state (run_finish p c signalled) s = (r, s')"
  shows "\<exists>t streams h h'.
     (\<exists>h0. run_state (host_await p (limit_timeout_ms (admitted_limits c)) signalled) (run_host s) = (t, h0))
     \<and> run_state (host_join p (limit_cleanup_ms (admitted_limits c))) h = (streams, h')
     \<and> (case t of
          ChildExited code \<Rightarrow> r = settle_outcome (admitted_limits c) code True streams
            \<and> run_log s' = run_log s @ [Drained (streams \<noteq> None)]
        | _ \<Rightarrow> \<exists>reaped. r = settle_outcome (admitted_limits c) None reaped streams
            \<and> run_log s' = run_log s @ [Killed, Reaped reaped, Drained (streams \<noteq> None)])"
  using assms
  by (auto simp: run_finish_def Let_def system_runs kill_and_reap_def reap_within_def
      split: prod.splits wait_end.splits; blast)

lemma settle_outcome_ok:
  "settle_outcome l code confirmed streams = Inr result \<longleftrightarrow>
     (\<exists>out err. streams = Some (ReadChunks out, ReadChunks err) \<and> (confirmed \<or> code \<noteq> None)
        \<and> result = \<lparr> outcome_exit_code = code,
             outcome_stdout = take (unat (limit_stdout_bytes l)) (stream_bytes out),
             outcome_stderr = take (unat (limit_stderr_bytes l)) (stream_bytes err),
             outcome_stdout_truncated = (unat (limit_stdout_bytes l) < length (stream_bytes out)),
             outcome_stderr_truncated = (unat (limit_stderr_bytes l) < length (stream_bytes err)) \<rparr>)
     \<or> (streams = None \<and> code \<noteq> None
        \<and> result = \<lparr> outcome_exit_code = code, outcome_stdout = [], outcome_stderr = [],
             outcome_stdout_truncated = False, outcome_stderr_truncated = False \<rparr>)"
  by (auto simp: settle_outcome_def read_bounded_stream split: option.splits prod.splits reader_end.splits)

text \<open>A terminal outcome with captured streams, each a prefix within its bound.\<close>

definition captured :: "command_limits \<Rightarrow> command_outcome \<Rightarrow> string list \<Rightarrow> string list \<Rightarrow> bool" where
  "captured l x out err \<longleftrightarrow>
     outcome_stdout x = take (unat (limit_stdout_bytes l)) (stream_bytes out)
     \<and> outcome_stderr x = take (unat (limit_stderr_bytes l)) (stream_bytes err)
     \<and> outcome_stdout_truncated x = (unat (limit_stdout_bytes l) < length (stream_bytes out))
     \<and> outcome_stderr_truncated x = (unat (limit_stderr_bytes l) < length (stream_bytes err))"

definition output_lost :: "command_outcome \<Rightarrow> bool" where
  "output_lost x \<longleftrightarrow> outcome_stdout x = [] \<and> outcome_stderr x = []
     \<and> \<not> outcome_stdout_truncated x \<and> \<not> outcome_stderr_truncated x"

text \<open>
  An outcome, explained by the end \<open>t\<close> of the wait, the result \<open>streams\<close> of the readers and the log
  after the spawn.
\<close>

definition outcome_explained ::
  "command_limits \<Rightarrow> wait_end \<Rightarrow> (reader_end \<times> reader_end) option \<Rightarrow> run_event list \<Rightarrow> command_outcome \<Rightarrow> bool" where
  "outcome_explained l t streams tail x \<longleftrightarrow>
     (case streams of
        Some (ReadChunks out, ReadChunks err) \<Rightarrow> captured l x out err
          \<and> (case t of
               ChildExited code \<Rightarrow> outcome_exit_code x = code \<and> tail = [Drained True]
             | _ \<Rightarrow> outcome_exit_code x = None \<and> tail = [Killed, Reaped True, Drained True])
      | Some _ \<Rightarrow> False
      | None \<Rightarrow> t = ChildExited (outcome_exit_code x) \<and> outcome_exit_code x \<noteq> None
          \<and> output_lost x \<and> tail = [Drained False])"

lemma settle_explained:
  "settle_outcome l code True streams = Inr x \<Longrightarrow>
     outcome_explained l (ChildExited code) streams [Drained (streams \<noteq> None)] x"
  "settle_outcome l None reaped streams = Inr x \<Longrightarrow> t \<in> {CancelledWait, TimedOutWait} \<Longrightarrow>
     outcome_explained l t streams [Killed, Reaped reaped, Drained (streams \<noteq> None)] x"
  by (auto simp: settle_outcome_ok outcome_explained_def captured_def output_lost_def)

lemma run_finish_tail:
  assumes "run_state (run_finish p c signalled) s = (r, s')"
  obtains t streams tail h0 h1 h2 h3 where "run_log s' = run_log s @ tail"
    "run_state (host_await p (limit_timeout_ms (admitted_limits c)) signalled) h0 = (t, h1)"
    "run_state (host_join p (limit_cleanup_ms (admitted_limits c))) h2 = (streams, h3)"
    "\<And>x. r = Inr x \<Longrightarrow> outcome_explained (admitted_limits c) t streams tail x"
    "\<forall>exe args dir env. Spawned exe args dir env \<notin> set tail"
proof -
  obtain t streams h1 h2 h3 where
    wait: "run_state (host_await p (limit_timeout_ms (admitted_limits c)) signalled) (run_host s) = (t, h1)"
    and join: "run_state (host_join p (limit_cleanup_ms (admitted_limits c))) h2 = (streams, h3)"
    and effect: "case t of
        ChildExited code \<Rightarrow> r = settle_outcome (admitted_limits c) code True streams
          \<and> run_log s' = run_log s @ [Drained (streams \<noteq> None)]
      | _ \<Rightarrow> \<exists>reaped. r = settle_outcome (admitted_limits c) None reaped streams
          \<and> run_log s' = run_log s @ [Killed, Reaped reaped, Drained (streams \<noteq> None)]"
    using run_finish_effect [OF assms] by blast
  show thesis
  proof (cases "\<exists>code. t = ChildExited code")
    case True
    then obtain code where t: "t = ChildExited code" by blast
    then have "r = settle_outcome (admitted_limits c) code True streams"
      "run_log s' = run_log s @ [Drained (streams \<noteq> None)]"
      using effect by simp_all
    then show thesis using that [OF _ wait join] settle_explained(1) t by auto
  next
    case False
    then have t: "t \<in> {CancelledWait, TimedOutWait}" by (cases t) auto
    then obtain reaped where "r = settle_outcome (admitted_limits c) None reaped streams"
      "run_log s' = run_log s @ [Killed, Reaped reaped, Drained (streams \<noteq> None)]"
      using effect by auto
    then show thesis using that [OF _ wait join] settle_explained(2) [OF _ t] by auto
  qed
qed

text \<open>The places a child may be spawned in.\<close>

definition run_inside :: "'h process_host \<Rightarrow> runner_config \<Rightarrow> admitted_command \<Rightarrow> string list \<Rightarrow> string list \<Rightarrow> bool" where
  "run_inside p cfg c exe dir \<longleftrightarrow>
     (\<exists>h. \<exists>root\<in>set (runner_roots cfg). inside_root p h root (admitted_executable c) exe
        \<and> host_is_file p (path_join root (admitted_executable c)) h)
     \<and> (\<exists>h. inside_root p h (runner_workspace cfg) (admitted_working_directory c) dir)"

lemma run_admitted_outcome:
  assumes "run_state (run_admitted p cfg c signalled) s = (Inr x, s')"
  shows "\<exists>exe dir tail t streams h0 h1 h2 h3. run_inside p cfg c exe dir
    \<and> run_log s' = run_log s @ Spawned exe (admitted_arguments c) dir (admitted_environment c) # tail
    \<and> (\<forall>exe args dir env. Spawned exe args dir env \<notin> set tail)
    \<and> run_state (host_await p (limit_timeout_ms (admitted_limits c)) signalled) h0 = (t, h1)
    \<and> run_state (host_join p (limit_cleanup_ms (admitted_limits c))) h2 = (streams, h3)
    \<and> outcome_explained (admitted_limits c) t streams tail x"
proof -
  obtain u s1 where start: "run_state (run_begin p cfg c) s = (Inr u, s1)"
    and finish: "run_state (run_finish p c signalled) s1 = (Inr x, s')"
    using assms by (auto simp: run_admitted_def run_try split: prod.splits sum.splits)
  obtain exe dir where child: "run_inside p cfg c exe dir"
      "run_log s1 = run_log s @ [Spawned exe (admitted_arguments c) dir (admitted_environment c)]"
  proof -
    obtain exe dir h h' where place: "resolve_executable p cfg (admitted_executable c) h = Inr exe"
      "resolve_working_directory p cfg (admitted_working_directory c) h' = Inr dir"
      and log: "run_log s1 = run_log s @ [Spawned exe (admitted_arguments c) dir (admitted_environment c)]"
      using run_begin_effect [OF start] by auto
    have "run_inside p cfg c exe dir"
      unfolding run_inside_def
      using resolve_executable_ok [OF place(1)] place(2) [unfolded resolve_working_directory_ok] by blast
    then show thesis using log that by blast
  qed
  show ?thesis
    using run_finish_tail [OF finish] child by (metis append.assoc append_Cons append_Nil)
qed

end
