(* ===== verification/Command_Executor.thy ===== *)
theory Command_Executor
  imports Command_Registry Command_Runner
begin

text \<open>
  The command executors (\<open>command_executor.rs\<close> of the local provider and of the Firecracker provider): the
  admission, the registration, the run and the release of its slot. The two differ only in what runs the
  command, here a backend: the process runner, or the guest channel under the executor's own time limit.
  A node may run any number of executions at once; each is a sequence of steps, a cancellation is one step,
  and a caller may drop an execution while it waits, which releases its slot.
\<close>

section \<open>Backends\<close>

text \<open>
  A backend starts a command and then runs it to its end, told whether the command's handle has been
  signalled; the flag of its result says that the executor signals the handle itself.
\<close>

record 'h command_backend =
  backend_begin :: "admitted_command \<Rightarrow> ('h, command_error + unit) state"
  backend_finish :: "admitted_command \<Rightarrow> bool \<Rightarrow> ('h, (command_error + command_outcome) \<times> bool) state"

definition local_backend :: "'h process_host \<Rightarrow> runner_config \<Rightarrow> 'h run_state_of command_backend" where
  "local_backend p cfg =
     \<lparr> backend_begin = run_begin p cfg,
       backend_finish = (\<lambda>c signalled. do { r \<leftarrow> run_finish p c signalled; ret (r, False) }) \<rparr>"

datatype guest_channel_error = ChannelUnavailable | ChannelInternalFailure | GuestAuthenticationMissing

definition map_guest_channel_error :: "guest_channel_error \<Rightarrow> command_error" where
  "map_guest_channel_error e =
     (case e of
        ChannelUnavailable \<Rightarrow> ProviderUnavailable
      | ChannelInternalFailure \<Rightarrow> InternalFailure
      | GuestAuthenticationMissing \<Rightarrow> ProviderUnavailable)"

text \<open>The channel under \<open>timeout\<close>: \<open>None\<close> when the time limit, its second argument, has elapsed.\<close>

type_synonym 'h guest_channel =
  "admitted_command \<Rightarrow> u64 \<Rightarrow> bool \<Rightarrow> ('h, (guest_channel_error + command_outcome) option) state"

definition truncate_buffer :: "string \<Rightarrow> u64 \<Rightarrow> bool \<Rightarrow> string \<times> bool" where
  "truncate_buffer buffer limit truncated =
     (if length buffer > unat limit then (take (unat limit) buffer, True) else (buffer, truncated))"

definition bound_outcome :: "command_outcome \<Rightarrow> command_limits \<Rightarrow> command_outcome" where
  "bound_outcome r l =
     (case truncate_buffer (outcome_stdout r) (limit_stdout_bytes l) (outcome_stdout_truncated r) of
        (out, out_cut) \<Rightarrow>
          (case truncate_buffer (outcome_stderr r) (limit_stderr_bytes l) (outcome_stderr_truncated r) of
             (err, err_cut) \<Rightarrow>
               r\<lparr> outcome_stdout := out, outcome_stdout_truncated := out_cut,
                  outcome_stderr := err, outcome_stderr_truncated := err_cut \<rparr>))"

definition no_exit_outcome :: command_outcome where
  "no_exit_outcome = \<lparr> outcome_exit_code = None, outcome_stdout = [], outcome_stderr = [],
     outcome_stdout_truncated = False, outcome_stderr_truncated = False \<rparr>"

definition guest_finish ::
  "'h guest_channel \<Rightarrow> admitted_command \<Rightarrow> bool \<Rightarrow> ('h, (command_error + command_outcome) \<times> bool) state" where
  "guest_finish channel c signalled =
     do { r \<leftarrow> channel c (limit_timeout_ms (admitted_limits c)) signalled;
          ret (case r of
                 Some (Inr result) \<Rightarrow> (Inr (bound_outcome result (admitted_limits c)), False)
               | Some (Inl e) \<Rightarrow> (Inl (map_guest_channel_error e), False)
               | None \<Rightarrow> (Inr no_exit_outcome, True)) }"

definition guest_backend :: "'h guest_channel \<Rightarrow> 'h command_backend" where
  "guest_backend channel = \<lparr> backend_begin = (\<lambda>_. ret (Inr ())), backend_finish = guest_finish channel \<rparr>"

section \<open>The executor\<close>

text \<open>\<open>exec_cancels\<close> remembers the accepted cancellations; the code keeps no such list.\<close>

record 'h exec_node =
  exec_live :: live_state
  exec_next_handle :: nat
  exec_signalled :: "nat set"
  exec_host :: 'h
  exec_cancels :: "(live_key \<times> u64 \<times> nat) list"

definition fresh_exec_node :: "'h \<Rightarrow> 'h exec_node" where
  "fresh_exec_node h = \<lparr> exec_live = empty_live_state, exec_next_handle = 0, exec_signalled = {},
     exec_host = h, exec_cancels = [] \<rparr>"

definition command_key :: "command_request \<Rightarrow> live_key" where
  "command_key q = (command_tenant_id_text q, command_provider_id_text q, command_operation_id_text q)"

definition live_entry :: "digest \<Rightarrow> command_request \<Rightarrow> admitted_command \<Rightarrow> nat \<Rightarrow> live_command" where
  "live_entry sha q c handle =
     \<lparr> live_fencing_token = command_fencing_token q,
       live_fingerprint = command_execution_fingerprint sha q,
       live_output_bytes = u64_saturating_add (limit_stdout_bytes (admitted_limits c))
         (limit_stderr_bytes (admitted_limits c)),
       live_cancellation = handle \<rparr>"

definition release_slot :: "command_request \<Rightarrow> 'h exec_node \<Rightarrow> 'h exec_node" where
  "release_slot q n = n\<lparr> exec_live := registry_remove (command_key q) (exec_live n) \<rparr>"

datatype exec_call =
  ExecAdmit command_request
| ExecInsert command_request admitted_command nat
| ExecBegin command_request admitted_command nat
| ExecAwait command_request admitted_command nat
| ExecLeaving command_request nat "command_error + command_outcome"
| ExecReturned "command_error + command_outcome"

fun exec_step ::
  "digest \<Rightarrow> host_boundary \<Rightarrow> 'h command_backend \<Rightarrow> exec_call \<Rightarrow> 'h exec_node \<Rightarrow> exec_call \<times> 'h exec_node" where
  "exec_step sha b k (ExecAdmit q) n =
     (case executor_admit sha b q of
        Inl e \<Rightarrow> (ExecReturned (Inl e), n)
      | Inr c \<Rightarrow> (ExecInsert q c (exec_next_handle n), n\<lparr> exec_next_handle := exec_next_handle n + 1 \<rparr>))"
| "exec_step sha b k (ExecInsert q c handle) n =
     (case registry_insert (command_key q) (live_entry sha q c handle) (exec_live n) of
        (Inl e, l) \<Rightarrow> (ExecReturned (Inl e), n\<lparr> exec_live := l \<rparr>)
      | (Inr _, l) \<Rightarrow> (ExecBegin q c handle, n\<lparr> exec_live := l \<rparr>))"
| "exec_step sha b k (ExecBegin q c handle) n =
     (case run_state (backend_begin k c) (exec_host n) of
        (Inl e, h) \<Rightarrow> (ExecLeaving q handle (Inl e), n\<lparr> exec_host := h \<rparr>)
      | (Inr _, h) \<Rightarrow> (ExecAwait q c handle, n\<lparr> exec_host := h \<rparr>))"
| "exec_step sha b k (ExecAwait q c handle) n =
     (case run_state (backend_finish k c (handle \<in> exec_signalled n)) (exec_host n) of
        ((r, signal), h) \<Rightarrow>
          (ExecLeaving q handle r,
           n\<lparr> exec_host := h,
              exec_signalled := (if signal then insert handle (exec_signalled n) else exec_signalled n) \<rparr>))"
| "exec_step sha b k (ExecLeaving q handle r) n =
     (ExecReturned r, release_slot q n)"
| "exec_step sha b k (ExecReturned r) n = (ExecReturned r, n)"

text \<open>\<open>sandbox_cancel\<close>: under the lock it finds the execution and signals its handle.\<close>

definition exec_cancel ::
  "string \<Rightarrow> string \<Rightarrow> string \<Rightarrow> u64 \<Rightarrow> 'h exec_node \<Rightarrow> (command_error + unit) \<times> 'h exec_node" where
  "exec_cancel tenant provider operation token n =
     (case registry_lookup_cancel (tenant, provider, operation) token (exec_live n) of
        Inl e \<Rightarrow> (Inl e, n)
      | Inr None \<Rightarrow> (Inr (), n)
      | Inr (Some handle) \<Rightarrow>
          (Inr (), n\<lparr> exec_signalled := insert handle (exec_signalled n),
                      exec_cancels := exec_cancels n @ [((tenant, provider, operation), token, handle)] \<rparr>))"

text \<open>One execution from end to end, when nothing else happens: \<open>sandbox_execute\<close> as it is written.\<close>

definition sandbox_execute ::
  "digest \<Rightarrow> host_boundary \<Rightarrow> 'h command_backend \<Rightarrow> command_request \<Rightarrow> 'h exec_node
     \<Rightarrow> (command_error + command_outcome) \<times> 'h exec_node" where
  "sandbox_execute sha b k q n =
     (case executor_admit sha b q of
        Inl e \<Rightarrow> (Inl e, n)
      | Inr c \<Rightarrow>
          (let handle = exec_next_handle n; n0 = n\<lparr> exec_next_handle := handle + 1 \<rparr> in
           case registry_insert (command_key q) (live_entry sha q c handle) (exec_live n0) of
             (Inl e, l) \<Rightarrow> (Inl e, n0\<lparr> exec_live := l \<rparr>)
           | (Inr _, l) \<Rightarrow>
               (case run_state (backend_begin k c) (exec_host n0) of
                  (Inl e, h) \<Rightarrow> (Inl e, release_slot q (n0\<lparr> exec_live := l, exec_host := h \<rparr>))
                | (Inr _, h) \<Rightarrow>
                    (case run_state (backend_finish k c (handle \<in> exec_signalled n0)) h of
                       ((r, signal), h') \<Rightarrow>
                         (r, release_slot q
                               (n0\<lparr> exec_live := l, exec_host := h',
                                    exec_signalled := (if signal then insert handle (exec_signalled n0)
                                                       else exec_signalled n0) \<rparr>))))))"

section \<open>Many executions\<close>

fun exec_slot :: "exec_call \<Rightarrow> (command_request \<times> nat) option" where
  "exec_slot (ExecBegin q c handle) = Some (q, handle)"
| "exec_slot (ExecAwait q c handle) = Some (q, handle)"
| "exec_slot (ExecLeaving q handle r) = Some (q, handle)"
| "exec_slot c = None"

fun awaits_backend :: "exec_call \<Rightarrow> bool" where
  "awaits_backend (ExecBegin q c handle) = True"
| "awaits_backend (ExecAwait q c handle) = True"
| "awaits_backend c = False"

text \<open>The guard of a dropped execution.\<close>

definition drop_slot :: "exec_call \<Rightarrow> 'h exec_node \<Rightarrow> 'h exec_node" where
  "drop_slot c n =
     (case exec_slot c of None \<Rightarrow> n | Some (q, handle) \<Rightarrow> release_slot q n)"

type_synonym 'h exec_threads = "'h exec_node \<times> (nat \<Rightarrow> exec_call option)"

text \<open>The host moves on its own, at any time; what a dropped backend had done so far is one such move.\<close>

inductive exec_threads_step ::
  "digest \<Rightarrow> host_boundary \<Rightarrow> 'h command_backend \<Rightarrow> 'h exec_threads \<Rightarrow> 'h exec_threads \<Rightarrow> bool"
  for sha b k where
  invoke: "cs t = None \<Longrightarrow> exec_threads_step sha b k (n, cs) (n, cs(t := Some (ExecAdmit q)))"
| advance: "cs t = Some c \<Longrightarrow> exec_step sha b k c n = (c', n') \<Longrightarrow>
     exec_threads_step sha b k (n, cs) (n', cs(t := Some c'))"
| abandon: "cs t = Some c \<Longrightarrow> awaits_backend c \<Longrightarrow>
     exec_threads_step sha b k (n, cs) (drop_slot c n, cs(t := None))"
| cancel: "exec_cancel tenant provider operation token n = (r, n') \<Longrightarrow>
     exec_threads_step sha b k (n, cs) (n', cs)"
| outside: "exec_threads_step sha b k (n, cs) (n\<lparr> exec_host := h \<rparr>, cs)"

inductive_cases exec_threads_stepE: "exec_threads_step sha b k x y"

section \<open>The local run behind an outcome\<close>

text \<open>An execution that answers with an outcome was admitted and is the run of the local runner.\<close>

lemma local_execute_ran:
  assumes "sandbox_execute sha b (local_backend p cfg) q n = (Inr x, n')"
  obtains c signalled where "executor_admit sha b q = Inr c"
    "run_state (run_admitted p cfg c signalled) (exec_host n) = (Inr x, exec_host n')"
proof -
  obtain c where c: "executor_admit sha b q = Inr c"
    using assms by (auto simp: sandbox_execute_def split: sum.splits)
  let ?entry = "live_entry sha q c (exec_next_handle n)" and ?signalled = "exec_next_handle n \<in> exec_signalled n"
  obtain u l where insert: "registry_insert (command_key q) ?entry (exec_live n) = (Inr u, l)"
    using assms c by (auto simp: sandbox_execute_def Let_def split: prod.splits sum.splits)
  obtain v h where start: "run_state (run_begin p cfg c) (exec_host n) = (Inr v, h)"
    using assms c insert
    by (auto simp: sandbox_execute_def Let_def local_backend_def split: prod.splits sum.splits)
  have "run_state (run_finish p c ?signalled) h = (Inr x, exec_host n')"
    using assms c insert start
    by (auto simp: sandbox_execute_def Let_def local_backend_def release_slot_def split: prod.splits)
  then show thesis using that [OF c, of ?signalled] start by (simp add: run_admitted_def run_try)
qed

end
