(* ===== verification/Command_Threads.thy ===== *)
theory Command_Threads
  imports Command_Executor
begin

text \<open>
  What holds in every state of a node that runs commands: the live entries are exactly those of the
  executions that hold a slot, no two of them under one key, and a handle is signalled only by an accepted
  cancellation of its own execution.
\<close>

section \<open>Slots\<close>

definition slot_at :: "(nat \<Rightarrow> exec_call option) \<Rightarrow> nat \<Rightarrow> (command_request \<times> nat) option" where
  "slot_at cs t = Option.bind (cs t) exec_slot"

definition entry_of :: "digest \<Rightarrow> command_request \<Rightarrow> nat \<Rightarrow> live_command \<Rightarrow> bool" where
  "entry_of sha q handle e \<longleftrightarrow> live_fencing_token e = command_fencing_token q
     \<and> live_fingerprint e = command_execution_fingerprint sha q \<and> live_cancellation e = handle"

text \<open>The entries and the slots correspond, for a registry \<open>m\<close> and the slots \<open>at\<close> of the threads.\<close>

definition slots_match ::
  "digest \<Rightarrow> (live_key, live_command) btree \<Rightarrow> (nat \<Rightarrow> (command_request \<times> nat) option) \<Rightarrow> bool" where
  "slots_match sha m at \<longleftrightarrow>
     (\<forall>t q handle. at t = Some (q, handle) \<longrightarrow> (\<exists>e. btm_get m (command_key q) = Some e \<and> entry_of sha q handle e))
     \<and> (\<forall>t t' q q' handle handle'. at t = Some (q, handle) \<longrightarrow> at t' = Some (q', handle')
          \<longrightarrow> command_key q = command_key q' \<longrightarrow> t = t')
     \<and> (\<forall>key e. btm_get m key = Some e \<longrightarrow> (\<exists>t q handle. at t = Some (q, handle) \<and> command_key q = key))"

lemma slots_match_held:
  assumes "slots_match sha m at" "at t = Some (q, handle)"
  obtains e where "btm_get m (command_key q) = Some e" "entry_of sha q handle e"
  using assms unfolding slots_match_def by blast

lemma slots_match_unique:
  "slots_match sha m at \<Longrightarrow> at t = Some (q, handle) \<Longrightarrow> at t' = Some (q', handle')
    \<Longrightarrow> command_key q = command_key q' \<Longrightarrow> t = t'"
  unfolding slots_match_def by blast

lemma slots_match_entry:
  assumes "slots_match sha m at" "btm_get m key = Some e"
  obtains t q handle where "at t = Some (q, handle)" "command_key q = key" "entry_of sha q handle e"
proof -
  obtain t q handle where at: "at t = Some (q, handle)" "command_key q = key"
    using assms unfolding slots_match_def by blast
  then obtain e' where "btm_get m key = Some e'" "entry_of sha q handle e'"
    using slots_match_held [OF assms(1) at(1)] by blast
  with at assms(2) that show ?thesis by simp
qed

lemma slots_match_insert:
  assumes match: "slots_match sha m at" and free: "at t = None" "btm_get m (command_key q) = None"
    and entry: "entry_of sha q handle e"
  shows "slots_match sha (btm_insert (command_key q) e m) (at(t := Some (q, handle)))"
  unfolding slots_match_def
proof (intro conjI allI impI)
  have other: "command_key q' \<noteq> command_key q" if held: "at s = Some (q', h')" for s q' h'
  proof
    assume "command_key q' = command_key q"
    moreover obtain e' where "btm_get m (command_key q') = Some e'"
      using slots_match_held [OF match held] by blast
    ultimately show False using free(2) by simp
  qed
  show "\<exists>e'. btm_get (btm_insert (command_key q) e m) (command_key q') = Some e' \<and> entry_of sha q' h' e'"
    if "(at(t := Some (q, handle))) s = Some (q', h')" for s q' h'
  proof (cases "s = t")
    case True
    then show ?thesis using that entry by simp
  next
    case False
    then have at: "at s = Some (q', h')" using that by simp
    obtain e' where "btm_get m (command_key q') = Some e'" "entry_of sha q' h' e'"
      using slots_match_held [OF match at] by blast
    then show ?thesis using other [OF at] by (intro exI [of _ e']) simp
  qed
  show "s = s'" if "(at(t := Some (q, handle))) s = Some (q1, h1)" "(at(t := Some (q, handle))) s' = Some (q2, h2)"
    "command_key q1 = command_key q2" for s s' q1 q2 h1 h2
  proof (cases "s = t")
    case True
    then have "q1 = q" using that(1) by simp
    show ?thesis
    proof (rule ccontr)
      assume "s \<noteq> s'"
      then have "at s' = Some (q2, h2)" using that(2) True by simp
      then show False using other [of s' q2 h2] that(3) \<open>q1 = q\<close> by simp
    qed
  next
    case False
    then have at: "at s = Some (q1, h1)" using that(1) by simp
    then have "s' \<noteq> t" using that(2,3) other [OF at] by auto
    then show ?thesis using slots_match_unique [OF match at, of s' q2 h2] that(2,3) by simp
  qed
  show "\<exists>s q' h'. (at(t := Some (q, handle))) s = Some (q', h') \<and> command_key q' = key"
    if "btm_get (btm_insert (command_key q) e m) key = Some e'" for key e'
  proof (cases "key = command_key q")
    case True
    then show ?thesis by (intro exI [of _ t] exI [of _ q] exI [of _ handle]) simp
  next
    case False
    then have "btm_get m key = Some e'" using that by simp
    then obtain s q' h' where s: "at s = Some (q', h')" "command_key q' = key"
      using slots_match_entry [OF match] by blast
    then have "s \<noteq> t" using free(1) by auto
    then show ?thesis using s by (intro exI [of _ s]) simp
  qed
qed

lemma slots_match_remove:
  assumes match: "slots_match sha m at" and held: "at t = Some (q, handle)"
  shows "slots_match sha (btm_remove (command_key q) m) (at(t := None))"
  unfolding slots_match_def
proof (intro conjI allI impI)
  show "\<exists>e'. btm_get (btm_remove (command_key q) m) (command_key q') = Some e' \<and> entry_of sha q' h' e'"
    if "(at(t := None)) s = Some (q', h')" for s q' h'
  proof -
    have at: "s \<noteq> t" "at s = Some (q', h')" using that by (simp_all split: if_splits)
    then have other: "command_key q' \<noteq> command_key q" using slots_match_unique [OF match at(2) held] by blast
    obtain e' where "btm_get m (command_key q') = Some e'" "entry_of sha q' h' e'"
      using slots_match_held [OF match at(2)] by blast
    then show ?thesis using other by (intro exI [of _ e']) (simp add: btm_get_remove)
  qed
  show "s = s'" if "(at(t := None)) s = Some (q1, h1)" "(at(t := None)) s' = Some (q2, h2)"
    "command_key q1 = command_key q2" for s s' q1 q2 h1 h2
  proof -
    have "at s = Some (q1, h1)" "at s' = Some (q2, h2)" using that(1,2) by (simp_all split: if_splits)
    then show ?thesis using slots_match_unique [OF match] that(3) by blast
  qed
  show "\<exists>s q' h'. (at(t := None)) s = Some (q', h') \<and> command_key q' = key"
    if "btm_get (btm_remove (command_key q) m) key = Some e'" for key e'
  proof -
    have key: "key \<noteq> command_key q" "btm_get m key = Some e'"
      using that by (simp_all add: btm_get_remove split: if_splits)
    then obtain s q' h' where s: "at s = Some (q', h')" "command_key q' = key"
      using slots_match_entry [OF match] by blast
    then have "s \<noteq> t" using held key(1) by auto
    then show ?thesis using s by (intro exI [of _ s]) simp
  qed
qed

section \<open>The registry and the slots, step by step\<close>

definition exec_ok :: "digest \<Rightarrow> 'h exec_threads \<Rightarrow> bool" where
  "exec_ok sha x \<longleftrightarrow> (case x of (n, cs) \<Rightarrow>
     live_ok (exec_live n) \<and> slots_match sha (live_commands (exec_live n)) (slot_at cs))"

lemma exec_ok_at: "exec_ok sha (n, cs) \<longleftrightarrow>
    live_ok (exec_live n) \<and> slots_match sha (live_commands (exec_live n)) (slot_at cs)"
  by (simp add: exec_ok_def)

lemma exec_ok_fresh: "exec_ok sha (fresh_exec_node h, \<lambda>_. None)"
  by (simp add: exec_ok_at fresh_exec_node_def slots_match_def slot_at_def empty_live_state_def
      live_ok_empty [unfolded empty_live_state_def])

lemma slot_at_update: "slot_at (cs(t := x)) = (slot_at cs)(t := Option.bind x exec_slot)"
  by (auto simp: slot_at_def)

lemma exec_ok_same:
  assumes "exec_ok sha (n, cs)" "Option.bind x exec_slot = slot_at cs t" "exec_live n' = exec_live n"
  shows "exec_ok sha (n', cs(t := x))"
proof -
  have "slot_at (cs(t := x)) = slot_at cs" using assms(2) by (simp add: slot_at_update)
  then show ?thesis using assms(1,3) by (simp add: exec_ok_at)
qed

lemma exec_ok_release:
  assumes "exec_ok sha (n, cs)" "slot_at cs t = Some (q, handle)" "Option.bind x exec_slot = None"
    and "exec_live n' = registry_remove (command_key q) (exec_live n)"
  shows "exec_ok sha (n', cs(t := x))"
proof -
  have ok: "live_ok (exec_live n)" "slots_match sha (live_commands (exec_live n)) (slot_at cs)"
    using assms(1) by (simp_all add: exec_ok_at)
  obtain e where "btm_get (live_commands (exec_live n)) (command_key q) = Some e"
    using slots_match_held [OF ok(2) assms(2)] by blast
  then have "live_commands (exec_live n') = btm_remove (command_key q) (live_commands (exec_live n))"
    using registry_remove_state(1) [OF ok(1)] assms(4) by simp
  then show ?thesis
    using slots_match_remove [OF ok(2) assms(2)] live_ok_remove [OF ok(1)] assms(3,4)
    by (simp add: exec_ok_at slot_at_update)
qed

lemma exec_ok_register:
  assumes "exec_ok sha (n, cs)" "slot_at cs t = None" "exec_slot c = Some (q, handle)"
    and "registry_insert (command_key q) e (exec_live n) = (Inr (), l)" "entry_of sha q handle e"
    and "exec_live n' = l"
  shows "exec_ok sha (n', cs(t := Some c))"
proof -
  have ok: "live_ok (exec_live n)" "slots_match sha (live_commands (exec_live n)) (slot_at cs)"
    using assms(1) by (simp_all add: exec_ok_at)
  have "btm_get (live_commands (exec_live n)) (command_key q) = None"
    using registry_insert_ok [OF ok(1), of "command_key q" e] assms(4) by simp
  then show ?thesis
    using slots_match_insert [OF ok(2) assms(2) _ assms(5)] registry_insert_state(2) [OF assms(4)]
      live_ok_insert [OF ok(1) assms(4)] assms(3,6)
    by (simp add: exec_ok_at slot_at_update)
qed

lemma exec_cancel_live: "exec_cancel x y z k n = (r, n') \<Longrightarrow> exec_live n' = exec_live n"
  by (auto simp: exec_cancel_def split: sum.splits option.splits)

lemma exec_ok_step:
  assumes "exec_threads_step sha b k x y" "exec_ok sha x"
  shows "exec_ok sha y"
  using assms(1)
proof cases
  case (invoke cs t n q)
  then show ?thesis using assms(2) by (auto intro!: exec_ok_same simp: slot_at_def)
next
  case (advance cs t c n c' n')
  have ok: "exec_ok sha (n, cs)" and at: "slot_at cs t = exec_slot c"
    using advance assms(2) by (simp_all add: slot_at_def)
  have "exec_ok sha (n', cs(t := Some c'))"
  proof (cases c)
    case (ExecAdmit q)
    then show ?thesis
      using advance(4) at ok by (auto intro!: exec_ok_same split: sum.splits)
  next
    case (ExecInsert q cmd handle)
    obtain r l where insert: "registry_insert (command_key q) (live_entry sha q cmd handle) (exec_live n) = (r, l)"
      by fastforce
    show ?thesis
    proof (cases r)
      case (Inl e)
      then show ?thesis
        using advance(4) ExecInsert insert at ok registry_insert_state(1) [OF insert] by (auto intro!: exec_ok_same)
    next
      case (Inr u)
      then show ?thesis
        using advance(4) ExecInsert insert at exec_ok_register [OF ok, of t c' q handle "live_entry sha q cmd handle" l n']
        by (auto simp: entry_of_def live_entry_def)
    qed
  next
    case (ExecBegin q cmd handle)
    then show ?thesis
      using advance(4) at ok by (auto intro!: exec_ok_same split: prod.splits sum.splits)
  next
    case (ExecAwait q cmd handle)
    then show ?thesis
      using advance(4) at ok by (auto intro!: exec_ok_same split: prod.splits)
  next
    case (ExecLeaving q handle r)
    then show ?thesis
      using advance(4) at exec_ok_release [OF ok, of t q handle "Some c'" n'] by (auto simp: release_slot_def)
  next
    case (ExecReturned r)
    then show ?thesis using advance(4) at ok by (auto intro!: exec_ok_same)
  qed
  with advance show ?thesis by simp
next
  case (abandon cs t c n)
  then obtain q handle where slot: "exec_slot c = Some (q, handle)" by (cases c) auto
  then show ?thesis
    using abandon assms(2) exec_ok_release [of sha n cs t q handle None "drop_slot c n"]
    by (simp add: drop_slot_def release_slot_def slot_at_def)
next
  case (cancel tenant provider operation token n r n' cs)
  then show ?thesis using assms(2) exec_cancel_live [OF cancel(3)] by (simp add: exec_ok_at)
next
  case (outside n cs h)
  then show ?thesis using assms(2) by (simp add: exec_ok_at)
qed

section \<open>Signals\<close>

fun exec_handle :: "exec_call \<Rightarrow> nat option" where
  "exec_handle (ExecInsert q c handle) = Some handle"
| "exec_handle (ExecBegin q c handle) = Some handle"
| "exec_handle (ExecAwait q c handle) = Some handle"
| "exec_handle (ExecLeaving q handle r) = Some handle"
| "exec_handle c = None"

text \<open>The command a signal can still reach.\<close>

fun listens :: "exec_call \<Rightarrow> (command_request \<times> nat) option" where
  "listens (ExecInsert q c handle) = Some (q, handle)"
| "listens (ExecBegin q c handle) = Some (q, handle)"
| "listens (ExecAwait q c handle) = Some (q, handle)"
| "listens c = None"

definition handle_at :: "(nat \<Rightarrow> exec_call option) \<Rightarrow> nat \<Rightarrow> nat option" where
  "handle_at cs t = Option.bind (cs t) exec_handle"

definition handles_ok :: "'h exec_node \<Rightarrow> (nat \<Rightarrow> nat option) \<Rightarrow> bool" where
  "handles_ok n at \<longleftrightarrow>
     (\<forall>t handle. at t = Some handle \<longrightarrow> handle < exec_next_handle n)
     \<and> (\<forall>t t' handle. at t = Some handle \<longrightarrow> at t' = Some handle \<longrightarrow> t = t')
     \<and> (\<forall>handle\<in>exec_signalled n. handle < exec_next_handle n)"

definition signals_ok :: "'h exec_threads \<Rightarrow> bool" where
  "signals_ok x \<longleftrightarrow> (case x of (n, cs) \<Rightarrow>
     handles_ok n (handle_at cs)
     \<and> (\<forall>t c q handle. cs t = Some c \<longrightarrow> listens c = Some (q, handle) \<longrightarrow> handle \<in> exec_signalled n
          \<longrightarrow> (command_key q, command_fencing_token q, handle) \<in> set (exec_cancels n)))"

lemma signals_ok_at: "signals_ok (n, cs) \<longleftrightarrow> handles_ok n (handle_at cs)
    \<and> (\<forall>t c q handle. cs t = Some c \<longrightarrow> listens c = Some (q, handle) \<longrightarrow> handle \<in> exec_signalled n
         \<longrightarrow> (command_key q, command_fencing_token q, handle) \<in> set (exec_cancels n))"
  by (simp add: signals_ok_def)

lemma signals_okD:
  "signals_ok (n, cs) \<Longrightarrow> cs t = Some c \<Longrightarrow> listens c = Some (q, handle) \<Longrightarrow> handle \<in> exec_signalled n
    \<Longrightarrow> (command_key q, command_fencing_token q, handle) \<in> set (exec_cancels n)"
  unfolding signals_ok_at by blast

lemma signals_ok_fresh: "signals_ok (fresh_exec_node h, \<lambda>_. None)"
  by (simp add: signals_ok_at handles_ok_def fresh_exec_node_def handle_at_def)

lemma handle_at_update: "handle_at (cs(t := x)) = (handle_at cs)(t := Option.bind x exec_handle)"
  by (auto simp: handle_at_def)

lemma listens_handle: "listens c = Some (q, handle) \<Longrightarrow> exec_handle c = Some handle"
  by (cases c) auto

lemma slot_handle: "exec_slot c = Some (q, handle) \<Longrightarrow> exec_handle c = Some handle"
  by (cases c) auto

text \<open>A call that keeps its handle or gives it up, and signals at most a handle of its own that it gives up.\<close>

lemma signals_ok_keep:
  assumes ok: "signals_ok (n, cs)" and at: "cs t = Some c"
    and handle: "Option.bind x exec_handle \<in> {None, exec_handle c}"
    and listen: "Option.bind x listens \<in> {None, listens c}"
    and node: "exec_next_handle n' = exec_next_handle n" "exec_cancels n' = exec_cancels n"
    and signal: "exec_signalled n' = exec_signalled n
      \<or> (\<exists>h. exec_handle c = Some h \<and> Option.bind x listens = None \<and> exec_signalled n' = insert h (exec_signalled n))"
  shows "signals_ok (n', cs(t := x))"
proof -
  have hs: "handles_ok n (handle_at cs)" using ok by (simp add: signals_ok_at)
  have own: "handle_at cs t = exec_handle c" using at by (simp add: handle_at_def)
  have sub: "handle_at (cs(t := x)) s = Some h \<Longrightarrow> handle_at cs s = Some h" for s h
    using handle own by (auto simp: handle_at_update split: if_splits)
  have "handles_ok n' (handle_at (cs(t := x)))"
    unfolding handles_ok_def node(1)
  proof (intro conjI allI impI ballI)
    show "h < exec_next_handle n" if "handle_at (cs(t := x)) s = Some h" for s h
      using hs sub [OF that] unfolding handles_ok_def by blast
    show "s = s'" if "handle_at (cs(t := x)) s = Some h" "handle_at (cs(t := x)) s' = Some h" for s s' h
      using hs sub [OF that(1)] sub [OF that(2)] unfolding handles_ok_def by blast
    show "h < exec_next_handle n" if "h \<in> exec_signalled n'" for h
      using hs own signal that unfolding handles_ok_def by fastforce
  qed
  moreover have "(command_key q, command_fencing_token q, h) \<in> set (exec_cancels n')"
    if call: "(cs(t := x)) s = Some c'" "listens c' = Some (q, h)" "h \<in> exec_signalled n'" for s c' q h
  proof (cases "s = t")
    case True
    then have "x = Some c'" using call(1) by simp
    then have "listens c = Some (q, h)" "h \<in> exec_signalled n"
      using listen call(2,3) signal by auto
    then show ?thesis using signals_okD [OF ok at] node(2) by simp
  next
    case False
    then have cs: "cs s = Some c'" using call(1) by simp
    have "exec_handle c \<noteq> Some h"
    proof
      assume "exec_handle c = Some h"
      moreover have "handle_at cs s = Some h" using cs listens_handle [OF call(2)] by (simp add: handle_at_def)
      ultimately show False using hs own False unfolding handles_ok_def by metis
    qed
    then have "h \<in> exec_signalled n" using call(3) signal by auto
    then show ?thesis using signals_okD [OF ok cs call(2)] node(2) by simp
  qed
  ultimately show ?thesis unfolding signals_ok_at by blast
qed

lemma signals_ok_admit:
  assumes ok: "signals_ok (n, cs)" and c: "exec_handle c = Some (exec_next_handle n)"
    "n' = n\<lparr> exec_next_handle := exec_next_handle n + 1 \<rparr>"
  shows "signals_ok (n', cs(t := Some c))"
proof -
  have hs: "handles_ok n (handle_at cs)" using ok by (simp add: signals_ok_at)
  then have fresh: "exec_next_handle n \<notin> exec_signalled n" "handle_at cs s \<noteq> Some (exec_next_handle n)" for s
    unfolding handles_ok_def by blast+
  have "handles_ok n' (handle_at (cs(t := Some c)))"
    using hs fresh(2) c unfolding handles_ok_def handle_at_update
    by (auto simp: less_Suc_eq split: if_splits)
  moreover have "(command_key q, command_fencing_token q, h) \<in> set (exec_cancels n')"
    if call: "(cs(t := Some c)) s = Some c'" "listens c' = Some (q, h)" "h \<in> exec_signalled n'" for s c' q h
  proof (cases "s = t")
    case True
    then have "h = exec_next_handle n" using call(1) listens_handle [OF call(2)] c(1) by simp
    then show ?thesis using call(3) fresh(1) c(2) by simp
  next
    case False
    then show ?thesis using signals_okD [OF ok _ call(2)] call(1,3) c(2) by simp
  qed
  ultimately show ?thesis unfolding signals_ok_at by blast
qed

lemma signals_ok_cancel:
  assumes ok: "signals_ok (n, cs)" and slots: "exec_ok sha (n, cs)"
    and step: "exec_cancel tenant provider operation token n = (r, n')"
  shows "signals_ok (n', cs)"
proof (cases "registry_lookup_cancel (tenant, provider, operation) token (exec_live n)")
  case (Inl e)
  then show ?thesis using step ok by (simp add: exec_cancel_def)
next
  case (Inr found)
  let ?key = "(tenant, provider, operation)"
  show ?thesis
  proof (cases found)
    case None
    then show ?thesis using Inr step ok by (simp add: exec_cancel_def)
  next
    case (Some handle)
    obtain e where e: "btm_get (live_commands (exec_live n)) ?key = Some e"
      "live_fencing_token e = token" "live_cancellation e = handle"
      using Inr Some by (auto simp: registry_lookup_cancel_def split: option.splits if_splits)
    have slot: "slots_match sha (live_commands (exec_live n)) (slot_at cs)"
      using slots by (simp add: exec_ok_at)
    obtain t q handle' where t: "slot_at cs t = Some (q, handle')" "command_key q = ?key" "entry_of sha q handle' e"
      using slots_match_entry [OF slot e(1)] by blast
    have own: "handle_at cs t = Some handle" "command_fencing_token q = token"
      using t(1,3) e(2,3) slot_handle by (auto simp: entry_of_def slot_at_def handle_at_def bind_eq_Some_conv)
    have hs: "handles_ok n (handle_at cs)" using ok by (simp add: signals_ok_at)
    have n': "exec_signalled n' = insert handle (exec_signalled n)" "exec_next_handle n' = exec_next_handle n"
      "exec_cancels n' = exec_cancels n @ [(?key, token, handle)]"
      using step Inr Some by (auto simp: exec_cancel_def)
    have "handles_ok n' (handle_at cs)"
      using hs own(1) n'(1,2) unfolding handles_ok_def by auto
    moreover have "(command_key q', command_fencing_token q', h) \<in> set (exec_cancels n')"
      if call: "cs s = Some c'" "listens c' = Some (q', h)" "h \<in> exec_signalled n'" for s c' q' h
    proof (cases "h = handle")
      case True
      then have "handle_at cs s = Some handle"
        using call(1) listens_handle [OF call(2)] by (simp add: handle_at_def)
      then have "s = t" using hs own(1) unfolding handles_ok_def by blast
      moreover obtain c where "cs t = Some c" "exec_slot c = Some (q, handle')"
        using t(1) by (auto simp: slot_at_def bind_eq_Some_conv)
      ultimately have "q' = q" using call(1,2) by (cases c) auto
      then show ?thesis using n'(3) t(2) own(2) True by simp
    next
      case False
      then have "h \<in> exec_signalled n" using call(3) n'(1) by simp
      then show ?thesis using signals_okD [OF ok call(1,2)] n'(3) by simp
    qed
    ultimately show ?thesis unfolding signals_ok_at by blast
  qed
qed

lemma signals_ok_step:
  assumes "exec_threads_step sha b k x y" "exec_ok sha x" "signals_ok x"
  shows "signals_ok y"
  using assms(1)
proof cases
  case (invoke cs t n q)
  have "handle_at (cs(t := Some (ExecAdmit q))) = handle_at cs"
    using invoke(3) by (auto simp: handle_at_def)
  then show ?thesis
    using invoke assms(3) by (auto simp: signals_ok_at split: if_splits)
next
  case (advance cs t c n c' n')
  have ok: "signals_ok (n, cs)" using advance assms(3) by simp
  have "signals_ok (n', cs(t := Some c'))"
  proof (cases c)
    case (ExecAdmit q)
    show ?thesis
    proof (cases "executor_admit sha b q")
      case (Inl e)
      then show ?thesis
        using advance(3,4) ExecAdmit by (auto intro!: signals_ok_keep [OF ok advance(3)])
    next
      case (Inr cmd)
      then show ?thesis
        using advance(4) ExecAdmit by (auto intro!: signals_ok_admit [OF ok])
    qed
  next
    case (ExecAwait q cmd handle)
    then show ?thesis
      using advance(4) by (intro signals_ok_keep [OF ok advance(3)]) (auto split: prod.splits if_splits)
  qed (use advance(4) in \<open>intro signals_ok_keep [OF ok advance(3)];
        auto simp: release_slot_def split: prod.splits sum.splits\<close>)+
  with advance show ?thesis by simp
next
  case (abandon cs t c n)
  then have ok: "signals_ok (n, cs)" using assms(3) by simp
  have "signals_ok (drop_slot c n, cs(t := None))"
    by (rule signals_ok_keep [OF ok abandon(3)])
      (auto simp: drop_slot_def release_slot_def split: option.splits)
  with abandon show ?thesis by simp
next
  case (cancel tenant provider operation token n r n' cs)
  then show ?thesis using signals_ok_cancel [OF _ _ cancel(3)] assms(2,3) by simp
next
  case (outside n cs h)
  then show ?thesis using assms(3) by (simp add: signals_ok_at handles_ok_def)
qed

definition exec_inv :: "digest \<Rightarrow> 'h exec_threads \<Rightarrow> bool" where
  "exec_inv sha x \<longleftrightarrow> exec_ok sha x \<and> signals_ok x"

interpretation commands: invariant_machine "(fresh_exec_node h, \<lambda>_. None)" "exec_threads_step sha b k" "exec_inv sha"
  for sha b k h
  by unfold_locales
    (auto simp: exec_inv_def intro: exec_ok_fresh signals_ok_fresh exec_ok_step signals_ok_step)

section \<open>An execution comes to its end\<close>

fun exec_rank :: "exec_call \<Rightarrow> nat" where
  "exec_rank (ExecAdmit q) = 5"
| "exec_rank (ExecInsert q c handle) = 4"
| "exec_rank (ExecBegin q c handle) = 3"
| "exec_rank (ExecAwait q c handle) = 2"
| "exec_rank (ExecLeaving q handle r) = 1"
| "exec_rank (ExecReturned r) = 0"

lemma exec_step_rank: "exec_rank c \<noteq> 0 \<Longrightarrow> exec_rank (fst (exec_step sha b k c n)) < exec_rank c"
  by (cases c) (auto split: sum.split prod.split)

text \<open>The sequential function is the steps, run one after the other.\<close>

lemma execute_steps:
  "((\<lambda>(c, n). exec_step sha b k c n) ^^ 5) (ExecAdmit q, n)
     = (ExecReturned (fst (sandbox_execute sha b k q n)), snd (sandbox_execute sha b k q n))"
  by (simp add: sandbox_execute_def eval_nat_numeral Let_def release_slot_def split: sum.split prod.split)

lemma exec_fold_returns:
  "exec_rank c \<le> length ns \<Longrightarrow> \<exists>r. fold (\<lambda>m c. fst (exec_step sha b k c m)) ns c = ExecReturned r"
proof (induction ns arbitrary: c)
  case Nil
  then show ?case by (cases c) simp_all
next
  case (Cons m ns)
  have "exec_rank (fst (exec_step sha b k c m)) \<le> length ns"
    using exec_step_rank [of c sha b k m] Cons.prems by (cases "exec_rank c = 0"; cases c) auto
  then show ?case using Cons.IH by simp
qed

lemma execute_releases:
  assumes "live_ok (exec_live n)"
  shows "exec_live (snd (sandbox_execute sha b k q n)) = exec_live n"
proof (cases "executor_admit sha b q")
  case (Inr c)
  obtain r l where insert: "registry_insert (command_key q) (live_entry sha q c (exec_next_handle n)) (exec_live n) = (r, l)"
    by fastforce
  show ?thesis
  proof (cases r)
    case (Inl e)
    then show ?thesis
      using \<open>executor_admit sha b q = Inr c\<close> insert registry_insert_state(1) [OF insert]
      by (simp add: sandbox_execute_def Let_def)
  next
    case (Inr u)
    then have "registry_remove (command_key q) l = exec_live n"
      using remove_after_insert [OF assms] insert by simp
    then show ?thesis
      using \<open>executor_admit sha b q = Inr c\<close> insert Inr
      by (auto simp: sandbox_execute_def Let_def release_slot_def split: prod.split sum.split)
  qed
qed (simp add: sandbox_execute_def)

end
