(* ===== verification/Command_Properties.thy ===== *)
theory Command_Properties
  imports Command_Threads
begin

text \<open>
  The properties of command execution: the canonical encoding, the admission, the process runner, the guest
  channel, the registry of live commands and the executions that share it.
\<close>

section \<open>A small node\<close>

definition demo_limits :: command_limits where
  "demo_limits = \<lparr> limit_timeout_ms = 1000, limit_stdout_bytes = 4, limit_stderr_bytes = 4,
     limit_cleanup_ms = 1000, limit_process_count = 1 \<rparr>"

definition echo_command :: "string \<Rightarrow> u64 \<Rightarrow> command_request" where
  "echo_command exe token =
     \<lparr> command_tenant_id_text = ''t'', command_provider_id_text = ''p'', command_workspace_id_text = ''w'',
       command_session_id_text = ''s'', command_sandbox_id_text = ''x'', command_binding_id_text = ''b'',
       command_fencing_token = token, command_operation_id_text = ''o'', command_executable = exe,
       command_arguments = [''hello''], command_working_directory = ''a'', command_environment = [],
       command_limits_of = demo_limits \<rparr>"

definition demo_admitted :: admitted_command where
  "demo_admitted = \<lparr> admitted_executable = ''echo'', admitted_arguments = [''hello''],
     admitted_working_directory = ''a'', admitted_environment = [], admitted_limits = demo_limits \<rparr>"

definition demo_boundary :: host_boundary where
  "demo_boundary = host_boundary_new {''echo''} {}"

text \<open>A host on which a signalled command is killed and any other exits, after writing five bytes.\<close>

definition demo_process :: "unit process_host" where
  "demo_process =
     \<lparr> host_is_file = (\<lambda>p h. p = ''/bin/echo''),
       host_canonicalize = (\<lambda>p h. if p = ''/bin/echo'' then Some [''bin'', ''echo'']
         else if p = ''/bin'' then Some [''bin''] else if p = ''/ws/a'' then Some [''ws'', ''a'']
         else if p = ''/ws'' then Some [''ws''] else None),
       host_blocking = ret True, host_spawn = (\<lambda>_ _ _ _. ret (Some (True, True))),
       host_await = (\<lambda>_ signalled. ret (if signalled then CancelledWait else ChildExited (Some 0))),
       host_kill = ret (), host_reap = (\<lambda>_. ret True),
       host_join = (\<lambda>_. ret (Some (ReadChunks [''he'', ''llo''], ReadChunks []))) \<rparr>"

definition demo_runner :: runner_config where
  "demo_runner = \<lparr> runner_roots = [''/sbin'', ''/bin''], runner_workspace = ''/ws'' \<rparr>"

definition demo_run_state :: "unit run_state_of" where
  "demo_run_state = \<lparr> run_host = (), run_log = [] \<rparr>"

definition demo_outcome :: "int option \<Rightarrow> command_outcome" where
  "demo_outcome code = \<lparr> outcome_exit_code = code, outcome_stdout = ''hell'', outcome_stderr = [],
     outcome_stdout_truncated = True, outcome_stderr_truncated = False \<rparr>"

section \<open>The fingerprint\<close>

text \<open>
  C27: The encoding under the fingerprint is injective: two executions are encoded alike only when they agree
  in every field, two cancellations likewise, and no execution is encoded as a cancellation. (Texts and lists
  shorter than 2^64, as everything in memory is.)
\<close>

theorem command_encoding_is_injective:
  assumes "request_fits q" "request_fits q'" "cancellation_fits c" "cancellation_fits c'"
  shows "(execution_encoding q = execution_encoding q' \<longleftrightarrow> q = q')
    \<and> (cancellation_encoding c = cancellation_encoding c' \<longleftrightarrow> c = c')
    \<and> execution_encoding q \<noteq> cancellation_encoding c"
  using execution_encoding_inject [OF assms(1,2)] cancellation_encoding_inject [OF assms(3,4)]
    execution_not_cancellation [OF assms(1,3)] by blast

definition demo_cancellation :: "u64 \<Rightarrow> command_cancellation" where
  "demo_cancellation token =
     \<lparr> cancel_tenant_id_text = ''t'', cancel_provider_id_text = ''p'', cancel_workspace_id_text = ''w'',
       cancel_session_id_text = ''s'', cancel_sandbox_id_text = ''x'', cancel_binding_id_text = ''b'',
       cancel_fencing_token = token, cancel_target_operation_id = ''o'', cancel_operation_id = ''c'' \<rparr>"

lemma command_encoding_is_injective_witness:
  "execution_encoding (echo_command ''echo'' 3) \<noteq> execution_encoding (echo_command ''cat'' 3)
    \<and> cancellation_encoding (demo_cancellation 3) \<noteq> cancellation_encoding (demo_cancellation 4)"
  using command_encoding_is_injective [of "echo_command ''echo'' 3" "echo_command ''cat'' 3"
      "demo_cancellation 3" "demo_cancellation 4"]
  by (simp add: request_fits_def cancellation_fits_def fits_u64_def echo_command_def demo_cancellation_def)

section \<open>Admission\<close>

text \<open>
  C21: A request the executor admits carries a token other than zero and limits within the bounds of the
  contract, names an executable on the allowlist and no separator in it, arguments without a line break or a
  zero byte, a working directory that, followed from any directory, leads nowhere but below it, and only
  environment names that are on the allowlist, not protected and not sensitive; the admitted command is the
  request's, unchanged. A request that fails the allowlists is a policy refusal, any other an invalid request.
\<close>

theorem admitted_command_is_confined:
  "(executor_admit sha b q = Inr c \<longrightarrow>
      command_fencing_token q \<noteq> 0 \<and> validate_limits (command_limits_of q) = Inr ()
      \<and> admitted_executable c = command_executable q \<and> admitted_executable c \<in> allowed_executables b
      \<and> (\<forall>x\<in>set (admitted_executable c). \<not> is_path_separator x)
      \<and> admitted_arguments c = command_arguments q
      \<and> (\<forall>a\<in>set (admitted_arguments c). \<not> contains_forbidden_byte a)
      \<and> admitted_working_directory c = command_working_directory q
      \<and> (\<forall>here. \<exists>below. walk here (split_on is_path_separator (admitted_working_directory c)) = Some (here @ below))
      \<and> admitted_environment c = command_environment q
      \<and> (\<forall>(name, v)\<in>set (admitted_environment c). name \<in> allowed_environment b
           \<and> \<not> is_protected_environment_name name \<and> \<not> is_sensitive_environment_name name)
      \<and> admitted_limits c = command_limits_of q)
    \<and> (executor_admit sha b q = Inl e \<longrightarrow>
      e = (if command_fencing_token q \<noteq> 0 \<and> validate_limits (command_limits_of q) = Inr ()
             \<and> validate_sandbox_command b (command_executable q) (command_arguments q)
                 (command_working_directory q) (command_environment q)
               \<in> {Inl EnvironmentSensitive, Inl EnvironmentProtected, Inl EnvironmentDenied, Inl ExecutableDenied}
           then PolicyDenied else InvalidRequest))"
proof (intro conjI impI)
  assume "executor_admit sha b q = Inr c"
  then have ok: "command_fencing_token q \<noteq> 0" "validate_limits (command_limits_of q) = Inr ()"
    "validate_sandbox_command b (command_executable q) (command_arguments q) (command_working_directory q)
       (command_environment q) = Inr ()"
    and c: "c = \<lparr> admitted_executable = command_executable q, admitted_arguments = command_arguments q,
        admitted_working_directory = command_working_directory q,
        admitted_environment = command_environment q, admitted_limits = command_limits_of q \<rparr>"
    by (simp_all add: executor_admit_ok)
  have cmd: "is_valid_executable (command_executable q) (max_executable_bytes (boundary_limits_of b))"
    "command_executable q \<in> allowed_executables b"
    "\<forall>a\<in>set (command_arguments q). \<not> contains_forbidden_byte a"
    "is_valid_logical_path (command_working_directory q) (max_working_directory_bytes (boundary_limits_of b))"
    "\<forall>x\<in>set (command_environment q). environment_entry_error b x = None"
    using ok(3) by (auto simp: command_accepted list_all_iff)
  have env: "\<forall>(name, v)\<in>set (command_environment q). name \<in> allowed_environment b
       \<and> \<not> is_protected_environment_name name \<and> \<not> is_sensitive_environment_name name"
    using cmd(5) environment_entry_accepted by fastforce
  have dir: "\<forall>here. \<exists>below. walk here (split_on is_path_separator (command_working_directory q)) = Some (here @ below)"
    using logical_path_stays [OF cmd(4)] by blast
  show "command_fencing_token q \<noteq> 0" "validate_limits (command_limits_of q) = Inr ()"
    using ok by simp_all
  show "admitted_executable c = command_executable q" "admitted_executable c \<in> allowed_executables b"
    "\<forall>x\<in>set (admitted_executable c). \<not> is_path_separator x"
    "admitted_arguments c = command_arguments q" "\<forall>a\<in>set (admitted_arguments c). \<not> contains_forbidden_byte a"
    using c cmd(1-3) executable_no_separator by simp_all
  show "admitted_working_directory c = command_working_directory q"
    "\<forall>here. \<exists>below. walk here (split_on is_path_separator (admitted_working_directory c)) = Some (here @ below)"
    using c dir by simp_all
  show "admitted_environment c = command_environment q"
    "\<forall>(name, v)\<in>set (admitted_environment c). name \<in> allowed_environment b
       \<and> \<not> is_protected_environment_name name \<and> \<not> is_sensitive_environment_name name"
    "admitted_limits c = command_limits_of q"
    using c env by simp_all
next
  assume "executor_admit sha b q = Inl e"
  then show "e = (if command_fencing_token q \<noteq> 0 \<and> validate_limits (command_limits_of q) = Inr ()
       \<and> validate_sandbox_command b (command_executable q) (command_arguments q)
           (command_working_directory q) (command_environment q)
         \<in> {Inl EnvironmentSensitive, Inl EnvironmentProtected, Inl EnvironmentDenied, Inl ExecutableDenied}
     then PolicyDenied else InvalidRequest)"
    by (auto simp: executor_admit_def admit_sandbox_command_def verify_request_fingerprint_def
        split: if_splits sum.splits)
qed

lemma demo_admits: "executor_admit sha demo_boundary (echo_command ''echo'' 3) = Inr demo_admitted"
  by (simp add: executor_admit_ok command_accepted limits_accepted echo_command_def demo_limits_def demo_admitted_def
      demo_boundary_def host_boundary_new_def default_boundary_limits_def is_valid_executable_def
      is_alphanumeric_def is_lower_def is_upper_def is_digit_def contains_forbidden_byte_def
      is_valid_logical_path_def is_path_separator_def is_valid_path_segment_def is_reserved_device_name_def
      to_ascii_uppercase_def Let_def contract_max_timeout_ms_def contract_max_cleanup_ms_def
      contract_max_output_bytes_def contract_max_process_count_def)

lemma admitted_command_is_confined_witness:
  "admitted_executable demo_admitted \<in> allowed_executables demo_boundary
    \<and> walk [''ws''] (split_on is_path_separator (admitted_working_directory demo_admitted)) = Some [''ws'', ''a'']"
  using admitted_command_is_confined [of id demo_boundary "echo_command ''echo'' 3" demo_admitted] demo_admits
  by (simp add: demo_admitted_def echo_command_def is_path_separator_def)

section \<open>The process runner\<close>

text \<open>
  C20: A run that answers with an outcome spawned exactly one child: an executable file whose canonical path
  lies under a configured root, in a canonical directory under the workspace root, with the admitted
  arguments and exactly the admitted environment. The child either exited, and the outcome carries its exit
  code and the bounded prefixes of its streams, or was killed, and then the kill was reaped and both streams
  were drained, and the outcome carries no exit code and the prefixes. An exited child whose streams are not
  drained in time keeps its exit code, but its captured output is dropped without a mark.
\<close>

theorem run_is_confined_and_settles:
  assumes "run_state (run_admitted p cfg c signalled) s = (Inr x, s')"
  shows "\<exists>exe dir tail t streams h0 h1 h2 h3. run_inside p cfg c exe dir
    \<and> run_log s' = run_log s @ Spawned exe (admitted_arguments c) dir (admitted_environment c) # tail
    \<and> (\<forall>exe args dir env. Spawned exe args dir env \<notin> set tail)
    \<and> run_state (host_await p (limit_timeout_ms (admitted_limits c)) signalled) h0 = (t, h1)
    \<and> run_state (host_join p (limit_cleanup_ms (admitted_limits c))) h2 = (streams, h3)
    \<and> outcome_explained (admitted_limits c) t streams tail x"
  by (rule run_admitted_outcome [OF assms])

lemma echo_run:
  "run_state (run_admitted demo_process demo_runner demo_admitted signalled) demo_run_state
     = (Inr (demo_outcome (if signalled then None else Some 0)),
        demo_run_state\<lparr> run_log := Spawned [''bin'', ''echo''] [''hello''] [''ws'', ''a''] []
          # (if signalled then [Killed, Reaped True] else []) @ [Drained True] \<rparr>)"
  by (simp add: run_admitted_def run_begin_def run_try validate_runner_def on_blocking_pool_def system_runs
      resolve_executable_def resolve_working_directory_def plain_names_def spawn_child_def run_finish_def
      Let_def kill_and_reap_def reap_within_def settle_outcome_def read_bounded_stream stream_bytes_def
      demo_process_def demo_runner_def demo_admitted_def demo_run_state_def demo_limits_def demo_outcome_def
      path_join_def is_path_separator_def environment_admitted_def del: read_bounded.simps)

lemma run_is_confined_and_settles_witness:
  "\<exists>exe dir. run_inside demo_process demo_runner demo_admitted exe dir"
  using run_is_confined_and_settles [OF echo_run [of False]] by blast

section \<open>The guest channel\<close>

text \<open>
  What the guest returns is cut to the declared bounds, whatever the channel delivers: each stream of the
  outcome is the prefix of the channel's within its bound, flagged exactly when the channel flagged it or it
  was cut, and the exit code is the channel's. A failure of the channel is reported as unavailable or
  internal. When the time limit elapses the outcome has no exit code and the executor signals the command.
\<close>

theorem guest_outcome_is_bounded:
  assumes "run_state (guest_finish channel c signalled) h = ((r, signal), h')"
  shows "\<exists>answer. run_state (channel c (limit_timeout_ms (admitted_limits c)) signalled) h = (answer, h')
    \<and> (signal \<longleftrightarrow> answer = None)
    \<and> (case answer of
         None \<Rightarrow> r = Inr no_exit_outcome
       | Some (Inl e) \<Rightarrow> r \<in> {Inl ProviderUnavailable, Inl InternalFailure}
       | Some (Inr x) \<Rightarrow> \<exists>y. r = Inr y \<and> outcome_exit_code y = outcome_exit_code x
           \<and> outcome_stdout y = take (unat (limit_stdout_bytes (admitted_limits c))) (outcome_stdout x)
           \<and> outcome_stderr y = take (unat (limit_stderr_bytes (admitted_limits c))) (outcome_stderr x)
           \<and> (outcome_stdout_truncated y \<longleftrightarrow> outcome_stdout_truncated x
                \<or> unat (limit_stdout_bytes (admitted_limits c)) < length (outcome_stdout x))
           \<and> (outcome_stderr_truncated y \<longleftrightarrow> outcome_stderr_truncated x
                \<or> unat (limit_stderr_bytes (admitted_limits c)) < length (outcome_stderr x)))"
  using assms
  by (auto simp: guest_finish_def bound_outcome_def truncate_buffer_def map_guest_channel_error_def
      split: prod.splits option.splits sum.splits guest_channel_error.splits if_splits)

definition demo_channel :: "unit guest_channel" where
  "demo_channel c timeout signalled = ret (Some (Inr \<lparr> outcome_exit_code = Some 0, outcome_stdout = ''hello'',
     outcome_stderr = [], outcome_stdout_truncated = False, outcome_stderr_truncated = False \<rparr>))"

lemma demo_guest_finish:
  "run_state (guest_finish demo_channel demo_admitted False) () = ((Inr (demo_outcome (Some 0)), False), ())"
  by (simp add: guest_finish_def demo_channel_def bound_outcome_def truncate_buffer_def demo_admitted_def
      demo_limits_def demo_outcome_def)

lemma guest_outcome_is_bounded_witness:
  "\<exists>answer. run_state (demo_channel demo_admitted 1000 False) () = (answer, ()) \<and> (False \<longleftrightarrow> answer = None)"
  using guest_outcome_is_bounded [OF demo_guest_finish]
  by (auto simp: demo_admitted_def demo_limits_def)

section \<open>The registry of live commands\<close>

abbreviation exec_reachable ::
  "digest \<Rightarrow> host_boundary \<Rightarrow> 'h command_backend \<Rightarrow> 'h \<Rightarrow> 'h exec_node \<Rightarrow> (nat \<Rightarrow> exec_call option) \<Rightarrow> bool" where
  "exec_reachable sha b k h n cs \<equiv>
     (exec_threads_step sha b k)\<^sup>*\<^sup>* (fresh_exec_node h, \<lambda>_. None) (n, cs)"

text \<open>
  C22: However executions and cancellations interleave and callers drop them, the live commands are exactly
  those of the executions that hold a slot, each under its own token, fingerprint and handle; no two
  executions hold a slot under the same tenant, provider and operation; and once none holds a slot the
  registry is as empty as it was at first, budgets included.
\<close>

theorem live_commands_are_the_executions:
  assumes "exec_reachable sha b k h n cs"
  shows "(\<forall>t q handle. slot_at cs t = Some (q, handle) \<longrightarrow>
       (\<exists>e. btm_get (live_commands (exec_live n)) (command_key q) = Some e \<and> entry_of sha q handle e))
    \<and> (\<forall>t t' q q' handle handle'. slot_at cs t = Some (q, handle) \<longrightarrow> slot_at cs t' = Some (q', handle')
         \<longrightarrow> command_key q = command_key q' \<longrightarrow> t = t')
    \<and> (\<forall>key e. btm_get (live_commands (exec_live n)) key = Some e \<longrightarrow>
         (\<exists>t q handle. slot_at cs t = Some (q, handle) \<and> command_key q = key))
    \<and> ((\<forall>t. slot_at cs t = None) \<longrightarrow> exec_live n = empty_live_state)"
proof -
  have "exec_ok sha (n, cs)" using commands.reachable_inv [OF assms] by (simp add: exec_inv_def)
  then have live: "live_ok (exec_live n)" and slots: "slots_match sha (live_commands (exec_live n)) (slot_at cs)"
    by (simp_all add: exec_ok_at)
  have "exec_live n = empty_live_state" if none: "\<forall>t. slot_at cs t = None"
  proof -
    have "btm_get (live_commands (exec_live n)) key = None" for key :: live_key
    proof (rule ccontr)
      assume "btm_get (live_commands (exec_live n)) key \<noteq> None"
      then obtain e where "btm_get (live_commands (exec_live n)) key = Some e" by auto
      from slots_match_entry [OF slots this] none show False by (metis option.distinct(1))
    qed
    then have "live_commands (exec_live n) = []"
      using live btm.entries_unique [of "live_commands (exec_live n)" "[]"] by (simp add: live_ok_def btm_ok_def)
    then show ?thesis using no_commands_no_budget [OF live] by simp
  qed
  then show ?thesis using slots unfolding slots_match_def by blast
qed

text \<open>
  C25: In every reachable registry at most 1024 commands are live and 128 of one tenant, at most \<open>2^30\<close> output
  bytes are reserved and \<open>2^28\<close> by one tenant. A new command is registered exactly when its key is free and
  all four bounds still hold with it; the reservation is never wrapped or saturated. A command whose key is
  live is a conflict when its fingerprint differs and in progress otherwise, and a refusal changes nothing.
\<close>

theorem registry_admits_within_budget:
  assumes "exec_reachable sha b k h n cs"
  defines "m \<equiv> live_commands (exec_live n)"
  shows "length m \<le> 1024 \<and> all_bytes m \<le> 2 ^ 30 \<and> (\<forall>t. tenant_count t m \<le> 128 \<and> tenant_bytes t m \<le> 2 ^ 28)
    \<and> (\<forall>key e. case registry_insert key e (exec_live n) of
         (Inr u, s) \<Rightarrow> btm_get m key = None \<and> live_commands s = btm_insert key e m
           \<and> unat (reserved_output_bytes s) = all_bytes m + unat (live_output_bytes e)
       | (Inl x, s) \<Rightarrow> s = exec_live n
           \<and> (case btm_get m key of
                Some old \<Rightarrow> x = (if live_fingerprint old = live_fingerprint e then OperationInProgress else IdempotencyConflict)
              | None \<Rightarrow> x = PolicyDenied
                  \<and> \<not> (length m < 1024 \<and> tenant_count (fst key) m < 128
                        \<and> all_bytes m + unat (live_output_bytes e) \<le> 2 ^ 30
                        \<and> tenant_bytes (fst key) m + unat (live_output_bytes e) \<le> 2 ^ 28)))"
proof (intro conjI allI)
  have live: "live_ok (exec_live n)"
    using commands.reachable_inv [OF assms(1)] by (simp add: exec_inv_def exec_ok_at)
  then show "length m \<le> 1024" "all_bytes m \<le> 2 ^ 30" "tenant_count t m \<le> 128" "tenant_bytes t m \<le> 2 ^ 28" for t
    by (simp_all add: live_ok_def m_def)
  fix key e
  obtain r s where insert: "registry_insert key e (exec_live n) = (r, s)" by fastforce
  note exact = registry_insert_ok [OF live, of key e, unfolded insert fst_conv, folded m_def]
  show "case registry_insert key e (exec_live n) of
         (Inr u, s) \<Rightarrow> btm_get m key = None \<and> live_commands s = btm_insert key e m
           \<and> unat (reserved_output_bytes s) = all_bytes m + unat (live_output_bytes e)
       | (Inl x, s) \<Rightarrow> s = exec_live n
           \<and> (case btm_get m key of
                Some old \<Rightarrow> x = (if live_fingerprint old = live_fingerprint e then OperationInProgress else IdempotencyConflict)
              | None \<Rightarrow> x = PolicyDenied
                  \<and> \<not> (length m < 1024 \<and> tenant_count (fst key) m < 128
                        \<and> all_bytes m + unat (live_output_bytes e) \<le> 2 ^ 30
                        \<and> tenant_bytes (fst key) m + unat (live_output_bytes e) \<le> 2 ^ 28))"
  proof (cases r)
    case (Inr u)
    have "unat (reserved_output_bytes s) = all_bytes (live_commands s)"
      using live_ok_insert [OF live insert] by (simp add: live_ok_def)
    moreover have "live_commands s = btm_insert key e m" "btm_get m key = None"
      using registry_insert_state(2) [OF insert] exact Inr by (simp_all add: m_def)
    ultimately show ?thesis using insert Inr insert_sums(3) by (simp add: add.commute)
  next
    case (Inl x)
    have "s = exec_live n" using registry_insert_state(1) [OF insert] Inl by simp
    moreover have "case btm_get m key of
        Some old \<Rightarrow> x = (if live_fingerprint old = live_fingerprint e then OperationInProgress else IdempotencyConflict)
      | None \<Rightarrow> x = PolicyDenied"
      using registry_insert_refusal [OF insert [unfolded Inl]] by (simp add: m_def)
    ultimately show ?thesis using insert Inl exact by (cases "btm_get m key") auto
  qed
qed

section \<open>Cancellation\<close>

text \<open>
  C24: A running command is told of a cancellation only when one was accepted that names its tenant, provider,
  operation and fencing token. A cancellation under another token of a live command is refused as stale and
  changes nothing, one that names no live command succeeds and changes nothing, and an accepted one signals
  exactly the handle of the execution that holds the slot.
\<close>

theorem cancellation_is_fenced:
  assumes "exec_reachable sha b k h n cs"
  shows "(\<forall>t c q handle. cs t = Some c \<longrightarrow> listens c = Some (q, handle) \<longrightarrow> handle \<in> exec_signalled n \<longrightarrow>
        (command_key q, command_fencing_token q, handle) \<in> set (exec_cancels n))
    \<and> (\<forall>t q handle token r n'. slot_at cs t = Some (q, handle) \<longrightarrow>
        exec_cancel (command_tenant_id_text q) (command_provider_id_text q) (command_operation_id_text q) token n = (r, n') \<longrightarrow>
        (if token = command_fencing_token q
         then r = Inr () \<and> exec_signalled n' = insert handle (exec_signalled n) \<and> exec_live n' = exec_live n
         else r = Inl CommandStaleFencing \<and> n' = n))
    \<and> (\<forall>tenant provider operation token.
        (\<nexists>t q handle. slot_at cs t = Some (q, handle) \<and> command_key q = (tenant, provider, operation)) \<longrightarrow>
        exec_cancel tenant provider operation token n = (Inr (), n))"
proof (intro conjI allI impI)
  have inv: "exec_ok sha (n, cs)" "signals_ok (n, cs)"
    using commands.reachable_inv [OF assms] by (simp_all add: exec_inv_def)
  then have slots: "slots_match sha (live_commands (exec_live n)) (slot_at cs)" by (simp add: exec_ok_at)
  show "(command_key q, command_fencing_token q, handle) \<in> set (exec_cancels n)"
    if "cs t = Some c" "listens c = Some (q, handle)" "handle \<in> exec_signalled n" for t c q handle
    using signals_okD [OF inv(2) that] .
  show "if token = command_fencing_token q
      then r = Inr () \<and> exec_signalled n' = insert handle (exec_signalled n) \<and> exec_live n' = exec_live n
      else r = Inl CommandStaleFencing \<and> n' = n"
    if held: "slot_at cs t = Some (q, handle)" and call: "exec_cancel (command_tenant_id_text q)
      (command_provider_id_text q) (command_operation_id_text q) token n = (r, n')" for t q handle token r n'
  proof -
    obtain e where "btm_get (live_commands (exec_live n)) (command_key q) = Some e" "entry_of sha q handle e"
      using slots_match_held [OF slots held] by blast
    then show ?thesis
      using call by (auto simp: exec_cancel_def registry_lookup_cancel_def command_key_def entry_of_def)
  qed
  show "exec_cancel tenant provider operation token n = (Inr (), n)"
    if free: "\<nexists>t q handle. slot_at cs t = Some (q, handle) \<and> command_key q = (tenant, provider, operation)"
    for tenant provider operation token
  proof -
    have "btm_get (live_commands (exec_live n)) (tenant, provider, operation) = None"
    proof (rule ccontr)
      assume "btm_get (live_commands (exec_live n)) (tenant, provider, operation) \<noteq> None"
      then obtain e where "btm_get (live_commands (exec_live n)) (tenant, provider, operation) = Some e" by auto
      from slots_match_entry [OF slots this] free show False by blast
    qed
    then show ?thesis by (simp add: exec_cancel_def registry_lookup_cancel_def)
  qed
qed

section \<open>An execution from end to end\<close>

text \<open>
  C26: An execution returns after five steps of its own, in whatever state the other executions leave the node
  at each of them. Run alone, its steps compute the sequential function, whose result is the refusal of the
  admission or of the registry or the backend's own, and which gives its slot back on every path.
\<close>

theorem execution_returns_and_releases:
  assumes "live_ok (exec_live n)"
  shows "(\<forall>ns. length ns = 5 \<longrightarrow> (\<exists>r. fold (\<lambda>m c. fst (exec_step sha b k c m)) ns (ExecAdmit q) = ExecReturned r))
    \<and> ((\<lambda>(c, n). exec_step sha b k c n) ^^ 5) (ExecAdmit q, n)
        = (ExecReturned (fst (sandbox_execute sha b k q n)), snd (sandbox_execute sha b k q n))
    \<and> exec_live (snd (sandbox_execute sha b k q n)) = exec_live n"
proof (intro conjI allI impI)
  show "\<exists>r. fold (\<lambda>m c. fst (exec_step sha b k c m)) ns (ExecAdmit q) = ExecReturned r"
    if "length ns = 5" for ns
    using exec_fold_returns [of "ExecAdmit q" ns] that by simp
  show "((\<lambda>(c, n). exec_step sha b k c n) ^^ 5) (ExecAdmit q, n)
        = (ExecReturned (fst (sandbox_execute sha b k q n)), snd (sandbox_execute sha b k q n))"
    by (rule execute_steps)
  show "exec_live (snd (sandbox_execute sha b k q n)) = exec_live n"
    by (rule execute_releases [OF assms])
qed

definition demo_backend :: "unit run_state_of command_backend" where
  "demo_backend = local_backend demo_process demo_runner"

lemma execution_returns_and_releases_witness:
  "exec_live (snd (sandbox_execute id demo_boundary demo_backend (echo_command ''echo'' 3)
     (fresh_exec_node demo_run_state))) = exec_live (fresh_exec_node demo_run_state)"
  by (rule execution_returns_and_releases [THEN conjunct2, THEN conjunct2]) (simp add: fresh_exec_node_def)

section \<open>A run of the node\<close>

definition demo_live :: live_state where
  "demo_live = snd (registry_insert (command_key (echo_command ''echo'' 3))
     (live_entry id (echo_command ''echo'' 3) demo_admitted 0) empty_live_state)"

definition demo_exec_node :: "unit run_state_of exec_node" where
  "demo_exec_node = (fresh_exec_node demo_run_state)\<lparr> exec_next_handle := 1, exec_live := demo_live \<rparr>"

definition demo_exec_calls :: "nat \<Rightarrow> exec_call option" where
  "demo_exec_calls = (\<lambda>_. None)(0 := Some (ExecBegin (echo_command ''echo'' 3) demo_admitted 0))"

lemma echo_insert:
  "registry_insert (command_key (echo_command ''echo'' 3)) (live_entry id (echo_command ''echo'' 3) demo_admitted 0)
     empty_live_state = (Inr (), demo_live)"
proof -
  have "fst (registry_insert (command_key (echo_command ''echo'' 3))
      (live_entry id (echo_command ''echo'' 3) demo_admitted 0) empty_live_state) = Inr ()"
    by (simp add: registry_insert_ok empty_live_state_def [THEN arg_cong [where f = live_commands]] tenant_count_def
        tenant_bytes_def all_bytes_def live_entry_def demo_admitted_def demo_limits_def u64_saturating_add_unat)
  then show ?thesis unfolding demo_live_def by (metis prod.collapse)
qed

lemma echo_reachable: "exec_reachable id demo_boundary demo_backend demo_run_state demo_exec_node demo_exec_calls"
proof -
  let ?step = "exec_threads_step id demo_boundary demo_backend" and ?q = "echo_command ''echo'' 3"
  have "?step (fresh_exec_node demo_run_state, \<lambda>_. None) (fresh_exec_node demo_run_state, (\<lambda>_. None)(0 := Some (ExecAdmit ?q)))"
    by (rule exec_threads_step.invoke) simp
  moreover have "?step (fresh_exec_node demo_run_state, (\<lambda>_. None)(0 := Some (ExecAdmit ?q)))
      ((fresh_exec_node demo_run_state)\<lparr> exec_next_handle := 1 \<rparr>,
       ((\<lambda>_. None)(0 := Some (ExecAdmit ?q)))(0 := Some (ExecInsert ?q demo_admitted 0)))"
    by (rule exec_threads_step.advance [where c = "ExecAdmit ?q"]) (simp_all add: demo_admits fresh_exec_node_def)
  moreover have "?step ((fresh_exec_node demo_run_state)\<lparr> exec_next_handle := 1 \<rparr>,
       ((\<lambda>_. None)(0 := Some (ExecAdmit ?q)))(0 := Some (ExecInsert ?q demo_admitted 0)))
      (demo_exec_node, ((\<lambda>_. None)(0 := Some (ExecAdmit ?q), 0 := Some (ExecInsert ?q demo_admitted 0)))
        (0 := Some (ExecBegin ?q demo_admitted 0)))"
    by (rule exec_threads_step.advance [where c = "ExecInsert ?q demo_admitted 0"])
      (simp_all add: echo_insert fresh_exec_node_def demo_exec_node_def)
  ultimately show ?thesis by (simp add: demo_exec_calls_def)
qed

lemma echo_slot: "slot_at demo_exec_calls 0 = Some (echo_command ''echo'' 3, 0)"
  by (simp add: slot_at_def demo_exec_calls_def)

lemma live_commands_are_the_executions_witness:
  "\<exists>e. btm_get (live_commands (exec_live demo_exec_node)) (command_key (echo_command ''echo'' 3)) = Some e
     \<and> entry_of id (echo_command ''echo'' 3) 0 e"
  using live_commands_are_the_executions [OF echo_reachable] echo_slot by blast

lemma registry_admits_within_budget_witness:
  "length (live_commands (exec_live demo_exec_node)) \<le> 1024"
  using registry_admits_within_budget [OF echo_reachable] by blast

lemma demo_key: "command_tenant_id_text (echo_command x k) = ''t''" "command_provider_id_text (echo_command x k) = ''p''"
  "command_operation_id_text (echo_command x k) = ''o''" "command_fencing_token (echo_command x k) = k"
  by (simp_all add: echo_command_def)

lemma cancellation_is_fenced_witness:
  "exec_cancel ''t'' ''p'' ''o'' 2 demo_exec_node = (Inl CommandStaleFencing, demo_exec_node)"
proof -
  obtain r n' where call: "exec_cancel ''t'' ''p'' ''o'' 2 demo_exec_node = (r, n')" by fastforce
  show ?thesis
    using cancellation_is_fenced [OF echo_reachable, THEN conjunct2, THEN conjunct1, rule_format, OF echo_slot,
        unfolded demo_key, OF call] call by simp
qed

end
