(* ===== verification/Lane_Prelude.thy ===== *)
theory Lane_Prelude
  imports Sandbox_Prelude
begin

text \<open>
  What the records of the launch lane share (crates \<open>launch-authority\<close>, \<open>worker-authority\<close>,
  \<open>build-authority\<close> and \<open>snapshot-authority\<close>): a reference is an opaque text of at most 128 bytes, and a
  record moves along a closed table, never changes its identity and never runs back in time. An operation
  maps a record to an error or to the new record; a refused operation leaves the record as it was.
\<close>

definition max_record_id_length :: nat where "max_record_id_length = 128"

definition validated_reference :: "string \<Rightarrow> bool" where
  "validated_reference v \<longleftrightarrow> opaque_text max_record_id_length v"

text \<open>The contract of a lifecycle-tracked record; \<open>step\<close> is one accepted operation.\<close>

locale tracked_record = closed_table can terminal
  for can :: "'s \<Rightarrow> 's \<Rightarrow> bool" and terminal :: "'s \<Rightarrow> bool" +
  fixes step :: "'r \<Rightarrow> 'r \<Rightarrow> bool"
    and state :: "'r \<Rightarrow> 's"
    and identity :: "'r \<Rightarrow> 'i"
    and updated :: "'r \<Rightarrow> u64"
  assumes step_moves: "step r r' \<Longrightarrow> can (state r) (state r')"
    and step_identity: "step r r' \<Longrightarrow> identity r' = identity r"
    and step_time: "step r r' \<Longrightarrow> updated r \<le> updated r'"
begin

lemma history: "step\<^sup>*\<^sup>* r r' \<Longrightarrow> can\<^sup>*\<^sup>* (state r) (state r') \<and> identity r' = identity r \<and> updated r \<le> updated r'"
proof (induction rule: rtranclp_induct)
  case (step s t)
  then show ?case
    using step_moves [OF step(2)] step_identity [OF step(2)] step_time [OF step(2)]
    by (auto intro: rtranclp.rtrancl_into_rtrancl order_trans)
qed simp

lemma terminal_record_is_final: "step\<^sup>*\<^sup>* r r' \<Longrightarrow> terminal (state r) \<Longrightarrow> r' = r"
  by (induction rule: converse_rtranclp_induct) (use step_moves terminal_closed in blast)+

end

text \<open>An invariant of a record that starts in a fresh one and is kept by every accepted operation.\<close>

locale record_invariant = tracked_record can terminal step state identity updated
  for can :: "'s \<Rightarrow> 's \<Rightarrow> bool" and terminal and step :: "'r \<Rightarrow> 'r \<Rightarrow> bool"
    and state and identity :: "'r \<Rightarrow> 'i" and updated +
  fixes fresh :: "'r \<Rightarrow> bool"
    and inv :: "'r \<Rightarrow> bool"
  assumes fresh_inv: "fresh r \<Longrightarrow> inv r"
    and step_inv: "step r r' \<Longrightarrow> inv r \<Longrightarrow> inv r'"
begin

lemma record_inv: "step\<^sup>*\<^sup>* r r' \<Longrightarrow> fresh r \<Longrightarrow> inv r'"
  by (induction rule: rtranclp_induct) (auto intro: fresh_inv step_inv)

end

end
