(* ===== verification/Launch_Records.thy ===== *)
theory Launch_Records
  imports Lane_Prelude
begin

text \<open>
  The launch plan (\<open>launch.rs\<close>, \<open>state.rs\<close> of crate \<open>sdkwork-intelligence-sandbox-launch-authority\<close>) and the
  worker execution (\<open>execution.rs\<close>, \<open>state.rs\<close> of crate \<open>sdkwork-intelligence-sandbox-worker-authority\<close>).
\<close>

section \<open>Launch plans\<close>

datatype launch_plan_state = PlanPlanned | PlanConsumed | PlanExpired | PlanQuarantined

fun plan_state_as_str :: "launch_plan_state \<Rightarrow> string" where
  "plan_state_as_str PlanPlanned = ''planned''"
| "plan_state_as_str PlanConsumed = ''consumed''"
| "plan_state_as_str PlanExpired = ''expired''"
| "plan_state_as_str PlanQuarantined = ''quarantined''"

definition plan_state_parse :: "string \<Rightarrow> launch_plan_state option" where
  "plan_state_parse s =
     (if s = ''planned'' then Some PlanPlanned else if s = ''consumed'' then Some PlanConsumed
      else if s = ''expired'' then Some PlanExpired else if s = ''quarantined'' then Some PlanQuarantined
      else None)"

definition plan_can_transition_to :: "launch_plan_state \<Rightarrow> launch_plan_state \<Rightarrow> bool" where
  "plan_can_transition_to from next \<longleftrightarrow> (from, next) \<in> set
     [(PlanPlanned, PlanConsumed), (PlanPlanned, PlanExpired), (PlanPlanned, PlanQuarantined)]"

definition plan_is_terminal :: "launch_plan_state \<Rightarrow> bool" where
  "plan_is_terminal s \<longleftrightarrow> s \<in> set [PlanConsumed, PlanExpired, PlanQuarantined]"

datatype launch_error = LaunchInvalidPlan | LaunchIllegalTransition

record launch_plan =
  plan_id :: string
  plan_template_version_ref :: string
  plan_pool_claim_ref :: string
  plan_identity_evidence_ref :: string
  plan_state :: launch_plan_state
  plan_planned_at :: u64
  plan_updated_at :: u64

definition plan_new :: "string \<Rightarrow> string \<Rightarrow> string \<Rightarrow> string \<Rightarrow> u64 \<Rightarrow> launch_error + launch_plan" where
  "plan_new i version claim evidence now =
     (if \<not> list_all validated_reference [i, version, claim, evidence] then Inl LaunchInvalidPlan
      else Inr \<lparr> plan_id = i, plan_template_version_ref = version, plan_pool_claim_ref = claim,
                 plan_identity_evidence_ref = evidence, plan_state = PlanPlanned,
                 plan_planned_at = now, plan_updated_at = now \<rparr>)"

definition plan_transition :: "launch_plan_state \<Rightarrow> u64 \<Rightarrow> launch_plan \<Rightarrow> launch_error + launch_plan" where
  "plan_transition next now p =
     (if now < plan_updated_at p then Inl LaunchInvalidPlan
      else if \<not> plan_can_transition_to (plan_state p) next then Inl LaunchIllegalTransition
      else Inr (p\<lparr> plan_state := next, plan_updated_at := now \<rparr>))"

definition plan_mark_consumed :: "u64 \<Rightarrow> launch_plan \<Rightarrow> launch_error + launch_plan" where
  "plan_mark_consumed = plan_transition PlanConsumed"
definition plan_expire :: "u64 \<Rightarrow> launch_plan \<Rightarrow> launch_error + launch_plan" where
  "plan_expire = plan_transition PlanExpired"
definition plan_quarantine :: "u64 \<Rightarrow> launch_plan \<Rightarrow> launch_error + launch_plan" where
  "plan_quarantine = plan_transition PlanQuarantined"

definition plan_step :: "launch_plan \<Rightarrow> launch_plan \<Rightarrow> bool" where
  "plan_step p p' \<longleftrightarrow> (\<exists>now. Inr p' \<in> {plan_mark_consumed now p, plan_expire now p, plan_quarantine now p})"

definition plan_identity :: "launch_plan \<Rightarrow> string \<times> string \<times> string \<times> string \<times> u64" where
  "plan_identity p = (plan_id p, plan_template_version_ref p, plan_pool_claim_ref p,
     plan_identity_evidence_ref p, plan_planned_at p)"

lemma plan_transition_ok:
  "plan_transition next now p = Inr p' \<longleftrightarrow> plan_updated_at p \<le> now \<and> plan_can_transition_to (plan_state p) next
     \<and> p' = p\<lparr> plan_state := next, plan_updated_at := now \<rparr>"
  by (auto simp: plan_transition_def)

lemmas plan_operations = plan_mark_consumed_def plan_expire_def plan_quarantine_def

lemma plan_stepE:
  assumes "plan_step p p'"
  obtains goal now where "plan_updated_at p \<le> now" "plan_can_transition_to (plan_state p) goal"
    "p' = p\<lparr> plan_state := goal, plan_updated_at := now \<rparr>"
  using assms unfolding plan_step_def plan_operations by (force simp: plan_transition_ok eq_commute [of "Inr p'"])

interpretation plan_state_names: wire_names plan_state_as_str plan_state_parse
proof
  show "plan_state_parse (plan_state_as_str x) = Some x" for x by (cases x) (simp_all add: plan_state_parse_def)
  show "plan_state_parse s = Some x \<Longrightarrow> plan_state_as_str x = s" for s x
    by (auto simp: plan_state_parse_def split: if_splits)
qed

interpretation plans: tracked_record plan_can_transition_to plan_is_terminal plan_step plan_state plan_identity
  plan_updated_at
proof
  show "plan_is_terminal s \<Longrightarrow> \<not> plan_can_transition_to s t" for s t
    by (auto simp: plan_is_terminal_def plan_can_transition_to_def)
qed (auto elim!: plan_stepE simp: plan_identity_def)

section \<open>Worker executions\<close>

datatype execution_state =
  ExecutionAccepted | ExecutionProvisioning | ExecutionStarting | ExecutionStarted | ExecutionFailed
| ExecutionQuarantined

fun execution_state_as_str :: "execution_state \<Rightarrow> string" where
  "execution_state_as_str ExecutionAccepted = ''accepted''"
| "execution_state_as_str ExecutionProvisioning = ''provisioning''"
| "execution_state_as_str ExecutionStarting = ''starting''"
| "execution_state_as_str ExecutionStarted = ''started''"
| "execution_state_as_str ExecutionFailed = ''failed''"
| "execution_state_as_str ExecutionQuarantined = ''quarantined''"

definition execution_state_parse :: "string \<Rightarrow> execution_state option" where
  "execution_state_parse s =
     (if s = ''accepted'' then Some ExecutionAccepted else if s = ''provisioning'' then Some ExecutionProvisioning
      else if s = ''starting'' then Some ExecutionStarting else if s = ''started'' then Some ExecutionStarted
      else if s = ''failed'' then Some ExecutionFailed
      else if s = ''quarantined'' then Some ExecutionQuarantined else None)"

definition execution_can_transition_to :: "execution_state \<Rightarrow> execution_state \<Rightarrow> bool" where
  "execution_can_transition_to from next \<longleftrightarrow> (from, next) \<in> set
     [(ExecutionAccepted, ExecutionProvisioning), (ExecutionAccepted, ExecutionQuarantined),
      (ExecutionProvisioning, ExecutionStarting), (ExecutionProvisioning, ExecutionFailed),
      (ExecutionProvisioning, ExecutionQuarantined), (ExecutionStarting, ExecutionStarted),
      (ExecutionStarting, ExecutionFailed), (ExecutionStarting, ExecutionQuarantined)]"

definition execution_is_terminal :: "execution_state \<Rightarrow> bool" where
  "execution_is_terminal s \<longleftrightarrow> s \<in> set [ExecutionStarted, ExecutionFailed, ExecutionQuarantined]"

datatype worker_error = ExecutionInvalidRecord | ExecutionIllegalTransition

record worker_execution =
  execution_id :: string
  execution_plan_ref :: string
  execution_allocation_ref :: "string option"
  execution_start_ref :: "string option"
  execution_state :: execution_state
  execution_accepted_at :: u64
  execution_updated_at :: u64

definition execution_new :: "string \<Rightarrow> string \<Rightarrow> u64 \<Rightarrow> worker_error + worker_execution" where
  "execution_new i plan now =
     (if \<not> list_all validated_reference [i, plan] then Inl ExecutionInvalidRecord
      else Inr \<lparr> execution_id = i, execution_plan_ref = plan, execution_allocation_ref = None,
                 execution_start_ref = None, execution_state = ExecutionAccepted,
                 execution_accepted_at = now, execution_updated_at = now \<rparr>)"

definition execution_transition :: "execution_state \<Rightarrow> u64 \<Rightarrow> worker_execution \<Rightarrow> worker_error + worker_execution" where
  "execution_transition next now x =
     (if now < execution_updated_at x then Inl ExecutionInvalidRecord
      else if \<not> execution_can_transition_to (execution_state x) next then Inl ExecutionIllegalTransition
      else Inr (x\<lparr> execution_state := next, execution_updated_at := now \<rparr>))"

definition record_provisioning :: "string \<Rightarrow> u64 \<Rightarrow> worker_execution \<Rightarrow> worker_error + worker_execution" where
  "record_provisioning allocation now x =
     (if now < execution_updated_at x then Inl ExecutionInvalidRecord
      else if \<not> execution_can_transition_to (execution_state x) ExecutionProvisioning
        then Inl ExecutionIllegalTransition
      else if \<not> validated_reference allocation then Inl ExecutionInvalidRecord
      else Inr (x\<lparr> execution_allocation_ref := Some allocation, execution_state := ExecutionProvisioning,
                  execution_updated_at := now \<rparr>))"

definition record_starting :: "string \<Rightarrow> u64 \<Rightarrow> worker_execution \<Rightarrow> worker_error + worker_execution" where
  "record_starting start now x =
     (if now < execution_updated_at x then Inl ExecutionInvalidRecord
      else if \<not> execution_can_transition_to (execution_state x) ExecutionStarting
        then Inl ExecutionIllegalTransition
      else if \<not> validated_reference start then Inl ExecutionInvalidRecord
      else Inr (x\<lparr> execution_start_ref := Some start, execution_state := ExecutionStarting,
                  execution_updated_at := now \<rparr>))"

definition record_started :: "u64 \<Rightarrow> worker_execution \<Rightarrow> worker_error + worker_execution" where
  "record_started = execution_transition ExecutionStarted"
definition record_failed :: "u64 \<Rightarrow> worker_execution \<Rightarrow> worker_error + worker_execution" where
  "record_failed = execution_transition ExecutionFailed"
definition execution_quarantine :: "u64 \<Rightarrow> worker_execution \<Rightarrow> worker_error + worker_execution" where
  "execution_quarantine = execution_transition ExecutionQuarantined"

definition execution_step :: "worker_execution \<Rightarrow> worker_execution \<Rightarrow> bool" where
  "execution_step x x' \<longleftrightarrow> (\<exists>now ref. Inr x' \<in> {record_provisioning ref now x, record_starting ref now x,
     record_started now x, record_failed now x, execution_quarantine now x})"

definition execution_identity :: "worker_execution \<Rightarrow> string \<times> string \<times> u64" where
  "execution_identity x = (execution_id x, execution_plan_ref x, execution_accepted_at x)"

definition execution_fresh :: "worker_execution \<Rightarrow> bool" where
  "execution_fresh x \<longleftrightarrow> (\<exists>i plan now. execution_new i plan now = Inr x)"

text \<open>The references a state has earned.\<close>

definition execution_earned :: "worker_execution \<Rightarrow> bool" where
  "execution_earned x \<longleftrightarrow>
     (case execution_state x of
        ExecutionAccepted \<Rightarrow> execution_allocation_ref x = None \<and> execution_start_ref x = None
      | ExecutionProvisioning \<Rightarrow> execution_allocation_ref x \<noteq> None \<and> execution_start_ref x = None
      | ExecutionStarting \<Rightarrow> execution_allocation_ref x \<noteq> None \<and> execution_start_ref x \<noteq> None
      | ExecutionStarted \<Rightarrow> execution_allocation_ref x \<noteq> None \<and> execution_start_ref x \<noteq> None
      | ExecutionFailed \<Rightarrow> execution_allocation_ref x \<noteq> None
      | ExecutionQuarantined \<Rightarrow> execution_start_ref x \<noteq> None \<longrightarrow> execution_allocation_ref x \<noteq> None)
     \<and> (\<forall>r. execution_allocation_ref x = Some r \<or> execution_start_ref x = Some r \<longrightarrow> validated_reference r)"

lemma execution_stepE:
  assumes "execution_step x x'"
  obtains
    (provisioning) now ref where "execution_updated_at x \<le> now" "execution_state x = ExecutionAccepted"
      "validated_reference ref"
      "x' = x\<lparr> execution_allocation_ref := Some ref, execution_state := ExecutionProvisioning, execution_updated_at := now \<rparr>"
  | (starting) now ref where "execution_updated_at x \<le> now" "execution_state x = ExecutionProvisioning"
      "validated_reference ref"
      "x' = x\<lparr> execution_start_ref := Some ref, execution_state := ExecutionStarting, execution_updated_at := now \<rparr>"
  | (ending) goal now where "execution_updated_at x \<le> now" "execution_can_transition_to (execution_state x) goal"
      "execution_is_terminal goal" "x' = x\<lparr> execution_state := goal, execution_updated_at := now \<rparr>"
proof -
  obtain now ref where "Inr x' = record_provisioning ref now x \<or> Inr x' = record_starting ref now x
      \<or> (\<exists>goal. execution_is_terminal goal \<and> Inr x' = execution_transition goal now x)"
    using assms by (auto simp: execution_step_def record_started_def record_failed_def execution_quarantine_def
        execution_is_terminal_def)
  then show thesis
  proof (elim disjE exE conjE)
    assume "Inr x' = record_provisioning ref now x"
    then show thesis
      by (intro provisioning [of now ref]; cases "execution_state x")
        (auto simp: record_provisioning_def execution_can_transition_to_def split: if_splits)
  next
    assume "Inr x' = record_starting ref now x"
    then show thesis
      by (intro starting [of now ref]; cases "execution_state x")
        (auto simp: record_starting_def execution_can_transition_to_def split: if_splits)
  next
    fix goal assume "execution_is_terminal goal" "Inr x' = execution_transition goal now x"
    then show thesis by (intro ending [of now goal]) (auto simp: execution_transition_def split: if_splits)
  qed
qed

interpretation execution_state_names: wire_names execution_state_as_str execution_state_parse
proof
  show "execution_state_parse (execution_state_as_str x) = Some x" for x
    by (cases x) (simp_all add: execution_state_parse_def)
  show "execution_state_parse s = Some x \<Longrightarrow> execution_state_as_str x = s" for s x
    by (auto simp: execution_state_parse_def split: if_splits)
qed

text \<open>A reference is always a valid text; a record that ends keeps the references it had.\<close>

definition execution_ended :: "worker_execution \<Rightarrow> bool" where
  "execution_ended x \<longleftrightarrow> execution_state x \<in> {ExecutionFailed, ExecutionQuarantined}"

definition execution_refs :: "worker_execution \<Rightarrow> string option \<times> string option" where
  "execution_refs x = (execution_allocation_ref x, execution_start_ref x)"

lemma execution_end_keeps_refs:
  assumes "execution_step x x'" "execution_ended x'"
  shows "execution_refs x' = execution_refs x \<and> \<not> execution_is_terminal (execution_state x)
    \<and> (execution_state x' = ExecutionFailed \<longrightarrow> execution_state x \<noteq> ExecutionAccepted)"
  using assms
  by (elim execution_stepE; cases "execution_state x")
    (auto simp: execution_ended_def execution_refs_def execution_can_transition_to_def execution_is_terminal_def)

lemma execution_earned_step: "execution_step x x' \<Longrightarrow> execution_earned x \<Longrightarrow> execution_earned x'"
  by (erule execution_stepE; cases "execution_state x")
    (auto simp: execution_earned_def execution_can_transition_to_def execution_is_terminal_def)

interpretation executions: record_invariant execution_can_transition_to execution_is_terminal execution_step
  execution_state execution_identity execution_updated_at execution_fresh execution_earned
proof
  show "execution_is_terminal s \<Longrightarrow> \<not> execution_can_transition_to s t" for s t
    by (auto simp: execution_is_terminal_def execution_can_transition_to_def)
  show "execution_fresh r \<Longrightarrow> execution_earned r" for r
    by (auto simp: execution_fresh_def execution_new_def execution_earned_def split: if_splits)
  show "execution_step r r' \<Longrightarrow> execution_can_transition_to (execution_state r) (execution_state r')" for r r'
    by (erule execution_stepE) (auto simp: execution_can_transition_to_def)
  show "execution_step r r' \<Longrightarrow> execution_earned r \<Longrightarrow> execution_earned r'" for r r'
    by (rule execution_earned_step)
qed (auto elim!: execution_stepE simp: execution_identity_def)

end
