(* ===== verification/Template_Registry.thy ===== *)
theory Template_Registry
  imports Lane_Prelude
begin

text \<open>
  The template authority (crate \<open>sdkwork-intelligence-sandbox-template-authority\<close>): identifiers, file layers,
  definitions, versions, build inputs, the cache policy and the bounded registry that resolves the start
  command of a version. An identifier is the text it holds. Its constants that authorise nothing
  (\<open>authority.rs\<close>) are not repeated.
\<close>

section \<open>Bounds and errors\<close>

definition max_template_id_length :: nat where "max_template_id_length = 128"
definition max_template_version_length :: nat where "max_template_version_length = 64"
definition max_template_file_layers :: nat where "max_template_file_layers = 64"
definition max_template_env_count :: nat where "max_template_env_count = 128"
definition max_template_env_key_length :: nat where "max_template_env_key_length = 128"
definition max_template_env_value_length :: nat where "max_template_env_value_length = 4096"
definition max_template_start_command_length :: nat where "max_template_start_command_length = 8192"
definition max_template_name_count :: nat where "max_template_name_count = 32"
definition max_template_name_length :: nat where "max_template_name_length = 64"
definition max_template_eviction_policy_length :: nat where "max_template_eviction_policy_length = 256"

datatype template_error =
  TemplateInvalidDefinition | TemplateInvalidVersion | TemplateInvalidBuildInput | TemplateInvalidCachePolicy

section \<open>Identifiers\<close>

definition template_opaque :: "string \<Rightarrow> bool" where
  "template_opaque v \<longleftrightarrow> opaque_text max_template_id_length v \<and> \<not> str_contains ''-----BEGIN'' v"

definition template_definition_id_new :: "string \<Rightarrow> template_error + string" where
  "template_definition_id_new v = (if template_opaque v then Inr v else Inl TemplateInvalidDefinition)"
definition template_version_id_new :: "string \<Rightarrow> template_error + string" where
  "template_version_id_new v = (if template_opaque v then Inr v else Inl TemplateInvalidVersion)"
definition template_ref_new :: "string \<Rightarrow> template_error + string" where
  "template_ref_new v = (if template_opaque v then Inr v else Inl TemplateInvalidDefinition)"
definition template_name_new :: "string \<Rightarrow> template_error + string" where
  "template_name_new v = (if template_opaque v then Inr v else Inl TemplateInvalidVersion)"

section \<open>Definitions\<close>

record file_layer =
  layer_name :: string
  layer_content_ref :: string

definition graphic_text :: "string \<Rightarrow> bool" where
  "graphic_text v \<longleftrightarrow> list_all (\<lambda>c. is_ascii_graphic c \<and> \<not> is_whitespace c) v"

definition file_layer_new :: "string \<Rightarrow> string \<Rightarrow> template_error + file_layer" where
  "file_layer_new name content =
     (if name \<noteq> [] \<and> length name \<le> max_template_name_length \<and> graphic_text name
        \<and> \<not> str_starts_with ''/'' name \<and> CHR 0x5C \<notin> set name \<and> \<not> str_contains ''..'' name
      then Inr \<lparr> layer_name = name, layer_content_ref = content \<rparr>
      else Inl TemplateInvalidDefinition)"

record template_definition =
  definition_id :: string
  definition_version :: string
  definition_base_ref :: string
  definition_layers :: "file_layer list"
  definition_envs :: "(string, string) btree"
  definition_start_cmd :: string
  definition_published_at :: u64

definition env_entry_error :: "string \<times> string \<Rightarrow> template_error option" where
  "env_entry_error e = (case e of (key, v) \<Rightarrow>
     if \<not> (key \<noteq> [] \<and> length key \<le> max_template_env_key_length \<and> graphic_text key)
       \<or> \<not> length v \<le> max_template_env_value_length
     then Some TemplateInvalidDefinition else None)"

definition definition_publish ::
  "string \<Rightarrow> string \<Rightarrow> string \<Rightarrow> file_layer list \<Rightarrow> (string, string) btree \<Rightarrow> string \<Rightarrow> u64
     \<Rightarrow> template_error + template_definition" where
  "definition_publish i version base layers envs start now =
     (if \<not> (version \<noteq> [] \<and> length version \<le> max_template_version_length \<and> graphic_text version)
        then Inl TemplateInvalidDefinition
      else if length layers > max_template_file_layers then Inl TemplateInvalidDefinition
      else if length envs > max_template_env_count then Inl TemplateInvalidDefinition
      else (case first_error env_entry_error envs of
              Some e \<Rightarrow> Inl e
            | None \<Rightarrow>
                if \<not> (start \<noteq> [] \<and> length start \<le> max_template_start_command_length)
                then Inl TemplateInvalidDefinition
                else Inr \<lparr> definition_id = i, definition_version = version, definition_base_ref = base,
                           definition_layers = layers, definition_envs = envs, definition_start_cmd = start,
                           definition_published_at = now \<rparr>))"

section \<open>Versions, build inputs, the cache policy\<close>

record template_version =
  version_id :: string
  version_definition_id :: string
  version_tags :: "string set"
  version_aliases :: "string set"
  version_artifact_ref :: string

definition version_publish ::
  "string \<Rightarrow> string \<Rightarrow> string set \<Rightarrow> string set \<Rightarrow> string \<Rightarrow> template_error + template_version" where
  "version_publish i def_id tags aliases artifact =
     (if card tags > max_template_name_count \<or> card aliases > max_template_name_count
      then Inl TemplateInvalidVersion
      else Inr \<lparr> version_id = i, version_definition_id = def_id, version_tags = tags,
                 version_aliases = aliases, version_artifact_ref = artifact \<rparr>)"

datatype build_input_format = DockerfileRef | BuildScriptRef

fun build_input_format_as_str :: "build_input_format \<Rightarrow> string" where
  "build_input_format_as_str DockerfileRef = ''sandbox_dockerfile_ref''"
| "build_input_format_as_str BuildScriptRef = ''sandbox_build_script_ref''"

definition build_input_format_parse :: "string \<Rightarrow> build_input_format option" where
  "build_input_format_parse s =
     (if s = ''sandbox_dockerfile_ref'' then Some DockerfileRef
      else if s = ''sandbox_build_script_ref'' then Some BuildScriptRef else None)"

record build_input =
  input_format :: build_input_format
  input_reference :: string

definition build_input_new :: "build_input_format \<Rightarrow> string \<Rightarrow> template_error + build_input" where
  "build_input_new f v =
     (if str_starts_with ''/'' v \<or> str_contains ''://'' v \<or> str_contains ''-----BEGIN'' v \<or> str_contains ''..'' v
      then Inl TemplateInvalidBuildInput
      else Inr \<lparr> input_format = f, input_reference = v \<rparr>)"

datatype cache_layer = CacheHot | CacheWarm | CacheCold

fun cache_layer_as_str :: "cache_layer \<Rightarrow> string" where
  "cache_layer_as_str CacheHot = ''sandbox_hot''"
| "cache_layer_as_str CacheWarm = ''sandbox_warm''"
| "cache_layer_as_str CacheCold = ''sandbox_cold''"

definition cache_layer_parse :: "string \<Rightarrow> cache_layer option" where
  "cache_layer_parse s =
     (if s = ''sandbox_hot'' then Some CacheHot else if s = ''sandbox_warm'' then Some CacheWarm
      else if s = ''sandbox_cold'' then Some CacheCold else None)"

definition cache_layers :: "cache_layer list" where "cache_layers = [CacheHot, CacheWarm, CacheCold]"

definition cache_policy_new :: "string \<Rightarrow> template_error + string" where
  "cache_policy_new policy =
     (if policy \<noteq> [] \<and> length policy \<le> max_template_eviction_policy_length then Inr policy
      else Inl TemplateInvalidCachePolicy)"

interpretation build_input_format_names: wire_names build_input_format_as_str build_input_format_parse
proof
  show "build_input_format_parse (build_input_format_as_str x) = Some x" for x
    by (cases x) (simp_all add: build_input_format_parse_def)
  show "build_input_format_parse s = Some x \<Longrightarrow> build_input_format_as_str x = s" for s x
    by (auto simp: build_input_format_parse_def split: if_splits)
qed

interpretation cache_layer_names: wire_names cache_layer_as_str cache_layer_parse
proof
  show "cache_layer_parse (cache_layer_as_str x) = Some x" for x by (cases x) (simp_all add: cache_layer_parse_def)
  show "cache_layer_parse s = Some x \<Longrightarrow> cache_layer_as_str x = s" for s x
    by (auto simp: cache_layer_parse_def split: if_splits)
qed

section \<open>The bounded registry\<close>

definition template_registry_capacity :: nat where "template_registry_capacity = 1024"

record template_registry =
  registry_definitions :: "(string, template_definition) btree"
  registry_versions :: "(string, template_version) btree"

definition template_registry_new :: template_registry where
  "template_registry_new = \<lparr> registry_definitions = [], registry_versions = [] \<rparr>"

definition publish_definition ::
  "template_definition \<Rightarrow> template_registry \<Rightarrow> template_error + template_registry" where
  "publish_definition d r =
     (if length (registry_definitions r) \<ge> template_registry_capacity then Inl TemplateInvalidDefinition
      else if btm_contains (registry_definitions r) (definition_id d) then Inl TemplateInvalidDefinition
      else Inr (r\<lparr> registry_definitions := btm_insert (definition_id d) d (registry_definitions r) \<rparr>))"

definition publish_version :: "template_version \<Rightarrow> template_registry \<Rightarrow> template_error + template_registry" where
  "publish_version v r =
     (if length (registry_versions r) \<ge> template_registry_capacity then Inl TemplateInvalidVersion
      else if btm_contains (registry_versions r) (version_id v) then Inl TemplateInvalidVersion
      else if \<not> btm_contains (registry_definitions r) (version_definition_id v) then Inl TemplateInvalidVersion
      else Inr (r\<lparr> registry_versions := btm_insert (version_id v) v (registry_versions r) \<rparr>))"

definition resolve_start_command :: "string \<Rightarrow> template_registry \<Rightarrow> template_error + string" where
  "resolve_start_command ref r =
     (case btm_get (registry_versions r) ref of
        None \<Rightarrow> Inl TemplateInvalidVersion
      | Some v \<Rightarrow>
          (case btm_get (registry_definitions r) (version_definition_id v) of
             None \<Rightarrow> Inl TemplateInvalidVersion
           | Some d \<Rightarrow> Inr (definition_start_cmd d)))"

definition publish_step :: "template_registry \<Rightarrow> template_registry \<Rightarrow> bool" where
  "publish_step r r' \<longleftrightarrow> (\<exists>d. publish_definition d r = Inr r') \<or> (\<exists>v. publish_version v r = Inr r')"

definition templates_ok :: "template_registry \<Rightarrow> bool" where
  "templates_ok r \<longleftrightarrow> btm_ok (registry_definitions r) \<and> btm_ok (registry_versions r)
     \<and> length (registry_definitions r) \<le> template_registry_capacity
     \<and> length (registry_versions r) \<le> template_registry_capacity
     \<and> (\<forall>i v. btm_get (registry_versions r) i = Some v \<longrightarrow>
          version_id v = i \<and> btm_contains (registry_definitions r) (version_definition_id v))
     \<and> (\<forall>i d. btm_get (registry_definitions r) i = Some d \<longrightarrow> definition_id d = i)"

text \<open>Nothing published is ever replaced.\<close>

definition registry_grows :: "template_registry \<Rightarrow> template_registry \<Rightarrow> bool" where
  "registry_grows r r' \<longleftrightarrow>
     (\<forall>i d. btm_get (registry_definitions r) i = Some d \<longrightarrow> btm_get (registry_definitions r') i = Some d)
     \<and> (\<forall>i v. btm_get (registry_versions r) i = Some v \<longrightarrow> btm_get (registry_versions r') i = Some v)"

lemma publish_stepE:
  assumes "publish_step r r'"
  obtains
    (new_definition) d where "length (registry_definitions r) < template_registry_capacity"
      "btm_get (registry_definitions r) (definition_id d) = None"
      "r' = r\<lparr> registry_definitions := btm_insert (definition_id d) d (registry_definitions r) \<rparr>"
  | (new_version) v where "length (registry_versions r) < template_registry_capacity"
      "btm_get (registry_versions r) (version_id v) = None"
      "btm_contains (registry_definitions r) (version_definition_id v)"
      "r' = r\<lparr> registry_versions := btm_insert (version_id v) v (registry_versions r) \<rparr>"
proof -
  consider d where "publish_definition d r = Inr r'" | v where "publish_version v r = Inr r'"
    using assms by (auto simp: publish_step_def)
  then show thesis
  proof cases
    case (1 d)
    then show thesis
      by (intro new_definition [of d]) (simp_all add: publish_definition_def btm_not_contains split: if_splits)
  next
    case (2 v)
    then show thesis
      by (intro new_version [of v]) (simp_all add: publish_version_def btm_contains_def split: if_splits)
  qed
qed

lemma templates_ok_step:
  assumes "publish_step r r'" "templates_ok r"
  shows "templates_ok r'"
  using assms(1)
proof (cases rule: publish_stepE)
  case (new_definition d)
  have "btm_ok (registry_definitions r)" using assms(2) by (simp add: templates_ok_def)
  from btm.length_insert_new [OF this new_definition(2)] show ?thesis
    using new_definition assms(2) by (auto simp: templates_ok_def btm_insert_ok)
next
  case (new_version v)
  have "btm_ok (registry_versions r)" using assms(2) by (simp add: templates_ok_def)
  from btm.length_insert_new [OF this new_version(2)] show ?thesis
    using new_version assms(2) by (auto simp: templates_ok_def btm_insert_ok)
qed

lemma registry_grows_step: "publish_step r r' \<Longrightarrow> registry_grows r r'"
  by (erule publish_stepE) (auto simp: registry_grows_def)

interpretation templates: growing_machine template_registry_new publish_step templates_ok registry_grows
proof
  show "templates_ok template_registry_new" by (simp add: templates_ok_def template_registry_new_def btm_ok_def)
  show "registry_grows s u" if "registry_grows s t" "registry_grows t u" for s t u
    using that by (simp add: registry_grows_def)
qed (auto intro: templates_ok_step registry_grows_step simp: registry_grows_def [of s s for s])

lemma resolve_iff:
  "resolve_start_command ref r = Inr cmd \<longleftrightarrow>
     (\<exists>v d. btm_get (registry_versions r) ref = Some v
        \<and> btm_get (registry_definitions r) (version_definition_id v) = Some d \<and> cmd = definition_start_cmd d)"
  by (auto simp: resolve_start_command_def split: option.splits)

lemma resolve_grows: "registry_grows r r' \<Longrightarrow> resolve_start_command ref r = Inr cmd \<Longrightarrow> resolve_start_command ref r' = Inr cmd"
  unfolding resolve_iff registry_grows_def by blast

end
