(* ===== verification/Worker_Lane.thy ===== *)
theory Worker_Lane
  imports Launch_Records Template_Registry Command_Executor
begin

text \<open>
  The local launch lane: the adapter that drives a launch plan through the authorities (\<open>lib.rs\<close> of crate
  \<open>sdkwork-intelligence-sandbox-worker-local\<close>) over a provisioner and a start-command port, and the start
  port over the local command executor and the template registry (\<open>lib.rs\<close> of crate
  \<open>sdkwork-intelligence-sandbox-worker-local-exec\<close>). The world \<open>'w\<close> is what the ports act on; a plan that is
  passed by mutable reference is returned with the result.
\<close>

section \<open>The adapter\<close>

datatype adapter_error = StartFailed | StartUncertain | PlanNotConsumable | AuthorityRefused

record run_failure =
  failure_error :: adapter_error
  failure_execution :: "worker_execution option"

datatype start_outcome = OutcomeStarted | OutcomeFailed | OutcomeUncertain

record 'w launch_adapter =
  adapter_provision :: "string \<Rightarrow> ('w, adapter_error + string) state"
  adapter_start :: "string \<Rightarrow> string \<Rightarrow> ('w, start_outcome) state"

definition carry :: "adapter_error \<Rightarrow> worker_execution option \<Rightarrow> run_failure" where
  "carry e x = \<lparr> failure_error = e, failure_execution = x \<rparr>"

text \<open>After the start port has reported: the terminal it leads to.\<close>

definition record_start_outcome :: "start_outcome \<Rightarrow> u64 \<Rightarrow> worker_execution \<Rightarrow> run_failure + worker_execution" where
  "record_start_outcome result now x =
     (case result of
        OutcomeStarted \<Rightarrow>
          (case record_started now x of Inl _ \<Rightarrow> Inl (carry AuthorityRefused (Some x)) | Inr x' \<Rightarrow> Inr x')
      | OutcomeFailed \<Rightarrow>
          (case record_failed now x of Inl _ \<Rightarrow> Inl (carry AuthorityRefused (Some x))
           | Inr x' \<Rightarrow> Inl (carry StartFailed (Some x')))
      | OutcomeUncertain \<Rightarrow>
          (case execution_quarantine now x of Inl _ \<Rightarrow> Inl (carry AuthorityRefused (Some x))
           | Inr x' \<Rightarrow> Inl (carry StartUncertain (Some x'))))"

text \<open>From the consumed plan on.\<close>

definition run_consumed ::
  "'w launch_adapter \<Rightarrow> launch_plan \<Rightarrow> worker_execution \<Rightarrow> u64 \<Rightarrow> ('w, run_failure + worker_execution) state" where
  "run_consumed a plan x now =
     do { r \<leftarrow> adapter_provision a (plan_id plan);
          case r of
            Inl e \<Rightarrow> ret (Inl (carry e (Some x)))
          | Inr allocation \<Rightarrow>
              (case record_provisioning allocation now x of
                 Inl _ \<Rightarrow> ret (Inl (carry AuthorityRefused (Some x)))
               | Inr x1 \<Rightarrow>
                   (case record_starting (plan_id plan) now x1 of
                      Inl _ \<Rightarrow> ret (Inl (carry AuthorityRefused (Some x1)))
                    | Inr x2 \<Rightarrow>
                        do { result \<leftarrow> adapter_start a (plan_id plan) (plan_template_version_ref plan);
                             ret (record_start_outcome result now x2) })) }"

definition adapter_execute ::
  "'w launch_adapter \<Rightarrow> launch_plan \<Rightarrow> string \<Rightarrow> u64
     \<Rightarrow> ('w, (run_failure + worker_execution) \<times> launch_plan) state" where
  "adapter_execute a plan execution now =
     (case execution_new execution (plan_id plan) now of
        Inl _ \<Rightarrow> ret (Inl (carry AuthorityRefused None), plan)
      | Inr x \<Rightarrow>
          if plan_state plan \<noteq> PlanPlanned then ret (Inl (carry PlanNotConsumable (Some x)), plan)
          else (case plan_mark_consumed now plan of
                  Inl _ \<Rightarrow> ret (Inl (carry PlanNotConsumable (Some x)), plan)
                | Inr plan' \<Rightarrow> do { r \<leftarrow> run_consumed a plan' x now; ret (r, plan') }))"

section \<open>Splitting a command at white space\<close>

text \<open>
  The length in bytes of the white-space character a text begins with, 0 when it begins with another
  (\<open>char::is_whitespace\<close>, on UTF-8).
\<close>

definition whitespace_length :: "string \<Rightarrow> nat" where
  "whitespace_length s =
     (case map (of_char :: char \<Rightarrow> nat) (take 3 s) of
        [] \<Rightarrow> 0
      | a # rest \<Rightarrow>
          if a \<in> set [9, 10, 11, 12, 13, 32] then 1
          else if a = 194 \<and> take 1 rest \<in> set [[133], [160]] then 2
          else if a # rest \<in> set ([[225, 154, 128], [226, 128, 168], [226, 128, 169], [226, 128, 175],
                 [226, 129, 159], [227, 128, 128]] @ map (\<lambda>k. [226, 128, 128 + k]) [0 ..< 11]) then 3
          else 0)"

definition flush_word :: "string \<Rightarrow> string list" where
  "flush_word w = (if w = [] then [] else [rev w])"

text \<open>\<open>w\<close> is the word read so far, reversed.\<close>

fun split_whitespace_from :: "string \<Rightarrow> string \<Rightarrow> string list" where
  "split_whitespace_from w [] = flush_word w"
| "split_whitespace_from w (c # s) =
     (if whitespace_length (c # s) = 0 then split_whitespace_from (c # w) s
      else flush_word w @ split_whitespace_from [] (drop (whitespace_length (c # s) - 1) s))"

definition split_whitespace :: "string \<Rightarrow> string list" where
  "split_whitespace s = split_whitespace_from [] s"

section \<open>The start port over the command executor\<close>

record resolved_command =
  resolved_executable :: string
  resolved_arguments :: "string list"

datatype resolution_error = StartCommandNotFound

definition registry_resolve :: "template_registry \<Rightarrow> string \<Rightarrow> resolution_error + resolved_command" where
  "registry_resolve r ref =
     (case resolve_start_command ref r of
        Inl _ \<Rightarrow> Inl StartCommandNotFound
      | Inr cmd \<Rightarrow>
          (case split_whitespace cmd of
             [] \<Rightarrow> Inl StartCommandNotFound
           | exe # args \<Rightarrow> Inr \<lparr> resolved_executable = exe, resolved_arguments = args \<rparr>))"

record start_scope =
  scope_tenant_id :: string
  scope_provider_id :: string
  scope_workspace_id :: string
  scope_session_id :: string
  scope_sandbox_id :: string
  scope_binding_id :: string
  scope_fencing_token :: u64
  scope_working_directory :: string
  scope_environment :: "(string, string) btree"
  scope_limits :: command_limits

definition start_request :: "start_scope \<Rightarrow> string \<Rightarrow> resolved_command \<Rightarrow> command_request" where
  "start_request sc plan_ref c =
     \<lparr> command_tenant_id_text = scope_tenant_id sc, command_provider_id_text = scope_provider_id sc,
       command_workspace_id_text = scope_workspace_id sc, command_session_id_text = scope_session_id sc,
       command_sandbox_id_text = scope_sandbox_id sc, command_binding_id_text = scope_binding_id sc,
       command_fencing_token = scope_fencing_token sc, command_operation_id_text = ''start-'' @ plan_ref,
       command_executable = resolved_executable c, command_arguments = resolved_arguments c,
       command_working_directory = scope_working_directory sc, command_environment = scope_environment sc,
       command_limits_of = scope_limits sc \<rparr>"

text \<open>The result of the executor as a start outcome.\<close>

definition start_outcome_of :: "command_error + command_outcome \<Rightarrow> start_outcome" where
  "start_outcome_of r =
     (case r of
        Inr x \<Rightarrow> if outcome_exit_code x = Some 0 then OutcomeStarted else OutcomeFailed
      | Inl _ \<Rightarrow> OutcomeUncertain)"

definition executor_start ::
  "digest \<Rightarrow> host_boundary \<Rightarrow> 'h command_backend \<Rightarrow> (string \<Rightarrow> resolution_error + resolved_command)
     \<Rightarrow> start_scope \<Rightarrow> string \<Rightarrow> string \<Rightarrow> ('h exec_node, start_outcome) state" where
  "executor_start sha b k resolve sc plan_ref version_ref =
     (case resolve version_ref of
        Inl _ \<Rightarrow> ret OutcomeFailed
      | Inr c \<Rightarrow>
          State (\<lambda>n. case sandbox_execute sha b k (start_request sc plan_ref c) n of
                       (r, n') \<Rightarrow> (start_outcome_of r, n')))"

text \<open>The lane as it is composed: the registry's resolver and the local executor behind the start port.\<close>

definition local_lane ::
  "digest \<Rightarrow> host_boundary \<Rightarrow> 'h command_backend \<Rightarrow> template_registry \<Rightarrow> start_scope
     \<Rightarrow> (string \<Rightarrow> ('h exec_node, adapter_error + string) state) \<Rightarrow> 'h exec_node launch_adapter" where
  "local_lane sha b k templates sc provision =
     \<lparr> adapter_provision = provision,
       adapter_start = executor_start sha b k (registry_resolve templates) sc \<rparr>"

section \<open>What white-space splitting does\<close>

lemma split_whitespace_from_words:
  "\<forall>x\<in>set (split_whitespace_from w s). x \<noteq> []"
  by (induction w s rule: split_whitespace_from.induct) (auto simp: flush_word_def)

text \<open>On a text in ASCII the split is at the characters 9 to 13 and 32.\<close>

definition ascii_text :: "string \<Rightarrow> bool" where
  "ascii_text s \<longleftrightarrow> list_all (\<lambda>c. (of_char c :: nat) < 128) s"

lemma ascii_whitespace_length:
  "ascii_text (c # s) \<Longrightarrow> whitespace_length (c # s) = (if is_whitespace c then 1 else 0)"
  by (auto simp: whitespace_length_def is_whitespace_def ascii_text_def)

lemma split_ascii:
  "ascii_text s \<Longrightarrow> list_all (\<lambda>c. \<not> is_whitespace c) w \<Longrightarrow>
     split_whitespace_from w s = filter (\<lambda>x. x \<noteq> []) (case split_on is_whitespace s of [] \<Rightarrow> [] | x # xs \<Rightarrow> (rev w @ x) # xs)"
proof (induction w s rule: split_whitespace_from.induct)
  case (2 w c s)
  have ascii: "ascii_text s" using 2(3) by (simp add: ascii_text_def)
  obtain x xs where s: "split_on is_whitespace s = x # xs" using split_on_Cons by blast
  show ?case
  proof (cases "is_whitespace c")
    case True
    then show ?thesis
      using 2(2) 2(3) ascii s ascii_whitespace_length [OF 2(3)] by (simp add: flush_word_def)
  next
    case False
    then show ?thesis
      using 2(1) 2(3,4) ascii s ascii_whitespace_length [OF 2(3)] by simp
  qed
qed (simp add: flush_word_def)

lemma split_whitespace_ascii:
  "ascii_text s \<Longrightarrow> split_whitespace s = filter (\<lambda>x. x \<noteq> []) (split_on is_whitespace s)"
  using split_ascii [of s "[]"] split_on_Cons [of is_whitespace s] by (auto simp: split_whitespace_def)

end
