(* ===== verification/Build_Records.thy ===== *)
theory Build_Records
  imports Lane_Prelude
begin

text \<open>
  The template build (\<open>build.rs\<close>, \<open>state.rs\<close> of crate \<open>sdkwork-intelligence-sandbox-build-authority\<close>), the
  snapshot and the fork derivation (\<open>snapshot.rs\<close>, \<open>state.rs\<close>, \<open>fork.rs\<close> of crate
  \<open>sdkwork-intelligence-sandbox-snapshot-authority\<close>).
\<close>

section \<open>Template builds\<close>

datatype build_state = BuildRequested | BuildBuilding | BuildSucceeded | BuildFailed | BuildQuarantined

fun build_state_as_str :: "build_state \<Rightarrow> string" where
  "build_state_as_str BuildRequested = ''requested''"
| "build_state_as_str BuildBuilding = ''building''"
| "build_state_as_str BuildSucceeded = ''succeeded''"
| "build_state_as_str BuildFailed = ''failed''"
| "build_state_as_str BuildQuarantined = ''quarantined''"

definition build_state_parse :: "string \<Rightarrow> build_state option" where
  "build_state_parse s =
     (if s = ''requested'' then Some BuildRequested else if s = ''building'' then Some BuildBuilding
      else if s = ''succeeded'' then Some BuildSucceeded else if s = ''failed'' then Some BuildFailed
      else if s = ''quarantined'' then Some BuildQuarantined else None)"

definition build_can_transition_to :: "build_state \<Rightarrow> build_state \<Rightarrow> bool" where
  "build_can_transition_to from next \<longleftrightarrow> (from, next) \<in> set
     [(BuildRequested, BuildBuilding), (BuildRequested, BuildQuarantined), (BuildBuilding, BuildSucceeded),
      (BuildBuilding, BuildFailed), (BuildBuilding, BuildQuarantined)]"

definition build_is_terminal :: "build_state \<Rightarrow> bool" where
  "build_is_terminal s \<longleftrightarrow> s \<in> set [BuildSucceeded, BuildFailed, BuildQuarantined]"

datatype build_error = BuildInvalid | BuildIllegalTransition

record template_build =
  build_id :: string
  build_definition_id :: string
  build_version_id :: string
  build_input_ref :: string
  build_state :: build_state
  build_artifact_ref :: "string option"
  build_requested_at :: u64
  build_updated_at :: u64

definition build_new :: "string \<Rightarrow> string \<Rightarrow> string \<Rightarrow> string \<Rightarrow> u64 \<Rightarrow> build_error + template_build" where
  "build_new i def_id version input now =
     (if \<not> list_all validated_reference [i, def_id, version, input] then Inl BuildInvalid
      else Inr \<lparr> build_id = i, build_definition_id = def_id, build_version_id = version,
                 build_input_ref = input, build_state = BuildRequested, build_artifact_ref = None,
                 build_requested_at = now, build_updated_at = now \<rparr>)"

definition record_building :: "u64 \<Rightarrow> template_build \<Rightarrow> build_error + template_build" where
  "record_building now x =
     (if now < build_updated_at x then Inl BuildInvalid
      else if \<not> build_can_transition_to (build_state x) BuildBuilding then Inl BuildIllegalTransition
      else Inr (x\<lparr> build_state := BuildBuilding, build_updated_at := now \<rparr>))"

definition record_outcome :: "bool \<Rightarrow> string option \<Rightarrow> u64 \<Rightarrow> template_build \<Rightarrow> build_error + template_build" where
  "record_outcome succeeded artifact now x =
     (if now < build_updated_at x then Inl BuildInvalid
      else
        (let goal = (if succeeded then BuildSucceeded else BuildFailed) in
         if \<not> build_can_transition_to (build_state x) goal then Inl BuildIllegalTransition
         else (case (succeeded, artifact) of
                 (True, Some a) \<Rightarrow>
                   if validated_reference a
                   then Inr (x\<lparr> build_artifact_ref := Some a, build_state := goal, build_updated_at := now \<rparr>)
                   else Inl BuildInvalid
               | (True, None) \<Rightarrow> Inl BuildInvalid
               | (False, Some a) \<Rightarrow> Inl BuildInvalid
               | (False, None) \<Rightarrow> Inr (x\<lparr> build_state := goal, build_updated_at := now \<rparr>))))"

definition build_quarantine :: "u64 \<Rightarrow> template_build \<Rightarrow> build_error + template_build" where
  "build_quarantine now x =
     (if now < build_updated_at x then Inl BuildInvalid
      else if \<not> build_can_transition_to (build_state x) BuildQuarantined then Inl BuildIllegalTransition
      else Inr (x\<lparr> build_artifact_ref := None, build_state := BuildQuarantined, build_updated_at := now \<rparr>))"

definition build_step :: "template_build \<Rightarrow> template_build \<Rightarrow> bool" where
  "build_step x x' \<longleftrightarrow> (\<exists>now succeeded artifact.
     Inr x' \<in> {record_building now x, record_outcome succeeded artifact now x, build_quarantine now x})"

definition build_identity :: "template_build \<Rightarrow> string \<times> string \<times> string \<times> string \<times> u64" where
  "build_identity x = (build_id x, build_definition_id x, build_version_id x, build_input_ref x, build_requested_at x)"

definition build_fresh :: "template_build \<Rightarrow> bool" where
  "build_fresh x \<longleftrightarrow> (\<exists>i d v r now. build_new i d v r now = Inr x)"

text \<open>A build binds an artifact, and a valid one, exactly when it succeeded.\<close>

definition build_binds :: "template_build \<Rightarrow> bool" where
  "build_binds x \<longleftrightarrow>
     (case build_artifact_ref x of Some a \<Rightarrow> build_state x = BuildSucceeded \<and> validated_reference a
      | None \<Rightarrow> build_state x \<noteq> BuildSucceeded)"

lemmas build_operations = record_building_def record_outcome_def build_quarantine_def

lemma build_step_facts:
  assumes "build_step x x'"
  shows "build_can_transition_to (build_state x) (build_state x')" "build_identity x' = build_identity x"
    "build_updated_at x \<le> build_updated_at x'"
  using assms
  by (auto simp: build_step_def build_operations Let_def build_identity_def split: if_splits bool.splits option.splits)

lemma build_binds_step:
  assumes "build_step x x'" "build_binds x"
  shows "build_binds x'"
proof -
  have "build_state x \<noteq> BuildSucceeded" "build_artifact_ref x = None"
    using build_step_facts(1) [OF assms(1)] assms(2)
    by (auto simp: build_can_transition_to_def build_binds_def split: option.splits)
  then show ?thesis
    using assms(1)
    by (auto simp: build_step_def build_operations Let_def build_binds_def split: if_splits bool.splits option.splits)
qed

interpretation build_state_names: wire_names build_state_as_str build_state_parse
proof
  show "build_state_parse (build_state_as_str x) = Some x" for x by (cases x) (simp_all add: build_state_parse_def)
  show "build_state_parse s = Some x \<Longrightarrow> build_state_as_str x = s" for s x
    by (auto simp: build_state_parse_def split: if_splits)
qed

interpretation builds: record_invariant build_can_transition_to build_is_terminal build_step build_state
  build_identity build_updated_at build_fresh build_binds
proof
  show "build_is_terminal s \<Longrightarrow> \<not> build_can_transition_to s t" for s t
    by (auto simp: build_is_terminal_def build_can_transition_to_def)
  show "build_fresh r \<Longrightarrow> build_binds r" for r
    by (auto simp: build_fresh_def build_new_def build_binds_def split: if_splits)
qed (fact build_step_facts build_binds_step)+

section \<open>Snapshots\<close>

datatype snapshot_state =
  SnapshotCreating | SnapshotAvailable | SnapshotRestoring | SnapshotDeleted | SnapshotQuarantined

fun snapshot_state_as_str :: "snapshot_state \<Rightarrow> string" where
  "snapshot_state_as_str SnapshotCreating = ''creating''"
| "snapshot_state_as_str SnapshotAvailable = ''available''"
| "snapshot_state_as_str SnapshotRestoring = ''restoring''"
| "snapshot_state_as_str SnapshotDeleted = ''deleted''"
| "snapshot_state_as_str SnapshotQuarantined = ''quarantined''"

definition snapshot_state_parse :: "string \<Rightarrow> snapshot_state option" where
  "snapshot_state_parse s =
     (if s = ''creating'' then Some SnapshotCreating else if s = ''available'' then Some SnapshotAvailable
      else if s = ''restoring'' then Some SnapshotRestoring else if s = ''deleted'' then Some SnapshotDeleted
      else if s = ''quarantined'' then Some SnapshotQuarantined else None)"

definition snapshot_can_transition_to :: "snapshot_state \<Rightarrow> snapshot_state \<Rightarrow> bool" where
  "snapshot_can_transition_to from next \<longleftrightarrow> (from, next) \<in> set
     [(SnapshotCreating, SnapshotAvailable), (SnapshotCreating, SnapshotQuarantined),
      (SnapshotAvailable, SnapshotRestoring), (SnapshotAvailable, SnapshotDeleted),
      (SnapshotAvailable, SnapshotQuarantined), (SnapshotRestoring, SnapshotAvailable),
      (SnapshotRestoring, SnapshotQuarantined)]"

datatype snapshot_error = SnapshotInvalid | SnapshotInvalidFork | SnapshotIllegalTransition

record snapshot =
  snapshot_id :: string
  snapshot_source_session_ref :: string
  snapshot_memory_included :: bool
  snapshot_fingerprint :: string
  snapshot_artifact_ref :: string
  snapshot_state :: snapshot_state
  snapshot_created_at :: u64

definition snapshot_new ::
  "string \<Rightarrow> string \<Rightarrow> bool \<Rightarrow> string \<Rightarrow> string \<Rightarrow> u64 \<Rightarrow> snapshot_error + snapshot" where
  "snapshot_new i session memory fingerprint artifact now =
     (if \<not> list_all validated_reference [i, session, artifact] \<or> \<not> hex_fingerprint fingerprint
      then Inl SnapshotInvalid
      else Inr \<lparr> snapshot_id = i, snapshot_source_session_ref = session, snapshot_memory_included = memory,
                 snapshot_fingerprint = fingerprint, snapshot_artifact_ref = artifact,
                 snapshot_state = SnapshotCreating, snapshot_created_at = now \<rparr>)"

definition snapshot_transition :: "snapshot_state \<Rightarrow> snapshot \<Rightarrow> snapshot_error + snapshot" where
  "snapshot_transition goal s =
     (if \<not> snapshot_can_transition_to (snapshot_state s) goal then Inl SnapshotIllegalTransition
      else Inr (s\<lparr> snapshot_state := goal \<rparr>))"

definition mark_available :: "snapshot \<Rightarrow> snapshot_error + snapshot" where
  "mark_available = snapshot_transition SnapshotAvailable"
definition mark_restoring :: "snapshot \<Rightarrow> snapshot_error + snapshot" where
  "mark_restoring = snapshot_transition SnapshotRestoring"
definition mark_restore_finished :: "snapshot \<Rightarrow> snapshot_error + snapshot" where
  "mark_restore_finished = snapshot_transition SnapshotAvailable"
definition mark_deleted :: "snapshot \<Rightarrow> snapshot_error + snapshot" where
  "mark_deleted = snapshot_transition SnapshotDeleted"
definition mark_quarantined :: "snapshot \<Rightarrow> snapshot_error + snapshot" where
  "mark_quarantined = snapshot_transition SnapshotQuarantined"

definition is_derivable :: "snapshot \<Rightarrow> bool" where
  "is_derivable s \<longleftrightarrow> snapshot_state s \<in> set [SnapshotAvailable, SnapshotRestoring]"

definition max_derivations_per_plan :: nat where "max_derivations_per_plan = 64"

record fork_derivation =
  fork_snapshot_id :: string
  fork_derivation_count :: nat

definition fork_plan :: "snapshot \<Rightarrow> nat \<Rightarrow> snapshot_error + fork_derivation" where
  "fork_plan s count =
     (if \<not> is_derivable s then Inl SnapshotInvalidFork
      else if count = 0 \<or> count > max_derivations_per_plan then Inl SnapshotInvalidFork
      else Inr \<lparr> fork_snapshot_id = snapshot_id s, fork_derivation_count = count \<rparr>)"

definition snapshot_step :: "snapshot \<Rightarrow> snapshot \<Rightarrow> bool" where
  "snapshot_step s s' \<longleftrightarrow> Inr s' \<in> {mark_available s, mark_restoring s, mark_restore_finished s, mark_deleted s,
     mark_quarantined s}"

text \<open>Everything but the state: the content of a snapshot.\<close>

definition snapshot_content :: "snapshot \<Rightarrow> string \<times> string \<times> bool \<times> string \<times> string \<times> u64" where
  "snapshot_content s = (snapshot_id s, snapshot_source_session_ref s, snapshot_memory_included s,
     snapshot_fingerprint s, snapshot_artifact_ref s, snapshot_created_at s)"

lemma snapshot_step_iff:
  "snapshot_step s s' \<longleftrightarrow> (\<exists>goal\<in>{SnapshotAvailable, SnapshotRestoring, SnapshotDeleted, SnapshotQuarantined}.
     snapshot_can_transition_to (snapshot_state s) goal \<and> s' = s\<lparr> snapshot_state := goal \<rparr>)"
  by (auto simp: snapshot_step_def mark_available_def mark_restoring_def mark_restore_finished_def mark_deleted_def
      mark_quarantined_def snapshot_transition_def split: if_splits)

interpretation snapshot_state_names: wire_names snapshot_state_as_str snapshot_state_parse
proof
  show "snapshot_state_parse (snapshot_state_as_str x) = Some x" for x
    by (cases x) (simp_all add: snapshot_state_parse_def)
  show "snapshot_state_parse s = Some x \<Longrightarrow> snapshot_state_as_str x = s" for s x
    by (auto simp: snapshot_state_parse_def split: if_splits)
qed

text \<open>A snapshot carries no time of its last change; its two terminal states have no outbound edge.\<close>

interpretation snapshots: tracked_record snapshot_can_transition_to
  "\<lambda>s. s \<in> {SnapshotDeleted, SnapshotQuarantined}" snapshot_step snapshot_state snapshot_content snapshot_created_at
  by unfold_locales (auto simp: snapshot_step_iff snapshot_can_transition_to_def snapshot_content_def)

end
