(* ===== verification/Lane_Properties.thy ===== *)
theory Lane_Properties
  imports Worker_Lane Build_Records Command_Properties
begin

text \<open>
  The properties of the launch lane: the lifecycle of its records, the template registry, the adapter and its
  composition with the command executor.
\<close>

section \<open>The records\<close>

text \<open>
  C31: Launch plans, worker executions, template builds and snapshots keep their identity and content through
  any sequence of accepted operations, never run back in time, and in a terminal state never change again.
\<close>

theorem terminal_records_are_final:
  "(plan_step\<^sup>*\<^sup>* p p' \<longrightarrow> plan_identity p' = plan_identity p \<and> plan_updated_at p \<le> plan_updated_at p'
      \<and> (plan_state p \<noteq> PlanPlanned \<longrightarrow> p' = p))
    \<and> (execution_step\<^sup>*\<^sup>* x x' \<longrightarrow> execution_identity x' = execution_identity x
      \<and> execution_updated_at x \<le> execution_updated_at x'
      \<and> (execution_state x \<in> {ExecutionStarted, ExecutionFailed, ExecutionQuarantined} \<longrightarrow> x' = x))
    \<and> (build_step\<^sup>*\<^sup>* b b' \<longrightarrow> build_identity b' = build_identity b \<and> build_updated_at b \<le> build_updated_at b'
      \<and> (build_state b \<in> {BuildSucceeded, BuildFailed, BuildQuarantined} \<longrightarrow> b' = b))
    \<and> (snapshot_step\<^sup>*\<^sup>* s s' \<longrightarrow> snapshot_content s' = snapshot_content s
      \<and> (snapshot_state s \<in> {SnapshotDeleted, SnapshotQuarantined} \<longrightarrow> s' = s))"
proof (intro conjI impI)
  assume run: "plan_step\<^sup>*\<^sup>* p p'"
  show "plan_identity p' = plan_identity p" "plan_updated_at p \<le> plan_updated_at p'"
    using plans.history [OF run] by simp_all
  show "p' = p" if "plan_state p \<noteq> PlanPlanned"
    using plans.terminal_record_is_final [OF run] that by (cases "plan_state p") (simp_all add: plan_is_terminal_def)
next
  assume run: "execution_step\<^sup>*\<^sup>* x x'"
  show "execution_identity x' = execution_identity x" "execution_updated_at x \<le> execution_updated_at x'"
    using executions.history [OF run] by simp_all
  show "x' = x" if "execution_state x \<in> {ExecutionStarted, ExecutionFailed, ExecutionQuarantined}"
    using executions.terminal_record_is_final [OF run] that by (auto simp: execution_is_terminal_def)
next
  assume run: "build_step\<^sup>*\<^sup>* b b'"
  show "build_identity b' = build_identity b" "build_updated_at b \<le> build_updated_at b'"
    using builds.history [OF run] by simp_all
  show "b' = b" if "build_state b \<in> {BuildSucceeded, BuildFailed, BuildQuarantined}"
    using builds.terminal_record_is_final [OF run] that by (auto simp: build_is_terminal_def)
next
  assume run: "snapshot_step\<^sup>*\<^sup>* s s'"
  show "snapshot_content s' = snapshot_content s" using snapshots.history [OF run] by simp
  show "s' = s" if "snapshot_state s \<in> {SnapshotDeleted, SnapshotQuarantined}"
    using snapshots.terminal_record_is_final [OF run] that by auto
qed

definition demo_plan :: launch_plan where
  "demo_plan = \<lparr> plan_id = ''plan'', plan_template_version_ref = ''v1'', plan_pool_claim_ref = ''claim'',
     plan_identity_evidence_ref = ''identity'', plan_state = PlanPlanned, plan_planned_at = 5, plan_updated_at = 5 \<rparr>"

definition demo_execution :: worker_execution where
  "demo_execution = \<lparr> execution_id = ''x'', execution_plan_ref = ''plan'', execution_allocation_ref = None,
     execution_start_ref = None, execution_state = ExecutionAccepted, execution_accepted_at = 5,
     execution_updated_at = 5 \<rparr>"

lemma demo_references:
  "validated_reference ''plan''" "validated_reference ''x''" "validated_reference ''alloc''"
  by (simp_all add: validated_reference_def max_record_id_length_def opaque_text_def is_ascii_graphic_def
      is_whitespace_def)

lemma terminal_records_are_final_witness:
  "plan_identity (demo_plan\<lparr> plan_state := PlanConsumed, plan_updated_at := 6 \<rparr>) = plan_identity demo_plan"
proof -
  have "plan_step demo_plan (demo_plan\<lparr> plan_state := PlanConsumed, plan_updated_at := 6 \<rparr>)"
    unfolding plan_step_def by (rule exI [of _ 6])
      (simp add: plan_mark_consumed_def plan_transition_def plan_can_transition_to_def demo_plan_def)
  then show ?thesis
    using terminal_records_are_final [of demo_plan "demo_plan\<lparr> plan_state := PlanConsumed, plan_updated_at := 6 \<rparr>"]
    by blast
qed

text \<open>
  C30: A worker execution claims exactly what it has earned. Unless it failed or was quarantined, it has an
  allocation reference exactly from provisioning on and a start reference exactly from starting on. A failed
  or quarantined one has exactly the references of the live record it ended from, which for a failed one was
  provisioning or starting. Every reference is a valid opaque text. A template build binds an artifact, and a
  valid one, exactly when it succeeded.
\<close>

theorem references_are_earned:
  assumes "execution_new i plan now = Inr x" "execution_step\<^sup>*\<^sup>* x x'"
    and "build_new bi d v input bnow = Inr b" "build_step\<^sup>*\<^sup>* b b'"
  shows "(execution_state x' \<notin> {ExecutionFailed, ExecutionQuarantined} \<longrightarrow>
         (execution_allocation_ref x' \<noteq> None
            \<longleftrightarrow> execution_state x' \<in> {ExecutionProvisioning, ExecutionStarting, ExecutionStarted})
         \<and> (execution_start_ref x' \<noteq> None \<longleftrightarrow> execution_state x' \<in> {ExecutionStarting, ExecutionStarted}))
    \<and> (execution_state x' \<in> {ExecutionFailed, ExecutionQuarantined} \<longrightarrow>
         (\<exists>y. execution_step\<^sup>*\<^sup>* x y \<and> execution_step y x'
            \<and> execution_state y \<in> {ExecutionAccepted, ExecutionProvisioning, ExecutionStarting}
            \<and> (execution_state x' = ExecutionFailed \<longrightarrow> execution_state y \<noteq> ExecutionAccepted)
            \<and> execution_allocation_ref x' = execution_allocation_ref y
            \<and> execution_start_ref x' = execution_start_ref y))
    \<and> (\<forall>r. execution_allocation_ref x' = Some r \<or> execution_start_ref x' = Some r \<longrightarrow> validated_reference r)
    \<and> (build_state b' = BuildSucceeded \<longleftrightarrow> (\<exists>a. build_artifact_ref b' = Some a \<and> validated_reference a))
    \<and> (build_artifact_ref b' = None \<longleftrightarrow> build_state b' \<noteq> BuildSucceeded)"
proof -
  have fresh: "execution_state x = ExecutionAccepted"
    using assms(1) by (auto simp: execution_new_def split: if_splits)
  have earned: "execution_earned x'"
    using executions.record_inv [OF assms(2)] assms(1) unfolding execution_fresh_def by blast
  have live: "(execution_allocation_ref x' \<noteq> None
        \<longleftrightarrow> execution_state x' \<in> {ExecutionProvisioning, ExecutionStarting, ExecutionStarted})
      \<and> (execution_start_ref x' \<noteq> None \<longleftrightarrow> execution_state x' \<in> {ExecutionStarting, ExecutionStarted})"
    if "execution_state x' \<notin> {ExecutionFailed, ExecutionQuarantined}"
    using earned that by (cases "execution_state x'") (simp_all add: execution_earned_def)
  have ended: "\<exists>y. execution_step\<^sup>*\<^sup>* x y \<and> execution_step y x'
      \<and> execution_state y \<in> {ExecutionAccepted, ExecutionProvisioning, ExecutionStarting}
      \<and> (execution_state x' = ExecutionFailed \<longrightarrow> execution_state y \<noteq> ExecutionAccepted)
      \<and> execution_allocation_ref x' = execution_allocation_ref y
      \<and> execution_start_ref x' = execution_start_ref y"
    if "execution_state x' \<in> {ExecutionFailed, ExecutionQuarantined}"
    using assms(2)
  proof (cases rule: rtranclp.cases)
    case rtrancl_refl
    then show ?thesis using that fresh by auto
  next
    case (rtrancl_into_rtrancl y)
    then show ?thesis
      using execution_end_keeps_refs [of y x'] that
      by (intro exI [of _ y], cases "execution_state y")
        (auto simp: execution_ended_def execution_refs_def execution_is_terminal_def)
  qed
  have "build_binds b'"
    using builds.record_inv [OF assms(4)] assms(3) unfolding build_fresh_def by blast
  then have build: "(build_state b' = BuildSucceeded \<longleftrightarrow> (\<exists>a. build_artifact_ref b' = Some a \<and> validated_reference a))
      \<and> (build_artifact_ref b' = None \<longleftrightarrow> build_state b' \<noteq> BuildSucceeded)"
    by (auto simp: build_binds_def split: option.splits)
  have valid: "\<forall>r. execution_allocation_ref x' = Some r \<or> execution_start_ref x' = Some r \<longrightarrow> validated_reference r"
    using earned by (simp add: execution_earned_def)
  show ?thesis by (intro conjI impI live ended valid build [THEN conjunct1] build [THEN conjunct2])
qed

definition demo_build :: template_build where
  "demo_build = \<lparr> build_id = ''x'', build_definition_id = ''plan'', build_version_id = ''plan'', build_input_ref = ''plan'',
     build_state = BuildRequested, build_artifact_ref = None, build_requested_at = 5, build_updated_at = 5 \<rparr>"

lemma references_are_earned_witness:
  "build_artifact_ref demo_build = None
    \<and> execution_allocation_ref (demo_execution\<lparr> execution_allocation_ref := Some ''alloc'',
        execution_state := ExecutionProvisioning, execution_updated_at := 6 \<rparr>) \<noteq> None"
proof -
  let ?x = "demo_execution\<lparr> execution_allocation_ref := Some ''alloc'', execution_state := ExecutionProvisioning,
    execution_updated_at := 6 \<rparr>"
  have new: "execution_new ''x'' ''plan'' 5 = Inr demo_execution" "build_new ''x'' ''plan'' ''plan'' ''plan'' 5 = Inr demo_build"
    by (simp_all add: execution_new_def build_new_def demo_references demo_execution_def demo_build_def)
  have "execution_step demo_execution ?x"
    unfolding execution_step_def by (rule exI [of _ 6], rule exI [of _ "''alloc''"])
      (simp add: record_provisioning_def execution_can_transition_to_def demo_references demo_execution_def)
  from references_are_earned [OF new(1) r_into_rtranclp [of execution_step, OF this] new(2) rtranclp.rtrancl_refl]
  show ?thesis by (auto simp: demo_build_def demo_execution_def)
qed

section \<open>The template registry\<close>

text \<open>
  C29: A published version resolves to one start command for ever: every version of a reachable registry names
  a published definition, so it resolves, and no later publication, accepted or refused, changes or removes
  what it resolves to. The registry never holds more than 1024 definitions or versions.
\<close>

theorem published_command_is_stable:
  assumes "publish_step\<^sup>*\<^sup>* template_registry_new r" "publish_step\<^sup>*\<^sup>* r r'"
  shows "(btm_contains (registry_versions r) ref \<longleftrightarrow> (\<exists>cmd. resolve_start_command ref r = Inr cmd))
    \<and> (\<forall>cmd. resolve_start_command ref r = Inr cmd \<longrightarrow> resolve_start_command ref r' = Inr cmd)
    \<and> length (registry_definitions r) \<le> 1024 \<and> length (registry_versions r) \<le> 1024"
proof -
  have ok: "templates_ok r" using templates.reachable_inv [OF assms(1)] .
  have grows: "registry_grows r r'" using templates.steps_grow [OF assms(2) ok] .
  have "btm_contains (registry_versions r) ref \<longleftrightarrow> (\<exists>cmd. resolve_start_command ref r = Inr cmd)"
    using ok by (auto simp: templates_ok_def resolve_iff btm_contains_def)
  then show ?thesis using ok grows resolve_grows by (auto simp: templates_ok_def template_registry_capacity_def)
qed

definition demo_definition :: template_definition where
  "demo_definition = \<lparr> definition_id = ''d1'', definition_version = ''1'', definition_base_ref = ''base'',
     definition_layers = [], definition_envs = [], definition_start_cmd = ''echo hello'', definition_published_at = 1 \<rparr>"

definition demo_version :: template_version where
  "demo_version = \<lparr> version_id = ''v1'', version_definition_id = ''d1'', version_tags = {}, version_aliases = {},
     version_artifact_ref = ''tuple'' \<rparr>"

definition demo_templates :: template_registry where
  "demo_templates = \<lparr> registry_definitions = [(''d1'', demo_definition)], registry_versions = [(''v1'', demo_version)] \<rparr>"

lemma demo_templates_reachable: "publish_step\<^sup>*\<^sup>* template_registry_new demo_templates"
proof -
  have "publish_step template_registry_new (template_registry_new\<lparr> registry_definitions := [(''d1'', demo_definition)] \<rparr>)"
    unfolding publish_step_def by (rule disjI1, rule exI [of _ demo_definition])
      (simp add: publish_definition_def template_registry_new_def template_registry_capacity_def demo_definition_def)
  moreover have "publish_step (template_registry_new\<lparr> registry_definitions := [(''d1'', demo_definition)] \<rparr>) demo_templates"
    unfolding publish_step_def by (rule disjI2, rule exI [of _ demo_version])
      (simp add: publish_version_def template_registry_new_def template_registry_capacity_def demo_version_def
        demo_templates_def btm_contains_def btm_get_def)
  ultimately show ?thesis by simp
qed

lemma demo_resolves: "resolve_start_command ''v1'' demo_templates = Inr ''echo hello''"
  by (simp add: resolve_start_command_def demo_templates_def demo_version_def demo_definition_def btm_get_def)

lemma published_command_is_stable_witness: "btm_contains (registry_versions demo_templates) ''v1''"
  using published_command_is_stable [OF demo_templates_reachable rtranclp.rtrancl_refl, of "''v1''"] demo_resolves
  by blast

section \<open>The adapter\<close>

text \<open>The execution records a run of the adapter passes through, from the accepted one.\<close>

definition accepted_execution :: "string \<Rightarrow> string \<Rightarrow> u64 \<Rightarrow> worker_execution" where
  "accepted_execution i plan now = \<lparr> execution_id = i, execution_plan_ref = plan, execution_allocation_ref = None,
     execution_start_ref = None, execution_state = ExecutionAccepted, execution_accepted_at = now,
     execution_updated_at = now \<rparr>"

definition dispatched_execution :: "string \<Rightarrow> string \<Rightarrow> string \<Rightarrow> u64 \<Rightarrow> execution_state \<Rightarrow> worker_execution" where
  "dispatched_execution i plan allocation now s = (accepted_execution i plan now)
     \<lparr> execution_allocation_ref := Some allocation, execution_start_ref := Some plan, execution_state := s \<rparr>"

lemma execution_new_accepted:
  "execution_new i plan now = Inr x \<longleftrightarrow> validated_reference i \<and> validated_reference plan \<and> x = accepted_execution i plan now"
  by (auto simp: execution_new_def accepted_execution_def)

lemma plan_consumed:
  "plan_mark_consumed now p = Inr p' \<longleftrightarrow> plan_state p = PlanPlanned \<and> plan_updated_at p \<le> now
     \<and> p' = p\<lparr> plan_state := PlanConsumed, plan_updated_at := now \<rparr>"
  by (cases "plan_state p") (auto simp: plan_mark_consumed_def plan_transition_ok plan_can_transition_to_def)

lemma record_start_outcome_dispatched:
  "record_start_outcome result now (dispatched_execution i plan allocation now ExecutionStarting)
     = (case result of
          OutcomeStarted \<Rightarrow> Inr (dispatched_execution i plan allocation now ExecutionStarted)
        | OutcomeFailed \<Rightarrow> Inl (carry StartFailed (Some (dispatched_execution i plan allocation now ExecutionFailed)))
        | OutcomeUncertain \<Rightarrow>
            Inl (carry StartUncertain (Some (dispatched_execution i plan allocation now ExecutionQuarantined))))"
  by (cases result)
    (simp_all add: record_start_outcome_def record_started_def record_failed_def execution_quarantine_def
      execution_transition_def execution_can_transition_to_def dispatched_execution_def accepted_execution_def)

lemma run_run_consumed:
  assumes "validated_reference (plan_id plan)"
  shows "run_state (run_consumed a plan (accepted_execution i (plan_id plan) now) now) w
     = (case run_state (adapter_provision a (plan_id plan)) w of
          (Inl e, w1) \<Rightarrow> (Inl (carry e (Some (accepted_execution i (plan_id plan) now))), w1)
        | (Inr allocation, w1) \<Rightarrow>
            if \<not> validated_reference allocation
            then (Inl (carry AuthorityRefused (Some (accepted_execution i (plan_id plan) now))), w1)
            else (case run_state (adapter_start a (plan_id plan) (plan_template_version_ref plan)) w1 of
                    (result, w2) \<Rightarrow>
                      (record_start_outcome result now
                         (dispatched_execution i (plan_id plan) allocation now ExecutionStarting), w2)))"
  using assms
  by (auto simp: run_consumed_def record_provisioning_def record_starting_def execution_can_transition_to_def
      accepted_execution_def dispatched_execution_def split: prod.split sum.split)

lemma adapter_run_audit:
  "case run_state (adapter_execute a plan i now) w of ((r, plan'), w') \<Rightarrow>
     (if \<not> validated_reference i \<or> \<not> validated_reference (plan_id plan)
      then r = Inl (carry AuthorityRefused None) \<and> plan' = plan \<and> w' = w
      else if plan_state plan \<noteq> PlanPlanned \<or> now < plan_updated_at plan
      then r = Inl (carry PlanNotConsumable (Some (accepted_execution i (plan_id plan) now))) \<and> plan' = plan \<and> w' = w
      else plan' = plan\<lparr> plan_state := PlanConsumed, plan_updated_at := now \<rparr>
        \<and> (case run_state (adapter_provision a (plan_id plan)) w of
             (Inl e, w1) \<Rightarrow> r = Inl (carry e (Some (accepted_execution i (plan_id plan) now))) \<and> w' = w1
           | (Inr allocation, w1) \<Rightarrow>
               if \<not> validated_reference allocation
               then r = Inl (carry AuthorityRefused (Some (accepted_execution i (plan_id plan) now))) \<and> w' = w1
               else (case run_state (adapter_start a (plan_id plan) (plan_template_version_ref plan)) w1 of
                       (result, w2) \<Rightarrow> w' = w2 \<and> r =
                         (case result of
                            OutcomeStarted \<Rightarrow> Inr (dispatched_execution i (plan_id plan) allocation now ExecutionStarted)
                          | OutcomeFailed \<Rightarrow> Inl (carry StartFailed
                              (Some (dispatched_execution i (plan_id plan) allocation now ExecutionFailed)))
                          | OutcomeUncertain \<Rightarrow> Inl (carry StartUncertain
                              (Some (dispatched_execution i (plan_id plan) allocation now ExecutionQuarantined)))))))"
proof (cases "execution_new i (plan_id plan) now")
  case (Inl e)
  then have "\<not> (validated_reference i \<and> validated_reference (plan_id plan))"
    by (simp add: execution_new_def split: if_splits)
  then show ?thesis using Inl by (simp add: adapter_execute_def)
next
  case (Inr x)
  then have x: "validated_reference i" "validated_reference (plan_id plan)" "x = accepted_execution i (plan_id plan) now"
    by (simp_all add: execution_new_accepted)
  show ?thesis
  proof (cases "plan_state plan = PlanPlanned \<and> plan_updated_at plan \<le> now")
    case True
    let ?plan = "plan\<lparr> plan_state := PlanConsumed, plan_updated_at := now \<rparr>"
    have consumed: "plan_mark_consumed now plan = Inr ?plan" using True by (simp add: plan_consumed)
    then have "run_state (adapter_execute a plan i now) w
        = (case run_state (run_consumed a ?plan x now) w of (r, w') \<Rightarrow> ((r, ?plan), w'))"
      using Inr True by (simp add: adapter_execute_def split: prod.split)
    then have run: "run_state (adapter_execute a plan i now) w
        = (case run_state (run_consumed a ?plan (accepted_execution i (plan_id ?plan) now) now) w of (r, w') \<Rightarrow> ((r, ?plan), w'))"
      using x(3) by simp
    have early: "\<not> now < plan_updated_at plan" "plan_state plan = PlanPlanned" using True by auto
    obtain p w1 where provision: "run_state (adapter_provision a (plan_id plan)) w = (p, w1)" by fastforce
    show ?thesis
    proof (cases p)
      case (Inl e)
      then show ?thesis using run run_run_consumed [of ?plan a i now w] x early provision by simp
    next
      case (Inr allocation)
      obtain result w2 where "run_state (adapter_start a (plan_id plan) (plan_template_version_ref plan)) w1 = (result, w2)"
        by fastforce
      then show ?thesis
        using run run_run_consumed [of ?plan a i now w] x early provision Inr
        by (simp add: record_start_outcome_dispatched)
    qed
  next
    case False
    then show ?thesis
      using Inr x by (auto simp: adapter_execute_def plan_mark_consumed_def plan_transition_def not_less)
  qed
qed

text \<open>
  C28: The adapter's run is accounted for on every path. A plan whose identifiers are invalid, that is not
  planned or that would run back in time is refused with nothing called and the plan as it was. Otherwise the
  plan is consumed and the provisioner is called once; the start port is called once more, with the plan's
  template version, exactly when the provisioner earned a valid reference. A run succeeds exactly when the
  start port reports started; a reported failure is recorded as failed, an uncertain start as quarantined.
  When the provisioner fails, the consumed plan is left with an execution that is still accepted.
\<close>

theorem adapter_run_is_accounted:
  "case run_state (adapter_execute a plan i now) w of ((r, plan'), w') \<Rightarrow>
     (if \<not> validated_reference i \<or> \<not> validated_reference (plan_id plan)
      then r = Inl (carry AuthorityRefused None) \<and> plan' = plan \<and> w' = w
      else if plan_state plan \<noteq> PlanPlanned \<or> now < plan_updated_at plan
      then r = Inl (carry PlanNotConsumable (Some (accepted_execution i (plan_id plan) now))) \<and> plan' = plan \<and> w' = w
      else plan' = plan\<lparr> plan_state := PlanConsumed, plan_updated_at := now \<rparr>
        \<and> (case run_state (adapter_provision a (plan_id plan)) w of
             (Inl e, w1) \<Rightarrow> r = Inl (carry e (Some (accepted_execution i (plan_id plan) now))) \<and> w' = w1
           | (Inr allocation, w1) \<Rightarrow>
               if \<not> validated_reference allocation
               then r = Inl (carry AuthorityRefused (Some (accepted_execution i (plan_id plan) now))) \<and> w' = w1
               else (case run_state (adapter_start a (plan_id plan) (plan_template_version_ref plan)) w1 of
                       (result, w2) \<Rightarrow> w' = w2 \<and> r =
                         (case result of
                            OutcomeStarted \<Rightarrow> Inr (dispatched_execution i (plan_id plan) allocation now ExecutionStarted)
                          | OutcomeFailed \<Rightarrow> Inl (carry StartFailed
                              (Some (dispatched_execution i (plan_id plan) allocation now ExecutionFailed)))
                          | OutcomeUncertain \<Rightarrow> Inl (carry StartUncertain
                              (Some (dispatched_execution i (plan_id plan) allocation now ExecutionQuarantined)))))))"
  by (rule adapter_run_audit)

definition demo_adapter :: "start_outcome \<Rightarrow> nat launch_adapter" where
  "demo_adapter result = \<lparr> adapter_provision = (\<lambda>_. State (\<lambda>w. (Inr ''alloc'', w + 1))),
     adapter_start = (\<lambda>_ _. State (\<lambda>w. (result, w + 10))) \<rparr>"

lemma adapter_run_is_accounted_witness:
  "run_state (adapter_execute (demo_adapter OutcomeUncertain) demo_plan ''x'' 7) 0
     = ((Inl (carry StartUncertain (Some (dispatched_execution ''x'' ''plan'' ''alloc'' 7 ExecutionQuarantined))),
         demo_plan\<lparr> plan_state := PlanConsumed, plan_updated_at := 7 \<rparr>), 11)"
proof -
  obtain r plan' w' where run: "run_state (adapter_execute (demo_adapter OutcomeUncertain) demo_plan ''x'' 7) 0 = ((r, plan'), w')"
    by (metis prod.exhaust)
  have plan: "plan_id demo_plan = ''plan''" "plan_state demo_plan = PlanPlanned" "\<not> 7 < plan_updated_at demo_plan"
    by (simp_all add: demo_plan_def)
  show ?thesis
    using adapter_run_is_accounted [where a = "demo_adapter OutcomeUncertain" and plan = demo_plan and i = "''x''"
        and now = 7 and w = 0] run plan demo_references
    by (simp add: demo_adapter_def)
qed

section \<open>The lane, composed\<close>

text \<open>
  C23: When the composed lane reports started, the plan was planned and is consumed, its template version is
  published, and the first word of the published start command, an executable on the boundary's allowlist,
  was spawned by the process runner with the remaining words as its arguments, inside the configured roots,
  in the workspace and with the scope's environment. The wait for it ended with its exit, with code 0, and
  the executor's outcome of that very request carries the code and the child's streams.
\<close>

theorem started_lane_ran_the_published_command:
  assumes "run_state (adapter_execute (local_lane sha b (local_backend p cfg) templates sc provision) plan i now) n
     = ((Inr x, plan'), n')"
  shows "plan_state plan = PlanPlanned \<and> plan_state plan' = PlanConsumed \<and> execution_state x = ExecutionStarted
    \<and> (\<exists>cmd exe args path dir tail allocation n1 c y streams signalled h h'.
        run_state (provision (plan_id plan)) n = (Inr allocation, n1)
        \<and> resolve_start_command (plan_template_version_ref plan) templates = Inr cmd \<and> split_whitespace cmd = exe # args
        \<and> exe \<in> allowed_executables b \<and> admitted_executable c = exe
        \<and> admitted_working_directory c = scope_working_directory sc \<and> run_inside p cfg c path dir
        \<and> run_log (exec_host n') = run_log (exec_host n1) @ Spawned path args dir (scope_environment sc) # tail
        \<and> sandbox_execute sha b (local_backend p cfg)
            (start_request sc (plan_id plan) \<lparr> resolved_executable = exe, resolved_arguments = args \<rparr>) n1 = (Inr y, n')
        \<and> outcome_exit_code y = Some 0
        \<and> run_state (host_await p (limit_timeout_ms (admitted_limits c)) signalled) h = (ChildExited (Some 0), h')
        \<and> outcome_explained (admitted_limits c) (ChildExited (Some 0)) streams tail y)"
proof -
  let ?lane = "local_lane sha b (local_backend p cfg) templates sc provision"
  note audit = adapter_run_audit [where a = ?lane and plan = plan and i = i and now = now and w = n, unfolded assms, simplified]
  have valid: "validated_reference i" "validated_reference (plan_id plan)" "plan_state plan = PlanPlanned"
      "\<not> now < plan_updated_at plan"
    and plan': "plan' = plan\<lparr> plan_state := PlanConsumed, plan_updated_at := now \<rparr>"
    using audit by (auto split: if_splits)
  obtain provided n1 where provision: "run_state (adapter_provision ?lane (plan_id plan)) n = (provided, n1)" by fastforce
  obtain allocation where provided: "provided = Inr allocation"
    using audit valid provision by (cases provided) auto
  have reference: "validated_reference allocation"
    by (rule ccontr) (use audit valid provision provided in simp)
  obtain result n2 where call: "run_state (adapter_start ?lane (plan_id plan) (plan_template_version_ref plan)) n1 = (result, n2)"
    by fastforce
  have start: "run_state (adapter_start ?lane (plan_id plan) (plan_template_version_ref plan)) n1 = (OutcomeStarted, n')"
    and x: "x = dispatched_execution i (plan_id plan) allocation now ExecutionStarted"
    using audit valid provision provided reference call by (cases result; simp)+
  obtain cmd exe args where command: "resolve_start_command (plan_template_version_ref plan) templates = Inr cmd"
      "split_whitespace cmd = exe # args"
    and ran: "start_outcome_of (fst (sandbox_execute sha b (local_backend p cfg)
        (start_request sc (plan_id plan) \<lparr> resolved_executable = exe, resolved_arguments = args \<rparr>) n1)) = OutcomeStarted"
      "n' = snd (sandbox_execute sha b (local_backend p cfg)
        (start_request sc (plan_id plan) \<lparr> resolved_executable = exe, resolved_arguments = args \<rparr>) n1)"
    using start by (auto simp: local_lane_def executor_start_def registry_resolve_def
        split: sum.splits list.splits prod.splits)
  let ?q = "start_request sc (plan_id plan) \<lparr> resolved_executable = exe, resolved_arguments = args \<rparr>"
  obtain y where y: "sandbox_execute sha b (local_backend p cfg) ?q n1 = (Inr y, n')" "outcome_exit_code y = Some 0"
    using ran by (cases "sandbox_execute sha b (local_backend p cfg) ?q n1")
      (auto simp: start_outcome_of_def split: sum.splits if_splits)
  obtain c signalled where c: "executor_admit sha b ?q = Inr c"
    and outcome: "run_state (run_admitted p cfg c signalled) (exec_host n1) = (Inr y, exec_host n')"
    using local_execute_ran [OF y(1)] by blast
  have admitted: "admitted_executable c = exe" "admitted_arguments c = args" "admitted_environment c = scope_environment sc"
    "admitted_working_directory c = scope_working_directory sc" "exe \<in> allowed_executables b"
    using c by (simp_all add: executor_admit_ok start_request_def command_accepted)
  obtain path dir tail t streams h h' where child: "run_inside p cfg c path dir"
      "run_log (exec_host n') = run_log (exec_host n1) @ Spawned path (admitted_arguments c) dir (admitted_environment c) # tail"
    and await: "run_state (host_await p (limit_timeout_ms (admitted_limits c)) signalled) h = (t, h')"
    and explained: "outcome_explained (admitted_limits c) t streams tail y"
    using run_admitted_outcome [OF outcome] by blast
  have "t = ChildExited (Some 0)"
    using explained y(2) by (auto simp: outcome_explained_def split: option.splits prod.splits reader_end.splits wait_end.splits)
  moreover have "run_state (provision (plan_id plan)) n = (Inr allocation, n1)"
    using provision provided by (simp add: local_lane_def)
  ultimately have "\<exists>path dir tail allocation n1 c y streams signalled h h'. run_state (provision (plan_id plan)) n = (Inr allocation, n1)
      \<and> admitted_executable c = exe \<and> admitted_working_directory c = scope_working_directory sc
      \<and> run_inside p cfg c path dir
      \<and> run_log (exec_host n') = run_log (exec_host n1) @ Spawned path args dir (scope_environment sc) # tail
      \<and> sandbox_execute sha b (local_backend p cfg) ?q n1 = (Inr y, n') \<and> outcome_exit_code y = Some 0
      \<and> run_state (host_await p (limit_timeout_ms (admitted_limits c)) signalled) h = (ChildExited (Some 0), h')
      \<and> outcome_explained (admitted_limits c) (ChildExited (Some 0)) streams tail y"
    using admitted child await explained y unfolding admitted(2,3) by blast
  moreover have "plan_state plan' = PlanConsumed" "execution_state x = ExecutionStarted"
    using plan' x by (simp_all add: dispatched_execution_def)
  ultimately show ?thesis using valid(3) command admitted(5) by blast
qed

definition demo_scope :: start_scope where
  "demo_scope = \<lparr> scope_tenant_id = ''t'', scope_provider_id = ''p'', scope_workspace_id = ''w'', scope_session_id = ''s'',
     scope_sandbox_id = ''x'', scope_binding_id = ''b'', scope_fencing_token = 3, scope_working_directory = ''a'',
     scope_environment = [], scope_limits = demo_limits \<rparr>"

definition echo_start :: command_request where
  "echo_start = start_request demo_scope ''plan'' \<lparr> resolved_executable = ''echo'', resolved_arguments = [''hello''] \<rparr>"

lemma demo_start_admits: "executor_admit sha demo_boundary echo_start = Inr demo_admitted"
proof -
  have start: "echo_start = (echo_command ''echo'' 3)\<lparr> command_operation_id_text := ''start-plan'' \<rparr>"
    by (simp add: echo_start_def start_request_def demo_scope_def echo_command_def)
  show ?thesis
    unfolding start using demo_admits [of sha] by (simp add: executor_admit_ok)
qed

lemma demo_start_runs:
  "\<exists>n'. sandbox_execute sha demo_boundary (local_backend demo_process demo_runner) echo_start
     (fresh_exec_node demo_run_state) = (Inr (demo_outcome (Some 0)), n')"
proof -
  let ?n = "fresh_exec_node demo_run_state"
  obtain r l where insert: "registry_insert (command_key echo_start) (live_entry sha echo_start demo_admitted 0) empty_live_state = (r, l)"
    by fastforce
  have "fst (registry_insert (command_key echo_start) (live_entry sha echo_start demo_admitted 0) empty_live_state) = Inr ()"
    by (simp add: registry_insert_ok empty_live_state_def [THEN arg_cong [where f = live_commands]] tenant_count_def
        tenant_bytes_def all_bytes_def live_entry_def demo_admitted_def demo_limits_def u64_saturating_add_unat)
  then have registered: "r = Inr ()" using insert by simp
  obtain u s1 s2 where "run_state (run_begin demo_process demo_runner demo_admitted) demo_run_state = (Inr u, s1)"
    "run_state (run_finish demo_process demo_admitted False) s1 = (Inr (demo_outcome (Some 0)), s2)"
    using echo_run [of False] by (auto simp: run_admitted_def run_try split: prod.splits sum.splits)
  then show ?thesis
    using insert registered demo_start_admits
    by (simp add: sandbox_execute_def Let_def local_backend_def fresh_exec_node_def)
qed

lemma demo_lane_starts:
  "\<exists>x plan' n'. run_state (adapter_execute (local_lane id demo_boundary (local_backend demo_process demo_runner)
      demo_templates demo_scope (\<lambda>_. ret (Inr ''alloc''))) demo_plan ''x'' 7) (fresh_exec_node demo_run_state)
     = ((Inr x, plan'), n')"
proof -
  let ?lane = "local_lane id demo_boundary (local_backend demo_process demo_runner) demo_templates demo_scope
    (\<lambda>_. ret (Inr ''alloc''))" and ?n = "fresh_exec_node demo_run_state"
  obtain r plan' n' where run: "run_state (adapter_execute ?lane demo_plan ''x'' 7) ?n = ((r, plan'), n')"
    by (metis prod.exhaust)
  have plan: "plan_id demo_plan = ''plan''" "plan_template_version_ref demo_plan = ''v1''"
    "plan_state demo_plan = PlanPlanned" "\<not> 7 < plan_updated_at demo_plan"
    by (simp_all add: demo_plan_def)
  have words: "split_whitespace ''echo hello'' = [''echo'', ''hello'']"
    by (simp add: split_whitespace_ascii ascii_text_def is_whitespace_def)
  obtain n2 where "sandbox_execute id demo_boundary (local_backend demo_process demo_runner) echo_start ?n
      = (Inr (demo_outcome (Some 0)), n2)"
    using demo_start_runs by blast
  then have "run_state (adapter_start ?lane ''plan'' ''v1'') ?n = (OutcomeStarted, n2)"
    using demo_resolves words
    by (simp add: local_lane_def executor_start_def registry_resolve_def echo_start_def [symmetric]
        start_outcome_of_def demo_outcome_def)
  moreover have "run_state (adapter_provision ?lane ''plan'') ?n = (Inr ''alloc'', ?n)"
    by (simp add: local_lane_def)
  ultimately show ?thesis
    using adapter_run_audit [where a = ?lane and plan = demo_plan and i = "''x''" and now = 7 and w = ?n] run plan
      demo_references by simp
qed

lemma started_lane_ran_the_published_command_witness:
  "\<exists>cmd. resolve_start_command (plan_template_version_ref demo_plan) demo_templates = Inr cmd
     \<and> hd (split_whitespace cmd) \<in> allowed_executables demo_boundary"
proof -
  obtain x plan' n' where "run_state (adapter_execute (local_lane id demo_boundary (local_backend demo_process demo_runner)
      demo_templates demo_scope (\<lambda>_. ret (Inr ''alloc''))) demo_plan ''x'' 7) (fresh_exec_node demo_run_state)
     = ((Inr x, plan'), n')"
    using demo_lane_starts by blast
  from started_lane_ran_the_published_command [OF this] show ?thesis by force
qed

end
