(* ===== verification/Sql_Codec.thy ===== *)
theory Sql_Codec
  imports Session_Ledger
begin

text \<open>
  The column values of the SQL adapters (\<open>codec.rs\<close> of crate
  \<open>sdkwork-intelligence-sandbox-repository-sqlx\<close>): the stored spelling of states, capabilities,
  assurance levels, failures, operation kinds and outcomes, and how they are read back. A JSON value
  is an array, a string or another value, which is all the codec tells apart. A set of capabilities is
  written in the order of the enum, the order a \<open>BTreeSet\<close> is iterated in.
\<close>

section \<open>Stored names\<close>

locale stored_names =
  fixes name :: "'a \<Rightarrow> string"
    and parse :: "string \<Rightarrow> 'a repository_result"
  assumes parse_name: "parse (name x) = Inr x"
    and name_parse: "parse s = Inr x \<Longrightarrow> name x = s"
    and parse_error: "parse s = Inl e \<Longrightarrow> e = InvalidStoredData"
begin

lemma stored_iff: "parse s = Inr x \<longleftrightarrow> s = name x"
  using parse_name name_parse by blast

lemma stored_name_inject: "name x = name y \<longleftrightarrow> x = y"
  by (metis parse_name sum.inject(2))

lemma parse_unknown: "s \<notin> range name \<Longrightarrow> parse s = Inl InvalidStoredData"
  by (cases "parse s") (auto dest: parse_error name_parse)

end

fun sandbox_session_state_value :: "sandbox_session_state \<Rightarrow> string" where
  "sandbox_session_state_value Created = ''created''"
| "sandbox_session_state_value Starting = ''starting''"
| "sandbox_session_state_value Running = ''running''"
| "sandbox_session_state_value Stopping = ''stopping''"
| "sandbox_session_state_value Stopped = ''stopped''"
| "sandbox_session_state_value Failed = ''failed''"
| "sandbox_session_state_value Destroying = ''destroying''"
| "sandbox_session_state_value Destroyed = ''destroyed''"

definition parse_sandbox_session_state :: "string \<Rightarrow> sandbox_session_state repository_result" where
  "parse_sandbox_session_state v =
     (if v = ''created'' then Inr Created
      else if v = ''starting'' then Inr Starting
      else if v = ''running'' then Inr Running
      else if v = ''stopping'' then Inr Stopping
      else if v = ''stopped'' then Inr Stopped
      else if v = ''failed'' then Inr Failed
      else if v = ''destroying'' then Inr Destroying
      else if v = ''destroyed'' then Inr Destroyed
      else Inl InvalidStoredData)"

fun sandbox_session_failure_value :: "sandbox_session_failure \<Rightarrow> string" where
  "sandbox_session_failure_value Provider = ''provider''"
| "sandbox_session_failure_value Readiness = ''readiness''"
| "sandbox_session_failure_value Cleanup = ''cleanup''"

definition parse_sandbox_session_failure :: "string \<Rightarrow> sandbox_session_failure repository_result" where
  "parse_sandbox_session_failure v =
     (if v = ''provider'' then Inr Provider
      else if v = ''readiness'' then Inr Readiness
      else if v = ''cleanup'' then Inr Cleanup
      else Inl InvalidStoredData)"

fun sandbox_operation_kind_value :: "sandbox_session_operation_kind \<Rightarrow> string" where
  "sandbox_operation_kind_value Create = ''create''"
| "sandbox_operation_kind_value Start = ''start''"
| "sandbox_operation_kind_value Stop = ''stop''"
| "sandbox_operation_kind_value Destroy = ''destroy''"

definition parse_sandbox_operation_kind :: "string \<Rightarrow> sandbox_session_operation_kind repository_result" where
  "parse_sandbox_operation_kind v =
     (if v = ''create'' then Inr Create
      else if v = ''start'' then Inr Start
      else if v = ''stop'' then Inr Stop
      else if v = ''destroy'' then Inr Destroy
      else Inl InvalidStoredData)"

definition stored_or_invalid :: "'a option \<Rightarrow> 'a repository_result" where
  "stored_or_invalid x = (case x of None \<Rightarrow> Inl InvalidStoredData | Some v \<Rightarrow> Inr v)"

definition parse_sandbox_isolation_assurance :: "string \<Rightarrow> isolation_assurance repository_result" where
  "parse_sandbox_isolation_assurance v = stored_or_invalid (provider_assurance_parse v)"

definition parse_sandbox_runtime_capability :: "string \<Rightarrow> runtime_capability repository_result" where
  "parse_sandbox_runtime_capability v = stored_or_invalid (runtime_capability_parse v)"

interpretation state_column: stored_names sandbox_session_state_value parse_sandbox_session_state
proof
  show "parse_sandbox_session_state (sandbox_session_state_value x) = Inr x" for x
    by (cases x) (simp_all add: parse_sandbox_session_state_def)
qed (auto simp: parse_sandbox_session_state_def split: if_splits)

interpretation failure_column: stored_names sandbox_session_failure_value parse_sandbox_session_failure
proof
  show "parse_sandbox_session_failure (sandbox_session_failure_value x) = Inr x" for x
    by (cases x) (simp_all add: parse_sandbox_session_failure_def)
qed (auto simp: parse_sandbox_session_failure_def split: if_splits)

interpretation kind_column: stored_names sandbox_operation_kind_value parse_sandbox_operation_kind
proof
  show "parse_sandbox_operation_kind (sandbox_operation_kind_value x) = Inr x" for x
    by (cases x) (simp_all add: parse_sandbox_operation_kind_def)
qed (auto simp: parse_sandbox_operation_kind_def split: if_splits)

interpretation assurance_column: stored_names provider_assurance_as_str parse_sandbox_isolation_assurance
  by unfold_locales (auto simp: parse_sandbox_isolation_assurance_def stored_or_invalid_def
      assurance_names.parse_name dest: assurance_names.name_parse split: option.splits)

interpretation capability_column: stored_names runtime_capability_as_str parse_sandbox_runtime_capability
  by unfold_locales (auto simp: parse_sandbox_runtime_capability_def stored_or_invalid_def
      capability_names.parse_name dest: capability_names.name_parse split: option.splits)

section \<open>Outcomes\<close>

fun sandbox_operation_outcome_values :: "sandbox_operation_outcome \<Rightarrow> string \<times> string option" where
  "sandbox_operation_outcome_values InProgress = (''in_progress'', None)"
| "sandbox_operation_outcome_values Succeeded = (''succeeded'', None)"
| "sandbox_operation_outcome_values (OutcomeFailed f) = (''failed'', Some (sandbox_session_failure_value f))"

definition parse_sandbox_operation_outcome ::
  "string \<Rightarrow> string option \<Rightarrow> sandbox_operation_outcome repository_result" where
  "parse_sandbox_operation_outcome v failure =
     (case failure of
        None \<Rightarrow>
          (if v = ''in_progress'' then Inr InProgress
           else if v = ''succeeded'' then Inr Succeeded else Inl InvalidStoredData)
      | Some f \<Rightarrow>
          (if v = ''failed'' then map_sum id OutcomeFailed (parse_sandbox_session_failure f)
           else Inl InvalidStoredData))"

lemma outcome_round_trip [simp]:
  "parse_sandbox_operation_outcome (fst (sandbox_operation_outcome_values x))
     (snd (sandbox_operation_outcome_values x)) = Inr x"
  by (cases x) (simp_all add: parse_sandbox_operation_outcome_def failure_column.parse_name)

lemma outcome_values_inject:
  "sandbox_operation_outcome_values x = sandbox_operation_outcome_values y \<longleftrightarrow> x = y"
  by (metis outcome_round_trip sum.inject(2))

section \<open>Capabilities\<close>

datatype json_value = JsonArray "json_value list" | JsonString string | JsonOther

definition all_capabilities :: "runtime_capability list" where
  "all_capabilities = [Terminal, Filesystem, Git, Build, Browser, PortForward, McpTransport, Environment]"

definition sandbox_runtime_capabilities_value :: "runtime_capability set \<Rightarrow> json_value" where
  "sandbox_runtime_capabilities_value s =
     JsonArray (map (\<lambda>c. JsonString (runtime_capability_as_str c)) (filter (\<lambda>c. c \<in> s) all_capabilities))"

text \<open>The loop over the array's elements, from the set collected so far.\<close>

fun collect_capabilities ::
  "runtime_capability set \<Rightarrow> json_value list \<Rightarrow> runtime_capability set repository_result" where
  "collect_capabilities acc [] = Inr acc"
| "collect_capabilities acc (JsonString v # vs) =
     (case parse_sandbox_runtime_capability v of
        Inl e \<Rightarrow> Inl e
      | Inr c \<Rightarrow> if c \<in> acc then Inl InvalidStoredData else collect_capabilities (insert c acc) vs)"
| "collect_capabilities acc (JsonArray _ # vs) = Inl InvalidStoredData"
| "collect_capabilities acc (JsonOther # vs) = Inl InvalidStoredData"

fun parse_sandbox_runtime_capabilities :: "json_value \<Rightarrow> runtime_capability set repository_result" where
  "parse_sandbox_runtime_capabilities (JsonArray vs) = collect_capabilities {} vs"
| "parse_sandbox_runtime_capabilities (JsonString _) = Inl InvalidStoredData"
| "parse_sandbox_runtime_capabilities JsonOther = Inl InvalidStoredData"

lemma all_capabilities_complete [simp]: "distinct all_capabilities" "c \<in> set all_capabilities"
  by (simp add: all_capabilities_def) (cases c; simp add: all_capabilities_def)

lemma collect_written:
  "distinct cs \<Longrightarrow> acc \<inter> set cs = {} \<Longrightarrow>
     collect_capabilities acc (map (\<lambda>c. JsonString (runtime_capability_as_str c)) cs) = Inr (acc \<union> set cs)"
  by (induction cs arbitrary: acc) (auto simp: capability_column.parse_name)

lemma capabilities_round_trip [simp]:
  "parse_sandbox_runtime_capabilities (sandbox_runtime_capabilities_value s) = Inr s"
proof -
  have "set (filter (\<lambda>c. c \<in> s) all_capabilities) = s" by auto
  then show ?thesis
    using collect_written [of "filter (\<lambda>c. c \<in> s) all_capabilities" "{}"]
    by (simp add: sandbox_runtime_capabilities_value_def)
qed

text \<open>Whatever array is read back names each capability of the result once.\<close>

lemma collect_reads:
  "collect_capabilities acc vs = Inr s \<Longrightarrow>
     \<exists>cs. vs = map (\<lambda>c. JsonString (runtime_capability_as_str c)) cs \<and> distinct cs
       \<and> acc \<inter> set cs = {} \<and> s = acc \<union> set cs"
proof (induction acc vs rule: collect_capabilities.induct)
  case (2 acc v vs)
  then obtain c where c: "parse_sandbox_runtime_capability v = Inr c" "c \<notin> acc"
    "collect_capabilities (insert c acc) vs = Inr s"
    by (auto split: sum.splits if_splits)
  from "2.IH" [OF c(1,2,3)] obtain cs where cs: "vs = map (\<lambda>c. JsonString (runtime_capability_as_str c)) cs"
    "distinct cs" "insert c acc \<inter> set cs = {}" "s = insert c acc \<union> set cs" by blast
  have "v = runtime_capability_as_str c" using c(1) by (simp add: capability_column.stored_iff)
  then have "JsonString v # vs = map (\<lambda>c. JsonString (runtime_capability_as_str c)) (c # cs)"
    using cs(1) by simp
  then show ?case using cs c(2) by (intro exI [of _ "c # cs"]) auto
qed auto

end
