(* ===== verification/Sql_Statements.thy ===== *)
theory Sql_Statements
  imports Sql_Codec Session_Service Instance_Model
begin

text \<open>
  The database the SQL session repository runs on: the four session tables of
  \<open>database/ddl/baseline/postgres/0001_sandbox_baseline.sql\<close> with their named constraints, a server that
  runs transactions, and the statements of \<open>repository.rs\<close> (crate
  \<open>sdkwork-intelligence-sandbox-repository-sqlx\<close>), each as a function of the transaction's clock and the
  tables. A table is the list of its rows. A statement reports the error of the first constraint it breaks
  and then has no effect. A write locks what it has touched until its transaction ends, and each write
  transaction begins with the row every other writer of the session needs, so a transaction is one step of
  the server. Before each transaction or single statement other clients act and time passes (microseconds);
  any statement or commit may fail with any error, and a commit whose reply is lost may have taken effect.
  The columns \<open>created_at\<close> and \<open>updated_at\<close> of these tables are read by no statement and left out.
\<close>


section \<open>Rows\<close>

record session_row =
  row_tenant :: string
  row_session :: string
  row_workspace :: string
  row_state :: string
  row_capabilities :: json_value
  row_assurance :: string
  row_failure :: "string option"
  row_version :: int

record operation_row =
  op_tenant :: string
  op_operation :: string
  op_session :: string
  op_sequence :: int
  op_kind :: string
  op_outcome :: string
  op_failure :: "string option"

record binding_row =
  bound_tenant :: string
  bound_binding :: string
  bound_session :: string
  bound_sandbox :: string
  bound_provider :: string
  bound_ciphertext :: "string option"
  bound_key_id :: "string option"
  bound_key_version :: "int option"
  bound_crypto_version :: "int option"

record lease_row =
  held_tenant :: string
  held_session :: string
  held_owner :: "string option"
  held_expires :: "nat option"
  held_token :: int

record sql_tables =
  session_rows :: "session_row list"
  operation_rows :: "operation_row list"
  binding_rows :: "binding_row list"
  lease_rows :: "lease_row list"

definition empty_tables :: sql_tables where
  "empty_tables = \<lparr> session_rows = [], operation_rows = [], binding_rows = [], lease_rows = [] \<rparr>"

abbreviation session_key :: "session_row \<Rightarrow> string \<times> string" where
  "session_key r \<equiv> (row_tenant r, row_session r)"

abbreviation operation_key :: "operation_row \<Rightarrow> string \<times> string" where
  "operation_key r \<equiv> (op_tenant r, op_operation r)"

abbreviation sequence_key :: "operation_row \<Rightarrow> string \<times> string \<times> int" where
  "sequence_key r \<equiv> (op_tenant r, op_session r, op_sequence r)"

abbreviation binding_key :: "binding_row \<Rightarrow> string \<times> string" where
  "binding_key r \<equiv> (bound_tenant r, bound_binding r)"

abbreviation bound_session_key :: "binding_row \<Rightarrow> string \<times> string" where
  "bound_session_key r \<equiv> (bound_tenant r, bound_session r)"

abbreviation sandbox_key :: "binding_row \<Rightarrow> string \<times> string" where
  "sandbox_key r \<equiv> (bound_tenant r, bound_sandbox r)"

abbreviation lease_key :: "lease_row \<Rightarrow> string \<times> string" where
  "lease_key r \<equiv> (held_tenant r, held_session r)"

definition row_at :: "('r \<Rightarrow> 'k) \<Rightarrow> 'k \<Rightarrow> 'r list \<Rightarrow> 'r option" where
  "row_at key k rows = find (\<lambda>r. key r = k) rows"

definition update_rows :: "('r \<Rightarrow> bool) \<Rightarrow> ('r \<Rightarrow> 'r) \<Rightarrow> 'r list \<Rightarrow> 'r list" where
  "update_rows p f rows = map (\<lambda>r. if p r then f r else r) rows"

section \<open>Errors\<close>

text \<open>\<open>sqlx::Error\<close>: the database's own error, with its code and constraint, or any other.\<close>

datatype sqlx_error = DatabaseFailure "string option" "string option" | ConnectionFailure

definition map_sandbox_sqlx_error :: "sqlx_error \<Rightarrow> sandbox_session_repository_error" where
  "map_sandbox_sqlx_error e =
     (case e of
        ConnectionFailure \<Rightarrow> RepositoryUnavailable
      | DatabaseFailure code constraint \<Rightarrow>
          if code = Some ''23505'' then
            (if constraint = Some ''pk_sandbox_session_operation'' then DuplicateOperation
             else if constraint = Some ''uk_sandbox_session_operation_sequence'' then InvalidStoredData
             else if constraint = Some ''pk_sandbox_session'' then DuplicateSandboxSession
             else if constraint = Some ''uk_sandbox_runtime_binding_sandbox'' then RuntimeBindingConflict
             else InvalidStoredData)
          else if code \<in> {Some ''23502'', Some ''23503'', Some ''23514''} then InvalidStoredData
          else RepositoryUnavailable)"

definition unique_violation :: "string \<Rightarrow> sqlx_error" where
  "unique_violation c = DatabaseFailure (Some ''23505'') (Some c)"

definition foreign_key_violation :: sqlx_error where
  "foreign_key_violation = DatabaseFailure (Some ''23503'') None"

definition check_violation :: sqlx_error where
  "check_violation = DatabaseFailure (Some ''23514'') None"

section \<open>Check constraints\<close>

definition char_length_between :: "nat \<Rightarrow> nat \<Rightarrow> string \<Rightarrow> bool" where
  "char_length_between a b s \<longleftrightarrow> a \<le> utf8_length s \<and> utf8_length s \<le> b"

definition session_checks :: "session_row \<Rightarrow> bool" where
  "session_checks r \<longleftrightarrow>
     char_length_between 1 128 (row_tenant r) \<and> char_length_between 1 128 (row_session r)
     \<and> char_length_between 1 128 (row_workspace r)
     \<and> row_state r \<in> set [''created'', ''starting'', ''running'', ''stopping'', ''stopped'', ''failed'',
         ''destroying'', ''destroyed'']
     \<and> (case row_capabilities r of JsonArray vs \<Rightarrow> length vs \<le> 32 | _ \<Rightarrow> False)
     \<and> row_assurance r \<in> set [''host_user'', ''container'', ''user_space_kernel'', ''micro_vm'', ''dedicated_vm'']
     \<and> (case row_failure r of None \<Rightarrow> True | Some f \<Rightarrow> f \<in> set [''provider'', ''readiness'', ''cleanup''])
     \<and> 0 \<le> row_version r"

definition operation_checks :: "operation_row \<Rightarrow> bool" where
  "operation_checks r \<longleftrightarrow>
     char_length_between 1 128 (op_operation r) \<and> 0 \<le> op_sequence r
     \<and> op_kind r \<in> set [''create'', ''start'', ''stop'', ''destroy'']
     \<and> op_outcome r \<in> set [''in_progress'', ''succeeded'', ''failed'']
     \<and> (case op_failure r of
          None \<Rightarrow> op_outcome r \<noteq> ''failed''
        | Some f \<Rightarrow> op_outcome r = ''failed'' \<and> f \<in> set [''provider'', ''readiness'', ''cleanup''])"

definition binding_checks :: "binding_row \<Rightarrow> bool" where
  "binding_checks r \<longleftrightarrow>
     char_length_between 1 128 (bound_binding r) \<and> char_length_between 1 128 (bound_sandbox r)
     \<and> char_length_between 1 128 (bound_provider r)
     \<and> (case (bound_ciphertext r, bound_key_id r, bound_key_version r, bound_crypto_version r) of
          (None, None, None, None) \<Rightarrow> True
        | (Some c, Some k, Some kv, Some cv) \<Rightarrow>
            char_length_between 1 8192 c \<and> char_length_between 1 128 k \<and> list_all is_ascii_graphic k
            \<and> 0 < kv \<and> 0 < cv
        | _ \<Rightarrow> False)"

definition lease_checks :: "lease_row \<Rightarrow> bool" where
  "lease_checks r \<longleftrightarrow>
     (case held_owner r of None \<Rightarrow> held_expires r = None
      | Some w \<Rightarrow> char_length_between 1 128 w \<and> held_expires r \<noteq> None)
     \<and> 0 \<le> held_token r"


section \<open>The server\<close>

record sql_server =
  server_tables :: sql_tables
  server_clock :: nat
  server_faults :: "(sqlx_error \<times> bool) option list"
  server_rivals :: "(nat \<times> (sql_tables \<Rightarrow> sql_tables)) list"

type_synonym 'a sql = "(sql_server, 'a repository_result) state"
type_synonym 'a sql_statement = "nat \<Rightarrow> sql_tables \<Rightarrow> sqlx_error + ('a \<times> sql_tables)"

text \<open>Before the next unit of work: other clients act, and time passes.\<close>

definition others_act :: "sql_server \<Rightarrow> sql_server" where
  "others_act v =
     (case server_rivals v of
        [] \<Rightarrow> v
      | (now, act) # rest \<Rightarrow>
          v\<lparr> server_tables := act (server_tables v), server_clock := now, server_rivals := rest \<rparr>)"

definition take_fault :: "sql_server \<Rightarrow> (sqlx_error \<times> bool) option \<times> sql_server" where
  "take_fault v =
     (case server_faults v of [] \<Rightarrow> (None, v) | f # fs \<Rightarrow> (f, v\<lparr> server_faults := fs \<rparr>))"

definition run_statement :: "'a sql_statement \<Rightarrow> sql_server \<Rightarrow> 'a repository_result \<times> sql_server" where
  "run_statement f v =
     (case f (server_clock v) (server_tables v) of
        Inl e \<Rightarrow> (Inl (map_sandbox_sqlx_error e), v)
      | Inr (x, tb) \<Rightarrow> (Inr x, v\<lparr> server_tables := tb \<rparr>))"

text \<open>A statement inside a transaction.\<close>

definition statement :: "'a sql_statement \<Rightarrow> 'a sql" where
  "statement f = State (\<lambda>v. case take_fault v of
     (Some (e, _), v1) \<Rightarrow> (Inl (map_sandbox_sqlx_error e), v1)
   | (None, v1) \<Rightarrow> run_statement f v1)"

text \<open>
  A statement on its own, its own transaction. When the connection is lost it may have taken effect.
\<close>

definition single_statement :: "'a sql_statement \<Rightarrow> 'a sql" where
  "single_statement f = State (\<lambda>v. case take_fault (others_act v) of
     (Some (e, done), v1) \<Rightarrow>
       (Inl (map_sandbox_sqlx_error e),
        if done \<and> e = ConnectionFailure then snd (run_statement f v1) else v1)
   | (None, v1) \<Rightarrow> run_statement f v1)"

text \<open>\<open>begin\<close>, the body, and \<open>commit\<close>; a transaction that is dropped is rolled back.\<close>

definition nothing :: "unit sql_statement" where
  "nothing _ tb = Inr ((), tb)"

definition commit :: "sql_tables \<Rightarrow> 'a \<Rightarrow> 'a sql" where
  "commit old x = State (\<lambda>v. case take_fault v of
     (Some (e, done), v1) \<Rightarrow>
       (Inl (map_sandbox_sqlx_error e),
        if done \<and> e = ConnectionFailure then v1 else v1\<lparr> server_tables := old \<rparr>)
   | (None, v1) \<Rightarrow> (Inr x, v1))"

definition transaction :: "'a sql \<Rightarrow> 'a sql" where
  "transaction body = State (\<lambda>v0. let v = others_act v0 in
     case run_state (try_bind (statement nothing) (\<lambda>_. body)) v of
       (Inl e, v1) \<Rightarrow> (Inl e, v1\<lparr> server_tables := server_tables v \<rparr>)
     | (Inr x, v1) \<Rightarrow> run_state (commit (server_tables v) x) v1)"

section \<open>Statements on the session and operation tables\<close>

definition insert_session_row :: "session_row \<Rightarrow> unit sql_statement" where
  "insert_session_row r now tb =
     (if \<not> session_checks r then Inl check_violation
      else if row_at session_key (session_key r) (session_rows tb) \<noteq> None
        then Inl (unique_violation ''pk_sandbox_session'')
      else Inr ((), tb\<lparr> session_rows := session_rows tb @ [r] \<rparr>))"

text \<open>\<open>UPDATE .. WHERE tenant_id = $1 AND sandbox_session_id = $2 AND version = $9\<close>; the rows affected.\<close>

definition update_session_row :: "session_row \<Rightarrow> int \<Rightarrow> nat sql_statement" where
  "update_session_row r expected now tb =
     (let hit = (\<lambda>x. session_key x = session_key r \<and> row_version x = expected);
          n = length (filter hit (session_rows tb))
      in if n > 0 \<and> \<not> session_checks r then Inl check_violation
         else Inr (n, tb\<lparr> session_rows := update_rows hit (\<lambda>_. r) (session_rows tb) \<rparr>))"

definition session_exists :: "string \<Rightarrow> string \<Rightarrow> bool sql_statement" where
  "session_exists t sid now tb = Inr (row_at session_key (t, sid) (session_rows tb) \<noteq> None, tb)"

definition add_operation_row :: "operation_row \<Rightarrow> nat sql_statement" where
  "add_operation_row r now tb =
     (if row_at sequence_key (sequence_key r) (operation_rows tb) \<noteq> None
        then Inl (unique_violation ''uk_sandbox_session_operation_sequence'')
      else if row_at session_key (op_tenant r, op_session r) (session_rows tb) = None
        then Inl foreign_key_violation
      else Inr (1, tb\<lparr> operation_rows := operation_rows tb @ [r] \<rparr>))"

definition insert_operation_row :: "operation_row \<Rightarrow> nat sql_statement" where
  "insert_operation_row r now tb =
     (if \<not> operation_checks r then Inl check_violation
      else if row_at operation_key (operation_key r) (operation_rows tb) \<noteq> None
        then Inl (unique_violation ''pk_sandbox_session_operation'')
      else add_operation_row r now tb)"

text \<open>
  \<open>ON CONFLICT (tenant_id, sandbox_operation_id) DO UPDATE\<close> of the outcome and the failure, \<open>WHERE\<close>
  session, sequence and kind are the existing row's.
\<close>

definition upsert_operation_row :: "operation_row \<Rightarrow> nat sql_statement" where
  "upsert_operation_row r now tb =
     (if \<not> operation_checks r then Inl check_violation
      else
        (case row_at operation_key (operation_key r) (operation_rows tb) of
           None \<Rightarrow> add_operation_row r now tb
         | Some x \<Rightarrow>
             if op_session x = op_session r \<and> op_sequence x = op_sequence r \<and> op_kind x = op_kind r then
               Inr (1, tb\<lparr> operation_rows := update_rows (\<lambda>y. operation_key y = operation_key r)
                 (\<lambda>y. y\<lparr> op_outcome := op_outcome r, op_failure := op_failure r \<rparr>) (operation_rows tb) \<rparr>)
             else Inr (0, tb)))"

definition find_operation_session :: "string \<Rightarrow> string \<Rightarrow> string option sql_statement" where
  "find_operation_session t oid now tb =
     Inr (map_option op_session (row_at operation_key (t, oid) (operation_rows tb)), tb)"

section \<open>Statements on the binding table\<close>

definition delete_binding_row :: "string \<Rightarrow> string \<Rightarrow> unit sql_statement" where
  "delete_binding_row t sid now tb =
     Inr ((), tb\<lparr> binding_rows := filter (\<lambda>r. bound_session_key r \<noteq> (t, sid)) (binding_rows tb) \<rparr>)"

text \<open>
  \<open>INSERT .. ON CONFLICT (tenant_id, sandbox_session_id) DO UPDATE\<close> of every other column; either way the
  other two unique constraints are checked against the remaining rows.
\<close>

definition binding_clash :: "binding_row \<Rightarrow> binding_row list \<Rightarrow> sqlx_error option" where
  "binding_clash r others =
     (if row_at binding_key (binding_key r) others \<noteq> None
        then Some (unique_violation ''pk_sandbox_runtime_binding'')
      else if row_at sandbox_key (sandbox_key r) others \<noteq> None
        then Some (unique_violation ''uk_sandbox_runtime_binding_sandbox'')
      else None)"

definition upsert_binding_row :: "binding_row \<Rightarrow> unit sql_statement" where
  "upsert_binding_row r now tb =
     (let same = (\<lambda>x. bound_session_key x = bound_session_key r);
          others = filter (\<lambda>x. \<not> same x) (binding_rows tb)
      in if \<not> binding_checks r then Inl check_violation
         else
           (case binding_clash r others of
              Some e \<Rightarrow> Inl e
            | None \<Rightarrow>
                if list_ex same (binding_rows tb) then
                  Inr ((), tb\<lparr> binding_rows := update_rows same (\<lambda>_. r) (binding_rows tb) \<rparr>)
                else if row_at session_key (bound_session_key r) (session_rows tb) = None then
                  Inl foreign_key_violation
                else Inr ((), tb\<lparr> binding_rows := binding_rows tb @ [r] \<rparr>)))"

section \<open>Statements on the lease table\<close>

definition ensure_lease_row :: "string \<Rightarrow> string \<Rightarrow> unit sql_statement" where
  "ensure_lease_row t sid now tb =
     (if row_at lease_key (t, sid) (lease_rows tb) \<noteq> None then Inr ((), tb)
      else if row_at session_key (t, sid) (session_rows tb) = None then Inl foreign_key_violation
      else Inr ((), tb\<lparr> lease_rows := lease_rows tb @
             [\<lparr> held_tenant = t, held_session = sid, held_owner = None, held_expires = None,
                held_token = 0 \<rparr>] \<rparr>))"

text \<open>\<open>(EXTRACT(EPOCH FROM ..) * 1000)::BIGINT\<close> of a microsecond timestamp rounds to the nearest.\<close>

definition epoch_millis :: "nat \<Rightarrow> int" where
  "epoch_millis us = int ((us + 500) div 1000)"

definition lease_free :: "nat \<Rightarrow> lease_row \<Rightarrow> bool" where
  "lease_free now r \<longleftrightarrow> held_owner r = None \<or> (case held_expires r of None \<Rightarrow> False | Some e \<Rightarrow> e \<le> now)"

definition set_lease :: "lease_row \<Rightarrow> sql_tables \<Rightarrow> sql_tables" where
  "set_lease r tb = tb\<lparr> lease_rows := update_rows (\<lambda>x. lease_key x = lease_key r) (\<lambda>_. r) (lease_rows tb) \<rparr>"

text \<open>
  The lease-take statement: an insert from the session's row that, on conflict, takes over a free or
  expired lease under the next token; the token and the expiry, when a row was affected.
\<close>

definition take_lease :: "string \<Rightarrow> string \<Rightarrow> string \<Rightarrow> int \<Rightarrow> (int \<times> int) option sql_statement" where
  "take_lease t sid owner millis now tb =
     (let expires = now + nat millis * 1000;
          fresh = \<lparr> held_tenant = t, held_session = sid, held_owner = Some owner,
            held_expires = Some expires, held_token = 1 \<rparr>
      in if row_at session_key (t, sid) (session_rows tb) = None then Inr (None, tb)
         else if \<not> lease_checks fresh then Inl check_violation
         else
           (case row_at lease_key (t, sid) (lease_rows tb) of
              None \<Rightarrow> Inr (Some (1, epoch_millis expires), tb\<lparr> lease_rows := lease_rows tb @ [fresh] \<rparr>)
            | Some r \<Rightarrow>
                if lease_free now r \<and> held_token r < i64_max then
                  Inr (Some (held_token r + 1, epoch_millis expires),
                    set_lease (fresh\<lparr> held_token := held_token r + 1 \<rparr>) tb)
                else Inr (None, tb)))"

text \<open>The classification after a failed take: the token and whether the lease is available.\<close>

definition lease_status :: "string \<Rightarrow> string \<Rightarrow> (int option \<times> bool) option sql_statement" where
  "lease_status t sid now tb =
     Inr (if row_at session_key (t, sid) (session_rows tb) = None then None
          else
            (case row_at lease_key (t, sid) (lease_rows tb) of
               None \<Rightarrow> Some (None, True)
             | Some r \<Rightarrow> Some (Some (held_token r), lease_free now r)), tb)"

definition lease_row_held :: "sandbox_session_lease \<Rightarrow> nat \<Rightarrow> lease_row \<Rightarrow> bool" where
  "lease_row_held l now r \<longleftrightarrow>
     held_owner r = Some (lease_owner_id l) \<and> held_token r = int (unat (lease_fencing_token l))
     \<and> (case held_expires r of None \<Rightarrow> False | Some e \<Rightarrow> now < e)"

text \<open>\<open>SELECT 1 .. FOR UPDATE\<close> of the lease the caller claims to hold.\<close>

definition lock_lease :: "sandbox_session_lease \<Rightarrow> bool sql_statement" where
  "lock_lease l now tb =
     Inr (case row_at lease_key (lease_tenant_id l, lease_session_id l) (lease_rows tb) of
            None \<Rightarrow> False | Some r \<Rightarrow> lease_row_held l now r, tb)"

definition renew_lease_row :: "sandbox_session_lease \<Rightarrow> int \<Rightarrow> (int \<times> int) option sql_statement" where
  "renew_lease_row l millis now tb =
     (case row_at lease_key (lease_tenant_id l, lease_session_id l) (lease_rows tb) of
        None \<Rightarrow> Inr (None, tb)
      | Some r \<Rightarrow>
          (let expires = now + nat millis * 1000
           in if lease_row_held l now r then
                Inr (Some (held_token r, epoch_millis expires),
                  set_lease (r\<lparr> held_expires := Some expires \<rparr>) tb)
              else Inr (None, tb)))"

definition release_lease_row :: "sandbox_session_lease \<Rightarrow> bool sql_statement" where
  "release_lease_row l now tb =
     (case row_at lease_key (lease_tenant_id l, lease_session_id l) (lease_rows tb) of
        None \<Rightarrow> Inr (False, tb)
      | Some r \<Rightarrow>
          if held_owner r = Some (lease_owner_id l) \<and> held_token r = int (unat (lease_fencing_token l)) then
            Inr (True, set_lease (r\<lparr> held_owner := None, held_expires := None \<rparr>) tb)
          else Inr (False, tb))"

end
