(* ===== verification/Sql_Repository.thy ===== *)
theory Sql_Repository
  imports Sql_Statements Session_Store
begin

text \<open>
  The PostgreSQL session repository (\<open>repository.rs\<close> of crate
  \<open>sdkwork-intelligence-sandbox-repository-sqlx\<close>): how rows become a snapshot, and every operation of the
  repository port as its sequence of statements. The pool is a PostgreSQL pool (\<open>new\<close> refuses any other).
  The order of text in \<open>ORDER BY\<close> and \<open>>\<close> is that of the database's collation, a sort key of each text.
\<close>

section \<open>From rows to a snapshot\<close>

definition stored_id :: "string \<Rightarrow> string repository_result" where
  "stored_id v = map_sum (\<lambda>_. InvalidStoredData) id (opaque_id_parse ''stored_id'' v)"

definition u64_from_i64 :: "int \<Rightarrow> u64 repository_result" where
  "u64_from_i64 v = (if 0 \<le> v then Inr (of_int v) else Inl InvalidStoredData)"

definition u16_from_i16 :: "int \<Rightarrow> 16 word repository_result" where
  "u16_from_i16 v = (if 0 \<le> v then Inr (of_int v) else Inl InvalidStoredData)"

definition i64_from_u64 :: "u64 \<Rightarrow> sandbox_session_repository_error \<Rightarrow> int repository_result" where
  "i64_from_u64 v e = (if int (unat v) \<le> i64_max then Inr (int (unat v)) else Inl e)"

definition i16_from_u16 :: "16 word \<Rightarrow> sandbox_session_repository_error \<Rightarrow> int repository_result" where
  "i16_from_u16 v e = (if unat v \<le> 32767 then Inr (int (unat v)) else Inl e)"

abbreviation and_then :: "('e + 'a) \<Rightarrow> ('a \<Rightarrow> 'e + 'b) \<Rightarrow> 'e + 'b" where
  "and_then r k \<equiv> case r of Inl e \<Rightarrow> Inl e | Inr x \<Rightarrow> k x"

definition parse_protected_columns ::
  "string option \<Rightarrow> string option \<Rightarrow> int option \<Rightarrow> int option \<Rightarrow> protected_allocation_ref option repository_result" where
  "parse_protected_columns c k kv cv =
     (case (c, k, kv, cv) of
        (None, None, None, None) \<Rightarrow> Inr None
      | (Some c', Some k', Some kv', Some cv') \<Rightarrow>
          and_then (u64_from_i64 kv') (\<lambda>kv''. and_then (u16_from_i16 cv') (\<lambda>cv''.
            map_sum id Some (protected_allocation_ref_new c' k' kv'' cv'')))
      | _ \<Rightarrow> Inl InvalidStoredData)"

definition parse_sandbox_runtime_binding_row :: "binding_row \<Rightarrow> sandbox_binding_snapshot repository_result" where
  "parse_sandbox_runtime_binding_row r =
     and_then (parse_protected_columns (bound_ciphertext r) (bound_key_id r) (bound_key_version r)
         (bound_crypto_version r)) (\<lambda>q.
       and_then (stored_id (bound_sandbox r)) (\<lambda>sandbox.
         and_then (stored_id (bound_binding r)) (\<lambda>binding.
           and_then (stored_id (bound_provider r)) (\<lambda>provider.
             Inr \<lparr> snapshot_sandbox_id = sandbox, snapshot_runtime_binding_id = binding,
               snapshot_provider_id = provider, snapshot_protected_reference = q \<rparr>))))"

definition parse_operation_row :: "operation_row \<Rightarrow> (int \<times> sandbox_operation_snapshot) repository_result" where
  "parse_operation_row r =
     and_then (stored_id (op_operation r)) (\<lambda>oid.
       and_then (parse_sandbox_operation_kind (op_kind r)) (\<lambda>kind.
         and_then (parse_sandbox_operation_outcome (op_outcome r) (op_failure r)) (\<lambda>outcome.
           Inr (op_sequence r, sandbox_session_operation_restore oid kind outcome))))"

definition map_results :: "('a \<Rightarrow> 'e + 'b) \<Rightarrow> 'a list \<Rightarrow> 'e + 'b list" where
  "map_results f xs = foldr (\<lambda>x r. and_then (f x) (\<lambda>y. map_sum id ((#) y) r)) xs (Inr [])"

text \<open>
  The window of a session: its rows in the order of their sequence, one more of them than a session may
  have.
\<close>

definition operation_window :: "string \<Rightarrow> string \<Rightarrow> sql_tables \<Rightarrow> operation_row list" where
  "operation_window t sid tb =
     take (max_sandbox_session_persisted_operations + 1)
       (sort_key op_sequence (filter (\<lambda>r. op_tenant r = t \<and> op_session r = sid) (operation_rows tb)))"

definition select_session_rows :: "string \<Rightarrow> string list \<Rightarrow> session_row list sql_statement" where
  "select_session_rows t ids now tb =
     Inr (filter (\<lambda>r. row_tenant r = t \<and> row_session r \<in> set ids) (session_rows tb), tb)"

definition select_binding_rows :: "string \<Rightarrow> string list \<Rightarrow> binding_row list sql_statement" where
  "select_binding_rows t ids now tb =
     Inr (filter (\<lambda>r. bound_tenant r = t \<and> bound_session r \<in> set ids) (binding_rows tb), tb)"

definition select_operation_windows ::
  "string \<Rightarrow> string list \<Rightarrow> (string \<times> operation_row list) list sql_statement" where
  "select_operation_windows t ids now tb =
     Inr (map (\<lambda>sid. (sid, operation_window t sid tb)) (remdups ids), tb)"

text \<open>One row per identifier, or the store contradicts its own keys.\<close>

definition rows_by_id :: "('r \<Rightarrow> string) \<Rightarrow> 'r list \<Rightarrow> (string \<Rightarrow> 'r option) repository_result" where
  "rows_by_id key rows =
     (if distinct (map key rows) then Inr (\<lambda>k. row_at key k rows) else Inl InvalidStoredData)"

definition operations_by_id ::
  "(string \<times> operation_row list) list
     \<Rightarrow> (string \<Rightarrow> (int \<times> sandbox_operation_snapshot) list option) repository_result" where
  "operations_by_id windows =
     (if list_ex (\<lambda>(sid, rows). length rows > max_sandbox_session_persisted_operations) windows
      then Inl InvalidStoredData
      else
        and_then (map_results (\<lambda>(sid, rows). map_sum id (Pair sid) (map_results parse_operation_row rows)) windows)
          (\<lambda>parsed. Inr (\<lambda>sid. case map_of parsed sid of
             None \<Rightarrow> None | Some xs \<Rightarrow> if xs = [] then None else Some xs)))"

definition ledger_of_rows ::
  "(int \<times> sandbox_operation_snapshot) list option \<Rightarrow> sandbox_operation_snapshot list repository_result" where
  "ledger_of_rows rows =
     (case rows of
        None \<Rightarrow> Inl InvalidStoredData
      | Some xs \<Rightarrow>
          if list_all (\<lambda>(i, seq). seq = int i) (zip [0..<length xs] (map fst xs)) then Inr (map snd xs)
          else Inl InvalidStoredData)"

definition snapshot_from_rows ::
  "string \<Rightarrow> string \<Rightarrow> session_row \<Rightarrow> (int \<times> sandbox_operation_snapshot) list option
     \<Rightarrow> sandbox_binding_snapshot option \<Rightarrow> sandbox_session_snapshot repository_result" where
  "snapshot_from_rows t sid r ops b =
     and_then (stored_id (row_tenant r)) (\<lambda>t'.
     and_then (stored_id (row_workspace r)) (\<lambda>w.
     and_then (stored_id (row_session r)) (\<lambda>sid'.
       if t' \<noteq> t \<or> sid' \<noteq> sid then Inl InvalidStoredData
       else
         and_then (ledger_of_rows ops) (\<lambda>ledger.
         and_then (parse_sandbox_session_state (row_state r)) (\<lambda>st.
         and_then (parse_sandbox_runtime_capabilities (row_capabilities r)) (\<lambda>caps.
         and_then (parse_sandbox_isolation_assurance (row_assurance r)) (\<lambda>assurance.
         and_then (case row_failure r of None \<Rightarrow> Inr None
             | Some f \<Rightarrow> map_sum id Some (parse_sandbox_session_failure f)) (\<lambda>failure.
         and_then (u64_from_i64 (row_version r)) (\<lambda>v.
           Inr \<lparr> snapshot_tenant_id = t', snapshot_workspace_id = w, snapshot_session_id = sid',
             snapshot_state = st, snapshot_required_capabilities = caps,
             snapshot_minimum_assurance = assurance, snapshot_runtime_binding = b,
             snapshot_last_failure = failure, snapshot_operations = ledger,
             snapshot_persisted_operations = None, snapshot_version = v \<rparr>)))))))))"

text \<open>The loop over the requested identifiers, which takes each session's rows out of the maps.\<close>

fun assemble_snapshots ::
  "string \<Rightarrow> string list \<Rightarrow> (string \<Rightarrow> session_row option)
     \<Rightarrow> (string \<Rightarrow> (int \<times> sandbox_operation_snapshot) list option)
     \<Rightarrow> (string \<Rightarrow> sandbox_binding_snapshot option) \<Rightarrow> sandbox_session_snapshot list repository_result" where
  "assemble_snapshots t [] ss ops bs = Inr []"
| "assemble_snapshots t (sid # ids) ss ops bs =
     (case ss sid of
        None \<Rightarrow> assemble_snapshots t ids ss ops bs
      | Some r \<Rightarrow>
          and_then (snapshot_from_rows t sid r (ops sid) (bs sid)) (\<lambda>snap.
            map_sum id ((#) snap)
              (assemble_snapshots t ids (ss(sid := None)) (ops(sid := None)) (bs(sid := None)))))"

definition parse_binding_rows ::
  "binding_row list \<Rightarrow> (string \<Rightarrow> sandbox_binding_snapshot option) repository_result" where
  "parse_binding_rows rows =
     (if \<not> distinct (map bound_session rows) then Inl InvalidStoredData
      else and_then (map_results (\<lambda>r. map_sum id (Pair (bound_session r)) (parse_sandbox_runtime_binding_row r)) rows)
        (\<lambda>parsed. Inr (map_of parsed)))"

definition load_sandbox_session_snapshots ::
  "string \<Rightarrow> string list \<Rightarrow> sandbox_session_snapshot list sql" where
  "load_sandbox_session_snapshots t ids =
     (if ids = [] then ret (Inr [])
      else
        try_bind (statement (select_session_rows t ids)) (\<lambda>rows.
        try_bind (ret (rows_by_id row_session rows)) (\<lambda>ss.
        try_bind (statement (select_binding_rows t ids)) (\<lambda>bindings.
        try_bind (ret (parse_binding_rows bindings)) (\<lambda>bs.
        try_bind (statement (select_operation_windows t ids)) (\<lambda>windows.
        try_bind (ret (operations_by_id windows)) (\<lambda>ops.
          ret (assemble_snapshots t ids ss ops bs))))))))"

definition load_sandbox_session_snapshot :: "string \<Rightarrow> string \<Rightarrow> sandbox_session_snapshot option sql" where
  "load_sandbox_session_snapshot t sid =
     try_bind (load_sandbox_session_snapshots t [sid])
       (\<lambda>snaps. ret (Inr (if snaps = [] then None else Some (last snaps))))"

section \<open>Writing a snapshot\<close>

definition operation_row_of ::
  "string \<Rightarrow> string \<Rightarrow> nat \<Rightarrow> sandbox_operation_snapshot \<Rightarrow> operation_row" where
  "operation_row_of t sid i x =
     \<lparr> op_tenant = t, op_operation = operation_id_of x, op_session = sid, op_sequence = int i,
       op_kind = sandbox_operation_kind_value (operation_kind x),
       op_outcome = fst (sandbox_operation_outcome_values (operation_outcome x)),
       op_failure = snd (sandbox_operation_outcome_values (operation_outcome x)) \<rparr>"

text \<open>The loop of \<open>insert_sandbox_operations\<close>, at the position of its next entry.\<close>

fun insert_sandbox_operations ::
  "string \<Rightarrow> string \<Rightarrow> bool \<Rightarrow> nat \<Rightarrow> sandbox_operation_snapshot list \<Rightarrow> unit sql" where
  "insert_sandbox_operations t sid allow_update i [] = ret (Inr ())"
| "insert_sandbox_operations t sid allow_update i (x # xs) =
     try_bind (statement ((if allow_update then upsert_operation_row else insert_operation_row)
         (operation_row_of t sid i x)))
       (\<lambda>n. if n \<noteq> 1 then ret (Inl DuplicateOperation)
            else insert_sandbox_operations t sid allow_update (Suc i) xs)"

definition binding_row_of ::
  "string \<Rightarrow> string \<Rightarrow> sandbox_binding_snapshot \<Rightarrow> binding_row repository_result" where
  "binding_row_of t sid b =
     (let row = (\<lambda>c k kv cv. \<lparr> bound_tenant = t, bound_binding = snapshot_runtime_binding_id b,
        bound_session = sid, bound_sandbox = snapshot_sandbox_id b, bound_provider = snapshot_provider_id b,
        bound_ciphertext = c, bound_key_id = k, bound_key_version = kv, bound_crypto_version = cv \<rparr>)
      in (case snapshot_protected_reference b of
            None \<Rightarrow> Inr (row None None None None)
          | Some q \<Rightarrow>
              and_then (i64_from_u64 (protected_key_version q) InvalidStoredData) (\<lambda>kv.
              and_then (i16_from_u16 (protected_crypto_version q) InvalidStoredData) (\<lambda>cv.
                Inr (row (Some (protected_ciphertext q)) (Some (protected_key_id q)) (Some kv) (Some cv))))))"

definition sync_sandbox_runtime_binding :: "sandbox_session_snapshot \<Rightarrow> unit sql" where
  "sync_sandbox_runtime_binding snap =
     (case snapshot_runtime_binding snap of
        None \<Rightarrow> statement (delete_binding_row (snapshot_tenant_id snap) (snapshot_session_id snap))
      | Some b \<Rightarrow>
          try_bind (ret (binding_row_of (snapshot_tenant_id snap) (snapshot_session_id snap) b))
            (\<lambda>r. statement (upsert_binding_row r)))"

definition session_row_of :: "sandbox_session_snapshot \<Rightarrow> session_row repository_result" where
  "session_row_of snap =
     and_then (i64_from_u64 (snapshot_version snap) InvalidStoredData) (\<lambda>v.
       Inr \<lparr> row_tenant = snapshot_tenant_id snap, row_session = snapshot_session_id snap,
         row_workspace = snapshot_workspace_id snap,
         row_state = sandbox_session_state_value (snapshot_state snap),
         row_capabilities = sandbox_runtime_capabilities_value (snapshot_required_capabilities snap),
         row_assurance = provider_assurance_as_str (snapshot_minimum_assurance snap),
         row_failure = map_option sandbox_session_failure_value (snapshot_last_failure snap),
         row_version = v \<rparr>)"

text \<open>The two \<open>set_config\<close> statements that bound the transaction's time.\<close>

definition enforce_sandbox_transaction_timeouts :: "unit sql" where
  "enforce_sandbox_transaction_timeouts = try_bind (statement nothing) (\<lambda>_. statement nothing)"

section \<open>Reading\<close>

definition read_sandbox_session ::
  "allocation_protector \<Rightarrow> string \<Rightarrow> string \<Rightarrow> sandbox_session option sql" where
  "read_sandbox_session p t sid =
     try_bind (transaction (try_bind (statement nothing)
         (\<lambda>_. try_bind enforce_sandbox_transaction_timeouts (\<lambda>_. load_sandbox_session_snapshot t sid))))
       (\<lambda>snap. ret (case snap of None \<Rightarrow> Inr None | Some s \<Rightarrow> map_sum id Some (snapshot_restore p s)))"

definition sql_find_by_sandbox_operation ::
  "allocation_protector \<Rightarrow> string \<Rightarrow> string \<Rightarrow> sandbox_session option sql" where
  "sql_find_by_sandbox_operation p t oid =
     try_bind (single_statement (find_operation_session t oid))
       (\<lambda>found. case found of
          None \<Rightarrow> ret (Inr None)
        | Some v \<Rightarrow> try_bind (ret (stored_id v)) (read_sandbox_session p t))"

definition transient_states :: "string list" where
  "transient_states = [''starting'', ''stopping'', ''destroying'']"

definition select_transient_sessions ::
  "(string \<Rightarrow> string) \<Rightarrow> string \<Rightarrow> string option \<Rightarrow> nat \<Rightarrow> (string \<times> string) list sql_statement" where
  "select_transient_sessions collate t after n now tb =
     Inr (map (\<lambda>r. (row_session r, row_state r))
       (take n (sort_key (\<lambda>r. collate (row_session r))
         (filter (\<lambda>r. row_tenant r = t \<and> row_state r \<in> set transient_states
            \<and> (case after of None \<Rightarrow> True | Some a \<Rightarrow> collate a < collate (row_session r))) (session_rows tb)))), tb)"

definition sql_list_requiring_reconciliation ::
  "(string \<Rightarrow> string) \<Rightarrow> string \<Rightarrow> string option \<Rightarrow> nat \<Rightarrow> (string \<times> sandbox_session_state) list sql" where
  "sql_list_requiring_reconciliation collate t after n =
     (if \<not> (1 \<le> n \<and> n \<le> 200) then ret (Inl InvalidPageRequest)
      else
        try_bind (single_statement (select_transient_sessions collate t after n))
          (\<lambda>rows. ret (map_results (\<lambda>(sid, st). and_then (stored_id sid)
             (\<lambda>sid'. map_sum id (Pair sid') (parse_sandbox_session_state st))) rows)))"

section \<open>Inserting and saving\<close>

definition insert_body :: "sandbox_session_snapshot \<Rightarrow> unit sql" where
  "insert_body snap =
     try_bind enforce_sandbox_transaction_timeouts (\<lambda>_.
     try_bind (ret (session_row_of snap)) (\<lambda>r.
     try_bind (statement (insert_session_row r)) (\<lambda>_.
     try_bind (insert_sandbox_operations (snapshot_tenant_id snap) (snapshot_session_id snap) False 0
       (snapshot_operations snap)) (\<lambda>_.
     try_bind (sync_sandbox_runtime_binding snap) (\<lambda>_.
       statement (ensure_lease_row (snapshot_tenant_id snap) (snapshot_session_id snap)))))))"

definition sql_insert_sandbox_session :: "allocation_protector \<Rightarrow> sandbox_session \<Rightarrow> unit sql" where
  "sql_insert_sandbox_session p s =
     try_bind (ret (snapshot_capture p s)) (\<lambda>snap. transaction (insert_body snap))"

definition lock_valid_sandbox_session_lease :: "sandbox_session_lease \<Rightarrow> unit sql" where
  "lock_valid_sandbox_session_lease l =
     try_bind (ret (i64_from_u64 (lease_fencing_token l) LeaseConflict)) (\<lambda>_.
     try_bind (statement (lock_lease l)) (\<lambda>held. ret (if held then Inr () else Inl LeaseConflict)))"

definition save_body :: "sandbox_session_snapshot \<Rightarrow> u64 \<Rightarrow> sandbox_session_lease \<Rightarrow> unit sql" where
  "save_body snap expected l =
     (if snapshot_tenant_id snap \<noteq> lease_tenant_id l \<or> snapshot_session_id snap \<noteq> lease_session_id l
      then ret (Inl LeaseConflict)
      else
        try_bind enforce_sandbox_transaction_timeouts (\<lambda>_.
        try_bind (lock_valid_sandbox_session_lease l) (\<lambda>_.
        try_bind (ret (session_row_of snap)) (\<lambda>r.
        try_bind (ret (i64_from_u64 expected InvalidStoredData)) (\<lambda>v.
        try_bind (statement (update_session_row r v)) (\<lambda>n.
          if n \<noteq> 1 then
            try_bind (statement (session_exists (snapshot_tenant_id snap) (snapshot_session_id snap)))
              (\<lambda>found. ret (Inl (if found then VersionConflict else NotFound)))
          else
            (let window = snapshot_operations_to_persist snap;
                 first = length (snapshot_operations snap) - length window
             in try_bind (insert_sandbox_operations (snapshot_tenant_id snap) (snapshot_session_id snap) True
                  first window) (\<lambda>_.
                try_bind (sync_sandbox_runtime_binding snap) (\<lambda>_.
                  statement (ensure_lease_row (snapshot_tenant_id snap) (snapshot_session_id snap)))))))))))"

definition sql_save_sandbox_session ::
  "allocation_protector \<Rightarrow> sandbox_session \<Rightarrow> u64 \<Rightarrow> sandbox_session_lease \<Rightarrow> unit sql" where
  "sql_save_sandbox_session p s expected l =
     (case u64_checked_succ expected of
        None \<Rightarrow> ret (Inl VersionConflict)
      | Some v' \<Rightarrow>
          if session_version s \<noteq> v' then ret (Inl VersionConflict)
          else try_bind (ret (snapshot_capture p s)) (\<lambda>snap. transaction (save_body snap expected l)))"

section \<open>Leases\<close>

definition lease_from_row ::
  "string \<Rightarrow> string \<Rightarrow> string \<Rightarrow> int \<times> int \<Rightarrow> sandbox_session_lease repository_result" where
  "lease_from_row t sid owner row =
     (case row of (token, expires) \<Rightarrow>
        and_then (u64_from_i64 token) (\<lambda>v.
          (case fencing_token_new v of
             Inl _ \<Rightarrow> Inl InvalidStoredData
           | Inr tok \<Rightarrow> sandbox_session_lease_new t sid owner tok expires)))"

text \<open>The lease of a taken row: the constructor's error is replaced by \<open>InvalidStoredData\<close>, its only one.\<close>

definition lease_from_taken_row ::
  "string \<Rightarrow> string \<Rightarrow> string \<Rightarrow> int \<times> int \<Rightarrow> sandbox_session_lease repository_result" where
  "lease_from_taken_row t sid owner row = map_sum (\<lambda>_. InvalidStoredData) id (lease_from_row t sid owner row)"

definition taken_lease ::
  "string \<Rightarrow> string \<Rightarrow> string \<Rightarrow> int \<times> int \<Rightarrow> sandbox_session_lease option repository_result" where
  "taken_lease t sid owner row = map_sum id Some (lease_from_taken_row t sid owner row)"

definition sql_acquire_sandbox_session_lease ::
  "string \<Rightarrow> string \<Rightarrow> string \<Rightarrow> nat \<Rightarrow> sandbox_session_lease option sql" where
  "sql_acquire_sandbox_session_lease t sid owner d =
     try_bind (ret (sandbox_lease_duration_millis d)) (\<lambda>millis.
     try_bind (single_statement (take_lease t sid owner millis)) (\<lambda>taken.
       case taken of
         Some row \<Rightarrow> ret (taken_lease t sid owner row)
       | None \<Rightarrow>
           try_bind (single_statement (lease_status t sid)) (\<lambda>status.
             case status of
               None \<Rightarrow> ret (Inl NotFound)
             | Some (None, _) \<Rightarrow> ret (Inl InvalidStoredData)
             | Some (Some token, True) \<Rightarrow>
                 if token = i64_max then ret (Inl LeaseConflict)
                 else
                   try_bind (single_statement (take_lease t sid owner millis)) (\<lambda>again.
                     ret (case again of Some row \<Rightarrow> taken_lease t sid owner row | None \<Rightarrow> Inr None))
             | Some (Some token, False) \<Rightarrow> ret (Inr None))))"

definition sql_renew_sandbox_session_lease ::
  "sandbox_session_lease \<Rightarrow> nat \<Rightarrow> sandbox_session_lease option sql" where
  "sql_renew_sandbox_session_lease l d =
     try_bind (ret (sandbox_lease_duration_millis d)) (\<lambda>millis.
     try_bind (ret (i64_from_u64 (lease_fencing_token l) LeaseConflict)) (\<lambda>_.
     try_bind (single_statement (renew_lease_row l millis)) (\<lambda>renewed.
       ret (case renewed of
              None \<Rightarrow> Inr None
            | Some row \<Rightarrow> map_sum id Some
                (lease_from_row (lease_tenant_id l) (lease_session_id l) (lease_owner_id l) row)))))"

definition sql_release_sandbox_session_lease :: "sandbox_session_lease \<Rightarrow> bool sql" where
  "sql_release_sandbox_session_lease l =
     try_bind (ret (i64_from_u64 (lease_fencing_token l) LeaseConflict)) (\<lambda>_.
       single_statement (release_lease_row l))"

section \<open>The port\<close>

definition sql_port :: "allocation_protector \<Rightarrow> (string \<Rightarrow> string) \<Rightarrow> sql_server session_repository_port" where
  "sql_port p collate = \<lparr>
     repo_find = sql_find_by_sandbox_operation p, repo_get = read_sandbox_session p,
     repo_insert = sql_insert_sandbox_session p, repo_save = sql_save_sandbox_session p,
     repo_acquire = sql_acquire_sandbox_session_lease, repo_renew = sql_renew_sandbox_session_lease,
     repo_release = sql_release_sandbox_session_lease,
     repo_list = sql_list_requiring_reconciliation collate \<rparr>"

end
