(* ===== verification/Sql_Reencryption.thy ===== *)
theory Sql_Reencryption
  imports Sql_Repository
begin

text \<open>
  The sweep that moves stored allocation references onto the current key (\<open>reencryption.rs\<close> of crate
  \<open>sdkwork-intelligence-sandbox-repository-sqlx\<close>): one bounded page over the binding rows in the order
  of their identifiers, each row replaced only while it still holds the ciphertext that was read, and the
  loop of whole passes until one reports no conflict. The protector may change with time, as its key
  source does: it is a function of the server's clock. The loop over the pages of a pass ends when a page
  has no successor, and need not end at all while others keep adding rows ahead of it.
\<close>

section \<open>One page\<close>

definition max_sandbox_reencryption_page_size :: nat where
  "max_sandbox_reencryption_page_size = 200"

record reencryption_page =
  page_scanned :: nat
  page_reencrypted :: nat
  page_conflicts :: nat
  page_next :: "string option"

record reencryption_candidate =
  candidate_session :: string
  candidate_binding :: string
  candidate_protected :: protected_allocation_ref

definition ensure_sandbox_reencryption_target ::
  "protection_version \<Rightarrow> protected_allocation_ref \<Rightarrow> unit repository_result" where
  "ensure_sandbox_reencryption_target version q =
     (if \<not> matches_sandbox_protected_allocation_reference version q then Inl ProtectionFailed else Inr ())"

definition needs_reencryption :: "string \<Rightarrow> int \<Rightarrow> int \<Rightarrow> binding_row \<Rightarrow> bool" where
  "needs_reencryption key kv cv r \<longleftrightarrow>
     bound_ciphertext r \<noteq> None
     \<and> \<not> (bound_key_id r = Some key \<and> bound_key_version r = Some kv \<and> bound_crypto_version r = Some cv)"

definition select_reencryption_candidates ::
  "(string \<Rightarrow> string) \<Rightarrow> string \<Rightarrow> string \<Rightarrow> int \<Rightarrow> int \<Rightarrow> string option \<Rightarrow> nat \<Rightarrow> binding_row list sql_statement" where
  "select_reencryption_candidates collate t key kv cv after limit now tb =
     Inr (take limit (sort_key (\<lambda>r. collate (bound_binding r))
       (filter (\<lambda>r. bound_tenant r = t \<and> needs_reencryption key kv cv r
          \<and> (case after of None \<Rightarrow> True | Some a \<Rightarrow> collate a < collate (bound_binding r))) (binding_rows tb))), tb)"

definition parse_reencryption_candidate :: "string \<Rightarrow> binding_row \<Rightarrow> reencryption_candidate repository_result" where
  "parse_reencryption_candidate t r =
     (if bound_tenant r \<noteq> t then Inl InvalidStoredData
      else
        and_then (stored_id (bound_session r)) (\<lambda>sid.
        and_then (stored_id (bound_binding r)) (\<lambda>bid.
        and_then (parse_protected_columns (bound_ciphertext r) (bound_key_id r) (bound_key_version r)
            (bound_crypto_version r)) (\<lambda>q.
          (case q of
             None \<Rightarrow> Inl InvalidStoredData
           | Some q' \<Rightarrow>
               Inr \<lparr> candidate_session = sid, candidate_binding = bid, candidate_protected = q' \<rparr>)))))"

text \<open>The columns a protected reference is bound to, and the row that holds exactly them.\<close>

definition holds_protected :: "protected_allocation_ref \<Rightarrow> binding_row \<Rightarrow> bool" where
  "holds_protected q r \<longleftrightarrow>
     bound_ciphertext r = Some (protected_ciphertext q) \<and> bound_key_id r = Some (protected_key_id q)
     \<and> bound_key_version r = Some (int (unat (protected_key_version q)))
     \<and> bound_crypto_version r = Some (int (unat (protected_crypto_version q)))"

definition put_protected :: "protected_allocation_ref \<Rightarrow> binding_row \<Rightarrow> binding_row" where
  "put_protected q r = r\<lparr> bound_ciphertext := Some (protected_ciphertext q),
     bound_key_id := Some (protected_key_id q),
     bound_key_version := Some (int (unat (protected_key_version q))),
     bound_crypto_version := Some (int (unat (protected_crypto_version q))) \<rparr>"

text \<open>\<open>UPDATE .. WHERE\<close> the row still holds what was read; the rows affected.\<close>

definition replace_protected ::
  "string \<Rightarrow> reencryption_candidate \<Rightarrow> protected_allocation_ref \<Rightarrow> nat sql_statement" where
  "replace_protected t cand q' now tb =
     (let hit = (\<lambda>r. binding_key r = (t, candidate_binding cand) \<and> bound_session r = candidate_session cand
                   \<and> holds_protected (candidate_protected cand) r);
          rows = update_rows hit (put_protected q') (binding_rows tb)
      in if \<not> list_all binding_checks (map (put_protected q') (filter hit (binding_rows tb))) then Inl check_violation
         else Inr (length (filter hit (binding_rows tb)), tb\<lparr> binding_rows := rows \<rparr>))"

text \<open>The protector as it is now.\<close>

definition with_protector :: "(nat \<Rightarrow> allocation_protector) \<Rightarrow> (allocation_protector \<Rightarrow> 'a repository_result) \<Rightarrow> 'a sql" where
  "with_protector ps f = State (\<lambda>v. (f (ps (server_clock v)), v))"

text \<open>The loop over the candidates, with the rows re-encrypted and the conflicts so far.\<close>

fun reencrypt_candidates ::
  "(nat \<Rightarrow> allocation_protector) \<Rightarrow> string \<Rightarrow> protection_version \<Rightarrow> reencryption_candidate list
     \<Rightarrow> nat \<Rightarrow> nat \<Rightarrow> (nat \<times> nat) sql" where
  "reencrypt_candidates ps t version [] n k = ret (Inr (n, k))"
| "reencrypt_candidates ps t version (cand # cands) n k =
     try_bind (with_protector ps (\<lambda>p. reencrypt_reference p
         (protection_context_for_repository t (candidate_session cand) (candidate_binding cand))
         (candidate_protected cand))) (\<lambda>q'.
     try_bind (ret (ensure_sandbox_reencryption_target version q')) (\<lambda>_.
     try_bind (ret (i64_from_u64 (protected_key_version q') ProtectionFailed)) (\<lambda>_.
     try_bind (ret (i16_from_u16 (protected_crypto_version q') ProtectionFailed)) (\<lambda>_.
     try_bind (ret (i64_from_u64 (protected_key_version (candidate_protected cand)) InvalidStoredData)) (\<lambda>_.
     try_bind (ret (i16_from_u16 (protected_crypto_version (candidate_protected cand)) InvalidStoredData)) (\<lambda>_.
     try_bind (single_statement (replace_protected t cand q')) (\<lambda>hit.
       if hit = 1 then reencrypt_candidates ps t version cands (Suc n) k
       else reencrypt_candidates ps t version cands n (Suc k))))))))"

definition reencrypt_page ::
  "(nat \<Rightarrow> allocation_protector) \<Rightarrow> (string \<Rightarrow> string) \<Rightarrow> string \<Rightarrow> string option \<Rightarrow> nat \<Rightarrow> reencryption_page sql" where
  "reencrypt_page ps collate t after n =
     (if \<not> (1 \<le> n \<and> n \<le> max_sandbox_reencryption_page_size) then ret (Inl InvalidPageRequest)
      else
        try_bind (with_protector ps current_protection_version) (\<lambda>version.
        try_bind (ret (i64_from_u64 (version_key_version version) ProtectionFailed)) (\<lambda>kv.
        try_bind (ret (i16_from_u16 (version_crypto_version version) ProtectionFailed)) (\<lambda>cv.
        try_bind (single_statement (select_reencryption_candidates collate t (version_key_id version) kv cv
            after (n + 1))) (\<lambda>rows.
        try_bind (ret (map_results (parse_reencryption_candidate t) (take n rows))) (\<lambda>cands.
        try_bind (reencrypt_candidates ps t version cands 0 0) (\<lambda>counts.
          ret (Inr \<lparr> page_scanned = length cands, page_reencrypted = fst counts, page_conflicts = snd counts,
            page_next = (if length rows > n \<and> cands \<noteq> [] then Some (candidate_binding (last cands)) else None) \<rparr>))))))))"

section \<open>Passes\<close>

definition max_sandbox_reencryption_settle_passes :: nat where
  "max_sandbox_reencryption_settle_passes = 8"

record reencryption_settlement =
  settlement_passes :: nat
  settlement_scanned :: nat
  settlement_reencrypted :: nat

record pass_totals =
  total_scanned :: nat
  total_reencrypted :: nat
  pass_conflicts :: nat

definition add_page :: "reencryption_page \<Rightarrow> pass_totals \<Rightarrow> pass_totals" where
  "add_page page acc = \<lparr> total_scanned = total_scanned acc + page_scanned page,
     total_reencrypted = total_reencrypted acc + page_reencrypted page,
     pass_conflicts = pass_conflicts acc + page_conflicts page \<rparr>"

text \<open>The pages of one pass from a cursor on; \<open>None\<close> when the pass never ends.\<close>

partial_function (option) reencrypt_pass ::
  "(nat \<Rightarrow> allocation_protector) \<Rightarrow> (string \<Rightarrow> string) \<Rightarrow> string \<Rightarrow> nat \<Rightarrow> string option \<Rightarrow> pass_totals
     \<Rightarrow> sql_server \<Rightarrow> (pass_totals repository_result \<times> sql_server) option" where
  "reencrypt_pass ps collate t n after acc v =
     (case run_state (reencrypt_page ps collate t after n) v of
        (Inl e, v1) \<Rightarrow> Some (Inl e, v1)
      | (Inr page, v1) \<Rightarrow>
          (case page_next page of
             None \<Rightarrow> Some (Inr (add_page page acc), v1)
           | Some c \<Rightarrow> reencrypt_pass ps collate t n (Some c) (add_page page acc) v1))"

text \<open>The passes that remain, from the one with the given number.\<close>

fun reencrypt_passes ::
  "(nat \<Rightarrow> allocation_protector) \<Rightarrow> (string \<Rightarrow> string) \<Rightarrow> string \<Rightarrow> nat \<Rightarrow> nat \<Rightarrow> nat \<Rightarrow> pass_totals
     \<Rightarrow> sql_server \<Rightarrow> (reencryption_settlement repository_result \<times> sql_server) option" where
  "reencrypt_passes ps collate t n 0 pass acc v = Some (Inl ProtectionFailed, v)"
| "reencrypt_passes ps collate t n (Suc left) pass acc v =
     (case reencrypt_pass ps collate t n None (acc\<lparr> pass_conflicts := 0 \<rparr>) v of
        None \<Rightarrow> None
      | Some (Inl e, v1) \<Rightarrow> Some (Inl e, v1)
      | Some (Inr acc1, v1) \<Rightarrow>
          if pass_conflicts acc1 = 0 then
            Some (Inr \<lparr> settlement_passes = pass, settlement_scanned = total_scanned acc1,
              settlement_reencrypted = total_reencrypted acc1 \<rparr>, v1)
          else reencrypt_passes ps collate t n left (Suc pass) acc1 v1)"

definition reencrypt_until_settled ::
  "(nat \<Rightarrow> allocation_protector) \<Rightarrow> (string \<Rightarrow> string) \<Rightarrow> string \<Rightarrow> nat
     \<Rightarrow> sql_server \<Rightarrow> (reencryption_settlement repository_result \<times> sql_server) option" where
  "reencrypt_until_settled ps collate t n v =
     (if \<not> (1 \<le> n \<and> n \<le> max_sandbox_reencryption_page_size) then Some (Inl InvalidPageRequest, v)
      else reencrypt_passes ps collate t n max_sandbox_reencryption_settle_passes 1
        \<lparr> total_scanned = 0, total_reencrypted = 0, pass_conflicts = 0 \<rparr> v)"

end
