(* ===== verification/Sql_Relation.thy ===== *)
theory Sql_Relation
  imports Sql_Reencryption Session_Store_Inv
begin

text \<open>
  When the tables hold a store: the relation between the rows and the state of the in-memory session
  store, elimination rules for the statements of a transaction, and the effect of writing a ledger, a
  binding and a lease row. \<open>restore\<close> opens every protected reference there is, as all keys together would.
\<close>


section \<open>Tables as lists of rows\<close>

named_theorems table_simps \<open>lookup equations of tables\<close>

lemma row_at_None: "row_at key k rows = None \<longleftrightarrow> (\<forall>r\<in>set rows. key r \<noteq> k)"
  by (auto simp: row_at_def find_None_iff)

lemma row_at_SomeD: "row_at key k rows = Some r \<Longrightarrow> r \<in> set rows \<and> key r = k"
  by (auto simp: row_at_def find_Some_iff)

lemma row_at_member: "distinct (map key rows) \<Longrightarrow> r \<in> set rows \<Longrightarrow> row_at key (key r) rows = Some r"
  by (induction rows) (auto simp: row_at_def intro: rev_image_eqI)

lemma row_at_append [table_simps]:
  "row_at key k (rows @ [r]) =
     (case row_at key k rows of Some x \<Rightarrow> Some x | None \<Rightarrow> if key r = k then Some r else None)"
  by (induction rows) (auto simp: row_at_def)

lemma row_at_update [table_simps]:
  assumes "\<And>r. p r \<Longrightarrow> key (f r) = key r"
  shows "row_at key k (update_rows p f rows) = map_option (\<lambda>r. if p r then f r else r) (row_at key k rows)"
  using assms by (induction rows) (auto simp: row_at_def update_rows_def)

lemma keys_update [table_simps]:
  assumes "\<And>r. p r \<Longrightarrow> key (f r) = key r"
  shows "map key (update_rows p f rows) = map key rows"
  using assms by (induction rows) (auto simp: update_rows_def)

lemma row_at_filter:
  "row_at key k (filter (\<lambda>r. key r \<noteq> k') rows) = (if k = k' then None else row_at key k rows)"
  by (induction rows) (auto simp: row_at_def)

lemma distinct_keys_append:
  "distinct (map key rows) \<Longrightarrow> row_at key (key r) rows = None \<Longrightarrow> distinct (map key (rows @ [r]))"
  by (auto simp: row_at_None)

lemma filter_key_length:
  "distinct (map key rows) \<Longrightarrow> (\<And>r. p r \<Longrightarrow> key r = k) \<Longrightarrow>
     length (filter p rows) = (case row_at key k rows of None \<Rightarrow> 0 | Some r \<Rightarrow> if p r then 1 else 0)"
proof (induction rows)
  case (Cons r rows)
  show ?case
  proof (cases "key r = k")
    case True
    then have "row_at key k rows = None" using Cons.prems(1) by (auto simp: row_at_None intro: rev_image_eqI)
    then have "filter p rows = []" using Cons.prems(2) by (auto simp: row_at_None filter_empty_conv)
    then show ?thesis using True by (simp add: row_at_def)
  next
    case False
    then show ?thesis using Cons by (auto simp: row_at_def)
  qed
qed (simp add: row_at_def)

section \<open>Rows of a session\<close>

definition stored_id_ok :: "string \<Rightarrow> bool" where
  "stored_id_ok v \<longleftrightarrow> stored_id v = Inr v"

text \<open>What the types of the identifiers and the ledger bound give for every session that is written.\<close>

definition session_typed :: "sandbox_session \<Rightarrow> bool" where
  "session_typed s \<longleftrightarrow>
     stored_id_ok (session_tenant_id s) \<and> stored_id_ok (session_workspace_id s) \<and> stored_id_ok (session_id s)
     \<and> (\<forall>x\<in>set (session_operations s). stored_id_ok (operation_id_of x))
     \<and> length (session_operations s) \<le> max_sandbox_session_persisted_operations
     \<and> (case session_runtime_binding s of None \<Rightarrow> True
        | Some b \<Rightarrow> stored_id_ok (binding_sandbox_id b) \<and> stored_id_ok (binding_runtime_id b)
            \<and> stored_id_ok (binding_provider_id b))"

definition protected_ok :: "protected_allocation_ref \<Rightarrow> bool" where
  "protected_ok q \<longleftrightarrow>
     protected_allocation_ref_new (protected_ciphertext q) (protected_key_id q) (protected_key_version q)
       (protected_crypto_version q) = Inr q"

definition session_row_for :: "sandbox_session \<Rightarrow> session_row" where
  "session_row_for s =
     \<lparr> row_tenant = session_tenant_id s, row_session = session_id s, row_workspace = session_workspace_id s,
       row_state = sandbox_session_state_value (session_state s),
       row_capabilities = sandbox_runtime_capabilities_value (session_required_capabilities s),
       row_assurance = provider_assurance_as_str (session_minimum_assurance s),
       row_failure = map_option sandbox_session_failure_value (session_last_failure s),
       row_version = int (unat (session_version s)) \<rparr>"

definition ledger_rows :: "string \<Rightarrow> string \<Rightarrow> sandbox_session_operation list \<Rightarrow> operation_row list" where
  "ledger_rows t sid ops = map (\<lambda>i. operation_row_of t sid i (ops ! i)) [0..<length ops]"

definition session_ops :: "string \<Rightarrow> string \<Rightarrow> sql_tables \<Rightarrow> operation_row set" where
  "session_ops t sid tb = {r \<in> set (operation_rows tb). op_tenant r = t \<and> op_session r = sid}"

definition binding_related ::
  "(protection_context \<Rightarrow> protected_allocation_ref \<Rightarrow> sandbox_allocation_ref option)
     \<Rightarrow> string \<Rightarrow> string \<Rightarrow> binding_row \<Rightarrow> sandbox_runtime_binding \<Rightarrow> bool" where
  "binding_related restore t sid r b \<longleftrightarrow>
     bound_sandbox r = binding_sandbox_id b \<and> bound_binding r = binding_runtime_id b
     \<and> bound_provider r = binding_provider_id b
     \<and> (case binding_allocation_ref b of
          None \<Rightarrow> bound_ciphertext r = None \<and> bound_key_id r = None \<and> bound_key_version r = None
            \<and> bound_crypto_version r = None
        | Some a \<Rightarrow> \<exists>q. holds_protected q r \<and> protected_ok q
            \<and> restore (protection_context_for_repository t sid (binding_runtime_id b)) q = Some a)"

definition session_related ::
  "(protection_context \<Rightarrow> protected_allocation_ref \<Rightarrow> sandbox_allocation_ref option)
     \<Rightarrow> sql_tables \<Rightarrow> string \<Rightarrow> string \<Rightarrow> sandbox_session option \<Rightarrow> bool" where
  "session_related restore tb t sid so \<longleftrightarrow>
     row_at session_key (t, sid) (session_rows tb) = map_option session_row_for so
     \<and> session_ops t sid tb = (case so of None \<Rightarrow> {} | Some s \<Rightarrow> set (ledger_rows t sid (session_operations s)))
     \<and> rel_option (binding_related restore t sid) (row_at bound_session_key (t, sid) (binding_rows tb))
         (Option.bind so session_runtime_binding)
     \<and> (\<forall>s. so = Some s \<longrightarrow> session_typed s)"

definition lease_related :: "lease_row \<Rightarrow> sandbox_memory_lease \<Rightarrow> bool" where
  "lease_related r m \<longleftrightarrow>
     held_owner r = memory_lease_owner m \<and> held_token r = int (unat (memory_lease_token m))
     \<and> memory_lease_expires_at m = map_option (\<lambda>e. e * 1000) (held_expires r)"

definition tables_keyed :: "sql_tables \<Rightarrow> bool" where
  "tables_keyed tb \<longleftrightarrow>
     distinct (map session_key (session_rows tb)) \<and> distinct (map operation_key (operation_rows tb))
     \<and> distinct (map bound_session_key (binding_rows tb)) \<and> distinct (map lease_key (lease_rows tb))"

definition operation_owner :: "sql_tables \<Rightarrow> string \<times> string \<Rightarrow> string option" where
  "operation_owner tb k = map_option op_session (row_at operation_key k (operation_rows tb))"

definition store_related ::
  "(protection_context \<Rightarrow> protected_allocation_ref \<Rightarrow> sandbox_allocation_ref option)
     \<Rightarrow> sql_tables \<Rightarrow> sandbox_repository_state \<Rightarrow> bool" where
  "store_related restore tb r \<longleftrightarrow>
     tables_keyed tb
     \<and> (\<forall>t sid. session_related restore tb t sid (lookup_session t sid r))
     \<and> (\<forall>k. repository_operations r k = operation_owner tb k)
     \<and> (\<forall>k. rel_option lease_related (row_at lease_key k (lease_rows tb)) (repository_leases r k))"

lemma store_relatedD:
  assumes "store_related restore tb r"
  shows "tables_keyed tb" "session_related restore tb t sid (lookup_session t sid r)"
    "repository_operations r k = operation_owner tb k"
    "rel_option lease_related (row_at lease_key k (lease_rows tb)) (repository_leases r k)"
  using assms unfolding store_related_def by blast+

lemma store_related_empty: "store_related restore empty_tables empty_repository"
  by (simp add: store_related_def tables_keyed_def session_related_def session_ops_def row_at_def
      operation_owner_def empty_tables_def empty_repository_def lookup_session_def btm_get_def)

section \<open>Ledger rows\<close>

lemma ledger_rows_set:
  "set (ledger_rows t sid ops) = {operation_row_of t sid i (ops ! i) | i. i < length ops}"
  by (auto simp: ledger_rows_def)

lemma ledger_rows_length [simp]: "length (ledger_rows t sid ops) = length ops"
  by (simp add: ledger_rows_def)

lemma ledger_rows_sequences: "map op_sequence (ledger_rows t sid ops) = map int [0..<length ops]"
  by (simp add: ledger_rows_def operation_row_of_def comp_def)

lemma ledger_rows_snoc: "ledger_rows t sid (ops @ [x]) = ledger_rows t sid ops @ [operation_row_of t sid (length ops) x]"
  by (simp add: ledger_rows_def nth_append cong: map_cong)

lemma operation_row_of_key [simp]:
  "op_tenant (operation_row_of t sid i x) = t" "op_session (operation_row_of t sid i x) = sid"
  "op_operation (operation_row_of t sid i x) = operation_id_of x"
  "op_sequence (operation_row_of t sid i x) = int i"
  "op_kind (operation_row_of t sid i x) = sandbox_operation_kind_value (operation_kind x)"
  by (simp_all add: operation_row_of_def)

definition put_entry :: "nat \<Rightarrow> 'a \<Rightarrow> 'a list \<Rightarrow> 'a list" where
  "put_entry i x xs = (if i < length xs then xs[i := x] else xs @ [x])"

text \<open>What the writes of operations of one session leave alone, and what they do to the index.\<close>

definition operations_written ::
  "string \<Rightarrow> string \<Rightarrow> sandbox_session_operation set \<Rightarrow> sql_tables \<Rightarrow> sql_tables \<Rightarrow> bool" where
  "operations_written t sid xs tb tb' \<longleftrightarrow>
     session_rows tb' = session_rows tb \<and> binding_rows tb' = binding_rows tb \<and> lease_rows tb' = lease_rows tb
     \<and> (\<forall>t' sid'. (t', sid') \<noteq> (t, sid) \<longrightarrow> session_ops t' sid' tb' = session_ops t' sid' tb)
     \<and> (\<forall>k. operation_owner tb' k =
          (if fst k = t \<and> snd k \<in> operation_id_of ` xs then Some sid else operation_owner tb k))
     \<and> (\<forall>x\<in>xs. operation_owner tb (t, operation_id_of x) \<in> {None, Some sid})"

lemma operations_written_refl: "operations_written t sid {} tb tb"
  by (simp add: operations_written_def)

lemma operations_written_trans:
  assumes "operations_written t sid xs tb tb'" "operations_written t sid ys tb' tb''"
  shows "operations_written t sid (xs \<union> ys) tb tb''"
proof -
  have owner: "operation_owner tb' k =
      (if fst k = t \<and> snd k \<in> operation_id_of ` xs then Some sid else operation_owner tb k)" for k
    using assms(1) unfolding operations_written_def by blast
  have "operation_owner tb (t, operation_id_of y) \<in> {None, Some sid}" if y: "y \<in> ys" for y
  proof (cases "operation_id_of y \<in> operation_id_of ` xs")
    case True
    then obtain x where "x \<in> xs" "operation_id_of y = operation_id_of x" by blast
    then show ?thesis using assms(1) by (simp add: operations_written_def)
  next
    case False
    then have "operation_owner tb' (t, operation_id_of y) = operation_owner tb (t, operation_id_of y)"
      using owner by simp
    moreover have "operation_owner tb' (t, operation_id_of y) \<in> {None, Some sid}"
      using assms(2) y unfolding operations_written_def by blast
    ultimately show ?thesis by simp
  qed
  then show ?thesis
    using assms unfolding operations_written_def by (auto simp: image_Un)
qed


section \<open>Runs that succeed\<close>

lemma run_ret [simp]: "run_state (ret x) v = (x, v)"
  by (simp add: State_Monad.return_def)

lemma try_bind_run:
  "run_state (try_bind m k) v =
     (case run_state m v of (Inl e, v1) \<Rightarrow> (Inl e, v1) | (Inr x, v1) \<Rightarrow> run_state (k x) v1)"
  by (auto simp: try_bind_def State_Monad.bind_def split: prod.splits sum.splits)

lemma try_bind_okE:
  assumes "run_state (try_bind m k) v = (Inr y, v')"
  obtains x v1 where "run_state m v = (Inr x, v1)" "run_state (k x) v1 = (Inr y, v')"
  using assms by (auto simp: try_bind_run split: prod.splits sum.splits)

lemma try_bind_ret_okE:
  assumes "run_state (try_bind (ret r) k) v = (Inr y, v')"
  obtains x where "r = Inr x" "run_state (k x) v = (Inr y, v')"
  using assms by (auto simp: try_bind_run split: sum.splits)

lemma statement_okE:
  assumes "run_state (statement f) v = (Inr x, v')"
  obtains "f (server_clock v) (server_tables v) = Inr (x, server_tables v')" "server_clock v' = server_clock v"
  using assms
  by (auto simp: statement_def take_fault_def run_statement_def split: list.splits option.splits sum.splits prod.splits)

lemma try_bind_statement_okE:
  assumes "run_state (try_bind (statement f) k) v = (Inr y, v')"
  obtains x v1 where "f (server_clock v) (server_tables v) = Inr (x, server_tables v1)"
    "server_clock v1 = server_clock v" "run_state (k x) v1 = (Inr y, v')"
  using assms by (elim try_bind_okE statement_okE) blast

lemma nothing_ok [simp]: "nothing now tb = Inr (u, tb') \<longleftrightarrow> tb' = tb"
  by (auto simp: nothing_def)

lemma timeouts_okE:
  assumes "run_state (try_bind enforce_sandbox_transaction_timeouts k) v = (Inr y, v')"
  obtains v1 where "server_tables v1 = server_tables v" "server_clock v1 = server_clock v"
    "run_state (k ()) v1 = (Inr y, v')"
  using assms unfolding enforce_sandbox_transaction_timeouts_def
  by (elim try_bind_okE try_bind_statement_okE statement_okE) (auto simp: nothing_def)

section \<open>Writing operations\<close>

lemma owner_append:
  "operation_owner (tb\<lparr> operation_rows := operation_rows tb @ [r] \<rparr>) k =
     (case operation_owner tb k of Some x \<Rightarrow> Some x
      | None \<Rightarrow> if operation_key r = k then Some (op_session r) else None)"
  by (auto simp: operation_owner_def table_simps split: option.splits)

lemma add_operation_row_effect:
  assumes "add_operation_row (operation_row_of t sid i x) now tb = Inr (n, tb')"
    and keyed: "tables_keyed tb" and ledger: "session_ops t sid tb = set (ledger_rows t sid cur)"
    and len: "i \<le> length cur" and free: "operation_owner tb (t, operation_id_of x) = None"
  shows "n = 1 \<and> tables_keyed tb' \<and> operations_written t sid {x} tb tb'
    \<and> session_ops t sid tb' = set (ledger_rows t sid (put_entry i x cur))"
proof -
  let ?r = "operation_row_of t sid i x"
  have tb': "tb' = tb\<lparr> operation_rows := operation_rows tb @ [?r] \<rparr>" and n: "n = 1"
    and seq: "row_at sequence_key (t, sid, int i) (operation_rows tb) = None"
    using assms(1) by (auto simp: add_operation_row_def split: if_splits)
  have "\<not> i < length cur"
  proof
    assume "i < length cur"
    then have "operation_row_of t sid i (cur ! i) \<in> session_ops t sid tb"
      unfolding ledger ledger_rows_set by blast
    then show False using seq by (auto simp: session_ops_def row_at_None)
  qed
  then have i: "i = length cur" using len by simp
  have fresh: "row_at operation_key (t, operation_id_of x) (operation_rows tb) = None"
    using free by (simp add: operation_owner_def)
  have rows: "set (operation_rows tb') = insert ?r (set (operation_rows tb))" by (simp add: tb')
  have "session_ops t sid tb' = insert ?r (session_ops t sid tb)"
    unfolding session_ops_def rows by (intro set_eqI iffI) (elim CollectE conjE insertE, simp_all, elim disjE, simp_all)
  also have "\<dots> = set (ledger_rows t sid (put_entry i x cur))"
    unfolding ledger by (simp add: put_entry_def i ledger_rows_snoc)
  finally have "session_ops t sid tb' = set (ledger_rows t sid (put_entry i x cur))" .
  moreover have "tables_keyed tb'"
    using keyed fresh by (auto simp: tables_keyed_def tb' row_at_None)
  moreover have "operations_written t sid {x} tb tb'"
    using free by (auto simp: operations_written_def tb' owner_append session_ops_def split: option.splits)
  ultimately show ?thesis using n by simp
qed

lemma update_operation_row_effect:
  assumes e: "row_at operation_key (t, operation_id_of x) (operation_rows tb) = Some e"
    and same: "op_session e = sid" "op_sequence e = int i" "op_kind e = sandbox_operation_kind_value (operation_kind x)"
    and keyed: "tables_keyed tb" and ledger: "session_ops t sid tb = set (ledger_rows t sid cur)"
    and tb': "tb' = tb\<lparr> operation_rows := update_rows (\<lambda>y. operation_key y = (t, operation_id_of x))
      (\<lambda>y. y\<lparr> op_outcome := op_outcome (operation_row_of t sid i x),
        op_failure := op_failure (operation_row_of t sid i x) \<rparr>) (operation_rows tb) \<rparr>"
  shows "tables_keyed tb' \<and> operations_written t sid {x} tb tb'
    \<and> session_ops t sid tb' = set (ledger_rows t sid (put_entry i x cur))"
proof -
  let ?r = "operation_row_of t sid i x" and ?hit = "\<lambda>y. operation_key y = (t, operation_id_of x)"
  have e': "e \<in> set (operation_rows tb)" "op_tenant e = t" "op_operation e = operation_id_of x"
    using row_at_SomeD [OF e] by simp_all
  have only: "y = e" if "y \<in> set (operation_rows tb)" "?hit y" for y
    using row_at_member [of operation_key "operation_rows tb" y] that e keyed by (simp add: tables_keyed_def)
  have new: "e\<lparr> op_outcome := op_outcome ?r, op_failure := op_failure ?r \<rparr> = ?r"
    using e' same by (simp add: operation_row_of_def)
  have rows: "set (operation_rows tb') = insert ?r (set (operation_rows tb) - {e})"
  proof -
    have "(\<lambda>y. if ?hit y then y\<lparr> op_outcome := op_outcome ?r, op_failure := op_failure ?r \<rparr> else y) ` set (operation_rows tb)
        = (\<lambda>y. if y = e then ?r else y) ` set (operation_rows tb)"
    proof (rule image_cong [OF refl])
      fix y assume y: "y \<in> set (operation_rows tb)"
      show "(if ?hit y then y\<lparr> op_outcome := op_outcome ?r, op_failure := op_failure ?r \<rparr> else y)
          = (if y = e then ?r else y)"
      proof (cases "?hit y")
        case True
        then have "y = e" by (rule only [OF y])
        with True show ?thesis by (simp only: new if_True refl)
      next
        case False
        then have "y \<noteq> e" using e'(2,3) by blast
        with False show ?thesis by (simp only: if_False)
      qed
    qed
    also have "\<dots> = insert ?r (set (operation_rows tb) - {e})" using e'(1) by auto
    finally show ?thesis by (simp add: tb' update_rows_def)
  qed
  have "e \<in> session_ops t sid tb" using e' same by (simp add: session_ops_def)
  then obtain j where j: "j < length cur" "e = operation_row_of t sid j (cur ! j)"
    unfolding ledger ledger_rows_set by blast
  then have i: "j = i" using same(2) by simp
  have "session_ops t sid tb' = insert ?r (session_ops t sid tb - {e})"
    using rows by (auto simp: session_ops_def)
  also have "\<dots> = set (ledger_rows t sid (put_entry i x cur))"
  proof -
    have "operation_row_of t sid k (cur ! k) \<noteq> e" if "k \<noteq> i" for k
      using that j(2) i by (metis of_nat_eq_iff operation_row_of_key(4))
    then have "set (ledger_rows t sid cur) - {e} = {operation_row_of t sid k (cur ! k) | k. k < length cur \<and> k \<noteq> i}"
      using j i by (auto simp: ledger_rows_set)
    moreover have "set (ledger_rows t sid (put_entry i x cur)) =
        insert ?r {operation_row_of t sid k (cur ! k) | k. k < length cur \<and> k \<noteq> i}"
      using j(1) i by (auto simp: ledger_rows_set put_entry_def nth_list_update)
    ultimately show ?thesis by (simp add: ledger)
  qed
  finally have "session_ops t sid tb' = set (ledger_rows t sid (put_entry i x cur))" .
  moreover have "tables_keyed tb'"
    using keyed by (simp add: tables_keyed_def tb' keys_update)
  moreover have "operation_owner tb' k = (if k = (t, operation_id_of x) then Some sid else operation_owner tb k)" for k
    using e same by (auto simp: operation_owner_def tb' row_at_update option.map_comp comp_def
        split: if_splits option.splits dest: row_at_SomeD intro!: option.map_cong)
  moreover have "session_ops t' sid' tb' = session_ops t' sid' tb" if "(t', sid') \<noteq> (t, sid)" for t' sid'
    unfolding session_ops_def rows using that e'(2) same(1) by auto
  moreover have "operation_owner tb (t, operation_id_of x) = Some sid"
    using e same(1) by (simp add: operation_owner_def)
  ultimately show ?thesis
    unfolding operations_written_def by (simp add: tb')
qed

lemma operation_write_effect:
  assumes "(if allow then upsert_operation_row else insert_operation_row) (operation_row_of t sid i x) now tb = Inr (1, tb')"
    and keyed: "tables_keyed tb" and ledger: "session_ops t sid tb = set (ledger_rows t sid cur)"
    and len: "i \<le> length cur"
  shows "tables_keyed tb' \<and> operations_written t sid {x} tb tb'
    \<and> session_ops t sid tb' = set (ledger_rows t sid (put_entry i x cur))"
proof (cases "row_at operation_key (t, operation_id_of x) (operation_rows tb)")
  case None
  then have "add_operation_row (operation_row_of t sid i x) now tb = Inr (1, tb')"
    using assms(1) by (auto simp: upsert_operation_row_def insert_operation_row_def split: if_splits)
  then show ?thesis
    using add_operation_row_effect [OF _ keyed ledger len] None by (simp add: operation_owner_def)
next
  case (Some e)
  then have "allow" and same: "op_session e = sid" "op_sequence e = int i"
      "op_kind e = sandbox_operation_kind_value (operation_kind x)"
    and tb': "tb' = tb\<lparr> operation_rows := update_rows (\<lambda>y. operation_key y = (t, operation_id_of x))
      (\<lambda>y. y\<lparr> op_outcome := op_outcome (operation_row_of t sid i x),
        op_failure := op_failure (operation_row_of t sid i x) \<rparr>) (operation_rows tb) \<rparr>"
    using assms(1) by (auto simp: upsert_operation_row_def insert_operation_row_def split: if_splits)
  show ?thesis by (rule update_operation_row_effect [OF Some same keyed ledger tb'])
qed

text \<open>A window written from position \<open>i\<close> on.\<close>

lemma put_entry_length: "i \<le> length cur \<Longrightarrow> Suc i \<le> length (put_entry i x cur)"
  by (simp add: put_entry_def)

lemma put_entry_take: "i \<le> length cur \<Longrightarrow> take (Suc i) (put_entry i x cur) = take i cur @ [x]"
  by (auto simp: put_entry_def take_Suc_conv_app_nth)

lemma put_entry_drop: "i \<le> length cur \<Longrightarrow> Suc i \<le> j \<Longrightarrow> drop j (put_entry i x cur) = drop j cur"
  by (auto simp: put_entry_def)

lemma insert_operations_effect:
  assumes "run_state (insert_sandbox_operations t sid allow i xs) v = (Inr (), v')"
    and "tables_keyed (server_tables v)" "session_ops t sid (server_tables v) = set (ledger_rows t sid cur)"
    and "i \<le> length cur"
  shows "tables_keyed (server_tables v') \<and> server_clock v' = server_clock v
    \<and> operations_written t sid (set xs) (server_tables v) (server_tables v')
    \<and> session_ops t sid (server_tables v')
        = set (ledger_rows t sid (take i cur @ xs @ drop (i + length xs) cur))"
  using assms
proof (induction xs arbitrary: i cur v)
  case Nil
  then show ?case by (simp add: operations_written_refl)
next
  case (Cons x xs)
  obtain n v1 where n: "(if allow then upsert_operation_row else insert_operation_row) (operation_row_of t sid i x)
      (server_clock v) (server_tables v) = Inr (n, server_tables v1)" "server_clock v1 = server_clock v"
    and rest: "run_state (if n \<noteq> 1 then ret (Inl DuplicateOperation)
      else insert_sandbox_operations t sid allow (Suc i) xs) v1 = (Inr (), v')"
    using Cons.prems(1) unfolding insert_sandbox_operations.simps by (rule try_bind_statement_okE)
  have "n = 1" using rest by (auto split: if_splits)
  with n rest have one: "tables_keyed (server_tables v1)
      \<and> operations_written t sid {x} (server_tables v) (server_tables v1)
      \<and> session_ops t sid (server_tables v1) = set (ledger_rows t sid (put_entry i x cur))"
    and rest: "run_state (insert_sandbox_operations t sid allow (Suc i) xs) v1 = (Inr (), v')"
    using operation_write_effect [OF _ Cons.prems(2-4)] by simp_all
  have "tables_keyed (server_tables v') \<and> server_clock v' = server_clock v1
      \<and> operations_written t sid (set xs) (server_tables v1) (server_tables v')
      \<and> session_ops t sid (server_tables v') = set (ledger_rows t sid
          (take (Suc i) (put_entry i x cur) @ xs @ drop (Suc i + length xs) (put_entry i x cur)))"
    using one by (intro Cons.IH [OF rest]) (simp_all add: put_entry_length [OF Cons.prems(4)])
  moreover have "operations_written t sid ({x} \<union> set xs) (server_tables v) (server_tables v')"
    using one calculation operations_written_trans by blast
  ultimately show ?case
    using n(2) by (simp add: put_entry_take [OF Cons.prems(4)] put_entry_drop [OF Cons.prems(4)])
qed

section \<open>Writing the binding\<close>

definition binding_written ::
  "string \<Rightarrow> string \<Rightarrow> (binding_row \<Rightarrow> bool) option \<Rightarrow> sql_tables \<Rightarrow> sql_tables \<Rightarrow> bool" where
  "binding_written t sid want tb tb' \<longleftrightarrow>
     session_rows tb' = session_rows tb \<and> operation_rows tb' = operation_rows tb \<and> lease_rows tb' = lease_rows tb
     \<and> (\<forall>k. k \<noteq> (t, sid) \<longrightarrow> row_at bound_session_key k (binding_rows tb') = row_at bound_session_key k (binding_rows tb))
     \<and> (case want of None \<Rightarrow> row_at bound_session_key (t, sid) (binding_rows tb') = None
        | Some P \<Rightarrow> \<exists>r. row_at bound_session_key (t, sid) (binding_rows tb') = Some r \<and> P r)"

lemma delete_binding_effect:
  assumes "delete_binding_row t sid now tb = Inr (u, tb')" "tables_keyed tb"
  shows "tables_keyed tb' \<and> binding_written t sid None tb tb'"
proof -
  have tb': "tb' = tb\<lparr> binding_rows := filter (\<lambda>r. bound_session_key r \<noteq> (t, sid)) (binding_rows tb) \<rparr>"
    using assms(1) by (simp add: delete_binding_row_def)
  have b: "binding_rows tb' = filter (\<lambda>r. bound_session_key r \<noteq> (t, sid)) (binding_rows tb)"
    by (simp add: tb')
  have "row_at bound_session_key k (binding_rows tb')
      = (if k = (t, sid) then None else row_at bound_session_key k (binding_rows tb))" for k
    unfolding b by (rule row_at_filter)
  moreover have "distinct (map bound_session_key (binding_rows tb'))"
    using assms(2) unfolding b tables_keyed_def by (simp only: distinct_map_filter)
  ultimately show ?thesis
    using assms(2) by (simp add: binding_written_def tables_keyed_def tb')
qed

lemma upsert_binding_effect:
  assumes up: "upsert_binding_row r now tb = Inr (u, tb')" and keyed: "tables_keyed tb"
  shows "tables_keyed tb' \<and> binding_written (bound_tenant r) (bound_session r) (Some (\<lambda>x. x = r)) tb tb'"
proof -
  let ?same = "\<lambda>x. bound_session_key x = bound_session_key r"
  consider (update) "list_ex ?same (binding_rows tb)"
      "tb' = tb\<lparr> binding_rows := update_rows ?same (\<lambda>_. r) (binding_rows tb) \<rparr>"
    | (insert) "\<not> list_ex ?same (binding_rows tb)" "tb' = tb\<lparr> binding_rows := binding_rows tb @ [r] \<rparr>"
    using up by (auto simp: upsert_binding_row_def Let_def split: if_splits option.splits)
  then show ?thesis
  proof cases
    case update
    have b: "binding_rows tb' = update_rows ?same (\<lambda>_. r) (binding_rows tb)" by (simp add: update(2))
    have at: "row_at bound_session_key k (binding_rows tb')
        = map_option (\<lambda>x. if ?same x then r else x) (row_at bound_session_key k (binding_rows tb))" for k
      unfolding b by (rule row_at_update) simp
    have keys: "map bound_session_key (binding_rows tb') = map bound_session_key (binding_rows tb)"
      unfolding b by (rule keys_update) simp
    obtain x where x: "row_at bound_session_key (bound_session_key r) (binding_rows tb) = Some x"
      using update(1) by (cases "row_at bound_session_key (bound_session_key r) (binding_rows tb)")
        (auto simp: list_ex_iff row_at_None)
    have "row_at bound_session_key k (binding_rows tb') = row_at bound_session_key k (binding_rows tb)"
      if "k \<noteq> bound_session_key r" for k
      unfolding at by (cases "row_at bound_session_key k (binding_rows tb)")
        (use that in \<open>auto dest: row_at_SomeD\<close>)
    moreover have "row_at bound_session_key (bound_session_key r) (binding_rows tb') = Some r"
      unfolding at x using row_at_SomeD [OF x] by simp
    ultimately show ?thesis
      using keyed keys by (simp add: binding_written_def tables_keyed_def) (simp add: update(2))
  next
    case insert
    have b: "binding_rows tb' = binding_rows tb @ [r]" by (simp add: insert(2))
    from insert have none: "row_at bound_session_key (bound_session_key r) (binding_rows tb) = None"
      by (auto simp: list_ex_iff row_at_None)
    have "distinct (map bound_session_key (binding_rows tb'))"
      unfolding b by (rule distinct_keys_append [OF _ none]) (use keyed in \<open>simp add: tables_keyed_def\<close>)
    moreover have "row_at bound_session_key k (binding_rows tb')
        = (if k = bound_session_key r then Some r else row_at bound_session_key k (binding_rows tb))" for k
    proof (cases "k = bound_session_key r")
      case True
      then show ?thesis unfolding b row_at_append True none by simp
    next
      case False
      then show ?thesis unfolding b row_at_append
        by (cases "row_at bound_session_key k (binding_rows tb)") auto
    qed
    ultimately show ?thesis
      using keyed by (simp add: binding_written_def tables_keyed_def) (simp add: insert(2))
  qed
qed

section \<open>The lease row\<close>

lemma ensure_lease_effect:
  assumes "ensure_lease_row t sid now tb = Inr (u, tb')" "tables_keyed tb"
  shows "tables_keyed tb' \<and> session_rows tb' = session_rows tb \<and> operation_rows tb' = operation_rows tb
    \<and> binding_rows tb' = binding_rows tb
    \<and> (\<forall>k. row_at lease_key k (lease_rows tb') = (case row_at lease_key k (lease_rows tb) of
         Some r \<Rightarrow> Some r
       | None \<Rightarrow> if k = (t, sid) then Some \<lparr> held_tenant = t, held_session = sid, held_owner = None,
           held_expires = None, held_token = 0 \<rparr> else None))"
proof (cases "row_at lease_key (t, sid) (lease_rows tb)")
  case (Some r)
  then have "tb' = tb" using assms(1) by (simp add: ensure_lease_row_def)
  then show ?thesis using assms(2) Some by (simp split: option.splits)
next
  case None
  let ?r = "\<lparr> held_tenant = t, held_session = sid, held_owner = None, held_expires = None, held_token = 0 \<rparr>"
  have tb': "tb' = tb\<lparr> lease_rows := lease_rows tb @ [?r] \<rparr>"
    using assms(1) None by (auto simp: ensure_lease_row_def split: if_splits)
  have b: "lease_rows tb' = lease_rows tb @ [?r]" by (simp add: tb')
  have "distinct (map lease_key (lease_rows tb @ [?r]))"
    by (rule distinct_keys_append) (use assms(2) None in \<open>simp_all add: tables_keyed_def\<close>)
  moreover have "row_at lease_key k (lease_rows tb') = (case row_at lease_key k (lease_rows tb) of
      Some r \<Rightarrow> Some r | None \<Rightarrow> if k = (t, sid) then Some ?r else None)" for k
    unfolding b row_at_append by (simp add: eq_commute [of "(t, sid)"])
  ultimately show ?thesis using assms(2) by (simp add: tables_keyed_def) (simp add: tb')
qed

end
