(* ===== verification/Sql_Protection.thy ===== *)
theory Sql_Protection
  imports Session_Repository Command_Types
begin

text \<open>
  The protection of allocation references at rest (\<open>encryption.rs\<close> of crate
  \<open>sdkwork-intelligence-sandbox-repository-sqlx\<close>): versioned keys from an injected key source, a key
  derived per tenant, session and binding, and authenticated encryption. The primitives belong to
  another package and are a parameter: the derivation of a key from material, salt and info, and the
  cipher, whose encryption draws its nonce from a seed. Only their correctness is assumed of them; that no
  key opens what another sealed is a matter of probability, and the failure of it is an event the lemmas
  name.
\<close>

section \<open>Keys\<close>

record allocation_key =
  allocation_key_id :: string
  allocation_key_version :: u64
  allocation_key_material :: string

definition allocation_key_new :: "string \<Rightarrow> u64 \<Rightarrow> string \<Rightarrow> allocation_key repository_result" where
  "allocation_key_new k v material =
     (if k = [] \<or> length k > 128 \<or> \<not> list_all is_ascii_graphic k
         \<or> \<not> (1 \<le> int (unat v) \<and> int (unat v) \<le> i64_max)
         \<or> \<not> (32 \<le> length material \<and> length material \<le> 1024)
      then Inl ProtectionFailed
      else Inr \<lparr> allocation_key_id = k, allocation_key_version = v, allocation_key_material = material \<rparr>)"

record key_source =
  current_allocation_key :: "allocation_key repository_result"
  source_allocation_key :: "string \<Rightarrow> u64 \<Rightarrow> allocation_key repository_result"

record cipher =
  derive_key :: "string \<Rightarrow> string \<Rightarrow> string \<Rightarrow> string"
  encrypt :: "nat \<Rightarrow> string \<Rightarrow> string \<Rightarrow> string option"
  decrypt :: "string \<Rightarrow> string \<Rightarrow> string option"

definition allocation_crypto_version :: "16 word" where
  "allocation_crypto_version = 1"

definition allocation_key_info :: string where
  "allocation_key_info = ''sdkwork-sandbox-provider-allocation:aes-256-gcm:v1''"

definition sandbox_protection_salt :: "protection_context \<Rightarrow> string" where
  "sandbox_protection_salt ctx =
     ''sdkwork-sandbox-allocation-context-v1''
     @ concat (map (\<lambda>part. be_bytes (length_u64 part) @ part)
         [context_tenant_id ctx, context_session_id ctx, context_runtime_binding_id ctx])"

definition derive_sandbox_allocation_key :: "cipher \<Rightarrow> allocation_key \<Rightarrow> protection_context \<Rightarrow> string" where
  "derive_sandbox_allocation_key c k ctx =
     derive_key c (allocation_key_material k) (sandbox_protection_salt ctx) allocation_key_info"

section \<open>Reading bytes as text\<close>

text \<open>\<open>String::from_utf8\<close>: the well-formed byte sequences of Unicode.\<close>

definition utf8_tail :: "char \<Rightarrow> bool" where
  "utf8_tail c \<longleftrightarrow> 128 \<le> (of_char c :: nat) \<and> (of_char c :: nat) < 192"

definition utf8_lead2 :: "nat \<Rightarrow> bool" where
  "utf8_lead2 a \<longleftrightarrow> 194 \<le> a \<and> a \<le> 223"

definition utf8_lead3 :: "nat \<Rightarrow> nat \<Rightarrow> bool" where
  "utf8_lead3 a b \<longleftrightarrow>
     (a = 224 \<and> 160 \<le> b \<and> b < 192) \<or> (225 \<le> a \<and> a \<le> 239 \<and> a \<noteq> 237 \<and> 128 \<le> b \<and> b < 192)
     \<or> (a = 237 \<and> 128 \<le> b \<and> b < 160)"

definition utf8_lead4 :: "nat \<Rightarrow> nat \<Rightarrow> bool" where
  "utf8_lead4 a b \<longleftrightarrow>
     (a = 240 \<and> 144 \<le> b \<and> b < 192) \<or> (241 \<le> a \<and> a \<le> 243 \<and> 128 \<le> b \<and> b < 192)
     \<or> (a = 244 \<and> 128 \<le> b \<and> b < 144)"

fun valid_utf8 :: "string \<Rightarrow> bool" where
  "valid_utf8 [] = True"
| "valid_utf8 (a # s) =
     (if (of_char a :: nat) < 128 then valid_utf8 s
      else
        (case s of
           [] \<Rightarrow> False
         | b # s1 \<Rightarrow>
             if utf8_lead2 (of_char a) then utf8_tail b \<and> valid_utf8 s1
             else
               (case s1 of
                  [] \<Rightarrow> False
                | c # s2 \<Rightarrow>
                    if utf8_lead3 (of_char a) (of_char b) then utf8_tail c \<and> valid_utf8 s2
                    else
                      (case s2 of
                         [] \<Rightarrow> False
                       | d # s3 \<Rightarrow>
                           utf8_lead4 (of_char a) (of_char b) \<and> utf8_tail c \<and> utf8_tail d \<and> valid_utf8 s3))))"

lemma ascii_is_utf8: "\<forall>c\<in>set s. (of_char c :: nat) < 128 \<Longrightarrow> valid_utf8 s"
  by (induction s) auto

section \<open>The protector\<close>

definition current_sandbox_allocation_protection_version ::
  "key_source \<Rightarrow> protection_version repository_result" where
  "current_sandbox_allocation_protection_version ks =
     (case current_allocation_key ks of
        Inl e \<Rightarrow> Inl e
      | Inr k \<Rightarrow>
          protection_version_new (allocation_key_id k) (allocation_key_version k) allocation_crypto_version)"

definition protect_sandbox_allocation_reference ::
  "cipher \<Rightarrow> key_source \<Rightarrow> nat \<Rightarrow> protection_context \<Rightarrow> sandbox_allocation_ref
     \<Rightarrow> protected_allocation_ref repository_result" where
  "protect_sandbox_allocation_reference c ks seed ctx a =
     (case current_allocation_key ks of
        Inl e \<Rightarrow> Inl e
      | Inr k \<Rightarrow>
          (case encrypt c seed (derive_sandbox_allocation_key c k ctx) a of
             None \<Rightarrow> Inl ProtectionFailed
           | Some ciphertext \<Rightarrow>
               protected_allocation_ref_new ciphertext (allocation_key_id k) (allocation_key_version k)
                 allocation_crypto_version))"

definition restore_sandbox_allocation_reference ::
  "cipher \<Rightarrow> key_source \<Rightarrow> protection_context \<Rightarrow> protected_allocation_ref
     \<Rightarrow> sandbox_allocation_ref repository_result" where
  "restore_sandbox_allocation_reference c ks ctx q =
     (if protected_crypto_version q \<noteq> allocation_crypto_version then Inl ProtectionFailed
      else
        (case source_allocation_key ks (protected_key_id q) (protected_key_version q) of
           Inl e \<Rightarrow> Inl e
         | Inr k \<Rightarrow>
             if allocation_key_id k \<noteq> protected_key_id q \<or> allocation_key_version k \<noteq> protected_key_version q
             then Inl ProtectionFailed
             else
               (case decrypt c (derive_sandbox_allocation_key c k ctx) (protected_ciphertext q) of
                  None \<Rightarrow> Inl ProtectionFailed
                | Some plain \<Rightarrow>
                    if \<not> valid_utf8 plain then Inl ProtectionFailed
                    else map_sum (\<lambda>_. ProtectionFailed) id (allocation_ref_new plain))))"

definition reencrypt_sandbox_allocation_reference ::
  "cipher \<Rightarrow> key_source \<Rightarrow> nat \<Rightarrow> protection_context \<Rightarrow> protected_allocation_ref
     \<Rightarrow> protected_allocation_ref repository_result" where
  "reencrypt_sandbox_allocation_reference c ks seed ctx q =
     (case restore_sandbox_allocation_reference c ks ctx q of
        Inl e \<Rightarrow> Inl e
      | Inr a \<Rightarrow> protect_sandbox_allocation_reference c ks seed ctx a)"

definition sdkwork_protector :: "cipher \<Rightarrow> key_source \<Rightarrow> nat \<Rightarrow> allocation_protector" where
  "sdkwork_protector c ks seed = \<lparr>
     current_protection_version = current_sandbox_allocation_protection_version ks,
     protect_reference = protect_sandbox_allocation_reference c ks seed,
     restore_reference = restore_sandbox_allocation_reference c ks,
     reencrypt_reference = reencrypt_sandbox_allocation_reference c ks seed \<rparr>"

section \<open>What the primitives promise\<close>

text \<open>
  Decryption under the key a text was sealed with gives the plaintext back, and derived keys are the 32
  bytes of an AES-256 key. Nothing is assumed of other keys: what a text does under one is the named event
  below.
\<close>

definition sound_cipher :: "cipher \<Rightarrow> bool" where
  "sound_cipher c \<longleftrightarrow>
     (\<forall>n k plain sealed. encrypt c n k plain = Some sealed \<longrightarrow> decrypt c k sealed = Some plain)
     \<and> (\<forall>m s i. length (derive_key c m s i) = 32)"

text \<open>
  The failure of the primitives a protector cannot exclude: under the key derived with one salt the cipher
  opens what it sealed under the key derived with another. Either the two derived keys collide or a text
  passes its authentication under a key it was not sealed with.
\<close>

definition opens_across :: "cipher \<Rightarrow> string \<Rightarrow> string \<Rightarrow> string \<Rightarrow> string \<Rightarrow> bool" where
  "opens_across c material salt salt' plain \<longleftrightarrow>
     salt' \<noteq> salt
     \<and> (\<exists>n sealed. encrypt c n (derive_key c material salt allocation_key_info) plain = Some sealed
          \<and> decrypt c (derive_key c material salt' allocation_key_info) sealed \<noteq> None)"

text \<open>A source answers with keys that carry the identity they were asked for.\<close>

definition key_in_source :: "allocation_key \<Rightarrow> key_source \<Rightarrow> bool" where
  "key_in_source k ks \<longleftrightarrow> source_allocation_key ks (allocation_key_id k) (allocation_key_version k) = Inr k"

definition context_fits :: "protection_context \<Rightarrow> bool" where
  "context_fits ctx \<longleftrightarrow> fits_u64 (context_tenant_id ctx) \<and> fits_u64 (context_session_id ctx)
     \<and> fits_u64 (context_runtime_binding_id ctx)"

lemma protection_salt_inject:
  assumes "context_fits x" "context_fits y"
  shows "sandbox_protection_salt x = sandbox_protection_salt y \<longleftrightarrow> x = y"
proof
  assume "sandbox_protection_salt x = sandbox_protection_salt y"
  then have "length_prefixed (context_tenant_id x) @ length_prefixed (context_session_id x)
      @ length_prefixed (context_runtime_binding_id x) @ []
    = length_prefixed (context_tenant_id y) @ length_prefixed (context_session_id y)
      @ length_prefixed (context_runtime_binding_id y) @ []"
    by (simp add: sandbox_protection_salt_def length_prefixed_def)
  with assms show "x = y"
    by (cases x; cases y) (simp add: length_prefixed_append length_prefixed_append [where r = "[]" and s = "[]", simplified]
        context_fits_def)
qed simp

lemma sound_cipherD:
  assumes "sound_cipher c"
  shows "encrypt c n k plain = Some sealed \<Longrightarrow> decrypt c k sealed = Some plain"
    and "length (derive_key c m s i) = 32"
  using assms unfolding sound_cipher_def by blast+

lemma protected_allocation_ref_new_ok:
  "protected_allocation_ref_new ct k kv cv = Inr q \<Longrightarrow>
     q = \<lparr> protected_ciphertext = ct, protected_key_id = k, protected_key_version = kv,
           protected_crypto_version = cv \<rparr>"
  by (auto simp: protected_allocation_ref_new_def split: if_splits)

lemma protect_shape:
  assumes "protect_sandbox_allocation_reference c ks seed ctx a = Inr q"
  obtains k where "current_allocation_key ks = Inr k" "protected_key_id q = allocation_key_id k"
    "protected_key_version q = allocation_key_version k" "protected_crypto_version q = allocation_crypto_version"
    "encrypt c seed (derive_sandbox_allocation_key c k ctx) a = Some (protected_ciphertext q)"
  using assms by (auto simp: protect_sandbox_allocation_reference_def dest!: protected_allocation_ref_new_ok
      split: sum.splits option.splits)

lemma restore_with_key:
  assumes "key_in_source k ks" "protected_key_id q = allocation_key_id k"
    "protected_key_version q = allocation_key_version k" "protected_crypto_version q = allocation_crypto_version"
  shows "restore_sandbox_allocation_reference c ks ctx q =
    (case decrypt c (derive_sandbox_allocation_key c k ctx) (protected_ciphertext q) of
       None \<Rightarrow> Inl ProtectionFailed
     | Some plain \<Rightarrow>
         if \<not> valid_utf8 plain then Inl ProtectionFailed
         else map_sum (\<lambda>_. ProtectionFailed) id (allocation_ref_new plain))"
  using assms by (simp add: restore_sandbox_allocation_reference_def key_in_source_def)

lemma restore_protected:
  assumes "sound_cipher c" "current_allocation_key ks = Inr k" "key_in_source k ks'"
    and "valid_utf8 a" "allocation_ref_new a = Inr a"
    and "protect_sandbox_allocation_reference c ks seed ctx a = Inr q"
  shows "restore_sandbox_allocation_reference c ks' ctx q = Inr a"
proof -
  obtain k' where k': "current_allocation_key ks = Inr k'" "protected_key_id q = allocation_key_id k'"
    "protected_key_version q = allocation_key_version k'" "protected_crypto_version q = allocation_crypto_version"
    "encrypt c seed (derive_sandbox_allocation_key c k' ctx) a = Some (protected_ciphertext q)"
    by (rule protect_shape [OF assms(6)])
  then have "k' = k" using assms(2) by simp
  with k' assms show ?thesis
    by (simp add: restore_with_key sound_cipherD(1) [OF assms(1)])
qed

lemma restore_elsewhere:
  assumes "current_allocation_key ks = Inr k" "key_in_source k ks'"
    and "protect_sandbox_allocation_reference c ks seed ctx a = Inr q"
    and "context_fits ctx" "context_fits ctx'" "ctx' \<noteq> ctx"
  shows "restore_sandbox_allocation_reference c ks' ctx' q = Inl ProtectionFailed
    \<or> opens_across c (allocation_key_material k) (sandbox_protection_salt ctx) (sandbox_protection_salt ctx') a"
proof -
  have "sandbox_protection_salt ctx' \<noteq> sandbox_protection_salt ctx"
    using protection_salt_inject assms(4-6) by blast
  moreover obtain k' where k': "current_allocation_key ks = Inr k'" "protected_key_id q = allocation_key_id k'"
    "protected_key_version q = allocation_key_version k'" "protected_crypto_version q = allocation_crypto_version"
    "encrypt c seed (derive_sandbox_allocation_key c k' ctx) a = Some (protected_ciphertext q)"
    by (rule protect_shape [OF assms(3)])
  moreover have "k' = k" using k'(1) assms(1) by simp
  ultimately show ?thesis
    using assms(2)
    by (cases "decrypt c (derive_sandbox_allocation_key c k ctx') (protected_ciphertext q)")
      (auto simp: restore_with_key opens_across_def derive_sandbox_allocation_key_def)
qed

text \<open>A source that answers with another key than the one named, or not at all.\<close>

lemma restore_other_identity:
  assumes "protected_crypto_version q = allocation_crypto_version"
    and "source_allocation_key ks (protected_key_id q) (protected_key_version q) = Inr k"
    and "allocation_key_id k \<noteq> protected_key_id q \<or> allocation_key_version k \<noteq> protected_key_version q"
  shows "restore_sandbox_allocation_reference c ks ctx q = Inl ProtectionFailed"
  using assms by (auto simp: restore_sandbox_allocation_reference_def)

lemma restore_other_crypto:
  "protected_crypto_version q \<noteq> allocation_crypto_version \<Longrightarrow>
     restore_sandbox_allocation_reference c ks ctx q = Inl ProtectionFailed"
  by (simp add: restore_sandbox_allocation_reference_def)

lemma restore_no_key:
  assumes "protected_crypto_version q = allocation_crypto_version"
    and "source_allocation_key ks (protected_key_id q) (protected_key_version q) = Inl e"
  shows "restore_sandbox_allocation_reference c ks ctx q = Inl e"
  using assms by (simp add: restore_sandbox_allocation_reference_def)

end
