(* ===== verification/Sql_Simulation.thy ===== *)
theory Sql_Simulation
  imports Sql_Relation Sql_Protection
begin

text \<open>
  Every write of the SQL repository that succeeds is a write of the in-memory store: the transactions
  that insert and save a session, the single statements on a lease (the store's clock counts nanoseconds,
  the server's microseconds) and the replacement of a protected reference keep the tables related to a
  store that makes the same step.
\<close>


section \<open>Faithful protectors\<close>

definition reference_typed :: "sandbox_allocation_ref \<Rightarrow> bool" where
  "reference_typed a \<longleftrightarrow> valid_utf8 a \<and> allocation_ref_new a = Inr a"

text \<open>What a protector seals opens again, now and with every key there is, and it opens nothing else.\<close>

definition faithful ::
  "(protection_context \<Rightarrow> protected_allocation_ref \<Rightarrow> sandbox_allocation_ref option)
     \<Rightarrow> allocation_protector \<Rightarrow> bool" where
  "faithful restore p \<longleftrightarrow>
     (\<forall>ctx a q. reference_typed a \<longrightarrow> protect_reference p ctx a = Inr q \<longrightarrow>
        restore ctx q = Some a \<and> protected_ok q)
     \<and> (\<forall>ctx a q. restore_reference p ctx q = Inr a \<longrightarrow> restore ctx q = Some a)"

definition opened_with ::
  "cipher \<Rightarrow> key_source \<Rightarrow> protection_context \<Rightarrow> protected_allocation_ref \<Rightarrow> sandbox_allocation_ref option" where
  "opened_with c ks ctx q =
     (case restore_sandbox_allocation_reference c ks ctx q of Inl _ \<Rightarrow> None | Inr a \<Rightarrow> Some a)"

lemma protect_protected_ok:
  "protect_sandbox_allocation_reference c ks seed ctx a = Inr q \<Longrightarrow> protected_ok q"
  by (auto simp: protect_sandbox_allocation_reference_def protected_ok_def protected_allocation_ref_new_def
      split: sum.splits option.splits if_splits)

lemma restored_reference_typed:
  "restore_sandbox_allocation_reference c ks ctx q = Inr a \<Longrightarrow> reference_typed a"
  by (auto simp: restore_sandbox_allocation_reference_def reference_typed_def allocation_ref_new_def
      split: if_splits sum.splits option.splits)

lemma sdkwork_protector_faithful:
  assumes "sound_cipher c" "\<And>k. current_allocation_key ks = Inr k \<Longrightarrow> key_in_source k vault"
    and "\<And>id v k. source_allocation_key ks id v = Inr k \<Longrightarrow> source_allocation_key vault id v = Inr k"
  shows "faithful (opened_with c vault) (sdkwork_protector c ks seed)"
  unfolding faithful_def
proof (intro conjI allI impI)
  fix ctx a q assume a: "reference_typed a" and q: "protect_reference (sdkwork_protector c ks seed) ctx a = Inr q"
  then have p: "protect_sandbox_allocation_reference c ks seed ctx a = Inr q" by (simp add: sdkwork_protector_def)
  then obtain k where "current_allocation_key ks = Inr k" by (rule protect_shape)
  then show "opened_with c vault ctx q = Some a"
    using restore_protected [OF assms(1) _ assms(2) _ _ p] a by (simp add: opened_with_def reference_typed_def)
  show "protected_ok q" by (rule protect_protected_ok [OF p])
next
  fix ctx a q assume "restore_reference (sdkwork_protector c ks seed) ctx q = Inr a"
  then show "opened_with c vault ctx q = Some a"
    using assms(3) by (auto simp: sdkwork_protector_def opened_with_def restore_sandbox_allocation_reference_def
        split: if_splits sum.splits option.splits)
qed

definition session_storable :: "sandbox_session \<Rightarrow> bool" where
  "session_storable s \<longleftrightarrow> session_typed s
     \<and> (case session_runtime_binding s of
          None \<Rightarrow> True
        | Some b \<Rightarrow> (case binding_allocation_ref b of None \<Rightarrow> True | Some a \<Rightarrow> reference_typed a))"

section \<open>The captured snapshot\<close>

definition binding_captured ::
  "(protection_context \<Rightarrow> protected_allocation_ref \<Rightarrow> sandbox_allocation_ref option)
     \<Rightarrow> string \<Rightarrow> string \<Rightarrow> sandbox_binding_snapshot \<Rightarrow> sandbox_runtime_binding \<Rightarrow> bool" where
  "binding_captured restore t sid x b \<longleftrightarrow>
     snapshot_sandbox_id x = binding_sandbox_id b \<and> snapshot_runtime_binding_id x = binding_runtime_id b
     \<and> snapshot_provider_id x = binding_provider_id b
     \<and> (case binding_allocation_ref b of
          None \<Rightarrow> snapshot_protected_reference x = None
        | Some a \<Rightarrow> \<exists>q. snapshot_protected_reference x = Some q \<and> protected_ok q
            \<and> restore (protection_context_for_repository t sid (binding_runtime_id b)) q = Some a)"

definition session_captured ::
  "(protection_context \<Rightarrow> protected_allocation_ref \<Rightarrow> sandbox_allocation_ref option)
     \<Rightarrow> sandbox_session \<Rightarrow> sandbox_session_snapshot \<Rightarrow> bool" where
  "session_captured restore s snap \<longleftrightarrow>
     snapshot_tenant_id snap = session_tenant_id s \<and> snapshot_session_id snap = session_id s
     \<and> snapshot_operations snap = session_operations s
     \<and> snapshot_operations_to_persist snap = sandbox_operations_to_persist s
     \<and> (\<forall>r. session_row_of snap = Inr r \<longrightarrow> r = session_row_for s)
     \<and> rel_option (binding_captured restore (session_tenant_id s) (session_id s))
         (snapshot_runtime_binding snap) (session_runtime_binding s)"

lemma capture_binding_ok:
  assumes "faithful restore p" "\<And>a. binding_allocation_ref b = Some a \<Longrightarrow> reference_typed a"
    and "snapshot_capture_binding p s b = Inr x"
  shows "binding_captured restore (session_tenant_id s) (session_id s) x b"
  using assms unfolding snapshot_capture_binding_def Let_def
  by (auto simp: binding_captured_def faithful_def split: option.splits sum.splits)

lemma capture_ok:
  assumes f: "faithful restore p" and s: "session_storable s" and c: "snapshot_capture p s = Inr snap"
  shows "session_valid s \<and> session_captured restore s snap"
proof -
  let ?snap = "\<lambda>b. \<lparr> snapshot_tenant_id = session_tenant_id s,
    snapshot_workspace_id = session_workspace_id s, snapshot_session_id = session_id s,
    snapshot_state = session_state s, snapshot_required_capabilities = session_required_capabilities s,
    snapshot_minimum_assurance = session_minimum_assurance s, snapshot_runtime_binding = b,
    snapshot_last_failure = session_last_failure s, snapshot_operations = session_operations s,
    snapshot_persisted_operations = Some (sandbox_operations_to_persist s),
    snapshot_version = session_version s \<rparr>"
  obtain b where snap: "snap = ?snap b" "snapshot_validate (?snap b) = Inr ()"
    and b: "rel_option (binding_captured restore (session_tenant_id s) (session_id s)) b (session_runtime_binding s)"
  proof (cases "session_runtime_binding s")
    case None
    then show thesis using c that [of None]
      by (auto simp: snapshot_capture_def Let_def split: sum.splits)
  next
    case (Some b)
    then obtain x where x: "snapshot_capture_binding p s b = Inr x" "snap = ?snap (Some x)"
      "snapshot_validate (?snap (Some x)) = Inr ()"
      using c by (auto simp: snapshot_capture_def Let_def split: sum.splits)
    moreover have "binding_captured restore (session_tenant_id s) (session_id s) x b"
      by (rule capture_binding_ok [OF f _ x(1)]) (use s Some in \<open>simp add: session_storable_def\<close>)
    ultimately show thesis using that [of "Some x"] Some by simp
  qed
  have "(b \<noteq> None) = (session_runtime_binding s \<noteq> None)" using b by (cases b) (auto simp: option_rel_Some1)
  moreover have "(case b of None \<Rightarrow> False | Some x \<Rightarrow> snapshot_protected_reference x \<noteq> None)
      = has_allocation_reference (session_runtime_binding s)"
    using b by (cases b) (auto simp: option_rel_Some1 has_allocation_reference_def binding_captured_def split: option.splits)
  ultimately have "session_valid s"
    using snap(2) unfolding session_valid_def validate_sandbox_session_persisted_invariants_def snapshot_validate_def
    by simp
  moreover have "session_captured restore s snap"
    unfolding session_captured_def snap(1) using b
    by (auto simp: snapshot_operations_to_persist_def session_row_of_def session_row_for_def i64_from_u64_def
        split: if_splits)
  ultimately show ?thesis by blast
qed

lemma binding_row_of_related:
  assumes x: "binding_captured restore t sid x b" and r: "binding_row_of t sid x = Inr r"
  shows "binding_related restore t sid r b \<and> bound_session_key r = (t, sid)"
proof (cases "snapshot_protected_reference x")
  case None
  then show ?thesis using assms
    by (auto simp: binding_captured_def binding_related_def binding_row_of_def Let_def split: option.splits)
next
  case (Some q)
  then have "holds_protected q r" using r
    by (auto simp: binding_row_of_def Let_def holds_protected_def i64_from_u64_def i16_from_u16_def
        split: if_splits)
  moreover have "bound_sandbox r = snapshot_sandbox_id x \<and> bound_binding r = snapshot_runtime_binding_id x
      \<and> bound_provider r = snapshot_provider_id x \<and> bound_tenant r = t \<and> bound_session r = sid"
    using r Some by (auto simp: binding_row_of_def Let_def split: sum.splits)
  ultimately show ?thesis
    using x Some by (auto simp: binding_captured_def binding_related_def split: option.splits)
qed

lemma sync_binding_effect:
  assumes run: "run_state (sync_sandbox_runtime_binding snap) v = (Inr (), v')"
    and cap: "session_captured restore s snap" and keyed: "tables_keyed (server_tables v)"
  shows "tables_keyed (server_tables v') \<and> server_clock v' = server_clock v
    \<and> binding_written (session_tenant_id s) (session_id s)
        (map_option (\<lambda>b r. binding_related restore (session_tenant_id s) (session_id s) r b) (session_runtime_binding s))
        (server_tables v) (server_tables v')"
proof (cases "snapshot_runtime_binding snap")
  case None
  then have none: "session_runtime_binding s = None" using cap by (simp add: session_captured_def)
  have "run_state (statement (delete_binding_row (session_tenant_id s) (session_id s))) v = (Inr (), v')"
    using run None cap by (simp add: sync_sandbox_runtime_binding_def session_captured_def)
  then have "delete_binding_row (session_tenant_id s) (session_id s) (server_clock v) (server_tables v)
      = Inr ((), server_tables v')" "server_clock v' = server_clock v"
    by (auto elim: statement_okE)
  then show ?thesis using delete_binding_effect [OF _ keyed] none by simp
next
  case (Some x)
  then obtain b where b: "session_runtime_binding s = Some b"
    "binding_captured restore (session_tenant_id s) (session_id s) x b"
    using cap by (auto simp: session_captured_def option_rel_Some1)
  have "run_state (try_bind (ret (binding_row_of (session_tenant_id s) (session_id s) x))
      (\<lambda>r. statement (upsert_binding_row r))) v = (Inr (), v')"
    using run Some cap by (simp add: sync_sandbox_runtime_binding_def session_captured_def)
  then obtain r where r: "binding_row_of (session_tenant_id s) (session_id s) x = Inr r"
    "run_state (statement (upsert_binding_row r)) v = (Inr (), v')"
    by (rule try_bind_ret_okE)
  have rel: "binding_related restore (session_tenant_id s) (session_id s) r b
      \<and> bound_session_key r = (session_tenant_id s, session_id s)"
    by (rule binding_row_of_related [OF b(2) r(1)])
  have "upsert_binding_row r (server_clock v) (server_tables v) = Inr ((), server_tables v')"
    "server_clock v' = server_clock v"
    using r(2) by (auto elim: statement_okE)
  then show ?thesis
    using upsert_binding_effect [OF _ keyed, of r] rel b(1) by (auto simp: binding_written_def)
qed

section \<open>A session written\<close>

definition fresh_lease_row :: "string \<Rightarrow> string \<Rightarrow> lease_row" where
  "fresh_lease_row t sid = \<lparr> held_tenant = t, held_session = sid, held_owner = None, held_expires = None,
     held_token = 0 \<rparr>"

definition session_stored ::
  "(protection_context \<Rightarrow> protected_allocation_ref \<Rightarrow> sandbox_allocation_ref option)
     \<Rightarrow> sandbox_session \<Rightarrow> sandbox_session_operation set \<Rightarrow> sql_tables \<Rightarrow> sql_tables \<Rightarrow> bool" where
  "session_stored restore s xs tb tb' \<longleftrightarrow>
     (let t = session_tenant_id s; sid = session_id s in
      tables_keyed tb'
      \<and> (\<forall>k. row_at session_key k (session_rows tb') =
           (if k = (t, sid) then Some (session_row_for s) else row_at session_key k (session_rows tb)))
      \<and> session_ops t sid tb' = set (ledger_rows t sid (session_operations s))
      \<and> (\<forall>t' sid'. (t', sid') \<noteq> (t, sid) \<longrightarrow> session_ops t' sid' tb' = session_ops t' sid' tb)
      \<and> (\<forall>k. operation_owner tb' k =
           (if fst k = t \<and> snd k \<in> operation_id_of ` xs then Some sid else operation_owner tb k))
      \<and> (\<forall>x\<in>xs. operation_owner tb (t, operation_id_of x) \<in> {None, Some sid})
      \<and> (\<forall>k. k \<noteq> (t, sid) \<longrightarrow> row_at bound_session_key k (binding_rows tb') = row_at bound_session_key k (binding_rows tb))
      \<and> rel_option (binding_related restore t sid) (row_at bound_session_key (t, sid) (binding_rows tb'))
          (session_runtime_binding s)
      \<and> (\<forall>k. row_at lease_key k (lease_rows tb') = (case row_at lease_key k (lease_rows tb) of
           Some r \<Rightarrow> Some r | None \<Rightarrow> if k = (t, sid) then Some (fresh_lease_row t sid) else None)))"

lemma session_storedD:
  assumes "session_stored restore s xs tb tb'"
  shows "tables_keyed tb'"
    and "row_at session_key k (session_rows tb') =
      (if k = (session_tenant_id s, session_id s) then Some (session_row_for s) else row_at session_key k (session_rows tb))"
    and "session_ops (session_tenant_id s) (session_id s) tb'
      = set (ledger_rows (session_tenant_id s) (session_id s) (session_operations s))"
    and "(t', sid') \<noteq> (session_tenant_id s, session_id s) \<Longrightarrow> session_ops t' sid' tb' = session_ops t' sid' tb"
    and "operation_owner tb' k =
      (if fst k = session_tenant_id s \<and> snd k \<in> operation_id_of ` xs then Some (session_id s) else operation_owner tb k)"
    and "x \<in> xs \<Longrightarrow> operation_owner tb (session_tenant_id s, operation_id_of x) \<in> {None, Some (session_id s)}"
    and "k \<noteq> (session_tenant_id s, session_id s) \<Longrightarrow>
      row_at bound_session_key k (binding_rows tb') = row_at bound_session_key k (binding_rows tb)"
    and "rel_option (binding_related restore (session_tenant_id s) (session_id s))
      (row_at bound_session_key (session_tenant_id s, session_id s) (binding_rows tb')) (session_runtime_binding s)"
    and "row_at lease_key k (lease_rows tb') = (case row_at lease_key k (lease_rows tb) of
      Some r \<Rightarrow> Some r
    | None \<Rightarrow> if k = (session_tenant_id s, session_id s)
        then Some (fresh_lease_row (session_tenant_id s) (session_id s)) else None)"
  using assms unfolding session_stored_def Let_def by blast+

text \<open>The writes of a transaction, one after the other.\<close>

lemma session_storedI:
  assumes keyed: "tables_keyed tb3"
    and session: "\<And>k. row_at session_key k (session_rows tb1) =
      (if k = (session_tenant_id s, session_id s) then Some (session_row_for s) else row_at session_key k (session_rows tb))"
    and same: "operation_rows tb1 = operation_rows tb" "binding_rows tb1 = binding_rows tb" "lease_rows tb1 = lease_rows tb"
    and ops: "operations_written (session_tenant_id s) (session_id s) xs tb1 tb2"
      "session_ops (session_tenant_id s) (session_id s) tb2
        = set (ledger_rows (session_tenant_id s) (session_id s) (session_operations s))"
    and binding: "binding_written (session_tenant_id s) (session_id s)
      (map_option (\<lambda>b r. binding_related restore (session_tenant_id s) (session_id s) r b) (session_runtime_binding s)) tb2 tb3"
    and lease: "session_rows tb4 = session_rows tb3" "operation_rows tb4 = operation_rows tb3"
      "binding_rows tb4 = binding_rows tb3" "tables_keyed tb4"
      "\<And>k. row_at lease_key k (lease_rows tb4) = (case row_at lease_key k (lease_rows tb3) of
         Some r \<Rightarrow> Some r
       | None \<Rightarrow> if k = (session_tenant_id s, session_id s)
           then Some (fresh_lease_row (session_tenant_id s) (session_id s)) else None)"
  shows "session_stored restore s xs tb tb4"
proof -
  have s4: "session_rows tb4 = session_rows tb1"
    using lease binding ops by (simp add: binding_written_def operations_written_def)
  have o4: "operation_rows tb4 = operation_rows tb2"
    using lease binding by (simp add: binding_written_def)
  have ops4: "session_ops t' sid' tb4 = session_ops t' sid' tb2" for t' sid'
    by (simp add: session_ops_def o4)
  have ops1: "session_ops t' sid' tb1 = session_ops t' sid' tb" for t' sid'
    by (simp add: session_ops_def same)
  have owner4: "operation_owner tb4 k = operation_owner tb2 k" for k
    by (simp add: operation_owner_def o4)
  have owner1: "operation_owner tb1 k = operation_owner tb k" for k
    by (simp add: operation_owner_def same)
  have b2: "binding_rows tb2 = binding_rows tb" using ops same by (simp add: operations_written_def)
  have l3: "lease_rows tb3 = lease_rows tb" using ops binding same by (simp add: operations_written_def binding_written_def)
  have bound: "rel_option (binding_related restore (session_tenant_id s) (session_id s))
      (row_at bound_session_key (session_tenant_id s, session_id s) (binding_rows tb4)) (session_runtime_binding s)"
    using binding unfolding binding_written_def lease(3)
    by (cases "session_runtime_binding s") auto
  show ?thesis
    unfolding session_stored_def Let_def
  proof (intro conjI allI ballI impI)
    show "tables_keyed tb4" by (rule lease)
    show "row_at session_key k (session_rows tb4) = (if k = (session_tenant_id s, session_id s)
        then Some (session_row_for s) else row_at session_key k (session_rows tb))" for k
      unfolding s4 by (rule session)
    show "session_ops (session_tenant_id s) (session_id s) tb4
        = set (ledger_rows (session_tenant_id s) (session_id s) (session_operations s))"
      unfolding ops4 by (rule ops)
    show "session_ops t' sid' tb4 = session_ops t' sid' tb"
      if "(t', sid') \<noteq> (session_tenant_id s, session_id s)" for t' sid'
      using ops(1) that unfolding ops4 operations_written_def by (simp add: ops1)
    show "operation_owner tb4 k = (if fst k = session_tenant_id s \<and> snd k \<in> operation_id_of ` xs
        then Some (session_id s) else operation_owner tb k)" for k
      using ops(1) unfolding owner4 operations_written_def owner1 [symmetric] by blast
    show "operation_owner tb (session_tenant_id s, operation_id_of x) \<in> {None, Some (session_id s)}"
      if "x \<in> xs" for x
      using ops(1) that unfolding operations_written_def owner1 by blast
    show "row_at bound_session_key k (binding_rows tb4) = row_at bound_session_key k (binding_rows tb)"
      if "k \<noteq> (session_tenant_id s, session_id s)" for k
      using binding that unfolding lease(3) binding_written_def b2 by blast
    show "rel_option (binding_related restore (session_tenant_id s) (session_id s))
        (row_at bound_session_key (session_tenant_id s, session_id s) (binding_rows tb4)) (session_runtime_binding s)"
      by (rule bound)
    show "row_at lease_key k (lease_rows tb4) = (case row_at lease_key k (lease_rows tb) of
        Some r \<Rightarrow> Some r
      | None \<Rightarrow> if k = (session_tenant_id s, session_id s)
          then Some (fresh_lease_row (session_tenant_id s) (session_id s)) else None)" for k
      unfolding lease(5) l3 by (rule refl)
  qed
qed

text \<open>The tail of both transactions: the operations, the binding, the lease row.\<close>

lemma store_tail_effect:
  assumes run: "run_state (try_bind (insert_sandbox_operations (session_tenant_id s) (session_id s) allow i xs) (\<lambda>_.
      try_bind (sync_sandbox_runtime_binding snap) (\<lambda>_.
        statement (ensure_lease_row (session_tenant_id s) (session_id s))))) v1 = (Inr (), v')"
    and cap: "session_captured restore s snap"
    and keyed: "tables_keyed (server_tables v1)"
    and session: "\<And>k. row_at session_key k (session_rows (server_tables v1)) =
      (if k = (session_tenant_id s, session_id s) then Some (session_row_for s) else row_at session_key k (session_rows tb))"
    and same: "operation_rows (server_tables v1) = operation_rows tb" "binding_rows (server_tables v1) = binding_rows tb"
      "lease_rows (server_tables v1) = lease_rows tb"
    and cur: "session_ops (session_tenant_id s) (session_id s) tb
      = set (ledger_rows (session_tenant_id s) (session_id s) cur)"
    and pos: "i \<le> length cur" "take i cur @ xs @ drop (i + length xs) cur = session_operations s"
  shows "session_stored restore s (set xs) tb (server_tables v')"
proof -
  obtain v2 where v2: "run_state (insert_sandbox_operations (session_tenant_id s) (session_id s) allow i xs) v1 = (Inr (), v2)"
    and "run_state (try_bind (sync_sandbox_runtime_binding snap) (\<lambda>_.
        statement (ensure_lease_row (session_tenant_id s) (session_id s)))) v2 = (Inr (), v')"
    using run by (rule try_bind_okE) simp
  then obtain v3 where v3: "run_state (sync_sandbox_runtime_binding snap) v2 = (Inr (), v3)"
    and v4: "run_state (statement (ensure_lease_row (session_tenant_id s) (session_id s))) v3 = (Inr (), v')"
    by (auto elim: try_bind_okE)
  have cur1: "session_ops (session_tenant_id s) (session_id s) (server_tables v1)
      = set (ledger_rows (session_tenant_id s) (session_id s) cur)"
    using cur by (simp add: session_ops_def same)
  note w = insert_operations_effect [OF v2 keyed cur1 pos(1)]
  note b = sync_binding_effect [OF v3 cap conjunct1 [OF w]]
  have "ensure_lease_row (session_tenant_id s) (session_id s) (server_clock v3) (server_tables v3)
      = Inr ((), server_tables v')"
    using v4 by (auto elim: statement_okE)
  note l = ensure_lease_effect [OF this conjunct1 [OF b], folded fresh_lease_row_def]
  show ?thesis
    by (rule session_storedI [where ?tb1.0 = "server_tables v1" and ?tb2.0 = "server_tables v2" and ?tb3.0 = "server_tables v3"])
      (use w b l session same pos(2) in \<open>blast | simp\<close>)+
qed

text \<open>A session written is related to a store that has it.\<close>

lemma session_stored_related:
  assumes rel: "store_related restore tb r" and st: "session_stored restore s xs tb tb'"
    and typed: "session_typed s"
    and xs: "xs \<subseteq> set (session_operations s)"
      "\<And>x. x \<in> set (session_operations s) \<Longrightarrow> x \<notin> xs \<Longrightarrow>
         operation_owner tb (session_tenant_id s, operation_id_of x) = Some (session_id s)"
    and r': "\<And>t sid. lookup_session t sid r'
        = (if t = session_tenant_id s \<and> sid = session_id s then Some s else lookup_session t sid r)"
      "\<And>k. repository_operations r' k
        = (if fst k = session_tenant_id s \<and> snd k \<in> operation_id_of ` set (session_operations s)
           then Some (session_id s) else repository_operations r k)"
      "\<And>k. repository_leases r' k = (case repository_leases r k of
         Some m \<Rightarrow> Some m
       | None \<Rightarrow> if k = (session_tenant_id s, session_id s) then Some fresh_lease else None)"
  shows "store_related restore tb' r'"
  unfolding store_related_def
proof (intro conjI allI)
  show "tables_keyed tb'" by (rule session_storedD [OF st])
  show "session_related restore tb' t sid (lookup_session t sid r')" for t sid
  proof (cases "t = session_tenant_id s \<and> sid = session_id s")
    case True
    then show ?thesis
      using session_storedD(2,3,8) [OF st] typed r'(1) by (simp add: session_related_def)
  next
    case False
    then have ne: "(t, sid) \<noteq> (session_tenant_id s, session_id s)" by simp
    have "row_at session_key (t, sid) (session_rows tb') = row_at session_key (t, sid) (session_rows tb)"
      unfolding session_storedD(2) [OF st] using ne by (rule if_not_P)
    moreover have "lookup_session t sid r' = lookup_session t sid r" using r'(1) False by (simp only: if_False)
    ultimately show ?thesis
      using store_relatedD(2) [OF rel, of t sid] session_storedD(4,7) [OF st ne]
      by (simp add: session_related_def)
  qed
  show "repository_operations r' k = operation_owner tb' k" for k
  proof (cases "fst k = session_tenant_id s \<and> snd k \<in> operation_id_of ` set (session_operations s)
      \<and> snd k \<notin> operation_id_of ` xs")
    case True
    then obtain x where x: "x \<in> set (session_operations s)" "x \<notin> xs"
      "k = (session_tenant_id s, operation_id_of x)" by (cases k) auto
    then show ?thesis
      using True xs(2) [OF x(1,2)] unfolding session_storedD(5) [OF st] r'(2) by auto
  next
    case False
    then show ?thesis
      using xs(1) unfolding session_storedD(5) [OF st] r'(2) store_relatedD(3) [OF rel] by auto
  qed
  show "rel_option lease_related (row_at lease_key k (lease_rows tb')) (repository_leases r' k)" for k
  proof -
    have fresh: "lease_related (fresh_lease_row (session_tenant_id s) (session_id s)) fresh_lease"
      by (simp add: lease_related_def fresh_lease_row_def fresh_lease_def)
    from store_relatedD(4) [OF rel, of k] show ?thesis
      unfolding session_storedD(9) [OF st] r'(3)
      by (cases rule: option.rel_cases) (simp_all add: fresh del: prod.collapse)
  qed
qed

section \<open>Inserting\<close>

lemma insert_session_effect:
  assumes "insert_session_row x now tb = Inr (u, tb')" "tables_keyed tb"
  shows "row_at session_key (session_key x) (session_rows tb) = None
    \<and> tables_keyed tb' \<and> operation_rows tb' = operation_rows tb \<and> binding_rows tb' = binding_rows tb
    \<and> lease_rows tb' = lease_rows tb
    \<and> (\<forall>k. row_at session_key k (session_rows tb')
         = (if k = session_key x then Some x else row_at session_key k (session_rows tb)))"
proof -
  have none: "row_at session_key (session_key x) (session_rows tb) = None"
    and tb': "tb' = tb\<lparr> session_rows := session_rows tb @ [x] \<rparr>"
    using assms(1) by (auto simp: insert_session_row_def split: if_splits)
  have s: "session_rows tb' = session_rows tb @ [x]" by (simp add: tb')
  have "row_at session_key k (session_rows tb')
      = (if k = session_key x then Some x else row_at session_key k (session_rows tb))" for k
  proof (cases "k = session_key x")
    case True
    then show ?thesis unfolding s row_at_append True none by simp
  next
    case False
    then show ?thesis unfolding s row_at_append
      by (cases "row_at session_key k (session_rows tb)") auto
  qed
  moreover have "distinct (map session_key (session_rows tb'))"
    unfolding s by (rule distinct_keys_append [OF _ none]) (use assms(2) in \<open>simp add: tables_keyed_def\<close>)
  ultimately show ?thesis
    using none assms(2) by (simp add: tables_keyed_def) (simp add: tb')
qed

lemma session_row_for_key [simp]: "session_key (session_row_for s) = (session_tenant_id s, session_id s)"
  by (simp add: session_row_for_def)

lemma insert_body_simulated:
  assumes run: "run_state (insert_body snap) v = (Inr (), v')" and cap: "session_captured restore s snap"
    and valid: "session_valid s" "session_typed s"
    and rel: "store_related restore (server_tables v) r" and ok: "repository_ok r"
  shows "fst (memory_insert_sandbox_session s r) = Inr ()
    \<and> store_related restore (server_tables v') (snd (memory_insert_sandbox_session s r))"
proof -
  let ?t = "session_tenant_id s" and ?sid = "session_id s" and ?tb = "server_tables v"
  obtain v0 where v0: "server_tables v0 = ?tb"
    and "run_state (try_bind (ret (session_row_of snap)) (\<lambda>x. try_bind (statement (insert_session_row x)) (\<lambda>_.
      try_bind (insert_sandbox_operations (snapshot_tenant_id snap) (snapshot_session_id snap) False 0
        (snapshot_operations snap)) (\<lambda>_. try_bind (sync_sandbox_runtime_binding snap) (\<lambda>_.
        statement (ensure_lease_row (snapshot_tenant_id snap) (snapshot_session_id snap))))))) v0 = (Inr (), v')"
    using run unfolding insert_body_def by (rule timeouts_okE) simp
  then obtain v1 where i: "insert_session_row (session_row_for s) (server_clock v0) ?tb = Inr ((), server_tables v1)"
    and tail: "run_state (try_bind (insert_sandbox_operations ?t ?sid False 0 (session_operations s)) (\<lambda>_.
      try_bind (sync_sandbox_runtime_binding snap) (\<lambda>_. statement (ensure_lease_row ?t ?sid)))) v1 = (Inr (), v')"
    using cap unfolding session_captured_def v0 [symmetric]
    by (elim try_bind_ret_okE try_bind_statement_okE) auto
  note rel' = store_relatedD [OF rel]
  have keyed: "tables_keyed ?tb" by (rule rel')
  note e = insert_session_effect [OF i keyed, unfolded session_row_for_key]
  have none: "lookup_session ?t ?sid r = None"
    using conjunct1 [OF e] rel'(2) [of ?t ?sid] by (simp add: session_related_def)
  then have empty: "session_ops ?t ?sid ?tb = set (ledger_rows ?t ?sid [])"
    using rel'(2) [of ?t ?sid] by (simp add: session_related_def ledger_rows_def)
  have st: "session_stored restore s (set (session_operations s)) ?tb (server_tables v')"
    by (rule store_tail_effect [OF tail cap _ _ _ _ _ empty]) (use e in \<open>blast | simp\<close>)+
  have free: "repository_operations r (?t, operation_id_of x) = None" if "x \<in> set (session_operations s)" for x
  proof -
    have "operation_owner ?tb (?t, operation_id_of x) \<noteq> Some ?sid"
      using repository_okD(4) [OF ok, of ?t "operation_id_of x" ?sid] none rel'(3) by auto
    then show ?thesis using session_storedD(6) [OF st that] rel'(3) by simp
  qed
  have admissible: "insert_admissible s r"
    using valid none free by (simp add: insert_admissible_def)
  have lease: "repository_leases r (?t, ?sid) = None"
    using repository_okD(5) [OF ok, of ?t ?sid] none by simp
  have "store_related restore (server_tables v') ((store_session s r)\<lparr> repository_leases :=
      (repository_leases r)((?t, ?sid) \<mapsto> fresh_lease) \<rparr>)"
    by (rule session_stored_related [OF rel st valid(2)])
      (use lease in \<open>auto simp: store_simps split: option.splits\<close>)
  then show ?thesis
    using admissible insert_result [of s r] by (simp add: insert_ok_iff)
qed

section \<open>Saving\<close>

lemma update_session_effect:
  assumes up: "update_session_row (session_row_for s) ev now tb = Inr (n, tb')" "n = 1" and keyed: "tables_keyed tb"
    and at: "row_at session_key (session_tenant_id s, session_id s) (session_rows tb) = Some x"
  shows "row_version x = ev
    \<and> tables_keyed tb' \<and> operation_rows tb' = operation_rows tb \<and> binding_rows tb' = binding_rows tb
    \<and> lease_rows tb' = lease_rows tb
    \<and> (\<forall>k. row_at session_key k (session_rows tb') = (if k = (session_tenant_id s, session_id s)
         then Some (session_row_for s) else row_at session_key k (session_rows tb)))"
proof -
  let ?r = "session_row_for s" and ?key = "(session_tenant_id s, session_id s)"
  let ?hit = "\<lambda>x. session_key x = session_key ?r \<and> row_version x = ev"
  have n: "length (filter ?hit (session_rows tb)) = 1"
    and tb': "tb' = tb\<lparr> session_rows := update_rows ?hit (\<lambda>_. ?r) (session_rows tb) \<rparr>"
    using up unfolding update_session_row_def Let_def
    by (simp_all only: sum.inject prod.inject sum.distinct split: if_split_asm)
  have "length (filter ?hit (session_rows tb))
      = (case row_at session_key ?key (session_rows tb) of None \<Rightarrow> 0 | Some y \<Rightarrow> if ?hit y then 1 else 0)"
    by (rule filter_key_length) (use keyed in \<open>simp_all add: tables_keyed_def\<close>)
  then have hit: "?hit x" unfolding n at by (simp only: option.case split: if_split_asm)
  have u: "session_rows tb' = update_rows ?hit (\<lambda>_. ?r) (session_rows tb)" by (simp add: tb')
  have row: "row_at session_key k (session_rows tb')
      = map_option (\<lambda>y. if ?hit y then ?r else y) (row_at session_key k (session_rows tb))" for k
    unfolding u by (rule row_at_update) simp
  have "row_at session_key k (session_rows tb')
      = (if k = ?key then Some ?r else row_at session_key k (session_rows tb))" for k
  proof (cases "k = ?key")
    case True
    then show ?thesis unfolding row True at using hit by simp
  next
    case False
    then show ?thesis unfolding row
      by (cases "row_at session_key k (session_rows tb)") (auto dest: row_at_SomeD)
  qed
  moreover have keys: "map session_key (session_rows tb') = map session_key (session_rows tb)"
    unfolding u by (rule keys_update) simp
  moreover have "operation_rows tb' = operation_rows tb" "binding_rows tb' = binding_rows tb"
    "lease_rows tb' = lease_rows tb"
    by (simp_all add: tb')
  moreover have "tables_keyed tb'"
    using keyed unfolding tables_keyed_def keys calculation(3-5) .
  ultimately show ?thesis using hit by blast
qed

lemma u64_eq_int: "uint (x::u64) = uint y \<longleftrightarrow> x = y"
  by (simp add: word_uint_eq_iff)

lemma lease_row_held_related:
  assumes "lease_related x m"
  shows "lease_row_held l now x = memory_lease_held m l (now * 1000)"
  using assms by (auto simp: lease_row_held_def memory_lease_held_def lease_related_def u64_eq_int
      split: option.splits)

lemma window_position:
  assumes "session_persisted_count s = length cur" "session_persisted_last_outcome s = last_outcome cur"
    and ext: "session_ledger_extends cur (session_operations s)"
  defines "w \<equiv> sandbox_operations_to_persist s"
  defines "i \<equiv> length (session_operations s) - length w"
  shows "i \<le> length cur" "take i cur @ w @ drop (i + length w) cur = session_operations s"
proof -
  have re: "take i cur @ w = session_operations s"
    using window_rebuilds [OF assms(1,2) ext] by (simp add: apply_window_def i_def w_def)
  have len: "length cur \<le> length (session_operations s)"
    using ext by (auto simp: session_ledger_extends_def)
  have w: "length w \<le> length (session_operations s)"
    by (simp add: w_def sandbox_operations_to_persist_def Let_def)
  have "length (take i cur @ w) = length (session_operations s)" using re by (rule arg_cong)
  then show "i \<le> length cur" using w by (simp add: i_def)
  show "take i cur @ w @ drop (i + length w) cur = session_operations s"
    using re len w by (simp add: i_def)
qed

definition window_from :: "sandbox_session \<Rightarrow> u64 \<Rightarrow> sandbox_repository_state \<Rightarrow> bool" where
  "window_from s expected r \<longleftrightarrow>
     (\<forall>c. lookup_session (session_tenant_id s) (session_id s) r = Some c \<longrightarrow> session_version c = expected \<longrightarrow>
        session_persisted_count s = length (session_operations c)
        \<and> session_persisted_last_outcome s = last_outcome (session_operations c)
        \<and> session_ledger_extends (session_operations c) (session_operations s))"

lemma save_body_runs:
  assumes run: "run_state (save_body snap expected l) v = (Inr (), v')" and cap: "session_captured restore s snap"
  obtains v1 where
    "session_tenant_id s = lease_tenant_id l" "session_id s = lease_session_id l"
    "lock_lease l (server_clock v) (server_tables v) = Inr (True, server_tables v)"
    "update_session_row (session_row_for s) (int (unat expected)) (server_clock v) (server_tables v)
       = Inr (1, server_tables v1)"
    "run_state (try_bind (insert_sandbox_operations (session_tenant_id s) (session_id s) True
        (length (session_operations s) - length (sandbox_operations_to_persist s)) (sandbox_operations_to_persist s))
        (\<lambda>_. try_bind (sync_sandbox_runtime_binding snap) (\<lambda>_.
          statement (ensure_lease_row (session_tenant_id s) (session_id s))))) v1 = (Inr (), v')"
proof -
  let ?tail = "\<lambda>n. if n \<noteq> (1::nat) then
            try_bind (statement (session_exists (snapshot_tenant_id snap) (snapshot_session_id snap)))
              (\<lambda>found. ret (Inl (if found then VersionConflict else NotFound)))
          else
            (let window = snapshot_operations_to_persist snap;
                 first = length (snapshot_operations snap) - length window
             in try_bind (insert_sandbox_operations (snapshot_tenant_id snap) (snapshot_session_id snap) True
                  first window) (\<lambda>_.
                try_bind (sync_sandbox_runtime_binding snap) (\<lambda>_.
                  statement (ensure_lease_row (snapshot_tenant_id snap) (snapshot_session_id snap)))))"
  have keys: "session_tenant_id s = lease_tenant_id l" "session_id s = lease_session_id l"
    using run cap by (auto simp: save_body_def session_captured_def split: if_splits)
  with run cap have "run_state (try_bind enforce_sandbox_transaction_timeouts (\<lambda>_.
      try_bind (lock_valid_sandbox_session_lease l) (\<lambda>_. try_bind (ret (session_row_of snap)) (\<lambda>x.
      try_bind (ret (i64_from_u64 expected InvalidStoredData)) (\<lambda>e.
      try_bind (statement (update_session_row x e)) ?tail))))) v = (Inr (), v')"
    by (simp add: save_body_def session_captured_def)
  then obtain v0 where v0: "server_tables v0 = server_tables v" "server_clock v0 = server_clock v"
    and "run_state (try_bind (lock_valid_sandbox_session_lease l) (\<lambda>_. try_bind (ret (session_row_of snap)) (\<lambda>x.
      try_bind (ret (i64_from_u64 expected InvalidStoredData)) (\<lambda>e.
      try_bind (statement (update_session_row x e)) ?tail)))) v0 = (Inr (), v')"
    by (rule timeouts_okE)
  then obtain w where lock: "run_state (lock_valid_sandbox_session_lease l) v0 = (Inr (), w)"
    and rest: "run_state (try_bind (ret (session_row_of snap)) (\<lambda>x.
      try_bind (ret (i64_from_u64 expected InvalidStoredData)) (\<lambda>e.
      try_bind (statement (update_session_row x e)) ?tail))) w = (Inr (), v')"
    by (auto elim: try_bind_okE)
  from lock obtain held w0 where held: "lock_lease l (server_clock v0) (server_tables v0) = Inr (held, server_tables w0)"
      "server_clock w0 = server_clock v0"
    and w0: "run_state (ret (if held then Inr () else Inl LeaseConflict)) w0 = (Inr (), w)"
    unfolding lock_valid_sandbox_session_lease_def by (elim try_bind_ret_okE try_bind_statement_okE)
  from w0 have "held" "w = w0" by (auto split: if_splits)
  with held have w: "server_tables w = server_tables v" "server_clock w = server_clock v"
    "lock_lease l (server_clock v) (server_tables v) = Inr (True, server_tables v)"
    using v0 by (auto simp: lock_lease_def)
  from rest obtain x e where x: "session_row_of snap = Inr x" "i64_from_u64 expected InvalidStoredData = Inr e"
    and "run_state (try_bind (statement (update_session_row x e)) ?tail) w = (Inr (), v')"
    by (elim try_bind_ret_okE)
  then obtain n v1 where n: "update_session_row x e (server_clock w) (server_tables w) = Inr (n, server_tables v1)"
    and tail: "run_state (?tail n) v1 = (Inr (), v')"
    by (elim try_bind_statement_okE)
  have "n = 1" using tail by (auto split: if_splits elim: try_bind_okE)
  moreover have "x = session_row_for s" "e = int (unat expected)"
    using x cap by (auto simp: session_captured_def i64_from_u64_def split: if_splits)
  ultimately show thesis
    using that [OF keys w(3), of v1] n tail cap w by (simp add: session_captured_def Let_def)
qed

lemma save_body_simulated:
  assumes run: "run_state (save_body snap expected l) v = (Inr (), v')" and cap: "session_captured restore s snap"
    and valid: "session_valid s" "session_typed s" and succ: "u64_checked_succ expected = Some (session_version s)"
    and window: "window_from s expected r"
    and rel: "store_related restore (server_tables v) r" and ok: "repository_ok r"
  shows "fst (memory_save_sandbox_session s expected l (server_clock v * 1000) r) = Inr ()
    \<and> store_related restore (server_tables v')
        (snd (memory_save_sandbox_session s expected l (server_clock v * 1000) r))"
proof -
  let ?t = "session_tenant_id s" and ?sid = "session_id s" and ?tb = "server_tables v"
  let ?w = "sandbox_operations_to_persist s"
  obtain v1 where lease: "?t = lease_tenant_id l" "?sid = lease_session_id l"
    and lock: "lock_lease l (server_clock v) ?tb = Inr (True, ?tb)"
    and up: "update_session_row (session_row_for s) (int (unat expected)) (server_clock v) ?tb = Inr (1, server_tables v1)"
    and tail: "run_state (try_bind (insert_sandbox_operations ?t ?sid True
        (length (session_operations s) - length ?w) ?w)
        (\<lambda>_. try_bind (sync_sandbox_runtime_binding snap) (\<lambda>_.
          statement (ensure_lease_row ?t ?sid)))) v1 = (Inr (), v')"
    by (rule save_body_runs [OF run cap])
  note rel' = store_relatedD [OF rel]
  have keyed: "tables_keyed ?tb" by (rule rel')
  from lock lease obtain x where x: "row_at lease_key (?t, ?sid) (lease_rows ?tb) = Some x" "lease_row_held l (server_clock v) x"
    by (auto simp: lock_lease_def split: option.splits)
  with rel'(4) [of "(?t, ?sid)"] obtain m where m: "repository_leases r (?t, ?sid) = Some m" "lease_related x m"
    by (auto simp: option_rel_Some1)
  then obtain c where c: "lookup_session ?t ?sid r = Some c"
    using repository_okD(5) [OF ok, of ?t ?sid] by auto
  then have row: "row_at session_key (?t, ?sid) (session_rows ?tb) = Some (session_row_for c)"
    and ops: "session_ops ?t ?sid ?tb = set (ledger_rows ?t ?sid (session_operations c))"
    using rel'(2) [of ?t ?sid] by (simp_all add: session_related_def)
  note e = update_session_effect [OF up refl keyed row]
  have version: "session_version c = expected"
    using conjunct1 [OF e] by (simp add: session_row_for_def u64_eq_int)
  then have win: "session_persisted_count s = length (session_operations c)"
      "session_persisted_last_outcome s = last_outcome (session_operations c)"
      "session_ledger_extends (session_operations c) (session_operations s)"
    using window c by (simp_all add: window_from_def)
  note pos = window_position [OF win]
  have st: "session_stored restore s (set ?w) ?tb (server_tables v')"
    by (rule store_tail_effect [OF tail cap _ _ _ _ _ ops pos]) (use e in \<open>blast | simp\<close>)+
  have stored: "operation_owner ?tb (?t, operation_id_of y) = Some ?sid" if "y \<in> set (session_operations c)" for y
    using repository_okD(3) [OF ok c] that rel'(3) by (simp add: session_filed_def)
  have old: "operation_owner ?tb (?t, operation_id_of y) = Some ?sid"
    if y: "y \<in> set (session_operations s)" "y \<notin> set ?w" for y
  proof -
    have "y \<in> set (session_operations c)"
      using y pos(2) by (metis UnE in_set_dropD in_set_takeD set_append)
    then show ?thesis by (rule stored)
  qed
  have owners: "repository_operations r (?t, operation_id_of y) \<in> {None, Some ?sid}"
    if y: "y \<in> set (session_operations s)" for y
    using session_storedD(6) [OF st] old [OF y] unfolding rel'(3) by blast
  have nv: "next_version_in_range expected = Some (session_version s)"
    using next_version_in_range_complete u64_checked_succ_Some [OF succ] valid_version [OF valid(1)] by blast
  have admissible: "save_admissible s expected l (server_clock v * 1000) r"
    using valid(1) c m version nv owners x(2) lease_row_held_related [OF m(2), of l "server_clock v"]
    by (simp add: save_admissible_def)
  have "store_related restore (server_tables v') (store_session s r)"
    by (rule session_stored_related [OF rel st valid(2) _ old])
      (use m in \<open>auto simp: store_simps sandbox_operations_to_persist_def Let_def dest: in_set_dropD split: option.splits\<close>)
  then show ?thesis
    using admissible save_result [of s expected l "server_clock v * 1000" r] by (simp add: save_ok_iff)
qed


section \<open>One lease row\<close>

lemma set_lease_related:
  assumes rel: "store_related restore tb r" and x: "row_at lease_key (t, sid) (lease_rows tb) = Some x"
    and key: "lease_key x' = (t, sid)" and m: "lease_related x' m"
  shows "store_related restore (set_lease x' tb) (put_lease t sid m r)"
proof -
  let ?tb = "set_lease x' tb"
  have same: "session_rows ?tb = session_rows tb" "operation_rows ?tb = operation_rows tb"
    "binding_rows ?tb = binding_rows tb"
    by (simp_all add: set_lease_def)
  have l: "lease_rows ?tb = update_rows (\<lambda>y. lease_key y = lease_key x') (\<lambda>_. x') (lease_rows tb)"
    by (simp add: set_lease_def)
  have keys: "map lease_key (lease_rows ?tb) = map lease_key (lease_rows tb)"
    unfolding l by (rule keys_update) simp
  have at: "row_at lease_key k (lease_rows ?tb) = (if k = (t, sid) then Some x' else row_at lease_key k (lease_rows tb))" for k
  proof -
    have u: "row_at lease_key k (lease_rows ?tb)
        = map_option (\<lambda>y. if lease_key y = lease_key x' then x' else y) (row_at lease_key k (lease_rows tb))"
      unfolding l by (rule row_at_update) simp
    show ?thesis
    proof (cases "k = (t, sid)")
      case True
      have "lease_key x = (t, sid)" using row_at_SomeD [OF x] by (rule conjunct2)
      then show ?thesis unfolding u unfolding True x key by (simp only: option.map if_True refl)
    next
      case False
      then show ?thesis unfolding u key
        by (cases "row_at lease_key k (lease_rows tb)") (auto dest: row_at_SomeD)
    qed
  qed
  show ?thesis
    unfolding store_related_def
  proof (intro conjI allI)
    show "tables_keyed ?tb"
      using store_relatedD(1) [OF rel] unfolding tables_keyed_def same keys .
    show "session_related restore ?tb t' sid' (lookup_session t' sid' (put_lease t sid m r))" for t' sid'
      using store_relatedD(2) [OF rel] by (simp add: session_related_def session_ops_def same store_simps)
    show "repository_operations (put_lease t sid m r) k = operation_owner ?tb k" for k
      using store_relatedD(3) [OF rel] by (simp add: operation_owner_def same store_simps)
    show "rel_option lease_related (row_at lease_key k (lease_rows ?tb)) (repository_leases (put_lease t sid m r) k)" for k
      using store_relatedD(4) [OF rel, of k] m unfolding at sessions_put_lease(4) by simp
  qed
qed

lemma lease_rowE:
  assumes "store_related restore tb r" "row_at lease_key k (lease_rows tb) = Some x"
  obtains m where "repository_leases r k = Some m" "lease_related x m"
  using store_relatedD(4) [OF assms(1), of k] assms(2) by (auto simp: option_rel_Some1)

definition duration_of :: "int \<Rightarrow> nat" where
  "duration_of millis = nat millis * 1000000"

lemma duration_of_millis:
  "1 \<le> millis \<Longrightarrow> millis \<le> 300000 \<Longrightarrow> sandbox_lease_duration_millis (duration_of millis) = Inr millis"
  by (auto simp: sandbox_lease_duration_millis_def duration_of_def Let_def)

lemma extend_from_zero:
  assumes "1 \<le> millis" "millis \<le> 300000"
  obtains u where "snd (extend_memory_lease t sid m (duration_of millis) millis now 0 r)
    = put_lease t sid (m\<lparr> memory_lease_expires_at := Some (now + duration_of millis), memory_lease_expires_unix := u \<rparr>) r"
  using extend_shape by blast

lemma held_token_next:
  assumes "lease_related x m" "held_token x < i64_max"
  obtains tok where "next_version_in_range (memory_lease_token m) = Some tok" "int (unat tok) = held_token x + 1"
proof -
  have t: "held_token x = int (unat (memory_lease_token m))" using assms(1) by (simp add: lease_related_def)
  then have "unat (memory_lease_token m) + 1 < 18446744073709551616"
    using assms(2) unfolding i64_max_def by linarith
  then have "unat (memory_lease_token m + 1) = Suc (unat (memory_lease_token m))"
    by (simp add: unat_word_ariths)
  then show thesis
    using that [of "memory_lease_token m + 1"] next_version_in_range_complete t assms(2) by simp
qed

lemma lease_free_related:
  assumes "lease_related x m" "memory_lease_ok m"
  shows "lease_free now x \<longleftrightarrow>
    \<not> (case memory_lease_expires_at m of None \<Rightarrow> False | Some e \<Rightarrow> e > now * 1000)"
  using assms by (auto simp: lease_free_def lease_related_def memory_lease_ok_def split: option.splits)

lemma take_lease_simulated:
  assumes take: "take_lease t sid owner millis now tb = Inr (res, tb')"
    and millis: "1 \<le> millis" "millis \<le> 300000"
    and rel: "store_related restore tb r" and ok: "repository_ok r"
  shows "\<exists>r'. repository_step\<^sup>*\<^sup>* r r' \<and> store_related restore tb' r'"
proof (cases res)
  case None
  then have "tb' = tb" using take by (auto simp: take_lease_def Let_def split: if_splits option.splits)
  then show ?thesis using rel by blast
next
  case (Some out)
  obtain s where s: "row_at session_key (t, sid) (session_rows tb) = Some s"
    using take Some by (cases "row_at session_key (t, sid) (session_rows tb)") (auto simp: take_lease_def Let_def)
  then obtain c where look: "lookup_session t sid r = Some c"
    using store_relatedD(2) [OF rel, of t sid] unfolding session_related_def by (cases "lookup_session t sid r") simp_all
  then obtain m where m: "repository_leases r (t, sid) = Some m"
    using repository_okD(5) [OF ok, of t sid] by auto
  then obtain x where x: "row_at lease_key (t, sid) (lease_rows tb) = Some x" "lease_related x m"
    using store_relatedD(4) [OF rel, of "(t, sid)"] by (auto simp: option_rel_Some2)
  have free: "lease_free now x" "held_token x < i64_max"
    and tb': "tb' = set_lease \<lparr> held_tenant = t, held_session = sid, held_owner = Some owner,
      held_expires = Some (now + nat millis * 1000), held_token = held_token x + 1 \<rparr> tb"
    using take Some s x(1) by (auto simp: take_lease_def Let_def split: if_splits)
  obtain tok where tok: "next_version_in_range (memory_lease_token m) = Some tok" "int (unat tok) = held_token x + 1"
    by (rule held_token_next [OF x(2) free(2)])
  let ?m = "m\<lparr> memory_lease_token := tok, memory_lease_owner := Some owner \<rparr>"
  obtain u where u: "snd (extend_memory_lease t sid ?m (duration_of millis) millis (now * 1000) 0 r)
      = put_lease t sid (?m\<lparr> memory_lease_expires_at := Some (now * 1000 + duration_of millis),
          memory_lease_expires_unix := u \<rparr>) r"
    by (rule extend_from_zero [OF millis])
  have "snd (memory_acquire_lease t sid owner (duration_of millis) (now * 1000) 0 r)
      = snd (extend_memory_lease t sid ?m (duration_of millis) millis (now * 1000) 0 r)"
    using look m tok(1) free(1) lease_free_related [OF x(2) repository_okD(6) [OF ok m]]
    by (simp add: memory_acquire_lease_def duration_of_millis [OF millis])
  then have "repository_step r (put_lease t sid (?m\<lparr> memory_lease_expires_at := Some (now * 1000 + duration_of millis),
      memory_lease_expires_unix := u \<rparr>) r)"
    using step_acquire [of r t sid owner "duration_of millis" "now * 1000" 0] u by simp
  moreover have "store_related restore tb' (put_lease t sid (?m\<lparr> memory_lease_expires_at := Some (now * 1000 + duration_of millis),
      memory_lease_expires_unix := u \<rparr>) r)"
    unfolding tb' by (rule set_lease_related [OF rel x(1)])
      (use tok(2) in \<open>simp_all add: lease_related_def duration_of_def\<close>)
  ultimately show ?thesis by blast
qed

lemma renew_lease_simulated:
  assumes renew: "renew_lease_row l millis now tb = Inr (res, tb')"
    and millis: "1 \<le> millis" "millis \<le> 300000"
    and rel: "store_related restore tb r"
  shows "\<exists>r'. repository_step\<^sup>*\<^sup>* r r' \<and> store_related restore tb' r'"
proof (cases res)
  case None
  then have "tb' = tb" using renew by (auto simp: renew_lease_row_def Let_def split: if_splits option.splits)
  then show ?thesis using rel by blast
next
  case (Some out)
  let ?t = "lease_tenant_id l" and ?sid = "lease_session_id l"
  obtain x where x: "row_at lease_key (?t, ?sid) (lease_rows tb) = Some x" "lease_row_held l now x"
    and tb': "tb' = set_lease (x\<lparr> held_expires := Some (now + nat millis * 1000) \<rparr>) tb"
    using renew Some by (auto simp: renew_lease_row_def Let_def split: if_splits option.splits)
  obtain m where m: "repository_leases r (?t, ?sid) = Some m" "lease_related x m"
    by (rule lease_rowE [OF rel x(1)])
  obtain u where u: "snd (extend_memory_lease ?t ?sid m (duration_of millis) millis (now * 1000) 0 r)
      = put_lease ?t ?sid (m\<lparr> memory_lease_expires_at := Some (now * 1000 + duration_of millis),
          memory_lease_expires_unix := u \<rparr>) r"
    by (rule extend_from_zero [OF millis])
  have "snd (memory_renew_lease l (duration_of millis) (now * 1000) 0 r)
      = snd (extend_memory_lease ?t ?sid m (duration_of millis) millis (now * 1000) 0 r)"
    using m x(2) lease_row_held_related [OF m(2)]
    by (simp add: memory_renew_lease_def duration_of_millis [OF millis])
  then have "repository_step r (put_lease ?t ?sid (m\<lparr> memory_lease_expires_at := Some (now * 1000 + duration_of millis),
      memory_lease_expires_unix := u \<rparr>) r)"
    using step_renew [of r l "duration_of millis" "now * 1000" 0] u by simp
  moreover have "store_related restore tb' (put_lease ?t ?sid (m\<lparr> memory_lease_expires_at := Some (now * 1000 + duration_of millis),
      memory_lease_expires_unix := u \<rparr>) r)"
    unfolding tb' by (rule set_lease_related [OF rel x(1)])
      (use m(2) row_at_SomeD [OF x(1)] in \<open>simp_all add: lease_related_def duration_of_def\<close>)
  ultimately show ?thesis by blast
qed

lemma release_lease_simulated:
  assumes release: "release_lease_row l now tb = Inr (res, tb')"
    and rel: "store_related restore tb r"
  shows "\<exists>r'. repository_step\<^sup>*\<^sup>* r r' \<and> store_related restore tb' r'"
proof (cases res)
  case False
  then have "tb' = tb" using release by (auto simp: release_lease_row_def split: if_splits option.splits)
  then show ?thesis using rel by blast
next
  case True
  let ?t = "lease_tenant_id l" and ?sid = "lease_session_id l"
  obtain x where x: "row_at lease_key (?t, ?sid) (lease_rows tb) = Some x"
      "held_owner x = Some (lease_owner_id l)" "held_token x = int (unat (lease_fencing_token l))"
    and tb': "tb' = set_lease (x\<lparr> held_owner := None, held_expires := None \<rparr>) tb"
    using release True by (auto simp: release_lease_row_def split: if_splits option.splits)
  obtain m where m: "repository_leases r (?t, ?sid) = Some m" "lease_related x m"
    by (rule lease_rowE [OF rel x(1)])
  then have "memory_lease_owner m = Some (lease_owner_id l)" "memory_lease_token m = lease_fencing_token l"
    using x(2,3) by (simp_all add: lease_related_def u64_eq_int)
  then have "snd (memory_release_lease l r) = put_lease ?t ?sid (m\<lparr> memory_lease_owner := None,
      memory_lease_expires_at := None, memory_lease_expires_unix := None \<rparr>) r"
    using m(1) by (simp add: memory_release_lease_def Let_def)
  then have "repository_step r (put_lease ?t ?sid (m\<lparr> memory_lease_owner := None,
      memory_lease_expires_at := None, memory_lease_expires_unix := None \<rparr>) r)"
    using step_release [of r l] by simp
  moreover have "store_related restore tb' (put_lease ?t ?sid (m\<lparr> memory_lease_owner := None,
      memory_lease_expires_at := None, memory_lease_expires_unix := None \<rparr>) r)"
    unfolding tb' by (rule set_lease_related [OF rel x(1)])
      (use m(2) row_at_SomeD [OF x(1)] in \<open>simp_all add: lease_related_def\<close>)
  ultimately show ?thesis by blast
qed

section \<open>A protected reference replaced\<close>

lemma holds_protected_inject:
  "holds_protected q x \<Longrightarrow> holds_protected q' x \<Longrightarrow> q = q'"
  by (cases q; cases q') (auto simp: holds_protected_def word_uint_eq_iff)

lemma replace_protected_simulated:
  assumes replace: "replace_protected t cand q' now tb = Inr (n, tb')"
    and q': "protected_ok q'"
      "restore (protection_context_for_repository t (candidate_session cand) (candidate_binding cand)) q'
        = restore (protection_context_for_repository t (candidate_session cand) (candidate_binding cand)) (candidate_protected cand)"
    and rel: "store_related restore tb r"
  shows "store_related restore tb' r"
proof -
  let ?hit = "\<lambda>x. binding_key x = (t, candidate_binding cand) \<and> bound_session x = candidate_session cand
    \<and> holds_protected (candidate_protected cand) x"
  have tb': "tb' = tb\<lparr> binding_rows := update_rows ?hit (put_protected q') (binding_rows tb) \<rparr>"
    using replace unfolding replace_protected_def Let_def by (simp split: if_split_asm)
  then have same: "session_rows tb' = session_rows tb" "operation_rows tb' = operation_rows tb"
    "lease_rows tb' = lease_rows tb"
    and b: "binding_rows tb' = update_rows ?hit (put_protected q') (binding_rows tb)"
    by simp_all
  have key: "bound_session_key (put_protected q' x) = bound_session_key x" for x by (simp add: put_protected_def)
  have keys: "map bound_session_key (binding_rows tb') = map bound_session_key (binding_rows tb)"
    unfolding b by (rule keys_update) (rule key)
  have at: "row_at bound_session_key k (binding_rows tb')
      = map_option (\<lambda>x. if ?hit x then put_protected q' x else x) (row_at bound_session_key k (binding_rows tb))" for k
    unfolding b by (rule row_at_update) (rule key)
  have one: "binding_related restore t' sid' (if ?hit x then put_protected q' x else x) bd"
    if x: "binding_related restore t' sid' x bd" "bound_session_key x = (t', sid')" for t' sid' x bd
  proof (cases "?hit x")
    case False
    then show ?thesis using x(1) by (simp only: if_False)
  next
    case True
    then obtain a q where a: "binding_allocation_ref bd = Some a" "holds_protected q x"
      "restore (protection_context_for_repository t' sid' (binding_runtime_id bd)) q = Some a"
      using x(1) by (auto simp: binding_related_def holds_protected_def split: option.splits)
    have "q = candidate_protected cand" using True a(2) holds_protected_inject by blast
    moreover have "t' = t" "sid' = candidate_session cand" "binding_runtime_id bd = candidate_binding cand"
      using True x by (auto simp: binding_related_def)
    ultimately have "restore (protection_context_for_repository t' sid' (binding_runtime_id bd)) q' = Some a"
      using a(3) q'(2) by simp
    moreover have "holds_protected q' (put_protected q' x)" by (simp add: holds_protected_def put_protected_def)
    ultimately have "binding_related restore t' sid' (put_protected q' x) bd"
      using x(1) a(1) q'(1) by (auto simp: binding_related_def) (auto simp: put_protected_def)
    then show ?thesis using True by (rule if_P [THEN ssubst, rotated])
  qed
  show ?thesis
    unfolding store_related_def
  proof (intro conjI allI)
    show "tables_keyed tb'"
      using store_relatedD(1) [OF rel] unfolding tables_keyed_def same keys .
    show "session_related restore tb' t' sid' (lookup_session t' sid' r)" for t' sid'
    proof -
      have old: "session_related restore tb t' sid' (lookup_session t' sid' r)" by (rule store_relatedD(2) [OF rel])
      then have "rel_option (binding_related restore t' sid') (row_at bound_session_key (t', sid') (binding_rows tb))
          (Option.bind (lookup_session t' sid' r) session_runtime_binding)"
        unfolding session_related_def by blast
      then have "rel_option (binding_related restore t' sid') (row_at bound_session_key (t', sid') (binding_rows tb'))
          (Option.bind (lookup_session t' sid' r) session_runtime_binding)"
      proof (cases rule: option.rel_cases)
        case None
        then show ?thesis unfolding at by simp
      next
        case (Some x bd)
        have "bound_session_key x = (t', sid')" using row_at_SomeD [OF Some(1)] by (rule conjunct2)
        from one [OF Some(3) this] show ?thesis unfolding at Some(1,2) option.map by (rule option.rel_intros)
      qed
      then show ?thesis using old unfolding session_related_def session_ops_def same by blast
    qed
    show "repository_operations r k = operation_owner tb' k" for k
      using store_relatedD(3) [OF rel] by (simp add: operation_owner_def same)
    show "rel_option lease_related (row_at lease_key k (lease_rows tb')) (repository_leases r k)" for k
      unfolding same by (rule store_relatedD(4) [OF rel])
  qed
qed

end
