(* ===== verification/Sql_Loading.thy ===== *)
theory Sql_Loading
  imports Sql_Simulation
begin

text \<open>
  What the SQL repository reads back: when the tables hold a store, the session a read returns is the
  stored one with its whole ledger marked as persisted. A read is a computation on the tables that a
  fault may cut short.
\<close>

section \<open>Reads\<close>

text \<open>A computation that reads the tables, changes nothing and, without a fault, answers with \<open>g\<close>.\<close>

definition answers :: "'a sql \<Rightarrow> (sql_tables \<Rightarrow> 'a repository_result) \<Rightarrow> bool" where
  "answers m g \<longleftrightarrow>
     (\<forall>v res v'. server_rivals v = [] \<longrightarrow> run_state m v = (res, v') \<longrightarrow>
        server_tables v' = server_tables v \<and> server_rivals v' = []
        \<and> (server_faults v = [] \<longrightarrow> res = g (server_tables v) \<and> server_faults v' = [])
        \<and> (\<forall>x. res = Inr x \<longrightarrow> g (server_tables v) = Inr x))"

lemma answersI:
  assumes "\<And>v res v'. server_rivals v = [] \<Longrightarrow> run_state m v = (res, v') \<Longrightarrow>
        server_tables v' = server_tables v \<and> server_rivals v' = []
        \<and> (server_faults v = [] \<longrightarrow> res = g (server_tables v) \<and> server_faults v' = [])
        \<and> (\<forall>x. res = Inr x \<longrightarrow> g (server_tables v) = Inr x)"
  shows "answers m g"
  using assms unfolding answers_def by blast

lemma answersD:
  assumes "answers m g" "server_rivals v = []" "run_state m v = (res, v')"
  shows "server_tables v' = server_tables v" "server_rivals v' = []"
    "server_faults v = [] \<Longrightarrow> res = g (server_tables v) \<and> server_faults v' = []"
    "res = Inr x \<Longrightarrow> g (server_tables v) = Inr x"
  using assms unfolding answers_def by blast+

lemma answers_ret: "answers (ret r) (\<lambda>_. r)"
  by (rule answersI) auto

lemma answers_statement:
  assumes "\<And>now tb. f now tb = Inr (h tb, tb)"
  shows "answers (statement f) (\<lambda>tb. Inr (h tb))"
  by (rule answersI)
    (auto simp: statement_def take_fault_def run_statement_def assms split: list.splits option.splits)

lemma answers_bind:
  assumes m: "answers m g" and k: "\<And>x. answers (k x) (g' x)"
  shows "answers (try_bind m k) (\<lambda>tb. and_then (g tb) (\<lambda>x. g' x tb))"
proof (rule answersI)
  fix v res v' assume v: "server_rivals v = []" and run: "run_state (try_bind m k) v = (res, v')"
  obtain r v1 where r: "run_state m v = (r, v1)" by fastforce
  note d = answersD [OF m v r]
  show "server_tables v' = server_tables v \<and> server_rivals v' = []
      \<and> (server_faults v = [] \<longrightarrow> res = and_then (g (server_tables v)) (\<lambda>x. g' x (server_tables v)) \<and> server_faults v' = [])
      \<and> (\<forall>x. res = Inr x \<longrightarrow> and_then (g (server_tables v)) (\<lambda>x. g' x (server_tables v)) = Inr x)"
  proof (cases r)
    case (Inl e)
    then have "res = Inl e" "v' = v1" using run r by (simp_all add: try_bind_run)
    moreover have "g (server_tables v) = Inl e" if "server_faults v = []" using d(3) that Inl by simp
    moreover have "g (server_tables v) \<noteq> Inr x \<or> r \<noteq> Inl e" if "server_faults v = []" for x
      using d(3) that by auto
    ultimately show ?thesis using d(1,2) d(3) by simp
  next
    case (Inr x)
    then have run': "run_state (k x) v1 = (res, v')" using run r by (simp add: try_bind_run)
    note d' = answersD [OF k d(2) run']
    have "and_then (g (server_tables v)) (\<lambda>x. g' x (server_tables v)) = g' x (server_tables v1)"
      unfolding d(4) [OF Inr] sum.case d(1) by (rule refl)
    moreover have "server_faults v = [] \<longrightarrow> server_faults v1 = []" using d(3) by blast
    ultimately show ?thesis using d'(1,2,3,4) d(1) by (simp only:) blast
  qed
qed

lemma others_act_quiet [simp]: "server_rivals v = [] \<Longrightarrow> others_act v = v"
  by (simp add: others_act_def)

lemma answers_transaction:
  assumes "answers body g"
  shows "answers (transaction body) g"
proof (rule answersI)
  fix v res v' assume v: "server_rivals v = []" and run: "run_state (transaction body) v = (res, v')"
  have b: "answers (try_bind (statement nothing) (\<lambda>_. body)) (\<lambda>tb. and_then (Inr ()) (\<lambda>_. g tb))"
    by (rule answers_bind [OF answers_statement assms]) (simp add: nothing_def)
  obtain r v1 where r: "run_state (try_bind (statement nothing) (\<lambda>_. body)) v = (r, v1)" by fastforce
  note d = answersD [OF b v r]
  show "server_tables v' = server_tables v \<and> server_rivals v' = []
      \<and> (server_faults v = [] \<longrightarrow> res = g (server_tables v) \<and> server_faults v' = [])
      \<and> (\<forall>x. res = Inr x \<longrightarrow> g (server_tables v) = Inr x)"
  proof (cases r)
    case (Inl e)
    then have "res = Inl e" "v' = v1\<lparr> server_tables := server_tables v \<rparr>"
      using run r v by (simp_all add: transaction_def Let_def)
    then show ?thesis using d(2,3) Inl by simp
  next
    case (Inr x)
    then have "run_state (commit (server_tables v) x) v1 = (res, v')"
      using run r v by (simp add: transaction_def Let_def)
    then have c: "(res, v') = (case take_fault v1 of
        (Some (e, done), v2) \<Rightarrow> (Inl (map_sandbox_sqlx_error e),
          if done \<and> e = ConnectionFailure then v2 else v2\<lparr> server_tables := server_tables v \<rparr>)
      | (None, v2) \<Rightarrow> (Inr x, v2))"
      by (simp add: commit_def)
    have g: "g (server_tables v) = Inr x" using d(4) [OF Inr] by simp
    have t: "server_tables v1 = server_tables v" by (rule d(1))
    have f: "server_faults v1 = []" if "server_faults v = []" using d(3) that by simp
    show ?thesis
    proof (cases "server_faults v1")
      case Nil
      then have "res = Inr x" "v' = v1" using c by (simp_all add: take_fault_def)
      then show ?thesis using g t f d(2) by simp
    next
      case (Cons a as)
      then have "server_faults v \<noteq> []" using f by auto
      then show ?thesis using c Cons g t d(2)
        by (cases a) (auto simp: take_fault_def split: if_splits)
    qed
  qed
qed

lemma answers_single:
  assumes "\<And>now tb. f now tb = Inr (h tb, tb)"
  shows "answers (single_statement f) (\<lambda>tb. Inr (h tb))"
  by (rule answersI)
    (auto simp: single_statement_def take_fault_def run_statement_def assms split: list.splits option.splits if_splits)

section \<open>Columns\<close>

lemma u64_round_trip [simp]: "u64_from_i64 (uint v) = Inr v"
  by (simp add: u64_from_i64_def)

lemma u16_round_trip [simp]: "u16_from_i16 (uint v) = Inr v"
  by (simp add: u16_from_i16_def)

lemma stored_id_okD: "stored_id_ok v \<Longrightarrow> stored_id v = Inr v"
  by (simp add: stored_id_ok_def)

lemma parse_written_operation:
  "stored_id_ok (operation_id_of x) \<Longrightarrow> parse_operation_row (operation_row_of t sid i x) = Inr (int i, x)"
  by (simp add: parse_operation_row_def operation_row_of_def stored_id_okD kind_column.parse_name
      sandbox_session_operation_restore_def)

lemma parse_held_columns:
  "holds_protected q r \<Longrightarrow> protected_ok q \<Longrightarrow>
     parse_protected_columns (bound_ciphertext r) (bound_key_id r) (bound_key_version r) (bound_crypto_version r)
       = Inr (Some q)"
  by (simp add: parse_protected_columns_def holds_protected_def protected_ok_def)

lemma map_results_Inr:
  "(\<And>x. x \<in> set xs \<Longrightarrow> f x = Inr (h x)) \<Longrightarrow> map_results f xs = Inr (map h xs)"
  by (induction xs) (simp_all add: map_results_def)

section \<open>The ledger\<close>

lemma sorted_ledger_unique:
  assumes "distinct xs" "set xs = set (ledger_rows t sid ops)"
  shows "sort_key op_sequence xs = ledger_rows t sid ops"
proof -
  have d: "distinct (map op_sequence (ledger_rows t sid ops))"
    unfolding ledger_rows_sequences by (simp add: distinct_map)
  then have inj: "inj_on op_sequence (set (ledger_rows t sid ops))" by (simp add: distinct_map)
  show ?thesis
  proof (rule map_sorted_distinct_set_unique [where f = op_sequence])
    show "inj_on op_sequence (set (sort_key op_sequence xs) \<union> set (ledger_rows t sid ops))"
      using inj assms(2) by simp
    show "distinct (map op_sequence (sort_key op_sequence xs))"
      using inj assms by (simp add: distinct_map)
    show "sorted (map op_sequence (ledger_rows t sid ops))"
      unfolding ledger_rows_sequences by (simp add: sorted_iff_nth_mono)
  qed (use d assms(2) in simp_all)
qed

lemma stored_window:
  assumes "tables_keyed tb" "session_ops t sid tb = set (ledger_rows t sid ops)"
    and "length ops \<le> max_sandbox_session_persisted_operations"
  shows "operation_window t sid tb = ledger_rows t sid ops"
proof -
  have "distinct (filter (\<lambda>r. op_tenant r = t \<and> op_session r = sid) (operation_rows tb))"
    using assms(1) by (simp add: tables_keyed_def distinct_map)
  moreover have "set (filter (\<lambda>r. op_tenant r = t \<and> op_session r = sid) (operation_rows tb))
      = set (ledger_rows t sid ops)"
    using assms(2) by (simp add: session_ops_def)
  ultimately show ?thesis
    using assms(3) by (simp add: operation_window_def sorted_ledger_unique)
qed

lemma parse_ledger:
  assumes "\<And>x. x \<in> set ops \<Longrightarrow> stored_id_ok (operation_id_of x)"
  shows "map_results parse_operation_row (ledger_rows t sid ops)
    = Inr (map (\<lambda>i. (int i, ops ! i)) [0..<length ops])"
proof -
  have "map_results (\<lambda>i. parse_operation_row (operation_row_of t sid i (ops ! i))) [0..<length ops]
      = Inr (map (\<lambda>i. (int i, ops ! i)) [0..<length ops])"
    by (rule map_results_Inr) (simp add: parse_written_operation assms)
  then show ?thesis by (simp add: ledger_rows_def map_results_def foldr_map comp_def)
qed

lemma ledger_read:
  "ledger_of_rows (Some (map (\<lambda>i. (int i, ops ! i)) [0..<length ops])) = Inr ops"
  by (auto simp: ledger_of_rows_def list_all_iff comp_def in_set_zip map_nth)

lemma operations_read:
  assumes "tables_keyed tb" "session_ops t sid tb = set (ledger_rows t sid ops)" "ops \<noteq> []"
    and "length ops \<le> max_sandbox_session_persisted_operations"
    and "\<And>x. x \<in> set ops \<Longrightarrow> stored_id_ok (operation_id_of x)"
  shows "\<exists>f. operations_by_id [(sid, operation_window t sid tb)] = Inr f
    \<and> f sid = Some (map (\<lambda>i. (int i, ops ! i)) [0..<length ops])"
  using assms(3,4) parse_ledger [OF assms(5)]
  by (simp add: operations_by_id_def stored_window [OF assms(1,2,4)] map_results_def)

lemma no_operations_read:
  assumes "session_ops t sid tb = {}"
  shows "\<exists>f. operations_by_id [(sid, operation_window t sid tb)] = Inr f"
proof -
  have "filter (\<lambda>r. op_tenant r = t \<and> op_session r = sid) (operation_rows tb) = []"
    using assms by (auto simp: session_ops_def filter_empty_conv)
  then have "operation_window t sid tb = []" by (simp add: operation_window_def)
  then show ?thesis by (simp add: operations_by_id_def map_results_def)
qed

section \<open>The binding\<close>

definition binding_snapshot_of ::
  "sandbox_runtime_binding \<Rightarrow> protected_allocation_ref option \<Rightarrow> sandbox_binding_snapshot" where
  "binding_snapshot_of b q = \<lparr> snapshot_sandbox_id = binding_sandbox_id b,
     snapshot_runtime_binding_id = binding_runtime_id b, snapshot_provider_id = binding_provider_id b,
     snapshot_protected_reference = q \<rparr>"

text \<open>The reference of a binding and its protected form.\<close>

definition protects ::
  "(protection_context \<Rightarrow> protected_allocation_ref \<Rightarrow> sandbox_allocation_ref option)
     \<Rightarrow> string \<Rightarrow> string \<Rightarrow> sandbox_runtime_binding \<Rightarrow> protected_allocation_ref option \<Rightarrow> bool" where
  "protects restore t sid b q \<longleftrightarrow>
     (case (q, binding_allocation_ref b) of
        (None, None) \<Rightarrow> True
      | (Some q', Some a) \<Rightarrow>
          restore (protection_context_for_repository t sid (binding_runtime_id b)) q' = Some a
      | _ \<Rightarrow> False)"

lemma binding_row_read:
  assumes rel: "binding_related restore t sid r b"
    and ids: "stored_id_ok (binding_sandbox_id b)" "stored_id_ok (binding_runtime_id b)" "stored_id_ok (binding_provider_id b)"
  obtains q where "parse_sandbox_runtime_binding_row r = Inr (binding_snapshot_of b q)" "protects restore t sid b q"
proof (cases "binding_allocation_ref b")
  case None
  then have "parse_sandbox_runtime_binding_row r = Inr (binding_snapshot_of b None)"
    using rel ids by (simp add: binding_related_def parse_sandbox_runtime_binding_row_def
        parse_protected_columns_def stored_id_okD binding_snapshot_of_def)
  then show thesis using that None by (simp add: protects_def)
next
  case (Some a)
  then obtain q where q: "holds_protected q r" "protected_ok q"
      "restore (protection_context_for_repository t sid (binding_runtime_id b)) q = Some a"
    using rel by (auto simp: binding_related_def)
  have "parse_sandbox_runtime_binding_row r = Inr (binding_snapshot_of b (Some q))"
    using rel ids by (simp add: parse_sandbox_runtime_binding_row_def parse_held_columns [OF q(1,2)]
        binding_related_def stored_id_okD binding_snapshot_of_def)
  then show thesis using that q(3) Some by (simp add: protects_def)
qed

lemma bindings_read:
  assumes keyed: "tables_keyed tb" and typed: "session_typed s"
    and rel: "rel_option (binding_related restore t sid) (row_at bound_session_key (t, sid) (binding_rows tb))
      (session_runtime_binding s)"
  obtains f q where "parse_binding_rows (filter (\<lambda>r. bound_tenant r = t \<and> bound_session r \<in> set [sid]) (binding_rows tb)) = Inr f"
    "f sid = map_option (\<lambda>b. binding_snapshot_of b q) (session_runtime_binding s)"
    "\<And>b. session_runtime_binding s = Some b \<Longrightarrow> protects restore t sid b q"
proof -
  let ?hit = "\<lambda>r. bound_tenant r = t \<and> bound_session r \<in> set [sid]"
  have "length (filter ?hit (binding_rows tb))
      = (case row_at bound_session_key (t, sid) (binding_rows tb) of None \<Rightarrow> 0 | Some r \<Rightarrow> if ?hit r then 1 else 0)"
    by (rule filter_key_length) (use keyed in \<open>simp_all add: tables_keyed_def\<close>)
  moreover have member: "r \<in> set (filter ?hit (binding_rows tb)) \<Longrightarrow>
      row_at bound_session_key (t, sid) (binding_rows tb) = Some r" for r
    using row_at_member [of bound_session_key "binding_rows tb" r] keyed by (auto simp: tables_keyed_def)
  ultimately have rows: "filter ?hit (binding_rows tb)
      = (case row_at bound_session_key (t, sid) (binding_rows tb) of None \<Rightarrow> [] | Some r \<Rightarrow> [r])"
  proof (cases "row_at bound_session_key (t, sid) (binding_rows tb)")
    case None
    then have "filter ?hit (binding_rows tb) = []"
      using member by (metis list.set_intros(1) neq_Nil_conv option.distinct(1))
    then show ?thesis using None by simp
  next
    case (Some r)
    have "?hit r" using row_at_SomeD [OF Some] by simp
    moreover have "length (filter ?hit (binding_rows tb))
      = (case row_at bound_session_key (t, sid) (binding_rows tb) of None \<Rightarrow> 0 | Some r \<Rightarrow> if ?hit r then 1 else 0)"
      by (rule filter_key_length) (use keyed in \<open>simp_all add: tables_keyed_def\<close>)
    ultimately obtain x where x: "filter ?hit (binding_rows tb) = [x]"
      using Some by (auto simp: length_Suc_conv)
    then have "x = r" using member [of x] Some by (metis list.set_intros(1) option.inject)
    then show ?thesis using x Some by simp
  qed
  show thesis
  proof (cases "session_runtime_binding s")
    case None
    then have "row_at bound_session_key (t, sid) (binding_rows tb) = None" using rel by simp
    then have "parse_binding_rows (filter ?hit (binding_rows tb)) = Inr (map_of [])"
      unfolding rows by (simp add: parse_binding_rows_def map_results_def)
    then show thesis using that [of "map_of []" None] None by simp
  next
    case (Some b)
    then obtain r where r: "row_at bound_session_key (t, sid) (binding_rows tb) = Some r"
      "binding_related restore t sid r b"
      using rel by (auto simp: option_rel_Some2)
    obtain q where q: "parse_sandbox_runtime_binding_row r = Inr (binding_snapshot_of b q)" "protects restore t sid b q"
      by (rule binding_row_read [OF r(2)]) (use typed Some in \<open>simp_all add: session_typed_def\<close>)
    have "bound_session r = sid" using row_at_SomeD [OF r(1)] by simp
    then have "parse_binding_rows (filter ?hit (binding_rows tb)) = Inr (map_of [(sid, binding_snapshot_of b q)])"
      unfolding rows r(1) using q(1) by (simp add: parse_binding_rows_def map_results_def)
    then show thesis using that [of "map_of [(sid, binding_snapshot_of b q)]" q] Some q(2) by simp
  qed
qed

section \<open>The session\<close>

definition snapshot_of :: "sandbox_session \<Rightarrow> protected_allocation_ref option \<Rightarrow> sandbox_session_snapshot" where
  "snapshot_of s q = \<lparr> snapshot_tenant_id = session_tenant_id s, snapshot_workspace_id = session_workspace_id s,
     snapshot_session_id = session_id s, snapshot_state = session_state s,
     snapshot_required_capabilities = session_required_capabilities s,
     snapshot_minimum_assurance = session_minimum_assurance s,
     snapshot_runtime_binding = map_option (\<lambda>b. binding_snapshot_of b q) (session_runtime_binding s),
     snapshot_last_failure = session_last_failure s, snapshot_operations = session_operations s,
     snapshot_persisted_operations = None, snapshot_version = session_version s \<rparr>"

lemma snapshot_from_written_rows:
  assumes "session_typed s"
  shows "snapshot_from_rows (session_tenant_id s) (session_id s) (session_row_for s)
      (Some (map (\<lambda>i. (int i, session_operations s ! i)) [0..<length (session_operations s)]))
      (map_option (\<lambda>b. binding_snapshot_of b q) (session_runtime_binding s))
    = Inr (snapshot_of s q)"
  using assms
  by (simp add: snapshot_from_rows_def session_row_for_def session_typed_def stored_id_okD ledger_read
      state_column.parse_name assurance_column.parse_name failure_column.parse_name snapshot_of_def split: option.split)

lemma restored_session:
  assumes valid: "session_valid s"
    and prot: "\<And>b. session_runtime_binding s = Some b \<Longrightarrow>
      protects restore (session_tenant_id s) (session_id s) b q"
    and faithful: "faithful restore p" and r: "snapshot_restore p (snapshot_of s q) = Inr x"
  shows "x = mark_sandbox_operations_persisted s"
proof (cases "session_runtime_binding s")
  case None
  then show ?thesis using r
    by (auto simp: snapshot_restore_def snapshot_of_def sandbox_session_restore_def
        mark_sandbox_operations_persisted_def Let_def split: sum.splits)
next
  case (Some b)
  have "binding_allocation_ref b = None \<and> q = None
      \<or> (\<exists>a q'. binding_allocation_ref b = Some a \<and> q = Some q'
         \<and> restore (protection_context_for_repository (session_tenant_id s) (session_id s) (binding_runtime_id b)) q' = Some a)"
    using prot [OF Some] by (auto simp: protects_def split: option.splits)
  then show ?thesis
  proof (elim disjE exE conjE)
    assume "binding_allocation_ref b = None" "q = None"
    then show ?thesis using r Some
      by (auto simp: snapshot_restore_def snapshot_of_def sandbox_session_restore_def Let_def
          mark_sandbox_operations_persisted_def snapshot_restore_binding_def binding_snapshot_of_def
          sandbox_runtime_binding_restore_def split: sum.splits)
  next
    fix a q'
    assume a: "binding_allocation_ref b = Some a" "q = Some q'"
      "restore (protection_context_for_repository (session_tenant_id s) (session_id s) (binding_runtime_id b)) q' = Some a"
    let ?ctx = "protection_context_for_repository (session_tenant_id s) (session_id s) (binding_runtime_id b)"
    obtain a' where "restore_reference p ?ctx q' = Inr a'"
      using r Some a by (cases "restore_reference p ?ctx q'")
        (auto simp: snapshot_restore_def snapshot_of_def snapshot_restore_binding_def binding_snapshot_of_def Let_def
          split: sum.splits)
    moreover from this have "a' = a" using faithful a(3) by (simp add: faithful_def)
    ultimately show ?thesis using r Some a
      by (auto simp: snapshot_restore_def snapshot_of_def sandbox_session_restore_def Let_def
          mark_sandbox_operations_persisted_def snapshot_restore_binding_def binding_snapshot_of_def
          sandbox_runtime_binding_restore_def split: sum.splits)
  qed
qed

section \<open>A read\<close>

definition session_rows_of :: "string \<Rightarrow> string \<Rightarrow> sql_tables \<Rightarrow> session_row list" where
  "session_rows_of t sid tb = filter (\<lambda>r. row_tenant r = t \<and> row_session r \<in> set [sid]) (session_rows tb)"

definition binding_rows_of :: "string \<Rightarrow> string \<Rightarrow> sql_tables \<Rightarrow> binding_row list" where
  "binding_rows_of t sid tb = filter (\<lambda>r. bound_tenant r = t \<and> bound_session r \<in> set [sid]) (binding_rows tb)"

definition loaded_snapshots :: "string \<Rightarrow> string \<Rightarrow> sql_tables \<Rightarrow> sandbox_session_snapshot list repository_result" where
  "loaded_snapshots t sid tb =
     and_then (rows_by_id row_session (session_rows_of t sid tb)) (\<lambda>ss.
     and_then (parse_binding_rows (binding_rows_of t sid tb)) (\<lambda>bs.
     and_then (operations_by_id [(sid, operation_window t sid tb)]) (\<lambda>ops.
       assemble_snapshots t [sid] ss ops bs)))"

definition loaded_session ::
  "allocation_protector \<Rightarrow> string \<Rightarrow> string \<Rightarrow> sql_tables \<Rightarrow> sandbox_session option repository_result" where
  "loaded_session p t sid tb =
     and_then (loaded_snapshots t sid tb) (\<lambda>snaps.
       if snaps = [] then Inr None else map_sum id Some (snapshot_restore p (last snaps)))"

lemma load_answers: "answers (load_sandbox_session_snapshots t [sid]) (loaded_snapshots t sid)"
proof -
  have one: "answers (statement (select_session_rows t [sid])) (\<lambda>tb. Inr (session_rows_of t sid tb))"
    by (rule answers_statement) (simp add: select_session_rows_def session_rows_of_def)
  have two: "answers (statement (select_binding_rows t [sid])) (\<lambda>tb. Inr (binding_rows_of t sid tb))"
    by (rule answers_statement) (simp add: select_binding_rows_def binding_rows_of_def)
  have three: "answers (statement (select_operation_windows t [sid])) (\<lambda>tb. Inr [(sid, operation_window t sid tb)])"
    by (rule answers_statement) (simp add: select_operation_windows_def)
  have "answers (load_sandbox_session_snapshots t [sid]) (\<lambda>tb.
     and_then (Inr (session_rows_of t sid tb)) (\<lambda>rows. and_then (rows_by_id row_session rows) (\<lambda>ss.
     and_then (Inr (binding_rows_of t sid tb)) (\<lambda>bindings. and_then (parse_binding_rows bindings) (\<lambda>bs.
     and_then (Inr [(sid, operation_window t sid tb)]) (\<lambda>windows. and_then (operations_by_id windows) (\<lambda>ops.
       assemble_snapshots t [sid] ss ops bs)))))))"
    unfolding load_sandbox_session_snapshots_def if_not_P [OF list.distinct(2)]
    by (intro answers_bind answers_ret one two three)
  then show ?thesis unfolding loaded_snapshots_def sum.case .
qed

lemma read_answers: "answers (read_sandbox_session p t sid) (loaded_session p t sid)"
proof -
  have n: "answers (statement nothing) (\<lambda>tb. Inr ())"
    by (rule answers_statement) (simp add: nothing_def)
  have e: "answers enforce_sandbox_transaction_timeouts (\<lambda>tb. and_then (Inr ()) (\<lambda>_. Inr ()))"
    unfolding enforce_sandbox_transaction_timeouts_def by (intro answers_bind n)
  have l: "answers (load_sandbox_session_snapshot t sid)
      (\<lambda>tb. and_then (loaded_snapshots t sid tb) (\<lambda>snaps. Inr (if snaps = [] then None else Some (last snaps))))"
    unfolding load_sandbox_session_snapshot_def by (intro answers_bind load_answers answers_ret)
  have "answers (read_sandbox_session p t sid) (\<lambda>tb.
      and_then (and_then (Inr ()) (\<lambda>_. and_then (and_then (Inr ()) (\<lambda>_. Inr ())) (\<lambda>_.
        and_then (loaded_snapshots t sid tb) (\<lambda>snaps. Inr (if snaps = [] then None else Some (last snaps))))))
      (\<lambda>snap. case snap of None \<Rightarrow> Inr None | Some s \<Rightarrow> map_sum id Some (snapshot_restore p s)))"
    unfolding read_sandbox_session_def
    by (intro answers_bind answers_transaction answers_ret n e l)
  moreover have "and_then (and_then (Inr ()) (\<lambda>_. and_then (and_then (Inr ()) (\<lambda>_. Inr ())) (\<lambda>_.
        and_then (loaded_snapshots t sid tb) (\<lambda>snaps. Inr (if snaps = [] then None else Some (last snaps))))))
      (\<lambda>snap. case snap of None \<Rightarrow> Inr None | Some s \<Rightarrow> map_sum id Some (snapshot_restore p s))
    = loaded_session p t sid tb" for tb
    by (simp add: loaded_session_def split: sum.split)
  ultimately show ?thesis by simp
qed

lemma row_at_select:
  "(\<And>r. P r \<and> key' r = k' \<longleftrightarrow> key r = k) \<Longrightarrow> row_at key' k' (filter P rows) = row_at key k rows"
  by (induction rows) (auto simp: row_at_def)

lemma sessions_read:
  assumes keyed: "tables_keyed tb"
  shows "\<exists>f. rows_by_id row_session (session_rows_of t sid tb) = Inr f
    \<and> f sid = row_at session_key (t, sid) (session_rows tb)"
proof -
  let ?rows = "session_rows_of t sid tb"
  have "distinct (map session_key ?rows)"
    using keyed by (simp add: session_rows_of_def tables_keyed_def distinct_map_filter)
  then have "distinct (map row_session ?rows)"
    by (auto simp: session_rows_of_def distinct_map inj_on_def)
  moreover have "row_at row_session sid ?rows = row_at session_key (t, sid) (session_rows tb)"
    unfolding session_rows_of_def by (rule row_at_select) auto
  ultimately show ?thesis by (simp add: rows_by_id_def)
qed

lemma loaded_related:
  assumes rel: "store_related restore tb r" and ok: "repository_ok r"
  shows "case lookup_session t sid r of
      None \<Rightarrow> loaded_snapshots t sid tb = Inr []
    | Some s \<Rightarrow> \<exists>q. loaded_snapshots t sid tb = Inr [snapshot_of s q]
        \<and> (\<forall>b. session_runtime_binding s = Some b \<longrightarrow> protects restore t sid b q)"
proof -
  have keyed: "tables_keyed tb" and sess: "session_related restore tb t sid (lookup_session t sid r)"
    using store_relatedD(1,2) [OF rel] by blast+
  obtain ss where ss: "rows_by_id row_session (session_rows_of t sid tb) = Inr ss"
    "ss sid = row_at session_key (t, sid) (session_rows tb)"
    using sessions_read [OF keyed] by blast
  show ?thesis
  proof (cases "lookup_session t sid r")
    case None
    then have none: "ss sid = None" "session_ops t sid tb = {}"
      "row_at bound_session_key (t, sid) (binding_rows tb) = None"
      using sess ss(2) by (auto simp: session_related_def)
    have "binding_rows_of t sid tb = []"
      using none(3) by (auto simp: binding_rows_of_def row_at_None filter_empty_conv)
    then have "parse_binding_rows (binding_rows_of t sid tb) = Inr (map_of [])"
      by (simp add: parse_binding_rows_def map_results_def)
    moreover obtain f where "operations_by_id [(sid, operation_window t sid tb)] = Inr f"
      using no_operations_read [OF none(2)] by blast
    ultimately show ?thesis
      using None ss(1) none(1) by (simp add: loaded_snapshots_def)
  next
    case (Some s)
    have key: "session_tenant_id s = t" "session_id s = sid" and valid: "session_valid s"
      using repository_okD(3) [OF ok Some] by (simp_all add: session_filed_def)
    have typed: "session_typed s" using sess Some by (simp add: session_related_def)
    have row: "ss sid = Some (session_row_for s)" using sess ss(2) Some by (simp add: session_related_def)
    have "session_ops t sid tb = set (ledger_rows t sid (session_operations s))"
      using sess Some by (simp add: session_related_def)
    from operations_read [OF keyed this valid_nonempty [OF valid]] typed
    obtain f where f: "operations_by_id [(sid, operation_window t sid tb)] = Inr f"
      "f sid = Some (map (\<lambda>i. (int i, session_operations s ! i)) [0..<length (session_operations s)])"
      by (auto simp: session_typed_def)
    have "rel_option (binding_related restore t sid) (row_at bound_session_key (t, sid) (binding_rows tb))
        (session_runtime_binding s)"
      using sess Some by (simp add: session_related_def)
    note bound = bindings_read [OF keyed typed this, folded binding_rows_of_def]
    obtain bs q where bs: "parse_binding_rows (binding_rows_of t sid tb) = Inr bs"
      "bs sid = map_option (\<lambda>b. binding_snapshot_of b q) (session_runtime_binding s)"
      "\<forall>b. session_runtime_binding s = Some b \<longrightarrow> protects restore t sid b q"
      by (rule bound) blast
    have snap: "snapshot_from_rows t sid (session_row_for s) (f sid) (bs sid) = Inr (snapshot_of s q)"
      unfolding f(2) bs(2) unfolding key [symmetric] by (rule snapshot_from_written_rows [OF typed])
    have "loaded_snapshots t sid tb = Inr [snapshot_of s q]"
      unfolding loaded_snapshots_def ss(1) f(1) bs(1) by (simp add: row snap)
    then show ?thesis using Some bs(3) by auto
  qed
qed

lemma read_returns_stored:
  assumes rel: "store_related restore (server_tables v) r" and ok: "repository_ok r"
    and f: "faithful restore p" and quiet: "server_rivals v = []"
    and run: "run_state (read_sandbox_session p t sid) v = (Inr found, v')"
  shows "found = map_option mark_sandbox_operations_persisted (lookup_session t sid r)
    \<and> server_tables v' = server_tables v"
proof -
  note d = answersD [OF read_answers quiet run]
  have l: "loaded_session p t sid (server_tables v) = Inr found" by (rule d(4)) (rule refl)
  have "found = map_option mark_sandbox_operations_persisted (lookup_session t sid r)"
  proof (cases "lookup_session t sid r")
    case None
    then show ?thesis using loaded_related [OF rel ok, of t sid] l by (simp add: loaded_session_def)
  next
    case (Some s)
    have key: "session_tenant_id s = t" "session_id s = sid" and valid: "session_valid s"
      using repository_okD(3) [OF ok Some] by (simp_all add: session_filed_def)
    obtain q where q: "loaded_snapshots t sid (server_tables v) = Inr [snapshot_of s q]"
      "\<And>b. session_runtime_binding s = Some b \<Longrightarrow> protects restore t sid b q"
      using loaded_related [OF rel ok, of t sid] Some by auto
    then obtain x where x: "snapshot_restore p (snapshot_of s q) = Inr x" "found = Some x"
      using l by (cases "snapshot_restore p (snapshot_of s q)") (auto simp: loaded_session_def)
    have "x = mark_sandbox_operations_persisted s"
      by (rule restored_session [OF valid _ f x(1)]) (use q(2) key in simp)
    then show ?thesis using x(2) Some by simp
  qed
  then show ?thesis using d(1) by simp
qed

end
