(* ===== verification/Sql_Refinement.thy ===== *)
theory Sql_Refinement
  imports Sql_Loading
begin

text \<open>
  The SQL repository refines the in-memory store. The system is the committed tables and the sessions its
  clients hold: those they inserted, read or saved. A client saves what it made of a session it holds,
  under that session's version. Each unit of work (a transaction, or a single statement of the lease
  operations and of the re-encryption) is a step, with any clock, protector and faults.
\<close>

section \<open>Simulation\<close>

locale simulation = invariant_machine init step inv
  for init :: "'a" and step :: "'a \<Rightarrow> 'a \<Rightarrow> bool" and inv :: "'a \<Rightarrow> bool" +
  fixes cinit :: "'c" and cstep :: "'c \<Rightarrow> 'c \<Rightarrow> bool" and rel :: "'c \<Rightarrow> 'a \<Rightarrow> bool"
  assumes rel_init: "rel cinit init"
    and rel_step: "cstep c c' \<Longrightarrow> rel c a \<Longrightarrow> inv a \<Longrightarrow> \<exists>a'. step\<^sup>*\<^sup>* a a' \<and> rel c' a'"
begin

lemma simulated: "cstep\<^sup>*\<^sup>* cinit c \<Longrightarrow> \<exists>a. step\<^sup>*\<^sup>* init a \<and> inv a \<and> rel c a"
proof (induction rule: rtranclp_induct)
  case base
  show ?case using rel_init inv_init by blast
next
  case (step c c')
  then obtain a where a: "step\<^sup>*\<^sup>* init a" "inv a" "rel c a" by blast
  with rel_step [OF step(2) a(3,2)] obtain a' where "step\<^sup>*\<^sup>* a a'" "rel c' a'" by blast
  then show ?case using a steps_inv by (meson rtranclp_trans)
qed

end

section \<open>The system\<close>

record sql_system =
  system_tables :: sql_tables
  system_clients :: "sandbox_session set"

definition empty_system :: sql_system where
  "empty_system = \<lparr> system_tables = empty_tables, system_clients = {} \<rparr>"

text \<open>What the lifecycle operations make of a session: its ledger extended, its next version.\<close>

definition session_continues :: "sandbox_session \<Rightarrow> sandbox_session \<Rightarrow> bool" where
  "session_continues s0 s \<longleftrightarrow>
     session_tenant_id s = session_tenant_id s0 \<and> session_id s = session_id s0
     \<and> session_persisted_count s = session_persisted_count s0
     \<and> session_persisted_last_outcome s = session_persisted_last_outcome s0
     \<and> session_ledger_extends (session_operations s0) (session_operations s)"

definition holds_also :: "sandbox_session \<Rightarrow> bool \<Rightarrow> sandbox_session set \<Rightarrow> sandbox_session set" where
  "holds_also s known held = (if known then insert s held else held)"

inductive sql_step ::
  "(protection_context \<Rightarrow> protected_allocation_ref \<Rightarrow> sandbox_allocation_ref option)
     \<Rightarrow> sql_system \<Rightarrow> sql_system \<Rightarrow> bool" for restore where
  sql_insert: "faithful restore p \<Longrightarrow> session_storable s \<Longrightarrow> server_rivals v = [] \<Longrightarrow>
    run_state (sql_insert_sandbox_session p s) v = (res, v') \<Longrightarrow>
    sql_step restore \<lparr> system_tables = server_tables v, system_clients = held \<rparr>
      \<lparr> system_tables = server_tables v',
        system_clients = holds_also (mark_sandbox_operations_persisted s) (res = Inr ()) held \<rparr>"
| sql_save: "faithful restore p \<Longrightarrow> session_storable s \<Longrightarrow> server_rivals v = [] \<Longrightarrow>
    s0 \<in> held \<Longrightarrow> session_continues s0 s \<Longrightarrow>
    run_state (sql_save_sandbox_session p s (session_version s0) l) v = (res, v') \<Longrightarrow>
    sql_step restore \<lparr> system_tables = server_tables v, system_clients = held \<rparr>
      \<lparr> system_tables = server_tables v',
        system_clients = holds_also (mark_sandbox_operations_persisted s) (res = Inr ()) held \<rparr>"
| sql_read: "faithful restore p \<Longrightarrow> server_rivals v = [] \<Longrightarrow>
    run_state (read_sandbox_session p t sid) v = (Inr (Some s), v') \<Longrightarrow>
    sql_step restore \<lparr> system_tables = server_tables v, system_clients = held \<rparr>
      \<lparr> system_tables = server_tables v', system_clients = insert s held \<rparr>"
| sql_take: "1 \<le> millis \<Longrightarrow> millis \<le> 300000 \<Longrightarrow> server_rivals v = [] \<Longrightarrow>
    run_state (single_statement (take_lease t sid owner millis)) v = (res, v') \<Longrightarrow>
    sql_step restore \<lparr> system_tables = server_tables v, system_clients = held \<rparr>
      \<lparr> system_tables = server_tables v', system_clients = held \<rparr>"
| sql_renew: "1 \<le> millis \<Longrightarrow> millis \<le> 300000 \<Longrightarrow> server_rivals v = [] \<Longrightarrow>
    run_state (single_statement (renew_lease_row l millis)) v = (res, v') \<Longrightarrow>
    sql_step restore \<lparr> system_tables = server_tables v, system_clients = held \<rparr>
      \<lparr> system_tables = server_tables v', system_clients = held \<rparr>"
| sql_release: "server_rivals v = [] \<Longrightarrow>
    run_state (single_statement (release_lease_row l)) v = (res, v') \<Longrightarrow>
    sql_step restore \<lparr> system_tables = server_tables v, system_clients = held \<rparr>
      \<lparr> system_tables = server_tables v', system_clients = held \<rparr>"
| sql_reencrypt: "protected_ok q \<Longrightarrow>
    restore (protection_context_for_repository t (candidate_session cand) (candidate_binding cand)) q
      = restore (protection_context_for_repository t (candidate_session cand) (candidate_binding cand)) (candidate_protected cand) \<Longrightarrow>
    server_rivals v = [] \<Longrightarrow>
    run_state (single_statement (replace_protected t cand q)) v = (res, v') \<Longrightarrow>
    sql_step restore \<lparr> system_tables = server_tables v, system_clients = held \<rparr>
      \<lparr> system_tables = server_tables v', system_clients = held \<rparr>"

inductive_cases sql_stepE: "sql_step restore c c'"

definition system_related ::
  "(protection_context \<Rightarrow> protected_allocation_ref \<Rightarrow> sandbox_allocation_ref option)
     \<Rightarrow> sql_system \<Rightarrow> sandbox_repository_state \<Rightarrow> bool" where
  "system_related restore c r \<longleftrightarrow>
     store_related restore (system_tables c) r
     \<and> (\<forall>s0\<in>system_clients c. \<exists>old now. s0 = mark_sandbox_operations_persisted old
          \<and> lookup_session (session_tenant_id s0) (session_id s0) r = Some now \<and> session_later old now)"

section \<open>Units of work\<close>

text \<open>A transaction takes effect as a whole or not at all; only a lost connection hides which.\<close>

lemma transaction_outcome:
  assumes run: "run_state (transaction body) v = (res, v')"
  obtains (rolled_back) e where "res = Inl e" "server_tables v' = server_tables (others_act v)"
  | (committed) x w w' where "server_tables w = server_tables (others_act v)"
      "server_clock w = server_clock (others_act v)" "run_state body w = (Inr x, w')"
      "server_tables v' = server_tables w'" "res = Inr x \<or> res = Inl RepositoryUnavailable"
proof -
  let ?v = "others_act v"
  obtain r v1 where r: "run_state (try_bind (statement nothing) (\<lambda>_. body)) ?v = (r, v1)" by fastforce
  show thesis
  proof (cases r)
    case (Inl e)
    then show thesis using rolled_back [of e] run r by (auto simp: transaction_def Let_def)
  next
    case (Inr x)
    obtain u w where w: "nothing (server_clock ?v) (server_tables ?v) = Inr (u, server_tables w)"
        "server_clock w = server_clock ?v" "run_state body w = (Inr x, v1)"
      by (rule try_bind_statement_okE [OF r [unfolded Inr]])
    then have same: "server_tables w = server_tables ?v" by simp
    have c: "(res, v') = (case take_fault v1 of
        (Some (e, done), v2) \<Rightarrow> (Inl (map_sandbox_sqlx_error e),
          if done \<and> e = ConnectionFailure then v2 else v2\<lparr> server_tables := server_tables ?v \<rparr>)
      | (None, v2) \<Rightarrow> (Inr x, v2))"
      using run r Inr by (simp add: transaction_def Let_def commit_def)
    obtain f v2 where f: "take_fault v1 = (f, v2)" by fastforce
    then have t2: "server_tables v2 = server_tables v1" by (auto simp: take_fault_def split: list.splits)
    show thesis
    proof (cases f)
      case None
      then show thesis using committed [OF same w(2,3)] c f t2 by simp
    next
      case (Some ed)
      then show thesis using committed [OF same w(2,3)] rolled_back c f t2
        by (cases ed) (auto simp: map_sandbox_sqlx_error_def split: if_splits)
    qed
  qed
qed

lemma transaction_cases:
  assumes run: "run_state (transaction body) v = (res, v')" and quiet: "server_rivals v = []"
  obtains (rolled_back) e where "res = Inl e" "server_tables v' = server_tables v"
  | (committed) x w w' where "server_tables w = server_tables v" "server_clock w = server_clock v"
      "run_state body w = (Inr x, w')" "server_tables v' = server_tables w'" "\<And>y. res = Inr y \<Longrightarrow> y = x"
  by (rule transaction_outcome [OF run, unfolded others_act_quiet [OF quiet]]) auto

lemma single_statement_cases:
  assumes run: "run_state (single_statement f) v = (res, v')" and quiet: "server_rivals v = []"
  obtains (unchanged) "server_tables v' = server_tables v"
  | (effective) x where "f (server_clock v) (server_tables v) = Inr (x, server_tables v')"
proof -
  obtain g w where g: "take_fault v = (g, w)" by fastforce
  then have w: "server_tables w = server_tables v" "server_clock w = server_clock v"
    by (auto simp: take_fault_def split: list.splits)
  have ran: "server_tables u = server_tables v \<or> (\<exists>x. f (server_clock v) (server_tables v) = Inr (x, server_tables u))"
    if "run_statement f w = (r, u)" for r u
    using that w by (auto simp: run_statement_def split: sum.splits prod.splits)
  show thesis
  proof (cases g)
    case None
    then have "run_statement f w = (res, v')" using run g quiet by (simp add: single_statement_def)
    from ran [OF this] show thesis using unchanged effective by blast
  next
    case (Some ed)
    then have "v' = w \<or> v' = snd (run_statement f w)" using run g quiet
      by (cases ed) (auto simp: single_statement_def split: if_splits)
    then show thesis using unchanged effective w(1) ran [of "fst (run_statement f w)" "snd (run_statement f w)"] by auto
  qed
qed

section \<open>Every step is simulated\<close>

lemma lookup_key:
  "repository_ok r \<Longrightarrow> lookup_session t sid r = Some s \<Longrightarrow> session_tenant_id s = t \<and> session_id s = sid"
  using repository_okD(3) [of r t sid s] by (simp add: session_filed_def)

lemma mark_fields [simp]:
  "session_tenant_id (mark_sandbox_operations_persisted s) = session_tenant_id s"
  "session_id (mark_sandbox_operations_persisted s) = session_id s"
  "session_operations (mark_sandbox_operations_persisted s) = session_operations s"
  "session_version (mark_sandbox_operations_persisted s) = session_version s"
  "session_persisted_count (mark_sandbox_operations_persisted s) = length (session_operations s)"
  "session_persisted_last_outcome (mark_sandbox_operations_persisted s) = last_outcome (session_operations s)"
  by (simp_all add: mark_sandbox_operations_persisted_def)

lemma clients_later:
  assumes rel: "system_related restore c r" and ok: "repository_ok r" and steps: "repository_step\<^sup>*\<^sup>* r r'"
    and s0: "s0 \<in> system_clients c"
  shows "\<exists>old now. s0 = mark_sandbox_operations_persisted old
    \<and> lookup_session (session_tenant_id s0) (session_id s0) r' = Some now \<and> session_later old now"
proof -
  obtain old now where o: "s0 = mark_sandbox_operations_persisted old"
    "lookup_session (session_tenant_id s0) (session_id s0) r = Some now" "session_later old now"
    using rel s0 unfolding system_related_def by blast
  moreover have "repository_later r r'" by (rule session_store.steps_grow [OF steps ok])
  ultimately show ?thesis
    using repository_laterD(1) session_later_trans by blast
qed

lemma system_relatedI:
  assumes rel: "system_related restore c r" and ok: "repository_ok r" and steps: "repository_step\<^sup>*\<^sup>* r r'"
    and tables: "store_related restore tb' r'"
    and new: "\<And>s. s \<in> H \<Longrightarrow> s \<notin> system_clients c \<Longrightarrow> \<exists>old. s = mark_sandbox_operations_persisted old
      \<and> lookup_session (session_tenant_id s) (session_id s) r' = Some old"
  shows "system_related restore \<lparr> system_tables = tb', system_clients = H \<rparr> r'"
  unfolding system_related_def
proof (intro conjI ballI)
  show "store_related restore (system_tables \<lparr> system_tables = tb', system_clients = H \<rparr>) r'"
    using tables by simp
  fix s assume s: "s \<in> system_clients \<lparr> system_tables = tb', system_clients = H \<rparr>"
  show "\<exists>old now. s = mark_sandbox_operations_persisted old
      \<and> lookup_session (session_tenant_id s) (session_id s) r' = Some now \<and> session_later old now"
  proof (cases "s \<in> system_clients c")
    case True
    then show ?thesis by (rule clients_later [OF rel ok steps])
  next
    case False
    then show ?thesis using new [of s] s session_later_refl by auto
  qed
qed

text \<open>The version a client saves under tells which ledger it extends.\<close>

lemma continued_window:
  assumes rel: "system_related restore c r" and s0: "s0 \<in> system_clients c" "session_continues s0 s"
  shows "window_from s (session_version s0) r"
proof -
  obtain old now where o: "s0 = mark_sandbox_operations_persisted old"
    "lookup_session (session_tenant_id s0) (session_id s0) r = Some now" "session_later old now"
    using rel s0(1) unfolding system_related_def by blast
  have "now = old" if "session_version now = session_version s0"
    using o(1,3) that by (auto simp: session_later_def)
  then show ?thesis
    using s0(2) o by (auto simp: window_from_def session_continues_def)
qed

lemma stays_related:
  assumes "system_related restore \<lparr> system_tables = tb, system_clients = held \<rparr> r" "repository_ok r"
    and "tb' = tb"
  shows "\<exists>r'. repository_step\<^sup>*\<^sup>* r r'
    \<and> system_related restore \<lparr> system_tables = tb', system_clients = held \<rparr> r'"
  using assms by blast

lemma insert_simulated:
  assumes rel: "system_related restore \<lparr> system_tables = server_tables v, system_clients = held \<rparr> r"
    and ok: "repository_ok r" and f: "faithful restore p" and s: "session_storable s" and quiet: "server_rivals v = []"
    and run: "run_state (sql_insert_sandbox_session p s) v = (res, v')"
  shows "\<exists>r'. repository_step\<^sup>*\<^sup>* r r' \<and> system_related restore \<lparr> system_tables = server_tables v',
    system_clients = holds_also (mark_sandbox_operations_persisted s) (res = Inr ()) held \<rparr> r'"
proof (cases "snapshot_capture p s")
  case (Inl e)
  then have "res = Inl e" "v' = v" using run by (simp_all add: sql_insert_sandbox_session_def try_bind_run)
  then show ?thesis using stays_related [OF rel ok] by (simp add: holds_also_def)
next
  case (Inr snap)
  have cap: "session_valid s \<and> session_captured restore s snap" by (rule capture_ok [OF f s Inr])
  have body: "run_state (transaction (insert_body snap)) v = (res, v')"
    using run Inr by (simp add: sql_insert_sandbox_session_def try_bind_run)
  show ?thesis
  proof (rule transaction_cases [OF body quiet], goal_cases)
    case (1 e)
    then show ?thesis using stays_related [OF rel ok] by (simp add: holds_also_def)
  next
    case (2 x w w')
    have t: "store_related restore (server_tables w) r" using rel 2(1) by (simp add: system_related_def)
    have step: "fst (memory_insert_sandbox_session s r) = Inr ()
        \<and> store_related restore (server_tables w') (snd (memory_insert_sandbox_session s r))"
      by (rule insert_body_simulated [OF _ conjunct2 [OF cap] conjunct1 [OF cap] _ t ok])
        (use 2(3) s in \<open>simp_all add: session_storable_def\<close>)
    let ?r = "snd (memory_insert_sandbox_session s r)"
    have steps: "repository_step\<^sup>*\<^sup>* r ?r" using step_insert by blast
    have look: "lookup_session (session_tenant_id s) (session_id s) ?r = Some s"
      using step insert_result [of s r] by (simp add: insert_ok_iff store_simps)
    have "system_related restore \<lparr> system_tables = server_tables v',
        system_clients = holds_also (mark_sandbox_operations_persisted s) (res = Inr ()) held \<rparr> ?r"
      by (rule system_relatedI [OF rel ok steps])
        (use step 2(4) look in \<open>auto simp: holds_also_def split: if_splits\<close>)
    then show ?thesis using steps by blast
  qed
qed

lemma save_simulated:
  assumes rel: "system_related restore \<lparr> system_tables = server_tables v, system_clients = held \<rparr> r"
    and ok: "repository_ok r" and f: "faithful restore p" and s: "session_storable s" and quiet: "server_rivals v = []"
    and s0: "s0 \<in> held" "session_continues s0 s"
    and run: "run_state (sql_save_sandbox_session p s (session_version s0) l) v = (res, v')"
  shows "\<exists>r'. repository_step\<^sup>*\<^sup>* r r' \<and> system_related restore \<lparr> system_tables = server_tables v',
    system_clients = holds_also (mark_sandbox_operations_persisted s) (res = Inr ()) held \<rparr> r'"
proof (cases "u64_checked_succ (session_version s0) = Some (session_version s)")
  case False
  then have "res = Inl VersionConflict" "v' = v"
    using run by (auto simp: sql_save_sandbox_session_def split: option.splits if_splits)
  then show ?thesis using stays_related [OF rel ok] by (simp add: holds_also_def)
next
  case True
  show ?thesis
  proof (cases "snapshot_capture p s")
    case (Inl e)
    then have "res = Inl e" "v' = v" using run True by (simp_all add: sql_save_sandbox_session_def try_bind_run)
    then show ?thesis using stays_related [OF rel ok] by (simp add: holds_also_def)
  next
    case (Inr snap)
    have cap: "session_valid s \<and> session_captured restore s snap" by (rule capture_ok [OF f s Inr])
    have body: "run_state (transaction (save_body snap (session_version s0) l)) v = (res, v')"
      using run Inr True by (simp add: sql_save_sandbox_session_def try_bind_run)
    show ?thesis
    proof (rule transaction_cases [OF body quiet], goal_cases)
      case (1 e)
      then show ?thesis using stays_related [OF rel ok] by (simp add: holds_also_def)
    next
      case (2 x w w')
      have t: "store_related restore (server_tables w) r" using rel 2(1) by (simp add: system_related_def)
      have win: "window_from s (session_version s0) r"
        by (rule continued_window [OF rel]) (use s0 in simp_all)
      let ?r = "snd (memory_save_sandbox_session s (session_version s0) l (server_clock w * 1000) r)"
      have step: "fst (memory_save_sandbox_session s (session_version s0) l (server_clock w * 1000) r) = Inr ()
          \<and> store_related restore (server_tables w') ?r"
        by (rule save_body_simulated [OF _ conjunct2 [OF cap] conjunct1 [OF cap] _ True win t ok])
          (use 2(3) s in \<open>simp_all add: session_storable_def\<close>)
      have steps: "repository_step\<^sup>*\<^sup>* r ?r" using step_save by blast
      have look: "lookup_session (session_tenant_id s) (session_id s) ?r = Some s"
        using step save_result [of s "session_version s0" l "server_clock w * 1000" r]
        by (simp add: save_ok_iff store_simps)
      have "system_related restore \<lparr> system_tables = server_tables v',
          system_clients = holds_also (mark_sandbox_operations_persisted s) (res = Inr ()) held \<rparr> ?r"
        by (rule system_relatedI [OF rel ok steps])
          (use step 2(4) look in \<open>auto simp: holds_also_def split: if_splits\<close>)
      then show ?thesis using steps by blast
    qed
  qed
qed

lemma read_simulated:
  assumes rel: "system_related restore \<lparr> system_tables = server_tables v, system_clients = held \<rparr> r"
    and ok: "repository_ok r" and f: "faithful restore p" and quiet: "server_rivals v = []"
    and run: "run_state (read_sandbox_session p t sid) v = (Inr (Some s), v')"
  shows "\<exists>r'. repository_step\<^sup>*\<^sup>* r r'
    \<and> system_related restore \<lparr> system_tables = server_tables v', system_clients = insert s held \<rparr> r'"
proof -
  have t: "store_related restore (server_tables v) r" using rel by (simp add: system_related_def)
  note read = read_returns_stored [OF t ok f quiet run]
  then obtain c where c: "lookup_session t sid r = Some c" "s = mark_sandbox_operations_persisted c"
    by (cases "lookup_session t sid r") auto
  have "system_related restore \<lparr> system_tables = server_tables v', system_clients = insert s held \<rparr> r"
    by (rule system_relatedI [OF rel ok rtranclp.rtrancl_refl])
      (use t read c lookup_key [OF ok c(1)] in auto)
  then show ?thesis by blast
qed

lemma statement_simulated:
  assumes rel: "system_related restore \<lparr> system_tables = server_tables v, system_clients = held \<rparr> r"
    and ok: "repository_ok r" and quiet: "server_rivals v = []"
    and run: "run_state (single_statement f) v = (res, v')"
    and sim: "\<And>x tb'. f (server_clock v) (server_tables v) = Inr (x, tb') \<Longrightarrow>
      store_related restore (server_tables v) r \<Longrightarrow> \<exists>r'. repository_step\<^sup>*\<^sup>* r r' \<and> store_related restore tb' r'"
  shows "\<exists>r'. repository_step\<^sup>*\<^sup>* r r'
    \<and> system_related restore \<lparr> system_tables = server_tables v', system_clients = held \<rparr> r'"
proof (rule single_statement_cases [OF run quiet], goal_cases)
  case 1
  then show ?thesis by (rule stays_related [OF rel ok])
next
  case (2 x)
  have "store_related restore (server_tables v) r" using rel by (simp add: system_related_def)
  from sim [OF 2 this] obtain r' where r': "repository_step\<^sup>*\<^sup>* r r'" "store_related restore (server_tables v') r'" by blast
  have "system_related restore \<lparr> system_tables = server_tables v', system_clients = held \<rparr> r'"
    by (rule system_relatedI [OF rel ok r']) simp
  then show ?thesis using r'(1) by blast
qed

interpretation sql_store: simulation empty_repository repository_step repository_ok empty_system
  "sql_step restore" "system_related restore" for restore
proof (unfold_locales, goal_cases)
  case 1
  show ?case by (simp add: system_related_def empty_system_def store_related_empty)
next
  case (2 c c' r)
  from 2(1) show ?case
  proof (cases rule: sql_step.cases)
    case (sql_insert p s v res v' held)
    then show ?thesis using insert_simulated 2(2,3) by blast
  next
    case (sql_save p s v s0 held l res v')
    then show ?thesis using save_simulated 2(2,3) by blast
  next
    case (sql_read p v t sid s v' held)
    then show ?thesis using read_simulated 2(2,3) by blast
  next
    case (sql_take millis v t sid owner res v' held)
    then show ?thesis
      using statement_simulated [OF _ 2(3) sql_take(5,6)] take_lease_simulated 2(2,3) by blast
  next
    case (sql_renew millis v l res v' held)
    then show ?thesis
      using statement_simulated [OF _ 2(3) sql_renew(5,6)] renew_lease_simulated 2(2,3) by blast
  next
    case (sql_release v l res v' held)
    then show ?thesis
      using statement_simulated [OF _ 2(3) sql_release(3,4)] release_lease_simulated 2(2,3) by blast
  next
    case (sql_reencrypt q t cand v res v' held)
    then show ?thesis
      using statement_simulated [OF _ 2(3) sql_reencrypt(5,6)] replace_protected_simulated 2(2,3) by blast
  qed
qed

end
