(* ===== verification/Sql_Service.thy ===== *)
theory Sql_Service
  imports Sql_Refinement Service_Properties
begin

text \<open>
  The lifecycle service on the SQL repository: whatever the database holds, whichever clients share it and
  however it fails, the repository keeps the contract the service relies on, so the service's protocol
  holds there too. Providers act on a state of their own.
\<close>

section \<open>What a read can return\<close>

lemma snapshot_from_rows_key:
  "snapshot_from_rows t sid r ops b = Inr snap \<Longrightarrow> snapshot_tenant_id snap = t \<and> snapshot_session_id snap = sid"
  by (auto simp: snapshot_from_rows_def split: sum.splits if_splits)

lemma assembled_keys:
  "assemble_snapshots t ids ss ops bs = Inr snaps \<Longrightarrow> snap \<in> set snaps \<Longrightarrow>
     snapshot_tenant_id snap = t \<and> snapshot_session_id snap \<in> set ids"
proof (induction ids arbitrary: ss ops bs snaps)
  case (Cons sid ids)
  show ?case
  proof (cases "ss sid")
    case None
    then show ?thesis using Cons by auto
  next
    case (Some r)
    obtain x where x: "snapshot_from_rows t sid r (ops sid) (bs sid) = Inr x"
      using Cons.prems(1) Some by (auto split: sum.splits)
    then obtain xs where "assemble_snapshots t ids (ss(sid := None)) (ops(sid := None)) (bs(sid := None)) = Inr xs"
      "snaps = x # xs"
      using Cons.prems(1) Some
      by (cases "assemble_snapshots t ids (ss(sid := None)) (ops(sid := None)) (bs(sid := None))") auto
    then have xs: "snap = x \<or> snap \<in> set xs" using Cons.prems(2) by auto
    from this show ?thesis
    proof
      assume "snap = x"
      then show ?thesis using snapshot_from_rows_key [OF x] by simp
    next
      assume "snap \<in> set xs"
      from Cons.IH [OF \<open>assemble_snapshots t ids _ _ _ = Inr xs\<close> this] show ?thesis by simp
    qed
  qed
qed simp

lemma loaded_keys:
  assumes "run_state (load_sandbox_session_snapshots t ids) v = (Inr snaps, v')" "snap \<in> set snaps"
  shows "snapshot_tenant_id snap = t \<and> snapshot_session_id snap \<in> set ids"
proof (cases "ids = []")
  case True
  then show ?thesis using assms by (simp add: load_sandbox_session_snapshots_def)
next
  case False
  from assms(1) [unfolded load_sandbox_session_snapshots_def if_not_P [OF False]]
  obtain ss ops bs w where "run_state (ret (assemble_snapshots t ids ss ops bs)) w = (Inr snaps, v')"
    by (elim try_bind_okE)
  then have "assemble_snapshots t ids ss ops bs = Inr snaps" by simp
  from assembled_keys [OF this assms(2)] show ?thesis .
qed

lemma loaded_key:
  assumes "run_state (load_sandbox_session_snapshot t sid) v = (Inr (Some snap), v')"
  shows "snapshot_tenant_id snap = t \<and> snapshot_session_id snap = sid"
proof -
  obtain snaps w where "run_state (load_sandbox_session_snapshots t [sid]) v = (Inr snaps, w)"
      "snaps \<noteq> []" "snap = last snaps"
    using assms unfolding load_sandbox_session_snapshot_def by (auto elim!: try_bind_okE split: if_splits)
  then show ?thesis using loaded_keys [of t "[sid]" v snaps w snap] by simp
qed

lemma restored_valid:
  assumes "snapshot_restore p snap = Inr s"
  shows "session_valid s \<and> session_tenant_id s = snapshot_tenant_id snap \<and> session_id s = snapshot_session_id snap"
proof -
  have valid: "snapshot_validate snap = Inr ()" using assms by (auto simp: snapshot_restore_def split: sum.splits)
  show ?thesis
  proof (cases "snapshot_runtime_binding snap")
    case None
    then show ?thesis using assms valid
      by (auto simp: snapshot_restore_def Let_def session_valid_def validate_sandbox_session_persisted_invariants_def
          snapshot_validate_def sandbox_session_restore_def has_allocation_reference_def)
  next
    case (Some b)
    then obtain r where r: "snapshot_restore_binding p snap b = Inr r"
      using assms valid by (auto simp: snapshot_restore_def Let_def split: sum.splits)
    then have "(binding_allocation_ref r \<noteq> None) = (snapshot_protected_reference b \<noteq> None)"
      by (auto simp: snapshot_restore_binding_def Let_def sandbox_runtime_binding_restore_def
          split: option.splits sum.splits)
    then show ?thesis using assms valid Some r
      by (auto simp: snapshot_restore_def Let_def session_valid_def validate_sandbox_session_persisted_invariants_def
          snapshot_validate_def sandbox_session_restore_def has_allocation_reference_def)
  qed
qed

lemma read_valid:
  assumes "run_state (read_sandbox_session p t sid) v = (Inr (Some s), v')"
  shows "session_valid s \<and> session_tenant_id s = t \<and> session_id s = sid"
proof -
  obtain found w where w: "run_state (transaction (try_bind (statement nothing)
        (\<lambda>_. try_bind enforce_sandbox_transaction_timeouts (\<lambda>_. load_sandbox_session_snapshot t sid)))) v = (Inr found, w)"
    and r: "(case found of None \<Rightarrow> Inr None | Some snap \<Rightarrow> map_sum id Some (snapshot_restore p snap)) = Inr (Some s)"
    using assms unfolding read_sandbox_session_def by (elim try_bind_okE) (simp only: run_ret prod.inject)
  then obtain snap where snap: "found = Some snap" "snapshot_restore p snap = Inr s"
    by (cases found; cases "snapshot_restore p (the found)") auto
  show ?thesis
  proof (rule transaction_outcome [OF w], goal_cases)
    case (2 x w0 w1)
    then have body: "run_state (try_bind (statement nothing) (\<lambda>_. try_bind enforce_sandbox_transaction_timeouts
        (\<lambda>_. load_sandbox_session_snapshot t sid))) w0 = (Inr (Some snap), w1)"
      using snap(1) by simp
    then obtain w2 where "run_state (load_sandbox_session_snapshot t sid) w2 = (Inr (Some snap), w1)"
      by (elim try_bind_okE)
    then show ?thesis using loaded_key restored_valid [OF snap(2)] by metis
  qed simp
qed

lemma taken_lease_key:
  "taken_lease t sid owner row = Inr (Some l) \<Longrightarrow> lease_tenant_id l = t \<and> lease_session_id l = sid"
  by (cases row) (auto simp: taken_lease_def lease_from_taken_row_def lease_from_row_def
      sandbox_session_lease_new_def map_sum_def split: sum.splits if_splits)

lemma acquire_key:
  assumes "run_state (sql_acquire_sandbox_session_lease t sid owner d) v = (Inr (Some l), v')"
  shows "lease_tenant_id l = t \<and> lease_session_id l = sid"
  using assms unfolding sql_acquire_sandbox_session_lease_def
  by (elim try_bind_okE)
    (auto dest!: taken_lease_key [of t sid owner "(_, _)"] elim!: try_bind_okE
      split: option.splits if_splits prod.splits bool.splits)

section \<open>The contract\<close>

interpretation sql_repository: session_repository_contract "sql_port p collate" "\<lambda>_. True" for p collate
  by unfold_locales (auto simp: keeps_def sql_port_def dest: read_valid acquire_key)

text \<open>The repository and the providers each act on their own part of the world.\<close>

definition on_database :: "(sql_server, 'a) state \<Rightarrow> (sql_server \<times> 'p, 'a) state" where
  "on_database m = State (\<lambda>(v, s). case run_state m v of (r, v') \<Rightarrow> (r, (v', s)))"

definition beside_database :: "('p, 'a) state \<Rightarrow> (sql_server \<times> 'p, 'a) state" where
  "beside_database m = State (\<lambda>(v, s). case run_state m s of (r, s') \<Rightarrow> (r, (v, s')))"

definition database_port :: "allocation_protector \<Rightarrow> (string \<Rightarrow> string) \<Rightarrow> (sql_server \<times> 'p) session_repository_port" where
  "database_port p collate = (let port = sql_port p collate in \<lparr>
     repo_find = (\<lambda>t oid. on_database (repo_find port t oid)),
     repo_get = (\<lambda>t sid. on_database (repo_get port t sid)),
     repo_insert = (\<lambda>s. on_database (repo_insert port s)),
     repo_save = (\<lambda>s v l. on_database (repo_save port s v l)),
     repo_acquire = (\<lambda>t sid owner d. on_database (repo_acquire port t sid owner d)),
     repo_renew = (\<lambda>l d. on_database (repo_renew port l d)),
     repo_release = (\<lambda>l. on_database (repo_release port l)),
     repo_list = (\<lambda>t after n. on_database (repo_list port t after n)) \<rparr>)"

definition database_provider :: "'p sandbox_provider \<Rightarrow> (sql_server \<times> 'p) sandbox_provider" where
  "database_provider p = \<lparr> provider_descriptor = provider_descriptor p,
     provider_health = beside_database (provider_health p),
     provider_allocate = (\<lambda>q. beside_database (provider_allocate p q)),
     provider_start = (\<lambda>q. beside_database (provider_start p q)),
     provider_stop = (\<lambda>q. beside_database (provider_stop p q)),
     provider_destroy = (\<lambda>q. beside_database (provider_destroy p q)) \<rparr>"

definition sql_service ::
  "allocation_protector \<Rightarrow> (string \<Rightarrow> string) \<Rightarrow> 'p sandbox_provider list \<Rightarrow> sandbox_lease_owner_id \<Rightarrow> nat \<Rightarrow> nat
     \<Rightarrow> ('p, sandbox_id) state \<Rightarrow> ('p, sandbox_runtime_binding_id) state
     \<Rightarrow> (sql_server \<times> 'p) lifecycle_service" where
  "sql_service p collate ps owner d timeout gs gb = \<lparr>
     service_repository = database_port p collate, service_providers = map database_provider ps,
     service_lease_owner = owner, service_lease_duration = d, service_provider_timeout = timeout,
     service_generate_sandbox_id = beside_database gs, service_generate_binding_id = beside_database gb \<rparr>"

lemma on_database_keeps:
  "keeps (\<lambda>_. True) m P \<Longrightarrow> keeps (\<lambda>_. True) (on_database m) P"
  by (auto simp: keeps_def on_database_def split: prod.splits)

interpretation database: session_repository_contract "database_port p collate" "\<lambda>_. True" for p collate
  by unfold_locales
    (use sql_repository.session_repository_contract_axioms [of p collate, unfolded session_repository_contract_def] in
      \<open>auto simp: database_port_def Let_def intro!: on_database_keeps\<close>)

interpretation sql_service: service_contract "sql_service p collate ps owner d timeout gs gb" "\<lambda>_. True"
  for p collate ps owner d timeout gs gb
proof (rule service_contract.intro)
  show "session_repository_contract
      (service_repository (sql_service p collate ps owner d timeout gs gb)) (\<lambda>_. True)"
    using database.session_repository_contract_axioms by (simp add: sql_service_def)
  show "service_contract_axioms (sql_service p collate ps owner d timeout gs gb) (\<lambda>_. True)"
    by (rule service_contract_axioms.intro) (simp_all add: provider_keeps_def keeps_def)
qed

end
