(* ===== verification/Sql_Sweep.thy ===== *)
theory Sql_Sweep
  imports Sql_Loading
begin

text \<open>
  The re-encryption sweep on a database nobody else writes to, with a protector that does not change: it
  ends after one pass, every row of the tenant is then on the current key, and every reference opens to
  what it opened to before.
\<close>

section \<open>The rows of a sweep\<close>

definition stale :: "protection_version \<Rightarrow> string \<Rightarrow> binding_row \<Rightarrow> bool" where
  "stale version t r \<longleftrightarrow> bound_tenant r = t
     \<and> needs_reencryption (version_key_id version) (int (unat (version_key_version version)))
         (int (unat (version_crypto_version version))) r"

definition row_context :: "binding_row \<Rightarrow> protection_context" where
  "row_context r = protection_context_for_repository (bound_tenant r) (bound_session r) (bound_binding r)"

text \<open>The row of a binding with its reference moved to the current key.\<close>

definition moved :: "allocation_protector \<Rightarrow> binding_row \<Rightarrow> binding_row" where
  "moved p r =
     (case parse_reencryption_candidate (bound_tenant r) r of
        Inl _ \<Rightarrow> r
      | Inr cand \<Rightarrow>
          (case reencrypt_reference p (row_context r) (candidate_protected cand) of
             Inl _ \<Rightarrow> r | Inr q \<Rightarrow> put_protected q r))"

text \<open>A stored row that is well-formed and that the protector can move.\<close>

definition sweepable :: "allocation_protector \<Rightarrow> protection_version \<Rightarrow> binding_row \<Rightarrow> bool" where
  "sweepable p version r \<longleftrightarrow>
     stored_id_ok (bound_session r) \<and> stored_id_ok (bound_binding r)
     \<and> (\<exists>q q'. holds_protected q r \<and> protected_ok q \<and> reencrypt_reference p (row_context r) q = Inr q'
          \<and> matches_sandbox_protected_allocation_reference version q' \<and> protected_ok q'
          \<and> binding_checks (put_protected q' r)
          \<and> restore_reference p (row_context r) q' = restore_reference p (row_context r) q)"

definition candidate_of :: "protected_allocation_ref \<Rightarrow> binding_row \<Rightarrow> reencryption_candidate" where
  "candidate_of q r = \<lparr> candidate_session = bound_session r, candidate_binding = bound_binding r,
     candidate_protected = q \<rparr>"

lemma parse_candidate:
  assumes "stored_id_ok (bound_session r)" "stored_id_ok (bound_binding r)" "holds_protected q r" "protected_ok q"
  shows "parse_reencryption_candidate (bound_tenant r) r = Inr (candidate_of q r)"
  using assms(1,2) parse_held_columns [OF assms(3,4)]
  by (simp add: parse_reencryption_candidate_def stored_id_okD candidate_of_def)

lemma sweepableE:
  assumes "sweepable p version r"
  obtains q q' where "parse_reencryption_candidate (bound_tenant r) r = Inr (candidate_of q r)"
    "holds_protected q r" "protected_ok q" "reencrypt_reference p (row_context r) q = Inr q'"
    "matches_sandbox_protected_allocation_reference version q'" "protected_ok q'"
    "binding_checks (put_protected q' r)" "moved p r = put_protected q' r"
    "restore_reference p (row_context r) q' = restore_reference p (row_context r) q"
proof -
  from assms obtain q q' where q: "stored_id_ok (bound_session r)" "stored_id_ok (bound_binding r)"
    "holds_protected q r" "protected_ok q" "reencrypt_reference p (row_context r) q = Inr q'"
    "matches_sandbox_protected_allocation_reference version q'" "protected_ok q'"
    "binding_checks (put_protected q' r)"
    "restore_reference p (row_context r) q' = restore_reference p (row_context r) q"
    unfolding sweepable_def by blast
  have c: "parse_reencryption_candidate (bound_tenant r) r = Inr (candidate_of q r)"
    by (rule parse_candidate [OF q(1-4)])
  have "moved p r = put_protected q' r"
    using c q(5) by (simp add: moved_def) (simp add: candidate_of_def)
  then show thesis using that c q(3-9) by blast
qed

lemma put_protected_same [simp]:
  "bound_tenant (put_protected q r) = bound_tenant r" "bound_session (put_protected q r) = bound_session r"
  "bound_binding (put_protected q r) = bound_binding r"
  by (simp_all add: put_protected_def)

lemma moved_same [simp]:
  "bound_tenant (moved p r) = bound_tenant r" "bound_session (moved p r) = bound_session r"
  "bound_binding (moved p r) = bound_binding r"
  by (simp_all add: moved_def split: sum.split)

lemma moved_current:
  assumes "sweepable p version r"
  shows "\<not> stale version t (moved p r)"
proof -
  obtain q q' where "moved p r = put_protected q' r" "matches_sandbox_protected_allocation_reference version q'"
    by (rule sweepableE [OF assms])
  then show ?thesis
    by (simp add: stale_def needs_reencryption_def put_protected_def matches_sandbox_protected_allocation_reference_def)
qed

lemma protected_ok_ranges:
  assumes "protected_ok q"
  shows "i64_from_u64 (protected_key_version q) e = Inr (int (unat (protected_key_version q)))"
    "i16_from_u16 (protected_crypto_version q) e = Inr (int (unat (protected_crypto_version q)))"
proof -
  have "protection_versions_in_range (protected_key_version q) (protected_crypto_version q)"
    using assms by (auto simp: protected_ok_def protected_allocation_ref_new_def split: if_splits)
  then show "i64_from_u64 (protected_key_version q) e = Inr (int (unat (protected_key_version q)))"
    "i16_from_u16 (protected_crypto_version q) e = Inr (int (unat (protected_crypto_version q)))"
    by (auto simp: protection_versions_in_range_def i64_from_u64_def i16_from_u16_def)
qed

section \<open>One row\<close>

definition quiet_server :: "sql_server \<Rightarrow> bool" where
  "quiet_server v \<longleftrightarrow> server_rivals v = [] \<and> server_faults v = []"

definition with_bindings :: "binding_row list \<Rightarrow> sql_server \<Rightarrow> sql_server" where
  "with_bindings rows v = v\<lparr> server_tables := (server_tables v)\<lparr> binding_rows := rows \<rparr> \<rparr>"

lemma with_bindings_simps [simp]:
  "binding_rows (server_tables (with_bindings rows v)) = rows"
  "quiet_server (with_bindings rows v) = quiet_server v"
  "with_bindings rows (with_bindings rows' v) = with_bindings rows v"
  "with_bindings (binding_rows (server_tables v)) v = v"
  by (simp_all add: with_bindings_def quiet_server_def)

lemma single_quiet:
  assumes "quiet_server v"
  shows "run_state (single_statement f) v = run_statement f v"
  using assms by (simp add: quiet_server_def single_statement_def take_fault_def)

lemma with_protector_bind:
  "run_state (try_bind (with_protector ps f) k) v =
     (case f (ps (server_clock v)) of Inl e \<Rightarrow> (Inl e, v) | Inr x \<Rightarrow> run_state (k x) v)"
  by (simp add: try_bind_run with_protector_def split: sum.split)

lemma filter_only:
  assumes "distinct xs" "r \<in> set xs" "\<And>x. x \<in> set xs \<Longrightarrow> hit x \<longleftrightarrow> x = r"
  shows "filter hit xs = [r]"
proof -
  have "filter hit xs = filter (\<lambda>x. x = r) xs" by (rule filter_cong [OF refl]) (rule assms(3))
  also have "\<dots> = [r]" using assms(1,2) by (induction xs) (auto simp: filter_empty_conv)
  finally show ?thesis .
qed

lemma replace_one:
  assumes keys: "distinct (map binding_key (binding_rows tb))" and r: "r \<in> set (binding_rows tb)"
    and q: "holds_protected q r" "binding_checks (put_protected q' r)"
  shows "replace_protected (bound_tenant r) (candidate_of q r) q' now tb
    = Inr (1, tb\<lparr> binding_rows := map (\<lambda>x. if x = r then put_protected q' r else x) (binding_rows tb) \<rparr>)"
proof -
  let ?hit = "\<lambda>x. binding_key x = (bound_tenant r, candidate_binding (candidate_of q r))
    \<and> bound_session x = candidate_session (candidate_of q r) \<and> holds_protected (candidate_protected (candidate_of q r)) x"
  have d: "distinct (binding_rows tb)" using keys by (simp add: distinct_map)
  have hit: "?hit x \<longleftrightarrow> x = r" if x: "x \<in> set (binding_rows tb)" for x
  proof
    assume "?hit x"
    then have "binding_key x = binding_key r" by (simp add: candidate_of_def)
    then show "x = r" using keys x r by (auto simp: distinct_map dest: inj_onD)
  next
    assume "x = r"
    then show "?hit x" using q(1) by (simp add: candidate_of_def)
  qed
  have f: "filter ?hit (binding_rows tb) = [r]" by (rule filter_only [OF d r hit])
  have u: "update_rows ?hit (put_protected q') (binding_rows tb)
      = map (\<lambda>x. if x = r then put_protected q' r else x) (binding_rows tb)"
    unfolding update_rows_def
  proof (rule map_cong [OF refl])
    fix x assume "x \<in> set (binding_rows tb)"
    from hit [OF this] show "(if ?hit x then put_protected q' x else x) = (if x = r then put_protected q' r else x)"
      by (cases "x = r") (simp_all only: if_True if_False)
  qed
  show ?thesis
    unfolding replace_protected_def Let_def f u using q(2) by simp
qed

text \<open>The loop over the candidates moves their rows and counts each of them.\<close>

lemma candidates_moved:
  assumes "quiet_server v" "distinct (map binding_key (binding_rows (server_tables v)))"
    and "distinct L" "set L \<subseteq> set (binding_rows (server_tables v))"
    and "\<And>r. r \<in> set L \<Longrightarrow> sweepable p version r \<and> stale version t r"
    and "list_all2 (\<lambda>r cand. parse_reencryption_candidate t r = Inr cand) L cands"
  shows "run_state (reencrypt_candidates (\<lambda>_. p) t version cands n k) v
    = (Inr (n + length L, k), with_bindings (map (\<lambda>r. if r \<in> set L then moved p r else r)
        (binding_rows (server_tables v))) v)"
  using assms
proof (induction L arbitrary: cands n v)
  case Nil
  then show ?case by simp
next
  case (Cons r L)
  let ?rows = "binding_rows (server_tables v)"
  have t: "bound_tenant r = t" using Cons.prems(5) [of r] by (simp add: stale_def)
  have rr: "r \<in> set ?rows" using Cons.prems(4) by simp
  obtain q q' where q: "parse_reencryption_candidate (bound_tenant r) r = Inr (candidate_of q r)"
    "holds_protected q r" "protected_ok q" "reencrypt_reference p (row_context r) q = Inr q'"
    "matches_sandbox_protected_allocation_reference version q'" "protected_ok q'"
    "binding_checks (put_protected q' r)" "moved p r = put_protected q' r"
    using sweepableE Cons.prems(5) [of r] by (metis list.set_intros(1))
  obtain cs where cands: "cands = candidate_of q r # cs"
    "list_all2 (\<lambda>r cand. parse_reencryption_candidate t r = Inr cand) L cs"
    using Cons.prems(6) q(1) t by (auto simp: list_all2_Cons1)
  let ?f = "\<lambda>x. if x = r then moved p r else x"
  let ?v = "with_bindings (map ?f ?rows) v"
  have one: "run_state (single_statement (replace_protected t (candidate_of q r) q')) v = (Inr 1, ?v)"
    unfolding single_quiet [OF Cons.prems(1)] run_statement_def
      replace_one [OF Cons.prems(2) rr q(2,7), unfolded t] q(8) by (simp add: with_bindings_def)
  have ctx: "protection_context_for_repository t (candidate_session (candidate_of q r)) (candidate_binding (candidate_of q r))
      = row_context r"
    using t by (simp add: row_context_def candidate_of_def)
  have prot: "candidate_protected (candidate_of q r) = q" by (simp add: candidate_of_def)
  have step: "run_state (reencrypt_candidates (\<lambda>_. p) t version cands n k) v
      = run_state (reencrypt_candidates (\<lambda>_. p) t version cs (Suc n) k) ?v"
    unfolding cands(1) reencrypt_candidates.simps with_protector_bind ctx prot q(4) sum.case
    by (simp add: try_bind_run ensure_sandbox_reencryption_target_def q(5) protected_ok_ranges [OF q(6)]
        protected_ok_ranges [OF q(3)] one)
  have key: "binding_key (?f x) = binding_key x" for x by simp
  have keys: "distinct (map binding_key (map ?f ?rows))"
    using Cons.prems(2) unfolding map_map comp_def key .
  have new: "moved p r \<notin> set L"
    using moved_current Cons.prems(5) [of r] Cons.prems(5) [of "moved p r"] by auto
  have rest: "run_state (reencrypt_candidates (\<lambda>_. p) t version cs (Suc n) k) ?v
      = (Inr (Suc n + length L, k), with_bindings (map (\<lambda>r. if r \<in> set L then moved p r else r) (map ?f ?rows)) ?v)"
    using Cons.IH [of ?v cs "Suc n"] Cons.prems keys cands(2) by auto
  have m: "map (\<lambda>r. if r \<in> set L then moved p r else r) (map ?f ?rows)
      = map (\<lambda>x. if x \<in> set (r # L) then moved p x else x) ?rows"
    using new Cons.prems(3) by auto
  show ?case unfolding step rest m by simp
qed

section \<open>One page\<close>

definition stale_rows :: "(string \<Rightarrow> string) \<Rightarrow> protection_version \<Rightarrow> string \<Rightarrow> binding_row list \<Rightarrow> binding_row list" where
  "stale_rows collate version t rows = sort_key (\<lambda>r. collate (bound_binding r)) (filter (stale version t) rows)"

definition beyond :: "(string \<Rightarrow> string) \<Rightarrow> string option \<Rightarrow> binding_row list \<Rightarrow> bool" where
  "beyond collate after rows \<longleftrightarrow>
     (\<forall>r\<in>set rows. case after of None \<Rightarrow> True | Some a \<Rightarrow> collate a < collate (bound_binding r))"

text \<open>What the sweep needs of the tenant's rows and of the protector.\<close>

definition ready_to_sweep ::
  "allocation_protector \<Rightarrow> (string \<Rightarrow> string) \<Rightarrow> protection_version \<Rightarrow> string \<Rightarrow> binding_row list \<Rightarrow> bool" where
  "ready_to_sweep p collate version t rows \<longleftrightarrow>
     current_protection_version p = Inr version
     \<and> protection_versions_in_range (version_key_version version) (version_crypto_version version)
     \<and> inj collate \<and> distinct (map binding_key rows)
     \<and> (\<forall>r\<in>set rows. stale version t r \<longrightarrow> sweepable p version r)"

definition swept :: "allocation_protector \<Rightarrow> protection_version \<Rightarrow> string \<Rightarrow> binding_row list \<Rightarrow> binding_row list" where
  "swept p version t rows = map (\<lambda>r. if stale version t r then moved p r else r) rows"

lemma stale_rows_set [simp]: "set (stale_rows collate version t rows) = {r \<in> set rows. stale version t r}"
  by (auto simp: stale_rows_def)

lemma stale_rows_sorted: "sorted (map (\<lambda>r. collate (bound_binding r)) (stale_rows collate version t rows))"
  by (simp add: stale_rows_def)

lemma stale_rows_distinct: "distinct (map binding_key rows) \<Longrightarrow> distinct (stale_rows collate version t rows)"
  by (simp add: stale_rows_def distinct_map)

lemma ready_page:
  assumes ready: "ready_to_sweep p collate version t rows"
    and moved: "rows' = map (\<lambda>r. if r \<in> set L then moved p r else r) rows"
    and L: "L = take n (stale_rows collate version t rows)"
  shows "ready_to_sweep p collate version t rows'"
    and "stale_rows collate version t rows' = drop n (stale_rows collate version t rows)"
    and "swept p version t rows' = swept p version t rows"
proof -
  have sub: "r \<in> set rows \<and> stale version t r" if "r \<in> set L" for r
    using that unfolding L by (auto dest: in_set_takeD)
  then have current: "\<not> stale version t (moved p r)" if "r \<in> set L" for r
    using that ready moved_current unfolding ready_to_sweep_def by blast
  let ?f = "\<lambda>r. if r \<in> set L then moved p r else r"
  have key: "binding_key (?f x) = binding_key x" for x by simp
  have "map binding_key rows' = map binding_key rows" unfolding moved map_map comp_def key ..
  moreover have "sweepable p version r" if "r \<in> set rows'" "stale version t r" for r
    using that current ready unfolding moved ready_to_sweep_def by (auto split: if_splits)
  ultimately show "ready_to_sweep p collate version t rows'"
    using ready unfolding ready_to_sweep_def by simp
  have f: "filter (stale version t) rows' = filter (\<lambda>r. r \<notin> set L) (filter (stale version t) rows)"
    unfolding moved using current by (induction rows) auto
  have d: "distinct (stale_rows collate version t rows)"
    by (rule stale_rows_distinct) (use ready in \<open>simp add: ready_to_sweep_def\<close>)
  have "stale_rows collate version t rows' = filter (\<lambda>r. r \<notin> set L) (stale_rows collate version t rows)"
    by (simp add: stale_rows_def f filter_sort)
  also have "\<dots> = drop n (stale_rows collate version t rows)"
  proof -
    let ?S = "stale_rows collate version t rows"
    have "set L \<inter> set (drop n ?S) = {}" unfolding L by (rule set_take_disj_set_drop_if_distinct [OF d]) simp
    then have "filter (\<lambda>r. r \<notin> set L) (L @ drop n ?S) = drop n ?S"
      by (auto simp: filter_empty_conv filter_id_conv)
    then show ?thesis by (simp add: L)
  qed
  finally show "stale_rows collate version t rows' = drop n (stale_rows collate version t rows)" .
  show "swept p version t rows' = swept p version t rows"
    unfolding swept_def moved using current sub by auto
qed

lemma page_swept:
  assumes quiet: "quiet_server v" and ready: "ready_to_sweep p collate version t (binding_rows (server_tables v))"
    and n: "1 \<le> n" "n \<le> max_sandbox_reencryption_page_size"
    and after: "beyond collate after (stale_rows collate version t (binding_rows (server_tables v)))"
  defines "S \<equiv> stale_rows collate version t (binding_rows (server_tables v))"
  shows "run_state (reencrypt_page (\<lambda>_. p) collate t after n) v
    = (Inr \<lparr> page_scanned = length (take n S), page_reencrypted = length (take n S), page_conflicts = 0,
         page_next = (if length S > n then Some (bound_binding (last (take n S))) else None) \<rparr>,
       with_bindings (map (\<lambda>r. if r \<in> set (take n S) then moved p r else r) (binding_rows (server_tables v))) v)"
proof -
  let ?rows = "binding_rows (server_tables v)" and ?L = "take n S"
  let ?kv = "int (unat (version_key_version version))" and ?cv = "int (unat (version_crypto_version version))"
  have version: "current_protection_version p = Inr version"
    and range: "i64_from_u64 (version_key_version version) ProtectionFailed = Inr ?kv"
      "i16_from_u16 (version_crypto_version version) ProtectionFailed = Inr ?cv"
    using ready by (auto simp: ready_to_sweep_def protection_versions_in_range_def i64_from_u64_def i16_from_u16_def)
  have "filter (\<lambda>r. bound_tenant r = t \<and> needs_reencryption (version_key_id version) ?kv ?cv r
      \<and> (case after of None \<Rightarrow> True | Some a \<Rightarrow> collate a < collate (bound_binding r))) ?rows
    = filter (stale version t) ?rows"
    by (rule filter_cong [OF refl]) (use after in \<open>auto simp: beyond_def stale_def\<close>)
  then have select: "select_reencryption_candidates collate t (version_key_id version) ?kv ?cv after (n + 1)
      (server_clock v) (server_tables v) = Inr (take (n + 1) S, server_tables v)"
    by (simp add: select_reencryption_candidates_def S_def stale_rows_def)
  have L: "r \<in> set ?rows \<and> stale version t r \<and> sweepable p version r" if "r \<in> set ?L" for r
    using that ready unfolding S_def ready_to_sweep_def by (auto dest: in_set_takeD)
  define cand where "cand r = (case parse_reencryption_candidate t r of Inr c \<Rightarrow> c | Inl _ \<Rightarrow> undefined)" for r
  have parse: "parse_reencryption_candidate t r = Inr (cand r) \<and> candidate_binding (cand r) = bound_binding r"
    if r: "r \<in> set ?L" for r
  proof -
    obtain q where "parse_reencryption_candidate (bound_tenant r) r = Inr (candidate_of q r)"
      using sweepableE L [OF r] by metis
    moreover have "bound_tenant r = t" using L [OF r] by (simp add: stale_def)
    ultimately show ?thesis by (simp add: cand_def candidate_of_def)
  qed
  have cands: "map_results (parse_reencryption_candidate t) ?L = Inr (map cand ?L)"
    by (rule map_results_Inr) (use parse in blast)
  have loop: "run_state (reencrypt_candidates (\<lambda>_. p) t version (map cand ?L) 0 0) v
      = (Inr (0 + length ?L, 0), with_bindings (map (\<lambda>r. if r \<in> set ?L then moved p r else r) ?rows) v)"
  proof (rule candidates_moved [OF quiet])
    show "distinct (map binding_key ?rows)" using ready by (simp add: ready_to_sweep_def)
    then show "distinct ?L" unfolding S_def by (intro distinct_take stale_rows_distinct)
    show "list_all2 (\<lambda>r c. parse_reencryption_candidate t r = Inr c) ?L (map cand ?L)"
      unfolding list.rel_map by (rule list.rel_refl_strong) (use parse in blast)
  qed (use L in blast)+
  have last: "candidate_binding (last (map cand ?L)) = bound_binding (last ?L)" if "S \<noteq> []"
  proof -
    have "?L \<noteq> []" using that n(1) by simp
    then show ?thesis using parse [of "last ?L"] by (simp add: last_map)
  qed
  have take: "take n (take (n + 1) S) = ?L" by (simp add: min_def)
  have more: "n < length (take (Suc n) S) \<longleftrightarrow> n < length S" by simp
  have guard: "\<not> \<not> (1 \<le> n \<and> n \<le> max_sandbox_reencryption_page_size)" using n by simp
  have "run_state (reencrypt_page (\<lambda>_. p) collate t after n) v
      = (Inr \<lparr> page_scanned = length (map cand ?L), page_reencrypted = length ?L, page_conflicts = 0,
           page_next = (if length S > n \<and> map cand ?L \<noteq> [] then Some (candidate_binding (last (map cand ?L))) else None) \<rparr>,
         with_bindings (map (\<lambda>r. if r \<in> set ?L then moved p r else r) ?rows) v)"
    unfolding reencrypt_page_def if_not_P [OF guard] with_protector_bind version sum.case
    by (simp add: try_bind_run range single_quiet [OF quiet] run_statement_def select [simplified] take more cands loop
        del: length_take)
  moreover have "length S > n \<Longrightarrow> S \<noteq> [] \<and> map cand ?L \<noteq> []" using n(1) by auto
  ultimately show ?thesis using last by auto
qed

section \<open>One pass\<close>

lemma sorted_drop_beyond:
  assumes "sorted (map f xs)" "distinct (map f xs)" "xs \<noteq> []" "1 \<le> n" "x \<in> set (drop n xs)"
  shows "f (last (take n xs)) < f (x :: 'a)"
proof -
  obtain i where i: "i < length (drop n xs)" "x = drop n xs ! i" using assms(5) by (metis in_set_conv_nth)
  then have len: "n + i < length xs" and x: "x = xs ! (n + i)" by simp_all
  have last: "last (take n xs) = xs ! (n - 1)" using assms(3,4) len by (simp add: last_conv_nth)
  have "f (xs ! (n - 1)) \<le> f (xs ! (n + i))"
    using assms(1) len sorted_nth_mono [of "map f xs" "n - 1" "n + i"] by simp
  moreover have "f (xs ! (n - 1)) \<noteq> f (xs ! (n + i))"
    using assms(2,4) len by (auto simp: distinct_conv_nth)
  ultimately show ?thesis using last x by simp
qed

lemma stale_collate_distinct:
  assumes "inj collate" "distinct (map binding_key rows)"
  shows "distinct (map (\<lambda>r. collate (bound_binding r)) (stale_rows collate version t rows))"
proof -
  have "inj_on (\<lambda>r. collate (bound_binding r)) {r \<in> set rows. stale version t r}"
    using assms by (auto simp: inj_on_def distinct_map stale_def)
  then show ?thesis using stale_rows_distinct [OF assms(2)] by (simp add: distinct_map)
qed

lemma swept_idle: "stale_rows collate version t rows = [] \<Longrightarrow> swept p version t rows = rows"
  unfolding swept_def by (rule map_idI) (metis (mono_tags, lifting) empty_iff list.set(1) mem_Collect_eq stale_rows_set)

lemma pass_swept:
  assumes "quiet_server v" "ready_to_sweep p collate version t (binding_rows (server_tables v))"
    and "1 \<le> n" "n \<le> max_sandbox_reencryption_page_size"
    and "beyond collate after (stale_rows collate version t (binding_rows (server_tables v)))"
  shows "\<exists>acc'. reencrypt_pass (\<lambda>_. p) collate t n after acc v
      = Some (Inr acc', with_bindings (swept p version t (binding_rows (server_tables v))) v)
    \<and> pass_conflicts acc' = pass_conflicts acc
    \<and> total_reencrypted acc' = total_reencrypted acc
        + length (stale_rows collate version t (binding_rows (server_tables v)))"
  using assms
proof (induction "length (stale_rows collate version t (binding_rows (server_tables v)))"
    arbitrary: v after acc rule: less_induct)
  case less
  let ?rows = "binding_rows (server_tables v)"
  let ?S = "stale_rows collate version t ?rows"
  let ?rows' = "map (\<lambda>r. if r \<in> set (take n ?S) then moved p r else r) ?rows"
  let ?v = "with_bindings ?rows' v"
  let ?page = "\<lparr> page_scanned = length (take n ?S), page_reencrypted = length (take n ?S), page_conflicts = 0,
         page_next = (if length ?S > n then Some (bound_binding (last (take n ?S))) else None) \<rparr>"
  note page = page_swept [OF less.prems]
  note ready = ready_page [OF less.prems(2) refl refl, of n]
  show ?case
  proof (cases "length ?S > n")
    case False
    then have "stale_rows collate version t ?rows' = []" using ready(2) by simp
    then have "?rows' = swept p version t ?rows" using swept_idle ready(3) by metis
    then have "reencrypt_pass (\<lambda>_. p) collate t n after acc v
        = Some (Inr (add_page ?page acc), with_bindings (swept p version t ?rows) v)"
      using False by (simp add: reencrypt_pass.simps [of _ _ _ _ after] page)
    moreover have "length (take n ?S) = length ?S" using False by simp
    ultimately show ?thesis by (auto simp: add_page_def)
  next
    case True
    let ?c = "Some (bound_binding (last (take n ?S)))"
    have run: "reencrypt_pass (\<lambda>_. p) collate t n after acc v
        = reencrypt_pass (\<lambda>_. p) collate t n ?c (add_page ?page acc) ?v"
      using True by (simp add: reencrypt_pass.simps [of _ _ _ _ after] page)
    have ne: "?S \<noteq> []" using True by auto
    have keys: "inj collate" "distinct (map binding_key ?rows)"
      using less.prems(2) by (simp_all add: ready_to_sweep_def)
    have "beyond collate ?c (drop n ?S)"
      unfolding beyond_def option.case
      by (intro ballI sorted_drop_beyond [OF stale_rows_sorted stale_collate_distinct [OF keys] ne less.prems(3)])
    then have b: "beyond collate ?c (stale_rows collate version t (binding_rows (server_tables ?v)))"
      using ready(2) by simp
    have small: "length (stale_rows collate version t (binding_rows (server_tables ?v))) < length ?S"
      using ready(2) less.prems(3) True by simp
    have "\<exists>acc'. reencrypt_pass (\<lambda>_. p) collate t n ?c (add_page ?page acc) ?v
        = Some (Inr acc', with_bindings (swept p version t (binding_rows (server_tables ?v))) ?v)
      \<and> pass_conflicts acc' = pass_conflicts (add_page ?page acc)
      \<and> total_reencrypted acc' = total_reencrypted (add_page ?page acc)
          + length (stale_rows collate version t (binding_rows (server_tables ?v)))"
      by (rule less.hyps [OF small _ _ less.prems(3,4) b]) (use less.prems(1) ready(1) in simp_all)
    then show ?thesis
      unfolding run using ready(2,3) True by (simp add: add_page_def)
  qed
qed

lemma settled_swept:
  assumes "quiet_server v" "ready_to_sweep p collate version t (binding_rows (server_tables v))"
    and "1 \<le> n" "n \<le> max_sandbox_reencryption_page_size"
  shows "\<exists>st. reencrypt_until_settled (\<lambda>_. p) collate t n v
      = Some (Inr st, with_bindings (swept p version t (binding_rows (server_tables v))) v)
    \<and> settlement_passes st = 1
    \<and> settlement_reencrypted st = length (filter (stale version t) (binding_rows (server_tables v)))"
proof -
  let ?zero = "\<lparr> total_scanned = 0, total_reencrypted = 0, pass_conflicts = 0 \<rparr>"
  have "beyond collate None (stale_rows collate version t (binding_rows (server_tables v)))"
    by (simp add: beyond_def)
  from pass_swept [OF assms this, of "?zero\<lparr> pass_conflicts := 0 \<rparr>"] obtain acc where
    acc: "reencrypt_pass (\<lambda>_. p) collate t n None (?zero\<lparr> pass_conflicts := 0 \<rparr>) v
      = Some (Inr acc, with_bindings (swept p version t (binding_rows (server_tables v))) v)"
    "pass_conflicts acc = 0"
    "total_reencrypted acc = length (stale_rows collate version t (binding_rows (server_tables v)))"
    by auto
  have passes: "max_sandbox_reencryption_settle_passes = Suc 7" by (simp add: max_sandbox_reencryption_settle_passes_def)
  show ?thesis
    unfolding reencrypt_until_settled_def passes reencrypt_passes.simps acc(1)
    using assms(3,4) acc(2,3) by (simp add: stale_rows_def)
qed

section \<open>What the sweep leaves\<close>

lemma swept_current:
  assumes "ready_to_sweep p collate version t rows" "r \<in> set (swept p version t rows)" "bound_tenant r = t"
    and "bound_ciphertext r = Some c"
  shows "bound_key_id r = Some (version_key_id version)
    \<and> bound_key_version r = Some (int (unat (version_key_version version)))
    \<and> bound_crypto_version r = Some (int (unat (version_crypto_version version)))"
proof -
  have "\<not> stale version t r"
    using assms(1,2) moved_current unfolding swept_def ready_to_sweep_def by (auto split: if_splits)
  then show ?thesis using assms(3,4) by (auto simp: stale_def needs_reencryption_def)
qed

text \<open>What a row's reference opens to.\<close>

definition row_plaintext :: "allocation_protector \<Rightarrow> binding_row \<Rightarrow> sandbox_allocation_ref option repository_result" where
  "row_plaintext p r =
     and_then (parse_protected_columns (bound_ciphertext r) (bound_key_id r) (bound_key_version r)
         (bound_crypto_version r))
       (\<lambda>q. case q of None \<Rightarrow> Inr None | Some q' \<Rightarrow> map_sum id Some (restore_reference p (row_context r) q'))"

lemma row_plaintext_held:
  "holds_protected q r \<Longrightarrow> protected_ok q \<Longrightarrow>
     row_plaintext p r = map_sum id Some (restore_reference p (row_context r) q)"
  by (simp add: row_plaintext_def parse_held_columns)

lemma moved_plaintext:
  assumes "sweepable p version r"
  shows "row_plaintext p (moved p r) = row_plaintext p r"
proof -
  obtain q q' where q: "holds_protected q r" "protected_ok q" "protected_ok q'" "moved p r = put_protected q' r"
    "restore_reference p (row_context r) q' = restore_reference p (row_context r) q"
    by (rule sweepableE [OF assms])
  have "holds_protected q' (put_protected q' r)" by (simp add: holds_protected_def put_protected_def)
  moreover have "row_context (put_protected q' r) = row_context r" by (simp add: row_context_def)
  ultimately show ?thesis using q by (simp add: row_plaintext_held)
qed

lemma swept_plaintext:
  assumes "ready_to_sweep p collate version t rows"
  shows "map (row_plaintext p) (swept p version t rows) = map (row_plaintext p) rows"
  using assms moved_plaintext unfolding swept_def ready_to_sweep_def by auto

lemma swept_put:
  assumes "ready_to_sweep p collate version t rows"
  shows "list_all2 (\<lambda>r r'. if stale version t r then \<exists>q. r' = put_protected q r else r' = r) rows (swept p version t rows)"
proof -
  have "\<exists>q. moved p r = put_protected q r" if "r \<in> set rows" "stale version t r" for r
    using that assms sweepableE [of p version r] unfolding ready_to_sweep_def by metis
  then show ?thesis unfolding swept_def list.rel_map by (intro list.rel_refl_strong) auto
qed

section \<open>What the protector can move\<close>

text \<open>
  Encryption succeeds on every allocation reference and gives a text that fits its column. A reference has
  at most 2048 bytes and AES-GCM adds a nonce and a tag, so that its encoding stays far below the limit.
\<close>

definition sealed_text :: "string \<Rightarrow> bool" where
  "sealed_text x \<longleftrightarrow> x \<noteq> [] \<and> length x \<le> 8192 \<and> valid_utf8 x"

definition seals_references :: "cipher \<Rightarrow> bool" where
  "seals_references c \<longleftrightarrow>
     (\<forall>n key a. length key = 32 \<longrightarrow> reference_typed a \<longrightarrow>
        (\<exists>x. encrypt c n key a = Some x \<and> sealed_text x))"

definition allocation_key_ok :: "allocation_key \<Rightarrow> bool" where
  "allocation_key_ok k \<longleftrightarrow>
     allocation_key_new (allocation_key_id k) (allocation_key_version k) (allocation_key_material k) = Inr k"

definition key_protection_version :: "allocation_key \<Rightarrow> protection_version" where
  "key_protection_version k = \<lparr> version_key_id = allocation_key_id k, version_key_version = allocation_key_version k,
     version_crypto_version = allocation_crypto_version \<rparr>"

text \<open>A row as the table's checks admit it, whose reference opens with the key source.\<close>

definition row_opens :: "cipher \<Rightarrow> key_source \<Rightarrow> binding_row \<Rightarrow> bool" where
  "row_opens c ks r \<longleftrightarrow>
     stored_id_ok (bound_session r) \<and> stored_id_ok (bound_binding r) \<and> binding_checks r
     \<and> (\<exists>q a. holds_protected q r \<and> protected_ok q
          \<and> restore_sandbox_allocation_reference c ks (row_context r) q = Inr a)"

lemma valid_utf8_first:
  assumes "valid_utf8 (a # s)"
  shows "\<not> (128 \<le> (of_char a :: nat) \<and> (of_char a :: nat) < 192)"
proof
  assume a: "128 \<le> (of_char a :: nat) \<and> (of_char a :: nat) < 192"
  then have "\<not> utf8_lead2 (of_char a)" "\<And>b. \<not> utf8_lead3 (of_char a) b" "\<And>b. \<not> utf8_lead4 (of_char a) b"
    by (simp_all add: utf8_lead2_def utf8_lead3_def utf8_lead4_def)
  with assms a show False by (simp split: list.splits)
qed

lemma sealed_text_char_length:
  assumes "sealed_text x"
  shows "char_length_between 1 8192 x"
proof -
  have "utf8_length x \<le> length x" by (simp add: utf8_length_def)
  moreover obtain a s where x: "x = a # s" using assms by (cases x) (auto simp: sealed_text_def)
  have "\<not> (128 \<le> (of_char a :: nat) \<and> (of_char a :: nat) < 192)"
    by (rule valid_utf8_first [of a s]) (use assms in \<open>simp add: x sealed_text_def del: valid_utf8.simps\<close>)
  then have "1 \<le> utf8_length x" unfolding x utf8_length_def by simp
  ultimately show ?thesis using assms by (simp add: char_length_between_def sealed_text_def)
qed

lemma allocation_key_okD:
  assumes "allocation_key_ok k"
  shows "is_safe_sandbox_allocation_key_id (allocation_key_id k)"
    "protection_versions_in_range (allocation_key_version k) allocation_crypto_version"
  using assms
  by (auto simp: allocation_key_ok_def allocation_key_new_def is_safe_sandbox_allocation_key_id_def
      protection_versions_in_range_def allocation_crypto_version_def split: if_splits)

lemma ascii_graphic_length:
  assumes "list_all is_ascii_graphic s"
  shows "utf8_length s = length s"
proof -
  have "\<not> (128 \<le> (of_char c :: nat) \<and> (of_char c :: nat) < 192)" if "c \<in> set s" for c
    using assms that by (auto simp: list_all_iff is_ascii_graphic_def)
  then show ?thesis unfolding utf8_length_def by (subst filter_True) auto
qed

lemma protect_succeeds:
  assumes "sound_cipher c" "seals_references c" "current_allocation_key ks = Inr k" "allocation_key_ok k"
    and "reference_typed a"
  shows "\<exists>q. protect_sandbox_allocation_reference c ks seed ctx a = Inr q \<and> sealed_text (protected_ciphertext q)
    \<and> protected_key_id q = allocation_key_id k \<and> protected_key_version q = allocation_key_version k
    \<and> protected_crypto_version q = allocation_crypto_version"
proof -
  have "length (derive_sandbox_allocation_key c k ctx) = 32"
    by (simp add: derive_sandbox_allocation_key_def sound_cipherD(2) [OF assms(1)])
  with assms(2,5) obtain x where "encrypt c seed (derive_sandbox_allocation_key c k ctx) a = Some x" "sealed_text x"
    unfolding seals_references_def by blast
  then show ?thesis
    using assms(3) allocation_key_okD [OF assms(4)]
    by (auto simp: protect_sandbox_allocation_reference_def protected_allocation_ref_new_def sealed_text_def)
qed

lemma row_sweepable:
  assumes c: "sound_cipher c" "seals_references c"
    and k: "current_allocation_key ks = Inr k" "allocation_key_ok k" "key_in_source k ks"
    and r: "row_opens c ks r"
  shows "sweepable (sdkwork_protector c ks seed) (key_protection_version k) r"
proof -
  obtain q a where q: "holds_protected q r" "protected_ok q"
    "restore_sandbox_allocation_reference c ks (row_context r) q = Inr a"
    using r unfolding row_opens_def by blast
  have a: "reference_typed a" by (rule restored_reference_typed [OF q(3)])
  obtain q' where q': "protect_sandbox_allocation_reference c ks seed (row_context r) a = Inr q'"
    "sealed_text (protected_ciphertext q')" "protected_key_id q' = allocation_key_id k"
    "protected_key_version q' = allocation_key_version k" "protected_crypto_version q' = allocation_crypto_version"
    using protect_succeeds [OF c k(1,2) a] by blast
  have opens: "restore_sandbox_allocation_reference c ks (row_context r) q' = Inr a"
    by (rule restore_protected [OF c(1) k(1,3) _ _ q'(1)]) (use a in \<open>auto simp: reference_typed_def\<close>)
  have "binding_checks (put_protected q' r)"
    using r allocation_key_okD [OF k(2)] sealed_text_char_length [OF q'(2)]
    by (auto simp: row_opens_def binding_checks_def put_protected_def q'(3-5) is_safe_sandbox_allocation_key_id_def
        ascii_graphic_length char_length_between_def protection_versions_in_range_def allocation_crypto_version_def
        Suc_le_eq)
  moreover have "reencrypt_sandbox_allocation_reference c ks seed (row_context r) q = Inr q'"
    using q(3) q'(1) by (simp add: reencrypt_sandbox_allocation_reference_def)
  moreover have "matches_sandbox_protected_allocation_reference (key_protection_version k) q'"
    by (simp add: matches_sandbox_protected_allocation_reference_def key_protection_version_def q'(3-5))
  ultimately show ?thesis
    using r q opens protect_protected_ok [OF q'(1)]
    unfolding sweepable_def row_opens_def by (auto simp: sdkwork_protector_def)
qed

lemma sdkwork_ready:
  assumes c: "sound_cipher c" "seals_references c"
    and k: "current_allocation_key ks = Inr k" "allocation_key_ok k" "key_in_source k ks"
    and rows: "inj collate" "distinct (map binding_key rows)"
      "\<And>r. r \<in> set rows \<Longrightarrow> stale (key_protection_version k) t r \<Longrightarrow> row_opens c ks r"
  shows "ready_to_sweep (sdkwork_protector c ks seed) collate (key_protection_version k) t rows"
proof -
  have "current_protection_version (sdkwork_protector c ks seed) = Inr (key_protection_version k)"
    using allocation_key_okD [OF k(2)] k(1)
    by (simp add: sdkwork_protector_def current_sandbox_allocation_protection_version_def protection_version_new_def
        key_protection_version_def)
  moreover have "protection_versions_in_range (version_key_version (key_protection_version k))
      (version_crypto_version (key_protection_version k))"
    using allocation_key_okD(2) [OF k(2)] by (simp add: key_protection_version_def)
  ultimately show ?thesis
    using rows row_sweepable [OF c k] by (simp add: ready_to_sweep_def)
qed

end
