(* ===== verification/Sql_Properties.thy ===== *)
theory Sql_Properties
  imports Sql_Service Sql_Sweep
begin

text \<open>
  What the SQL session repository promises: it refines the in-memory store, its writes are atomic, the
  protection of allocation references opens them for their own context, and the re-encryption sweep settles.
\<close>

section \<open>A concrete deployment\<close>

text \<open>
  A cipher that marks what it seals with the bits of the key, and a derivation that keeps the last 32 bytes
  of the salt; one key.
\<close>

definition toy_header :: "string \<Rightarrow> string" where
  "toy_header k = concat (map (\<lambda>c. map (\<lambda>i. if bit (of_char c :: nat) i then CHR ''1'' else CHR ''0'') [0..<8]) k)"

definition toy_cipher :: cipher where
  "toy_cipher = \<lparr> derive_key = (\<lambda>m s i. take 32 (rev s @ replicate 32 CHR ''0'')),
     encrypt = (\<lambda>n k x. Some (toy_header k @ x)),
     decrypt = (\<lambda>k x. if take (length (toy_header k)) x = toy_header k
       then Some (drop (length (toy_header k)) x) else None) \<rparr>"

lemma toy_header_length [simp]: "length (toy_header k) = 8 * length k"
  by (induction k) (simp_all add: toy_header_def)

lemma toy_cipher_sound: "sound_cipher toy_cipher"
  by (simp add: sound_cipher_def toy_cipher_def min_def)

definition toy_key :: "u64 \<Rightarrow> allocation_key" where
  "toy_key v = \<lparr> allocation_key_id = ''k1'', allocation_key_version = v,
     allocation_key_material = replicate 32 CHR ''m'' \<rparr>"

text \<open>A source with the first two versions of the key, of which one is current.\<close>

definition toy_keys :: "u64 \<Rightarrow> key_source" where
  "toy_keys current = \<lparr> current_allocation_key = Inr (toy_key current),
     source_allocation_key = (\<lambda>k v. if k = ''k1'' \<and> v \<in> {1, 2} then Inr (toy_key v) else Inl ProtectionFailed) \<rparr>"

definition toy_protector :: "u64 \<Rightarrow> allocation_protector" where
  "toy_protector current = sdkwork_protector toy_cipher (toy_keys current) 0"

abbreviation toy_restore where
  "toy_restore \<equiv> opened_with toy_cipher (toy_keys 2)"

lemma toy_protector_faithful: "current \<in> {1, 2} \<Longrightarrow> faithful toy_restore (toy_protector current)"
  unfolding toy_protector_def
  by (rule sdkwork_protector_faithful [OF toy_cipher_sound])
    (auto simp: toy_keys_def key_in_source_def toy_key_def)

definition toy_session :: sandbox_session where
  "toy_session = sandbox_session_create ''t1'' ''w1'' ''s1'' ''op1'' {Terminal} Container"

definition toy_server :: "sql_tables \<Rightarrow> sql_server" where
  "toy_server tb = \<lparr> server_tables = tb, server_clock = 1000, server_faults = [], server_rivals = [] \<rparr>"

lemma toy_insert_ok:
  "fst (run_state (sql_insert_sandbox_session (toy_protector 1) toy_session) (toy_server empty_tables)) = Inr ()"
  by code_simp

lemma toy_storable: "session_storable toy_session"
  by code_simp

section \<open>Refinement\<close>

text \<open>
  C10: whatever transactions and lease statements run against the SQL repository, with whatever
  faults, clocks and protectors that open the same references, the tables always hold a state the
  in-memory store can reach by its own operations, and a session read back is the one that store holds,
  its ledger marked as persisted.
\<close>

theorem sql_repository_refines_memory_store:
  assumes "(sql_step restore)\<^sup>*\<^sup>* empty_system c"
  shows "\<exists>r. repository_step\<^sup>*\<^sup>* empty_repository r \<and> store_related restore (system_tables c) r
    \<and> (\<forall>p t sid v found v'. faithful restore p \<longrightarrow> server_rivals v = [] \<longrightarrow> server_tables v = system_tables c \<longrightarrow>
         run_state (read_sandbox_session p t sid) v = (Inr found, v') \<longrightarrow>
         found = map_option mark_sandbox_operations_persisted (lookup_session t sid r))"
proof -
  obtain r where r: "repository_step\<^sup>*\<^sup>* empty_repository r" "repository_ok r" "system_related restore c r"
    using sql_store.simulated [OF assms] by blast
  then have rel: "store_related restore (system_tables c) r" by (simp add: system_related_def)
  have "found = map_option mark_sandbox_operations_persisted (lookup_session t sid r)"
    if "faithful restore p" "server_rivals v = []" "server_tables v = system_tables c"
      "run_state (read_sandbox_session p t sid) v = (Inr found, v')" for p t sid v found v'
    using read_returns_stored [OF _ r(2) that(1,2,4)] rel that(3) by simp
  then show ?thesis using r(1) rel by blast
qed

lemma toy_system_reachable:
  obtains tb where "(sql_step toy_restore)\<^sup>*\<^sup>* empty_system
      \<lparr> system_tables = tb, system_clients = {mark_sandbox_operations_persisted toy_session} \<rparr>"
proof -
  obtain v' where "run_state (sql_insert_sandbox_session (toy_protector 1) toy_session) (toy_server empty_tables) = (Inr (), v')"
    using toy_insert_ok by (metis prod.collapse)
  from sql_insert [OF toy_protector_faithful toy_storable _ this, of "{}"]
  have "sql_step toy_restore empty_system \<lparr> system_tables = server_tables v',
      system_clients = {mark_sandbox_operations_persisted toy_session} \<rparr>"
    by (simp add: toy_server_def empty_system_def holds_also_def)
  then show thesis using that by blast
qed

theorem sql_repository_refines_memory_store_witness:
  "\<exists>tb r. (sql_step toy_restore)\<^sup>*\<^sup>* empty_system
      \<lparr> system_tables = tb, system_clients = {mark_sandbox_operations_persisted toy_session} \<rparr>
    \<and> store_related toy_restore tb r \<and> repository_step\<^sup>*\<^sup>* empty_repository r"
proof -
  obtain tb where tb: "(sql_step toy_restore)\<^sup>*\<^sup>* empty_system
      \<lparr> system_tables = tb, system_clients = {mark_sandbox_operations_persisted toy_session} \<rparr>"
    by (rule toy_system_reachable)
  obtain r where "repository_step\<^sup>*\<^sup>* empty_repository r" "store_related toy_restore tb r"
    using sql_repository_refines_memory_store [OF tb] by auto
  then show ?thesis using tb by blast
qed

section \<open>Atomic writes\<close>

text \<open>
  Saving a session is atomic. Either the tables are as the other clients left them and the caller gets
  an error, or the whole transaction has taken effect and the caller gets success or
  \<open>RepositoryUnavailable\<close>: no other error is reported for a write that took place.
\<close>

theorem sql_save_atomic:
  assumes "run_state (sql_save_sandbox_session p s expected l) v = (res, v')"
  shows "(\<exists>e. res = Inl e \<and> server_tables v' \<in> {server_tables v, server_tables (others_act v)})
    \<or> (\<exists>snap w w'. snapshot_capture p s = Inr snap \<and> server_tables w = server_tables (others_act v)
        \<and> server_clock w = server_clock (others_act v) \<and> run_state (save_body snap expected l) w = (Inr (), w')
        \<and> server_tables v' = server_tables w' \<and> res \<in> {Inr (), Inl RepositoryUnavailable})"
proof (cases "u64_checked_succ expected = Some (session_version s)")
  case False
  then show ?thesis using assms by (auto simp: sql_save_sandbox_session_def split: option.splits if_splits)
next
  case True
  show ?thesis
  proof (cases "snapshot_capture p s")
    case (Inl e)
    then have "res = Inl e" "v' = v" using assms True by (simp_all add: sql_save_sandbox_session_def try_bind_run)
    then show ?thesis by simp
  next
    case (Inr snap)
    then have body: "run_state (transaction (save_body snap expected l)) v = (res, v')"
      using assms True by (simp add: sql_save_sandbox_session_def try_bind_run)
    show ?thesis by (rule transaction_outcome [OF body]) (use Inr in auto)
  qed
qed

text \<open>An empty store: the save that loses its lease row changes nothing.\<close>

definition toy_lease :: sandbox_session_lease where
  "toy_lease = \<lparr> lease_tenant_id = ''t1'', lease_session_id = ''s1'', lease_owner_id = ''o1'',
     lease_fencing_token = 1, lease_expires_at_unix_millis = 5 \<rparr>"

definition toy_save :: "(unit repository_result \<times> sql_server)" where
  "toy_save = run_state (sql_save_sandbox_session (toy_protector 1) (toy_session\<lparr> session_version := 2 \<rparr>) 1 toy_lease)
     (toy_server empty_tables)"

lemma toy_save_refused: "fst toy_save = Inl LeaseConflict"
  by code_simp

theorem sql_save_atomic_witness:
  "server_tables (snd toy_save) = empty_tables"
proof -
  have "run_state (sql_save_sandbox_session (toy_protector 1) (toy_session\<lparr> session_version := 2 \<rparr>) 1 toy_lease)
      (toy_server empty_tables) = (Inl LeaseConflict, snd toy_save)"
    using toy_save_refused unfolding toy_save_def by (metis prod.collapse)
  from sql_save_atomic [OF this] show ?thesis by (auto simp: toy_server_def others_act_def)
qed

section \<open>Protection\<close>

text \<open>
  C32: what the protector seals for a binding under its current key opens again as the same reference, with
  any later key source that still has the key. For any other tenant, session or binding it fails, unless the
  cipher itself opens, under the key derived with another salt, what it sealed under this one: the salts of
  two contexts always differ. A source that has lost the key fails with its own error, one that answers with
  a key of another identity and a reference of another crypto version fail to be opened in any context. Of
  the primitives only that decryption undoes encryption under the same key is used.
\<close>

theorem protected_reference_bound_to_context:
  assumes "sound_cipher c" "current_allocation_key ks = Inr k" "reference_typed a"
    and "protect_sandbox_allocation_reference c ks seed ctx a = Inr q"
  shows "(key_in_source k ks' \<longrightarrow>
        restore_sandbox_allocation_reference c ks' ctx q = Inr a
        \<and> (\<forall>ctx'. context_fits ctx \<and> context_fits ctx' \<and> ctx' \<noteq> ctx \<longrightarrow>
             sandbox_protection_salt ctx' \<noteq> sandbox_protection_salt ctx
             \<and> (restore_sandbox_allocation_reference c ks' ctx' q = Inl ProtectionFailed
                \<or> opens_across c (allocation_key_material k) (sandbox_protection_salt ctx)
                    (sandbox_protection_salt ctx') a)))
    \<and> (\<forall>ctx' e. source_allocation_key ks' (allocation_key_id k) (allocation_key_version k) = Inl e \<longrightarrow>
         restore_sandbox_allocation_reference c ks' ctx' q = Inl e)
    \<and> (\<forall>ctx' k'. source_allocation_key ks' (allocation_key_id k) (allocation_key_version k) = Inr k'
           \<and> (allocation_key_id k' \<noteq> allocation_key_id k \<or> allocation_key_version k' \<noteq> allocation_key_version k) \<longrightarrow>
         restore_sandbox_allocation_reference c ks' ctx' q = Inl ProtectionFailed)
    \<and> (\<forall>ctx' v. v \<noteq> protected_crypto_version q \<longrightarrow>
         restore_sandbox_allocation_reference c ks' ctx' (q\<lparr> protected_crypto_version := v \<rparr>) = Inl ProtectionFailed)"
proof -
  obtain k' where "current_allocation_key ks = Inr k'" "protected_key_id q = allocation_key_id k'"
    "protected_key_version q = allocation_key_version k'" and v: "protected_crypto_version q = allocation_crypto_version"
    by (rule protect_shape [OF assms(4)])
  with assms(2) have q: "protected_key_id q = allocation_key_id k" "protected_key_version q = allocation_key_version k"
    by simp_all
  have here: "restore_sandbox_allocation_reference c ks' ctx q = Inr a" if "key_in_source k ks'"
    using restore_protected [OF assms(1,2) that _ _ assms(4)] assms(3) by (simp add: reference_typed_def)
  show ?thesis
    using here restore_elsewhere [OF assms(2) _ assms(4)] protection_salt_inject v q
      restore_other_identity [OF v, of ks', unfolded q] restore_no_key [OF v, of ks', unfolded q]
    by (intro conjI allI impI) (auto simp: restore_other_crypto)
qed

definition toy_context :: "string \<Rightarrow> protection_context" where
  "toy_context sid = protection_context_for_repository ''t1'' sid ''b1''"

definition toy_sealed :: "u64 \<Rightarrow> string \<Rightarrow> protected_allocation_ref" where
  "toy_sealed v sid = \<lparr>
     protected_ciphertext = toy_header (derive_sandbox_allocation_key toy_cipher (toy_key v) (toy_context sid)) @ ''vm-1'',
     protected_key_id = ''k1'', protected_key_version = v, protected_crypto_version = allocation_crypto_version \<rparr>"

lemma toy_sealed_ok:
  assumes "v \<in> {1, 2}"
  shows "protected_ok (toy_sealed v ''s1'')"
proof -
  have "length (derive_sandbox_allocation_key toy_cipher (toy_key v) (toy_context ''s1'')) = 32"
    by (simp add: derive_sandbox_allocation_key_def sound_cipherD(2) [OF toy_cipher_sound])
  then show ?thesis
    using assms
    by (auto simp: toy_sealed_def protected_ok_def protected_allocation_ref_new_def is_safe_sandbox_allocation_key_id_def
        is_ascii_graphic_def protection_versions_in_range_def allocation_crypto_version_def i64_max_def)
qed

lemma toy_reference:
  assumes "v \<in> {1, 2}"
  shows "protect_sandbox_allocation_reference toy_cipher (toy_keys v) 0 (toy_context ''s1'') ''vm-1'' = Inr (toy_sealed v ''s1'')"
  using toy_sealed_ok [OF assms]
  by (simp add: protect_sandbox_allocation_reference_def toy_keys_def protected_ok_def toy_sealed_def)
    (simp add: toy_key_def toy_cipher_def)

lemma toy_typed: "reference_typed ''vm-1''"
  by code_simp

text \<open>Sealed under the first version of the key and opened after a rotation to the second.\<close>

theorem protected_reference_bound_to_context_witness:
  "restore_sandbox_allocation_reference toy_cipher (toy_keys 2) (toy_context ''s1'') (toy_sealed 1 ''s1'') = Inr ''vm-1''
    \<and> restore_sandbox_allocation_reference toy_cipher (toy_keys 2) (toy_context ''s2'') (toy_sealed 1 ''s1'')
      = Inl ProtectionFailed"
proof -
  have "current_allocation_key (toy_keys 1) = Inr (toy_key 1)" "key_in_source (toy_key 1) (toy_keys 2)"
    by (simp_all add: toy_keys_def key_in_source_def toy_key_def)
  note p = protected_reference_bound_to_context [OF toy_cipher_sound this(1) toy_typed toy_reference [of 1],
      of "toy_keys 2"]
  have "context_fits (toy_context sid)" if "sid \<in> {''s1'', ''s2''}" for sid
    using that by (auto simp: context_fits_def toy_context_def protection_context_for_repository_def fits_u64_def)
  moreover have "toy_context ''s2'' \<noteq> toy_context ''s1''"
    by (simp add: toy_context_def protection_context_for_repository_def)
  moreover have "\<not> opens_across toy_cipher (allocation_key_material (toy_key 1)) (sandbox_protection_salt (toy_context ''s1''))
      (sandbox_protection_salt (toy_context ''s2'')) ''vm-1''"
    by (simp add: opens_across_def toy_cipher_def sandbox_protection_salt_def toy_context_def
        protection_context_for_repository_def) code_simp
  ultimately show ?thesis using p \<open>key_in_source (toy_key 1) (toy_keys 2)\<close> by auto
qed

section \<open>The sweep\<close>

text \<open>
  C33: on a database that does not fail and that nobody else writes to, with the protector and its current
  key fixed throughout and a page size in range, when every row of the tenant off that key opens with the
  key source: the sweep returns after one pass, it has re-encrypted exactly those rows, each of them is on the current key now,
  every row opens to what it opened to before, and nothing else has changed. Of the cipher it is used that
  decryption undoes encryption under the same key and that every allocation reference can be encrypted; of
  the database that no two rows have one primary key and that the collation keeps different identifiers apart.
\<close>

theorem reencryption_sweep_settles:
  assumes "server_rivals v = []" "server_faults v = []" "1 \<le> n" "n \<le> max_sandbox_reencryption_page_size"
    and "sound_cipher c" "seals_references c"
    and "current_allocation_key ks = Inr k" "allocation_key_ok k" "key_in_source k ks"
    and "inj collate" "distinct (map binding_key (binding_rows (server_tables v)))"
    and "\<And>r. r \<in> set (binding_rows (server_tables v)) \<Longrightarrow> stale (key_protection_version k) t r \<Longrightarrow> row_opens c ks r"
  shows "\<exists>st rows. reencrypt_until_settled (\<lambda>_. sdkwork_protector c ks seed) collate t n v
      = Some (Inr st, v\<lparr> server_tables := (server_tables v)\<lparr> binding_rows := rows \<rparr> \<rparr>)
    \<and> settlement_passes st = 1
    \<and> settlement_reencrypted st
        = length (filter (stale (key_protection_version k) t) (binding_rows (server_tables v)))
    \<and> (\<forall>r\<in>set rows. \<not> stale (key_protection_version k) t r)
    \<and> map (row_plaintext (sdkwork_protector c ks seed)) rows
        = map (row_plaintext (sdkwork_protector c ks seed)) (binding_rows (server_tables v))
    \<and> list_all2 (\<lambda>r r'. if stale (key_protection_version k) t r then \<exists>q. r' = put_protected q r else r' = r)
        (binding_rows (server_tables v)) rows"
proof -
  let ?p = "sdkwork_protector c ks seed" and ?version = "key_protection_version k"
  let ?rows = "swept ?p ?version t (binding_rows (server_tables v))"
  have ready: "ready_to_sweep ?p collate ?version t (binding_rows (server_tables v))"
    by (rule sdkwork_ready [OF assms(5-12)])
  have "quiet_server v" using assms(1,2) by (simp add: quiet_server_def)
  from settled_swept [OF this ready assms(3,4)] obtain st where
    "reencrypt_until_settled (\<lambda>_. ?p) collate t n v = Some (Inr st, with_bindings ?rows v)"
    "settlement_passes st = 1"
    "settlement_reencrypted st = length (filter (stale ?version t) (binding_rows (server_tables v)))" by blast
  moreover have "\<not> stale ?version t r" if "r \<in> set ?rows" for r
    using that ready moved_current unfolding swept_def ready_to_sweep_def by (auto split: if_splits)
  moreover note swept_put [OF ready]
  ultimately show ?thesis
    using swept_plaintext [OF ready] unfolding with_bindings_def by blast
qed

definition toy_binding :: "protected_allocation_ref \<Rightarrow> binding_row" where
  "toy_binding q = put_protected q \<lparr> bound_tenant = ''t1'', bound_binding = ''b1'', bound_session = ''s1'',
     bound_sandbox = ''x1'', bound_provider = ''p1'', bound_ciphertext = None, bound_key_id = None,
     bound_key_version = None, bound_crypto_version = None \<rparr>"

definition toy_version :: protection_version where
  "toy_version = \<lparr> version_key_id = ''k1'', version_key_version = 2, version_crypto_version = 1 \<rparr>"

definition toy_bindings :: "binding_row list" where
  "toy_bindings = [toy_binding (toy_sealed 1 ''s1'')]"

lemma toy_opens:
  assumes "v \<in> {1, 2}"
  shows "restore_sandbox_allocation_reference toy_cipher (toy_keys 2) (toy_context ''s1'') (toy_sealed v ''s1'') = Inr ''vm-1''"
  by (rule restore_protected [OF toy_cipher_sound, of "toy_keys v" "toy_key v"])
    (use assms toy_typed toy_reference [OF assms] in \<open>auto simp: toy_keys_def key_in_source_def toy_key_def reference_typed_def\<close>)

lemma toy_moves:
  "reencrypt_sandbox_allocation_reference toy_cipher (toy_keys 2) 0 (toy_context ''s1'') (toy_sealed 1 ''s1'')
    = Inr (toy_sealed 2 ''s1'')"
  using toy_opens [of 1] toy_reference [of 2] by (simp add: reencrypt_sandbox_allocation_reference_def)

lemma toy_header_text: "valid_utf8 x \<Longrightarrow> valid_utf8 (toy_header k @ x)"
proof (induction k)
  case (Cons c k)
  have bits: "valid_utf8 (map (\<lambda>i. if f i then CHR ''1'' else CHR ''0'') is @ y) = valid_utf8 y" for f :: "nat \<Rightarrow> bool" and "is" y
    by (induction "is") simp_all
  have "toy_header (c # k) = map (\<lambda>i. if bit (of_char c :: nat) i then CHR ''1'' else CHR ''0'') [0..<8] @ toy_header k"
    by (simp add: toy_header_def)
  then show ?case using Cons by (simp only: bits append_assoc)
qed (simp add: toy_header_def)

lemma toy_seals: "seals_references toy_cipher"
  unfolding seals_references_def
proof (intro allI impI)
  fix n :: nat and key a :: string assume "length key = 32" "reference_typed a"
  then show "\<exists>x. encrypt toy_cipher n key a = Some x \<and> sealed_text x"
    using toy_header_text [of a key]
    by (auto simp: toy_cipher_def sealed_text_def reference_typed_def allocation_ref_new_def
        max_private_reference_length_def split: if_splits)
qed

lemma toy_checks:
  assumes "v \<in> {1, 2}"
  shows "binding_checks (put_protected (toy_sealed v ''s1'') (toy_binding q))"
proof -
  let ?c = "protected_ciphertext (toy_sealed v ''s1'')"
  have "length ?c \<le> 8192"
    using toy_sealed_ok [OF assms] by (auto simp: protected_ok_def protected_allocation_ref_new_def split: if_splits)
  moreover have "valid_utf8 ?c" "?c \<noteq> []"
    by (simp_all add: toy_sealed_def toy_header_text)
  ultimately have "char_length_between 1 8192 ?c"
    by (intro sealed_text_char_length) (simp add: sealed_text_def)
  moreover have "char_length_between 1 128 ''b1''" "char_length_between 1 128 ''x1''" "char_length_between 1 128 ''p1''"
    "char_length_between 1 128 ''k1''"
    by (simp_all add: char_length_between_def utf8_length_def)
  ultimately show ?thesis
    using assms
    by (auto simp: binding_checks_def toy_binding_def put_protected_def toy_sealed_def is_ascii_graphic_def
        allocation_crypto_version_def)
qed

lemma toy_row:
  "stored_id_ok ''s1''" "stored_id_ok ''b1''" "holds_protected q (toy_binding q)"
  "bound_tenant (toy_binding q) = ''t1''" "bound_session (toy_binding q) = ''s1''" "bound_binding (toy_binding q) = ''b1''"
  "row_context (toy_binding q) = toy_context ''s1''"
  "matches_sandbox_protected_allocation_reference toy_version (toy_sealed 2 ''s1'')"
  by (simp_all add: stored_id_ok_def stored_id_def opaque_id_parse_def validate_opaque_id_def max_opaque_id_length_def
      is_opaque_id_byte_def toy_binding_def holds_protected_def put_protected_def row_context_def toy_context_def
      matches_sandbox_protected_allocation_reference_def toy_version_def toy_sealed_def allocation_crypto_version_def)

lemma toy_row_opens: "row_opens toy_cipher (toy_keys 2) (toy_binding (toy_sealed 1 ''s1''))"
  using toy_checks [of 1 "toy_sealed 1 ''s1''"] toy_row toy_sealed_ok [of 1] toy_opens [of 1]
  unfolding row_opens_def
  by (intro conjI exI [of _ "toy_sealed 1 ''s1''"] exI [of _ "''vm-1''"]) (simp_all add: toy_binding_def put_protected_def)

lemma toy_key_facts:
  "current_allocation_key (toy_keys 2) = Inr (toy_key 2)" "key_in_source (toy_key 2) (toy_keys 2)"
  "allocation_key_ok (toy_key 2)" "key_protection_version (toy_key 2) = toy_version"
  by (simp_all add: toy_keys_def toy_key_def key_in_source_def allocation_key_ok_def allocation_key_new_def
      is_ascii_graphic_def i64_max_def key_protection_version_def toy_version_def allocation_crypto_version_def)

lemma toy_stale: "filter (stale toy_version ''t1'') toy_bindings = toy_bindings"
  by (simp add: toy_bindings_def stale_def needs_reencryption_def toy_binding_def put_protected_def toy_sealed_def
      toy_version_def)

theorem reencryption_sweep_settles_witness:
  "\<exists>st v'. reencrypt_until_settled (\<lambda>_. toy_protector 2) id ''t1'' 1
      (toy_server (empty_tables\<lparr> binding_rows := toy_bindings \<rparr>)) = Some (Inr st, v')
    \<and> settlement_passes st = 1 \<and> settlement_reencrypted st = 1"
proof -
  let ?v = "toy_server (empty_tables\<lparr> binding_rows := toy_bindings \<rparr>)"
  have "row_opens toy_cipher (toy_keys 2) r" if "r \<in> set (binding_rows (server_tables ?v))" for r
    using that toy_row_opens by (simp add: toy_server_def toy_bindings_def)
  moreover have "distinct (map binding_key (binding_rows (server_tables ?v)))"
    by (simp add: toy_server_def toy_bindings_def)
  ultimately show ?thesis
    using reencryption_sweep_settles [OF _ _ _ _ toy_cipher_sound toy_seals toy_key_facts(1,3,2), of ?v 1 id "''t1''" 0]
      toy_stale
    by (auto simp: toy_server_def max_sandbox_reencryption_page_size_def toy_bindings_def toy_protector_def toy_key_facts(4))
qed

text \<open>
  A pass that settles need not leave every row on the current key: while it runs, a save that sealed its
  reference before the rotation adds a row, no conflict is counted, and the row stays on the old key.
\<close>

definition late_row :: binding_row where
  "late_row = (toy_binding (toy_sealed 1 ''s1''))\<lparr> bound_binding := ''b0'', bound_session := ''s0'',
     bound_sandbox := ''x0'' \<rparr>"

definition contended_server :: sql_server where
  "contended_server = (toy_server (empty_tables\<lparr> binding_rows := toy_bindings \<rparr>))
     \<lparr> server_rivals := [(0, id), (0, \<lambda>tb. tb\<lparr> binding_rows := binding_rows tb @ [late_row] \<rparr>)] \<rparr>"

lemma contended_select:
  "run_state (single_statement (select_reencryption_candidates id ''t1'' ''k1'' 2 1 None (Suc (Suc 0)))) contended_server
    = (Inr toy_bindings, contended_server\<lparr> server_rivals := tl (server_rivals contended_server), server_clock := 0 \<rparr>)"
  by (simp add: single_statement_def contended_server_def others_act_def take_fault_def run_statement_def toy_server_def
      select_reencryption_candidates_def toy_bindings_def toy_binding_def put_protected_def needs_reencryption_def
      toy_sealed_def)

lemma contended_replace:
  assumes "v = contended_server\<lparr> server_rivals := tl (server_rivals contended_server), server_clock := 0 \<rparr>"
  shows "run_state (single_statement (replace_protected ''t1''
      (candidate_of (toy_sealed 1 ''s1'') (toy_binding (toy_sealed 1 ''s1'')))
      (toy_sealed 2 ''s1''))) v
    = (Inr 1, v\<lparr> server_rivals := [], server_tables := empty_tables\<lparr> binding_rows :=
        [put_protected (toy_sealed 2 ''s1'') (toy_binding (toy_sealed 1 ''s1'')), late_row] \<rparr> \<rparr>)"
proof -
  have late: "bound_binding late_row = ''b0''" by (simp add: late_row_def)
  show ?thesis
    unfolding assms single_statement_def
    by (simp add: contended_server_def others_act_def take_fault_def run_statement_def toy_server_def replace_protected_def
        Let_def update_rows_def toy_bindings_def candidate_of_def toy_row late toy_checks)
qed

theorem settled_sweep_can_miss_a_row:
  "\<exists>st v'. reencrypt_until_settled (\<lambda>_. toy_protector 2) id ''t1'' 1 contended_server = Some (Inr st, v')
    \<and> settlement_passes st = 1 \<and> settlement_reencrypted st = 1
    \<and> (\<exists>r\<in>set (binding_rows (server_tables v')). stale toy_version ''t1'' r)"
proof -
  let ?r = "toy_binding (toy_sealed 1 ''s1'')"
  let ?v = "contended_server\<lparr> server_rivals := tl (server_rivals contended_server), server_clock := 0 \<rparr>"
  let ?v' = "?v\<lparr> server_rivals := [], server_tables := empty_tables\<lparr> binding_rows :=
        [put_protected (toy_sealed 2 ''s1'') ?r, late_row] \<rparr> \<rparr>"
  have current: "current_protection_version (toy_protector 2) = Inr toy_version"
    using sdkwork_ready [OF toy_cipher_sound toy_seals toy_key_facts(1,3,2) inj_on_id, of "[]"]
    by (simp add: ready_to_sweep_def toy_protector_def toy_key_facts(4))
  have cand: "parse_reencryption_candidate ''t1'' ?r = Inr (candidate_of (toy_sealed 1 ''s1'') ?r)"
    using parse_candidate [of ?r "toy_sealed 1 ''s1''"] toy_sealed_ok [of 1] by (simp add: toy_row)
  have ctx: "protection_context_for_repository ''t1'' ''s1'' ''b1'' = toy_context ''s1''" by (simp add: toy_context_def)
  have moves: "reencrypt_reference (toy_protector 2) (toy_context ''s1'') (toy_sealed 1 ''s1'') = Inr (toy_sealed 2 ''s1'')"
    using toy_moves by (simp add: toy_protector_def sdkwork_protector_def)
  have fields: "candidate_session (candidate_of q ?r) = ''s1''" "candidate_binding (candidate_of q ?r) = ''b1''"
    "candidate_protected (candidate_of q ?r) = q" for q by (simp_all add: candidate_of_def toy_row)
  have version: "version_key_id toy_version = ''k1''" "i64_from_u64 (version_key_version toy_version) e = Inr 2"
    "i16_from_u16 (version_crypto_version toy_version) e = Inr 1" for e
    by (simp_all add: toy_version_def i64_from_u64_def i16_from_u16_def i64_max_def)
  have protector: "run_state (with_protector ps f) v = (f (ps (server_clock v)), v)"
    for ps and f :: "allocation_protector \<Rightarrow> 'b repository_result" and v
    by (simp add: with_protector_def)
  have loop: "run_state (reencrypt_candidates (\<lambda>_. toy_protector 2) ''t1'' toy_version
      [candidate_of (toy_sealed 1 ''s1'') ?r] 0 0) ?v = (Inr (1, 0), ?v')"
    by (simp add: protector try_bind_run fields ctx moves ensure_sandbox_reencryption_target_def toy_row
        protected_ok_ranges toy_sealed_ok contended_replace [OF refl])
  have page: "run_state (reencrypt_page (\<lambda>_. toy_protector 2) id ''t1'' None 1) contended_server
      = (Inr \<lparr> page_scanned = 1, page_reencrypted = 1, page_conflicts = 0, page_next = None \<rparr>, ?v')"
    unfolding reencrypt_page_def
    by (simp add: max_sandbox_reencryption_page_size_def protector current try_bind_run version
        contended_select toy_bindings_def map_results_def cand loop del: reencrypt_candidates.simps)
  have "stale toy_version ''t1'' late_row"
    by (simp add: stale_def late_row_def toy_binding_def put_protected_def needs_reencryption_def toy_version_def
        toy_sealed_def)
  then show ?thesis
    by (simp add: reencrypt_until_settled_def max_sandbox_reencryption_page_size_def
        max_sandbox_reencryption_settle_passes_def eval_nat_numeral reencrypt_pass.simps page [unfolded One_nat_def] add_page_def)
qed

section \<open>The lifecycle service on the database\<close>

lemma sql_lifecycle_emits:
  assumes "k \<noteq> Create"
  shows "emits (\<lambda>_. True) (lifecycle_run k (observed_service (sql_service p collate ps owner d timeout gs gb)) c)
    (\<lambda>r evs. (isl r \<and> evs = []) \<or> (\<exists>l. lease_tenant_id l = command_tenant_id c
       \<and> lease_session_id l = command_session_id c \<and> concludes l {} k (command_operation_id c) r evs))"
  using assms sql_service.command_runs [of c p collate ps owner d timeout gs gb]
  by (cases k) simp_all

text \<open>
  C11: on the SQL repository a start, stop or destroy keeps the service's protocol whatever the database
  holds, however it fails and whatever its other clients do: every provider call carries the fencing token
  of a lease just renewed, every save carries a valid session of the command under that lease with the
  successor of the version it read, every allocation asked for was announced by a saved intent, and every
  allocation handed out is saved, or its destruction was asked for (confirmed or not), or the lease was lost
  and it is left to the controller that took the lease over.
\<close>

theorem sql_commands_keep_protocol:
  assumes "k \<noteq> Create"
    and "run_state (lifecycle_run k (observed_service (sql_service p collate ps owner d timeout gs gb)) c)
      (w, []) = (r, (w', evs))"
  shows "\<exists>l. lease_tenant_id l = command_tenant_id c \<and> lease_session_id l = command_session_id c
    \<and> fenced_calls l evs \<and> saves_valid l evs \<and> write_ahead {} evs \<and> allocations_accounted evs"
proof -
  obtain l0 :: sandbox_session_lease where l0: "lease_tenant_id l0 = command_tenant_id c"
    "lease_session_id l0 = command_session_id c"
    by (metis sandbox_session_lease.select_convs(1,2))
  have "(isl r \<and> evs = []) \<or> (\<exists>l. lease_tenant_id l = command_tenant_id c
      \<and> lease_session_id l = command_session_id c \<and> concludes l {} k (command_operation_id c) r evs)"
    using sql_lifecycle_emits [OF assms(1), of p collate ps owner d timeout gs gb c] assms(2)
    unfolding emits_def by (metis append_Nil prod.inject)
  then obtain l where "lease_tenant_id l = command_tenant_id c" "lease_session_id l = command_session_id c"
    "protocol l {} evs"
    using l0 unfolding concludes_def by (metis protocol_Nil)
  then show ?thesis by (auto simp: protocol_def)
qed

definition toy_world :: "sql_server \<times> unit" where
  "toy_world = (snd (run_state (sql_insert_sandbox_session (toy_protector 1) toy_session) (toy_server empty_tables)), ())"

definition toy_run :: "sandbox_session lifecycle_result \<times> (sql_server \<times> unit) \<times> lifecycle_event list" where
  "toy_run = run_state (lifecycle_run Start (observed_service (sql_service (toy_protector 1) id [demo_provider] ''o1''
     30000000000 1 (State (\<lambda>s. (''x1'', s))) (State (\<lambda>s. (''b1'', s))))) (demo_command ''op2'')) (toy_world, [])"

theorem sql_commands_keep_protocol_witness:
  "\<exists>l. lease_tenant_id l = ''t1'' \<and> lease_session_id l = ''s1'' \<and> fenced_calls l (snd (snd toy_run))
    \<and> saves_valid l (snd (snd toy_run)) \<and> write_ahead {} (snd (snd toy_run))
    \<and> allocations_accounted (snd (snd toy_run))"
proof -
  have "run_state (lifecycle_run Start (observed_service (sql_service (toy_protector 1) id [demo_provider] ''o1''
      30000000000 1 (State (\<lambda>s. (''x1'', s))) (State (\<lambda>s. (''b1'', s))))) (demo_command ''op2'')) (toy_world, [])
    = (fst toy_run, (fst (snd toy_run), snd (snd toy_run)))"
    by (simp add: toy_run_def)
  from sql_commands_keep_protocol [OF _ this] show ?thesis by simp
qed

end
