(* ===== verification/Spec2Isabelle.thy ===== *)
theory Spec2Isabelle
  imports Pool_Properties Txn_Properties Session_Properties Service_Properties
    Instance_Properties Fire_Properties Command_Properties Lane_Properties Sql_Properties
begin

text \<open>
  Verification development of the SDKWork Sandbox control plane (Rust, \<open>src/crates\<close>).

  \<^bold>\<open>The program.\<close> A sandbox session is the durable record of one sandbox of a tenant: a state
  machine, a ledger of operations and, while it holds one, the binding to a runtime allocated by a
  provider. The lifecycle service runs the commands create, start, stop and destroy and a reconciler
  over a session store and a set of providers; several controllers may run at once and are kept apart
  by leases with fencing tokens. The instance service keeps the
  console's provisioning records. Beside it stand two in-memory control registries: the runtime pool,
  which prepares, claims, releases, quarantines and retires warm slots, and the workspace runtime
  transactions, which take a runtime through 21 ordered stages, with checkpoints and compensation.
  The Firecracker provider runs the provider port on a node: it checks the fencing token against a store
  on disk, keeps a bounded registry of allocations and drives a host isolation broker. Commands run in a
  sandbox behind an admission boundary and a bounded registry of live executions, as local processes or
  over a guest channel. The launch lane takes a plan through provisioning to the start command published
  for its template and records what happened. Sessions are kept in PostgreSQL by an adapter that seals
  allocation references and re-encrypts them when the key rotates.

  \<^bold>\<open>Theories and sources.\<close>
    \<^item> \<open>Sandbox_Prelude\<close>: 64- and 32-bit arithmetic as the code uses it (checked, saturating), B-tree maps
      as sorted association lists, opaque text validators, wire-name tables, and the locales of state
      machines (\<open>invariant_machine\<close>, \<open>growing_machine\<close>, \<open>closed_table\<close>, \<open>wire_names\<close>).
    \<^item> \<open>Pool_Types\<close>, \<open>Pool_Registry\<close>: crate \<open>sdkwork-intelligence-sandbox-pool-control\<close>
      (\<open>bounds.rs\<close>, \<open>error.rs\<close>, \<open>fencing.rs\<close>, \<open>identity.rs\<close>, \<open>state.rs\<close>, \<open>slot.rs\<close>, \<open>claim.rs\<close>,
      \<open>port.rs\<close>, \<open>registry.rs\<close>). \<open>Pool_Invariant\<close>, \<open>Pool_Evolution\<close>, \<open>Pool_Reconcile\<close>, \<open>Pool_Evidence\<close>,
      \<open>Pool_Refill\<close>: its invariant, how states grow, and the lemmas of the reconciliation passes.
    \<^item> \<open>Txn_Types\<close>, \<open>Txn_Registry\<close>: crate \<open>sdkwork-intelligence-sandbox-transaction-control\<close>
      (\<open>stage.rs\<close>, \<open>state.rs\<close>, \<open>checkpoint.rs\<close>, \<open>compensation.rs\<close>, \<open>registry.rs\<close>). \<open>Txn_Invariant\<close>,
      \<open>Txn_Evolution\<close>, \<open>Txn_Progress\<close>: invariant, growth, and the run to release.
    \<^item> \<open>Spi_Types\<close>: crate \<open>sdkwork-sandbox-provider-spi\<close> (\<open>capability.rs\<close>, \<open>identity.rs\<close>, \<open>error.rs\<close>,
      \<open>provider.rs\<close>).
    \<^item> \<open>Session_Model\<close>, \<open>Session_Repository\<close>, \<open>Session_Ledger\<close>: \<open>model.rs\<close>, \<open>error.rs\<close> and
      \<open>repository.rs\<close> of crate \<open>sdkwork-intelligence-sandbox-service\<close>: the session, its operations, the
      check of a stored session, snapshots and the protection of allocation references. \<open>session_valid\<close>
      is the invariant: a stored session passes the check, its state is the replay of its ledger.
    \<^item> \<open>Session_Store\<close>, \<open>Session_Store_Inv\<close>: crate \<open>sdkwork-intelligence-sandbox-repository-memory\<close>,
      its steps by any number of controllers, the invariant \<open>repository_ok\<close> and the growth relation.
    \<^item> \<open>Session_Service\<close>, \<open>Session_Lifecycle\<close>: \<open>service.rs\<close>, \<open>command.rs\<close>, \<open>reconciliation.rs\<close>. The
      service is a record of ports over a world \<open>'w\<close>; a command is a state transformer of that world.
    \<^item> \<open>Service_Log\<close>, \<open>Service_Protocol\<close>, \<open>Service_Flows\<close>, \<open>Service_Commands\<close>: the protocol the service
      follows towards its ports, as triples over the events of an observed run, proved once in the locale
      \<open>service_contract\<close> from what the service relies on.
    \<^item> \<open>Session_World\<close>: the service on the in-memory store with other controllers writing between its
      calls; interprets the two contracts. \<open>Service_Quiet\<close>: the same world without interference, where a
      start succeeds. \<open>Service_Mirror\<close>: observing a command changes neither its answer nor the world.
    \<^item> \<open>Instance_Model\<close>, \<open>Instance_Store\<close>, \<open>Instance_Service\<close>: \<open>instance.rs\<close> and
      \<open>instance_service.rs\<close> of crate \<open>sdkwork-intelligence-sandbox-service\<close>, with the in-memory adapter of
      its test module. \<open>Instance_Store_Inv\<close>: the rows under any number of writers; \<open>Instance_World\<close>: the
      service on them under interference and lost calls; \<open>Instance_Listing\<close>: the two listings;
      \<open>Instance_Properties\<close>: its properties and a scenario.
    \<^item> \<open>Fire_Preflight\<close>, \<open>Fire_Fencing\<close>, \<open>Fire_Provider\<close>, \<open>Fire_Calls\<close>: \<open>artifact.rs\<close>,
      \<open>preflight.rs\<close>, \<open>fencing.rs\<close>, \<open>broker.rs\<close> and \<open>lifecycle.rs\<close> of crate
      \<open>sdkwork-sandbox-provider-firecracker\<close>. A call is a machine whose steps are the code's lock sections
      and awaited calls. \<open>Fire_Fencing_Spec\<close>: the contract of a fencing store (\<open>fencing_port\<close>) and its
      refinement by both stores. \<open>Fire_Threads\<close>, \<open>Fire_Safety\<close>: interleaved calls, dropped calls and
      restarts. \<open>Fire_Behaviour\<close>: each call on its own. \<open>Fire_Scenario\<close>, \<open>Fire_Properties\<close>: schedules
      and properties.
    \<^item> \<open>Command_Types\<close>: \<open>command.rs\<close> of crate \<open>sdkwork-sandbox-provider-spi\<close>. \<open>Command_Boundary\<close>,
      \<open>Command_Registry\<close>, \<open>Command_Runner\<close>, \<open>Command_Executor\<close>: \<open>host_boundary/mod.rs\<close>,
      \<open>command_admission.rs\<close>, \<open>command_executor.rs\<close>, \<open>process_runner.rs\<close> of crate
      \<open>sdkwork-sandbox-provider-local\<close> and \<open>guest_boundary.rs\<close>, \<open>guest_channel.rs\<close>,
      \<open>command_admission.rs\<close>, \<open>command_executor.rs\<close> of the Firecracker crate. The operating system and the
      guest are parameters. \<open>Command_Threads\<close>: interleaved executions; \<open>Command_Properties\<close>: properties.
    \<^item> \<open>Lane_Prelude\<close>, \<open>Launch_Records\<close>, \<open>Build_Records\<close>, \<open>Template_Registry\<close>: the records of the launch,
      worker, build, snapshot and template authorities (crates \<open>sdkwork-intelligence-sandbox-*-authority\<close>).
      \<open>Worker_Lane\<close>: the adapter of \<open>sdkwork-intelligence-sandbox-worker-local\<close> and the start-command port
      of \<open>sdkwork-intelligence-sandbox-worker-local-exec\<close>. \<open>Lane_Properties\<close>: their properties.
    \<^item> \<open>Sql_Codec\<close>, \<open>Sql_Statements\<close>, \<open>Sql_Repository\<close>, \<open>Sql_Protection\<close>, \<open>Sql_Reencryption\<close>: crate
      \<open>sdkwork-intelligence-sandbox-repository-sqlx\<close> (\<open>codec.rs\<close>, the statements and then the operations of
      \<open>repository.rs\<close>, \<open>encryption.rs\<close>, \<open>reencryption.rs\<close>) and the session tables of
      \<open>database/ddl/baseline/postgres\<close>. \<open>Sql_Relation\<close>, \<open>Sql_Simulation\<close>, \<open>Sql_Loading\<close>,
      \<open>Sql_Refinement\<close>: the tables refine the in-memory store (\<open>store_related\<close>, locale \<open>simulation\<close>).
      \<open>Sql_Sweep\<close>: the re-encryption sweep; \<open>Sql_Service\<close>: the service on the SQL repository;
      \<open>Sql_Properties\<close>: properties.
    \<^item> \<open>Pool_Scenario\<close>, \<open>Txn_Scenario\<close>, \<open>Session_Scenario\<close>, \<open>Service_Scenario\<close>: concrete states and runs
      for the witnesses. \<open>Pool_Properties\<close>, \<open>Txn_Properties\<close>, \<open>Session_Properties\<close>,
      \<open>Service_Properties\<close>: the properties.

  \<^bold>\<open>Conventions.\<close> A struct is a record, an enum a datatype, \<open>u64\<close> and \<open>u32\<close> are words, \<open>i64\<close> is an
  integer with its bounds written out; strings are lists of bytes. A fallible operation returns
  \<open>error + value\<close>. A mutex or lock is held for a whole operation in the code, so an operation is one
  step; poisoned locks are not modelled. A clock is an argument of the operation that reads it.
  Durations are nanoseconds. Random identifiers, providers, the cipher of allocation references and
  the session repository are parameters; the in-memory repository is modelled and interprets the
  contract of the last, and so does the SQL one. Of PostgreSQL the model has what the statements use: rows,
  constraints, transactions that take effect at once or not at all, a clock, faults, lost replies and
  other clients that change the tables between transactions. Loops are structural or have a proved
  measure, but for two. The client that follows list cursors has fuel, the number of rows plus one, proved
  to be enough. A pass of the re-encryption sweep need not end while others add rows ahead of it, so it is a
  \<open>partial_function\<close>; on a database nobody else writes to it is proved to return.

  \<^bold>\<open>What the properties show.\<close>
    \<^item> Service: every provider call is fenced and every save valid (C1), allocations are written ahead and
      each is saved, destroyed, behind a lost lease or a possible orphan of a destroy that was not confirmed,
      which no success hides (C2), a successful answer is persisted (C3), an undisturbed start succeeds, from
      any startable session (C12), and creates are idempotent (C40).
    \<^item> Store: a superseded lease never writes (C4), stored sessions are valid (C8), saves are fenced
      compare-and-swaps (C9).
    \<^item> SQL repository: it refines the in-memory store under faults, lost replies and other controllers (C10), so
      the service keeps its protocol on it (C11); sealed references open again for their tenant, session
      and binding and for no other unless the cipher itself fails (C32), and the sweep moves exactly the rows
      that are off the current key (C33).
    \<^item> Pool and transactions: exclusive claims (C5) and transactions (C7), released means complete (C6),
      slots become ready only by fresh evidence (C19), exact success conditions (C38), what a stale token can
      and cannot do (C39).
    \<^item> Firecracker provider: broker calls are fenced under every interleaving (C13) and mutually exclusive
      per binding (C14), the durable store refines the abstract fence (C15), readiness is earned (C16),
      stale calls have no effect (C17), a destroy cleans up or quarantines (C18).
    \<^item> Commands: a run is confined and settles (C20, C21), the live registry is exactly the running
      executions within its budgets (C22, C25), cancellations are fenced (C24), executions return (C26),
      the encoding under the fingerprints is injective (C27).
    \<^item> Launch lane: a started run ran the published command (C23), every branch of a run is accounted (C28),
      published commands never change (C29), references are earned (C30), terminal records are final (C31).
    \<^item> Instances: an update loses no concurrent work (C34), stored rows are valid (C35), active instances
      are never removed (C36), and cursor pages tile the listed scope (C37).
  The theorems of the \<open>_Properties\<close> theories without a number complete them: two schedules the in-flight
  mark of the Firecracker provider does not exclude, snapshots round-trip, the
  incremental persistence window rebuilds the ledger, saves are atomic, reconciliation is bounded and fair,
  and a sweep that settles while others write can leave a row on the old key.

  \<^bold>\<open>Not modelled.\<close> The SQL adapter of the instance registry (\<open>instance.rs\<close>), the HTTP routes and their
  assembly, the gateway, the database and service hosts and the command line are wiring, input and output
  around the modelled core; the conformance suites of the provider interface and the fake guest host are
  test code. The ciphers, the key derivation, SHA-256, the operating system, the guest, the isolation
  broker and its host are parameters. Of the cipher the lemmas assume that decryption undoes encryption
  under the same key, of the derivation that its keys have 32 bytes, and for the sweep that every allocation
  reference can be encrypted; that no other key opens a sealed reference is not assumed, as it holds only up
  to probability. Log lines have no effect on any modelled state.
\<close>

end
